(* ===== verification/Inet_Prelude.thy ===== *)
theory Inet_Prelude
  imports Main "HOL-Library.Word"
begin

text \<open>
  Shared vocabulary of the development: the result type of operations that may stop the
  simulation (a C++ \<open>ASSERT\<close> or a \<open>cRuntimeError\<close>), the sequencing of such operations,
  the machine integer types and the generic list lemmas that several components use.
\<close>

section \<open>Errors as values\<close>

text \<open>
  \<open>AssertionFailed\<close> is a failing \<open>ASSERT(...)\<close> (or \<open>CHUNK_CHECK_...\<close>) of the source,
  \<open>RuntimeError m\<close> is \<open>throw cRuntimeError(m)\<close> with the constant part of its message.
  Both end the simulation run, so no state is carried along. \<open>UndefinedBehaviour m\<close> is an
  access the C++ language gives no meaning to, such as through the end iterator of a container
  or to a deleted message.
\<close>

datatype inet_error = AssertionFailed | RuntimeError string | UndefinedBehaviour string | RoundsExhausted

type_synonym 'a outcome = "inet_error + 'a"

definition bindE :: "'a outcome \<Rightarrow> ('a \<Rightarrow> 'b outcome) \<Rightarrow> 'b outcome" where
  "bindE m f = (case m of Inl e \<Rightarrow> Inl e | Inr a \<Rightarrow> f a)"

definition assertE :: "bool \<Rightarrow> unit outcome" where
  "assertE b = (if b then Inr () else Inl AssertionFailed)"

named_theorems outcome_simps \<open>evaluation of sequenced operations\<close>

lemma bindE_Inr [simp, outcome_simps]: "bindE (Inr a) f = f a"
  by (simp add: bindE_def)

lemma bindE_Inl [simp, outcome_simps]: "bindE (Inl e) f = Inl e"
  by (simp add: bindE_def)

lemma assertE_True [simp, outcome_simps]: "b \<Longrightarrow> assertE b = Inr ()"
  by (simp add: assertE_def)

lemma assertE_False [simp, outcome_simps]: "\<not> b \<Longrightarrow> assertE b = Inl AssertionFailed"
  by (simp add: assertE_def)

lemma bindE_eq_Inr_iff [outcome_simps]:
  "bindE m f = Inr b \<longleftrightarrow> (\<exists>a. m = Inr a \<and> f a = Inr b)"
  by (cases m) auto

lemma bindE_eq_Inl_iff:
  "bindE m f = Inl e \<longleftrightarrow> m = Inl e \<or> (\<exists>a. m = Inr a \<and> f a = Inl e)"
  by (cases m) auto

lemma assertE_eq_Inr_iff [outcome_simps]: "assertE b = Inr u \<longleftrightarrow> b"
  by (simp add: assertE_def)

lemma assertE_eq_Inl_iff: "assertE b = Inl e \<longleftrightarrow> \<not> b \<and> e = AssertionFailed"
  by (auto simp: assertE_def)

lemma bindE_assoc: "bindE (bindE m f) g = bindE m (\<lambda>a. bindE (f a) g)"
  by (cases m) auto

text \<open>An operation that, if it returns at all, returns a value with a given property.\<close>

definition returns :: "'a outcome \<Rightarrow> ('a \<Rightarrow> bool) \<Rightarrow> bool" where
  "returns m P \<longleftrightarrow> (case m of Inl _ \<Rightarrow> True | Inr a \<Rightarrow> P a)"

lemma returns_Inr [simp]: "returns (Inr a) P \<longleftrightarrow> P a"
  by (simp add: returns_def)

lemma returns_Inl [simp]: "returns (Inl e) P"
  by (simp add: returns_def)

lemma returns_bindE:
  "returns m P \<Longrightarrow> (\<And>a. P a \<Longrightarrow> returns (f a) Q) \<Longrightarrow> returns (bindE m f) Q"
  by (cases m) auto

lemma returns_assertE: "returns (assertE b) (\<lambda>_. b)"
  by (simp add: assertE_def)

lemma returnsD: "returns m P \<Longrightarrow> m = Inr a \<Longrightarrow> P a"
  by simp

lemma returns_mono: "returns m P \<Longrightarrow> (\<And>a. P a \<Longrightarrow> Q a) \<Longrightarrow> returns m Q"
  by (cases m) auto

text \<open>A loop whose body may fail.\<close>

fun foldE :: "('x \<Rightarrow> 's \<Rightarrow> 's outcome) \<Rightarrow> 'x list \<Rightarrow> 's \<Rightarrow> 's outcome" where
  "foldE f [] s = Inr s"
| "foldE f (x # xs) s = bindE (f x s) (foldE f xs)"

lemma foldE_append: "foldE f (xs @ ys) s = bindE (foldE f xs s) (foldE f ys)"
proof (induction xs arbitrary: s)
  case (Cons x xs)
  then show ?case by (simp add: bindE_assoc bindE_def split: sum.split)
qed simp

lemma foldE_invariant:
  assumes "\<And>x s. x \<in> set xs \<Longrightarrow> P s \<Longrightarrow> \<exists>s'. f x s = Inr s' \<and> P s'" and "P s"
  shows "\<exists>s'. foldE f xs s = Inr s' \<and> P s'"
  using assms
proof (induction xs arbitrary: s)
  case (Cons x xs)
  obtain s' where "f x s = Inr s'" "P s'" using Cons.prems by force
  then show ?case using Cons.IH [of s'] Cons.prems(1) by auto
qed simp

section \<open>Machine integers\<close>

type_synonym u8 = "8 word"
type_synonym u16 = "16 word"
type_synonym u32 = "32 word"
type_synonym u64 = "64 word"

text \<open>
  Simulation time (\<open>simtime_t\<close>), a fixed-point number: an integer count of picoseconds,
  OMNeT++'s default resolution.
\<close>

type_synonym simtime = int

definition seconds :: "int \<Rightarrow> simtime" where
  "seconds n = n * 10 ^ 12"

lemma unat_of_nat_small: "x < 2 ^ LENGTH('n) \<Longrightarrow> unat (of_nat x :: 'n::len word) = x"
  by (simp add: unat_of_nat)

lemma unat_of_nat_u32: "i < 2 ^ 31 \<Longrightarrow> unat (of_nat i :: u32) = i"
  by (simp add: unat_of_nat)

lemma of_nat_u32_inject: "i < 2 ^ 31 \<Longrightarrow> j < 2 ^ 31 \<Longrightarrow> (of_nat i = (of_nat j :: u32)) \<longleftrightarrow> i = j"
  by (metis unat_of_nat_u32)

lemma unat_diff_shift:
  fixes b m x :: "'a::len word"
  assumes "unat (m - b) \<le> unat (x - b)"
  shows "unat (x - m) = unat (x - b) - unat (m - b)"
proof -
  have "x - m = (x - b) - (m - b)" by simp
  moreover have "m - b \<le> x - b" using assms by (simp add: word_le_nat_alt)
  ultimately show ?thesis by (metis unat_sub)
qed

lemma unat_diff_inject:
  fixes b x y :: "'a::len word"
  shows "unat (x - b) = unat (y - b) \<longleftrightarrow> x = y"
  by (simp add: unsigned_word_eqI word_unat_eq_iff [symmetric])

section \<open>Timers\<close>

text \<open>
  A timer message is deleted (a null pointer), idle, or scheduled for a point in time.
  \<open>scheduleAt\<close> refuses a null pointer and a message that is already scheduled.
\<close>

datatype timer = Deleted | Idle | Scheduled simtime

fun isScheduled :: "timer \<Rightarrow> bool" where
  "isScheduled (Scheduled _) = True"
| "isScheduled _ = False"

text \<open>\<open>if (timer) cancelEvent(timer)\<close>\<close>

fun cancelIfThere :: "timer \<Rightarrow> timer" where
  "cancelIfThere Deleted = Deleted"
| "cancelIfThere _ = Idle"

fun schedule :: "timer \<Rightarrow> simtime \<Rightarrow> timer outcome" where
  "schedule Deleted t = Inl AssertionFailed"
| "schedule (Scheduled _) t = Inl (RuntimeError ''scheduleAt(): message is already scheduled'')"
| "schedule Idle t = Inr (Scheduled t)"

section \<open>Lists\<close>

lemma dropWhile_split:
  "\<exists>pre. xs = pre @ dropWhile P xs \<and> (\<forall>x \<in> set pre. P x)"
  by (rule exI [of _ "takeWhile P xs"]) (auto dest: set_takeWhileD)

lemma dropWhile_Cons_head: "dropWhile P xs = y # ys \<Longrightarrow> \<not> P y"
  by (induction xs) (auto split: if_splits)

lemma map_upd_range:
  "i \<le> j \<Longrightarrow> j \<le> length xs \<Longrightarrow>
     length (take i xs @ map f (take (j - i) (drop i xs)) @ drop j xs) = length xs"
  by simp

end
