(* ===== verification/Serial_Number.thy ===== *)
theory Serial_Number
  imports Inet_Prelude
begin

text \<open>
  Wrap-around sequence numbers. TCP compares 32-bit sequence numbers and IEEE 802.11
  compares 12-bit ones with the same idea: a number is "not after" another when the
  modular distance from the first to the second is less than half of the number space.
  The relation is no order on the whole space; inside any window of half the space it is
  a total order, which is the only fact the clients rely on. The locale states that
  contract once; the two comparison families of the source interpret it.
\<close>

locale serial_window =
  fixes dist :: "'s \<Rightarrow> 's \<Rightarrow> nat"
    and le :: "'s \<Rightarrow> 's \<Rightarrow> bool"
    and less :: "'s \<Rightarrow> 's \<Rightarrow> bool"
    and half :: nat
  assumes half_pos: "0 < half"
    and dist_self: "dist b b = 0"
    and dist_inject: "dist b x = dist b y \<Longrightarrow> x = y"
    and dist_shift: "dist b m \<le> dist b x \<Longrightarrow> dist m x = dist b x - dist b m"
    and le_dist: "le x y \<longleftrightarrow> dist x y < half"
    and less_le: "less x y \<longleftrightarrow> x \<noteq> y \<and> le x y"
    and dist_back: "dist b y < dist b x \<Longrightarrow> dist b x < half \<Longrightarrow> half \<le> dist x y"
begin

lemma le_refl [simp]: "le x x"
  by (simp add: le_dist dist_self half_pos)

lemma less_irrefl [simp]: "\<not> less x x"
  by (simp add: less_le)

lemma le_window:
  assumes "dist b x < half" and "dist b y < half"
  shows "le x y \<longleftrightarrow> dist b x \<le> dist b y"
proof (cases "dist b x \<le> dist b y")
  case True
  then have "dist x y = dist b y - dist b x" by (rule dist_shift)
  then show ?thesis using True assms by (simp add: le_dist)
next
  case False
  then have "half \<le> dist x y" using assms by (intro dist_back) auto
  then show ?thesis using False by (simp add: le_dist)
qed

lemma less_window:
  assumes "dist b x < half" and "dist b y < half"
  shows "less x y \<longleftrightarrow> dist b x < dist b y"
  using le_window [OF assms] dist_inject [of b x y] by (metis less_le nat_less_le)

lemma less_imp_le: "less x y \<Longrightarrow> le x y"
  by (simp add: less_le)

lemma le_imp_less_or_eq: "le x y \<Longrightarrow> less x y \<or> x = y"
  by (auto simp: less_le)

lemma not_le_window:
  "dist b x < half \<Longrightarrow> dist b y < half \<Longrightarrow> \<not> le x y \<longleftrightarrow> less y x"
  by (auto simp: le_window [of b] less_window [of b])

lemma window_trans:
  "dist b x < half \<Longrightarrow> dist b y < half \<Longrightarrow> dist b z < half \<Longrightarrow> le x y \<Longrightarrow> le y z \<Longrightarrow> le x z"
  by (auto simp: le_window [of b])

lemma window_antisym:
  "dist b x < half \<Longrightarrow> dist b y < half \<Longrightarrow> le x y \<Longrightarrow> le y x \<Longrightarrow> x = y"
  by (metis dist_inject le_antisym le_window)

lemma window_total:
  "dist b x < half \<Longrightarrow> dist b y < half \<Longrightarrow> le x y \<or> le y x"
  by (auto simp: le_window [of b])

lemmas window_simps = le_window less_window

end

section \<open>Words as serial numbers\<close>

text \<open>
  The distance from \<open>b\<close> to \<open>x\<close> on \<open>w\<close>-bit numbers is the unsigned value of
  \<open>x - b\<close>; half of the space is \<open>2 ^ (w - 1)\<close>. These facts discharge the contract for
  both widths.
\<close>

definition word_dist :: "'a::len word \<Rightarrow> 'a word \<Rightarrow> nat" where
  "word_dist b x = unat (x - b)"

lemma word_dist_self [simp]: "word_dist b b = 0"
  by (simp add: word_dist_def)

lemma word_dist_inject: "word_dist b x = word_dist b y \<longleftrightarrow> x = y"
  unfolding word_dist_def by (rule unat_diff_inject)

lemma word_dist_shift:
  "word_dist b m \<le> word_dist b x \<Longrightarrow> word_dist m x = word_dist b x - word_dist b m"
  unfolding word_dist_def by (rule unat_diff_shift)

lemma word_dist_lt: "word_dist (b :: 'a::len word) x < 2 ^ LENGTH('a)"
  by (simp add: word_dist_def unsigned_less)

lemma word_dist_0_iff [simp]: "word_dist b x = 0 \<longleftrightarrow> x = b"
  using word_dist_inject [of b x b] by simp

lemma word_dist_pos_iff [simp]: "0 < word_dist b x \<longleftrightarrow> x \<noteq> b"
  by (metis gr0I less_irrefl word_dist_0_iff)

lemma mod_diff_swap:
  "(a::nat) < m \<Longrightarrow> b < m \<Longrightarrow> a \<noteq> b \<Longrightarrow>
     (if a \<le> b then b - a else b + m - a) + (if b \<le> a then a - b else a + m - b) = m"
  by auto

lemma word_dist_swap:
  fixes x y :: "'a::len word"
  assumes "x \<noteq> y"
  shows "word_dist x y + word_dist y x = 2 ^ LENGTH('a)"
proof -
  have "unat x \<noteq> unat y" using assms by (metis word_unat_eq_iff)
  then show ?thesis
    unfolding word_dist_def unat_sub_if'
    by (intro mod_diff_swap) (simp_all add: unsigned_less)
qed

lemma word_dist_back:
  fixes b x y :: "'a::len word"
  assumes "word_dist b y < word_dist b x" and "word_dist b x < 2 ^ (LENGTH('a) - 1)"
  shows "2 ^ (LENGTH('a) - 1) \<le> word_dist x y"
proof -
  have "x \<noteq> y" using assms(1) by auto
  then have "word_dist x y + word_dist y x = 2 ^ LENGTH('a)" by (rule word_dist_swap)
  moreover have "word_dist y x = word_dist b x - word_dist b y"
    using assms(1) by (intro word_dist_shift) simp
  moreover have "(2::nat) ^ LENGTH('a) = 2 * 2 ^ (LENGTH('a) - 1)"
    by (simp flip: power_Suc)
  ultimately show ?thesis using assms by linarith
qed

lemma word_dist_add:
  fixes b :: "'a::len word"
  assumes "n < 2 ^ LENGTH('a)"
  shows "word_dist b (b + of_nat n) = n"
  using assms by (simp add: word_dist_def unat_of_nat)

lemma word_dist_add2:
  fixes b x :: "'a::len word"
  assumes "word_dist b x + n < 2 ^ LENGTH('a)"
  shows "word_dist b (x + of_nat n) = word_dist b x + n"
proof -
  have "x + of_nat n - b = (x - b) + of_nat n" by simp
  also have "unat \<dots> = (unat (x - b) + n) mod 2 ^ LENGTH('a)"
    by (simp add: unat_word_ariths unat_of_nat mod_simps)
  finally show ?thesis using assms by (simp add: word_dist_def)
qed

lemma word_dist_chain:
  fixes b m x :: "'a::len word"
  assumes "word_dist b m + word_dist m x < 2 ^ LENGTH('a)"
  shows "word_dist b x = word_dist b m + word_dist m x"
proof -
  have "x = m + of_nat (word_dist m x)" by (simp add: word_dist_def)
  then show ?thesis using word_dist_add2 [of b m "word_dist m x"] assms by simp
qed

end
