(* ===== verification/Tcp_Seq.thy ===== *)
theory Tcp_Seq
  imports Serial_Number
begin

text \<open>
  The comparison of TCP sequence numbers, \<open>transportlayer/tcp_common/TcpHeader.h\<close>:
  \<open>uint32\<close> arithmetic wraps around, and \<open>1UL << 31\<close> is half of the sequence space.
\<close>

definition seqLess :: "u32 \<Rightarrow> u32 \<Rightarrow> bool" where
  "seqLess a b \<longleftrightarrow> a \<noteq> b \<and> unat (b - a) < 2 ^ 31"

definition seqLE :: "u32 \<Rightarrow> u32 \<Rightarrow> bool" where
  "seqLE a b \<longleftrightarrow> unat (b - a) < 2 ^ 31"

definition seqGreater :: "u32 \<Rightarrow> u32 \<Rightarrow> bool" where
  "seqGreater a b \<longleftrightarrow> a \<noteq> b \<and> unat (a - b) < 2 ^ 31"

definition seqGE :: "u32 \<Rightarrow> u32 \<Rightarrow> bool" where
  "seqGE a b \<longleftrightarrow> unat (a - b) < 2 ^ 31"

definition seqMin :: "u32 \<Rightarrow> u32 \<Rightarrow> u32" where
  "seqMin a b = (if unat (b - a) < 2 ^ 31 then a else b)"

definition seqMax :: "u32 \<Rightarrow> u32 \<Rightarrow> u32" where
  "seqMax a b = (if unat (a - b) < 2 ^ 31 then a else b)"

lemma seqLE_dist: "seqLE x y \<longleftrightarrow> word_dist x y < 2 ^ 31"
  by (simp add: seqLE_def word_dist_def)

lemma seqLess_seqLE: "seqLess x y \<longleftrightarrow> x \<noteq> y \<and> seqLE x y"
  by (simp add: seqLE_def seqLess_def)

interpretation tseq: serial_window "word_dist :: u32 \<Rightarrow> u32 \<Rightarrow> nat" seqLE seqLess "2 ^ 31"
proof unfold_locales
  fix b x y :: u32
  show "word_dist b y < word_dist b x \<Longrightarrow> word_dist b x < 2 ^ 31 \<Longrightarrow> 2 ^ 31 \<le> word_dist x y"
    using word_dist_back [of b y x] by simp
  show "word_dist b x = word_dist b y \<Longrightarrow> x = y"
    by (simp add: word_dist_inject)
  show "word_dist b y \<le> word_dist b x \<Longrightarrow> word_dist y x = word_dist b x - word_dist b y"
    by (rule word_dist_shift)
  show "seqLE x y = (word_dist x y < 2 ^ 31)" by (rule seqLE_dist)
  show "seqLess x y = (x \<noteq> y \<and> seqLE x y)" by (rule seqLess_seqLE)
qed simp_all

lemma seqGreater_seqLess: "seqGreater a b \<longleftrightarrow> seqLess b a"
  by (auto simp: seqGreater_def seqLess_def)

lemma seqGE_seqLE: "seqGE a b \<longleftrightarrow> seqLE b a"
  by (auto simp: seqGE_def seqLE_def)

lemma seqMin_alt: "seqMin a b = (if seqLE a b then a else b)"
  by (simp add: seqMin_def seqLE_def)

lemma seqMax_alt: "seqMax a b = (if seqLE b a then a else b)"
  by (simp add: seqMax_def seqLE_def)

lemma seq_antipodal:
  "seqLess a (a + 2 ^ 31) = False" "seqLess (a + 2 ^ 31) a = False"
  by (simp_all add: seqLess_def)

text \<open>
  C1. Inside a window of less than \<open>2^31\<close> sequence numbers above any base \<open>b\<close>,
  wrapping past zero or not, the comparison functions agree with the order of the
  distances from \<open>b\<close>: \<open>seqLE\<close>, \<open>seqLess\<close>, \<open>seqGE\<close> and \<open>seqGreater\<close> are the four
  comparisons of one total order and \<open>seqMin\<close>/\<open>seqMax\<close> pick its smaller and larger element.
\<close>

theorem seq_window_total_order:
  assumes "unat (x - b) < 2 ^ 31" and "unat (y - b) < 2 ^ 31"
  shows "seqLE x y = (unat (x - b) \<le> unat (y - b))
    \<and> seqLess x y = (unat (x - b) < unat (y - b))
    \<and> seqGE x y = (unat (y - b) \<le> unat (x - b))
    \<and> seqGreater x y = (unat (y - b) < unat (x - b))
    \<and> unat (seqMin x y - b) = min (unat (x - b)) (unat (y - b))
    \<and> unat (seqMax x y - b) = max (unat (x - b)) (unat (y - b))"
  using assms tseq.window_simps [of b x y] tseq.window_simps [of b y x]
  by (auto simp: word_dist_def seqGE_seqLE seqGreater_seqLess seqMin_alt seqMax_alt
      min_def max_def)

theorem seq_window_total_order_witness:
  "seqLE 0xFFFFFFFE 3 = (unat ((0xFFFFFFFE::u32) - 0xFFFFFFF0) \<le> unat ((3::u32) - 0xFFFFFFF0))
    \<and> seqMax 0xFFFFFFFE 3 = 3"
  using seq_window_total_order [of "0xFFFFFFFE" "0xFFFFFFF0" 3]
  by (simp add: seqMax_def)

end
