(* ===== verification/Tcp_Send_Queue.thy ===== *)
theory Tcp_Send_Queue
  imports Tcp_Seq
begin

text \<open>
  \<open>transportlayer/tcp/TcpSendQueue\<close>: the octets between \<open>begin\<close> (first unacknowledged) and
  \<open>end\<close> (next octet the application writes). The \<open>ChunkQueue\<close> is modelled by the list of
  its octets; peeking or pushing an empty part is an error in the chunk library.
\<close>

section \<open>Data and operations\<close>

record 'a send_queue =
  q_begin :: u32
  q_end :: u32
  dataBuffer :: "'a list"

definition sendq_new :: "'a send_queue" where
  "sendq_new = \<lparr>q_begin = 0, q_end = 0, dataBuffer = []\<rparr>"

definition sendq_init :: "u32 \<Rightarrow> 'a send_queue" where
  "sendq_init startSeq = \<lparr>q_begin = startSeq, q_end = startSeq, dataBuffer = []\<rparr>"

definition enqueueAppData :: "'a send_queue \<Rightarrow> 'a list \<Rightarrow> 'a send_queue outcome" where
  "enqueueAppData q data =
     bindE (assertE (data \<noteq> [])) (\<lambda>_.
     let q' = q\<lparr>dataBuffer := dataBuffer q @ data, q_end := q_end q + of_nat (length data)\<rparr> in
     if seqLess (q_end q') (q_begin q') then Inl (RuntimeError ''Send queue is full'') else Inr q')"

definition getBytesAvailable :: "'a send_queue \<Rightarrow> u32 \<Rightarrow> nat" where
  "getBytesAvailable q fromSeq =
     (if seqLess fromSeq (q_end q) then unat (q_end q - fromSeq) else 0)"

text \<open>\<open>ChunkQueue::peekAt\<close> with its usage checks, and the refusal to return an empty chunk.\<close>

definition peekAt :: "nat \<Rightarrow> nat \<Rightarrow> 'a list \<Rightarrow> 'a list outcome" where
  "peekAt offset len buf =
     bindE (assertE (offset \<le> length buf)) (\<lambda>_.
     bindE (assertE (offset + len \<le> length buf)) (\<lambda>_.
     if len = 0 then Inl (RuntimeError ''Returning an empty chunk is not allowed according to the flags'')
     else Inr (take len (drop offset buf))))"

definition createSegmentWithBytes :: "'a send_queue \<Rightarrow> u32 \<Rightarrow> nat \<Rightarrow> 'a list outcome" where
  "createSegmentWithBytes q fromSeq numBytes =
     bindE (assertE (seqLE (q_begin q) fromSeq \<and> seqLE (fromSeq + of_nat numBytes) (q_end q))) (\<lambda>_.
       peekAt (unat (fromSeq - q_begin q)) numBytes (dataBuffer q))"

definition sendq_discardUpTo :: "'a send_queue \<Rightarrow> u32 \<Rightarrow> 'a send_queue outcome" where
  "sendq_discardUpTo q seqNum =
     bindE (assertE (seqLE (q_begin q) seqNum \<and> seqLE seqNum (q_end q))) (\<lambda>_.
     if seqNum \<noteq> q_begin q then
       bindE (assertE (unat (seqNum - q_begin q) \<le> length (dataBuffer q))) (\<lambda>_.
       Inr (q\<lparr>dataBuffer := drop (unat (seqNum - q_begin q)) (dataBuffer q), q_begin := seqNum\<rparr>))
     else Inr q)"

section \<open>The invariant and the operations on the stream\<close>

definition sendq_inv :: "'a send_queue \<Rightarrow> bool" where
  "sendq_inv q \<longleftrightarrow> q_end q = q_begin q + of_nat (length (dataBuffer q)) \<and> length (dataBuffer q) < 2 ^ 31"

lemma sendq_inv_dist: "sendq_inv q \<Longrightarrow> word_dist (q_begin q) (q_end q) = length (dataBuffer q)"
  by (simp add: sendq_inv_def word_dist_add)

lemma sendq_init_inv [simp]: "sendq_inv (sendq_init s)"
  by (simp add: sendq_inv_def sendq_init_def)

lemma sendq_guard:
  "sendq_inv q \<Longrightarrow> seqLE (q_begin q) n \<and> seqLE n (q_end q) \<longleftrightarrow>
     word_dist (q_begin q) n \<le> length (dataBuffer q)"
  using tseq.le_window [of "q_begin q" n "q_end q"] sendq_inv_dist [of q]
  by (auto simp: sendq_inv_def seqLE_dist)

lemma enqueueAppData_spec:
  assumes "sendq_inv q" and "data \<noteq> []" and "length (dataBuffer q) + length data < 2 ^ 31"
  shows "\<exists>q'. enqueueAppData q data = Inr q' \<and> sendq_inv q' \<and> q_begin q' = q_begin q
    \<and> dataBuffer q' = dataBuffer q @ data"
proof -
  let ?q = "q\<lparr>dataBuffer := dataBuffer q @ data, q_end := q_end q + of_nat (length data)\<rparr>"
  have inv: "sendq_inv ?q" using assms by (simp add: sendq_inv_def)
  have d: "word_dist (q_begin ?q) (q_end ?q) < 2 ^ 31"
    unfolding sendq_inv_dist [OF inv] using assms(3) by simp
  have "seqLess (q_end ?q) (q_begin ?q) \<longleftrightarrow>
      word_dist (q_begin ?q) (q_end ?q) < word_dist (q_begin ?q) (q_begin ?q)"
    by (rule tseq.less_window [OF d]) (simp only: word_dist_self; simp)
  then have "\<not> seqLess (q_end ?q) (q_begin ?q)" by simp
  then have "enqueueAppData q data = Inr ?q" using assms(2) by (simp add: enqueueAppData_def Let_def)
  then show ?thesis using inv by simp
qed

lemma getBytesAvailable_spec:
  assumes "sendq_inv q" and "word_dist (q_begin q) n \<le> length (dataBuffer q)"
  shows "getBytesAvailable q n = length (drop (word_dist (q_begin q) n) (dataBuffer q))"
proof -
  have "unat (q_end q - n) = length (dataBuffer q) - word_dist (q_begin q) n"
    using word_dist_shift [of "q_begin q" n "q_end q"] sendq_inv_dist [OF assms(1)] assms(2)
    by (simp add: word_dist_def)
  then show ?thesis
    using tseq.less_window [of "q_begin q" n "q_end q"] sendq_inv_dist [OF assms(1)] assms
    by (auto simp: getBytesAvailable_def sendq_inv_def)
qed

lemma createSegmentWithBytes_spec:
  assumes "sendq_inv q" and "0 < k" and "word_dist (q_begin q) n + k \<le> length (dataBuffer q)"
  shows "createSegmentWithBytes q n k = Inr (take k (drop (word_dist (q_begin q) n) (dataBuffer q)))"
proof -
  have "length (dataBuffer q) < 2 ^ 31" using assms(1) by (simp add: sendq_inv_def)
  then have e: "word_dist (q_begin q) (n + of_nat k) = word_dist (q_begin q) n + k"
    using assms(3) by (intro word_dist_add2) simp
  have "seqLE (q_begin q) n \<and> seqLE (n + of_nat k) (q_end q)"
    using sendq_guard [OF assms(1), of n] sendq_guard [OF assms(1), of "n + of_nat k"] e assms(3) by simp
  then show ?thesis using assms(2,3)
    by (simp add: createSegmentWithBytes_def peekAt_def word_dist_def)
qed

lemma sendq_discardUpTo_spec:
  assumes "sendq_inv q" and "word_dist (q_begin q) n \<le> length (dataBuffer q)"
  shows "\<exists>q'. sendq_discardUpTo q n = Inr q' \<and> sendq_inv q' \<and> q_begin q' = n \<and> q_end q' = q_end q
    \<and> dataBuffer q' = drop (word_dist (q_begin q) n) (dataBuffer q)"
proof -
  let ?d = "word_dist (q_begin q) n"
  let ?q = "q\<lparr>dataBuffer := drop ?d (dataBuffer q), q_begin := n\<rparr>"
  have n: "n = q_begin q + of_nat ?d" by (simp add: word_dist_def)
  have "of_nat (word_dist (q_begin q) n) + of_nat (length (dataBuffer q) - word_dist (q_begin q) n)
      = (of_nat (length (dataBuffer q)) :: u32)"
    using assms(2) by (simp flip: of_nat_add)
  moreover have "q_end q = q_begin q + of_nat (length (dataBuffer q))"
    using assms(1) by (simp add: sendq_inv_def)
  ultimately have "q_end q = n + of_nat (length (dataBuffer q) - ?d)" using n by (metis add.assoc)
  moreover have "length (dataBuffer q) - ?d < 2 ^ 31" using assms(1) by (simp add: sendq_inv_def less_imp_diff_less)
  ultimately have inv: "sendq_inv ?q" by (simp add: sendq_inv_def)
  have g: "seqLE (q_begin q) n \<and> seqLE n (q_end q)"
    using sendq_guard [OF assms(1), of n] assms(2) by simp
  show ?thesis
  proof (cases "n = q_begin q")
    case True
    then have "sendq_discardUpTo q n = Inr q" using g by (simp add: sendq_discardUpTo_def)
    then show ?thesis using True assms(1) by simp
  next
    case False
    then have "sendq_discardUpTo q n = Inr ?q"
      using g assms(2) by (simp add: sendq_discardUpTo_def word_dist_def)
    then show ?thesis using inv by simp
  qed
qed

section \<open>Properties\<close>

text \<open>
  C4. The send queue is the application's octet stream with a window: written octets are
  appended, every segment cut out of it carries the octets at its sequence numbers (wrapped or
  not), and acknowledged octets leave at the front without changing those behind.
\<close>

theorem send_queue_stream:
  assumes "sendq_inv q" and "dataBuffer q = drop k stream" and "k \<le> length stream"
    and "q_begin q = base + of_nat k"
    and "0 < n" and "word_dist (q_begin q) s + n \<le> length (dataBuffer q)"
  shows "createSegmentWithBytes q s n =
      Inr (take n (drop (k + word_dist (q_begin q) s) stream))
    \<and> (\<exists>q'. sendq_discardUpTo q s = Inr q' \<and> sendq_inv q'
        \<and> dataBuffer q' = drop (k + word_dist (q_begin q) s) stream
        \<and> q_begin q' = base + of_nat (k + word_dist (q_begin q) s))
    \<and> (data \<noteq> [] \<and> length (dataBuffer q) + length data < 2 ^ 31 \<longrightarrow>
        (\<exists>q'. enqueueAppData q data = Inr q' \<and> sendq_inv q'
          \<and> dataBuffer q' = drop k (stream @ data) \<and> q_begin q' = base + of_nat k))"
proof -
  define d where "d = word_dist (q_begin q) s"
  have s: "s = q_begin q + of_nat d" by (simp add: d_def word_dist_def)
  obtain q' where q': "sendq_discardUpTo q s = Inr q'" "sendq_inv q'" "q_begin q' = s"
    "dataBuffer q' = drop (d) (dataBuffer q)"
    using sendq_discardUpTo_spec [OF assms(1), of s] assms(6) unfolding d_def by auto
  have "q_begin q' = base + of_nat (k + d)"
    using q'(3) s assms(4) by (simp add: add.assoc)
  moreover have "dataBuffer q' = drop (k + d) stream"
    using q'(4) assms(2) by (simp add: add.commute)
  moreover have "createSegmentWithBytes q s n = Inr (take n (drop (k + d) stream))"
    using createSegmentWithBytes_spec [OF assms(1,5,6)] assms(2) by (simp add: add.commute d_def)
  moreover have "\<exists>q'. enqueueAppData q data = Inr q' \<and> sendq_inv q'
      \<and> dataBuffer q' = drop k (stream @ data) \<and> q_begin q' = base + of_nat k"
    if "data \<noteq> [] \<and> length (dataBuffer q) + length data < 2 ^ 31"
    using enqueueAppData_spec [OF assms(1), of data] that assms(2-4) by auto
  ultimately show ?thesis using q'(1,2) unfolding d_def by blast
qed

theorem send_queue_stream_witness:
  "createSegmentWithBytes \<lparr>q_begin = 0xFFFFFFFF, q_end = 3, dataBuffer = ''bcde''\<rparr> 0 2 = Inr ''cd''"
  using send_queue_stream [of "\<lparr>q_begin = 0xFFFFFFFF, q_end = 3, dataBuffer = ''bcde''\<rparr>" 1 "''abcde''"
      "0xFFFFFFFE" 2 0 "''f''"]
  by (simp add: sendq_inv_def word_dist_def)

end
