(* ===== verification/Region_Buffer.thy ===== *)
theory Region_Buffer
  imports Inet_Prelude
begin

text \<open>
  \<open>common/packet/ChunkBuffer.cc\<close>, \<open>ReorderBuffer.cc\<close> and \<open>ReassemblyBuffer.h\<close>: buffers that
  keep the data received so far as a sorted vector of regions, each an offset and a chunk.
  A chunk is modelled by the list of its units (all callers of the model use whole octets),
  so \<open>Chunk::peek(offset, length)\<close> is \<open>take length (drop offset data)\<close>; which of the
  two chunks absorbs the other when regions are merged does not show in the list. The
  specification is the partial function from offsets to units.
\<close>

section \<open>Data and operations of the chunk buffer\<close>

record 'a buf_region =
  roffset :: int
  rdata :: "'a list"

definition getStartOffset :: "'a buf_region \<Rightarrow> int" where
  "getStartOffset r = roffset r"

definition getEndOffset :: "'a buf_region \<Rightarrow> int" where
  "getEndOffset r = roffset r + int (length (rdata r))"

text \<open>
  The loop of \<open>sliceRegions\<close> over the old regions, for the new range \<open>[ns, ne)\<close>. The last
  \<open>else if\<close> of the source is the only case left, so its own \<open>else\<close> cannot be reached.
\<close>

fun slice_loop :: "int \<Rightarrow> int \<Rightarrow> 'a buf_region list \<Rightarrow> 'a buf_region list" where
  "slice_loop ns ne [] = []"
| "slice_loop ns ne (r # rs) =
     (if ne \<le> getStartOffset r \<or> getEndOffset r \<le> ns then r # slice_loop ns ne rs
      else if ns \<le> getStartOffset r \<and> getEndOffset r \<le> ne then slice_loop ns ne rs
      else if getStartOffset r < ns \<and> ne < getEndOffset r then
        \<lparr>roffset = getStartOffset r, rdata = take (nat (ns - getStartOffset r)) (rdata r)\<rparr>
        # \<lparr>roffset = ne, rdata = drop (nat (ne - getStartOffset r)) (rdata r)\<rparr> # rs
      else if getEndOffset r \<le> ne then
        r\<lparr>rdata := take (nat (ns - getStartOffset r)) (rdata r)\<rparr> # slice_loop ns ne rs
      else
        \<lparr>roffset = ne, rdata = drop (nat (ne - getStartOffset r)) (rdata r)\<rparr> # slice_loop ns ne rs)"

text \<open>
  The binary searches \<open>lower_bound\<close>/\<open>upper_bound\<close> on the sorted vector find the first region
  that does not start before \<open>ns\<close> and the first one that ends after \<open>ne\<close>.
\<close>

definition sliceRegions :: "int \<Rightarrow> int \<Rightarrow> 'a buf_region list \<Rightarrow> 'a buf_region list" where
  "sliceRegions ns ne rs =
     (let lo = length (takeWhile (\<lambda>r. getStartOffset r < ns) rs) - 1;
          up = length (takeWhile (\<lambda>r. getEndOffset r \<le> ne) rs);
          hi = (if up < length rs then up + 1 else up)
      in take lo rs @ slice_loop ns ne (drop lo (take hi rs)) @ drop (max lo hi) rs)"

definition mergeRegions :: "'a buf_region \<Rightarrow> 'a buf_region \<Rightarrow> 'a buf_region list" where
  "mergeRegions p n =
     (if getEndOffset p = getStartOffset n then [p\<lparr>rdata := rdata p @ rdata n\<rparr>] else [p, n])"

text \<open>Inserting a region at its place and merging it with its neighbours.\<close>

definition insert_region :: "'a buf_region \<Rightarrow> 'a buf_region list \<Rightarrow> 'a buf_region list" where
  "insert_region new rs =
     (if rs = [] then [new]
      else if getEndOffset (last rs) \<le> getStartOffset new
      then butlast rs @ mergeRegions (last rs) new
      else if getEndOffset new \<le> getStartOffset (hd rs) then mergeRegions new (hd rs) @ tl rs
      else
        let pre = takeWhile (\<lambda>r. \<not> getStartOffset new < getStartOffset r) rs;
            post = dropWhile (\<lambda>r. \<not> getStartOffset new < getStartOffset r) rs;
            left = (if pre = [] then [new] else butlast pre @ mergeRegions (last pre) new)
        in (if post = [] then left
            else butlast left @ mergeRegions (last left) (hd post) @ tl post))"

definition replace_data :: "int \<Rightarrow> 'a list \<Rightarrow> 'a buf_region list \<Rightarrow> 'a buf_region list outcome" where
  "replace_data offset data rs =
     bindE (assertE (0 \<le> offset)) (\<lambda>_.
     bindE (assertE (data \<noteq> [])) (\<lambda>_.
     Inr (insert_region \<lparr>roffset = offset, rdata = data\<rparr>
            (sliceRegions offset (offset + int (length data)) rs))))"

fun erase_exact :: "int \<Rightarrow> int \<Rightarrow> 'a buf_region list \<Rightarrow> 'a buf_region list option" where
  "erase_exact offset len [] = None"
| "erase_exact offset len (r # rs) =
     (if roffset r = offset \<and> int (length (rdata r)) = len then Some rs
      else map_option (Cons r) (erase_exact offset len rs))"

definition clear_data :: "int \<Rightarrow> int \<Rightarrow> 'a buf_region list \<Rightarrow> 'a buf_region list outcome" where
  "clear_data offset len rs =
     bindE (assertE (0 \<le> offset)) (\<lambda>_.
     bindE (assertE (0 \<le> len)) (\<lambda>_.
     Inr (case erase_exact offset len rs of
            Some rs' \<Rightarrow> rs'
          | None \<Rightarrow> sliceRegions offset (offset + len) rs)))"

section \<open>The contents of a buffer and its invariant\<close>

fun contents :: "'a buf_region list \<Rightarrow> int \<Rightarrow> 'a option" where
  "contents [] i = None"
| "contents (r # rs) i =
     (if getStartOffset r \<le> i \<and> i < getEndOffset r then Some (rdata r ! nat (i - roffset r))
      else contents rs i)"

text \<open>
  \<open>chained m rs\<close>: the regions are not empty, in order, and lie at or after \<open>m\<close>;
  \<open>separated\<close> also asks for a gap between neighbours, the invariant
  ``non-overlapping, non-connecting'' of the header file.
\<close>

fun chained :: "int \<Rightarrow> 'a buf_region list \<Rightarrow> bool" where
  "chained m [] \<longleftrightarrow> True"
| "chained m (r # rs) \<longleftrightarrow> m \<le> getStartOffset r \<and> rdata r \<noteq> [] \<and> chained (getEndOffset r) rs"

fun separated :: "'a buf_region list \<Rightarrow> bool" where
  "separated [] \<longleftrightarrow> True"
| "separated [r] \<longleftrightarrow> rdata r \<noteq> []"
| "separated (r # s # rs) \<longleftrightarrow>
     rdata r \<noteq> [] \<and> getEndOffset r < getStartOffset s \<and> separated (s # rs)"

lemma region_simps [simp]:
  "getStartOffset \<lparr>roffset = i, rdata = d\<rparr> = i"
  "getEndOffset \<lparr>roffset = i, rdata = d\<rparr> = i + int (length d)"
  "getStartOffset (r\<lparr>rdata := d\<rparr>) = getStartOffset r"
  "getEndOffset (r\<lparr>rdata := d\<rparr>) = getStartOffset r + int (length d)"
  by (simp_all add: getStartOffset_def getEndOffset_def)

lemma region_length: "int (length (rdata r)) = getEndOffset r - getStartOffset r"
  by (simp add: getStartOffset_def getEndOffset_def)

lemma region_nonempty: "rdata r \<noteq> [] \<Longrightarrow> getStartOffset r < getEndOffset r"
  by (simp add: getStartOffset_def getEndOffset_def)

lemma chained_mono: "chained m rs \<Longrightarrow> m' \<le> m \<Longrightarrow> chained m' rs"
  by (cases rs) auto

lemma separated_chained: "separated rs \<Longrightarrow> rs = [] \<or> chained (getStartOffset (hd rs)) rs"
proof (induction rs rule: separated.induct)
  case (3 r s rs)
  then have "chained (getStartOffset s) (s # rs)" by auto
  then show ?case using 3 chained_mono [of "getStartOffset s" "s # rs" "getEndOffset r"] by auto
qed simp_all

lemma contents_before: "chained m rs \<Longrightarrow> i < m \<Longrightarrow> contents rs i = None"
proof (induction rs arbitrary: m)
  case (Cons r rs)
  then have "contents rs i = None"
    using region_nonempty [of r] by (intro Cons.IH [of "getEndOffset r"]) auto
  then show ?case using Cons.prems by auto
qed simp

lemma contents_in:
  "chained m (r # rs) \<Longrightarrow> contents (r # rs) i = (if i < getStartOffset r then None
     else if i < getEndOffset r then Some (rdata r ! nat (i - getStartOffset r)) else contents rs i)"
  using contents_before [of "getEndOffset r" rs i] region_nonempty [of r]
  by (auto simp: getStartOffset_def)

lemma contents_append:
  "contents (rs @ ss) i = (case contents rs i of None \<Rightarrow> contents ss i | Some x \<Rightarrow> Some x)"
  by (induction rs) simp_all

lemma contents_None:
  "\<forall>r \<in> set rs. getEndOffset r \<le> i \<or> i < getStartOffset r \<Longrightarrow> contents rs i = None"
  by (induction rs) auto

lemma chained_append:
  "chained m (rs @ ss) \<longleftrightarrow> chained m rs \<and> chained (if rs = [] then m else getEndOffset (last rs)) ss"
  by (induction rs arbitrary: m) auto

lemma separated_Cons:
  "separated (r # rs) \<longleftrightarrow>
     rdata r \<noteq> [] \<and> (rs \<noteq> [] \<longrightarrow> getEndOffset r < getStartOffset (hd rs)) \<and> separated rs"
  by (cases rs) auto

lemma separated_append:
  "separated (rs @ ss) \<longleftrightarrow> separated rs \<and> separated ss
     \<and> (rs \<noteq> [] \<and> ss \<noteq> [] \<longrightarrow> getEndOffset (last rs) < getStartOffset (hd ss))"
  by (induction rs) (auto simp: separated_Cons hd_append)

section \<open>Cutting a range out of the buffer\<close>

definition clear_of :: "int \<Rightarrow> int \<Rightarrow> 'a buf_region list \<Rightarrow> bool" where
  "clear_of ns ne rs \<longleftrightarrow> (\<forall>r \<in> set rs. getEndOffset r \<le> ns \<or> ne \<le> getStartOffset r)"

lemma clear_of_simps [simp]:
  "clear_of ns ne []"
  "clear_of ns ne (r # rs) \<longleftrightarrow> (getEndOffset r \<le> ns \<or> ne \<le> getStartOffset r) \<and> clear_of ns ne rs"
  "clear_of ns ne (rs @ ss) \<longleftrightarrow> clear_of ns ne rs \<and> clear_of ns ne ss"
  by (auto simp: clear_of_def)

lemma slice_loop_clear: "clear_of ns ne rs \<Longrightarrow> slice_loop ns ne (rs @ ss) = rs @ slice_loop ns ne ss"
  by (induction rs) auto

lemma slice_loop_clear_back: "clear_of ns ne ss \<Longrightarrow> slice_loop ns ne (rs @ ss) = slice_loop ns ne rs @ ss"
  using slice_loop_clear [of ns ne ss "[]"] by (induction rs) auto

lemma chained_set_after: "chained m rs \<Longrightarrow> r \<in> set rs \<Longrightarrow> m \<le> getStartOffset r"
proof (induction rs arbitrary: m)
  case (Cons s rs)
  then have "chained m rs" using chained_mono [of "getEndOffset s" rs m] region_nonempty [of s] by simp
  then show ?case using Cons by auto
qed simp

lemma chained_set_before: "chained m (rs @ [s]) \<Longrightarrow> r \<in> set rs \<Longrightarrow> getEndOffset r \<le> getStartOffset s"
proof (induction rs arbitrary: m)
  case (Cons x rs)
  then show ?case using chained_set_after [of "getEndOffset x" "rs @ [s]" s] by auto
qed simp

lemma take_lower_clear:
  assumes "chained m rs"
  shows "clear_of ns ne (take (length (takeWhile (\<lambda>r. getStartOffset r < ns) rs) - 1) rs)"
proof (cases "takeWhile (\<lambda>r. getStartOffset r < ns) rs" rule: rev_cases)
  case (snoc ps p)
  have rs: "rs = (ps @ [p]) @ dropWhile (\<lambda>r. getStartOffset r < ns) rs"
    unfolding snoc [symmetric] by simp
  have "p \<in> set (takeWhile (\<lambda>r. getStartOffset r < ns) rs)" unfolding snoc by simp
  then have p: "getStartOffset p < ns" by (auto dest: set_takeWhileD)
  have "chained m (ps @ [p])" using assms by (subst (asm) rs) (simp only: chained_append)
  then have "\<forall>r \<in> set ps. getEndOffset r \<le> ns" using chained_set_before p by fastforce
  moreover have "take (length (takeWhile (\<lambda>r. getStartOffset r < ns) rs) - 1) rs = ps"
    unfolding snoc by (subst rs) simp
  ultimately show ?thesis by (simp add: clear_of_def)
qed simp

lemma drop_upper_clear:
  assumes "chained m rs" and "up = length (takeWhile (\<lambda>r. getEndOffset r \<le> ne) rs)"
  shows "clear_of ns ne (drop (if up < length rs then up + 1 else up) rs)"
proof (cases "dropWhile (\<lambda>r. getEndOffset r \<le> ne) rs")
  case Nil
  then have "takeWhile (\<lambda>r. getEndOffset r \<le> ne) rs = rs" by simp
  then have "up = length rs" unfolding assms(2) by (simp only:)
  then show ?thesis by simp
next
  case (Cons q qs)
  have rs: "rs = takeWhile (\<lambda>r. getEndOffset r \<le> ne) rs @ q # qs"
    using takeWhile_dropWhile_id [of "\<lambda>r. getEndOffset r \<le> ne" rs] Cons by simp
  have q: "ne < getEndOffset q" using dropWhile_Cons_head [OF Cons] by simp
  have "chained (getEndOffset q) qs" using assms(1) by (subst (asm) rs) (simp add: chained_append)
  then have "\<forall>r \<in> set qs. ne \<le> getStartOffset r" using chained_set_after q by fastforce
  moreover have "length rs = up + length (q # qs)" using arg_cong [OF rs, of length] assms(2) by simp
  moreover have "drop (up + 1) rs = qs" unfolding assms(2) by (subst rs) simp
  ultimately show ?thesis by (simp add: clear_of_def)
qed

lemma sliceRegions_loop:
  assumes "chained m rs"
  shows "sliceRegions ns ne rs = slice_loop ns ne rs"
proof -
  define lo where "lo = length (takeWhile (\<lambda>r. getStartOffset r < ns) rs) - 1"
  define up where "up = length (takeWhile (\<lambda>r. getEndOffset r \<le> ne) rs)"
  define hi where "hi = (if up < length rs then up + 1 else up)"
  have A: "clear_of ns ne (take lo rs)" unfolding lo_def by (rule take_lower_clear [OF assms])
  have "clear_of ns ne (drop hi rs)" unfolding hi_def by (rule drop_upper_clear [OF assms up_def])
  moreover have "drop (max lo hi) rs = drop (max lo hi - hi) (drop hi rs)" by simp
  ultimately have C: "clear_of ns ne (drop (max lo hi) rs)"
    unfolding clear_of_def by (metis in_set_dropD)
  have "rs = take lo rs @ drop lo (take hi rs) @ drop (max lo hi) rs"
    by (cases "lo \<le> hi") (simp_all add: max_def drop_take flip: append_assoc take_add)
  then have "slice_loop ns ne rs = take lo rs @ slice_loop ns ne (drop lo (take hi rs)) @ drop (max lo hi) rs"
    using slice_loop_clear [OF A] slice_loop_clear_back [OF C] by metis
  then show ?thesis by (simp add: sliceRegions_def Let_def lo_def up_def hi_def)
qed

lemma nat_diff_chain: "a \<le> b \<Longrightarrow> b \<le> c \<Longrightarrow> nat (b - a) + nat (c - b) = nat (c - a)"
  by simp

lemma contents_slice_loop:
  assumes "chained m rs" and "ns \<le> ne"
  shows "contents (slice_loop ns ne rs) i = (if ns \<le> i \<and> i < ne then None else contents rs i)
    \<and> chained m (slice_loop ns ne rs)"
  using assms
proof (induction rs arbitrary: m)
  case (Cons r rs)
  let ?s = "getStartOffset r" and ?e = "getEndOffset r"
  have r: "m \<le> ?s" "?s < ?e" "rdata r \<noteq> []" and rs: "chained ?e rs"
    using Cons.prems(1) region_nonempty [of r] by auto
  note ih = Cons.IH [OF rs Cons.prems(2)] and len = region_length [of r]
  consider "ne \<le> ?s \<or> ?e \<le> ns" | "ns \<le> ?s" "?e \<le> ne" "\<not> (ne \<le> ?s \<or> ?e \<le> ns)"
    | "?s < ns" "ne < ?e" | "?s < ns" "?e \<le> ne" "ns < ?e" | "ns \<le> ?s" "ne < ?e" "?s < ne"
    by linarith
  then show ?case
  proof cases
    case 1
    then show ?thesis using ih r by auto
  next
    case 2
    then have "chained m (slice_loop ns ne rs)" using ih r chained_mono by fastforce
    then show ?thesis using 2 ih r by auto
  next
    case 3
    have "contents rs i = None" if "i < ?e" using contents_before [OF rs that] .
    then show ?thesis using 3 ih r rs Cons.prems(2) len
      by (auto simp: getStartOffset_def nat_diff_chain)
  next
    case 4
    then show ?thesis using ih r rs len chained_mono [of ?e "slice_loop ns ne rs" ns]
      by (auto simp: getStartOffset_def)
  next
    case 5
    then show ?thesis using ih r rs len
      by (auto simp: getStartOffset_def nat_diff_chain)
  qed
qed simp

lemma clear_of_slice_loop:
  assumes "chained m rs" and "ns \<le> ne"
  shows "clear_of ns ne (slice_loop ns ne rs)"
  using assms
proof (induction rs arbitrary: m)
  case (Cons r rs)
  have rs: "chained (getEndOffset r) rs" using Cons.prems(1) by simp
  have "getEndOffset r \<le> getStartOffset x" if "x \<in> set rs" for x
    by (rule chained_set_after [OF rs that])
  then have tail: "clear_of ns ne rs" if "ne < getEndOffset r" using that by (fastforce simp: clear_of_def)
  show ?case using Cons.IH [OF rs Cons.prems(2)] tail region_length [of r] by auto
qed simp

lemma separated_slice_loop:
  assumes "separated rs" and "ns < ne"
  shows "separated (slice_loop ns ne rs)
    \<and> (rs \<noteq> [] \<and> slice_loop ns ne rs \<noteq> [] \<longrightarrow>
         getStartOffset (hd rs) \<le> getStartOffset (hd (slice_loop ns ne rs)))"
  using assms
proof (induction rs)
  case (Cons r rs)
  let ?t = "slice_loop ns ne rs"
  have r: "rdata r \<noteq> []" "getStartOffset r < getEndOffset r"
    and gap: "rs \<noteq> [] \<Longrightarrow> getEndOffset r < getStartOffset (hd rs)" and rs: "separated rs"
    using Cons.prems(1) region_nonempty [of r] by (auto simp: separated_Cons)
  have ih: "separated ?t" "rs \<noteq> [] \<Longrightarrow> ?t \<noteq> [] \<Longrightarrow> getStartOffset (hd rs) \<le> getStartOffset (hd ?t)"
    using Cons.IH [OF rs Cons.prems(2)] by auto
  have t: "?t \<noteq> [] \<Longrightarrow> rs \<noteq> []" by auto
  then have g: "?t \<noteq> [] \<Longrightarrow> getEndOffset r < getStartOffset (hd ?t)" using ih(2) gap by fastforce
  show ?case using r gap rs ih(1) g Cons.prems(2) region_length [of r] by (auto simp: separated_Cons)
qed simp

section \<open>Inserting and merging\<close>

lemma contents_merge:
  "contents (rs @ mergeRegions p n @ ss) i = contents (rs @ p # n # ss) i"
proof -
  have "contents (mergeRegions p n) i = contents [p, n] i"
    using region_length [of p] region_length [of n]
    by (auto simp: mergeRegions_def nth_append getStartOffset_def intro!: arg_cong2 [of _ _ _ _ nth])
  then have "contents (mergeRegions p n @ ss) i = contents ([p, n] @ ss) i"
    by (simp only: contents_append)
  then show ?thesis by (simp only: contents_append append_Cons append_Nil)
qed

lemma separated_merge:
  assumes "separated (rs @ [p])" and "separated (n # ss)" and "getEndOffset p \<le> getStartOffset n"
  shows "separated (rs @ mergeRegions p n @ ss)"
  using assms region_length [of p] region_length [of n]
  by (auto simp: mergeRegions_def separated_append separated_Cons)

definition splice :: "'a buf_region list \<Rightarrow> 'a buf_region \<Rightarrow> 'a buf_region list \<Rightarrow> 'a buf_region list" where
  "splice pre new post =
     (let left = (if pre = [] then [new] else butlast pre @ mergeRegions (last pre) new)
      in (if post = [] then left
          else butlast left @ mergeRegions (last left) (hd post) @ tl post))"

lemma insert_region_splice:
  assumes "chained m rs" and "clear_of (getStartOffset new) (getEndOffset new) rs" and "rdata new \<noteq> []"
  shows "\<exists>pre post. rs = pre @ post \<and> insert_region new rs = splice pre new post
    \<and> (\<forall>r \<in> set pre. getEndOffset r \<le> getStartOffset new)
    \<and> (\<forall>r \<in> set post. getEndOffset new \<le> getStartOffset r)"
proof -
  let ?P = "\<lambda>r. \<not> getStartOffset new < getStartOffset r"
  have new: "getStartOffset new < getEndOffset new" using assms(3) by (rule region_nonempty)
  consider "rs = []" | "rs \<noteq> []" "getEndOffset (last rs) \<le> getStartOffset new"
    | "rs \<noteq> []" "\<not> getEndOffset (last rs) \<le> getStartOffset new" "getEndOffset new \<le> getStartOffset (hd rs)"
    | "rs \<noteq> []" "\<not> getEndOffset (last rs) \<le> getStartOffset new" "\<not> getEndOffset new \<le> getStartOffset (hd rs)"
    by blast
  then show ?thesis
  proof cases
    case 1
    then show ?thesis by (intro exI [of _ "[]"]) (simp add: insert_region_def splice_def)
  next
    case 2
    then obtain qs q where q: "rs = qs @ [q]" by (cases rs rule: rev_cases) auto
    have e: "rdata q \<noteq> []" "chained m (qs @ [q])" using assms(1) q by (auto simp: chained_append)
    have "\<forall>r \<in> set rs. getEndOffset r \<le> getStartOffset new"
      using chained_set_before [OF e(2)] region_nonempty [OF e(1)] 2(2) q by fastforce
    then show ?thesis using 2
      by (intro exI [of _ rs] exI [of _ "[]"]) (simp add: insert_region_def splice_def)
  next
    case 3
    then obtain q qs where q: "rs = q # qs" by (cases rs) auto
    have c: "chained (getStartOffset q) rs" using assms(1) q by auto
    have "\<forall>r \<in> set rs. getEndOffset new \<le> getStartOffset r"
      using chained_set_after [OF c] 3(3) q by fastforce
    then show ?thesis using 3
      by (intro exI [of _ "[]"] exI [of _ rs]) (simp add: insert_region_def splice_def)
  next
    case 4
    have pre: "getEndOffset r \<le> getStartOffset new" if "r \<in> set (takeWhile ?P rs)" for r
      using that assms(2) new by (auto dest!: set_takeWhileD simp: clear_of_def)
    have post: "getEndOffset new \<le> getStartOffset r" if "r \<in> set (dropWhile ?P rs)" for r
    proof (cases "dropWhile ?P rs")
      case (Cons q qs)
      have "chained m (takeWhile ?P rs @ q # qs)"
        using assms(1) takeWhile_dropWhile_id [of ?P rs] Cons by metis
      then have "chained (getStartOffset q) (q # qs)" by (auto simp: chained_append)
      then have "getStartOffset q \<le> getStartOffset r" using chained_set_after that Cons by metis
      then have lt: "getStartOffset new < getStartOffset r" using dropWhile_Cons_head [OF Cons] by simp
      have r: "r \<in> set rs" using that by (rule set_dropWhileD)
      have "rdata r \<noteq> []" using assms(1) r by (induction rs arbitrary: m) auto
      then show ?thesis using lt r assms(2) region_nonempty [of r] by (auto simp: clear_of_def)
    next
      case Nil
      with that have "r \<in> set []" by (simp only:)
      then show ?thesis by simp
    qed
    show ?thesis using 4 pre post
      by (intro exI [of _ "takeWhile ?P rs"] exI [of _ "dropWhile ?P rs"])
        (simp add: insert_region_def splice_def Let_def)
  qed
qed

lemma contents_splice: "contents (splice pre new post) i = contents (pre @ new # post) i"
proof -
  define left where "left = (if pre = [] then [new] else butlast pre @ mergeRegions (last pre) new)"
  have ne: "left \<noteq> []" by (simp add: left_def mergeRegions_def)
  have l: "contents (left @ ss) i = contents (pre @ new # ss) i" for ss
  proof (cases pre rule: rev_cases)
    case (snoc ps p)
    then show ?thesis using contents_merge [of ps p new ss] by (simp add: left_def)
  qed (simp add: left_def)
  show ?thesis
  proof (cases post)
    case Nil
    then show ?thesis using l [of "[]"] by (simp add: splice_def left_def)
  next
    case (Cons q qs)
    have "contents (butlast left @ mergeRegions (last left) q @ qs) i = contents (left @ q # qs) i"
      using contents_merge [of "butlast left" "last left" q qs] append_butlast_last_id [OF ne]
      by (metis append.assoc append_Cons append_Nil)
    then show ?thesis using l [of post] Cons by (simp add: splice_def left_def Let_def)
  qed
qed

lemma separated_splice:
  assumes "separated (pre @ post)" and "rdata new \<noteq> []"
    and "\<forall>r \<in> set pre. getEndOffset r \<le> getStartOffset new"
    and "\<forall>r \<in> set post. getEndOffset new \<le> getStartOffset r"
  shows "separated (splice pre new post)"
proof -
  define left where "left = (if pre = [] then [new] else butlast pre @ mergeRegions (last pre) new)"
  have ne: "left \<noteq> []" by (simp add: left_def mergeRegions_def)
  have l: "separated left"
  proof (cases pre rule: rev_cases)
    case (snoc ps p)
    have "separated (ps @ [p])"
      using assms(1) unfolding snoc separated_append [of "ps @ [p]" post] by blast
    from separated_merge [OF this, of new "[]"] snoc assms show ?thesis by (simp add: left_def)
  qed (use assms in \<open>simp add: left_def\<close>)
  have e: "getEndOffset (last left) = getEndOffset new"
    using region_length [of new] region_length [of "last pre"]
    by (auto simp: left_def mergeRegions_def)
  show ?thesis
  proof (cases post)
    case Nil
    then show ?thesis using l by (simp add: splice_def left_def)
  next
    case (Cons q qs)
    have "separated (butlast left @ [last left])" using l ne by simp
    moreover have "separated (q # qs)" using assms(1) Cons by (simp add: separated_append)
    ultimately have "separated (butlast left @ mergeRegions (last left) q @ qs)"
      using e assms(4) Cons by (intro separated_merge) simp_all
    then show ?thesis using Cons by (simp add: splice_def left_def Let_def)
  qed
qed

lemma separated_chained_ex: "separated rs \<Longrightarrow> \<exists>m. chained m rs"
  using separated_chained by fastforce

text \<open>What \<open>replace\<close> promises: the new units at their offsets, the old ones elsewhere.\<close>

lemma replace_data_spec:
  assumes "separated rs" and "0 \<le> offset" and "data \<noteq> []"
  shows "\<exists>rs'. replace_data offset data rs = Inr rs' \<and> separated rs'
    \<and> contents rs' i = (if offset \<le> i \<and> i < offset + int (length data)
        then Some (data ! nat (i - offset)) else contents rs i)"
proof -
  let ?ne = "offset + int (length data)" and ?new = "\<lparr>roffset = offset, rdata = data\<rparr>"
  have lt: "offset < ?ne" using assms(3) by simp
  obtain m where m: "chained m rs" using separated_chained_ex [OF assms(1)] by blast
  define sl where "sl = slice_loop offset ?ne rs"
  have sl: "sliceRegions offset ?ne rs = sl" by (simp add: sl_def sliceRegions_loop [OF m])
  have c: "contents sl i = (if offset \<le> i \<and> i < ?ne then None else contents rs i)" "chained m sl"
    using contents_slice_loop [OF m, of offset ?ne i] lt by (simp_all add: sl_def)
  have sep: "separated sl" using separated_slice_loop [OF assms(1) lt] by (simp add: sl_def)
  have cl: "clear_of offset ?ne sl" using clear_of_slice_loop [OF m, of offset ?ne] lt by (simp add: sl_def)
  obtain pre post where p: "sl = pre @ post" "insert_region ?new sl = splice pre ?new post"
    "\<forall>r \<in> set pre. getEndOffset r \<le> offset" "\<forall>r \<in> set post. ?ne \<le> getStartOffset r"
    using insert_region_splice [OF c(2), of ?new] cl assms(3) by auto
  have s: "separated (splice pre ?new post)"
    using sep p(1,3,4) assms(3) by (intro separated_splice) auto
  have "contents pre i = None" if "offset \<le> i" using p(3) that by (intro contents_None) auto
  then have "contents (splice pre ?new post) i = (if offset \<le> i \<and> i < ?ne
      then Some (data ! nat (i - offset)) else contents sl i)"
    unfolding contents_splice p(1) by (auto simp: contents_append split: option.split)
  then show ?thesis using p(2) s sl c(1) assms(2,3)
    by (auto simp: replace_data_def)
qed

lemma erase_exact_after: "chained m rs \<Longrightarrow> erase_exact offset len rs = Some rs' \<Longrightarrow> m \<le> offset"
proof (induction rs arbitrary: m rs')
  case (Cons q qs)
  then have "chained m qs" using chained_mono [of "getEndOffset q" qs m] region_nonempty [of q] by simp
  then show ?case using Cons by (auto simp: getStartOffset_def split: if_splits)
qed simp

lemma erase_exact_spec:
  assumes "chained m rs" and "erase_exact offset len rs = Some rs'" and "0 < len"
  shows "contents rs' i = (if offset \<le> i \<and> i < offset + len then None else contents rs i) \<and> chained m rs'"
  using assms
proof (induction rs arbitrary: m rs')
  case (Cons r rs)
  have r: "m \<le> getStartOffset r" "rdata r \<noteq> []" and rs: "chained (getEndOffset r) rs"
    using Cons.prems(1) by auto
  show ?case
  proof (cases "roffset r = offset \<and> int (length (rdata r)) = len")
    case True
    then have e: "getEndOffset r = offset + len" "getStartOffset r = offset" "rs' = rs"
      using Cons.prems(2) by (simp_all add: getEndOffset_def getStartOffset_def)
    then show ?thesis using contents_before [OF rs, of i] chained_mono [OF rs, of m] r Cons.prems(3) by auto
  next
    case False
    then obtain ss where ss: "erase_exact offset len rs = Some ss" "rs' = r # ss"
      using Cons.prems(2) by auto
    have ih: "contents ss i = (if offset \<le> i \<and> i < offset + len then None else contents rs i)"
      "chained (getEndOffset r) ss" using Cons.IH [OF rs ss(1) Cons.prems(3)] by auto
    have "getEndOffset r \<le> offset" by (rule erase_exact_after [OF rs ss(1)])
    then show ?thesis using ih ss(2) r by auto
  qed
qed simp

lemma erase_exact_separated:
  "separated rs \<Longrightarrow> erase_exact offset len rs = Some rs' \<Longrightarrow>
     separated rs' \<and> (rs' \<noteq> [] \<longrightarrow> getStartOffset (hd rs) \<le> getStartOffset (hd rs'))"
proof (induction rs arbitrary: rs')
  case (Cons r rs)
  have r: "getStartOffset r < getEndOffset r" using Cons.prems(1) region_nonempty [of r]
    by (simp add: separated_Cons)
  show ?case
  proof (cases "roffset r = offset \<and> int (length (rdata r)) = len")
    case True
    then show ?thesis using Cons.prems r by (auto simp: separated_Cons)
  next
    case False
    then obtain ss where ss: "erase_exact offset len rs = Some ss" "rs' = r # ss"
      using Cons.prems(2) by auto
    have "rs \<noteq> []" using ss(1) by auto
    then show ?thesis using Cons.IH [of ss] Cons.prems(1) ss by (auto simp: separated_Cons)
  qed
qed simp

lemma clear_data_spec:
  assumes "separated rs" and "0 \<le> offset" and "0 < len"
  shows "\<exists>rs'. clear_data offset len rs = Inr rs' \<and> separated rs'
    \<and> contents rs' i = (if offset \<le> i \<and> i < offset + len then None else contents rs i)"
proof -
  obtain m where m: "chained m rs" using separated_chained_ex [OF assms(1)] by blast
  show ?thesis
  proof (cases "erase_exact offset len rs")
    case None
    then show ?thesis
      using contents_slice_loop [OF m, of offset "offset + len" i] assms
        separated_slice_loop [OF assms(1), of offset "offset + len"]
      by (simp add: clear_data_def sliceRegions_loop [OF m])
  next
    case (Some ss)
    then show ?thesis
      using erase_exact_spec [OF m Some assms(3), of i] erase_exact_separated [OF assms(1) Some] assms
      by (simp add: clear_data_def)
  qed
qed

section \<open>The contract of a data buffer and its clients\<close>

text \<open>
  What the clients (the IPv4 and ICN reassembly, the TCP receive queue) rely on: storing a
  non-empty piece of data succeeds, overwrites its range and nothing else.
\<close>

locale data_buffer =
  fixes inv :: "'b \<Rightarrow> bool"
    and get :: "'b \<Rightarrow> int \<Rightarrow> 'a option"
    and put :: "int \<Rightarrow> 'a list \<Rightarrow> 'b \<Rightarrow> 'b outcome"
  assumes put_ok: "inv b \<Longrightarrow> 0 \<le> offset \<Longrightarrow> data \<noteq> [] \<Longrightarrow>
      \<exists>b'. put offset data b = Inr b' \<and> inv b'
        \<and> (\<forall>i. get b' i = (if offset \<le> i \<and> i < offset + int (length data)
             then Some (data ! nat (i - offset)) else get b i))"
begin

lemma put_piece:
  assumes "inv b" and "piece \<noteq> []" and "0 \<le> offset" and "offset + int (length piece) \<le> int (length msg)"
    and "piece = take (length piece) (drop (nat offset) msg)"
  shows "\<exists>b'. put offset piece b = Inr b' \<and> inv b'
    \<and> (\<forall>i. get b' i = (if offset \<le> i \<and> i < offset + int (length piece)
             then Some (msg ! nat i) else get b i))"
proof -
  have "piece ! nat (i - offset) = msg ! nat i" if "offset \<le> i" "i < offset + int (length piece)" for i
  proof -
    have "piece ! nat (i - offset) = take (length piece) (drop (nat offset) msg) ! nat (i - offset)"
      using assms(5) by simp
    also have "\<dots> = msg ! (nat offset + nat (i - offset))" using that assms(3,4) by simp
    also have "nat offset + nat (i - offset) = nat i" using that assms(3) by simp
    finally show ?thesis .
  qed
  then show ?thesis using put_ok [OF assms(1,3,2)] by auto
qed

text \<open>
  Pieces of one message, stored in any order, with duplicates and overlaps, leave exactly
  the message on the union of their ranges.
\<close>

lemma put_pieces:
  assumes "inv b" and "\<forall>i. get b i = None"
    and "\<forall>(offset, piece) \<in> set pieces. piece \<noteq> [] \<and> 0 \<le> offset
      \<and> offset + int (length piece) \<le> int (length msg)
      \<and> piece = take (length piece) (drop (nat offset) msg)"
  shows "\<exists>b'. foldE (\<lambda>(offset, piece). put offset piece) pieces b = Inr b' \<and> inv b'
    \<and> (\<forall>i. get b' i = (if \<exists>(offset, piece) \<in> set pieces. offset \<le> i \<and> i < offset + int (length piece)
             then Some (msg ! nat i) else None))"
  using assms(3)
proof (induction pieces rule: rev_induct)
  case Nil
  then show ?case using assms(1,2) by simp
next
  case (snoc p ps)
  obtain offset piece where p: "p = (offset, piece)" by (cases p)
  obtain b' where b': "foldE (\<lambda>(offset, piece). put offset piece) ps b = Inr b'" "inv b'"
    "\<forall>i. get b' i = (if \<exists>(offset, piece) \<in> set ps. offset \<le> i \<and> i < offset + int (length piece)
             then Some (msg ! nat i) else None)"
    using snoc by auto
  have "piece \<noteq> [] \<and> 0 \<le> offset \<and> offset + int (length piece) \<le> int (length msg)
      \<and> piece = take (length piece) (drop (nat offset) msg)"
    using snoc.prems p by simp
  then obtain b2 where "put offset piece b' = Inr b2" "inv b2"
    "\<forall>i. get b2 i = (if offset \<le> i \<and> i < offset + int (length piece)
             then Some (msg ! nat i) else get b' i)"
    using put_piece [OF b'(2), of piece offset msg] by blast
  then show ?case using b' p by (auto simp: foldE_append)
qed

end

interpretation cbuf: data_buffer separated contents replace_data
proof
  fix rs :: "'a buf_region list" and offset :: int and data :: "'a list"
  assume *: "separated rs" "0 \<le> offset" "data \<noteq> []"
  obtain rs' where "replace_data offset data rs = Inr rs'" "separated rs'"
    using replace_data_spec [OF *] by blast
  then show "\<exists>rs'. replace_data offset data rs = Inr rs' \<and> separated rs'
      \<and> (\<forall>i. contents rs' i = (if offset \<le> i \<and> i < offset + int (length data)
           then Some (data ! nat (i - offset)) else contents rs i))"
    using replace_data_spec [OF *] by auto
qed

section \<open>Reorder and reassembly buffers\<close>

record 'a reorder_buffer =
  regions :: "'a buf_region list"
  expectedOffset :: int

definition getAvailableDataLength :: "'a reorder_buffer \<Rightarrow> int" where
  "getAvailableDataLength b = (case regions b of
      [] \<Rightarrow> 0
    | r # _ \<Rightarrow> if roffset r = expectedOffset b then int (length (rdata r)) else 0)"

text \<open>
  \<open>popAvailableData(length)\<close>, \<open>None\<close> standing for \<open>b(-1)\<close>. Peeking past the end of the
  chunk is an error of the caller.
\<close>

definition popAvailableData ::
  "int option \<Rightarrow> 'a reorder_buffer \<Rightarrow> ('a list option \<times> 'a reorder_buffer) outcome" where
  "popAvailableData len b = (case regions b of
      [] \<Rightarrow> Inr (None, b)
    | r # _ \<Rightarrow>
       if roffset r = expectedOffset b then
         bindE (case len of
                  None \<Rightarrow> Inr (rdata r, int (length (rdata r)))
                | Some l \<Rightarrow> bindE (assertE (0 < l \<and> l \<le> int (length (rdata r))))
                              (\<lambda>_. Inr (take (nat l) (rdata r), l)))
           (\<lambda>(data, dataLength).
         bindE (clear_data (expectedOffset b) dataLength (regions b)) (\<lambda>rs.
           Inr (Some data, \<lparr>regions = rs, expectedOffset = expectedOffset b + dataLength\<rparr>)))
       else Inr (None, b))"

record 'a reassembly_buffer =
  as_regions :: "'a buf_region list"
  expectedLength :: int

definition reassembly_new :: "'a reassembly_buffer" where
  "reassembly_new = \<lparr>as_regions = [], expectedLength = -1\<rparr>"

definition reassembly_replace :: "int \<Rightarrow> 'a list \<Rightarrow> 'a reassembly_buffer \<Rightarrow> 'a reassembly_buffer outcome" where
  "reassembly_replace offset data b =
     bindE (replace_data offset data (as_regions b)) (\<lambda>rs. Inr (b\<lparr>as_regions := rs\<rparr>))"

definition isComplete :: "'a reassembly_buffer \<Rightarrow> bool" where
  "isComplete b = (case as_regions b of
      [r] \<Rightarrow> roffset r = 0 \<and> int (length (rdata r)) = expectedLength b
    | _ \<Rightarrow> False)"

definition getReassembledData :: "'a reassembly_buffer \<Rightarrow> 'a list outcome" where
  "getReassembledData b = (if \<not> isComplete b then Inl (RuntimeError ''Reassembly is incomplete'')
     else Inr (rdata (hd (as_regions b))))"

text \<open>
  A separated buffer whose contents are exactly a non-empty interval from 0 is a single
  region; this is what makes \<open>isComplete\<close> mean that every unit has arrived.
\<close>

lemma separated_interval:
  assumes "separated rs" and "0 < n" and "\<And>i. contents rs i \<noteq> None \<longleftrightarrow> 0 \<le> i \<and> i < n"
  shows "\<exists>d. rs = [\<lparr>roffset = 0, rdata = d\<rparr>] \<and> int (length d) = n"
proof (cases rs)
  case Nil
  then show ?thesis using assms(2) assms(3) [of 0] by simp
next
  case (Cons r rs')
  then have "separated (r # rs')" using assms(1) by simp
  then have ch: "chained (getStartOffset r) (r # rs')" using separated_chained by fastforce
  have ne: "getStartOffset r < getEndOffset r" using ch region_nonempty [of r] by simp
  have at: "contents rs i = (if i < getStartOffset r then None
     else if i < getEndOffset r then Some (rdata r ! nat (i - getStartOffset r)) else contents rs' i)" for i
    using contents_in [OF ch, of i] Cons by simp
  have s: "getStartOffset r = 0"
  proof (rule ccontr)
    assume a: "getStartOffset r \<noteq> 0"
    then show False
      using assms(2) assms(3) [of 0] assms(3) [of "getStartOffset r"] at [of 0] at [of "getStartOffset r"] ne
      by (cases "getStartOffset r < 0") auto
  qed
  have e: "rs' = []"
  proof (rule ccontr)
    assume "rs' \<noteq> []"
    then obtain q qs where q: "rs' = q # qs" by (cases rs') auto
    have gap: "getEndOffset r < getStartOffset q" and sep: "separated (q # qs)"
      using assms(1) Cons q by auto
    have cq: "chained (getStartOffset q) (q # qs)" using separated_chained [OF sep] by simp
    have "contents rs (getEndOffset r) = None"
      using at [of "getEndOffset r"] ne contents_before [OF cq gap] q by simp
    then have "n \<le> getEndOffset r" using assms(3) [of "getEndOffset r"] s ne by auto
    moreover have "contents rs (getStartOffset q) \<noteq> None"
      using at [of "getStartOffset q"] gap ne contents_in [OF cq] cq region_nonempty [of q] q by simp
    ultimately show False using assms(3) [of "getStartOffset q"] gap by simp
  qed
  have "getEndOffset r = n"
    using assms(3) [of "getEndOffset r"] assms(3) [of n] assms(2) at [of "getEndOffset r"] at [of n] s e ne
    by (auto split: if_splits)
  then show ?thesis using Cons s e
    by (intro exI [of _ "rdata r"]) (simp add: getStartOffset_def getEndOffset_def)
qed

text \<open>
  C3. Replacing a range of a chunk buffer whose regions are sorted, non-empty and separated
  by gaps keeps that invariant, stores exactly the new units at their offsets and leaves
  every other offset as it was, whatever old regions it covers, cuts, splits or joins.
\<close>

theorem replace_data_refines:
  assumes "separated rs" and "0 \<le> offset" and "data \<noteq> []"
  shows "\<exists>rs'. replace_data offset data rs = Inr rs' \<and> separated rs'
    \<and> (\<forall>i. contents rs' i = (if offset \<le> i \<and> i < offset + int (length data)
        then Some (data ! nat (i - offset)) else contents rs i))"
  using cbuf.put_ok [OF assms] .

theorem replace_data_refines_witness:
  "\<exists>rs'. replace_data 3 [7, 8, 9] [\<lparr>roffset = 0, rdata = [1, 2]\<rparr>, \<lparr>roffset = 5, rdata = [3, 4 :: int]\<rparr>] = Inr rs'
    \<and> separated rs' \<and> contents rs' 5 = Some 9"
  using replace_data_refines [of "[\<lparr>roffset = 0, rdata = [1, 2]\<rparr>, \<lparr>roffset = 5, rdata = [3, 4 :: int]\<rparr>]" 3 "[7, 8, 9]"]
  by auto

lemma reassembly_replace_fold:
  "foldE (\<lambda>(offset, piece). reassembly_replace offset piece) ps b =
     bindE (foldE (\<lambda>(offset, piece). replace_data offset piece) ps (as_regions b))
       (\<lambda>rs. Inr (b\<lparr>as_regions := rs\<rparr>))"
proof (induction ps arbitrary: b)
  case (Cons p ps)
  then show ?case
    by (cases p; cases "replace_data (fst p) (snd p) (as_regions b)") (auto simp: reassembly_replace_def)
qed simp

lemma single_region_message:
  assumes "length d = length msg"
    and "\<And>i. contents [\<lparr>roffset = 0, rdata = d\<rparr>] i = (if covered i then Some (msg ! nat i) else None)"
  shows "d = msg"
proof (rule nth_equalityI)
  fix i assume "i < length d"
  then have "contents [\<lparr>roffset = 0, rdata = d\<rparr>] (int i) = Some (d ! i)"
    by (simp add: getStartOffset_def getEndOffset_def)
  then show "d ! i = msg ! i"
    using assms(2) [of "int i"] by (simp split: if_splits)
qed (rule assms(1))

text \<open>
  Reassembly: the fragments of a message, arriving in any order, with duplicates and
  overlaps, never fail; the buffer is complete exactly when they cover the message, and the
  reassembled data is then the message.
\<close>

theorem reassembly_any_order:
  assumes "msg \<noteq> []" and "expectedLength b = int (length msg)" and "as_regions b = []"
    and "\<forall>(offset, piece) \<in> set pieces. piece \<noteq> [] \<and> 0 \<le> offset
      \<and> offset + int (length piece) \<le> int (length msg)
      \<and> piece = take (length piece) (drop (nat offset) msg)"
  shows "\<exists>b'. foldE (\<lambda>(offset, piece). reassembly_replace offset piece) pieces b = Inr b'
    \<and> isComplete b' = (\<forall>i. 0 \<le> i \<and> i < int (length msg) \<longrightarrow>
         (\<exists>(offset, piece) \<in> set pieces. offset \<le> i \<and> i < offset + int (length piece)))
    \<and> (isComplete b' \<longrightarrow> getReassembledData b' = Inr msg)"
proof -
  define covered where "covered = (\<lambda>i. \<exists>(offset, piece) \<in> set pieces. offset \<le> i \<and> i < offset + int (length piece))"
  obtain rs where rs: "foldE (\<lambda>(offset, piece). replace_data offset piece) pieces [] = Inr rs" "separated rs"
    "\<forall>i. contents rs i = (if covered i then Some (msg ! nat i) else None)"
    using cbuf.put_pieces [of "[]" pieces msg] assms(4) unfolding covered_def by auto
  define b' where "b' = b\<lparr>as_regions := rs\<rparr>"
  have fold: "foldE (\<lambda>(offset, piece). reassembly_replace offset piece) pieces b = Inr b'"
    unfolding reassembly_replace_fold assms(3) rs(1) by (simp add: b'_def)
  have inside: "0 \<le> i \<and> i < int (length msg)" if "covered i" for i
    using that assms(4) unfolding covered_def by fastforce
  have single: "\<exists>d. rs = [\<lparr>roffset = 0, rdata = d\<rparr>] \<and> int (length d) = int (length msg)"
    if "\<forall>i. 0 \<le> i \<and> i < int (length msg) \<longrightarrow> covered i"
  proof (rule separated_interval [OF rs(2)])
    show "0 < int (length msg)" using assms(1) by simp
    fix i show "contents rs i \<noteq> None \<longleftrightarrow> 0 \<le> i \<and> i < int (length msg)"
      using that inside [of i] rs(3) by (cases "covered i") auto
  qed
  have complete: "isComplete b' \<longleftrightarrow> (\<forall>i. 0 \<le> i \<and> i < int (length msg) \<longrightarrow> covered i)"
  proof
    assume "isComplete b'"
    then obtain r where r: "rs = [r]" "roffset r = 0" "int (length (rdata r)) = int (length msg)"
      using assms(2) by (auto simp: isComplete_def b'_def split: list.splits)
    then have "contents rs i \<noteq> None" if "0 \<le> i \<and> i < int (length msg)" for i
      using that by (simp add: getStartOffset_def getEndOffset_def)
    then show "\<forall>i. 0 \<le> i \<and> i < int (length msg) \<longrightarrow> covered i" using rs(3) by metis
  next
    assume "\<forall>i. 0 \<le> i \<and> i < int (length msg) \<longrightarrow> covered i"
    then obtain d where "rs = [\<lparr>roffset = 0, rdata = d\<rparr>]" "int (length d) = int (length msg)"
      using single by blast
    then show "isComplete b'" using assms(2) by (simp add: isComplete_def b'_def)
  qed
  have "getReassembledData b' = Inr msg" if c: "isComplete b'"
  proof -
    obtain d where "rs = [\<lparr>roffset = 0, rdata = d\<rparr>]" "length d = length msg"
      using single complete c by auto
    moreover from this have "d = msg" using rs(3) by (intro single_region_message) auto
    ultimately show ?thesis using c by (simp add: getReassembledData_def b'_def)
  qed
  then show ?thesis using fold complete unfolding covered_def by blast
qed

theorem reassembly_any_order_witness:
  "\<exists>b'. foldE (\<lambda>(offset, piece). reassembly_replace offset piece) [(2, ''cd''), (1, ''bc''), (0, ''ab'')]
      (reassembly_new\<lparr>expectedLength := 4\<rparr>) = Inr b' \<and> getReassembledData b' = Inr ''abcd''"
proof -
  have "\<exists>(offset :: int, piece) \<in> {(2 :: int, ''cd''), (1, ''bc''), (0, ''ab'')}.
      offset \<le> i \<and> i < offset + int (length piece)" if "0 \<le> i" "i < 4" for i :: int
    using that by auto
  then show ?thesis
    using reassembly_any_order [of "''abcd''" "reassembly_new\<lparr>expectedLength := 4\<rparr>"
        "[(2, ''cd''), (1, ''bc''), (0, ''ab'')]"]
    by (auto simp: reassembly_new_def)
qed

end
