(* ===== verification/Tcp_Receive_Queue.thy ===== *)
theory Tcp_Receive_Queue
  imports Tcp_Seq Region_Buffer
begin

text \<open>
  \<open>transportlayer/tcp/TcpReceiveQueue\<close>: received octets wait in a reorder buffer whose
  offsets are 64-bit stream positions; sequence numbers are these positions modulo
  \<open>2^32\<close>. The specification is the partial function from stream positions to octets.
\<close>

section \<open>Data and operations\<close>

record 'a receive_queue =
  rq_rcv_nxt :: u32
  reorderBuffer :: "'a reorder_buffer"

definition recvq_new :: "'a receive_queue" where
  "recvq_new = \<lparr>rq_rcv_nxt = -1, reorderBuffer = \<lparr>regions = [], expectedOffset = -1\<rparr>\<rparr>"

definition recvq_init :: "u32 \<Rightarrow> 'a receive_queue" where
  "recvq_init startSeq =
     \<lparr>rq_rcv_nxt = startSeq, reorderBuffer = \<lparr>regions = [], expectedOffset = uint startSeq\<rparr>\<rparr>"

abbreviation rq_regions :: "'a receive_queue \<Rightarrow> 'a buf_region list" where
  "rq_regions q \<equiv> regions (reorderBuffer q)"

abbreviation rq_expected :: "'a receive_queue \<Rightarrow> int" where
  "rq_expected q \<equiv> expectedOffset (reorderBuffer q)"

definition offsetToSeq :: "int \<Rightarrow> u32" where
  "offsetToSeq offs = word_of_int offs"

definition seqToOffset :: "'a receive_queue \<Rightarrow> u32 \<Rightarrow> int" where
  "seqToOffset q seq =
     (let expOffs = rq_expected q; expSeq = offsetToSeq expOffs in
      if seqGE seq expSeq then expOffs + uint (seq - expSeq) else expOffs - uint (expSeq - seq))"

text \<open>
  \<open>insertBytesFromSegment\<close>: the segment is its sequence number and its payload. The range
  check of debug builds comes first; a payload that lies completely before the expected
  offset leaves nothing to peek, which the chunk library refuses.
\<close>

definition insertBytesFromSegment ::
  "'a receive_queue \<Rightarrow> u32 \<Rightarrow> 'a list \<Rightarrow> (u32 \<times> 'a receive_queue) outcome" where
  "insertBytesFromSegment q seq payload =
     (let buffSeq = offsetToSeq (rq_expected q);
          len = length payload;
          ob = offsetToSeq (getStartOffset (hd (rq_regions q)));
          oe = offsetToSeq (getEndOffset (last (rq_regions q)));
          ne = seq + of_nat len;
          minb = seqMin ob seq;
          maxe = seqMax oe ne in
      if rq_regions q \<noteq> [] \<and> (seqGE minb oe \<or> seqGE minb ne \<or> seqGE ob maxe \<or> seqGE seq maxe)
      then Inl (RuntimeError ''The new segment is out of the acceptable range'')
      else
        let offs = (if seqLess seq buffSeq then unat (buffSeq - seq) else 0);
            seq' = (if seqLess seq buffSeq then buffSeq else seq) in
        bindE (replace_data (seqToOffset q seq') (drop offs payload) (rq_regions q)) (\<lambda>rs.
          let q' = q\<lparr>reorderBuffer := (reorderBuffer q)\<lparr>regions := rs\<rparr>\<rparr>;
              q'' = (if seqGE (rq_rcv_nxt q') (offsetToSeq (getStartOffset (hd rs)))
                     then q'\<lparr>rq_rcv_nxt := offsetToSeq (getEndOffset (hd rs))\<rparr> else q')
          in Inr (rq_rcv_nxt q'', q'')))"

definition extractBytesUpTo ::
  "'a receive_queue \<Rightarrow> u32 \<Rightarrow> ('a list option \<times> 'a receive_queue) outcome" where
  "extractBytesUpTo q seq =
     bindE (assertE (seqLE seq (rq_rcv_nxt q))) (\<lambda>_.
     if rq_regions q = [] then Inr (None, q)
     else
       let seqOffs = seqToOffset q seq; maxLength = seqOffs - rq_expected q in
       if maxLength \<le> 0 then Inr (None, q)
       else
         bindE (popAvailableData (Some maxLength) (reorderBuffer q)) (\<lambda>(chunk, rb).
         let q' = q\<lparr>reorderBuffer := rb\<rparr> in
         bindE (assertE (rq_expected q' \<le> seqToOffset q' seq)) (\<lambda>_. Inr (chunk, q'))))"

definition getAmountOfBufferedBytes :: "'a receive_queue \<Rightarrow> u32" where
  "getAmountOfBufferedBytes q = sum_list (map (\<lambda>r. of_nat (length (rdata r))) (rq_regions q))"

definition getAmountOfFreeBytes :: "'a receive_queue \<Rightarrow> u32 \<Rightarrow> u32" where
  "getAmountOfFreeBytes q maxRcvBuffer =
     (let usedRcvBuffer = getAmountOfBufferedBytes q; freeRcvBuffer = maxRcvBuffer - usedRcvBuffer in
      if maxRcvBuffer > usedRcvBuffer then freeRcvBuffer else 0)"

definition getQueueLength :: "'a receive_queue \<Rightarrow> nat" where
  "getQueueLength q = length (rq_regions q)"

definition getLE :: "'a receive_queue \<Rightarrow> u32 \<Rightarrow> u32" where
  "getLE q fromSeqNum =
     (let fs = seqToOffset q fromSeqNum in
      case find (\<lambda>r. getStartOffset r \<le> fs \<and> fs < getEndOffset r) (rq_regions q) of
        Some r \<Rightarrow> offsetToSeq (getStartOffset r)
      | None \<Rightarrow> fromSeqNum)"

definition getRE :: "'a receive_queue \<Rightarrow> u32 \<Rightarrow> u32" where
  "getRE q toSeqNum =
     (let fs = seqToOffset q toSeqNum in
      case find (\<lambda>r. getStartOffset r < fs \<and> fs \<le> getEndOffset r) (rq_regions q) of
        Some r \<Rightarrow> offsetToSeq (getEndOffset r)
      | None \<Rightarrow> toSeqNum)"

definition getFirstSeqNo :: "'a receive_queue \<Rightarrow> u32" where
  "getFirstSeqNo q = (case rq_regions q of
      [] \<Rightarrow> rq_rcv_nxt q
    | r # _ \<Rightarrow> seqMin (offsetToSeq (getStartOffset r)) (rq_rcv_nxt q))"

section \<open>Stream positions and sequence numbers\<close>

lemma offsetToSeq_diff: "offsetToSeq a - offsetToSeq b = offsetToSeq (a - b)"
  by (simp add: offsetToSeq_def)

lemma offsetToSeq_add: "offsetToSeq a + of_nat n = offsetToSeq (a + int n)"
  by (simp add: offsetToSeq_def)

lemma unat_offsetToSeq: "0 \<le> d \<Longrightarrow> d < 2 ^ 32 \<Longrightarrow> unat (offsetToSeq d) = nat d"
  by (simp add: offsetToSeq_def unsigned_of_int take_bit_int_eq_self nat_take_bit_eq unat_eq_nat_uint)

lemma dist_offsetToSeq:
  "a \<le> b \<Longrightarrow> b - a < 2 ^ 32 \<Longrightarrow> word_dist (offsetToSeq a) (offsetToSeq b) = nat (b - a)"
  by (simp add: word_dist_def offsetToSeq_diff unat_offsetToSeq)

text \<open>Within \<open>2^31\<close> positions the comparisons of sequence numbers compare positions.\<close>

lemma seqLE_offset:
  assumes "\<bar>a - b\<bar> < 2 ^ 31"
  shows "seqLE (offsetToSeq a) (offsetToSeq b) \<longleftrightarrow> a \<le> b"
proof (cases "a \<le> b")
  case True
  then show ?thesis using assms dist_offsetToSeq [of a b] by (simp add: seqLE_dist)
next
  case False
  then have d: "word_dist (offsetToSeq b) (offsetToSeq a) = nat (a - b)"
    using assms by (intro dist_offsetToSeq) auto
  then have "offsetToSeq a \<noteq> offsetToSeq b" using False by auto
  then have "word_dist (offsetToSeq a) (offsetToSeq b) = 2 ^ 32 - nat (a - b)"
    using word_dist_swap [of "offsetToSeq a" "offsetToSeq b"] d by simp
  then show ?thesis using False assms by (simp add: seqLE_dist)
qed

lemma offsetToSeq_inject: "\<bar>a - b\<bar> < 2 ^ 31 \<Longrightarrow> offsetToSeq a = offsetToSeq b \<longleftrightarrow> a = b"
  using dist_offsetToSeq [of a b] dist_offsetToSeq [of b a] by (cases "a \<le> b") auto

lemma seqGE_offset: "\<bar>a - b\<bar> < 2 ^ 31 \<Longrightarrow> seqGE (offsetToSeq a) (offsetToSeq b) \<longleftrightarrow> b \<le> a"
  by (simp add: seqGE_seqLE seqLE_offset abs_minus_commute)

lemma seqLess_offset: "\<bar>a - b\<bar> < 2 ^ 31 \<Longrightarrow> seqLess (offsetToSeq a) (offsetToSeq b) \<longleftrightarrow> a < b"
  by (auto simp: seqLess_seqLE seqLE_offset offsetToSeq_inject)

lemma seqMin_offset:
  "\<bar>a - b\<bar> < 2 ^ 31 \<Longrightarrow> seqMin (offsetToSeq a) (offsetToSeq b) = offsetToSeq (min a b)"
  by (simp add: seqMin_alt seqLE_offset min_def)

lemma seqMax_offset:
  "\<bar>a - b\<bar> < 2 ^ 31 \<Longrightarrow> seqMax (offsetToSeq a) (offsetToSeq b) = offsetToSeq (max a b)"
  by (auto simp: seqMax_alt seqLE_offset max_def abs_minus_commute)

lemma seqToOffset_offset:
  assumes "\<bar>s - rq_expected q\<bar> < 2 ^ 31"
  shows "seqToOffset q (offsetToSeq s) = s"
proof (cases "rq_expected q \<le> s")
  case True
  then have "uint (offsetToSeq s - offsetToSeq (rq_expected q)) = s - rq_expected q"
    using assms unat_offsetToSeq [of "s - rq_expected q"]
    by (simp add: offsetToSeq_diff uint_nat)
  then show ?thesis using True assms by (simp add: seqToOffset_def Let_def seqGE_offset)
next
  case False
  then have "uint (offsetToSeq (rq_expected q) - offsetToSeq s) = rq_expected q - s"
    using assms unat_offsetToSeq [of "rq_expected q - s"]
    by (simp add: offsetToSeq_diff uint_nat)
  then show ?thesis using False assms by (simp add: seqToOffset_def Let_def seqGE_offset)
qed

section \<open>The invariant\<close>

text \<open>The end of the octets that are in order: the end of the first region if it starts there.\<close>

definition in_order_end :: "'a receive_queue \<Rightarrow> int" where
  "in_order_end q = (case rq_regions q of
      [] \<Rightarrow> rq_expected q
    | r # _ \<Rightarrow> if getStartOffset r = rq_expected q then getEndOffset r else rq_expected q)"

definition recvq_inv :: "'a receive_queue \<Rightarrow> bool" where
  "recvq_inv q \<longleftrightarrow> separated (rq_regions q) \<and> 0 \<le> rq_expected q
    \<and> (rq_regions q \<noteq> [] \<longrightarrow> rq_expected q \<le> getStartOffset (hd (rq_regions q))
         \<and> getEndOffset (last (rq_regions q)) < rq_expected q + 2 ^ 30)
    \<and> rq_rcv_nxt q = offsetToSeq (in_order_end q)"

lemma recvq_init_inv [simp]: "recvq_inv (recvq_init s)"
  by (simp add: recvq_inv_def recvq_init_def in_order_end_def offsetToSeq_def)

lemma hd_le_last:
  "separated rs \<Longrightarrow> rs \<noteq> [] \<Longrightarrow>
     getStartOffset (hd rs) < getEndOffset (last rs) \<and> getEndOffset (hd rs) \<le> getEndOffset (last rs)"
proof (induction rs)
  case (Cons r rs)
  then show ?case using region_nonempty [of r] by (cases "rs = []") (auto simp: separated_Cons)
qed simp

lemma in_order_end_bounds:
  assumes "recvq_inv q"
  shows "rq_expected q \<le> in_order_end q \<and> in_order_end q < rq_expected q + 2 ^ 30"
proof (cases "rq_regions q")
  case (Cons r rs)
  then have "getStartOffset r < getEndOffset r" and "getEndOffset r \<le> getEndOffset (last (rq_regions q))"
    using assms hd_le_last [of "rq_regions q"] region_nonempty [of r]
    by (auto simp: recvq_inv_def separated_Cons)
  then show ?thesis using assms Cons by (auto simp: recvq_inv_def in_order_end_def)
qed (simp add: in_order_end_def)

lemma contents_bounds:
  assumes "separated rs" and "rs \<noteq> []" and "contents rs i \<noteq> None"
  shows "getStartOffset (hd rs) \<le> i \<and> i < getEndOffset (last rs)"
  using assms
proof (induction rs)
  case (Cons r rs)
  then show ?case
    using hd_le_last [of "r # rs"] hd_le_last [of rs] region_nonempty [of r]
    by (cases "rs = []") (auto simp: separated_Cons split: if_splits)
qed simp

lemma contents_ends:
  assumes "separated rs" and "rs \<noteq> []"
  shows "contents rs (getStartOffset (hd rs)) \<noteq> None"
    and "contents rs (getEndOffset (last rs) - 1) \<noteq> None"
    and "contents rs (getEndOffset (hd rs)) = None"
proof -
  show "contents rs (getStartOffset (hd rs)) \<noteq> None"
    using assms region_nonempty [of "hd rs"] by (cases rs) (auto simp: separated_Cons)
  show "contents rs (getEndOffset (last rs) - 1) \<noteq> None"
    using assms
  proof (induction rs)
    case (Cons r rs)
    then show ?case using region_nonempty [of r] by (cases "rs = []") (auto simp: separated_Cons)
  qed simp
  show "contents rs (getEndOffset (hd rs)) = None"
  proof (cases rs)
    case (Cons r rs')
    have "contents rs' (getEndOffset r) = None"
    proof (cases "rs' = []")
      case False
      then have "chained (getStartOffset (hd rs')) rs'" and "getEndOffset r < getStartOffset (hd rs')"
        using assms(1) Cons separated_chained [of rs'] by (auto simp: separated_Cons)
      then show ?thesis using contents_before by blast
    qed simp
    then show ?thesis using Cons by simp
  qed (use assms in simp)
qed

text \<open>In terms of contents: \<open>in_order_end\<close> is the first position that has not arrived.\<close>

lemma in_order_end_contents:
  assumes "recvq_inv q"
  shows "contents (rq_regions q) (in_order_end q) = None"
    and "rq_expected q \<le> i \<Longrightarrow> i < in_order_end q \<Longrightarrow> contents (rq_regions q) i \<noteq> None"
proof -
  have sep: "separated (rq_regions q)" using assms by (simp add: recvq_inv_def)
  show "contents (rq_regions q) (in_order_end q) = None"
  proof (cases "rq_regions q")
    case (Cons r rs)
    show ?thesis
    proof (cases "getStartOffset r = rq_expected q")
      case True
      then show ?thesis using contents_ends(3) [OF sep] Cons by (simp add: in_order_end_def)
    next
      case False
      then have "in_order_end q < getStartOffset (hd (rq_regions q))"
        using assms Cons by (simp add: recvq_inv_def in_order_end_def)
      then show ?thesis using contents_bounds [OF sep, of "in_order_end q"] Cons by fastforce
    qed
  qed simp
  show "contents (rq_regions q) i \<noteq> None" if "rq_expected q \<le> i" "i < in_order_end q"
    using that by (auto simp: in_order_end_def split: list.splits if_splits)
qed

section \<open>Inserting and extracting\<close>

text \<open>
  The window of 2^30 octets is the largest a TCP receiver can advertise (65535 scaled
  by 2^14, RFC 1323).
\<close>

lemma range_check_passes:
  assumes inv: "recvq_inv q" and "rq_regions q \<noteq> []" and "payload \<noteq> []"
    and "\<bar>s - rq_expected q\<bar> < 2 ^ 30" and "s + int (length payload) < rq_expected q + 2 ^ 30"
  shows "\<not> (let ob = offsetToSeq (getStartOffset (hd (rq_regions q)));
             oe = offsetToSeq (getEndOffset (last (rq_regions q)));
             ne = offsetToSeq s + of_nat (length payload);
             minb = seqMin ob (offsetToSeq s); maxe = seqMax oe ne
         in seqGE minb oe \<or> seqGE minb ne \<or> seqGE ob maxe \<or> seqGE (offsetToSeq s) maxe)"
proof -
  define ob where "ob = getStartOffset (hd (rq_regions q))"
  define oe where "oe = getEndOffset (last (rq_regions q))"
  define ne where "ne = s + int (length payload)"
  have b: "rq_expected q \<le> ob" "ob < oe" "oe < rq_expected q + 2 ^ 30"
    using inv assms(2) hd_le_last [of "rq_regions q"] by (auto simp: recvq_inv_def ob_def oe_def)
  have n: "s < ne" "ne < rq_expected q + 2 ^ 30" "\<bar>s - rq_expected q\<bar> < 2 ^ 30"
    using assms(3-5) by (simp_all add: ne_def)
  have "seqMin (offsetToSeq ob) (offsetToSeq s) = offsetToSeq (min ob s)"
    by (rule seqMin_offset) (use b n in \<open>simp add: abs_less_iff\<close>)
  moreover have "seqMax (offsetToSeq oe) (offsetToSeq ne) = offsetToSeq (max oe ne)"
    by (rule seqMax_offset) (use b n in \<open>simp add: abs_less_iff\<close>)
  moreover have "\<not> seqGE (offsetToSeq (min ob s)) (offsetToSeq oe)"
    "\<not> seqGE (offsetToSeq (min ob s)) (offsetToSeq ne)"
    "\<not> seqGE (offsetToSeq ob) (offsetToSeq (max oe ne))"
    "\<not> seqGE (offsetToSeq s) (offsetToSeq (max oe ne))"
    using b n by (subst seqGE_offset; auto simp: min_def max_def)+
  ultimately show ?thesis
    unfolding Let_def offsetToSeq_add by (simp add: ob_def [symmetric] oe_def [symmetric] ne_def [symmetric])
qed

lemma insert_contents_bounds:
  assumes inv: "recvq_inv q" and d: "data \<noteq> []" and p: "rq_expected q \<le> p"
    and e: "p + int (length data) < rq_expected q + 2 ^ 30"
    and rs: "separated rs" "\<forall>i. contents rs i = (if p \<le> i \<and> i < p + int (length data)
        then Some (data ! nat (i - p)) else contents (rq_regions q) i)"
  shows "rs \<noteq> [] \<and> rq_expected q \<le> getStartOffset (hd rs)
    \<and> getEndOffset (last rs) < rq_expected q + 2 ^ 30"
proof -
  have in_range: "rq_expected q \<le> i \<and> i + 1 < rq_expected q + 2 ^ 30" if "contents rs i \<noteq> None" for i
  proof (cases "p \<le> i \<and> i < p + int (length data)")
    case False
    then have "contents (rq_regions q) i \<noteq> None" using that rs(2) by metis
    moreover from this have "rq_regions q \<noteq> []" by auto
    ultimately show ?thesis
      using contents_bounds [of "rq_regions q" i] inv by (auto simp: recvq_inv_def)
  qed (use p e in auto)
  have "contents rs p \<noteq> None" using rs(2) d by auto
  then have ne: "rs \<noteq> []" by auto
  then show ?thesis
    using in_range [OF contents_ends(1) [OF rs(1) ne]] in_range [OF contents_ends(2) [OF rs(1) ne]]
      in_range [of "getEndOffset (last rs) - 1"] by auto
qed

lemma insertBytesFromSegment_spec:
  assumes inv: "recvq_inv q" and d: "payload \<noteq> []"
    and w: "\<bar>s - rq_expected q\<bar> < 2 ^ 30" "s + int (length payload) < rq_expected q + 2 ^ 30"
    and new: "rq_expected q < s + int (length payload)"
  shows "\<exists>q'. insertBytesFromSegment q (offsetToSeq s) payload = Inr (rq_rcv_nxt q', q') \<and> recvq_inv q'
    \<and> rq_expected q' = rq_expected q
    \<and> (\<forall>i. contents (rq_regions q') i =
         (if max s (rq_expected q) \<le> i \<and> i < s + int (length payload)
          then Some (payload ! nat (i - s)) else contents (rq_regions q) i))"
proof -
  define p where "p = max s (rq_expected q)"
  define data where "data = drop (nat (p - s)) payload"
  have less: "seqLess (offsetToSeq s) (offsetToSeq (rq_expected q)) \<longleftrightarrow> s < rq_expected q"
    using w by (intro seqLess_offset) auto
  have offs: "(if s < rq_expected q then unat (offsetToSeq (rq_expected q) - offsetToSeq s) else 0) = nat (p - s)"
    using w by (auto simp: p_def offsetToSeq_diff unat_offsetToSeq)
  have seq': "(if s < rq_expected q then offsetToSeq (rq_expected q) else offsetToSeq s) = offsetToSeq p"
    by (simp add: p_def)
  have stop: "seqToOffset q (offsetToSeq p) = p" using w by (intro seqToOffset_offset) (auto simp: p_def)
  have data: "data \<noteq> []" and e: "p + int (length data) = s + int (length payload)"
    using new d by (auto simp: data_def p_def max_def split: if_splits)
  have p0: "0 \<le> p" "rq_expected q \<le> p" using inv by (auto simp: p_def recvq_inv_def)
  have sep: "separated (rq_regions q)" using inv by (simp add: recvq_inv_def)
  obtain rs where rs: "replace_data p data (rq_regions q) = Inr rs" "separated rs"
    "\<forall>i. contents rs i = (if p \<le> i \<and> i < p + int (length data)
        then Some (data ! nat (i - p)) else contents (rq_regions q) i)"
    using cbuf.put_ok [OF sep p0(1) data] by blast
  have b: "rs \<noteq> []" "rq_expected q \<le> getStartOffset (hd rs)" "getEndOffset (last rs) < rq_expected q + 2 ^ 30"
    using insert_contents_bounds [OF inv data p0(2) _ rs(2,3)] e w by auto
  define q0 where "q0 = q\<lparr>reorderBuffer := (reorderBuffer q)\<lparr>regions := rs\<rparr>\<rparr>"
  define q' where "q' = (if seqGE (rq_rcv_nxt q0) (offsetToSeq (getStartOffset (hd rs)))
      then q0\<lparr>rq_rcv_nxt := offsetToSeq (getEndOffset (hd rs))\<rparr> else q0)"
  note ioe = in_order_end_bounds [OF inv]
  have hd: "getStartOffset (hd rs) < rq_expected q + 2 ^ 30" using hd_le_last [OF rs(2) b(1)] b(3) by simp
  have ge: "seqGE (rq_rcv_nxt q0) (offsetToSeq (getStartOffset (hd rs))) \<longleftrightarrow> getStartOffset (hd rs) \<le> in_order_end q"
  proof -
    have "\<bar>in_order_end q - getStartOffset (hd rs)\<bar> < 2 ^ 31" using b(2) hd ioe by (simp add: abs_less_iff)
    moreover have "rq_rcv_nxt q0 = offsetToSeq (in_order_end q)" using inv by (simp add: q0_def recvq_inv_def)
    ultimately show ?thesis by (simp only: seqGE_offset)
  qed
  have start: "getStartOffset (hd rs) = rq_expected q" if "getStartOffset (hd rs) \<le> in_order_end q"
  proof (rule ccontr)
    assume "getStartOffset (hd rs) \<noteq> rq_expected q"
    then have lt: "rq_expected q < getStartOffset (hd rs)" using b(2) by simp
    then have "contents rs (rq_expected q) = None"
      using contents_bounds [OF rs(2) b(1), of "rq_expected q"] by fastforce
    moreover have "contents rs (rq_expected q) \<noteq> None"
      using in_order_end_contents(2) [OF inv, of "rq_expected q"] rs(3) lt that data by auto
    ultimately show False by simp
  qed
  have ioe': "rq_rcv_nxt q' = offsetToSeq (in_order_end q')"
  proof (cases "getStartOffset (hd rs) \<le> in_order_end q")
    case True
    then show ?thesis using start ge b(1) by (auto simp: q'_def q0_def in_order_end_def split: list.split)
  next
    case False
    then have "getStartOffset (hd rs) \<noteq> rq_expected q" using ioe by auto
    moreover have "in_order_end q = rq_expected q"
    proof (rule ccontr)
      assume "in_order_end q \<noteq> rq_expected q"
      then have "contents rs (rq_expected q) \<noteq> None"
        using in_order_end_contents(2) [OF inv, of "rq_expected q"] ioe rs(3) data by auto
      then show False using contents_bounds [OF rs(2) b(1), of "rq_expected q"] False ioe by auto
    qed
    ultimately show ?thesis
      using False ge b(1) inv by (auto simp: q'_def q0_def in_order_end_def recvq_inv_def split: list.split)
  qed
  have inv': "recvq_inv q'"
    using inv rs(2) b ioe' by (auto simp: recvq_inv_def) (auto simp: q'_def q0_def)
  have "insertBytesFromSegment q (offsetToSeq s) payload = Inr (rq_rcv_nxt q', q')"
  proof (cases "rq_regions q = []")
    case True
    then show ?thesis
      unfolding insertBytesFromSegment_def Let_def less offs seq' stop data_def [symmetric]
      using rs(1) by (simp add: q'_def q0_def)
  next
    case False
    then show ?thesis
      using range_check_passes [OF inv False d w]
      unfolding insertBytesFromSegment_def Let_def less offs seq' stop data_def [symmetric]
      using rs(1) by (simp add: q'_def q0_def)
  qed
  moreover have "data ! nat (i - p) = payload ! nat (i - s)" if "p \<le> i" "i < s + int (length payload)" for i
    using that new d by (auto simp: data_def p_def nat_diff_chain max_def)
  moreover have "rq_regions q' = rs" "rq_expected q' = rq_expected q" by (auto simp: q'_def q0_def)
  ultimately show ?thesis using inv' rs(3) unfolding e p_def [symmetric]
    by (intro exI [of _ q']) auto
qed

lemma extractBytesUpTo_spec:
  assumes inv: "recvq_inv q" and s: "rq_expected q < s" "s \<le> in_order_end q"
  shows "\<exists>data q'. extractBytesUpTo q (offsetToSeq s) = Inr (Some data, q') \<and> recvq_inv q'
    \<and> rq_expected q' = s \<and> rq_rcv_nxt q' = rq_rcv_nxt q
    \<and> int (length data) = s - rq_expected q
    \<and> (\<forall>k < length data. contents (rq_regions q) (rq_expected q + int k) = Some (data ! k))
    \<and> (\<forall>i. contents (rq_regions q') i = (if i < s then None else contents (rq_regions q) i))"
proof -
  note b = in_order_end_bounds [OF inv]
  have sep: "separated (rq_regions q)" and e0: "0 \<le> rq_expected q"
    and rn: "rq_rcv_nxt q = offsetToSeq (in_order_end q)" using inv by (simp_all add: recvq_inv_def)
  obtain r rs where r: "rq_regions q = r # rs" "getStartOffset r = rq_expected q" "getEndOffset r = in_order_end q"
    using s by (auto simp: in_order_end_def split: list.splits if_splits)
  have le: "seqLE (offsetToSeq s) (rq_rcv_nxt q)"
    unfolding rn using s b by (subst seqLE_offset) auto
  have so: "seqToOffset q (offsetToSeq s) = s" using s b by (intro seqToOffset_offset) auto
  define l where "l = s - rq_expected q"
  have l: "0 < l" "l \<le> int (length (rdata r))" using s r by (auto simp: l_def region_length)
  define data where "data = take (nat l) (rdata r)"
  obtain rs' where rs': "clear_data (rq_expected q) l (rq_regions q) = Inr rs'"
    using clear_data_spec [OF sep e0 l(1)] by blast
  have c: "separated rs'" "\<And>i. contents rs' i =
      (if rq_expected q \<le> i \<and> i < s then None else contents (rq_regions q) i)"
    using clear_data_spec [OF sep e0 l(1)] rs' by (auto simp: l_def)
  define q' where "q' = q\<lparr>reorderBuffer := \<lparr>regions = rs', expectedOffset = s\<rparr>\<rparr>"
  have pop: "popAvailableData (Some l) (reorderBuffer q) = Inr (Some data, \<lparr>regions = rs', expectedOffset = s\<rparr>)"
    using r l rs' by (simp add: popAvailableData_def getStartOffset_def data_def l_def)
  have so': "seqToOffset q' (offsetToSeq s) = s" by (rule seqToOffset_offset) (simp add: q'_def)
  have ex: "extractBytesUpTo q (offsetToSeq s) = Inr (Some data, q')"
    using le r so pop l so' by (simp add: extractBytesUpTo_def Let_def l_def q'_def)
  have cq: "contents (rq_regions q') i = (if i < s then None else contents (rq_regions q) i)" for i
    using c(2) [of i] contents_bounds [OF sep, of i] r by (cases "contents rs i") (auto simp: q'_def)
  have inside: "rq_expected q \<le> i \<and> i + 1 < rq_expected q + 2 ^ 30" if "contents (rq_regions q) i \<noteq> None" for i
    using contents_bounds [OF sep _ that] r inv by (auto simp: recvq_inv_def)
  have bounds: "rs' \<noteq> [] \<longrightarrow> s \<le> getStartOffset (hd rs') \<and> getEndOffset (last rs') < s + 2 ^ 30"
  proof
    assume ne: "rs' \<noteq> []"
    have "contents rs' i \<noteq> None \<Longrightarrow> s \<le> i \<and> i + 1 < rq_expected q + 2 ^ 30" for i
      using cq [of i] inside [of i] by (auto simp: q'_def split: if_splits)
    from this [OF contents_ends(1) [OF c(1) ne]] this [OF contents_ends(2) [OF c(1) ne]]
    show "s \<le> getStartOffset (hd rs') \<and> getEndOffset (last rs') < s + 2 ^ 30" using s by auto
  qed
  have "in_order_end q' = in_order_end q"
  proof (cases "rs'")
    case Nil
    have "\<not> s < in_order_end q"
      using cq [of s] in_order_end_contents(2) [OF inv, of s] s(1) Nil by (auto simp: q'_def)
    then have "s = in_order_end q" using s(2) by linarith
    then show ?thesis using Nil by (simp add: in_order_end_def q'_def)
  next
    case (Cons r' t)
    let ?q' = "q'\<lparr>rq_rcv_nxt := offsetToSeq (in_order_end q')\<rparr>"
    have same: "in_order_end ?q' = in_order_end q'" "rq_regions ?q' = rq_regions q'" "rq_expected ?q' = s"
      by (simp_all add: in_order_end_def q'_def Cons)
    have q'inv: "recvq_inv ?q'"
      unfolding recvq_inv_def same using c(1) bounds e0 s by (simp add: q'_def)
    have "s \<le> in_order_end q'" using in_order_end_bounds [OF q'inv] same by simp
    moreover have "\<not> in_order_end q' < in_order_end q"
      using in_order_end_contents(2) [OF inv, of "in_order_end q'"] in_order_end_contents(1) [OF q'inv]
        cq [of "in_order_end q'"] same \<open>s \<le> in_order_end q'\<close> s by auto
    moreover have "\<not> in_order_end q < in_order_end q'"
      using in_order_end_contents(2) [OF q'inv, of "in_order_end q"] in_order_end_contents(1) [OF inv]
        cq [of "in_order_end q"] same s by auto
    ultimately show ?thesis by simp
  qed
  then have inv': "recvq_inv q'"
    using c(1) bounds e0 s rn by (simp add: recvq_inv_def) (simp add: q'_def)
  have "contents (rq_regions q) (rq_expected q + int k) = Some (data ! k)" if "k < length data" for k
    using that r l by (auto simp: data_def getStartOffset_def getEndOffset_def)
  moreover have "int (length data) = s - rq_expected q" using l by (auto simp: data_def l_def)
  ultimately show ?thesis using ex inv' cq by (intro exI [of _ data] exI [of _ q']) (simp add: q'_def)
qed

section \<open>Properties\<close>


lemma recvq_init_0: "recvq_init 0 = \<lparr>rq_rcv_nxt = 0, reorderBuffer = \<lparr>regions = [], expectedOffset = 0\<rparr>\<rparr>"
  by (simp add: recvq_init_def)


text \<open>
  Whatever has arrived in order is handed to the application once and unchanged:
  extracting up to any sequence number within it returns exactly the octets stored from the
  expected offset to that number, removes them and keeps the rest and the acknowledgement
  number.
\<close>

theorem extract_in_order:
  assumes "recvq_inv q" and "rq_expected q < s" and "s \<le> in_order_end q"
  shows "\<exists>data q'. extractBytesUpTo q (offsetToSeq s) = Inr (Some data, q') \<and> recvq_inv q'
    \<and> rq_expected q' = s \<and> rq_rcv_nxt q' = rq_rcv_nxt q
    \<and> int (length data) = s - rq_expected q
    \<and> (\<forall>k < length data. contents (rq_regions q) (rq_expected q + int k) = Some (data ! k))
    \<and> (\<forall>i. contents (rq_regions q') i = (if i < s then None else contents (rq_regions q) i))"
  by (rule extractBytesUpTo_spec [OF assms])

definition received_abc :: "char receive_queue" where
  "received_abc = \<lparr>rq_rcv_nxt = 3,
     reorderBuffer = \<lparr>regions = [\<lparr>roffset = 0, rdata = ''abc''\<rparr>], expectedOffset = 0\<rparr>\<rparr>"

lemma received_abc_inv: "recvq_inv received_abc" "in_order_end received_abc = 3"
  by (simp_all add: received_abc_def recvq_inv_def in_order_end_def offsetToSeq_def
      getStartOffset_def getEndOffset_def)

theorem extract_in_order_witness:
  "\<exists>q'. extractBytesUpTo received_abc 2 = Inr (Some ''ab'', q') \<and> recvq_inv q'
    \<and> contents (rq_regions q') 2 = Some (CHR ''c'')"
proof -
  obtain data q' where *: "extractBytesUpTo received_abc (offsetToSeq 2) = Inr (Some data, q')" "recvq_inv q'"
    "int (length data) = 2 - rq_expected received_abc"
    "\<forall>k < length data. contents (rq_regions received_abc) (rq_expected received_abc + int k) = Some (data ! k)"
    "\<forall>i. contents (rq_regions q') i = (if i < 2 then None else contents (rq_regions received_abc) i)"
    using extract_in_order [of received_abc 2] received_abc_inv by (auto simp: received_abc_def)
  have "length data = 2" using *(3) by (simp add: received_abc_def)
  then obtain a b where "data = [a, b]" by (auto simp: numeral_2_eq_2 length_Suc_conv)
  then have "data = ''ab''" using *(4) [rule_format, of 0] *(4) [rule_format, of 1]
    by (simp add: received_abc_def getStartOffset_def getEndOffset_def)
  then show ?thesis using *(1,2,5)
    by (simp add: received_abc_def getStartOffset_def getEndOffset_def offsetToSeq_def)
qed

text \<open>
  Reading past the octets that are in order is an assertion failure, even by one
  position. A received FIN moves the connection's \<open>rcv_nxt\<close> one past the queue's, so a
  later READ command, which extracts up to the connection's \<open>rcv_nxt\<close>, runs into it.
\<close>

theorem extract_past_fin_fails:
  assumes "recvq_inv q"
  shows "extractBytesUpTo q (rq_rcv_nxt q + 1) = Inl AssertionFailed"
proof -
  have "\<not> seqLE (rq_rcv_nxt q + 1) (rq_rcv_nxt q)"
    by (simp add: seqLE_def unsigned_minus_1_eq_mask mask_eq_exp_minus_1)
  then show ?thesis by (simp add: extractBytesUpTo_def)
qed

theorem extract_past_fin_fails_witness:
  "extractBytesUpTo received_abc (rq_rcv_nxt received_abc + 1) = Inl AssertionFailed"
  using extract_past_fin_fails [OF received_abc_inv(1)] .

end
