(* ===== verification/Tcp_Sack_Queue.thy ===== *)
theory Tcp_Sack_Queue
  imports Tcp_Seq
begin

text \<open>
  \<open>transportlayer/tcp/TcpSackRexmitQueue\<close>: the sender's SACK scoreboard. The source keeps
  a linked list of adjacent regions \<open>[beginSeqNum, endSeqNum)\<close>, each with a \<open>sacked\<close> and
  a \<open>rexmitted\<close> bit, between the sequence numbers \<open>begin\<close> and \<open>end\<close>. The specification
  is a list with one pair of bits per outstanding octet (\<open>scoreboard\<close>); every operation is
  proved to be the obvious operation on that list, with none of its assertions failing.
\<close>

section \<open>Data and operations\<close>

record region =
  beginSeqNum :: u32
  endSeqNum :: u32
  sacked :: bool
  rexmitted :: bool

record sack_queue =
  rexmitQueue :: "region list"
  sq_begin :: u32
  sq_end :: u32

definition sq_init :: "sack_queue \<Rightarrow> u32 \<Rightarrow> sack_queue" where
  "sq_init q seqNum = q\<lparr>sq_begin := seqNum, sq_end := seqNum\<rparr>"

definition sq_new :: sack_queue where
  "sq_new = \<lparr>rexmitQueue = [], sq_begin = 0, sq_end = 0\<rparr>"

fun checkRegions :: "u32 \<Rightarrow> region list \<Rightarrow> u32 \<Rightarrow> bool" where
  "checkRegions b [] e = (b = e)"
| "checkRegions b (r # rs) e =
     (b = beginSeqNum r \<and> seqLess (beginSeqNum r) (endSeqNum r) \<and> checkRegions (endSeqNum r) rs e)"

definition checkQueue :: "sack_queue \<Rightarrow> bool" where
  "checkQueue q = checkRegions (sq_begin q) (rexmitQueue q) (sq_end q)"

text \<open>The loop \<open>while (i != end && seqLE(i->endSeqNum, n)) i++\<close> splits the list.\<close>

abbreviation ends_by :: "u32 \<Rightarrow> region \<Rightarrow> bool" where
  "ends_by n r \<equiv> seqLE (endSeqNum r) n"

definition discardUpTo :: "sack_queue \<Rightarrow> u32 \<Rightarrow> sack_queue outcome" where
  "discardUpTo q seqNum =
     bindE (assertE (seqLE (sq_begin q) seqNum \<and> seqLE seqNum (sq_end q))) (\<lambda>_.
     bindE (case dropWhile (ends_by seqNum) (rexmitQueue q) of
              [] \<Rightarrow> Inr []
            | r # rs \<Rightarrow>
                bindE (assertE (seqLE (beginSeqNum r) seqNum \<and> seqLess seqNum (endSeqNum r)))
                  (\<lambda>_. Inr (r\<lparr>beginSeqNum := seqNum\<rparr> # rs)))
       (\<lambda>rs. let q' = q\<lparr>rexmitQueue := rs, sq_begin := seqNum\<rparr> in
         bindE (assertE (checkQueue q')) (\<lambda>_. Inr q')))"

text \<open>Splitting the region that holds \<open>n\<close> so that a region starts at \<open>n\<close>.\<close>

definition split_region :: "u32 \<Rightarrow> region list \<Rightarrow> region \<Rightarrow> region list \<times> region" where
  "split_region n pre r =
     (if beginSeqNum r \<noteq> n then (pre @ [r\<lparr>endSeqNum := n\<rparr>], r\<lparr>beginSeqNum := n\<rparr>) else (pre, r))"

text \<open>
  The second loop of \<open>enqueueSentData\<close>: regions that end by \<open>toSeqNum\<close> are marked. Returns
  the marked regions, the remaining ones, the advanced \<open>fromSeqNum\<close> and \<open>found\<close>.
\<close>

fun mark_rexmitted ::
  "u32 \<Rightarrow> u32 \<Rightarrow> bool \<Rightarrow> region list \<Rightarrow> region list \<times> region list \<times> u32 \<times> bool" where
  "mark_rexmitted toSeq fromSeq found [] = ([], [], fromSeq, found)"
| "mark_rexmitted toSeq fromSeq found (r # rs) =
     (if seqLE (endSeqNum r) toSeq
      then (case mark_rexmitted toSeq (endSeqNum r) True rs of (done_, rest, f, fd) \<Rightarrow>
              (r\<lparr>rexmitted := True\<rparr> # done_, rest, f, fd))
      else ([], r # rs, fromSeq, found))"

definition enqueueSentData :: "sack_queue \<Rightarrow> u32 \<Rightarrow> u32 \<Rightarrow> sack_queue outcome" where
  "enqueueSentData q fromSeqNum toSeqNum =
     bindE (assertE (seqLE (sq_begin q) fromSeqNum \<and> seqLE fromSeqNum (sq_end q))) (\<lambda>_.
     bindE (assertE (seqLess fromSeqNum toSeqNum)) (\<lambda>_.
     bindE
       (if rexmitQueue q = [] \<or> sq_end q = fromSeqNum
        then Inr (rexmitQueue q @ [\<lparr>beginSeqNum = fromSeqNum, endSeqNum = toSeqNum,
                                     sacked = False, rexmitted = False\<rparr>], True)
        else (case dropWhile (ends_by fromSeqNum) (rexmitQueue q) of
                [] \<Rightarrow> Inl AssertionFailed
              | r # rs \<Rightarrow>
                  bindE (assertE (seqLE (beginSeqNum r) fromSeqNum \<and> seqLess fromSeqNum (endSeqNum r)))
                  (\<lambda>_. let (pre, r') = split_region fromSeqNum
                              (takeWhile (ends_by fromSeqNum) (rexmitQueue q)) r;
                            (marked, rest, f, found) = mark_rexmitted toSeqNum fromSeqNum False (r' # rs)
                        in if f \<noteq> toSeqNum
                           then (case rest of
                                   [] \<Rightarrow> Inr (pre @ marked @ [\<lparr>beginSeqNum = f, endSeqNum = toSeqNum,
                                                sacked = False, rexmitted = False\<rparr>], True)
                                 | i # is \<Rightarrow>
                                     bindE (assertE (seqLess (beginSeqNum i) toSeqNum)) (\<lambda>_.
                                       Inr (pre @ marked @ \<lparr>beginSeqNum = f, endSeqNum = toSeqNum,
                                                sacked = sacked i, rexmitted = True\<rparr>
                                              # i\<lparr>beginSeqNum := toSeqNum\<rparr> # is, True)))
                           else Inr (pre @ marked @ rest, found))))
       (\<lambda>(rs, found).
         bindE (assertE found) (\<lambda>_.
         let q' = q\<lparr>rexmitQueue := rs, sq_begin := beginSeqNum (hd rs), sq_end := endSeqNum (last rs)\<rparr>
         in bindE (assertE (checkQueue q')) (\<lambda>_. Inr q')))))"

text \<open>The loop of \<open>setSackedBit\<close> and the split of the last region after it.\<close>

fun mark_sacked :: "u32 \<Rightarrow> u32 \<Rightarrow> region list \<Rightarrow> region list" where
  "mark_sacked fromSeq toSeq [] = []"
| "mark_sacked fromSeq toSeq (r # rs) =
     (if seqLE (endSeqNum r) toSeq
      then (if seqGE (beginSeqNum r) fromSeq then r\<lparr>sacked := True\<rparr> else r)
             # mark_sacked fromSeq toSeq rs
      else if seqLess (beginSeqNum r) toSeq \<and> seqLess toSeq (endSeqNum r)
      then r\<lparr>endSeqNum := toSeq, sacked := True\<rparr> # r\<lparr>beginSeqNum := toSeq\<rparr> # rs
      else r # rs)"

definition setSackedBit :: "sack_queue \<Rightarrow> u32 \<Rightarrow> u32 \<Rightarrow> sack_queue outcome" where
  "setSackedBit q from0 toSeqNum =
     (let fromSeqNum = (if seqLess from0 (sq_begin q) then sq_begin q else from0) in
      bindE (assertE (seqLess fromSeqNum (sq_end q))) (\<lambda>_.
      bindE (assertE (seqLess (sq_begin q) toSeqNum \<and> seqLE toSeqNum (sq_end q))) (\<lambda>_.
      bindE (assertE (seqLess fromSeqNum toSeqNum)) (\<lambda>_.
      bindE
        (if rexmitQueue q = [] then Inr []
         else (case dropWhile (ends_by fromSeqNum) (rexmitQueue q) of
                 [] \<Rightarrow> Inl AssertionFailed
               | r # rs \<Rightarrow>
                   bindE (assertE (seqLE (beginSeqNum r) fromSeqNum \<and> seqLess fromSeqNum (endSeqNum r)))
                   (\<lambda>_. let (pre, r') = split_region fromSeqNum
                               (takeWhile (ends_by fromSeqNum) (rexmitQueue q)) r
                         in Inr (pre @ mark_sacked fromSeqNum toSeqNum (r' # rs)))))
        (\<lambda>rs. let q' = q\<lparr>rexmitQueue := rs\<rparr> in
           bindE (assertE (checkQueue q')) (\<lambda>_. Inr q'))))))"

definition getSackedBit :: "sack_queue \<Rightarrow> u32 \<Rightarrow> bool outcome" where
  "getSackedBit q seqNum =
     bindE (assertE (seqLE (sq_begin q) seqNum \<and> seqLE seqNum (sq_end q))) (\<lambda>_.
     if sq_end q = seqNum then Inr False
     else (case dropWhile (ends_by seqNum) (rexmitQueue q) of
             [] \<Rightarrow> Inl AssertionFailed
           | r # _ \<Rightarrow> bindE (assertE (seqLE (beginSeqNum r) seqNum \<and> seqLess seqNum (endSeqNum r)))
                        (\<lambda>_. Inr (sacked r))))"

definition getHighestSackedSeqNum :: "sack_queue \<Rightarrow> u32" where
  "getHighestSackedSeqNum q =
     (case find sacked (rev (rexmitQueue q)) of Some r \<Rightarrow> endSeqNum r | None \<Rightarrow> sq_begin q)"

definition getHighestRexmittedSeqNum :: "sack_queue \<Rightarrow> u32" where
  "getHighestRexmittedSeqNum q =
     (case find rexmitted (rev (rexmitQueue q)) of Some r \<Rightarrow> endSeqNum r | None \<Rightarrow> sq_begin q)"

fun skip_flagged :: "u32 \<Rightarrow> u32 \<Rightarrow> region list \<Rightarrow> u32 outcome" where
  "skip_flagged bytes fromSeq [] = Inr bytes"
| "skip_flagged bytes fromSeq (r # rs) =
     (if sacked r \<or> rexmitted r
      then bindE (assertE (seqLE (beginSeqNum r) fromSeq \<and> seqLess fromSeq (endSeqNum r)))
             (\<lambda>_. skip_flagged (bytes + (endSeqNum r - fromSeq)) (endSeqNum r) rs)
      else Inr bytes)"

definition checkRexmitQueueForSackedOrRexmittedSegments :: "sack_queue \<Rightarrow> u32 \<Rightarrow> u32 outcome" where
  "checkRexmitQueueForSackedOrRexmittedSegments q fromSeqNum =
     bindE (assertE (seqLE (sq_begin q) fromSeqNum \<and> seqLE fromSeqNum (sq_end q))) (\<lambda>_.
     if rexmitQueue q = [] \<or> sq_end q = fromSeqNum then Inr 0
     else skip_flagged 0 fromSeqNum (dropWhile (ends_by fromSeqNum) (rexmitQueue q)))"

definition resetSackedBit :: "sack_queue \<Rightarrow> sack_queue" where
  "resetSackedBit q = q\<lparr>rexmitQueue := map (\<lambda>r. r\<lparr>sacked := False\<rparr>) (rexmitQueue q)\<rparr>"

definition resetRexmittedBit :: "sack_queue \<Rightarrow> sack_queue" where
  "resetRexmittedBit q = q\<lparr>rexmitQueue := map (\<lambda>r. r\<lparr>rexmitted := False\<rparr>) (rexmitQueue q)\<rparr>"

fun sum_sacked :: "u32 \<Rightarrow> region list \<Rightarrow> u32" where
  "sum_sacked bytes [] = bytes"
| "sum_sacked bytes (r # rs) =
     sum_sacked (if sacked r then bytes + (endSeqNum r - beginSeqNum r) else bytes) rs"

definition getTotalAmountOfSackedBytes :: "sack_queue \<Rightarrow> u32" where
  "getTotalAmountOfSackedBytes q = sum_sacked 0 (rexmitQueue q)"

text \<open>The reverse loop of \<open>getAmountOfSackedBytes\<close>, on the reversed list.\<close>

fun sum_sacked_back :: "u32 \<Rightarrow> u32 \<Rightarrow> region list \<Rightarrow> u32" where
  "sum_sacked_back fromSeq bytes [] = bytes"
| "sum_sacked_back fromSeq bytes (r # rs) =
     (if seqLE fromSeq (beginSeqNum r)
      then sum_sacked_back fromSeq
             (if sacked r then bytes + (endSeqNum r - beginSeqNum r) else bytes) rs
      else if seqLess (beginSeqNum r) fromSeq \<and> seqLess fromSeq (endSeqNum r) \<and> sacked r
      then bytes + (endSeqNum r - fromSeq)
      else bytes)"

definition getAmountOfSackedBytes :: "sack_queue \<Rightarrow> u32 \<Rightarrow> u32 outcome" where
  "getAmountOfSackedBytes q fromSeqNum =
     bindE (assertE (seqLE (sq_begin q) fromSeqNum \<and> seqLE fromSeqNum (sq_end q))) (\<lambda>_.
     Inr (sum_sacked_back fromSeqNum 0 (rev (rexmitQueue q))))"

fun count_sack_runs :: "bool \<Rightarrow> u32 \<Rightarrow> region list \<Rightarrow> u32" where
  "count_sack_runs prevSacked counter [] = counter"
| "count_sack_runs prevSacked counter (r # rs) =
     count_sack_runs (sacked r) (if sacked r \<and> \<not> prevSacked then counter + 1 else counter) rs"

definition getNumOfDiscontiguousSacks :: "sack_queue \<Rightarrow> u32 \<Rightarrow> u32 outcome" where
  "getNumOfDiscontiguousSacks q fromSeqNum =
     bindE (assertE (seqLE (sq_begin q) fromSeqNum \<and> seqLE fromSeqNum (sq_end q))) (\<lambda>_.
     if rexmitQueue q = [] \<or> fromSeqNum = sq_end q then Inr 0
     else Inr (count_sack_runs False 0 (dropWhile (ends_by fromSeqNum) (rexmitQueue q))))"

text \<open>\<open>checkSackBlock\<close> returns the length to the end of the region and the two bits.\<close>

definition checkSackBlock :: "sack_queue \<Rightarrow> u32 \<Rightarrow> (u32 \<times> bool \<times> bool) outcome" where
  "checkSackBlock q fromSeqNum =
     bindE (assertE (seqLE (sq_begin q) fromSeqNum \<and> seqLess fromSeqNum (sq_end q))) (\<lambda>_.
     (case dropWhile (ends_by fromSeqNum) (rexmitQueue q) of
        [] \<Rightarrow> Inl AssertionFailed
      | r # _ \<Rightarrow> bindE (assertE (seqLE (beginSeqNum r) fromSeqNum \<and> seqLess fromSeqNum (endSeqNum r)))
                   (\<lambda>_. Inr (endSeqNum r - fromSeqNum, sacked r, rexmitted r))))"

section \<open>The scoreboard: one pair of bits per octet\<close>

definition rlen :: "region \<Rightarrow> nat" where
  "rlen r = word_dist (beginSeqNum r) (endSeqNum r)"

definition flags :: "region \<Rightarrow> (bool \<times> bool) list" where
  "flags r = replicate (rlen r) (sacked r, rexmitted r)"

definition scoreboard :: "region list \<Rightarrow> (bool \<times> bool) list" where
  "scoreboard rs = concat (map flags rs)"

definition sq_inv :: "sack_queue \<Rightarrow> bool" where
  "sq_inv q \<longleftrightarrow> checkQueue q \<and> length (scoreboard (rexmitQueue q)) < 2 ^ 31"

lemma length_flags [simp]: "length (flags r) = rlen r"
  by (simp add: flags_def)

lemma scoreboard_simps [simp]:
  "scoreboard [] = []"
  "scoreboard (r # rs) = flags r @ scoreboard rs"
  "scoreboard (rs @ rs') = scoreboard rs @ scoreboard rs'"
  by (simp_all add: scoreboard_def)

lemma checkRegions_append [simp]:
  "checkRegions b (rs @ rs') e \<longleftrightarrow> (\<exists>m. checkRegions b rs m \<and> checkRegions m rs' e)"
  by (induction rs arbitrary: b) auto

lemma checkRegions_appendI:
  "checkRegions b rs m \<Longrightarrow> checkRegions m rs' e \<Longrightarrow> checkRegions b (rs @ rs') e"
  by auto

lemma region_end: "endSeqNum r = beginSeqNum r + of_nat (rlen r)"
  by (simp add: rlen_def word_dist_def)

lemma rlen_pos: "seqLess (beginSeqNum r) (endSeqNum r) \<Longrightarrow> 0 < rlen r"
  by (metis gr0I rlen_def seqLess_seqLE word_dist_0_iff)

lemma checkRegions_end: "checkRegions b rs e \<Longrightarrow> e = b + of_nat (length (scoreboard rs))"
proof (induction rs arbitrary: b)
  case (Cons r rs)
  then have "e = endSeqNum r + of_nat (length (scoreboard rs))" and "b = beginSeqNum r" by auto
  then show ?case by (simp add: region_end)
qed simp

lemma checkRegions_dist:
  "checkRegions b rs e \<Longrightarrow> length (scoreboard rs) < 2 ^ 31 \<Longrightarrow>
     word_dist b e = length (scoreboard rs)"
  by (drule checkRegions_end) (simp add: word_dist_add)

lemma seqLess_dist: "word_dist x y < 2 ^ 31 \<Longrightarrow> seqLess x y \<longleftrightarrow> 0 < word_dist x y"
  by (auto simp: seqLess_seqLE seqLE_dist)

text \<open>Where the search loops stop: at the region that holds the octet \<open>n\<close>.\<close>

lemma ends_by_iff:
  assumes "rlen r < 2 ^ 31" and "word_dist (beginSeqNum r) n < 2 ^ 31"
  shows "ends_by n r \<longleftrightarrow> rlen r \<le> word_dist (beginSeqNum r) n"
  using tseq.le_window [of "beginSeqNum r" "endSeqNum r" n] assms by (simp add: rlen_def)

lemma region_shift:
  "rlen r \<le> word_dist (beginSeqNum r) n \<Longrightarrow>
     word_dist (endSeqNum r) n = word_dist (beginSeqNum r) n - rlen r"
  unfolding rlen_def by (rule word_dist_shift)

lemma search_stops:
  assumes "checkRegions b rs e" and "length (scoreboard rs) < 2 ^ 31"
    and "word_dist b n \<le> length (scoreboard rs)"
  obtains pre m rest where
    "takeWhile (ends_by n) rs = pre" "dropWhile (ends_by n) rs = rest" "rs = pre @ rest"
    "checkRegions b pre m" "checkRegions m rest e"
    "word_dist b n = length (scoreboard pre) + word_dist m n"
    "case rest of [] \<Rightarrow> n = e | r # _ \<Rightarrow> beginSeqNum r = m \<and> word_dist m n < rlen r"
  using assms
proof (induction rs arbitrary: b thesis)
  case Nil
  then show ?case by (auto simp: Nil.prems(1) [of "[]" "[]" e])
next
  case (Cons r rs)
  let ?k = "word_dist b n"
  have b: "beginSeqNum r = b" and rs: "checkRegions (endSeqNum r) rs e"
    and ls: "length (scoreboard rs) < 2 ^ 31" and lr: "rlen r < 2 ^ 31" and k: "?k < 2 ^ 31"
    using Cons.prems(2-4) by auto
  have eb: "ends_by n r \<longleftrightarrow> rlen r \<le> ?k" using ends_by_iff [of r n] b lr k by simp
  show ?case
  proof (cases "rlen r \<le> ?k")
    case True
    then have sh: "word_dist (endSeqNum r) n = ?k - rlen r" using region_shift [of r n] b by simp
    then have "word_dist (endSeqNum r) n \<le> length (scoreboard rs)" using Cons.prems(4) by simp
    then obtain pre m rest where
      "takeWhile (ends_by n) rs = pre" "dropWhile (ends_by n) rs = rest" "rs = pre @ rest"
      "checkRegions (endSeqNum r) pre m" "checkRegions m rest e"
      "word_dist (endSeqNum r) n = length (scoreboard pre) + word_dist m n"
      "case rest of [] \<Rightarrow> n = e | r # _ \<Rightarrow> beginSeqNum r = m \<and> word_dist m n < rlen r"
      using Cons.IH [OF _ rs ls] by blast
    then show ?thesis using True sh eb Cons.prems(2)
      by (intro Cons.prems(1) [of "r # pre" rest m]) simp_all
  next
    case False
    then have "takeWhile (ends_by n) (r # rs) = []" "dropWhile (ends_by n) (r # rs) = r # rs"
      using eb by simp_all
    then show ?thesis using False b Cons.prems(2)
      by (intro Cons.prems(1) [of "[]" "r # rs" b]) simp_all
  qed
qed

lemma window_guard:
  assumes "checkRegions b rs e" and "length (scoreboard rs) < 2 ^ 31"
  shows "seqLE b n \<and> seqLE n e \<longleftrightarrow> word_dist b n \<le> length (scoreboard rs)"
  using checkRegions_dist [OF assms] assms(2) tseq.le_window [of b n e] by (auto simp: seqLE_dist)

lemma inside_guard:
  assumes "word_dist (beginSeqNum r) n < rlen r" and "rlen r < 2 ^ 31"
  shows "seqLE (beginSeqNum r) n \<and> seqLess n (endSeqNum r)"
  using assms tseq.less_window [of "beginSeqNum r" n "endSeqNum r"]
  by (auto simp: seqLE_dist rlen_def)

section \<open>Every operation is the operation on the scoreboard\<close>

definition octets :: "sack_queue \<Rightarrow> (bool \<times> bool) list" where
  "octets q = scoreboard (rexmitQueue q)"

definition offset :: "sack_queue \<Rightarrow> u32 \<Rightarrow> nat" where
  "offset q n = word_dist (sq_begin q) n"

lemma sq_invD:
  assumes "sq_inv q"
  shows "checkRegions (sq_begin q) (rexmitQueue q) (sq_end q)"
    and "length (scoreboard (rexmitQueue q)) < 2 ^ 31"
  using assms by (simp_all add: sq_inv_def checkQueue_def)

lemma sq_end_offset: "sq_inv q \<Longrightarrow> offset q (sq_end q) = length (octets q)"
  unfolding offset_def octets_def by (intro checkRegions_dist sq_invD)

lemma sq_guard:
  "sq_inv q \<Longrightarrow> seqLE (sq_begin q) n \<and> seqLE n (sq_end q) \<longleftrightarrow> offset q n \<le> length (octets q)"
  unfolding offset_def octets_def by (intro window_guard sq_invD)

lemma search_octet:
  assumes inv: "sq_inv q" and n: "offset q n \<le> length (octets q)"
  obtains pre m rest where
    "takeWhile (ends_by n) (rexmitQueue q) = pre" "dropWhile (ends_by n) (rexmitQueue q) = rest"
    "rexmitQueue q = pre @ rest" "checkRegions (sq_begin q) pre m" "checkRegions m rest (sq_end q)"
    "offset q n = length (scoreboard pre) + word_dist m n"
    "case rest of [] \<Rightarrow> n = sq_end q | r # _ \<Rightarrow> beginSeqNum r = m \<and> word_dist m n < rlen r"
    "length (scoreboard rest) < 2 ^ 31"
proof -
  note D = sq_invD [OF inv]
  have "word_dist (sq_begin q) n \<le> length (scoreboard (rexmitQueue q))"
    using n by (simp add: offset_def octets_def)
  from D this show ?thesis
  proof (rule search_stops)
    fix pre m rest
    assume *: "takeWhile (ends_by n) (rexmitQueue q) = pre"
      "dropWhile (ends_by n) (rexmitQueue q) = rest" "rexmitQueue q = pre @ rest"
      "checkRegions (sq_begin q) pre m" "checkRegions m rest (sq_end q)"
      "word_dist (sq_begin q) n = length (scoreboard pre) + word_dist m n"
      "case rest of [] \<Rightarrow> n = sq_end q | r # _ \<Rightarrow> beginSeqNum r = m \<and> word_dist m n < rlen r"
    have "length (scoreboard rest) < 2 ^ 31" using D(2) unfolding *(3) by simp
    with * show ?thesis by (intro that) (simp_all add: offset_def)
  qed
qed

lemma search_octet_inside:
  assumes inv: "sq_inv q" and n: "offset q n < length (octets q)"
  obtains pre m r rs where
    "takeWhile (ends_by n) (rexmitQueue q) = pre" "dropWhile (ends_by n) (rexmitQueue q) = r # rs"
    "rexmitQueue q = pre @ r # rs" "checkRegions (sq_begin q) pre m"
    "checkRegions m (r # rs) (sq_end q)"
    "offset q n = length (scoreboard pre) + word_dist m n"
    "beginSeqNum r = m" "word_dist m n < rlen r" "rlen r < 2 ^ 31"
    "seqLE (beginSeqNum r) n" "seqLess n (endSeqNum r)"
proof -
  obtain pre m rest where *:
    "takeWhile (ends_by n) (rexmitQueue q) = pre" "dropWhile (ends_by n) (rexmitQueue q) = rest"
    "rexmitQueue q = pre @ rest" "checkRegions (sq_begin q) pre m" "checkRegions m rest (sq_end q)"
    "offset q n = length (scoreboard pre) + word_dist m n"
    "case rest of [] \<Rightarrow> n = sq_end q | r # _ \<Rightarrow> beginSeqNum r = m \<and> word_dist m n < rlen r"
    "length (scoreboard rest) < 2 ^ 31"
    by (rule search_octet [OF inv less_imp_le [OF n]])
  show ?thesis
  proof (cases rest)
    case Nil
    then have "n = sq_end q" using *(7) by simp
    then show ?thesis using n sq_end_offset [OF inv] by simp
  next
    case (Cons r rs)
    note c = * [unfolded Cons list.case]
    then have "word_dist (beginSeqNum r) n < rlen r" "rlen r < 2 ^ 31" by simp_all
    from inside_guard [OF this] c(7) this(2) show ?thesis
      by (intro that [OF c(1-6)]) simp_all
  qed
qed

text \<open>Moving the start of a region, and cutting it in two.\<close>

lemma rlen_cut:
  assumes "word_dist (beginSeqNum r) n \<le> rlen r"
  shows "rlen (r\<lparr>beginSeqNum := n\<rparr>) = rlen r - word_dist (beginSeqNum r) n"
    and "rlen (r\<lparr>endSeqNum := n\<rparr>) = word_dist (beginSeqNum r) n"
  using assms word_dist_shift [of "beginSeqNum r" n "endSeqNum r"] by (simp_all add: rlen_def)

lemma flags_cut:
  assumes "word_dist (beginSeqNum r) n \<le> rlen r"
  shows "flags (r\<lparr>beginSeqNum := n\<rparr>) = drop (word_dist (beginSeqNum r) n) (flags r)"
    and "flags (r\<lparr>endSeqNum := n\<rparr>) = take (word_dist (beginSeqNum r) n) (flags r)"
  using rlen_cut [OF assms] assms by (simp_all add: flags_def min_def)

lemma discardUpTo_spec:
  assumes inv: "sq_inv q" and n: "offset q n \<le> length (octets q)"
  shows "\<exists>q'. discardUpTo q n = Inr q' \<and> sq_inv q' \<and> octets q' = drop (offset q n) (octets q)
    \<and> sq_begin q' = n \<and> sq_end q' = sq_end q"
proof -
  obtain pre m rest where *:
    "takeWhile (ends_by n) (rexmitQueue q) = pre" "dropWhile (ends_by n) (rexmitQueue q) = rest"
    "rexmitQueue q = pre @ rest" "checkRegions (sq_begin q) pre m" "checkRegions m rest (sq_end q)"
    "offset q n = length (scoreboard pre) + word_dist m n"
    "case rest of [] \<Rightarrow> n = sq_end q | r # _ \<Rightarrow> beginSeqNum r = m \<and> word_dist m n < rlen r"
    "length (scoreboard rest) < 2 ^ 31"
    by (rule search_octet [OF inv n])
  have g: "seqLE (sq_begin q) n \<and> seqLE n (sq_end q)" using sq_guard [OF inv] n by simp
  show ?thesis
  proof (cases rest)
    case Nil
    then have "n = sq_end q" using *(7) by simp
    moreover from this have "discardUpTo q n = Inr (q\<lparr>rexmitQueue := [], sq_begin := n\<rparr>)"
      unfolding discardUpTo_def *(2) Nil using g by (simp add: checkQueue_def)
    ultimately show ?thesis using sq_end_offset [OF inv]
      by (simp add: checkQueue_def sq_inv_def octets_def)
  next
    case (Cons r rs)
    then have r: "word_dist (beginSeqNum r) n < rlen r" "rlen r < 2 ^ 31" using * by auto
    let ?q = "q\<lparr>rexmitQueue := r\<lparr>beginSeqNum := n\<rparr> # rs, sq_begin := n\<rparr>"
    have c: "checkQueue ?q" using *(5) Cons inside_guard [OF r] by (simp add: checkQueue_def)
    have "discardUpTo q n = Inr ?q"
      using *(2) Cons g inside_guard [OF r] c by (simp add: discardUpTo_def)
    moreover have "octets ?q = drop (offset q n) (octets q)"
      using *(3,6,7) Cons r flags_cut [of r n] by (simp add: octets_def)
    moreover have "sq_inv ?q"
      using c *(8) Cons rlen_cut(1) [of r n] r by (simp add: sq_inv_def)
    ultimately show ?thesis by simp
  qed
qed

lemma split_octet:
  assumes inv: "sq_inv q" and n: "offset q n < length (octets q)"
  obtains pre r rs pre' r' where
    "takeWhile (ends_by n) (rexmitQueue q) = pre" "dropWhile (ends_by n) (rexmitQueue q) = r # rs"
    "seqLE (beginSeqNum r) n" "seqLess n (endSeqNum r)"
    "split_region n pre r = (pre', r')"
    "checkRegions (sq_begin q) pre' n" "checkRegions n (r' # rs) (sq_end q)"
    "scoreboard pre' = take (offset q n) (octets q)"
    "scoreboard (r' # rs) = drop (offset q n) (octets q)"
proof -
  obtain pre m r rs where *:
    "takeWhile (ends_by n) (rexmitQueue q) = pre" "dropWhile (ends_by n) (rexmitQueue q) = r # rs"
    "rexmitQueue q = pre @ r # rs" "checkRegions (sq_begin q) pre m"
    "checkRegions m (r # rs) (sq_end q)"
    "offset q n = length (scoreboard pre) + word_dist m n"
    "beginSeqNum r = m" "word_dist m n < rlen r" "rlen r < 2 ^ 31"
    "seqLE (beginSeqNum r) n" "seqLess n (endSeqNum r)"
    by (rule search_octet_inside [OF inv n])
  show ?thesis
  proof (cases "m = n")
    case True
    then show ?thesis using *
      by (intro that [OF *(1,2,10,11), of pre r]) (simp_all add: split_region_def octets_def)
  next
    case False
    have w: "word_dist m n < 2 ^ 31" using *(8,9) by linarith
    have "seqLess m n" using False w by (simp add: seqLess_seqLE seqLE_dist)
    then show ?thesis using * False flags_cut [of r n]
      by (intro that [OF *(1,2,10,11), of "pre @ [r\<lparr>endSeqNum := n\<rparr>]" "r\<lparr>beginSeqNum := n\<rparr>"])
        (simp_all add: split_region_def octets_def)
  qed
qed

lemma mark_sacked_spec:
  assumes "checkRegions b rs e" and "length (scoreboard rs) < 2 ^ 31"
    and "word_dist f b + length (scoreboard rs) < 2 ^ 31"
    and "word_dist b t \<le> length (scoreboard rs)"
  shows "checkRegions b (mark_sacked f t rs) e \<and>
    scoreboard (mark_sacked f t rs) =
      map (\<lambda>(s, x). (True, x)) (take (word_dist b t) (scoreboard rs)) @
      drop (word_dist b t) (scoreboard rs)"
  using assms
proof (induction rs arbitrary: b)
  case (Cons r rs)
  let ?d = "word_dist b t"
  have b: "beginSeqNum r = b" and le: "seqLess b (endSeqNum r)" and rs: "checkRegions (endSeqNum r) rs e"
    and lr: "rlen r < 2 ^ 31" and d: "?d < 2 ^ 31"
    using Cons.prems by auto
  have eb: "ends_by t r \<longleftrightarrow> rlen r \<le> ?d" using ends_by_iff [of r t] b lr d by simp
  have ge: "seqGE b f" using Cons.prems(3) by (simp add: seqGE_seqLE seqLE_dist)
  show ?case
  proof (cases "rlen r \<le> ?d")
    case True
    then have sh: "word_dist (endSeqNum r) t = ?d - rlen r" using region_shift [of r t] b by simp
    have "word_dist f (endSeqNum r) = word_dist f b + rlen r"
      unfolding rlen_def b using Cons.prems(3) b by (intro word_dist_chain) (simp add: rlen_def)
    then show ?thesis using Cons.IH [OF rs] sh True eb ge b le Cons.prems(2-4)
      by (simp add: flags_def rlen_def)
  next
    case False
    show ?thesis
    proof (cases "?d = 0")
      case True
      then show ?thesis using False eb b le rs by (simp add: flags_def rlen_def)
    next
      case False2: False
      then have "seqLess b t" "seqLess t (endSeqNum r)"
        using False b d inside_guard [of r t] lr by (auto simp: seqLess_dist)
      moreover have "flags (r\<lparr>endSeqNum := t, sacked := True\<rparr>) =
          map (\<lambda>(s, x). (True, x)) (take ?d (flags r))"
        using False b by (simp add: flags_def rlen_def)
      ultimately show ?thesis
        using False eb b rs flags_cut(1) [of r t] by simp
    qed
  qed
qed simp

lemma setSackedBit_spec:
  assumes inv: "sq_inv q" and f: "f = (if seqLess from (sq_begin q) then sq_begin q else from)"
    and ft: "offset q f < offset q t" and t: "offset q t \<le> length (octets q)"
  shows "\<exists>q'. setSackedBit q from t = Inr q' \<and> sq_inv q'
    \<and> octets q' = take (offset q f) (octets q)
        @ map (\<lambda>(s, x). (True, x)) (take (offset q t - offset q f) (drop (offset q f) (octets q)))
        @ drop (offset q t) (octets q)
    \<and> sq_begin q' = sq_begin q \<and> sq_end q' = sq_end q"
proof -
  note D = sq_invD [OF inv]
  have fl: "offset q f < length (octets q)" using ft t by simp
  obtain pre r rs pre' r' where *:
    "takeWhile (ends_by f) (rexmitQueue q) = pre" "dropWhile (ends_by f) (rexmitQueue q) = r # rs"
    "seqLE (beginSeqNum r) f" "seqLess f (endSeqNum r)" "split_region f pre r = (pre', r')"
    "checkRegions (sq_begin q) pre' f" "checkRegions f (r' # rs) (sq_end q)"
    "scoreboard pre' = take (offset q f) (octets q)"
    "scoreboard (r' # rs) = drop (offset q f) (octets q)"
    by (rule split_octet [OF inv fl])
  have lt: "length (octets q) < 2 ^ 31" using D(2) by (simp add: octets_def)
  have sh: "word_dist f t = offset q t - offset q f"
    using ft word_dist_shift [of "sq_begin q" f t] by (simp add: offset_def)
  define ms where "ms = mark_sacked f t (r' # rs)"
  have ls: "length (scoreboard (r' # rs)) = length (octets q) - offset q f"
    unfolding *(9) by simp
  have ms: "checkRegions f ms (sq_end q) \<and> scoreboard ms =
      map (\<lambda>(s, x). (True, x)) (take (word_dist f t) (scoreboard (r' # rs))) @
      drop (word_dist f t) (scoreboard (r' # rs))"
    unfolding ms_def by (intro mark_sacked_spec [OF *(7)]; unfold ls sh) (use lt ft t in simp_all)
  let ?q = "q\<lparr>rexmitQueue := pre' @ ms\<rparr>"
  have c: "checkQueue ?q" using *(6) ms by (auto simp: checkQueue_def)
  have o: "octets ?q = take (offset q f) (octets q)
        @ map (\<lambda>(s, x). (True, x)) (take (offset q t - offset q f) (drop (offset q f) (octets q)))
        @ drop (offset q t) (octets q)"
    using ms ft *(8) unfolding *(9) sh by (simp add: octets_def [of "q\<lparr>rexmitQueue := _\<rparr>"])
  have "length (octets ?q) = length (octets q)" unfolding o using ft t by simp
  then have i: "sq_inv ?q" using c lt by (simp add: sq_inv_def octets_def)
  have ge: "seqLE (sq_begin q) t \<and> seqLE t (sq_end q)" using sq_guard [OF inv, of t] t by simp
  have o2: "word_dist (sq_begin q) (sq_end q) = length (octets q)"
    using sq_end_offset [OF inv] by (simp add: offset_def)
  have g: "seqLess f (sq_end q)" "seqLess (sq_begin q) t" "seqLess f t"
    using tseq.less_window [of "sq_begin q" f "sq_end q"] tseq.less_window [of "sq_begin q" "sq_begin q" t]
      tseq.less_window [of "sq_begin q" f t] ft fl t lt o2 by (auto simp: offset_def)
  have ne: "rexmitQueue q \<noteq> []" using *(2) by auto
  have "setSackedBit q from t = Inr ?q"
    unfolding setSackedBit_def Let_def f [symmetric] *(1,2)
    using g ge ne *(3,4,5) c by (simp add: ms_def [symmetric] del: mark_sacked.simps)
  then show ?thesis using o i by simp
qed

lemma mark_rexmitted_spec:
  assumes "checkRegions b rs e" and "length (scoreboard rs) < 2 ^ 31" and "word_dist b t < 2 ^ 31"
    and "mark_rexmitted t b found rs = (marked, rest, f, fd)"
  shows "checkRegions b marked f \<and> checkRegions f rest e
    \<and> scoreboard rest = drop (length (scoreboard marked)) (scoreboard rs)
    \<and> scoreboard marked = map (\<lambda>(s, x). (s, True)) (take (length (scoreboard marked)) (scoreboard rs))
    \<and> word_dist b t = length (scoreboard marked) + word_dist f t
    \<and> (case rest of [] \<Rightarrow> f = e | r # _ \<Rightarrow> beginSeqNum r = f \<and> word_dist f t < rlen r)
    \<and> (fd \<longleftrightarrow> found \<or> marked \<noteq> [])"
  using assms
proof (induction t b found rs arbitrary: marked rest f fd rule: mark_rexmitted.induct)
  case (1 t b found)
  then show ?case by auto
next
  case (2 t b found r rs)
  let ?d = "word_dist b t"
  have b: "beginSeqNum r = b" and le: "seqLess b (endSeqNum r)" and rs: "checkRegions (endSeqNum r) rs e"
    and lr: "rlen r < 2 ^ 31" and ls: "length (scoreboard rs) < 2 ^ 31"
    using 2(2,3) by auto
  have eb: "ends_by t r \<longleftrightarrow> rlen r \<le> ?d" using ends_by_iff [of r t] b lr 2(4) by simp
  show ?case
  proof (cases "rlen r \<le> ?d")
    case True
    then have sh: "word_dist (endSeqNum r) t = ?d - rlen r" using region_shift [of r t] b by simp
    obtain marked' where m: "mark_rexmitted t (endSeqNum r) True rs = (marked', rest, f, fd)"
      "marked = r\<lparr>rexmitted := True\<rparr> # marked'"
      using 2(5) eb True by (auto split: prod.splits)
    have ih: "checkRegions (endSeqNum r) marked' f \<and> checkRegions f rest e
      \<and> scoreboard rest = drop (length (scoreboard marked')) (scoreboard rs)
      \<and> scoreboard marked' = map (\<lambda>(s, x). (s, True)) (take (length (scoreboard marked')) (scoreboard rs))
      \<and> word_dist (endSeqNum r) t = length (scoreboard marked') + word_dist f t
      \<and> (case rest of [] \<Rightarrow> f = e | r # _ \<Rightarrow> beginSeqNum r = f \<and> word_dist f t < rlen r)
      \<and> (fd \<longleftrightarrow> True \<or> marked' \<noteq> [])"
      using 2(4) sh by (intro "2.IH" [OF _ rs ls _ m(1)]) (simp_all add: eb True)
    have "flags (r\<lparr>rexmitted := True\<rparr>) = map (\<lambda>(s, x). (s, True)) (flags r)"
      "rlen (r\<lparr>rexmitted := True\<rparr>) = rlen r"
      by (simp_all add: flags_def rlen_def)
    moreover have "?d = rlen r + word_dist (endSeqNum r) t" using sh True by simp
    ultimately show ?thesis using ih b le m(2) by simp
  next
    case False
    then show ?thesis using 2(2,5) eb by auto
  qed
qed

text \<open>
  What the sender's transmission of \<open>[from, to)\<close> does to the scoreboard: octets already
  there are marked as retransmitted, new octets are added unmarked.
\<close>

definition sent_octets :: "nat \<Rightarrow> nat \<Rightarrow> (bool \<times> bool) list \<Rightarrow> (bool \<times> bool) list" where
  "sent_octets i j os =
     take i os @ map (\<lambda>(s, x). (s, True)) (take (j - i) (drop i os)) @ drop j os
       @ replicate (j - length os) (False, False)"

lemma checkRegions_hd_last:
  "checkRegions b rs e \<Longrightarrow> rs \<noteq> [] \<Longrightarrow> beginSeqNum (hd rs) = b \<and> endSeqNum (last rs) = e"
proof (induction rs arbitrary: b)
  case (Cons r rs)
  then show ?case by (cases "rs = []") auto
qed simp

lemma enqueue_finish:
  assumes "checkRegions (sq_begin q) rs t" and "rs \<noteq> []"
  shows "bindE (assertE True) (\<lambda>_.
         let q' = q\<lparr>rexmitQueue := rs, sq_begin := beginSeqNum (hd rs), sq_end := endSeqNum (last rs)\<rparr>
         in bindE (assertE (checkQueue q')) (\<lambda>_. Inr q'))
       = Inr (q\<lparr>rexmitQueue := rs, sq_end := t\<rparr>)"
  using assms checkRegions_hd_last [OF assms] by (simp add: checkQueue_def Let_def)

lemma enqueueSentData_new:
  assumes inv: "sq_inv q" and f: "offset q f = length (octets q)"
    and ft: "offset q f < offset q t" and t: "offset q t < 2 ^ 31"
  shows "\<exists>q'. enqueueSentData q f t = Inr q' \<and> sq_inv q' \<and> octets q' = sent_octets (offset q f) (offset q t) (octets q)
    \<and> sq_begin q' = sq_begin q \<and> sq_end q' = t"
proof -
  note D = sq_invD [OF inv]
  let ?r = "\<lparr>beginSeqNum = f, endSeqNum = t, sacked = False, rexmitted = False\<rparr>"
  have fe: "f = sq_end q" using f sq_end_offset [OF inv] by (metis offset_def word_dist_inject)
  have g: "seqLE (sq_begin q) f \<and> seqLE f (sq_end q)" using sq_guard [OF inv] f by simp
  have sh: "word_dist f t = offset q t - offset q f"
    using ft word_dist_shift [of "sq_begin q" f t] by (simp add: offset_def)
  have ls: "seqLess f t" using tseq.less_window [of "sq_begin q" f t] ft t by (simp add: offset_def)
  have c: "checkRegions (sq_begin q) (rexmitQueue q @ [?r]) t" using D(1) ls fe by auto
  have e: "enqueueSentData q f t = Inr (q\<lparr>rexmitQueue := rexmitQueue q @ [?r], sq_end := t\<rparr>)"
    using enqueue_finish [OF c] g ls fe by (simp add: enqueueSentData_def)
  have "scoreboard (rexmitQueue q @ [?r]) = sent_octets (offset q f) (offset q t) (octets q)"
    using sh f ft by (simp add: sent_octets_def octets_def flags_def rlen_def)
  moreover have "length (sent_octets (offset q f) (offset q t) (octets q)) < 2 ^ 31"
    using f ft t by (simp add: sent_octets_def)
  ultimately show ?thesis using e c by (simp add: sq_inv_def checkQueue_def octets_def)
qed

text \<open>The last step of \<open>enqueueSentData\<close>: what follows the marked regions.\<close>

definition enqueue_rest :: "u32 \<Rightarrow> u32 \<Rightarrow> region list \<Rightarrow> region list" where
  "enqueue_rest f t rest =
     (if f \<noteq> t
      then (case rest of
              [] \<Rightarrow> [\<lparr>beginSeqNum = f, endSeqNum = t, sacked = False, rexmitted = False\<rparr>]
            | i # is \<Rightarrow> \<lparr>beginSeqNum = f, endSeqNum = t, sacked = sacked i, rexmitted = True\<rparr>
                          # i\<lparr>beginSeqNum := t\<rparr> # is)
      else rest)"

lemma enqueue_rest_spec:
  assumes "checkRegions f rest e" and "word_dist f t < 2 ^ 31" and "length (scoreboard rest) < 2 ^ 31"
    and "case rest of [] \<Rightarrow> f = e | r # _ \<Rightarrow> beginSeqNum r = f \<and> word_dist f t < rlen r"
  shows "checkRegions f (enqueue_rest f t rest) (if rest = [] then t else e)
    \<and> scoreboard (enqueue_rest f t rest) = sent_octets 0 (word_dist f t) (scoreboard rest)"
proof (cases "f = t")
  case True
  then show ?thesis using assms by (auto simp: enqueue_rest_def sent_octets_def split: list.splits)
next
  case False
  then have ft: "seqLess f t" using assms(2) by (simp add: seqLess_dist)
  show ?thesis
  proof (cases rest)
    case Nil
    then show ?thesis using False ft assms(1)
      by (simp add: enqueue_rest_def sent_octets_def flags_def rlen_def)
  next
    case (Cons i "is")
    then have i: "word_dist (beginSeqNum i) t < rlen i" "beginSeqNum i = f" "rlen i < 2 ^ 31"
      using assms by auto
    have "flags \<lparr>beginSeqNum = f, endSeqNum = t, sacked = sacked i, rexmitted = True\<rparr>
        = map (\<lambda>(s, x). (s, True)) (take (word_dist f t) (flags i))"
      using i by (simp add: flags_def rlen_def)
    then show ?thesis
      using Cons False ft assms(1) inside_guard [OF i(1,3)] flags_cut(1) [of i t] i
      by (simp add: enqueue_rest_def sent_octets_def)
  qed
qed

lemma sent_octets_append:
  "length as = i \<Longrightarrow>
     sent_octets i (i + length ms + k) (as @ ms @ rs) =
       as @ map (\<lambda>(s, x). (s, True)) ms @ sent_octets 0 k rs"
  by (simp add: sent_octets_def)

lemma enqueueSentData_again:
  assumes inv: "sq_inv q" and f: "offset q f < length (octets q)"
    and ft: "offset q f < offset q t" and t: "offset q t < 2 ^ 31"
  shows "\<exists>q'. enqueueSentData q f t = Inr q' \<and> sq_inv q' \<and> octets q' = sent_octets (offset q f) (offset q t) (octets q)
    \<and> sq_begin q' = sq_begin q"
proof -
  note D = sq_invD [OF inv]
  obtain pre r rs pre' r' where *:
    "takeWhile (ends_by f) (rexmitQueue q) = pre" "dropWhile (ends_by f) (rexmitQueue q) = r # rs"
    "seqLE (beginSeqNum r) f" "seqLess f (endSeqNum r)" "split_region f pre r = (pre', r')"
    "checkRegions (sq_begin q) pre' f" "checkRegions f (r' # rs) (sq_end q)"
    "scoreboard pre' = take (offset q f) (octets q)"
    "scoreboard (r' # rs) = drop (offset q f) (octets q)"
    by (rule split_octet [OF inv f])
  have lt: "length (octets q) < 2 ^ 31" using D(2) by (simp add: octets_def)
  have sh: "word_dist f t = offset q t - offset q f"
    using ft word_dist_shift [of "sq_begin q" f t] by (simp add: offset_def)
  obtain marked rest g fd where mr: "mark_rexmitted t f False (r' # rs) = (marked, rest, g, fd)"
    by (cases "mark_rexmitted t f False (r' # rs)")
  have "length (scoreboard (r' # rs)) < 2 ^ 31" unfolding *(9) using lt by simp
  from mark_rexmitted_spec [OF *(7) this _ mr] sh t
  have m: "checkRegions f marked g" "checkRegions g rest (sq_end q)"
    "scoreboard rest = drop (length (scoreboard marked)) (scoreboard (r' # rs))"
    "scoreboard marked = map (\<lambda>(s, x). (s, True)) (take (length (scoreboard marked)) (scoreboard (r' # rs)))"
    "word_dist f t = length (scoreboard marked) + word_dist g t"
    "case rest of [] \<Rightarrow> g = sq_end q | r # _ \<Rightarrow> beginSeqNum r = g \<and> word_dist g t < rlen r"
    "fd \<longleftrightarrow> marked \<noteq> []"
    by simp_all
  have rest: "checkRegions g (enqueue_rest g t rest) (if rest = [] then t else sq_end q)
    \<and> scoreboard (enqueue_rest g t rest) = sent_octets 0 (word_dist g t) (scoreboard rest)"
    using m(5) sh t lt by (intro enqueue_rest_spec [OF m(2) _ _ m(6)]) (simp_all only: m(3) *(9), simp_all)
  let ?rs = "pre' @ marked @ enqueue_rest g t rest"
  let ?q = "q\<lparr>rexmitQueue := ?rs, sq_end := (if rest = [] then t else sq_end q)\<rparr>"
  have c: "checkRegions (sq_begin q) ?rs (if rest = [] then t else sq_end q)"
    using *(6) m(1) rest by (intro checkRegions_appendI) auto
  have os: "octets q = take (offset q f) (octets q) @ take (length (scoreboard marked)) (scoreboard (r' # rs))
      @ scoreboard rest"
    unfolding m(3) *(9) append_take_drop_id ..
  have j: "offset q t = offset q f + length (scoreboard marked) + word_dist g t"
    using m(5) sh ft by simp
  have lm: "length (take (length (scoreboard marked)) (scoreboard (r' # rs))) = length (scoreboard marked)"
    by (subst (2) m(4)) simp
  have o: "scoreboard ?rs = sent_octets (offset q f) (offset q t) (octets q)"
    using sent_octets_append [of "take (offset q f) (octets q)" "offset q f"
        "take (length (scoreboard marked)) (scoreboard (r' # rs))" "word_dist g t" "scoreboard rest",
        unfolded lm] f rest *(8) m(4) os j by simp
  have len: "0 < length (scoreboard ?rs)" "length (scoreboard ?rs) < 2 ^ 31"
    unfolding o sent_octets_def using f ft t lt by auto
  then have ne: "?rs \<noteq> []" by (metis length_0_conv less_irrefl scoreboard_simps(1))
  have gt: "seqLess (beginSeqNum i) t" if "g \<noteq> t" "rest = i # is" for i "is"
    using that m(5,6) sh t by (simp add: seqLess_dist)
  have fd: "fd" if "g = t"
    using that m(5,7) sh ft by auto
  have guard: "seqLE (sq_begin q) f \<and> seqLE f (sq_end q)" "seqLess f t" "rexmitQueue q \<noteq> []" "sq_end q \<noteq> f"
    using sq_guard [OF inv, of f] tseq.less_window [of "sq_begin q" f t] f ft t sq_end_offset [OF inv] *(2)
    by (auto simp: offset_def)
  have "enqueueSentData q f t = bindE (Inr (?rs, True)) (\<lambda>(rs, found).
         bindE (assertE found) (\<lambda>_.
         let q' = q\<lparr>rexmitQueue := rs, sq_begin := beginSeqNum (hd rs), sq_end := endSeqNum (last rs)\<rparr>
         in bindE (assertE (checkQueue q')) (\<lambda>_. Inr q')))"
    using guard *(3,4) gt fd unfolding enqueueSentData_def *(1,2)
    by (simp add: *(5) mr enqueue_rest_def del: mark_rexmitted.simps split: list.splits)
  also have "\<dots> = Inr ?q" using enqueue_finish [OF c ne] by simp
  finally have e: "enqueueSentData q f t = Inr ?q" .
  have "sq_inv ?q" "octets ?q = sent_octets (offset q f) (offset q t) (octets q)"
    unfolding sq_inv_def checkQueue_def octets_def [of ?q] using c len o
    by (simp_all del: checkRegions_append scoreboard_simps)
  then show ?thesis using e by simp
qed

text \<open>The queries, as counts on the scoreboard.\<close>

abbreviation sackedOctets :: "(bool \<times> bool) list \<Rightarrow> nat" where
  "sackedOctets os \<equiv> length (filter fst os)"

lemma filter_fst_flags: "sackedOctets (flags r) = (if sacked r then rlen r else 0)"
  by (simp add: flags_def)

lemma rlen_word: "endSeqNum r - beginSeqNum r = of_nat (rlen r)"
  by (simp add: rlen_def word_dist_def)

lemma sum_sacked_spec: "sum_sacked n rs = n + of_nat (sackedOctets (scoreboard rs))"
  by (induction rs arbitrary: n) (simp_all add: filter_fst_flags rlen_word del: length_filter_conv_card)

lemma getTotalAmountOfSackedBytes_spec:
  assumes "sq_inv q"
  shows "unat (getTotalAmountOfSackedBytes q) = sackedOctets (octets q)"
proof -
  have "sackedOctets (scoreboard (rexmitQueue q)) < 2 ^ 31"
    using sq_invD(2) [OF assms] length_filter_le by (rule le_less_trans [rotated])
  then show ?thesis
    by (simp add: getTotalAmountOfSackedBytes_def sum_sacked_spec octets_def unat_of_nat)
qed

lemma getSackedBit_spec:
  assumes inv: "sq_inv q" and n: "offset q n \<le> length (octets q)"
  shows "getSackedBit q n =
    Inr (offset q n < length (octets q) \<and> fst (octets q ! offset q n))"
proof (cases "offset q n < length (octets q)")
  case True
  obtain pre m r rs where *:
    "takeWhile (ends_by n) (rexmitQueue q) = pre" "dropWhile (ends_by n) (rexmitQueue q) = r # rs"
    "rexmitQueue q = pre @ r # rs" "checkRegions (sq_begin q) pre m"
    "checkRegions m (r # rs) (sq_end q)"
    "offset q n = length (scoreboard pre) + word_dist m n"
    "beginSeqNum r = m" "word_dist m n < rlen r" "rlen r < 2 ^ 31"
    "seqLE (beginSeqNum r) n" "seqLess n (endSeqNum r)"
    by (rule search_octet_inside [OF inv True])
  have "fst (octets q ! offset q n) = sacked r"
    using *(3,6,8) by (simp add: octets_def nth_append flags_def)
  moreover have "sq_end q \<noteq> n" using True sq_end_offset [OF inv] by auto
  ultimately show ?thesis
    using sq_guard [OF inv, of n] True *(10,11) unfolding getSackedBit_def *(2) by simp
next
  case False
  then have "n = sq_end q" using n sq_end_offset [OF inv] by (metis le_antisym linorder_not_less offset_def word_dist_inject)
  then show ?thesis using sq_guard [OF inv, of n] n False by (simp add: getSackedBit_def)
qed

lemma checkSackBlock_spec:
  assumes inv: "sq_inv q" and n: "offset q n < length (octets q)"
  shows "\<exists>l. checkSackBlock q n = Inr (l, octets q ! offset q n) \<and> 0 < unat l
    \<and> offset q n + unat l \<le> length (octets q)
    \<and> (\<forall>k < unat l. octets q ! (offset q n + k) = octets q ! offset q n)"
proof -
  obtain pre m r rs where *:
    "takeWhile (ends_by n) (rexmitQueue q) = pre" "dropWhile (ends_by n) (rexmitQueue q) = r # rs"
    "rexmitQueue q = pre @ r # rs" "checkRegions (sq_begin q) pre m"
    "checkRegions m (r # rs) (sq_end q)"
    "offset q n = length (scoreboard pre) + word_dist m n"
    "beginSeqNum r = m" "word_dist m n < rlen r" "rlen r < 2 ^ 31"
    "seqLE (beginSeqNum r) n" "seqLess n (endSeqNum r)"
    by (rule search_octet_inside [OF inv n])
  have l: "unat (endSeqNum r - n) = rlen r - word_dist m n"
    using word_dist_shift [of m n "endSeqNum r"] *(7,8) by (simp add: rlen_def word_dist_def)
  have k: "octets q ! (offset q n + k) = (sacked r, rexmitted r)" if "k < rlen r - word_dist m n" for k
  proof -
    have "word_dist m n + k < rlen r" using that by simp
    then show ?thesis using *(3,6) by (simp add: octets_def nth_append flags_def add.assoc)
  qed
  have g: "seqLE (sq_begin q) n \<and> seqLess n (sq_end q)"
    using sq_guard [OF inv, of n] n sq_end_offset [OF inv] by (auto simp: seqLess_seqLE offset_def)
  have "checkSackBlock q n = Inr (endSeqNum r - n, sacked r, rexmitted r)"
    using g *(10,11) unfolding checkSackBlock_def *(2) by simp
  moreover have "offset q n + (rlen r - word_dist m n) \<le> length (octets q)"
    using *(3,6,8) by (simp add: octets_def)
  ultimately show ?thesis using l k k [of 0] *(8) by auto
qed

lemma sum_sacked_back_spec:
  assumes "checkRegions b rs e" and "length (scoreboard rs) < 2 ^ 31"
    and "word_dist b n \<le> length (scoreboard rs)"
  shows "sum_sacked_back n acc (rev rs) =
    acc + of_nat (sackedOctets (drop (word_dist b n) (scoreboard rs)))"
  using assms
proof (induction rs arbitrary: e acc rule: rev_induct)
  case (snoc r rs)
  let ?d = "word_dist b n" and ?l = "length (scoreboard rs)"
  from snoc.prems obtain m where m: "checkRegions b rs m" "beginSeqNum r = m" "seqLess m (endSeqNum r)"
    and l: "?l < 2 ^ 31" "?l + rlen r < 2 ^ 31" and d: "?d \<le> ?l + rlen r" by auto
  have bm: "word_dist b m = ?l" by (rule checkRegions_dist [OF m(1) l(1)])
  have le: "seqLE n m \<longleftrightarrow> ?d \<le> ?l"
    using tseq.le_window [of b n m] bm l d by simp
  show ?case
  proof (cases "?d \<le> ?l")
    case True
    have "endSeqNum r - m = of_nat (rlen r)" using rlen_word [of r] m(2) by simp
    then show ?thesis using True le m(2) snoc.IH [OF m(1) l(1) True]
      by (simp add: filter_fst_flags ac_simps del: length_filter_conv_card)
  next
    case False
    have sh: "word_dist m n = ?d - ?l" using word_dist_shift [of b m n] bm False by simp
    have lt: "seqLess m n" using False l d sh by (simp add: seqLess_dist)
    have w: "word_dist n (endSeqNum r) = rlen r - word_dist m n"
      using word_dist_shift [of m n "endSeqNum r"] sh d m(2) by (simp add: rlen_def)
    have "endSeqNum r - n = of_nat (word_dist n (endSeqNum r))" by (simp add: word_dist_def)
    then have en: "endSeqNum r - n = of_nat (rlen r - (?d - ?l))" using w sh by simp
    have "seqLess n (endSeqNum r) \<longleftrightarrow> ?d - ?l < rlen r"
      using w sh l by (subst seqLess_dist) (simp_all del: word_dist_pos_iff)
    then show ?thesis
      using False le lt m(2) d en by (auto simp: flags_def simp del: length_filter_conv_card)
  qed
qed simp

lemma getAmountOfSackedBytes_spec:
  assumes inv: "sq_inv q" and n: "offset q n \<le> length (octets q)"
  shows "\<exists>w. getAmountOfSackedBytes q n = Inr w
    \<and> unat w = sackedOctets (drop (offset q n) (octets q))"
proof -
  have "sackedOctets (drop (offset q n) (octets q)) \<le> length (drop (offset q n) (octets q))"
    by (rule length_filter_le)
  also have "\<dots> \<le> length (octets q)" by simp
  also have "\<dots> < 2 ^ 31" using sq_invD(2) [OF inv] by (simp add: octets_def)
  finally have "sackedOctets (drop (offset q n) (octets q)) < 2 ^ 31" .
  then show ?thesis
    using sq_guard [OF inv] n sum_sacked_back_spec [OF sq_invD [OF inv], of n 0]
    by (simp add: getAmountOfSackedBytes_def octets_def offset_def unat_of_nat)
qed

fun sack_runs :: "bool \<Rightarrow> (bool \<times> bool) list \<Rightarrow> nat" where
  "sack_runs prev [] = 0"
| "sack_runs prev (p # ps) = (if fst p \<and> \<not> prev then 1 else 0) + sack_runs (fst p) ps"

lemma sack_runs_replicate:
  "0 < n \<Longrightarrow> sack_runs prev (replicate n p @ ps) =
     (if fst p \<and> \<not> prev then 1 else 0) + sack_runs (fst p) ps"
proof (induction n arbitrary: prev)
  case (Suc n)
  then show ?case by (cases n) auto
qed simp

lemma sack_runs_bound: "sack_runs prev ps \<le> length ps"
  by (induction ps arbitrary: prev) (auto simp: le_SucI)

lemma count_sack_runs_spec:
  "checkRegions b rs e \<Longrightarrow>
     count_sack_runs prev c rs = c + of_nat (sack_runs prev (scoreboard rs))"
proof (induction rs arbitrary: b prev c)
  case (Cons r rs)
  then have "0 < rlen r" and c: "checkRegions (endSeqNum r) rs e" using rlen_pos by simp_all
  then show ?case
    by (simp add: Cons.IH [OF c] flags_def sack_runs_replicate)
qed simp

lemma getNumOfDiscontiguousSacks_spec:
  assumes inv: "sq_inv q" and n: "offset q n \<le> length (octets q)"
  shows "\<exists>w. getNumOfDiscontiguousSacks q n = Inr w
    \<and> unat w = sack_runs False (drop (offset q n) (octets q))"
proof (cases "offset q n < length (octets q)")
  case True
  obtain pre m r rs where *:
    "takeWhile (ends_by n) (rexmitQueue q) = pre" "dropWhile (ends_by n) (rexmitQueue q) = r # rs"
    "rexmitQueue q = pre @ r # rs" "checkRegions (sq_begin q) pre m"
    "checkRegions m (r # rs) (sq_end q)"
    "offset q n = length (scoreboard pre) + word_dist m n"
    "beginSeqNum r = m" "word_dist m n < rlen r" "rlen r < 2 ^ 31"
    "seqLE (beginSeqNum r) n" "seqLess n (endSeqNum r)"
    by (rule search_octet_inside [OF inv True])
  have "drop (offset q n) (octets q) = replicate (rlen r - word_dist m n) (sacked r, rexmitted r) @ scoreboard rs"
    using *(3,6,8) by (simp add: octets_def flags_def)
  moreover have "sack_runs False (scoreboard (r # rs)) =
      sack_runs False (replicate (rlen r - word_dist m n) (sacked r, rexmitted r) @ scoreboard rs)"
    using *(8) by (simp add: flags_def sack_runs_replicate)
  ultimately have eq: "sack_runs False (drop (offset q n) (octets q)) = sack_runs False (scoreboard (r # rs))"
    by simp
  have "sack_runs False (drop (offset q n) (octets q)) \<le> length (octets q)"
    using sack_runs_bound [of False "drop (offset q n) (octets q)"] by simp
  also have "\<dots> < 2 ^ 31" using sq_invD(2) [OF inv] by (simp add: octets_def)
  finally have b: "sack_runs False (scoreboard (r # rs)) < 2 ^ 31" unfolding eq .
  have "n \<noteq> sq_end q" "rexmitQueue q \<noteq> []"
    using True sq_end_offset [OF inv] *(3) by auto
  then have "getNumOfDiscontiguousSacks q n = Inr (0 + of_nat (sack_runs False (scoreboard (r # rs))))"
    using sq_guard [OF inv, of n] n unfolding getNumOfDiscontiguousSacks_def *(2)
    by (simp add: count_sack_runs_spec [OF *(5)] del: count_sack_runs.simps scoreboard_simps)
  then show ?thesis using eq b by (simp add: unat_of_nat del: scoreboard_simps)
next
  case False
  then have "n = sq_end q" using n sq_end_offset [OF inv] by (metis le_antisym linorder_not_less offset_def word_dist_inject)
  then show ?thesis using sq_guard [OF inv, of n] n False
    by (simp add: getNumOfDiscontiguousSacks_def)
qed

text \<open>Trailing and leading runs of marked octets.\<close>

definition trimmed :: "('a \<Rightarrow> bool) \<Rightarrow> 'a list \<Rightarrow> 'a list" where
  "trimmed P os = rev (dropWhile (\<lambda>p. \<not> P p) (rev os))"

lemma trimmed_append_marked:
  "P p \<Longrightarrow> 0 < n \<Longrightarrow> trimmed P (os @ replicate n p) = os @ replicate n p"
  by (cases n) (simp_all add: trimmed_def replicate_append_same [symmetric] del: replicate_Suc)

lemma trimmed_append_unmarked: "\<not> P p \<Longrightarrow> trimmed P (os @ replicate n p) = trimmed P os"
  by (induction n) (simp_all add: trimmed_def replicate_app_Cons_same)

lemma find_rev_marked:
  assumes "checkRegions b rs e" and "length (scoreboard rs) < 2 ^ 31"
    and "\<And>r. P (sacked r, rexmitted r) \<longleftrightarrow> Q r"
  shows "word_dist b (case find Q (rev rs) of Some r \<Rightarrow> endSeqNum r | None \<Rightarrow> b)
    = length (trimmed P (scoreboard rs))"
  using assms
proof (induction rs arbitrary: e rule: rev_induct)
  case Nil
  then show ?case by (simp add: trimmed_def)
next
  case (snoc r rs)
  have m: "checkRegions b rs (beginSeqNum r)" "seqLess (beginSeqNum r) (endSeqNum r)" and e: "e = endSeqNum r"
    using snoc.prems(1) by (auto simp only: checkRegions_append checkRegions.simps)
  have l: "length (scoreboard rs) < 2 ^ 31" using snoc.prems(2) by simp
  note ih = snoc.IH [OF m(1) l snoc.prems(3)]
  show ?case
  proof (cases "Q r")
    case True
    have "trimmed P (scoreboard (rs @ [r])) = scoreboard (rs @ [r])"
      using True snoc.prems(3) [of r] rlen_pos [OF m(2)]
      by (simp add: flags_def trimmed_append_marked)
    then show ?thesis using checkRegions_dist [OF snoc.prems(1,2)] True e by simp
  next
    case False
    then show ?thesis using ih snoc.prems(3) [of r]
      by (simp add: flags_def trimmed_append_unmarked)
  qed
qed

lemma getHighestSackedSeqNum_spec:
  "sq_inv q \<Longrightarrow> offset q (getHighestSackedSeqNum q) = length (trimmed fst (octets q))"
  unfolding getHighestSackedSeqNum_def offset_def octets_def
  by (rule find_rev_marked [OF sq_invD]) simp_all

lemma getHighestRexmittedSeqNum_spec:
  "sq_inv q \<Longrightarrow> offset q (getHighestRexmittedSeqNum q) = length (trimmed snd (octets q))"
  unfolding getHighestRexmittedSeqNum_def offset_def octets_def
  by (rule find_rev_marked [OF sq_invD]) simp_all

lemma takeWhile_replicate_append:
  "takeWhile P (replicate n p @ ps) = (if P p then replicate n p @ takeWhile P ps
     else if n = 0 then takeWhile P ps else [])"
  by (induction n) simp_all

abbreviation flaggedOctet :: "bool \<times> bool \<Rightarrow> bool" where
  "flaggedOctet p \<equiv> fst p \<or> snd p"

lemma skip_flagged_spec:
  assumes "checkRegions b rs e" and "length (scoreboard rs) < 2 ^ 31" and "rs \<noteq> []"
    and "word_dist b n < rlen (hd rs)"
  shows "skip_flagged c n rs =
    Inr (c + of_nat (length (takeWhile flaggedOctet (drop (word_dist b n) (scoreboard rs)))))"
  using assms
proof (induction rs arbitrary: b n c)
  case (Cons r rs)
  let ?d = "word_dist b n"
  have b: "beginSeqNum r = b" and rs: "checkRegions (endSeqNum r) rs e"
    and l: "length (scoreboard rs) < 2 ^ 31" and r: "?d < rlen r" "rlen r < 2 ^ 31"
    using Cons.prems by simp_all
  show ?case
  proof (cases "sacked r \<or> rexmitted r")
    case True
    have g: "seqLE b n \<and> seqLess n (endSeqNum r)" using inside_guard [of r n] b r by simp
    have "word_dist n (endSeqNum r) = rlen r - ?d"
      using word_dist_shift [of b n "endSeqNum r"] r b by (simp add: rlen_def)
    moreover have "endSeqNum r - n = of_nat (word_dist n (endSeqNum r))" by (simp add: word_dist_def)
    ultimately have en: "endSeqNum r - n = of_nat (rlen r - ?d)" by simp
    have tw: "takeWhile flaggedOctet (drop ?d (scoreboard (r # rs))) =
        replicate (rlen r - ?d) (sacked r, rexmitted r) @ takeWhile flaggedOctet (scoreboard rs)"
      using r True by (simp add: flags_def takeWhile_replicate_append)
    show ?thesis
    proof (cases rs)
      case Nil
      then show ?thesis using True g b en tw by (simp add: flags_def)
    next
      case (Cons r2 rs2)
      have "word_dist (endSeqNum r) (endSeqNum r) < rlen (hd rs)"
        using rs Cons rlen_pos [of r2] by simp
      from Cons.IH [OF rs l _ this] Cons show ?thesis
        using True g b en tw by (simp del: scoreboard_simps skip_flagged.simps add: skip_flagged.simps(2) [of _ _ r])
    qed
  next
    case False
    have "0 < rlen r - ?d" using r by simp
    then show ?thesis using False r by (simp add: flags_def takeWhile_replicate_append)
  qed
qed simp

lemma checkRexmitQueue_spec:
  assumes inv: "sq_inv q" and n: "offset q n \<le> length (octets q)"
  shows "\<exists>w. checkRexmitQueueForSackedOrRexmittedSegments q n = Inr w
    \<and> unat w = length (takeWhile flaggedOctet (drop (offset q n) (octets q)))"
proof (cases "offset q n < length (octets q)")
  case True
  obtain pre m r rs where *:
    "takeWhile (ends_by n) (rexmitQueue q) = pre" "dropWhile (ends_by n) (rexmitQueue q) = r # rs"
    "rexmitQueue q = pre @ r # rs" "checkRegions (sq_begin q) pre m"
    "checkRegions m (r # rs) (sq_end q)"
    "offset q n = length (scoreboard pre) + word_dist m n"
    "beginSeqNum r = m" "word_dist m n < rlen r" "rlen r < 2 ^ 31"
    "seqLE (beginSeqNum r) n" "seqLess n (endSeqNum r)"
    by (rule search_octet_inside [OF inv True])
  have l: "length (scoreboard (r # rs)) < 2 ^ 31" using sq_invD(2) [OF inv] unfolding *(3) by simp
  have eq: "drop (offset q n) (octets q) = drop (word_dist m n) (scoreboard (r # rs))"
    using *(3,6) by (simp add: octets_def)
  have "length (takeWhile flaggedOctet (drop (offset q n) (octets q))) \<le> length (octets q)"
    by (metis length_takeWhile_le length_drop diff_le_self le_trans)
  also have "\<dots> < 2 ^ 31" using sq_invD(2) [OF inv] by (simp add: octets_def)
  finally have b: "length (takeWhile flaggedOctet (drop (offset q n) (octets q))) < 2 ^ 31" .
  have "n \<noteq> sq_end q" "rexmitQueue q \<noteq> []"
    using True sq_end_offset [OF inv] *(3) by auto
  then have "checkRexmitQueueForSackedOrRexmittedSegments q n =
      Inr (0 + of_nat (length (takeWhile flaggedOctet (drop (offset q n) (octets q)))))"
    using sq_guard [OF inv, of n] n *(8)
    unfolding checkRexmitQueueForSackedOrRexmittedSegments_def *(2) eq
    by (subst skip_flagged_spec [OF *(5) l]) auto
  then show ?thesis using b by (simp add: unat_of_nat)
next
  case False
  then have "n = sq_end q" using n sq_end_offset [OF inv]
    by (metis le_antisym linorder_not_less offset_def word_dist_inject)
  then show ?thesis using sq_guard [OF inv, of n] n False
    by (simp add: checkRexmitQueueForSackedOrRexmittedSegments_def)
qed

section \<open>Properties\<close>

text \<open>A scoreboard that wraps past zero, for the witnesses.\<close>

definition wrapping_queue :: sack_queue where
  "wrapping_queue =
     \<lparr>rexmitQueue = [\<lparr>beginSeqNum = 0xFFFFFFFE, endSeqNum = 1, sacked = False, rexmitted = False\<rparr>,
                     \<lparr>beginSeqNum = 1, endSeqNum = 4, sacked = True, rexmitted = False\<rparr>],
      sq_begin = 0xFFFFFFFE, sq_end = 4\<rparr>"

lemma wrapping_queue_rlen:
  "map rlen (rexmitQueue wrapping_queue) = [3, 3]"
  by (simp add: wrapping_queue_def rlen_def word_dist_def)

lemma wrapping_queue_octets:
  "octets wrapping_queue = [(False, False), (False, False), (False, False),
     (True, False), (True, False), (True, False)]"
  using wrapping_queue_rlen
  by (simp add: wrapping_queue_def octets_def flags_def numeral_3_eq_3)

lemma wrapping_queue_facts:
  "sq_inv wrapping_queue" "sq_begin wrapping_queue = 0xFFFFFFFE" "sq_end wrapping_queue = 4"
  "offset wrapping_queue n = unat (n - 0xFFFFFFFE)"
  using wrapping_queue_octets
  by (simp_all add: wrapping_queue_def sq_inv_def checkQueue_def seqLess_def octets_def offset_def
      word_dist_def)

text \<open>
  An acknowledgement of any outstanding octet removes exactly the octets before it: on a
  consistent scoreboard of less than \<open>2^31\<close> octets \<open>discardUpTo\<close> fails no assertion,
  keeps the queue consistent and drops the acknowledged prefix of the octet list, also when
  the number falls inside a region or the numbers wrap around.
\<close>

theorem discardUpTo_refines:
  assumes "sq_inv q" and "seqLE (sq_begin q) n" and "seqLE n (sq_end q)"
  shows "\<exists>q'. discardUpTo q n = Inr q' \<and> sq_inv q'
    \<and> octets q' = drop (offset q n) (octets q) \<and> sq_begin q' = n \<and> sq_end q' = sq_end q"
  using discardUpTo_spec [OF assms(1), of n] sq_guard [OF assms(1), of n] assms(2,3) by simp

theorem discardUpTo_refines_witness:
  "\<exists>q'. discardUpTo wrapping_queue 0 = Inr q' \<and> sq_inv q'
    \<and> octets q' = [(False, False), (True, False), (True, False), (True, False)] \<and> sq_begin q' = 0"
  using discardUpTo_refines [of wrapping_queue 0]
  by (auto simp: wrapping_queue_facts wrapping_queue_octets seqLE_def)

text \<open>
  Sending \<open>[from, to)\<close>, be it new data, a retransmission of octets in the queue, or a
  segment that covers both, marks exactly the octets that were already outstanding as
  retransmitted and appends the new ones with both bits clear; no assertion fails.
\<close>

theorem enqueueSentData_refines:
  assumes "sq_inv q" and "offset q from \<le> length (octets q)"
    and "offset q from < offset q t" and "offset q t < 2 ^ 31"
  shows "\<exists>q'. enqueueSentData q from t = Inr q' \<and> sq_inv q' \<and> sq_begin q' = sq_begin q
    \<and> octets q' = sent_octets (offset q from) (offset q t) (octets q)"
proof (cases "offset q from = length (octets q)")
  case True
  then show ?thesis using enqueueSentData_new [OF assms(1) True assms(3,4)] by blast
next
  case False
  then have "offset q from < length (octets q)" using assms(2) by simp
  from enqueueSentData_again [OF assms(1) this assms(3,4)] show ?thesis by blast
qed

theorem enqueueSentData_refines_witness:
  "\<exists>q'. enqueueSentData wrapping_queue 3 5 = Inr q' \<and> sq_inv q'
    \<and> octets q' = [(False, False), (False, False), (False, False),
     (True, False), (True, False), (True, True), (False, False)]"
  using enqueueSentData_refines [of wrapping_queue 3 5]
  by (auto simp: wrapping_queue_facts wrapping_queue_octets sent_octets_def)

text \<open>
  C2. A SACK block \<open>[from, to)\<close> inside the outstanding data sets the \<open>sacked\<close> bit of
  exactly its octets, keeps every \<open>rexmitted\<close> bit and every other octet, and fails no
  assertion; a block that starts before the queue is cut at the queue's start.
\<close>

theorem setSackedBit_refines:
  assumes "sq_inv q" and "f = (if seqLess from (sq_begin q) then sq_begin q else from)"
    and "offset q f < offset q t" and "offset q t \<le> length (octets q)"
  shows "\<exists>q'. setSackedBit q from t = Inr q' \<and> sq_inv q'
    \<and> length (octets q') = length (octets q)
    \<and> (\<forall>k. k < length (octets q) \<longrightarrow> octets q' ! k =
         (fst (octets q ! k) \<or> (offset q f \<le> k \<and> k < offset q t), snd (octets q ! k)))"
proof -
  obtain q' where q': "setSackedBit q from t = Inr q'" "sq_inv q'"
    "octets q' = take (offset q f) (octets q)
        @ map (\<lambda>(s, x). (True, x)) (take (offset q t - offset q f) (drop (offset q f) (octets q)))
        @ drop (offset q t) (octets q)"
    using setSackedBit_spec [OF assms] by blast
  have "octets q' ! k = (fst (octets q ! k) \<or> (offset q f \<le> k \<and> k < offset q t), snd (octets q ! k))"
    if "k < length (octets q)" for k
    using that assms(3,4) unfolding q'(3)
    by (auto simp: nth_append case_prod_beta prod_eq_iff)
  moreover have "length (octets q') = length (octets q)" unfolding q'(3) using assms(3,4) by simp
  ultimately show ?thesis using q'(1,2) by blast
qed

theorem setSackedBit_refines_witness:
  "\<exists>q'. setSackedBit wrapping_queue 0 1 = Inr q' \<and> sq_inv q'
    \<and> octets q' ! 0 = (False, False) \<and> octets q' ! 2 = (True, False)"
  using setSackedBit_refines [of wrapping_queue 0 0 1]
  by (auto simp: wrapping_queue_facts wrapping_queue_octets seqLess_def)

text \<open>
  For any outstanding sequence number, and the end of the queue, the queries of the
  scoreboard return what the octet list says: the SACKed octets in total and from the number
  on, the runs of SACKed octets from it on, the length of the run of SACKed or retransmitted
  octets at it, the bit of the octet, and the ends of the last marked octets.
\<close>

theorem sack_queries_refine:
  assumes "sq_inv q" and "offset q n \<le> length (octets q)"
  shows "unat (getTotalAmountOfSackedBytes q) = length (filter fst (octets q))
    \<and> map_sum id unat (getAmountOfSackedBytes q n) =
        Inr (length (filter fst (drop (offset q n) (octets q))))
    \<and> map_sum id unat (getNumOfDiscontiguousSacks q n) =
        Inr (sack_runs False (drop (offset q n) (octets q)))
    \<and> map_sum id unat (checkRexmitQueueForSackedOrRexmittedSegments q n) =
        Inr (length (takeWhile flaggedOctet (drop (offset q n) (octets q))))
    \<and> getSackedBit q n = Inr (offset q n < length (octets q) \<and> fst (octets q ! offset q n))
    \<and> offset q (getHighestSackedSeqNum q) = length (trimmed fst (octets q))
    \<and> offset q (getHighestRexmittedSeqNum q) = length (trimmed snd (octets q))"
  using assms getTotalAmountOfSackedBytes_spec getAmountOfSackedBytes_spec [OF assms]
    getNumOfDiscontiguousSacks_spec [OF assms] checkRexmitQueue_spec [OF assms]
    getSackedBit_spec getHighestSackedSeqNum_spec getHighestRexmittedSeqNum_spec
  by auto

theorem sack_queries_refine_witness:
  "map_sum id unat (getAmountOfSackedBytes wrapping_queue 2) = Inr 2
    \<and> map_sum id unat (getNumOfDiscontiguousSacks wrapping_queue 2) = Inr 1"
  using sack_queries_refine [of wrapping_queue 2]
  by (simp add: wrapping_queue_facts wrapping_queue_octets)

end
