(* ===== verification/Tcp_State.thy ===== *)
theory Tcp_State
  imports Tcp_Send_Queue Tcp_Receive_Queue Tcp_Sack_Queue
begin

text \<open>
  The state of one TCP connection: the finite state machine's states and events
  (\<open>TcpConnection.h\<close>), the header and its options (\<open>TcpHeader.msg\<close>), the fields of
  \<open>TcpStateVariables\<close>, the three queues, the four timers of the connection, and what it has
  sent to IP and to the application so far. The record is built in steps, one per group of
  \<open>TcpStateVariables\<close>; the last field holds the state of the congestion control
  algorithm, of type \<open>'t\<close>. Octets have type \<open>'a\<close>. Signals (\<open>emit\<close>) and log messages have
  no counterpart.
\<close>

section \<open>States, events, indications\<close>

datatype tcp_state =
  TCP_S_INIT | TCP_S_CLOSED | TCP_S_LISTEN | TCP_S_SYN_SENT | TCP_S_SYN_RCVD
  | TCP_S_ESTABLISHED | TCP_S_CLOSE_WAIT | TCP_S_LAST_ACK | TCP_S_FIN_WAIT_1
  | TCP_S_FIN_WAIT_2 | TCP_S_CLOSING | TCP_S_TIME_WAIT

datatype tcp_event =
  TCP_E_IGNORE | TCP_E_OPEN_ACTIVE | TCP_E_OPEN_PASSIVE | TCP_E_ACCEPT | TCP_E_SEND
  | TCP_E_CLOSE | TCP_E_ABORT | TCP_E_DESTROY | TCP_E_STATUS | TCP_E_QUEUE_BYTES_LIMIT
  | TCP_E_READ | TCP_E_SETOPTION
  | TCP_E_RCV_DATA | TCP_E_RCV_ACK | TCP_E_RCV_SYN | TCP_E_RCV_SYN_ACK | TCP_E_RCV_FIN
  | TCP_E_RCV_FIN_ACK | TCP_E_RCV_RST | TCP_E_RCV_UNEXP_SYN
  | TCP_E_TIMEOUT_2MSL | TCP_E_TIMEOUT_CONN_ESTAB | TCP_E_TIMEOUT_FIN_WAIT_2

datatype tcp_indication =
  TCP_I_PEER_CLOSED | TCP_I_CLOSED | TCP_I_CONNECTION_REFUSED | TCP_I_CONNECTION_RESET
  | TCP_I_TIMED_OUT | TCP_I_SEND_MSG

text \<open>A layer 3 address; \<open>None\<close> is the unspecified address.\<close>

type_synonym l3_address = "nat option"

section \<open>The header\<close>

text \<open>Every option carries its length field, which a peer may have set wrongly.\<close>

datatype tcp_option =
  OptEnd nat | OptNop nat | OptMss nat u16 | OptWindowScale nat nat | OptSackPermitted nat
  | OptSack nat "(u32 \<times> u32) list" | OptTimestamp nat u32 u32 | OptUnknown nat

fun getLength :: "tcp_option \<Rightarrow> nat" where
  "getLength (OptEnd n) = n"
| "getLength (OptNop n) = n"
| "getLength (OptMss n _) = n"
| "getLength (OptWindowScale n _) = n"
| "getLength (OptSackPermitted n) = n"
| "getLength (OptSack n _) = n"
| "getLength (OptTimestamp n _ _) = n"
| "getLength (OptUnknown n) = n"

record tcp_header =
  srcPort :: int
  destPort :: int
  sequenceNo :: u32
  ackNo :: u32
  headerLength :: nat
  cwrBit :: bool
  eceBit :: bool
  urgBit :: bool
  ackBit :: bool
  pshBit :: bool
  rstBit :: bool
  synBit :: bool
  finBit :: bool
  window :: u16
  headerOption :: "tcp_option list"

definition TCP_MIN_HEADER_LENGTH :: nat where "TCP_MIN_HEADER_LENGTH = 20"
definition TCP_MAX_HEADER_LENGTH :: nat where "TCP_MAX_HEADER_LENGTH = 60"
definition TCP_OPTIONS_MAX_SIZE :: nat where "TCP_OPTIONS_MAX_SIZE = 40"

definition new_header :: tcp_header where
  "new_header = \<lparr>srcPort = 0, destPort = 0, sequenceNo = 0, ackNo = 0,
     headerLength = TCP_MIN_HEADER_LENGTH, cwrBit = False, eceBit = False, urgBit = False,
     ackBit = False, pshBit = False, rstBit = False, synBit = False, finBit = False,
     window = 0, headerOption = []\<rparr>"

definition getHeaderOptionArrayLength :: "tcp_header \<Rightarrow> nat" where
  "getHeaderOptionArrayLength h = sum_list (map getLength (headerOption h))"

definition dropHeaderOptions :: "tcp_header \<Rightarrow> tcp_header" where
  "dropHeaderOptions h = h\<lparr>headerOption := [], headerLength := TCP_MIN_HEADER_LENGTH\<rparr>"

definition insertHeaderOption :: "tcp_option \<Rightarrow> tcp_header \<Rightarrow> tcp_header" where
  "insertHeaderOption opt h = h\<lparr>headerOption := headerOption h @ [opt]\<rparr>"

definition getSynFinLen :: "tcp_header \<Rightarrow> u32" where
  "getSynFinLen h = (if finBit h then 1 else 0) + (if synBit h then 1 else 0)"

section \<open>Messages, configuration\<close>

text \<open>\<open>TcpStatusInfo\<close>, without the urgent pointers, which nothing else reads or writes.\<close>

record status_info =
  si_state :: tcp_state
  si_localAddr :: l3_address
  si_remoteAddr :: l3_address
  si_localPort :: int
  si_remotePort :: int
  si_snd_mss :: u32
  si_snd_una :: u32
  si_snd_nxt :: u32
  si_snd_max :: u32
  si_snd_wnd :: u32
  si_snd_wl1 :: u32
  si_snd_wl2 :: u32
  si_iss :: u32
  si_rcv_nxt :: u32
  si_rcv_wnd :: u32
  si_irs :: u32
  si_fin_ack_rcvd :: bool

datatype 'a tcp_output =
  ToIP tcp_header "'a list" l3_address l3_address bool
  \<comment> \<open>header, payload, source, destination, and whether the ECT(1) codepoint is set\<close>
  | ToAppIndication tcp_indication u32
  | ToAppAvailable
  | ToAppEstablished
  | ToAppDataNotification
  | ToAppData "'a list"
  | ToAppStatus status_info

record tcp_main =
  par_advertisedWindow :: int
  par_windowScalingSupport :: bool
  par_windowScalingFactor :: int
  par_ecnWillingness :: bool
  par_delayedAcksEnabled :: bool
  par_nagleEnabled :: bool
  par_limitedTransmitEnabled :: bool
  par_increasedIWEnabled :: bool
  par_mss :: u32
  par_timestampSupport :: bool
  par_sackSupport :: bool
  par_tcpAlgorithmClass :: string
  useDataNotification :: bool
  msl :: simtime

text \<open>Constants of \<open>TcpConnection.h\<close>.\<close>

definition TCP_TIMEOUT_CONN_ESTAB :: simtime where "TCP_TIMEOUT_CONN_ESTAB = seconds 75"
definition TCP_TIMEOUT_SYN_REXMIT :: simtime where "TCP_TIMEOUT_SYN_REXMIT = seconds 3"
definition TCP_TIMEOUT_SYN_REXMIT_MAX :: simtime where "TCP_TIMEOUT_SYN_REXMIT_MAX = seconds 240"
definition MAX_SYN_REXMIT_COUNT :: int where "MAX_SYN_REXMIT_COUNT = 12"
definition TCP_MAX_WIN :: nat where "TCP_MAX_WIN = 65535"
definition DUPTHRESH :: nat where "DUPTHRESH = 3"
definition MAX_SACK_BLOCKS :: nat where "MAX_SACK_BLOCKS = 60"
definition PAWS_IDLE_TIME_THRESH :: simtime where "PAWS_IDLE_TIME_THRESH = seconds (24 * 24 * 3600)"
definition TCP_MAX_SACK_ENTRIES :: nat where "TCP_MAX_SACK_ENTRIES = 4"

section \<open>The connection\<close>

record tcp_conn_snd =
  active :: bool
  fork :: bool
  snd_mss :: u32
  snd_una :: u32
  snd_nxt :: u32
  snd_max :: u32
  snd_wnd :: u32
  snd_wl1 :: u32
  snd_wl2 :: u32
  iss :: u32

record tcp_conn_rcv = tcp_conn_snd +
  rcv_nxt :: u32
  rcv_wnd :: u32
  irs :: u32
  rcv_adv :: u32
  syn_rexmit_count :: int
  syn_rexmit_timeout :: simtime
  fin_ack_rcvd :: bool
  send_fin :: bool
  snd_fin_seq :: u32
  fin_rcvd :: bool
  rcv_fin_seq :: u32
  sentBytes :: u32

record tcp_conn_ack = tcp_conn_rcv +
  nagle_enabled :: bool
  delayed_acks_enabled :: bool
  limited_transmit_enabled :: bool
  increased_IW_enabled :: bool
  full_sized_segment_counter :: u32
  ack_now :: bool
  afterRto :: bool

record tcp_conn_opts = tcp_conn_ack +
  ws_support :: bool
  ws_enabled :: bool
  ws_manual_scale :: int
  snd_ws :: bool
  rcv_ws :: bool
  rcv_wnd_scale :: nat
  snd_wnd_scale :: nat
  ts_support :: bool
  ts_enabled :: bool
  snd_initial_ts :: bool
  rcv_initial_ts :: bool
  ts_recent :: u32
  last_ack_sent :: u32
  time_last_data_sent :: simtime

record tcp_conn_sack = tcp_conn_opts +
  sack_support :: bool
  sack_enabled :: bool
  snd_sack_perm :: bool
  rcv_sack_perm :: bool
  start_seqno :: u32
  end_seqno :: u32
  snd_sack :: bool
  snd_dsack :: bool
  sacks_array :: "(u32 \<times> u32) list"
  highRxt :: u32
  pipe :: u32
  recoveryPoint :: u32
  sackedBytes :: u32
  sackedBytes_old :: u32
  lossRecovery :: bool

record tcp_conn_count = tcp_conn_sack +
  sendQueueLimit :: u32
  queueUpdate :: bool
  dupacks :: u32
  snd_sacks :: u32
  rcv_sacks :: u32
  rcv_oooseg :: u32
  rcv_naseg :: u32
  maxRcvBuffer :: u32
  usedRcvBuffer :: u32
  freeRcvBuffer :: u32
  tcpRcvQueueDrops :: u32

record tcp_conn_ecn = tcp_conn_count +
  ecnEchoState :: bool
  sndCwr :: bool
  gotEce :: bool
  gotCeIndication :: bool
  ect :: bool
  endPointIsWillingECN :: bool
  ecnSynSent :: bool
  ecnWillingness :: bool
  sndAck :: bool
  rexmit :: bool

record tcp_conn_mod = tcp_conn_ecn +
  tcpMain :: tcp_main
  now :: simtime
  socketId :: int
  listeningSocketId :: int
  localAddr :: l3_address
  remoteAddr :: l3_address
  localPort :: int
  remotePort :: int
  conn_ttl :: int
  conn_dscp :: int
  conn_tos :: int
  fsm :: tcp_state

record ('a, 't) tcp_conn = tcp_conn_mod +
  sendQueue :: "'a send_queue"
  receiveQueue :: "'a receive_queue"
  rexmitQ :: sack_queue
  the2MSLTimer :: timer
  connEstabTimer :: timer
  finWait2Timer :: timer
  synRexmitTimer :: timer
  outputs :: "'a tcp_output list"
  algo :: 't

text \<open>A step that may fail.\<close>

type_synonym ('a, 't) tcp_step = "('a, 't) tcp_conn \<Rightarrow> ('a, 't) tcp_conn outcome"

definition send_output :: "'a tcp_output \<Rightarrow> ('a, 't) tcp_conn \<Rightarrow> ('a, 't) tcp_conn" where
  "send_output m c = c\<lparr>outputs := outputs c @ [m]\<rparr>"

definition isToBeAccepted :: "('a, 't) tcp_conn \<Rightarrow> bool" where
  "isToBeAccepted c \<longleftrightarrow> listeningSocketId c \<noteq> -1"

definition scheduled_in :: "simtime \<Rightarrow> ('a, 't) tcp_conn \<Rightarrow> timer" where
  "scheduled_in timeout c = Scheduled (now c + timeout)"

end
