(* ===== verification/Tcp_Output.thy ===== *)
theory Tcp_Output
  imports Tcp_State
begin

text \<open>
  \<open>transportlayer/tcp/TcpConnectionUtil.cc\<close> (with \<open>addSacks\<close> of
  \<open>TcpConnectionSackUtil.cc\<close>): how a connection computes its windows, fills in and reads
  header options, and forms and sends segments. The functions the congestion control
  algorithm is told about sent segments are fields of the record \<open>alg_hooks\<close>, the part of the
  interface \<open>TcpAlgorithm\<close> that the output functions call.
\<close>

section \<open>The receive window\<close>

definition updateRcvQueueVars :: "('a, 't) tcp_conn \<Rightarrow> ('a, 't) tcp_conn" where
  "updateRcvQueueVars c =
     (let free = getAmountOfFreeBytes (receiveQueue c) (maxRcvBuffer c) in
      c\<lparr>freeRcvBuffer := free, usedRcvBuffer := maxRcvBuffer c - free\<rparr>)"

text \<open>\<open>updateRcvWnd\<close> returns the 16-bit window field and the updated connection.\<close>

definition updateRcvWnd :: "('a, 't) tcp_conn \<Rightarrow> (u16 \<times> ('a, 't) tcp_conn) outcome" where
  "updateRcvWnd c0 =
     (let c = updateRcvQueueVars c0;
          win0 = freeRcvBuffer c;
          win1 = (if win0 < maxRcvBuffer c div 4 \<and> win0 < snd_mss c then 0 else win0);
          win2 = (if win1 < rcv_adv c - rcv_nxt c then rcv_adv c - rcv_nxt c else win1);
          maxWin = (if ws_enabled c \<and> rcv_wnd_scale c \<noteq> 0
                    then push_bit (rcv_wnd_scale c) (of_nat TCP_MAX_WIN) else of_nat TCP_MAX_WIN :: u32);
          win = (if win2 > maxWin then maxWin else win2);
          c1 = (if win > 0 \<and> seqGE (rcv_nxt c + win) (rcv_adv c)
                then c\<lparr>rcv_adv := rcv_nxt c + win\<rparr> else c);
          c2 = c1\<lparr>rcv_wnd := win\<rparr> in
      bindE (if ws_enabled c2 \<and> rcv_wnd_scale c2 \<noteq> 0
             then bindE (assertE (rcv_wnd_scale c2 \<le> 14))
                    (\<lambda>_. Inr (drop_bit (rcv_wnd_scale c2) (rcv_wnd c2)))
             else Inr (rcv_wnd c2))
        (\<lambda>scaled. bindE (assertE (unat scaled < 2 ^ 16)) (\<lambda>_. Inr (ucast scaled, c2))))"

definition updateWndInfo :: "tcp_header \<Rightarrow> bool \<Rightarrow> ('a, 't) tcp_conn \<Rightarrow> ('a, 't) tcp_conn" where
  "updateWndInfo h doAlways c =
     (let true_window = (if ws_enabled c \<and> \<not> synBit h
                         then push_bit (snd_wnd_scale c) (ucast (window h)) else ucast (window h)) in
      if doAlways \<or> (ackBit h
          \<and> (seqLess (snd_wl1 c) (sequenceNo h)
             \<or> (snd_wl1 c = sequenceNo h \<and> seqLE (snd_wl2 c) (ackNo h))
             \<or> (snd_wl2 c = ackNo h \<and> true_window > snd_wnd c)))
      then c\<lparr>snd_wnd := true_window, snd_wl1 := sequenceNo h, snd_wl2 := ackNo h\<rparr>
      else c)"

section \<open>Writing header options\<close>

definition convertSimtimeToTS :: "simtime \<Rightarrow> u32" where
  "convertSimtimeToTS t = word_of_int (t div 10 ^ 9)"

fun scale_window :: "nat \<Rightarrow> nat \<Rightarrow> nat \<Rightarrow> nat" where
  "scale_window 0 scaled scale = scale"
| "scale_window (Suc k) scaled scale =
     (if scaled > TCP_MAX_WIN then scale_window k (scaled div 2) (scale + 1) else scale)"

definition sack_contains :: "u32 \<times> u32 \<Rightarrow> u32 \<times> u32 \<Rightarrow> bool" where
  "sack_contains x y \<longleftrightarrow> seqLE (fst x) (fst y) \<and> seqLE (snd y) (snd x)"

definition sack_empty :: "u32 \<times> u32 \<Rightarrow> bool" where
  "sack_empty x \<longleftrightarrow> fst x = 0 \<and> snd x = 0"

text \<open>The first loop of \<open>addSacks\<close>: blocks that are acknowledged by now are deleted.\<close>

fun drop_old_sacks :: "u32 \<Rightarrow> (u32 \<times> u32) list \<Rightarrow> (u32 \<times> u32) list outcome" where
  "drop_old_sacks nxt [] = Inr []"
| "drop_old_sacks nxt (x # xs) =
     (if seqLE (snd x) nxt \<or> sack_empty x then drop_old_sacks nxt xs
      else bindE (assertE (seqGE (fst x) nxt)) (\<lambda>_.
           bindE (drop_old_sacks nxt xs) (\<lambda>ys. Inr (x # ys))))"

text \<open>The third loop: of two blocks, one inside the other, the later one is deleted.\<close>

function drop_contained_sacks :: "(u32 \<times> u32) list \<Rightarrow> (u32 \<times> u32) list outcome" where
  "drop_contained_sacks [] = Inr []"
| "drop_contained_sacks (x # xs) =
     bindE (assertE (\<not> sack_empty x)) (\<lambda>_.
     bindE (drop_contained_sacks (filter (\<lambda>y. \<not> sack_contains x y) xs)) (\<lambda>ys. Inr (x # ys)))"
  by pat_completeness auto
termination
  by (relation "measure length") (auto simp: less_Suc_eq_le)

definition clear_sack_request :: "('a, 't) tcp_conn \<Rightarrow> ('a, 't) tcp_conn" where
  "clear_sack_request c = c\<lparr>snd_sack := False, snd_dsack := False, start_seqno := 0, end_seqno := 0\<rparr>"

text \<open>The new block at the front of \<open>sacks_array\<close>, and whether it is a D-SACK.\<close>

definition push_new_sack :: "('a, 't) tcp_conn \<Rightarrow> (bool \<times> ('a, 't) tcp_conn) outcome" where
  "push_new_sack c =
     (let start = start_seqno c; end = end_seqno c in
      if start = end then Inr (False, c)
      else if snd_dsack c then
        let end' = (if seqLess start (rcv_nxt c) \<and> seqLess (rcv_nxt c) end then rcv_nxt c else end) in
        bindE (drop_contained_sacks (sacks_array c)) (\<lambda>sacks.
          Inr (True, c\<lparr>sacks_array := (start, end') # sacks\<rparr>))
      else
        bindE (drop_contained_sacks
                 ((getLE (receiveQueue c) start, getRE (receiveQueue c) end) # sacks_array c))
          (\<lambda>sacks. Inr (False, c\<lparr>sacks_array := sacks\<rparr>)))"

text \<open>No-operation options until the used length is 2 modulo 4.\<close>

definition sack_padding :: "nat \<Rightarrow> nat" where
  "sack_padding used = (6 - used mod 4) mod 4"

definition insert_sack_option ::
  "nat \<Rightarrow> bool \<Rightarrow> tcp_header \<Rightarrow> ('a, 't) tcp_conn \<Rightarrow> (tcp_header \<times> ('a, 't) tcp_conn) outcome" where
  "insert_sack_option n dsack_inserted h c =
     (let used = getHeaderOptionArrayLength h;
          pad = sack_padding used;
          blocks = take n (sacks_array c);
          h1 = h\<lparr>headerOption := headerOption h @ replicate pad (OptNop 1) @ [OptSack (8 * n + 2) blocks]\<rparr>;
          h2 = h1\<lparr>headerLength := TCP_MIN_HEADER_LENGTH + getHeaderOptionArrayLength h1\<rparr> in
      bindE (assertE (\<forall>x \<in> set blocks. fst x \<noteq> snd x)) (\<lambda>_.
      bindE (assertE (used + pad + 8 * n + 2 \<le> TCP_OPTIONS_MAX_SIZE)) (\<lambda>_.
      Inr (h2, clear_sack_request
             (c\<lparr>snd_sacks := snd_sacks c + of_nat n,
                sacks_array := (if dsack_inserted then tl (sacks_array c) else sacks_array c)\<rparr>)))))"

definition addSacks ::
  "tcp_header \<Rightarrow> ('a, 't) tcp_conn \<Rightarrow> (tcp_header \<times> ('a, 't) tcp_conn) outcome" where
  "addSacks h c0 =
     bindE (drop_old_sacks (rcv_nxt c0) (sacks_array c0)) (\<lambda>sacks.
     let c = c0\<lparr>sacks_array := sacks\<rparr>; used = getHeaderOptionArrayLength h in
     if used > TCP_OPTIONS_MAX_SIZE - 10 then Inr (h, clear_sack_request c)
     else
       bindE (push_new_sack c) (\<lambda>(dsack_inserted, c1).
       let n = min (length (sacks_array c1)) ((TCP_OPTIONS_MAX_SIZE - used - 2) div 8) in
       if n = 0 then
         Inr (h, clear_sack_request
                   (c1\<lparr>sacks_array := (if dsack_inserted then tl (sacks_array c1) else sacks_array c1)\<rparr>))
       else insert_sack_option n dsack_inserted h c1))"

definition syn_sent_again :: "('a, 't) tcp_conn \<Rightarrow> bool" where
  "syn_sent_again c \<longleftrightarrow> fsm c = TCP_S_INIT \<or> (fsm c = TCP_S_SYN_SENT \<and> syn_rexmit_count c > 0)"

text \<open>The four options of a SYN, in the order of the source.\<close>

definition write_mss_option :: "tcp_header \<Rightarrow> ('a, 't) tcp_conn \<Rightarrow> tcp_header \<times> ('a, 't) tcp_conn" where
  "write_mss_option h c =
     (if snd_mss c > 0 then (insertHeaderOption (OptMss 4 (ucast (snd_mss c))) h, c) else (h, c))"

definition write_ws_option :: "tcp_header \<Rightarrow> ('a, 't) tcp_conn \<Rightarrow> tcp_header \<times> ('a, 't) tcp_conn" where
  "write_ws_option h c =
     (if ws_support c \<and> (rcv_ws c \<or> syn_sent_again c) then
        let scale = (if ws_manual_scale c > -1 then nat (ws_manual_scale c)
                     else scale_window 14
                       (unat (getFirstSeqNo (receiveQueue c) + maxRcvBuffer c - rcv_nxt c)) 0) in
        (insertHeaderOption (OptWindowScale 3 scale) (insertHeaderOption (OptNop 1) h),
         c\<lparr>rcv_wnd_scale := scale, snd_ws := True, ws_enabled := (ws_support c \<and> rcv_ws c)\<rparr>)
      else (h, c))"

definition write_sack_permitted_option ::
  "tcp_header \<Rightarrow> ('a, 't) tcp_conn \<Rightarrow> tcp_header \<times> ('a, 't) tcp_conn" where
  "write_sack_permitted_option h c =
     (if sack_support c \<and> (rcv_sack_perm c \<or> syn_sent_again c) then
        let h1 = (if \<not> ts_support c then insertHeaderOption (OptNop 1) (insertHeaderOption (OptNop 1) h) else h) in
        (insertHeaderOption (OptSackPermitted 2) h1,
         c\<lparr>snd_sack_perm := True, sack_enabled := (sack_support c \<and> rcv_sack_perm c)\<rparr>)
      else (h, c))"

definition write_ts_option :: "tcp_header \<Rightarrow> ('a, 't) tcp_conn \<Rightarrow> tcp_header \<times> ('a, 't) tcp_conn" where
  "write_ts_option h c =
     (if ts_support c \<and> (rcv_initial_ts c \<or> syn_sent_again c) then
        let h1 = (if \<not> sack_support c then insertHeaderOption (OptNop 1) (insertHeaderOption (OptNop 1) h) else h) in
        (insertHeaderOption
           (OptTimestamp 10 (convertSimtimeToTS (now c)) (if ackBit h then ts_recent c else 0)) h1,
         c\<lparr>snd_initial_ts := True, ts_enabled := (ts_support c \<and> rcv_initial_ts c)\<rparr>)
      else (h, c))"

text \<open>The options of every other segment: the timestamp and the SACK blocks.\<close>

definition write_data_options ::
  "tcp_header \<Rightarrow> ('a, 't) tcp_conn \<Rightarrow> (tcp_header \<times> ('a, 't) tcp_conn) outcome" where
  "write_data_options h c =
     (let want_sack = (sack_enabled c \<and> (snd_sack c \<or> snd_dsack c));
          h1 = (if ts_enabled c then
                  insertHeaderOption
                    (OptTimestamp 10 (convertSimtimeToTS (now c)) (if ackBit h then ts_recent c else 0))
                    (if \<not> want_sack then insertHeaderOption (OptNop 1) (insertHeaderOption (OptNop 1) h) else h)
                else h) in
      if want_sack then addSacks h1 c else Inr (h1, c))"

definition finish_options :: "tcp_header \<Rightarrow> tcp_header" where
  "finish_options h =
     (if headerOption h \<noteq> [] then
        if getHeaderOptionArrayLength h \<le> TCP_OPTIONS_MAX_SIZE
        then h\<lparr>headerLength := TCP_MIN_HEADER_LENGTH + getHeaderOptionArrayLength h\<rparr>
        else dropHeaderOptions h
      else h)"

definition writeHeaderOptions ::
  "tcp_header \<Rightarrow> ('a, 't) tcp_conn \<Rightarrow> (tcp_header \<times> ('a, 't) tcp_conn) outcome" where
  "writeHeaderOptions h c =
     bindE
       (if synBit h \<and> (fsm c = TCP_S_INIT \<or> fsm c = TCP_S_LISTEN
            \<or> ((fsm c = TCP_S_SYN_SENT \<or> fsm c = TCP_S_SYN_RCVD) \<and> syn_rexmit_count c > 0))
        then Inr (let (h1, c1) = write_mss_option h c;
                      (h2, c2) = write_ws_option h1 c1;
                      (h3, c3) = write_sack_permitted_option h2 c2
                  in write_ts_option h3 c3)
        else if fsm c \<in> {TCP_S_SYN_SENT, TCP_S_SYN_RCVD, TCP_S_ESTABLISHED, TCP_S_FIN_WAIT_1,
                         TCP_S_FIN_WAIT_2, TCP_S_CLOSE_WAIT}
        then write_data_options h c
        else Inr (h, c))
       (\<lambda>(h', c'). Inr (finish_options h', c'))"

section \<open>Reading header options\<close>

definition processMSSOption :: "nat \<Rightarrow> u16 \<Rightarrow> ('a, 't) tcp_conn \<Rightarrow> ('a, 't) tcp_conn" where
  "processMSSOption len mss c =
     (if len \<noteq> 4 \<or> (fsm c \<noteq> TCP_S_LISTEN \<and> fsm c \<noteq> TCP_S_SYN_SENT) then c
      else let m = min (snd_mss c) (ucast mss) in c\<lparr>snd_mss := (if m = 0 then 536 else m)\<rparr>)"

definition processWSOption :: "nat \<Rightarrow> nat \<Rightarrow> ('a, 't) tcp_conn \<Rightarrow> ('a, 't) tcp_conn" where
  "processWSOption len scale c =
     (if len \<noteq> 3 \<or> (fsm c \<noteq> TCP_S_LISTEN \<and> fsm c \<noteq> TCP_S_SYN_SENT) then c
      else c\<lparr>rcv_ws := True, ws_enabled := (ws_support c \<and> snd_ws c),
              snd_wnd_scale := (if scale > 14 then 14 else scale)\<rparr>)"

definition processTSOption :: "tcp_header \<Rightarrow> nat \<Rightarrow> u32 \<Rightarrow> ('a, 't) tcp_conn \<Rightarrow> ('a, 't) tcp_conn" where
  "processTSOption h len sender c =
     (if len \<noteq> 10 then c
      else if (\<not> ts_enabled c \<and> fsm c \<noteq> TCP_S_LISTEN \<and> fsm c \<noteq> TCP_S_SYN_SENT)
            \<or> (ts_enabled c \<and> fsm c \<notin> {TCP_S_SYN_RCVD, TCP_S_ESTABLISHED, TCP_S_FIN_WAIT_1, TCP_S_FIN_WAIT_2})
      then c
      else
        let c1 = (if \<not> ts_enabled c
                  then c\<lparr>rcv_initial_ts := True, ts_enabled := (ts_support c \<and> snd_initial_ts c)\<rparr>
                  else c) in
        if ts_enabled c1 then
          if seqLess sender (ts_recent c1) then c1
          else if seqLE (sequenceNo h) (last_ack_sent c1) then c1\<lparr>ts_recent := sender\<rparr>
          else c1
        else c1)"

definition processSACKPermittedOption :: "nat \<Rightarrow> ('a, 't) tcp_conn \<Rightarrow> ('a, 't) tcp_conn" where
  "processSACKPermittedOption len c =
     (if len \<noteq> 2 \<or> (fsm c \<noteq> TCP_S_LISTEN \<and> fsm c \<noteq> TCP_S_SYN_SENT) then c
      else c\<lparr>rcv_sack_perm := True, sack_enabled := (sack_support c \<and> snd_sack_perm c)\<rparr>)"

text \<open>\<open>TcpConnectionSackUtil.cc\<close>: the blocks of a SACK option go to the scoreboard.\<close>

fun mark_sack_blocks :: "u32 \<Rightarrow> u32 \<Rightarrow> (u32 \<times> u32) list \<Rightarrow> sack_queue \<Rightarrow> sack_queue outcome" where
  "mark_sack_blocks ack una [] q = Inr q"
| "mark_sack_blocks ack una ((s, e) # xs) q =
     bindE (if seqGreater e ack \<and> seqGreater e una then setSackedBit q s e else Inr q)
       (mark_sack_blocks ack una xs)"

definition processSACKOption ::
  "tcp_header \<Rightarrow> nat \<Rightarrow> (u32 \<times> u32) list \<Rightarrow> ('a, 't) tcp_step" where
  "processSACKOption h len items c =
     (if len mod 8 \<noteq> 2 then Inr c
      else
        bindE (assertE (len = 2 + length items * 8)) (\<lambda>_.
        if \<not> sack_enabled c then Inr c
        else if fsm c \<notin> {TCP_S_SYN_RCVD, TCP_S_ESTABLISHED, TCP_S_FIN_WAIT_1, TCP_S_FIN_WAIT_2} then Inr c
        else if items = [] then Inr c
        else
          bindE (mark_sack_blocks (ackNo h) (snd_una c) items (rexmitQ c)) (\<lambda>q.
          Inr (c\<lparr>rexmitQ := q, rcv_sacks := rcv_sacks c + of_nat (length items),
                 sackedBytes_old := sackedBytes c,
                 sackedBytes := getTotalAmountOfSackedBytes q\<rparr>))))"

fun processOption :: "tcp_header \<Rightarrow> tcp_option \<Rightarrow> ('a, 't) tcp_step" where
  "processOption h (OptEnd len) c = Inr c"
| "processOption h (OptNop len) c = Inr c"
| "processOption h (OptMss len mss) c = Inr (processMSSOption len mss c)"
| "processOption h (OptWindowScale len scale) c = Inr (processWSOption len scale c)"
| "processOption h (OptSackPermitted len) c = Inr (processSACKPermittedOption len c)"
| "processOption h (OptSack len items) c = processSACKOption h len items c"
| "processOption h (OptTimestamp len sender echoed) c = Inr (processTSOption h len sender c)"
| "processOption h (OptUnknown len) c = Inr c"

definition readHeaderOptions :: "tcp_header \<Rightarrow> ('a, 't) tcp_step" where
  "readHeaderOptions h = foldE (processOption h) (headerOption h)"

fun find_timestamp :: "tcp_option list \<Rightarrow> (u32 \<times> u32) option" where
  "find_timestamp [] = None"
| "find_timestamp (opt # opts) =
     (case opt of OptTimestamp len sender echoed \<Rightarrow> Some (sender, echoed) | _ \<Rightarrow> find_timestamp opts)"

definition getTSval :: "tcp_header \<Rightarrow> u32" where
  "getTSval h = (case find_timestamp (headerOption h) of Some (sender, _) \<Rightarrow> sender | None \<Rightarrow> 0)"

definition getTSecr :: "tcp_header \<Rightarrow> u32" where
  "getTSecr h = (case find_timestamp (headerOption h) of Some (_, echoed) \<Rightarrow> echoed | None \<Rightarrow> 0)"

section \<open>Sending\<close>

text \<open>The part of \<open>TcpAlgorithm\<close> that is called back while segments are being sent.\<close>

record ('a, 't) alg_hooks =
  ackSent :: "('a, 't) tcp_step"
  dataSent :: "u32 \<Rightarrow> ('a, 't) tcp_step"
  segmentRetransmitted :: "u32 \<Rightarrow> u32 \<Rightarrow> ('a, 't) tcp_step"
  restartRexmitTimer :: "('a, 't) tcp_step"

definition sendToIP :: "tcp_header \<Rightarrow> 'a list \<Rightarrow> ('a, 't) tcp_step" where
  "sendToIP h payload c =
     bindE (assertE (headerLength h \<ge> TCP_MIN_HEADER_LENGTH)) (\<lambda>_.
     bindE (assertE (headerLength h \<le> TCP_MAX_HEADER_LENGTH)) (\<lambda>_.
     Inr (send_output
            (ToIP (h\<lparr>srcPort := localPort c, destPort := remotePort c\<rparr>) payload
               (localAddr c) (remoteAddr c) (ect c \<and> \<not> sndAck c \<and> \<not> rexmit c))
            (c\<lparr>sentBytes := of_nat (length payload)\<rparr>))))"

definition sendToIP_addr ::
  "tcp_header \<Rightarrow> l3_address \<Rightarrow> l3_address \<Rightarrow> ('a, 't) tcp_conn \<Rightarrow> ('a, 't) tcp_conn" where
  "sendToIP_addr h src dest c = send_output (ToIP h [] src dest False) c"

definition sendIndicationToApp :: "tcp_indication \<Rightarrow> ('a, 't) tcp_conn \<Rightarrow> ('a, 't) tcp_conn" where
  "sendIndicationToApp i c = send_output (ToAppIndication i 0) c"

definition sendSyn :: "('a, 't) tcp_step" where
  "sendSyn c0 =
     (if remoteAddr c0 = None \<or> remotePort c0 = -1
      then Inl (RuntimeError ''Error processing command OPEN_ACTIVE: foreign socket unspecified'')
      else if localPort c0 = -1
      then Inl (RuntimeError ''Error processing command OPEN_ACTIVE: local port unspecified'')
      else
        bindE (updateRcvWnd c0) (\<lambda>(wnd, c1).
        let c2 = c1\<lparr>snd_nxt := iss c1 + 1, snd_max := iss c1 + 1, ecnSynSent := ecnWillingness c1\<rparr>;
            h = new_header\<lparr>sequenceNo := iss c0, synBit := True, window := wnd,
                           eceBit := ecnWillingness c1, cwrBit := ecnWillingness c1\<rparr> in
        bindE (writeHeaderOptions h c2) (\<lambda>(h', c3). sendToIP h' [] c3)))"

definition sendSynAck :: "('a, 't) alg_hooks \<Rightarrow> ('a, 't) tcp_step" where
  "sendSynAck alg c0 =
     bindE (updateRcvWnd c0) (\<lambda>(wnd, c1).
     let c2 = c1\<lparr>snd_nxt := iss c1 + 1, snd_max := iss c1 + 1,
                 ect := (ecnWillingness c1 \<and> endPointIsWillingECN c1)\<rparr>;
         h = new_header\<lparr>sequenceNo := iss c0, ackNo := rcv_nxt c0, synBit := True, ackBit := True,
                        window := wnd, eceBit := ecnWillingness c1, cwrBit := False\<rparr> in
     bindE (writeHeaderOptions h c2) (\<lambda>(h', c3).
     bindE (sendToIP h' [] c3) (ackSent alg)))"

definition sendRst_addr ::
  "u32 \<Rightarrow> l3_address \<Rightarrow> l3_address \<Rightarrow> int \<Rightarrow> int \<Rightarrow> ('a, 't) tcp_conn \<Rightarrow> ('a, 't) tcp_conn" where
  "sendRst_addr seq src dest srcP destP c =
     sendToIP_addr (new_header\<lparr>srcPort := srcP, destPort := destP, rstBit := True, sequenceNo := seq\<rparr>)
       src dest c"

definition sendRst :: "u32 \<Rightarrow> ('a, 't) tcp_conn \<Rightarrow> ('a, 't) tcp_conn" where
  "sendRst seqNo c = sendRst_addr seqNo (localAddr c) (remoteAddr c) (localPort c) (remotePort c) c"

definition sendAck :: "('a, 't) alg_hooks \<Rightarrow> ('a, 't) tcp_step" where
  "sendAck alg c0 =
     bindE (updateRcvWnd c0) (\<lambda>(wnd, c1).
     let c2 = (if ect c1 \<and> gotCeIndication c1
               then c1\<lparr>ecnEchoState := True, gotCeIndication := False\<rparr> else c1);
         h = new_header\<lparr>ackBit := True, sequenceNo := snd_nxt c0, ackNo := rcv_nxt c0, window := wnd,
                        eceBit := (ect c2 \<and> ecnEchoState c2)\<rparr> in
     bindE (writeHeaderOptions h c2) (\<lambda>(h', c3).
     bindE (sendToIP h' [] (c3\<lparr>sndAck := True\<rparr>)) (\<lambda>c4.
     ackSent alg (c4\<lparr>sndAck := False\<rparr>))))"

definition sendFin :: "('a, 't) alg_hooks \<Rightarrow> ('a, 't) tcp_step" where
  "sendFin alg c0 =
     bindE (updateRcvWnd c0) (\<lambda>(wnd, c1).
     bindE (sendToIP (new_header\<lparr>finBit := True, ackBit := True, ackNo := rcv_nxt c0,
                                 sequenceNo := snd_nxt c0, window := wnd\<rparr>) [] c1)
       (ackSent alg))"

text \<open>
  \<open>sendSegment\<close> in the order of the source: skip what the peer has (after a retransmission
  timeout), fix the length, cut the octets out of the send queue, append the FIN, record the
  range in the scoreboard, send, and ask the application for more data.
\<close>

definition skip_sacked :: "('a, 't) tcp_step" where
  "skip_sacked c =
     (if sack_enabled c \<and> afterRto c then
        bindE (checkRexmitQueueForSackedOrRexmittedSegments (rexmitQ c) (snd_nxt c)) (\<lambda>forward.
          Inr (if forward > 0 then c\<lparr>snd_nxt := snd_nxt c + forward\<rparr> else c))
      else Inr c)"

definition request_more_data :: "('a, 't) tcp_conn \<Rightarrow> ('a, 't) tcp_conn" where
  "request_more_data c =
     (let alreadyQueued = of_nat (getBytesAvailable (sendQueue c) (q_begin (sendQueue c)));
          abated = (if sendQueueLimit c > alreadyQueued then sendQueueLimit c - alreadyQueued else 0) in
      if sendQueueLimit c > 0 \<and> \<not> queueUpdate c \<and> abated \<ge> snd_mss c
      then (send_output (ToAppIndication TCP_I_SEND_MSG abated) c)\<lparr>queueUpdate := True\<rparr>
      else c)"

definition advance_snd_nxt :: "u32 \<Rightarrow> ('a, 't) tcp_conn \<Rightarrow> bool \<times> ('a, 't) tcp_conn" where
  "advance_snd_nxt bytes c =
     (let c1 = c\<lparr>snd_nxt := snd_nxt c + bytes\<rparr>;
          c2 = (if afterRto c1 \<and> seqGE (snd_nxt c1) (snd_max c1) then c1\<lparr>afterRto := False\<rparr> else c1) in
      if send_fin c2 \<and> snd_nxt c2 = snd_fin_seq c2 then (True, c2\<lparr>snd_nxt := snd_fin_seq c2 + 1\<rparr>)
      else (False, c2))"

definition sendSegment :: "u32 \<Rightarrow> ('a, 't) tcp_step" where
  "sendSegment bytes0 c0 =
     bindE (skip_sacked c0) (\<lambda>c1.
     let buffered = getBytesAvailable (sendQueue c1) (snd_nxt c1);
         bytes1 = (if unat bytes0 > buffered then of_nat buffered else bytes0) in
     bindE (writeHeaderOptions (new_header\<lparr>ackBit := True\<rparr>) c1) (\<lambda>(tmp, c2).
     let options_len = of_nat (headerLength tmp - TCP_MIN_HEADER_LENGTH) in
     bindE (assertE (options_len < snd_mss c2)) (\<lambda>_.
     let bytes = (if bytes1 + options_len > snd_mss c2 then snd_mss c2 - options_len else bytes1);
         c3 = c2\<lparr>sentBytes := bytes\<rparr> in
     bindE (createSegmentWithBytes (sendQueue c3) (snd_nxt c3) (unat bytes)) (\<lambda>payload.
     bindE (updateRcvWnd c3) (\<lambda>(wnd, c4).
     let cwr = (ect c4 \<and> sndCwr c4);
         c5 = (if cwr then c4\<lparr>sndCwr := False\<rparr> else c4) in
     bindE (assertE (unat bytes = length payload)) (\<lambda>_.
     let (fin, c6) = advance_snd_nxt bytes c5 in
     bindE (if sack_enabled c6
            then bindE (enqueueSentData (rexmitQ c6) (snd_nxt c3) (snd_nxt c6)) (\<lambda>q. Inr (c6\<lparr>rexmitQ := q\<rparr>))
            else Inr c6) (\<lambda>c7.
     let h1 = new_header\<lparr>sequenceNo := snd_nxt c3, ackNo := rcv_nxt c3, ackBit := True, window := wnd,
                         cwrBit := cwr, finBit := fin, headerOption := headerOption tmp\<rparr>;
         h2 = h1\<lparr>headerLength := TCP_MIN_HEADER_LENGTH + getHeaderOptionArrayLength h1\<rparr> in
     bindE (assertE (headerLength h2 = headerLength tmp)) (\<lambda>_.
     bindE (sendToIP h2 payload c7) (\<lambda>c8. Inr (request_more_data c8))))))))))"

text \<open>
  The loop that sends full-sized segments. Its first argument bounds the rounds: every round
  sends at least one octet, so \<open>bytesToSend\<close> rounds are enough.
\<close>

fun send_full_segments ::
  "nat \<Rightarrow> nat \<Rightarrow> nat \<Rightarrow> ('a, 't) tcp_conn \<Rightarrow> (nat \<times> ('a, 't) tcp_conn) outcome" where
  "send_full_segments 0 effectiveMax bytesToSend c = Inr (bytesToSend, c)"
| "send_full_segments (Suc fuel) effectiveMax bytesToSend c =
     (if bytesToSend \<ge> effectiveMax then
        bindE (sendSegment (snd_mss c) c) (\<lambda>c'.
        bindE (assertE (bytesToSend \<ge> unat (sentBytes c'))) (\<lambda>_.
        send_full_segments fuel effectiveMax (bytesToSend - unat (sentBytes c')) c'))
      else Inr (bytesToSend, c))"

definition send_bytes :: "nat \<Rightarrow> nat \<Rightarrow> ('a, 't) tcp_conn \<Rightarrow> (nat \<times> ('a, 't) tcp_conn) outcome" where
  "send_bytes effectiveMax bytesToSend c =
     (if bytesToSend \<le> unat (snd_mss c) then
        bindE (sendSegment (of_nat bytesToSend) c) (\<lambda>c'.
        bindE (assertE (bytesToSend \<ge> unat (sentBytes c'))) (\<lambda>_.
        Inr (bytesToSend - unat (sentBytes c'), c')))
      else send_full_segments bytesToSend effectiveMax bytesToSend c)"

definition notify_sent :: "('a, 't) alg_hooks \<Rightarrow> bool \<Rightarrow> u32 \<Rightarrow> ('a, 't) tcp_step" where
  "notify_sent alg rexmitted_new old_snd_nxt c =
     (if rexmitted_new then restartRexmitTimer alg c else dataSent alg old_snd_nxt c)"

definition raise_snd_max :: "('a, 't) tcp_conn \<Rightarrow> ('a, 't) tcp_conn" where
  "raise_snd_max c = (if seqGreater (snd_nxt c) (snd_max c) then c\<lparr>snd_max := snd_nxt c\<rparr> else c)"

definition sendData ::
  "('a, 't) alg_hooks \<Rightarrow> bool \<Rightarrow> u32 \<Rightarrow> ('a, 't) tcp_conn \<Rightarrow> (bool \<times> ('a, 't) tcp_conn) outcome" where
  "sendData alg fullSegmentsOnly congestionWindow c0 =
     (let c = (if \<not> afterRto c0 then c0\<lparr>snd_nxt := snd_max c0\<rparr> else c0);
          old_highRxt = (if sack_enabled c then getHighestRexmittedSeqNum (rexmitQ c) else 0);
          buffered = getBytesAvailable (sendQueue c) (snd_nxt c);
          maxWindow = min (snd_wnd c) congestionWindow;
          effectiveWin = uint maxWindow - uint (snd_nxt c - snd_una c) in
      if buffered = 0 \<or> effectiveWin \<le> 0 then Inr (False, c)
      else
        let bytesToSend = min (nat effectiveWin) buffered in
        bindE (writeHeaderOptions (new_header\<lparr>ackBit := True\<rparr>) c) (\<lambda>(tmp, c1).
        let options_len = of_nat (headerLength tmp - TCP_MIN_HEADER_LENGTH) in
        bindE (assertE (options_len < snd_mss c1)) (\<lambda>_.
        let effectiveMax = unat (snd_mss c1 - options_len) in
        if fullSegmentsOnly \<and> bytesToSend < effectiveMax then Inr (False, c1)
        else
          bindE (send_bytes effectiveMax bytesToSend c1) (\<lambda>(left, c2).
          let buffered2 = getBytesAvailable (sendQueue c2) (snd_nxt c2) in
          bindE (if left = buffered2 \<and> buffered2 \<noteq> 0 then sendSegment (of_nat left) c2 else Inr c2) (\<lambda>c3.
          bindE (ackSent alg (raise_snd_max c3)) (\<lambda>c4.
          bindE (notify_sent alg (sack_enabled c4 \<and> lossRecovery c4 \<and> old_highRxt \<noteq> highRxt c4)
                   (snd_nxt c1) c4) (\<lambda>c5. Inr (True, c5))))))))"

definition sendProbe ::
  "('a, 't) alg_hooks \<Rightarrow> ('a, 't) tcp_conn \<Rightarrow> (bool \<times> ('a, 't) tcp_conn) outcome" where
  "sendProbe alg c0 =
     (let c = c0\<lparr>snd_nxt := snd_max c0\<rparr> in
      if getBytesAvailable (sendQueue c) (snd_nxt c) = 0 then Inr (False, c)
      else
        bindE (sendSegment 1 c) (\<lambda>c1.
        bindE (ackSent alg (c1\<lparr>snd_max := snd_nxt c1\<rparr>)) (\<lambda>c2.
        bindE (dataSent alg (snd_nxt c) c2) (\<lambda>c3. Inr (True, c3)))))"

section \<open>Retransmitting\<close>

text \<open>A lost FIN without data is sent again on its own.\<close>

definition fin_alone :: "('a, 't) tcp_conn \<Rightarrow> bool" where
  "fin_alone c \<longleftrightarrow> send_fin c \<and> snd_fin_seq c = q_end (sendQueue c)"

definition retransmitOneSegment :: "('a, 't) alg_hooks \<Rightarrow> bool \<Rightarrow> ('a, 't) tcp_step" where
  "retransmitOneSegment alg called_at_rto c0 =
     (let c1 = (if ect c0 then c0\<lparr>rexmit := True\<rparr> else c0);
          c2 = c1\<lparr>snd_nxt := snd_una c1\<rparr>;
          bytes = min (unat (min (snd_mss c2) (snd_max c2 - snd_nxt c2)))
                      (getBytesAvailable (sendQueue c2) (snd_nxt c2)) in
      bindE
        (if bytes = 0 \<and> fin_alone c2 then
           let c3 = c2\<lparr>snd_max := q_end (sendQueue c2), snd_nxt := q_end (sendQueue c2)\<rparr> in
           bindE (sendFin alg c3) (\<lambda>c4.
           bindE (segmentRetransmitted alg (snd_nxt c4) (snd_nxt c4 + 1) c4) (\<lambda>c5.
           Inr (c5\<lparr>snd_nxt := snd_nxt c5 + 1, snd_max := snd_nxt c5 + 1\<rparr>)))
         else
           bindE (assertE (bytes \<noteq> 0)) (\<lambda>_.
           bindE (sendSegment (of_nat bytes) c2) (\<lambda>c3.
           bindE (segmentRetransmitted alg (snd_una c3) (snd_nxt c3) c3) (\<lambda>c4.
           let c5 = (if \<not> called_at_rto \<and> seqGreater (snd_nxt c1) (snd_nxt c4)
                     then c4\<lparr>snd_nxt := snd_nxt c1\<rparr> else c4) in
           bindE (ackSent alg c5) (\<lambda>c6.
           Inr (if sack_enabled c6 then c6\<lparr>highRxt := getHighestRexmittedSeqNum (rexmitQ c6)\<rparr> else c6))))))
        (\<lambda>c. Inr (if ect c then c\<lparr>rexmit := False\<rparr> else c)))"

text \<open>
  The loop of \<open>retransmitData\<close>. As in \<open>send_full_segments\<close> every round sends at least one
  octet, so \<open>bytesToSend\<close> rounds are enough; a segment without octets is an error.
\<close>

fun retransmit_segments :: "nat \<Rightarrow> nat \<Rightarrow> ('a, 't) tcp_step" where
  "retransmit_segments 0 bytesToSend c = Inr c"
| "retransmit_segments (Suc fuel) bytesToSend c =
     (if bytesToSend > 0 then
        let bytes = min (min bytesToSend (unat (snd_mss c))) (getBytesAvailable (sendQueue c) (snd_nxt c)) in
        bindE (sendSegment (of_nat bytes) c) (\<lambda>c'.
        if send_fin c' \<and> snd_nxt c' = snd_fin_seq c' + 1 then Inr c'
        else
          bindE (assertE (bytesToSend \<ge> unat (sentBytes c'))) (\<lambda>_.
          retransmit_segments fuel (bytesToSend - unat (sentBytes c')) c'))
      else Inr c)"

definition retransmitData :: "('a, 't) alg_hooks \<Rightarrow> ('a, 't) tcp_step" where
  "retransmitData alg c0 =
     (let c1 = (if ect c0 then c0\<lparr>rexmit := True\<rparr> else c0);
          c2 = c1\<lparr>snd_nxt := snd_una c1\<rparr>;
          bytesToSend = unat (snd_max c2 - snd_nxt c2) in
      if bytesToSend = 0 \<and> fin_alone c2 then
        bindE (sendFin alg (c2\<lparr>snd_max := q_end (sendQueue c2), snd_nxt := q_end (sendQueue c2)\<rparr>)) (\<lambda>c3.
        Inr (c3\<lparr>snd_nxt := snd_nxt c3 + 1, snd_max := snd_nxt c3 + 1\<rparr>))
      else
        bindE (assertE (bytesToSend \<noteq> 0)) (\<lambda>_.
        bindE (retransmit_segments bytesToSend bytesToSend c2) (\<lambda>c3.
        bindE (segmentRetransmitted alg (snd_una c3) (snd_nxt c3) c3) (\<lambda>c4.
        Inr (if ect c4 then c4\<lparr>rexmit := False\<rparr> else c4)))))"

definition sendOneNewSegment :: "('a, 't) alg_hooks \<Rightarrow> bool \<Rightarrow> u32 \<Rightarrow> ('a, 't) tcp_step" where
  "sendOneNewSegment alg fullSegmentsOnly congestionWindow c =
     bindE (assertE (limited_transmit_enabled c)) (\<lambda>_.
     let buffered = getBytesAvailable (sendQueue c) (snd_max c);
         mss = unat (snd_mss c);
         outstandingData = unat (snd_max c - snd_una c);
         effectiveWin = min (snd_wnd c) congestionWindow - of_nat outstandingData + 2 * snd_mss c;
         bytes = min effectiveWin (snd_mss c) in
     if (\<not> sack_enabled c \<or> sackedBytes_old c \<noteq> sackedBytes c)
        \<and> (buffered \<ge> mss \<or> (\<not> fullSegmentsOnly \<and> buffered > 0))
        \<and> outstandingData + mss \<le> unat (snd_wnd c)
        \<and> outstandingData + mss \<le> unat (congestionWindow + 2 * snd_mss c)
        \<and> (bytes \<ge> snd_mss c \<or> (\<not> fullSegmentsOnly \<and> bytes > 0)) then
       bindE (sendSegment bytes (c\<lparr>snd_nxt := snd_max c\<rparr>)) (\<lambda>c1.
       let c2 = raise_snd_max c1;
           c3 = (if afterRto c2 then c2\<lparr>snd_nxt := snd_nxt c + sentBytes c2\<rparr> else c2) in
       bindE (ackSent alg c3) (dataSent alg (snd_nxt c)))
     else Inr c)"

definition sendRstAck ::
  "('a, 't) alg_hooks option \<Rightarrow> u32 \<Rightarrow> u32 \<Rightarrow> l3_address \<Rightarrow> l3_address \<Rightarrow> int \<Rightarrow> int \<Rightarrow> ('a, 't) tcp_step" where
  "sendRstAck alg seq ack src dest srcP destP c =
     (let c1 = sendToIP_addr (new_header\<lparr>srcPort := srcP, destPort := destP, rstBit := True,
                                ackBit := True, sequenceNo := seq, ackNo := ack\<rparr>) src dest c in
      case alg of None \<Rightarrow> Inr c1 | Some a \<Rightarrow> ackSent a c1)"

section \<open>Talking to the application\<close>

text \<open>
  The extraction loop. Every round but the last removes at least one octet, so the number of
  stored octets plus one bounds the rounds.
\<close>

fun extract_all :: "nat \<Rightarrow> ('a, 't) tcp_step" where
  "extract_all 0 c = Inr c"
| "extract_all (Suc fuel) c =
     bindE (extractBytesUpTo (receiveQueue c) (rcv_nxt c)) (\<lambda>(msg, q).
     let c1 = c\<lparr>receiveQueue := q\<rparr> in
     case msg of None \<Rightarrow> Inr c1
     | Some d \<Rightarrow> extract_all fuel (send_output (ToAppData d) c1))"

definition extraction_rounds :: "('a, 't) tcp_conn \<Rightarrow> nat" where
  "extraction_rounds c = sum_list (map (\<lambda>r. length (rdata r)) (rq_regions (receiveQueue c))) + 1"

definition sendAvailableDataToApp :: "('a, 't) tcp_step" where
  "sendAvailableDataToApp c =
     (if getAmountOfBufferedBytes (receiveQueue c) \<noteq> 0 then
        if useDataNotification (tcpMain c) then Inr (send_output ToAppDataNotification c)
        else extract_all (extraction_rounds c) c
      else Inr c)"

section \<open>Setting up a connection\<close>

definition configureStateVariables :: "('a, 't) tcp_step" where
  "configureStateVariables c =
     (let m = tcpMain c; adv = par_advertisedWindow m;
          ws = par_windowScalingSupport m in
      if \<not> ws \<and> (adv > int TCP_MAX_WIN \<or> adv \<le> 0)
      then Inl (RuntimeError ''Invalid advertisedWindow parameter'')
      else
        let w = (if ws \<and> adv > int TCP_MAX_WIN then of_nat TCP_MAX_WIN else word_of_int adv) in
        bindE (assertE (par_sackSupport m \<longrightarrow> par_tcpAlgorithmClass m = ''TcpReno'')) (\<lambda>_.
        Inr (c\<lparr>ws_support := ws, ws_manual_scale := par_windowScalingFactor m,
               ecnWillingness := par_ecnWillingness m,
               rcv_wnd := w, rcv_adv := w, maxRcvBuffer := word_of_int adv,
               delayed_acks_enabled := par_delayedAcksEnabled m,
               nagle_enabled := par_nagleEnabled m,
               limited_transmit_enabled := par_limitedTransmitEnabled m,
               increased_IW_enabled := par_increasedIWEnabled m,
               snd_mss := par_mss m, ts_support := par_timestampSupport m,
               sack_support := par_sackSupport m\<rparr>)))"

text \<open>\<open>initConnection\<close>: new queues, then the configuration.\<close>

definition initConnection :: "('a, 't) tcp_step" where
  "initConnection c =
     configureStateVariables (c\<lparr>sendQueue := sendq_new, receiveQueue := recvq_new, rexmitQ := sq_new\<rparr>)"

text \<open>
  \<open>initClonedConnection\<close>: the connection that a forking listener creates. The clone is fresh
  (its own queues, state variables and algorithm state \<open>fresh_algo\<close>) and starts in LISTEN.
\<close>

definition initClonedConnection :: "('a, 't) tcp_conn \<Rightarrow> ('a, 't) tcp_step" where
  "initClonedConnection listener c =
     bindE (initConnection (c\<lparr>listeningSocketId := socketId listener\<rparr>)) (\<lambda>c1.
     Inr (c1\<lparr>active := False, fork := True, localAddr := localAddr listener,
             localPort := localPort listener, fsm := TCP_S_LISTEN\<rparr>))"

text \<open>The initial sequence number: a 4 microsecond clock (in exact arithmetic).\<close>

definition selectInitialSeqNum :: "('a, 't) tcp_conn \<Rightarrow> ('a, 't) tcp_conn" where
  "selectInitialSeqNum c =
     (let i = word_of_int (now c * 250000 div 10 ^ 12) in
      c\<lparr>iss := i, snd_una := i, snd_nxt := i, snd_max := i,
        sendQueue := sendq_init (i + 1), rexmitQ := sq_init (rexmitQ c) (i + 1)\<rparr>)"

definition isSegmentAcceptable :: "tcp_header \<Rightarrow> nat \<Rightarrow> ('a, 't) tcp_conn \<Rightarrow> bool" where
  "isSegmentAcceptable h payloadLength c =
     (let len = of_nat payloadLength; seqNo = sequenceNo h; ack = ackNo h;
          rcvWndEnd = rcv_nxt c + rcv_wnd c;
          ret = (if len = 0 then
                   if rcv_wnd c = 0 then seqNo = rcv_nxt c
                   else seqLE (rcv_nxt c) seqNo \<and> seqLE seqNo rcvWndEnd
                 else if rcv_wnd c = 0 then False
                 else (seqLE (rcv_nxt c) seqNo \<and> seqLess seqNo rcvWndEnd)
                   \<or> (seqLess (rcv_nxt c) (seqNo + len) \<and> seqLE (seqNo + len) rcvWndEnd)) in
      ret \<or> (len = 0 \<and> seqLess (snd_una c) ack
             \<and> (if \<not> afterRto c then seqLE ack (snd_nxt c) else seqLE ack (snd_max c))))"

definition isSendQueueEmpty :: "('a, 't) tcp_conn \<Rightarrow> bool" where
  "isSendQueueEmpty c \<longleftrightarrow> getBytesAvailable (sendQueue c) (snd_nxt c) = 0"

end
