(* ===== verification/Tcp_Sack_Util.thy ===== *)
theory Tcp_Sack_Util
  imports Tcp_Output
begin

text \<open>
  \<open>transportlayer/tcp/TcpConnectionSackUtil.cc\<close>: the sender's side of RFC 3517, which
  decides from the scoreboard what is lost, how much is in flight and what to send next.
\<close>

section \<open>Operations\<close>

definition isLost :: "u32 \<Rightarrow> ('a, 't) tcp_conn \<Rightarrow> bool outcome" where
  "isLost seqNum c =
     bindE (assertE (sack_enabled c)) (\<lambda>_.
     bindE (assertE (seqGE seqNum (snd_una c))) (\<lambda>_.
     bindE (getNumOfDiscontiguousSacks (rexmitQ c) seqNum) (\<lambda>n.
     if n \<ge> of_nat DUPTHRESH then Inr True
     else bindE (getAmountOfSackedBytes (rexmitQ c) seqNum) (\<lambda>b.
       Inr (b \<ge> of_nat DUPTHRESH * snd_mss c)))))"

text \<open>
  The loop of \<open>setPipe\<close> from \<open>s1\<close>. Every round passes at least one octet of the scoreboard,
  so the number of outstanding octets bounds the rounds.
\<close>

fun pipe_loop :: "nat \<Rightarrow> u32 \<Rightarrow> ('a, 't) tcp_step" where
  "pipe_loop 0 s1 c = Inr c"
| "pipe_loop (Suc fuel) s1 c =
     (if seqLess s1 (snd_max c) then
        bindE (checkSackBlock (rexmitQ c) s1) (\<lambda>(len, is_sacked, is_rexmitted).
        bindE
          (if \<not> is_sacked then
             bindE (isLost s1 c) (\<lambda>lost.
             let c1 = (if \<not> lost then c\<lparr>pipe := pipe c + len\<rparr> else c) in
             Inr (if seqLess s1 (highRxt c1) then c1\<lparr>pipe := pipe c1 + len\<rparr> else c1))
           else Inr c)
          (pipe_loop fuel (s1 + len)))
      else Inr c)"

definition setPipe :: "('a, 't) tcp_step" where
  "setPipe c =
     bindE (assertE (sack_enabled c)) (\<lambda>_.
     pipe_loop (unat (snd_max c - snd_una c)) (snd_una c)
       (c\<lparr>highRxt := getHighestRexmittedSeqNum (rexmitQ c), pipe := 0\<rparr>))"

text \<open>
  The two search loops of \<open>nextSeg\<close>: the first octet that is not SACKed, below the highest
  SACKed octet. Rule (1) needs it to be lost, rule (3) does not. The result of a round that
  stops the search without a find is \<open>None\<close>.
\<close>

fun find_unsacked ::
  "nat \<Rightarrow> bool \<Rightarrow> u32 \<Rightarrow> u32 \<Rightarrow> ('a, 't) tcp_conn \<Rightarrow> u32 option outcome" where
  "find_unsacked 0 must_be_lost highest s c = Inr None"
| "find_unsacked (Suc fuel) must_be_lost highest s c =
     (if seqLess s (snd_max c) \<and> seqLess s highest then
        bindE (checkSackBlock (rexmitQ c) s) (\<lambda>(shift, is_sacked, is_rexmitted).
        if \<not> is_sacked then
          (if must_be_lost then
             bindE (isLost s c) (\<lambda>lost. Inr (if lost then Some s else None))
           else Inr (Some s))
        else find_unsacked fuel must_be_lost highest (s + shift) c)
      else Inr None)"

text \<open>
  \<open>nextSeg\<close> returns the sequence number to send, if any. In rule (2) the effective window is
  an unsigned 64-bit difference.
\<close>

definition nextSeg :: "('a, 't) tcp_conn \<Rightarrow> (u32 option \<times> ('a, 't) tcp_conn) outcome" where
  "nextSeg c0 =
     bindE (assertE (sack_enabled c0)) (\<lambda>_.
     let c = c0\<lparr>highRxt := getHighestRexmittedSeqNum (rexmitQ c0)\<rparr>;
         highest = getHighestSackedSeqNum (rexmitQ c);
         rounds = unat (snd_max c - highRxt c) in
     bindE (find_unsacked rounds True highest (highRxt c) c) (\<lambda>r1.
     case r1 of Some s \<Rightarrow> Inr (Some s, c)
     | None \<Rightarrow>
         let buffered = getBytesAvailable (sendQueue c) (snd_max c);
             effectiveWin = (ucast (snd_wnd c) - ucast (pipe c) :: 64 word) in
         if buffered > 0 \<and> effectiveWin \<ge> ucast (snd_mss c) then Inr (Some (snd_max c), c)
         else bindE (find_unsacked rounds False highest (highRxt c) c) (\<lambda>r3. Inr (r3, c))))"

definition sendSegmentDuringLossRecoveryPhase ::
  "('a, 't) alg_hooks \<Rightarrow> u32 \<Rightarrow> ('a, 't) tcp_step" where
  "sendSegmentDuringLossRecoveryPhase alg seqNum c0 =
     bindE (assertE (sack_enabled c0 \<and> lossRecovery c0)) (\<lambda>_.
     let old_highRxt = getHighestRexmittedSeqNum (rexmitQ c0) in
     bindE (sendSegment (snd_mss c0) (c0\<lparr>snd_nxt := seqNum\<rparr>)) (\<lambda>c1.
     let sent0 = seqNum + sentBytes c1;
         sentSeqNum = (if send_fin c1 \<and> sent0 = snd_fin_seq c1 then sent0 + 1 else sent0) in
     bindE (assertE (seqLE (snd_nxt c1) sentSeqNum)) (\<lambda>_.
     let c2 = (if seqLess seqNum (snd_max c1)
               then c1\<lparr>highRxt := getHighestRexmittedSeqNum (rexmitQ c1)\<rparr> else c1);
         c3 = (if seqGreater sentSeqNum (snd_max c2) then c2\<lparr>snd_max := sentSeqNum\<rparr> else c2) in
     bindE (ackSent alg c3) (\<lambda>c4.
     if old_highRxt \<noteq> highRxt c4 then restartRexmitTimer alg c4 else dataSent alg seqNum c4))))"

text \<open>
  The loop of \<open>sendDataDuringLossRecoveryPhase\<close>: \<open>None\<close> means that the rounds ran out. The
  comparison is on signed integers, as the casts of the source have it.
\<close>

fun loss_recovery_loop ::
  "('a, 't) alg_hooks \<Rightarrow> nat \<Rightarrow> u32 \<Rightarrow> ('a, 't) tcp_conn \<Rightarrow> ('a, 't) tcp_conn option outcome" where
  "loss_recovery_loop alg 0 congestionWindow c = Inr None"
| "loss_recovery_loop alg (Suc fuel) congestionWindow c =
     (if sint congestionWindow - sint (pipe c) \<ge> sint (snd_mss c) then
        bindE (nextSeg c) (\<lambda>(r, c1).
        case r of None \<Rightarrow> Inr (Some c1)
        | Some seqNum \<Rightarrow>
            bindE (sendSegmentDuringLossRecoveryPhase alg seqNum c1) (\<lambda>c2.
            loss_recovery_loop alg fuel congestionWindow (c2\<lparr>pipe := pipe c2 + sentBytes c2\<rparr>)))
      else Inr (Some c))"

definition sendDataDuringLossRecoveryPhase ::
  "('a, 't) alg_hooks \<Rightarrow> nat \<Rightarrow> u32 \<Rightarrow> ('a, 't) tcp_conn \<Rightarrow> ('a, 't) tcp_conn option outcome" where
  "sendDataDuringLossRecoveryPhase alg rounds congestionWindow c =
     bindE (assertE (sack_enabled c \<and> lossRecovery c)) (\<lambda>_.
       loss_recovery_loop alg rounds congestionWindow c)"

end
