(* ===== verification/Tcp_Fsm.thy ===== *)
theory Tcp_Fsm
  imports Tcp_Output
begin

text \<open>
  \<open>transportlayer/tcp/TcpConnectionBase.cc\<close>: the state machine of a connection. The handlers
  of segments, commands and timers report what happened as an event;
  \<open>performStateTransition\<close> moves the machine and \<open>stateEntered\<close> does what the new state asks
  for. \<open>closed\<close> is the algorithm's \<open>connectionClosed\<close>.
\<close>

section \<open>Operations\<close>

fun listen_step :: "tcp_event \<Rightarrow> tcp_state" where
  "listen_step TCP_E_OPEN_ACTIVE = TCP_S_SYN_SENT"
| "listen_step TCP_E_SEND = TCP_S_SYN_SENT"
| "listen_step TCP_E_CLOSE = TCP_S_CLOSED"
| "listen_step TCP_E_ABORT = TCP_S_CLOSED"
| "listen_step TCP_E_DESTROY = TCP_S_CLOSED"
| "listen_step TCP_E_RCV_SYN = TCP_S_SYN_RCVD"
| "listen_step _ = TCP_S_LISTEN"

fun init_step :: "tcp_event \<Rightarrow> tcp_state" where
  "init_step TCP_E_OPEN_PASSIVE = TCP_S_LISTEN"
| "init_step TCP_E_OPEN_ACTIVE = TCP_S_SYN_SENT"
| "init_step TCP_E_DESTROY = TCP_S_CLOSED"
| "init_step _ = TCP_S_INIT"

fun syn_rcvd_step :: "bool \<Rightarrow> tcp_event \<Rightarrow> tcp_state" where
  "syn_rcvd_step act TCP_E_CLOSE = TCP_S_FIN_WAIT_1"
| "syn_rcvd_step act TCP_E_ABORT = TCP_S_CLOSED"
| "syn_rcvd_step act TCP_E_DESTROY = TCP_S_CLOSED"
| "syn_rcvd_step act TCP_E_TIMEOUT_CONN_ESTAB = (if act then TCP_S_CLOSED else TCP_S_LISTEN)"
| "syn_rcvd_step act TCP_E_RCV_RST = (if act then TCP_S_CLOSED else TCP_S_LISTEN)"
| "syn_rcvd_step act TCP_E_RCV_ACK = TCP_S_ESTABLISHED"
| "syn_rcvd_step act TCP_E_RCV_FIN = TCP_S_CLOSE_WAIT"
| "syn_rcvd_step act TCP_E_RCV_UNEXP_SYN = TCP_S_CLOSED"
| "syn_rcvd_step act _ = TCP_S_SYN_RCVD"

text \<open>The states from SYN_SENT on, as \<open>(state, event, next state)\<close>; anything else stays.\<close>

definition later_transitions :: "(tcp_state \<times> tcp_event \<times> tcp_state) list" where
  "later_transitions =
    [(TCP_S_SYN_SENT, TCP_E_CLOSE, TCP_S_CLOSED), (TCP_S_SYN_SENT, TCP_E_ABORT, TCP_S_CLOSED),
     (TCP_S_SYN_SENT, TCP_E_DESTROY, TCP_S_CLOSED),
     (TCP_S_SYN_SENT, TCP_E_TIMEOUT_CONN_ESTAB, TCP_S_CLOSED),
     (TCP_S_SYN_SENT, TCP_E_RCV_RST, TCP_S_CLOSED),
     (TCP_S_SYN_SENT, TCP_E_RCV_SYN_ACK, TCP_S_ESTABLISHED),
     (TCP_S_SYN_SENT, TCP_E_RCV_SYN, TCP_S_SYN_RCVD),
     (TCP_S_ESTABLISHED, TCP_E_CLOSE, TCP_S_FIN_WAIT_1),
     (TCP_S_ESTABLISHED, TCP_E_ABORT, TCP_S_CLOSED), (TCP_S_ESTABLISHED, TCP_E_DESTROY, TCP_S_CLOSED),
     (TCP_S_ESTABLISHED, TCP_E_RCV_RST, TCP_S_CLOSED),
     (TCP_S_ESTABLISHED, TCP_E_RCV_UNEXP_SYN, TCP_S_CLOSED),
     (TCP_S_ESTABLISHED, TCP_E_RCV_FIN, TCP_S_CLOSE_WAIT),
     (TCP_S_CLOSE_WAIT, TCP_E_CLOSE, TCP_S_LAST_ACK),
     (TCP_S_CLOSE_WAIT, TCP_E_ABORT, TCP_S_CLOSED), (TCP_S_CLOSE_WAIT, TCP_E_DESTROY, TCP_S_CLOSED),
     (TCP_S_CLOSE_WAIT, TCP_E_RCV_RST, TCP_S_CLOSED),
     (TCP_S_CLOSE_WAIT, TCP_E_RCV_UNEXP_SYN, TCP_S_CLOSED),
     (TCP_S_LAST_ACK, TCP_E_ABORT, TCP_S_CLOSED), (TCP_S_LAST_ACK, TCP_E_DESTROY, TCP_S_CLOSED),
     (TCP_S_LAST_ACK, TCP_E_RCV_ACK, TCP_S_CLOSED), (TCP_S_LAST_ACK, TCP_E_RCV_RST, TCP_S_CLOSED),
     (TCP_S_LAST_ACK, TCP_E_RCV_UNEXP_SYN, TCP_S_CLOSED),
     (TCP_S_FIN_WAIT_1, TCP_E_ABORT, TCP_S_CLOSED), (TCP_S_FIN_WAIT_1, TCP_E_DESTROY, TCP_S_CLOSED),
     (TCP_S_FIN_WAIT_1, TCP_E_RCV_RST, TCP_S_CLOSED),
     (TCP_S_FIN_WAIT_1, TCP_E_RCV_UNEXP_SYN, TCP_S_CLOSED),
     (TCP_S_FIN_WAIT_1, TCP_E_RCV_FIN, TCP_S_CLOSING),
     (TCP_S_FIN_WAIT_1, TCP_E_RCV_ACK, TCP_S_FIN_WAIT_2),
     (TCP_S_FIN_WAIT_1, TCP_E_RCV_FIN_ACK, TCP_S_TIME_WAIT),
     (TCP_S_FIN_WAIT_2, TCP_E_ABORT, TCP_S_CLOSED), (TCP_S_FIN_WAIT_2, TCP_E_DESTROY, TCP_S_CLOSED),
     (TCP_S_FIN_WAIT_2, TCP_E_TIMEOUT_FIN_WAIT_2, TCP_S_CLOSED),
     (TCP_S_FIN_WAIT_2, TCP_E_RCV_RST, TCP_S_CLOSED),
     (TCP_S_FIN_WAIT_2, TCP_E_RCV_UNEXP_SYN, TCP_S_CLOSED),
     (TCP_S_FIN_WAIT_2, TCP_E_RCV_FIN, TCP_S_TIME_WAIT),
     (TCP_S_CLOSING, TCP_E_ABORT, TCP_S_CLOSED), (TCP_S_CLOSING, TCP_E_DESTROY, TCP_S_CLOSED),
     (TCP_S_CLOSING, TCP_E_RCV_RST, TCP_S_CLOSED), (TCP_S_CLOSING, TCP_E_RCV_UNEXP_SYN, TCP_S_CLOSED),
     (TCP_S_CLOSING, TCP_E_RCV_ACK, TCP_S_TIME_WAIT),
     (TCP_S_TIME_WAIT, TCP_E_ABORT, TCP_S_CLOSED), (TCP_S_TIME_WAIT, TCP_E_TIMEOUT_2MSL, TCP_S_CLOSED),
     (TCP_S_TIME_WAIT, TCP_E_RCV_RST, TCP_S_CLOSED),
     (TCP_S_TIME_WAIT, TCP_E_RCV_UNEXP_SYN, TCP_S_CLOSED),
     (TCP_S_TIME_WAIT, TCP_E_DESTROY, TCP_S_CLOSED)]"

definition later_step :: "tcp_state \<Rightarrow> tcp_event \<Rightarrow> tcp_state" where
  "later_step s e =
     (case find (\<lambda>(s1, e1, _). s1 = s \<and> e1 = e) later_transitions of
        Some (_, _, t) \<Rightarrow> t | None \<Rightarrow> s)"

fun next_state :: "bool \<Rightarrow> tcp_state \<Rightarrow> tcp_event \<Rightarrow> tcp_state" where
  "next_state act TCP_S_INIT e = init_step e"
| "next_state act TCP_S_LISTEN e = listen_step e"
| "next_state act TCP_S_SYN_RCVD e = syn_rcvd_step act e"
| "next_state act s e = later_step s e"

text \<open>Cancelling the four timers, where they still exist.\<close>

definition cancel_timers :: "('a, 't) tcp_conn \<Rightarrow> ('a, 't) tcp_conn" where
  "cancel_timers c = c\<lparr>the2MSLTimer := cancelIfThere (the2MSLTimer c),
     connEstabTimer := cancelIfThere (connEstabTimer c),
     finWait2Timer := cancelIfThere (finWait2Timer c),
     synRexmitTimer := cancelIfThere (synRexmitTimer c)\<rparr>"

definition cancel_setup_timers :: "('a, 't) tcp_conn \<Rightarrow> ('a, 't) tcp_conn" where
  "cancel_setup_timers c = c\<lparr>connEstabTimer := cancelIfThere (connEstabTimer c),
     synRexmitTimer := cancelIfThere (synRexmitTimer c)\<rparr>"

definition stateEntered ::
  "('a, 't) tcp_step \<Rightarrow> tcp_state \<Rightarrow> tcp_state \<Rightarrow> tcp_event \<Rightarrow> ('a, 't) tcp_step" where
  "stateEntered closed s oldState event c =
     (case s of
        TCP_S_INIT \<Rightarrow> Inr c
      | TCP_S_LISTEN \<Rightarrow>
          bindE (assertE (connEstabTimer c \<noteq> Deleted \<and> synRexmitTimer c \<noteq> Deleted)) (\<lambda>_.
          Inr (cancel_setup_timers c))
      | TCP_S_SYN_RCVD \<Rightarrow> Inr c
      | TCP_S_SYN_SENT \<Rightarrow> Inr c
      | TCP_S_ESTABLISHED \<Rightarrow> Inr (c\<lparr>connEstabTimer := Deleted, synRexmitTimer := Deleted\<rparr>)
      | TCP_S_CLOSE_WAIT \<Rightarrow> Inr (cancel_setup_timers (sendIndicationToApp TCP_I_PEER_CLOSED c))
      | TCP_S_TIME_WAIT \<Rightarrow> Inr (sendIndicationToApp TCP_I_CLOSED c)
      | TCP_S_CLOSED \<Rightarrow>
          closed (cancel_timers
            (if oldState \<noteq> TCP_S_TIME_WAIT \<and> event \<noteq> TCP_E_ABORT
             then sendIndicationToApp TCP_I_CLOSED c else c))
      | _ \<Rightarrow> Inr (cancel_setup_timers c))"

definition performStateTransition ::
  "('a, 't) tcp_step \<Rightarrow> tcp_event \<Rightarrow> ('a, 't) tcp_conn \<Rightarrow> (bool \<times> ('a, 't) tcp_conn) outcome" where
  "performStateTransition closed event c =
     bindE (assertE (fsm c \<noteq> TCP_S_CLOSED)) (\<lambda>_.
     if event = TCP_E_IGNORE then Inr (True, c)
     else
       let oldState = fsm c; s = next_state (active c) oldState event; c1 = c\<lparr>fsm := s\<rparr> in
       bindE (if oldState \<noteq> s then stateEntered closed s oldState event c1 else Inr c1)
         (\<lambda>c2. Inr (fsm c2 \<noteq> TCP_S_CLOSED, c2)))"

end
