(* ===== verification/Tcp_Segment.thy ===== *)
theory Tcp_Segment
  imports Tcp_Sack_Util Tcp_Fsm
begin

text \<open>
  \<open>transportlayer/tcp/TcpConnectionRcvSegment.cc\<close>: what a connection does with an arriving
  segment and with its timers. The long function \<open>processSegment1stThru8th\<close> is split at the
  steps of RFC 793 that its comments name; a step either returns from the function with an
  event or lets the next step continue.
\<close>

section \<open>The algorithm's interface, timers and the result of a step\<close>

text \<open>The timers an algorithm may have.\<close>

datatype alg_timer = RexmitTimer | PersistTimer | DelayedAckTimer | KeepAliveTimer

record ('a, 't) tcp_algorithm = "('a, 't) alg_hooks" +
  established :: "bool \<Rightarrow> ('a, 't) tcp_step"
  connectionClosed :: "('a, 't) tcp_step"
  sendCommandInvoked :: "('a, 't) tcp_step"
  receivedOutOfOrderSegment :: "('a, 't) tcp_step"
  receiveSeqChanged :: "('a, 't) tcp_step"
  receivedDataAck :: "u32 \<Rightarrow> ('a, 't) tcp_step"
  receivedDuplicateAck :: "('a, 't) tcp_step"
  receivedAckForDataNotYetSent :: "u32 \<Rightarrow> ('a, 't) tcp_step"
  rttMeasurementCompleteUsingTS :: "u32 \<Rightarrow> ('a, 't) tcp_step"
  algProcessTimer :: "alg_timer \<Rightarrow> ('a, 't) tcp_conn \<Rightarrow> (tcp_event \<times> ('a, 't) tcp_conn) outcome"

abbreviation hooks :: "('a, 't) tcp_algorithm \<Rightarrow> ('a, 't) alg_hooks" where
  "hooks alg \<equiv> alg_hooks.truncate alg"

definition start2MSL :: "('a, 't) tcp_step" where
  "start2MSL c = bindE (schedule (the2MSLTimer c) (now c + 2 * msl (tcpMain c)))
     (\<lambda>t. Inr (c\<lparr>the2MSLTimer := t\<rparr>))"

definition restart2MSL :: "('a, 't) tcp_step" where
  "restart2MSL c = start2MSL (c\<lparr>the2MSLTimer := cancelIfThere (the2MSLTimer c)\<rparr>)"

definition startSynRexmitTimer :: "('a, 't) tcp_step" where
  "startSynRexmitTimer c =
     bindE (schedule (if isScheduled (synRexmitTimer c) then Idle else synRexmitTimer c)
              (now c + TCP_TIMEOUT_SYN_REXMIT))
       (\<lambda>t. Inr (c\<lparr>syn_rexmit_count := 0, syn_rexmit_timeout := TCP_TIMEOUT_SYN_REXMIT, synRexmitTimer := t\<rparr>))"

text \<open>\<open>Some e\<close>: the function returns event \<open>e\<close>. \<open>None\<close>: it goes on.\<close>

type_synonym ('a, 't) seg_step = "('a, 't) tcp_conn \<Rightarrow> (tcp_event option \<times> ('a, 't) tcp_conn) outcome"

definition go_on ::
  "(tcp_event option \<times> ('a, 't) tcp_conn) outcome \<Rightarrow>
   (('a, 't) tcp_conn \<Rightarrow> (tcp_event \<times> ('a, 't) tcp_conn) outcome) \<Rightarrow>
   (tcp_event \<times> ('a, 't) tcp_conn) outcome" where
  "go_on m f = bindE m (\<lambda>(r, c). case r of Some e \<Rightarrow> Inr (e, c) | None \<Rightarrow> f c)"

section \<open>Segments without a connection, and the receive buffer\<close>

text \<open>The reply to a segment that belongs to no connection: nothing or a reset.\<close>

definition segmentArrivalWhileClosed ::
  "tcp_header \<Rightarrow> 'a list \<Rightarrow> l3_address \<Rightarrow> l3_address \<Rightarrow> ('a, 't) tcp_step" where
  "segmentArrivalWhileClosed h payload srcAddr destAddr c =
     (if rstBit h then Inr c
      else if \<not> ackBit h then
        sendRstAck None 0 (sequenceNo h + of_nat (length payload) + getSynFinLen h)
          destAddr srcAddr (destPort h) (srcPort h) c
      else Inr (sendRst_addr (ackNo h) destAddr srcAddr (destPort h) (srcPort h) c))"

definition hasEnoughSpaceForSegmentInReceiveQueue ::
  "tcp_header \<Rightarrow> nat \<Rightarrow> ('a, 't) tcp_conn \<Rightarrow> bool" where
  "hasEnoughSpaceForSegmentInReceiveQueue h payloadLength0 c =
     (let firstSeq = getFirstSeqNo (receiveQueue c);
          old = seqLess (sequenceNo h) firstSeq;
          delta = uint (firstSeq - sequenceNo h);
          payloadSeq = (if old then firstSeq else sequenceNo h);
          payloadLength = (if old then int payloadLength0 - delta else int payloadLength0) in
      seqLE firstSeq payloadSeq
      \<and> seqLE (payloadSeq + word_of_int payloadLength) (firstSeq + maxRcvBuffer c))"

section \<open>First to fourth step: sequence number, RST, SYN\<close>

definition paws_rejects :: "tcp_header \<Rightarrow> ('a, 't) tcp_conn \<Rightarrow> bool" where
  "paws_rejects h c \<longleftrightarrow> headerLength h > TCP_MIN_HEADER_LENGTH \<and> ts_enabled c
     \<and> getTSval h \<noteq> 0 \<and> seqLess (getTSval h) (ts_recent c)
     \<and> now c - time_last_data_sent c > PAWS_IDLE_TIME_THRESH"

definition unacceptable_segment ::
  "('a, 't) tcp_algorithm \<Rightarrow> tcp_header \<Rightarrow> nat \<Rightarrow> ('a, 't) tcp_step" where
  "unacceptable_segment alg h payloadLength c =
     bindE
       (if rstBit h then Inr c
        else
          sendAck (hooks alg)
            (if \<not> synBit h \<and> payloadLength > 0 \<and> sack_enabled c
                \<and> seqLess (sequenceNo h + of_nat payloadLength) (rcv_nxt c)
             then c\<lparr>start_seqno := sequenceNo h, end_seqno := sequenceNo h + of_nat payloadLength,
                    snd_dsack := True\<rparr>
             else c))
       (\<lambda>c'. Inr (c'\<lparr>rcv_naseg := rcv_naseg c' + 1\<rparr>))"

definition check_sequence :: "('a, 't) tcp_algorithm \<Rightarrow> tcp_header \<Rightarrow> 'a list \<Rightarrow> ('a, 't) seg_step" where
  "check_sequence alg h payload c0 =
     bindE (if headerLength h > TCP_MIN_HEADER_LENGTH then readHeaderOptions h c0 else Inr c0) (\<lambda>c.
     if \<not> paws_rejects h c0 \<and> isSegmentAcceptable h (length payload) c
     then Inr (None, if cwrBit h then c\<lparr>ecnEchoState := False\<rparr> else c)
     else bindE (unacceptable_segment alg h (length payload) c) (\<lambda>c'. Inr (Some TCP_E_IGNORE, c')))"

definition processRstInSynReceived :: "('a, 't) tcp_conn \<Rightarrow> (tcp_event \<times> ('a, 't) tcp_conn) outcome" where
  "processRstInSynReceived c =
     bindE (sendq_discardUpTo (sendQueue c) (q_end (sendQueue c))) (\<lambda>sq.
     bindE (if sack_enabled c then discardUpTo (rexmitQ c) (sq_end (rexmitQ c)) else Inr (rexmitQ c)) (\<lambda>rq.
     let c1 = c\<lparr>sendQueue := sq, rexmitQ := rq\<rparr> in
     Inr (TCP_E_RCV_RST, if active c1 then sendIndicationToApp TCP_I_CONNECTION_REFUSED c1 else c1)))"

definition check_rst :: "tcp_header \<Rightarrow> ('a, 't) seg_step" where
  "check_rst h c =
     (if \<not> rstBit h then Inr (None, c)
      else if fsm c = TCP_S_SYN_RCVD then
        bindE (processRstInSynReceived c) (\<lambda>(e, c'). Inr (Some e, c'))
      else if fsm c \<in> {TCP_S_ESTABLISHED, TCP_S_FIN_WAIT_1, TCP_S_FIN_WAIT_2, TCP_S_CLOSE_WAIT} then
        Inr (Some TCP_E_RCV_RST, sendIndicationToApp TCP_I_CONNECTION_RESET c)
      else if fsm c \<in> {TCP_S_CLOSING, TCP_S_LAST_ACK, TCP_S_TIME_WAIT} then Inr (Some TCP_E_RCV_RST, c)
      else Inl AssertionFailed)"

definition check_syn :: "tcp_header \<Rightarrow> 'a list \<Rightarrow> ('a, 't) seg_step" where
  "check_syn h payload c =
     (if \<not> synBit h then Inr (None, c)
      else bindE (assertE (isSegmentAcceptable h (length payload) c)) (\<lambda>_.
             Inr (Some TCP_E_RCV_UNEXP_SYN, sendIndicationToApp TCP_I_CONNECTION_RESET c)))"

section \<open>Fifth step: the acknowledgement\<close>

text \<open>The acknowledgement of new data, of the FIN if it was sent, and of nothing new.\<close>

definition duplicate_ack ::
  "('a, 't) tcp_algorithm \<Rightarrow> tcp_header \<Rightarrow> nat \<Rightarrow> ('a, 't) tcp_step" where
  "duplicate_ack alg h payloadLength c =
     (if snd_una c = ackNo h \<and> payloadLength = 0 \<and> snd_una c \<noteq> snd_max c
      then receivedDuplicateAck alg (updateWndInfo h False (c\<lparr>dupacks := dupacks c + 1\<rparr>))
      else Inr (c\<lparr>dupacks := 0\<rparr>))"

definition new_ack ::
  "('a, 't) tcp_algorithm \<Rightarrow> tcp_header \<Rightarrow> nat \<Rightarrow> ('a, 't) tcp_step" where
  "new_ack alg h payloadLength c =
     (let old_snd_una = snd_una c;
          c1 = c\<lparr>snd_una := ackNo h\<rparr>;
          c2 = (if seqLess (snd_nxt c1) (snd_una c1) then c1\<lparr>snd_nxt := snd_una c1\<rparr> else c1) in
      bindE (if ts_enabled c2 then rttMeasurementCompleteUsingTS alg (getTSecr h) c2 else Inr c2) (\<lambda>c3.
      let fin_acked = (send_fin c3 \<and> ackNo h = snd_fin_seq c3 + 1);
          discardSeq = (if fin_acked then snd_una c3 - 1 else snd_una c3);
          c4 = (if fin_acked then c3\<lparr>fin_ack_rcvd := True\<rparr> else c3) in
      bindE (sendq_discardUpTo (sendQueue c4) discardSeq) (\<lambda>sq.
      bindE (if sack_enabled c4 then discardUpTo (rexmitQ c4) discardSeq else Inr (rexmitQ c4)) (\<lambda>rq.
      let c5 = updateWndInfo h False (c4\<lparr>sendQueue := sq, rexmitQ := rq\<rparr>) in
      if payloadLength = 0 \<and> fsm c5 \<noteq> TCP_S_SYN_RCVD then
        bindE (receivedDataAck alg old_snd_una c5) (\<lambda>c6. Inr (c6\<lparr>dupacks := 0\<rparr>))
      else Inr c5))))"

definition processAckInEstabEtc ::
  "('a, 't) tcp_algorithm \<Rightarrow> tcp_header \<Rightarrow> nat \<Rightarrow> ('a, 't) tcp_conn \<Rightarrow> (bool \<times> ('a, 't) tcp_conn) outcome" where
  "processAckInEstabEtc alg h payloadLength c0 =
     (let c = (if ect c0 \<and> eceBit h then c0\<lparr>gotEce := True\<rparr> else c0) in
      if seqGE (snd_una c) (ackNo h) then
        bindE (duplicate_ack alg h payloadLength c) (\<lambda>c'. Inr (True, c'))
      else if seqLE (ackNo h) (snd_max c) then
        bindE (new_ack alg h payloadLength c) (\<lambda>c'. Inr (True, c'))
      else
        bindE (assertE (seqGreater (ackNo h) (snd_max c))) (\<lambda>_.
        bindE (receivedAckForDataNotYetSent alg (ackNo h) c) (\<lambda>c'. Inr (False, c'\<lparr>dupacks := 0\<rparr>))))"

text \<open>In SYN_RCVD an acceptable acknowledgement establishes the connection.\<close>

definition ack_in_syn_rcvd ::
  "('a, 't) tcp_algorithm \<Rightarrow> tcp_header \<Rightarrow> ('a, 't) tcp_conn \<Rightarrow>
     (tcp_event option \<times> tcp_event \<times> ('a, 't) tcp_conn) outcome" where
  "ack_in_syn_rcvd alg h c =
     (if fsm c \<noteq> TCP_S_SYN_RCVD then Inr (None, TCP_E_IGNORE, c)
      else if \<not> seqLE (snd_una c) (ackNo h) \<or> \<not> seqLE (ackNo h) (snd_nxt c)
      then Inr (Some TCP_E_IGNORE, TCP_E_IGNORE, sendRst (ackNo h) c)
      else
        bindE (established alg False c) (\<lambda>c1.
        Inr (None, TCP_E_RCV_ACK,
             send_output (if isToBeAccepted c1 then ToAppAvailable else ToAppEstablished) c1)))"

text \<open>What the closing states make of the acknowledgement; \<open>event\<close> is the event so far.\<close>

definition ack_in_closing_states ::
  "('a, 't) tcp_algorithm \<Rightarrow> tcp_header \<Rightarrow> tcp_event \<Rightarrow> ('a, 't) tcp_conn \<Rightarrow>
     (tcp_event option \<times> tcp_event \<times> ('a, 't) tcp_conn) outcome" where
  "ack_in_closing_states alg h event c =
     (let event1 = (if fsm c = TCP_S_FIN_WAIT_1 \<and> fin_ack_rcvd c then TCP_E_RCV_ACK else event) in
      if fsm c = TCP_S_CLOSING \<and> fin_ack_rcvd c then
        bindE (start2MSL c) (\<lambda>c1. Inr (None, TCP_E_RCV_ACK, c1))
      else if fsm c = TCP_S_LAST_ACK \<and> send_fin c \<and> ackNo h = snd_fin_seq c + 1 then
        Inr (Some TCP_E_RCV_ACK, event1, c)
      else if fsm c = TCP_S_TIME_WAIT then
        bindE (sendAck (hooks alg) c) (\<lambda>c1.
        bindE (restart2MSL c1) (\<lambda>c2. Inr (None, event1, c2)))
      else Inr (None, event1, c))"

section \<open>Seventh and eighth step: the data and the FIN\<close>

text \<open>
  A FIN that is next in sequence: the event, and the timers of the states that end with it.
  The source has this code twice, for a FIN that waited for missing data and for one in order.
\<close>

definition fin_in_sequence :: "('a, 't) tcp_conn \<Rightarrow> (tcp_event \<times> ('a, 't) tcp_conn) outcome" where
  "fin_in_sequence c =
     (case fsm c of
        TCP_S_FIN_WAIT_1 \<Rightarrow>
          if fin_ack_rcvd c then
            bindE (start2MSL (c\<lparr>finWait2Timer := cancelIfThere (finWait2Timer c)\<rparr>))
              (\<lambda>c'. Inr (TCP_E_RCV_FIN_ACK, c'))
          else Inr (TCP_E_RCV_FIN, c)
      | TCP_S_FIN_WAIT_2 \<Rightarrow>
          bindE (start2MSL (c\<lparr>finWait2Timer := cancelIfThere (finWait2Timer c)\<rparr>))
            (\<lambda>c'. Inr (TCP_E_RCV_FIN, c'))
      | TCP_S_TIME_WAIT \<Rightarrow> bindE (restart2MSL c) (\<lambda>c'. Inr (TCP_E_RCV_FIN, c'))
      | _ \<Rightarrow> Inr (TCP_E_RCV_FIN, c))"

definition count_segment :: "tcp_header \<Rightarrow> nat \<Rightarrow> ('a, 't) tcp_conn \<Rightarrow> ('a, 't) tcp_conn" where
  "count_segment h payloadLength c =
     (let c1 = (if of_nat payloadLength = snd_mss c
                   \<or> of_nat (payloadLength + (headerLength h - TCP_MIN_HEADER_LENGTH)) = snd_mss c
                then c\<lparr>full_sized_segment_counter := full_sized_segment_counter c + 1\<rparr> else c) in
      if payloadLength = 1 then c1\<lparr>ack_now := True\<rparr> else c1)"

text \<open>The payload was stored but left a hole: ask for SACK or D-SACK.\<close>

definition out_of_order ::
  "('a, 't) tcp_algorithm \<Rightarrow> tcp_header \<Rightarrow> nat \<Rightarrow> u32 \<Rightarrow> ('a, 't) tcp_step" where
  "out_of_order alg h payloadLength old_used c =
     (let c1 = c\<lparr>rcv_oooseg := rcv_oooseg c + 1\<rparr>;
          c2 = (if sack_enabled c1 then
                  let c3 = c1\<lparr>start_seqno := sequenceNo h,
                              end_seqno := sequenceNo h + of_nat payloadLength\<rparr> in
                  if old_used = getAmountOfBufferedBytes (receiveQueue c3) then c3\<lparr>snd_dsack := True\<rparr>
                  else c3\<lparr>snd_sack := True\<rparr>
                else c1) in
      receivedOutOfOrderSegment alg c2)"

text \<open>
  The payload advanced \<open>rcv_nxt\<close>: pass data up; a FIN that waited may be next. Steps that
  work on the event so far carry it along.
\<close>

definition in_order_data ::
  "tcp_event \<Rightarrow> ('a, 't) tcp_conn \<Rightarrow> (tcp_event \<times> ('a, 't) tcp_conn) outcome" where
  "in_order_data event c =
     bindE (if \<not> isToBeAccepted c then sendAvailableDataToApp c else Inr c) (\<lambda>c1.
     if fin_rcvd c1 \<and> rcv_nxt c1 = rcv_fin_seq c1 then
       fin_in_sequence (c1\<lparr>ack_now := True, rcv_nxt := rcv_fin_seq c1 + 1\<rparr>)
     else Inr (event, c1))"

definition store_payload ::
  "('a, 't) tcp_algorithm \<Rightarrow> tcp_header \<Rightarrow> 'a list \<Rightarrow> u32 \<Rightarrow> tcp_event \<Rightarrow> ('a, 't) tcp_conn \<Rightarrow>
     (tcp_event \<times> ('a, 't) tcp_conn) outcome" where
  "store_payload alg h payload old_snd_una event c =
     bindE (insertBytesFromSegment (receiveQueue c) (sequenceNo h) payload) (\<lambda>(nxt, q).
     let c1 = c\<lparr>receiveQueue := q, rcv_nxt := nxt\<rparr> in
     bindE (if seqGreater (snd_una c1) old_snd_una
            then bindE (receivedDataAck alg old_snd_una c1) (\<lambda>c2. Inr (c2\<lparr>dupacks := 0\<rparr>))
            else Inr c1) (\<lambda>c2.
     if rcv_nxt c = rcv_nxt c2 then
       bindE (out_of_order alg h (length payload) (usedRcvBuffer c) c2) (\<lambda>c3. Inr (event, c3))
     else in_order_data event c2))"

definition process_payload ::
  "('a, 't) tcp_algorithm \<Rightarrow> tcp_header \<Rightarrow> 'a list \<Rightarrow> u32 \<Rightarrow> tcp_event \<Rightarrow> ('a, 't) tcp_conn \<Rightarrow>
     (tcp_event option \<times> tcp_event \<times> ('a, 't) tcp_conn) outcome" where
  "process_payload alg h payload old_snd_una event c0 =
     (if fsm c0 \<in> {TCP_S_SYN_RCVD, TCP_S_ESTABLISHED, TCP_S_FIN_WAIT_1, TCP_S_FIN_WAIT_2}
         \<and> payload \<noteq> [] then
        let c = updateRcvQueueVars (count_segment h (length payload) c0) in
        if hasEnoughSpaceForSegmentInReceiveQueue h (length payload) c then
          bindE (store_payload alg h payload old_snd_una event c) (\<lambda>(e, c'). Inr (None, e, c'))
        else Inr (Some TCP_E_IGNORE, event, c\<lparr>tcpRcvQueueDrops := tcpRcvQueueDrops c + 1\<rparr>)
      else Inr (None, event, c0))"

definition process_fin ::
  "tcp_header \<Rightarrow> nat \<Rightarrow> tcp_event \<Rightarrow> ('a, 't) tcp_conn \<Rightarrow> (tcp_event \<times> ('a, 't) tcp_conn) outcome" where
  "process_fin h payloadLength event c =
     (if \<not> finBit h then Inr (event, c)
      else
        let c1 = c\<lparr>ack_now := True\<rparr>; fin_seq = sequenceNo h + of_nat payloadLength in
        if rcv_nxt c1 = fin_seq then fin_in_sequence (c1\<lparr>rcv_nxt := rcv_nxt c1 + 1\<rparr>)
        else Inr (event, c1\<lparr>fin_rcvd := True, rcv_fin_seq := fin_seq\<rparr>))"

text \<open>The end of the function: acknowledge, and carry out a CLOSE that was deferred.\<close>

definition finish_segment ::
  "('a, 't) tcp_algorithm \<Rightarrow> tcp_header \<Rightarrow> nat \<Rightarrow> u32 \<Rightarrow> u32 \<Rightarrow> tcp_event \<Rightarrow> ('a, 't) tcp_conn \<Rightarrow>
     (tcp_event \<times> ('a, 't) tcp_conn) outcome" where
  "finish_segment alg h payloadLength old_rcv_nxt old_snd_nxt event c =
     bindE
       (if old_rcv_nxt \<noteq> rcv_nxt c then
          receiveSeqChanged alg
            (if sack_enabled c \<and> getQueueLength (receiveQueue c) \<noteq> 0
             then c\<lparr>start_seqno := sequenceNo h, end_seqno := sequenceNo h + of_nat payloadLength,
                    snd_sack := True, ack_now := True\<rparr>
             else c)
        else Inr c)
       (\<lambda>c1.
        let fin_sent = (send_fin c1 \<and> snd_nxt c1 = snd_fin_seq c1 + 1) in
        if (fsm c1 = TCP_S_ESTABLISHED \<or> fsm c1 = TCP_S_SYN_RCVD) \<and> fin_sent then Inr (TCP_E_CLOSE, c1)
        else if fsm c1 = TCP_S_CLOSE_WAIT \<and> fin_sent \<and> old_snd_nxt \<noteq> snd_nxt c1 then Inr (TCP_E_CLOSE, c1)
        else Inr (event, c1))"

text \<open>Steps that also carry the event so far.\<close>

definition go_on_event ::
  "(tcp_event option \<times> tcp_event \<times> ('a, 't) tcp_conn) outcome \<Rightarrow>
   (tcp_event \<Rightarrow> ('a, 't) tcp_conn \<Rightarrow> (tcp_event \<times> ('a, 't) tcp_conn) outcome) \<Rightarrow>
   (tcp_event \<times> ('a, 't) tcp_conn) outcome" where
  "go_on_event m f = bindE m (\<lambda>(r, e, c). case r of Some e' \<Rightarrow> Inr (e', c) | None \<Rightarrow> f e c)"

definition process_ack_onwards ::
  "('a, 't) tcp_algorithm \<Rightarrow> tcp_header \<Rightarrow> 'a list \<Rightarrow> ('a, 't) tcp_conn \<Rightarrow>
     (tcp_event \<times> ('a, 't) tcp_conn) outcome" where
  "process_ack_onwards alg h payload c0 =
     (if \<not> ackBit h then Inr (TCP_E_IGNORE, c0)
      else
        go_on_event (ack_in_syn_rcvd alg h c0) (\<lambda>event1 c1.
        go_on_event
          (if fsm c1 \<in> {TCP_S_SYN_RCVD, TCP_S_ESTABLISHED, TCP_S_FIN_WAIT_1, TCP_S_FIN_WAIT_2,
                        TCP_S_CLOSE_WAIT, TCP_S_CLOSING, TCP_S_LAST_ACK}
           then bindE (processAckInEstabEtc alg h (length payload) c1) (\<lambda>(ok, c2).
                  Inr (if ok then None else Some TCP_E_IGNORE, event1, c2))
           else Inr (None, event1, c1)) (\<lambda>event2 c2.
        go_on_event (ack_in_closing_states alg h event2 c2) (\<lambda>event3 c3.
        go_on_event (process_payload alg h payload (snd_una c0) event3 c3) (\<lambda>event4 c4.
        bindE (process_fin h (length payload) event4 c4) (\<lambda>(event5, c5).
        finish_segment alg h (length payload) (rcv_nxt c3) (snd_nxt c1) event5 c5))))))"

definition processSegment1stThru8th ::
  "('a, 't) tcp_algorithm \<Rightarrow> tcp_header \<Rightarrow> 'a list \<Rightarrow> ('a, 't) tcp_conn \<Rightarrow>
     (tcp_event \<times> ('a, 't) tcp_conn) outcome" where
  "processSegment1stThru8th alg h payload c0 =
     go_on (check_sequence alg h payload c0) (\<lambda>c1.
     go_on (check_rst h c1) (\<lambda>c2.
     go_on (check_syn h payload c2) (process_ack_onwards alg h payload)))"

section \<open>LISTEN and SYN_SENT\<close>

text \<open>Data that comes with a SYN is queued; without room the segment is ignored.\<close>

definition queue_syn_data ::
  "tcp_header \<Rightarrow> 'a list \<Rightarrow> ('a, 't) tcp_conn \<Rightarrow> (bool \<times> ('a, 't) tcp_conn) outcome" where
  "queue_syn_data h payload c0 =
     (if payload = [] then Inr (True, c0)
      else
        let c = updateRcvQueueVars c0 in
        if hasEnoughSpaceForSegmentInReceiveQueue h (length payload) c then
          bindE (insertBytesFromSegment (receiveQueue c) (sequenceNo h) payload)
            (\<lambda>(_, q). Inr (True, c\<lparr>receiveQueue := q\<rparr>))
        else Inr (False, c\<lparr>tcpRcvQueueDrops := tcpRcvQueueDrops c + 1\<rparr>))"

definition accept_syn :: "tcp_header \<Rightarrow> ('a, 't) tcp_conn \<Rightarrow> ('a, 't) tcp_conn" where
  "accept_syn h c =
     (let nxt = sequenceNo h + 1 in
      c\<lparr>rcv_nxt := nxt, rcv_adv := nxt + rcv_wnd c, irs := sequenceNo h, receiveQueue := recvq_init nxt\<rparr>)"

definition processSynInListen ::
  "('a, 't) tcp_algorithm \<Rightarrow> tcp_header \<Rightarrow> 'a list \<Rightarrow> ('a, 't) tcp_conn \<Rightarrow>
     (tcp_event \<times> ('a, 't) tcp_conn) outcome" where
  "processSynInListen alg h payload c0 =
     (let c1 = updateWndInfo h True (selectInitialSeqNum (accept_syn h c0)) in
      bindE (if headerLength h > TCP_MIN_HEADER_LENGTH then readHeaderOptions h c1 else Inr c1) (\<lambda>c2.
      let c3 = c2\<lparr>ack_now := True,
                  endPointIsWillingECN := (endPointIsWillingECN c2 \<or> (eceBit h \<and> cwrBit h))\<rparr> in
      bindE (sendSynAck (hooks alg) c3) (\<lambda>c4.
      bindE (startSynRexmitTimer c4) (\<lambda>c5.
      bindE (if \<not> isScheduled (connEstabTimer c5)
             then bindE (schedule (connEstabTimer c5) (now c5 + TCP_TIMEOUT_CONN_ESTAB))
                    (\<lambda>t. Inr (c5\<lparr>connEstabTimer := t\<rparr>))
             else Inr c5) (\<lambda>c6.
      bindE (queue_syn_data h payload c6) (\<lambda>(ok, c7).
      Inr (if ok then TCP_E_RCV_SYN else TCP_E_IGNORE, c7)))))))"

definition set_sock_pair ::
  "l3_address \<Rightarrow> l3_address \<Rightarrow> int \<Rightarrow> int \<Rightarrow> ('a, 't) tcp_conn \<Rightarrow> ('a, 't) tcp_conn" where
  "set_sock_pair local remote lport rport c =
     c\<lparr>localAddr := local, remoteAddr := remote, localPort := lport, remotePort := rport\<rparr>"

text \<open>
  \<open>processSegmentInListen\<close> also returns the forked connection. \<open>fresh\<close> is the new connection
  module before \<open>initClonedConnection\<close>; \<open>updateSockPair\<close> and \<open>addForkedConnection\<close> store the
  addresses and ports in the connection.
\<close>

definition processSegmentInListen ::
  "('a, 't) tcp_algorithm \<Rightarrow> ('a, 't) tcp_conn \<Rightarrow> tcp_header \<Rightarrow> 'a list \<Rightarrow> l3_address \<Rightarrow> l3_address \<Rightarrow>
     ('a, 't) tcp_conn \<Rightarrow> (tcp_event \<times> ('a, 't) tcp_conn \<times> ('a, 't) tcp_conn option) outcome" where
  "processSegmentInListen alg fresh h payload srcAddr destAddr c =
     (if rstBit h then Inr (TCP_E_IGNORE, c, None)
      else if ackBit h then
        Inr (TCP_E_IGNORE, sendRst_addr (ackNo h) destAddr srcAddr (destPort h) (srcPort h) c, None)
      else if synBit h then
        if fork c then
          bindE (initClonedConnection c fresh) (\<lambda>k0.
          bindE (processSynInListen alg h payload
                   (set_sock_pair destAddr srcAddr (destPort h) (srcPort h) k0)) (\<lambda>(e, k1).
          bindE (performStateTransition (connectionClosed alg) e k1) (\<lambda>(_, k2).
          Inr (TCP_E_IGNORE, c, Some k2))))
        else
          bindE (processSynInListen alg h payload
                   (set_sock_pair destAddr srcAddr (destPort h) (srcPort h) c)) (\<lambda>(e, c1).
          Inr (e, c1, None))
      else Inr (TCP_E_IGNORE, c, None))"

text \<open>
  A SYN in SYN_SENT: the receive side starts, and an acknowledgement that came with it is
  taken over.
\<close>

definition take_syn :: "tcp_header \<Rightarrow> l3_address \<Rightarrow> l3_address \<Rightarrow> ('a, 't) tcp_step" where
  "take_syn h srcAddr destAddr c0 =
     (let c = accept_syn h c0 in
      bindE
        (if ackBit h then
           let c1 = c\<lparr>snd_una := ackNo h\<rparr> in
           bindE (sendq_discardUpTo (sendQueue c1) (snd_una c1)) (\<lambda>sq.
           bindE (if sack_enabled c1 then discardUpTo (rexmitQ c1) (snd_una c1) else Inr (rexmitQ c1)) (\<lambda>rq.
           Inr (updateWndInfo h True (c1\<lparr>sendQueue := sq, rexmitQ := rq\<rparr>))))
         else Inr c)
        (\<lambda>c2. Inr (set_sock_pair destAddr srcAddr (destPort h) (srcPort h) c2)))"

text \<open>Both ends agree on ECN when the SYN asked for it and the SYN+ACK grants it.\<close>

definition agree_on_ecn :: "tcp_header \<Rightarrow> ('a, 't) tcp_conn \<Rightarrow> ('a, 't) tcp_conn" where
  "agree_on_ecn h c =
     (if ecnSynSent c then c\<lparr>ect := (eceBit h \<and> \<not> cwrBit h), ecnSynSent := False\<rparr>
      else c\<lparr>ect := False\<rparr>)"

definition our_syn_acked ::
  "('a, 't) tcp_algorithm \<Rightarrow> tcp_header \<Rightarrow> 'a list \<Rightarrow> ('a, 't) tcp_conn \<Rightarrow>
     (tcp_event \<times> ('a, 't) tcp_conn) outcome" where
  "our_syn_acked alg h payload c0 =
     bindE (queue_syn_data h payload c0) (\<lambda>(ok, c1).
     if \<not> ok then Inr (TCP_E_IGNORE, c1)
     else
       bindE (if headerLength h > TCP_MIN_HEADER_LENGTH then readHeaderOptions h c1 else Inr c1) (\<lambda>c2.
       bindE (established alg True (c2\<lparr>ack_now := True\<rparr>)) (\<lambda>c3.
       Inr (TCP_E_RCV_SYN_ACK, agree_on_ecn h (send_output ToAppEstablished c3)))))"

definition processSegmentInSynSent ::
  "('a, 't) tcp_algorithm \<Rightarrow> tcp_header \<Rightarrow> 'a list \<Rightarrow> l3_address \<Rightarrow> l3_address \<Rightarrow>
     ('a, 't) tcp_conn \<Rightarrow> (tcp_event \<times> ('a, 't) tcp_conn) outcome" where
  "processSegmentInSynSent alg h payload srcAddr destAddr c =
     (if ackBit h \<and> (seqLE (ackNo h) (iss c) \<or> seqGreater (ackNo h) (snd_nxt c)) then
        Inr (TCP_E_IGNORE,
             if rstBit h then c else sendRst_addr (ackNo h) destAddr srcAddr (destPort h) (srcPort h) c)
      else if rstBit h then
        if ackBit h then Inr (TCP_E_RCV_RST, sendIndicationToApp TCP_I_CONNECTION_RESET c)
        else Inr (TCP_E_IGNORE, c)
      else if synBit h then
        bindE (take_syn h srcAddr destAddr c) (\<lambda>c1.
        if seqGreater (snd_una c1) (iss c1) then our_syn_acked alg h payload c1
        else
          bindE (sendSynAck (hooks alg) (c1\<lparr>snd_nxt := iss c1, snd_max := iss c1\<rparr>)) (\<lambda>c2.
          bindE (startSynRexmitTimer c2) (\<lambda>c3.
          bindE (queue_syn_data h payload c3) (\<lambda>(ok, c4).
          Inr (if ok then TCP_E_RCV_SYN else TCP_E_IGNORE, c4)))))
      else Inr (TCP_E_IGNORE, c))"

section \<open>A segment arrives; a timer expires\<close>

definition process_RCV_SEGMENT ::
  "('a, 't) tcp_algorithm \<Rightarrow> ('a, 't) tcp_conn \<Rightarrow> tcp_header \<Rightarrow> 'a list \<Rightarrow> l3_address \<Rightarrow> l3_address \<Rightarrow>
     ('a, 't) tcp_conn \<Rightarrow> (tcp_event \<times> ('a, 't) tcp_conn \<times> ('a, 't) tcp_conn option) outcome" where
  "process_RCV_SEGMENT alg fresh h payload src dest c =
     (if fsm c = TCP_S_LISTEN then processSegmentInListen alg fresh h payload src dest c
      else
        bindE (if fsm c = TCP_S_SYN_SENT then processSegmentInSynSent alg h payload src dest c
               else processSegment1stThru8th alg h payload c)
          (\<lambda>(e, c'). Inr (e, c', None)))"

text \<open>The result: whether the connection goes on, the connection, and a forked connection.\<close>

definition processTCPSegment ::
  "('a, 't) tcp_algorithm \<Rightarrow> ('a, 't) tcp_conn \<Rightarrow> tcp_header \<Rightarrow> 'a list \<Rightarrow> l3_address \<Rightarrow> l3_address \<Rightarrow>
     ('a, 't) tcp_conn \<Rightarrow> (bool \<times> ('a, 't) tcp_conn \<times> ('a, 't) tcp_conn option) outcome" where
  "processTCPSegment alg fresh h payload src dest c =
     bindE (assertE (localAddr c \<noteq> None \<longrightarrow> localAddr c = dest \<and> localPort c = destPort h)) (\<lambda>_.
     bindE (assertE (remoteAddr c \<noteq> None \<longrightarrow> remoteAddr c = src \<and> remotePort c = srcPort h)) (\<lambda>_.
     bindE (process_RCV_SEGMENT alg fresh h payload src dest c) (\<lambda>(e, c1, forked).
     bindE (performStateTransition (connectionClosed alg) e c1) (\<lambda>(goes_on, c2).
     Inr (goes_on, c2, forked)))))"

definition process_TIMEOUT_CONN_ESTAB :: "('a, 't) tcp_step" where
  "process_TIMEOUT_CONN_ESTAB c =
     (if fsm c \<in> {TCP_S_SYN_RCVD, TCP_S_SYN_SENT} then
        Inr (if active c then sendIndicationToApp TCP_I_TIMED_OUT c else c)
      else Inl (RuntimeError ''Internal error: received CONN_ESTAB timeout in state''))"

definition process_TIMEOUT_2MSL :: "('a, 't) tcp_step" where
  "process_TIMEOUT_2MSL c =
     (if fsm c = TCP_S_TIME_WAIT then Inr c
      else Inl (RuntimeError ''Internal error: received time-wait (2MSL) timeout in state''))"

definition process_TIMEOUT_FIN_WAIT_2 :: "('a, 't) tcp_step" where
  "process_TIMEOUT_FIN_WAIT_2 c =
     (if fsm c = TCP_S_FIN_WAIT_2 then Inr c
      else Inl (RuntimeError ''Internal error: received FIN_WAIT_2 timeout in state''))"

definition process_TIMEOUT_SYN_REXMIT ::
  "('a, 't) tcp_algorithm \<Rightarrow> ('a, 't) tcp_conn \<Rightarrow> (tcp_event \<times> ('a, 't) tcp_conn) outcome" where
  "process_TIMEOUT_SYN_REXMIT alg c0 =
     (let c = c0\<lparr>syn_rexmit_count := syn_rexmit_count c0 + 1\<rparr> in
      if syn_rexmit_count c > MAX_SYN_REXMIT_COUNT then Inr (TCP_E_ABORT, c)
      else
        bindE (if fsm c = TCP_S_SYN_SENT then sendSyn c
               else if fsm c = TCP_S_SYN_RCVD then sendSynAck (hooks alg) c
               else Inl (RuntimeError ''Internal error: SYN-REXMIT timer expired while in state'')) (\<lambda>c1.
        let timeout = min (2 * syn_rexmit_timeout c1) TCP_TIMEOUT_SYN_REXMIT_MAX in
        bindE (schedule (synRexmitTimer c1) (now c1 + timeout)) (\<lambda>t.
        Inr (TCP_E_IGNORE, c1\<lparr>syn_rexmit_timeout := timeout, synRexmitTimer := t\<rparr>))))"

text \<open>
  \<open>processTimer\<close>, called when the simulator delivers the message of a timer, which is then
  no longer scheduled. \<open>AlgTimer\<close> is a timer of the algorithm, which
  may turn the event \<open>TCP_E_IGNORE\<close> it is given into another.
\<close>

datatype tcp_timer = The2MSL | ConnEstab | FinWait2 | SynRexmit | AlgTimer alg_timer

definition process_timer_event ::
  "('a, 't) tcp_algorithm \<Rightarrow> tcp_timer \<Rightarrow> ('a, 't) tcp_conn \<Rightarrow> (tcp_event \<times> ('a, 't) tcp_conn) outcome" where
  "process_timer_event alg t c =
     (case t of
        The2MSL \<Rightarrow> bindE (process_TIMEOUT_2MSL (c\<lparr>the2MSLTimer := Idle\<rparr>)) (\<lambda>c'. Inr (TCP_E_TIMEOUT_2MSL, c'))
      | ConnEstab \<Rightarrow>
          bindE (process_TIMEOUT_CONN_ESTAB (c\<lparr>connEstabTimer := Idle\<rparr>)) (\<lambda>c'. Inr (TCP_E_TIMEOUT_CONN_ESTAB, c'))
      | FinWait2 \<Rightarrow>
          bindE (process_TIMEOUT_FIN_WAIT_2 (c\<lparr>finWait2Timer := Idle\<rparr>)) (\<lambda>c'. Inr (TCP_E_TIMEOUT_FIN_WAIT_2, c'))
      | SynRexmit \<Rightarrow> process_TIMEOUT_SYN_REXMIT alg (c\<lparr>synRexmitTimer := Idle\<rparr>)
      | AlgTimer x \<Rightarrow> algProcessTimer alg x c)"

definition processTimer ::
  "('a, 't) tcp_algorithm \<Rightarrow> tcp_timer \<Rightarrow> ('a, 't) tcp_conn \<Rightarrow> (bool \<times> ('a, 't) tcp_conn) outcome" where
  "processTimer alg t c =
     bindE (process_timer_event alg t c) (\<lambda>(e, c'). performStateTransition (connectionClosed alg) e c')"

end
