(* ===== verification/Tcp_Commands.thy ===== *)
theory Tcp_Commands
  imports Tcp_Segment
begin

text \<open>
  \<open>transportlayer/tcp/TcpConnectionEventProc.cc\<close> and the dispatch of application commands in
  \<open>TcpConnectionBase.cc\<close>: a new connection, the commands an application gives it, and what
  each of them does in every state.
\<close>

section \<open>A new connection\<close>

text \<open>
  The constructor of \<open>TcpStateVariables\<close> and \<open>TcpConnection::initConnection\<close>. The queues are
  created by the OPEN command; until then they are the empty ones.
\<close>

definition new_state_variables :: tcp_conn_ecn where
  "new_state_variables =
    \<lparr>active = False, fork = False, snd_mss = 0, snd_una = 0, snd_nxt = 0, snd_max = 0,
     snd_wnd = 0, snd_wl1 = 0, snd_wl2 = 0, iss = 0,
     rcv_nxt = 0, rcv_wnd = 0, irs = 0, rcv_adv = 0, syn_rexmit_count = 0,
     syn_rexmit_timeout = 0, fin_ack_rcvd = False, send_fin = False, snd_fin_seq = 0,
     fin_rcvd = False, rcv_fin_seq = 0, sentBytes = 0,
     nagle_enabled = False, delayed_acks_enabled = False, limited_transmit_enabled = False,
     increased_IW_enabled = False, full_sized_segment_counter = 0, ack_now = False,
     afterRto = False,
     ws_support = False, ws_enabled = False, ws_manual_scale = -1, snd_ws = False,
     rcv_ws = False, rcv_wnd_scale = 0, snd_wnd_scale = 0, ts_support = False,
     ts_enabled = False, snd_initial_ts = False, rcv_initial_ts = False, ts_recent = 0,
     last_ack_sent = 0, time_last_data_sent = 0,
     sack_support = False, sack_enabled = False, snd_sack_perm = False, rcv_sack_perm = False,
     start_seqno = 0, end_seqno = 0, snd_sack = False, snd_dsack = False, sacks_array = [],
     highRxt = 0, pipe = 0, recoveryPoint = 0, sackedBytes = 0, sackedBytes_old = 0,
     lossRecovery = False,
     sendQueueLimit = 0, queueUpdate = True, dupacks = 0, snd_sacks = 0, rcv_sacks = 0,
     rcv_oooseg = 0, rcv_naseg = 0, maxRcvBuffer = 0, usedRcvBuffer = 0, freeRcvBuffer = 0,
     tcpRcvQueueDrops = 0,
     ecnEchoState = False, sndCwr = False, gotEce = False, gotCeIndication = False,
     ect = False, endPointIsWillingECN = False, ecnSynSent = False, ecnWillingness = False,
     sndAck = False, rexmit = False\<rparr>"

definition new_connection :: "tcp_main \<Rightarrow> int \<Rightarrow> simtime \<Rightarrow> 't \<Rightarrow> ('a, 't) tcp_conn" where
  "new_connection main sid t alg_state =
     tcp_conn.extend
       (tcp_conn_mod.extend
         (tcp_conn_ecn.extend new_state_variables
           \<lparr>tcpMain = main, now = t, socketId = sid, listeningSocketId = -1,
            localAddr = None, remoteAddr = None, localPort = -1, remotePort = -1,
            conn_ttl = -1, conn_dscp = -1, conn_tos = -1, fsm = TCP_S_INIT\<rparr>)
         \<lparr>sendQueue = sendq_new, receiveQueue = recvq_new, rexmitQ = sq_new,
          the2MSLTimer = Idle, connEstabTimer = Idle, finWait2Timer = Idle,
          synRexmitTimer = Idle, outputs = [], algo = alg_state\<rparr>) ()"

section \<open>Commands\<close>

text \<open>
  \<open>tcpCommandCode\<close>s with what they carry. In an OPEN command an unspecified port is -1.
\<close>

datatype 'a app_command =
  TCP_C_OPEN_ACTIVE l3_address l3_address int int
  | TCP_C_OPEN_PASSIVE l3_address int bool
  | TCP_C_ACCEPT
  | TCP_C_SEND "'a list"
  | TCP_C_CLOSE
  | TCP_C_ABORT
  | TCP_C_DESTROY
  | TCP_C_STATUS
  | TCP_C_QUEUE_BYTES_LIMIT u32
  | TCP_C_READ
  | TCP_C_SET_TTL int
  | TCP_C_SET_TOS int
  | TCP_C_SET_DSCP int

fun preanalyseAppCommandEvent :: "'a app_command \<Rightarrow> tcp_event" where
  "preanalyseAppCommandEvent (TCP_C_OPEN_ACTIVE _ _ _ _) = TCP_E_OPEN_ACTIVE"
| "preanalyseAppCommandEvent (TCP_C_OPEN_PASSIVE _ _ _) = TCP_E_OPEN_PASSIVE"
| "preanalyseAppCommandEvent TCP_C_ACCEPT = TCP_E_ACCEPT"
| "preanalyseAppCommandEvent (TCP_C_SEND _) = TCP_E_SEND"
| "preanalyseAppCommandEvent TCP_C_CLOSE = TCP_E_CLOSE"
| "preanalyseAppCommandEvent TCP_C_ABORT = TCP_E_ABORT"
| "preanalyseAppCommandEvent TCP_C_DESTROY = TCP_E_DESTROY"
| "preanalyseAppCommandEvent TCP_C_STATUS = TCP_E_STATUS"
| "preanalyseAppCommandEvent (TCP_C_QUEUE_BYTES_LIMIT _) = TCP_E_QUEUE_BYTES_LIMIT"
| "preanalyseAppCommandEvent TCP_C_READ = TCP_E_READ"
| "preanalyseAppCommandEvent _ = TCP_E_SETOPTION"

text \<open>
  What \<open>Tcp\<close> does for a connection that opens: \<open>ephemeral\<close> is the port \<open>getEphemeralPort\<close>
  returns, and \<open>in_use\<close> tells whether \<open>addSockPair\<close> finds the pair of sockets taken.
\<close>

record open_services =
  ephemeral :: "int outcome"
  in_use :: "l3_address \<Rightarrow> l3_address \<Rightarrow> int \<Rightarrow> int \<Rightarrow> bool"

definition addSockPair_conn ::
  "open_services \<Rightarrow> l3_address \<Rightarrow> l3_address \<Rightarrow> int \<Rightarrow> int \<Rightarrow> ('a, 't) tcp_step" where
  "addSockPair_conn sv local remote lport rport c =
     (if in_use sv local remote lport rport then Inl (RuntimeError ''Address already in use'')
      else Inr (set_sock_pair local remote lport rport c))"

text \<open>The initial SYN with its two timers.\<close>

definition start_active_open :: "('a, 't) tcp_step" where
  "start_active_open c =
     bindE (sendSyn (selectInitialSeqNum c)) (\<lambda>c1.
     bindE (startSynRexmitTimer c1) (\<lambda>c2.
     bindE (schedule (connEstabTimer c2) (now c2 + TCP_TIMEOUT_CONN_ESTAB)) (\<lambda>t.
     Inr (c2\<lparr>connEstabTimer := t\<rparr>))))"

definition process_OPEN_ACTIVE ::
  "open_services \<Rightarrow> l3_address \<Rightarrow> l3_address \<Rightarrow> int \<Rightarrow> int \<Rightarrow> ('a, 't) tcp_step" where
  "process_OPEN_ACTIVE sv local remote lport rport c0 =
     (if fsm c0 \<noteq> TCP_S_INIT
      then Inl (RuntimeError ''Error processing command OPEN_ACTIVE: connection already exists'')
      else
        bindE (initConnection c0) (\<lambda>c1.
        if remote = None \<or> rport = -1
        then Inl (RuntimeError ''Error processing command OPEN_ACTIVE: remote address and port must be specified'')
        else
          bindE (if lport = -1 then ephemeral sv else Inr lport) (\<lambda>lport'.
          bindE (addSockPair_conn sv local remote lport' rport (c1\<lparr>active := True\<rparr>)) start_active_open)))"

definition process_OPEN_PASSIVE ::
  "open_services \<Rightarrow> l3_address \<Rightarrow> int \<Rightarrow> bool \<Rightarrow> ('a, 't) tcp_step" where
  "process_OPEN_PASSIVE sv local lport forking c0 =
     (if fsm c0 \<noteq> TCP_S_INIT
      then Inl (RuntimeError ''Error processing command OPEN_PASSIVE: connection already exists'')
      else
        bindE (initConnection c0) (\<lambda>c1.
        if lport = -1
        then Inl (RuntimeError ''Error processing command OPEN_PASSIVE: local port must be specified'')
        else addSockPair_conn sv local None lport (-1) (c1\<lparr>active := False, fork := forking\<rparr>)))"

definition process_ACCEPT :: "('a, 't) tcp_step" where
  "process_ACCEPT c =
     sendAvailableDataToApp (send_output ToAppEstablished (c\<lparr>listeningSocketId := -1\<rparr>))"

definition enqueue_data :: "'a list \<Rightarrow> ('a, 't) tcp_step" where
  "enqueue_data data c = bindE (enqueueAppData (sendQueue c) data) (\<lambda>q. Inr (c\<lparr>sendQueue := q\<rparr>))"

definition process_SEND :: "('a, 't) tcp_algorithm \<Rightarrow> 'a list \<Rightarrow> ('a, 't) tcp_step" where
  "process_SEND alg data c0 =
     bindE
       (if fsm c0 = TCP_S_INIT
        then Inl (RuntimeError ''Error processing command SEND: connection not open'')
        else if fsm c0 = TCP_S_LISTEN then
          bindE (start_active_open (c0\<lparr>active := True\<rparr>)) (enqueue_data data)
        else if fsm c0 \<in> {TCP_S_SYN_RCVD, TCP_S_SYN_SENT} then enqueue_data data c0
        else if fsm c0 \<in> {TCP_S_ESTABLISHED, TCP_S_CLOSE_WAIT} then
          bindE (enqueue_data data c0) (sendCommandInvoked alg)
        else if fsm c0 = TCP_S_CLOSED then Inr c0
        else Inl (RuntimeError ''Error processing command SEND: connection closing''))
       (\<lambda>c. Inr (if sendQueueLimit c > 0
                    \<and> getBytesAvailable (sendQueue c) (snd_una c) > unat (sendQueueLimit c)
                 then c\<lparr>queueUpdate := False\<rparr> else c))"

definition process_READ_REQUEST :: "('a, 't) tcp_step" where
  "process_READ_REQUEST c =
     (if isToBeAccepted c then Inl (RuntimeError ''READ without ACCEPT'')
      else extract_all (extraction_rounds c) c)"

text \<open>CLOSE may turn its event into IGNORE: the FIN then waits for the data.\<close>

definition process_CLOSE ::
  "('a, 't) tcp_algorithm \<Rightarrow> ('a, 't) tcp_conn \<Rightarrow> (tcp_event \<times> ('a, 't) tcp_conn) outcome" where
  "process_CLOSE alg c =
     (if fsm c \<in> {TCP_S_SYN_RCVD, TCP_S_ESTABLISHED, TCP_S_CLOSE_WAIT} then
        bindE
          (if snd_max c = q_end (sendQueue c) then
             bindE (sendFin (hooks alg) (c\<lparr>snd_nxt := snd_max c\<rparr>)) (\<lambda>c1.
             bindE (restartRexmitTimer alg c1) (\<lambda>c2.
             Inr (TCP_E_CLOSE, c2\<lparr>snd_nxt := snd_nxt c2 + 1, snd_max := snd_nxt c2 + 1\<rparr>)))
           else Inr (TCP_E_IGNORE, c))
          (\<lambda>(e, c'). Inr (e, c'\<lparr>send_fin := True, snd_fin_seq := q_end (sendQueue c')\<rparr>))
      else if fsm c \<in> {TCP_S_FIN_WAIT_1, TCP_S_FIN_WAIT_2, TCP_S_CLOSING, TCP_S_LAST_ACK, TCP_S_TIME_WAIT}
      then Inl (RuntimeError ''Duplicate CLOSE command: connection already closing'')
      else Inr (TCP_E_CLOSE, c))"

definition process_ABORT :: "('a, 't) tcp_step" where
  "process_ABORT c =
     (if fsm c = TCP_S_INIT
      then Inl (RuntimeError ''Error processing command ABORT: connection not open'')
      else if fsm c \<in> {TCP_S_SYN_RCVD, TCP_S_ESTABLISHED, TCP_S_FIN_WAIT_1, TCP_S_FIN_WAIT_2, TCP_S_CLOSE_WAIT}
      then Inr (sendRst (snd_nxt c) c)
      else Inr c)"

definition status_of :: "('a, 't) tcp_conn \<Rightarrow> status_info" where
  "status_of c =
     \<lparr>si_state = fsm c, si_localAddr = localAddr c, si_remoteAddr = remoteAddr c,
      si_localPort = localPort c, si_remotePort = remotePort c, si_snd_mss = snd_mss c,
      si_snd_una = snd_una c, si_snd_nxt = snd_nxt c, si_snd_max = snd_max c,
      si_snd_wnd = snd_wnd c, si_snd_wl1 = snd_wl1 c, si_snd_wl2 = snd_wl2 c, si_iss = iss c,
      si_rcv_nxt = rcv_nxt c, si_rcv_wnd = rcv_wnd c, si_irs = irs c,
      si_fin_ack_rcvd = fin_ack_rcvd c\<rparr>"

definition process_STATUS :: "('a, 't) tcp_step" where
  "process_STATUS c =
     (if fsm c = TCP_S_INIT
      then Inl (RuntimeError ''Error processing command STATUS: connection not open'')
      else Inr (send_output (ToAppStatus (status_of c)) c))"

fun process_command ::
  "('a, 't) tcp_algorithm \<Rightarrow> open_services \<Rightarrow> 'a app_command \<Rightarrow> ('a, 't) tcp_conn \<Rightarrow>
     (tcp_event \<times> ('a, 't) tcp_conn) outcome" where
  "process_command alg sv (TCP_C_OPEN_ACTIVE local remote lport rport) c =
     bindE (process_OPEN_ACTIVE sv local remote lport rport c) (\<lambda>c'. Inr (TCP_E_OPEN_ACTIVE, c'))"
| "process_command alg sv (TCP_C_OPEN_PASSIVE local lport forking) c =
     bindE (process_OPEN_PASSIVE sv local lport forking c) (\<lambda>c'. Inr (TCP_E_OPEN_PASSIVE, c'))"
| "process_command alg sv TCP_C_ACCEPT c = bindE (process_ACCEPT c) (\<lambda>c'. Inr (TCP_E_ACCEPT, c'))"
| "process_command alg sv (TCP_C_SEND data) c =
     bindE (process_SEND alg data c) (\<lambda>c'. Inr (TCP_E_SEND, c'))"
| "process_command alg sv TCP_C_CLOSE c = process_CLOSE alg c"
| "process_command alg sv TCP_C_ABORT c = bindE (process_ABORT c) (\<lambda>c'. Inr (TCP_E_ABORT, c'))"
| "process_command alg sv TCP_C_DESTROY c = Inr (TCP_E_DESTROY, c)"
| "process_command alg sv TCP_C_STATUS c = bindE (process_STATUS c) (\<lambda>c'. Inr (TCP_E_STATUS, c'))"
| "process_command alg sv (TCP_C_QUEUE_BYTES_LIMIT limit) c =
     Inr (TCP_E_QUEUE_BYTES_LIMIT, c\<lparr>sendQueueLimit := limit\<rparr>)"
| "process_command alg sv TCP_C_READ c = bindE (process_READ_REQUEST c) (\<lambda>c'. Inr (TCP_E_READ, c'))"
| "process_command alg sv (TCP_C_SET_TTL n) c = Inr (TCP_E_SETOPTION, c\<lparr>conn_ttl := n\<rparr>)"
| "process_command alg sv (TCP_C_SET_TOS n) c = Inr (TCP_E_SETOPTION, c\<lparr>conn_tos := n\<rparr>)"
| "process_command alg sv (TCP_C_SET_DSCP n) c = Inr (TCP_E_SETOPTION, c\<lparr>conn_dscp := n\<rparr>)"

definition processAppCommand ::
  "('a, 't) tcp_algorithm \<Rightarrow> open_services \<Rightarrow> 'a app_command \<Rightarrow> ('a, 't) tcp_conn \<Rightarrow>
     (bool \<times> ('a, 't) tcp_conn) outcome" where
  "processAppCommand alg sv cmd c =
     bindE (process_command alg sv cmd c) (\<lambda>(e, c').
     performStateTransition (connectionClosed alg) e c')"

section \<open>A connection for the examples\<close>

text \<open>
  A new connection of a module with the default parameters of \<open>Tcp.ned\<close>: advertised window of
  14 segments of 536 octets, no window scaling, no delayed acknowledgements, no timestamps and
  no SACK.
\<close>

definition example_main :: tcp_main where
  "example_main = \<lparr>par_advertisedWindow = 7504, par_windowScalingSupport = False,
     par_windowScalingFactor = -1, par_ecnWillingness = False, par_delayedAcksEnabled = False,
     par_nagleEnabled = True, par_limitedTransmitEnabled = False, par_increasedIWEnabled = False,
     par_mss = 536, par_timestampSupport = False, par_sackSupport = False,
     par_tcpAlgorithmClass = ''TcpReno'', useDataNotification = False, msl = seconds 120\<rparr>"

definition example_conn :: "'t \<Rightarrow> (char, 't) tcp_conn" where
  "example_conn t = (new_connection example_main 1 0 t)
     \<lparr>rcv_wnd := 7504, rcv_adv := 7504, maxRcvBuffer := 7504, snd_mss := 536, nagle_enabled := True\<rparr>"

lemma example_conn_eq:
  "configureStateVariables (new_connection example_main 1 0 t) = Inr (example_conn t)"
  by (simp add: configureStateVariables_def example_conn_def example_main_def new_connection_def
      new_state_variables_def tcp_conn.defs tcp_conn_mod.defs tcp_conn_ecn.defs TCP_MAX_WIN_def)

lemmas example_conn_defs =
  example_conn_def example_main_def new_connection_def new_state_variables_def
  tcp_conn.defs tcp_conn_mod.defs tcp_conn_ecn.defs sendq_new_def recvq_new_def sq_new_def

end
