(* ===== verification/Port_Search.thy ===== *)
theory Port_Search
  imports Inet_Prelude
begin

text \<open>
  The search for a free port of the ephemeral range, which \<open>Tcp::getEphemeralPort\<close> and
  \<open>Udp::getEphemeralPort\<close> do in the same way; what makes a port taken differs. The first argument of
  the loop bounds its rounds; a search that needs more rounds would be the value \<open>None\<close>.
\<close>

definition PORTRANGE_START :: u16 where "PORTRANGE_START = 1024"
definition PORTRANGE_END :: u16 where "PORTRANGE_END = 5000"

definition next_port :: "u16 \<Rightarrow> u16" where
  "next_port p = (let q = p + 1 in if q = PORTRANGE_END then PORTRANGE_START else q)"

fun search_port :: "nat \<Rightarrow> (u16 \<Rightarrow> bool) \<Rightarrow> u16 \<Rightarrow> u16 \<Rightarrow> u16 outcome option" where
  "search_port 0 taken searchUntil p = None"
| "search_port (Suc fuel) taken searchUntil p =
     (if taken p then
        if p = searchUntil then Some (Inl (RuntimeError ''Ephemeral port range exhausted, all ports occupied''))
        else search_port fuel taken searchUntil (next_port p)
      else Some (Inr p))"

definition port_rounds :: nat where "port_rounds = 3976"

section \<open>The range as a circle\<close>

definition port_at :: "nat \<Rightarrow> u16" where
  "port_at n = of_nat (1024 + n mod 3976)"

lemma unat_port_at [simp]: "unat (port_at n) = 1024 + n mod 3976"
proof -
  have "n mod 3976 < 3976" by simp
  then have "1024 + n mod 3976 < 2 ^ LENGTH(16)" by simp
  then show ?thesis unfolding port_at_def by (rule unat_of_nat_small)
qed

lemma port_at_eq_iff: "port_at i = port_at j \<longleftrightarrow> i mod 3976 = j mod 3976"
  by (simp add: word_unat_eq_iff)

lemma next_port_at: "next_port (port_at n) = port_at (Suc n)"
proof -
  have one: "port_at n + 1 = of_nat (1024 + n mod 3976 + 1)"
    by (simp add: port_at_def)
  have "n mod 3976 < 3976" by simp
  then have lt: "1024 + n mod 3976 + 1 < 2 ^ LENGTH(16)" by simp
  have u: "unat (port_at n + 1) = 1024 + n mod 3976 + 1"
    unfolding one using lt by (rule unat_of_nat_small)
  have wrap: "port_at n + 1 = PORTRANGE_END \<longleftrightarrow> n mod 3976 = 3975"
    by (simp add: word_unat_eq_iff u PORTRANGE_END_def)
  show ?thesis
    by (rule word_unat_eq_iff [THEN iffD2])
      (auto simp: next_port_def Let_def wrap u mod_Suc PORTRANGE_START_def)
qed

lemma port_at_range: "1024 \<le> unat (port_at n) \<and> unat (port_at n) < 5000"
proof -
  have "n mod 3976 < 3976" by simp
  then show ?thesis by simp
qed

lemma in_range_port_at:
  assumes "1024 \<le> unat p" and "unat p < 5000"
  shows "p = port_at (unat p - 1024)"
  using assms by (simp add: word_unat_eq_iff)

lemma mod_add_eq_self: "(a + d) mod n = a mod n \<longleftrightarrow> d mod n = (0::nat)"
proof -
  have "(a + d) mod n = a mod n \<longleftrightarrow> n dvd (a + d) - a"
    by (rule mod_eq_dvd_iff_nat) simp
  then show ?thesis by (simp add: mod_eq_0_iff_dvd)
qed

lemma port_at_round: "port_at (Suc u + j) = port_at u \<longleftrightarrow> Suc j mod 3976 = 0"
  using mod_add_eq_self [of u "Suc j" 3976] by (simp add: port_at_eq_iff)

lemma search_port_spec:
  assumes "j < 3976" and "3976 - j \<le> fuel"
    and "\<forall>i<j. taken (port_at (Suc u + i))"
  shows "(\<exists>k<3976. search_port fuel taken (port_at u) (port_at (Suc u + j)) = Some (Inr (port_at (Suc u + k)))
            \<and> \<not> taken (port_at (Suc u + k)) \<and> (\<forall>i<k. taken (port_at (Suc u + i))))
       \<or> ((\<forall>i<3976. taken (port_at (Suc u + i)))
          \<and> (\<exists>e. search_port fuel taken (port_at u) (port_at (Suc u + j)) = Some (Inl e)))"
  using assms
proof (induction fuel arbitrary: j)
  case 0
  then show ?case by simp
next
  case (Suc fuel)
  show ?case
  proof (cases "taken (port_at (Suc u + j))")
    case False
    then show ?thesis using Suc.prems by auto
  next
    case True
    have last: "port_at (Suc u + j) = port_at u \<longleftrightarrow> j = 3975"
      using Suc.prems(1) port_at_round [of u j] by (auto simp del: add_Suc simp: mod_Suc)
    show ?thesis
    proof (cases "j = 3975")
      case True': True
      have "\<forall>i<3976. taken (port_at (Suc u + i))"
      proof (intro allI impI)
        fix i :: nat
        assume "i < 3976"
        then have "i < j \<or> i = j" using True' by linarith
        then show "taken (port_at (Suc u + i))" using Suc.prems(3) True by blast
      qed
      moreover have "search_port (Suc fuel) taken (port_at u) (port_at (Suc u + j))
          = Some (Inl (RuntimeError ''Ephemeral port range exhausted, all ports occupied''))"
        using True last True' by simp
      ultimately show ?thesis by blast
    next
      case False
      have "search_port (Suc fuel) taken (port_at u) (port_at (Suc u + j))
              = search_port fuel taken (port_at u) (port_at (Suc u + Suc j))"
        using True False last by (simp add: next_port_at)
      moreover have "\<forall>i<Suc j. taken (port_at (Suc u + i))"
        using Suc.prems(3) True by (simp add: less_Suc_eq)
      moreover have "Suc j < 3976" and "3976 - Suc j \<le> fuel" using Suc.prems False by linarith+
      ultimately show ?thesis using Suc.IH [of "Suc j"] by simp
    qed
  qed
qed

text \<open>The search ends within one round of the range: with a free port or, exactly when there is none, an error.\<close>

lemma search_port_total:
  assumes "1024 \<le> unat start" and "unat start < 5000"
  shows "(\<exists>p. search_port port_rounds taken start (next_port start) = Some (Inr p)
            \<and> \<not> taken p \<and> 1024 \<le> unat p \<and> unat p < 5000)
       \<or> ((\<forall>p. 1024 \<le> unat p \<longrightarrow> unat p < 5000 \<longrightarrow> taken p)
          \<and> (\<exists>e. search_port port_rounds taken start (next_port start) = Some (Inl e)))"
proof -
  define u where "u = unat (start) - 1024"
  have u: "start = port_at u"
    unfolding u_def using assms by (rule in_range_port_at)
  have all: "\<exists>i<3976. p = port_at (Suc u + i)" if "1024 \<le> unat p" "unat p < 5000" for p
  proof -
    have p: "p = port_at (unat p - 1024)" using that by (rule in_range_port_at)
    have "u < 3976" "unat p - 1024 < 3976" using assms that by (auto simp: u_def)
    then have le: "Suc u \<le> unat p - 1024 + 3976" by linarith
    have "(Suc u + (unat p - 1024 + 3976 - Suc u) mod 3976) mod 3976
            = (Suc u + (unat p - 1024 + 3976 - Suc u)) mod 3976"
      by (rule mod_add_right_eq)
    also have "\<dots> = (unat p - 1024) mod 3976" using le by (simp del: add_Suc)
    finally have eq: "(Suc u + (unat p - 1024 + 3976 - Suc u) mod 3976) mod 3976 = (unat p - 1024) mod 3976" .
    have "port_at (unat p - 1024) = port_at (Suc u + (unat p - 1024 + 3976 - Suc u) mod 3976)"
      unfolding port_at_eq_iff by (rule eq [symmetric])
    then show ?thesis using p by (metis mod_less_divisor zero_less_numeral)
  qed
  show ?thesis
    using search_port_spec [where j = 0 and fuel = port_rounds and u = u and taken = taken] all
      port_at_range [of "Suc u + k" for k]
    by (auto simp: port_rounds_def u next_port_at)
qed

end
