(* ===== verification/Tcp_Demux.thy ===== *)
theory Tcp_Demux
  imports Tcp_Commands Port_Search "HOL-Library.Multiset"
begin

text \<open>
  \<open>transportlayer/tcp/Tcp.cc\<close>: the module that owns the connections. It finds the connection of
  a command by socket id and that of a segment by its pair of sockets, and hands out ephemeral
  ports. A connection is known by a reference (the C++ pointer); \<open>conn_of\<close> holds the fields of
  the connections that exist which the module reads and writes.
\<close>

section \<open>State and operations\<close>

record sock_pair =
  sp_localAddr :: l3_address
  sp_remoteAddr :: l3_address
  sp_localPort :: int
  sp_remotePort :: int

record conn_info =
  ci_socketId :: int
  ci_pair :: sock_pair

record tcp_module =
  tcpAppConnMap :: "int \<rightharpoonup> nat"
  tcpConnMap :: "sock_pair \<rightharpoonup> nat"
  lastEphemeralPort :: u16
  usedEphemeralPorts :: "u16 multiset"
  conn_of :: "nat \<rightharpoonup> conn_info"

definition mk_pair :: "l3_address \<Rightarrow> l3_address \<Rightarrow> int \<Rightarrow> int \<Rightarrow> sock_pair" where
  "mk_pair la ra lp rp =
     \<lparr>sp_localAddr = la, sp_remoteAddr = ra, sp_localPort = lp, sp_remotePort = rp\<rparr>"

definition tcp_reset :: tcp_module where
  "tcp_reset = \<lparr>tcpAppConnMap = Map.empty, tcpConnMap = Map.empty,
     lastEphemeralPort = PORTRANGE_START, usedEphemeralPorts = {#}, conn_of = Map.empty\<rparr>"

definition findConnForApp :: "tcp_module \<Rightarrow> int \<Rightarrow> nat option" where
  "findConnForApp m sid = tcpAppConnMap m sid"

text \<open>The connection of a command; \<open>fresh\<close> is the reference of a new connection module.\<close>

definition connection_for_command :: "nat \<Rightarrow> int \<Rightarrow> tcp_module \<Rightarrow> nat \<times> tcp_module" where
  "connection_for_command fresh sid m =
     (case findConnForApp m sid of
        Some r \<Rightarrow> (r, m)
      | None \<Rightarrow> (fresh, m\<lparr>tcpAppConnMap := (tcpAppConnMap m)(sid \<mapsto> fresh),
                         conn_of := (conn_of m)(fresh \<mapsto>
                           \<lparr>ci_socketId = sid, ci_pair = mk_pair None None (-1) (-1)\<rparr>)\<rparr>))"

definition findConnForSegment ::
  "tcp_module \<Rightarrow> int \<Rightarrow> int \<Rightarrow> l3_address \<Rightarrow> l3_address \<Rightarrow> nat option" where
  "findConnForSegment m srcP destP srcAddr destAddr =
     (case tcpConnMap m (mk_pair destAddr srcAddr destP srcP) of
        Some r \<Rightarrow> Some r
      | None \<Rightarrow>
     (case tcpConnMap m (mk_pair None srcAddr destP srcP) of
        Some r \<Rightarrow> Some r
      | None \<Rightarrow>
     (case tcpConnMap m (mk_pair destAddr None destP (-1)) of
        Some r \<Rightarrow> Some r
      | None \<Rightarrow> tcpConnMap m (mk_pair None None destP (-1)))))"

definition set_pair :: "nat \<Rightarrow> sock_pair \<Rightarrow> tcp_module \<Rightarrow> tcp_module" where
  "set_pair r k m =
     m\<lparr>conn_of := (conn_of m)(r := map_option (\<lambda>i. i\<lparr>ci_pair := k\<rparr>) (conn_of m r))\<rparr>"

definition addSockPair ::
  "nat \<Rightarrow> l3_address \<Rightarrow> l3_address \<Rightarrow> int \<Rightarrow> int \<Rightarrow> tcp_module \<Rightarrow> tcp_module outcome" where
  "addSockPair r la ra lp rp m =
     (let k = mk_pair la ra lp rp; m1 = set_pair r k m in
      if tcpConnMap m1 k \<noteq> None then Inl (RuntimeError ''Address already in use'')
      else
        Inr (m1\<lparr>tcpConnMap := (tcpConnMap m1)(k \<mapsto> r),
                usedEphemeralPorts :=
                  (if lp \<ge> uint PORTRANGE_START \<and> lp < uint PORTRANGE_END
                   then add_mset (word_of_int lp) (usedEphemeralPorts m1) else usedEphemeralPorts m1)\<rparr>))"

definition updateSockPair ::
  "nat \<Rightarrow> l3_address \<Rightarrow> l3_address \<Rightarrow> int \<Rightarrow> int \<Rightarrow> tcp_module \<Rightarrow> tcp_module outcome" where
  "updateSockPair r la ra lp rp m =
     (case conn_of m r of
        None \<Rightarrow> Inl AssertionFailed
      | Some i \<Rightarrow>
          bindE (assertE (tcpConnMap m (ci_pair i) = Some r)) (\<lambda>_.
          bindE (assertE (sp_localPort (ci_pair i) = lp)) (\<lambda>_.
          let k = mk_pair la ra lp rp in
          Inr ((set_pair r k m)\<lparr>tcpConnMap := ((tcpConnMap m)(ci_pair i := None))(k \<mapsto> r)\<rparr>))))"

text \<open>A forked connection already exists as a module; \<open>sid\<close> is its socket id.\<close>

definition addForkedConnection ::
  "nat \<Rightarrow> l3_address \<Rightarrow> l3_address \<Rightarrow> int \<Rightarrow> int \<Rightarrow> tcp_module \<Rightarrow> tcp_module outcome" where
  "addForkedConnection r la ra lp rp m =
     bindE (addSockPair r la ra lp rp m) (\<lambda>m1.
     case conn_of m1 r of
       None \<Rightarrow> Inl AssertionFailed
     | Some i \<Rightarrow> Inr (m1\<lparr>tcpAppConnMap := (tcpAppConnMap m1)(ci_socketId i \<mapsto> r)\<rparr>))"

definition removeConnection :: "nat \<Rightarrow> tcp_module \<Rightarrow> tcp_module" where
  "removeConnection r m =
     (case conn_of m r of
        None \<Rightarrow> m
      | Some i \<Rightarrow>
          m\<lparr>tcpAppConnMap := (tcpAppConnMap m)(ci_socketId i := None),
            tcpConnMap := (tcpConnMap m)(ci_pair i := None),
            usedEphemeralPorts := usedEphemeralPorts m - {#word_of_int (sp_localPort (ci_pair i))#},
            conn_of := (conn_of m)(r := None)\<rparr>)"

definition getEphemeralPort :: "tcp_module \<Rightarrow> (u16 \<times> tcp_module) outcome option" where
  "getEphemeralPort m =
     map_option (\<lambda>res. bindE res (\<lambda>p. Inr (p, m\<lparr>lastEphemeralPort := p\<rparr>)))
       (search_port port_rounds (\<lambda>p. p \<in># usedEphemeralPorts m) (lastEphemeralPort m)
          (next_port (lastEphemeralPort m)))"

section \<open>Properties\<close>



text \<open>
  The invariant of the tables. Every entry names an existing connection with that pair of
  sockets, or that socket id; and a port of the ephemeral range is held exactly as many times
  as there are registered connections with that local port.
\<close>

definition local_conns :: "tcp_module \<Rightarrow> int \<Rightarrow> sock_pair set" where
  "local_conns m n = {k \<in> dom (tcpConnMap m). sp_localPort k = n}"

definition valid_port :: "int \<Rightarrow> bool" where
  "valid_port n \<longleftrightarrow> -1 \<le> n \<and> n < 65536"

definition demux_inv :: "tcp_module \<Rightarrow> bool" where
  "demux_inv m \<longleftrightarrow>
     (\<forall>k r. tcpConnMap m k = Some r \<longrightarrow>
        (\<exists>i. conn_of m r = Some i \<and> ci_pair i = k \<and> valid_port (sp_localPort k)))
     \<and> (\<forall>sid r. tcpAppConnMap m sid = Some r \<longrightarrow> (\<exists>i. conn_of m r = Some i \<and> ci_socketId i = sid))
     \<and> finite (dom (tcpConnMap m))
     \<and> (\<forall>p. count (usedEphemeralPorts m) p =
          (if PORTRANGE_START \<le> p \<and> p < PORTRANGE_END then card (local_conns m (uint p)) else 0))"

text \<open>
  The operations as the connections use them: a command creates its connection; OPEN registers
  one that is in no table yet; a segment moves the connection that it was found for to the
  full pair of sockets, or forks a new one off it; a connection that reached CLOSED goes away.
\<close>

inductive demux_step :: "tcp_module \<Rightarrow> tcp_module \<Rightarrow> bool" where
  command: "conn_of m fresh = None \<Longrightarrow> connection_for_command fresh sid m = (r, m') \<Longrightarrow> demux_step m m'"
| port: "getEphemeralPort m = Some (Inr (p, m')) \<Longrightarrow> demux_step m m'"
| open_conn: "conn_of m r \<noteq> None \<Longrightarrow> r \<notin> ran (tcpConnMap m) \<Longrightarrow> valid_port lp \<Longrightarrow>
    addSockPair r la ra lp rp m = Inr m' \<Longrightarrow> demux_step m m'"
| arrive: "findConnForSegment m srcP destP src dest = Some r \<Longrightarrow>
    updateSockPair r dest src destP srcP m = Inr m' \<Longrightarrow> demux_step m m'"
| forking: "findConnForSegment m srcP destP src dest = Some r \<Longrightarrow> conn_of m fresh = None \<Longrightarrow>
    addForkedConnection fresh dest src destP srcP
      (m\<lparr>conn_of := (conn_of m)(fresh \<mapsto> \<lparr>ci_socketId = sid, ci_pair = k\<rparr>)\<rparr>) = Inr m' \<Longrightarrow>
    demux_step m m'"
| remove: "conn_of m r = Some i \<Longrightarrow>
    tcpConnMap m (ci_pair i) = Some r
      \<or> (tcpConnMap m (ci_pair i) = None \<and> sp_localPort (ci_pair i) = -1) \<Longrightarrow>
    demux_step m (removeConnection r m)"

inductive demux_reachable :: "tcp_module \<Rightarrow> bool" where
  start: "demux_reachable tcp_reset"
| step: "demux_reachable m \<Longrightarrow> demux_step m m' \<Longrightarrow> demux_reachable m'"

lemma demux_invD:
  "demux_inv m \<Longrightarrow> tcpConnMap m k = Some r \<Longrightarrow>
     \<exists>i. conn_of m r = Some i \<and> ci_pair i = k \<and> valid_port (sp_localPort k)"
  by (auto simp: demux_inv_def)

lemma demux_inv_appD:
  "demux_inv m \<Longrightarrow> tcpAppConnMap m sid = Some r \<Longrightarrow> \<exists>i. conn_of m r = Some i \<and> ci_socketId i = sid"
  unfolding demux_inv_def by blast

lemma demux_inv_finite: "demux_inv m \<Longrightarrow> finite (dom (tcpConnMap m))"
  by (simp add: demux_inv_def)

lemma demux_inv_count:
  "demux_inv m \<Longrightarrow> count (usedEphemeralPorts m) p =
     (if PORTRANGE_START \<le> p \<and> p < PORTRANGE_END then card (local_conns m (uint p)) else 0)"
  by (simp add: demux_inv_def)

lemma demux_inv_unregistered:
  "demux_inv m \<Longrightarrow> conn_of m r = None \<Longrightarrow> r \<notin> ran (tcpConnMap m) \<and> r \<notin> ran (tcpAppConnMap m)"
  by (fastforce simp: demux_inv_def ran_def)

text \<open>What a step does to the part of the invariant that counts ports.\<close>

lemma local_conns_cong [simp]:
  "local_conns (m\<lparr>conn_of := f\<rparr>) n = local_conns m n"
  "local_conns (m\<lparr>tcpAppConnMap := g\<rparr>) n = local_conns m n"
  "local_conns (m\<lparr>lastEphemeralPort := p\<rparr>) n = local_conns m n"
  "local_conns (m\<lparr>usedEphemeralPorts := u\<rparr>) n = local_conns m n"
  by (simp_all add: local_conns_def)

lemma finite_local_conns [simp]: "finite (dom (tcpConnMap m)) \<Longrightarrow> finite (local_conns m n)"
  by (simp add: local_conns_def)

lemma local_conns_add:
  "tcpConnMap m k = None \<Longrightarrow>
     local_conns (m\<lparr>tcpConnMap := (tcpConnMap m)(k \<mapsto> r)\<rparr>) n
       = (if sp_localPort k = n then insert k (local_conns m n) else local_conns m n)"
  by (auto simp: local_conns_def)

lemma local_conns_del:
  "local_conns (m\<lparr>tcpConnMap := (tcpConnMap m)(k := None)\<rparr>) n = local_conns m n - {k}"
  by (auto simp: local_conns_def)

lemma local_conns_move:
  "sp_localPort k = sp_localPort k' \<Longrightarrow>
     local_conns (m\<lparr>tcpConnMap := ((tcpConnMap m)(k := None))(k' \<mapsto> r)\<rparr>) n
       = (if sp_localPort k = n then insert k' (local_conns m n - {k}) else local_conns m n)"
  by (auto simp: local_conns_def)

lemma word_of_int_port:
  "0 \<le> n \<Longrightarrow> n < 65536 \<Longrightarrow> (word_of_int n :: u16) = p \<longleftrightarrow> n = uint p"
  by (auto simp: word_uint_eq_iff take_bit_eq_mod uint_word_of_int)

lemma uint_range_iff:
  "PORTRANGE_START \<le> p \<longleftrightarrow> uint PORTRANGE_START \<le> uint p"
  "p < PORTRANGE_END \<longleftrightarrow> uint p < uint PORTRANGE_END"
  by (simp_all add: word_le_def word_less_def)

lemma demux_invI:
  assumes "\<And>k r. tcpConnMap m k = Some r \<Longrightarrow> \<exists>i. conn_of m r = Some i \<and> ci_pair i = k \<and> valid_port (sp_localPort k)"
    and "\<And>sid r. tcpAppConnMap m sid = Some r \<Longrightarrow> \<exists>i. conn_of m r = Some i \<and> ci_socketId i = sid"
    and "finite (dom (tcpConnMap m))"
    and "\<And>p. count (usedEphemeralPorts m) p =
          (if PORTRANGE_START \<le> p \<and> p < PORTRANGE_END then card (local_conns m (uint p)) else 0)"
  shows "demux_inv m"
  using assms by (simp add: demux_inv_def)

lemma addSockPair_inv:
  assumes inv: "demux_inv m" and r: "conn_of m r = Some i" "r \<notin> ran (tcpConnMap m)"
    and lp: "valid_port lp" and add: "addSockPair r la ra lp rp m = Inr m'"
  shows "demux_inv m' \<and> conn_of m' r = Some (i\<lparr>ci_pair := mk_pair la ra lp rp\<rparr>)"
proof -
  let ?k = "mk_pair la ra lp rp"
  let ?m = "(set_pair r ?k m)\<lparr>tcpConnMap := (tcpConnMap m)(?k \<mapsto> r)\<rparr>"
  have free: "tcpConnMap m ?k = None" and m': "m' = ?m\<lparr>usedEphemeralPorts :=
      (if lp \<ge> uint PORTRANGE_START \<and> lp < uint PORTRANGE_END
       then add_mset (word_of_int lp) (usedEphemeralPorts m) else usedEphemeralPorts m)\<rparr>"
    using add by (auto simp: addSockPair_def Let_def set_pair_def split: if_splits)
  have k: "sp_localPort ?k = lp" by (simp add: mk_pair_def)
  have lc: "local_conns m' n = (if lp = n then insert ?k (local_conns m n) else local_conns m n)" for n
    using free k by (auto simp: m' local_conns_def set_pair_def)
  have new: "?k \<notin> local_conns m n" for n using free by (auto simp: local_conns_def)
  have "demux_inv m'"
  proof (rule demux_invI)
    fix k r' assume "tcpConnMap m' k = Some r'"
    then show "\<exists>i. conn_of m' r' = Some i \<and> ci_pair i = k \<and> valid_port (sp_localPort k)"
      using r lp k inv
      by (auto simp: m' set_pair_def demux_inv_def ranI split: if_splits)
  next
    fix sid r' assume "tcpAppConnMap m' sid = Some r'"
    then show "\<exists>i. conn_of m' r' = Some i \<and> ci_socketId i = sid"
      using inv r by (fastforce simp: m' set_pair_def demux_inv_def)
  next
    show "finite (dom (tcpConnMap m'))" using inv by (simp add: m' set_pair_def demux_inv_def)
  next
    fix p :: u16
    have fin: "finite (local_conns m n)" for n using inv by (simp add: demux_inv_def)
    have "valid_port lp \<Longrightarrow> uint PORTRANGE_START \<le> lp \<Longrightarrow> (word_of_int lp = p) = (lp = uint p)"
      by (rule word_of_int_port) (auto simp: valid_port_def PORTRANGE_START_def)
    then show "count (usedEphemeralPorts m') p =
        (if PORTRANGE_START \<le> p \<and> p < PORTRANGE_END then card (local_conns m' (uint p)) else 0)"
      using inv lp lc [of "uint p"] new [of "uint p"] fin [of "uint p"]
      by (auto simp: m' demux_inv_def uint_range_iff)
  qed
  moreover have "conn_of m' r = Some (i\<lparr>ci_pair := ?k\<rparr>)"
    using r by (simp add: m' set_pair_def)
  ultimately show ?thesis by blast
qed

lemma updateSockPair_inv:
  assumes inv: "demux_inv m" and r: "conn_of m r = Some i" "tcpConnMap m (ci_pair i) = Some r"
    and lp: "sp_localPort (ci_pair i) = lp"
    and free: "tcpConnMap m (mk_pair la ra lp rp) \<in> {None, Some r}"
  shows "\<exists>m'. updateSockPair r la ra lp rp m = Inr m' \<and> demux_inv m'
    \<and> tcpConnMap m' = ((tcpConnMap m)(ci_pair i := None))(mk_pair la ra lp rp \<mapsto> r)"
proof -
  let ?k = "mk_pair la ra lp rp"
  define m' where "m' = (set_pair r ?k m)\<lparr>tcpConnMap := ((tcpConnMap m)(ci_pair i := None))(?k \<mapsto> r)\<rparr>"
  have upd: "updateSockPair r la ra lp rp m = Inr m'"
    using r lp by (simp add: updateSockPair_def m'_def Let_def)
  have k: "sp_localPort ?k = lp" by (simp add: mk_pair_def)
  have other: "r' \<noteq> r" if "tcpConnMap m k' = Some r'" "k' \<noteq> ci_pair i" for k' r'
    using demux_invD [OF inv that(1)] r that(2) by auto
  have same: "?k = ci_pair i \<or> tcpConnMap m ?k = None"
    using free other [of ?k r] by auto
  have lc: "local_conns m' n = (if lp = n then insert ?k (local_conns m n - {ci_pair i}) else local_conns m n)" for n
    using k lp by (auto simp: m'_def local_conns_def set_pair_def)
  have "demux_inv m'"
  proof (rule demux_invI)
    fix k' r' assume a: "tcpConnMap m' k' = Some r'"
    show "\<exists>i. conn_of m' r' = Some i \<and> ci_pair i = k' \<and> valid_port (sp_localPort k')"
    proof (cases "k' = ?k")
      case True
      have "valid_port lp" using demux_invD [OF inv r(2)] lp by auto
      then show ?thesis using True a r k by (simp add: m'_def set_pair_def)
    next
      case False
      then have "tcpConnMap m k' = Some r'" "k' \<noteq> ci_pair i"
        using a by (auto simp: m'_def set_pair_def split: if_splits)
      then show ?thesis using demux_invD [OF inv, of k' r'] other [of k' r']
        by (auto simp: m'_def set_pair_def)
    qed
  next
    fix sid r' assume "tcpAppConnMap m' sid = Some r'"
    then have "tcpAppConnMap m sid = Some r'" by (simp add: m'_def set_pair_def)
    then show "\<exists>i. conn_of m' r' = Some i \<and> ci_socketId i = sid"
      using demux_inv_appD [OF inv, of sid r'] r by (auto simp: m'_def set_pair_def)
  next
    show "finite (dom (tcpConnMap m'))"
      using demux_inv_finite [OF inv] by (simp add: m'_def set_pair_def)
  next
    fix p :: u16
    have fin: "finite (local_conns m n)" for n using demux_inv_finite [OF inv] by simp
    have "card (local_conns m' n) = card (local_conns m n)" for n
    proof (cases "lp = n")
      case True
      then have in_old: "ci_pair i \<in> local_conns m n" using r lp by (auto simp: local_conns_def)
      have out: "?k \<notin> local_conns m n - {ci_pair i}" using same by (auto simp: local_conns_def)
      have "card (local_conns m' n) = Suc (card (local_conns m n - {ci_pair i}))"
        using True lc [of n] out fin [of n] by simp
      also have "\<dots> = card (local_conns m n)"
        using in_old fin [of n] by (metis card_Suc_Diff1)
      finally show ?thesis .
    qed (simp add: lc)
    then show "count (usedEphemeralPorts m') p =
        (if PORTRANGE_START \<le> p \<and> p < PORTRANGE_END then card (local_conns m' (uint p)) else 0)"
      using demux_inv_count [OF inv, of p] by (simp add: m'_def set_pair_def)
  qed
  then show ?thesis using upd by (auto simp: m'_def)
qed

lemma removeConnection_inv:
  assumes inv: "demux_inv m" and r: "conn_of m r = Some i"
    and reg: "tcpConnMap m (ci_pair i) = Some r
      \<or> (tcpConnMap m (ci_pair i) = None \<and> sp_localPort (ci_pair i) = -1)"
  shows "demux_inv (removeConnection r m)"
proof -
  define m' where "m' = removeConnection r m"
  let ?k = "ci_pair i"
  have other: "r' \<noteq> r" if "tcpConnMap m k' = Some r'" "k' \<noteq> ?k" for k' r'
    using demux_invD [OF inv that(1)] r that(2) by auto
  have lc: "local_conns m' n = local_conns m n - {?k}" for n
    using r by (auto simp: m'_def removeConnection_def local_conns_def)
  have "demux_inv m'"
  proof (rule demux_invI)
    fix k' r' assume "tcpConnMap m' k' = Some r'"
    then have "tcpConnMap m k' = Some r'" "k' \<noteq> ?k"
      using r by (auto simp: m'_def removeConnection_def split: if_splits)
    then show "\<exists>i. conn_of m' r' = Some i \<and> ci_pair i = k' \<and> valid_port (sp_localPort k')"
      using demux_invD [OF inv, of k' r'] other [of k' r'] r
      by (auto simp: m'_def removeConnection_def)
  next
    fix sid r' assume "tcpAppConnMap m' sid = Some r'"
    then have "tcpAppConnMap m sid = Some r'" "sid \<noteq> ci_socketId i"
      using r by (auto simp: m'_def removeConnection_def split: if_splits)
    then show "\<exists>i. conn_of m' r' = Some i \<and> ci_socketId i = sid"
      using demux_inv_appD [OF inv, of sid r'] r by (auto simp: m'_def removeConnection_def)
  next
    show "finite (dom (tcpConnMap m'))"
      using demux_inv_finite [OF inv] r by (simp add: m'_def removeConnection_def)
  next
    fix p :: u16
    have fin: "finite (local_conns m n)" for n using demux_inv_finite [OF inv] by simp
    have cnt: "count (usedEphemeralPorts m) p =
        (if PORTRANGE_START \<le> p \<and> p < PORTRANGE_END then card (local_conns m (uint p)) else 0)"
      by (rule demux_inv_count [OF inv])
    have used: "usedEphemeralPorts m' = usedEphemeralPorts m - {#word_of_int (sp_localPort ?k)#}"
      using r by (simp add: m'_def removeConnection_def)
    show "count (usedEphemeralPorts m') p =
        (if PORTRANGE_START \<le> p \<and> p < PORTRANGE_END then card (local_conns m' (uint p)) else 0)"
    proof (cases "?k \<in> local_conns m (uint p)")
      case True
      then have "word_of_int (sp_localPort ?k) = p" by (simp add: local_conns_def)
      then show ?thesis using cnt True fin [of "uint p"] by (simp add: used lc)
    next
      case False
      have "count (usedEphemeralPorts m') p = count (usedEphemeralPorts m) p"
      proof (cases "word_of_int (sp_localPort ?k) = p")
        case eq: True
        have "\<not> (PORTRANGE_START \<le> p \<and> p < PORTRANGE_END)"
        proof
          assume range: "PORTRANGE_START \<le> p \<and> p < PORTRANGE_END"
          have "sp_localPort ?k \<noteq> -1"
            using eq range by (auto simp: PORTRANGE_END_def word_less_nat_alt unsigned_minus_1_eq_mask mask_eq_exp_minus_1)
          then have dom: "tcpConnMap m ?k = Some r" using reg by blast
          then have "valid_port (sp_localPort ?k)" using demux_invD [OF inv] by blast
          then have "sp_localPort ?k = uint p"
            using eq \<open>sp_localPort ?k \<noteq> -1\<close> word_of_int_port [of "sp_localPort ?k" p]
            by (auto simp: valid_port_def)
          then show False using False dom by (auto simp: local_conns_def)
        qed
        then have "count (usedEphemeralPorts m) p = 0" using cnt by auto
        then show ?thesis by (simp add: used)
      qed (simp add: used)
      then show ?thesis using cnt False by (simp add: lc)
    qed
  qed
  then show ?thesis by (simp add: m'_def)
qed

lemma addForkedConnection_inv:
  assumes "demux_inv m" and "conn_of m r = Some i" and "r \<notin> ran (tcpConnMap m)"
    and "valid_port lp" and "addForkedConnection r la ra lp rp m = Inr m'"
  shows "demux_inv m'"
proof -
  obtain m1 where m1: "addSockPair r la ra lp rp m = Inr m1"
    using assms(5) by (auto simp: addForkedConnection_def bindE_eq_Inr_iff)
  have inv: "demux_inv m1" and r: "conn_of m1 r = Some (i\<lparr>ci_pair := mk_pair la ra lp rp\<rparr>)"
    using addSockPair_inv [OF assms(1-4) m1] by auto
  have "m' = m1\<lparr>tcpAppConnMap := (tcpAppConnMap m1)(ci_socketId i \<mapsto> r)\<rparr>"
    using assms(5) m1 r by (simp add: addForkedConnection_def)
  then show ?thesis using inv r by (auto simp: demux_inv_def local_conns_def)
qed

lemma new_module_inv:
  assumes "demux_inv m" and "conn_of m r = None"
  shows "demux_inv (m\<lparr>conn_of := (conn_of m)(r \<mapsto> i)\<rparr>)"
  using assms demux_inv_unregistered [OF assms] by (auto simp: demux_inv_def local_conns_def ranI)

text \<open>The pair of sockets under which a connection is found has the segment's local port.\<close>

lemma found_pair:
  assumes inv: "demux_inv m" and found: "findConnForSegment m srcP destP src dest = Some r"
  obtains i where "conn_of m r = Some i" "tcpConnMap m (ci_pair i) = Some r"
    "sp_localPort (ci_pair i) = destP" "valid_port destP"
    "tcpConnMap m (mk_pair dest src destP srcP) \<in> {None, Some r}"
proof -
  obtain k where k: "tcpConnMap m k = Some r" "sp_localPort k = destP"
      "tcpConnMap m (mk_pair dest src destP srcP) \<in> {None, Some r}"
    using found by (auto simp: findConnForSegment_def mk_pair_def split: option.splits)
  show thesis using demux_invD [OF inv k(1)] k that by auto
qed

lemma demux_step_inv: "demux_step m m' \<Longrightarrow> demux_inv m \<Longrightarrow> demux_inv m'"
proof (induction rule: demux_step.induct)
  case (command m fresh sid r m')
  show ?case
  proof (cases "tcpAppConnMap m sid")
    case None
    have un: "fresh \<notin> ran (tcpConnMap m)" "fresh \<notin> ran (tcpAppConnMap m)"
      using demux_inv_unregistered [OF command.prems command.hyps(1)] by auto
    have m': "m' = m\<lparr>tcpAppConnMap := (tcpAppConnMap m)(sid \<mapsto> fresh), conn_of := (conn_of m)(fresh \<mapsto>
        \<lparr>ci_socketId = sid, ci_pair = mk_pair None None (-1) (-1)\<rparr>)\<rparr>"
      using command.hyps(2) None by (auto simp: connection_for_command_def findConnForApp_def)
    show ?thesis using command.prems un by (auto simp: m' demux_inv_def local_conns_def ranI)
  qed (use command in \<open>simp add: connection_for_command_def findConnForApp_def\<close>)
next
  case (port m p m')
  then show ?case
    by (auto simp: getEphemeralPort_def bindE_eq_Inr_iff demux_inv_def local_conns_def)
next
  case (open_conn m r lp la ra rp m')
  then show ?case using addSockPair_inv by blast
next
  case (arrive m srcP destP src dest r m')
  obtain i where i: "conn_of m r = Some i" "tcpConnMap m (ci_pair i) = Some r"
      "sp_localPort (ci_pair i) = destP" "tcpConnMap m (mk_pair dest src destP srcP) \<in> {None, Some r}"
    by (rule found_pair [OF arrive.prems arrive.hyps(1)])
  show ?case using updateSockPair_inv [OF arrive.prems i] arrive.hyps(2) by auto
next
  case (forking m srcP destP src dest r fresh sid k m')
  let ?m = "m\<lparr>conn_of := (conn_of m)(fresh \<mapsto> \<lparr>ci_socketId = sid, ci_pair = k\<rparr>)\<rparr>"
  have un: "fresh \<notin> ran (tcpConnMap m)" "fresh \<notin> ran (tcpAppConnMap m)"
    using demux_inv_unregistered [OF forking.prems forking.hyps(2)] by auto
  have "demux_inv ?m" by (rule new_module_inv [OF forking.prems forking.hyps(2)])
  moreover have "valid_port destP" by (rule found_pair [OF forking.prems forking.hyps(1)])
  ultimately show ?case
    using addForkedConnection_inv [of ?m fresh _ destP dest src srcP m'] un forking.hyps(3) by auto
next
  case (remove m r i)
  then show ?case using removeConnection_inv by blast
qed

lemma demux_reachable_inv: "demux_reachable m \<Longrightarrow> demux_inv m"
proof (induction rule: demux_reachable.induct)
  case start
  show ?case by (simp add: demux_inv_def tcp_reset_def local_conns_def)
qed (rule demux_step_inv)

text \<open>C7. However commands, segments and closing connections follow one another: the connection
  that a segment is delivered to exists and has the segment's local port; no two pairs of
  sockets lead to the same connection; and a port of the ephemeral range is marked as used as
  often as there are registered connections on it, and so is free again with the last of them.\<close>

theorem demux_tables_consistent:
  assumes "demux_reachable m"
  shows "(\<forall>srcP destP src dest r. findConnForSegment m srcP destP src dest = Some r \<longrightarrow>
           (\<exists>i. conn_of m r = Some i \<and> tcpConnMap m (ci_pair i) = Some r \<and> sp_localPort (ci_pair i) = destP))
    \<and> (\<forall>k k' r. tcpConnMap m k = Some r \<longrightarrow> tcpConnMap m k' = Some r \<longrightarrow> k = k')
    \<and> (\<forall>p. PORTRANGE_START \<le> p \<longrightarrow> p < PORTRANGE_END \<longrightarrow>
           count (usedEphemeralPorts m) p = card {k \<in> dom (tcpConnMap m). sp_localPort k = uint p})"
proof (intro conjI allI impI)
  have inv: "demux_inv m" by (rule demux_reachable_inv [OF assms])
  show "\<exists>i. conn_of m r = Some i \<and> tcpConnMap m (ci_pair i) = Some r \<and> sp_localPort (ci_pair i) = destP"
    if "findConnForSegment m srcP destP src dest = Some r" for srcP destP src dest r
    by (rule found_pair [OF inv that]) blast
  show "k = k'" if "tcpConnMap m k = Some r" "tcpConnMap m k' = Some r" for k k' r
    using demux_invD [OF inv that(1)] demux_invD [OF inv that(2)] by auto
  show "count (usedEphemeralPorts m) p = card {k \<in> dom (tcpConnMap m). sp_localPort k = uint p}"
    if "PORTRANGE_START \<le> p" "p < PORTRANGE_END" for p
    using demux_inv_count [OF inv, of p] that by (simp add: local_conns_def)
qed

text \<open>A module with one listener, on port 1025 of every address.\<close>

definition demo_listening :: tcp_module where
  "demo_listening = tcp_reset
     \<lparr>tcpAppConnMap := [7 \<mapsto> 0], tcpConnMap := [mk_pair None None 1025 (-1) \<mapsto> 0],
      usedEphemeralPorts := {#1025#},
      conn_of := [0 \<mapsto> \<lparr>ci_socketId = 7, ci_pair = mk_pair None None 1025 (-1)\<rparr>]\<rparr>"

lemma demo_listening_reachable: "demux_reachable demo_listening"
proof -
  define m1 where "m1 = snd (connection_for_command 0 7 tcp_reset)"
  have m1: "m1 = tcp_reset\<lparr>tcpAppConnMap := [7 \<mapsto> 0],
      conn_of := [0 \<mapsto> \<lparr>ci_socketId = 7, ci_pair = mk_pair None None (-1) (-1)\<rparr>]\<rparr>"
    by (simp add: m1_def connection_for_command_def findConnForApp_def tcp_reset_def)
  have "demux_step tcp_reset m1"
    by (rule demux_step.command [of _ 0 7 0])
      (simp_all add: m1_def connection_for_command_def findConnForApp_def tcp_reset_def)
  moreover have "demux_step m1 demo_listening"
    by (rule demux_step.open_conn [of _ 0 1025 None None "-1"])
      (simp_all add: m1 tcp_reset_def valid_port_def addSockPair_def Let_def set_pair_def
        demo_listening_def PORTRANGE_START_def PORTRANGE_END_def)
  ultimately show ?thesis
    using demux_reachable.start demux_reachable.step by blast
qed

theorem demux_tables_consistent_witness:
  "count (usedEphemeralPorts demo_listening) 1025
     = card {k \<in> dom (tcpConnMap demo_listening). sp_localPort k = uint (1025::u16)}"
  using demux_tables_consistent [OF demo_listening_reachable]
  by (simp add: PORTRANGE_START_def PORTRANGE_END_def)

text \<open>A segment for a forking listener makes a connection with the full pair of sockets,
  without disturbing the listener: the registration succeeds, the next segment from that peer
  is delivered to the new connection, and one from elsewhere still to where it went before.\<close>

theorem forked_connection_takes_over:
  assumes inv: "demux_inv m"
    and found: "findConnForSegment m srcP destP src dest = Some r"
    and listening: "conn_of m r = Some i" "sp_remoteAddr (ci_pair i) = None"
    and src: "src \<noteq> None" "srcP \<noteq> -1"
    and fresh: "conn_of m fresh = Some j" "fresh \<notin> ran (tcpConnMap m)"
  shows "\<exists>m'. addForkedConnection fresh dest src destP srcP m = Inr m'
    \<and> demux_inv m' \<and> findConnForSegment m' srcP destP src dest = Some fresh
    \<and> (\<forall>src' srcP' dest' destP'. (src', srcP', dest', destP') \<noteq> (src, srcP, dest, destP) \<longrightarrow> dest \<noteq> None \<longrightarrow>
         src' \<noteq> None \<longrightarrow> findConnForSegment m' srcP' destP' src' dest'
           = findConnForSegment m srcP' destP' src' dest')"
proof -
  let ?k = "mk_pair dest src destP srcP"
  obtain l where l: "conn_of m r = Some l" "tcpConnMap m (ci_pair l) = Some r" "valid_port destP"
      "tcpConnMap m ?k \<in> {None, Some r}"
    by (rule found_pair [OF inv found])
  have "tcpConnMap m ?k \<noteq> Some r"
    using demux_invD [OF inv, of ?k r] listening src(1) by (auto simp: mk_pair_def)
  then have free: "tcpConnMap m ?k = None" using l(4) by simp
  obtain m1 where m1: "addSockPair fresh dest src destP srcP m = Inr m1"
    using free by (auto simp: addSockPair_def Let_def set_pair_def)
  have "conn_of m1 fresh = Some (j\<lparr>ci_pair := ?k\<rparr>)"
    using addSockPair_inv [OF inv fresh l(3) m1] by blast
  then obtain m' where m': "addForkedConnection fresh dest src destP srcP m = Inr m'"
      "tcpConnMap m' = (tcpConnMap m)(?k \<mapsto> fresh)"
    using m1 free by (auto simp: addForkedConnection_def addSockPair_def Let_def set_pair_def)
  have "demux_inv m'" by (rule addForkedConnection_inv [OF inv fresh l(3) m'(1)])
  moreover have "findConnForSegment m' srcP destP src dest = Some fresh"
    by (simp add: findConnForSegment_def m'(2))
  moreover have "findConnForSegment m' srcP' destP' src' dest' = findConnForSegment m srcP' destP' src' dest'"
    if "(src', srcP', dest', destP') \<noteq> (src, srcP, dest, destP)" "dest \<noteq> None" "src' \<noteq> None"
    for src' srcP' dest' destP'
    using that src by (auto simp: findConnForSegment_def m'(2) mk_pair_def split: option.splits)
  ultimately show ?thesis using m'(1) by blast
qed

theorem forked_connection_takes_over_witness:
  "\<exists>m'. addForkedConnection 1 (Some 1) (Some 2) 1025 3000
          (demo_listening\<lparr>conn_of := (conn_of demo_listening)(1 \<mapsto>
             \<lparr>ci_socketId = 8, ci_pair = mk_pair None None 1025 (-1)\<rparr>)\<rparr>) = Inr m'
     \<and> findConnForSegment m' 3000 1025 (Some 2) (Some 1) = Some 1"
proof -
  let ?m = "demo_listening\<lparr>conn_of := (conn_of demo_listening)(1 \<mapsto>
      \<lparr>ci_socketId = 8, ci_pair = mk_pair None None 1025 (-1)\<rparr>)\<rparr>"
  have inv: "demux_inv ?m"
    by (rule new_module_inv [OF demux_reachable_inv [OF demo_listening_reachable]])
      (simp add: demo_listening_def)
  show ?thesis
    using forked_connection_takes_over [OF inv, of 3000 1025 "Some 2" "Some 1" 0
        "\<lparr>ci_socketId = 7, ci_pair = mk_pair None None 1025 (-1)\<rparr>" 1
        "\<lparr>ci_socketId = 8, ci_pair = mk_pair None None 1025 (-1)\<rparr>"]
    by (auto simp: demo_listening_def tcp_reset_def findConnForSegment_def mk_pair_def)
qed

end
