(* ===== verification/Dumb_Tcp.thy ===== *)
theory Dumb_Tcp
  imports Tcp_Commands
begin

text \<open>
  \<open>transportlayer/tcp/flavours/DumbTcp.cc\<close>: the algorithm without congestion control. Its
  state is its retransmission timer. The first four functions are the ones the output
  functions call back, so the others can be given on top of them.
\<close>

section \<open>Operations\<close>

record dumb_state =
  rexmitTimer :: timer

definition REXMIT_TIMEOUT :: simtime where "REXMIT_TIMEOUT = seconds 2"

definition dumb_init :: dumb_state where
  "dumb_init = \<lparr>rexmitTimer = Idle\<rparr>"

definition schedule_rexmit :: "('a, dumb_state) tcp_step" where
  "schedule_rexmit c =
     bindE (schedule (rexmitTimer (algo c)) (now c + REXMIT_TIMEOUT))
       (\<lambda>t. Inr (c\<lparr>algo := (algo c)\<lparr>rexmitTimer := t\<rparr>\<rparr>))"

definition cancel_rexmit :: "('a, dumb_state) tcp_conn \<Rightarrow> ('a, dumb_state) tcp_conn" where
  "cancel_rexmit c = c\<lparr>algo := (algo c)\<lparr>rexmitTimer := cancelIfThere (rexmitTimer (algo c))\<rparr>\<rparr>"

definition dumb_dataSent :: "u32 \<Rightarrow> ('a, dumb_state) tcp_step" where
  "dumb_dataSent fromseq c =
     schedule_rexmit (if isScheduled (rexmitTimer (algo c)) then cancel_rexmit c else c)"

definition dumb_hooks :: "('a, dumb_state) alg_hooks" where
  "dumb_hooks = \<lparr>ackSent = Inr, dataSent = dumb_dataSent, segmentRetransmitted = (\<lambda>_ _. Inr),
     restartRexmitTimer = Inr\<rparr>"

definition send_window_full :: "('a, dumb_state) tcp_step" where
  "send_window_full c = bindE (sendData dumb_hooks False 65535 c) (\<lambda>(_, c'). Inr c')"

definition dumb_established :: "bool \<Rightarrow> ('a, dumb_state) tcp_step" where
  "dumb_established act c =
     (if act then
        bindE (sendData dumb_hooks False 65535 c) (\<lambda>(sent, c').
        if sent then Inr c' else sendAck dumb_hooks c')
      else Inr c)"

definition dumb_connectionClosed :: "('a, dumb_state) tcp_step" where
  "dumb_connectionClosed c = Inr (cancel_rexmit c)"

text \<open>\<open>processTimer\<close>: the simulator has taken the message of the timer out of its queue.\<close>

definition dumb_processTimer ::
  "alg_timer \<Rightarrow> ('a, dumb_state) tcp_conn \<Rightarrow> (tcp_event \<times> ('a, dumb_state) tcp_conn) outcome" where
  "dumb_processTimer x c =
     (if x \<noteq> RexmitTimer then Inl (RuntimeError ''unrecognized timer'')
      else
        bindE (retransmitData dumb_hooks (c\<lparr>algo := (algo c)\<lparr>rexmitTimer := Idle\<rparr>\<rparr>)) (\<lambda>c1.
        bindE (schedule_rexmit c1) (\<lambda>c2. Inr (TCP_E_IGNORE, c2))))"

definition dumb_tcp :: "('a, dumb_state) tcp_algorithm" where
  "dumb_tcp = alg_hooks.extend dumb_hooks
     \<lparr>established = dumb_established, connectionClosed = dumb_connectionClosed,
      sendCommandInvoked = send_window_full,
      receivedOutOfOrderSegment = sendAck dumb_hooks,
      receiveSeqChanged = sendAck dumb_hooks,
      receivedDataAck = (\<lambda>_. send_window_full),
      receivedDuplicateAck = Inr,
      receivedAckForDataNotYetSent = (\<lambda>_. sendAck dumb_hooks),
      rttMeasurementCompleteUsingTS = (\<lambda>_. Inr),
      algProcessTimer = dumb_processTimer\<rparr>"

end
