(* ===== verification/Tcp_Window_Laws.thy ===== *)
theory Tcp_Window_Laws
  imports Tcp_Commands
begin

text \<open>
  What the receive window promises and what it admits: \<open>updateRcvWnd\<close>,
  \<open>hasEnoughSpaceForSegmentInReceiveQueue\<close> and \<open>isSegmentAcceptable\<close> related to the free
  part of the buffer and to the table of RFC 793, and the size and alignment of the header
  options.
\<close>

section \<open>The advertised window\<close>

text \<open>The free octets of the receive buffer, and the window before it is limited to its field.\<close>

definition free_octets :: "('a, 't) tcp_conn \<Rightarrow> u32" where
  "free_octets c = getAmountOfFreeBytes (receiveQueue c) (maxRcvBuffer c)"

definition promised :: "('a, 't) tcp_conn \<Rightarrow> u32" where
  "promised c = rcv_adv c - rcv_nxt c"

definition window_scaled :: "('a, 't) tcp_conn \<Rightarrow> bool" where
  "window_scaled c \<longleftrightarrow> ws_enabled c \<and> rcv_wnd_scale c \<noteq> 0"

definition window_limit :: "('a, 't) tcp_conn \<Rightarrow> u32" where
  "window_limit c = (if window_scaled c then push_bit (rcv_wnd_scale c) 65535 else 65535)"

definition window_offer :: "('a, 't) tcp_conn \<Rightarrow> u32" where
  "window_offer c =
     (let offer = (if free_octets c < maxRcvBuffer c div 4 \<and> free_octets c < snd_mss c
                   then 0 else free_octets c) in
      min (max offer (promised c)) (window_limit c))"

lemma window_limit_small:
  assumes "rcv_wnd_scale c \<le> 14"
  shows "unat (window_limit c) = (if window_scaled c then 65535 * 2 ^ rcv_wnd_scale c else 65535)"
proof (cases "window_scaled c")
  case True
  have "(2::nat) ^ rcv_wnd_scale c \<le> 2 ^ 14" using assms by (rule power_increasing) simp
  then have lt: "65535 * 2 ^ rcv_wnd_scale c < (2::nat) ^ LENGTH(32)" by simp
  have "unat (push_bit (rcv_wnd_scale c) (65535 :: u32)) = take_bit LENGTH(32) (push_bit (rcv_wnd_scale c) 65535)"
    by (simp add: unsigned_push_bit_eq del: push_bit_numeral)
  also have "\<dots> = 65535 * 2 ^ rcv_wnd_scale c"
    using lt by (simp only: push_bit_eq_mult take_bit_eq_mod mod_less)
  finally show ?thesis using True by (simp add: window_limit_def)
qed (simp add: window_limit_def)

lemma unat_div_pow2: "unat (drop_bit n (w :: u32)) = unat w div 2 ^ n"
  by (simp only: unat_drop_bit_eq) (simp add: drop_bit_eq_div)

lemma field_fits:
  assumes "rcv_wnd_scale c \<le> 14" and "w \<le> window_limit c"
  shows "unat w div (if window_scaled c then 2 ^ rcv_wnd_scale c else 1) < 2 ^ 16"
proof -
  have "unat w \<le> unat (window_limit c)" using assms(2) by (simp add: word_le_nat_alt)
  then have "unat w div (if window_scaled c then 2 ^ rcv_wnd_scale c else 1) \<le> 65535"
    using window_limit_small [OF assms(1)] by (simp split: if_splits) (metis
      div_le_mono nonzero_mult_div_cancel_right power_not_zero zero_neq_numeral)
  then show ?thesis by simp
qed

lemma window_offer_alt:
  "window_offer c =
     (let win0 = free_octets c;
          win1 = (if win0 < maxRcvBuffer c div 4 \<and> win0 < snd_mss c then 0 else win0);
          win2 = (if win1 < promised c then promised c else win1)
      in if win2 > window_limit c then window_limit c else win2)"
  by (auto simp: window_offer_def Let_def max_def min_def word_gt_0)

definition offered :: "('a, 't) tcp_conn \<Rightarrow> ('a, 't) tcp_conn" where
  "offered c =
     c\<lparr>freeRcvBuffer := free_octets c, usedRcvBuffer := maxRcvBuffer c - free_octets c,
       rcv_adv := (if window_offer c > 0 \<and> seqGE (rcv_nxt c + window_offer c) (rcv_adv c)
                   then rcv_nxt c + window_offer c else rcv_adv c),
       rcv_wnd := window_offer c\<rparr>"

lemma updateRcvWnd_steps:
  "updateRcvWnd c =
     bindE (if window_scaled c
            then bindE (assertE (rcv_wnd_scale c \<le> 14)) (\<lambda>_. Inr (drop_bit (rcv_wnd_scale c) (window_offer c)))
            else Inr (window_offer c))
       (\<lambda>scaled. bindE (assertE (unat scaled < 2 ^ 16)) (\<lambda>_. Inr (ucast scaled, offered c)))"
proof -
  define c1 where "c1 = updateRcvQueueVars c"
  have sel: "freeRcvBuffer c1 = free_octets c" "maxRcvBuffer c1 = maxRcvBuffer c" "snd_mss c1 = snd_mss c"
      "rcv_adv c1 = rcv_adv c" "rcv_nxt c1 = rcv_nxt c" "ws_enabled c1 = ws_enabled c"
      "rcv_wnd_scale c1 = rcv_wnd_scale c"
    by (simp_all add: c1_def updateRcvQueueVars_def free_octets_def Let_def)
  have offer: "window_offer c =
      (let win0 = freeRcvBuffer c1;
          win1 = (if win0 < maxRcvBuffer c1 div 4 \<and> win0 < snd_mss c1 then 0 else win0);
          win2 = (if win1 < rcv_adv c1 - rcv_nxt c1 then rcv_adv c1 - rcv_nxt c1 else win1);
          maxWin = (if ws_enabled c1 \<and> rcv_wnd_scale c1 \<noteq> 0
                    then push_bit (rcv_wnd_scale c1) (of_nat TCP_MAX_WIN) else of_nat TCP_MAX_WIN)
       in if win2 > maxWin then maxWin else win2)"
    unfolding sel window_offer_alt promised_def window_limit_def window_scaled_def TCP_MAX_WIN_def
      Let_def of_nat_numeral by (rule refl)
  define win where "win = window_offer c"
  define c2 where "c2 = (if win > 0 \<and> seqGE (rcv_nxt c1 + win) (rcv_adv c1)
      then c1\<lparr>rcv_adv := rcv_nxt c1 + win\<rparr> else c1)\<lparr>rcv_wnd := win\<rparr>"
  have c2: "c2 = offered c"
    unfolding c2_def offered_def win_def sel
    by (simp add: c1_def updateRcvQueueVars_def free_octets_def [symmetric] Let_def)
  have sel2: "ws_enabled c2 = ws_enabled c" "rcv_wnd_scale c2 = rcv_wnd_scale c" "rcv_wnd c2 = win"
    by (simp_all add: c2 offered_def win_def)
  have "updateRcvWnd c =
      bindE (if ws_enabled c2 \<and> rcv_wnd_scale c2 \<noteq> 0
             then bindE (assertE (rcv_wnd_scale c2 \<le> 14))
                    (\<lambda>_. Inr (drop_bit (rcv_wnd_scale c2) (rcv_wnd c2)))
             else Inr (rcv_wnd c2))
        (\<lambda>scaled. bindE (assertE (unat scaled < 2 ^ 16)) (\<lambda>_. Inr (ucast scaled, c2)))"
    unfolding updateRcvWnd_def c2_def win_def offer c1_def by (simp only: Let_def)
  then show ?thesis unfolding sel2 unfolding c2 window_scaled_def win_def .
qed

lemma updateRcvWnd_value:
  assumes "rcv_wnd_scale c \<le> 14"
  shows "updateRcvWnd c = Inr
    (of_nat (unat (window_offer c) div (if window_scaled c then 2 ^ rcv_wnd_scale c else 1)), offered c)"
proof -
  have lim: "window_offer c \<le> window_limit c" by (simp add: window_offer_def Let_def)
  note fits = field_fits [OF assms lim]
  have cast: "(ucast w :: u16) = of_nat (unat w)" for w :: u32
    by (metis of_nat_unat)
  show ?thesis
  proof (cases "window_scaled c")
    case True
    then show ?thesis using fits assms by (simp add: updateRcvWnd_steps cast unat_div_pow2 del: of_nat_unat)
  next
    case False
    then show ?thesis using fits by (simp add: updateRcvWnd_steps)
  qed
qed


section \<open>Acceptable segments\<close>

definition in_window :: "('a, 't) tcp_conn \<Rightarrow> u32 \<Rightarrow> bool" where
  "in_window c x \<longleftrightarrow> unat (x - rcv_nxt c) < unat (rcv_wnd c)"

lemma seq_in_window:
  assumes "unat (rcv_wnd c) < 2 ^ 31"
  shows "seqLE (rcv_nxt c) x \<and> seqLess x (rcv_nxt c + rcv_wnd c) \<longleftrightarrow> in_window c x"
proof -
  have "unat (rcv_nxt c + rcv_wnd c - rcv_nxt c) < 2 ^ 31" using assms by simp
  then show ?thesis
    using tseq.less_window [of "rcv_nxt c" x "rcv_nxt c + rcv_wnd c"] assms
    by (auto simp: in_window_def seqLE_dist word_dist_def)
qed

lemma seq_in_window_end:
  assumes "unat (rcv_wnd c) < 2 ^ 31"
  shows "seqLE (rcv_nxt c) x \<and> seqLE x (rcv_nxt c + rcv_wnd c)
    \<longleftrightarrow> unat (x - rcv_nxt c) \<le> unat (rcv_wnd c)"
  using tseq.le_window [of "rcv_nxt c" x "rcv_nxt c + rcv_wnd c"] assms
  by (auto simp: seqLE_dist word_dist_def)

lemma unat_minus_one: "(x :: u32) \<noteq> 0 \<Longrightarrow> unat (x - 1) = unat x - 1"
  by (rule unat_minus_one)

lemma seq_last_in_window:
  assumes "unat (rcv_wnd c) < 2 ^ 31"
  shows "seqLess (rcv_nxt c) x \<and> seqLE x (rcv_nxt c + rcv_wnd c) \<longleftrightarrow> in_window c (x - 1)"
proof (cases "x = rcv_nxt c")
  case True
  have "unat (- 1 :: u32) = 2 ^ 32 - 1"
    by (simp add: unsigned_minus_1_eq_mask mask_eq_exp_minus_1)
  then show ?thesis using True assms by (simp add: in_window_def seqLess_seqLE)
next
  case False
  have "unat (x - 1 - rcv_nxt c) = unat (x - rcv_nxt c) - 1"
    using Tcp_Window_Laws.unat_minus_one [of "x - rcv_nxt c"] False by (simp add: algebra_simps)
  moreover have "unat (x - rcv_nxt c) \<noteq> 0" using False by (simp add: unat_eq_0)
  ultimately show ?thesis
    using seq_in_window_end [OF assms, of x] False by (auto simp: in_window_def seqLess_seqLE)
qed

text \<open>C9. Which segments are acceptable. With data, exactly those of the table of RFC 793: the
  first or the last octet lies in the receive window. Without data, also one at the right edge
  of the window, and any whose acknowledgement is new and not beyond what was sent.\<close>

theorem isSegmentAcceptable_rfc793:
  assumes "unat (rcv_wnd c) < 2 ^ 31" and "n < 2 ^ 31"
  shows "isSegmentAcceptable h n c \<longleftrightarrow>
    (if n = 0 then
       (if rcv_wnd c = 0 then sequenceNo h = rcv_nxt c
        else in_window c (sequenceNo h) \<or> sequenceNo h = rcv_nxt c + rcv_wnd c)
       \<or> (seqLess (snd_una c) (ackNo h)
          \<and> seqLE (ackNo h) (if afterRto c then snd_max c else snd_nxt c))
     else in_window c (sequenceNo h) \<or> in_window c (sequenceNo h + of_nat n - 1))"
proof -
  have "unat (of_nat n :: u32) = n" using assms(2) by (simp add: unat_of_nat)
  then have zero: "(of_nat n = (0 :: u32)) \<longleftrightarrow> n = 0" by (metis unat_eq_0)
  have edge: "unat (x - rcv_nxt c) \<le> unat (rcv_wnd c) \<longleftrightarrow> in_window c x \<or> x = rcv_nxt c + rcv_wnd c" for x
  proof -
    have "unat (x - rcv_nxt c) = unat (rcv_wnd c) \<longleftrightarrow> x = rcv_nxt c + rcv_wnd c"
      by (metis add_diff_cancel_left' diff_add_cancel add.commute word_unat_eq_iff)
    then show ?thesis by (auto simp: in_window_def)
  qed
  have no_window: "\<not> in_window c x" if "rcv_wnd c = 0" for x
    using that by (simp add: in_window_def)
  have last: "seqLess (rcv_nxt c) (x + of_nat n) \<and> seqLE (x + of_nat n) (rcv_nxt c + rcv_wnd c)
      \<longleftrightarrow> in_window c (x + of_nat n - 1)" for x
    by (rule seq_last_in_window [OF assms(1)])
  note simps = isSegmentAcceptable_def Let_def zero seq_in_window [OF assms(1)]
    seq_in_window_end [OF assms(1)] last edge no_window
  show ?thesis
  proof (cases "n = 0")
    case True
    then show ?thesis by (simp add: simps)
  next
    case False
    then show ?thesis by (cases "rcv_wnd c = 0") (simp_all add: simps)
  qed
qed

section \<open>Header options\<close>

definition plain_header :: "tcp_header \<Rightarrow> bool" where
  "plain_header h \<longleftrightarrow> headerOption h = [] \<and> headerLength h = TCP_MIN_HEADER_LENGTH"

definition options_length :: "tcp_header \<Rightarrow> nat" where
  "options_length h = sum_list (map getLength (headerOption h))"

lemma options_length_insert [simp]:
  "options_length (insertHeaderOption x h) = options_length h + getLength x"
  by (simp add: options_length_def insertHeaderOption_def)

lemma options_array_length: "getHeaderOptionArrayLength h = options_length h"
  by (simp add: getHeaderOptionArrayLength_def options_length_def)

text \<open>Which options a SYN carries, and how long they are with their padding.\<close>

definition offers :: "('a, 't) tcp_conn \<Rightarrow> bool \<Rightarrow> bool \<Rightarrow> bool" where
  "offers c supported received \<longleftrightarrow> supported \<and> (received \<or> syn_sent_again c)"

definition writes_syn_options :: "('a, 't) tcp_conn \<Rightarrow> bool" where
  "writes_syn_options c \<longleftrightarrow> fsm c = TCP_S_INIT \<or> fsm c = TCP_S_LISTEN
     \<or> ((fsm c = TCP_S_SYN_SENT \<or> fsm c = TCP_S_SYN_RCVD) \<and> syn_rexmit_count c > 0)"

definition syn_options_length :: "('a, 't) tcp_conn \<Rightarrow> nat" where
  "syn_options_length c =
     (if snd_mss c > 0 then 4 else 0)
     + (if offers c (ws_support c) (rcv_ws c) then 4 else 0)
     + (if offers c (sack_support c) (rcv_sack_perm c) then (if ts_support c then 2 else 4) else 0)
     + (if offers c (ts_support c) (rcv_initial_ts c) then (if sack_support c then 10 else 12) else 0)"

lemma write_mss_length:
  "options_length (fst (write_mss_option h c)) = options_length h + (if snd_mss c > 0 then 4 else 0)"
  "snd (write_mss_option h c) = c"
  by (simp_all add: write_mss_option_def)

lemma write_ws_length:
  "options_length (fst (write_ws_option h c)) = options_length h + (if offers c (ws_support c) (rcv_ws c) then 4 else 0)"
  by (simp add: write_ws_option_def offers_def Let_def)

lemma write_sack_length:
  "options_length (fst (write_sack_permitted_option h c)) = options_length h
     + (if offers c (sack_support c) (rcv_sack_perm c) then (if ts_support c then 2 else 4) else 0)"
  by (simp add: write_sack_permitted_option_def offers_def Let_def)

lemma write_ts_length:
  "options_length (fst (write_ts_option h c)) = options_length h
     + (if offers c (ts_support c) (rcv_initial_ts c) then (if sack_support c then 10 else 12) else 0)"
  by (simp add: write_ts_option_def offers_def Let_def)

lemma offers_ws [simp]: "offers (snd (write_ws_option h c)) = offers c"
  by (intro ext) (simp add: offers_def write_ws_option_def syn_sent_again_def Let_def)

lemma offers_sack [simp]: "offers (snd (write_sack_permitted_option h c)) = offers c"
  by (intro ext) (simp add: offers_def write_sack_permitted_option_def syn_sent_again_def Let_def)

lemma write_ws_keeps [simp]:
  "sack_support (snd (write_ws_option h c)) = sack_support c"
  "rcv_sack_perm (snd (write_ws_option h c)) = rcv_sack_perm c"
  "ts_support (snd (write_ws_option h c)) = ts_support c"
  "rcv_initial_ts (snd (write_ws_option h c)) = rcv_initial_ts c"
  by (simp_all add: write_ws_option_def Let_def)

lemma write_sack_keeps [simp]:
  "sack_support (snd (write_sack_permitted_option h c)) = sack_support c"
  "ts_support (snd (write_sack_permitted_option h c)) = ts_support c"
  "rcv_initial_ts (snd (write_sack_permitted_option h c)) = rcv_initial_ts c"
  by (simp_all add: write_sack_permitted_option_def Let_def)

lemma finish_options_length:
  assumes "headerOption h = [] \<longrightarrow> headerLength h = TCP_MIN_HEADER_LENGTH"
    and "options_length h \<le> TCP_OPTIONS_MAX_SIZE"
  shows "headerLength (finish_options h) = TCP_MIN_HEADER_LENGTH + options_length h
    \<and> headerOption (finish_options h) = headerOption h"
  using assms by (auto simp: finish_options_def options_array_length options_length_def)

lemma write_syn_header_length:
  "headerLength (fst (write_mss_option h c)) = headerLength h"
  "headerLength (fst (write_ws_option h c)) = headerLength h"
  "headerLength (fst (write_sack_permitted_option h c)) = headerLength h"
  "headerLength (fst (write_ts_option h c)) = headerLength h"
  by (simp_all add: write_mss_option_def write_ws_option_def write_sack_permitted_option_def
      write_ts_option_def insertHeaderOption_def Let_def)

text \<open>The options of a SYN or SYN+ACK always fit, without an error, and the header length
  states their length. The header is a whole number of 32-bit words exactly if SACK and
  timestamps, when the host supports both, are both offered or both withheld: the padding of
  either option is chosen by what the host supports and not by what it sends.\<close>

theorem syn_options_aligned_iff:
  assumes "synBit h" and "plain_header h" and "writes_syn_options c"
  shows "\<exists>h' c'. writeHeaderOptions h c = Inr (h', c')
    \<and> headerLength h' = TCP_MIN_HEADER_LENGTH + syn_options_length c
    \<and> options_length h' = syn_options_length c
    \<and> headerLength h' \<le> TCP_MAX_HEADER_LENGTH
    \<and> (4 dvd headerLength h' \<longleftrightarrow>
        (sack_support c \<longrightarrow> ts_support c \<longrightarrow>
          offers c (sack_support c) (rcv_sack_perm c) = offers c (ts_support c) (rcv_initial_ts c)))"
proof -
  obtain h1 where m: "write_mss_option h c = (h1, c)"
    using write_mss_length(2) [of h c] by (metis prod.collapse)
  obtain h2 c2 where w: "write_ws_option h1 c = (h2, c2)" by force
  obtain h3 c3 where s: "write_sack_permitted_option h2 c2 = (h3, c3)" by force
  obtain h4 c4 where t: "write_ts_option h3 c3 = (h4, c4)" by force
  have run: "writeHeaderOptions h c = Inr (finish_options h4, c4)"
    using assms(1,3) by (simp add: writeHeaderOptions_def writes_syn_options_def m w s t)
  have eqs: "options_length h1 = options_length h + (if snd_mss c > 0 then 4 else 0)"
      "options_length h2 = options_length h1 + (if offers c (ws_support c) (rcv_ws c) then 4 else 0)"
      "options_length h3 = options_length h2
        + (if offers c2 (sack_support c2) (rcv_sack_perm c2) then (if ts_support c2 then 2 else 4) else 0)"
      "options_length h4 = options_length h3
        + (if offers c3 (ts_support c3) (rcv_initial_ts c3) then (if sack_support c3 then 10 else 12) else 0)"
      "headerLength h1 = headerLength h" "headerLength h2 = headerLength h1"
      "headerLength h3 = headerLength h2" "headerLength h4 = headerLength h3"
    using write_mss_length [of h c] write_ws_length [of h1 c] write_sack_length [of h2 c2]
      write_ts_length [of h3 c3] write_syn_header_length(1) [of h c] write_syn_header_length(2) [of h1 c]
      write_syn_header_length(3) [of h2 c2] write_syn_header_length(4) [of h3 c3]
    by (simp_all only: m w s t fst_conv snd_conv)
  have keep: "offers c2 = offers c" "sack_support c2 = sack_support c" "rcv_sack_perm c2 = rcv_sack_perm c"
      "ts_support c2 = ts_support c" "rcv_initial_ts c2 = rcv_initial_ts c"
      "offers c3 = offers c2" "sack_support c3 = sack_support c2" "ts_support c3 = ts_support c2"
      "rcv_initial_ts c3 = rcv_initial_ts c2"
    using offers_ws [of h1 c] write_ws_keeps [of h1 c] offers_sack [of h2 c2] write_sack_keeps [of h2 c2]
    by (simp_all only: w s snd_conv)
  have "options_length h = 0" using assms(2) by (simp add: plain_header_def options_length_def)
  then have len: "options_length h4 = syn_options_length c"
    unfolding eqs keep syn_options_length_def by simp
  have hl: "headerLength h4 = TCP_MIN_HEADER_LENGTH"
    using assms(2) unfolding eqs by (simp add: plain_header_def)
  have bound: "syn_options_length c \<le> TCP_OPTIONS_MAX_SIZE"
    by (simp add: syn_options_length_def TCP_OPTIONS_MAX_SIZE_def)
  have fin: "headerLength (finish_options h4) = TCP_MIN_HEADER_LENGTH + syn_options_length c"
      "options_length (finish_options h4) = syn_options_length c"
    using finish_options_length [of h4] len hl bound by (simp_all add: options_length_def)
  have "4 dvd TCP_MIN_HEADER_LENGTH + syn_options_length c \<longleftrightarrow>
      (sack_support c \<longrightarrow> ts_support c \<longrightarrow>
        offers c (sack_support c) (rcv_sack_perm c) = offers c (ts_support c) (rcv_initial_ts c))"
    by (simp add: syn_options_length_def TCP_MIN_HEADER_LENGTH_def offers_def)
  then show ?thesis
    using run fin bound
    by (simp add: TCP_MIN_HEADER_LENGTH_def TCP_MAX_HEADER_LENGTH_def TCP_OPTIONS_MAX_SIZE_def)
qed

text \<open>Every other segment: what is written always fits into a header.\<close>

lemma finish_options_bound:
  "headerLength h \<le> TCP_MAX_HEADER_LENGTH \<Longrightarrow> headerLength (finish_options h) \<le> TCP_MAX_HEADER_LENGTH"
  by (auto simp: finish_options_def dropHeaderOptions_def TCP_MIN_HEADER_LENGTH_def
      TCP_MAX_HEADER_LENGTH_def TCP_OPTIONS_MAX_SIZE_def)

lemma finish_options_states_length:
  "headerLength h = TCP_MIN_HEADER_LENGTH \<or> headerOption h \<noteq> [] \<Longrightarrow>
     headerLength (finish_options h) = TCP_MIN_HEADER_LENGTH + options_length (finish_options h)
     \<and> options_length (finish_options h) \<le> TCP_OPTIONS_MAX_SIZE"
  by (auto simp: finish_options_def dropHeaderOptions_def options_array_length options_length_def)

lemma insert_sack_option_nonempty:
  "returns (insert_sack_option n d h c) (\<lambda>(h', _). headerOption h' \<noteq> [])"
  by (auto simp: insert_sack_option_def Let_def returns_def assertE_def)

lemma returns_trivial: "returns m (\<lambda>_. True)"
  by (simp add: returns_def split: sum.splits)

lemma addSacks_header:
  "returns (addSacks h c) (\<lambda>(h', _). h' = h \<or> headerOption h' \<noteq> [])"
proof -
  have opt: "returns (insert_sack_option n d h c1) (\<lambda>(h', _). h' = h \<or> headerOption h' \<noteq> [])" for n d c1
    using insert_sack_option_nonempty [of n d h c1] by (auto simp: returns_def split: sum.splits)
  have "returns (bindE (push_new_sack c0) (\<lambda>(dsack_inserted, c1).
       let n = min (length (sacks_array c1)) ((TCP_OPTIONS_MAX_SIZE - getHeaderOptionArrayLength h - 2) div 8) in
       if n = 0 then
         Inr (h, clear_sack_request
                   (c1\<lparr>sacks_array := (if dsack_inserted then tl (sacks_array c1) else sacks_array c1)\<rparr>))
       else insert_sack_option n dsack_inserted h c1)) (\<lambda>(h', _). h' = h \<or> headerOption h' \<noteq> [])" for c0
    by (rule returns_bindE [OF returns_trivial]) (auto simp: Let_def opt)
  then show ?thesis
    unfolding addSacks_def
    by (intro returns_bindE [OF returns_trivial]) (auto simp only: Let_def returns_Inr split: if_split)
qed

lemma write_data_options_header:
  assumes "plain_header h"
  shows "returns (write_data_options h c) (\<lambda>(h', _). headerLength h' = TCP_MIN_HEADER_LENGTH \<or> headerOption h' \<noteq> [])"
proof -
  define h1 where "h1 = (if ts_enabled c then
      insertHeaderOption (OptTimestamp 10 (convertSimtimeToTS (now c)) (if ackBit h then ts_recent c else 0))
        (if \<not> (sack_enabled c \<and> (snd_sack c \<or> snd_dsack c))
         then insertHeaderOption (OptNop 1) (insertHeaderOption (OptNop 1) h) else h) else h)"
  have h1: "headerLength h1 = TCP_MIN_HEADER_LENGTH"
    using assms by (simp add: h1_def insertHeaderOption_def plain_header_def)
  have "write_data_options h c = (if sack_enabled c \<and> (snd_sack c \<or> snd_dsack c) then addSacks h1 c else Inr (h1, c))"
    by (simp only: write_data_options_def h1_def Let_def)
  then show ?thesis
    using addSacks_header [of h1 c] h1 by (auto simp: returns_def split: sum.splits)
qed

lemma writeHeaderOptions_fits:
  assumes "plain_header h" and "\<not> (synBit h \<and> writes_syn_options c)"
  shows "returns (writeHeaderOptions h c) (\<lambda>(h', _).
     headerLength h' = TCP_MIN_HEADER_LENGTH + options_length h' \<and> headerLength h' \<le> TCP_MAX_HEADER_LENGTH)"
proof -
  let ?ok = "\<lambda>(h', _). headerLength h' = TCP_MIN_HEADER_LENGTH \<or> headerOption h' \<noteq> []"
  have fin: "headerLength (finish_options h') = TCP_MIN_HEADER_LENGTH + options_length (finish_options h')
      \<and> headerLength (finish_options h') \<le> TCP_MAX_HEADER_LENGTH"
    if "headerLength h' = TCP_MIN_HEADER_LENGTH \<or> headerOption h' \<noteq> []" for h'
    using finish_options_states_length [OF that]
    by (simp add: TCP_MIN_HEADER_LENGTH_def TCP_MAX_HEADER_LENGTH_def TCP_OPTIONS_MAX_SIZE_def)
  have "returns (if fsm c \<in> {TCP_S_SYN_SENT, TCP_S_SYN_RCVD, TCP_S_ESTABLISHED, TCP_S_FIN_WAIT_1,
                         TCP_S_FIN_WAIT_2, TCP_S_CLOSE_WAIT} then write_data_options h c else Inr (h, c)) ?ok"
    using write_data_options_header [OF assms(1), of c] assms(1) by (simp add: plain_header_def)
  then show ?thesis
    using assms(2) fin unfolding writeHeaderOptions_def writes_syn_options_def
    by (auto simp: returns_def bindE_def split: sum.splits if_splits)
qed

section \<open>A FIN at a closed window\<close>

text \<open>A FIN may arrive when everything the peer was promised is used up. The code then
  counts the FIN's sequence number beyond the advertised edge, the difference of the two
  wraps around, and the next segment offers the largest window there is, however full the
  buffer is.\<close>

theorem fin_at_closed_window_opens_it:
  assumes "rcv_wnd_scale c \<le> 14" and "finBit h" and "rcv_nxt c = sequenceNo h + of_nat n"
    and "rcv_adv c = rcv_nxt c" and "fsm c = TCP_S_ESTABLISHED"
  shows "\<exists>c' field c''. process_fin h n event c = Inr (TCP_E_RCV_FIN, c')
    \<and> updateRcvWnd c' = Inr (field, c'') \<and> rcv_wnd c'' = window_limit c"
proof -
  let ?c = "c\<lparr>ack_now := True, rcv_nxt := rcv_nxt c + 1\<rparr>"
  have "process_fin h n event c = Inr (TCP_E_RCV_FIN, ?c)"
    using assms by (simp add: process_fin_def fin_in_sequence_def Let_def)
  moreover have "promised ?c = -1" using assms(4) by (simp add: promised_def)
  then have "window_offer ?c = window_limit ?c"
    using word_n1_ge by (simp add: window_offer_def Let_def max_absorb2)
  then have "\<exists>field c''. updateRcvWnd ?c = Inr (field, c'') \<and> rcv_wnd c'' = window_limit c"
    using updateRcvWnd_value [of ?c] assms(1)
    by (simp add: offered_def window_limit_def window_scaled_def)
  ultimately show ?thesis by blast
qed

section \<open>Examples\<close>


theorem isSegmentAcceptable_rfc793_witness:
  "\<not> isSegmentAcceptable (new_header\<lparr>sequenceNo := 7504\<rparr>) 1 (example_conn ())
   \<and> isSegmentAcceptable (new_header\<lparr>sequenceNo := 7504\<rparr>) 0 (example_conn ())"
  using isSegmentAcceptable_rfc793 [of "example_conn ()" 1 "new_header\<lparr>sequenceNo := 7504\<rparr>"]
    isSegmentAcceptable_rfc793 [of "example_conn ()" 0 "new_header\<lparr>sequenceNo := 7504\<rparr>"]
  by (simp add: in_window_def new_header_def example_conn_defs)

theorem syn_options_aligned_iff_witness:
  "\<exists>h' c'. writeHeaderOptions (new_header\<lparr>synBit := True, ackBit := True\<rparr>)
       ((example_conn ())\<lparr>fsm := TCP_S_LISTEN, sack_support := True, ts_support := True, rcv_sack_perm := True\<rparr>)
     = Inr (h', c') \<and> headerLength h' = 26 \<and> \<not> 4 dvd headerLength h'"
  using syn_options_aligned_iff [of "new_header\<lparr>synBit := True, ackBit := True\<rparr>"
      "(example_conn ())\<lparr>fsm := TCP_S_LISTEN, sack_support := True, ts_support := True, rcv_sack_perm := True\<rparr>"]
  by (auto simp: plain_header_def new_header_def writes_syn_options_def syn_options_length_def offers_def
      syn_sent_again_def TCP_MIN_HEADER_LENGTH_def example_conn_defs)

text \<open>A receiver with a full buffer, at the edge of the window it promised.\<close>

definition example_full :: "(char, unit) tcp_conn" where
  "example_full = (example_conn ())\<lparr>fsm := TCP_S_ESTABLISHED, rcv_nxt := 7505, rcv_adv := 7505,
     receiveQueue := \<lparr>rq_rcv_nxt = 7505, reorderBuffer =
       \<lparr>regions = [\<lparr>roffset = 1, rdata = replicate 7504 CHR ''x''\<rparr>], expectedOffset = 1\<rparr>\<rparr>\<rparr>"

theorem fin_at_closed_window_opens_it_witness:
  "free_octets example_full = 0
   \<and> (\<exists>c' field c''. process_fin (new_header\<lparr>finBit := True, sequenceNo := 7505\<rparr>) 0 TCP_E_IGNORE example_full
        = Inr (TCP_E_RCV_FIN, c') \<and> updateRcvWnd c' = Inr (field, c'') \<and> rcv_wnd c'' = 65535)"
  using fin_at_closed_window_opens_it [of example_full "new_header\<lparr>finBit := True, sequenceNo := 7505\<rparr>" 0 TCP_E_IGNORE]
  by (auto simp: example_full_def new_header_def window_limit_def window_scaled_def free_octets_def
      getAmountOfFreeBytes_def getAmountOfBufferedBytes_def example_conn_defs)

end
