(* ===== verification/Tcp_Fsm_Laws.thy ===== *)
theory Tcp_Fsm_Laws
  imports Tcp_Window_Laws Dumb_Tcp
begin

text \<open>
  The life cycle of a connection: the state machine against the diagram of RFC 793, the timers
  that each state leaves running, and the retransmission of the SYN until the connection is
  given up.
\<close>

section \<open>The state machine\<close>

text \<open>The arrows of the diagram on page 23 of RFC 793, with ABORT, RST and the setup timeout.\<close>

inductive rfc793 :: "tcp_state \<Rightarrow> tcp_state \<Rightarrow> bool" where
  passive_open: "rfc793 TCP_S_INIT TCP_S_LISTEN"
| active_open: "rfc793 TCP_S_INIT TCP_S_SYN_SENT"
| listen_send: "rfc793 TCP_S_LISTEN TCP_S_SYN_SENT"
| listen_syn: "rfc793 TCP_S_LISTEN TCP_S_SYN_RCVD"
| simultaneous_open: "rfc793 TCP_S_SYN_SENT TCP_S_SYN_RCVD"
| syn_acked: "rfc793 TCP_S_SYN_SENT TCP_S_ESTABLISHED"
| back_to_listen: "rfc793 TCP_S_SYN_RCVD TCP_S_LISTEN"
| ack_of_syn: "rfc793 TCP_S_SYN_RCVD TCP_S_ESTABLISHED"
| early_close: "rfc793 TCP_S_SYN_RCVD TCP_S_FIN_WAIT_1"
| early_fin: "rfc793 TCP_S_SYN_RCVD TCP_S_CLOSE_WAIT"
| close: "rfc793 TCP_S_ESTABLISHED TCP_S_FIN_WAIT_1"
| fin: "rfc793 TCP_S_ESTABLISHED TCP_S_CLOSE_WAIT"
| close_after_fin: "rfc793 TCP_S_CLOSE_WAIT TCP_S_LAST_ACK"
| fin_acked: "rfc793 TCP_S_FIN_WAIT_1 TCP_S_FIN_WAIT_2"
| both_close: "rfc793 TCP_S_FIN_WAIT_1 TCP_S_CLOSING"
| fin_with_ack: "rfc793 TCP_S_FIN_WAIT_1 TCP_S_TIME_WAIT"
| fin_after_ack: "rfc793 TCP_S_FIN_WAIT_2 TCP_S_TIME_WAIT"
| closing_acked: "rfc793 TCP_S_CLOSING TCP_S_TIME_WAIT"
| give_up: "s \<noteq> TCP_S_CLOSED \<Longrightarrow> rfc793 s TCP_S_CLOSED"

lemmas next_state_simps = later_step_def later_transitions_def

text \<open>Every transition after SYN_SENT is an entry of the table, or the state stays.\<close>

lemma later_step_cases:
  "later_step s e = s \<or> (s, e, later_step s e) \<in> set later_transitions"
  by (auto simp: later_step_def find_Some_iff split: option.split) (metis nth_mem)

lemma later_stepI:
  assumes "P s" and "list_all (\<lambda>(s1, e1, t). s1 = s \<longrightarrow> e1 = e \<longrightarrow> P t) later_transitions"
  shows "P (later_step s e)"
  using later_step_cases [of s e] assms by (auto simp: list_all_iff)

lemma next_state_later: "s \<notin> {TCP_S_INIT, TCP_S_LISTEN, TCP_S_SYN_RCVD} \<Longrightarrow> next_state act s e = later_step s e"
  by (cases s) simp_all

lemma later_rfc793: "s \<noteq> TCP_S_CLOSED \<Longrightarrow> later_step s e = s \<or> rfc793 s (later_step s e)"
  by (rule later_stepI) (auto simp: later_transitions_def intro: rfc793.intros)

lemma next_state_rfc793:
  "s \<noteq> TCP_S_CLOSED \<Longrightarrow> next_state act s e = s \<or> rfc793 s (next_state act s e)"
proof (cases "s \<in> {TCP_S_INIT, TCP_S_LISTEN, TCP_S_SYN_RCVD}")
  case True
  then show ?thesis by (auto; cases e; cases act) (auto intro: rfc793.intros)
next
  case False
  assume "s \<noteq> TCP_S_CLOSED"
  then show ?thesis unfolding next_state_later [OF False] by (rule later_rfc793)
qed

text \<open>What must have happened before a closing state is reached.\<close>

definition fin_sent :: "tcp_event list \<Rightarrow> bool" where
  "fin_sent es \<longleftrightarrow> TCP_E_CLOSE \<in> set es"

definition fin_received :: "tcp_event list \<Rightarrow> bool" where
  "fin_received es \<longleftrightarrow> TCP_E_RCV_FIN \<in> set es \<or> TCP_E_RCV_FIN_ACK \<in> set es"

fun acked_after_close :: "tcp_event list \<Rightarrow> bool" where
  "acked_after_close [] = False"
| "acked_after_close (e # es) =
     ((e = TCP_E_CLOSE \<and> (TCP_E_RCV_ACK \<in> set es \<or> TCP_E_RCV_FIN_ACK \<in> set es)) \<or> acked_after_close es)"

lemma acked_after_close_snoc:
  "acked_after_close (es @ [e]) \<longleftrightarrow>
     acked_after_close es \<or> (fin_sent es \<and> (e = TCP_E_RCV_ACK \<or> e = TCP_E_RCV_FIN_ACK))"
  by (induction es) (auto simp: fin_sent_def)

lemma trace_snoc [simp]:
  "fin_sent (es @ [e]) \<longleftrightarrow> fin_sent es \<or> e = TCP_E_CLOSE"
  "fin_received (es @ [e]) \<longleftrightarrow> fin_received es \<or> e = TCP_E_RCV_FIN \<or> e = TCP_E_RCV_FIN_ACK"
  by (auto simp: fin_sent_def fin_received_def)

definition close_history :: "tcp_event list \<Rightarrow> tcp_state \<Rightarrow> bool" where
  "close_history es s \<longleftrightarrow>
     (s \<in> {TCP_S_FIN_WAIT_1, TCP_S_FIN_WAIT_2, TCP_S_CLOSING, TCP_S_TIME_WAIT, TCP_S_LAST_ACK} \<longrightarrow> fin_sent es)
     \<and> (s \<in> {TCP_S_CLOSE_WAIT, TCP_S_LAST_ACK, TCP_S_CLOSING, TCP_S_TIME_WAIT} \<longrightarrow> fin_received es)
     \<and> (s \<in> {TCP_S_FIN_WAIT_2, TCP_S_TIME_WAIT} \<longrightarrow> acked_after_close es)"

lemma close_history_mono: "close_history es s \<Longrightarrow> close_history (es @ [e]) s"
  by (auto simp: close_history_def acked_after_close_snoc)

lemma close_history_step:
  assumes "close_history es s"
  shows "close_history (es @ [e]) (next_state act s e)"
proof (cases "s \<in> {TCP_S_INIT, TCP_S_LISTEN, TCP_S_SYN_RCVD}")
  case True
  then show ?thesis by (auto; cases e) (simp_all add: close_history_def)
next
  case False
  have "close_history (es @ [e]) (later_step s e)"
  proof (rule later_stepI)
    show "close_history (es @ [e]) s" using assms by (rule close_history_mono)
    show "list_all (\<lambda>(s1, e1, t). s1 = s \<longrightarrow> e1 = e \<longrightarrow> close_history (es @ [e]) t) later_transitions"
      using assms by (auto simp: later_transitions_def close_history_def acked_after_close_snoc)
  qed
  then show ?thesis unfolding next_state_later [OF False] .
qed

section \<open>Runs of a connection\<close>

text \<open>
  Handlers change everything about a connection except the state of its machine; every event
  they report is then a step of it. \<open>closed\<close> is the algorithm's \<open>connectionClosed\<close>.
\<close>

definition keeps_machine :: "('a, 't) tcp_step \<Rightarrow> bool" where
  "keeps_machine closed \<longleftrightarrow> (\<forall>c. returns (closed c) (\<lambda>c'. fsm c' = fsm c
     \<and> the2MSLTimer c' = the2MSLTimer c \<and> connEstabTimer c' = connEstabTimer c
     \<and> finWait2Timer c' = finWait2Timer c \<and> synRexmitTimer c' = synRexmitTimer c))"

inductive fsm_run :: "('a, 't) tcp_step \<Rightarrow> tcp_event list \<Rightarrow> ('a, 't) tcp_conn \<Rightarrow> bool"
  for closed :: "('a, 't) tcp_step" where
  start: "fsm c = TCP_S_INIT \<Longrightarrow> fsm_run closed [] c"
| step: "fsm_run closed es c \<Longrightarrow> fsm c1 = fsm c \<Longrightarrow> performStateTransition closed e c1 = Inr (b, c2) \<Longrightarrow>
    fsm_run closed (es @ [e]) c2"

text \<open>What \<open>performStateTransition\<close> does to the state and what \<open>stateEntered\<close> does to the timers.\<close>

definition setup_timers_off :: "('a, 't) tcp_conn \<Rightarrow> bool" where
  "setup_timers_off c \<longleftrightarrow> \<not> isScheduled (connEstabTimer c) \<and> \<not> isScheduled (synRexmitTimer c)"

definition timers_off :: "('a, 't) tcp_conn \<Rightarrow> bool" where
  "timers_off c \<longleftrightarrow> setup_timers_off c \<and> \<not> isScheduled (the2MSLTimer c) \<and> \<not> isScheduled (finWait2Timer c)"

lemma isScheduled_cancel [simp]: "\<not> isScheduled (cancelIfThere t)"
  by (cases t) simp_all

lemma sendIndication_keeps [simp]:
  "fsm (sendIndicationToApp i c) = fsm c" "algo (sendIndicationToApp i c) = algo c"
  "the2MSLTimer (sendIndicationToApp i c) = the2MSLTimer c"
  "finWait2Timer (sendIndicationToApp i c) = finWait2Timer c"
  by (simp_all add: sendIndicationToApp_def send_output_def)

lemma cancelled_off [simp]:
  "setup_timers_off (cancel_setup_timers c)" "timers_off (cancel_timers c)"
  "fsm (cancel_setup_timers c) = fsm c" "fsm (cancel_timers c) = fsm c"
  by (simp_all add: setup_timers_off_def timers_off_def cancel_setup_timers_def cancel_timers_def)

lemma stateEntered_keeps:
  assumes "keeps_machine closed"
  shows "returns (stateEntered closed s old e c) (\<lambda>c'. fsm c' = fsm c
     \<and> (s = TCP_S_CLOSED \<longrightarrow> timers_off c')
     \<and> (s \<notin> {TCP_S_INIT, TCP_S_SYN_SENT, TCP_S_SYN_RCVD, TCP_S_TIME_WAIT} \<longrightarrow> setup_timers_off c'))"
proof (cases "s = TCP_S_CLOSED")
  case True
  let ?c = "cancel_timers (if old \<noteq> TCP_S_TIME_WAIT \<and> e \<noteq> TCP_E_ABORT then sendIndicationToApp TCP_I_CLOSED c else c)"
  have run: "returns (closed ?c) (\<lambda>c'. fsm c' = fsm ?c
     \<and> the2MSLTimer c' = the2MSLTimer ?c \<and> connEstabTimer c' = connEstabTimer ?c
     \<and> finWait2Timer c' = finWait2Timer ?c \<and> synRexmitTimer c' = synRexmitTimer ?c)"
    using assms unfolding keeps_machine_def by (rule spec)
  have off: "timers_off ?c" and same: "fsm ?c = fsm c" by simp_all
  show ?thesis
    using run off unfolding same True stateEntered_def
    by (auto simp: returns_def timers_off_def setup_timers_off_def split: sum.splits)
next
  case False
  then show ?thesis
    by (cases s) (simp_all add: stateEntered_def setup_timers_off_def cancel_setup_timers_def assertE_def)
qed


lemma fsm_run_history:
  "fsm_run closed es c \<Longrightarrow> keeps_machine closed \<Longrightarrow> close_history es (fsm c)"
proof (induction rule: fsm_run.induct)
  case (start c)
  then show ?case by (simp add: close_history_def)
next
  case (step es c c1 e b c2)
  have hist: "close_history es (fsm c1)" using step.IH step.prems step.hyps(2) by simp
  have "fsm c2 = fsm c1 \<or> fsm c2 = next_state (active c1) (fsm c1) e"
  proof (cases "e = TCP_E_IGNORE \<or> next_state (active c1) (fsm c1) e = fsm c1")
    case True
    then show ?thesis using step.hyps(3)
      by (auto simp: performStateTransition_def Let_def bindE_eq_Inr_iff split: if_splits)
  next
    case False
    let ?s = "next_state (active c1) (fsm c1) e"
    have "stateEntered closed ?s (fsm c1) e (c1\<lparr>fsm := ?s\<rparr>) = Inr c2"
      using step.hyps(3) False by (auto simp: performStateTransition_def Let_def bindE_eq_Inr_iff)
    then have "fsm c2 = ?s"
      using returnsD [OF stateEntered_keeps [OF step.prems]] by fastforce
    then show ?thesis by simp
  qed
  then show ?case using close_history_mono [OF hist] close_history_step [OF hist] by auto
qed

text \<open>C11. What the states of closing mean, along every run of a connection from its creation:
  FIN_WAIT_1, FIN_WAIT_2, CLOSING, LAST_ACK and TIME_WAIT are reached only after the user
  closed; CLOSE_WAIT, LAST_ACK, CLOSING and TIME_WAIT only after the peer's FIN; and
  FIN_WAIT_2 and TIME_WAIT only after an acknowledgement that came after the close.\<close>

theorem closing_states_history:
  assumes "keeps_machine closed" and "fsm_run closed es c"
  shows "(fsm c \<in> {TCP_S_FIN_WAIT_1, TCP_S_FIN_WAIT_2, TCP_S_CLOSING, TCP_S_TIME_WAIT, TCP_S_LAST_ACK}
           \<longrightarrow> TCP_E_CLOSE \<in> set es)
    \<and> (fsm c \<in> {TCP_S_CLOSE_WAIT, TCP_S_LAST_ACK, TCP_S_CLOSING, TCP_S_TIME_WAIT}
           \<longrightarrow> TCP_E_RCV_FIN \<in> set es \<or> TCP_E_RCV_FIN_ACK \<in> set es)
    \<and> (fsm c \<in> {TCP_S_FIN_WAIT_2, TCP_S_TIME_WAIT} \<longrightarrow>
         (\<exists>before after. es = before @ TCP_E_CLOSE # after
            \<and> (TCP_E_RCV_ACK \<in> set after \<or> TCP_E_RCV_FIN_ACK \<in> set after)))"
proof -
  have split: "\<exists>before after. xs = before @ TCP_E_CLOSE # after
      \<and> (TCP_E_RCV_ACK \<in> set after \<or> TCP_E_RCV_FIN_ACK \<in> set after)" if "acked_after_close xs" for xs
    using that
  proof (induction xs)
    case (Cons x xs)
    then show ?case
    proof (cases "acked_after_close xs")
      case True
      then obtain b a where "xs = b @ TCP_E_CLOSE # a" "TCP_E_RCV_ACK \<in> set a \<or> TCP_E_RCV_FIN_ACK \<in> set a"
        using Cons.IH by blast
      then have "x # xs = (x # b) @ TCP_E_CLOSE # a" by simp
      then show ?thesis using \<open>TCP_E_RCV_ACK \<in> set a \<or> TCP_E_RCV_FIN_ACK \<in> set a\<close> by blast
    next
      case False
      then have "x # xs = [] @ TCP_E_CLOSE # xs" "TCP_E_RCV_ACK \<in> set xs \<or> TCP_E_RCV_FIN_ACK \<in> set xs"
        using Cons.prems by auto
      then show ?thesis by blast
    qed
  qed simp
  show ?thesis
    using fsm_run_history [OF assms(2,1)] split [of es]
    by (auto simp: close_history_def fin_sent_def fin_received_def)
qed

lemma dumb_keeps_machine: "keeps_machine (dumb_connectionClosed :: ('a, dumb_state) tcp_step)"
  by (simp add: keeps_machine_def dumb_connectionClosed_def cancel_rexmit_def)


text \<open>A client that opens, is established, closes, and gets FIN and acknowledgement at once.\<close>

lemma fsm_run_on:
  assumes "fsm_run closed es c" and "next_state (active c) (fsm c) e = s" and "s \<noteq> fsm c"
    and "e \<noteq> TCP_E_IGNORE" and "s \<notin> {TCP_S_LISTEN, TCP_S_CLOSED}" and "fsm c \<noteq> TCP_S_CLOSED"
  shows "\<exists>c'. fsm_run closed (es @ [e]) c' \<and> fsm c' = s \<and> active c' = active c"
proof -
  have "\<exists>c'. performStateTransition closed e c = Inr (True, c') \<and> fsm c' = s \<and> active c' = active c"
    using assms(2-)
    by (cases s) (auto simp: performStateTransition_def Let_def stateEntered_def cancel_setup_timers_def
        sendIndicationToApp_def send_output_def)
  then obtain c' where c': "performStateTransition closed e c = Inr (True, c')" "fsm c' = s" "active c' = active c"
    by blast
  show ?thesis using fsm_run.step [OF assms(1) refl c'(1)] c' by blast
qed

theorem closing_states_history_witness:
  "\<exists>c :: (char, dumb_state) tcp_conn. fsm_run dumb_connectionClosed
         [TCP_E_OPEN_ACTIVE, TCP_E_RCV_SYN_ACK, TCP_E_CLOSE, TCP_E_RCV_FIN_ACK] c
     \<and> fsm c = TCP_S_TIME_WAIT
     \<and> (\<exists>before after. [TCP_E_OPEN_ACTIVE, TCP_E_RCV_SYN_ACK, TCP_E_CLOSE, TCP_E_RCV_FIN_ACK]
            = before @ TCP_E_CLOSE # after \<and> (TCP_E_RCV_ACK \<in> set after \<or> TCP_E_RCV_FIN_ACK \<in> set after))"
proof -
  let ?c = "(example_conn dumb_init :: (char, dumb_state) tcp_conn)\<lparr>active := True\<rparr>"
  have c: "fsm ?c = TCP_S_INIT" "active ?c" by (simp_all add: example_conn_defs)
  have "fsm_run dumb_connectionClosed [] ?c" using c by (intro fsm_run.start)
  then obtain c1 :: "(char, dumb_state) tcp_conn" where c1: "fsm_run dumb_connectionClosed ([] @ [TCP_E_OPEN_ACTIVE]) c1" "fsm c1 = TCP_S_SYN_SENT"
    using fsm_run_on [of dumb_connectionClosed "[]" ?c TCP_E_OPEN_ACTIVE TCP_S_SYN_SENT] c by auto
  then obtain c2 :: "(char, dumb_state) tcp_conn" where c2: "fsm_run dumb_connectionClosed (([] @ [TCP_E_OPEN_ACTIVE]) @ [TCP_E_RCV_SYN_ACK]) c2"
      "fsm c2 = TCP_S_ESTABLISHED"
    using fsm_run_on [OF c1(1), of TCP_E_RCV_SYN_ACK TCP_S_ESTABLISHED] by (auto simp: next_state_simps)
  then obtain c3 :: "(char, dumb_state) tcp_conn" where c3: "fsm_run dumb_connectionClosed
      ((([] @ [TCP_E_OPEN_ACTIVE]) @ [TCP_E_RCV_SYN_ACK]) @ [TCP_E_CLOSE]) c3" "fsm c3 = TCP_S_FIN_WAIT_1"
    using fsm_run_on [OF c2(1), of TCP_E_CLOSE TCP_S_FIN_WAIT_1] by (auto simp: next_state_simps)
  then obtain c4 :: "(char, dumb_state) tcp_conn" where c4: "fsm_run dumb_connectionClosed
      (((([] @ [TCP_E_OPEN_ACTIVE]) @ [TCP_E_RCV_SYN_ACK]) @ [TCP_E_CLOSE]) @ [TCP_E_RCV_FIN_ACK]) c4"
      "fsm c4 = TCP_S_TIME_WAIT"
    using fsm_run_on [OF c3(1), of TCP_E_RCV_FIN_ACK TCP_S_TIME_WAIT] by (auto simp: next_state_simps)
  show ?thesis
    using closing_states_history [OF dumb_keeps_machine c4(1)] c4 by auto
qed

section \<open>Retransmitting the SYN\<close>

lemma scale_window_le: "scale_window k w s \<le> s + k"
proof (induction k arbitrary: w s)
  case (Suc k)
  have "scale_window k (w div 2) (s + 1) \<le> s + 1 + k" by (rule Suc.IH)
  then show ?case by simp
qed simp

text \<open>What writing the options of a SYN leaves alone.\<close>

lemma record_same_options: "h\<lparr>headerOption := headerOption h\<rparr> = h"
  by simp

lemma write_syn_options_header:
  "\<exists>opts. fst (write_mss_option h c) = h\<lparr>headerOption := opts\<rparr>"
  "\<exists>opts. fst (write_ws_option h c) = h\<lparr>headerOption := opts\<rparr>"
  "\<exists>opts. fst (write_sack_permitted_option h c) = h\<lparr>headerOption := opts\<rparr>"
  "\<exists>opts. fst (write_ts_option h c) = h\<lparr>headerOption := opts\<rparr>"
  unfolding write_mss_option_def write_ws_option_def write_sack_permitted_option_def write_ts_option_def
    insertHeaderOption_def Let_def
  by (simp_all, (metis record_same_options)+)

lemma finish_options_header:
  "\<exists>l opts. finish_options (h\<lparr>headerOption := o4\<rparr>) = h\<lparr>headerLength := l, headerOption := opts\<rparr>"
proof (cases "o4 = [] \<or> TCP_OPTIONS_MAX_SIZE < getHeaderOptionArrayLength (h\<lparr>headerOption := o4\<rparr>)")
  case True
  then show ?thesis
  proof
    assume "o4 = []"
    then have "finish_options (h\<lparr>headerOption := o4\<rparr>) = h\<lparr>headerLength := headerLength h, headerOption := []\<rparr>"
      by (simp add: finish_options_def)
    then show ?thesis by blast
  next
    assume long: "TCP_OPTIONS_MAX_SIZE < getHeaderOptionArrayLength (h\<lparr>headerOption := o4\<rparr>)"
    then have "o4 \<noteq> []" by (auto simp: getHeaderOptionArrayLength_def)
    then have "finish_options (h\<lparr>headerOption := o4\<rparr>) = h\<lparr>headerLength := TCP_MIN_HEADER_LENGTH, headerOption := []\<rparr>"
      using long by (simp add: finish_options_def dropHeaderOptions_def)
    then show ?thesis by blast
  qed
next
  case False
  then have "finish_options (h\<lparr>headerOption := o4\<rparr>) = h\<lparr>headerLength := TCP_MIN_HEADER_LENGTH
      + getHeaderOptionArrayLength (h\<lparr>headerOption := o4\<rparr>), headerOption := o4\<rparr>"
    by (simp add: finish_options_def)
  then show ?thesis by blast
qed

lemma write_syn_options_frame:
  assumes "synBit h" and "writes_syn_options c" and "ws_manual_scale c \<le> 14" and "rcv_wnd_scale c \<le> 14"
    and "writeHeaderOptions h c = Inr (h', c')"
  shows "(\<exists>sc sw we sp se si te. sc \<le> 14 \<and> c' = c\<lparr>rcv_wnd_scale := sc, snd_ws := sw, ws_enabled := we,
       snd_sack_perm := sp, sack_enabled := se, snd_initial_ts := si, ts_enabled := te\<rparr>)
    \<and> (\<exists>l opts. h' = h\<lparr>headerLength := l, headerOption := opts\<rparr>)"
proof -
  obtain h1 where m: "write_mss_option h c = (h1, c)"
    using write_mss_length(2) [of h c] by (metis prod.collapse)
  obtain h2 c2 where w: "write_ws_option h1 c = (h2, c2)" by force
  obtain h3 c3 where s: "write_sack_permitted_option h2 c2 = (h3, c3)" by force
  obtain h4 c4 where t: "write_ts_option h3 c3 = (h4, c4)" by force
  have run: "c' = c4" "h' = finish_options h4"
    using assms(1,2,5) by (auto simp: writeHeaderOptions_def writes_syn_options_def m w s t)
  obtain o1 o2 o3 o4 where "h1 = h\<lparr>headerOption := o1\<rparr>" "h2 = h1\<lparr>headerOption := o2\<rparr>"
      "h3 = h2\<lparr>headerOption := o3\<rparr>" "h4 = h3\<lparr>headerOption := o4\<rparr>"
    using write_syn_options_header(1) [of h c] write_syn_options_header(2) [of h1 c]
      write_syn_options_header(3) [of h2 c2] write_syn_options_header(4) [of h3 c3]
    unfolding m w s t fst_conv by blast
  then have h4: "h4 = h\<lparr>headerOption := o4\<rparr>" by simp
  have fin: "\<exists>l opts. finish_options h4 = h\<lparr>headerLength := l, headerOption := opts\<rparr>"
    unfolding h4 by (rule finish_options_header)
  have sc: "(if ws_manual_scale c > -1 then nat (ws_manual_scale c)
      else scale_window 14 (unat (getFirstSeqNo (receiveQueue c) + maxRcvBuffer c - rcv_nxt c)) 0) \<le> 14"
    using assms(3) scale_window_le [of 14 "unat (getFirstSeqNo (receiveQueue c) + maxRcvBuffer c - rcv_nxt c)" 0]
    by (simp add: nat_le_iff)
  have c2: "\<exists>sc sw we. sc \<le> 14 \<and> c2 = c\<lparr>rcv_wnd_scale := sc, snd_ws := sw, ws_enabled := we\<rparr>"
  proof (cases "ws_support c \<and> (rcv_ws c \<or> syn_sent_again c)")
    case True
    then show ?thesis using w sc by (auto simp: write_ws_option_def Let_def)
  next
    case False
    then have "c2 = c" using w by (simp add: write_ws_option_def split: if_splits)
    then show ?thesis using assms(4) by (intro exI [of _ "rcv_wnd_scale c"] exI [of _ "snd_ws c"] exI [of _ "ws_enabled c"]) simp
  qed
  have c3: "\<exists>sp se. c3 = c2\<lparr>snd_sack_perm := sp, sack_enabled := se\<rparr>"
  proof (cases "sack_support c2 \<and> (rcv_sack_perm c2 \<or> syn_sent_again c2)")
    case True
    then show ?thesis using s by (auto simp: write_sack_permitted_option_def Let_def)
  next
    case False
    then have "c3 = c2" using s by (simp add: write_sack_permitted_option_def split: if_splits)
    then show ?thesis by (intro exI [of _ "snd_sack_perm c2"] exI [of _ "sack_enabled c2"]) simp
  qed
  have c4: "\<exists>si te. c4 = c3\<lparr>snd_initial_ts := si, ts_enabled := te\<rparr>"
  proof (cases "ts_support c3 \<and> (rcv_initial_ts c3 \<or> syn_sent_again c3)")
    case True
    then show ?thesis using t by (auto simp: write_ts_option_def Let_def)
  next
    case False
    then have "c4 = c3" using t by (simp add: write_ts_option_def split: if_splits)
    then show ?thesis by (intro exI [of _ "snd_initial_ts c3"] exI [of _ "ts_enabled c3"]) simp
  qed
  have "\<exists>sc sw we sp se si te. sc \<le> 14 \<and> c4 = c\<lparr>rcv_wnd_scale := sc, snd_ws := sw, ws_enabled := we,
       snd_sack_perm := sp, sack_enabled := se, snd_initial_ts := si, ts_enabled := te\<rparr>"
    using c2 c3 c4 by blast
  then show ?thesis unfolding run using fin by blast
qed

text \<open>What sending a SYN leaves alone; the connection that is set up, as far as its timer goes.\<close>

definition syn_sent_conn :: "('a, 't) tcp_conn \<Rightarrow> bool" where
  "syn_sent_conn c \<longleftrightarrow> fsm c = TCP_S_SYN_SENT \<and> remoteAddr c \<noteq> None \<and> remotePort c \<noteq> -1 \<and> localPort c \<noteq> -1
     \<and> ws_manual_scale c \<le> 14 \<and> rcv_wnd_scale c \<le> 14"

definition syn_of :: "('a, 't) tcp_conn \<Rightarrow> 'a tcp_output \<Rightarrow> bool" where
  "syn_of c m \<longleftrightarrow> (\<exists>h e. m = ToIP h [] (localAddr c) (remoteAddr c) e \<and> synBit h \<and> \<not> ackBit h \<and> \<not> rstBit h
     \<and> \<not> finBit h \<and> sequenceNo h = iss c \<and> srcPort h = localPort c \<and> destPort h = remotePort c)"

lemma sendSyn_ok:
  assumes "syn_sent_conn c" and "syn_rexmit_count c > 0"
  shows "\<exists>c' m. sendSyn c = Inr c' \<and> syn_sent_conn c' \<and> outputs c' = outputs c @ [m] \<and> syn_of c m
    \<and> syn_rexmit_count c' = syn_rexmit_count c \<and> syn_rexmit_timeout c' = syn_rexmit_timeout c
    \<and> synRexmitTimer c' = synRexmitTimer c \<and> now c' = now c \<and> iss c' = iss c
    \<and> localAddr c' = localAddr c \<and> remoteAddr c' = remoteAddr c
    \<and> localPort c' = localPort c \<and> remotePort c' = remotePort c"
proof -
  obtain wnd where wnd: "updateRcvWnd c = Inr (wnd, offered c)"
    using updateRcvWnd_value [of c] assms by (simp add: syn_sent_conn_def)
  let ?c2 = "(offered c)\<lparr>snd_nxt := iss (offered c) + 1, snd_max := iss (offered c) + 1,
      ecnSynSent := ecnWillingness (offered c)\<rparr>"
  let ?h = "new_header\<lparr>sequenceNo := iss c, synBit := True, window := wnd,
      eceBit := ecnWillingness (offered c), cwrBit := ecnWillingness (offered c)\<rparr>"
  have wr: "writes_syn_options ?c2" using assms by (simp add: writes_syn_options_def offered_def syn_sent_conn_def)
  have "synBit ?h" "plain_header ?h" by (simp_all add: plain_header_def new_header_def)
  then obtain h' c3 where opts: "writeHeaderOptions ?h ?c2 = Inr (h', c3)"
      and len: "TCP_MIN_HEADER_LENGTH \<le> headerLength h'" "headerLength h' \<le> TCP_MAX_HEADER_LENGTH"
    using syn_options_aligned_iff [of ?h ?c2, OF _ _ wr] by auto
  have scales: "ws_manual_scale ?c2 \<le> 14" "rcv_wnd_scale ?c2 \<le> 14"
    using assms by (simp_all add: offered_def syn_sent_conn_def)
  obtain sc sw we sp se si te l opts' where sc: "sc \<le> 14"
      and c3: "c3 = ?c2\<lparr>rcv_wnd_scale := sc, snd_ws := sw, ws_enabled := we, snd_sack_perm := sp,
        sack_enabled := se, snd_initial_ts := si, ts_enabled := te\<rparr>"
      and h': "h' = ?h\<lparr>headerLength := l, headerOption := opts'\<rparr>"
    using write_syn_options_frame [OF \<open>synBit ?h\<close> wr scales opts] by blast
  have send: "sendSyn c = sendToIP h' [] c3"
    using assms by (auto simp add: sendSyn_def syn_sent_conn_def wnd opts Let_def)
  show ?thesis
    unfolding send sendToIP_def using len assms sc
    by (simp add: c3 h' send_output_def syn_sent_conn_def syn_of_def offered_def new_header_def)
qed

text \<open>The timer expires when it is due; \<open>syn_rounds n\<close> lets it expire \<open>n\<close> times.\<close>

definition syn_timer_expires ::
  "('a, 't) tcp_algorithm \<Rightarrow> ('a, 't) tcp_conn \<Rightarrow> (tcp_event \<times> ('a, 't) tcp_conn) outcome" where
  "syn_timer_expires alg c =
     (case synRexmitTimer c of
        Scheduled t \<Rightarrow> process_timer_event alg SynRexmit (c\<lparr>now := t\<rparr>)
      | _ \<Rightarrow> Inr (TCP_E_IGNORE, c))"

fun syn_rounds :: "('a, 't) tcp_algorithm \<Rightarrow> nat \<Rightarrow> ('a, 't) tcp_step" where
  "syn_rounds alg 0 c = Inr c"
| "syn_rounds alg (Suc n) c =
     bindE (syn_rounds alg n c) (\<lambda>c1. bindE (syn_timer_expires alg c1) (\<lambda>(e, c2). Inr c2))"

definition syn_backoff :: "nat \<Rightarrow> simtime" where
  "syn_backoff n = min (seconds (3 * 2 ^ n)) (seconds 240)"

lemma syn_backoff_Suc: "min (2 * syn_backoff n) TCP_TIMEOUT_SYN_REXMIT_MAX = syn_backoff (Suc n)"
  by (simp add: syn_backoff_def TCP_TIMEOUT_SYN_REXMIT_MAX_def seconds_def min_def)

lemma syn_timer_round:
  assumes "syn_sent_conn c" and "synRexmitTimer c = Scheduled t"
    and "0 \<le> syn_rexmit_count c" and "syn_rexmit_count c < 12"
  shows "\<exists>c' m. syn_timer_expires alg c = Inr (TCP_E_IGNORE, c') \<and> syn_sent_conn c'
    \<and> outputs c' = outputs c @ [m] \<and> syn_of c m
    \<and> syn_rexmit_count c' = syn_rexmit_count c + 1
    \<and> syn_rexmit_timeout c' = min (2 * syn_rexmit_timeout c) TCP_TIMEOUT_SYN_REXMIT_MAX
    \<and> synRexmitTimer c' = Scheduled (t + syn_rexmit_timeout c') \<and> syn_of c' = syn_of c"
proof -
  let ?c = "c\<lparr>now := t, synRexmitTimer := Idle, syn_rexmit_count := syn_rexmit_count c + 1\<rparr>"
  have "syn_sent_conn ?c" "syn_rexmit_count ?c > 0" "syn_of ?c = syn_of c"
    using assms by (auto simp: syn_sent_conn_def syn_of_def fun_eq_iff)
  then obtain c1 m where c1: "sendSyn ?c = Inr c1" "syn_sent_conn c1" "outputs c1 = outputs c @ [m]" "syn_of c m"
      "syn_rexmit_count c1 = syn_rexmit_count c + 1" "syn_rexmit_timeout c1 = syn_rexmit_timeout c"
      "synRexmitTimer c1 = Idle" "now c1 = t" "iss c1 = iss c" "localAddr c1 = localAddr c"
      "remoteAddr c1 = remoteAddr c" "localPort c1 = localPort c" "remotePort c1 = remotePort c"
    using sendSyn_ok [of ?c] by auto
  have fsm: "fsm c = TCP_S_SYN_SENT" using assms(1) by (simp add: syn_sent_conn_def)
  let ?t = "min (2 * syn_rexmit_timeout c) TCP_TIMEOUT_SYN_REXMIT_MAX"
  let ?c' = "c1\<lparr>syn_rexmit_timeout := ?t, synRexmitTimer := Scheduled (t + ?t)\<rparr>"
  have "syn_timer_expires alg c = Inr (TCP_E_IGNORE, ?c')"
    using assms(2-) c1 fsm
    by (simp add: syn_timer_expires_def process_timer_event_def process_TIMEOUT_SYN_REXMIT_def
        MAX_SYN_REXMIT_COUNT_def Let_def)
  moreover have "syn_sent_conn ?c'" using c1(2) by (simp add: syn_sent_conn_def)
  moreover have "syn_of ?c' = syn_of c" using c1 by (simp add: syn_of_def fun_eq_iff)
  ultimately show ?thesis using c1 by (intro exI [of _ ?c'] exI [of _ m]) simp
qed


definition example_syn_sent :: "(char, dumb_state) tcp_conn" where
  "example_syn_sent = (example_conn dumb_init)\<lparr>fsm := TCP_S_SYN_SENT, active := True, localAddr := Some 1,
     remoteAddr := Some 2, localPort := 1025, remotePort := 80, iss := 7, snd_una := 7, snd_nxt := 8, snd_max := 8,
     syn_rexmit_timeout := TCP_TIMEOUT_SYN_REXMIT, synRexmitTimer := Scheduled TCP_TIMEOUT_SYN_REXMIT\<rparr>"


end
