(* ===== verification/Tcp_Transmit_Laws.thy ===== *)
theory Tcp_Transmit_Laws
  imports Tcp_Fsm_Laws
begin

text \<open>
  What a connection sends: \<open>sendSegment\<close> cuts the octets at \<open>snd_nxt\<close> out of the application's
  stream, and \<open>sendData\<close> sends them within the window of the peer and of the congestion
  control, whatever the algorithm does when it is called back. Connections without SACK.
\<close>

section \<open>The contract of the algorithm's callbacks\<close>

text \<open>
  While data is sent the algorithm may look after its own state, the delayed acknowledgement
  counters and the time stamps, but not move the window, the queues or the state machine. It can
  do that as long as its own state is \<open>ready\<close>, which sending does not touch.
\<close>

definition sender_frame :: "('a, 't) tcp_conn \<Rightarrow> ('a, 't) tcp_conn \<Rightarrow> bool" where
  "sender_frame c c' \<longleftrightarrow> sendQueue c' = sendQueue c \<and> snd_una c' = snd_una c \<and> snd_wnd c' = snd_wnd c
     \<and> snd_mss c' = snd_mss c \<and> rcv_nxt c' = rcv_nxt c \<and> receiveQueue c' = receiveQueue c
     \<and> fsm c' = fsm c \<and> send_fin c' = send_fin c \<and> snd_fin_seq c' = snd_fin_seq c
     \<and> ts_enabled c' = ts_enabled c \<and> sack_enabled c' = sack_enabled c
     \<and> rcv_wnd_scale c' = rcv_wnd_scale c"

definition untouched :: "('a, 't) tcp_conn \<Rightarrow> ('a, 't) tcp_conn \<Rightarrow> bool" where
  "untouched c c' \<longleftrightarrow> sender_frame c c' \<and> snd_nxt c' = snd_nxt c \<and> snd_max c' = snd_max c \<and> outputs c' = outputs c"

lemma sender_frame_refl [simp]: "sender_frame c c"
  by (simp add: sender_frame_def)

lemma sender_frame_trans: "sender_frame a b \<Longrightarrow> sender_frame b c \<Longrightarrow> sender_frame a c"
  by (simp add: sender_frame_def)

lemma untouched_trans: "untouched a b \<Longrightarrow> untouched b c \<Longrightarrow> untouched a c"
  by (auto simp: untouched_def intro: sender_frame_trans)

locale quiet_algorithm =
  fixes alg :: "('a, 't) alg_hooks" and ready :: "'t \<Rightarrow> bool"
  assumes ackSent_quiet: "ready (algo c) \<Longrightarrow> \<exists>c'. ackSent alg c = Inr c' \<and> untouched c c' \<and> ready (algo c')"
    and dataSent_quiet: "ready (algo c) \<Longrightarrow> \<exists>c'. dataSent alg s c = Inr c' \<and> untouched c c' \<and> ready (algo c')"
    and restart_quiet: "ready (algo c) \<Longrightarrow>
      \<exists>c'. restartRexmitTimer alg c = Inr c' \<and> untouched c c' \<and> ready (algo c')"

section \<open>One segment\<close>

definition data_options :: "('a, 't) tcp_conn \<Rightarrow> nat" where
  "data_options c =
     (if ts_enabled c \<and> fsm c \<in> {TCP_S_SYN_SENT, TCP_S_SYN_RCVD, TCP_S_ESTABLISHED, TCP_S_FIN_WAIT_1,
                                  TCP_S_FIN_WAIT_2, TCP_S_CLOSE_WAIT} then 12 else 0)"

definition sending :: "('a, 't) tcp_conn \<Rightarrow> bool" where
  "sending c \<longleftrightarrow> sendq_inv (sendQueue c) \<and> \<not> sack_enabled c \<and> rcv_wnd_scale c \<le> 14
     \<and> data_options c < unat (snd_mss c) \<and> (send_fin c \<longrightarrow> snd_fin_seq c = q_end (sendQueue c))"

lemma sending_frame: "sender_frame c c' \<Longrightarrow> sending c \<Longrightarrow> sending c'"
  by (simp add: sender_frame_def sending_def data_options_def)

lemma data_options_frame: "sender_frame c c' \<Longrightarrow> data_options c' = data_options c"
  by (simp add: sender_frame_def data_options_def)

lemma plain_options:
  assumes "\<not> sack_enabled c"
  shows "\<exists>h. writeHeaderOptions (new_header\<lparr>ackBit := True\<rparr>) c = Inr (h, c)
    \<and> headerLength h = TCP_MIN_HEADER_LENGTH + data_options c
    \<and> sum_list (map getLength (headerOption h)) = data_options c"
  using assms
  by (auto simp: writeHeaderOptions_def write_data_options_def data_options_def new_header_def
      finish_options_def insertHeaderOption_def getHeaderOptionArrayLength_def TCP_OPTIONS_MAX_SIZE_def
      TCP_MIN_HEADER_LENGTH_def)

text \<open>The octets from \<open>snd_nxt\<close> on, how many of them the next segment takes, and whether the FIN
  goes with them.\<close>

definition stream_at :: "('a, 't) tcp_conn \<Rightarrow> 'a list" where
  "stream_at c = drop (word_dist (q_begin (sendQueue c)) (snd_nxt c)) (dataBuffer (sendQueue c))"

definition segment_size :: "nat \<Rightarrow> ('a, 't) tcp_conn \<Rightarrow> nat" where
  "segment_size bytes c = min (min bytes (length (stream_at c))) (unat (snd_mss c) - data_options c)"

definition fin_follows :: "nat \<Rightarrow> ('a, 't) tcp_conn \<Rightarrow> bool" where
  "fin_follows n c \<longleftrightarrow> send_fin c \<and> n = length (stream_at c)"

definition in_stream :: "('a, 't) tcp_conn \<Rightarrow> bool" where
  "in_stream c \<longleftrightarrow> word_dist (q_begin (sendQueue c)) (snd_nxt c) \<le> length (dataBuffer (sendQueue c))"

lemma available_is_stream:
  "sending c \<Longrightarrow> in_stream c \<Longrightarrow> getBytesAvailable (sendQueue c) (snd_nxt c) = length (stream_at c)"
  unfolding stream_at_def in_stream_def sending_def by (rule getBytesAvailable_spec) auto

lemma queue_end:
  assumes "sendq_inv q" and "word_dist (q_begin q) x \<le> length (dataBuffer q)"
  shows "q_end q = x + of_nat (length (dataBuffer q) - word_dist (q_begin q) x)"
proof -
  define d where "d = word_dist (q_begin q) x"
  have x: "q_begin q + of_nat d = x" by (simp add: d_def word_dist_def)
  have "(of_nat d :: u32) + of_nat (length (dataBuffer q) - d) = of_nat (length (dataBuffer q))"
    using assms(2) by (simp add: d_def flip: of_nat_add)
  then have "q_end q = (q_begin q + of_nat d) + of_nat (length (dataBuffer q) - d)"
    using assms(1) by (simp only: sendq_inv_def add.assoc)
  then show ?thesis unfolding x unfolding d_def .
qed

lemma fin_reached:
  assumes "sending c" and "in_stream c" and "n \<le> length (stream_at c)"
  shows "send_fin c \<and> snd_nxt c + of_nat n = snd_fin_seq c \<longleftrightarrow> fin_follows n c"
proof (cases "send_fin c")
  case True
  let ?q = "sendQueue c"
  have len: "length (dataBuffer ?q) < 2 ^ 31" using assms(1) by (simp add: sending_def sendq_inv_def)
  have "snd_fin_seq c = snd_nxt c + of_nat (length (stream_at c))"
    using True assms queue_end [of ?q "snd_nxt c"]
    by (simp add: sending_def in_stream_def stream_at_def)
  then show ?thesis
    using True assms(3) len of_nat_u32_inject [of n "length (stream_at c)"]
    by (simp add: fin_follows_def stream_at_def)
qed (simp add: fin_follows_def)

text \<open>The window update that is part of sending touches only the receive side.\<close>

lemma offered_frame:
  "sender_frame c (offered c)" "snd_nxt (offered c) = snd_nxt c" "snd_max (offered c) = snd_max c"
  "outputs (offered c) = outputs c" "afterRto (offered c) = afterRto c" "localAddr (offered c) = localAddr c"
  "remoteAddr (offered c) = remoteAddr c" "localPort (offered c) = localPort c" "remotePort (offered c) = remotePort c"
  by (simp_all add: offered_def sender_frame_def)

text \<open>What the segment with the octets of the stream at \<open>snd_nxt\<close> looks like.\<close>

definition segment_of :: "('a, 't) tcp_conn \<Rightarrow> nat \<Rightarrow> 'a tcp_output \<Rightarrow> bool" where
  "segment_of c n m \<longleftrightarrow> (\<exists>h e. m = ToIP h (take n (stream_at c)) (localAddr c) (remoteAddr c) e
     \<and> sequenceNo h = snd_nxt c \<and> ackBit h \<and> ackNo h = rcv_nxt c \<and> finBit h = fin_follows n c
     \<and> \<not> synBit h \<and> \<not> rstBit h \<and> srcPort h = localPort c \<and> destPort h = remotePort c
     \<and> headerLength h = TCP_MIN_HEADER_LENGTH + data_options c)"

definition only_indications :: "'a tcp_output list \<Rightarrow> bool" where
  "only_indications ms \<longleftrightarrow> (\<forall>m \<in> set ms. \<exists>k. m = ToAppIndication TCP_I_SEND_MSG k)"

lemma request_more_data_frame:
  "sender_frame c (request_more_data c) \<and> snd_nxt (request_more_data c) = snd_nxt c
   \<and> snd_max (request_more_data c) = snd_max c \<and> sentBytes (request_more_data c) = sentBytes c
   \<and> afterRto (request_more_data c) = afterRto c
   \<and> localAddr (request_more_data c) = localAddr c \<and> remoteAddr (request_more_data c) = remoteAddr c
   \<and> localPort (request_more_data c) = localPort c \<and> remotePort (request_more_data c) = remotePort c
   \<and> algo (request_more_data c) = algo c
   \<and> (\<exists>ms. outputs (request_more_data c) = outputs c @ ms \<and> only_indications ms)"
  by (simp add: request_more_data_def send_output_def sender_frame_def only_indications_def Let_def)

lemma stream_short: "sending c \<Longrightarrow> length (stream_at c) < 2 ^ 31"
  by (auto simp: sending_def sendq_inv_def stream_at_def intro: less_imp_diff_less)

text \<open>Fields besides the frame that sending leaves alone.\<close>

definition same_ends :: "('a, 't) tcp_conn \<Rightarrow> ('a, 't) tcp_conn \<Rightarrow> bool" where
  "same_ends c c' \<longleftrightarrow> snd_max c' = snd_max c \<and> localAddr c' = localAddr c \<and> remoteAddr c' = remoteAddr c
     \<and> localPort c' = localPort c \<and> remotePort c' = remotePort c \<and> algo c' = algo c"

lemma same_ends_trans: "same_ends a b \<Longrightarrow> same_ends b c \<Longrightarrow> same_ends a c"
  by (simp add: same_ends_def)

lemma advance_snd_nxt_ok:
  assumes "sending c" and "in_stream c" and "n \<le> length (stream_at c)"
  shows "\<exists>c'. advance_snd_nxt (of_nat n) c = (fin_follows n c, c') \<and> sender_frame c c' \<and> same_ends c c'
    \<and> snd_nxt c' = snd_nxt c + of_nat n + (if fin_follows n c then 1 else 0)
    \<and> outputs c' = outputs c \<and> sentBytes c' = sentBytes c"
proof -
  define c1 where "c1 = c\<lparr>snd_nxt := snd_nxt c + of_nat n\<rparr>"
  define c2 where "c2 = (if afterRto c1 \<and> seqGE (snd_nxt c1) (snd_max c1) then c1\<lparr>afterRto := False\<rparr> else c1)"
  have c2: "sender_frame c c2" "same_ends c c2" "snd_nxt c2 = snd_nxt c + of_nat n" "outputs c2 = outputs c"
      "sentBytes c2 = sentBytes c" "send_fin c2 = send_fin c" "snd_fin_seq c2 = snd_fin_seq c"
    by (simp_all add: c2_def c1_def sender_frame_def same_ends_def)
  have adv: "advance_snd_nxt (of_nat n) c =
      (if fin_follows n c then (True, c2\<lparr>snd_nxt := snd_fin_seq c2 + 1\<rparr>) else (False, c2))"
    using fin_reached [OF assms] c2(3,6,7)
    by (simp only: advance_snd_nxt_def Let_def c1_def [symmetric] c2_def [symmetric])
  have "snd_fin_seq c = snd_nxt c + of_nat n" if "fin_follows n c"
    using fin_reached [OF assms] that by simp
  then show ?thesis
    using c2 unfolding adv by (auto simp: sender_frame_def same_ends_def)
qed

lemma segment_size_word:
  assumes "sending c" and "in_stream c"
  shows "unat (let bytes1 = (if unat bytes0 > length (stream_at c) then of_nat (length (stream_at c)) else bytes0) in
      if bytes1 + of_nat (data_options c) > snd_mss c then snd_mss c - of_nat (data_options c) else bytes1)
    = segment_size (unat bytes0) c"
proof -
  define bytes1 where "bytes1 = (if unat bytes0 > length (stream_at c) then of_nat (length (stream_at c)) else bytes0)"
  have len: "length (stream_at c) < 2 ^ 31" by (rule stream_short [OF assms(1)])
  have b1: "unat bytes1 = min (unat bytes0) (length (stream_at c))"
    using unat_of_nat_u32 [OF len] by (simp add: bytes1_def)
  have opts: "data_options c \<le> 12" by (simp add: data_options_def)
  have o1: "unat (of_nat (data_options c) :: u32) = data_options c"
    by (rule unat_of_nat_u32) (use opts in simp)
  have sum: "unat (bytes1 + of_nat (data_options c)) = unat bytes1 + data_options c"
    by (subst unat_plus_simple [THEN iffD1, OF iffD2, OF no_olen_add_nat])
      (use b1 len opts o1 in \<open>simp_all add: o1\<close>)
  have lt: "data_options c < unat (snd_mss c)" using assms(1) by (simp add: sending_def)
  have diff: "unat (snd_mss c - of_nat (data_options c)) = unat (snd_mss c) - data_options c"
    using lt o1 by (subst unat_sub) (simp_all add: word_le_nat_alt)
  show ?thesis
    unfolding Let_def bytes1_def [symmetric] segment_size_def
    using b1 sum diff lt by (auto simp: word_less_nat_alt)
qed

text \<open>The part of \<open>sendSegment\<close> up to the call of \<open>advance_snd_nxt\<close>.\<close>

definition stamped :: "('a, 't) tcp_conn \<Rightarrow> ('a, 't) tcp_conn" where
  "stamped c = (if ect c \<and> sndCwr c then c\<lparr>sndCwr := False\<rparr> else c)"

lemma stamped_frame:
  "sender_frame c (stamped c)" "same_ends c (stamped c)" "snd_nxt (stamped c) = snd_nxt c"
  "outputs (stamped c) = outputs c" "sentBytes (stamped c) = sentBytes c"
  by (simp_all add: stamped_def sender_frame_def same_ends_def)

lemma stream_frame:
  "sender_frame c c' \<Longrightarrow> snd_nxt c' = snd_nxt c \<Longrightarrow> stream_at c' = stream_at c \<and> in_stream c' = in_stream c
     \<and> fin_follows n c' = fin_follows n c \<and> segment_size b c' = segment_size b c"
  by (simp add: sender_frame_def stream_at_def in_stream_def fin_follows_def segment_size_def data_options_def)

lemma sendSegment_run:
  assumes "sending c" and "in_stream c" and "stream_at c \<noteq> []" and "bytes \<noteq> 0"
  defines "n \<equiv> segment_size (unat bytes) c"
  shows "\<exists>(tmp :: tcp_header) wnd. sendSegment bytes c =
      (let c3 = c\<lparr>sentBytes := of_nat n\<rparr>; c5 = stamped (offered c3);
           (fin, c6) = advance_snd_nxt (of_nat n) c5;
           h1 = new_header\<lparr>sequenceNo := snd_nxt c, ackNo := rcv_nxt c, ackBit := True, window := wnd,
                 cwrBit := (ect (offered c3) \<and> sndCwr (offered c3)), finBit := fin, headerOption := headerOption tmp,
                 headerLength := TCP_MIN_HEADER_LENGTH + data_options c\<rparr> in
       bindE (sendToIP h1 (take n (stream_at c)) c6) (\<lambda>c8. Inr (request_more_data c8)))
    \<and> 0 < n \<and> n \<le> length (stream_at c)"
proof -
  obtain tmp where tmp: "writeHeaderOptions (new_header\<lparr>ackBit := True\<rparr>) c = Inr (tmp, c)"
      "headerLength tmp = TCP_MIN_HEADER_LENGTH + data_options c"
      "sum_list (map getLength (headerOption tmp)) = data_options c"
    using plain_options [of c] assms(1) by (auto simp: sending_def)
  have bw: "(let bytes1 = (if unat bytes > length (stream_at c) then of_nat (length (stream_at c)) else bytes) in
      if bytes1 + of_nat (data_options c) > snd_mss c then snd_mss c - of_nat (data_options c) else bytes1) = of_nat n"
    using segment_size_word [OF assms(1,2), of bytes] unfolding n_def by (metis of_nat_unat ucast_id)
  have opts: "data_options c < unat (snd_mss c)" "data_options c \<le> 12"
    using assms(1) by (simp_all add: sending_def data_options_def)
  have olt: "of_nat (data_options c) < snd_mss c"
    using opts unat_of_nat_u32 [of "data_options c"] by (simp add: word_less_nat_alt)
  have "unat bytes \<noteq> 0" using assms(4) by (simp add: unat_eq_0)
  then have npos: "0 < n" using assms(3) opts(1) by (simp add: n_def segment_size_def)
  have nle: "n \<le> length (stream_at c)" by (simp add: n_def segment_size_def)
  have un: "unat (of_nat n :: u32) = n"
    by (rule unat_of_nat_u32) (use nle stream_short [OF assms(1)] in simp)
  define c3 where "c3 = c\<lparr>sentBytes := of_nat n\<rparr>"
  have payload: "createSegmentWithBytes (sendQueue c3) (snd_nxt c3) n = Inr (take n (stream_at c))"
    using createSegmentWithBytes_spec [of "sendQueue c" n "snd_nxt c"] assms(1,2) npos nle
    by (simp add: sending_def in_stream_def stream_at_def c3_def)
  obtain wnd where wnd: "updateRcvWnd c3 = Inr (wnd, offered c3)"
    using updateRcvWnd_value [of c3] assms(1) by (simp add: c3_def sending_def)
  obtain fin c6 where adv: "advance_snd_nxt (of_nat n) (stamped (offered c3)) = (fin, c6)" by force
  have keep: "sending (stamped (offered c3))" "in_stream (stamped (offered c3))"
      "n \<le> length (stream_at (stamped (offered c3)))"
  proof -
    have "sender_frame c c3 \<and> snd_nxt c3 = snd_nxt c" by (simp add: c3_def sender_frame_def)
    then have f: "sender_frame c (stamped (offered c3)) \<and> snd_nxt (stamped (offered c3)) = snd_nxt c"
      by (metis offered_frame(1,2) stamped_frame(1,3) sender_frame_trans)
    then show "sending (stamped (offered c3))" using sending_frame assms(1) by blast
    show "in_stream (stamped (offered c3))" "n \<le> length (stream_at (stamped (offered c3)))"
      using stream_frame f assms(2) nle by metis+
  qed
  have nosack: "\<not> sack_enabled c" "\<not> sack_enabled c6"
    using advance_snd_nxt_ok [OF keep] assms(1) keep(1) adv by (auto simp: sending_def sender_frame_def)
  have opt_word: "of_nat (headerLength tmp - TCP_MIN_HEADER_LENGTH) = (of_nat (data_options c) :: u32)"
    by (simp add: tmp(2))
  have same: "sendQueue c3 = sendQueue c" "snd_nxt c3 = snd_nxt c" "rcv_nxt c3 = rcv_nxt c" "snd_mss c3 = snd_mss c"
    by (simp_all add: c3_def)
  have skip: "skip_sacked c = Inr c" using nosack(1) by (simp add: skip_sacked_def)
  have len: "length (take n (stream_at c)) = n" using nle by simp
  have hl: "TCP_MIN_HEADER_LENGTH + getHeaderOptionArrayLength (new_header\<lparr>sequenceNo := a, ackNo := b,
        ackBit := True, window := w, cwrBit := d, finBit := f, headerOption := headerOption tmp\<rparr>)
      = TCP_MIN_HEADER_LENGTH + data_options c" for a b w d f
    by (simp add: getHeaderOptionArrayLength_def tmp(3))
  have run: "sendSegment bytes c =
     (let h1 = new_header\<lparr>sequenceNo := snd_nxt c, ackNo := rcv_nxt c, ackBit := True, window := wnd,
          cwrBit := (ect (offered c3) \<and> sndCwr (offered c3)), finBit := fin, headerOption := headerOption tmp,
          headerLength := TCP_MIN_HEADER_LENGTH + data_options c\<rparr> in
      bindE (sendToIP h1 (take n (stream_at c)) c6) (\<lambda>c8. Inr (request_more_data c8)))"
    using bw payload wnd adv nosack
    unfolding sendSegment_def skip bindE_Inr Let_def
    by (simp only: available_is_stream [OF assms(1,2)] tmp(1) bindE_Inr prod.case opt_word assertE_True [OF olt]
        c3_def [symmetric] un same len stamped_def [symmetric] if_False assertE_True hl tcp_header.simps)
      (simp add: tmp(2))
  show ?thesis
    unfolding c3_def [symmetric] Let_def adv prod.case
    by (intro exI [of _ tmp] exI [of _ wnd] conjI run [unfolded Let_def] npos nle)
qed


lemma sendSegment_ok:
  assumes "sending c" and "in_stream c" and "stream_at c \<noteq> []" and "bytes \<noteq> 0"
    and n: "n = segment_size (unat bytes) c"
  shows "\<exists>c' m ms. sendSegment bytes c = Inr c' \<and> outputs c' = outputs c @ m # ms \<and> segment_of c n m
    \<and> only_indications ms \<and> sender_frame c c' \<and> same_ends c c' \<and> sentBytes c' = of_nat n
    \<and> snd_nxt c' = snd_nxt c + of_nat n + (if fin_follows n c then 1 else 0)
    \<and> 0 < n \<and> n \<le> length (stream_at c)"
proof -
  define c5 where "c5 = stamped (offered (c\<lparr>sentBytes := of_nat n\<rparr>))"
  have c5: "sender_frame c c5" "same_ends c c5" "snd_nxt c5 = snd_nxt c" "outputs c5 = outputs c"
    by (simp_all add: c5_def stamped_def offered_def sender_frame_def same_ends_def)
  have keep: "sending c5" "in_stream c5" "stream_at c5 = stream_at c" "fin_follows n c5 = fin_follows n c"
    using sending_frame c5(1) assms(1) stream_frame [OF c5(1,3)] assms(2) by auto
  obtain tmp :: tcp_header and wnd where run: "sendSegment bytes c =
      (let c3 = c\<lparr>sentBytes := of_nat n\<rparr>; c5 = stamped (offered c3);
           (fin, c6) = advance_snd_nxt (of_nat n) c5;
           h1 = new_header\<lparr>sequenceNo := snd_nxt c, ackNo := rcv_nxt c, ackBit := True, window := wnd,
                 cwrBit := (ect (offered c3) \<and> sndCwr (offered c3)), finBit := fin, headerOption := headerOption tmp,
                 headerLength := TCP_MIN_HEADER_LENGTH + data_options c\<rparr> in
       bindE (sendToIP h1 (take n (stream_at c)) c6) (\<lambda>c8. Inr (request_more_data c8)))"
      and npos: "0 < n" and nle: "n \<le> length (stream_at c)"
    using sendSegment_run [OF assms(1-4)] unfolding n by blast
  obtain c6 where adv: "advance_snd_nxt (of_nat n) c5 = (fin_follows n c, c6)" and c6: "sender_frame c5 c6"
      "same_ends c5 c6" "snd_nxt c6 = snd_nxt c + of_nat n + (if fin_follows n c then 1 else 0)" "outputs c6 = outputs c"
    using advance_snd_nxt_ok [of c5 n] keep nle c5(3,4) by auto
  have ends: "localAddr c6 = localAddr c" "remoteAddr c6 = remoteAddr c" "localPort c6 = localPort c"
      "remotePort c6 = remotePort c"
    using c5(2) c6(2) by (simp_all add: same_ends_def)
  define h where "h = new_header\<lparr>sequenceNo := snd_nxt c, ackNo := rcv_nxt c, ackBit := True, window := wnd,
                 cwrBit := (ect (offered (c\<lparr>sentBytes := of_nat n\<rparr>)) \<and> sndCwr (offered (c\<lparr>sentBytes := of_nat n\<rparr>))),
                 finBit := fin_follows n c, headerOption := headerOption tmp,
                 headerLength := TCP_MIN_HEADER_LENGTH + data_options c\<rparr>"
  have hl: "headerLength h \<ge> TCP_MIN_HEADER_LENGTH" "headerLength h \<le> TCP_MAX_HEADER_LENGTH"
    by (simp_all add: h_def data_options_def TCP_MIN_HEADER_LENGTH_def TCP_MAX_HEADER_LENGTH_def)
  define m where "m = ToIP (h\<lparr>srcPort := localPort c, destPort := remotePort c\<rparr>) (take n (stream_at c))
     (localAddr c) (remoteAddr c) (ect c6 \<and> \<not> sndAck c6 \<and> \<not> rexmit c6)"
  define c8 where "c8 = send_output m (c6\<lparr>sentBytes := of_nat n\<rparr>)"
  have out: "sendSegment bytes c = Inr (request_more_data c8)"
    using hl nle unfolding run Let_def c5_def [symmetric] adv prod.case h_def [symmetric] sendToIP_def ends
    by (simp add: m_def c8_def)
  have seg: "segment_of c n m"
    unfolding segment_of_def m_def by (intro exI conjI, rule refl) (simp_all add: h_def new_header_def)
  have c8: "sender_frame c c8" "same_ends c c8" "snd_nxt c8 = snd_nxt c6" "outputs c8 = outputs c @ [m]"
      "sentBytes c8 = of_nat n"
    using c5(1,2) c6(1,2,4) by (simp_all add: c8_def send_output_def sender_frame_def same_ends_def)
  obtain ms where "outputs (request_more_data c8) = outputs c8 @ ms" "only_indications ms"
      "sender_frame c8 (request_more_data c8)" "same_ends c8 (request_more_data c8)"
      "snd_nxt (request_more_data c8) = snd_nxt c8" "sentBytes (request_more_data c8) = sentBytes c8"
    using request_more_data_frame [of c8] by (auto simp: same_ends_def)
  then show ?thesis
    using out seg c8 c6(3) npos nle sender_frame_trans same_ends_trans
    by (intro exI [of _ "request_more_data c8"] exI [of _ m] exI [of _ ms]) auto
qed

section \<open>A flight of segments\<close>

fun carried :: "'a tcp_output list \<Rightarrow> 'a list" where
  "carried [] = []"
| "carried (ToIP h p src dest e # ms) = p @ carried ms"
| "carried (m # ms) = carried ms"

fun numbered :: "u32 \<Rightarrow> 'a tcp_output list \<Rightarrow> bool" where
  "numbered s [] = True"
| "numbered s (ToIP h p src dest e # ms) \<longleftrightarrow> sequenceNo h = s \<and> numbered (s + of_nat (length p)) ms"
| "numbered s (m # ms) = numbered s ms"

fun carries_fin :: "'a tcp_output list \<Rightarrow> bool" where
  "carries_fin [] = False"
| "carries_fin (ToIP h p src dest e # ms) \<longleftrightarrow> finBit h \<or> carries_fin ms"
| "carries_fin (m # ms) = carries_fin ms"

fun within_mss :: "u32 \<Rightarrow> 'a tcp_output list \<Rightarrow> bool" where
  "within_mss mss [] = True"
| "within_mss mss (ToIP h p src dest e # ms) \<longleftrightarrow>
     p \<noteq> [] \<and> headerLength h - TCP_MIN_HEADER_LENGTH + length p \<le> unat mss \<and> within_mss mss ms"
| "within_mss mss (m # ms) = within_mss mss ms"

lemma indications_silent:
  "only_indications ms \<Longrightarrow> carried (ms @ xs) = carried xs \<and> numbered s (ms @ xs) = numbered s xs
     \<and> carries_fin (ms @ xs) = carries_fin xs \<and> within_mss b (ms @ xs) = within_mss b xs"
proof (induction ms)
  case (Cons m ms)
  then obtain k where "m = ToAppIndication TCP_I_SEND_MSG k" by (auto simp: only_indications_def)
  then show ?case using Cons by (simp add: only_indications_def)
qed simp

lemma carried_append [simp]: "carried (xs @ ys) = carried xs @ carried ys"
  by (induction xs rule: carried.induct) auto

lemma numbered_append [simp]:
  "numbered s (xs @ ys) \<longleftrightarrow> numbered s xs \<and> numbered (s + of_nat (length (carried xs))) ys"
  by (induction s xs rule: numbered.induct) (auto simp: add.assoc)

lemma fin_sent_append [simp]: "carries_fin (xs @ ys) \<longleftrightarrow> carries_fin xs \<or> carries_fin ys"
  by (induction xs rule: carries_fin.induct) auto

lemma within_mss_append [simp]: "within_mss b (xs @ ys) \<longleftrightarrow> within_mss b xs \<and> within_mss b ys"
  by (induction b xs rule: within_mss.induct) auto

text \<open>From \<open>c\<close> on the segments \<open>ms\<close> were sent with the next \<open>m\<close> octets of the stream.\<close>

definition flight :: "('a, 't) tcp_conn \<Rightarrow> nat \<Rightarrow> 'a tcp_output list \<Rightarrow> ('a, 't) tcp_conn \<Rightarrow> bool" where
  "flight c m ms c' \<longleftrightarrow> sender_frame c c' \<and> outputs c' = outputs c @ ms
     \<and> m \<le> length (stream_at c) \<and> carried ms = take m (stream_at c) \<and> numbered (snd_nxt c) ms
     \<and> (carries_fin ms \<longleftrightarrow> 0 < m \<and> fin_follows m c) \<and> within_mss (snd_mss c) ms
     \<and> snd_nxt c' = snd_nxt c + of_nat m + (if 0 < m \<and> fin_follows m c then 1 else 0)"

lemma flight_none: "in_stream c \<Longrightarrow> flight c 0 [] c"
  by (simp add: flight_def)

lemma sendSegment_flight:
  assumes "sending c" and "in_stream c" and "stream_at c \<noteq> []" and "bytes \<noteq> 0"
    and n: "n = segment_size (unat bytes) c"
  shows "\<exists>c' ms. sendSegment bytes c = Inr c' \<and> flight c n ms c' \<and> same_ends c c' \<and> unat (sentBytes c') = n \<and> 0 < n"
proof -
  obtain c' m ms where run: "sendSegment bytes c = Inr c'" "outputs c' = outputs c @ m # ms" "segment_of c n m"
      "only_indications ms" "sender_frame c c'" "same_ends c c'" "sentBytes c' = of_nat n"
      "snd_nxt c' = snd_nxt c + of_nat n + (if fin_follows n c then 1 else 0)" "0 < n" "n \<le> length (stream_at c)"
    using sendSegment_ok [OF assms] by blast
  have un: "unat (of_nat n :: u32) = n"
    by (rule unat_of_nat_u32) (use run(10) stream_short [OF assms(1)] in simp)
  have fits: "data_options c + n \<le> unat (snd_mss c)"
    using assms(1) unfolding n segment_size_def sending_def by linarith
  have ind: "carried ms = []" "numbered s ms" "\<not> carries_fin ms" "within_mss b ms" for s b
    using indications_silent [OF run(4), of "[]"] by simp_all
  have "carried (m # ms) = take n (stream_at c) \<and> numbered (snd_nxt c) (m # ms)
      \<and> carries_fin (m # ms) = fin_follows n c \<and> within_mss (snd_mss c) (m # ms)"
    using run(3,9,10) ind fits by (auto simp: segment_of_def)
  then have "flight c n (m # ms) c'"
    using run by (simp add: flight_def)
  then show ?thesis using run un by auto
qed

lemma flight_next:
  assumes "flight c m ms c'" and "in_stream c" and "sending c" and "\<not> (0 < m \<and> fin_follows m c)"
  shows "stream_at c' = drop m (stream_at c) \<and> in_stream c' \<and> sending c'"
proof -
  let ?q = "sendQueue c" and ?d = "word_dist (q_begin (sendQueue c)) (snd_nxt c)"
  have f: "sender_frame c c'" and s: "snd_nxt c' = snd_nxt c + of_nat m" and m: "m \<le> length (stream_at c)"
    using assms(1,4) by (auto simp: flight_def)
  have q: "sendQueue c' = ?q" using f by (simp add: sender_frame_def)
  have d: "?d + m \<le> length (dataBuffer ?q)" using m assms(2) by (simp add: stream_at_def in_stream_def)
  have len: "length (dataBuffer ?q) < 2 ^ 31" using assms(3) by (simp add: sending_def sendq_inv_def)
  have "snd_nxt c' - q_begin ?q = of_nat (?d + m)"
    by (simp add: s word_dist_def algebra_simps)
  then have "word_dist (q_begin ?q) (snd_nxt c') = unat (of_nat (?d + m) :: u32)"
    by (simp only: word_dist_def)
  then have "word_dist (q_begin ?q) (snd_nxt c') = ?d + m"
    using unat_of_nat_u32 [of "?d + m"] d len by linarith
  then show ?thesis
    using d q sending_frame [OF f assms(3)] by (simp add: stream_at_def in_stream_def add.commute)
qed

lemma flight_trans:
  assumes "flight c m ms c'" and "flight c' m' ms' c''" and "in_stream c" and "sending c"
    and "\<not> (0 < m \<and> fin_follows m c)"
  shows "flight c (m + m') (ms @ ms') c''"
proof -
  have next_state: "stream_at c' = drop m (stream_at c)"
    using flight_next [OF assms(1,3,4,5)] by blast
  have f: "sender_frame c c'" and s: "snd_nxt c' = snd_nxt c + of_nat m" and m: "m \<le> length (stream_at c)"
      and len: "length (carried ms) = m"
    using assms(1,5) by (auto simp: flight_def)
  have fin: "0 < m' \<and> fin_follows m' c' \<longleftrightarrow> 0 < m + m' \<and> fin_follows (m + m') c"
    using f m assms(5) unfolding fin_follows_def next_state by (auto simp: sender_frame_def)
  have frame: "sender_frame c c''" "snd_mss c' = snd_mss c"
    using f assms(2) sender_frame_trans by (auto simp: flight_def sender_frame_def)
  have nofin: "\<not> carries_fin ms" using assms(1,5) by (simp add: flight_def)
  show ?thesis
    using assms(1,2) frame m len fin nofin unfolding flight_def next_state s
    by (auto simp: take_add add.assoc)
qed

lemma stream_at_nil_iff: "stream_at c = [] \<longleftrightarrow> length (stream_at c) = 0"
  by simp

lemma send_full_segments_flight:
  assumes "sending c" and "in_stream c" and "b \<le> length (stream_at c)" and "b \<le> fuel"
    and "eff = unat (snd_mss c) - data_options c"
  shows "\<exists>c' ms m. send_full_segments fuel eff b c = Inr (b - m, c') \<and> m \<le> b \<and> b - m < eff
    \<and> flight c m ms c' \<and> same_ends c c'"
  using assms
proof (induction fuel arbitrary: b c)
  case 0
  then show ?case using flight_none [of c] by (auto simp: sending_def same_ends_def)
next
  case (Suc fuel)
  show ?case
  proof (cases "eff \<le> b")
    case False
    then show ?thesis
      using flight_none [of c] Suc.prems
      by (intro exI [of _ c] exI [of _ "[]"] exI [of _ 0]) (auto simp: same_ends_def)
  next
    case True
    have eff: "0 < eff" "eff \<le> unat (snd_mss c)" "eff \<le> length (stream_at c)"
      using Suc.prems True by (auto simp: sending_def)
    have n: "eff = segment_size (unat (snd_mss c)) c"
      unfolding segment_size_def Suc.prems(5) [symmetric] using eff by linarith
    have mss: "snd_mss c \<noteq> 0" using eff by auto
    obtain c1 ms1 where run: "sendSegment (snd_mss c) c = Inr c1" and fl: "flight c eff ms1 c1"
        and ends: "same_ends c c1" and sent: "unat (sentBytes c1) = eff"
      using sendSegment_flight [OF Suc.prems(1,2) _ mss n] eff by fastforce
    show ?thesis
    proof (cases "fin_follows eff c")
      case True
      then have "b = eff" using Suc.prems(3) \<open>eff \<le> b\<close> by (simp add: fin_follows_def)
      then have "send_full_segments (Suc fuel) eff b c = Inr (b - eff, c1)"
        using run sent eff by (cases fuel) simp_all
      then show ?thesis
        using fl ends eff \<open>b = eff\<close>
        by (intro exI [of _ c1] exI [of _ ms1] exI [of _ eff]) simp
    next
      case False
      then have nxt: "stream_at c1 = drop eff (stream_at c)" "in_stream c1" "sending c1"
        using flight_next [OF fl] Suc.prems by auto
      have frame: "sender_frame c c1" using fl by (simp add: flight_def)
      have "eff = unat (snd_mss c1) - data_options c1"
        using Suc.prems(5) frame data_options_frame [OF frame] by (simp add: sender_frame_def)
      then obtain c' ms m where ih: "send_full_segments fuel eff (b - eff) c1 = Inr (b - eff - m, c')"
          "m \<le> b - eff" "b - eff - m < eff" "flight c1 m ms c'" "same_ends c1 c'"
        using Suc.IH [of c1 "b - eff"] nxt Suc.prems eff by force
      have "flight c (eff + m) (ms1 @ ms) c'"
        using flight_trans [OF fl ih(4)] Suc.prems False by simp
      moreover have "send_full_segments (Suc fuel) eff b c = Inr (b - (eff + m), c')"
        using run sent True ih(1) by simp
      ultimately show ?thesis
        using ih True same_ends_trans [OF ends ih(5)]
        by (intro exI [of _ c'] exI [of _ "ms1 @ ms"] exI [of _ "eff + m"]) auto
    qed
  qed
qed

section \<open>All that the window allows\<close>

lemma send_bytes_flight:
  assumes "sending c" and "in_stream c" and "b \<le> length (stream_at c)" and "0 < b"
    and eff: "eff = unat (snd_mss c) - data_options c"
  shows "\<exists>c' ms m. send_bytes eff b c = Inr (b - m, c') \<and> m \<le> b \<and> 0 < m \<and> b - m < unat (snd_mss c)
    \<and> flight c m ms c' \<and> same_ends c c'"
proof (cases "b \<le> unat (snd_mss c)")
  case True
  have b: "unat (of_nat b :: u32) = b"
    by (rule unat_of_nat_u32) (use assms(3) stream_short [OF assms(1)] in simp)
  then have b0: "(of_nat b :: u32) \<noteq> 0" using assms(4) by auto
  have n: "segment_size b c = segment_size (unat (of_nat b :: u32)) c" by (simp only: b)
  have ne: "stream_at c \<noteq> []" using assms(3,4) by auto
  obtain c' ms where run: "sendSegment (of_nat b) c = Inr c'" "flight c (segment_size b c) ms c'" "same_ends c c'"
      "unat (sentBytes c') = segment_size b c" "0 < segment_size b c"
    using sendSegment_flight [OF assms(1,2) ne b0 n] by blast
  have le: "segment_size b c \<le> b" "b - segment_size b c < unat (snd_mss c)"
    using run(5) True assms(3,4) by (auto simp: segment_size_def)
  have "send_bytes eff b c = Inr (b - segment_size b c, c')"
    using True run(1,4) le(1) by (simp add: send_bytes_def)
  then show ?thesis using run le by blast
next
  case False
  have lt: "eff \<le> unat (snd_mss c)" using eff by simp
  obtain c' ms m where "send_full_segments b eff b c = Inr (b - m, c')" "m \<le> b" "b - m < eff"
      "flight c m ms c'" "same_ends c c'"
    using send_full_segments_flight [OF assms(1-3) order_refl eff] by blast
  moreover from this(3) lt False have "0 < m" "b - m < unat (snd_mss c)" by (cases m; simp)+
  ultimately show ?thesis using False by (auto simp: send_bytes_def)
qed

lemma beyond_fin: "sendq_inv q \<Longrightarrow> getBytesAvailable q (q_end q + 1) = 0"
  by (simp add: getBytesAvailable_def seqLess_def unsigned_minus_1_eq_mask mask_eq_exp_minus_1)

text \<open>The left-over of the window when it covers the rest of the stream.\<close>

lemma last_segment_flight:
  assumes "flight c m ms c'" and "same_ends c c'" and "sending c" and "in_stream c" and "b \<le> length (stream_at c)"
    and "m \<le> b" and "0 < m" and "b - m < unat (snd_mss c)"
  defines "buffered \<equiv> getBytesAvailable (sendQueue c') (snd_nxt c')"
  shows "\<exists>c'' ms' m'. (if b - m = buffered \<and> buffered \<noteq> 0 then sendSegment (of_nat (b - m)) c' else Inr c') = Inr c''
    \<and> flight c m' ms' c'' \<and> same_ends c c'' \<and> m' \<le> b \<and> 0 < m' \<and> b - m' < unat (snd_mss c)"
proof (cases "b - m = buffered \<and> buffered \<noteq> 0")
  case False
  then show ?thesis using assms by auto
next
  case True
  have f: "sender_frame c c'" using assms(1) by (simp add: flight_def)
  have q: "sendq_inv (sendQueue c)" using assms(3) by (simp add: sending_def)
  have nofin: "\<not> (0 < m \<and> fin_follows m c)"
  proof
    assume fin: "0 < m \<and> fin_follows m c"
    then have "snd_nxt c' = q_end (sendQueue c) + 1"
      using assms(1,3,4) fin_reached [OF assms(3,4), of m] by (simp add: flight_def sending_def)
    then have "buffered = 0" using f beyond_fin [OF q] by (simp add: buffered_def sender_frame_def)
    then show False using True by simp
  qed
  have nxt: "stream_at c' = drop m (stream_at c)" "in_stream c'" "sending c'"
    using flight_next [OF assms(1,4,3) nofin] by auto
  have buf: "buffered = length (stream_at c')"
    unfolding buffered_def by (rule available_is_stream [OF nxt(3,2)])
  have w: "unat (of_nat (b - m) :: u32) = b - m"
    by (rule unat_of_nat_u32) (use True buf stream_short [OF nxt(3)] in simp)
  then have w0: "(of_nat (b - m) :: u32) \<noteq> 0" using True by auto
  have ne: "stream_at c' \<noteq> []" using True buf by auto
  have n: "segment_size (b - m) c' = segment_size (unat (of_nat (b - m) :: u32)) c'" by (simp only: w)
  obtain c'' ms' where run: "sendSegment (of_nat (b - m)) c' = Inr c''" "flight c' (segment_size (b - m) c') ms' c''"
      "same_ends c' c''"
    using sendSegment_flight [OF nxt(3,2) ne w0 n] by blast
  have fl: "flight c (m + segment_size (b - m) c') (ms @ ms') c''"
    by (rule flight_trans [OF assms(1) run(2) assms(4,3) nofin])
  have ss: "segment_size (b - m) c' \<le> b - m" by (simp add: segment_size_def)
  have "m + segment_size (b - m) c' \<le> b" "b - (m + segment_size (b - m) c') < unat (snd_mss c)"
    using ss assms(6,8) by simp_all
  then show ?thesis
    using True run(1) fl same_ends_trans [OF assms(2) run(3)] assms(7) by auto
qed

text \<open>Where \<open>sendData\<close> starts, and how many octets it may and can send from there.\<close>

definition send_start :: "('a, 't) tcp_conn \<Rightarrow> ('a, 't) tcp_conn" where
  "send_start c = (if \<not> afterRto c then c\<lparr>snd_nxt := snd_max c\<rparr> else c)"

definition allowance :: "u32 \<Rightarrow> ('a, 't) tcp_conn \<Rightarrow> nat" where
  "allowance cwnd c = min (unat (min (snd_wnd c) cwnd) - word_dist (snd_una c) (snd_nxt c)) (length (stream_at c))"

lemma flight_untouched: "flight c m ms c' \<Longrightarrow> untouched c' c'' \<Longrightarrow> flight c m ms c''"
  by (auto simp: flight_def untouched_def intro: sender_frame_trans)

lemma flight_raise_snd_max: "flight c m ms c' \<Longrightarrow> flight c m ms (raise_snd_max c')"
  by (auto simp: flight_def raise_snd_max_def sender_frame_def)

lemma raise_snd_max_bound: "\<not> seqGreater (snd_nxt (raise_snd_max c)) (snd_max (raise_snd_max c))"
  by (simp add: raise_snd_max_def seqGreater_def)

lemma usable_window:
  "nat (uint (w :: u32) - uint (x - y)) = unat w - word_dist y x"
  by (simp only: word_dist_def nat_diff_distrib' unsigned_greater_eq nat_uint_eq)

context quiet_algorithm
begin

lemma notified:
  assumes "ready (algo c)" and "flight c0 m ms c" and "\<not> sack_enabled c"
  shows "\<exists>c'. bindE (ackSent alg (raise_snd_max c)) (\<lambda>c4. bindE (notify_sent alg (sack_enabled c4 \<and> P c4) s c4)
      (\<lambda>c5. Inr (True, c5))) = Inr (True, c') \<and> flight c0 m ms c' \<and> \<not> seqGreater (snd_nxt c') (snd_max c')"
proof -
  have r: "ready (algo (raise_snd_max c))" using assms(1) by (simp add: raise_snd_max_def)
  obtain c4 where c4: "ackSent alg (raise_snd_max c) = Inr c4" "untouched (raise_snd_max c) c4" "ready (algo c4)"
    using ackSent_quiet [OF r] by blast
  obtain c5 where c5: "dataSent alg s c4 = Inr c5" "untouched c4 c5" using dataSent_quiet [OF c4(3)] by blast
  have "\<not> sack_enabled c4"
    using assms(3) c4(2) by (simp add: untouched_def sender_frame_def raise_snd_max_def)
  moreover have u: "untouched (raise_snd_max c) c5" using c4(2) c5(2) by (rule untouched_trans)
  ultimately show ?thesis
    using c4 c5 flight_untouched [OF flight_raise_snd_max [OF assms(2)] u] raise_snd_max_bound [of c]
    by (simp add: notify_sent_def untouched_def)
qed

lemma sendData_flight:
  assumes "ready (algo c0)" and "sending c0" and "in_stream (send_start c0)"
    and c_def: "c = send_start c0" and b_def: "b = allowance cwnd c"
  shows "\<exists>sent c' ms m. sendData alg full cwnd c0 = Inr (sent, c') \<and> flight c m ms c' \<and> m \<le> b \<and> (sent \<longleftrightarrow> 0 < m)
    \<and> (full \<and> b < unat (snd_mss c) - data_options c \<or> b - m < unat (snd_mss c))
    \<and> (sent \<longrightarrow> \<not> seqGreater (snd_nxt c') (snd_max c'))"
proof -
  have c: "sending c" "in_stream c" "ready (algo c)" "\<not> sack_enabled c"
    using assms by (auto simp: c_def send_start_def sending_def data_options_def)
  have avail: "getBytesAvailable (sendQueue c) (snd_nxt c) = length (stream_at c)"
    by (rule available_is_stream [OF c(1,2)])
  have b: "b = min (unat (min (snd_wnd c) cwnd) - word_dist (snd_una c) (snd_nxt c)) (length (stream_at c))"
    by (simp add: b_def allowance_def)
  define win where "win = uint (min (snd_wnd c) cwnd) - uint (snd_nxt c - snd_una c)"
  have win: "nat win = unat (min (snd_wnd c) cwnd) - word_dist (snd_una c) (snd_nxt c)"
    unfolding win_def by (rule usable_window)
  have stop: "length (stream_at c) = 0 \<or> win \<le> 0 \<longleftrightarrow> b = 0"
    unfolding b win [symmetric] by (auto simp: min_def)
  have mss: "data_options c < unat (snd_mss c)" using c(1) by (simp add: sending_def)
  have olt: "of_nat (data_options c) < snd_mss c" "unat (snd_mss c - of_nat (data_options c)) = unat (snd_mss c) - data_options c"
  proof -
    have "data_options c \<le> 12" by (simp add: data_options_def)
    then have o: "unat (of_nat (data_options c) :: u32) = data_options c" by (intro unat_of_nat_u32) simp
    then show lt: "of_nat (data_options c) < snd_mss c" using mss by (simp add: word_less_nat_alt)
    show "unat (snd_mss c - of_nat (data_options c)) = unat (snd_mss c) - data_options c"
      using unat_sub [of "of_nat (data_options c)" "snd_mss c"] lt o by simp
  qed
  obtain tmp where tmp: "writeHeaderOptions (new_header\<lparr>ackBit := True\<rparr>) c = Inr (tmp, c)"
      "headerLength tmp = TCP_MIN_HEADER_LENGTH + data_options c"
    using plain_options [OF c(4)] by auto
  let ?eff = "unat (snd_mss c) - data_options c"
  have start: "sendData alg full cwnd c0 =
     (if length (stream_at c) = 0 \<or> win \<le> 0 then Inr (False, c)
      else if full \<and> b < ?eff then Inr (False, c)
      else bindE (send_bytes ?eff b c) (\<lambda>(left, c2).
        let buffered2 = getBytesAvailable (sendQueue c2) (snd_nxt c2) in
        bindE (if left = buffered2 \<and> buffered2 \<noteq> 0 then sendSegment (of_nat left) c2 else Inr c2) (\<lambda>c3.
        bindE (ackSent alg (raise_snd_max c3)) (\<lambda>c4.
        bindE (notify_sent alg (sack_enabled c4 \<and> lossRecovery c4 \<and>
                 (if sack_enabled c then getHighestRexmittedSeqNum (rexmitQ c) else 0) \<noteq> highRxt c4) (snd_nxt c) c4)
          (\<lambda>c5. Inr (True, c5))))))"
    unfolding sendData_def send_start_def [symmetric] c_def [symmetric] Let_def win_def [symmetric] avail
    using tmp olt by (simp add: b win)
  show ?thesis
  proof (cases "b = 0 \<or> full \<and> b < ?eff")
    case True
    then have "sendData alg full cwnd c0 = Inr (False, c)"
      by (cases "b = 0") (simp_all only: start stop, simp_all)
    then show ?thesis
      using True flight_none [OF c(2)] mss
      by (intro exI [of _ False] exI [of _ c] exI [of _ "[]"] exI [of _ 0]) auto
  next
    case False
    have ble: "b \<le> length (stream_at c)" "0 < b" using b False by auto
    obtain c2 ms m where c2: "send_bytes ?eff b c = Inr (b - m, c2)" "m \<le> b" "0 < m" "b - m < unat (snd_mss c)"
        "flight c m ms c2" "same_ends c c2"
      using send_bytes_flight [OF c(1,2) ble refl] by blast
    obtain c3 ms' m' where c3: "(if b - m = getBytesAvailable (sendQueue c2) (snd_nxt c2)
          \<and> getBytesAvailable (sendQueue c2) (snd_nxt c2) \<noteq> 0 then sendSegment (of_nat (b - m)) c2 else Inr c2) = Inr c3"
        "flight c m' ms' c3" "same_ends c c3" "m' \<le> b" "0 < m'" "b - m' < unat (snd_mss c)"
      using last_segment_flight [OF c2(5,6) c(1,2) ble(1) c2(2,3,4)] by blast
    have r: "ready (algo c3)" "\<not> sack_enabled c3"
      using c3(2,3) c(3,4) by (auto simp: same_ends_def flight_def sender_frame_def)
    have "sendData alg full cwnd c0 = bindE (ackSent alg (raise_snd_max c3)) (\<lambda>c4.
        bindE (notify_sent alg (sack_enabled c4 \<and> lossRecovery c4 \<and>
                 (if sack_enabled c then getHighestRexmittedSeqNum (rexmitQ c) else 0) \<noteq> highRxt c4) (snd_nxt c) c4)
          (\<lambda>c5. Inr (True, c5)))"
      using False c3(1) by (simp only: start stop de_Morgan_disj c2(1) if_False bindE_Inr prod.case Let_def)
    then show ?thesis
      using notified [OF r(1) c3(2) r(2)] c3(4-6) by fastforce
  qed
qed

end

text \<open>\<open>DumbTcp\<close> only restarts its retransmission timer.\<close>

interpretation dumb: quiet_algorithm dumb_hooks "\<lambda>t. rexmitTimer t \<noteq> Deleted"
proof
  fix s and c :: "('a, dumb_state) tcp_conn"
  assume ready: "rexmitTimer (algo c) \<noteq> Deleted"
  then show "\<exists>c'. dataSent dumb_hooks s c = Inr c' \<and> untouched c c' \<and> rexmitTimer (algo c') \<noteq> Deleted"
    by (cases "rexmitTimer (algo c)")
      (simp_all add: dumb_hooks_def dumb_dataSent_def schedule_rexmit_def cancel_rexmit_def untouched_def sender_frame_def)
  show "\<exists>c'. ackSent dumb_hooks c = Inr c' \<and> untouched c c' \<and> rexmitTimer (algo c') \<noteq> Deleted"
    "\<exists>c'. restartRexmitTimer dumb_hooks c = Inr c' \<and> untouched c c' \<and> rexmitTimer (algo c') \<noteq> Deleted"
    using ready by (simp_all add: dumb_hooks_def untouched_def)
qed

section \<open>Properties\<close>

text \<open>
  C13. \<open>sendData\<close> without SACK never fails: it sends a flight of correctly numbered segments
  with exactly the next octets of the application's stream, each within the maximum segment
  size, the FIN on the last segment and only with the end of the stream. It never sends past
  the smaller of the peer's window and the congestion window, and, unless it was told to send
  full segments only, leaves less than one segment size of the usable window unused.
\<close>

theorem sendData_within_window:
  fixes c0 :: "('a, dumb_state) tcp_conn"
  assumes "rexmitTimer (algo c0) \<noteq> Deleted" and "sending c0" and "in_stream (send_start c0)"
  shows "\<exists>sent c' ms m. sendData dumb_hooks full cwnd c0 = Inr (sent, c') \<and> flight (send_start c0) m ms c'
    \<and> m \<le> allowance cwnd (send_start c0) \<and> (sent \<longleftrightarrow> 0 < m)
    \<and> (full \<and> allowance cwnd (send_start c0) < unat (snd_mss (send_start c0)) - data_options (send_start c0)
       \<or> allowance cwnd (send_start c0) - m < unat (snd_mss (send_start c0)))
    \<and> (sent \<longrightarrow> \<not> seqGreater (snd_nxt c') (snd_max c'))"
  by (rule dumb.sendData_flight [OF assms refl refl])

definition example_sender :: "(char, dumb_state) tcp_conn" where
  "example_sender = (example_conn dumb_init)\<lparr>fsm := TCP_S_ESTABLISHED, snd_mss := 4, snd_wnd := 6,
     snd_una := 1, snd_nxt := 1, snd_max := 1, sendQueue := \<lparr>q_begin = 1, q_end = 11, dataBuffer = ''abcdefghij''\<rparr>\<rparr>"

lemma example_sender_ok:
  "rexmitTimer (algo example_sender) \<noteq> Deleted" "sending example_sender" "in_stream (send_start example_sender)"
  "allowance 65535 (send_start example_sender) = 6" "snd_mss (send_start example_sender) = 4"
  "stream_at (send_start example_sender) = ''abcdefghij''" "data_options (send_start example_sender) = 0"
  by (simp_all add: example_sender_def example_conn_defs dumb_init_def sending_def sendq_inv_def data_options_def
      in_stream_def send_start_def allowance_def stream_at_def word_dist_def)

theorem sendData_within_window_witness:
  "\<exists>c' ms m. sendData dumb_hooks False 65535 example_sender = Inr (True, c')
    \<and> carried ms = take m ''abcdefghij'' \<and> 2 < m \<and> m \<le> 6 \<and> \<not> carries_fin ms"
proof -
  obtain sent c' ms m where *: "sendData dumb_hooks False 65535 example_sender = Inr (sent, c')"
    "flight (send_start example_sender) m ms c'" "m \<le> 6" "sent \<longleftrightarrow> 0 < m" "6 - m < 4"
    using sendData_within_window [OF example_sender_ok(1-3), of False 65535] by (auto simp: example_sender_ok)
  have "\<not> send_fin (send_start example_sender)" by (simp add: example_sender_def example_conn_defs send_start_def)
  then have "carried ms = take m ''abcdefghij'' \<and> 2 < m \<and> m \<le> 6 \<and> \<not> carries_fin ms \<and> sent"
    using * by (auto simp: flight_def fin_follows_def example_sender_ok(6))
  then show ?thesis using *(1) by (intro exI [of _ c'] exI [of _ ms] exI [of _ m]) simp
qed

end
