(* ===== verification/Tcp_Delivery.thy ===== *)
theory Tcp_Delivery
  imports Tcp_Transmit_Laws
begin

text \<open>
  The two ends together: the segments one end sends, received by the queue of the other end in
  any order and any number of times, are the stream again.
\<close>

section \<open>Pieces of a stream\<close>

definition piece_of :: "'a list \<Rightarrow> nat \<times> 'a list \<Rightarrow> bool" where
  "piece_of xs = (\<lambda>(k, p). p \<noteq> [] \<and> k + length p \<le> length xs \<and> p = take (length p) (drop k xs))"

definition store_piece :: "int \<Rightarrow> nat \<times> 'a list \<Rightarrow> 'a receive_queue \<Rightarrow> 'a receive_queue outcome" where
  "store_piece start kp q =
     bindE (insertBytesFromSegment q (offsetToSeq (start + int (fst kp))) (snd kp)) (\<lambda>(nxt, q'). Inr q')"

text \<open>The queue holds nothing but octets of the stream.\<close>

definition holds :: "int \<Rightarrow> 'a list \<Rightarrow> 'a receive_queue \<Rightarrow> bool" where
  "holds start xs q \<longleftrightarrow> recvq_inv q \<and> rq_expected q = start
     \<and> (\<forall>i. contents (rq_regions q) i \<noteq> None \<longrightarrow> start \<le> i \<and> i < start + int (length xs)
          \<and> contents (rq_regions q) i = Some (xs ! nat (i - start)))"

definition has_piece :: "int \<Rightarrow> 'a receive_queue \<Rightarrow> nat \<times> 'a list \<Rightarrow> bool" where
  "has_piece start q = (\<lambda>(k, p). \<forall>j < length p. contents (rq_regions q) (start + int (k + j)) \<noteq> None)"

lemma store_piece_holds:
  assumes "holds start xs q" and "piece_of xs (k, p)" and "length xs < 2 ^ 30"
  shows "\<exists>q'. store_piece start (k, p) q = Inr q' \<and> holds start xs q' \<and> has_piece start q' (k, p)
    \<and> (\<forall>y. has_piece start q y \<longrightarrow> has_piece start q' y)"
proof -
  have q: "recvq_inv q" "rq_expected q = start" using assms(1) by (simp_all add: holds_def)
  have p: "p \<noteq> []" "k + length p \<le> length xs" "p = take (length p) (drop k xs)"
    using assms(2) by (simp_all add: piece_of_def)
  have pos: "0 < length p" using p(1) by simp
  obtain q' where run: "insertBytesFromSegment q (offsetToSeq (start + int k)) p = Inr (rq_rcv_nxt q', q')"
      and inv: "recvq_inv q'" "rq_expected q' = start"
      and cont: "\<And>i. contents (rq_regions q') i = (if max (start + int k) start \<le> i \<and> i < start + int k + int (length p)
          then Some (p ! nat (i - (start + int k))) else contents (rq_regions q) i)"
    using insertBytesFromSegment_spec [OF q(1) p(1), of "start + int k"] q(2) p(2) pos assms(3) by auto
  have elem: "p ! nat (i - (start + int k)) = xs ! nat (i - start)"
    if "start + int k \<le> i" "i < start + int k + int (length p)" for i
  proof -
    have "p ! nat (i - (start + int k)) = drop k xs ! nat (i - (start + int k))"
      using that by (subst p(3)) simp
    also have "\<dots> = xs ! (k + nat (i - (start + int k)))" using p(2) by simp
    also have "k + nat (i - (start + int k)) = nat (i - start)" using that by linarith
    finally show ?thesis .
  qed
  have "holds start xs q'"
    using inv assms(1) p(2) by (auto simp: holds_def cont elem)
  moreover have "has_piece start q' (k, p)" by (auto simp: has_piece_def cont)
  moreover have "has_piece start q y \<longrightarrow> has_piece start q' y" for y
    by (auto simp: has_piece_def cont split: prod.splits)
  ultimately show ?thesis using run by (auto simp: store_piece_def)
qed

lemma store_pieces_hold:
  assumes "holds start xs q" and "\<forall>x \<in> set ps. piece_of xs x" and "length xs < 2 ^ 30"
  shows "\<exists>q'. foldE (store_piece start) ps q = Inr q' \<and> holds start xs q'
    \<and> (\<forall>x \<in> set ps. has_piece start q' x) \<and> (\<forall>y. has_piece start q y \<longrightarrow> has_piece start q' y)"
  using assms(1,2)
proof (induction ps arbitrary: q)
  case (Cons x ps)
  obtain k p where x: "x = (k, p)" by force
  obtain q1 where q1: "store_piece start x q = Inr q1" "holds start xs q1" "has_piece start q1 x"
      "\<forall>y. has_piece start q y \<longrightarrow> has_piece start q1 y"
    using store_piece_holds [OF Cons.prems(1) _ assms(3), of k p] Cons.prems(2) x by auto
  obtain q' where q': "foldE (store_piece start) ps q1 = Inr q'" "holds start xs q'"
      "\<forall>x \<in> set ps. has_piece start q' x" "\<forall>y. has_piece start q1 y \<longrightarrow> has_piece start q' y"
    using Cons.IH [OF q1(2)] Cons.prems(2) by auto
  then have "has_piece start q' x" using q1(3) by blast
  then show ?case using q1(1,4) q' by auto
qed simp

lemma complete_stream_extracted:
  assumes "holds start xs q" and "xs \<noteq> []"
    and all: "\<forall>j < length xs. contents (rq_regions q) (start + int j) \<noteq> None"
  shows "\<exists>q'. extractBytesUpTo q (offsetToSeq (start + int (length xs))) = Inr (Some xs, q')"
proof -
  let ?s = "start + int (length xs)"
  have q: "recvq_inv q" "rq_expected q = start" using assms(1) by (simp_all add: holds_def)
  have "?s \<le> in_order_end q"
  proof (rule ccontr)
    assume "\<not> ?s \<le> in_order_end q"
    moreover have "start \<le> in_order_end q" using in_order_end_bounds [OF q(1)] q(2) by auto
    ultimately have "contents (rq_regions q) (in_order_end q) \<noteq> None"
      using all [rule_format, of "nat (in_order_end q - start)"] by simp
    then show False using in_order_end_contents [OF q(1)] by simp
  qed
  moreover have "rq_expected q < ?s" using assms(2) q(2) by simp
  ultimately obtain data q' where ext: "extractBytesUpTo q (offsetToSeq ?s) = Inr (Some data, q')"
      "int (length data) = ?s - start"
      "\<forall>k < length data. contents (rq_regions q) (start + int k) = Some (data ! k)"
    using extractBytesUpTo_spec [OF q(1)] q(2) by metis
  have "data = xs"
  proof (rule nth_equalityI)
    show "length data = length xs" using ext(2) by simp
    fix i assume "i < length data"
    then have "contents (rq_regions q) (start + int i) = Some (data ! i)" using ext(3) by simp
    moreover from this have "contents (rq_regions q) (start + int i) = Some (xs ! nat (start + int i - start))"
      using assms(1) unfolding holds_def by (metis option.discI)
    ultimately show "data ! i = xs ! i" by simp
  qed
  then show ?thesis using ext(1) by blast
qed

section \<open>A flight as pieces of the stream\<close>

text \<open>What arrives of a flight: sequence number and payload of every segment.\<close>

fun arrivals :: "'a tcp_output list \<Rightarrow> (u32 \<times> 'a list) list" where
  "arrivals [] = []"
| "arrivals (ToIP h p src dest e # ms) = (sequenceNo h, p) # arrivals ms"
| "arrivals (m # ms) = arrivals ms"

definition receive_one :: "u32 \<times> 'a list \<Rightarrow> 'a receive_queue \<Rightarrow> 'a receive_queue outcome" where
  "receive_one sp q = bindE (insertBytesFromSegment q (fst sp) (snd sp)) (\<lambda>(nxt, q'). Inr q')"

text \<open>The same segments by their position in the stream.\<close>

fun pieces :: "nat \<Rightarrow> 'a tcp_output list \<Rightarrow> (nat \<times> 'a list) list" where
  "pieces k [] = []"
| "pieces k (ToIP h p src dest e # ms) = (k, p) # pieces (k + length p) ms"
| "pieces k (m # ms) = pieces k ms"

lemma arrivals_pieces:
  "numbered (offsetToSeq (start + int k)) ms \<Longrightarrow>
     arrivals ms = map (\<lambda>(k, p). (offsetToSeq (start + int k), p)) (pieces k ms)"
proof (induction k ms rule: pieces.induct)
  case (2 k h p src dest e ms)
  have "offsetToSeq (start + int k) + of_nat (length p) = offsetToSeq (start + int (k + length p))"
    by (simp add: offsetToSeq_add add.assoc)
  then show ?case using 2 by simp
qed simp_all

lemma pieces_are_pieces:
  "within_mss mss ms \<Longrightarrow> \<forall>x \<in> set (pieces (length pre) ms). piece_of (pre @ carried ms) x"
proof (induction ms arbitrary: pre rule: carried.induct)
  case (2 h p src dest e ms)
  have "\<forall>x \<in> set (pieces (length (pre @ p)) ms). piece_of ((pre @ p) @ carried ms) x"
    by (rule 2(1)) (use 2(2) in simp)
  then show ?case using 2(2) by (simp add: piece_of_def)
qed simp_all

lemma pieces_cover:
  "j < length (carried ms) \<Longrightarrow> \<exists>(i, p) \<in> set (pieces k ms). i \<le> k + j \<and> k + j < i + length p"
proof (induction k ms arbitrary: j rule: pieces.induct)
  case (2 k h p src dest e ms)
  show ?case
  proof (cases "j < length p")
    case False
    have "j - length p < length (carried ms)" using 2(2) False by simp
    from 2(1) [OF this] show ?thesis using False by auto
  qed auto
qed simp_all

lemma receive_one_piece: "receive_one (offsetToSeq (start + int k), p) = store_piece start (k, p)"
  by (simp add: fun_eq_iff receive_one_def store_piece_def)

lemma foldE_map: "foldE f (map g xs) s = foldE (\<lambda>x. f (g x)) xs s"
  by (induction xs arbitrary: s) (simp_all add: bindE_def split: sum.split)

lemma reordering_of_map:
  assumes "set ys = set (map g xs)" and "inj_on g (set xs)"
  shows "\<exists>zs. ys = map g zs \<and> set zs = set xs"
proof (intro exI conjI)
  let ?zs = "map (inv_into (set xs) g) ys"
  show "ys = map g ?zs"
  proof (rule nth_equalityI)
    fix i assume "i < length ys"
    then have "ys ! i \<in> g ` set xs" using assms(1) nth_mem by force
    then show "ys ! i = map g ?zs ! i" using \<open>i < length ys\<close> by (simp add: f_inv_into_f)
  qed simp
  have "set ?zs = inv_into (set xs) g ` g ` set xs" using assms(1) by simp
  then show "set ?zs = set xs" using assms(2) by (simp add: inv_into_image_cancel)
qed

lemma pieces_inject:
  assumes "length xs < 2 ^ 30" and "\<forall>x \<in> set ps. piece_of xs x"
  shows "inj_on (\<lambda>(k, p). (offsetToSeq (start + int k), p)) (set ps)"
proof (rule inj_onI)
  fix x y
  assume *: "x \<in> set ps" "y \<in> set ps"
    "(case x of (k, p) \<Rightarrow> (offsetToSeq (start + int k), p)) = (case y of (k, p) \<Rightarrow> (offsetToSeq (start + int k), p))"
  obtain k p k' p' where xy: "x = (k, p)" "y = (k', p')" by force
  have "k < 2 ^ 30" "k' < 2 ^ 30" using assms * xy by (auto simp: piece_of_def)
  then show "x = y" using *(3) xy offsetToSeq_inject [of "start + int k" "start + int k'"] by auto
qed

section \<open>Property\<close>

text \<open>
  C14. Whatever the network does to the segments of a flight short of losing one for good:
  reordering and duplicating them, the receiving queue takes them all without an error, and
  then hands out the octets of the sender's stream, unchanged and in order.
\<close>

theorem flight_delivered:
  assumes "flight c m ms c'" and "0 < m" and "m < 2 ^ 30"
    and "recvq_inv q" and "rq_regions q = []" and "snd_nxt c = offsetToSeq (rq_expected q)"
    and "set received = set (arrivals ms)"
  shows "\<exists>q' q''. foldE receive_one received q = Inr q' \<and> recvq_inv q'
    \<and> extractBytesUpTo q' (snd_nxt c + of_nat m) = Inr (Some (take m (stream_at c)), q'')"
proof -
  let ?xs = "take m (stream_at c)" and ?start = "rq_expected q"
  have fl: "carried ms = ?xs" "length ?xs = m" "within_mss (snd_mss c) ms" "numbered (offsetToSeq ?start) ms"
    using assms(1,6) by (simp_all add: flight_def)
  define ps where "ps = pieces 0 ms"
  have ps: "\<forall>x \<in> set ps. piece_of ?xs x"
    using pieces_are_pieces [OF fl(3), of "[]"] by (simp add: ps_def fl(1))
  have short: "length ?xs < 2 ^ 30" using assms(3) fl(2) by simp
  have "arrivals ms = map (\<lambda>(k, p). (offsetToSeq (?start + int k), p)) ps"
    using arrivals_pieces [of ?start 0 ms] fl(4) by (simp add: ps_def)
  then obtain zs where zs: "received = map (\<lambda>(k, p). (offsetToSeq (?start + int k), p)) zs" "set zs = set ps"
    using reordering_of_map [OF _ pieces_inject [OF short ps]] assms(7) by metis
  have run: "foldE receive_one received q = foldE (store_piece ?start) zs q"
    unfolding zs(1) foldE_map by (simp add: case_prod_beta' receive_one_piece)
  have h0: "holds ?start ?xs q" using assms(4,5) by (simp add: holds_def)
  obtain q' where q': "foldE (store_piece ?start) zs q = Inr q'" "holds ?start ?xs q'"
      "\<forall>x \<in> set zs. has_piece ?start q' x"
    using store_pieces_hold [OF h0 _ short, of zs] ps zs(2) by auto
  have "contents (rq_regions q') (?start + int j) \<noteq> None" if j: "j < length ?xs" for j
  proof -
    obtain i p where ip: "(i, p) \<in> set ps" "i \<le> j" "j < i + length p"
      using pieces_cover [of j ms 0] j fl(1) by (auto simp: ps_def)
    then have "has_piece ?start q' (i, p)" using q'(3) zs(2) by blast
    then have "contents (rq_regions q') (?start + int (i + (j - i))) \<noteq> None"
      using ip(2,3) unfolding has_piece_def prod.case by (metis less_diff_conv2 add.commute)
    then show ?thesis using ip(2) by simp
  qed
  moreover have "?xs \<noteq> []" using fl(2) assms(2) by auto
  ultimately obtain q'' where "extractBytesUpTo q' (offsetToSeq (?start + int (length ?xs))) = Inr (Some ?xs, q'')"
    using complete_stream_extracted [OF q'(2)] by blast
  moreover have "offsetToSeq (?start + int (length ?xs)) = snd_nxt c + of_nat m"
    using fl(2) assms(6) by (simp add: offsetToSeq_add)
  ultimately show ?thesis using q'(1,2) run by (auto simp: holds_def)
qed

theorem flight_delivered_witness:
  "\<exists>c' ms. sendData dumb_hooks False 65535 example_sender = Inr (True, c')
    \<and> (\<exists>m q' q''. 2 < m \<and> foldE receive_one (rev (arrivals ms) @ arrivals ms) (recvq_init 1) = Inr q'
      \<and> extractBytesUpTo q' (1 + of_nat m) = Inr (Some (take m ''abcdefghij''), q''))"
proof -
  obtain sent c' ms m where *: "sendData dumb_hooks False 65535 example_sender = Inr (sent, c')"
    "flight (send_start example_sender) m ms c'" "m \<le> 6" "sent \<longleftrightarrow> 0 < m" "6 - m < 4"
    using dumb.sendData_flight [OF example_sender_ok(1-3) refl refl, of False 65535]
    by (auto simp: example_sender_ok)
  have s: "snd_nxt (send_start example_sender) = 1" "rq_expected (recvq_init 1) = 1" "rq_regions (recvq_init 1) = []"
    by (simp_all add: send_start_def example_sender_def example_conn_defs recvq_init_def)
  have m: "0 < m" "m < 2 ^ 30" "2 < m" using *(3,5) by simp_all
  have "set (rev (arrivals ms) @ arrivals ms) = set (arrivals ms)" by simp
  from flight_delivered [OF *(2) m(1,2) recvq_init_inv s(3) _ this] show ?thesis
    using * m(3) by (auto simp: s example_sender_ok(6) offsetToSeq_def)
qed

end
