(* ===== verification/Tcp_Base_Alg.thy ===== *)
theory Tcp_Base_Alg
  imports Tcp_Transmit_Laws
begin

text \<open>
  \<open>transportlayer/tcp/flavours/TcpBaseAlg.cc\<close>: what the algorithms with congestion control share,
  the retransmission and its timeout, the persist timer, delayed acknowledgements and Nagle's
  algorithm. \<open>gain\<close> is the simulator's product of the \<open>double\<close> 0.125 and a time, which it
  rounds. The functions that the flavours override are arguments of those that call them.
\<close>

section \<open>State\<close>

record base_alg =
  rexmit_count :: int
  rexmit_timeout :: simtime
  persist_factor :: u32
  persist_timeout :: simtime
  snd_cwnd :: u32
  rtseq :: u32
  rtseq_sendtime :: simtime
  srtt :: simtime
  rttvar :: simtime
  numRtos :: u32
  recover :: u32
  firstPartialACK :: bool
  eceReactionTime :: simtime
  ba_timers :: "alg_timer \<Rightarrow> timer"

definition DELAYED_ACK_TIMEOUT :: simtime where "DELAYED_ACK_TIMEOUT = 2 * 10 ^ 11"
definition MAX_REXMIT_COUNT :: int where "MAX_REXMIT_COUNT = 12"
definition MIN_RTO :: simtime where "MIN_RTO = seconds 1"
definition MAX_RTO :: simtime where "MAX_RTO = seconds 240"
definition MIN_PERSIST_TIMEOUT :: simtime where "MIN_PERSIST_TIMEOUT = seconds 5"
definition MAX_PERSIST_TIMEOUT :: simtime where "MAX_PERSIST_TIMEOUT = seconds 60"

definition base_alg_new :: base_alg where
  "base_alg_new =
     \<lparr>rexmit_count = 0, rexmit_timeout = seconds 3, persist_factor = 0, persist_timeout = seconds 5,
      snd_cwnd = 0, rtseq = 0, rtseq_sendtime = 0, srtt = 0, rttvar = 75 * 10 ^ 10, numRtos = 0,
      recover = 0, firstPartialACK = False, eceReactionTime = 0, ba_timers = (\<lambda>_. Idle)\<rparr>"

type_synonym ('a, 'm) base_step = "('a, 'm base_alg_scheme) tcp_step"

definition upd_algo :: "('t \<Rightarrow> 't) \<Rightarrow> ('a, 't) tcp_conn \<Rightarrow> ('a, 't) tcp_conn" where
  "upd_algo f c = c\<lparr>algo := f (algo c)\<rparr>"

definition set_cwnd :: "u32 \<Rightarrow> ('a, 'm base_alg_scheme) tcp_conn \<Rightarrow> ('a, 'm base_alg_scheme) tcp_conn" where
  "set_cwnd w = upd_algo (\<lambda>s. s\<lparr>snd_cwnd := w\<rparr>)"

abbreviation cwnd :: "('a, 'm base_alg_scheme) tcp_conn \<Rightarrow> u32" where
  "cwnd c \<equiv> snd_cwnd (algo c)"

abbreviation alg_timer_of :: "alg_timer \<Rightarrow> ('a, 'm base_alg_scheme) tcp_conn \<Rightarrow> timer" where
  "alg_timer_of x c \<equiv> ba_timers (algo c) x"

definition set_timer :: "alg_timer \<Rightarrow> timer \<Rightarrow> ('a, 'm base_alg_scheme) tcp_conn \<Rightarrow> ('a, 'm base_alg_scheme) tcp_conn" where
  "set_timer x t = upd_algo (\<lambda>s. s\<lparr>ba_timers := (ba_timers s)(x := t)\<rparr>)"

definition cancel_timer :: "alg_timer \<Rightarrow> ('a, 'm base_alg_scheme) tcp_conn \<Rightarrow> ('a, 'm base_alg_scheme) tcp_conn" where
  "cancel_timer x c = set_timer x (cancelIfThere (alg_timer_of x c)) c"

definition schedule_timer :: "alg_timer \<Rightarrow> simtime \<Rightarrow> ('a, 'm) base_step" where
  "schedule_timer x timeout c =
     bindE (schedule (alg_timer_of x c) (now c + timeout)) (\<lambda>t. Inr (set_timer x t c))"

section \<open>The callbacks of the output functions\<close>

definition startRexmitTimer :: "('a, 'm) base_step" where
  "startRexmitTimer c =
     schedule_timer RexmitTimer (rexmit_timeout (algo c)) (upd_algo (\<lambda>s. s\<lparr>rexmit_count := 0\<rparr>) c)"

definition base_restartRexmitTimer :: "('a, 'm) base_step" where
  "base_restartRexmitTimer c =
     startRexmitTimer (if isScheduled (alg_timer_of RexmitTimer c) then cancel_timer RexmitTimer c else c)"

definition base_ackSent :: "('a, 'm) base_step" where
  "base_ackSent c =
     (let c1 = c\<lparr>full_sized_segment_counter := 0, ack_now := False, last_ack_sent := rcv_nxt c\<rparr> in
      Inr (if isScheduled (alg_timer_of DelayedAckTimer c1) then cancel_timer DelayedAckTimer c1 else c1))"

definition base_dataSent :: "u32 \<Rightarrow> ('a, 'm) base_step" where
  "base_dataSent fromseq c =
     bindE (if \<not> isScheduled (alg_timer_of RexmitTimer c) then startRexmitTimer c else Inr c) (\<lambda>c1.
     Inr ((if \<not> ts_enabled c1 \<and> rtseq_sendtime (algo c1) = 0
           then upd_algo (\<lambda>s. s\<lparr>rtseq := fromseq, rtseq_sendtime := now c1\<rparr>) c1 else c1)
          \<lparr>time_last_data_sent := now c1\<rparr>))"

definition base_hooks :: "('a, 'm base_alg_scheme) alg_hooks" where
  "base_hooks = \<lparr>ackSent = base_ackSent, dataSent = base_dataSent, segmentRetransmitted = (\<lambda>_ _. Inr),
     restartRexmitTimer = base_restartRexmitTimer\<rparr>"

section \<open>Sending\<close>

definition initial_window :: "('a, 't) tcp_conn \<Rightarrow> u32" where
  "initial_window c = min (4 * snd_mss c) (max (2 * snd_mss c) 4380)"

definition nagle_holds :: "bool \<Rightarrow> ('a, 't) tcp_conn \<Rightarrow> bool" where
  "nagle_holds invoked c \<longleftrightarrow> invoked \<and> nagle_enabled c \<and> snd_una c \<noteq> snd_max c"

text \<open>After an idle period the window starts again.\<close>

definition restart_idle :: "('a, 'm base_alg_scheme) tcp_conn \<Rightarrow> ('a, 'm base_alg_scheme) tcp_conn" where
  "restart_idle c =
     (if \<not> isSendQueueEmpty c \<and> now c - time_last_data_sent c > rexmit_timeout (algo c)
      then set_cwnd (if increased_IW_enabled c then min (initial_window c) (cwnd c) else snd_mss c) c
      else c)"

definition base_sendData :: "bool \<Rightarrow> ('a, 'm base_alg_scheme) tcp_conn \<Rightarrow> (bool \<times> ('a, 'm base_alg_scheme) tcp_conn) outcome" where
  "base_sendData invoked c =
     (let c1 = restart_idle c in sendData base_hooks (nagle_holds invoked c) (cwnd c1) c1)"

definition try_send :: "bool \<Rightarrow> ('a, 'm) base_step" where
  "try_send invoked c = bindE (base_sendData invoked c) (\<lambda>(_, c'). Inr c')"

definition base_established :: "bool \<Rightarrow> ('a, 'm) base_step" where
  "base_established act c =
     (let c1 = set_cwnd (if increased_IW_enabled c \<and> syn_rexmit_count c = 0 then initial_window c else snd_mss c) c in
      if act then
        bindE (base_sendData False c1) (\<lambda>(sent, c2). if sent then Inr c2 else sendAck base_hooks c2)
      else Inr c1)"

definition base_connectionClosed :: "('a, 'm) base_step" where
  "base_connectionClosed c =
     Inr (cancel_timer KeepAliveTimer (cancel_timer DelayedAckTimer (cancel_timer PersistTimer (cancel_timer RexmitTimer c))))"

section \<open>Timers\<close>

text \<open>\<open>processRexmitTimer\<close>: give up after twelve retries, else back off. The flavours then
  adjust the window and retransmit.\<close>

definition base_processRexmitTimer ::
  "('a, 'm base_alg_scheme) tcp_conn \<Rightarrow> (tcp_event \<times> ('a, 'm base_alg_scheme) tcp_conn) outcome" where
  "base_processRexmitTimer c0 =
     (let c = upd_algo (\<lambda>s. s\<lparr>rexmit_count := rexmit_count s + 1\<rparr>) c0 in
      if rexmit_count (algo c) > MAX_REXMIT_COUNT then Inr (TCP_E_ABORT, sendIndicationToApp TCP_I_TIMED_OUT c)
      else
        let c1 = upd_algo (\<lambda>s. s\<lparr>rexmit_timeout := min (rexmit_timeout s + rexmit_timeout s) MAX_RTO\<rparr>) c in
        bindE (schedule_timer RexmitTimer (rexmit_timeout (algo c1)) c1) (\<lambda>c2.
        let c3 = upd_algo (\<lambda>s. s\<lparr>rtseq_sendtime := 0, numRtos := numRtos s + 1\<rparr>) c2;
            c4 = (if sack_enabled c3 then
                    let c' = c3\<lparr>rexmitQ := resetRexmittedBit (resetSackedBit (rexmitQ c3))\<rparr> in
                    if lossRecovery c' then c'\<lparr>recoveryPoint := snd_max c', lossRecovery := False\<rparr> else c'
                  else c3) in
        Inr (TCP_E_IGNORE, c4\<lparr>time_last_data_sent := now c4\<rparr>)))"

text \<open>The two bounds of the persist timeout are stored into \<open>rexmit_timeout\<close>, as in the source.\<close>

definition next_persist :: "'m base_alg_scheme \<Rightarrow> 'm base_alg_scheme" where
  "next_persist s =
     (let f = (if persist_factor s = 0 then 1 else if persist_factor s < 64 then persist_factor s * 2 else persist_factor s);
          s1 = s\<lparr>persist_factor := f, persist_timeout := int (unat f) * 15 * 10 ^ 11\<rparr>;
          s2 = (if persist_timeout s1 < MIN_PERSIST_TIMEOUT then s1\<lparr>rexmit_timeout := MIN_PERSIST_TIMEOUT\<rparr> else s1)
      in if persist_timeout s2 > MAX_PERSIST_TIMEOUT then s2\<lparr>rexmit_timeout := MAX_PERSIST_TIMEOUT\<rparr> else s2)"

definition processPersistTimer :: "('a, 'm) base_step" where
  "processPersistTimer c =
     (let c1 = upd_algo next_persist c in
      bindE (schedule_timer PersistTimer (persist_timeout (algo c1)) c1) (\<lambda>c2.
      bindE (sendProbe base_hooks c2) (\<lambda>(_, c3). Inr c3)))"

definition processDelayedAckTimer :: "('a, 'm) base_step" where
  "processDelayedAckTimer c = sendAck base_hooks (c\<lparr>ack_now := True\<rparr>)"

definition processKeepAliveTimer :: "('a, 'm) base_step" where
  "processKeepAliveTimer c = Inr c"

text \<open>The simulator has taken the message of the timer out of its queue.\<close>

definition base_processTimer ::
  "(('a, 'm base_alg_scheme) tcp_conn \<Rightarrow> (tcp_event \<times> ('a, 'm base_alg_scheme) tcp_conn) outcome) \<Rightarrow>
   alg_timer \<Rightarrow> ('a, 'm base_alg_scheme) tcp_conn \<Rightarrow> (tcp_event \<times> ('a, 'm base_alg_scheme) tcp_conn) outcome" where
  "base_processTimer rexmit_expired x c0 =
     (let c = set_timer x Idle c0 in
      case x of
        RexmitTimer \<Rightarrow> rexmit_expired c
      | PersistTimer \<Rightarrow> bindE (processPersistTimer c) (\<lambda>c'. Inr (TCP_E_IGNORE, c'))
      | DelayedAckTimer \<Rightarrow> bindE (processDelayedAckTimer c) (\<lambda>c'. Inr (TCP_E_IGNORE, c'))
      | KeepAliveTimer \<Rightarrow> bindE (processKeepAliveTimer c) (\<lambda>c'. Inr (TCP_E_IGNORE, c')))"

section \<open>Round-trip times\<close>

definition base_rttMeasurementComplete ::
  "(simtime \<Rightarrow> simtime) \<Rightarrow> simtime \<Rightarrow> simtime \<Rightarrow> 'm base_alg_scheme \<Rightarrow> 'm base_alg_scheme" where
  "base_rttMeasurementComplete gain tSent tAcked s =
     (let newRTT = tAcked - tSent; err = newRTT - srtt s;
          srtt' = srtt s + gain err; rttvar' = rttvar s + gain (\<bar>err\<bar> - rttvar s);
          rto = srtt' + 4 * rttvar'
      in s\<lparr>srtt := srtt', rttvar := rttvar',
           rexmit_timeout := (if rto > MAX_RTO then MAX_RTO else if rto < MIN_RTO then MIN_RTO else rto)\<rparr>)"

definition convertTSToSimtime :: "u32 \<Rightarrow> simtime" where
  "convertTSToSimtime t = uint t * 10 ^ 9"

definition base_rttMeasurementCompleteUsingTS :: "(simtime \<Rightarrow> simtime) \<Rightarrow> u32 \<Rightarrow> ('a, 'm) base_step" where
  "base_rttMeasurementCompleteUsingTS gain echoedTS c =
     bindE (assertE (ts_enabled c)) (\<lambda>_.
     Inr (upd_algo (base_rttMeasurementComplete gain (convertTSToSimtime echoedTS)
            (convertTSToSimtime (convertSimtimeToTS (now c)))) c))"

section \<open>Segments arrive\<close>

definition base_receivedOutOfOrderSegment :: "('a, 'm) base_step" where
  "base_receivedOutOfOrderSegment c = sendAck base_hooks (c\<lparr>ack_now := True\<rparr>)"

definition base_receiveSeqChanged :: "('a, 'm) base_step" where
  "base_receiveSeqChanged c0 =
     (if full_sized_segment_counter c0 = 0 \<and> \<not> ack_now c0 \<and> last_ack_sent c0 = rcv_nxt c0
         \<and> \<not> isScheduled (alg_timer_of DelayedAckTimer c0) then Inr c0
      else
        let c = (if lossRecovery c0 then c0\<lparr>ack_now := True\<rparr> else c0) in
        if \<not> delayed_acks_enabled c then sendAck base_hooks c
        else if ack_now c then sendAck base_hooks c
        else if full_sized_segment_counter c \<ge> 2 then sendAck base_hooks c
        else if \<not> isScheduled (alg_timer_of DelayedAckTimer c) then schedule_timer DelayedAckTimer DELAYED_ACK_TIMEOUT c
        else Inr c)"

definition measure_rtt ::
  "(simtime \<Rightarrow> simtime) \<Rightarrow> ('a, 'm base_alg_scheme) tcp_conn \<Rightarrow> ('a, 'm base_alg_scheme) tcp_conn" where
  "measure_rtt gain c =
     (if \<not> ts_enabled c \<and> rtseq_sendtime (algo c) \<noteq> 0 \<and> seqLess (rtseq (algo c)) (snd_una c)
      then upd_algo (\<lambda>s. (base_rttMeasurementComplete gain (rtseq_sendtime s) (now c) s)\<lparr>rtseq_sendtime := 0\<rparr>) c
      else c)"

definition adjust_rexmit_timer :: "('a, 'm) base_step" where
  "adjust_rexmit_timer c =
     (if snd_una c = snd_max c
      then Inr (if isScheduled (alg_timer_of RexmitTimer c) then cancel_timer RexmitTimer c else c)
      else startRexmitTimer (cancel_timer RexmitTimer c))"

definition stop_persist :: "('a, 'm base_alg_scheme) tcp_conn \<Rightarrow> ('a, 'm base_alg_scheme) tcp_conn" where
  "stop_persist c =
     (if isScheduled (alg_timer_of PersistTimer c)
      then upd_algo (\<lambda>s. s\<lparr>persist_factor := 0\<rparr>) (cancel_timer PersistTimer c) else c)"

definition adjust_persist_timer :: "('a, 'm) base_step" where
  "adjust_persist_timer c =
     (if snd_wnd c = 0 then
        if isScheduled (alg_timer_of RexmitTimer c) then Inr (stop_persist c)
        else if \<not> isScheduled (alg_timer_of PersistTimer c)
        then schedule_timer PersistTimer (persist_timeout (algo c)) c
        else Inr c
      else Inr (stop_persist c))"

definition base_receivedDataAck :: "(simtime \<Rightarrow> simtime) \<Rightarrow> ('a, 'm) base_step" where
  "base_receivedDataAck gain c = bindE (adjust_rexmit_timer (measure_rtt gain c)) adjust_persist_timer"

definition base_receivedDuplicateAck :: "('a, 'm) base_step" where
  "base_receivedDuplicateAck c =
     (if dupacks c < of_nat DUPTHRESH \<and> limited_transmit_enabled c
      then sendOneNewSegment base_hooks (nagle_holds True c) (cwnd c) c else Inr c)"

definition base_receivedAckForDataNotYetSent :: "('a, 'm) base_step" where
  "base_receivedAckForDataNotYetSent c = sendAck base_hooks c"

text \<open>An algorithm on this base: its functions for the retransmission timer and the
  acknowledgements, and its way of sending.\<close>

definition base_algorithm ::
  "(simtime \<Rightarrow> simtime) \<Rightarrow> (bool \<Rightarrow> ('a, 'm) base_step) \<Rightarrow> (bool \<Rightarrow> ('a, 'm) base_step) \<Rightarrow>
   (('a, 'm base_alg_scheme) tcp_conn \<Rightarrow> (tcp_event \<times> ('a, 'm base_alg_scheme) tcp_conn) outcome) \<Rightarrow>
   (u32 \<Rightarrow> ('a, 'm) base_step) \<Rightarrow> ('a, 'm) base_step \<Rightarrow> ('a, 'm base_alg_scheme) tcp_algorithm" where
  "base_algorithm gain est send rexmit_expired dataAck dupAck = alg_hooks.extend base_hooks
     \<lparr>established = est, connectionClosed = base_connectionClosed,
      sendCommandInvoked = send True,
      receivedOutOfOrderSegment = base_receivedOutOfOrderSegment,
      receiveSeqChanged = base_receiveSeqChanged,
      receivedDataAck = dataAck,
      receivedDuplicateAck = dupAck,
      receivedAckForDataNotYetSent = (\<lambda>_. base_receivedAckForDataNotYetSent),
      rttMeasurementCompleteUsingTS = base_rttMeasurementCompleteUsingTS gain,
      algProcessTimer = base_processTimer rexmit_expired\<rparr>"

end
