(* ===== verification/Tcp_Flavours.thy ===== *)
theory Tcp_Flavours
  imports Tcp_Base_Alg
begin

text \<open>
  The congestion controls of \<open>transportlayer/tcp/flavours\<close>: \<open>TcpTahoe\<close>, \<open>TcpReno\<close>,
  \<open>TcpNewReno\<close> and \<open>TcpNoCongestionControl\<close>. Each is a value of the interface
  \<open>tcp_algorithm\<close> that a connection is run with.
\<close>

section \<open>What the Tahoe and Reno family shares\<close>

record family_alg = base_alg +
  ssthresh :: u32

type_synonym 'a family_conn = "('a, family_alg) tcp_conn"
type_synonym 'a family_step = "('a, family_alg) tcp_step"
type_synonym 'a expiry = "'a family_conn \<Rightarrow> (tcp_event \<times> 'a family_conn) outcome"

definition family_new :: family_alg where
  "family_new = base_alg.extend base_alg_new \<lparr>ssthresh = 0xFFFFFFFF\<rparr>"

abbreviation sst :: "'a family_conn \<Rightarrow> u32" where
  "sst c \<equiv> ssthresh (algo c)"

definition set_sst :: "u32 \<Rightarrow> 'a family_conn \<Rightarrow> 'a family_conn" where
  "set_sst w = upd_algo (\<lambda>s. s\<lparr>ssthresh := w\<rparr>)"

text \<open>The three flavours have the same function.\<close>

definition recalculateSlowStartThreshold :: "'a family_conn \<Rightarrow> 'a family_conn" where
  "recalculateSlowStartThreshold c = set_sst (max (min (cwnd c) (snd_wnd c) div 2) (2 * snd_mss c)) c"

text \<open>Slow start and congestion avoidance, on 32 bits.\<close>

definition slow_start_or_avoidance :: "'a family_step" where
  "slow_start_or_avoidance c =
     (if cwnd c < sst c then Inr (set_cwnd (cwnd c + snd_mss c) c)
      else if cwnd c = 0 then Inl (UndefinedBehaviour ''division by zero'')
      else
        let incr = snd_mss c * snd_mss c div cwnd c in
        Inr (set_cwnd (cwnd c + (if incr = 0 then 1 else incr)) c))"

text \<open>The end of the handlers of the retransmission timer: slow start with one segment.\<close>

definition begin_slow_start :: "'a family_step" where
  "begin_slow_start c =
     (let c1 = recalculateSlowStartThreshold c in
      retransmitOneSegment base_hooks True ((set_cwnd (snd_mss c1) c1)\<lparr>afterRto := True\<rparr>))"

definition after_base_rexmit :: "'a family_step \<Rightarrow> 'a expiry" where
  "after_base_rexmit f c =
     bindE (base_processRexmitTimer c) (\<lambda>(e, c1).
     if e = TCP_E_ABORT then Inr (e, c1) else bindE (f c1) (\<lambda>c2. Inr (e, c2)))"

section \<open>Tahoe\<close>

definition tahoe_processRexmitTimer :: "'a expiry" where
  "tahoe_processRexmitTimer = after_base_rexmit begin_slow_start"

definition tahoe_receivedDataAck :: "(simtime \<Rightarrow> simtime) \<Rightarrow> u32 \<Rightarrow> 'a family_step" where
  "tahoe_receivedDataAck gain firstSeqAcked c =
     bindE (base_receivedDataAck gain c) (\<lambda>c1. bindE (slow_start_or_avoidance c1) (try_send False))"

definition tahoe_receivedDuplicateAck :: "'a family_step" where
  "tahoe_receivedDuplicateAck c =
     bindE (base_receivedDuplicateAck c) (\<lambda>c1.
     if dupacks c1 = of_nat DUPTHRESH then
       let c2 = recalculateSlowStartThreshold c1 in
       retransmitOneSegment base_hooks False (set_cwnd (snd_mss c2) c2)
     else Inr c1)"

definition tcp_tahoe :: "(simtime \<Rightarrow> simtime) \<Rightarrow> ('a, family_alg) tcp_algorithm" where
  "tcp_tahoe gain = base_algorithm gain base_established try_send tahoe_processRexmitTimer
     (tahoe_receivedDataAck gain) tahoe_receivedDuplicateAck"

section \<open>Reno\<close>

definition reno_processRexmitTimer :: "'a expiry" where
  "reno_processRexmitTimer = after_base_rexmit begin_slow_start"

text \<open>
  The reaction to an ECN echo, at most once in a round-trip time; the result tells whether the
  window may still grow.
\<close>

definition react_to_ece :: "'a family_conn \<Rightarrow> (bool \<times> 'a family_conn) outcome" where
  "react_to_ece c =
     (if ect c \<and> gotEce c then
        bindE
          (if now c - eceReactionTime (algo c) > srtt (algo c) then
             let c1 = set_sst (cwnd c div 2) c;
                 c2 = (set_cwnd (max (cwnd c1 div 2) 1) c1)\<lparr>sndCwr := True\<rparr> in
             bindE (if cwnd c2 = 1 then base_restartRexmitTimer c2 else Inr c2) (\<lambda>c3.
             Inr (False, upd_algo (\<lambda>s. s\<lparr>eceReactionTime := now c3\<rparr>) c3))
           else Inr (True, c))
          (\<lambda>(grow, c'). Inr (grow, c'\<lparr>gotEce := False\<rparr>))
      else Inr (True, c))"

text \<open>
  Loss recovery of RFC 3517. The window bounds the rounds of its loop: a round that sends
  something raises \<open>pipe\<close>.
\<close>

definition recovery_send :: "'a family_step" where
  "recovery_send c =
     (if sint (cwnd c) - sint (pipe c) \<ge> sint (snd_mss c) then
        bindE (sendDataDuringLossRecoveryPhase base_hooks (unat (cwnd c)) (cwnd c) c) (\<lambda>r.
        case r of None \<Rightarrow> Inl RoundsExhausted | Some c' \<Rightarrow> Inr c')
      else Inr c)"

definition reno_continue_recovery :: "'a family_step" where
  "reno_continue_recovery c =
     (if sack_enabled c \<and> lossRecovery c then
        if seqGE (snd_una c) (recoveryPoint c) then Inr (c\<lparr>lossRecovery := False\<rparr>)
        else bindE (setPipe c) recovery_send
      else Inr c)"

definition reno_receivedDataAck :: "(simtime \<Rightarrow> simtime) \<Rightarrow> u32 \<Rightarrow> 'a family_step" where
  "reno_receivedDataAck gain firstSeqAcked c =
     bindE (base_receivedDataAck gain c) (\<lambda>c1.
     bindE
       (if dupacks c1 \<ge> of_nat DUPTHRESH then Inr (set_cwnd (sst c1) c1)
        else bindE (react_to_ece c1) (\<lambda>(grow, c2). if grow then slow_start_or_avoidance c2 else Inr c2))
       (\<lambda>c3. bindE (reno_continue_recovery c3) (try_send False)))"

definition enter_recovery :: "'a family_conn \<Rightarrow> 'a family_conn" where
  "enter_recovery c =
     (if sack_enabled c \<and> (recoveryPoint c = 0 \<or> seqGE (snd_una c) (recoveryPoint c))
      then c\<lparr>recoveryPoint := snd_max c, lossRecovery := True\<rparr> else c)"

definition reno_fast_retransmit :: "'a family_step" where
  "reno_fast_retransmit c =
     (let c1 = recalculateSlowStartThreshold (enter_recovery c) in
      bindE (retransmitOneSegment base_hooks False (set_cwnd (sst c1 + 3 * snd_mss c1) c1)) (\<lambda>c2.
      bindE
        (if sack_enabled c2 then
           bindE (setPipe c2) (\<lambda>c3.
           if lossRecovery c3 then bindE (base_restartRexmitTimer c3) recovery_send else Inr c3)
         else Inr c2)
        (try_send False)))"

definition reno_receivedDuplicateAck :: "'a family_step" where
  "reno_receivedDuplicateAck c =
     bindE (base_receivedDuplicateAck c) (\<lambda>c1.
     if dupacks c1 = of_nat DUPTHRESH then reno_fast_retransmit c1
     else if dupacks c1 > of_nat DUPTHRESH then try_send False (set_cwnd (cwnd c1 + snd_mss c1) c1)
     else Inr c1)"

definition tcp_reno :: "(simtime \<Rightarrow> simtime) \<Rightarrow> ('a, family_alg) tcp_algorithm" where
  "tcp_reno gain = base_algorithm gain base_established try_send reno_processRexmitTimer
     (reno_receivedDataAck gain) reno_receivedDuplicateAck"

section \<open>NewReno\<close>

definition newreno_processRexmitTimer :: "'a expiry" where
  "newreno_processRexmitTimer = after_base_rexmit (\<lambda>c.
     begin_slow_start ((upd_algo (\<lambda>s. s\<lparr>recover := snd_max c - 1, firstPartialACK := False\<rparr>) c)\<lparr>lossRecovery := False\<rparr>))"

definition newreno_full_ack :: "'a family_conn \<Rightarrow> 'a family_conn" where
  "newreno_full_ack c =
     (upd_algo (\<lambda>s. s\<lparr>snd_cwnd := min (ssthresh s) (snd_max c - snd_una c + snd_mss c), firstPartialACK := False\<rparr>) c)
       \<lparr>lossRecovery := False\<rparr>"

text \<open>The window is deflated by what was acknowledged; the subtraction wraps around.\<close>

definition deflate :: "u32 \<Rightarrow> 'a family_conn \<Rightarrow> 'a family_conn" where
  "deflate firstSeqAcked c =
     (let acked = snd_una c - firstSeqAcked; c1 = set_cwnd (cwnd c - acked) c in
      if acked \<ge> snd_mss c1 then set_cwnd (cwnd c1 + snd_mss c1) c1 else c1)"

definition newreno_partial_ack :: "u32 \<Rightarrow> 'a family_step" where
  "newreno_partial_ack firstSeqAcked c =
     bindE (retransmitOneSegment base_hooks False c) (\<lambda>c1.
     bindE (try_send False (deflate firstSeqAcked c1)) (\<lambda>c2.
     if lossRecovery c2 \<and> \<not> firstPartialACK (algo c2)
     then base_restartRexmitTimer (upd_algo (\<lambda>s. s\<lparr>firstPartialACK := True\<rparr>) c2)
     else Inr c2))"

definition newreno_receivedDataAck :: "(simtime \<Rightarrow> simtime) \<Rightarrow> u32 \<Rightarrow> 'a family_step" where
  "newreno_receivedDataAck gain firstSeqAcked c =
     bindE (base_receivedDataAck gain c) (\<lambda>c1.
     bindE
       (if lossRecovery c1 then
          if seqGE (snd_una c1 - 1) (recover (algo c1)) then Inr (newreno_full_ack c1)
          else newreno_partial_ack firstSeqAcked c1
        else bindE (slow_start_or_avoidance c1) (\<lambda>c2. Inr (upd_algo (\<lambda>s. s\<lparr>recover := snd_una c2 - 2\<rparr>) c2)))
       (try_send False))"

text \<open>The comparison with \<open>recover\<close> is the plain one of unsigned integers.\<close>

definition newreno_fast_retransmit :: "'a family_step" where
  "newreno_fast_retransmit c =
     (if \<not> lossRecovery c \<and> snd_una c - 1 > recover (algo c) then
        let c1 = recalculateSlowStartThreshold c;
            c2 = (upd_algo (\<lambda>s. s\<lparr>recover := snd_max c1 - 1, firstPartialACK := False\<rparr>) c1)\<lparr>lossRecovery := True\<rparr> in
        bindE (retransmitOneSegment base_hooks False (set_cwnd (sst c2 + 3 * snd_mss c2) c2)) (try_send False)
      else Inr c)"

definition newreno_receivedDuplicateAck :: "'a family_step" where
  "newreno_receivedDuplicateAck c =
     bindE (base_receivedDuplicateAck c) (\<lambda>c1.
     if dupacks c1 = of_nat DUPTHRESH then newreno_fast_retransmit c1
     else if dupacks c1 > of_nat DUPTHRESH \<and> lossRecovery c1
     then try_send False (set_cwnd (cwnd c1 + snd_mss c1) c1)
     else Inr c1)"

definition tcp_new_reno :: "(simtime \<Rightarrow> simtime) \<Rightarrow> ('a, family_alg) tcp_algorithm" where
  "tcp_new_reno gain = base_algorithm gain base_established try_send newreno_processRexmitTimer
     (newreno_receivedDataAck gain) newreno_receivedDuplicateAck"

section \<open>Without congestion control\<close>

definition noCC_new :: base_alg where
  "noCC_new = base_alg_new\<lparr>snd_cwnd := 0x7FFFFFFF\<rparr>"

definition noCC_sendData :: "bool \<Rightarrow> ('a, base_alg) tcp_conn \<Rightarrow> (bool \<times> ('a, base_alg) tcp_conn) outcome" where
  "noCC_sendData invoked c = sendData base_hooks (nagle_holds invoked c) (cwnd c) c"

definition noCC_try_send :: "bool \<Rightarrow> ('a, base_alg) tcp_step" where
  "noCC_try_send invoked c = bindE (noCC_sendData invoked c) (\<lambda>(_, c'). Inr c')"

definition noCC_established :: "bool \<Rightarrow> ('a, base_alg) tcp_step" where
  "noCC_established act c =
     (if act then bindE (noCC_sendData False c) (\<lambda>(sent, c1). if sent then Inr c1 else sendAck base_hooks c1)
      else Inr c)"

definition noCC_processRexmitTimer ::
  "('a, base_alg) tcp_conn \<Rightarrow> (tcp_event \<times> ('a, base_alg) tcp_conn) outcome" where
  "noCC_processRexmitTimer c =
     bindE (base_processRexmitTimer c) (\<lambda>(e, c1).
     if e = TCP_E_ABORT then Inr (e, c1)
     else
       bindE (retransmitOneSegment base_hooks True c1) (\<lambda>c2.
       bindE (assertE (cwnd c2 = 0x7FFFFFFF)) (\<lambda>_. Inr (e, c2))))"

definition noCC_receivedDataAck :: "(simtime \<Rightarrow> simtime) \<Rightarrow> u32 \<Rightarrow> ('a, base_alg) tcp_step" where
  "noCC_receivedDataAck gain firstSeqAcked c =
     bindE (base_receivedDataAck gain c) (\<lambda>c1.
     bindE (noCC_try_send False c1) (\<lambda>c2.
     bindE (assertE (cwnd c2 = 0x7FFFFFFF)) (\<lambda>_. Inr c2)))"

definition tcp_no_congestion_control :: "(simtime \<Rightarrow> simtime) \<Rightarrow> ('a, base_alg) tcp_algorithm" where
  "tcp_no_congestion_control gain = base_algorithm gain noCC_established noCC_try_send noCC_processRexmitTimer
     (noCC_receivedDataAck gain) base_receivedDuplicateAck"

end
