(* ===== verification/Tcp_Guard_Laws.thy ===== *)
theory Tcp_Guard_Laws
  imports Tcp_Flavours
begin

text \<open>
  The retransmission timer as a guard: whatever segments arrive, commands are given and timers
  expire, a connection with unacknowledged data has its retransmission timer running.
\<close>

section \<open>Stepping through operations\<close>

lemma returns_bind_pair:
  "returns m (\<lambda>(x, c). P c) \<Longrightarrow> (\<And>x c. P c \<Longrightarrow> returns (f (x, c)) Q) \<Longrightarrow> returns (bindE m f) Q"
  by (cases m) auto

lemma returns_pair: "returns (h x c) Q \<Longrightarrow> returns (case (x, c) of (a, b) \<Rightarrow> h a b) Q"
  by simp

lemma returns_assert: "(b \<Longrightarrow> returns (f ()) Q) \<Longrightarrow> returns (bindE (assertE b) f) Q"
  by (simp add: assertE_def)

lemma returns_if: "(b \<Longrightarrow> returns x Q) \<Longrightarrow> (\<not> b \<Longrightarrow> returns y Q) \<Longrightarrow> returns (if b then x else y) Q"
  by simp

lemma returns_Let: "(\<And>x. x = t \<Longrightarrow> returns (f x) Q) \<Longrightarrow> returns (Let t f) Q"
  by simp

lemma returns_value: "Q a \<Longrightarrow> returns (Inr a) Q"
  by simp

lemma returns_bind_value: "returns (f a) Q \<Longrightarrow> returns (bindE (Inr a) f) Q"
  by simp

lemma returns_any: "(\<And>a. returns (f a) Q) \<Longrightarrow> returns (bindE m f) Q"
  by (cases m) auto

lemma returns_bind_if:
  "(b \<Longrightarrow> returns (bindE x f) Q) \<Longrightarrow> (\<not> b \<Longrightarrow> returns (bindE y f) Q) \<Longrightarrow> returns (bindE (if b then x else y) f) Q"
  by simp

lemma returns_bind_assoc: "returns (bindE m (\<lambda>a. bindE (f a) g)) Q \<Longrightarrow> returns (bindE (bindE m f) g) Q"
  by (simp add: bindE_assoc)

lemma returns_fail: "returns (bindE (Inl e) f) Q" "returns (Inl e) Q"
  by simp_all

lemmas stepping = returns_pair returns_assert returns_if returns_Let returns_bind_value returns_value
  returns_bind_if returns_bind_assoc returns_fail

text \<open>The same without the conditions, for properties that do not depend on them.\<close>

lemma returns_assert': "returns (f ()) Q \<Longrightarrow> returns (bindE (assertE b) f) Q"
  by (simp add: assertE_def)

lemma returns_if': "returns x Q \<Longrightarrow> returns y Q \<Longrightarrow> returns (if b then x else y) Q"
  by simp

lemma returns_Let': "(\<And>x. returns (f x) Q) \<Longrightarrow> returns (Let t f) Q"
  by simp

lemma returns_bind_if':
  "returns (bindE x f) Q \<Longrightarrow> returns (bindE y f) Q \<Longrightarrow> returns (bindE (if b then x else y) f) Q"
  by simp

lemma returns_bind_Let': "(\<And>x. returns (bindE (h x) f) Q) \<Longrightarrow> returns (bindE (Let t h) f) Q"
  by simp

section \<open>Functions that leave the algorithm alone\<close>

definition core :: "('a, 't) tcp_conn \<Rightarrow> 't \<times> u32 \<times> u32 \<times> tcp_state" where
  "core c = (algo c, snd_una c, snd_max c, fsm c)"

lemma core_frame [simp]:
  "core (c\<lparr>sentBytes := w1\<rparr>) = core c" "core (c\<lparr>sndCwr := b1\<rparr>) = core c" "core (c\<lparr>rexmitQ := q1\<rparr>) = core c"
  "core (c\<lparr>snd_nxt := w2\<rparr>) = core c" "core (c\<lparr>sndAck := b2\<rparr>) = core c" "core (c\<lparr>rexmit := b3\<rparr>) = core c"
  "core (c\<lparr>highRxt := w3\<rparr>) = core c" "core (c\<lparr>pipe := w4\<rparr>) = core c" "core (c\<lparr>ack_now := b4\<rparr>) = core c"
  "core (c\<lparr>lossRecovery := b5\<rparr>) = core c" "core (c\<lparr>recoveryPoint := w5\<rparr>) = core c"
  "core (c\<lparr>afterRto := b6\<rparr>) = core c" "core (c\<lparr>gotEce := b7\<rparr>) = core c" "core (c\<lparr>time_last_data_sent := t1\<rparr>) = core c"
  "core (c\<lparr>sendQueue := q2\<rparr>) = core c" "core (c\<lparr>receiveQueue := q3\<rparr>) = core c" "core (c\<lparr>dupacks := w6\<rparr>) = core c"
  "core (c\<lparr>outputs := os\<rparr>) = core c" "core (send_output m c) = core c" "core (sendIndicationToApp i c) = core c"
  "core (c\<lparr>send_fin := b8\<rparr>) = core c" "core (c\<lparr>snd_fin_seq := w7\<rparr>) = core c" "core (c\<lparr>queueUpdate := b9\<rparr>) = core c"
  "core (if b then c else c') = (if b then core c else core c')"
  by (simp_all add: core_def send_output_def sendIndicationToApp_def)

lemma returns_Let_core: "(\<And>x. core x = core t \<Longrightarrow> returns (f x) Q) \<Longrightarrow> returns (Let t f) Q"
  by simp

lemma returns_bind_Let_core: "(\<And>x. core x = core t \<Longrightarrow> returns (bindE (h x) f) Q) \<Longrightarrow> returns (bindE (Let t h) f) Q"
  by simp

lemmas core_stepping = returns_pair returns_assert' returns_if' returns_Let_core returns_Let' returns_bind_value returns_value
  returns_bind_if' returns_bind_Let_core returns_bind_Let' returns_bind_assoc returns_fail

text \<open>For each function a rule for its use inside a sequence and one for its use at the end.\<close>

lemma updateRcvWnd_core: "returns (updateRcvWnd c) (\<lambda>(w, c'). core c' = core c)"
  unfolding updateRcvWnd_steps
  by (cases "window_scaled c") (simp_all add: offered_def updateRcvQueueVars_def Let_def core_def returns_def bindE_def assertE_def)

lemmas updateRcvWnd_b = returns_bind_pair [OF updateRcvWnd_core]

lemma push_new_sack_core: "returns (push_new_sack c) (\<lambda>(b, c'). core c' = core c)"
  unfolding push_new_sack_def by (intro stepping returns_any) (simp_all add: core_def)

lemma insert_sack_option_core: "returns (insert_sack_option n d h c) (\<lambda>(b, c'). core c' = core c)"
  unfolding insert_sack_option_def by (intro stepping returns_any) (simp_all add: core_def clear_sack_request_def)

lemma addSacks_core: "returns (addSacks h c) (\<lambda>(h', c'). core c' = core c)"
  unfolding addSacks_def
  by (intro stepping returns_mono [OF insert_sack_option_core] returns_bind_pair [OF push_new_sack_core] returns_any)
    (auto simp: core_def clear_sack_request_def)

lemma write_syn_options_core:
  "core (snd (write_mss_option h c)) = core c" "core (snd (write_ws_option h c)) = core c"
  "core (snd (write_sack_permitted_option h c)) = core c" "core (snd (write_ts_option h c)) = core c"
  by (simp_all add: write_mss_option_def write_ws_option_def write_sack_permitted_option_def write_ts_option_def
      Let_def core_def)

lemma write_data_options_core: "returns (write_data_options h c) (\<lambda>(h', c'). core c' = core c)"
  unfolding write_data_options_def by (intro stepping addSacks_core) simp_all

lemma writeHeaderOptions_core: "returns (writeHeaderOptions h c) (\<lambda>(h', c'). core c' = core c)"
proof -
  have syn: "core (snd (let (h1, c1) = write_mss_option h c; (h2, c2) = write_ws_option h1 c1;
      (h3, c3) = write_sack_permitted_option h2 c2 in write_ts_option h3 c3)) = core c"
    by (simp add: case_prod_beta Let_def write_syn_options_core)
  show ?thesis unfolding writeHeaderOptions_def
    by (intro stepping returns_bind_pair [OF write_data_options_core]; (use syn in \<open>simp add: case_prod_beta\<close>)?)
qed

lemmas writeHeaderOptions_b = returns_bind_pair [OF writeHeaderOptions_core]

lemma sendToIP_core: "returns (sendToIP h p c) (\<lambda>c'. core c' = core c)"
  unfolding sendToIP_def by (intro stepping) (simp_all add: core_def send_output_def)

lemmas sendToIP_b = returns_bindE [OF sendToIP_core]

lemma skip_sacked_core: "returns (skip_sacked c) (\<lambda>c'. core c' = core c)"
  unfolding skip_sacked_def by (intro stepping returns_any) (simp_all add: core_def)

lemmas skip_sacked_b = returns_bindE [OF skip_sacked_core]

lemma request_more_data_core [simp]: "core (request_more_data c) = core c"
  by (simp add: request_more_data_def send_output_def Let_def core_def)

lemma advance_snd_nxt_core:
  "(\<And>x c'. core c' = core c \<Longrightarrow> returns (f (x, c')) Q) \<Longrightarrow> returns (Let (advance_snd_nxt b c) f) Q"
  by (simp add: advance_snd_nxt_def Let_def)

lemma sendSegment_core: "returns (sendSegment b c) (\<lambda>c'. core c' = core c)"
  unfolding sendSegment_def
  by (intro advance_snd_nxt_core core_stepping skip_sacked_b writeHeaderOptions_b updateRcvWnd_b sendToIP_b returns_any) simp_all

lemmas sendSegment_b = returns_bindE [OF sendSegment_core]

section \<open>Functions that keep the guard\<close>

text \<open>
  What the algorithm's timers may do while segments are sent: none disappears, a running
  retransmission timer keeps running, and nothing new is under way without it.
\<close>

definition timers_there :: "('a, 'm base_alg_scheme) tcp_conn \<Rightarrow> bool" where
  "timers_there c \<longleftrightarrow> (\<forall>x. alg_timer_of x c \<noteq> Deleted)"

abbreviation watched :: "('a, 'm base_alg_scheme) tcp_conn \<Rightarrow> bool" where
  "watched c \<equiv> isScheduled (alg_timer_of RexmitTimer c)"

definition keeps :: "('a, 'm base_alg_scheme) tcp_conn \<Rightarrow> ('a, 'm base_alg_scheme) tcp_conn \<Rightarrow> bool" where
  "keeps c c' \<longleftrightarrow> fsm c' = fsm c \<and> snd_una c' = snd_una c \<and> (timers_there c \<longrightarrow> timers_there c')
     \<and> (watched c \<longrightarrow> watched c') \<and> (snd_max c' = snd_max c \<or> watched c')"

lemma keeps_core: "core c' = core c \<Longrightarrow> keeps c c'"
  by (simp add: core_def keeps_def timers_there_def)

lemma keeps_trans: "keeps a b \<Longrightarrow> keeps b c \<Longrightarrow> keeps a c"
  by (auto simp: keeps_def)

lemma core_keeps: "core b = core a \<Longrightarrow> keeps b c \<longleftrightarrow> keeps a c" "core c' = core c \<Longrightarrow> keeps b c' \<longleftrightarrow> keeps b c"
  by (simp_all add: core_def keeps_def timers_there_def)

lemma set_timer_simps [simp]:
  "alg_timer_of x (set_timer y t c) = (if x = y then t else alg_timer_of x c)"
  "snd_una (set_timer y t c) = snd_una c" "snd_max (set_timer y t c) = snd_max c" "fsm (set_timer y t c) = fsm c"
  by (simp_all add: set_timer_def upd_algo_def)

lemma cancelIfThere_keeps [simp]: "cancelIfThere t = Deleted \<longleftrightarrow> t = Deleted"
  by (cases t) simp_all

lemma upd_algo_simps [simp]:
  "algo (upd_algo f c) = f (algo c)" "snd_una (upd_algo f c) = snd_una c" "snd_max (upd_algo f c) = snd_max c"
  "fsm (upd_algo f c) = fsm c" "now (upd_algo f c) = now c"
  by (simp_all add: upd_algo_def)

lemma set_cwnd_keeps: "keeps c (set_cwnd w c)"
  by (simp add: keeps_def timers_there_def set_cwnd_def)

lemma startRexmitTimer_keeps: "returns (startRexmitTimer c) (\<lambda>c'. keeps c c' \<and> watched c')"
  unfolding startRexmitTimer_def schedule_timer_def
  by (cases "alg_timer_of RexmitTimer c") (auto simp: keeps_def timers_there_def)

lemma base_restartRexmitTimer_keeps: "returns (base_restartRexmitTimer c) (\<lambda>c'. keeps c c' \<and> watched c')"
proof -
  let ?c = "if watched c then cancel_timer RexmitTimer c else c"
  have "returns (startRexmitTimer ?c) (\<lambda>c'. keeps ?c c' \<and> watched c')" by (rule startRexmitTimer_keeps)
  then show ?thesis unfolding base_restartRexmitTimer_def
    by (rule returns_mono) (auto simp: keeps_def timers_there_def cancel_timer_def split: if_splits)
qed

lemma base_ackSent_keeps: "returns (base_ackSent c) (keeps c)"
  by (auto simp: base_ackSent_def Let_def keeps_def timers_there_def cancel_timer_def)

lemma base_dataSent_keeps: "returns (base_dataSent s c) (\<lambda>c'. keeps c c' \<and> watched c')"
  unfolding base_dataSent_def
  by (intro stepping returns_bindE [OF startRexmitTimer_keeps]) (auto simp: keeps_def timers_there_def)

lemmas guard_defs = keeps_def core_def timers_there_def

lemma base_hooks_simps [simp]:
  "ackSent base_hooks = base_ackSent" "dataSent base_hooks = base_dataSent"
  "segmentRetransmitted base_hooks s e = Inr" "restartRexmitTimer base_hooks = base_restartRexmitTimer"
  by (simp_all add: base_hooks_def)

lemmas base_ackSent_b = returns_bindE [OF base_ackSent_keeps]
lemmas base_ackSent_t = returns_mono [OF base_ackSent_keeps]
lemmas base_dataSent_b = returns_bindE [OF base_dataSent_keeps]
lemmas base_dataSent_t = returns_mono [OF base_dataSent_keeps]
lemmas base_restart_b = returns_bindE [OF base_restartRexmitTimer_keeps]

lemma sendAck_keeps: "returns (sendAck base_hooks c) (keeps c)"
  unfolding sendAck_def base_hooks_simps
  by (intro core_stepping updateRcvWnd_b writeHeaderOptions_b sendToIP_b base_ackSent_t)
    (auto simp: guard_defs split: if_splits)

lemma send_full_segments_core: "returns (send_full_segments n e b c) (\<lambda>(l, c'). core c' = core c)"
proof (induction n arbitrary: b c)
  case (Suc n)
  show ?case unfolding send_full_segments.simps
    by (intro core_stepping sendSegment_b; (rule returns_mono [OF Suc.IH])?) auto
qed simp

lemma send_bytes_core: "returns (send_bytes e b c) (\<lambda>(l, c'). core c' = core c)"
  unfolding send_bytes_def by (intro core_stepping sendSegment_b send_full_segments_core) auto

lemma notify_sent_keeps: "returns (notify_sent base_hooks r s c) (\<lambda>c'. keeps c c' \<and> watched c')"
  unfolding notify_sent_def base_hooks_simps
  by (intro returns_if base_restartRexmitTimer_keeps base_dataSent_keeps)

lemma raise_snd_max_simps [simp]:
  "algo (raise_snd_max c) = algo c" "snd_una (raise_snd_max c) = snd_una c" "fsm (raise_snd_max c) = fsm c"
  by (simp_all add: raise_snd_max_def)

lemma sendData_keeps: "returns (sendData base_hooks full w c) (\<lambda>(b, c'). keeps c c')"
  unfolding sendData_def base_hooks_simps
  by (intro core_stepping writeHeaderOptions_b sendSegment_b returns_bind_pair [OF send_bytes_core]
        base_ackSent_b returns_bindE [OF notify_sent_keeps])
    (auto simp: guard_defs split: if_splits)

lemma sendProbe_keeps: "returns (sendProbe base_hooks c) (\<lambda>(b, c'). keeps c c')"
  unfolding sendProbe_def base_hooks_simps
  by (intro core_stepping sendSegment_b base_ackSent_b base_dataSent_b) (auto simp: guard_defs)

lemma sendOneNewSegment_keeps: "returns (sendOneNewSegment base_hooks full w c) (keeps c)"
  unfolding sendOneNewSegment_def base_hooks_simps
  by (intro core_stepping sendSegment_b base_ackSent_b base_dataSent_t) (auto simp: guard_defs split: if_splits)

text \<open>A FIN is sent again only while the retransmission timer runs.\<close>

lemma sendFin_keeps: "returns (sendFin base_hooks c) (keeps c)"
  unfolding sendFin_def base_hooks_simps
  by (intro core_stepping updateRcvWnd_b sendToIP_b base_ackSent_t) (auto simp: guard_defs)

lemma retransmitOneSegment_keeps:
  assumes "watched c"
  shows "returns (retransmitOneSegment base_hooks r c) (keeps c)"
  unfolding retransmitOneSegment_def base_hooks_simps
  by (intro core_stepping sendSegment_b base_ackSent_b returns_bindE [OF sendFin_keeps])
    (use assms in \<open>auto simp: guard_defs split: if_splits\<close>)

section \<open>Loss recovery\<close>

lemma pipe_loop_core:
  fixes c :: "('a, 't) tcp_conn"
  shows "returns (pipe_loop n s c) (\<lambda>c'. core c' = core c)"
proof (induction n arbitrary: s c)
  case (Suc n)
  have "returns (bindE (checkSackBlock (rexmitQ c) s) (\<lambda>(len, is_sacked, is_rexmitted).
      bindE (if \<not> is_sacked then bindE (isLost s c) (f len) else Inr c) (pipe_loop n (s + len)))) (\<lambda>c'. core c' = core c)"
    if f: "\<And>len lost. returns (f len lost) (\<lambda>c'. core c' = core c)"
    for f :: "u32 \<Rightarrow> bool \<Rightarrow> ('a, 't) tcp_conn outcome"
  proof -
    have "returns (bindE m (pipe_loop n s')) (\<lambda>c'. core c' = core c)" if "returns m (\<lambda>c'. core c' = core c)"
      for m :: "('a, 't) tcp_conn outcome" and s'
      using that by (rule returns_bindE) (rule returns_mono [OF Suc.IH], simp)
    moreover have "returns (if b then bindE (isLost s c) (f len) else Inr c) (\<lambda>c'. core c' = core c)" for b len
      by (intro returns_if' returns_any f) simp
    ultimately show ?thesis by (intro returns_any) (simp split: prod.split)
  qed
  then show ?case by (simp add: Let_def)
qed simp

lemma setPipe_core: "returns (setPipe c) (\<lambda>c'. core c' = core c)"
  unfolding setPipe_def by (intro core_stepping returns_mono [OF pipe_loop_core]) auto

lemma returns_case_option:
  "returns x Q \<Longrightarrow> (\<And>v. returns (y v) Q) \<Longrightarrow> returns (case r of None \<Rightarrow> x | Some v \<Rightarrow> y v) Q"
  by (cases r) simp_all

lemma returns_case_option':
  "(r = None \<Longrightarrow> returns x Q) \<Longrightarrow> (\<And>v. r = Some v \<Longrightarrow> returns (y v) Q)
    \<Longrightarrow> returns (case r of None \<Rightarrow> x | Some v \<Rightarrow> y v) Q"
  by (cases r) simp_all

lemma nextSeg_core: "returns (nextSeg c) (\<lambda>(r, c'). core c' = core c)"
  unfolding nextSeg_def by (intro core_stepping returns_case_option returns_any) auto

lemma sendSegmentDuringLossRecoveryPhase_keeps: "returns (sendSegmentDuringLossRecoveryPhase base_hooks s c) (keeps c)"
  unfolding sendSegmentDuringLossRecoveryPhase_def base_hooks_simps
  by (intro core_stepping sendSegment_b base_ackSent_b base_dataSent_t returns_mono [OF base_restartRexmitTimer_keeps])
    (auto simp: guard_defs split: if_splits)

abbreviation found_keeps :: "('a, 'm base_alg_scheme) tcp_conn \<Rightarrow> ('a, 'm base_alg_scheme) tcp_conn option \<Rightarrow> bool" where
  "found_keeps c r \<equiv> (\<forall>c'. r = Some c' \<longrightarrow> keeps c c')"

lemma loss_recovery_loop_keeps: "returns (loss_recovery_loop base_hooks n w c) (found_keeps c)"
proof (induction n arbitrary: c)
  case (Suc n)
  show ?case unfolding loss_recovery_loop.simps
    by (intro core_stepping returns_bind_pair [OF nextSeg_core] returns_case_option
        returns_bindE [OF sendSegmentDuringLossRecoveryPhase_keeps] returns_mono [OF Suc.IH])
      (auto simp: guard_defs)
qed simp

lemma recovery_send_keeps: "returns (recovery_send c) (keeps c)"
  unfolding recovery_send_def sendDataDuringLossRecoveryPhase_def
  by (intro core_stepping returns_bindE [OF loss_recovery_loop_keeps] returns_case_option') (auto simp: guard_defs)

section \<open>The handlers of the algorithms\<close>

definition guarded :: "('a, 'm base_alg_scheme) tcp_conn \<Rightarrow> bool" where
  "guarded c \<longleftrightarrow> timers_there c \<and> (snd_una c \<noteq> snd_max c \<longrightarrow> watched c)"

lemma guarded_keeps: "guarded c \<Longrightarrow> keeps c c' \<Longrightarrow> guarded c'"
  by (auto simp: guarded_def keeps_def)

lemma keeps_refl [simp]: "keeps c c"
  by (simp add: keeps_def)

text \<open>An acknowledgement of new data sets the timers right.\<close>

definition sets_guard :: "('a, 'm base_alg_scheme) tcp_conn \<Rightarrow> ('a, 'm base_alg_scheme) tcp_conn \<Rightarrow> bool" where
  "sets_guard c c' \<longleftrightarrow> guarded c' \<and> fsm c' = fsm c \<and> snd_una c' = snd_una c"

lemma sets_guard_keeps: "sets_guard a b \<Longrightarrow> keeps b c \<Longrightarrow> sets_guard a c"
  unfolding sets_guard_def by (metis guarded_keeps keeps_def)

lemma set_sst_keeps: "keeps c (set_sst w c)"
  by (simp add: keeps_def timers_there_def set_sst_def)

lemma restart_idle_keeps: "keeps c (restart_idle c)"
  by (simp add: restart_idle_def Let_def set_cwnd_keeps)

lemma base_sendData_keeps: "returns (base_sendData i c) (\<lambda>(b, c'). keeps c c')"
  unfolding base_sendData_def Let_def
  by (rule returns_mono [OF sendData_keeps]) (use restart_idle_keeps keeps_trans in fastforce)

lemma try_send_keeps: "returns (try_send i c) (keeps c)"
  unfolding try_send_def by (intro returns_bind_pair [OF base_sendData_keeps]) simp

lemma base_established_keeps: "returns (base_established act c) (keeps c)"
  unfolding base_established_def
  by (intro returns_pair returns_if returns_Let returns_value returns_bind_pair [OF base_sendData_keeps] returns_mono [OF sendAck_keeps])
    (use set_cwnd_keeps in \<open>fastforce intro: keeps_trans\<close>)+

lemma schedule_timer_keeps: "returns (schedule_timer x t c) (keeps c)"
  unfolding schedule_timer_def by (cases "alg_timer_of x c") (auto simp: keeps_def timers_there_def)

lemma cancel_other_keeps: "x \<noteq> RexmitTimer \<Longrightarrow> keeps c (cancel_timer x c)"
  by (auto simp: keeps_def timers_there_def cancel_timer_def)

lemma stop_persist_keeps: "keeps c (stop_persist c)"
  by (auto simp: stop_persist_def keeps_def timers_there_def cancel_timer_def)

lemma adjust_persist_timer_keeps: "returns (adjust_persist_timer c) (keeps c)"
  unfolding adjust_persist_timer_def
  by (intro returns_if returns_value schedule_timer_keeps stop_persist_keeps) simp_all

lemma measure_rtt_frame [simp]:
  "ba_timers (algo (measure_rtt gain c)) = ba_timers (algo c)" "snd_una (measure_rtt gain c) = snd_una c"
  "snd_max (measure_rtt gain c) = snd_max c" "fsm (measure_rtt gain c) = fsm c"
  by (simp_all add: measure_rtt_def base_rttMeasurementComplete_def Let_def)

lemma adjust_rexmit_timer_guards: "timers_there c \<Longrightarrow> returns (adjust_rexmit_timer c) (sets_guard c)"
  unfolding adjust_rexmit_timer_def
  by (intro returns_if returns_value returns_mono [OF startRexmitTimer_keeps])
    (auto simp: sets_guard_def guarded_def timers_there_def keeps_def cancel_timer_def)

lemma base_receivedDataAck_guards:
  assumes "timers_there c"
  shows "returns (base_receivedDataAck gain c) (sets_guard c)"
proof -
  let ?c = "measure_rtt gain c"
  have "timers_there ?c" using assms by (simp add: timers_there_def)
  then have "returns (adjust_rexmit_timer ?c) (sets_guard ?c)" by (rule adjust_rexmit_timer_guards)
  then show ?thesis unfolding base_receivedDataAck_def
    by (rule returns_bindE)
      (rule returns_mono [OF adjust_persist_timer_keeps], drule (1) sets_guard_keeps, simp add: sets_guard_def)
qed

lemmas sendAck_t = returns_mono [OF sendAck_keeps]

text \<open>The handlers all algorithms share.\<close>

lemma base_receivedOutOfOrderSegment_keeps: "returns (base_receivedOutOfOrderSegment c) (keeps c)"
  unfolding base_receivedOutOfOrderSegment_def by (rule sendAck_t) (simp add: guard_defs)

lemma base_receiveSeqChanged_keeps: "returns (base_receiveSeqChanged c) (keeps c)"
  unfolding base_receiveSeqChanged_def
  by (intro returns_if' returns_Let returns_value sendAck_t returns_mono [OF schedule_timer_keeps])
    (auto simp: guard_defs split: if_splits)

lemma base_receivedAckForDataNotYetSent_keeps: "returns (base_receivedAckForDataNotYetSent c) (keeps c)"
  unfolding base_receivedAckForDataNotYetSent_def by (rule sendAck_keeps)

lemma base_rttMeasurementCompleteUsingTS_keeps: "returns (base_rttMeasurementCompleteUsingTS gain t c) (keeps c)"
  unfolding base_rttMeasurementCompleteUsingTS_def
  by (intro core_stepping) (simp add: keeps_def timers_there_def base_rttMeasurementComplete_def Let_def)

lemma base_connectionClosed_fsm: "returns (base_connectionClosed c) (\<lambda>c'. fsm c' = fsm c)"
  by (simp add: base_connectionClosed_def cancel_timer_def)

lemma base_receivedDuplicateAck_keeps: "returns (base_receivedDuplicateAck c) (keeps c)"
  unfolding base_receivedDuplicateAck_def by (intro returns_if' returns_value sendOneNewSegment_keeps keeps_refl)

lemma next_persist_timers [simp]: "ba_timers (next_persist s) = ba_timers s"
  by (simp add: next_persist_def Let_def)

lemma processPersistTimer_keeps: "returns (processPersistTimer c) (keeps c)"
  unfolding processPersistTimer_def Let_def
  by (intro returns_bindE [OF schedule_timer_keeps] returns_bind_pair [OF returns_mono [OF sendProbe_keeps]])
    (auto simp: guard_defs)

lemma processDelayedAckTimer_keeps: "returns (processDelayedAckTimer c) (keeps c)"
  unfolding processDelayedAckTimer_def by (rule sendAck_t) (simp add: guard_defs)

text \<open>When the retransmission timer expires, it is started again or the connection is given up.\<close>

definition expiry_guards ::
  "(('a, 'm base_alg_scheme) tcp_conn \<Rightarrow> (tcp_event \<times> ('a, 'm base_alg_scheme) tcp_conn) outcome) \<Rightarrow> bool" where
  "expiry_guards f \<longleftrightarrow> (\<forall>c. timers_there c \<longrightarrow> \<not> watched c \<longrightarrow>
     returns (f c) (\<lambda>(e, c'). fsm c' = fsm c \<and> (e = TCP_E_ABORT \<or> e = TCP_E_IGNORE \<and> guarded c' \<and> watched c')))"

lemma schedule_timer_idle:
  "alg_timer_of x c \<noteq> Deleted \<Longrightarrow> \<not> isScheduled (alg_timer_of x c) \<Longrightarrow>
     schedule_timer x t c = Inr (set_timer x (Scheduled (now c + t)) c)"
  unfolding schedule_timer_def by (cases "alg_timer_of x c") simp_all

lemma base_expiry_guards: "expiry_guards base_processRexmitTimer"
  unfolding expiry_guards_def base_processRexmitTimer_def
  by (auto simp: Let_def schedule_timer_idle timers_there_def guarded_def sendIndicationToApp_def send_output_def)

lemma expiry_then_guards:
  fixes f :: "('a, 'm base_alg_scheme) tcp_conn \<Rightarrow> ('a, 'm base_alg_scheme) tcp_conn outcome"
  assumes "\<And>c. watched c \<Longrightarrow> returns (f c) (keeps c)"
  shows "expiry_guards (\<lambda>c. bindE (base_processRexmitTimer c) (\<lambda>(e, c1).
    if e = TCP_E_ABORT then Inr (e, c1) else bindE (f c1) (\<lambda>c2. Inr (e, c2))))"
  unfolding expiry_guards_def
proof (intro allI impI returns_bindE)
  fix c :: "('a, 'm base_alg_scheme) tcp_conn" assume "timers_there c" "\<not> watched c"
  then show "returns (base_processRexmitTimer c) (\<lambda>(e, c'). fsm c' = fsm c
      \<and> (e = TCP_E_ABORT \<or> e = TCP_E_IGNORE \<and> guarded c' \<and> watched c'))"
    using base_expiry_guards unfolding expiry_guards_def by blast
qed (auto intro!: returns_bindE [OF assms] simp: keeps_def guarded_def)

lemma after_base_rexmit_guards:
  "(\<And>c. watched c \<Longrightarrow> returns (f c) (keeps c)) \<Longrightarrow> expiry_guards (after_base_rexmit f)"
  unfolding after_base_rexmit_def by (rule expiry_then_guards)

section \<open>Tahoe and Reno\<close>

lemma recalculateSlowStartThreshold_keeps: "keeps c (recalculateSlowStartThreshold c)"
  unfolding recalculateSlowStartThreshold_def by (rule set_sst_keeps)

lemma slow_start_or_avoidance_keeps: "returns (slow_start_or_avoidance c) (keeps c)"
  unfolding slow_start_or_avoidance_def by (intro stepping set_cwnd_keeps)

lemma window_frame [simp]:
  "ba_timers (algo (set_cwnd w c)) = ba_timers (algo c)" "snd_una (set_cwnd w c) = snd_una c"
  "snd_max (set_cwnd w c) = snd_max c" "fsm (set_cwnd w c) = fsm c"
  "ba_timers (algo (set_sst w c')) = ba_timers (algo c')" "snd_una (set_sst w c') = snd_una c'"
  "snd_max (set_sst w c') = snd_max c'" "fsm (set_sst w c') = fsm c'"
  "ba_timers (algo (recalculateSlowStartThreshold c')) = ba_timers (algo c')"
  "snd_una (recalculateSlowStartThreshold c') = snd_una c'"
  "snd_max (recalculateSlowStartThreshold c') = snd_max c'" "fsm (recalculateSlowStartThreshold c') = fsm c'"
  by (simp_all add: set_cwnd_def set_sst_def recalculateSlowStartThreshold_def)

lemmas retransmitOneSegment_t = returns_mono [OF retransmitOneSegment_keeps]
lemmas retransmitOneSegment_b = returns_bindE [OF retransmitOneSegment_keeps]

lemma begin_slow_start_keeps: "watched c \<Longrightarrow> returns (begin_slow_start c) (keeps c)"
  unfolding begin_slow_start_def Let_def by (rule retransmitOneSegment_t) (auto simp: guard_defs)

lemmas try_send_t = returns_mono [OF try_send_keeps]

lemma tahoe_receivedDuplicateAck_keeps: "watched c \<Longrightarrow> returns (tahoe_receivedDuplicateAck c) (keeps c)"
  unfolding tahoe_receivedDuplicateAck_def Let_def
  by (intro returns_bindE [OF base_receivedDuplicateAck_keeps] returns_if' returns_value retransmitOneSegment_t)
    (auto simp: guard_defs)

lemma tahoe_receivedDataAck_guards: "timers_there c \<Longrightarrow> returns (tahoe_receivedDataAck gain s c) (sets_guard c)"
  unfolding tahoe_receivedDataAck_def
  by (intro returns_bindE [OF base_receivedDataAck_guards] returns_bindE [OF slow_start_or_avoidance_keeps] try_send_t)
    (auto intro: sets_guard_keeps)

lemma setPipe_keeps: "returns (setPipe c) (keeps c)"
  by (rule returns_mono [OF setPipe_core]) (rule keeps_core)

lemma react_to_ece_keeps: "returns (react_to_ece c) (\<lambda>(b, c'). keeps c c')"
  unfolding react_to_ece_def
  by (intro core_stepping returns_bindE [OF base_restartRexmitTimer_keeps]) (auto simp: guard_defs)

lemma reno_continue_recovery_keeps: "returns (reno_continue_recovery c) (keeps c)"
  unfolding reno_continue_recovery_def
  by (intro returns_if' returns_value returns_bindE [OF setPipe_keeps] returns_mono [OF recovery_send_keeps])
    (auto intro: keeps_trans simp: guard_defs)

text \<open>The window after the acknowledgement, and fast retransmit.\<close>

lemma reno_window_keeps:
  "returns (if dupacks c \<ge> n then Inr (set_cwnd (sst c) c)
     else bindE (react_to_ece c) (\<lambda>(grow, c2). if grow then slow_start_or_avoidance c2 else Inr c2)) (keeps c)"
  by (intro returns_if' returns_value returns_bind_pair [OF react_to_ece_keeps] returns_pair
      returns_mono [OF slow_start_or_avoidance_keeps] set_cwnd_keeps) (auto intro: keeps_trans)

lemma reno_receivedDataAck_guards: "timers_there c \<Longrightarrow> returns (reno_receivedDataAck gain s c) (sets_guard c)"
  unfolding reno_receivedDataAck_def
  by (intro returns_bindE [OF base_receivedDataAck_guards] returns_bindE [OF reno_window_keeps]
      returns_bindE [OF reno_continue_recovery_keeps] try_send_t) (assumption | drule (1) sets_guard_keeps)+

lemma enter_recovery_core [simp]: "core (enter_recovery c) = core c"
  by (simp add: enter_recovery_def)

lemma reno_sack_recovery_keeps:
  "returns (if sack_enabled c then bindE (setPipe c) (\<lambda>c3.
     if lossRecovery c3 then bindE (base_restartRexmitTimer c3) recovery_send else Inr c3) else Inr c) (keeps c)"
  by (intro returns_if' returns_value returns_bindE [OF setPipe_keeps] returns_bindE [OF base_restartRexmitTimer_keeps]
      returns_mono [OF recovery_send_keeps]) (auto intro: keeps_trans)

lemma reno_fast_retransmit_keeps:
  assumes "watched c"
  shows "returns (reno_fast_retransmit c) (keeps c)"
proof -
  let ?c = "recalculateSlowStartThreshold (enter_recovery c)"
  let ?c' = "set_cwnd (sst ?c + 3 * snd_mss ?c) ?c"
  have "keeps c ?c'"
    by (meson keeps_trans keeps_core enter_recovery_core recalculateSlowStartThreshold_keeps set_cwnd_keeps)
  moreover from this have "watched ?c'" using assms by (simp add: keeps_def)
  ultimately show ?thesis unfolding reno_fast_retransmit_def Let_def
    by (intro retransmitOneSegment_b returns_bindE [OF reno_sack_recovery_keeps] try_send_t) (auto intro: keeps_trans)
qed

lemma reno_receivedDuplicateAck_keeps:
  assumes "watched c"
  shows "returns (reno_receivedDuplicateAck c) (keeps c)"
proof -
  have "watched c'" if "keeps c c'" for c' using assms that by (simp add: keeps_def)
  then show ?thesis unfolding reno_receivedDuplicateAck_def
    by (intro returns_bindE [OF base_receivedDuplicateAck_keeps] returns_if' returns_value
        returns_mono [OF reno_fast_retransmit_keeps] try_send_t) (assumption | meson keeps_trans set_cwnd_keeps)+
qed

section \<open>Without congestion control\<close>

lemma noCC_sendData_keeps: "returns (noCC_sendData i c) (\<lambda>(b, c'). keeps c c')"
  unfolding noCC_sendData_def by (rule sendData_keeps)

lemma noCC_try_send_keeps: "returns (noCC_try_send i c) (keeps c)"
  unfolding noCC_try_send_def by (intro returns_bind_pair [OF noCC_sendData_keeps]) simp

lemma noCC_established_keeps: "returns (noCC_established act c) (keeps c)"
  unfolding noCC_established_def
  by (intro returns_if' returns_value returns_bind_pair [OF noCC_sendData_keeps] returns_pair sendAck_t)
    (auto intro: keeps_trans)

lemma noCC_receivedDataAck_guards: "timers_there c \<Longrightarrow> returns (noCC_receivedDataAck gain s c) (sets_guard c)"
  unfolding noCC_receivedDataAck_def
  by (intro returns_bindE [OF base_receivedDataAck_guards] returns_bindE [OF noCC_try_send_keeps] returns_assert'
      returns_value) (auto intro: sets_guard_keeps)

lemma noCC_expiry_guards: "expiry_guards noCC_processRexmitTimer"
proof -
  have "returns (bindE (retransmitOneSegment base_hooks True c) (\<lambda>c2.
      bindE (assertE (cwnd c2 = 0x7FFFFFFF)) (\<lambda>_. Inr c2))) (keeps c)"
    if "watched c" for c :: "('a, base_alg) tcp_conn"
    by (intro retransmitOneSegment_b that returns_assert' returns_value)
  from expiry_then_guards [OF this] show ?thesis
    unfolding noCC_processRexmitTimer_def by (simp add: bindE_assoc cong: if_cong)
qed

end
