(* ===== verification/Tcp_Guarded_Runs.thy ===== *)
theory Tcp_Guarded_Runs
  imports Tcp_Guard_Laws Tcp_Fsm_Laws
begin

text \<open>
  The retransmission timer through the life of a connection. The handlers of a connection keep
  the guard of \<open>Tcp_Guard_Laws\<close> for every algorithm that obeys the laws of the locale
  \<open>guard_algorithm\<close>; Tahoe, Reno and the algorithm without congestion control do.
\<close>

section \<open>Functions that do not send\<close>

lemma core_frame_receive [simp]:
  "core (c\<lparr>gotEce := b1\<rparr>) = core c" "core (c\<lparr>full_sized_segment_counter := n1\<rparr>) = core c"
  "core (c\<lparr>rcv_nxt := w1\<rparr>) = core c" "core (c\<lparr>fin_rcvd := b2\<rparr>) = core c" "core (c\<lparr>rcv_fin_seq := w2\<rparr>) = core c"
  "core (c\<lparr>rcv_naseg := n2\<rparr>) = core c" "core (c\<lparr>rcv_oooseg := n3\<rparr>) = core c" "core (c\<lparr>snd_sack := b3\<rparr>) = core c"
  "core (c\<lparr>snd_dsack := b4\<rparr>) = core c" "core (c\<lparr>start_seqno := w3\<rparr>) = core c" "core (c\<lparr>end_seqno := w4\<rparr>) = core c"
  "core (c\<lparr>ecnEchoState := b5\<rparr>) = core c" "core (c\<lparr>tcpRcvQueueDrops := n4\<rparr>) = core c" "core (c\<lparr>fin_ack_rcvd := b6\<rparr>) = core c"
  "core (c\<lparr>the2MSLTimer := t1\<rparr>) = core c" "core (c\<lparr>finWait2Timer := t2\<rparr>) = core c" "core (c\<lparr>connEstabTimer := t3\<rparr>) = core c"
  "core (c\<lparr>synRexmitTimer := t4\<rparr>) = core c" "core (c\<lparr>listeningSocketId := i1\<rparr>) = core c" "core (c\<lparr>sendQueueLimit := w5\<rparr>) = core c"
  "core (c\<lparr>conn_ttl := i2\<rparr>) = core c" "core (c\<lparr>conn_tos := i3\<rparr>) = core c" "core (c\<lparr>conn_dscp := i4\<rparr>) = core c"
  "core (c\<lparr>now := t5\<rparr>) = core c"
  by (simp_all add: core_def)

lemma processOption_core: "returns (processOption h opt c) (\<lambda>c'. core c' = core c)"
proof (cases opt)
  case (OptSack len items)
  have "returns (processSACKOption h len items c) (\<lambda>c'. core c' = core c)"
    unfolding processSACKOption_def by (intro core_stepping returns_any) (simp_all add: core_def)
  then show ?thesis using OptSack by simp
qed (simp_all add: core_def processMSSOption_def processWSOption_def processTSOption_def
      processSACKPermittedOption_def Let_def)

lemma foldE_keeps:
  assumes "\<And>x c. returns (f x c) (\<lambda>c'. g c' = g c)"
  shows "returns (foldE f xs c) (\<lambda>c'. g c' = g c)"
proof (induction xs arbitrary: c)
  case (Cons x xs)
  show ?case by (auto intro!: returns_bindE [OF assms] returns_mono [OF Cons.IH])
qed simp

lemma readHeaderOptions_core: "returns (readHeaderOptions h c) (\<lambda>c'. core c' = core c)"
  unfolding readHeaderOptions_def by (rule foldE_keeps) (rule processOption_core)

lemma read_options_core: "returns (if b then readHeaderOptions h c else Inr c) (\<lambda>c'. core c' = core c)"
  by (intro returns_if' returns_value readHeaderOptions_core) simp

lemma updateWndInfo_core [simp]: "core (updateWndInfo h b c) = core c"
  by (simp add: updateWndInfo_def Let_def core_def)

lemma start2MSL_core: "returns (start2MSL c) (\<lambda>c'. core c' = core c)"
  unfolding start2MSL_def by (intro returns_any returns_value) simp

lemma restart2MSL_core: "returns (restart2MSL c) (\<lambda>c'. core c' = core c)"
  unfolding restart2MSL_def by (rule returns_mono [OF start2MSL_core]) simp

lemma extract_all_core: "returns (extract_all n c) (\<lambda>c'. core c' = core c)"
proof (induction n arbitrary: c)
  case (Suc n)
  show ?case unfolding extract_all.simps
    by (auto intro!: returns_any returns_mono [OF Suc.IH] simp: Let_def split: option.split)
qed simp

lemma sendAvailableDataToApp_core: "returns (sendAvailableDataToApp c) (\<lambda>c'. core c' = core c)"
  unfolding sendAvailableDataToApp_def by (intro returns_if' returns_value extract_all_core) simp_all

lemma fin_in_sequence_core: "returns (fin_in_sequence c) (\<lambda>(e, c'). core c' = core c)"
  unfolding fin_in_sequence_def
  by (cases "fsm c") (auto intro!: returns_bindE [OF start2MSL_core] returns_bindE [OF restart2MSL_core])

lemma check_rst_core:
  "fsm c \<noteq> TCP_S_SYN_RCVD \<Longrightarrow> returns (check_rst h c) (\<lambda>(r, c'). core c' = core c)"
  by (simp add: check_rst_def)

lemma check_syn_core: "returns (check_syn h p c) (\<lambda>(r, c'). core c' = core c)"
  unfolding check_syn_def by (intro core_stepping) simp_all

lemma returns_any_pair: "(\<And>x y. returns (f (x, y)) Q) \<Longrightarrow> returns (bindE m f) Q"
  by (cases m) auto

section \<open>The laws of an algorithm\<close>

text \<open>
  What the handlers of a connection need from the algorithm: it uses the timers of
  \<open>TcpBaseAlg\<close>, an acknowledgement of new data sets them right, a duplicate acknowledgement is
  handled while the retransmission timer runs, and the expiry of that timer starts it again or
  gives the connection up.
\<close>

locale guard_algorithm =
  fixes alg :: "('a, 'm base_alg_scheme) tcp_algorithm"
  assumes hooks_base: "hooks alg = base_hooks"
    and restart_base: "restartRexmitTimer alg = base_restartRexmitTimer"
    and closed_fsm: "returns (connectionClosed alg c) (\<lambda>c'. fsm c' = fsm c)"
    and established_keeps: "returns (established alg b c) (keeps c)"
    and sendCommandInvoked_keeps: "returns (sendCommandInvoked alg c) (keeps c)"
    and receivedOutOfOrderSegment_keeps: "returns (receivedOutOfOrderSegment alg c) (keeps c)"
    and receiveSeqChanged_keeps: "returns (receiveSeqChanged alg c) (keeps c)"
    and receivedAckForDataNotYetSent_keeps: "returns (receivedAckForDataNotYetSent alg s c) (keeps c)"
    and rttMeasurementCompleteUsingTS_keeps: "returns (rttMeasurementCompleteUsingTS alg s c) (keeps c)"
    and receivedDataAck_guards: "timers_there c \<Longrightarrow> returns (receivedDataAck alg s c) (sets_guard c)"
    and receivedDuplicateAck_keeps: "watched c \<Longrightarrow> returns (receivedDuplicateAck alg c) (keeps c)"
    and timer_guards: "guarded c \<Longrightarrow>
      returns (algProcessTimer alg x c) (\<lambda>(e, c'). fsm c' = fsm c \<and> (e = TCP_E_ABORT \<or> guarded c'))"

text \<open>The states after the handshake, in which RFC 793 calls a connection synchronized.\<close>

definition synchronized :: "tcp_state \<Rightarrow> bool" where
  "synchronized s \<longleftrightarrow> s \<in> {TCP_S_ESTABLISHED, TCP_S_CLOSE_WAIT, TCP_S_FIN_WAIT_1, TCP_S_FIN_WAIT_2,
     TCP_S_CLOSING, TCP_S_LAST_ACK, TCP_S_TIME_WAIT}"

lemma synchronized_states:
  "synchronized s \<Longrightarrow> s \<notin> {TCP_S_INIT, TCP_S_CLOSED, TCP_S_LISTEN, TCP_S_SYN_SENT, TCP_S_SYN_RCVD}"
  by (auto simp: synchronized_def)

lemma synchronized_step:
  assumes "synchronized s"
  shows "next_state act s e = TCP_S_CLOSED \<or> synchronized (next_state act s e)"
proof -
  have "later_step s e = TCP_S_CLOSED \<or> synchronized (later_step s e)"
    by (rule later_stepI) (use assms in \<open>auto simp: synchronized_def later_transitions_def\<close>)
  then show ?thesis using synchronized_states [OF assms] by (simp add: next_state_later)
qed

lemma synchronized_abort: "synchronized s \<Longrightarrow> next_state act s TCP_E_ABORT = TCP_S_CLOSED"
  by (auto simp: synchronized_def next_state_later next_state_simps)

definition guarded_or_closed :: "('a, 'm base_alg_scheme) tcp_conn \<Rightarrow> bool" where
  "guarded_or_closed c \<longleftrightarrow> fsm c = TCP_S_CLOSED \<or> synchronized (fsm c) \<and> guarded c"

text \<open>What a handler keeps: the state of the machine and the guard.\<close>

definition still :: "('a, 'm base_alg_scheme) tcp_conn \<Rightarrow> ('a, 'm base_alg_scheme) tcp_conn \<Rightarrow> bool" where
  "still c c' \<longleftrightarrow> fsm c' = fsm c \<and> guarded c'"

lemma still_keeps: "guarded c \<Longrightarrow> keeps c c' \<Longrightarrow> still c c'" "still a c \<Longrightarrow> keeps c c' \<Longrightarrow> still a c'"
  unfolding still_def by (metis guarded_keeps keeps_def)+

lemma still_core: "core b = core a \<Longrightarrow> still b c \<longleftrightarrow> still a c" "core c' = core c \<Longrightarrow> still b c' \<longleftrightarrow> still b c"
  by (simp_all add: core_def still_def guarded_def timers_there_def)

lemma guarded_core: "core c' = core c \<Longrightarrow> guarded c' \<longleftrightarrow> guarded c"
  by (simp add: core_def guarded_def timers_there_def)

lemma still_coreI: "still b c \<Longrightarrow> core c' = core c \<Longrightarrow> still b c'"
  by (simp add: core_def still_def guarded_def timers_there_def)

lemma still_frame [simp]:
  "still b (c\<lparr>dupacks := w\<rparr>) = still b c" "still b (if p then c\<lparr>gotEce := e\<rparr> else c) = still b c"
  "still (if p then b\<lparr>gotEce := e\<rparr> else b) c = still b c" "guarded (c\<lparr>dupacks := w\<rparr>) = guarded c"
  "still b (c\<lparr>tcpRcvQueueDrops := m\<rparr>) = still b c"
  by (simp_all add: still_def guarded_def timers_there_def)

lemma still_refl: "guarded c \<Longrightarrow> still c c"
  by (simp add: still_def)

lemma still_trans: "still a b \<Longrightarrow> still b c \<Longrightarrow> still a c"
  by (simp add: still_def)

context guard_algorithm
begin

lemmas alg_base = hooks_base restart_base

lemma sendAck_still: "still a c \<Longrightarrow> returns (sendAck (hooks alg) c) (still a)"
  unfolding hooks_base by (rule returns_mono [OF sendAck_keeps]) (rule still_keeps)

lemma unacceptable_segment_keeps: "returns (unacceptable_segment alg h n c) (keeps c)"
  unfolding unacceptable_segment_def hooks_base
  by (intro returns_bindE [where P = "keeps c"] returns_if' returns_value sendAck_t) (auto simp: guard_defs split: if_splits)

lemma check_sequence_keeps: "returns (check_sequence alg h p c) (\<lambda>(r, c'). keeps c c')"
  unfolding check_sequence_def
  by (intro returns_bindE [OF read_options_core] returns_if' returns_bindE [OF unacceptable_segment_keeps] returns_value)
    (auto simp: guard_defs)

lemma duplicate_ack_still:
  assumes "guarded c"
  shows "returns (duplicate_ack alg h n c) (still c)"
proof -
  let ?c = "updateWndInfo h False (c\<lparr>dupacks := dupacks c + 1\<rparr>)"
  have core: "core ?c = core c" by simp
  have "returns (receivedDuplicateAck alg ?c) (still c)" if "snd_una c \<noteq> snd_max c"
  proof (rule returns_mono [OF receivedDuplicateAck_keeps])
    show "watched ?c" using assms that core by (simp add: guarded_def core_def)
    show "still c c'" if "keeps ?c c'" for c'
      using that assms unfolding core_keeps(1) [OF core] by (rule still_keeps(1) [rotated])
  qed
  then show ?thesis unfolding duplicate_ack_def
    by (intro returns_if returns_value) (auto simp: still_refl assms)
qed

text \<open>A new acknowledgement finds the timer running: something was unacknowledged before it.\<close>

lemma new_ack_still:
  assumes "guarded c" "snd_una c \<noteq> snd_max c"
  shows "returns (new_ack alg h n c) (still c)"
proof -
  define armed where "armed c' \<longleftrightarrow> fsm c' = fsm c \<and> timers_there c' \<and> watched c'" for c' :: "('a, 'm base_alg_scheme) tcp_conn"
  have armed_coreI: "armed b \<Longrightarrow> core c' = core b \<Longrightarrow> armed c'" for b c'
    by (simp add: armed_def core_def timers_there_def)
  have armed_still: "still c c'" if "armed c'" for c' using that by (simp add: armed_def still_def guarded_def)
  let ?c1 = "c\<lparr>snd_una := ackNo h\<rparr>"
  let ?c2 = "if seqLess (snd_nxt ?c1) (snd_una ?c1) then ?c1\<lparr>snd_nxt := snd_una ?c1\<rparr> else ?c1"
  have "armed ?c2" using assms by (simp add: armed_def guarded_def timers_there_def)
  then have rtt: "returns (if ts_enabled ?c2 then rttMeasurementCompleteUsingTS alg (getTSecr h) ?c2 else Inr ?c2) armed"
    by (intro returns_if' returns_value returns_mono [OF rttMeasurementCompleteUsingTS_keeps])
      (auto simp: armed_def keeps_def)
  have data_ack: "returns (bindE (receivedDataAck alg s c') (\<lambda>c6. Inr (c6\<lparr>dupacks := 0\<rparr>))) (still c)" if "armed c'" for s c'
    by (rule returns_bindE [OF receivedDataAck_guards])
      (use that in \<open>auto simp: armed_def sets_guard_def still_def\<close>)
  show ?thesis unfolding new_ack_def Let_def
    by (intro returns_bindE [OF rtt] returns_any returns_if' returns_value data_ack armed_still;
        erule armed_coreI, simp)
qed

lemma processAck_still:
  assumes "guarded c"
  shows "returns (processAckInEstabEtc alg h n c) (\<lambda>(b, c'). still c c')"
proof -
  let ?c = "if ect c \<and> eceBit h then c\<lparr>gotEce := True\<rparr> else c"
  have core: "core ?c = core c" by simp
  have g: "guarded ?c" using assms by (simp add: guarded_core [OF core])
  have far: "returns (receivedAckForDataNotYetSent alg (ackNo h) ?c) (still ?c)"
    by (rule returns_mono [OF receivedAckForDataNotYetSent_keeps]) (rule still_keeps(1) [OF g])
  have "snd_una ?c \<noteq> snd_max ?c" if "\<not> seqGE (snd_una ?c) (ackNo h)" "seqLE (ackNo h) (snd_max ?c)"
    using that by (auto simp: seqGE_seqLE)
  then show ?thesis unfolding processAckInEstabEtc_def Let_def
    by (intro returns_if returns_bindE [OF duplicate_ack_still [OF g]] returns_bindE [OF new_ack_still [OF g]]
        returns_assert' returns_bindE [OF far] returns_value)
      simp_all
qed

lemma ack_in_closing_states_still:
  "still a c \<Longrightarrow> returns (ack_in_closing_states alg h e c) (\<lambda>(r, e', c'). still a c')"
  unfolding ack_in_closing_states_def Let_def
  by (intro returns_if' returns_value returns_bindE [OF start2MSL_core] returns_bindE [OF sendAck_still]
      returns_bindE [OF restart2MSL_core]) (auto intro: still_coreI)

lemma in_order_data_core: "returns (in_order_data e c) (\<lambda>(e', c'). core c' = core c)"
proof -
  have "returns (if b then sendAvailableDataToApp c else Inr c) (\<lambda>c'. core c' = core c)" for b
    by (intro returns_if' returns_value sendAvailableDataToApp_core) simp
  then show ?thesis unfolding in_order_data_def
    by (rule returns_bindE) (auto intro!: returns_mono [OF fin_in_sequence_core])
qed

lemma out_of_order_still: "still a c \<Longrightarrow> returns (out_of_order alg h n u c) (still a)"
  unfolding out_of_order_def Let_def
  by (rule returns_mono [OF receivedOutOfOrderSegment_keeps], rule still_keeps(2), erule still_coreI) simp_all

lemma store_payload_still:
  assumes "still a c"
  shows "returns (store_payload alg h p s e c) (\<lambda>(e', c'). still a c')"
proof -
  have data_ack: "returns (if b then bindE (receivedDataAck alg s c') (\<lambda>c2. Inr (c2\<lparr>dupacks := 0\<rparr>)) else Inr c') (still a)"
    if c': "still a c'" for b c'
  proof -
    have "timers_there c'" using c' by (simp add: still_def guarded_def)
    then show ?thesis
      by (intro returns_if' returns_value c' returns_bindE [OF receivedDataAck_guards])
        (use c' in \<open>auto simp: sets_guard_def still_def\<close>)
  qed
  show ?thesis unfolding store_payload_def Let_def
    by (intro returns_any_pair returns_pair returns_bindE [OF data_ack] returns_if' returns_bindE [OF out_of_order_still]
        returns_mono [OF in_order_data_core] returns_value)
      (use assms in \<open>auto intro: still_coreI\<close>)
qed

lemma process_payload_still:
  assumes "still a c"
  shows "returns (process_payload alg h p s e c) (\<lambda>(r, e', c'). still a c')"
proof -
  have "core (updateRcvQueueVars (count_segment h n c)) = core c" for n
    by (simp add: updateRcvQueueVars_def count_segment_def Let_def core_def)
  then have "still a (updateRcvQueueVars (count_segment h n c))" for n using assms by (rule still_coreI [rotated])
  then show ?thesis unfolding process_payload_def Let_def
    by (intro returns_if' returns_bindE [OF store_payload_still] returns_value)
      (use assms in \<open>auto intro: still_coreI\<close>)
qed

lemma process_fin_core: "returns (process_fin h n e c) (\<lambda>(e', c'). core c' = core c)"
  unfolding process_fin_def Let_def
  by (intro returns_if' returns_value returns_mono [OF fin_in_sequence_core]) auto

lemma finish_segment_still:
  assumes "still a c"
  shows "returns (finish_segment alg h n r s e c) (\<lambda>(e', c'). still a c')"
proof -
  let ?c = "if sack_enabled c \<and> getQueueLength (receiveQueue c) \<noteq> 0
     then c\<lparr>start_seqno := sequenceNo h, end_seqno := sequenceNo h + of_nat n, snd_sack := True, ack_now := True\<rparr> else c"
  have "still a ?c" using assms by (rule still_coreI) simp
  then have "returns (receiveSeqChanged alg ?c) (still a)"
    by (intro returns_mono [OF receiveSeqChanged_keeps]) (rule still_keeps(2))
  with assms show ?thesis unfolding finish_segment_def Let_def
    by (intro returns_bindE [where P = "still a"] returns_if' returns_value) auto
qed

lemma go_on_event_returns:
  "returns m (\<lambda>(r, e, c). P c) \<Longrightarrow> (\<And>e c. P c \<Longrightarrow> returns (f e c) (\<lambda>(e, c). P c))
    \<Longrightarrow> returns (go_on_event m f) (\<lambda>(e, c). P c)"
  unfolding go_on_event_def by (erule returns_bindE) (auto split: option.split)

lemma go_on_returns:
  "returns m (\<lambda>(r, c). P c) \<Longrightarrow> (\<And>c. P c \<Longrightarrow> returns (f c) (\<lambda>(e, c). P c))
    \<Longrightarrow> returns (go_on m f) (\<lambda>(e, c). P c)"
  unfolding go_on_def by (erule returns_bindE) (auto split: option.split)

lemma process_ack_onwards_still:
  assumes "still a c" "fsm a \<noteq> TCP_S_SYN_RCVD"
  shows "returns (process_ack_onwards alg h p c) (\<lambda>(e, c'). still a c')"
proof -
  have fsm: "fsm c' \<noteq> TCP_S_SYN_RCVD" if "still a c'" for c' using that assms(2) by (simp add: still_def)
  have syn: "returns (ack_in_syn_rcvd alg h c) (\<lambda>(r, e, c'). still a c')"
    using assms(1) fsm by (simp add: ack_in_syn_rcvd_def)
  have ack: "returns (if b then bindE (processAckInEstabEtc alg h n c') (\<lambda>(ok, c2). Inr (if ok then None else Some x, e, c2))
      else Inr (None, e, c')) (\<lambda>(r, e, c'). still a c')" if c': "still a c'" for b n c' x e
  proof (intro returns_if' returns_value)
    have "guarded c'" using c' by (simp add: still_def)
    from processAck_still [OF this] show "returns (bindE (processAckInEstabEtc alg h n c') (\<lambda>(ok, c2).
        Inr (if ok then None else Some x, e, c2))) (\<lambda>(r, e, c'). still a c')"
      by (rule returns_bindE) (use c' still_trans in auto)
  qed (use c' in simp)
  have fin: "returns (bindE (process_fin h n e c') (\<lambda>(e', c5). finish_segment alg h n r s e' c5)) (\<lambda>(e, c'). still a c')"
    if "still a c'" for n e c' r s
    by (rule returns_bindE [OF process_fin_core])
      (use that in \<open>auto intro!: finish_segment_still [THEN returns_mono] intro: still_coreI\<close>)
  show ?thesis unfolding process_ack_onwards_def
    by (intro returns_if' returns_value go_on_event_returns [OF syn] go_on_event_returns [OF ack]
        go_on_event_returns [OF ack_in_closing_states_still] go_on_event_returns [OF process_payload_still] fin)
      (use assms in auto)
qed

lemma processSegment_still:
  assumes "guarded c" "fsm c \<noteq> TCP_S_SYN_RCVD"
  shows "returns (processSegment1stThru8th alg h p c) (\<lambda>(e, c'). still c c')"
proof -
  have seq: "returns (check_sequence alg h p c) (\<lambda>(r, c'). still c c')"
    using assms(1) by (auto intro: returns_mono [OF check_sequence_keeps] still_keeps)
  have rst: "returns (check_rst h c') (\<lambda>(r, c''). still c c'')" if "still c c'" for c'
  proof (rule returns_mono [OF check_rst_core])
    show "fsm c' \<noteq> TCP_S_SYN_RCVD" using that assms(2) by (simp add: still_def)
  qed (use that in \<open>auto intro: still_coreI\<close>)
  have syn: "returns (check_syn h p c') (\<lambda>(r, c''). still c c'')" if "still c c'" for c'
    by (rule returns_mono [OF check_syn_core]) (use that in \<open>auto intro: still_coreI\<close>)
  show ?thesis unfolding processSegment1stThru8th_def
    by (intro go_on_returns [OF seq] go_on_returns [OF rst] go_on_returns [OF syn] process_ack_onwards_still assms)
qed

lemma stateEntered_closed:
  "returns (stateEntered (connectionClosed alg) TCP_S_CLOSED s e c) (\<lambda>c'. fsm c' = fsm c)"
  by (auto simp: stateEntered_def intro!: returns_mono [OF closed_fsm] simp: cancel_timers_def sendIndicationToApp_def send_output_def)

lemma stateEntered_synchronized:
  "synchronized t \<Longrightarrow> returns (stateEntered closed t s e c) (\<lambda>c'. core c' = core c)"
  by (auto simp: synchronized_def stateEntered_def cancel_setup_timers_def)

lemma transition_guarded:
  assumes "synchronized (fsm c)" "e = TCP_E_ABORT \<or> guarded c"
  shows "returns (performStateTransition (connectionClosed alg) e c) (\<lambda>(b, c'). guarded_or_closed c')"
proof (cases "next_state (active c) (fsm c) e = TCP_S_CLOSED \<and> e \<noteq> TCP_E_IGNORE")
  case True
  then show ?thesis unfolding performStateTransition_def Let_def
    by (intro returns_assert' returns_if returns_bindE [where P = "\<lambda>c'. fsm c' = TCP_S_CLOSED"]
        returns_mono [OF stateEntered_closed]; (use assms synchronized_states in \<open>auto simp: guarded_or_closed_def stateEntered_closed [THEN returns_mono]\<close>)?)
next
  case False
  let ?t = "next_state (active c) (fsm c) e"
  have g: "guarded c" using False assms synchronized_abort by auto
  have entered: "returns (if b then stateEntered (connectionClosed alg) ?t (fsm c) e (c\<lparr>fsm := ?t\<rparr>) else Inr (c\<lparr>fsm := ?t\<rparr>))
      (\<lambda>c'. core c' = core (c\<lparr>fsm := ?t\<rparr>))" if "e \<noteq> TCP_E_IGNORE" for b
    using False that synchronized_step [OF assms(1), of "active c" e]
    by (auto intro: stateEntered_synchronized)
  have "guarded_or_closed c'" if "core c' = core (c\<lparr>fsm := ?t\<rparr>)" for c'
    using that g synchronized_step [OF assms(1), of "active c" e]
    by (auto simp: guarded_or_closed_def core_def guarded_def timers_there_def)
  then show ?thesis unfolding performStateTransition_def Let_def
    by (intro returns_assert' returns_if returns_value returns_bindE [OF entered])
      (use g assms(1) in \<open>auto simp: guarded_or_closed_def\<close>)
qed

text \<open>The commands of the application in the synchronized states.\<close>

lemma enqueue_data_core: "returns (enqueue_data d c) (\<lambda>c'. core c' = core c)"
  unfolding enqueue_data_def by (intro returns_any returns_value) simp

lemma process_SEND_keeps:
  assumes "synchronized (fsm c)"
  shows "returns (process_SEND alg d c) (keeps c)"
proof -
  have "returns (bindE (enqueue_data d c) (sendCommandInvoked alg)) (keeps c)"
    by (rule returns_bindE [OF enqueue_data_core], rule returns_mono [OF sendCommandInvoked_keeps])
      (meson keeps_trans keeps_core)
  moreover have "keeps c (c'\<lparr>queueUpdate := b\<rparr>) = keeps c c'" for c' b
    by (simp add: keeps_def timers_there_def)
  ultimately show ?thesis unfolding process_SEND_def using synchronized_states [OF assms]
    by (intro returns_bindE [where P = "keeps c"]) auto
qed

lemma process_CLOSE_keeps:
  assumes "synchronized (fsm c)"
  shows "returns (process_CLOSE alg c) (\<lambda>(e, c'). keeps c c')"
proof -
  have "returns (bindE (sendFin base_hooks (c\<lparr>snd_nxt := w\<rparr>)) (\<lambda>c1. bindE (base_restartRexmitTimer c1) (\<lambda>c2.
      Inr (TCP_E_CLOSE, c2\<lparr>snd_nxt := snd_nxt c2 + 1, snd_max := snd_nxt c2 + 1\<rparr>)))) (\<lambda>(e, c'). keeps c c')" for w
    by (intro returns_bindE [OF sendFin_keeps] returns_bindE [OF base_restartRexmitTimer_keeps] returns_value)
      (auto simp: guard_defs)
  then show ?thesis unfolding process_CLOSE_def alg_base
    by (intro returns_if' returns_value returns_bindE [where P = "\<lambda>(e, c'). keeps c c'"])
      (auto simp: guard_defs)
qed

lemma process_command_still:
  assumes "synchronized (fsm c)" "guarded c"
  shows "returns (process_command alg sv cmd c) (\<lambda>(e, c'). still c c')"
proof -
  have core: "still c c'" if "core c' = core c" for c'
    using still_coreI [OF still_refl [OF assms(2)] that] .
  have keep: "still c c'" if "keeps c c'" for c' using still_keeps(1) [OF assms(2) that] .
  note syn = synchronized_states [OF assms(1)]
  show ?thesis
  proof (cases cmd)
    case TCP_C_ACCEPT
    have "returns (process_ACCEPT c) (\<lambda>c'. core c' = core c)"
      unfolding process_ACCEPT_def by (rule returns_mono [OF sendAvailableDataToApp_core]) simp
    then show ?thesis using TCP_C_ACCEPT core by (auto elim!: returns_bindE)
  next
    case (TCP_C_SEND d)
    then show ?thesis using keep by (auto intro!: returns_bindE [OF process_SEND_keeps [OF assms(1)]])
  next
    case TCP_C_CLOSE
    then show ?thesis using keep by (auto intro: returns_mono [OF process_CLOSE_keeps [OF assms(1)]])
  next
    case TCP_C_ABORT
    then show ?thesis using core
      by (simp add: process_ABORT_def sendRst_def sendRst_addr_def sendToIP_addr_def)
  next
    case TCP_C_READ
    have "returns (process_READ_REQUEST c) (\<lambda>c'. core c' = core c)"
      unfolding process_READ_REQUEST_def by (intro returns_if' returns_fail extract_all_core)
    then show ?thesis using TCP_C_READ core by (auto elim!: returns_bindE)
  qed (use syn core in \<open>auto simp: process_OPEN_ACTIVE_def process_OPEN_PASSIVE_def process_STATUS_def\<close>)
qed

lemma process_timer_guarded:
  assumes "synchronized (fsm c)" "guarded c"
  shows "returns (process_timer_event alg t c) (\<lambda>(e, c'). fsm c' = fsm c \<and> (e = TCP_E_ABORT \<or> guarded c'))"
proof (cases t)
  case (AlgTimer x)
  then show ?thesis using timer_guards [OF assms(2)] by (simp add: process_timer_event_def)
next
  case SynRexmit
  then show ?thesis using synchronized_states [OF assms(1)]
    by (simp add: process_timer_event_def process_TIMEOUT_SYN_REXMIT_def Let_def)
qed (use assms(2) synchronized_states [OF assms(1)] in
    \<open>auto simp: process_timer_event_def process_TIMEOUT_2MSL_def process_TIMEOUT_CONN_ESTAB_def
      process_TIMEOUT_FIN_WAIT_2_def guarded_def timers_there_def\<close>)

text \<open>Segments, commands and timers.\<close>

lemma segment_guarded:
  assumes "synchronized (fsm c)" "guarded c"
  shows "returns (processTCPSegment alg fresh h p src dest c) (\<lambda>(b, c', k). guarded_or_closed c')"
proof -
  have "returns (process_RCV_SEGMENT alg fresh h p src dest c) (\<lambda>(e, c', k). still c c')"
    using synchronized_states [OF assms(1)] unfolding process_RCV_SEGMENT_def
    by (auto intro!: returns_bindE [OF processSegment_still [OF assms(2)]])
  then show ?thesis unfolding processTCPSegment_def
    by (intro returns_assert', elim returns_bindE)
      (use assms in \<open>auto simp: still_def intro!: returns_bindE [OF transition_guarded]\<close>)
qed

lemma command_guarded:
  assumes "synchronized (fsm c)" "guarded c"
  shows "returns (processAppCommand alg sv cmd c) (\<lambda>(b, c'). guarded_or_closed c')"
  unfolding processAppCommand_def
  by (rule returns_bindE [OF process_command_still [OF assms]])
    (use assms in \<open>auto simp: still_def intro!: transition_guarded\<close>)

lemma timer_guarded:
  assumes "synchronized (fsm c)" "guarded c"
  shows "returns (processTimer alg t c) (\<lambda>(b, c'). guarded_or_closed c')"
  unfolding processTimer_def
  by (rule returns_bindE [OF process_timer_guarded [OF assms]])
    (use assms in \<open>auto intro!: transition_guarded\<close>)

end

section \<open>Tahoe, Reno and no congestion control obey the laws\<close>

lemma base_timer_guards:
  assumes "expiry_guards f" "guarded c"
  shows "returns (base_processTimer f x c) (\<lambda>(e, c'). fsm c' = fsm c \<and> (e = TCP_E_ABORT \<or> guarded c'))"
proof -
  let ?c = "set_timer x Idle c"
  have there: "timers_there ?c" using assms(2) by (simp add: guarded_def timers_there_def)
  show ?thesis
  proof (cases "x = RexmitTimer")
    case True
    then have "returns (f ?c) (\<lambda>(e, c'). fsm c' = fsm ?c \<and> (e = TCP_E_ABORT \<or> e = TCP_E_IGNORE \<and> guarded c' \<and> watched c'))"
      using assms(1) [unfolded expiry_guards_def, rule_format, of ?c] there by simp
    then show ?thesis using True by (auto simp: base_processTimer_def elim: returns_mono)
  next
    case False
    then have "guarded ?c" using assms(2) there by (simp add: guarded_def)
    then have *: "fsm c' = fsm c \<and> guarded c'" if "keeps ?c c'" for c'
      using still_keeps(1) [OF _ that] by (simp add: still_def)
    show ?thesis using False * unfolding base_processTimer_def Let_def
      by (cases x) (auto intro!: returns_bindE [OF processPersistTimer_keeps] returns_bindE [OF processDelayedAckTimer_keeps]
          simp: processKeepAliveTimer_def)
  qed
qed

lemma base_algorithm_laws:
  assumes "\<And>b c. returns (est b c) (keeps c)" "\<And>b c. returns (send b c) (keeps c)" "expiry_guards expired"
    "\<And>s c. timers_there c \<Longrightarrow> returns (dataAck s c) (sets_guard c)" "\<And>c. watched c \<Longrightarrow> returns (dupAck c) (keeps c)"
  shows "guard_algorithm (base_algorithm gain est send expired dataAck dupAck)"
  by unfold_locales
    (simp_all add: base_algorithm_def tcp_algorithm.defs alg_hooks.defs base_hooks_def assms base_connectionClosed_fsm
      base_receivedOutOfOrderSegment_keeps base_receiveSeqChanged_keeps base_receivedAckForDataNotYetSent_keeps
      base_rttMeasurementCompleteUsingTS_keeps base_timer_guards)

interpretation tahoe: guard_algorithm "tcp_tahoe gain" for gain
  unfolding tcp_tahoe_def tahoe_processRexmitTimer_def
  by (rule base_algorithm_laws)
    (rule base_established_keeps try_send_keeps after_base_rexmit_guards begin_slow_start_keeps
      tahoe_receivedDataAck_guards tahoe_receivedDuplicateAck_keeps, assumption?)+

interpretation reno: guard_algorithm "tcp_reno gain" for gain
  unfolding tcp_reno_def reno_processRexmitTimer_def
  by (rule base_algorithm_laws)
    (rule base_established_keeps try_send_keeps after_base_rexmit_guards begin_slow_start_keeps
      reno_receivedDataAck_guards reno_receivedDuplicateAck_keeps, assumption?)+

interpretation no_cc: guard_algorithm "tcp_no_congestion_control gain" for gain
  unfolding tcp_no_congestion_control_def
  by (rule base_algorithm_laws)
    (rule noCC_established_keeps noCC_try_send_keeps noCC_expiry_guards noCC_receivedDataAck_guards
      base_receivedDuplicateAck_keeps, assumption?)+

section \<open>Runs\<close>

text \<open>
  What can happen to a connection until it is closed and \<open>Tcp\<close> deletes it. An operation that
  fails ends the simulation.
\<close>

inductive tcp_moves :: "('a, 't) tcp_algorithm \<Rightarrow> ('a, 't) tcp_conn \<Rightarrow> ('a, 't) tcp_conn \<Rightarrow> bool"
  for alg :: "('a, 't) tcp_algorithm" where
  segment: "fsm c \<noteq> TCP_S_CLOSED \<Longrightarrow> processTCPSegment alg fresh h p src dest c = Inr (b, c', k) \<Longrightarrow> tcp_moves alg c c'"
| command: "fsm c \<noteq> TCP_S_CLOSED \<Longrightarrow> processAppCommand alg sv cmd c = Inr (b, c') \<Longrightarrow> tcp_moves alg c c'"
| timer: "fsm c \<noteq> TCP_S_CLOSED \<Longrightarrow> processTimer alg t c = Inr (b, c') \<Longrightarrow> tcp_moves alg c c'"
| clock: "fsm c \<noteq> TCP_S_CLOSED \<Longrightarrow> now c \<le> t \<Longrightarrow> tcp_moves alg c (c\<lparr>now := t\<rparr>)"

context guard_algorithm
begin

lemma moves_guarded:
  assumes "tcp_moves alg c c'" "guarded_or_closed c"
  shows "guarded_or_closed c'"
  using assms
proof cases
  case (segment fresh h p src dest b k)
  then show ?thesis using assms(2) segment_guarded [of c fresh h p src dest] by (simp add: guarded_or_closed_def)
next
  case (command sv cmd b)
  then show ?thesis using assms(2) command_guarded [of c sv cmd] by (simp add: guarded_or_closed_def)
next
  case (timer t b)
  then show ?thesis using assms(2) timer_guarded [of c t] by (simp add: guarded_or_closed_def)
qed (simp add: guarded_or_closed_def guarded_def timers_there_def)

lemma run_guarded:
  assumes "(tcp_moves alg)\<^sup>*\<^sup>* c c'" "synchronized (fsm c)" "guarded c"
  shows "fsm c' = TCP_S_CLOSED \<or> synchronized (fsm c') \<and> (snd_una c' = snd_max c' \<or> watched c')"
proof -
  from assms(1) have "guarded_or_closed c'"
    by (induction rule: rtranclp_induct) (use assms(2,3) moves_guarded in \<open>auto simp: guarded_or_closed_def\<close>)
  then show ?thesis by (auto simp: guarded_or_closed_def guarded_def)
qed

end


definition example_reno :: "(char, family_alg) tcp_conn" where
  "example_reno = (example_conn (family_new\<lparr>snd_cwnd := 1072\<rparr>))\<lparr>fsm := TCP_S_ESTABLISHED, snd_wnd := 7504,
     snd_una := 1, snd_nxt := 1, snd_max := 1, sendQueue := \<lparr>q_begin = 1, q_end = 1, dataBuffer = []\<rparr>\<rparr>"

lemma example_reno_sel:
  "fsm example_reno = TCP_S_ESTABLISHED" "snd_una example_reno = 1" "snd_nxt example_reno = 1"
  "snd_max example_reno = 1" "q_end (sendQueue example_reno) = 1" "rcv_wnd_scale example_reno = 0"
  "alg_timer_of x example_reno = Idle"
  by (simp_all add: example_reno_def example_conn_defs family_new_def base_alg_new_def base_alg.defs)

lemma sendFin_base:
  "rcv_wnd_scale c \<le> 14 \<Longrightarrow> \<exists>c'. sendFin base_hooks c = Inr c' \<and> snd_nxt c' = snd_nxt c"
  by (simp add: sendFin_def updateRcvWnd_value sendToIP_def new_header_def base_ackSent_def Let_def send_output_def offered_def
      TCP_MIN_HEADER_LENGTH_def TCP_MAX_HEADER_LENGTH_def cancel_timer_def set_timer_def upd_algo_def)

lemma restart_rexmit_there:
  "timers_there c \<Longrightarrow> \<exists>c'. base_restartRexmitTimer c = Inr c' \<and> snd_nxt c' = snd_nxt c"
  by (cases "alg_timer_of RexmitTimer c")
    (auto simp: base_restartRexmitTimer_def startRexmitTimer_def schedule_timer_idle cancel_timer_def timers_there_def
      set_timer_def upd_algo_def)

text \<open>The application closes: the FIN is sent, unacknowledged and guarded.\<close>

lemma example_close:
  "\<exists>c'. processAppCommand (tcp_reno gain) sv TCP_C_CLOSE example_reno = Inr (True, c')
     \<and> snd_una c' = 1 \<and> snd_max c' = 2 \<and> fsm c' = TCP_S_FIN_WAIT_1"
proof -
  let ?c = "example_reno\<lparr>snd_nxt := 1\<rparr>"
  obtain c1 where c1: "sendFin base_hooks ?c = Inr c1" "snd_nxt c1 = 1"
    using sendFin_base [of ?c] by (auto simp: example_reno_sel)
  have k1: "keeps ?c c1" using sendFin_keeps [of ?c] c1(1) by simp
  then have "timers_there c1" by (simp add: keeps_def timers_there_def example_reno_sel)
  then obtain c2 where c2: "base_restartRexmitTimer c1 = Inr c2" "snd_nxt c2 = 1"
    using restart_rexmit_there [of c1] c1(2) by auto
  have "keeps c1 c2" using base_restartRexmitTimer_keeps [of c1] c2(1) by simp
  then have c2': "fsm c2 = TCP_S_ESTABLISHED" "snd_una c2 = 1" using k1 by (simp_all add: keeps_def example_reno_sel)
  show ?thesis
    using c1 c2 c2'
    by (simp add: processAppCommand_def process_CLOSE_def reno.alg_base example_reno_sel performStateTransition_def
        next_state_later next_state_simps stateEntered_def cancel_setup_timers_def)
qed


end
