(* ===== verification/Icn_Ids.thy ===== *)
theory Icn_Ids
  imports Inet_Prelude
begin

text \<open>
  The identifiers of the information-centric network layer (\<open>networklayer/icn/field/NID.h\<close>,
  \<open>NID.cc\<close>, \<open>SID.h\<close>, \<open>SID.cc\<close>): a node has four words, a content object the identifier of
  its node and five words of its own. Their words are hash values, which the model takes as
  given. The public member \<open>test\<close>, a number for debug output, is left out: no comparison
  reads it. The order is what the standard maps of all tables are keyed by.
\<close>

section \<open>Node and content identifiers\<close>

datatype nid = NID u32 u32 u32 u32

datatype sid = SID (getNidHead: nid) u32 u32 u32 u32 u32

fun nid_value :: "nid \<Rightarrow> u32 list" where
  "nid_value (NID a b c d) = [a, b, c, d]"

fun getSidTail :: "sid \<Rightarrow> u32 list" where
  "getSidTail (SID n a b c d e) = [a, b, c, d, e]"

definition nid_isDefault :: "nid \<Rightarrow> bool" where
  "nid_isDefault n \<longleftrightarrow> (\<forall>w \<in> set (nid_value n). w = 0)"

definition default_nid :: nid where "default_nid = NID 0 0 0 0"

text \<open>\<open>ArrayCmp\<close> compares arrays of one length word by word.\<close>

fun ArrayCmp :: "u32 list \<Rightarrow> u32 list \<Rightarrow> bool" where
  "ArrayCmp (x # xs) (y # ys) = (if x \<noteq> y then x < y else ArrayCmp xs ys)"
| "ArrayCmp _ _ = False"

definition nid_less :: "nid \<Rightarrow> nid \<Rightarrow> bool" where
  "nid_less l r = ArrayCmp (nid_value l) (nid_value r)"

definition sid_less :: "sid \<Rightarrow> sid \<Rightarrow> bool" where
  "sid_less l r = (if getNidHead l = getNidHead r then ArrayCmp (getSidTail l) (getSidTail r)
                   else nid_less (getNidHead l) (getNidHead r))"

section \<open>The order is linear\<close>

lemma ArrayCmp_irrefl [simp]: "\<not> ArrayCmp xs xs"
  by (induction xs) simp_all

lemma ArrayCmp_asym: "ArrayCmp xs ys \<Longrightarrow> \<not> ArrayCmp ys xs"
  by (induction xs ys rule: ArrayCmp.induct) (auto split: if_splits)

lemma ArrayCmp_trans: "ArrayCmp xs ys \<Longrightarrow> ArrayCmp ys zs \<Longrightarrow> ArrayCmp xs zs"
proof (induction xs ys arbitrary: zs rule: ArrayCmp.induct)
  case (1 x xs y ys)
  then show ?case by (cases zs) (auto split: if_splits)
qed simp_all

lemma ArrayCmp_total: "length xs = length ys \<Longrightarrow> xs \<noteq> ys \<Longrightarrow> ArrayCmp xs ys \<or> ArrayCmp ys xs"
  by (induction xs ys rule: ArrayCmp.induct) auto

lemma nid_value_inject: "nid_value a = nid_value b \<longleftrightarrow> a = b"
  by (cases a; cases b) simp

lemma length_nid_value [simp]: "length (nid_value a) = 4"
  by (cases a) simp

lemma length_getSidTail [simp]: "length (getSidTail a) = 5"
  by (cases a) simp

lemma sid_parts_inject: "getNidHead a = getNidHead b \<Longrightarrow> getSidTail a = getSidTail b \<longleftrightarrow> a = b"
  by (cases a; cases b) auto

lemma nid_less_total: "a \<noteq> b \<Longrightarrow> nid_less a b \<or> nid_less b a"
  by (simp add: nid_less_def ArrayCmp_total nid_value_inject)

lemma nid_less_trans: "nid_less a b \<Longrightarrow> nid_less b c \<Longrightarrow> nid_less a c"
  unfolding nid_less_def by (rule ArrayCmp_trans)

lemma nid_less_asym: "nid_less a b \<Longrightarrow> \<not> nid_less b a"
  unfolding nid_less_def by (rule ArrayCmp_asym)

lemma sid_less_total: "a \<noteq> b \<Longrightarrow> sid_less a b \<or> sid_less b a"
  using nid_less_total [of "getNidHead a" "getNidHead b"] ArrayCmp_total [of "getSidTail a" "getSidTail b"]
    sid_parts_inject [of a b]
  by (auto simp: sid_less_def)

lemma sid_less_asym: "sid_less a b \<Longrightarrow> \<not> sid_less b a"
  using nid_less_asym [of "getNidHead a" "getNidHead b"] ArrayCmp_asym [of "getSidTail a" "getSidTail b"]
  by (auto simp: sid_less_def split: if_splits)

lemma sid_less_trans: "sid_less a b \<Longrightarrow> sid_less b c \<Longrightarrow> sid_less a c"
  using nid_less_trans [of "getNidHead a" "getNidHead b" "getNidHead c"] nid_less_asym [of "getNidHead a" "getNidHead b"]
    ArrayCmp_trans [of "getSidTail a" "getSidTail b" "getSidTail c"]
  by (auto simp: sid_less_def split: if_splits)

instantiation nid :: linorder
begin

definition less_nid :: "nid \<Rightarrow> nid \<Rightarrow> bool" where
  "less_nid = nid_less"

definition less_eq_nid :: "nid \<Rightarrow> nid \<Rightarrow> bool" where
  "less_eq_nid a b \<longleftrightarrow> nid_less a b \<or> a = b"

instance
proof
  fix x y z :: nid
  show "x < y \<longleftrightarrow> x \<le> y \<and> \<not> y \<le> x"
    using nid_less_asym [of x y] nid_less_asym [of x x] by (auto simp: less_nid_def less_eq_nid_def)
  show "x \<le> x" by (simp add: less_eq_nid_def)
  show "x \<le> y \<Longrightarrow> y \<le> z \<Longrightarrow> x \<le> z" using nid_less_trans [of x y z] by (auto simp: less_eq_nid_def)
  show "x \<le> y \<Longrightarrow> y \<le> x \<Longrightarrow> x = y" using nid_less_asym [of x y] by (auto simp: less_eq_nid_def)
  show "x \<le> y \<or> y \<le> x" using nid_less_total [of x y] by (auto simp: less_eq_nid_def)
qed

end

instantiation sid :: linorder
begin

definition less_sid :: "sid \<Rightarrow> sid \<Rightarrow> bool" where
  "less_sid = sid_less"

definition less_eq_sid :: "sid \<Rightarrow> sid \<Rightarrow> bool" where
  "less_eq_sid a b \<longleftrightarrow> sid_less a b \<or> a = b"

instance
proof
  fix x y z :: sid
  show "x < y \<longleftrightarrow> x \<le> y \<and> \<not> y \<le> x"
    using sid_less_asym [of x y] sid_less_asym [of x x] by (auto simp: less_sid_def less_eq_sid_def)
  show "x \<le> x" by (simp add: less_eq_sid_def)
  show "x \<le> y \<Longrightarrow> y \<le> z \<Longrightarrow> x \<le> z" using sid_less_trans [of x y z] by (auto simp: less_eq_sid_def)
  show "x \<le> y \<Longrightarrow> y \<le> x \<Longrightarrow> x = y" using sid_less_asym [of x y] by (auto simp: less_eq_sid_def)
  show "x \<le> y \<or> y \<le> x" using sid_less_total [of x y] by (auto simp: less_eq_sid_def)
qed

end

section \<open>Property\<close>

text \<open>
  C21. The comparison operators of content identifiers are what a standard map needs: exactly
  one of less, equal and greater holds of any two identifiers, and less is transitive, so
  two identifiers share a table entry exactly if they are equal.
\<close>

theorem sid_order_strict_total:
  "((sid_less a b \<and> a \<noteq> b \<and> \<not> sid_less b a) \<or> (\<not> sid_less a b \<and> a = b \<and> \<not> sid_less b a)
      \<or> (\<not> sid_less a b \<and> a \<noteq> b \<and> sid_less b a))
   \<and> (sid_less a b \<and> sid_less b c \<longrightarrow> sid_less a c)"
  using sid_less_total [of a b] sid_less_asym [of a b] sid_less_asym [of a a] sid_less_trans [of a b c] by auto

theorem sid_order_strict_total_witness:
  "sid_less (SID (NID 0 0 0 1) 9 9 9 9 9) (SID (NID 0 0 0 2) 0 0 0 0 0)
   \<and> sid_less (SID (NID 0 0 0 1) 0 0 0 0 0) (SID (NID 0 0 0 2) 0 0 0 0 0)"
  using sid_order_strict_total [of "SID (NID 0 0 0 1) 0 0 0 0 0" "SID (NID 0 0 0 1) 9 9 9 9 9" "SID (NID 0 0 0 2) 0 0 0 0 0"]
  by (simp add: sid_less_def nid_less_def)

end
