(* ===== verification/Color_Pit.thy ===== *)
theory Color_Pit
  imports Icn_Ids "HOL-Library.AList"
begin

text \<open>
  \<open>networklayer/icn/pendingTable/colorPendingGetTable.cc\<close>: the pending interest table. A
  multimap keeps the requests (GET packets) that wait for a content object; one timer message
  per object removes them. Pointers to messages are numbers, and \<open>pit_msgs\<close> says which
  messages exist and when they are due. The multimap is a list in which the entries of one
  key stand in the order of their insertion.
\<close>

section \<open>Data\<close>

type_synonym mac_address = "48 word"

record pit_entry =
  pe_nid :: nid
  pe_TTL :: simtime
  pe_mac :: mac_address
  pe_type :: int
  pe_Nonce :: u64
  pe_served :: bool
  pe_isConsumer :: bool

record pit =
  pit_table :: "(sid \<times> pit_entry) list"
  pit_sids :: "(sid \<times> nat) list"
  pit_timers :: "(nat \<times> sid) list"
  pit_capacity :: int
  pit_msgs :: "nat \<Rightarrow> timer"
  pit_next :: nat

definition pit_initialize :: pit where
  "pit_initialize = \<lparr>pit_table = [], pit_sids = [], pit_timers = [], pit_capacity = 100,
     pit_msgs = (\<lambda>_. Deleted), pit_next = 0\<rparr>"

section \<open>Operations\<close>

definition findPITentry :: "sid \<Rightarrow> pit \<Rightarrow> pit_entry list" where
  "findPITentry s p = map snd (filter (\<lambda>x. fst x = s) (pit_table p))"

definition haveSID :: "sid \<Rightarrow> pit \<Rightarrow> bool" where
  "haveSID s p \<longleftrightarrow> findPITentry s p \<noteq> []"

text \<open>\<open>find\<close> of a multimap returns the first entry of the key.\<close>

definition haveEntry :: "sid \<Rightarrow> u64 \<Rightarrow> pit \<Rightarrow> bool" where
  "haveEntry s nonce p = (case findPITentry s p of [] \<Rightarrow> False | e # _ \<Rightarrow> pe_Nonce e = nonce)"

definition isConsumer :: "sid \<Rightarrow> pit \<Rightarrow> bool" where
  "isConsumer s p \<longleftrightarrow> (\<exists>e \<in> set (findPITentry s p). pe_isConsumer e)"

definition servedForThisGet :: "sid \<Rightarrow> u64 \<Rightarrow> pit \<Rightarrow> bool" where
  "servedForThisGet s nonce p \<longleftrightarrow> (\<exists>e \<in> set (findPITentry s p). pe_Nonce e = nonce \<and> pe_served e)"

definition SetServed :: "sid \<Rightarrow> pit \<Rightarrow> pit" where
  "SetServed s p = p\<lparr>pit_table := map (\<lambda>x. if fst x = s then (fst x, (snd x)\<lparr>pe_served := True\<rparr>) else x) (pit_table p)\<rparr>"

definition pit_getLength :: "pit \<Rightarrow> int" where
  "pit_getLength p = int (length (pit_sids p))"

definition pit_isFull :: "pit \<Rightarrow> bool" where
  "pit_isFull p \<longleftrightarrow> int (length (pit_table p)) \<ge> pit_capacity p"

definition AddPITentry :: "sid \<Rightarrow> pit_entry \<Rightarrow> pit \<Rightarrow> pit" where
  "AddPITentry s e p = p\<lparr>pit_table := pit_table p @ [(s, e)]\<rparr>"

text \<open>\<open>cancelEvent(m); scheduleAt(t, m)\<close>: both need a message that exists.\<close>

definition pit_cancelEvent :: "nat \<Rightarrow> pit \<Rightarrow> pit outcome" where
  "pit_cancelEvent m p =
     (if pit_msgs p m = Deleted then Inl (UndefinedBehaviour ''cancelEvent: use after delete'')
      else Inr (p\<lparr>pit_msgs := (pit_msgs p)(m := Idle)\<rparr>))"

definition pit_scheduleAt :: "simtime \<Rightarrow> nat \<Rightarrow> pit \<Rightarrow> pit outcome" where
  "pit_scheduleAt t m p =
     bindE (schedule (pit_msgs p m) t) (\<lambda>tm. Inr (p\<lparr>pit_msgs := (pit_msgs p)(m := tm)\<rparr>))"

definition start_pit_timer :: "sid \<Rightarrow> simtime \<Rightarrow> pit \<Rightarrow> pit outcome" where
  "start_pit_timer s due p =
     (case map_of (pit_sids p) s of
        Some m \<Rightarrow> bindE (pit_cancelEvent m p) (pit_scheduleAt due m)
      | None \<Rightarrow>
          let m = pit_next p in
          pit_scheduleAt due m
            (p\<lparr>pit_next := m + 1, pit_msgs := (pit_msgs p)(m := Idle),
               pit_timers := AList.update m s (pit_timers p), pit_sids := AList.update s m (pit_sids p)\<rparr>))"

definition createEntry :: "sid \<Rightarrow> pit_entry \<Rightarrow> simtime \<Rightarrow> pit \<Rightarrow> pit outcome" where
  "createEntry s nt now p =
     (if \<exists>e \<in> set (findPITentry s p). pe_Nonce nt = pe_Nonce e then Inr p
      else start_pit_timer s (now + pe_TTL nt) (AddPITentry s nt p))"

definition pit_RemoveEntry :: "sid \<Rightarrow> pit \<Rightarrow> pit outcome" where
  "pit_RemoveEntry s p =
     (case map_of (pit_sids p) s of
        None \<Rightarrow> Inl (UndefinedBehaviour ''RemoveEntry: end iterator'')
      | Some m \<Rightarrow> Inr (p\<lparr>pit_timers := AList.delete m (pit_timers p), pit_msgs := (pit_msgs p)(m := Deleted),
                       pit_table := filter (\<lambda>x. fst x \<noteq> s) (pit_table p), pit_sids := AList.delete s (pit_sids p)\<rparr>))"

text \<open>\<open>handleMessage\<close>: the simulator has taken the message out of its queue.\<close>

definition pit_handleMessage :: "nat \<Rightarrow> pit \<Rightarrow> pit outcome" where
  "pit_handleMessage m p =
     (case map_of (pit_timers p) m of
        None \<Rightarrow> Inl (UndefinedBehaviour ''handleMessage: end iterator'')
      | Some s \<Rightarrow> bindE (pit_RemoveEntry s p) (pit_cancelEvent m))"

section \<open>The invariant\<close>

text \<open>
  The two timer maps are inverse to each other, every pending object has a running timer, and
  the requests of one object have different nonces.
\<close>

definition pit_inv :: "pit \<Rightarrow> bool" where
  "pit_inv p \<longleftrightarrow> distinct (map fst (pit_sids p)) \<and> distinct (map fst (pit_timers p))
     \<and> (\<forall>s m. (s, m) \<in> set (pit_sids p) \<longleftrightarrow> (m, s) \<in> set (pit_timers p))
     \<and> (\<forall>(s, m) \<in> set (pit_sids p). isScheduled (pit_msgs p m) \<and> m < pit_next p)
     \<and> (\<forall>m \<ge> pit_next p. pit_msgs p m = Deleted)
     \<and> fst ` set (pit_sids p) = fst ` set (pit_table p)
     \<and> distinct (map (\<lambda>(s, e). (s, pe_Nonce e)) (pit_table p))"

lemma pit_initialize_inv: "pit_inv pit_initialize"
  by (simp add: pit_inv_def pit_initialize_def)

lemma findPITentry_set: "e \<in> set (findPITentry s p) \<longleftrightarrow> (s, e) \<in> set (pit_table p)"
  by (force simp: findPITentry_def)

lemma haveSID_iff: "haveSID s p \<longleftrightarrow> s \<in> fst ` set (pit_table p)"
  by (force simp: haveSID_def findPITentry_def filter_empty_conv)

lemma pit_timer_of:
  assumes "pit_inv p"
  shows "map_of (pit_sids p) s = Some m \<longleftrightarrow> map_of (pit_timers p) m = Some s"
  using assms by (auto simp: pit_inv_def map_of_eq_Some_iff)

lemma pit_has_timer:
  assumes "pit_inv p" and "haveSID s p"
  shows "\<exists>m. map_of (pit_sids p) s = Some m"
  using assms by (metis haveSID_iff pit_inv_def map_of_eq_None_iff option.exhaust)

lemma pit_scheduleAt_idle:
  "pit_msgs p m = Idle \<Longrightarrow> pit_scheduleAt t m p = Inr (p\<lparr>pit_msgs := (pit_msgs p)(m := Scheduled t)\<rparr>)"
  by (simp add: pit_scheduleAt_def)

section \<open>The operations keep it\<close>

lemma timer_keys:
  assumes "pit_inv p"
  shows "map_of (pit_sids p) s = Some m \<Longrightarrow> isScheduled (pit_msgs p m) \<and> m < pit_next p"
    and "map_of (pit_timers p) m = Some s \<Longrightarrow> m < pit_next p"
  using assms by (fastforce simp: pit_inv_def map_of_eq_Some_iff)+

text \<open>The parts of the invariant that concern the requests, and those that concern the timers.\<close>

definition timers_inv :: "pit \<Rightarrow> bool" where
  "timers_inv p \<longleftrightarrow> distinct (map fst (pit_sids p)) \<and> distinct (map fst (pit_timers p))
     \<and> (\<forall>s m. (s, m) \<in> set (pit_sids p) \<longleftrightarrow> (m, s) \<in> set (pit_timers p))
     \<and> (\<forall>(s, m) \<in> set (pit_sids p). isScheduled (pit_msgs p m) \<and> m < pit_next p)
     \<and> (\<forall>m \<ge> pit_next p. pit_msgs p m = Deleted)"

lemma pit_inv_split:
  "pit_inv p \<longleftrightarrow> timers_inv p \<and> fst ` set (pit_sids p) = fst ` set (pit_table p)
     \<and> distinct (map (\<lambda>(s, e). (s, pe_Nonce e)) (pit_table p))"
  by (simp add: pit_inv_def timers_inv_def)

lemma timers_inv_restart:
  assumes "timers_inv p" and "m < pit_next p"
  shows "timers_inv (p\<lparr>pit_table := tab, pit_msgs := (pit_msgs p)(m := Scheduled t)\<rparr>)"
  using assms by (fastforce simp: timers_inv_def)

lemma AList_update_new: "k \<notin> fst ` set xs \<Longrightarrow> AList.update k v xs = xs @ [(k, v)]"
  by (induction xs) auto

lemma timers_inv_new:
  assumes "timers_inv p" and s: "s \<notin> fst ` set (pit_sids p)"
  shows "timers_inv (p\<lparr>pit_table := tab, pit_next := Suc (pit_next p),
      pit_msgs := (pit_msgs p)(pit_next p := Scheduled t),
      pit_timers := AList.update (pit_next p) s (pit_timers p), pit_sids := AList.update s (pit_next p) (pit_sids p)\<rparr>)"
proof -
  have m: "pit_next p \<notin> fst ` set (pit_timers p)"
    using assms(1) by (fastforce simp: timers_inv_def)
  have conv: "(s', m) \<in> set (pit_sids p) \<longleftrightarrow> (m, s') \<in> set (pit_timers p)" for s' m
    using assms(1) by (simp add: timers_inv_def)
  have old: "isScheduled (pit_msgs p m) \<and> m < pit_next p" if "(m, s') \<in> set (pit_timers p)" for s' m
    using assms(1) that conv [of s' m] by (auto simp: timers_inv_def)
  have "distinct (map fst (pit_sids p))" "distinct (map fst (pit_timers p))" "\<forall>m \<ge> pit_next p. pit_msgs p m = Deleted"
    using assms(1) by (simp_all add: timers_inv_def)
  then show ?thesis
    using s m old unfolding timers_inv_def
    by (auto simp: AList_update_new [OF s] AList_update_new [OF m] less_Suc_eq conv)
qed

lemma requests_inv_add:
  assumes "distinct (map (\<lambda>(s, e). (s, pe_Nonce e)) (pit_table p))"
    and "\<forall>e \<in> set (findPITentry s p). pe_Nonce e \<noteq> pe_Nonce nt"
  shows "distinct (map (\<lambda>(s, e). (s, pe_Nonce e)) (pit_table p @ [(s, nt)]))"
  using assms by (auto simp: findPITentry_set)

lemma restart_timer_inv:
  assumes inv: "pit_inv p" and m: "map_of (pit_sids p) s = Some m"
    and new: "\<forall>e \<in> set (findPITentry s p). pe_Nonce e \<noteq> pe_Nonce nt"
  shows "pit_inv (p\<lparr>pit_table := pit_table p @ [(s, nt)], pit_msgs := (pit_msgs p)(m := Scheduled t)\<rparr>)"
proof -
  have "s \<in> fst ` set (pit_table p)"
    using inv m by (metis map_of_eq_None_iff option.distinct(1) pit_inv_split)
  then show ?thesis
    using timers_inv_restart [of p m] requests_inv_add [OF _ new] timer_keys(1) [OF inv m] inv
    by (auto simp: pit_inv_split)
qed

lemma new_timer_inv:
  assumes inv: "pit_inv p" and "map_of (pit_sids p) s = None"
    and new: "\<forall>e \<in> set (findPITentry s p). pe_Nonce e \<noteq> pe_Nonce nt"
  shows "pit_inv (p\<lparr>pit_table := pit_table p @ [(s, nt)], pit_next := Suc (pit_next p),
      pit_msgs := (pit_msgs p)(pit_next p := Scheduled t),
      pit_timers := AList.update (pit_next p) s (pit_timers p), pit_sids := AList.update s (pit_next p) (pit_sids p)\<rparr>)"
proof -
  have s: "s \<notin> fst ` set (pit_sids p)" using assms(2) by (simp add: map_of_eq_None_iff)
  then show ?thesis
    using timers_inv_new [of p s] requests_inv_add [OF _ new] inv
    by (simp add: pit_inv_split AList_update_new)
qed

lemma findPITentry_append:
  "findPITentry k (p\<lparr>pit_table := pit_table p @ [(s, e)]\<rparr>) = findPITentry k p @ (if k = s then [e] else [])"
  by (simp add: findPITentry_def)

lemma findPITentry_cong: "pit_table p = pit_table q \<Longrightarrow> findPITentry k p = findPITentry k q"
  by (simp add: findPITentry_def)

lemma createEntry_ok:
  assumes "pit_inv p"
  shows "\<exists>p'. createEntry s nt now p = Inr p' \<and> pit_inv p'
    \<and> (\<forall>k. findPITentry k p' = findPITentry k p @
         (if k = s \<and> (\<forall>e \<in> set (findPITentry s p). pe_Nonce e \<noteq> pe_Nonce nt) then [nt] else []))"
proof (cases "\<forall>e \<in> set (findPITentry s p). pe_Nonce e \<noteq> pe_Nonce nt")
  case True
  let ?due = "now + pe_TTL nt"
  have new: "createEntry s nt now p = start_pit_timer s ?due (AddPITentry s nt p)"
    using True by (auto simp: createEntry_def)
  show ?thesis
  proof (cases "map_of (pit_sids p) s")
    case (Some m)
    let ?p = "p\<lparr>pit_table := pit_table p @ [(s, nt)], pit_msgs := (pit_msgs p)(m := Scheduled ?due)\<rparr>"
    have "pit_msgs p m \<noteq> Deleted" using timer_keys(1) [OF assms Some] by auto
    then have "createEntry s nt now p = Inr ?p"
      using Some by (simp add: new start_pit_timer_def AddPITentry_def pit_cancelEvent_def pit_scheduleAt_def)
    then show ?thesis
      using restart_timer_inv [OF assms Some True] True by (auto simp: findPITentry_def)
  next
    case None
    let ?p = "p\<lparr>pit_table := pit_table p @ [(s, nt)], pit_next := Suc (pit_next p),
      pit_msgs := (pit_msgs p)(pit_next p := Scheduled ?due),
      pit_timers := AList.update (pit_next p) s (pit_timers p), pit_sids := AList.update s (pit_next p) (pit_sids p)\<rparr>"
    have "createEntry s nt now p = Inr ?p"
      using None by (simp add: new start_pit_timer_def AddPITentry_def pit_scheduleAt_def Let_def)
    then show ?thesis
      using new_timer_inv [OF assms None True] True by (auto simp: findPITentry_def)
  qed
next
  case False
  then have "createEntry s nt now p = Inr p" by (auto simp: createEntry_def)
  then show ?thesis using assms False by auto
qed

lemma keys_without:
  "fst ` set (filter (\<lambda>x. fst x \<noteq> k) xs) = fst ` set xs - {k}" "fst ` set (AList.delete k ys) = fst ` set ys - {k}"
  by (force simp: AList.delete_eq)+

lemma pit_RemoveEntry_ok:
  assumes inv: "pit_inv p" and "haveSID s p"
  shows "\<exists>p'. pit_RemoveEntry s p = Inr p' \<and> pit_inv p'
    \<and> (\<forall>k. findPITentry k p' = (if k = s then [] else findPITentry k p))"
proof -
  obtain m where m: "map_of (pit_sids p) s = Some m" using pit_has_timer [OF assms] by blast
  let ?p = "p\<lparr>pit_timers := AList.delete m (pit_timers p), pit_msgs := (pit_msgs p)(m := Deleted),
     pit_table := filter (\<lambda>x. fst x \<noteq> s) (pit_table p), pit_sids := AList.delete s (pit_sids p)\<rparr>"
  have run: "pit_RemoveEntry s p = Inr ?p" using m by (simp add: pit_RemoveEntry_def)
  have dist: "distinct (map fst (pit_sids p))" "distinct (map fst (pit_timers p))"
      "(s, m) \<in> set (pit_sids p)" "(m, s) \<in> set (pit_timers p)"
      and conv: "(s', m') \<in> set (pit_sids p) \<longleftrightarrow> (m', s') \<in> set (pit_timers p)" for s' m'
    using inv m by (auto simp: pit_inv_def map_of_eq_Some_iff)
  have only: "(s', m') \<in> set (pit_sids p) \<Longrightarrow> m' = m \<longleftrightarrow> s' = s" for s' m'
    using dist conv eq_key_imp_eq_value by metis
  have "pit_inv ?p"
    unfolding pit_inv_def
  proof (intro conjI)
    show "distinct (map fst (pit_sids ?p))" "distinct (map fst (pit_timers ?p))"
      using inv by (simp_all add: pit_inv_def distinct_delete)
    show "\<forall>s' m'. ((s', m') \<in> set (pit_sids ?p)) = ((m', s') \<in> set (pit_timers ?p))"
      using conv only by (auto simp: AList.delete_eq)
    have "isScheduled (pit_msgs ?p m') \<and> m' < pit_next ?p" if "(s', m') \<in> set (pit_sids ?p)" for s' m'
    proof -
      have old: "(s', m') \<in> set (pit_sids p)" "s' \<noteq> s" using that by (auto simp: AList.delete_eq)
      then have "m' \<noteq> m" using only by blast
      then show ?thesis using old(1) inv by (auto simp: pit_inv_def)
    qed
    then show "\<forall>(s', m') \<in> set (pit_sids ?p). isScheduled (pit_msgs ?p m') \<and> m' < pit_next ?p" by blast
    show "\<forall>m' \<ge> pit_next ?p. pit_msgs ?p m' = Deleted"
      using inv by (auto simp: pit_inv_def)
    have "fst ` set (pit_sids p) = fst ` set (pit_table p)" using inv by (simp add: pit_inv_def)
    then show "fst ` set (pit_sids ?p) = fst ` set (pit_table ?p)"
      by (simp add: keys_without del: set_filter)
    show "distinct (map (\<lambda>(s, e). (s, pe_Nonce e)) (pit_table ?p))"
      using inv by (simp add: pit_inv_def distinct_map_filter)
  qed
  moreover have "findPITentry k ?p = (if k = s then [] else findPITentry k p)" for k
    by (auto simp: findPITentry_def intro!: arg_cong [where f = "map snd"] filter_cong)
  ultimately show ?thesis using run by blast
qed

lemma SetServed_keys:
  "findPITentry k (SetServed s p) = (if k = s then map (\<lambda>e. e\<lparr>pe_served := True\<rparr>) (findPITentry s p) else findPITentry k p)"
proof -
  have "map snd (filter (\<lambda>x. fst x = k) (map (\<lambda>x. if fst x = s then (fst x, (snd x)\<lparr>pe_served := True\<rparr>) else x) xs))
      = (if k = s then map (\<lambda>e. e\<lparr>pe_served := True\<rparr>) (map snd (filter (\<lambda>x. fst x = s) xs))
         else map snd (filter (\<lambda>x. fst x = k) xs))" for xs :: "(sid \<times> pit_entry) list"
    by (induction xs) auto
  then show ?thesis by (simp add: findPITentry_def SetServed_def)
qed

section \<open>The contract of a table of pending requests\<close>

text \<open>
  What the forwarding relies on. A request is taken unless the same one is pending; all
  requests of a key are answered together.
\<close>

locale pending_requests =
  fixes inv :: "'p \<Rightarrow> bool"
    and pending :: "'k \<Rightarrow> 'p \<Rightarrow> 'e list"
    and add :: "'k \<Rightarrow> 'e \<Rightarrow> simtime \<Rightarrow> 'p \<Rightarrow> 'p outcome"
    and answer :: "'k \<Rightarrow> 'p \<Rightarrow> 'p outcome"
    and tag :: "'e \<Rightarrow> 'n"
  assumes add_ok: "inv p \<Longrightarrow> \<exists>p'. add k e now p = Inr p' \<and> inv p'
      \<and> (\<forall>j. pending j p' = pending j p @ (if j = k \<and> (\<forall>x \<in> set (pending k p). tag x \<noteq> tag e) then [e] else []))"
    and answer_ok: "inv p \<Longrightarrow> pending k p \<noteq> [] \<Longrightarrow> \<exists>p'. answer k p = Inr p' \<and> inv p'
      \<and> (\<forall>j. pending j p' = (if j = k then [] else pending j p))"
begin

lemma add_pending: "inv p \<Longrightarrow> \<exists>p'. add k e now p = Inr p' \<and> inv p' \<and> pending k p' \<noteq> []"
  using add_ok [of p k e now] by auto

text \<open>Requests in a row are all pending, the repeated ones once.\<close>

lemma add_all:
  assumes "inv p"
  shows "\<exists>p'. foldE (\<lambda>(k, e, now). add k e now) rs p = Inr p' \<and> inv p'
    \<and> (\<forall>j. tag ` set (pending j p') = tag ` set (pending j p) \<union> {tag e | e now. (j, e, now) \<in> set rs})"
  using assms
proof (induction rs arbitrary: p)
  case (Cons r rs)
  obtain k e now where r: "r = (k, e, now)" by (cases r) auto
  obtain p1 where p1: "add k e now p = Inr p1" "inv p1"
      "\<forall>j. pending j p1 = pending j p @ (if j = k \<and> (\<forall>x \<in> set (pending k p). tag x \<noteq> tag e) then [e] else [])"
    using add_ok [OF Cons.prems] by blast
  have tags: "tag ` set (pending j p1) = tag ` set (pending j p) \<union> (if j = k then {tag e} else {})" for j
    by (cases "\<forall>x \<in> set (pending k p). tag x \<noteq> tag e") (auto simp: p1(3) [rule_format, of j] intro: rev_image_eqI)
  obtain p' where "foldE (\<lambda>(k, e, now). add k e now) rs p1 = Inr p'" "inv p'"
      "\<forall>j. tag ` set (pending j p') = tag ` set (pending j p1) \<union> {tag e | e now. (j, e, now) \<in> set rs}"
    using Cons.IH [OF p1(2)] by blast
  then show ?case using p1(1) r tags by auto
qed simp

lemma answered_once:
  assumes "inv p" and "pending k p \<noteq> []"
  shows "\<exists>p'. answer k p = Inr p' \<and> inv p' \<and> pending k p' = [] \<and> (\<forall>j. j \<noteq> k \<longrightarrow> pending j p' = pending j p)"
  using answer_ok [OF assms] by auto

end

interpretation pit: pending_requests pit_inv findPITentry createEntry pit_RemoveEntry pe_Nonce
proof
  fix p :: pit and k e now
  assume "pit_inv p"
  then show "\<exists>p'. createEntry k e now p = Inr p' \<and> pit_inv p' \<and> (\<forall>j. findPITentry j p' = findPITentry j p @
      (if j = k \<and> (\<forall>x \<in> set (findPITentry k p). pe_Nonce x \<noteq> pe_Nonce e) then [e] else []))"
    by (rule createEntry_ok)
  show "findPITentry k p \<noteq> [] \<Longrightarrow> \<exists>p'. pit_RemoveEntry k p = Inr p' \<and> pit_inv p'
      \<and> (\<forall>j. findPITentry j p' = (if j = k then [] else findPITentry j p))"
    using pit_RemoveEntry_ok [OF \<open>pit_inv p\<close>] by (simp add: haveSID_def)
qed

section \<open>Properties\<close>

text \<open>
  The pending table from its initial state: any sequence of requests is accepted; for
  every content object exactly the nonces asked for are pending, each once, and one timer
  runs per object. Answering an object removes its requests and its timer and no others.
\<close>

theorem pit_collects_requests:
  "\<exists>p. foldE (\<lambda>(s, e, now). createEntry s e now) requests pit_initialize = Inr p \<and> pit_inv p
    \<and> (\<forall>s. pe_Nonce ` set (findPITentry s p) = {pe_Nonce e | e now. (s, e, now) \<in> set requests})
    \<and> (\<forall>s. findPITentry s p = [] \<or> (\<exists>p'. pit_RemoveEntry s p = Inr p' \<and> pit_inv p'
         \<and> findPITentry s p' = [] \<and> (\<forall>j. j = s \<or> findPITentry j p' = findPITentry j p)))"
proof -
  obtain p where p: "foldE (\<lambda>(s, e, now). createEntry s e now) requests pit_initialize = Inr p" "pit_inv p"
      "\<forall>s. pe_Nonce ` set (findPITentry s p) = pe_Nonce ` set (findPITentry s pit_initialize)
         \<union> {pe_Nonce e | e now. (s, e, now) \<in> set requests}"
    using pit.add_all [OF pit_initialize_inv] by blast
  have "findPITentry s pit_initialize = []" for s
    by (simp add: findPITentry_def pit_initialize_def)
  moreover have "findPITentry s p = [] \<or> (\<exists>p'. pit_RemoveEntry s p = Inr p' \<and> pit_inv p'
      \<and> findPITentry s p' = [] \<and> (\<forall>j. j = s \<or> findPITentry j p' = findPITentry j p))" for s
    using pit.answered_once [OF p(2), of s] by metis
  ultimately show ?thesis using p by auto
qed

text \<open>
  When the timer of a pending object fires, the handler removes the requests and with
  them deletes the timer message, and then cancels the deleted message: every expiry ends in
  a use after free.
\<close>

theorem pit_expiry_uses_deleted_timer:
  assumes "pit_inv p" and "haveSID s p"
  shows "\<exists>m. map_of (pit_sids p) s = Some m
    \<and> pit_handleMessage m (p\<lparr>pit_msgs := (pit_msgs p)(m := Idle)\<rparr>)
        = Inl (UndefinedBehaviour ''cancelEvent: use after delete'')"
proof -
  obtain m where m: "map_of (pit_sids p) s = Some m" using pit_has_timer [OF assms] by blast
  then have "map_of (pit_timers p) m = Some s" using pit_timer_of [OF assms(1)] by simp
  then show ?thesis
    using m by (auto simp: pit_handleMessage_def pit_RemoveEntry_def pit_cancelEvent_def)
qed

definition example_request :: pit_entry where
  "example_request = \<lparr>pe_nid = NID 0 0 0 1, pe_TTL = seconds 1, pe_mac = 7, pe_type = 24, pe_Nonce = 5,
     pe_served = False, pe_isConsumer = False\<rparr>"

theorem pit_expiry_uses_deleted_timer_witness:
  "\<exists>p m. createEntry (SID (NID 0 0 0 1) 0 0 0 0 0) example_request 0 pit_initialize = Inr p
    \<and> pit_handleMessage m (p\<lparr>pit_msgs := (pit_msgs p)(m := Idle)\<rparr>)
        = Inl (UndefinedBehaviour ''cancelEvent: use after delete'')"
proof -
  obtain p where "createEntry (SID (NID 0 0 0 1) 0 0 0 0 0) example_request 0 pit_initialize = Inr p"
      "pit_inv p" "findPITentry (SID (NID 0 0 0 1) 0 0 0 0 0) p \<noteq> []"
    using pit.add_pending [OF pit_initialize_inv] by blast
  then show ?thesis using pit_expiry_uses_deleted_timer [of p] by (auto simp: haveSID_def)
qed

end
