(* ===== verification/Color_Routes.thy ===== *)
theory Color_Routes
  imports Color_Pit
begin

text \<open>
  \<open>networklayer/icn/routingTable/colorRoutingTable.cc\<close>: routes to nodes, several for each
  destination, with a life time and a link quality. The multimap is a list in which the routes
  of one destination stand in the order of their insertion. The quality is a \<open>double\<close> in
  the code; all callers pass integers (hop counts left and metrics).
\<close>

section \<open>Data and operations\<close>

record croute =
  cr_nextHop :: nid
  cr_nextMac :: mac_address
  cr_lifeTime :: simtime
  cr_interFace :: int
  cr_linkQlt :: int

type_synonym color_routes = "(nid \<times> croute) list"

text \<open>The loop over the routes of the destination: refresh the same route, or give up at a
  route that is not worse. The second component says whether the loop ran to its end.\<close>

fun scan_routes :: "nid \<Rightarrow> croute \<Rightarrow> color_routes \<Rightarrow> color_routes \<times> bool" where
  "scan_routes dest new [] = ([], True)"
| "scan_routes dest new ((d, r) # rs) =
     (if d \<noteq> dest then (let (rs', ins) = scan_routes dest new rs in ((d, r) # rs', ins))
      else if cr_nextHop r = cr_nextHop new \<and> cr_nextMac r = cr_nextMac new then
        ((d, if cr_lifeTime new > cr_lifeTime r then r\<lparr>cr_lifeTime := cr_lifeTime new\<rparr> else r) # rs, False)
      else if cr_linkQlt r \<ge> cr_linkQlt new then ((d, r) # rs, False)
      else (let (rs', ins) = scan_routes dest new rs in ((d, r) # rs', ins)))"

definition CreateEntry ::
  "nid \<Rightarrow> nid \<Rightarrow> mac_address \<Rightarrow> simtime \<Rightarrow> int \<Rightarrow> int \<Rightarrow> simtime \<Rightarrow> color_routes \<Rightarrow> color_routes" where
  "CreateEntry dest nextHop mac ttl interFace linkQ now rt =
     (let new = \<lparr>cr_nextHop = nextHop, cr_nextMac = mac, cr_lifeTime = ttl + now, cr_interFace = interFace,
                 cr_linkQlt = linkQ\<rparr>;
          (rt', ins) = scan_routes dest new rt in
      if ins then rt' @ [(dest, new)] else rt')"

text \<open>\<open>findRoute\<close>: the best so far, and the erasure that ends the loop.\<close>

fun find_route_loop ::
  "simtime \<Rightarrow> nid \<Rightarrow> croute option \<Rightarrow> color_routes \<Rightarrow> croute option \<times> color_routes" where
  "find_route_loop now dest best [] = (best, [])"
| "find_route_loop now dest best ((d, r) # rs) =
     (if d \<noteq> dest then (let (res, rs') = find_route_loop now dest best rs in (res, (d, r) # rs'))
      else if cr_lifeTime r > now then
        let best' = (case best of None \<Rightarrow> Some r | Some b \<Rightarrow> if cr_linkQlt b < cr_linkQlt r then Some r else best);
            (res, rs') = find_route_loop now dest best' rs in (res, (d, r) # rs')
      else (best, rs))"

definition color_findRoute :: "simtime \<Rightarrow> nid \<Rightarrow> color_routes \<Rightarrow> croute option \<times> color_routes" where
  "color_findRoute now dest rt = find_route_loop now dest None rt"

definition route_removeEntry :: "nid \<Rightarrow> color_routes \<Rightarrow> color_routes" where
  "route_removeEntry n rt = filter (\<lambda>x. fst x \<noteq> n) rt"

section \<open>Routes of one destination\<close>

definition routes_to :: "nid \<Rightarrow> color_routes \<Rightarrow> croute list" where
  "routes_to d rt = map snd (filter (\<lambda>x. fst x = d) rt)"

lemma routes_to_simps [simp]:
  "routes_to d [] = []"
  "routes_to d ((d', r) # rs) = (if d' = d then r # routes_to d rs else routes_to d rs)"
  "routes_to d (xs @ ys) = routes_to d xs @ routes_to d ys"
  by (simp_all add: routes_to_def)

text \<open>Per destination the qualities increase from each route to the next.\<close>

definition routes_inv :: "color_routes \<Rightarrow> bool" where
  "routes_inv rt \<longleftrightarrow> (\<forall>d. sorted_wrt (<) (map cr_linkQlt (routes_to d rt)))"

lemma routes_inv_nil [simp]: "routes_inv []"
  by (simp add: routes_inv_def)

lemma scan_routes_other: "d \<noteq> dest \<Longrightarrow> routes_to d (fst (scan_routes dest new rt)) = routes_to d rt"
  by (induction dest new rt rule: scan_routes.induct) (auto split: prod.split)

lemma scan_routes_qualities:
  "map cr_linkQlt (routes_to dest (fst (scan_routes dest new rt))) = map cr_linkQlt (routes_to dest rt)"
  by (induction rt) (auto split: prod.split)

lemma scan_routes_end:
  "snd (scan_routes dest new rt) \<Longrightarrow> \<forall>r \<in> set (routes_to dest rt). cr_linkQlt r < cr_linkQlt new"
  by (induction dest new rt rule: scan_routes.induct) (auto split: prod.splits if_splits)

lemma CreateEntry_inv:
  assumes "routes_inv rt"
  shows "routes_inv (CreateEntry dest nextHop mac ttl interFace linkQ now rt)"
proof -
  define new where "new = \<lparr>cr_nextHop = nextHop, cr_nextMac = mac, cr_lifeTime = ttl + now,
     cr_interFace = interFace, cr_linkQlt = linkQ\<rparr>"
  obtain rt' ins where scan: "scan_routes dest new rt = (rt', ins)" by force
  have run: "CreateEntry dest nextHop mac ttl interFace linkQ now rt = (if ins then rt' @ [(dest, new)] else rt')"
    unfolding CreateEntry_def Let_def new_def [symmetric] scan by simp
  have same: "map cr_linkQlt (routes_to d rt') = map cr_linkQlt (routes_to d rt)" for d
    using scan_routes_other [of d dest new rt] scan_routes_qualities [of dest new rt] scan
    by (cases "d = dest") simp_all
  have "\<forall>q \<in> set (map cr_linkQlt (routes_to dest rt')). q < cr_linkQlt new" if ins
    using scan_routes_end [of dest new rt] scan that unfolding same by auto
  then show ?thesis
    using assms unfolding run routes_inv_def by (auto simp: same sorted_wrt_append)
qed

lemma find_route_loop_other:
  "d \<noteq> dest \<Longrightarrow> routes_to d (snd (find_route_loop now dest best rt)) = routes_to d rt"
  by (induction now dest best rt rule: find_route_loop.induct) (auto split: prod.split simp: Let_def)

abbreviation alive :: "simtime \<Rightarrow> croute \<Rightarrow> bool" where
  "alive now r \<equiv> cr_lifeTime r > now"

lemma find_route_loop_spec:
  assumes "sorted_wrt (<) (map cr_linkQlt (routes_to dest rt))"
    and "\<forall>b. best = Some b \<longrightarrow> (\<forall>r \<in> set (routes_to dest rt). cr_linkQlt b < cr_linkQlt r)"
  shows "fst (find_route_loop now dest best rt) =
      (if takeWhile (alive now) (routes_to dest rt) = [] then best
       else Some (last (takeWhile (alive now) (routes_to dest rt))))
    \<and> routes_to dest (snd (find_route_loop now dest best rt)) =
      takeWhile (alive now) (routes_to dest rt) @ tl (dropWhile (alive now) (routes_to dest rt))"
  using assms
proof (induction now dest best rt rule: find_route_loop.induct)
  case (2 now dest best d r rs)
  show ?case
  proof (cases "d = dest \<and> alive now r")
    case True
    have "(case best of None \<Rightarrow> Some r | Some b \<Rightarrow> if cr_linkQlt b < cr_linkQlt r then Some r else best) = Some r"
      using 2(4) True by (auto split: option.split)
    then show ?thesis using 2 True by (auto split: prod.split)
  next
    case False
    then show ?thesis using 2 by (auto split: prod.split)
  qed
qed simp

lemma sorted_drop_one: "sorted_wrt P (xs @ ys) \<Longrightarrow> sorted_wrt P (xs @ tl ys)"
  by (cases ys) (auto simp: sorted_wrt_append)

lemma color_findRoute_spec:
  assumes "routes_inv rt"
  shows "fst (color_findRoute now dest rt) =
      (let fresh = takeWhile (alive now) (routes_to dest rt) in if fresh = [] then None else Some (last fresh))"
    and "routes_to d (snd (color_findRoute now dest rt)) =
      (if d = dest then takeWhile (alive now) (routes_to dest rt) @ tl (dropWhile (alive now) (routes_to dest rt))
       else routes_to d rt)"
    and "routes_inv (snd (color_findRoute now dest rt))"
proof -
  have sorted: "sorted_wrt (<) (map cr_linkQlt (routes_to d rt))" for d
    using assms by (simp add: routes_inv_def)
  note spec = find_route_loop_spec [of dest rt None now, OF sorted, simplified]
  show "fst (color_findRoute now dest rt) =
      (let fresh = takeWhile (alive now) (routes_to dest rt) in if fresh = [] then None else Some (last fresh))"
    using spec by (simp add: color_findRoute_def Let_def)
  show routes: "routes_to d (snd (color_findRoute now dest rt)) =
      (if d = dest then takeWhile (alive now) (routes_to dest rt) @ tl (dropWhile (alive now) (routes_to dest rt))
       else routes_to d rt)" for d
    using spec find_route_loop_other [of d dest now None rt] by (simp add: color_findRoute_def)
  have "sorted_wrt (<) (map cr_linkQlt (takeWhile (alive now) (routes_to dest rt) @ tl (dropWhile (alive now) (routes_to dest rt))))"
    using sorted_drop_one [of "\<lambda>a b. cr_linkQlt a < cr_linkQlt b" "takeWhile (alive now) (routes_to dest rt)"
        "dropWhile (alive now) (routes_to dest rt)"] sorted [of dest]
    by (simp only: sorted_wrt_map takeWhile_dropWhile_id)
  then show "routes_inv (snd (color_findRoute now dest rt))"
    using sorted unfolding routes_inv_def routes by simp
qed

section \<open>Properties\<close>

text \<open>The tables the operations build.\<close>

inductive color_routes_reachable :: "color_routes \<Rightarrow> bool" where
  empty: "color_routes_reachable []"
| create: "color_routes_reachable rt \<Longrightarrow>
     color_routes_reachable (CreateEntry dest nextHop mac ttl interFace linkQ now rt)"
| lookup: "color_routes_reachable rt \<Longrightarrow> color_routes_reachable (snd (color_findRoute now dest rt))"
| remove: "color_routes_reachable rt \<Longrightarrow> color_routes_reachable (route_removeEntry n rt)"

lemma routes_to_remove: "routes_to d (route_removeEntry n rt) = (if d = n then [] else routes_to d rt)"
  by (induction rt) (auto simp: route_removeEntry_def)

lemma reachable_routes_inv: "color_routes_reachable rt \<Longrightarrow> routes_inv rt"
proof (induction rule: color_routes_reachable.induct)
  case (remove rt n)
  then show ?case by (simp add: routes_inv_def routes_to_remove)
qed (simp_all add: CreateEntry_inv color_findRoute_spec)

lemma last_greatest:
  "sorted_wrt (<) (map f xs) \<Longrightarrow> x \<in> set xs \<Longrightarrow> x = last xs \<or> f x < (f (last xs) :: int)"
  by (induction xs rule: rev_induct) (auto simp: sorted_wrt_append)

text \<open>
  C19. A lookup in any reachable routing table returns an unexpired route of the destination
  and the best of the unexpired ones before the first expired one, in the order of their
  insertion; it removes that expired one and changes nothing else. Behind an expired route it
  sees none: if the oldest route has expired, the lookup fails however good the others are.
\<close>

theorem color_findRoute_best:
  assumes "color_routes_reachable rt"
  shows "let fresh = takeWhile (alive now) (routes_to dest rt) in
      (case fst (color_findRoute now dest rt) of
         None \<Rightarrow> fresh = []
       | Some r \<Rightarrow> r \<in> set fresh \<and> alive now r \<and> (\<forall>x \<in> set fresh. x = r \<or> cr_linkQlt x < cr_linkQlt r))
      \<and> (\<forall>d. routes_to d (snd (color_findRoute now dest rt)) =
           (if d = dest then fresh @ tl (dropWhile (alive now) (routes_to dest rt)) else routes_to d rt))"
proof -
  have inv: "routes_inv rt" by (rule reachable_routes_inv [OF assms])
  define fresh where "fresh = takeWhile (alive now) (routes_to dest rt)"
  have fst: "fst (color_findRoute now dest rt) = (if fresh = [] then None else Some (last fresh))"
    using color_findRoute_spec(1) [OF inv] by (simp add: fresh_def Let_def)
  have sorted: "sorted_wrt (<) (map cr_linkQlt fresh)"
    using inv unfolding routes_inv_def fresh_def by (metis takeWhile_dropWhile_id map_append sorted_wrt_append)
  note best = last_greatest [OF sorted]
  have "alive now (last fresh)" if "fresh \<noteq> []"
    using last_in_set [OF that] unfolding fresh_def by (auto dest: set_takeWhileD)
  then show ?thesis
    using color_findRoute_spec(2) [OF inv, of _ now dest] best
    by (simp add: fst Let_def flip: fresh_def)
qed

definition example_routes :: color_routes where
  "example_routes = CreateEntry default_nid (NID 0 0 0 2) 2 (seconds 9) 24 7 0
     (CreateEntry default_nid (NID 0 0 0 1) 1 (seconds 1) 24 3 0 [])"

theorem color_findRoute_best_witness:
  "length (routes_to default_nid example_routes) = 2
   \<and> fst (color_findRoute (seconds 2) default_nid example_routes) = None
   \<and> fst (color_findRoute 0 default_nid example_routes) \<noteq> None"
proof -
  have r: "color_routes_reachable example_routes"
    unfolding example_routes_def by (intro color_routes_reachable.intros)
  have e: "routes_to default_nid example_routes =
      [\<lparr>cr_nextHop = NID 0 0 0 1, cr_nextMac = 1, cr_lifeTime = seconds 1, cr_interFace = 24, cr_linkQlt = 3\<rparr>,
       \<lparr>cr_nextHop = NID 0 0 0 2, cr_nextMac = 2, cr_lifeTime = seconds 9, cr_interFace = 24, cr_linkQlt = 7\<rparr>]"
    by (simp add: example_routes_def CreateEntry_def)
  show ?thesis
    using color_findRoute_best [OF r, of "seconds 2" default_nid] color_findRoute_best [OF r, of 0 default_nid]
    by (auto simp: e seconds_def split: option.splits)
qed

end
