(* ===== verification/Delay_Queue.thy ===== *)
theory Delay_Queue
  imports Icn_Ids "HOL-Library.Multiset"
begin

text \<open>
  The packets of the information-centric layer and \<open>networklayer/icn/delayQueue/delayQueue.cc\<close>,
  the queue of packets that wait for their turn to be forwarded. The fields of the two headers
  (\<open>color/Get.msg\<close>, \<open>color/Data.msg\<close>) are those the code reads or sets. A packet
  is its header and its payload; a released packet is \<open>None\<close>.
\<close>

section \<open>Packets\<close>

record get_header =
  g_nexthop :: nid
  g_timeToLive :: int
  g_portNumber1 :: u32
  g_sid :: sid
  g_source :: nid
  g_lastHop :: nid
  g_MAC :: "48 word"
  g_MustBeFresh :: bool
  g_Nonce :: u64
  g_trace :: "int list"
  g_cluster :: bool

record data_header =
  d_timeToLive :: int
  d_moreFragments :: bool
  d_totalLength :: int
  d_portNumber2 :: u32
  d_sid :: sid
  d_nid :: nid
  d_lastHop :: nid
  d_MAC :: "48 word"
  d_offset :: u32
  d_comeFromSource :: bool
  d_congestionLevel :: int
  d_trace :: "int list"
  d_routeLifetime :: simtime
  d_routeMetric :: int

definition HeaderLength :: int where "HeaderLength = 78"

datatype 'a color_packet = GetPacket get_header "'a list" | DataPacket data_header "'a list"

datatype packet_type = GET | DATA

fun type_of :: "'a color_packet \<Rightarrow> packet_type" where
  "type_of (GetPacket h p) = GET"
| "type_of (DataPacket h p) = DATA"

text \<open>When two packets are the same request or the same content, as \<open>have\<close> compares them.\<close>

fun same_packet :: "'a color_packet \<Rightarrow> 'a color_packet \<Rightarrow> bool" where
  "same_packet (GetPacket g p) (GetPacket h q) \<longleftrightarrow> g_sid g = g_sid h \<and> g_source g = g_source h \<and> g_Nonce g = g_Nonce h"
| "same_packet (DataPacket g p) (DataPacket h q) \<longleftrightarrow> d_sid g = d_sid h"
| "same_packet _ _ = False"

section \<open>The queue\<close>

record 'a pend_pkt =
  pp_pkt :: "'a color_packet option"
  pp_type :: packet_type
  pp_sendtime :: simtime
  pp_tc :: int

record 'a delay_queue =
  priQueue :: "'a pend_pkt list"
  dq_timer :: timer

text \<open>
  The loop of \<open>insert\<close>: behind the packets that are due earlier, in front of the first one
  that is not. When all are due earlier, the loop ends without an insertion.
\<close>

fun insert_by_time :: "'a pend_pkt \<Rightarrow> 'a pend_pkt list \<Rightarrow> 'a pend_pkt list" where
  "insert_by_time x [] = []"
| "insert_by_time x (y # ys) = (if pp_sendtime y < pp_sendtime x then y # insert_by_time x ys else x # y # ys)"

definition restart_delayer :: "simtime \<Rightarrow> 'a delay_queue \<Rightarrow> 'a delay_queue outcome" where
  "restart_delayer t q =
     bindE (schedule (cancelIfThere (dq_timer q)) t) (\<lambda>tm. Inr (q\<lparr>dq_timer := tm\<rparr>))"

definition dq_insert :: "'a color_packet \<Rightarrow> packet_type \<Rightarrow> simtime \<Rightarrow> int \<Rightarrow> 'a delay_queue \<Rightarrow> 'a delay_queue outcome" where
  "dq_insert pkt type time forwardTimes q =
     (let x = \<lparr>pp_pkt = Some pkt, pp_type = type, pp_sendtime = time, pp_tc = forwardTimes\<rparr> in
      case priQueue q of
        [] \<Rightarrow> bindE (restart_delayer time q) (\<lambda>q'. Inr (q'\<lparr>priQueue := [x]\<rparr>))
      | y # ys \<Rightarrow>
          bindE (if pp_sendtime y < time then Inr q else restart_delayer time q) (\<lambda>q'.
          Inr (q'\<lparr>priQueue := insert_by_time x (y # ys)\<rparr>)))"

definition popAtFront :: "'a delay_queue \<Rightarrow> ('a color_packet option \<times> 'a delay_queue) outcome" where
  "popAtFront q =
     (case priQueue q of
        [] \<Rightarrow> Inl (UndefinedBehaviour ''popAtFront: empty list'')
      | x # xs \<Rightarrow>
          let packet = (if pp_tc x < 1 then None else pp_pkt x); q1 = q\<lparr>priQueue := xs\<rparr> in
          (case xs of
             [] \<Rightarrow> Inr (packet, q1)
           | y # _ \<Rightarrow> bindE (schedule (dq_timer q1) (pp_sendtime y)) (\<lambda>tm. Inr (packet, q1\<lparr>dq_timer := tm\<rparr>))))"

text \<open>\<open>have\<close>: a released packet met on the way is removed and ends the search.\<close>

fun have_loop :: "'a color_packet \<Rightarrow> 'a pend_pkt list \<Rightarrow> nat option \<times> 'a pend_pkt list" where
  "have_loop pkt [] = (None, [])"
| "have_loop pkt (x # xs) =
     (case pp_pkt x of
        None \<Rightarrow> (None, xs)
      | Some p \<Rightarrow>
          if pp_type x = type_of pkt \<and> same_packet pkt p then (Some 0, x # xs)
          else (let (i, xs') = have_loop pkt xs in (map_option Suc i, x # xs')))"

definition check_and_decrease :: "'a color_packet \<Rightarrow> 'a delay_queue \<Rightarrow> bool \<times> 'a delay_queue" where
  "check_and_decrease pkt q =
     (let (i, xs) = have_loop pkt (priQueue q) in
      case i of
        None \<Rightarrow> (False, q\<lparr>priQueue := xs\<rparr>)
      | Some k \<Rightarrow> (True, q\<lparr>priQueue := xs[k := (xs ! k)\<lparr>pp_tc := pp_tc (xs ! k) - 1\<rparr>]\<rparr>))"

fun is_get_of :: "sid \<Rightarrow> 'a pend_pkt \<Rightarrow> bool" where
  "is_get_of s x \<longleftrightarrow> pp_type x = GET \<and> (case pp_pkt x of Some (GetPacket h p) \<Rightarrow> g_sid h = s | _ \<Rightarrow> False)"

fun release_first :: "sid \<Rightarrow> 'a pend_pkt list \<Rightarrow> bool \<times> 'a pend_pkt list" where
  "release_first s [] = (False, [])"
| "release_first s (x # xs) =
     (if is_get_of s x then (True, x\<lparr>pp_pkt := None\<rparr> # xs)
      else (let (b, xs') = release_first s xs in (b, x # xs')))"

definition check_and_delete :: "sid \<Rightarrow> 'a delay_queue \<Rightarrow> bool \<times> 'a delay_queue" where
  "check_and_delete s q = (let (b, xs) = release_first s (priQueue q) in (b, q\<lparr>priQueue := xs\<rparr>))"

text \<open>\<open>cancelDelayeForwarding\<close> goes on with the iterator it has just erased.\<close>

fun cancelDelayeForwarding :: "sid \<Rightarrow> 'a pend_pkt list \<Rightarrow> 'a pend_pkt list outcome" where
  "cancelDelayeForwarding s [] = Inr []"
| "cancelDelayeForwarding s (x # xs) =
     (if pp_type x = GET then
        if pp_pkt x = None then Inl (UndefinedBehaviour ''cancelDelayeForwarding: null packet'')
        else if is_get_of s x then Inl (UndefinedBehaviour ''cancelDelayeForwarding: erased iterator'')
        else bindE (cancelDelayeForwarding s xs) (\<lambda>xs'. Inr (x # xs'))
      else bindE (cancelDelayeForwarding s xs) (\<lambda>xs'. Inr (x # xs')))"

section \<open>The invariant\<close>

text \<open>
  The packets are sorted by their time, none is released (only \<open>check_and_delete\<close>, which has
  no caller, releases packets in the queue), and the timer runs for the first of them.
\<close>

definition dq_inv :: "'a delay_queue \<Rightarrow> bool" where
  "dq_inv q \<longleftrightarrow> sorted (map pp_sendtime (priQueue q)) \<and> (\<forall>x \<in> set (priQueue q). pp_pkt x \<noteq> None)
     \<and> dq_timer q = (case priQueue q of [] \<Rightarrow> Idle | x # xs \<Rightarrow> Scheduled (pp_sendtime x))"

lemma insert_by_time_mset:
  "sorted (map pp_sendtime xs) \<Longrightarrow> mset (insert_by_time x xs) =
     (if xs \<noteq> [] \<and> pp_sendtime x \<le> pp_sendtime (last xs) then add_mset x (mset xs) else mset xs)"
proof (induction x xs rule: insert_by_time.induct)
  case (2 x y ys)
  show ?case
  proof (cases "ys = []")
    case False
    then have "pp_sendtime y \<le> pp_sendtime (last ys)" using 2(2) last_in_set [OF False] by simp
    then have "\<not> pp_sendtime y < pp_sendtime x \<Longrightarrow> pp_sendtime x \<le> pp_sendtime (last ys)" by linarith
    then show ?thesis using 2 False by auto
  qed auto
qed simp

lemma insert_by_time_behind: "\<forall>y \<in> set xs. pp_sendtime y < pp_sendtime x \<Longrightarrow> insert_by_time x xs = xs"
  by (induction xs) auto

lemma sorted_le_last: "sorted (map f xs) \<Longrightarrow> x \<in> set xs \<Longrightarrow> f x \<le> f (last xs)"
  by (induction xs rule: rev_induct) (auto simp: sorted_append)

lemma insert_by_time_sorted:
  "sorted (map pp_sendtime xs) \<Longrightarrow> sorted (map pp_sendtime (insert_by_time x xs))"
proof (induction x xs rule: insert_by_time.induct)
  case (2 x y ys)
  have "set (insert_by_time x ys) \<subseteq> insert x (set ys)"
    by (induction x ys rule: insert_by_time.induct) auto
  then show ?case using 2 by fastforce
qed simp

lemma restart_delayer_ok:
  "dq_timer q \<noteq> Deleted \<Longrightarrow> restart_delayer t q = Inr (q\<lparr>dq_timer := Scheduled t\<rparr>)"
  by (cases "dq_timer q") (simp_all add: restart_delayer_def)

lemma insert_by_time_set: "set (insert_by_time x xs) \<subseteq> insert x (set xs)"
  by (induction x xs rule: insert_by_time.induct) auto

lemma have_loop_found:
  "\<forall>x \<in> set xs. pp_pkt x \<noteq> None \<Longrightarrow> snd (have_loop pkt xs) = xs
     \<and> (\<forall>k. fst (have_loop pkt xs) = Some k \<longrightarrow> k < length xs)"
proof (induction xs)
  case (Cons x xs)
  obtain i ys where h: "have_loop pkt xs = (i, ys)" by force
  then show ?case using Cons by (cases "pp_pkt x"; cases i) auto
qed simp

lemma dq_inv_cong:
  assumes "map pp_pkt (priQueue q') = map pp_pkt (priQueue q)"
    and "map pp_sendtime (priQueue q') = map pp_sendtime (priQueue q)" and "dq_timer q' = dq_timer q"
  shows "dq_inv q \<Longrightarrow> dq_inv q'"
proof -
  have head: "(case xs of [] \<Rightarrow> Idle | x # _ \<Rightarrow> Scheduled (pp_sendtime x)) =
      (case map pp_sendtime xs of [] \<Rightarrow> Idle | t # _ \<Rightarrow> Scheduled t)" for xs :: "'b pend_pkt list"
    by (cases xs) simp_all
  have all: "(\<forall>x \<in> set xs. pp_pkt x \<noteq> None) \<longleftrightarrow> (\<forall>y \<in> set (map pp_pkt xs). y \<noteq> None)" for xs :: "'b pend_pkt list"
    by simp
  show "dq_inv q \<Longrightarrow> dq_inv q'"
    unfolding dq_inv_def head all assms .
qed

lemma check_and_decrease_inv:
  assumes "dq_inv q"
  shows "dq_inv (snd (check_and_decrease pkt q))
    \<and> map pp_pkt (priQueue (snd (check_and_decrease pkt q))) = map pp_pkt (priQueue q)"
proof -
  obtain i ys where h: "have_loop pkt (priQueue q) = (i, ys)" by force
  then have ys: "ys = priQueue q" "\<forall>k. i = Some k \<longrightarrow> k < length (priQueue q)"
    using have_loop_found [of "priQueue q" pkt] assms by (auto simp: dq_inv_def)
  show ?thesis
  proof (cases i)
    case None
    then show ?thesis using assms h ys by (simp add: check_and_decrease_def)
  next
    case (Some k)
    define xs' where "xs' = (priQueue q)[k := (priQueue q ! k)\<lparr>pp_tc := pp_tc (priQueue q ! k) - 1\<rparr>]"
    have k: "k < length (priQueue q)" using ys(2) Some by simp
    have same: "map pp_pkt xs' = map pp_pkt (priQueue q)" "map pp_sendtime xs' = map pp_sendtime (priQueue q)"
      using k by (auto simp: xs'_def map_update list_update_same_conv)
    have run: "check_and_decrease pkt q = (True, q\<lparr>priQueue := xs'\<rparr>)"
      using h ys(1) Some by (simp add: check_and_decrease_def xs'_def)
    have "dq_inv (q\<lparr>priQueue := xs'\<rparr>)"
      using dq_inv_cong [of "q\<lparr>priQueue := xs'\<rparr>" q] assms same by simp
    then show ?thesis using run same(1) by simp
  qed
qed

lemma popAtFront_inv:
  assumes "dq_inv q" and "priQueue q = x # xs"
  shows "\<exists>q'. popAtFront (q\<lparr>dq_timer := Idle\<rparr>) = Inr (if pp_tc x < 1 then None else pp_pkt x, q') \<and> dq_inv q'
    \<and> priQueue q' = xs"
  using assms by (cases xs) (auto simp: popAtFront_def dq_inv_def Let_def)

lemma dq_insert_spec:
  assumes "dq_inv q"
  shows "\<exists>q'. dq_insert pkt type time n q = Inr q' \<and> dq_inv q'
    \<and> (if priQueue q = [] \<or> time \<le> pp_sendtime (last (priQueue q))
       then mset (priQueue q') = add_mset \<lparr>pp_pkt = Some pkt, pp_type = type, pp_sendtime = time, pp_tc = n\<rparr> (mset (priQueue q))
       else q' = q)"
proof -
  let ?x = "\<lparr>pp_pkt = Some pkt, pp_type = type, pp_sendtime = time, pp_tc = n\<rparr>"
  have inv: "sorted (map pp_sendtime (priQueue q))" "dq_timer q \<noteq> Deleted"
    using assms by (auto simp: dq_inv_def split: list.splits)
  show ?thesis
  proof (cases "priQueue q")
    case Nil
    then show ?thesis
      using restart_delayer_ok [OF inv(2)] by (auto simp: dq_insert_def Let_def dq_inv_def)
  next
    case (Cons y ys)
    have tm: "dq_timer q = Scheduled (pp_sendtime y)" using assms Cons by (simp add: dq_inv_def)
    define q' where "q' = (if pp_sendtime y < time then q else q\<lparr>dq_timer := Scheduled time\<rparr>)
       \<lparr>priQueue := insert_by_time ?x (priQueue q)\<rparr>"
    have run: "dq_insert pkt type time n q = Inr q'"
      using restart_delayer_ok [OF inv(2)] by (simp add: dq_insert_def Let_def Cons q'_def)
    have "dq_inv q'"
      using insert_by_time_sorted [OF inv(1), of ?x] insert_by_time_set [of ?x "priQueue q"] tm assms
      by (auto simp: dq_inv_def q'_def Cons split: if_splits)
    moreover have "insert_by_time ?x (priQueue q) = priQueue q"
      if "\<not> time \<le> pp_sendtime (last (priQueue q))"
    proof (rule insert_by_time_behind, rule ballI)
      fix z assume "z \<in> set (priQueue q)"
      then show "pp_sendtime z < pp_sendtime ?x"
        using sorted_le_last [OF inv(1)] that by fastforce
    qed
    ultimately show ?thesis
      using run insert_by_time_mset [OF inv(1), of ?x] Cons by (auto simp: q'_def)
  qed
qed

lemma dq_insert_keeps: "dq_inv q \<Longrightarrow> \<exists>q'. dq_insert pkt type time n q = Inr q' \<and> dq_inv q'"
  using dq_insert_spec by blast

section \<open>Properties\<close>

text \<open>
  C20. \<open>insert\<close> keeps the queue sorted and its timer set for the first packet. It stores the
  packet, exactly once and in its place, if the queue is empty or the packet is due no later
  than the last one queued; a packet that is due later than all of them is lost.
\<close>

theorem dq_insert_loses_latest:
  assumes "dq_inv q"
  shows "\<exists>q'. dq_insert pkt type time n q = Inr q' \<and> dq_inv q'
    \<and> (if priQueue q = [] \<or> time \<le> pp_sendtime (last (priQueue q))
       then mset (priQueue q') = add_mset \<lparr>pp_pkt = Some pkt, pp_type = type, pp_sendtime = time, pp_tc = n\<rparr> (mset (priQueue q))
       else q' = q)"
  by (rule dq_insert_spec [OF assms])

definition example_get :: "sid \<Rightarrow> get_header" where
  "example_get s = \<lparr>g_nexthop = default_nid, g_timeToLive = 2, g_portNumber1 = 1, g_sid = s, g_source = NID 0 0 0 1,
     g_lastHop = NID 0 0 0 1, g_MAC = 1, g_MustBeFresh = False, g_Nonce = 5, g_trace = [], g_cluster = False\<rparr>"

definition example_delay_queue :: "char delay_queue" where
  "example_delay_queue = \<lparr>priQueue = [\<lparr>pp_pkt = Some (GetPacket (example_get (SID default_nid 0 0 0 0 1)) ''''),
     pp_type = GET, pp_sendtime = 10, pp_tc = 1\<rparr>], dq_timer = Scheduled 10\<rparr>"

theorem dq_insert_loses_latest_witness:
  "dq_insert (GetPacket (example_get (SID default_nid 0 0 0 0 2)) []) GET 11 1 example_delay_queue
     = Inr example_delay_queue"
proof -
  have "dq_inv example_delay_queue" by (simp add: example_delay_queue_def dq_inv_def)
  from dq_insert_loses_latest [OF this, of "GetPacket (example_get (SID default_nid 0 0 0 0 2)) []" GET 11 1]
  show ?thesis by (auto simp: example_delay_queue_def)
qed

end
