(* ===== verification/Fragment_Reassembly.thy ===== *)
theory Fragment_Reassembly
  imports Region_Buffer
begin

text \<open>
  What the fragment buffers of the network layers share on top of \<open>ReassemblyBuffer\<close>: a buffer
  that has gathered some positions of one message, piece by piece, and when it is complete;
  and \<open>Packet::peekDataAt\<close> on the data behind a header.
\<close>

definition peekDataAt :: "int \<Rightarrow> int \<Rightarrow> 'a list \<Rightarrow> 'a list outcome" where
  "peekDataAt offset len d =
     bindE (assertE (0 \<le> offset \<and> offset \<le> int (length d))) (\<lambda>_.
     bindE (assertE (0 \<le> len \<and> offset + len \<le> int (length d))) (\<lambda>_.
     if len = 0 then Inl (RuntimeError ''Returning an empty chunk is not allowed according to the flags'')
     else Inr (take (nat len) (drop (nat offset) d))))"

definition gathered :: "'a list \<Rightarrow> (int \<Rightarrow> bool) \<Rightarrow> 'a reassembly_buffer \<Rightarrow> bool" where
  "gathered msg S b \<longleftrightarrow> separated (as_regions b)
     \<and> (\<forall>i. contents (as_regions b) i = (if S i then Some (msg ! nat i) else None))
     \<and> (\<forall>i. S i \<longrightarrow> 0 \<le> i \<and> i < int (length msg))"

lemma gathered_new [simp]: "gathered msg (\<lambda>_. False) reassembly_new"
  by (simp add: gathered_def reassembly_new_def)

lemma gathered_expected [simp]: "gathered msg S (b\<lparr>expectedLength := n\<rparr>) \<longleftrightarrow> gathered msg S b"
  by (simp add: gathered_def)

lemma gathered_replace:
  assumes "gathered msg S b" and "piece \<noteq> []" and "0 \<le> offset" and "offset + int (length piece) \<le> int (length msg)"
    and "piece = take (length piece) (drop (nat offset) msg)"
  shows "\<exists>b'. reassembly_replace offset piece b = Inr b' \<and> expectedLength b' = expectedLength b
    \<and> gathered msg (\<lambda>i. S i \<or> offset \<le> i \<and> i < offset + int (length piece)) b'"
proof -
  have old: "separated (as_regions b)" "\<And>i. contents (as_regions b) i = (if S i then Some (msg ! nat i) else None)"
      "\<And>i. S i \<Longrightarrow> 0 \<le> i \<and> i < int (length msg)"
    using assms(1) by (simp_all add: gathered_def)
  obtain rs where rs: "replace_data offset piece (as_regions b) = Inr rs" "separated rs"
      "\<And>i. contents rs i = (if offset \<le> i \<and> i < offset + int (length piece) then Some (msg ! nat i)
         else contents (as_regions b) i)"
    using cbuf.put_piece [OF old(1) assms(2-5)] by metis
  have "gathered msg (\<lambda>i. S i \<or> offset \<le> i \<and> i < offset + int (length piece)) (b\<lparr>as_regions := rs\<rparr>)"
    unfolding gathered_def using rs(2) old(3) assms(3,4) by (simp add: rs(3) old(2))
  then show ?thesis
    using rs(1) by (intro exI [of _ "b\<lparr>as_regions := rs\<rparr>"]) (simp add: reassembly_replace_def)
qed

lemma gathered_complete:
  assumes "gathered msg S b" and "msg \<noteq> []" and "expectedLength b = int (length msg)"
  shows "isComplete b \<longleftrightarrow> (\<forall>i. 0 \<le> i \<and> i < int (length msg) \<longrightarrow> S i)"
    and "isComplete b \<Longrightarrow> getReassembledData b = Inr msg"
proof -
  have single: "\<exists>d. as_regions b = [\<lparr>roffset = 0, rdata = d\<rparr>] \<and> int (length d) = int (length msg)"
    if "\<forall>i. 0 \<le> i \<and> i < int (length msg) \<longrightarrow> S i"
  proof (rule separated_interval)
    show "separated (as_regions b)" using assms(1) by (simp add: gathered_def)
    show "0 < int (length msg)" using assms(2) by simp
    fix i
    have "contents (as_regions b) i \<noteq> None \<longleftrightarrow> S i" "S i \<longrightarrow> 0 \<le> i \<and> i < int (length msg)"
      using assms(1) by (simp_all add: gathered_def)
    then show "contents (as_regions b) i \<noteq> None \<longleftrightarrow> 0 \<le> i \<and> i < int (length msg)"
      using that by blast
  qed
  have all: "S i" if c: "isComplete b" and i: "0 \<le> i" "i < int (length msg)" for i
  proof -
    obtain r where "as_regions b = [r]" "roffset r = 0" "length (rdata r) = length msg"
      using c assms(3) by (auto simp: isComplete_def split: list.splits)
    then have "contents (as_regions b) i \<noteq> None" using i by (simp add: getStartOffset_def getEndOffset_def)
    then show ?thesis using assms(1) by (metis gathered_def)
  qed
  show complete: "isComplete b \<longleftrightarrow> (\<forall>i. 0 \<le> i \<and> i < int (length msg) \<longrightarrow> S i)"
  proof
    assume "\<forall>i. 0 \<le> i \<and> i < int (length msg) \<longrightarrow> S i"
    then obtain d where "as_regions b = [\<lparr>roffset = 0, rdata = d\<rparr>]" "int (length d) = int (length msg)"
      using single by blast
    then show "isComplete b" using assms(3) by (simp add: isComplete_def)
  qed (use all in blast)
  assume c: "isComplete b"
  then obtain d where d: "as_regions b = [\<lparr>roffset = 0, rdata = d\<rparr>]" "length d = length msg"
    using iffD1 [OF complete c, THEN single] by auto
  have "d ! i = msg ! i" if "i < length d" for i
  proof -
    have "contents (as_regions b) (int i) = Some (d ! i)"
      using that d by (simp add: getStartOffset_def getEndOffset_def)
    then show ?thesis using assms(1) unfolding gathered_def by (metis nat_int option.distinct(1) option.inject)
  qed
  then have "d = msg" using d(2) by (intro nth_equalityI) auto
  then show "getReassembledData b = Inr msg" using c d by (simp add: getReassembledData_def)
qed

lemma incomplete_unless_expected: "expectedLength b = -1 \<Longrightarrow> \<not> isComplete b"
  by (auto simp: isComplete_def split: list.split)

end
