(* ===== verification/Color_Store.thy ===== *)
theory Color_Store
  imports Delay_Queue Fragment_Reassembly "HOL-Library.AList"
begin

text \<open>
  The content store of a node (\<open>networklayer/icn/cacheTable/colorCacheTable.cc\<close> with the blocks
  of \<open>contentBlock.cc\<close>), the cutting of content into packets (\<open>FragmentAndStore\<close> and
  \<open>encapsulate\<close> in \<open>color/color.cc\<close>) and the reassembly of \<open>color/ColorFragBuf.cc\<close>.
\<close>

section \<open>Content blocks and the cache table\<close>

type_synonym 'a data_packet = "data_header \<times> 'a list"

record 'a content_block =
  cb_packets :: "'a data_packet list"
  cb_num :: u32

text \<open>The constructor leaves \<open>num\<close> at its initial value 5.\<close>

definition new_block :: "'a content_block" where
  "new_block = \<lparr>cb_packets = [], cb_num = 5\<rparr>"

definition InsterPacket :: "'a data_packet \<Rightarrow> 'a content_block \<Rightarrow> 'a content_block" where
  "InsterPacket p b = b\<lparr>cb_packets := cb_packets b @ [p], cb_num := cb_num b + 1\<rparr>"

definition block_hasThisPacket :: "'a data_packet \<Rightarrow> 'a content_block \<Rightarrow> bool" where
  "block_hasThisPacket p b \<longleftrightarrow> (\<exists>q \<in> set (cb_packets b).
     d_offset (fst q) = d_offset (fst p) \<and> d_totalLength (fst q) = d_totalLength (fst p))"

definition block_flush :: "'a content_block \<Rightarrow> 'a content_block" where
  "block_flush b = b\<lparr>cb_packets := []\<rparr>"

text \<open>
  The timers of the cache are created but never scheduled, so \<open>handleMessage\<close> is never
  called and no block is ever removed; \<open>remain\<close>, which only it uses, is left out.
\<close>

record 'a cache_table =
  ct_table :: "sid \<Rightarrow> 'a content_block option"
  ct_timers :: "(nat \<times> sid) list"
  ct_next :: nat

definition cache_initialize :: "'a cache_table" where
  "cache_initialize = \<lparr>ct_table = (\<lambda>_. None), ct_timers = [], ct_next = 0\<rparr>"

definition getBlock :: "sid \<Rightarrow> 'a cache_table \<Rightarrow> 'a content_block option" where
  "getBlock s ct = ct_table ct s"

definition CreateBlock :: "sid \<Rightarrow> 'a cache_table \<Rightarrow> 'a cache_table" where
  "CreateBlock s ct = ct\<lparr>ct_table := (ct_table ct)(s \<mapsto> new_block),
     ct_timers := AList.update (ct_next ct) s (ct_timers ct), ct_next := ct_next ct + 1\<rparr>"

definition CachePacket :: "sid \<Rightarrow> 'a data_packet \<Rightarrow> 'a cache_table \<Rightarrow> 'a cache_table" where
  "CachePacket s p ct =
     (let ct1 = (if ct_table ct s = None then CreateBlock s ct else ct) in
      ct1\<lparr>ct_table := (ct_table ct1)(s := map_option (InsterPacket p) (ct_table ct1 s))\<rparr>)"

definition cache_hasThisPacket :: "'a data_packet \<Rightarrow> sid \<Rightarrow> 'a cache_table \<Rightarrow> bool" where
  "cache_hasThisPacket p s ct = (case ct_table ct s of None \<Rightarrow> False | Some b \<Rightarrow> block_hasThisPacket p b)"

definition cache_clear :: "'a cache_table \<Rightarrow> 'a cache_table" where
  "cache_clear ct = ct\<lparr>ct_timers := [], ct_table := (\<lambda>s. map_option block_flush (ct_table ct s))\<rparr>"

definition cache_handleMessage :: "nat \<Rightarrow> 'a cache_table \<Rightarrow> 'a cache_table outcome" where
  "cache_handleMessage m ct =
     (case map_of (ct_timers ct) m of
        None \<Rightarrow> Inl (UndefinedBehaviour ''handleMessage: end iterator'')
      | Some s \<Rightarrow>
          if ct_table ct s = None then Inl (UndefinedBehaviour ''handleMessage: end iterator'')
          else Inr (ct\<lparr>ct_table := (ct_table ct)(s := None), ct_timers := AList.delete m (ct_timers ct)\<rparr>))"

section \<open>Cutting content into packets\<close>

text \<open>What \<open>DataHead\<close> and \<open>encapsulate\<close> know of their node.\<close>

record node_identity =
  nodeIndex :: int
  node_nid :: nid
  hopLimit :: int
  mtu :: int
  ie_mac :: "48 word"

definition new_data :: data_header where
  "new_data = \<lparr>d_timeToLive = 8, d_moreFragments = False, d_totalLength = 0, d_portNumber2 = 0,
     d_sid = SID default_nid 0 0 0 0 0, d_nid = default_nid, d_lastHop = default_nid, d_MAC = 0, d_offset = 0,
     d_comeFromSource = False, d_congestionLevel = 0, d_trace = [], d_routeLifetime = 0, d_routeMetric = 0\<rparr>"

definition DataHead :: "node_identity \<Rightarrow> sid \<Rightarrow> data_header" where
  "DataHead me s = new_data\<lparr>d_timeToLive := hopLimit me, d_sid := s, d_nid := node_nid me,
     d_lastHop := node_nid me, d_MAC := ie_mac me\<rparr>"

definition encapsulate_data :: "node_identity \<Rightarrow> sid \<Rightarrow> 'a list \<Rightarrow> 'a data_packet" where
  "encapsulate_data me s payload =
     ((DataHead me s)\<lparr>d_totalLength := int (length payload), d_trace := [nodeIndex me], d_comeFromSource := True\<rparr>,
      payload)"

text \<open>The loop of \<open>FragmentAndStore\<close>; the assertion before it excludes a length of 0.\<close>

function fragments_from :: "node_identity \<Rightarrow> sid \<Rightarrow> nat \<Rightarrow> 'a list \<Rightarrow> nat \<Rightarrow> 'a data_packet list" where
  "fragments_from me s fragmentLength payload offset =
     (if offset < length payload \<and> 0 < fragmentLength then
        let lastFragment = (offset + fragmentLength \<ge> length payload);
            this = (if lastFragment then length payload - offset else fragmentLength);
            head = (DataHead me s)\<lparr>d_moreFragments := \<not> lastFragment, d_offset := of_nat offset,
                     d_totalLength := HeaderLength + int this, d_trace := [nodeIndex me]\<rparr>
        in (head, take this (drop offset payload)) # fragments_from me s fragmentLength payload (offset + this)
      else [])"
  by pat_completeness auto
termination
  by (relation "measure (\<lambda>(me, s, n, payload, offset). length payload - offset)") (auto simp: Let_def)

declare fragments_from.simps [simp del]

definition fragment_length :: "node_identity \<Rightarrow> int" where
  "fragment_length me = ((mtu me - HeaderLength) div 8) * 8"

definition FragmentAndStore ::
  "node_identity \<Rightarrow> sid \<Rightarrow> 'a list \<Rightarrow> 'a cache_table \<Rightarrow> 'a cache_table outcome" where
  "FragmentAndStore me s payload ct =
     bindE (assertE (0 < fragment_length me)) (\<lambda>_.
     Inr (if HeaderLength + int (length payload) < mtu me then CachePacket s (encapsulate_data me s payload) ct
          else fold (CachePacket s) (fragments_from me s (nat (fragment_length me)) payload 0) ct))"

section \<open>Reassembly\<close>

record 'a datagram_buffer =
  db_buf :: "'a reassembly_buffer"
  db_packet :: "'a data_packet option"
  db_lastupdate :: simtime

type_synonym 'a frag_buffers = "sid \<Rightarrow> 'a datagram_buffer option"

definition color_addFragment ::
  "'a data_packet \<Rightarrow> simtime \<Rightarrow> 'a frag_buffers \<Rightarrow> ('a data_packet option \<times> 'a frag_buffers) outcome" where
  "color_addFragment pkt now bufs =
     (let (h, payload) = pkt; s = d_sid h;
          cur = (case bufs s of
                   None \<Rightarrow> \<lparr>db_buf = reassembly_new, db_packet = None, db_lastupdate = 0\<rparr>
                 | Some c \<Rightarrow> c);
          bytes = d_totalLength h - HeaderLength in
      bindE (peekDataAt 0 bytes payload) (\<lambda>data.
      bindE (reassembly_replace (uint (d_offset h)) data (db_buf cur)) (\<lambda>buf1.
      let buf2 = (if \<not> d_moreFragments h then buf1\<lparr>expectedLength := uint (d_offset h) + bytes\<rparr> else buf1);
          kept = (if d_offset h = 0 then Some pkt else case db_packet cur of None \<Rightarrow> Some pkt | Some p \<Rightarrow> Some p) in
      if isComplete buf2 then
        bindE (getReassembledData buf2) (\<lambda>d.
        Inr (map_option (\<lambda>(kh, kp). (kh\<lparr>d_totalLength := HeaderLength + int (length d), d_offset := 0,
                                       d_moreFragments := False\<rparr>, d)) kept,
             bufs(s := None)))
      else Inr (None, bufs(s \<mapsto> \<lparr>db_buf = buf2, db_packet = kept, db_lastupdate = now\<rparr>)))))"

text \<open>
  \<open>purgeStaleFragments\<close>, which has no caller. The \<open>if\<close> in front of \<open>auto oldi = i++\<close>
  governs the increment alone: a stale buffer with a packet is stepped over and kept, one
  without a packet is never left. The argument lists the buffers in the order of the map;
  \<open>None\<close> is the loop that does not end.
\<close>

fun purgeStaleFragments :: "simtime \<Rightarrow> 'a datagram_buffer list \<Rightarrow> 'a datagram_buffer list option" where
  "purgeStaleFragments lastupdate [] = Some []"
| "purgeStaleFragments lastupdate (b # bs) =
     (if db_lastupdate b < lastupdate \<and> db_packet b = None then None
      else map_option (Cons b) (purgeStaleFragments lastupdate bs))"

section \<open>Fragments and their reassembly\<close>

text \<open>What survives forwarding of a data packet: nodes on the way change the other fields.\<close>

definition wire :: "'a data_packet \<Rightarrow> sid \<times> u32 \<times> int \<times> bool \<times> 'a list" where
  "wire = (\<lambda>(h, p). (d_sid h, d_offset h, d_totalLength h, d_moreFragments h, p))"

definition piece_at :: "nat \<Rightarrow> sid \<Rightarrow> 'a list \<Rightarrow> sid \<times> u32 \<times> int \<times> bool \<times> 'a list \<Rightarrow> bool" where
  "piece_at k s msg = (\<lambda>(s', off, total, more, p). s' = s \<and> off = of_nat k \<and> p \<noteq> [] \<and> k + length p \<le> length msg
     \<and> p = take (length p) (drop k msg) \<and> total = HeaderLength + int (length p) \<and> (more \<longleftrightarrow> k + length p < length msg))"

lemma fragments_are_pieces:
  "x \<in> set (fragments_from me s n msg offset) \<Longrightarrow> \<exists>k \<ge> offset. piece_at k s msg (wire x)"
proof (induction me s n msg offset rule: fragments_from.induct)
  case (1 me s n msg offset)
  show ?case
  proof (cases "offset < length msg \<and> 0 < n")
    case True
    define this where "this = (if offset + n \<ge> length msg then length msg - offset else n)"
    define h where "h = (DataHead me s)\<lparr>d_moreFragments := \<not> offset + n \<ge> length msg, d_offset := of_nat offset,
                     d_totalLength := HeaderLength + int this, d_trace := [nodeIndex me]\<rparr>"
    have unfold: "fragments_from me s n msg offset =
        (h, take this (drop offset msg)) # fragments_from me s n msg (offset + this)"
      using True by (simp add: fragments_from.simps [of me s n msg offset] h_def this_def Let_def)
    have "piece_at offset s msg (wire (h, take this (drop offset msg)))"
      using True by (auto simp: piece_at_def wire_def h_def this_def DataHead_def)
    moreover have "\<exists>k \<ge> offset + this. piece_at k s msg (wire x)"
      if "x \<in> set (fragments_from me s n msg (offset + this))"
      using 1(1) [OF True refl] that unfolding this_def by (simp add: this_def)
    ultimately show ?thesis using 1(2) unfolding unfold by (auto dest: add_leD1)
  next
    case False
    then show ?thesis using 1(2) by (simp add: fragments_from.simps [of me s n msg offset])
  qed
qed

lemma fragments_cover:
  "offset \<le> i \<Longrightarrow> i < length msg \<Longrightarrow> 0 < n \<Longrightarrow>
     \<exists>x \<in> set (fragments_from me s n msg offset). \<exists>k. piece_at k s msg (wire x) \<and> k \<le> i \<and> i < k + length (snd x)"
proof (induction me s n msg offset rule: fragments_from.induct)
  case (1 me s n msg offset)
  define this where "this = (if offset + n \<ge> length msg then length msg - offset else n)"
  define h where "h = (DataHead me s)\<lparr>d_moreFragments := \<not> offset + n \<ge> length msg, d_offset := of_nat offset,
                   d_totalLength := HeaderLength + int this, d_trace := [nodeIndex me]\<rparr>"
  have cond: "offset < length msg \<and> 0 < n" using 1(2-4) by simp
  have unfold: "fragments_from me s n msg offset =
      (h, take this (drop offset msg)) # fragments_from me s n msg (offset + this)"
    using cond by (simp add: fragments_from.simps [of me s n msg offset] h_def this_def Let_def)
  have piece: "piece_at offset s msg (wire (h, take this (drop offset msg)))"
    using cond by (auto simp: piece_at_def wire_def h_def this_def DataHead_def)
  show ?case
  proof (cases "i < offset + this")
    case True
    have "length (take this (drop offset msg)) = this" using cond by (auto simp: this_def)
    then show ?thesis using True piece 1(2) unfolding unfold by fastforce
  next
    case False
    then have "\<exists>x \<in> set (fragments_from me s n msg (offset + this)).
        \<exists>k. piece_at k s msg (wire x) \<and> k \<le> i \<and> i < k + length (snd x)"
      using 1(1) [OF cond refl] 1(3,4) unfolding this_def by (simp add: this_def)
    then show ?thesis unfolding unfold by auto
  qed
qed

definition covers :: "sid \<times> u32 \<times> int \<times> bool \<times> 'a list \<Rightarrow> int \<Rightarrow> bool" where
  "covers = (\<lambda>(s, off, total, more, p) i. uint off \<le> i \<and> i < uint off + int (length p))"

lemma piece_at_uint:
  "piece_at k s msg (s', off, tot, mf, p) \<Longrightarrow> length msg < 2 ^ 31 \<Longrightarrow> uint off = int k"
  using unat_of_nat_u32 [of k] by (auto simp: piece_at_def uint_nat)

lemma piece_covers:
  "piece_at k s msg w \<Longrightarrow> length msg < 2 ^ 31 \<Longrightarrow>
     covers w i \<longleftrightarrow> int k \<le> i \<and> i < int (k + length (snd (snd (snd (snd w)))))"
  by (cases w) (auto simp: covers_def piece_at_uint)

lemma piece_covers_start:
  assumes "piece_at k s msg w" and "length msg < 2 ^ 31"
  shows "covers w (int k) \<and> k < length msg"
proof -
  obtain s' off tot mf p where w: "w = (s', off, tot, mf, p)" by (cases w) auto
  have p: "p \<noteq> []" "k + length p \<le> length msg" using assms(1) by (simp_all add: w piece_at_def)
  have "0 < length p" using p(1) by simp
  then have "k < k + length p" by simp
  then have "k < length msg" using p(2) by (rule less_le_trans)
  moreover have "uint off = int k" using piece_at_uint assms by (simp add: w)
  ultimately show ?thesis using p by (simp add: w covers_def)
qed

lemma fragments_apart:
  "length msg < 2 ^ 31 \<Longrightarrow> x \<in> set (fragments_from me s n msg offset) \<Longrightarrow> y \<in> set (fragments_from me s n msg offset) \<Longrightarrow>
     covers (wire x) i \<Longrightarrow> covers (wire y) i \<Longrightarrow> wire x = wire y"
proof (induction me s n msg offset rule: fragments_from.induct)
  case (1 me s n msg offset)
  show ?case
  proof (cases "offset < length msg \<and> 0 < n")
    case True
    define this where "this = (if offset + n \<ge> length msg then length msg - offset else n)"
    define h where "h = (DataHead me s)\<lparr>d_moreFragments := \<not> offset + n \<ge> length msg, d_offset := of_nat offset,
                     d_totalLength := HeaderLength + int this, d_trace := [nodeIndex me]\<rparr>"
    let ?head = "(h, take this (drop offset msg))" and ?rest = "fragments_from me s n msg (offset + this)"
    have unfold: "fragments_from me s n msg offset = ?head # ?rest"
      using True by (simp add: fragments_from.simps [of me s n msg offset] h_def this_def Let_def)
    note len = 1(2)
    have piece: "piece_at offset s msg (wire ?head)"
      using True by (auto simp: piece_at_def wire_def h_def this_def DataHead_def)
    have head: "i < int (offset + this)" if "covers (wire ?head) i"
      using that piece_covers [OF piece len, of i] by (simp add: wire_def min_def split: if_splits)
    have rest: "int (offset + this) \<le> i" if "z \<in> set ?rest" "covers (wire z) i" for z
      using fragments_are_pieces [OF that(1)] piece_covers [OF _ len, of _ s "wire z" i] that(2) by fastforce
    have ih: "wire x = wire y" if "x \<in> set ?rest" "y \<in> set ?rest"
      using 1(1) [OF True refl] that 1(2,5,6) unfolding this_def by (simp add: this_def)
    show ?thesis using 1(3-6) ih head rest unfolding unfold by fastforce
  next
    case False
    then show ?thesis using 1(3) by (simp add: fragments_from.simps [of me s n msg offset])
  qed
qed

text \<open>What the buffer of an object holds after the packets \<open>ws\<close> of the message have arrived.\<close>

definition collected :: "sid \<Rightarrow> 'a list \<Rightarrow> (sid \<times> u32 \<times> int \<times> bool \<times> 'a list) list \<Rightarrow> 'a frag_buffers \<Rightarrow> bool" where
  "collected s msg ws bufs \<longleftrightarrow> (\<forall>w \<in> set ws. \<exists>k. piece_at k s msg w)
     \<and> (case bufs s of
          None \<Rightarrow> ws = []
        | Some c \<Rightarrow> gathered msg (\<lambda>i. \<exists>w \<in> set ws. covers w i) (db_buf c) \<and> db_packet c \<noteq> None
            \<and> expectedLength (db_buf c) = (if \<exists>(s', off, tot, mf, p) \<in> set ws. \<not> mf then int (length msg) else -1))"

definition covered :: "'a list \<Rightarrow> (sid \<times> u32 \<times> int \<times> bool \<times> 'a list) list \<Rightarrow> bool" where
  "covered msg ws \<longleftrightarrow> (\<forall>i. 0 \<le> i \<and> i < int (length msg) \<longrightarrow> (\<exists>w \<in> set ws. covers w i))"

lemma covered_has_last:
  assumes "covered msg ws" and "msg \<noteq> []" and "length msg < 2 ^ 31" and "\<forall>w \<in> set ws. \<exists>k. piece_at k s msg w"
  shows "\<exists>(s', off, tot, mf, p) \<in> set ws. \<not> mf"
proof -
  obtain w where w: "w \<in> set ws" "covers w (int (length msg) - 1)"
    using assms(1) [unfolded covered_def, rule_format, of "int (length msg) - 1"] assms(2) by (cases msg) auto
  then obtain k where k: "piece_at k s msg w" using assms(4) by blast
  then show ?thesis using w piece_covers [OF k assms(3), of "int (length msg) - 1"]
    by (cases w) (auto simp: piece_at_def intro!: bexI [OF _ w(1)])
qed

lemma addFragment_step:
  assumes "collected s msg ws bufs" and "piece_at k s msg (wire (h, p))" and "length msg < 2 ^ 31"
  shows "\<exists>out bufs'. color_addFragment (h, p) now bufs = Inr (out, bufs')
    \<and> (\<forall>t. t \<noteq> s \<longrightarrow> bufs' t = bufs t)
    \<and> (if covered msg (ws @ [wire (h, p)]) then bufs' s = None \<and> (\<exists>h'. out = Some (h', msg))
       else out = None \<and> collected s msg (ws @ [wire (h, p)]) bufs')"
proof -
  let ?w = "wire (h, p)"
  define cur where "cur = (case bufs s of None \<Rightarrow> \<lparr>db_buf = reassembly_new, db_packet = None, db_lastupdate = 0\<rparr>
                 | Some c \<Rightarrow> c)"
  let ?last = "\<lambda>ws :: (sid \<times> u32 \<times> int \<times> bool \<times> 'a list) list. \<exists>(s', off, tot, mf, p) \<in> set ws. \<not> mf"
  have cur: "gathered msg (\<lambda>i. \<exists>w \<in> set ws. covers w i) (db_buf cur)"
    "expectedLength (db_buf cur) = (if ?last ws then int (length msg) else -1)"
    using assms(1) gathered_new [of msg]
    by (auto simp: collected_def cur_def reassembly_new_def split: option.splits)
  have h: "d_sid h = s" "uint (d_offset h) = int k" "d_totalLength h - HeaderLength = int (length p)"
      "p \<noteq> []" "k + length p \<le> length msg" "p = take (length p) (drop k msg)"
      "d_moreFragments h \<longleftrightarrow> k + length p < length msg"
    using assms(2,3) piece_at_uint [of k s msg] by (auto simp: wire_def piece_at_def)
  have data: "peekDataAt 0 (int (length p)) p = Inr p"
    using h(4) by (simp add: peekDataAt_def)
  have cov: "covers ?w i \<longleftrightarrow> int k \<le> i \<and> i < int k + int (length p)" for i
    using h(2) by (simp add: covers_def wire_def)
  obtain buf1 where buf1: "reassembly_replace (int k) p (db_buf cur) = Inr buf1"
      "expectedLength buf1 = expectedLength (db_buf cur)"
      "gathered msg (\<lambda>i. (\<exists>w \<in> set ws. covers w i) \<or> int k \<le> i \<and> i < int k + int (length p)) buf1"
    using gathered_replace [OF cur(1) h(4), of "int k"] h(5,6) by auto
  define buf2 where "buf2 = (if \<not> d_moreFragments h then buf1\<lparr>expectedLength := int k + int (length p)\<rparr> else buf1)"
  have set: "(\<lambda>i. \<exists>w \<in> set (ws @ [?w]). covers w i) = (\<lambda>i. (\<exists>w \<in> set ws. covers w i) \<or> int k \<le> i \<and> i < int k + int (length p))"
    by (auto simp: fun_eq_iff cov)
  have g2: "gathered msg (\<lambda>i. \<exists>w \<in> set (ws @ [?w]). covers w i) buf2"
    unfolding set using buf1(3) by (simp add: buf2_def)
  have last: "?last (ws @ [?w]) \<longleftrightarrow> ?last ws \<or> \<not> d_moreFragments h"
    by (auto simp: wire_def)
  have e2: "expectedLength buf2 = (if ?last (ws @ [?w]) then int (length msg) else -1)"
    unfolding last using buf1(2) cur(2) h(5,7) by (auto simp: buf2_def)
  have pieces: "\<forall>w \<in> set (ws @ [?w]). \<exists>k. piece_at k s msg w"
    using assms(1,2) by (auto simp: collected_def)
  have ne: "msg \<noteq> []" using h(4,5) by auto
  have complete: "isComplete buf2 \<longleftrightarrow> covered msg (ws @ [?w])"
  proof (cases "?last (ws @ [?w])")
    case True
    then show ?thesis using gathered_complete(1) [OF g2 ne] e2 by (simp only: covered_def if_True)
  next
    case False
    then show ?thesis
      using incomplete_unless_expected [of buf2] e2 covered_has_last [OF _ ne assms(3) pieces] by (simp only: if_False) blast
  qed
  define kept where "kept = (if d_offset h = 0 then Some (h, p) else case db_packet cur of None \<Rightarrow> Some (h, p) | Some p \<Rightarrow> Some p)"
  have kept: "kept \<noteq> None" by (auto simp: kept_def split: option.split)
  have run: "color_addFragment (h, p) now bufs =
      (if isComplete buf2 then
        bindE (getReassembledData buf2) (\<lambda>d.
        Inr (map_option (\<lambda>(kh, kp). (kh\<lparr>d_totalLength := HeaderLength + int (length d), d_offset := 0,
                                       d_moreFragments := False\<rparr>, d)) kept,
             bufs(s := None)))
      else Inr (None, bufs(s \<mapsto> \<lparr>db_buf = buf2, db_packet = kept, db_lastupdate = now\<rparr>)))"
    unfolding color_addFragment_def Let_def prod.case h(1-3) cur_def [symmetric] data bindE_Inr buf1(1)
      buf2_def [symmetric] kept_def [symmetric] ..
  show ?thesis
  proof (cases "covered msg (ws @ [?w])")
    case True
    have "?last (ws @ [?w])" by (rule covered_has_last [OF True ne assms(3) pieces])
    then have "getReassembledData buf2 = Inr msg"
      using gathered_complete(2) [OF g2 ne] e2 complete True by simp
    then show ?thesis using True kept complete by (auto simp: run split: prod.splits)
  next
    case False
    then show ?thesis
      using complete kept g2 e2 pieces by (auto simp: run collected_def)
  qed
qed

section \<open>From the store of one node to the application of another\<close>

text \<open>A node that takes in packets, each at its time, and hands up what is complete.\<close>

definition collect_one ::
  "'a data_packet \<times> simtime \<Rightarrow> 'a data_packet list \<times> 'a frag_buffers \<Rightarrow>
     ('a data_packet list \<times> 'a frag_buffers) outcome" where
  "collect_one = (\<lambda>(x, now) (done, bufs).
     bindE (color_addFragment x now bufs) (\<lambda>(out, bufs').
     Inr (done @ (case out of None \<Rightarrow> [] | Some d \<Rightarrow> [d]), bufs')))"

definition arrived :: "'a data_packet \<times> simtime \<Rightarrow> sid \<times> u32 \<times> int \<times> bool \<times> 'a list" where
  "arrived x = wire (fst x)"

lemma covered_mono: "covered msg ws \<Longrightarrow> set ws \<subseteq> set ws' \<Longrightarrow> covered msg ws'"
  unfolding covered_def by blast

lemma collect_incomplete:
  assumes "length msg < 2 ^ 31" and "collected s msg ws bufs"
    and "\<forall>x \<in> set ys. \<exists>k. piece_at k s msg (arrived x)" and "\<not> covered msg (ws @ map arrived ys)"
  shows "\<exists>bufs'. foldE collect_one ys (done, bufs) = Inr (done, bufs') \<and> collected s msg (ws @ map arrived ys) bufs'"
  using assms(2-4)
proof (induction ys arbitrary: ws bufs)
  case (Cons y ys)
  obtain h p now where y: "y = ((h, p), now)" by (metis surj_pair)
  then have ay: "arrived y = wire (h, p)" by (simp add: arrived_def)
  obtain k where k: "piece_at k s msg (wire (h, p))" using Cons.prems(2) ay by auto
  have nc: "\<not> covered msg (ws @ [wire (h, p)])"
  proof
    assume "covered msg (ws @ [wire (h, p)])"
    then have "covered msg (ws @ map arrived (y # ys))"
      by (rule covered_mono) (use ay in auto)
    then show False using Cons.prems(3) by blast
  qed
  obtain bufs1 where b1: "color_addFragment (h, p) now bufs = Inr (None, bufs1)"
      "collected s msg (ws @ [wire (h, p)]) bufs1"
    using addFragment_step [OF Cons.prems(1) k assms(1), of now] nc by auto
  obtain bufs' where "foldE collect_one ys (done, bufs1) = Inr (done, bufs')"
      "collected s msg ((ws @ [wire (h, p)]) @ map arrived ys) bufs'"
    using Cons.IH [OF b1(2)] Cons.prems(2,3) ay by auto
  moreover have "collect_one y (done, bufs) = Inr (done, bufs1)" by (simp add: y collect_one_def b1(1))
  ultimately show ?case using ay by simp
qed simp

lemma stored_block:
  assumes "getBlock s ct = None" and "ps \<noteq> []"
  shows "\<exists>b. getBlock s (fold (CachePacket s) ps ct) = Some b \<and> cb_packets b = ps"
  using assms(2)
proof (induction ps rule: rev_induct)
  case (snoc p ps)
  show ?case
  proof (cases "ps = []")
    case True
    then show ?thesis
      using assms(1) by (simp add: getBlock_def CachePacket_def CreateBlock_def InsterPacket_def new_block_def Let_def)
  next
    case False
    then show ?thesis
      using snoc.IH by (auto simp: getBlock_def CachePacket_def InsterPacket_def Let_def)
  qed
qed simp

text \<open>What arrives are the packets of the content: each is a piece of it, together they cover it,
  and without the last new one a piece is missing.\<close>

lemma arrived_piece:
  assumes "arrived x \<in> wire ` set (fragments_from me s n content 0)"
  shows "\<exists>k. piece_at k s content (arrived x)"
  using assms fragments_are_pieces by fastforce

lemma all_arrived_cover:
  assumes "0 < n" and "length content < 2 ^ 31" and "arrived ` set xs = wire ` set (fragments_from me s n content 0)"
  shows "covered content (map arrived xs)"
  unfolding covered_def
proof (intro allI impI)
  fix i :: int assume i: "0 \<le> i \<and> i < int (length content)"
  then have "nat i < length content" by linarith
  then obtain x k where x: "x \<in> set (fragments_from me s n content 0)" "piece_at k s content (wire x)"
      "k \<le> nat i" "nat i < k + length (snd x)"
    using fragments_cover [of 0 "nat i" content n me s] assms(1) by blast
  have "snd (snd (snd (snd (wire x)))) = snd x" by (simp add: wire_def split: prod.split)
  then have "covers (wire x) i" using piece_covers [OF x(2) assms(2), of i] i x(3,4) by simp linarith
  moreover have "wire x \<in> arrived ` set xs" unfolding assms(3) using x(1) by (rule imageI)
  ultimately show "\<exists>w \<in> set (map arrived xs). covers w i" by (metis list.set_map)
qed

lemma one_missing:
  assumes "length content < 2 ^ 31" and all: "arrived ` set (ys @ [y]) = wire ` set (fragments_from me s n content 0)"
    and new: "arrived y \<notin> arrived ` set ys"
  shows "\<not> covered content (map arrived ys)"
proof
  assume cov: "covered content (map arrived ys)"
  have from_content: "arrived x \<in> wire ` set (fragments_from me s n content 0)" if "x \<in> set (ys @ [y])" for x
    unfolding all [symmetric] using that by (rule imageI)
  obtain k where k: "piece_at k s content (arrived y)" using arrived_piece [OF from_content, of y] by auto
  have ky: "covers (arrived y) (int k)" "k < length content"
    using piece_covers_start [OF k assms(1)] by simp_all
  from this(2) have "\<exists>w \<in> set (map arrived ys). covers w (int k)"
    using cov [unfolded covered_def, rule_format, of "int k"] by simp
  then obtain x where x: "x \<in> set ys" "covers (arrived x) (int k)" by auto
  obtain z z' where "z \<in> set (fragments_from me s n content 0)" "z' \<in> set (fragments_from me s n content 0)"
      "arrived y = wire z" "arrived x = wire z'"
    using from_content [of x] from_content [of y] x(1) by auto
  then have "arrived y = arrived x"
    using fragments_apart [OF assms(1), of z me s n 0 z' "int k"] x(2) ky by simp
  then show False using new x(1) by auto
qed

text \<open>
  C15. Content that does not fit one packet is cut and stored; when its packets reach a node,
  in any order, repeated, and with the fields that forwarding changes set anyhow, the node
  hands up nothing before the last missing packet and exactly the content with it.
\<close>

theorem large_content_delivered:
  assumes "0 < fragment_length me" and "mtu me \<le> HeaderLength + int (length content)"
    and "length content < 2 ^ 31" and "getBlock s ct = None" and "bufs s = None"
  shows "\<exists>ct' b. FragmentAndStore me s content ct = Inr ct' \<and> getBlock s ct' = Some b
    \<and> (\<forall>ys y. arrived ` set (ys @ [y]) = wire ` set (cb_packets b) \<and> arrived y \<notin> arrived ` set ys \<longrightarrow>
        (\<exists>bufs1 h bufs2. foldE collect_one ys ([], bufs) = Inr ([], bufs1)
           \<and> foldE collect_one (ys @ [y]) ([], bufs) = Inr ([(h, content)], bufs2) \<and> bufs2 s = None))"
proof -
  let ?n = "nat (fragment_length me)"
  define frags where "frags = fragments_from me s ?n content 0"
  have n: "0 < ?n" using assms(1) by simp
  have "content \<noteq> []" using assms(1,2) by (auto simp: fragment_length_def)
  then have "frags \<noteq> []" using fragments_cover [of 0 0 content ?n me s] n by (auto simp: frags_def)
  then obtain b where b: "getBlock s (fold (CachePacket s) frags ct) = Some b" "cb_packets b = frags"
    using stored_block [OF assms(4)] by blast
  have store: "FragmentAndStore me s content ct = Inr (fold (CachePacket s) frags ct)"
    using assms(1,2) by (simp add: FragmentAndStore_def frags_def)
  have "\<exists>bufs1 h bufs2. foldE collect_one ys ([], bufs) = Inr ([], bufs1)
      \<and> foldE collect_one (ys @ [y]) ([], bufs) = Inr ([(h, content)], bufs2) \<and> bufs2 s = None"
    if all: "arrived ` set (ys @ [y]) = wire ` set frags" and new: "arrived y \<notin> arrived ` set ys" for ys y
  proof -
    have pieces: "\<exists>k. piece_at k s content (arrived x)" if "x \<in> set (ys @ [y])" for x
    proof (rule arrived_piece)
      show "arrived x \<in> wire ` set (fragments_from me s ?n content 0)"
        unfolding frags_def [symmetric] all [symmetric] using that by (rule imageI)
    qed
    obtain bufs1 where b1: "foldE collect_one ys ([], bufs) = Inr ([], bufs1)"
        "collected s content (map arrived ys) bufs1"
      using collect_incomplete [OF assms(3), of s "[]" bufs ys "[]"] assms(5) pieces
        one_missing [OF assms(3) all [unfolded frags_def] new] by (auto simp: collected_def)
    obtain h p now where y: "y = ((h, p), now)" by (metis surj_pair)
    obtain k where k: "piece_at k s content (wire (h, p))" using pieces [of y] y by (auto simp: arrived_def)
    have "covered content (map arrived ys @ [wire (h, p)])"
      using all_arrived_cover [OF n assms(3) all [unfolded frags_def]] y by (simp add: arrived_def)
    then obtain h' bufs2 where "color_addFragment (h, p) now bufs1 = Inr (Some (h', content), bufs2)" "bufs2 s = None"
      using addFragment_step [OF b1(2) k assms(3), of now] by auto
    then show ?thesis using b1(1) y by (auto simp: foldE_append collect_one_def)
  qed
  then show ?thesis using store b by auto
qed

definition example_node :: node_identity where
  "example_node = \<lparr>nodeIndex = 1, node_nid = NID 0 0 0 1, hopLimit = 8, mtu = 94, ie_mac = 1\<rparr>"

lemma example_fragments:
  "fragments_from example_node s 16 (replicate 16 CHR ''a'' @ ''bcd'') 0 =
     [((DataHead example_node s)\<lparr>d_moreFragments := True, d_totalLength := 94, d_trace := [1]\<rparr>, replicate 16 CHR ''a''),
      ((DataHead example_node s)\<lparr>d_moreFragments := False, d_offset := 16, d_totalLength := 81, d_trace := [1]\<rparr>, ''bcd'')]"
  by (simp add: fragments_from.simps example_node_def HeaderLength_def DataHead_def new_data_def numeral_eq_Suc)

theorem large_content_delivered_witness:
  "\<exists>frags :: char data_packet list. length frags = 2
    \<and> (\<exists>h bufs. foldE collect_one [(frags ! 1, 5), (frags ! 1, 6), (frags ! 0, 7)] ([], \<lambda>_. None)
         = Inr ([(h, replicate 16 CHR ''a'' @ ''bcd'')], bufs))"
proof -
  let ?s = "SID default_nid 0 0 0 0 1" and ?c = "replicate 16 CHR ''a'' @ ''bcd''"
  define frags where "frags = fragments_from example_node ?s 16 ?c 0"
  have fl: "fragment_length example_node = 16" "mtu example_node = 94"
    by (simp_all add: fragment_length_def example_node_def HeaderLength_def)
  have none: "getBlock ?s cache_initialize = None" by (simp add: getBlock_def cache_initialize_def)
  have len: "0 < fragment_length example_node" "mtu example_node \<le> HeaderLength + int (length ?c)" "length ?c < 2 ^ 31"
    by (simp_all add: fl HeaderLength_def)
  obtain ct' b where b: "FragmentAndStore example_node ?s ?c cache_initialize = Inr ct'" "getBlock ?s ct' = Some b"
    "\<And>ys y. arrived ` set (ys @ [y]) = wire ` set (cb_packets b) \<Longrightarrow> arrived y \<notin> arrived ` set ys \<Longrightarrow>
        \<exists>bufs1 h bufs2. foldE collect_one ys ([], \<lambda>_. None) = Inr ([], bufs1)
           \<and> foldE collect_one (ys @ [y]) ([], \<lambda>_. None) = Inr ([(h, ?c)], bufs2) \<and> bufs2 ?s = None"
    using large_content_delivered [OF len none, of "\<lambda>_. None"] by blast
  have fs: "FragmentAndStore example_node ?s ?c cache_initialize = Inr (fold (CachePacket ?s) frags cache_initialize)"
    by (simp add: FragmentAndStore_def fl frags_def HeaderLength_def)
  have two: "frags = [frags ! 0, frags ! 1]" "frags \<noteq> []" unfolding frags_def example_fragments by simp_all
  have "cb_packets b = frags" using stored_block [OF none two(2)] b(1,2) fs by auto
  then have set: "set (cb_packets b) = {frags ! 0, frags ! 1}" using two(1) by (metis list.simps(15) list.set(1))
  have ne: "wire (frags ! 0) \<noteq> wire (frags ! 1)" unfolding frags_def example_fragments by (simp add: wire_def)
  have "\<exists>bufs1 h bufs2. foldE collect_one [(frags ! 1, 5), (frags ! 1, 6)] ([], \<lambda>_. None) = Inr ([], bufs1)
     \<and> foldE collect_one ([(frags ! 1, 5), (frags ! 1, 6)] @ [(frags ! 0, 7)]) ([], \<lambda>_. None) = Inr ([(h, ?c)], bufs2)
     \<and> bufs2 ?s = None"
    by (rule b(3)) (use ne in \<open>auto simp: arrived_def set\<close>)
  then show ?thesis using two(1) by (intro exI [of _ frags]) (auto simp: frags_def example_fragments)
qed

text \<open>
  Content that fits one packet is stored with a total length that does not count the
  header, whereas the receiver subtracts the header from it: the node that asked for the
  content is handed all but its last 78 octets, and a content of up to 78 octets stops the
  simulation.
\<close>

theorem small_content_truncated:
  assumes "0 < fragment_length me" and "HeaderLength + int (length content) < mtu me"
    and "getBlock s ct = None" and "bufs s = None"
  shows "\<exists>ct' b p. FragmentAndStore me s content ct = Inr ct' \<and> getBlock s ct' = Some b \<and> cb_packets b = [p]
    \<and> (if length content \<le> 78 then \<exists>e. color_addFragment p now bufs = Inl e
       else \<exists>h bufs'. color_addFragment p now bufs = Inr (Some (h, take (length content - 78) content), bufs'))"
proof -
  let ?p = "encapsulate_data me s content"
  have store: "FragmentAndStore me s content ct = Inr (fold (CachePacket s) [?p] ct)"
    using assms(1,2) by (simp add: FragmentAndStore_def)
  obtain b where b: "getBlock s (fold (CachePacket s) [?p] ct) = Some b" "cb_packets b = [?p]"
    using stored_block [OF assms(3), of "[?p]"] by blast
  have small: "\<exists>e. color_addFragment ?p now bufs = Inl e" if "length content \<le> 78"
    using that assms(4)
    by (cases "length content = 78")
      (auto simp: color_addFragment_def encapsulate_data_def peekDataAt_def HeaderLength_def Let_def DataHead_def new_data_def)
  have big: "\<exists>h bufs'. color_addFragment ?p now bufs = Inr (Some (h, take (length content - 78) content), bufs')"
    if big: "78 < length content"
  proof -
    let ?d = "take (length content - 78) content"
    have ne: "?d \<noteq> []" "int (length ?d) = int (length content) - 78" using big by auto
    have peek: "peekDataAt 0 (int (length content) - 78) content = Inr ?d"
      using big by (simp add: peekDataAt_def nat_diff_distrib)
    have repl: "reassembly_replace 0 ?d reassembly_new = Inr (reassembly_new\<lparr>as_regions := [\<lparr>roffset = 0, rdata = ?d\<rparr>]\<rparr>)"
      using ne(1) by (simp add: reassembly_replace_def replace_data_def sliceRegions_def insert_region_def
          reassembly_new_def Let_def)
    show ?thesis
      using assms(4) peek repl ne big
      by (simp add: color_addFragment_def encapsulate_data_def HeaderLength_def DataHead_def new_data_def Let_def
          isComplete_def getReassembledData_def)
  qed
  show ?thesis using store b small big by (intro exI conjI) (auto simp: not_le)
qed

theorem small_content_truncated_witness:
  "\<exists>p h bufs. color_addFragment p 0 (\<lambda>_. None) = Inr (Some (h, ''a''), bufs) \<and> length (snd p) = 79"
proof -
  let ?me = "example_node\<lparr>mtu := 1000\<rparr>" and ?c = "CHR ''a'' # replicate 78 CHR ''b''"
  have "0 < fragment_length ?me" "HeaderLength + int (length ?c) < mtu ?me"
    "getBlock (SID default_nid 0 0 0 0 1) cache_initialize = None"
    by (simp_all add: fragment_length_def HeaderLength_def getBlock_def cache_initialize_def)
  from small_content_truncated [OF this, of "\<lambda>_. None" 0]
  obtain ct' b p h bufs' where *: "FragmentAndStore ?me (SID default_nid 0 0 0 0 1) ?c cache_initialize = Inr ct'"
    "getBlock (SID default_nid 0 0 0 0 1) ct' = Some b" "cb_packets b = [p]"
    "color_addFragment p 0 (\<lambda>_. None) = Inr (Some (h, take (length ?c - 78) ?c), bufs')"
    by auto
  have "FragmentAndStore ?me (SID default_nid 0 0 0 0 1) ?c cache_initialize =
      Inr (fold (CachePacket (SID default_nid 0 0 0 0 1)) [encapsulate_data ?me (SID default_nid 0 0 0 0 1) ?c] cache_initialize)"
    by (simp add: FragmentAndStore_def fragment_length_def HeaderLength_def)
  then have "p = encapsulate_data ?me (SID default_nid 0 0 0 0 1) ?c"
    using * stored_block [of "SID default_nid 0 0 0 0 1" cache_initialize "[encapsulate_data ?me (SID default_nid 0 0 0 0 1) ?c]"]
    by (auto simp: getBlock_def cache_initialize_def)
  then have "length (snd p) = 79" by (simp add: encapsulate_data_def)
  moreover have "take (length ?c - 78) ?c = ''a''" by simp
  ultimately show ?thesis using *(4) by metis
qed

end
