(* ===== verification/Color_Node.thy ===== *)
theory Color_Node
  imports Color_Routes Color_Store
begin

text \<open>
  \<open>networklayer/icn/color/color.cc\<close>: a node of the information-centric network layer, which
  takes requests (GET) and content (DATA) from the link layer and commands from applications.
  Left out are statistics, the display and the unused parameters. The random numbers a handler
  draws are its arguments, the roles the cluster module reports are fields of the node.
\<close>

section \<open>State\<close>

record socket_descriptor =
  sd_socketId :: int
  sd_nid :: nid
  sd_localPort :: u32

text \<open>What leaves the node: a packet with its source and destination address and, for content,
  the fill level of the pending table; and content for an application.\<close>

datatype 'a color_output =
    is_ToLink: ToLink "'a color_packet" (out_src: mac_address) (out_dest: mac_address) "(int \<times> int) option"
  | is_ToApp: ToApp int sid int "'a list"

record 'a color_node =
  me :: node_identity
  RouteDetectedTable :: "nid \<Rightarrow> simtime option"
  getTable :: "sid \<times> nid \<Rightarrow> simtime option"
  socketIdToSocketDescriptor :: "int \<Rightarrow> socket_descriptor option"
  socketsByPortMap :: "u32 \<Rightarrow> socket_descriptor option"
  SIDtoSockets :: "sid \<Rightarrow> u32 option"
  cn_ct :: "'a cache_table"
  cn_pit :: pit
  cn_rt :: color_routes
  ResemBuffer :: "'a frag_buffers"
  cn_delay_queue :: "'a delay_queue"
  flood :: bool
  routeLifeTime :: simtime
  cn_TC :: int
  cluster_isHead :: bool
  cluster_isPreHead :: bool
  cluster_isGateWay :: bool
  cn_now :: simtime
  cn_out :: "'a color_output list"

type_synonym 'a node_step = "'a color_node \<Rightarrow> 'a color_node outcome"

definition BROADCAST_ADDRESS :: mac_address where "BROADCAST_ADDRESS = -1"

definition cn_isHead :: "'a color_node \<Rightarrow> bool" where
  "cn_isHead n \<longleftrightarrow> cluster_isHead n \<or> cluster_isPreHead n"

definition isForwarder :: "'a color_node \<Rightarrow> bool" where
  "isForwarder n \<longleftrightarrow> cluster_isHead n \<or> cluster_isPreHead n \<or> cluster_isGateWay n"

section \<open>Access to the tables\<close>

definition createRoute ::
  "nid \<Rightarrow> nid \<Rightarrow> mac_address \<Rightarrow> simtime \<Rightarrow> int \<Rightarrow> 'a color_node \<Rightarrow> 'a color_node" where
  "createRoute dest nextHop mac ttl linkQ n =
     n\<lparr>cn_rt := CreateEntry dest nextHop mac ttl 24 linkQ (cn_now n) (cn_rt n)\<rparr>"

definition node_findRoute :: "nid \<Rightarrow> 'a color_node \<Rightarrow> croute option \<times> 'a color_node" where
  "node_findRoute dest n = (let (r, rt') = color_findRoute (cn_now n) dest (cn_rt n) in (r, n\<lparr>cn_rt := rt'\<rparr>))"

text \<open>A route handed out is shared with the table, which may extend its life time meanwhile.\<close>

definition route_lifetime :: "nid \<Rightarrow> croute \<Rightarrow> 'a color_node \<Rightarrow> simtime" where
  "route_lifetime dest r n =
     (case find (\<lambda>x. cr_nextHop x = cr_nextHop r \<and> cr_nextMac x = cr_nextMac r) (routes_to dest (cn_rt n)) of
        Some x \<Rightarrow> cr_lifeTime x | None \<Rightarrow> cr_lifeTime r)"

definition sendDatagramToOutput :: "'a color_packet \<Rightarrow> mac_address \<Rightarrow> 'a color_node \<Rightarrow> 'a color_node" where
  "sendDatagramToOutput p mac n =
     n\<lparr>cn_out := cn_out n @ [ToLink p (ie_mac (me n)) mac
        (case p of DataPacket h d \<Rightarrow> Some (pit_getLength (cn_pit n), pit_capacity (cn_pit n)) | GetPacket h d \<Rightarrow> None)]\<rparr>"

section \<open>Content arrives\<close>

definition learn_routes :: "data_header \<Rightarrow> mac_address \<Rightarrow> 'a color_node \<Rightarrow> 'a color_node" where
  "learn_routes head mac n =
     (let n1 = createRoute (d_lastHop head) (d_lastHop head) mac (routeLifeTime n) (d_timeToLive head) n;
          n2 = (if d_comeFromSource head
                then createRoute (getNidHead (d_sid head)) (d_lastHop head) mac (routeLifeTime n) (d_timeToLive head) n1
                else n1)
      in if d_routeMetric head \<noteq> 0
         then createRoute (getNidHead (d_sid head)) (d_lastHop head) mac (d_routeLifetime head) (d_routeMetric head) n2
         else n2)"

text \<open>The application of the node that asked for the content.\<close>

definition deliver_locally :: "'a data_packet \<Rightarrow> 'a node_step" where
  "deliver_locally pkt n =
     (let head = fst pkt; s = d_sid head in
      case socketsByPortMap n (d_portNumber2 head) of
        None \<Rightarrow> Inr n
      | Some sd \<Rightarrow>
          if SIDtoSockets n s = None then Inr n
          else
            bindE (color_addFragment pkt (cn_now n) (ResemBuffer n)) (\<lambda>(full, bufs).
            let n1 = n\<lparr>ResemBuffer := bufs\<rparr> in
            case full of
              None \<Rightarrow> Inr n1
            | Some (h, d) \<Rightarrow> Inr (n1\<lparr>SIDtoSockets := (SIDtoSockets n1)(s := None),
                               cn_out := cn_out n1 @ [ToApp (sd_socketId sd) s (d_congestionLevel head) d]\<rparr>)))"

text \<open>
  The packet that is sent on: without the padding, its header prepared for the next hop; a
  copy with another header goes to the cache.
\<close>

definition remove_padding :: "'a data_packet \<Rightarrow> 'a data_packet outcome" where
  "remove_padding p =
     (let total = d_totalLength (fst p) in
      if total < HeaderLength + int (length (snd p))
      then bindE (assertE (HeaderLength \<le> total)) (\<lambda>_. Inr (fst p, take (nat (total - HeaderLength)) (snd p)))
      else Inr p)"

definition cache_head :: "'a color_node \<Rightarrow> data_header \<Rightarrow> data_header" where
  "cache_head n h = h\<lparr>d_timeToLive := 8, d_trace := [nodeIndex (me n)], d_comeFromSource := False, d_routeMetric := 0\<rparr>"

definition forward_head :: "'a color_node \<Rightarrow> data_header \<Rightarrow> data_header" where
  "forward_head n h = h\<lparr>d_timeToLive := d_timeToLive h - 1, d_lastHop := node_nid (me n),
     d_routeMetric := (if d_routeMetric h \<noteq> 0 then d_routeMetric h - 1 else d_routeMetric h),
     d_trace := d_trace h @ [nodeIndex (me n)]\<rparr>"

text \<open>The loop over the pending requests; \<open>np\<close> is the packet it prepares and sends.\<close>

fun answer_requests :: "'a data_packet \<Rightarrow> pit_entry list \<Rightarrow> 'a data_packet \<Rightarrow> 'a node_step" where
  "answer_requests pkt [] np n = Inr n"
| "answer_requests pkt (e # es) np n =
     (let (route, n1) = node_findRoute (pe_nid e) n;
          nexthop = (case route of None \<Rightarrow> pe_mac e | Some r \<Rightarrow> cr_nextMac r) in
      if isForwarder n1 \<and> \<not> cache_hasThisPacket pkt (d_sid (fst pkt)) (cn_ct n1) then
        bindE (remove_padding np) (\<lambda>(h, d).
        let n2 = n1\<lparr>cn_ct := CachePacket (d_sid (fst pkt)) (cache_head n1 h, d) (cn_ct n1)\<rparr>;
            np' = (forward_head n1 h, d) in
        answer_requests pkt es np' (sendDatagramToOutput (DataPacket (fst np') (snd np')) nexthop n2))
      else answer_requests pkt es np n1)"

definition handleDataPacket :: "'a data_packet \<Rightarrow> mac_address \<Rightarrow> 'a node_step" where
  "handleDataPacket pkt mac n =
     bindE (deliver_locally pkt n) (\<lambda>n1.
     let s = d_sid (fst pkt); n2 = learn_routes (fst pkt) mac n1 in
     if haveSID s (cn_pit n2) then
       bindE (answer_requests pkt (findPITentry s (cn_pit n2)) pkt n2) (\<lambda>n3.
       bindE (pit_RemoveEntry s (cn_pit n3)) (\<lambda>p. Inr (n3\<lparr>cn_pit := p\<rparr>)))
     else Inr n2)"

section \<open>A request arrives\<close>

text \<open>The request goes to the known next hop at once, or it is queued for a broadcast.\<close>

definition forward_get :: "get_header \<Rightarrow> 'a list \<Rightarrow> croute \<Rightarrow> 'a color_node \<Rightarrow> 'a color_node" where
  "forward_get head payload r n =
     (if g_nexthop head = node_nid (me n) \<or> nid_isDefault (g_nexthop head) then
        sendDatagramToOutput
          (GetPacket (head\<lparr>g_timeToLive := g_timeToLive head - 1, g_trace := g_trace head @ [nodeIndex (me n)],
             g_lastHop := node_nid (me n), g_nexthop := cr_nextHop r, g_MAC := ie_mac (me n)\<rparr>) payload)
          (cr_nextMac r) n
      else n)"

definition queue_get :: "get_header \<Rightarrow> 'a list \<Rightarrow> simtime \<Rightarrow> 'a node_step" where
  "queue_get head payload delay n =
     (let dest = getNidHead (g_sid head);
          pkt = GetPacket (head\<lparr>g_timeToLive := g_timeToLive head - 1, g_trace := g_trace head @ [nodeIndex (me n)],
                  g_lastHop := node_nid (me n)\<rparr>) payload;
          tenth = 10 ^ 11;
          recent = (case RouteDetectedTable n dest of None \<Rightarrow> False | Some t \<Rightarrow> cn_now n - t < tenth);
          (found, q) = check_and_decrease pkt (cn_delay_queue n) in
      bindE (if found then Inr q
             else if recent then dq_insert pkt GET (cn_now n + tenth) 1 q
             else dq_insert pkt GET (cn_now n + delay) (cn_TC n) q) (\<lambda>q'.
      Inr (n\<lparr>cn_delay_queue := q', RouteDetectedTable := (RouteDetectedTable n)(dest \<mapsto> cn_now n)\<rparr>)))"

definition request_elsewhere ::
  "get_header \<Rightarrow> 'a list \<Rightarrow> mac_address \<Rightarrow> croute option \<Rightarrow> simtime \<Rightarrow> 'a node_step" where
  "request_elsewhere head payload mac route delay n =
     (let s = g_sid head; forward = (g_cluster head \<and> cluster_isGateWay n) \<or> cn_isHead n in
      if forward \<or> route \<noteq> None then
        bindE
          (if haveSID s (cn_pit n) then Inr n
           else
             let head1 = head\<lparr>g_cluster := cn_isHead n\<rparr> in
             case route of
               Some r \<Rightarrow> if \<not> flood n then Inr (forward_get head1 payload r n) else queue_get head1 payload delay n
             | None \<Rightarrow> if nid_isDefault (g_nexthop head1) \<or> flood n then queue_get head1 payload delay n else Inr n)
          (\<lambda>n1.
           if haveEntry s (g_Nonce head) (cn_pit n1) then Inr n1
           else bindE (createEntry s \<lparr>pe_nid = g_source head, pe_TTL = seconds 1, pe_mac = mac, pe_type = 24,
                         pe_Nonce = g_Nonce head, pe_served = False, pe_isConsumer = False\<rparr> (cn_now n1) (cn_pit n1))
                  (\<lambda>p. Inr (n1\<lparr>cn_pit := p\<rparr>)))
      else Inr n)"

text \<open>The cached packets of the content are sent back in a loop that a recent answer ends.\<close>

fun send_cached ::
  "sid \<Rightarrow> nid \<Rightarrow> u32 \<Rightarrow> mac_address \<Rightarrow> croute option \<Rightarrow> 'a data_packet list \<Rightarrow> 'a color_node \<Rightarrow> 'a color_node" where
  "send_cached s source port mac route [] n = n"
| "send_cached s source port mac route ((h, d) # ps) n =
     (if (case getTable n (s, source) of None \<Rightarrow> False | Some t \<Rightarrow> cn_now n - t < 10 ^ 11) then n
      else
        let n1 = n\<lparr>getTable := (getTable n)((s, source) \<mapsto> cn_now n)\<rparr>;
            h1 = h\<lparr>d_portNumber2 := port, d_lastHop := node_nid (me n)\<rparr>;
            h2 = (case route of
                    Some r \<Rightarrow> if cn_isHead n
                              then h1\<lparr>d_routeMetric := cr_linkQlt r, d_routeLifetime := route_lifetime (getNidHead s) r n\<rparr>
                              else h1
                  | None \<Rightarrow> h1) in
        send_cached s source port mac route ps (sendDatagramToOutput (DataPacket h2 d) mac n1))"

definition learn_requester :: "get_header \<Rightarrow> mac_address \<Rightarrow> 'a color_node \<Rightarrow> 'a color_node" where
  "learn_requester head mac n =
     createRoute (g_lastHop head) (g_lastHop head) mac (routeLifeTime n) (g_timeToLive head)
       (createRoute (g_source head) (g_lastHop head) mac (routeLifeTime n) (g_timeToLive head) n)"

definition handleGetPacket :: "get_header \<Rightarrow> 'a list \<Rightarrow> mac_address \<Rightarrow> simtime \<Rightarrow> 'a node_step" where
  "handleGetPacket head payload mac delay n =
     (if g_timeToLive head < 0 then Inr n
      else
        let s = g_sid head;
            n1 = (if isForwarder n then learn_requester head mac n else n);
            (route, n2) = node_findRoute (getNidHead s) n1 in
        case getBlock s (cn_ct n2) of
          None \<Rightarrow> request_elsewhere head payload mac route delay n2
        | Some b \<Rightarrow>
            if g_MustBeFresh head \<and> node_nid (me n2) \<noteq> getNidHead s
            then request_elsewhere head payload mac route delay n2
            else Inr (send_cached s (g_source head) (g_portNumber1 head) mac route (cb_packets b)
                        (learn_requester head mac n2)))"

fun handleIncomingDatagram :: "'a color_packet \<Rightarrow> mac_address \<Rightarrow> simtime \<Rightarrow> 'a node_step" where
  "handleIncomingDatagram (DataPacket h d) mac delay n = handleDataPacket (h, d) mac n"
| "handleIncomingDatagram (GetPacket h d) mac delay n = handleGetPacket h d mac delay n"

section \<open>The delay timer fires\<close>

text \<open>The first request in the queue learns its next hop before it is sent to all neighbours.\<close>

definition address_front :: "'a node_step" where
  "address_front n =
     (case priQueue (cn_delay_queue n) of
        [] \<Rightarrow> Inl (UndefinedBehaviour ''peekAtFront: empty list'')
      | x # xs \<Rightarrow>
          (case pp_pkt x of
             Some (GetPacket h d) \<Rightarrow>
               if pp_type x = GET then
                 let (route, n1) = node_findRoute (getNidHead (g_sid h)) n;
                     h' = (case route of None \<Rightarrow> h | Some r \<Rightarrow> h\<lparr>g_nexthop := cr_nextHop r\<rparr>) in
                 Inr (n1\<lparr>cn_delay_queue := (cn_delay_queue n1)\<lparr>priQueue := x\<lparr>pp_pkt := Some (GetPacket h' d)\<rparr> # xs\<rparr>\<rparr>)
               else Inr n
           | _ \<Rightarrow> Inr n))"

definition handle_delayer :: "'a node_step" where
  "handle_delayer n =
     bindE (address_front (n\<lparr>cn_delay_queue := (cn_delay_queue n)\<lparr>dq_timer := Idle\<rparr>\<rparr>)) (\<lambda>n1.
     bindE (popAtFront (cn_delay_queue n1)) (\<lambda>(pkt, q).
     let n2 = n1\<lparr>cn_delay_queue := q\<rparr> in
     Inr (case pkt of None \<Rightarrow> n2 | Some p \<Rightarrow> sendDatagramToOutput p BROADCAST_ADDRESS n2)))"

section \<open>Applications\<close>

datatype 'a color_request =
    ColorSocketBind int nid u32
  | ColorSocketSendGet sid u32
  | ColorSocketCacheData sid "'a list"

definition GetHead :: "sid \<Rightarrow> u32 \<Rightarrow> u64 \<Rightarrow> 'a color_node \<Rightarrow> get_header \<times> 'a color_node" where
  "GetHead s port nonce n =
     (let (route, n1) = node_findRoute (getNidHead s) n in
      (\<lparr>g_nexthop = (case route of Some r \<Rightarrow> if flood n then default_nid else cr_nextHop r | None \<Rightarrow> default_nid),
        g_timeToLive = hopLimit (me n), g_portNumber1 = port, g_sid = s, g_source = node_nid (me n),
        g_lastHop = node_nid (me n), g_MAC = ie_mac (me n), g_MustBeFresh = False, g_Nonce = nonce,
        g_trace = [nodeIndex (me n)], g_cluster = cn_isHead n\<rparr>, n1))"

definition sendGET :: "sid \<Rightarrow> u32 \<Rightarrow> u64 \<Rightarrow> 'a color_node \<Rightarrow> 'a color_node" where
  "sendGET s port nonce n =
     (let (h, n1) = GetHead s port nonce n in sendDatagramToOutput (GetPacket h []) BROADCAST_ADDRESS n1)"

fun color_handleRequest :: "'a color_request \<Rightarrow> u64 \<Rightarrow> 'a node_step" where
  "color_handleRequest (ColorSocketBind socketId nid port) nonce n =
     (let d = \<lparr>sd_socketId = socketId, sd_nid = nid, sd_localPort = port\<rparr> in
      Inr (n\<lparr>socketsByPortMap := (socketsByPortMap n)(port \<mapsto> d),
             socketIdToSocketDescriptor := (socketIdToSocketDescriptor n)(socketId \<mapsto> d)\<rparr>))"
| "color_handleRequest (ColorSocketSendGet s port) nonce n =
     (let n1 = sendGET s port nonce n in Inr (n1\<lparr>SIDtoSockets := (SIDtoSockets n1)(s \<mapsto> port)\<rparr>))"
| "color_handleRequest (ColorSocketCacheData s payload) nonce n =
     bindE (FragmentAndStore (me n) s payload (cn_ct n)) (\<lambda>ct. Inr (n\<lparr>cn_ct := ct\<rparr>))"

section \<open>Steps and the invariant of the tables\<close>

text \<open>
  Everything that happens to a node, except that a timer of the pending table fires: that
  stops the simulation, or does worse.
\<close>

inductive color_step :: "'a color_node \<Rightarrow> 'a color_node \<Rightarrow> bool" where
  receive: "handleIncomingDatagram p mac delay n = Inr n' \<Longrightarrow> color_step n n'"
| delayer: "dq_timer (cn_delay_queue n) = Scheduled (cn_now n) \<Longrightarrow> handle_delayer n = Inr n' \<Longrightarrow> color_step n n'"
| request: "color_handleRequest r nonce n = Inr n' \<Longrightarrow> color_step n n'"
| time: "cn_now n \<le> t \<Longrightarrow> color_step n (n\<lparr>cn_now := t\<rparr>)"

inductive_cases color_stepE: "color_step n n'"

definition node_inv :: "'a color_node \<Rightarrow> bool" where
  "node_inv n \<longleftrightarrow> pit_inv (cn_pit n) \<and> routes_inv (cn_rt n) \<and> dq_inv (cn_delay_queue n)"

lemma createRoute_inv [simp]: "node_inv n \<Longrightarrow> node_inv (createRoute dest nextHop mac ttl q n)"
  by (simp add: node_inv_def createRoute_def CreateEntry_inv)

lemma node_findRoute_inv: "node_inv n \<Longrightarrow> node_findRoute dest n = (r, n') \<Longrightarrow> node_inv n'"
  using color_findRoute_spec(3) [of "cn_rt n" "cn_now n" dest]
  by (auto simp: node_inv_def node_findRoute_def split: prod.splits)

lemma sendDatagram_inv [simp]: "node_inv (sendDatagramToOutput p mac n) = node_inv n"
  by (simp add: node_inv_def sendDatagramToOutput_def)

lemma node_inv_frame [simp]:
  "node_inv (n\<lparr>cn_ct := ct\<rparr>) = node_inv n" "node_inv (n\<lparr>cn_out := out\<rparr>) = node_inv n"
  "node_inv (n\<lparr>SIDtoSockets := m\<rparr>) = node_inv n" "node_inv (n\<lparr>ResemBuffer := b\<rparr>) = node_inv n"
  "node_inv (n\<lparr>cn_now := t\<rparr>) = node_inv n" "node_inv (n\<lparr>getTable := g\<rparr>) = node_inv n"
  "node_inv (n\<lparr>socketsByPortMap := sp\<rparr>) = node_inv n" "node_inv (n\<lparr>socketIdToSocketDescriptor := sd\<rparr>) = node_inv n"
  "node_inv (n\<lparr>RouteDetectedTable := rd\<rparr>) = node_inv n"
  by (simp_all add: node_inv_def)

lemma learn_routes_inv: "node_inv n \<Longrightarrow> node_inv (learn_routes h mac n)"
  by (simp add: learn_routes_def Let_def)

lemma learn_requester_inv: "node_inv n \<Longrightarrow> node_inv (learn_requester h mac n)"
  by (simp add: learn_requester_def)

lemma deliver_locally_inv: "node_inv n \<Longrightarrow> returns (deliver_locally pkt n) node_inv"
  by (auto simp: deliver_locally_def Let_def returns_def bindE_def split: option.splits sum.splits prod.splits)

lemma answer_requests_inv: "node_inv n \<Longrightarrow> returns (answer_requests pkt es np n) node_inv"
proof (induction es arbitrary: np n)
  case (Cons e es)
  obtain r n1 where fr: "node_findRoute (pe_nid e) n = (r, n1)" by force
  have inv: "node_inv n1" by (rule node_findRoute_inv [OF Cons.prems fr])
  show ?case
    using Cons.IH inv
    by (cases "remove_padding np") (auto simp: fr Let_def split: prod.split)
qed simp

lemma pit_RemoveEntry_inv:
  assumes "pit_inv p"
  shows "returns (pit_RemoveEntry s p) pit_inv"
proof (cases "haveSID s p")
  case True
  then show ?thesis using pit_RemoveEntry_ok [OF assms] by fastforce
next
  case False
  then have "map_of (pit_sids p) s = None"
    using assms by (simp add: haveSID_iff pit_inv_def map_of_eq_None_iff)
  then show ?thesis by (simp add: pit_RemoveEntry_def)
qed

lemma handleDataPacket_inv:
  assumes "node_inv n"
  shows "returns (handleDataPacket pkt mac n) node_inv"
  unfolding handleDataPacket_def
proof (rule returns_bindE [OF deliver_locally_inv [OF assms]])
  fix n1 :: "'a color_node" assume "node_inv n1"
  then have inv: "node_inv (learn_routes (fst pkt) mac n1)" by (rule learn_routes_inv)
  have "returns (bindE (answer_requests pkt es pkt n2) (\<lambda>n3. bindE (pit_RemoveEntry s (cn_pit n3)) (\<lambda>p. Inr (n3\<lparr>cn_pit := p\<rparr>)))) node_inv"
    if "node_inv n2" for n2 es s
  proof (rule returns_bindE [OF answer_requests_inv [OF that]])
    fix n3 :: "'a color_node" assume n3: "node_inv n3"
    then have "pit_inv (cn_pit n3)" by (simp add: node_inv_def)
    then show "returns (bindE (pit_RemoveEntry s (cn_pit n3)) (\<lambda>p. Inr (n3\<lparr>cn_pit := p\<rparr>))) node_inv"
      by (rule returns_bindE [OF pit_RemoveEntry_inv]) (use n3 in \<open>simp add: node_inv_def\<close>)
  qed
  then show "returns (let s = d_sid (fst pkt); n2 = learn_routes (fst pkt) mac n1 in
     if haveSID s (cn_pit n2) then
       bindE (answer_requests pkt (findPITentry s (cn_pit n2)) pkt n2) (\<lambda>n3.
       bindE (pit_RemoveEntry s (cn_pit n3)) (\<lambda>p. Inr (n3\<lparr>cn_pit := p\<rparr>)))
     else Inr n2) node_inv"
    using inv by (simp add: Let_def)
qed

lemma queue_get_inv:
  assumes "node_inv n"
  shows "returns (queue_get h d delay n) node_inv"
proof -
  define pkt where "pkt = GetPacket (h\<lparr>g_timeToLive := g_timeToLive h - 1, g_trace := g_trace h @ [nodeIndex (me n)],
                  g_lastHop := node_nid (me n)\<rparr>) d"
  obtain found q where cd: "check_and_decrease pkt (cn_delay_queue n) = (found, q)" by force
  have q: "dq_inv q" using check_and_decrease_inv [of "cn_delay_queue n" pkt] assms cd by (simp add: node_inv_def)
  have ins: "returns (dq_insert pkt GET t k q) dq_inv" for t k
    using dq_insert_keeps [OF q, of pkt GET t k] by (auto simp: returns_def)
  have *: "returns (if found then Inr q else if b then dq_insert pkt GET t k q else dq_insert pkt GET t' k' q) dq_inv" for b t k t' k'
    using q ins by simp
  show ?thesis
    unfolding queue_get_def Let_def pkt_def [symmetric] cd prod.case
    by (rule returns_bindE [OF *]) (use assms in \<open>simp add: node_inv_def\<close>)
qed

lemma add_request_inv:
  assumes "node_inv n"
  shows "returns (bindE (createEntry s e t (cn_pit n)) (\<lambda>p. Inr (n\<lparr>cn_pit := p\<rparr>))) node_inv"
  using createEntry_ok [of "cn_pit n" s e t] assms by (auto simp: node_inv_def)

lemma forward_get_inv [simp]: "node_inv (forward_get h d r n) = node_inv n"
  by (simp add: forward_get_def)

lemma request_elsewhere_inv:
  assumes "node_inv n"
  shows "returns (request_elsewhere h d mac route delay n) node_inv"
proof -
  have send: "returns (if haveSID (g_sid h) (cn_pit n) then Inr n
           else
             let head1 = h\<lparr>g_cluster := cn_isHead n\<rparr> in
             case route of
               Some r \<Rightarrow> if \<not> flood n then Inr (forward_get head1 d r n) else queue_get head1 d delay n
             | None \<Rightarrow> if nid_isDefault (g_nexthop head1) \<or> flood n then queue_get head1 d delay n else Inr n) node_inv"
    using assms queue_get_inv [OF assms] by (auto simp: Let_def split: option.split)
  show ?thesis
  proof (cases "(g_cluster h \<and> cluster_isGateWay n) \<or> cn_isHead n \<or> route \<noteq> None")
    case True
    then show ?thesis
      unfolding request_elsewhere_def Let_def
      by (simp only: disj_assoc if_True) (rule returns_bindE [OF send [unfolded Let_def]], simp add: add_request_inv)
  qed (use assms in \<open>auto simp: request_elsewhere_def Let_def\<close>)
qed

lemma send_cached_inv: "node_inv n \<Longrightarrow> node_inv (send_cached s source port mac route ps n)"
  by (induction s source port mac route ps n rule: send_cached.induct) (simp add: Let_def)+

lemma handleGetPacket_inv:
  assumes "node_inv n"
  shows "returns (handleGetPacket h d mac delay n) node_inv"
proof -
  define n1 where "n1 = (if isForwarder n then learn_requester h mac n else n)"
  have n1: "node_inv n1" using assms learn_requester_inv [OF assms] by (simp add: n1_def)
  obtain route n2 where fr: "node_findRoute (getNidHead (g_sid h)) n1 = (route, n2)" by force
  have n2: "node_inv n2" by (rule node_findRoute_inv [OF n1 fr])
  show ?thesis
    using assms request_elsewhere_inv [OF n2] send_cached_inv [OF learn_requester_inv [OF n2]]
    by (simp add: handleGetPacket_def Let_def n1_def [symmetric] fr split: option.split)
qed

lemma GetHead_inv: "node_inv n \<Longrightarrow> GetHead s port nonce n = (h, n') \<Longrightarrow> node_inv n'"
  by (auto simp: GetHead_def split: prod.splits dest: node_findRoute_inv)

lemma color_handleRequest_inv: "node_inv n \<Longrightarrow> returns (color_handleRequest r nonce n) node_inv"
proof (induction r nonce n rule: color_handleRequest.induct)
  case (2 s port nonce n)
  then show ?case by (auto simp: sendGET_def Let_def split: prod.split dest: GetHead_inv)
next
  case (3 s payload nonce n)
  then show ?case by (cases "FragmentAndStore (me n) s payload (cn_ct n)") simp_all
qed (simp add: Let_def)

text \<open>The front of the queue exists whenever its timer fires.\<close>

lemma address_front_spec:
  assumes "node_inv n" and q: "priQueue (cn_delay_queue n) = x # xs"
  shows "\<exists>n' x'. address_front (n\<lparr>cn_delay_queue := (cn_delay_queue n)\<lparr>dq_timer := Idle\<rparr>\<rparr>) = Inr n'
    \<and> cn_delay_queue n' = \<lparr>priQueue = x' # xs, dq_timer = Idle\<rparr> \<and> pp_sendtime x' = pp_sendtime x
    \<and> pp_pkt x' \<noteq> None \<and> pit_inv (cn_pit n') \<and> routes_inv (cn_rt n')"
proof -
  define m where "m = n\<lparr>cn_delay_queue := (cn_delay_queue n)\<lparr>dq_timer := Idle\<rparr>\<rparr>"
  have m: "cn_delay_queue m = \<lparr>priQueue = x # xs, dq_timer = Idle\<rparr>" "pit_inv (cn_pit m)" "routes_inv (cn_rt m)"
    using assms by (simp_all add: m_def node_inv_def)
  have x: "pp_pkt x \<noteq> None" using assms by (simp add: node_inv_def dq_inv_def)
  have fr: "cn_delay_queue n1 = cn_delay_queue m" "pit_inv (cn_pit n1)" "routes_inv (cn_rt n1)"
    if "node_findRoute d m = (r, n1)" for d r n1
    using that color_findRoute_spec(3) [OF m(3), of "cn_now m" d] m(2)
    by (auto simp: node_findRoute_def split: prod.splits)
  show ?thesis
  proof (cases "\<exists>h d. pp_pkt x = Some (GetPacket h d) \<and> pp_type x = GET")
    case True
    then obtain h d where p: "pp_pkt x = Some (GetPacket h d)" "pp_type x = GET" by blast
    obtain r n1 where f: "node_findRoute (getNidHead (g_sid h)) m = (r, n1)" by force
    show ?thesis
      using fr [OF f] m unfolding m_def [symmetric]
      by (simp add: address_front_def p f Let_def)
  next
    case False
    then have "address_front m = Inr m"
      by (auto simp: address_front_def m split: option.split color_packet.split)
    then show ?thesis using m x unfolding m_def [symmetric] by simp
  qed
qed

text \<open>So its handler always ends, and keeps the tables in order.\<close>

lemma handle_delayer_spec:
  assumes "node_inv n" and "dq_timer (cn_delay_queue n) \<noteq> Idle"
  shows "\<exists>n'. handle_delayer n = Inr n' \<and> node_inv n'"
proof -
  obtain x xs where q: "priQueue (cn_delay_queue n) = x # xs"
    using assms by (auto simp: node_inv_def dq_inv_def split: list.splits)
  obtain n' x' where a: "address_front (n\<lparr>cn_delay_queue := (cn_delay_queue n)\<lparr>dq_timer := Idle\<rparr>\<rparr>) = Inr n'"
    "cn_delay_queue n' = \<lparr>priQueue = x' # xs, dq_timer = Idle\<rparr>" "pp_sendtime x' = pp_sendtime x"
    "pp_pkt x' \<noteq> None" "pit_inv (cn_pit n')" "routes_inv (cn_rt n')"
    using address_front_spec [OF assms(1) q] by blast
  have "dq_inv (cn_delay_queue n)" using assms(1) by (simp add: node_inv_def)
  then have inv: "dq_inv \<lparr>priQueue = x' # xs, dq_timer = Scheduled (pp_sendtime x')\<rparr>"
    using a(3,4) q by (simp add: dq_inv_def)
  obtain p q' where pop: "popAtFront (cn_delay_queue n') = Inr (p, q')" "dq_inv q'"
    using popAtFront_inv [OF inv] a(2) by auto
  have "node_inv (n'\<lparr>cn_delay_queue := q'\<rparr>)" using a(5,6) pop(2) by (simp add: node_inv_def)
  then show ?thesis
    by (auto simp: handle_delayer_def a(1) pop(1) Let_def split: option.split)
qed

section \<open>What a node sends\<close>

lemma node_findRoute_frame:
  assumes "node_findRoute dest n = (r, n')"
  shows "cn_out n' = cn_out n" "cn_pit n' = cn_pit n" "cn_ct n' = cn_ct n" "me n' = me n"
    "isForwarder n' = isForwarder n" "getTable n' = getTable n" "cn_now n' = cn_now n"
  using assms by (auto simp: node_findRoute_def isForwarder_def split: prod.splits)

lemma createRoute_frame [simp]:
  "cn_out (createRoute d h m t q n) = cn_out n" "cn_pit (createRoute d h m t q n) = cn_pit n"
  "cn_ct (createRoute d h m t q n) = cn_ct n" "isForwarder (createRoute d h m t q n) = isForwarder n"
  "getTable (createRoute d h m t q n) = getTable n" "cn_now (createRoute d h m t q n) = cn_now n"
  "me (createRoute d h m t q n) = me n"
  by (simp_all add: createRoute_def isForwarder_def)

lemma learn_requester_frame [simp]:
  "cn_out (learn_requester h mac n) = cn_out n" "cn_ct (learn_requester h mac n) = cn_ct n"
  "getTable (learn_requester h mac n) = getTable n" "cn_now (learn_requester h mac n) = cn_now n"
  "me (learn_requester h mac n) = me n"
  by (simp_all add: learn_requester_def)

lemma learn_routes_frame [simp]:
  "cn_out (learn_routes h mac n) = cn_out n" "cn_pit (learn_routes h mac n) = cn_pit n"
  "cn_ct (learn_routes h mac n) = cn_ct n" "isForwarder (learn_routes h mac n) = isForwarder n"
  by (simp_all add: learn_routes_def Let_def)

lemma sendDatagram_frame [simp]:
  "cn_pit (sendDatagramToOutput p mac n) = cn_pit n" "cn_ct (sendDatagramToOutput p mac n) = cn_ct n"
  by (simp_all add: sendDatagramToOutput_def)

lemma cached_after_CachePacket:
  "d_offset h = d_offset (fst pkt) \<Longrightarrow> d_totalLength h = d_totalLength (fst pkt)
     \<Longrightarrow> cache_hasThisPacket pkt s (CachePacket s (h, d) ct)"
  by (auto simp: cache_hasThisPacket_def CachePacket_def Let_def CreateBlock_def InsterPacket_def
      block_hasThisPacket_def split: option.split)

text \<open>Once the packet is in the cache, the remaining requests get nothing.\<close>

lemma answer_requests_cached:
  "cache_hasThisPacket pkt (d_sid (fst pkt)) (cn_ct n) \<Longrightarrow>
     \<exists>n'. answer_requests pkt es np n = Inr n' \<and> cn_out n' = cn_out n \<and> cn_pit n' = cn_pit n"
proof (induction es arbitrary: n)
  case (Cons e es)
  obtain r n1 where f: "node_findRoute (pe_nid e) n = (r, n1)" by force
  show ?case
    using Cons.IH [of n1] Cons.prems node_findRoute_frame [OF f] by (auto simp: f Let_def)
qed simp

lemma answer_requests_skipped:
  "\<not> isForwarder n \<Longrightarrow>
     \<exists>n'. answer_requests pkt es np n = Inr n' \<and> cn_out n' = cn_out n \<and> cn_pit n' = cn_pit n"
proof (induction es arbitrary: n)
  case (Cons e es)
  obtain r n1 where f: "node_findRoute (pe_nid e) n = (r, n1)" by force
  show ?case
    using Cons.IH [of n1] Cons.prems node_findRoute_frame [OF f] by (auto simp: f Let_def)
qed simp

lemma remove_padding_head: "returns (remove_padding p) (\<lambda>q. fst q = fst p)"
  by (simp add: remove_padding_def Let_def assertE_def)

lemma answer_requests_once:
  assumes "answer_requests pkt es pkt n = Inr n'"
  shows "cn_pit n' = cn_pit n \<and> (\<exists>sent. cn_out n' = cn_out n @ sent \<and> list_all is_ToLink sent
    \<and> length sent = (if es \<noteq> [] \<and> isForwarder n \<and> \<not> cache_hasThisPacket pkt (d_sid (fst pkt)) (cn_ct n) then 1 else 0))"
proof (cases "es \<noteq> [] \<and> isForwarder n \<and> \<not> cache_hasThisPacket pkt (d_sid (fst pkt)) (cn_ct n)")
  case False
  then consider "es = []" | "\<not> isForwarder n" | "cache_hasThisPacket pkt (d_sid (fst pkt)) (cn_ct n)" by blast
  then show ?thesis
    by cases (use assms answer_requests_cached [of pkt n es pkt] answer_requests_skipped [of n pkt es pkt] in auto)
next
  case True
  then obtain e es' where es: "es = e # es'" by (auto simp: neq_Nil_conv)
  obtain r n1 where f: "node_findRoute (pe_nid e) n = (r, n1)" by force
  obtain h d where rp: "remove_padding pkt = Inr (h, d)"
    using assms True node_findRoute_frame [OF f] by (cases "remove_padding pkt") (auto simp: es f Let_def)
  have h: "h = fst pkt" using returnsD [OF remove_padding_head rp] by simp
  define n2 where "n2 = sendDatagramToOutput (DataPacket (forward_head n1 h) d)
      (case r of None \<Rightarrow> pe_mac e | Some r \<Rightarrow> cr_nextMac r)
      (n1\<lparr>cn_ct := CachePacket (d_sid (fst pkt)) (cache_head n1 h, d) (cn_ct n1)\<rparr>)"
  have run: "answer_requests pkt es' (forward_head n1 h, d) n2 = Inr n'"
    using assms True node_findRoute_frame [OF f] by (simp add: es f Let_def rp n2_def)
  have "cache_hasThisPacket pkt (d_sid (fst pkt)) (cn_ct n2)"
    by (simp add: n2_def cached_after_CachePacket cache_head_def h)
  from answer_requests_cached [OF this, of es' "(forward_head n1 h, d)"] run have "cn_out n' = cn_out n2" "cn_pit n' = cn_pit n2" by auto
  then show ?thesis
    using True node_findRoute_frame [OF f] by (auto simp: n2_def sendDatagramToOutput_def)
qed

lemma answer_requests_returns:
  assumes "HeaderLength \<le> d_totalLength (fst pkt)"
  shows "\<exists>n'. answer_requests pkt es pkt n = Inr n'"
proof (cases es)
  case (Cons e es')
  obtain r n1 where f: "node_findRoute (pe_nid e) n = (r, n1)" by force
  have "\<exists>d. remove_padding pkt = Inr (fst pkt, d)"
    using assms by (cases pkt) (simp add: remove_padding_def Let_def assertE_def)
  then obtain d where rp: "remove_padding pkt = Inr (fst pkt, d)" ..
  show ?thesis
  proof (cases "isForwarder n1 \<and> \<not> cache_hasThisPacket pkt (d_sid (fst pkt)) (cn_ct n1)")
    case True
    let ?n2 = "sendDatagramToOutput (DataPacket (forward_head n1 (fst pkt)) d)
      (case r of None \<Rightarrow> pe_mac e | Some r \<Rightarrow> cr_nextMac r)
      (n1\<lparr>cn_ct := CachePacket (d_sid (fst pkt)) (cache_head n1 (fst pkt), d) (cn_ct n1)\<rparr>)"
    have "cache_hasThisPacket pkt (d_sid (fst pkt)) (cn_ct ?n2)"
      by (simp add: cached_after_CachePacket cache_head_def)
    from answer_requests_cached [OF this, of es' "(forward_head n1 (fst pkt), d)"] True show ?thesis
      by (auto simp: Cons f Let_def rp)
  next
    case False
    then show ?thesis
      using answer_requests_skipped [of n1 pkt es' pkt] answer_requests_cached [of pkt n1 es' pkt]
      by (auto simp: Cons f Let_def)
  qed
qed simp

lemma deliver_locally_out:
  assumes "deliver_locally pkt n = Inr n'"
  shows "cn_pit n' = cn_pit n \<and> cn_ct n' = cn_ct n \<and> isForwarder n' = isForwarder n
    \<and> (\<exists>up. cn_out n' = cn_out n @ up \<and> list_all is_ToApp up)"
proof -
  have same: "isForwarder (n\<lparr>ResemBuffer := r\<rparr>) = isForwarder n"
    "isForwarder (n\<lparr>ResemBuffer := r, SIDtoSockets := m, cn_out := out\<rparr>) = isForwarder n" for r m out
    by (simp_all add: isForwarder_def)
  show ?thesis
    using assms
    by (cases "color_addFragment pkt (cn_now n) (ResemBuffer n)")
      (auto simp: deliver_locally_def Let_def same split: option.splits if_splits)
qed

lemma send_cached_recent:
  "getTable n (s, source) = Some t \<Longrightarrow> cn_now n - t < 10 ^ 11 \<Longrightarrow> send_cached s source port mac route ps n = n"
  by (cases ps) auto

lemma send_cached_out:
  "\<exists>sent. cn_out (send_cached s source port mac route ps n) = cn_out n @ sent
     \<and> map (\<lambda>x. case x of ToLink (DataPacket h d) src dest q \<Rightarrow> Some (d, dest) | _ \<Rightarrow> None) sent =
       (if (case getTable n (s, source) of None \<Rightarrow> False | Some t \<Rightarrow> cn_now n - t < 10 ^ 11) then []
        else map (\<lambda>(h, d). Some (d, mac)) (take 1 ps))"
proof (cases ps)
  case (Cons p ps')
  obtain h d where p: "p = (h, d)" by force
  show ?thesis
    by (simp add: Cons p Let_def send_cached_recent [where t = "cn_now n"] sendDatagramToOutput_def)
qed simp

section \<open>Properties\<close>


text \<open>
  C18. A request that the cache can answer is answered with the first packet of the content
  alone, sent to the neighbour it came from, however many packets the content has; within
  0.1 s after an answer to the same consumer nothing is sent.
\<close>

theorem cached_content_answered_by_first_packet:
  assumes "getBlock (g_sid h) (cn_ct n) = Some b" and "0 \<le> g_timeToLive h"
    and "\<not> g_MustBeFresh h \<or> getNidHead (g_sid h) = node_nid (me n)"
  shows "\<exists>n' sent. handleGetPacket h d mac delay n = Inr n' \<and> cn_out n' = cn_out n @ sent
    \<and> map (\<lambda>x. case x of ToLink (DataPacket h' d') src dest q \<Rightarrow> Some (d', dest) | _ \<Rightarrow> None) sent =
      (if (case getTable n (g_sid h, g_source h) of None \<Rightarrow> False | Some t \<Rightarrow> cn_now n - t < 10 ^ 11) then []
       else map (\<lambda>(h', d'). Some (d', mac)) (take 1 (cb_packets b)))"
proof -
  define n1 where "n1 = (if isForwarder n then learn_requester h mac n else n)"
  obtain r n2 where f: "node_findRoute (getNidHead (g_sid h)) n1 = (r, n2)" by force
  define n3 where "n3 = learn_requester h mac n2"
  have same: "cn_out n3 = cn_out n" "cn_ct n2 = cn_ct n" "getTable n3 = getTable n" "cn_now n3 = cn_now n" "me n2 = me n"
    using node_findRoute_frame [OF f] by (simp_all add: n1_def n3_def)
  have "handleGetPacket h d mac delay n =
      Inr (send_cached (g_sid h) (g_source h) (g_portNumber1 h) mac r (cb_packets b) n3)"
    using assms same f by (auto simp: handleGetPacket_def Let_def n1_def [symmetric] n3_def [symmetric])
  then show ?thesis
    using send_cached_out [where n = n3 and s = "g_sid h" and source = "g_source h" and port = "g_portNumber1 h"
        and route = r and ps = "cb_packets b" and mac = mac] same by metis
qed

text \<open>
  C17. However many requests for a content object are pending, the packet that arrives is
  sent on once at most (to the next hop of the first request, if the node forwards and the
  packet is new), and then no request for the object is pending any more.
\<close>

theorem data_answers_one_request:
  assumes "node_inv n" and "handleDataPacket pkt mac n = Inr n'"
  shows "findPITentry (d_sid (fst pkt)) (cn_pit n') = []
    \<and> (\<exists>up sent. cn_out n' = cn_out n @ up @ sent \<and> list_all is_ToApp up \<and> list_all is_ToLink sent
         \<and> length sent = (if haveSID (d_sid (fst pkt)) (cn_pit n) \<and> isForwarder n
                             \<and> \<not> cache_hasThisPacket pkt (d_sid (fst pkt)) (cn_ct n) then 1 else 0))"
proof -
  let ?s = "d_sid (fst pkt)"
  obtain n1 where dl: "deliver_locally pkt n = Inr n1"
    using assms(2) by (cases "deliver_locally pkt n") (simp_all add: handleDataPacket_def)
  obtain up where up: "cn_pit n1 = cn_pit n" "cn_ct n1 = cn_ct n" "isForwarder n1 = isForwarder n"
    "cn_out n1 = cn_out n @ up" "list_all is_ToApp up"
    using deliver_locally_out [OF dl] by blast
  define n2 where "n2 = learn_routes (fst pkt) mac n1"
  have pit: "pit_inv (cn_pit n)" using assms(1) by (simp add: node_inv_def)
  have run: "(if haveSID ?s (cn_pit n) then
       bindE (answer_requests pkt (findPITentry ?s (cn_pit n)) pkt n2) (\<lambda>n3.
       bindE (pit_RemoveEntry ?s (cn_pit n3)) (\<lambda>p. Inr (n3\<lparr>cn_pit := p\<rparr>)))
     else Inr n2) = Inr n'"
    using assms(2) up(1) by (simp add: handleDataPacket_def dl Let_def n2_def cong: if_cong)
  show ?thesis
  proof (cases "haveSID ?s (cn_pit n)")
    case False
    then show ?thesis using run up by (auto simp: haveSID_def n2_def)
  next
    case True
    obtain n3 where a: "answer_requests pkt (findPITentry ?s (cn_pit n)) pkt n2 = Inr n3"
      using run True by (cases "answer_requests pkt (findPITentry ?s (cn_pit n)) pkt n2") simp_all
    obtain sent where sent: "cn_pit n3 = cn_pit n2" "cn_out n3 = cn_out n2 @ sent" "list_all is_ToLink sent"
      "length sent = (if isForwarder n \<and> \<not> cache_hasThisPacket pkt ?s (cn_ct n) then 1 else 0)"
      using answer_requests_once [OF a] True up by (auto simp: haveSID_def n2_def)
    obtain p where p: "pit_RemoveEntry ?s (cn_pit n) = Inr p" "findPITentry ?s p = []"
      using pit_RemoveEntry_ok [OF pit True] by auto
    have "n' = n3\<lparr>cn_pit := p\<rparr>"
      using run True a p(1) sent(1) up(1) by (simp add: n2_def)
    then have "findPITentry ?s (cn_pit n') = []" "cn_out n' = cn_out n @ up @ sent"
      using p(2) sent(2) up(4) by (simp_all add: n2_def)
    then show ?thesis using sent(3,4) True up(5) by metis
  qed
qed

section \<open>An example\<close>

definition example_color_node :: "char color_node" where
  "example_color_node = \<lparr>me = example_node, RouteDetectedTable = (\<lambda>_. None), getTable = (\<lambda>_. None),
     socketIdToSocketDescriptor = (\<lambda>_. None), socketsByPortMap = (\<lambda>_. None), SIDtoSockets = (\<lambda>_. None),
     cn_ct = cache_initialize\<lparr>ct_table := [SID (NID 0 0 0 9) 0 0 0 0 1 \<mapsto>
       new_block\<lparr>cb_packets := [(new_data, ''ab''), (new_data\<lparr>d_offset := 2\<rparr>, ''cd'')]\<rparr>]\<rparr>,
     cn_pit = pit_initialize, cn_rt = [], ResemBuffer = (\<lambda>_. None), cn_delay_queue = \<lparr>priQueue = [], dq_timer = Idle\<rparr>,
     flood = False, routeLifeTime = seconds 3, cn_TC = 1, cluster_isHead = True, cluster_isPreHead = False,
     cluster_isGateWay = False, cn_now = 0, cn_out = []\<rparr>"

lemma example_color_node_inv: "node_inv example_color_node"
  by (simp add: example_color_node_def node_inv_def pit_initialize_inv routes_inv_def dq_inv_def)


lemma no_link_in_apps: "(\<forall>x \<in> set up. is_ToApp x) \<Longrightarrow> filter is_ToLink up = []"
  by (induction up) (auto elim: color_output.exhaust_disc split: color_output.splits)

text \<open>The example node with one request pending, and a packet of the content asked for.\<close>

definition example_waiting_node :: "char color_node" where
  "example_waiting_node = example_color_node\<lparr>cn_pit :=
     (case createEntry (SID (NID 0 0 0 8) 0 0 0 0 0) example_request 0 pit_initialize of Inr p \<Rightarrow> p | Inl e \<Rightarrow> pit_initialize)\<rparr>"

definition example_data :: "char data_packet" where
  "example_data = (new_data\<lparr>d_sid := SID (NID 0 0 0 8) 0 0 0 0 0, d_totalLength := 80\<rparr>, ''xy'')"


theorem cached_content_answered_by_first_packet_witness:
  "\<exists>n' sent. handleGetPacket (example_get (SID (NID 0 0 0 9) 0 0 0 0 1)) [] 7 0 example_color_node = Inr n'
    \<and> cn_out n' = sent
    \<and> map (\<lambda>x. case x of ToLink (DataPacket h' d') src dest q \<Rightarrow> Some (d', dest) | _ \<Rightarrow> None) sent = [Some (''ab'', 7)]"
proof -
  let ?h = "example_get (SID (NID 0 0 0 9) 0 0 0 0 1)"
  have "getBlock (g_sid ?h) (cn_ct example_color_node) =
      Some (new_block\<lparr>cb_packets := [(new_data, ''ab''), (new_data\<lparr>d_offset := 2\<rparr>, ''cd'')]\<rparr>)"
    "0 \<le> g_timeToLive ?h" "\<not> g_MustBeFresh ?h \<or> getNidHead (g_sid ?h) = node_nid (me example_color_node)"
    by (simp_all add: getBlock_def example_get_def example_color_node_def cache_initialize_def new_block_def)
  from cached_content_answered_by_first_packet [OF this, of "[]" 7 0]
  show ?thesis by (simp add: example_color_node_def new_block_def)
qed

theorem data_answers_one_request_witness:
  "\<exists>n'. handleDataPacket example_data 9 example_waiting_node = Inr n'
     \<and> findPITentry (d_sid (fst example_data)) (cn_pit n') = [] \<and> length (filter is_ToLink (cn_out n')) = 1"
proof -
  let ?s = "d_sid (fst example_data)"
  obtain p where p: "createEntry ?s example_request 0 pit_initialize = Inr p" "pit_inv p" "findPITentry ?s p \<noteq> []"
    using pit.add_pending [OF pit_initialize_inv] by blast
  have inv: "node_inv example_waiting_node"
    using example_color_node_inv p by (simp add: example_waiting_node_def example_data_def node_inv_def)
  have pend: "haveSID ?s (cn_pit example_waiting_node)"
    using p by (simp add: haveSID_def example_waiting_node_def example_data_def)
  have fwd: "isForwarder example_waiting_node" "\<not> cache_hasThisPacket example_data ?s (cn_ct example_waiting_node)"
      "cn_out example_waiting_node = []" "socketsByPortMap example_waiting_node = (\<lambda>_. None)"
    by (simp_all add: isForwarder_def example_waiting_node_def example_color_node_def cache_hasThisPacket_def
        example_data_def cache_initialize_def)
  define n2 where "n2 = learn_routes (fst example_data) 9 example_waiting_node"
  obtain n3 where n3: "answer_requests example_data (findPITentry ?s (cn_pit n2)) example_data n2 = Inr n3"
    using answer_requests_returns [of example_data _ n2] by (auto simp: example_data_def HeaderLength_def)
  have "cn_pit n3 = cn_pit example_waiting_node"
    using answer_requests_once [OF n3] by (simp add: n2_def)
  moreover obtain p' where "pit_RemoveEntry ?s (cn_pit example_waiting_node) = Inr p'"
    using pit_RemoveEntry_ok [OF _ pend] inv by (auto simp: node_inv_def)
  ultimately have run: "handleDataPacket example_data 9 example_waiting_node = Inr (n3\<lparr>cn_pit := p'\<rparr>)"
    using n3 pend by (simp add: handleDataPacket_def deliver_locally_def fwd Let_def n2_def)
  have "findPITentry ?s (cn_pit (n3\<lparr>cn_pit := p'\<rparr>)) = []
     \<and> (\<exists>up sent. cn_out (n3\<lparr>cn_pit := p'\<rparr>) = up @ sent \<and> list_all is_ToApp up \<and> list_all is_ToLink sent \<and> length sent = 1)"
    using data_answers_one_request [OF inv run] pend fwd by simp
  then have "findPITentry ?s (cn_pit (n3\<lparr>cn_pit := p'\<rparr>)) = []" "length (filter is_ToLink (cn_out (n3\<lparr>cn_pit := p'\<rparr>))) = 1"
    by (auto simp: no_link_in_apps list_all_iff)
  then show ?thesis using run by blast
qed

end
