(* ===== verification/Pccp_Send_Queue.thy ===== *)
theory Pccp_Send_Queue
  imports Icn_Ids "HOL-Library.AList"
begin

text \<open>
  \<open>applications/pccpapp/PccpSendQueue.cc\<close>: the requests of a PCCP application. A request is
  not sent yet, or in the window (sent, with a timer for its retransmission), or it waits for
  a retransmission since the window has shrunk. A pointer to a timer message is \<open>None\<close> for
  \<open>nullptr\<close>; \<open>pq_msgs\<close> is the heap of the timer messages.
\<close>

section \<open>Maps of the standard library\<close>

text \<open>\<open>insert\<close> keeps an entry that is there, \<open>operator[]\<close> makes one that is not.\<close>

definition map_insert :: "'k \<Rightarrow> 'v \<Rightarrow> ('k \<times> 'v) list \<Rightarrow> ('k \<times> 'v) list" where
  "map_insert k v m = (if k \<in> fst ` set m then m else (k, v) # m)"

definition map_at :: "'v \<Rightarrow> 'k \<Rightarrow> ('k \<times> 'v) list \<Rightarrow> 'v \<times> ('k \<times> 'v) list" where
  "map_at d k m = (case map_of m k of Some v \<Rightarrow> (v, m) | None \<Rightarrow> (d, (k, d) # m))"

section \<open>The queue and its operations\<close>

type_synonym timer_ptr = "nat option"

record timeout_request =
  tr_sid :: sid
  tr_timer :: timer_ptr
  tr_rexmit_count :: int
  tr_first_trans_time :: simtime

record pccp_queue =
  sidToTimerMap :: "(sid \<times> timer_ptr) list"
  timerToSidMap :: "(timer_ptr \<times> sid) list"
  sidRexmitCount :: "(sid \<times> int) list"
  firstTransTime :: "(sid \<times> simtime) list"
  unsentSidQueue :: "sid list"
  rexmitQueue :: "timeout_request list"
  pq_msgs :: "nat \<Rightarrow> timer"
  pq_next :: nat

definition pccp_queue_new :: pccp_queue where
  "pccp_queue_new = \<lparr>sidToTimerMap = [], timerToSidMap = [], sidRexmitCount = [], firstTransTime = [],
     unsentSidQueue = [], rexmitQueue = [], pq_msgs = (\<lambda>_. Deleted), pq_next = 0\<rparr>"

definition enqueueRequest :: "sid \<Rightarrow> pccp_queue \<Rightarrow> pccp_queue" where
  "enqueueRequest s q = q\<lparr>unsentSidQueue := unsentSidQueue q @ [s]\<rparr>"

definition findRexmitTimer :: "sid \<Rightarrow> pccp_queue \<Rightarrow> timer_ptr" where
  "findRexmitTimer s q = (case map_of (sidToTimerMap q) s of None \<Rightarrow> None | Some p \<Rightarrow> p)"

definition findSID :: "timer_ptr \<Rightarrow> pccp_queue \<Rightarrow> sid outcome" where
  "findSID p q = (case map_of (timerToSidMap q) p of
     None \<Rightarrow> Inl (UndefinedBehaviour ''findSID: end iterator'') | Some s \<Rightarrow> Inr s)"

definition hasUnsentSID :: "pccp_queue \<Rightarrow> bool" where
  "hasUnsentSID q \<longleftrightarrow> unsentSidQueue q \<noteq> []"

definition enter_window :: "sid \<Rightarrow> timer_ptr \<Rightarrow> int \<Rightarrow> simtime \<Rightarrow> pccp_queue \<Rightarrow> pccp_queue" where
  "enter_window s p count first q =
     q\<lparr>sidToTimerMap := map_insert s p (sidToTimerMap q), timerToSidMap := map_insert p s (timerToSidMap q),
       sidRexmitCount := map_insert s count (sidRexmitCount q), firstTransTime := map_insert s first (firstTransTime q)\<rparr>"

definition popOneUnsentSID :: "simtime \<Rightarrow> pccp_queue \<Rightarrow> (sid \<times> pccp_queue) outcome" where
  "popOneUnsentSID now q =
     (case unsentSidQueue q of
        [] \<Rightarrow> Inl (UndefinedBehaviour ''popOneUnsentSID: empty queue'')
      | s # ss \<Rightarrow>
          let m = pq_next q in
          Inr (s, enter_window s (Some m) 0 now
                    (q\<lparr>unsentSidQueue := ss, pq_next := m + 1, pq_msgs := (pq_msgs q)(m := Idle)\<rparr>)))"

definition leave_window :: "sid \<Rightarrow> timer_ptr \<Rightarrow> pccp_queue \<Rightarrow> pccp_queue" where
  "leave_window s p q =
     q\<lparr>sidToTimerMap := AList.delete s (sidToTimerMap q), timerToSidMap := AList.delete p (timerToSidMap q),
       sidRexmitCount := AList.delete s (sidRexmitCount q), firstTransTime := AList.delete s (firstTransTime q)\<rparr>"

text \<open>Deleting a message that is scheduled is an error of the simulator.\<close>

definition delete_timer :: "timer_ptr \<Rightarrow> pccp_queue \<Rightarrow> pccp_queue outcome" where
  "delete_timer p q =
     (case p of
        None \<Rightarrow> Inr q
      | Some m \<Rightarrow>
          if pq_msgs q m = Deleted then Inl (UndefinedBehaviour ''delete: deleted message'')
          else if isScheduled (pq_msgs q m) then Inl (RuntimeError ''Cannot delete a scheduled message'')
          else Inr (q\<lparr>pq_msgs := (pq_msgs q)(m := Deleted)\<rparr>))"

definition pccp_discard :: "sid \<Rightarrow> pccp_queue \<Rightarrow> pccp_queue outcome" where
  "pccp_discard s q =
     (case map_of (sidToTimerMap q) s of
        None \<Rightarrow> Inl (UndefinedBehaviour ''discard: end iterator'')
      | Some p \<Rightarrow> delete_timer p (leave_window s p q))"

definition getRexmitCount :: "sid \<Rightarrow> pccp_queue \<Rightarrow> int \<times> pccp_queue" where
  "getRexmitCount s q = (let (c, m) = map_at 0 s (sidRexmitCount q) in (c, q\<lparr>sidRexmitCount := m\<rparr>))"

definition increaseRexmitCount :: "sid \<Rightarrow> pccp_queue \<Rightarrow> pccp_queue" where
  "increaseRexmitCount s q =
     (let (c, m) = map_at 0 s (sidRexmitCount q) in q\<lparr>sidRexmitCount := AList.update s (c + 1) m\<rparr>)"

definition getFirstTransTime :: "sid \<Rightarrow> pccp_queue \<Rightarrow> simtime \<times> pccp_queue" where
  "getFirstTransTime s q = (let (t, m) = map_at 0 s (firstTransTime q) in (t, q\<lparr>firstTransTime := m\<rparr>))"

definition getSentRequestCount :: "pccp_queue \<Rightarrow> int" where
  "getSentRequestCount q = int (length (sidToTimerMap q))"

definition getAllTimers :: "pccp_queue \<Rightarrow> timer_ptr list" where
  "getAllTimers q = map snd (sidToTimerMap q)"

definition enqueueRexmit :: "sid \<Rightarrow> pccp_queue \<Rightarrow> pccp_queue" where
  "enqueueRexmit s q =
     (let p = findRexmitTimer s q; (c, q1) = getRexmitCount s q; (t, q2) = getFirstTransTime s q1 in
      leave_window s p (q2\<lparr>rexmitQueue := rexmitQueue q2 @
        [\<lparr>tr_sid = s, tr_timer = p, tr_rexmit_count = c, tr_first_trans_time = t\<rparr>]\<rparr>))"

definition hasUnsentRexmit :: "pccp_queue \<Rightarrow> bool" where
  "hasUnsentRexmit q \<longleftrightarrow> rexmitQueue q \<noteq> []"

definition popOneUnsentRexmit :: "pccp_queue \<Rightarrow> (sid \<times> pccp_queue) outcome" where
  "popOneUnsentRexmit q =
     (case rexmitQueue q of
        [] \<Rightarrow> Inl (UndefinedBehaviour ''popOneUnsentRexmit: empty queue'')
      | r # rs \<Rightarrow> Inr (tr_sid r, enter_window (tr_sid r) (tr_timer r) (tr_rexmit_count r) (tr_first_trans_time r)
                                   (q\<lparr>rexmitQueue := rs\<rparr>)))"

section \<open>The invariant\<close>

text \<open>
  The four maps have the same requests, every request is in one place, every timer belongs to
  one request. The timers in the window run, except those of the requests in \<open>I\<close> (whose
  timer has just expired or is about to be started); the timers of waiting requests are idle.
\<close>

definition in_window :: "pccp_queue \<Rightarrow> sid set" where
  "in_window q = fst ` set (sidToTimerMap q)"

definition waiting :: "pccp_queue \<Rightarrow> sid set" where
  "waiting q = tr_sid ` set (rexmitQueue q)"

definition unsent :: "pccp_queue \<Rightarrow> sid set" where
  "unsent q = set (unsentSidQueue q)"

definition owned :: "pccp_queue \<Rightarrow> timer_ptr \<Rightarrow> bool \<Rightarrow> bool" where
  "owned q p idle \<longleftrightarrow> (\<exists>m < pq_next q. p = Some m
     \<and> (if idle then pq_msgs q m = Idle else isScheduled (pq_msgs q m)))"

definition pq_inv :: "sid set \<Rightarrow> pccp_queue \<Rightarrow> bool" where
  "pq_inv I q \<longleftrightarrow>
     timerToSidMap q = map (\<lambda>(s, p). (p, s)) (sidToTimerMap q)
     \<and> map fst (sidRexmitCount q) = map fst (sidToTimerMap q)
     \<and> map fst (firstTransTime q) = map fst (sidToTimerMap q)
     \<and> distinct (unsentSidQueue q @ map tr_sid (rexmitQueue q) @ map fst (sidToTimerMap q))
     \<and> distinct (map tr_timer (rexmitQueue q) @ map snd (sidToTimerMap q))
     \<and> (\<forall>r \<in> set (rexmitQueue q). owned q (tr_timer r) True)
     \<and> (\<forall>(s, p) \<in> set (sidToTimerMap q). owned q p (s \<in> I))"

lemma pq_invD:
  assumes "pq_inv I q"
  shows "timerToSidMap q = map (\<lambda>(s, p). (p, s)) (sidToTimerMap q)"
    "map fst (sidRexmitCount q) = map fst (sidToTimerMap q)"
    "map fst (firstTransTime q) = map fst (sidToTimerMap q)"
    "distinct (unsentSidQueue q @ map tr_sid (rexmitQueue q) @ map fst (sidToTimerMap q))"
    "distinct (map tr_timer (rexmitQueue q) @ map snd (sidToTimerMap q))"
    "\<And>r. r \<in> set (rexmitQueue q) \<Longrightarrow> owned q (tr_timer r) True"
    "\<And>s p. (s, p) \<in> set (sidToTimerMap q) \<Longrightarrow> owned q p (s \<in> I)"
  using assms unfolding pq_inv_def by blast+

lemma owned_frame [simp]:
  "owned (q\<lparr>sidToTimerMap := a\<rparr>) = owned q" "owned (q\<lparr>timerToSidMap := b\<rparr>) = owned q"
  "owned (q\<lparr>sidRexmitCount := c\<rparr>) = owned q" "owned (q\<lparr>firstTransTime := d\<rparr>) = owned q"
  "owned (q\<lparr>unsentSidQueue := e\<rparr>) = owned q" "owned (q\<lparr>rexmitQueue := f\<rparr>) = owned q"
  by (intro ext, simp add: owned_def)+

lemma owned_Some: "owned q (Some m) idle \<longleftrightarrow>
    m < pq_next q \<and> (if idle then pq_msgs q m = Idle else isScheduled (pq_msgs q m))"
  by (auto simp: owned_def)

lemmas pq_places = in_window_def waiting_def unsent_def

lemma pccp_queue_new_inv: "pq_inv {} pccp_queue_new"
  by (simp add: pq_inv_def pccp_queue_new_def)

lemma pq_inv_window:
  assumes "pq_inv I q" and "s \<in> in_window q"
  shows "\<exists>m < pq_next q. map_of (sidToTimerMap q) s = Some (Some m) \<and> findRexmitTimer s q = Some m
    \<and> map_of (timerToSidMap q) (Some m) = Some s
    \<and> (if s \<in> I then pq_msgs q m = Idle else isScheduled (pq_msgs q m))"
proof -
  obtain p where p: "map_of (sidToTimerMap q) s = Some p"
    using assms(2) by (metis in_window_def map_of_eq_None_iff not_None_eq)
  then have mem: "(s, p) \<in> set (sidToTimerMap q)" by (rule map_of_SomeD)
  then have "owned q p (s \<in> I)" using assms(1) unfolding pq_inv_def by blast
  then obtain m where m: "m < pq_next q" "p = Some m" "if s \<in> I then pq_msgs q m = Idle else isScheduled (pq_msgs q m)"
    by (auto simp: owned_def)
  have inv: "timerToSidMap q = map (\<lambda>(s, p). (p, s)) (sidToTimerMap q)" "distinct (map snd (sidToTimerMap q))"
    using assms(1) by (simp_all add: pq_inv_def)
  have "map fst (timerToSidMap q) = map snd (sidToTimerMap q)" unfolding inv(1) by (simp add: case_prod_beta)
  moreover have "(p, s) \<in> set (timerToSidMap q)" unfolding inv(1) using mem by force
  ultimately have "map_of (timerToSidMap q) p = Some s" using inv(2) by simp
  then show ?thesis using p m by (simp add: findRexmitTimer_def)
qed

lemma findRexmitTimer_outside: "s \<notin> in_window q \<Longrightarrow> findRexmitTimer s q = None"
  using map_of_eq_None_iff [of "sidToTimerMap q" s] by (simp add: findRexmitTimer_def in_window_def)

lemma findSID_timer:
  assumes "pq_inv I q" and "findSID (Some m) q = Inr s"
  shows "s \<in> in_window q \<and> findRexmitTimer s q = Some m"
proof -
  have "(Some m, s) \<in> set (timerToSidMap q)"
    using assms(2) by (auto simp: findSID_def map_of_SomeD split: option.splits)
  then have mem: "(s, Some m) \<in> set (sidToTimerMap q)" using assms(1) by (auto simp: pq_inv_def)
  have "distinct (map fst (sidToTimerMap q))" using assms(1) by (simp add: pq_inv_def)
  then show ?thesis using mem by (force simp: in_window_def findRexmitTimer_def)
qed

section \<open>The operations keep it\<close>

lemma delete_both:
  "distinct (map snd xs) \<Longrightarrow> map_of xs s = Some p \<Longrightarrow> distinct (map fst xs) \<Longrightarrow>
     AList.delete p (map (\<lambda>(a, b). (b, a)) xs) = map (\<lambda>(a, b). (b, a)) (AList.delete s xs)"
proof (induction xs)
  case (Cons x xs)
  obtain a b where x: "x = (a, b)" by force
  show ?case
  proof (cases "a = s")
    case True
    then have "p = b" "b \<notin> snd ` set xs" "s \<notin> fst ` set xs" using Cons.prems x by auto
    moreover from this have "p \<notin> fst ` set (map (\<lambda>(a, b). (b, a)) xs)" by force
    ultimately show ?thesis using x True by (simp del: set_map)
  next
    case False
    then have "map_of xs s = Some p" using Cons.prems(2) x by simp
    then have "b \<noteq> p" using Cons.prems(1) x by (force dest: map_of_SomeD)
    then show ?thesis using Cons x False by (simp add: AList.delete_eq)
  qed
qed simp

lemma snd_unique: "distinct (map snd xs) \<Longrightarrow> (a, p) \<in> set xs \<Longrightarrow> (b, p) \<in> set xs \<Longrightarrow> a = b"
  by (induction xs) force+

lemma delete_same_keys: "map fst xs = map fst ys \<Longrightarrow> map fst (AList.delete k xs) = map fst (AList.delete k ys)"
  by (simp add: AList.delete_keys)

lemma map_at_there: "k \<in> fst ` set m \<Longrightarrow> map_at d k m = (the (map_of m k), m)"
  by (cases "map_of m k") (simp_all add: map_at_def map_of_eq_None_iff)

lemma pq_inv_cong: "(\<And>s. s \<in> in_window q \<Longrightarrow> s \<in> I \<longleftrightarrow> s \<in> J) \<Longrightarrow> pq_inv I q = pq_inv J q"
proof -
  assume "\<And>s. s \<in> in_window q \<Longrightarrow> s \<in> I \<longleftrightarrow> s \<in> J"
  then have "(s, p) \<in> set (sidToTimerMap q) \<Longrightarrow> s \<in> I \<longleftrightarrow> s \<in> J" for s p
    by (force simp: in_window_def)
  then show ?thesis unfolding pq_inv_def by (auto 0 3)
qed

lemma enqueueRequest_inv:
  "pq_inv I q \<Longrightarrow> s \<notin> unsent q \<union> waiting q \<union> in_window q \<Longrightarrow> pq_inv I (enqueueRequest s q)"
  by (auto simp: pq_inv_def enqueueRequest_def pq_places)

lemma distinct_shrink: "distinct (xs @ ys) \<Longrightarrow> distinct zs \<Longrightarrow> set zs \<subseteq> set ys \<Longrightarrow> distinct (xs @ zs)"
  by auto

text \<open>A request that is in none of the maps enters the window with an idle timer.\<close>

lemma enter_window_inv:
  assumes inv: "pq_inv I q" and new: "s \<notin> unsent q \<union> waiting q \<union> in_window q"
    and m: "m < pq_next q" "pq_msgs q m = Idle"
    and own: "Some m \<notin> tr_timer ` set (rexmitQueue q) \<union> snd ` set (sidToTimerMap q)"
  shows "pq_inv (insert s I) (enter_window s (Some m) c t q)
    \<and> map fst (sidToTimerMap (enter_window s (Some m) c t q)) = s # map fst (sidToTimerMap q)"
proof -
  have keys: "s \<notin> fst ` set (sidToTimerMap q)" "Some m \<notin> fst ` set (timerToSidMap q)"
      "s \<notin> fst ` set (sidRexmitCount q)" "s \<notin> fst ` set (firstTransTime q)"
  proof -
    have eq: "timerToSidMap q = map (\<lambda>(s, p). (p, s)) (sidToTimerMap q)"
      "set (map fst (sidRexmitCount q)) = set (map fst (sidToTimerMap q))"
      "set (map fst (firstTransTime q)) = set (map fst (sidToTimerMap q))"
      using inv unfolding pq_inv_def by metis+
    show "s \<notin> fst ` set (sidToTimerMap q)" using new by (simp add: in_window_def)
    then show "s \<notin> fst ` set (sidRexmitCount q)" "s \<notin> fst ` set (firstTransTime q)" using eq by simp_all
    show "Some m \<notin> fst ` set (timerToSidMap q)" unfolding eq(1) using own by force
  qed
  have "(a, p) \<in> set (sidToTimerMap q) \<Longrightarrow> a \<noteq> s" for a p using keys(1) by force
  then have win: "\<forall>(a, p) \<in> set ((s, Some m) # sidToTimerMap q). owned q p (a \<in> insert s I)"
    using inv m unfolding pq_inv_def by (auto simp: owned_Some)
  have "enter_window s (Some m) c t q =
      q\<lparr>sidToTimerMap := (s, Some m) # sidToTimerMap q, timerToSidMap := (Some m, s) # timerToSidMap q,
        sidRexmitCount := (s, c) # sidRexmitCount q, firstTransTime := (s, t) # firstTransTime q\<rparr>"
    using keys by (simp add: enter_window_def map_insert_def)
  then show ?thesis
    using inv new own keys(1) win unfolding pq_inv_def pq_places by simp
qed

lemma popOneUnsentSID_spec:
  assumes inv: "pq_inv I q" and q: "unsentSidQueue q = s # ss"
  shows "\<exists>q'. popOneUnsentSID now q = Inr (s, q') \<and> pq_inv (insert s I) q'
    \<and> unsentSidQueue q' = ss \<and> rexmitQueue q' = rexmitQueue q
    \<and> map fst (sidToTimerMap q') = s # map fst (sidToTimerMap q)"
proof -
  let ?m = "pq_next q"
  let ?q = "q\<lparr>unsentSidQueue := ss, pq_next := ?m + 1, pq_msgs := (pq_msgs q)(?m := Idle)\<rparr>"
  have own: "Some ?m \<notin> tr_timer ` set (rexmitQueue q) \<union> snd ` set (sidToTimerMap q)"
  proof
    assume "Some ?m \<in> tr_timer ` set (rexmitQueue q) \<union> snd ` set (sidToTimerMap q)"
    then have "\<exists>b. owned q (Some ?m) b"
    proof
      assume "Some ?m \<in> tr_timer ` set (rexmitQueue q)"
      then show ?thesis using pq_invD(6) [OF inv] by (metis imageE)
    next
      assume "Some ?m \<in> snd ` set (sidToTimerMap q)"
      then obtain a where "(a, Some ?m) \<in> set (sidToTimerMap q)" by force
      then show ?thesis using pq_invD(7) [OF inv] by blast
    qed
    then show False by (auto simp: owned_def)
  qed
  have older: "owned q p b \<Longrightarrow> owned ?q p b" for p b
    by (cases p) (simp_all add: owned_Some, simp add: owned_def)
  have "\<forall>r \<in> set (rexmitQueue q). owned ?q (tr_timer r) True"
      "\<forall>(s, p) \<in> set (sidToTimerMap q). owned ?q p (s \<in> I)"
    using pq_invD(6,7) [OF inv, THEN older] by auto
  then have "pq_inv I ?q"
    using inv q unfolding pq_inv_def by simp
  moreover have "s \<notin> unsent ?q \<union> waiting ?q \<union> in_window ?q"
    using inv q by (auto simp: pq_inv_def pq_places)
  ultimately have "pq_inv (insert s I) (enter_window s (Some ?m) 0 now ?q)
    \<and> map fst (sidToTimerMap (enter_window s (Some ?m) 0 now ?q)) = s # map fst (sidToTimerMap ?q)"
    by (rule enter_window_inv) (use own in simp_all)
  moreover have "unsentSidQueue (enter_window s (Some ?m) 0 now ?q) = ss"
      "rexmitQueue (enter_window s (Some ?m) 0 now ?q) = rexmitQueue q"
    by (simp_all add: enter_window_def)
  ultimately show ?thesis by (simp add: popOneUnsentSID_def q Let_def)
qed

lemma popOneUnsentRexmit_spec:
  assumes inv: "pq_inv I q" and q: "rexmitQueue q = r # rs"
  shows "\<exists>q'. popOneUnsentRexmit q = Inr (tr_sid r, q') \<and> pq_inv (insert (tr_sid r) I) q'
    \<and> unsentSidQueue q' = unsentSidQueue q \<and> rexmitQueue q' = rs
    \<and> map fst (sidToTimerMap q') = tr_sid r # map fst (sidToTimerMap q)"
proof -
  let ?q = "q\<lparr>rexmitQueue := rs\<rparr>"
  obtain m where m: "m < pq_next q" "tr_timer r = Some m" "pq_msgs q m = Idle"
    using inv q unfolding pq_inv_def by (auto simp: owned_def)
  have "pq_inv I ?q" using inv q unfolding pq_inv_def by auto
  moreover have "tr_sid r \<notin> unsent ?q \<union> waiting ?q \<union> in_window ?q"
    using inv q by (auto simp: pq_inv_def pq_places)
  moreover have "Some m \<notin> tr_timer ` set (rexmitQueue ?q) \<union> snd ` set (sidToTimerMap ?q)"
    using inv q m(2) unfolding pq_inv_def by auto
  ultimately show ?thesis
    using enter_window_inv [of I ?q "tr_sid r" m "tr_rexmit_count r" "tr_first_trans_time r"] m q
    by (simp add: popOneUnsentRexmit_def) (simp add: enter_window_def)
qed

lemma leave_window_inv:
  assumes inv: "pq_inv I q" and p: "map_of (sidToTimerMap q) s = Some p"
  shows "pq_inv I (leave_window s p q)
    \<and> map fst (sidToTimerMap (leave_window s p q)) = removeAll s (map fst (sidToTimerMap q))
    \<and> p \<notin> snd ` set (sidToTimerMap (leave_window s p q)) \<and> s \<notin> in_window (leave_window s p q)"
proof -
  let ?del = "AList.delete s (sidToTimerMap q)"
  have d: "distinct (map fst (sidToTimerMap q))" "distinct (map snd (sidToTimerMap q))"
    using inv by (simp_all add: pq_inv_def)
  have sub: "set ?del \<subseteq> set (sidToTimerMap q)" by (auto simp: AList.delete_eq)
  have "distinct (map fst ?del)" "distinct (map snd ?del)"
    using d by (simp_all add: AList.distinct_delete) (auto simp: AList.delete_eq distinct_map inj_on_def)
  moreover have "p \<notin> snd ` set ?del"
  proof
    assume "p \<in> snd ` set ?del"
    then obtain a where "(a, p) \<in> set ?del" by force
    then have "(a, p) \<in> set (sidToTimerMap q)" "a \<noteq> s" by (auto simp: AList.delete_eq)
    moreover have "(s, p) \<in> set (sidToTimerMap q)" using p by (rule map_of_SomeD)
    ultimately show False using snd_unique [OF d(2)] by blast
  qed
  moreover have "timerToSidMap (leave_window s p q) = map (\<lambda>(s, p). (p, s)) ?del"
    using delete_both [OF d(2) p d(1)] inv by (simp add: leave_window_def pq_inv_def)
  moreover have "distinct (map tr_timer (rexmitQueue q) @ map snd ?del)"
      "distinct (unsentSidQueue q @ map tr_sid (rexmitQueue q) @ map fst ?del)"
    using distinct_shrink [OF pq_invD(5) [OF inv] calculation(2)] sub
      distinct_shrink [of "unsentSidQueue q @ map tr_sid (rexmitQueue q)" "map fst (sidToTimerMap q)", OF _ calculation(1)]
      pq_invD(4) [OF inv]
    by (simp_all add: image_mono)
  moreover have "map fst (sidRexmitCount (leave_window s p q)) = map fst ?del"
      "map fst (firstTransTime (leave_window s p q)) = map fst ?del"
    using delete_same_keys pq_invD(2,3) [OF inv] by (simp_all add: leave_window_def)
  moreover have "\<forall>(a, p) \<in> set ?del. owned q p (a \<in> I)" using pq_invD(7) [OF inv] sub by auto
  moreover have "sidToTimerMap (leave_window s p q) = ?del" "rexmitQueue (leave_window s p q) = rexmitQueue q"
      "unsentSidQueue (leave_window s p q) = unsentSidQueue q" "owned (leave_window s p q) = owned q"
    by (simp_all add: leave_window_def)
  moreover have "s \<notin> fst ` set ?del" by (rule AList.delete_notin_dom)
  ultimately show ?thesis
    using pq_invD(6) [OF inv] unfolding pq_inv_def in_window_def by (simp add: AList.delete_keys)
qed

lemma length_removeAll_distinct: "distinct xs \<Longrightarrow> x \<in> set xs \<Longrightarrow> length (removeAll x xs) + 1 = length xs"
  by (metis One_nat_def Suc_eq_plus1 distinct_remove1_removeAll length_pos_if_in_set length_remove1 Suc_pred)

text \<open>A request leaves the window for good; its timer must not run any more.\<close>

lemma pccp_discard_spec:
  assumes inv: "pq_inv I q" and s: "s \<in> in_window q" "s \<in> I"
  shows "\<exists>q'. pccp_discard s q = Inr q' \<and> pq_inv I q' \<and> unsentSidQueue q' = unsentSidQueue q
    \<and> rexmitQueue q' = rexmitQueue q \<and> map fst (sidToTimerMap q') = removeAll s (map fst (sidToTimerMap q))"
proof -
  obtain m where m: "m < pq_next q" "map_of (sidToTimerMap q) s = Some (Some m)" "pq_msgs q m = Idle"
    using pq_inv_window [OF inv s(1)] s(2) by auto
  let ?l = "leave_window s (Some m) q"
  let ?q = "?l\<lparr>pq_msgs := (pq_msgs q)(m := Deleted)\<rparr>"
  have l: "pq_inv I ?l" "map fst (sidToTimerMap ?l) = removeAll s (map fst (sidToTimerMap q))"
      "Some m \<notin> snd ` set (sidToTimerMap ?l)"
    using leave_window_inv [OF inv m(2)] by blast+
  have same: "unsentSidQueue ?l = unsentSidQueue q" "rexmitQueue ?l = rexmitQueue q" "pq_msgs ?l = pq_msgs q"
    by (simp_all add: leave_window_def)
  have other: "p \<noteq> Some m \<Longrightarrow> owned ?l p b \<Longrightarrow> owned ?q p b" for p b
    by (cases p) (auto simp: owned_Some same(3) leave_window_def, simp add: owned_def)
  have "(s, Some m) \<in> set (sidToTimerMap q)" using m(2) by (rule map_of_SomeD)
  then have "Some m \<notin> tr_timer ` set (rexmitQueue q)"
    using pq_invD(5) [OF inv] by force
  then have "\<forall>r \<in> set (rexmitQueue q). owned ?q (tr_timer r) True"
    using pq_invD(6) [OF l(1)] other same(2) by (metis image_eqI)
  moreover have "\<forall>(a, p) \<in> set (sidToTimerMap ?l). owned ?q p (a \<in> I)"
  proof (clarify)
    fix a p assume ap: "(a, p) \<in> set (sidToTimerMap ?l)"
    then have "p \<noteq> Some m" using l(3) by force
    then show "owned ?q p (a \<in> I)" using pq_invD(7) [OF l(1) ap] by (rule other)
  qed
  ultimately have "pq_inv I ?q"
    using l(1) same(2) unfolding pq_inv_def by simp
  moreover have "pccp_discard s q = Inr ?q"
    using m(2,3) same(3) by (simp add: pccp_discard_def delete_timer_def)
  ultimately show ?thesis using l(2) same by simp
qed

text \<open>A request is put back behind the others that wait for a retransmission.\<close>

lemma enqueueRexmit_spec:
  assumes inv: "pq_inv I q" and s: "s \<in> in_window q" "s \<in> I"
  shows "pq_inv I (enqueueRexmit s q) \<and> unsentSidQueue (enqueueRexmit s q) = unsentSidQueue q
    \<and> map tr_sid (rexmitQueue (enqueueRexmit s q)) = map tr_sid (rexmitQueue q) @ [s]
    \<and> map fst (sidToTimerMap (enqueueRexmit s q)) = removeAll s (map fst (sidToTimerMap q))"
proof -
  obtain m where m: "m < pq_next q" "map_of (sidToTimerMap q) s = Some (Some m)" "pq_msgs q m = Idle"
      "findRexmitTimer s q = Some m"
    using pq_inv_window [OF inv s(1)] s(2) by auto
  have "set (map fst (sidRexmitCount q)) = fst ` set (sidToTimerMap q)"
      "set (map fst (firstTransTime q)) = fst ` set (sidToTimerMap q)"
    unfolding pq_invD(2,3) [OF inv] by simp_all
  then have "s \<in> fst ` set (sidRexmitCount q)" "s \<in> fst ` set (firstTransTime q)"
    using s(1) by (simp_all add: in_window_def)
  then have "\<exists>c t. enqueueRexmit s q = (leave_window s (Some m) q)
      \<lparr>rexmitQueue := rexmitQueue q @ [\<lparr>tr_sid = s, tr_timer = Some m, tr_rexmit_count = c, tr_first_trans_time = t\<rparr>]\<rparr>"
    by (intro exI [of _ "the (map_of (sidRexmitCount q) s)"] exI [of _ "the (map_of (firstTransTime q) s)"])
      (simp add: enqueueRexmit_def getRexmitCount_def getFirstTransTime_def map_at_there m(4) leave_window_def Let_def)
  then obtain c t where eq: "enqueueRexmit s q = (leave_window s (Some m) q)
      \<lparr>rexmitQueue := rexmitQueue q @ [\<lparr>tr_sid = s, tr_timer = Some m, tr_rexmit_count = c, tr_first_trans_time = t\<rparr>]\<rparr>"
    by blast
  let ?l = "leave_window s (Some m) q"
  have l: "pq_inv I ?l" "map fst (sidToTimerMap ?l) = removeAll s (map fst (sidToTimerMap q))"
      "Some m \<notin> snd ` set (sidToTimerMap ?l)" "s \<notin> in_window ?l"
    using leave_window_inv [OF inv m(2)] by blast+
  have same: "unsentSidQueue ?l = unsentSidQueue q" "rexmitQueue ?l = rexmitQueue q" "pq_msgs ?l = pq_msgs q"
      "pq_next ?l = pq_next q"
    by (simp_all add: leave_window_def)
  have "(s, Some m) \<in> set (sidToTimerMap q)" using m(2) by (rule map_of_SomeD)
  then have "s \<in> fst ` set (sidToTimerMap q)" "Some m \<in> snd ` set (sidToTimerMap q)" by force+
  then have new: "Some m \<notin> tr_timer ` set (rexmitQueue q)" "s \<notin> tr_sid ` set (rexmitQueue q)" "s \<notin> set (unsentSidQueue q)"
    using pq_invD(4,5) [OF inv] unfolding distinct_append set_append set_map by blast+
  have sets: "set (unsentSidQueue q) \<inter> fst ` set (sidToTimerMap ?l) = {}"
    "tr_sid ` set (rexmitQueue q) \<inter> fst ` set (sidToTimerMap ?l) = {}"
    "tr_timer ` set (rexmitQueue q) \<inter> snd ` set (sidToTimerMap ?l) = {}"
    using pq_invD(4,5) [OF l(1)] same by auto
  have "owned ?l (Some m) True" using m same by (simp add: owned_Some)
  then have "pq_inv I (enqueueRexmit s q)"
    using l(1,3,4) new sets same unfolding eq pq_inv_def in_window_def by simp
  then show ?thesis using l(2) same by (simp add: eq)
qed

lemma increaseRexmitCount_spec:
  assumes inv: "pq_inv I q" and s: "s \<in> in_window q"
  shows "pq_inv I (increaseRexmitCount s q)
    \<and> sidToTimerMap (increaseRexmitCount s q) = sidToTimerMap q \<and> unsentSidQueue (increaseRexmitCount s q) = unsentSidQueue q
    \<and> rexmitQueue (increaseRexmitCount s q) = rexmitQueue q \<and> pq_msgs (increaseRexmitCount s q) = pq_msgs q"
proof -
  have keys: "set (map fst (sidRexmitCount q)) = fst ` set (sidToTimerMap q)"
    unfolding pq_invD(2) [OF inv] by simp
  then have there: "s \<in> fst ` set (sidRexmitCount q)" using s by (simp add: in_window_def)
  define c where "c = the (map_of (sidRexmitCount q) s) + 1"
  have eq: "increaseRexmitCount s q = q\<lparr>sidRexmitCount := AList.update s c (sidRexmitCount q)\<rparr>"
    by (simp add: increaseRexmitCount_def map_at_there [OF there] c_def)
  have "map fst (AList.update s c (sidRexmitCount q)) = map fst (sidRexmitCount q)"
    using there by (simp add: AList.update_keys)
  then have "pq_inv I (increaseRexmitCount s q)"
    using inv unfolding eq pq_inv_def by simp
  then show ?thesis by (simp add: eq)
qed

lemma getRexmitCount_window:
  assumes "pq_inv I q" and "s \<in> in_window q"
  shows "getRexmitCount s q = (the (map_of (sidRexmitCount q) s), q)"
    and "getFirstTransTime s q = (the (map_of (firstTransTime q) s), q)"
proof -
  have "set (map fst (sidRexmitCount q)) = fst ` set (sidToTimerMap q)"
      "set (map fst (firstTransTime q)) = fst ` set (sidToTimerMap q)"
    unfolding pq_invD(2,3) [OF assms(1)] by simp_all
  then have "s \<in> fst ` set (sidRexmitCount q)" "s \<in> fst ` set (firstTransTime q)"
    using assms(2) by (simp_all add: in_window_def)
  then show "getRexmitCount s q = (the (map_of (sidRexmitCount q) s), q)"
      "getFirstTransTime s q = (the (map_of (firstTransTime q) s), q)"
    by (simp_all add: getRexmitCount_def getFirstTransTime_def map_at_there)
qed

text \<open>Starting and stopping the timer of a request in the window.\<close>

lemma set_timer_inv:
  assumes inv: "pq_inv I q" and s: "s \<in> in_window q" and m: "findRexmitTimer s q = Some m"
    and idle: "if s \<in> J then tm = Idle else isScheduled tm" and same: "\<And>x. x \<noteq> s \<Longrightarrow> x \<in> J \<longleftrightarrow> x \<in> I"
  shows "pq_inv J (q\<lparr>pq_msgs := (pq_msgs q)(m := tm)\<rparr>)"
proof -
  let ?q = "q\<lparr>pq_msgs := (pq_msgs q)(m := tm)\<rparr>"
  obtain mem: "m < pq_next q" "map_of (sidToTimerMap q) s = Some (Some m)"
    using pq_inv_window [OF inv s] m by auto
  have there: "(s, Some m) \<in> set (sidToTimerMap q)" by (rule map_of_SomeD [OF mem(2)])
  have other: "p \<noteq> Some m \<Longrightarrow> owned q p b \<Longrightarrow> owned ?q p b" for p b
    by (cases p) (simp_all add: owned_Some, simp add: owned_def)
  have "\<forall>r \<in> set (rexmitQueue q). owned ?q (tr_timer r) True"
  proof
    fix r assume r: "r \<in> set (rexmitQueue q)"
    have "tr_timer r \<noteq> Some m" using pq_invD(5) [OF inv] r there by force
    then show "owned ?q (tr_timer r) True" using pq_invD(6) [OF inv r] by (rule other)
  qed
  moreover have "owned ?q p (a \<in> J)" if ap: "(a, p) \<in> set (sidToTimerMap q)" for a p
  proof (cases "a = s")
    case True
    then have "p = Some m" using ap mem(2) pq_invD(4) [OF inv] by (simp add: map_of_eq_Some_iff)
    then show ?thesis using mem(1) idle True by (simp add: owned_Some)
  next
    case False
    have "p \<noteq> Some m"
      using snd_unique [OF _ ap, of s] there False pq_invD(5) [OF inv] by auto
    then show ?thesis using pq_invD(7) [OF inv ap] same [OF False] other by simp
  qed
  ultimately show ?thesis
    using inv unfolding pq_inv_def by auto
qed

end
