(* ===== verification/Pccp_Alg.thy ===== *)
theory Pccp_Alg
  imports Pccp_Send_Queue Complex_Main
begin

text \<open>
  \<open>applications/pccpapp/PccpAlg.cc\<close> with \<open>PccpStateVariables\<close>: a window of requests that are
  under way, retransmission by timers with exponential backoff and Karn's algorithm, and a
  congestion window that follows the congestion level the data carry. \<open>double\<close>s are exact
  rational numbers here; \<open>gain\<close> is the simulator's product of the \<open>double\<close> 0.125 and a time,
  which it rounds. Statistics are left out.
\<close>

section \<open>State\<close>

datatype pccp_cl = FREE | BUSY_1 | BUSY_2 | CONGESTED

text \<open>What the algorithm does outside: a request to the network layer, and the two calls of the
  application.\<close>

datatype pccp_event = SendGET sid | MaxRexmit sid | DataArrived sid

record pccp_alg =
  rtsid :: sid
  rtsid_sendtime :: simtime
  pa_srtt :: simtime
  pa_rttvar :: simtime
  pa_rexmit_timeout :: simtime
  last_timeout_doubled_time :: simtime
  last_cong_rcvd :: simtime
  pa_window :: rat
  num_continuous_congested :: int
  sendQueue :: pccp_queue
  initialWindowSize :: int
  congestionControlEnabled :: bool
  maxRexmitLimit :: int
  pa_now :: simtime
  pa_log :: "pccp_event list"

type_synonym pccp_step = "pccp_alg \<Rightarrow> pccp_alg outcome"

definition milliseconds :: "int \<Rightarrow> simtime" where
  "milliseconds n = n * 10 ^ 9"

definition MAX_REXMIT_TIMEOUT :: simtime where "MAX_REXMIT_TIMEOUT = seconds 1"
definition MIN_REXMIT_TIMEOUT :: simtime where "MIN_REXMIT_TIMEOUT = milliseconds 500"
definition VERY_LARGE_WINDOW :: rat where "VERY_LARGE_WINDOW = 2000000000"

definition new_pccp_alg :: "int \<Rightarrow> bool \<Rightarrow> int \<Rightarrow> pccp_alg" where
  "new_pccp_alg initial enabled limit =
     \<lparr>rtsid = SID default_nid 0 0 0 0 0, rtsid_sendtime = 0, pa_srtt = 0, pa_rttvar = milliseconds 750,
      pa_rexmit_timeout = seconds 1, last_timeout_doubled_time = 0, last_cong_rcvd = 0, pa_window = 1,
      num_continuous_congested = 0, sendQueue = pccp_queue_new, initialWindowSize = initial,
      congestionControlEnabled = enabled, maxRexmitLimit = limit, pa_now = 0, pa_log = []\<rparr>"

definition initializeState :: "pccp_alg \<Rightarrow> pccp_alg" where
  "initializeState a = a\<lparr>pa_window :=
     (if \<not> congestionControlEnabled a then VERY_LARGE_WINDOW else of_int (initialWindowSize a))\<rparr>"

section \<open>Sending\<close>

definition pa_emit :: "pccp_event \<Rightarrow> pccp_alg \<Rightarrow> pccp_alg" where
  "pa_emit e a = a\<lparr>pa_log := pa_log a @ [e]\<rparr>"

definition with_queue :: "(pccp_queue \<Rightarrow> pccp_queue) \<Rightarrow> pccp_alg \<Rightarrow> pccp_alg" where
  "with_queue f a = a\<lparr>sendQueue := f (sendQueue a)\<rparr>"

text \<open>\<open>scheduleAt\<close> and \<open>cancelEvent\<close> on a timer of the queue.\<close>

definition scheduleTimeout :: "timer_ptr \<Rightarrow> simtime \<Rightarrow> pccp_step" where
  "scheduleTimeout p timeout a =
     (case p of
        None \<Rightarrow> Inl (RuntimeError ''scheduleAt(): message pointer is nullptr'')
      | Some m \<Rightarrow>
          bindE (schedule (pq_msgs (sendQueue a) m) (pa_now a + timeout)) (\<lambda>tm.
          Inr (with_queue (\<lambda>q. q\<lparr>pq_msgs := (pq_msgs q)(m := tm)\<rparr>) a)))"

definition cancelTimeout :: "nat \<Rightarrow> pccp_step" where
  "cancelTimeout m a =
     (if pq_msgs (sendQueue a) m = Deleted then Inl (UndefinedBehaviour ''cancelEvent: deleted message'')
      else Inr (with_queue (\<lambda>q. q\<lparr>pq_msgs := (pq_msgs q)(m := Idle)\<rparr>) a))"

definition effectiveWindow :: "pccp_alg \<Rightarrow> int" where
  "effectiveWindow a = \<lfloor>pa_window a\<rfloor> - getSentRequestCount (sendQueue a)"

definition requestSent :: "sid \<Rightarrow> bool \<Rightarrow> pccp_step" where
  "requestSent s isRexmit a =
     bindE (scheduleTimeout (findRexmitTimer s (sendQueue a)) (pa_rexmit_timeout a) a) (\<lambda>a1.
     Inr (if rtsid_sendtime a1 = 0 \<and> \<not> isRexmit then a1\<lparr>rtsid := s, rtsid_sendtime := pa_now a1\<rparr> else a1))"

text \<open>The two loops of \<open>sendRequestsToSocket\<close>; the counter is the effective window.\<close>

definition send_popped :: "bool \<Rightarrow> (pccp_queue \<Rightarrow> (sid \<times> pccp_queue) outcome) \<Rightarrow> pccp_step" where
  "send_popped isRexmit pop a =
     bindE (pop (sendQueue a)) (\<lambda>(s, q). requestSent s isRexmit (pa_emit (SendGET s) (a\<lparr>sendQueue := q\<rparr>)))"

fun send_loop :: "nat \<Rightarrow> bool \<Rightarrow> (pccp_queue \<Rightarrow> bool) \<Rightarrow> (pccp_queue \<Rightarrow> (sid \<times> pccp_queue) outcome)
    \<Rightarrow> pccp_alg \<Rightarrow> (nat \<times> pccp_alg) outcome" where
  "send_loop 0 isRexmit has pop a = Inr (0, a)"
| "send_loop (Suc k) isRexmit has pop a =
     (if has (sendQueue a) then bindE (send_popped isRexmit pop a) (send_loop k isRexmit has pop)
      else Inr (Suc k, a))"

definition sendRequestsToSocket :: pccp_step where
  "sendRequestsToSocket a =
     bindE (send_loop (nat (effectiveWindow a)) True hasUnsentRexmit popOneUnsentRexmit a) (\<lambda>(k, a1).
     bindE (send_loop k False hasUnsentSID (popOneUnsentSID (pa_now a1)) a1) (\<lambda>(k', a2). Inr a2))"

definition pccp_sendRequest :: "sid \<Rightarrow> pccp_step" where
  "pccp_sendRequest s a = sendRequestsToSocket (with_queue (enqueueRequest s) a)"

section \<open>A timer expires\<close>

definition retransmitRequest :: "sid \<Rightarrow> pccp_step" where
  "retransmitRequest s a =
     (if effectiveWindow a < 0 then Inr (with_queue (enqueueRexmit s) a)
      else scheduleTimeout (findRexmitTimer s (sendQueue a)) (pa_rexmit_timeout a) (pa_emit (SendGET s) a))"

definition back_off :: "pccp_alg \<Rightarrow> pccp_alg" where
  "back_off a =
     (if pa_now a > last_timeout_doubled_time a + pa_rexmit_timeout a then
        a\<lparr>pa_rexmit_timeout := min MAX_REXMIT_TIMEOUT (pa_rexmit_timeout a + pa_rexmit_timeout a),
          last_timeout_doubled_time := pa_now a\<rparr>
      else a)"

definition stop_measuring :: "sid \<Rightarrow> pccp_alg \<Rightarrow> pccp_alg" where
  "stop_measuring s a = (if rtsid_sendtime a \<noteq> 0 \<and> rtsid a = s then a\<lparr>rtsid_sendtime := 0\<rparr> else a)"

definition processRexmitTimer :: "nat \<Rightarrow> pccp_step" where
  "processRexmitTimer m a =
     bindE (findSID (Some m) (sendQueue a)) (\<lambda>s.
     let a1 = with_queue (increaseRexmitCount s) (stop_measuring s a);
         (count, q) = getRexmitCount s (sendQueue a1);
         a2 = a1\<lparr>sendQueue := q\<rparr>
     in if count > maxRexmitLimit a2 then
          bindE (pccp_discard s q) (\<lambda>q'. sendRequestsToSocket (pa_emit (MaxRexmit s) (a2\<lparr>sendQueue := q'\<rparr>)))
        else retransmitRequest s (back_off a2))"

section \<open>Data arrive\<close>

definition rttMeasurementComplete :: "(simtime \<Rightarrow> simtime) \<Rightarrow> simtime \<Rightarrow> simtime \<Rightarrow> pccp_alg \<Rightarrow> pccp_alg" where
  "rttMeasurementComplete gain timeSent timeReceived a =
     (let newRTT = timeReceived - timeSent; err = newRTT - pa_srtt a;
          srtt' = pa_srtt a + gain err; rttvar' = pa_rttvar a + gain (\<bar>err\<bar> - pa_rttvar a);
          rto = srtt' + 4 * rttvar'; rto1 = (if rto > MAX_REXMIT_TIMEOUT then MAX_REXMIT_TIMEOUT else rto)
      in a\<lparr>pa_srtt := srtt', pa_rttvar := rttvar',
           pa_rexmit_timeout := (if rto1 < MIN_REXMIT_TIMEOUT then MIN_REXMIT_TIMEOUT else rto1)\<rparr>)"

definition finish_measurement :: "(simtime \<Rightarrow> simtime) \<Rightarrow> sid \<Rightarrow> pccp_alg \<Rightarrow> pccp_alg" where
  "finish_measurement gain s a =
     (if rtsid_sendtime a \<noteq> 0 \<and> rtsid a = s
      then (rttMeasurementComplete gain (rtsid_sendtime a) (pa_now a) a)\<lparr>rtsid_sendtime := 0\<rparr> else a)"

definition request_answered :: "sid \<Rightarrow> pccp_step" where
  "request_answered s a =
     (case findRexmitTimer s (sendQueue a) of
        None \<Rightarrow> Inr a
      | Some m \<Rightarrow>
          let (first, q) = getFirstTransTime s (sendQueue a) in
          bindE (cancelTimeout m (a\<lparr>sendQueue := q\<rparr>)) (\<lambda>a1.
          bindE (pccp_discard s (sendQueue a1)) (\<lambda>q'. Inr (a1\<lparr>sendQueue := q'\<rparr>))))"

definition adjust_window :: "pccp_cl \<Rightarrow> pccp_alg \<Rightarrow> pccp_alg" where
  "adjust_window cl a =
     (case cl of
        FREE \<Rightarrow> a\<lparr>pa_window := pa_window a + 1 / pa_window a\<rparr>
      | BUSY_1 \<Rightarrow> a\<lparr>pa_window := pa_window a + (1 / 2) / pa_window a\<rparr>
      | BUSY_2 \<Rightarrow> a\<lparr>pa_window := pa_window a - 1 / pa_window a\<rparr>
      | CONGESTED \<Rightarrow>
          if pa_now a > last_cong_rcvd a + pa_srtt a
          then a\<lparr>last_cong_rcvd := pa_now a, pa_window := pa_window a * (1 / 2)\<rparr> else a)"

definition limit_window :: "pccp_alg \<Rightarrow> pccp_alg" where
  "limit_window a =
     (let a1 = (if pa_window a < 1 then a\<lparr>pa_window := 1\<rparr> else a)
      in if \<not> congestionControlEnabled a1 then a1\<lparr>pa_window := VERY_LARGE_WINDOW\<rparr> else a1)"

definition count_congested :: "pccp_cl \<Rightarrow> pccp_alg \<Rightarrow> pccp_alg" where
  "count_congested cl a =
     a\<lparr>num_continuous_congested := (if cl \<noteq> CONGESTED then 0 else num_continuous_congested a + 1)\<rparr>"

definition pccp_dataReceived :: "(simtime \<Rightarrow> simtime) \<Rightarrow> sid \<Rightarrow> pccp_cl \<Rightarrow> pccp_step" where
  "pccp_dataReceived gain s cl a =
     bindE (request_answered s (finish_measurement gain s a)) (\<lambda>a1.
     bindE (sendRequestsToSocket (limit_window (adjust_window cl (count_congested cl a1)))) (\<lambda>a2.
     Inr (pa_emit (DataArrived s) a2)))"

section \<open>What sending needs of the queue\<close>

definition keys :: "pccp_alg \<Rightarrow> sid list" where
  "keys a = map fst (sidToTimerMap (sendQueue a))"

definition retries :: "pccp_queue \<Rightarrow> sid list" where
  "retries q = map tr_sid (rexmitQueue q)"

text \<open>What no sending changes.\<close>

definition same_control :: "pccp_alg \<Rightarrow> pccp_alg \<Rightarrow> bool" where
  "same_control a b \<longleftrightarrow> pa_window b = pa_window a \<and> pa_rexmit_timeout b = pa_rexmit_timeout a
     \<and> congestionControlEnabled b = congestionControlEnabled a \<and> maxRexmitLimit b = maxRexmitLimit a
     \<and> pa_now b = pa_now a"

lemma same_control_trans: "same_control a b \<Longrightarrow> same_control b c \<Longrightarrow> same_control a c"
  by (simp add: same_control_def)

text \<open>
  A source of requests: the queue of those never sent, or of those that wait to be sent again.
  \<open>rest\<close> is the other one.
\<close>

locale request_source =
  fixes has :: "pccp_queue \<Rightarrow> bool" and pop :: "pccp_queue \<Rightarrow> (sid \<times> pccp_queue) outcome"
    and todo :: "pccp_queue \<Rightarrow> sid list" and rest :: "pccp_queue \<Rightarrow> sid list"
  assumes has_iff: "has q \<longleftrightarrow> todo q \<noteq> []"
    and pop_ok: "pq_inv I q \<Longrightarrow> todo q = s # ss \<Longrightarrow>
      \<exists>q'. pop q = Inr (s, q') \<and> pq_inv (insert s I) q' \<and> todo q' = ss \<and> rest q' = rest q
         \<and> map fst (sidToTimerMap q') = s # map fst (sidToTimerMap q)"
    and todo_msgs: "todo (q\<lparr>pq_msgs := x\<rparr>) = todo q" "rest (q\<lparr>pq_msgs := x\<rparr>) = rest q"
begin

text \<open>The next request enters the window and its timer is started.\<close>

lemma send_popped_ok:
  assumes inv: "pq_inv {} (sendQueue a)" and todo: "todo (sendQueue a) = s # ss"
  shows "\<exists>a'. send_popped isRexmit pop a = Inr a' \<and> pq_inv {} (sendQueue a') \<and> todo (sendQueue a') = ss
    \<and> rest (sendQueue a') = rest (sendQueue a) \<and> keys a' = s # keys a
    \<and> pa_log a' = pa_log a @ [SendGET s] \<and> same_control a a'"
proof -
  obtain q where q: "pop (sendQueue a) = Inr (s, q)" "pq_inv {s} q" "todo q = ss" "rest q = rest (sendQueue a)"
      "map fst (sidToTimerMap q) = s # map fst (sidToTimerMap (sendQueue a))"
    using pop_ok [OF inv todo] by auto
  have "fst ` set (sidToTimerMap q) = set (map fst (sidToTimerMap q))" by simp
  then have s: "s \<in> in_window q" unfolding in_window_def q(5) by simp
  obtain m where m: "findRexmitTimer s q = Some m" "pq_msgs q m = Idle"
    using pq_inv_window [OF q(2) s] by auto
  define q' where "q' = q\<lparr>pq_msgs := (pq_msgs q)(m := Scheduled (pa_now a + pa_rexmit_timeout a))\<rparr>"
  have inv': "pq_inv {} q'"
    unfolding q'_def by (rule set_timer_inv [OF q(2) s m(1)]) simp_all
  define a1 where "a1 = (pa_emit (SendGET s) (a\<lparr>sendQueue := q\<rparr>))\<lparr>sendQueue := q'\<rparr>"
  define a' where "a' = (if rtsid_sendtime a1 = 0 \<and> \<not> isRexmit then a1\<lparr>rtsid := s, rtsid_sendtime := pa_now a1\<rparr> else a1)"
  have "send_popped isRexmit pop a = Inr a'"
    using q(1) m by (simp add: send_popped_def requestSent_def scheduleTimeout_def with_queue_def pa_emit_def
        a'_def a1_def q'_def)
  moreover have "sendQueue a' = q'" "pa_log a' = pa_log a @ [SendGET s]" "same_control a a'"
    by (simp_all add: a'_def a1_def pa_emit_def same_control_def)
  moreover have "todo q' = ss" "rest q' = rest (sendQueue a)" "map fst (sidToTimerMap q') = s # keys a"
    using q by (simp_all add: q'_def todo_msgs keys_def)
  ultimately show ?thesis using inv' by (auto simp: keys_def)
qed

text \<open>The loop sends the first \<open>k\<close> requests of the source, or all of them.\<close>

lemma send_loop_ok:
  "pq_inv {} (sendQueue a) \<Longrightarrow>
   \<exists>a'. send_loop k isRexmit has pop a = Inr (k - length (todo (sendQueue a)), a') \<and> pq_inv {} (sendQueue a')
     \<and> todo (sendQueue a') = drop k (todo (sendQueue a)) \<and> rest (sendQueue a') = rest (sendQueue a)
     \<and> keys a' = rev (take k (todo (sendQueue a))) @ keys a
     \<and> pa_log a' = pa_log a @ map SendGET (take k (todo (sendQueue a))) \<and> same_control a a'"
proof (induction k arbitrary: a)
  case (Suc k)
  show ?case
  proof (cases "todo (sendQueue a)")
    case Nil
    then show ?thesis using Suc.prems by (simp add: has_iff same_control_def)
  next
    case (Cons s ss)
    obtain a1 where a1: "send_popped isRexmit pop a = Inr a1" "pq_inv {} (sendQueue a1)" "todo (sendQueue a1) = ss"
        "rest (sendQueue a1) = rest (sendQueue a)" "keys a1 = s # keys a"
        "pa_log a1 = pa_log a @ [SendGET s]" "same_control a a1"
      using send_popped_ok [OF Suc.prems Cons] by blast
    show ?thesis
      using Suc.IH [OF a1(2)] a1 Cons same_control_trans by (auto simp: has_iff)
  qed
qed (simp add: same_control_def)

end

interpretation again: request_source hasUnsentRexmit popOneUnsentRexmit retries unsentSidQueue
proof
  fix I q s ss
  assume inv: "pq_inv I q" and todo: "retries q = s # ss"
  obtain r rs where q: "rexmitQueue q = r # rs" using todo by (cases "rexmitQueue q") (auto simp: retries_def)
  show "\<exists>q'. popOneUnsentRexmit q = Inr (s, q') \<and> pq_inv (insert s I) q' \<and> retries q' = ss
      \<and> unsentSidQueue q' = unsentSidQueue q \<and> map fst (sidToTimerMap q') = s # map fst (sidToTimerMap q)"
    using popOneUnsentRexmit_spec [OF inv q] todo by (auto simp: retries_def q)
qed (simp_all add: hasUnsentRexmit_def retries_def)

interpretation first: request_source hasUnsentSID "popOneUnsentSID now" unsentSidQueue retries for now
proof
  fix I q s ss
  assume inv: "pq_inv I q" and todo: "unsentSidQueue q = s # ss"
  show "\<exists>q'. popOneUnsentSID now q = Inr (s, q') \<and> pq_inv (insert s I) q' \<and> unsentSidQueue q' = ss
      \<and> retries q' = retries q \<and> map fst (sidToTimerMap q') = s # map fst (sidToTimerMap q)"
    using popOneUnsentSID_spec [OF inv todo, of now] by (auto simp: retries_def)
qed (simp_all add: hasUnsentSID_def retries_def)

section \<open>Sending fills the window\<close>

definition pending :: "pccp_alg \<Rightarrow> sid list" where
  "pending a = retries (sendQueue a) @ unsentSidQueue (sendQueue a)"

lemma sendRequestsToSocket_spec:
  assumes "pq_inv {} (sendQueue a)"
  shows "\<exists>a'. sendRequestsToSocket a = Inr a' \<and> pq_inv {} (sendQueue a')
    \<and> pending a' = drop (nat (effectiveWindow a)) (pending a)
    \<and> keys a' = rev (take (nat (effectiveWindow a)) (pending a)) @ keys a
    \<and> pa_log a' = pa_log a @ map SendGET (take (nat (effectiveWindow a)) (pending a)) \<and> same_control a a'"
proof -
  let ?k = "nat (effectiveWindow a)"
  obtain a1 where a1: "send_loop ?k True hasUnsentRexmit popOneUnsentRexmit a
        = Inr (?k - length (retries (sendQueue a)), a1)"
      "pq_inv {} (sendQueue a1)" "retries (sendQueue a1) = drop ?k (retries (sendQueue a))"
      "unsentSidQueue (sendQueue a1) = unsentSidQueue (sendQueue a)"
      "keys a1 = rev (take ?k (retries (sendQueue a))) @ keys a"
      "pa_log a1 = pa_log a @ map SendGET (take ?k (retries (sendQueue a)))" "same_control a a1"
    using again.send_loop_ok [OF assms, of ?k True] by blast
  let ?j = "?k - length (retries (sendQueue a))"
  obtain a2 where a2: "send_loop ?j False hasUnsentSID (popOneUnsentSID (pa_now a1)) a1
        = Inr (?j - length (unsentSidQueue (sendQueue a1)), a2)"
      "pq_inv {} (sendQueue a2)" "unsentSidQueue (sendQueue a2) = drop ?j (unsentSidQueue (sendQueue a1))"
      "retries (sendQueue a2) = retries (sendQueue a1)"
      "keys a2 = rev (take ?j (unsentSidQueue (sendQueue a1))) @ keys a1"
      "pa_log a2 = pa_log a1 @ map SendGET (take ?j (unsentSidQueue (sendQueue a1)))" "same_control a1 a2"
    using first.send_loop_ok [OF a1(2), of ?j False "pa_now a1"] by blast
  have "sendRequestsToSocket a = Inr a2"
    by (simp add: sendRequestsToSocket_def a1(1) a2(1))
  moreover have "pending a2 = drop ?k (pending a)"
    by (simp add: pending_def a1(3,4) a2(3,4))
  moreover have "keys a2 = rev (take ?k (pending a)) @ keys a" "pa_log a2 = pa_log a @ map SendGET (take ?k (pending a))"
    by (simp_all add: pending_def a1(4,5,6) a2(5,6))
  ultimately show ?thesis using a2(2) same_control_trans [OF a1(7) a2(7)] by blast
qed

section \<open>The invariant of the algorithm\<close>

text \<open>
  The window and the timeout stay in their bounds, every request in the window has a running
  timer, and no request is held back while the window has room.
\<close>

definition control_ok :: "pccp_alg \<Rightarrow> bool" where
  "control_ok a \<longleftrightarrow> 1 \<le> pa_window a \<and> MIN_REXMIT_TIMEOUT \<le> pa_rexmit_timeout a \<and> pa_rexmit_timeout a \<le> MAX_REXMIT_TIMEOUT"

definition alg_inv :: "pccp_alg \<Rightarrow> bool" where
  "alg_inv a \<longleftrightarrow> pq_inv {} (sendQueue a) \<and> control_ok a
     \<and> (pending a \<noteq> [] \<longrightarrow> \<lfloor>pa_window a\<rfloor> \<le> int (length (keys a)))"

definition tracked :: "pccp_alg \<Rightarrow> sid set" where
  "tracked a = set (pending a) \<union> set (keys a)"

lemma sent_count: "getSentRequestCount (sendQueue a) = int (length (keys a))"
  by (simp add: getSentRequestCount_def keys_def)

lemma in_window_keys: "s \<in> in_window (sendQueue a) \<longleftrightarrow> s \<in> set (keys a)"
  by (simp add: in_window_def keys_def)

lemma tracked_places: "tracked a = unsent (sendQueue a) \<union> waiting (sendQueue a) \<union> in_window (sendQueue a)"
  by (auto simp: tracked_def pending_def retries_def keys_def pq_places)

lemma queue_same: "sendQueue b = sendQueue a \<Longrightarrow> pending b = pending a \<and> keys b = keys a \<and> tracked b = tracked a"
  by (simp add: pending_def keys_def tracked_def)

lemma fill_window:
  assumes "pq_inv {} (sendQueue a)" and "control_ok a"
  shows "\<exists>a'. sendRequestsToSocket a = Inr a' \<and> alg_inv a' \<and> tracked a' = tracked a
    \<and> set (pa_log a) \<subseteq> set (pa_log a') \<and> same_control a a'"
proof -
  let ?k = "nat (effectiveWindow a)"
  obtain a' where a': "sendRequestsToSocket a = Inr a'" "pq_inv {} (sendQueue a')" "pending a' = drop ?k (pending a)"
      "keys a' = rev (take ?k (pending a)) @ keys a" "pa_log a' = pa_log a @ map SendGET (take ?k (pending a))"
      "same_control a a'"
    using sendRequestsToSocket_spec [OF assms(1)] by blast
  have "\<lfloor>pa_window a\<rfloor> \<le> int (length (keys a'))" if "pending a' \<noteq> []"
  proof -
    have "?k < length (pending a)" using that a'(3) by simp
    then have "length (keys a') = ?k + length (keys a)" by (simp add: a'(4))
    then show ?thesis by (simp add: effectiveWindow_def sent_count)
  qed
  moreover have "tracked a' = tracked a"
    unfolding tracked_def a'(3,4) by (simp add: Un_assoc [symmetric])
      (metis append_take_drop_id set_append sup_commute)
  moreover have "control_ok a'" "pa_window a' = pa_window a"
    using a'(6) assms(2) by (simp_all add: control_ok_def same_control_def)
  ultimately show ?thesis using a' by (auto simp: alg_inv_def)
qed

lemma pccp_sendRequest_ok:
  assumes "alg_inv a" and "s \<notin> tracked a"
  shows "\<exists>a'. pccp_sendRequest s a = Inr a' \<and> alg_inv a' \<and> tracked a' = insert s (tracked a)
    \<and> set (pa_log a) \<subseteq> set (pa_log a')"
proof -
  let ?a = "with_queue (enqueueRequest s) a"
  have "pq_inv {} (sendQueue ?a)" "control_ok ?a"
    using enqueueRequest_inv [of "{}" "sendQueue a" s] assms
    by (simp_all add: alg_inv_def tracked_places with_queue_def control_ok_def)
  from fill_window [OF this] show ?thesis
    by (auto simp: pccp_sendRequest_def with_queue_def enqueueRequest_def tracked_def pending_def retries_def keys_def)
qed

lemma stop_measuring_frame [simp]:
  "sendQueue (stop_measuring s a) = sendQueue a" "pa_window (stop_measuring s a) = pa_window a"
  "pa_rexmit_timeout (stop_measuring s a) = pa_rexmit_timeout a" "pa_log (stop_measuring s a) = pa_log a"
  by (simp_all add: stop_measuring_def)

lemma back_off_frame [simp]:
  "sendQueue (back_off a) = sendQueue a" "pa_window (back_off a) = pa_window a" "pa_log (back_off a) = pa_log a"
  by (simp_all add: back_off_def)

lemma back_off_control: "control_ok a \<Longrightarrow> control_ok (back_off a)"
  by (auto simp: control_ok_def back_off_def MIN_REXMIT_TIMEOUT_def MAX_REXMIT_TIMEOUT_def milliseconds_def seconds_def)

text \<open>A retransmission, or the request goes back to wait when the window has shrunk.\<close>

lemma retransmitRequest_ok:
  assumes inv: "pq_inv {s} (sendQueue a)" and ctl: "control_ok a" and s: "s \<in> set (keys a)"
    and full: "pending a \<noteq> [] \<longrightarrow> \<lfloor>pa_window a\<rfloor> \<le> int (length (keys a))"
  shows "\<exists>a'. retransmitRequest s a = Inr a' \<and> alg_inv a' \<and> tracked a' = tracked a \<and> set (pa_log a) \<subseteq> set (pa_log a')"
proof (cases "effectiveWindow a < 0")
  case True
  let ?q = "enqueueRexmit s (sendQueue a)"
  have win: "s \<in> in_window (sendQueue a)" using s by (simp add: in_window_keys)
  have q: "pq_inv {s} ?q" "unsentSidQueue ?q = unsentSidQueue (sendQueue a)" "retries ?q = retries (sendQueue a) @ [s]"
      "map fst (sidToTimerMap ?q) = removeAll s (keys a)"
    using enqueueRexmit_spec [OF inv win] by (simp_all add: retries_def keys_def)
  have "set (map fst (sidToTimerMap ?q)) = set (keys a) - {s}" unfolding q(4) by simp
  then have "s \<notin> in_window ?q" by (simp add: in_window_def)
  then have "pq_inv {} ?q" using q(1) pq_inv_cong [of ?q "{s}" "{}"] by auto
  moreover have "int (length (removeAll s (keys a))) + 1 = int (length (keys a))"
  proof -
    have "distinct (keys a)" using inv by (simp add: keys_def pq_inv_def)
    then show ?thesis using length_removeAll_distinct [of "keys a" s] s by simp
  qed
  moreover have "\<lfloor>pa_window a\<rfloor> < int (length (keys a))" using True by (simp add: effectiveWindow_def sent_count)
  ultimately have "alg_inv (with_queue (enqueueRexmit s) a)"
    using ctl q(4) by (simp add: alg_inv_def control_ok_def with_queue_def keys_def)
  moreover have "tracked (with_queue (enqueueRexmit s) a) = tracked a"
    using q s by (auto simp: tracked_def pending_def keys_def with_queue_def)
  ultimately show ?thesis using True by (simp add: retransmitRequest_def with_queue_def)
next
  case False
  obtain m where m: "findRexmitTimer s (sendQueue a) = Some m" "pq_msgs (sendQueue a) m = Idle"
    using pq_inv_window [OF inv, of s] s by (auto simp: in_window_keys)
  define q where "q = (sendQueue a)\<lparr>pq_msgs := (pq_msgs (sendQueue a))(m := Scheduled (pa_now a + pa_rexmit_timeout a))\<rparr>"
  have "pq_inv {} q"
    unfolding q_def by (rule set_timer_inv [OF inv _ m(1)]) (use s in \<open>simp_all add: in_window_keys\<close>)
  then have "alg_inv ((pa_emit (SendGET s) a)\<lparr>sendQueue := q\<rparr>)"
    using ctl full by (simp add: alg_inv_def control_ok_def pa_emit_def pending_def keys_def q_def retries_def)
  moreover have "retransmitRequest s a = Inr ((pa_emit (SendGET s) a)\<lparr>sendQueue := q\<rparr>)"
    using False m by (simp add: retransmitRequest_def scheduleTimeout_def with_queue_def pa_emit_def q_def)
  ultimately show ?thesis
    by (auto simp: tracked_def pending_def keys_def q_def retries_def pa_emit_def)
qed

text \<open>The timer of a request expires: the simulator has made it idle.\<close>

definition timer_expires :: "nat \<Rightarrow> pccp_alg \<Rightarrow> pccp_alg" where
  "timer_expires m a = with_queue (\<lambda>q. q\<lparr>pq_msgs := (pq_msgs q)(m := Idle)\<rparr>) a"

lemma processRexmitTimer_ok:
  assumes inv: "alg_inv a" and m: "findRexmitTimer s (sendQueue a) = Some m"
  shows "\<exists>a'. processRexmitTimer m (timer_expires m a) = Inr a' \<and> alg_inv a' \<and> tracked a' \<subseteq> tracked a
    \<and> tracked a \<subseteq> tracked a' \<union> {x. MaxRexmit x \<in> set (pa_log a')} \<and> set (pa_log a) \<subseteq> set (pa_log a')"
proof -
  have pq: "pq_inv {} (sendQueue a)" and ctl: "control_ok a" using inv by (simp_all add: alg_inv_def)
  have s: "s \<in> in_window (sendQueue a)" using m findRexmitTimer_outside by fastforce
  define q where "q = (sendQueue a)\<lparr>pq_msgs := (pq_msgs (sendQueue a))(m := Idle)\<rparr>"
  have inv1: "pq_inv {s} q" unfolding q_def by (rule set_timer_inv [OF pq s m]) simp_all
  have s1: "s \<in> in_window q" using s by (simp add: in_window_def q_def)
  have find: "findSID (Some m) q = Inr s"
    using pq_inv_window [OF pq s] m by (simp add: findSID_def q_def)
  define q1 where "q1 = increaseRexmitCount s q"
  have q1: "pq_inv {s} q1" "sidToTimerMap q1 = sidToTimerMap (sendQueue a)"
      "unsentSidQueue q1 = unsentSidQueue (sendQueue a)" "rexmitQueue q1 = rexmitQueue (sendQueue a)"
    using increaseRexmitCount_spec [OF inv1 s1] by (simp_all add: q1_def q_def)
  have s2: "s \<in> in_window q1" using s q1(2) by (simp add: in_window_def)
  obtain count where count: "getRexmitCount s q1 = (count, q1)" using getRexmitCount_window(1) [OF q1(1) s2] by blast
  define a1 where "a1 = (stop_measuring s (timer_expires m a))\<lparr>sendQueue := q1\<rparr>"
  have a1: "sendQueue a1 = q1" "pa_log a1 = pa_log a" "control_ok a1" "pa_window a1 = pa_window a"
    using ctl by (simp_all add: a1_def timer_expires_def with_queue_def control_ok_def)
  have lists: "pending a1 = pending a" "keys a1 = keys a" "tracked a1 = tracked a"
    using q1 a1(1) by (simp_all add: pending_def retries_def keys_def tracked_def)
  have run: "processRexmitTimer m (timer_expires m a) =
      (if count > maxRexmitLimit a1 then
          bindE (pccp_discard s q1) (\<lambda>q'. sendRequestsToSocket (pa_emit (MaxRexmit s) (a1\<lparr>sendQueue := q'\<rparr>)))
        else retransmitRequest s (back_off a1))"
    by (simp add: processRexmitTimer_def timer_expires_def with_queue_def find [unfolded q_def]
        count Let_def a1_def q1_def [unfolded q_def, symmetric])
  show ?thesis
  proof (cases "count > maxRexmitLimit a1")
    case True
    obtain q2 where q2: "pccp_discard s q1 = Inr q2" "pq_inv {s} q2" "unsentSidQueue q2 = unsentSidQueue q1"
        "rexmitQueue q2 = rexmitQueue q1" "map fst (sidToTimerMap q2) = removeAll s (map fst (sidToTimerMap q1))"
      using pccp_discard_spec [OF q1(1) s2] by auto
    let ?a2 = "pa_emit (MaxRexmit s) (a1\<lparr>sendQueue := q2\<rparr>)"
    have a2: "sendQueue ?a2 = q2" "set (pa_log ?a2) = insert (MaxRexmit s) (set (pa_log a))" "control_ok ?a2"
      using a1 by (simp_all add: pa_emit_def control_ok_def)
    have keys2: "keys ?a2 = removeAll s (keys a)" "pending ?a2 = pending a"
      using q2 q1 by (simp_all add: keys_def pending_def retries_def a2(1))
    then have "s \<notin> in_window q2" using in_window_keys [of s ?a2] a2(1) by simp
    then have "pq_inv {} (sendQueue ?a2)" using q2(2) pq_inv_cong [of q2 "{s}" "{}"] a2(1) by auto
    from fill_window [OF this a2(3)] obtain a' where
      "sendRequestsToSocket ?a2 = Inr a'" "alg_inv a'" "tracked a' = tracked ?a2" "set (pa_log ?a2) \<subseteq> set (pa_log a')"
      by blast
    moreover have "tracked ?a2 \<subseteq> tracked a" "tracked a \<subseteq> insert s (tracked ?a2)"
      using keys2 by (auto simp: tracked_def)
    ultimately show ?thesis using True run q2(1) a2(2) by (auto simp del: set_removeAll)
  next
    case False
    have "s \<in> set (keys (back_off a1))" "pq_inv {s} (sendQueue (back_off a1))" "control_ok (back_off a1)"
        "pending (back_off a1) \<noteq> [] \<longrightarrow> \<lfloor>pa_window (back_off a1)\<rfloor> \<le> int (length (keys (back_off a1)))"
      using s2 q1(1) a1 back_off_control [OF a1(3)] in_window_keys [of s "back_off a1"] inv lists(1,2)
        queue_same [of "back_off a1" a1] by (simp_all add: alg_inv_def)
    from retransmitRequest_ok [OF this(2,3,1,4)] show ?thesis
      using False run lists a1(2) queue_same [of "back_off a1" a1] by auto
  qed
qed

lemma finish_measurement_frame [simp]:
  "sendQueue (finish_measurement gain s a) = sendQueue a" "pa_log (finish_measurement gain s a) = pa_log a"
  "pa_window (finish_measurement gain s a) = pa_window a"
  by (simp_all add: finish_measurement_def rttMeasurementComplete_def Let_def)

lemma rtt_control: "control_ok a \<Longrightarrow> control_ok (finish_measurement gain s a)"
  by (simp add: control_ok_def finish_measurement_def rttMeasurementComplete_def Let_def
      MIN_REXMIT_TIMEOUT_def MAX_REXMIT_TIMEOUT_def milliseconds_def seconds_def)

lemma adjusted_frame [simp]:
  "sendQueue (limit_window (adjust_window cl (count_congested cl a))) = sendQueue a"
  "pa_log (limit_window (adjust_window cl (count_congested cl a))) = pa_log a"
  "pa_rexmit_timeout (limit_window (adjust_window cl (count_congested cl a))) = pa_rexmit_timeout a"
  by (simp_all add: limit_window_def adjust_window_def count_congested_def Let_def split: pccp_cl.split)

lemma limit_window_least: "1 \<le> pa_window (limit_window a)"
  by (simp add: limit_window_def Let_def VERY_LARGE_WINDOW_def)

lemma request_answered_ok:
  assumes pq: "pq_inv {} (sendQueue a)"
  shows "\<exists>q. request_answered s a = Inr (a\<lparr>sendQueue := q\<rparr>) \<and> pq_inv {} q
    \<and> retries q = retries (sendQueue a) \<and> unsentSidQueue q = unsentSidQueue (sendQueue a)
    \<and> map fst (sidToTimerMap q) = removeAll s (keys a)"
proof (cases "s \<in> in_window (sendQueue a)")
  case False
  then have "a = a\<lparr>sendQueue := sendQueue a\<rparr>" "removeAll s (keys a) = keys a"
    by (simp_all add: in_window_keys)
  then show ?thesis
    using pq findRexmitTimer_outside [OF False] by (auto simp: request_answered_def keys_def intro!: exI [of _ "sendQueue a"])
next
  case True
  obtain m where m: "findRexmitTimer s (sendQueue a) = Some m" "isScheduled (pq_msgs (sendQueue a) m)"
    using pq_inv_window [OF pq True] by auto
  define q where "q = (sendQueue a)\<lparr>pq_msgs := (pq_msgs (sendQueue a))(m := Idle)\<rparr>"
  have inv1: "pq_inv {s} q" unfolding q_def by (rule set_timer_inv [OF pq True m(1)]) simp_all
  have s1: "s \<in> in_window q" using True by (simp add: in_window_def q_def)
  obtain q' where q': "pccp_discard s q = Inr q'" "pq_inv {s} q'" "unsentSidQueue q' = unsentSidQueue q"
      "rexmitQueue q' = rexmitQueue q" "map fst (sidToTimerMap q') = removeAll s (map fst (sidToTimerMap q))"
    using pccp_discard_spec [OF inv1 s1] by auto
  have "set (map fst (sidToTimerMap q')) = set (map fst (sidToTimerMap q)) - {s}" unfolding q'(5) by simp
  then have "s \<notin> in_window q'" by (simp add: in_window_def)
  then have "pq_inv {} q'" using q'(2) pq_inv_cong [of q' "{s}" "{}"] by auto
  moreover have "request_answered s a = Inr (a\<lparr>sendQueue := q'\<rparr>)"
    using m q'(1) getRexmitCount_window(2) [OF pq True]
    by (auto simp: request_answered_def cancelTimeout_def with_queue_def q_def)
  ultimately show ?thesis using q'(3-5) by (auto simp: q_def retries_def keys_def)
qed

lemma pccp_dataReceived_ok:
  assumes inv: "alg_inv a"
  shows "\<exists>a'. pccp_dataReceived gain s cl a = Inr a' \<and> alg_inv a' \<and> tracked a' = set (pending a) \<union> (set (keys a) - {s})
    \<and> DataArrived s \<in> set (pa_log a') \<and> set (pa_log a) \<subseteq> set (pa_log a')"
proof -
  let ?b = "finish_measurement gain s a"
  have pq: "pq_inv {} (sendQueue ?b)" and ctl: "control_ok ?b"
    using inv rtt_control [of a gain s] by (simp_all add: alg_inv_def)
  obtain q where q: "request_answered s ?b = Inr (?b\<lparr>sendQueue := q\<rparr>)" "pq_inv {} q"
      "retries q = retries (sendQueue a)" "unsentSidQueue q = unsentSidQueue (sendQueue a)"
      "map fst (sidToTimerMap q) = removeAll s (keys a)"
    using request_answered_ok [OF pq, of s] by (auto simp: keys_def)
  let ?c = "limit_window (adjust_window cl (count_congested cl (?b\<lparr>sendQueue := q\<rparr>)))"
  have "control_ok ?c" using ctl limit_window_least by (simp add: control_ok_def)
  with q(2) obtain a' where a': "sendRequestsToSocket ?c = Inr a'" "alg_inv a'" "tracked a' = tracked ?c"
      "set (pa_log ?c) \<subseteq> set (pa_log a')"
    using fill_window [of ?c] by auto
  have "tracked ?c = set (pending a) \<union> (set (keys a) - {s})"
    using q(3-5) by (simp add: tracked_def pending_def keys_def)
  moreover have "alg_inv (pa_emit (DataArrived s) a')" "tracked (pa_emit (DataArrived s) a') = tracked a'"
    using a'(2) queue_same [of "pa_emit (DataArrived s) a'" a']
    by (simp_all add: alg_inv_def control_ok_def pa_emit_def)
  ultimately show ?thesis
    using q(1) a' by (auto simp: pccp_dataReceived_def pa_emit_def)
qed

lemma new_pccp_alg_inv: "1 \<le> initial \<Longrightarrow> alg_inv (initializeState (new_pccp_alg initial enabled limit))
    \<and> tracked (initializeState (new_pccp_alg initial enabled limit)) = {}"
  by (simp add: alg_inv_def control_ok_def initializeState_def new_pccp_alg_def pccp_queue_new_inv pending_def retries_def
      tracked_def keys_def pccp_queue_new_def VERY_LARGE_WINDOW_def
      MIN_REXMIT_TIMEOUT_def MAX_REXMIT_TIMEOUT_def milliseconds_def seconds_def flip: pccp_queue_new_def)
    (simp add: pccp_queue_new_def)

end
