(* ===== verification/Pccp_App.thy ===== *)
theory Pccp_App
  imports Pccp_Alg
begin

text \<open>
  \<open>applications/pccpapp/PccpApp.cc\<close> and \<open>PccpIoTApp.cc\<close>: an application that requests the
  objects \<open>0, 1, ...\<close> of one provider, one after the other. \<open>mk\<close> is the constructor of
  content identifiers, which hashes the index of the provider and the number of the object;
  the random interval to the next request is an argument of the handlers.
\<close>

section \<open>State and handlers\<close>

record pccp_app =
  app_alg :: pccp_alg
  app_destIndex :: int
  app_requestNum :: int
  app_content :: int
  app_start :: timer
  app_timer :: timer
  app_appIndex :: int
  app_transNum :: int
  app_sleepTime :: simtime

type_synonym sid_maker = "int \<Rightarrow> int \<Rightarrow> sid"

definition new_pccp_app :: "int \<Rightarrow> int \<Rightarrow> int \<Rightarrow> bool \<Rightarrow> int \<Rightarrow> simtime \<Rightarrow> pccp_app" where
  "new_pccp_app dest requests initial enabled limit startTime =
     \<lparr>app_alg = initializeState (new_pccp_alg initial enabled limit), app_destIndex = dest, app_requestNum = requests,
      app_content = 0, app_start = (if dest \<ge> 0 then Scheduled startTime else Idle), app_timer = Idle,
      app_appIndex = 0, app_transNum = 1, app_sleepTime = 0\<rparr>"

text \<open>The number of the object asked for; \<open>PccpApp\<close> has \<open>appIndex\<close> 0.\<close>

definition object_number :: "pccp_app \<Rightarrow> int" where
  "object_number p = app_content p + app_requestNum p * app_appIndex p"

definition app_sendRequest :: "sid_maker \<Rightarrow> pccp_app \<Rightarrow> pccp_app outcome" where
  "app_sendRequest mk p =
     bindE (pccp_sendRequest (mk (app_destIndex p) (object_number p)) (app_alg p)) (\<lambda>a. Inr (p\<lparr>app_alg := a\<rparr>))"

definition app_schedule :: "simtime \<Rightarrow> pccp_app \<Rightarrow> pccp_app outcome" where
  "app_schedule delay p =
     bindE (schedule (app_timer p) (pa_now (app_alg p) + delay)) (\<lambda>tm. Inr (p\<lparr>app_timer := tm\<rparr>))"

text \<open>The messages \<open>start\<close> and \<open>timer\<close> arrive; the simulator has made them idle.\<close>

definition app_handle_start :: "sid_maker \<Rightarrow> simtime \<Rightarrow> pccp_app \<Rightarrow> pccp_app outcome" where
  "app_handle_start mk delay p =
     bindE (app_sendRequest mk p) (\<lambda>p1. bindE (app_schedule delay p1) (\<lambda>p2. Inr (p2\<lparr>app_start := Deleted\<rparr>)))"

definition app_handle_timer :: "sid_maker \<Rightarrow> simtime \<Rightarrow> pccp_app \<Rightarrow> pccp_app outcome" where
  "app_handle_timer mk delay p =
     (if app_content p < app_requestNum p - 1
      then bindE (app_sendRequest mk (p\<lparr>app_content := app_content p + 1\<rparr>)) (app_schedule delay)
      else Inr (p\<lparr>app_timer := cancelIfThere (app_timer p)\<rparr>))"

text \<open>The IoT application sleeps after each group of \<open>transNum\<close> requests.\<close>

definition iot_handle_timer :: "sid_maker \<Rightarrow> simtime \<Rightarrow> pccp_app \<Rightarrow> pccp_app outcome" where
  "iot_handle_timer mk delay p =
     (if app_content p < app_requestNum p - 1 then
        bindE (app_sendRequest mk (p\<lparr>app_content := app_content p + 1\<rparr>)) (\<lambda>p1.
        if app_transNum p1 = 0 then Inl (UndefinedBehaviour ''division by zero'')
        else app_schedule (if app_content p1 mod app_transNum p1 = app_transNum p1 - 1 then app_sleepTime p1 else delay) p1)
      else Inr (p\<lparr>app_timer := cancelIfThere (app_timer p)\<rparr>))"

section \<open>Events\<close>

text \<open>What happens to an application: its messages and the timers of its requests are due, data
  arrive, time passes.\<close>

inductive pccp_step :: "sid_maker \<Rightarrow> pccp_app \<Rightarrow> pccp_app outcome \<Rightarrow> bool" for mk where
  start: "app_start p = Scheduled (pa_now (app_alg p)) \<Longrightarrow> pccp_step mk p (app_handle_start mk delay (p\<lparr>app_start := Idle\<rparr>))"
| next_request: "app_timer p = Scheduled (pa_now (app_alg p)) \<Longrightarrow> pccp_step mk p (app_handle_timer mk delay (p\<lparr>app_timer := Idle\<rparr>))"
| next_iot: "app_timer p = Scheduled (pa_now (app_alg p)) \<Longrightarrow> 0 < app_transNum p
    \<Longrightarrow> pccp_step mk p (iot_handle_timer mk delay (p\<lparr>app_timer := Idle\<rparr>))"
| timeout: "findRexmitTimer s (sendQueue (app_alg p)) = Some m
    \<Longrightarrow> pq_msgs (sendQueue (app_alg p)) m = Scheduled (pa_now (app_alg p))
    \<Longrightarrow> pccp_step mk p (bindE (processRexmitTimer m (timer_expires m (app_alg p))) (\<lambda>a. Inr (p\<lparr>app_alg := a\<rparr>)))"
| data: "pccp_step mk p (bindE (pccp_dataReceived gain s cl (app_alg p)) (\<lambda>a. Inr (p\<lparr>app_alg := a\<rparr>)))"
| time: "pa_now (app_alg p) \<le> t \<Longrightarrow> pccp_step mk p (Inr (p\<lparr>app_alg := app_alg p\<lparr>pa_now := t\<rparr>\<rparr>))"

inductive pccp_reachable :: "sid_maker \<Rightarrow> pccp_app \<Rightarrow> pccp_app \<Rightarrow> bool" for mk p0 where
  initial: "pccp_reachable mk p0 p0"
| step: "pccp_reachable mk p0 p \<Longrightarrow> pccp_step mk p (Inr p') \<Longrightarrow> pccp_reachable mk p0 p'"

inductive_cases pccp_stepE: "pccp_step mk p r"

text \<open>The objects asked for so far, and those that are settled.\<close>

definition asked :: "sid_maker \<Rightarrow> pccp_app \<Rightarrow> sid set" where
  "asked mk p = (if app_start p = Deleted
     then (\<lambda>i. mk (app_destIndex p) (i + app_requestNum p * app_appIndex p)) ` {0..app_content p} else {})"

definition settled :: "pccp_alg \<Rightarrow> sid set" where
  "settled a = {s. DataArrived s \<in> set (pa_log a) \<or> MaxRexmit s \<in> set (pa_log a)}"

definition app_inv :: "sid_maker \<Rightarrow> pccp_app \<Rightarrow> bool" where
  "app_inv mk p \<longleftrightarrow> alg_inv (app_alg p) \<and> 0 \<le> app_content p \<and> app_content p < app_requestNum p
     \<and> inj_on (\<lambda>i. mk (app_destIndex p) (i + app_requestNum p * app_appIndex p)) {0..<app_requestNum p}
     \<and> (app_start p \<noteq> Deleted \<longrightarrow> app_timer p = Idle \<and> app_content p = 0) \<and> app_timer p \<noteq> Deleted
     \<and> tracked (app_alg p) \<subseteq> asked mk p \<and> asked mk p \<subseteq> tracked (app_alg p) \<union> settled (app_alg p)"

lemma settled_mono: "set (pa_log a) \<subseteq> set (pa_log b) \<Longrightarrow> settled a \<subseteq> settled b"
  by (auto simp: settled_def)

lemma app_sendRequest_ok:
  assumes "alg_inv (app_alg p)" and "mk (app_destIndex p) (object_number p) \<notin> tracked (app_alg p)"
  shows "\<exists>a. app_sendRequest mk p = Inr (p\<lparr>app_alg := a\<rparr>) \<and> alg_inv a
    \<and> tracked a = insert (mk (app_destIndex p) (object_number p)) (tracked (app_alg p)) \<and> settled (app_alg p) \<subseteq> settled a"
proof -
  obtain a where a: "pccp_sendRequest (mk (app_destIndex p) (object_number p)) (app_alg p) = Inr a" "alg_inv a"
      "tracked a = insert (mk (app_destIndex p) (object_number p)) (tracked (app_alg p))"
      "set (pa_log (app_alg p)) \<subseteq> set (pa_log a)"
    using pccp_sendRequest_ok [OF assms] by blast
  show ?thesis
    by (intro exI [of _ a]) (use a settled_mono in \<open>simp add: app_sendRequest_def\<close>)
qed

lemma start_ok:
  assumes inv: "app_inv mk p" and start: "app_start p \<noteq> Deleted"
  shows "\<exists>p'. app_handle_start mk delay (p\<lparr>app_start := Idle\<rparr>) = Inr p' \<and> app_inv mk p'"
proof -
  let ?p = "p\<lparr>app_start := Idle\<rparr>"
  have "alg_inv (app_alg ?p)" "tracked (app_alg ?p) = {}" "app_timer ?p = Idle" "app_content p = 0"
    using inv start by (auto simp: app_inv_def asked_def)
  moreover from this obtain a where a: "app_sendRequest mk ?p = Inr (?p\<lparr>app_alg := a\<rparr>)" "alg_inv a"
      "tracked a = {mk (app_destIndex p) (object_number p)}"
    using app_sendRequest_ok [of ?p mk] by (auto simp: object_number_def)
  ultimately show ?thesis
    using inv by (auto simp: app_handle_start_def app_schedule_def app_inv_def asked_def object_number_def)
qed

text \<open>The next object has not been asked for before.\<close>

lemma next_object_ok:
  assumes inv: "app_inv mk p" and more: "app_start p = Deleted" "app_content p < app_requestNum p - 1"
  shows "\<exists>a. app_sendRequest mk (p\<lparr>app_timer := Idle, app_content := app_content p + 1\<rparr>)
        = Inr (p\<lparr>app_timer := Idle, app_content := app_content p + 1, app_alg := a\<rparr>)
    \<and> (\<forall>tm. tm \<noteq> Deleted \<longrightarrow> app_inv mk (p\<lparr>app_timer := tm, app_content := app_content p + 1, app_alg := a\<rparr>))"
proof -
  let ?p = "p\<lparr>app_timer := Idle, app_content := app_content p + 1\<rparr>"
  let ?f = "\<lambda>i. mk (app_destIndex p) (i + app_requestNum p * app_appIndex p)"
  have inj: "inj_on ?f {0..<app_requestNum p}" and c: "0 \<le> app_content p" using inv by (simp_all add: app_inv_def)
  have "?f (app_content p + 1) \<notin> ?f ` {0..app_content p}"
  proof
    assume "?f (app_content p + 1) \<in> ?f ` {0..app_content p}"
    then obtain i where i: "i \<in> {0..app_content p}" "?f i = ?f (app_content p + 1)" by auto
    then have "i = app_content p + 1" using more(2) c by (intro inj_onD [OF inj i(2)]) auto
    then show False using i(1) by simp
  qed
  then have "mk (app_destIndex ?p) (object_number ?p) \<notin> tracked (app_alg ?p)" "alg_inv (app_alg ?p)"
    using inv more(1) by (auto simp: app_inv_def asked_def object_number_def)
  then obtain a where a: "app_sendRequest mk ?p = Inr (?p\<lparr>app_alg := a\<rparr>)" "alg_inv a"
      "tracked a = insert (?f (app_content p + 1)) (tracked (app_alg p))" "settled (app_alg p) \<subseteq> settled a"
    using app_sendRequest_ok [of ?p mk] by (auto simp: object_number_def)
  have "{0..app_content p + 1} = insert (app_content p + 1) {0..app_content p}" using c by auto
  then have "app_inv mk (p\<lparr>app_timer := tm, app_content := app_content p + 1, app_alg := a\<rparr>)" if "tm \<noteq> Deleted" for tm
    using a inv more c that by (auto simp: app_inv_def asked_def)
  then show ?thesis using a(1) by (intro exI [of _ a]) auto
qed

text \<open>Both handlers of the timer set it again, or leave it off.\<close>

lemma timer_set_ok:
  assumes inv: "app_inv mk p" and off: "app_start p = Deleted"
  shows "\<exists>p'. (if app_content p < app_requestNum p - 1
      then bindE (app_sendRequest mk (p\<lparr>app_timer := Idle, app_content := app_content p + 1\<rparr>)) (\<lambda>p1. app_schedule (d p1) p1)
      else Inr (p\<lparr>app_timer := Idle\<rparr>)) = Inr p' \<and> app_inv mk p'"
proof (cases "app_content p < app_requestNum p - 1")
  case True
  let ?p = "p\<lparr>app_timer := Idle, app_content := app_content p + 1\<rparr>"
  obtain a where a: "app_sendRequest mk ?p = Inr (?p\<lparr>app_alg := a\<rparr>)"
      "\<And>tm. tm \<noteq> Deleted \<Longrightarrow> app_inv mk (p\<lparr>app_timer := tm, app_content := app_content p + 1, app_alg := a\<rparr>)"
    using next_object_ok [OF inv off True] by auto
  have "app_schedule t (?p\<lparr>app_alg := a\<rparr>) =
      Inr (p\<lparr>app_timer := Scheduled (pa_now a + t), app_content := app_content p + 1, app_alg := a\<rparr>)" for t
    by (simp add: app_schedule_def)
  then show ?thesis using True a by simp
next
  case False
  then show ?thesis using inv off by (simp add: app_inv_def asked_def)
qed

lemma app_alg_step:
  assumes inv: "app_inv mk p" and a: "alg_inv a" "tracked a \<subseteq> tracked (app_alg p)"
    "tracked (app_alg p) \<subseteq> tracked a \<union> settled a" "settled (app_alg p) \<subseteq> settled a"
  shows "app_inv mk (p\<lparr>app_alg := a\<rparr>)"
proof -
  have "asked mk (p\<lparr>app_alg := a\<rparr>) = asked mk p" by (simp add: asked_def)
  moreover have "tracked a \<subseteq> asked mk p" "asked mk p \<subseteq> tracked a \<union> settled a"
    using inv a(2-4) unfolding app_inv_def by blast+
  ultimately show ?thesis using inv a(1) unfolding app_inv_def by simp
qed

lemma pccp_step_inv:
  assumes "pccp_step mk p r" and inv: "app_inv mk p"
  shows "\<exists>p'. r = Inr p' \<and> app_inv mk p'"
  using assms(1)
proof (rule pccp_stepE)
  fix delay
  assume "app_start p = Scheduled (pa_now (app_alg p))" "r = app_handle_start mk delay (p\<lparr>app_start := Idle\<rparr>)"
  then show ?thesis using start_ok [OF inv] by auto
next
  fix delay
  assume due: "app_timer p = Scheduled (pa_now (app_alg p))" and r: "r = app_handle_timer mk delay (p\<lparr>app_timer := Idle\<rparr>)"
  have "app_start p = Deleted" using inv due by (auto simp: app_inv_def)
  then show ?thesis
    using timer_set_ok [OF inv, of "\<lambda>_. delay"] unfolding r app_handle_timer_def by (auto split: if_splits)
next
  fix delay
  assume due: "app_timer p = Scheduled (pa_now (app_alg p))" and t: "0 < app_transNum p"
    and r: "r = iot_handle_timer mk delay (p\<lparr>app_timer := Idle\<rparr>)"
  have "app_start p = Deleted" using inv due by (auto simp: app_inv_def)
  have "app_transNum p1 \<noteq> 0" if "app_sendRequest mk (p\<lparr>app_timer := Idle, app_content := app_content p + 1\<rparr>) = Inr p1" for p1
    using that t by (auto simp: app_sendRequest_def bindE_def split: sum.splits)
  then have "bindE (app_sendRequest mk (p\<lparr>app_timer := Idle, app_content := app_content p + 1\<rparr>)) (\<lambda>p1.
        if app_transNum p1 = 0 then Inl (UndefinedBehaviour ''division by zero'') else app_schedule (d p1) p1)
      = bindE (app_sendRequest mk (p\<lparr>app_timer := Idle, app_content := app_content p + 1\<rparr>)) (\<lambda>p1. app_schedule (d p1) p1)" for d
    by (cases "app_sendRequest mk (p\<lparr>app_timer := Idle, app_content := app_content p + 1\<rparr>)") simp_all
  then show ?thesis
    using timer_set_ok [OF inv \<open>app_start p = Deleted\<close>, of "\<lambda>p1. if app_content p1 mod app_transNum p1 = app_transNum p1 - 1
        then app_sleepTime p1 else delay"] unfolding r iot_handle_timer_def by (auto split: if_splits)
next
  fix s m
  assume m: "findRexmitTimer s (sendQueue (app_alg p)) = Some m"
    and r: "r = bindE (processRexmitTimer m (timer_expires m (app_alg p))) (\<lambda>a. Inr (p\<lparr>app_alg := a\<rparr>))"
  have "alg_inv (app_alg p)" using inv by (simp add: app_inv_def)
  then obtain a where "processRexmitTimer m (timer_expires m (app_alg p)) = Inr a" "alg_inv a"
      "tracked a \<subseteq> tracked (app_alg p)" "tracked (app_alg p) \<subseteq> tracked a \<union> {x. MaxRexmit x \<in> set (pa_log a)}"
      "set (pa_log (app_alg p)) \<subseteq> set (pa_log a)"
    using processRexmitTimer_ok [OF _ m] by blast
  moreover from this have "tracked (app_alg p) \<subseteq> tracked a \<union> settled a" by (auto simp: settled_def)
  ultimately show ?thesis using app_alg_step [OF inv] settled_mono r by auto
next
  fix gain s cl
  assume r: "r = bindE (pccp_dataReceived gain s cl (app_alg p)) (\<lambda>a. Inr (p\<lparr>app_alg := a\<rparr>))"
  have "alg_inv (app_alg p)" using inv by (simp add: app_inv_def)
  then obtain a where "pccp_dataReceived gain s cl (app_alg p) = Inr a" "alg_inv a"
      "tracked a = set (pending (app_alg p)) \<union> (set (keys (app_alg p)) - {s})"
      "DataArrived s \<in> set (pa_log a)" "set (pa_log (app_alg p)) \<subseteq> set (pa_log a)"
    using pccp_dataReceived_ok by blast
  moreover from this have "tracked a \<subseteq> tracked (app_alg p)" "tracked (app_alg p) \<subseteq> tracked a \<union> settled a"
    by (auto simp: tracked_def settled_def)
  ultimately show ?thesis using app_alg_step [OF inv] settled_mono r by auto
next
  fix t assume r: "r = Inr (p\<lparr>app_alg := app_alg p\<lparr>pa_now := t\<rparr>\<rparr>)"
  let ?a = "app_alg p\<lparr>pa_now := t\<rparr>"
  have a: "alg_inv ?a" "tracked ?a = tracked (app_alg p)" "settled ?a = settled (app_alg p)"
    using inv queue_same [of ?a "app_alg p"] by (simp_all add: app_inv_def alg_inv_def control_ok_def settled_def)
  then show ?thesis using app_alg_step [OF inv, of ?a] r by simp
qed

lemma pccp_reachable_inv: "pccp_reachable mk p0 p \<Longrightarrow> app_inv mk p0 \<Longrightarrow> app_inv mk p"
  by (induction rule: pccp_reachable.induct) (auto dest: pccp_step_inv)

lemma new_pccp_app_inv:
  fixes mk :: sid_maker
  assumes "1 \<le> initial" and "0 < requests" and "inj_on (mk dest) {0..<requests}"
  shows "app_inv mk (new_pccp_app dest requests initial enabled limit startTime)"
  using new_pccp_alg_inv [OF assms(1), of enabled limit] assms(2,3)
  by (simp add: app_inv_def new_pccp_app_def asked_def)

section \<open>Properties\<close>

text \<open>
  C22. Whatever happens to an application (timers, data in any order, unexpected and repeated
  data), no handler fails, and no object asked for is lost: it is in exactly one of the queue
  of unsent requests, the queue of requests to repeat and the window, or its data have
  arrived, or it was given up after the last retransmission.
\<close>

theorem pccp_no_request_lost:
  assumes "1 \<le> initial" and "0 < requests" and "inj_on (mk dest) {0..<requests}"
    and "pccp_reachable mk (new_pccp_app dest requests initial enabled limit startTime) p"
  shows "(\<forall>r. pccp_step mk p r \<longrightarrow> (\<exists>p'. r = Inr p'))
    \<and> tracked (app_alg p) \<subseteq> asked mk p \<and> asked mk p \<subseteq> tracked (app_alg p) \<union> settled (app_alg p)
    \<and> distinct (unsentSidQueue (sendQueue (app_alg p)) @ retries (sendQueue (app_alg p)) @ keys (app_alg p))"
proof -
  have inv: "app_inv mk p" by (rule pccp_reachable_inv [OF assms(4) new_pccp_app_inv [of initial requests mk dest, OF assms(1-3)]])
  then have "pq_inv {} (sendQueue (app_alg p))" by (simp add: app_inv_def alg_inv_def)
  then have "distinct (unsentSidQueue (sendQueue (app_alg p)) @ retries (sendQueue (app_alg p)) @ keys (app_alg p))"
    using pq_invD(4) by (simp add: retries_def keys_def)
  moreover have "\<forall>r. pccp_step mk p r \<longrightarrow> (\<exists>p'. r = Inr p')" using pccp_step_inv [OF _ inv] by blast
  ultimately show ?thesis using inv by (simp add: app_inv_def)
qed

text \<open>
  C23. An application with requests left never stalls: while requests are held back the window
  is full, so at least one request is under way, and the timer of every request under way is
  running. The congestion window stays at least 1 and the timeout between 0.5 s and 1 s.
\<close>

theorem pccp_never_stalls:
  assumes "1 \<le> initial" and "0 < requests" and "inj_on (mk dest) {0..<requests}"
    and "pccp_reachable mk (new_pccp_app dest requests initial enabled limit startTime) p"
  shows "(pending (app_alg p) = [] \<or> (keys (app_alg p) \<noteq> [] \<and> \<lfloor>pa_window (app_alg p)\<rfloor> \<le> int (length (keys (app_alg p)))))
    \<and> (\<forall>s \<in> set (keys (app_alg p)). \<exists>m t. findRexmitTimer s (sendQueue (app_alg p)) = Some m
         \<and> pq_msgs (sendQueue (app_alg p)) m = Scheduled t)
    \<and> 1 \<le> pa_window (app_alg p) \<and> milliseconds 500 \<le> pa_rexmit_timeout (app_alg p)
    \<and> pa_rexmit_timeout (app_alg p) \<le> seconds 1"
proof -
  have "alg_inv (app_alg p)"
    using pccp_reachable_inv [OF assms(4) new_pccp_app_inv [of initial requests mk dest, OF assms(1-3)]] by (simp add: app_inv_def)
  then have inv: "pq_inv {} (sendQueue (app_alg p))" "control_ok (app_alg p)"
      "pending (app_alg p) \<noteq> [] \<longrightarrow> \<lfloor>pa_window (app_alg p)\<rfloor> \<le> int (length (keys (app_alg p)))"
    by (simp_all add: alg_inv_def)
  have "1 \<le> \<lfloor>pa_window (app_alg p)\<rfloor>" using inv(2) by (simp add: control_ok_def)
  then have "pending (app_alg p) \<noteq> [] \<longrightarrow> keys (app_alg p) \<noteq> []" using inv(3) by auto
  moreover have "\<exists>m t. findRexmitTimer s (sendQueue (app_alg p)) = Some m \<and> pq_msgs (sendQueue (app_alg p)) m = Scheduled t"
    if s: "s \<in> set (keys (app_alg p))" for s
  proof -
    obtain m where m: "findRexmitTimer s (sendQueue (app_alg p)) = Some m" "isScheduled (pq_msgs (sendQueue (app_alg p)) m)"
      using pq_inv_window [OF inv(1), of s] s unfolding in_window_keys by auto
    then show ?thesis by (cases "pq_msgs (sendQueue (app_alg p)) m") auto
  qed
  ultimately show ?thesis
    using inv(2,3) by (auto simp: control_ok_def MIN_REXMIT_TIMEOUT_def MAX_REXMIT_TIMEOUT_def)
qed

section \<open>An example\<close>

definition example_sid :: sid_maker where
  "example_sid dest i = SID (NID 0 0 0 (of_int dest)) 0 0 0 0 (of_int i)"

lemma example_sid_inj: "inj_on (example_sid 0) {0..<2}"
proof (rule inj_onI)
  fix x y :: int assume "x \<in> {0..<2}" "y \<in> {0..<2}" "example_sid 0 x = example_sid 0 y"
  then have "x = 0 \<or> x = 1" "y = 0 \<or> y = 1" "(of_int x :: u32) = of_int y" by (auto simp: example_sid_def)
  then show "x = y" by auto
qed

abbreviation example_app :: pccp_app where
  "example_app \<equiv> new_pccp_app 0 2 1 True 12 0"

lemma example_started:
  "\<exists>p. pccp_step example_sid example_app (Inr p) \<and> app_handle_start example_sid 5 (example_app\<lparr>app_start := Idle\<rparr>) = Inr p
    \<and> asked example_sid p = {example_sid 0 0}"
proof -
  have inv: "app_inv example_sid example_app" by (rule new_pccp_app_inv) (use example_sid_inj in simp_all)
  have "pccp_step example_sid example_app (app_handle_start example_sid 5 (example_app\<lparr>app_start := Idle\<rparr>))"
    by (rule pccp_step.start) (simp add: new_pccp_app_def initializeState_def new_pccp_alg_def)
  moreover obtain p where "app_handle_start example_sid 5 (example_app\<lparr>app_start := Idle\<rparr>) = Inr p" "app_inv example_sid p"
    using start_ok [OF inv, of 5] by (auto simp: new_pccp_app_def)
  ultimately show ?thesis
    by (auto simp: app_handle_start_def app_schedule_def app_sendRequest_def asked_def new_pccp_app_def bindE_def
        split: sum.splits)
qed

theorem pccp_no_request_lost_witness:
  "\<exists>p. app_handle_start example_sid 5 (example_app\<lparr>app_start := Idle\<rparr>) = Inr p
    \<and> example_sid 0 0 \<in> tracked (app_alg p) \<union> settled (app_alg p)"
proof -
  obtain p where p: "pccp_step example_sid example_app (Inr p)" "asked example_sid p = {example_sid 0 0}"
      "app_handle_start example_sid 5 (example_app\<lparr>app_start := Idle\<rparr>) = Inr p"
    using example_started by blast
  have "pccp_reachable example_sid example_app p"
    using pccp_reachable.step [OF pccp_reachable.initial p(1)] .
  from pccp_no_request_lost [of 1 2 example_sid 0, OF _ _ example_sid_inj this] p show ?thesis by auto
qed

theorem pccp_never_stalls_witness:
  "\<exists>p. app_handle_start example_sid 5 (example_app\<lparr>app_start := Idle\<rparr>) = Inr p
    \<and> (pending (app_alg p) = [] \<or> keys (app_alg p) \<noteq> []) \<and> 1 \<le> pa_window (app_alg p)"
proof -
  obtain p where p: "pccp_step example_sid example_app (Inr p)"
      "app_handle_start example_sid 5 (example_app\<lparr>app_start := Idle\<rparr>) = Inr p"
    using example_started by blast
  have "pccp_reachable example_sid example_app p"
    using pccp_reachable.step [OF pccp_reachable.initial p(1)] .
  from pccp_never_stalls [of 1 2 example_sid 0, OF _ _ example_sid_inj this] p(2) show ?thesis by auto
qed

end
