(* ===== verification/Pccp_Indicator.thy ===== *)
theory Pccp_Indicator
  imports Pccp_Alg
begin

text \<open>
  \<open>queueing/filter/PccpIndicator.cc\<close>: a filter in front of the link-layer queue that measures
  congestion and writes its level into passing content. \<open>double\<close>s are exact rational numbers;
  \<open>cpow\<close> is the library's \<open>pow\<close>. Signals are left out, and so is \<open>p0\<close>, which is only checked.
\<close>

section \<open>The filter\<close>

record pccp_indicator =
  wq :: rat
  pi_g :: rat
  CI_FREE :: rat
  CI_BUSY :: rat
  CI_CONG :: rat
  pi_algorithm :: string
  avgDataQueueLength :: rat
  avgPitLength :: rat
  ci :: rat
  q_time :: simtime

definition checkParameters :: "rat \<Rightarrow> rat \<Rightarrow> rat \<Rightarrow> unit outcome" where
  "checkParameters parVal parMin parMax =
     (if parVal < parMin \<or> parVal > parMax then Inl (RuntimeError ''Invalid value for parameter'') else Inr ())"

definition indicator_initialize :: "rat \<Rightarrow> rat \<Rightarrow> rat \<Rightarrow> rat \<Rightarrow> rat \<Rightarrow> rat \<Rightarrow> string \<Rightarrow> pccp_indicator outcome" where
  "indicator_initialize w g free busy cong p0 algorithm =
     bindE (checkParameters w 0 1) (\<lambda>_. bindE (checkParameters g 0 1) (\<lambda>_. bindE (checkParameters p0 0 1) (\<lambda>_.
     bindE (checkParameters free 0 1) (\<lambda>_. bindE (checkParameters busy 0 1) (\<lambda>_. bindE (checkParameters cong 0 1) (\<lambda>_.
     if \<not> (free < busy \<and> busy < cong) then Inl (RuntimeError ''Invalid value for CI_FREE, CI_BUSY, CI_CONG'')
     else Inr \<lparr>wq = w, pi_g = g, CI_FREE = free, CI_BUSY = busy, CI_CONG = cong, pi_algorithm = algorithm,
                avgDataQueueLength = 0, avgPitLength = 0, ci = 0, q_time = 0\<rparr>))))))"

definition rat_min :: "rat \<Rightarrow> rat \<Rightarrow> rat" where
  "rat_min a b = (if a > b then b else a)"

text \<open>The time a packet takes is half a millisecond: 500000000 ps.\<close>

definition average_queue :: "(rat \<Rightarrow> rat \<Rightarrow> rat) \<Rightarrow> simtime \<Rightarrow> int \<Rightarrow> pccp_indicator \<Rightarrow> rat" where
  "average_queue cpow now dataQLength f =
     (if dataQLength > 0 then (1 - wq f) * avgDataQueueLength f + wq f * of_int dataQLength
      else cpow (1 - wq f) (of_int (now - q_time f) / 500000000) * avgDataQueueLength f)"

definition congestion_index :: "int \<Rightarrow> int \<Rightarrow> pccp_indicator \<Rightarrow> rat" where
  "congestion_index dataQCapacity pitCapacity f =
     (if pi_algorithm f = ''ECP'' then avgPitLength f / of_int pitCapacity
      else if pi_algorithm f = ''CCS'' then avgDataQueueLength f / of_int dataQCapacity
      else if pi_algorithm f = ''PCCP'' then
        (1 - pi_g f) * avgDataQueueLength f / of_int dataQCapacity + pi_g f * rat_min (avgPitLength f / of_int dataQCapacity) 1
      else ci f)"

definition updateAverageQueueLengthAndCI ::
  "(rat \<Rightarrow> rat \<Rightarrow> rat) \<Rightarrow> simtime \<Rightarrow> int \<Rightarrow> int \<Rightarrow> int \<Rightarrow> int \<Rightarrow> pccp_indicator \<Rightarrow> pccp_indicator" where
  "updateAverageQueueLengthAndCI cpow now dataQLength dataQCapacity pitLength pitCapacity f =
     (let f1 = f\<lparr>avgDataQueueLength := average_queue cpow now dataQLength f,
                 avgPitLength := (1 - wq f) * avgPitLength f + wq f * of_int pitLength\<rparr>
      in f1\<lparr>ci := congestion_index dataQCapacity pitCapacity f1\<rparr>)"

definition calculateCongestionLevel :: "pccp_indicator \<Rightarrow> pccp_cl" where
  "calculateCongestionLevel f =
     (if ci f \<le> CI_FREE f then FREE
      else if ci f \<ge> CI_CONG f then CONGESTED
      else if CI_FREE f < ci f \<and> ci f \<le> CI_BUSY f then BUSY_1
      else BUSY_2)"

text \<open>The level is compared as the number of the enumeration.\<close>

fun cl_number :: "pccp_cl \<Rightarrow> nat" where
  "cl_number FREE = 0"
| "cl_number BUSY_1 = 1"
| "cl_number BUSY_2 = 2"
| "cl_number CONGESTED = 3"

definition setPccpCl :: "pccp_cl \<Rightarrow> pccp_cl \<Rightarrow> pccp_cl" where
  "setPccpCl cl carried = (if cl_number cl > cl_number carried then cl else carried)"

text \<open>A packet with the tag of the pending table is content; it is marked.\<close>

definition matchesPacket ::
  "(rat \<Rightarrow> rat \<Rightarrow> rat) \<Rightarrow> simtime \<Rightarrow> int \<Rightarrow> int \<Rightarrow> (int \<times> int) option \<Rightarrow> pccp_cl \<Rightarrow> pccp_indicator \<Rightarrow> pccp_cl \<times> pccp_indicator" where
  "matchesPacket cpow now dataQLength dataQCapacity pitInd carried f =
     (case pitInd of
        None \<Rightarrow> (carried, f)
      | Some (pitLength, pitCapacity) \<Rightarrow>
          let f1 = updateAverageQueueLengthAndCI cpow now dataQLength dataQCapacity pitLength pitCapacity f
          in (setPccpCl (calculateCongestionLevel f1) carried, f1))"

definition pushOrSendPacket :: "simtime \<Rightarrow> int \<Rightarrow> pccp_indicator \<Rightarrow> pccp_indicator" where
  "pushOrSendPacket now queueLength f = (if queueLength = 0 then f\<lparr>q_time := now\<rparr> else f)"

section \<open>Bounds\<close>

text \<open>What the code relies on: \<open>pow\<close> of a base between 0 and 1 and an exponent that is not
  negative lies between 0 and 1.\<close>

definition pow_contracts :: "(rat \<Rightarrow> rat \<Rightarrow> rat) \<Rightarrow> bool" where
  "pow_contracts cpow \<longleftrightarrow> (\<forall>b m. 0 \<le> b \<longrightarrow> b \<le> 1 \<longrightarrow> 0 \<le> m \<longrightarrow> 0 \<le> cpow b m \<and> cpow b m \<le> 1)"

definition indicator_inv :: "int \<Rightarrow> pccp_indicator \<Rightarrow> bool" where
  "indicator_inv cap f \<longleftrightarrow> 0 \<le> wq f \<and> wq f \<le> 1 \<and> 0 \<le> pi_g f \<and> pi_g f \<le> 1
     \<and> 0 \<le> avgDataQueueLength f \<and> avgDataQueueLength f \<le> of_int cap \<and> 0 \<le> avgPitLength f
     \<and> 0 \<le> ci f \<and> (pi_algorithm f \<noteq> ''ECP'' \<longrightarrow> ci f \<le> 1)"

lemma mix_bounds:
  fixes w :: rat
  assumes "0 \<le> w" "w \<le> 1" "0 \<le> x" "x \<le> c" "0 \<le> y" "y \<le> c"
  shows "0 \<le> (1 - w) * x + w * y" "(1 - w) * x + w * y \<le> c"
proof -
  show "0 \<le> (1 - w) * x + w * y" using assms by simp
  have "(1 - w) * x \<le> (1 - w) * c" "w * y \<le> w * c" using assms by (simp_all add: mult_left_mono)
  then show "(1 - w) * x + w * y \<le> c" by (simp add: algebra_simps)
qed

lemma average_queue_bounds:
  assumes "indicator_inv cap f" and "pow_contracts cpow" and "q_time f \<le> now" and "0 \<le> len" "len \<le> cap"
  shows "0 \<le> average_queue cpow now len f \<and> average_queue cpow now len f \<le> of_int cap"
proof -
  have f: "0 \<le> wq f" "wq f \<le> 1" "0 \<le> avgDataQueueLength f" "avgDataQueueLength f \<le> of_int cap"
    using assms(1) by (simp_all add: indicator_inv_def)
  define x where "x = cpow (1 - wq f) (of_int (now - q_time f) / 500000000)"
  have "0 \<le> x" "x \<le> 1"
    using assms(2,3) f(1,2) unfolding pow_contracts_def x_def by simp_all
  then have "0 \<le> x * avgDataQueueLength f" "x * avgDataQueueLength f \<le> of_int cap"
    using f(3,4) mult_mono [of x 1 "avgDataQueueLength f" "of_int cap"] by simp_all
  then show ?thesis
    using mix_bounds [OF f, of "of_int len"] assms(4,5) by (simp add: average_queue_def x_def)
qed

lemma rat_min_bounds: "0 \<le> a \<Longrightarrow> 0 \<le> rat_min a 1 \<and> rat_min a 1 \<le> 1"
  by (simp add: rat_min_def)

lemma congestion_index_bounds:
  assumes inv: "indicator_inv cap f" and "0 < cap" "0 < pitCapacity"
  shows "0 \<le> congestion_index cap pitCapacity f" "pi_algorithm f \<noteq> ''ECP'' \<Longrightarrow> congestion_index cap pitCapacity f \<le> 1"
proof -
  have f: "0 \<le> pi_g f" "pi_g f \<le> 1" "0 \<le> avgDataQueueLength f" "avgDataQueueLength f \<le> of_int cap" "0 \<le> avgPitLength f"
      "0 \<le> ci f" "pi_algorithm f \<noteq> ''ECP'' \<longrightarrow> ci f \<le> 1"
    using inv by (simp_all add: indicator_inv_def)
  have "0 \<le> avgDataQueueLength f / of_int cap" "avgDataQueueLength f / of_int cap \<le> 1"
      "0 \<le> rat_min (avgPitLength f / of_int cap) 1" "rat_min (avgPitLength f / of_int cap) 1 \<le> 1"
    using f assms(2) rat_min_bounds [of "avgPitLength f / of_int cap"] by simp_all
  from mix_bounds [OF f(1,2) this] f assms(2,3)
  show "0 \<le> congestion_index cap pitCapacity f" "pi_algorithm f \<noteq> ''ECP'' \<Longrightarrow> congestion_index cap pitCapacity f \<le> 1"
    by (simp_all add: congestion_index_def)
qed

lemma update_inv:
  assumes inv: "indicator_inv cap f" and "pow_contracts cpow" and "q_time f \<le> now" and "0 \<le> len" "len \<le> cap"
    and "0 \<le> pit" "0 < cap" "0 < pitCapacity"
  shows "indicator_inv cap (updateAverageQueueLengthAndCI cpow now len cap pit pitCapacity f)"
proof -
  define f1 where "f1 = f\<lparr>avgDataQueueLength := average_queue cpow now len f,
      avgPitLength := (1 - wq f) * avgPitLength f + wq f * of_int pit\<rparr>"
  have "0 \<le> (1 - wq f) * avgPitLength f + wq f * of_int pit"
    using inv assms(6) by (simp add: indicator_inv_def)
  then have f1: "indicator_inv cap f1"
    using inv average_queue_bounds [OF assms(1-5)] by (simp add: indicator_inv_def f1_def)
  then have "indicator_inv cap (f1\<lparr>ci := congestion_index cap pitCapacity f1\<rparr>)"
    using congestion_index_bounds [OF f1 assms(7,8)] by (simp add: indicator_inv_def)
  then show ?thesis by (simp add: updateAverageQueueLengthAndCI_def Let_def f1_def)
qed

section \<open>A run of the filter\<close>

text \<open>The events of a filter: a packet passes, with the state of the queue and the tag of the
  pending table, and then the queue is seen again.\<close>

record indicator_event =
  ie_now :: simtime
  ie_queue :: int
  ie_pit :: "(int \<times> int) option"
  ie_carried :: pccp_cl
  ie_after :: int

definition indicator_step :: "(rat \<Rightarrow> rat \<Rightarrow> rat) \<Rightarrow> int \<Rightarrow> indicator_event \<Rightarrow> pccp_indicator \<Rightarrow> pccp_cl \<times> pccp_indicator" where
  "indicator_step cpow cap e f =
     (let (cl, f1) = matchesPacket cpow (ie_now e) (ie_queue e) cap (ie_pit e) (ie_carried e) f
      in (cl, pushOrSendPacket (ie_now e) (ie_after e) f1))"

definition possible_event :: "int \<Rightarrow> indicator_event \<Rightarrow> bool" where
  "possible_event cap e \<longleftrightarrow> 0 \<le> ie_queue e \<and> ie_queue e \<le> cap
     \<and> (case ie_pit e of None \<Rightarrow> True | Some (len, pitCap) \<Rightarrow> 0 \<le> len \<and> 0 < pitCap)"

lemma indicator_step_inv:
  assumes "indicator_inv cap f" and "pow_contracts cpow" and "q_time f \<le> ie_now e" and "possible_event cap e" and "0 < cap"
  shows "indicator_inv cap (snd (indicator_step cpow cap e f)) \<and> q_time (snd (indicator_step cpow cap e f)) \<le> ie_now e"
proof -
  have push: "indicator_inv cap (pushOrSendPacket t len f1) = indicator_inv cap f1" for t len f1
    by (simp add: pushOrSendPacket_def indicator_inv_def)
  have time: "q_time (pushOrSendPacket (ie_now e) len f1) \<le> ie_now e" if "q_time f1 = q_time f" for len f1
    using assms(3) that by (simp add: pushOrSendPacket_def)
  show ?thesis
  proof (cases "ie_pit e")
    case None
    then show ?thesis using assms(1) push time by (simp add: indicator_step_def matchesPacket_def)
  next
    case (Some p)
    obtain len pitCap where p: "p = (len, pitCap)" by force
    let ?f = "updateAverageQueueLengthAndCI cpow (ie_now e) (ie_queue e) cap len pitCap f"
    have "indicator_inv cap ?f"
      by (rule update_inv) (use assms Some p in \<open>simp_all add: possible_event_def\<close>)
    moreover have "q_time ?f = q_time f" by (simp add: updateAverageQueueLengthAndCI_def Let_def)
    ultimately show ?thesis
      using push time by (simp add: indicator_step_def matchesPacket_def Some p Let_def)
  qed
qed

fun indicator_run :: "(rat \<Rightarrow> rat \<Rightarrow> rat) \<Rightarrow> int \<Rightarrow> indicator_event list \<Rightarrow> pccp_indicator \<Rightarrow> pccp_indicator" where
  "indicator_run cpow cap [] f = f"
| "indicator_run cpow cap (e # es) f = indicator_run cpow cap es (snd (indicator_step cpow cap e f))"

lemma indicator_run_inv:
  assumes "pow_contracts cpow" and "0 < cap"
  shows "indicator_inv cap f \<Longrightarrow> \<forall>e \<in> set es. possible_event cap e \<and> q_time f \<le> ie_now e
     \<Longrightarrow> sorted (map ie_now es) \<Longrightarrow> indicator_inv cap (indicator_run cpow cap es f)"
proof (induction es arbitrary: f)
  case (Cons e es)
  have step: "indicator_inv cap (snd (indicator_step cpow cap e f))" "q_time (snd (indicator_step cpow cap e f)) \<le> ie_now e"
    using indicator_step_inv [OF Cons.prems(1) assms(1) _ _ assms(2), of e] Cons.prems(2) by simp_all
  show ?case
    unfolding indicator_run.simps
    by (rule Cons.IH) (use step Cons.prems in \<open>auto intro: order_trans\<close>)
qed simp

lemma indicator_run_frame:
  "CI_FREE (indicator_run cpow cap es f) = CI_FREE f \<and> CI_BUSY (indicator_run cpow cap es f) = CI_BUSY f
     \<and> CI_CONG (indicator_run cpow cap es f) = CI_CONG f \<and> pi_algorithm (indicator_run cpow cap es f) = pi_algorithm f"
proof (induction es arbitrary: f)
  case (Cons e es)
  have "CI_FREE (snd (indicator_step cpow cap e f)) = CI_FREE f" "CI_BUSY (snd (indicator_step cpow cap e f)) = CI_BUSY f"
      "CI_CONG (snd (indicator_step cpow cap e f)) = CI_CONG f" "pi_algorithm (snd (indicator_step cpow cap e f)) = pi_algorithm f"
    by (simp_all add: indicator_step_def matchesPacket_def updateAverageQueueLengthAndCI_def pushOrSendPacket_def Let_def
        split: option.split prod.split)
  then show ?case using Cons.IH by simp
qed simp

lemma level_monotone:
  assumes "CI_FREE f < CI_BUSY f" "CI_BUSY f < CI_CONG f" and "x \<le> y"
  shows "cl_number (calculateCongestionLevel (f\<lparr>ci := x\<rparr>)) \<le> cl_number (calculateCongestionLevel (f\<lparr>ci := y\<rparr>))"
  using assms by (auto simp: calculateCongestionLevel_def)

lemma setPccpCl_max: "cl_number (setPccpCl cl carried) = max (cl_number cl) (cl_number carried)"
  by (simp add: setPccpCl_def max_def)

section \<open>Properties\<close>

text \<open>
  In every run of a filter whose parameters pass the check, with queue lengths between 0
  and the capacity, the average queue length stays between 0 and the capacity and the
  congestion index between 0 and 1 (\<open>ECP\<close>: it is not negative). The level rises with the
  index, and a packet leaves with the higher of its level and that of the node: no node on a
  path lowers it.
\<close>

theorem congestion_index_bounded:
  assumes "indicator_initialize w g free busy cong p0 algorithm = Inr f0" and "pow_contracts cpow" and "0 < cap"
    and "\<forall>e \<in> set es. possible_event cap e \<and> 0 \<le> ie_now e" and "sorted (map ie_now es)"
    and "f = indicator_run cpow cap es f0"
  shows "0 \<le> avgDataQueueLength f \<and> avgDataQueueLength f \<le> of_int cap
    \<and> 0 \<le> ci f \<and> (algorithm = ''ECP'' \<or> ci f \<le> 1)
    \<and> (\<forall>x y. y < x \<or> cl_number (calculateCongestionLevel (f\<lparr>ci := x\<rparr>)) \<le> cl_number (calculateCongestionLevel (f\<lparr>ci := y\<rparr>)))
    \<and> (\<forall>carried. cl_number (setPccpCl (calculateCongestionLevel f) carried)
          = max (cl_number (calculateCongestionLevel f)) (cl_number carried))"
proof -
  have f0: "f0 = \<lparr>wq = w, pi_g = g, CI_FREE = free, CI_BUSY = busy, CI_CONG = cong, pi_algorithm = algorithm,
                avgDataQueueLength = 0, avgPitLength = 0, ci = 0, q_time = 0\<rparr>"
    and par: "0 \<le> w" "w \<le> 1" "0 \<le> g" "g \<le> 1" "free < busy" "busy < cong"
    using assms(1) by (auto simp: indicator_initialize_def checkParameters_def split: if_splits)
  have "indicator_inv cap f0" using par assms(3) by (simp add: f0 indicator_inv_def)
  then have inv: "indicator_inv cap f"
    unfolding assms(6) by (rule indicator_run_inv [OF assms(2,3)]) (use assms(4,5) in \<open>simp_all add: f0\<close>)
  have "CI_FREE f = free \<and> CI_BUSY f = busy \<and> CI_CONG f = cong \<and> pi_algorithm f = algorithm"
    unfolding assms(6) using indicator_run_frame [of cpow cap es f0] by (simp add: f0)
  then have frame: "CI_FREE f < CI_BUSY f" "CI_BUSY f < CI_CONG f" "pi_algorithm f = algorithm" using par by simp_all
  have "y < x \<or> cl_number (calculateCongestionLevel (f\<lparr>ci := x\<rparr>)) \<le> cl_number (calculateCongestionLevel (f\<lparr>ci := y\<rparr>))" for x y
    using level_monotone [OF frame(1,2), of x y] by linarith
  then show ?thesis using inv frame(3) setPccpCl_max by (auto simp: indicator_inv_def)
qed

definition example_pow :: "rat \<Rightarrow> rat \<Rightarrow> rat" where
  "example_pow b m = (if m < 1 then 1 else b)"

definition example_events :: "indicator_event list" where
  "example_events = [\<lparr>ie_now = 1, ie_queue = 4, ie_pit = Some (8, 100), ie_carried = FREE, ie_after = 0\<rparr>,
     \<lparr>ie_now = 2, ie_queue = 0, ie_pit = Some (0, 100), ie_carried = BUSY_1, ie_after = 0\<rparr>]"

theorem congestion_index_bounded_witness:
  "\<exists>f0. indicator_initialize (1 / 2) (1 / 4) (1 / 10) (2 / 10) (3 / 10) 1 ''PCCP'' = Inr f0
     \<and> ci (indicator_run example_pow 4 example_events f0) \<le> 1"
proof -
  obtain f0 where f0: "indicator_initialize (1 / 2) (1 / 4) (1 / 10) (2 / 10) (3 / 10) 1 ''PCCP'' = Inr f0"
    by (simp add: indicator_initialize_def checkParameters_def)
  have "pow_contracts example_pow" by (simp add: pow_contracts_def example_pow_def)
  from congestion_index_bounded [OF f0 this, of 4 example_events]
  have "ci (indicator_run example_pow 4 example_events f0) \<le> 1"
    by (simp add: example_events_def possible_event_def)
  then show ?thesis using f0 by blast
qed

end
