(* ===== verification/Simple_Cluster.thy ===== *)
theory Simple_Cluster
  imports Icn_Ids
begin

text \<open>
  \<open>networklayer/icn/cluster/SimpleCluster.cc\<close>: the protocol by which neighbouring nodes elect
  cluster heads. Its module gives the COLOR node its roles. The random delays are arguments of
  the handlers; the check of a signature and the filter of known nodes are the parameter
  \<open>known\<close>. Records written to files, statistics and the display are left out.
\<close>

section \<open>State\<close>

datatype cluster_state = INI | PREHEAD | HEAD | MEMBER | GATEWAY

datatype cluster_packet_type = INIT | CALL | ACK

datatype cluster_timer = Wait | StartTimer | Hello | Collect | Retry | IniTimer | NeighborsClear | Prehead

datatype cluster_output = ClusterMessage cluster_packet_type nid int | AuthMessage int simtime

record cluster_entry =
  ce_clusterhead :: nid
  ce_headAddr :: "48 word"
  ce_lastUpdate :: simtime

record simple_cluster =
  sc_nid :: nid
  sc_nodeIndex :: int
  sc_state :: cluster_state
  sc_maxNeighbor :: nid
  sc_neighbors :: "int set"
  clusterHeads :: "int set"
  clusterTable :: "cluster_entry list"
  sc_timers :: "cluster_timer \<Rightarrow> timer"
  sc_waitingTime :: simtime
  PreHeadChange :: simtime
  collectingTime :: simtime
  iniTime :: simtime
  nbClearInterval :: simtime
  retryTimes :: u32
  sc_now :: simtime
  sc_out :: "cluster_output list"

type_synonym cluster_step_fun = "simple_cluster \<Rightarrow> simple_cluster outcome"

text \<open>\<open>initialize\<close> in both of its stages.\<close>

definition cluster_initialize :: "nid \<Rightarrow> int \<Rightarrow> simtime \<Rightarrow> simtime \<Rightarrow> simtime \<Rightarrow> u32 \<Rightarrow> simple_cluster" where
  "cluster_initialize nid index startTime waiting collecting retries =
     \<lparr>sc_nid = nid, sc_nodeIndex = index, sc_state = INI, sc_maxNeighbor = nid, sc_neighbors = {}, clusterHeads = {},
      clusterTable = [], sc_timers = (\<lambda>_. Idle)(StartTimer := Scheduled startTime), sc_waitingTime = waiting,
      PreHeadChange = waiting, collectingTime = collecting, iniTime = seconds 1, nbClearInterval = 5 * 10 ^ 11,
      retryTimes = retries, sc_now = 0, sc_out = []\<rparr>"

definition sc_isHead :: "simple_cluster \<Rightarrow> bool" where "sc_isHead s \<longleftrightarrow> sc_state s = HEAD"
definition sc_isPreHead :: "simple_cluster \<Rightarrow> bool" where "sc_isPreHead s \<longleftrightarrow> sc_state s = PREHEAD"
definition sc_isGateWay :: "simple_cluster \<Rightarrow> bool" where "sc_isGateWay s \<longleftrightarrow> sc_state s = GATEWAY"

definition isMax :: "simple_cluster \<Rightarrow> bool" where "isMax s \<longleftrightarrow> sc_nid s = sc_maxNeighbor s"

section \<open>Timers and messages\<close>

definition sc_cancel :: "cluster_timer \<Rightarrow> simple_cluster \<Rightarrow> simple_cluster" where
  "sc_cancel x s = s\<lparr>sc_timers := (sc_timers s)(x := cancelIfThere (sc_timers s x))\<rparr>"

definition sc_schedule :: "cluster_timer \<Rightarrow> simtime \<Rightarrow> cluster_step_fun" where
  "sc_schedule x t s = bindE (schedule (sc_timers s x) t) (\<lambda>tm. Inr (s\<lparr>sc_timers := (sc_timers s)(x := tm)\<rparr>))"

definition sendCluster :: "cluster_packet_type \<Rightarrow> simple_cluster \<Rightarrow> simple_cluster" where
  "sendCluster type s = s\<lparr>sc_out := sc_out s @ [ClusterMessage type (sc_nid s) (sc_nodeIndex s)]\<rparr>"

definition sendAuth :: "int \<Rightarrow> simtime \<Rightarrow> simple_cluster \<Rightarrow> simple_cluster" where
  "sendAuth type time s = s\<lparr>sc_out := sc_out s @ [AuthMessage type time]\<rparr>"

definition scheduleHello :: "simtime \<Rightarrow> cluster_step_fun" where
  "scheduleHello delay s = sc_schedule Hello (sc_now s + delay) (sendCluster CALL (sc_cancel Hello s))"

definition scheduleWait :: cluster_step_fun where
  "scheduleWait s = sc_schedule Wait (sc_now s + sc_waitingTime s) (sc_cancel Wait s)"

definition scheduleRetry :: "simtime \<Rightarrow> cluster_step_fun" where
  "scheduleRetry delay s =
     (if retryTimes s > 0
      then sc_schedule Retry (sc_now s + delay) (sendCluster INIT (s\<lparr>retryTimes := retryTimes s - 1\<rparr>))
      else Inr s)"

section \<open>Changes of the role\<close>

definition becomeMember :: cluster_step_fun where
  "becomeMember s =
     bindE (sc_schedule NeighborsClear (sc_now s + nbClearInterval s) (sc_cancel NeighborsClear (sc_cancel Prehead s))) (\<lambda>s1.
     bindE (scheduleWait (sc_cancel Hello s1)) (\<lambda>s2. Inr (s2\<lparr>sc_state := MEMBER\<rparr>)))"

definition becomePrehead :: "simtime \<Rightarrow> cluster_step_fun" where
  "becomePrehead delay s =
     bindE (sc_schedule Prehead (sc_now s + PreHeadChange s) (sc_cancel Wait s)) (\<lambda>s1.
     scheduleHello delay (s1\<lparr>sc_state := PREHEAD\<rparr>))"

definition becomeHead :: "simtime \<Rightarrow> cluster_step_fun" where
  "becomeHead delay s = scheduleHello delay ((sc_cancel Wait s)\<lparr>sc_state := HEAD\<rparr>)"

definition becomeGateway :: cluster_step_fun where
  "becomeGateway s =
     bindE (sc_schedule NeighborsClear (sc_now s + nbClearInterval s) (sc_cancel NeighborsClear s)) (\<lambda>s1.
     bindE (scheduleWait (sc_cancel Hello s1)) (\<lambda>s2. Inr (s2\<lparr>sc_state := GATEWAY\<rparr>)))"

section \<open>Messages arrive\<close>

text \<open>\<open>std::set::insert\<close> keeps the entry of a head that is there already.\<close>

definition insert_entry :: "cluster_entry \<Rightarrow> simple_cluster \<Rightarrow> simple_cluster" where
  "insert_entry e s =
     (if ce_clusterhead e \<in> ce_clusterhead ` set (clusterTable s) then s else s\<lparr>clusterTable := e # clusterTable s\<rparr>)"

definition hear_call :: "int \<Rightarrow> cluster_step_fun" where
  "hear_call index s =
     (case sc_state s of
        INI \<Rightarrow> bindE (becomeMember s) (\<lambda>s1. Inr (sc_cancel Collect (sc_cancel Retry s1)))
      | MEMBER \<Rightarrow> bindE (if card (clusterHeads s) > 1 then becomeGateway s else Inr s) scheduleWait
      | GATEWAY \<Rightarrow> bindE (if card (clusterHeads s) = 1 then becomeMember s else Inr s) scheduleWait
      | PREHEAD \<Rightarrow> if sc_nodeIndex s < index then becomeMember s else Inr s
      | HEAD \<Rightarrow> Inr s)"

definition processClusterPacket :: "cluster_packet_type \<Rightarrow> nid \<Rightarrow> int \<Rightarrow> 48 word \<Rightarrow> cluster_step_fun" where
  "processClusterPacket type other index mac s =
     (let s0 = sc_cancel IniTimer s in
      case type of
        INIT \<Rightarrow> Inr (s0\<lparr>sc_neighbors := insert index (sc_neighbors s0),
                       sc_maxNeighbor := (if nid_less (sc_maxNeighbor s0) other then other else sc_maxNeighbor s0)\<rparr>)
      | CALL \<Rightarrow> bindE (hear_call index (s0\<lparr>clusterHeads := insert index (clusterHeads s0)\<rparr>)) (\<lambda>s1.
               Inr (insert_entry \<lparr>ce_clusterhead = other, ce_headAddr = mac, ce_lastUpdate = sc_now s1\<rparr> s1))
      | ACK \<Rightarrow> Inr s0)"

definition processAuthPacket :: "(nid \<Rightarrow> bool) \<Rightarrow> nid \<Rightarrow> int \<Rightarrow> simtime \<Rightarrow> simple_cluster \<Rightarrow> simple_cluster" where
  "processAuthPacket known other type time s = (if known other \<and> type = 0 then sendAuth 1 time s else s)"

section \<open>A timer expires\<close>

definition handleSelfMessage :: "cluster_timer \<Rightarrow> simtime \<Rightarrow> cluster_step_fun" where
  "handleSelfMessage x delay s =
     (case x of
        StartTimer \<Rightarrow>
          if sc_now s > 0 then Inr (sendAuth 0 (sc_now s) s)
          else bindE (sc_schedule IniTimer (iniTime s) (sendCluster INIT s)) (\<lambda>s1.
               bindE (sc_schedule Collect (sc_now s1 + collectingTime s1) s1) (scheduleRetry delay))
      | Collect \<Rightarrow>
          let s1 = sc_cancel Retry s in
          if isMax s1 then becomeHead delay s1 else scheduleWait s1
      | Retry \<Rightarrow> if retryTimes s > 1 then scheduleRetry delay s else Inr s
      | Wait \<Rightarrow> if sc_state s = INI \<or> sc_now s < seconds 1 then becomePrehead delay s else becomeHead delay s
      | Hello \<Rightarrow> scheduleHello delay s
      | IniTimer \<Rightarrow> Inr s
      | NeighborsClear \<Rightarrow> sc_schedule NeighborsClear (sc_now s + nbClearInterval s) (s\<lparr>clusterHeads := {}\<rparr>)
      | Prehead \<Rightarrow> becomeHead delay s)"

text \<open>The simulator takes the message out of its queue before it calls the handler.\<close>

definition timer_fires :: "cluster_timer \<Rightarrow> simtime \<Rightarrow> cluster_step_fun" where
  "timer_fires x delay s = handleSelfMessage x delay (s\<lparr>sc_timers := (sc_timers s)(x := Idle)\<rparr>)"

section \<open>Runs\<close>

text \<open>
  The steps of a node. Nothing is received before the start message at time 0 has been handled
  (a transmission takes time), and time does not pass a scheduled message.
\<close>

inductive quiet_step :: "simple_cluster \<Rightarrow> simple_cluster outcome \<Rightarrow> bool" where
  hear: "\<not> isScheduled (sc_timers s StartTimer) \<Longrightarrow> type \<noteq> CALL \<Longrightarrow> quiet_step s (processClusterPacket type other index mac s)"
| auth: "quiet_step s (Inr (processAuthPacket known other t time s))"
| timer: "sc_timers s x = Scheduled (sc_now s) \<Longrightarrow> 0 \<le> delay \<Longrightarrow> quiet_step s (timer_fires x delay s)"
| time: "sc_now s \<le> t \<Longrightarrow> \<forall>x due. sc_timers s x = Scheduled due \<longrightarrow> t \<le> due \<Longrightarrow> quiet_step s (Inr (s\<lparr>sc_now := t\<rparr>))"

inductive cluster_step :: "simple_cluster \<Rightarrow> simple_cluster outcome \<Rightarrow> bool" where
  quiet: "quiet_step s r \<Longrightarrow> cluster_step s r"
| call: "\<not> isScheduled (sc_timers s StartTimer) \<Longrightarrow> cluster_step s (processClusterPacket CALL other index mac s)"

inductive_cases quiet_stepE: "quiet_step s r"
inductive_cases cluster_stepE: "cluster_step s r"

section \<open>The invariant\<close>

text \<open>
  Which timers run depends on the role; \<open>up\<close> is the time by which a node that hears no head
  has become one itself.
\<close>

definition due_in :: "timer \<Rightarrow> simtime \<Rightarrow> simtime \<Rightarrow> bool" where
  "due_in tm lo hi \<longleftrightarrow> (\<exists>t. tm = Scheduled t \<and> lo \<le> t \<and> t \<le> hi)"

definition due :: "timer \<Rightarrow> simtime" where
  "due tm = (case tm of Scheduled t \<Rightarrow> t | _ \<Rightarrow> 0)"

fun role_inv :: "cluster_state \<Rightarrow> simple_cluster \<Rightarrow> bool" where
  "role_inv INI s \<longleftrightarrow> sc_timers s Prehead = Idle \<and> sc_timers s Hello = Idle \<and> sc_timers s NeighborsClear = Idle
     \<and> (if isScheduled (sc_timers s StartTimer)
        then sc_timers s StartTimer = Scheduled 0 \<and> sc_now s = 0 \<and> (\<forall>x. x \<noteq> StartTimer \<longrightarrow> sc_timers s x = Idle)
        else if isScheduled (sc_timers s Collect)
        then due_in (sc_timers s Collect) (sc_now s) (sc_now s + collectingTime s) \<and> sc_timers s Wait = Idle \<and> sc_timers s StartTimer = Idle
        else due_in (sc_timers s Wait) (sc_now s) (sc_now s + sc_waitingTime s) \<and> sc_timers s Retry = Idle
          \<and> sc_timers s StartTimer = Idle \<and> sc_timers s Collect = Idle)"
| "role_inv PREHEAD s \<longleftrightarrow> due_in (sc_timers s Prehead) (sc_now s) (sc_now s + sc_waitingTime s)
     \<and> isScheduled (sc_timers s Hello) \<and> sc_timers s Wait = Idle"
| "role_inv HEAD s \<longleftrightarrow> isScheduled (sc_timers s Hello) \<and> sc_timers s Wait = Idle \<and> sc_timers s Prehead = Idle"
| "role_inv _ s \<longleftrightarrow> due_in (sc_timers s Wait) (sc_now s) (sc_now s + sc_waitingTime s)
     \<and> isScheduled (sc_timers s NeighborsClear) \<and> sc_timers s Hello = Idle \<and> sc_timers s Prehead = Idle"

definition sc_inv :: "simple_cluster \<Rightarrow> bool" where
  "sc_inv s \<longleftrightarrow> (\<forall>x. sc_timers s x \<noteq> Deleted) \<and> 0 \<le> sc_waitingTime s \<and> 0 \<le> collectingTime s
     \<and> PreHeadChange s = sc_waitingTime s \<and> 0 \<le> sc_now s
     \<and> (sc_state s \<noteq> INI \<longrightarrow> sc_timers s Collect = Idle \<and> sc_timers s Retry = Idle \<and> sc_timers s StartTimer = Idle)
     \<and> role_inv (sc_state s) s"

definition head_by :: "simple_cluster \<Rightarrow> simtime" where
  "head_by s =
     (case sc_state s of
        HEAD \<Rightarrow> sc_now s
      | PREHEAD \<Rightarrow> due (sc_timers s Prehead)
      | INI \<Rightarrow>
          if isScheduled (sc_timers s StartTimer) then collectingTime s + 2 * sc_waitingTime s
          else if isScheduled (sc_timers s Collect) then due (sc_timers s Collect) + 2 * sc_waitingTime s
          else due (sc_timers s Wait) + sc_waitingTime s
      | _ \<Rightarrow> due (sc_timers s Wait) + sc_waitingTime s)"

lemma due_Scheduled [simp]: "due (Scheduled t) = t" by (simp add: due_def)
lemma due_in_Scheduled [simp]: "due_in (Scheduled t) lo hi \<longleftrightarrow> lo \<le> t \<and> t \<le> hi" by (simp add: due_in_def)
lemma due_in_Idle [simp]: "\<not> due_in Idle lo hi" by (simp add: due_in_def)
lemma cancelIfThere_Idle: "tm \<noteq> Deleted \<Longrightarrow> cancelIfThere tm = Idle" by (cases tm) simp_all

lemma cluster_initialize_inv:
  "0 \<le> waiting \<Longrightarrow> 0 \<le> collecting \<Longrightarrow> sc_inv (cluster_initialize nid index 0 waiting collecting retries)"
  by (simp add: sc_inv_def cluster_initialize_def)

text \<open>The head is due in the future, and not too far.\<close>

lemma head_by_bound:
  assumes "sc_inv s" and "sc_state s \<noteq> HEAD"
  shows "sc_now s \<le> head_by s \<and> head_by s \<le> sc_now s + collectingTime s + 2 * sc_waitingTime s"
  using assms by (cases "sc_state s") (auto simp: sc_inv_def head_by_def due_in_def split: if_splits)

lemmas sc_timer_defs = sc_cancel_def sc_schedule_def sendCluster_def sendAuth_def scheduleHello_def scheduleWait_def
  scheduleRetry_def

text \<open>The changes of the role, from any state with existing timers.\<close>

definition timers_exist :: "simple_cluster \<Rightarrow> bool" where
  "timers_exist s \<longleftrightarrow> (\<forall>x. sc_timers s x \<noteq> Deleted) \<and> 0 \<le> sc_waitingTime s \<and> 0 \<le> collectingTime s
     \<and> PreHeadChange s = sc_waitingTime s \<and> 0 \<le> sc_now s"

lemma sc_inv_exist: "sc_inv s \<Longrightarrow> timers_exist s"
  by (simp add: sc_inv_def timers_exist_def)

lemma scheduleWait_eq:
  "timers_exist s \<Longrightarrow> scheduleWait s = Inr (s\<lparr>sc_timers := (sc_timers s)(Wait := Scheduled (sc_now s + sc_waitingTime s))\<rparr>)"
  by (simp add: sc_timer_defs timers_exist_def cancelIfThere_Idle)

lemma scheduleHello_eq:
  "timers_exist s \<Longrightarrow> scheduleHello delay s = Inr (s\<lparr>sc_timers := (sc_timers s)(Hello := Scheduled (sc_now s + delay)),
     sc_out := sc_out s @ [ClusterMessage CALL (sc_nid s) (sc_nodeIndex s)]\<rparr>)"
  by (simp add: sc_timer_defs timers_exist_def cancelIfThere_Idle)

lemma becomeMember_eq:
  "timers_exist s \<Longrightarrow> becomeMember s = Inr (s\<lparr>sc_state := MEMBER, sc_timers := (sc_timers s)(Prehead := Idle, Hello := Idle,
     NeighborsClear := Scheduled (sc_now s + nbClearInterval s), Wait := Scheduled (sc_now s + sc_waitingTime s))\<rparr>)"
  by (auto simp: becomeMember_def sc_timer_defs timers_exist_def cancelIfThere_Idle fun_eq_iff)

lemma becomeGateway_eq:
  "timers_exist s \<Longrightarrow> becomeGateway s = Inr (s\<lparr>sc_state := GATEWAY, sc_timers := (sc_timers s)(Hello := Idle,
     NeighborsClear := Scheduled (sc_now s + nbClearInterval s), Wait := Scheduled (sc_now s + sc_waitingTime s))\<rparr>)"
  by (auto simp: becomeGateway_def sc_timer_defs timers_exist_def cancelIfThere_Idle fun_eq_iff)

lemma becomePrehead_eq:
  "timers_exist s \<Longrightarrow> sc_timers s Prehead = Idle \<Longrightarrow>
   becomePrehead delay s = Inr (s\<lparr>sc_state := PREHEAD, sc_timers := (sc_timers s)(Wait := Idle,
     Prehead := Scheduled (sc_now s + sc_waitingTime s), Hello := Scheduled (sc_now s + delay)),
     sc_out := sc_out s @ [ClusterMessage CALL (sc_nid s) (sc_nodeIndex s)]\<rparr>)"
  by (auto simp: becomePrehead_def sc_timer_defs timers_exist_def cancelIfThere_Idle fun_eq_iff)

lemma becomeHead_eq:
  "timers_exist s \<Longrightarrow> becomeHead delay s = Inr (s\<lparr>sc_state := HEAD, sc_timers := (sc_timers s)(Wait := Idle,
     Hello := Scheduled (sc_now s + delay)),
     sc_out := sc_out s @ [ClusterMessage CALL (sc_nid s) (sc_nodeIndex s)]\<rparr>)"
  by (auto simp: becomeHead_def sc_timer_defs timers_exist_def cancelIfThere_Idle fun_eq_iff)

lemmas role_changes = scheduleWait_eq scheduleHello_eq becomeMember_eq becomeGateway_eq becomePrehead_eq becomeHead_eq

lemma timers_exist_frame [simp]:
  "timers_exist (s\<lparr>sc_state := st\<rparr>) = timers_exist s" "timers_exist (s\<lparr>sc_out := out\<rparr>) = timers_exist s"
  "timers_exist (s\<lparr>clusterHeads := hs\<rparr>) = timers_exist s" "timers_exist (s\<lparr>retryTimes := n\<rparr>) = timers_exist s"
  "tm \<noteq> Deleted \<Longrightarrow> timers_exist s \<Longrightarrow> timers_exist (s\<lparr>sc_timers := (sc_timers s)(x := tm)\<rparr>)"
  by (simp_all add: timers_exist_def)

lemma timers_exist_replaced [simp]:
  "timers_exist s \<Longrightarrow> timers_exist (s\<lparr>sc_timers := T\<rparr>) = (\<forall>x. T x \<noteq> Deleted)"
  by (simp add: timers_exist_def)

section \<open>The timers\<close>

lemma timer_fires_ok:
  assumes inv: "sc_inv s" and due: "sc_timers s x = Scheduled (sc_now s)" and delay: "0 \<le> delay"
  shows "\<exists>s'. timer_fires x delay s = Inr s' \<and> sc_inv s' \<and> (sc_state s' = HEAD \<or> (sc_state s \<noteq> HEAD \<and> head_by s' \<le> head_by s))"
proof -
  let ?s = "s\<lparr>sc_timers := (sc_timers s)(x := Idle)\<rparr>"
  have ex: "timers_exist s" "timers_exist ?s" using sc_inv_exist [OF inv] by simp_all
  show ?thesis
  proof (cases x)
    case Wait
    then have roles: "sc_state s = INI \<or> sc_state s = MEMBER \<or> sc_state s = GATEWAY" and pre: "sc_timers s Prehead = Idle"
      using inv due by (cases "sc_state s"; auto simp: sc_inv_def)+
    have "\<exists>s'. becomePrehead delay ?s = Inr s' \<and> sc_inv s' \<and> sc_state s' = PREHEAD \<and> head_by s' = sc_now s + sc_waitingTime s"
      using roles inv ex(1) pre Wait due delay
      by (elim disjE) (simp_all add: becomePrehead_eq sc_inv_def head_by_def timers_exist_def split: if_splits)
    moreover have "\<exists>s'. becomeHead delay ?s = Inr s' \<and> sc_inv s' \<and> sc_state s' = HEAD" if "sc_state s \<noteq> INI"
      using roles inv ex(1) pre Wait due delay that
      by (elim disjE) (simp_all add: becomeHead_eq sc_inv_def timers_exist_def)
    moreover have "head_by s = sc_now s + sc_waitingTime s"
      using roles inv Wait due by (elim disjE) (simp_all add: sc_inv_def head_by_def split: if_splits)
    moreover have "timer_fires x delay s = (if sc_state s = INI \<or> sc_now s < seconds 1 then becomePrehead delay ?s else becomeHead delay ?s)"
      using Wait by (simp add: timer_fires_def handleSelfMessage_def)
    ultimately show ?thesis
      using roles by (metis cluster_state.distinct order_refl)
  next
    case StartTimer
    then have "sc_state s = INI" using inv due by (auto simp: sc_inv_def)
    with inv due StartTimer have now: "sc_now s = 0" and idle: "\<forall>y. y \<noteq> StartTimer \<longrightarrow> sc_timers s y = Idle"
      and range: "0 \<le> sc_waitingTime s" "0 \<le> collectingTime s" "PreHeadChange s = sc_waitingTime s"
      by (simp_all add: sc_inv_def)
    let ?T = "(sc_timers s)(StartTimer := Idle, IniTimer := Scheduled (iniTime s), Collect := Scheduled (collectingTime s))"
    have "timer_fires StartTimer delay s = Inr (s\<lparr>sc_timers := (if retryTimes s > 0 then ?T(Retry := Scheduled delay) else ?T),
        retryTimes := (if retryTimes s > 0 then retryTimes s - 1 else retryTimes s),
        sc_out := sc_out s @ ClusterMessage INIT (sc_nid s) (sc_nodeIndex s)
          # (if retryTimes s > 0 then [ClusterMessage INIT (sc_nid s) (sc_nodeIndex s)] else [])\<rparr>)"
      using idle now by (simp add: timer_fires_def handleSelfMessage_def sc_timer_defs)
    then show ?thesis
      using range now idle StartTimer \<open>sc_state s = INI\<close> due by (simp add: sc_inv_def head_by_def)
  next
    case Hello
    then have "sc_state s = HEAD \<or> sc_state s = PREHEAD"
      using inv due by (cases "sc_state s") (auto simp: sc_inv_def)
    then show ?thesis
      using inv due delay ex Hello unfolding timer_fires_def handleSelfMessage_def
      by (auto simp: role_changes sc_inv_def head_by_def)
  next
    case Collect
    then have "sc_state s = INI" using inv due by (auto simp: sc_inv_def)
    then show ?thesis
      using inv due delay ex Collect unfolding timer_fires_def handleSelfMessage_def
      by (auto simp: role_changes sc_inv_def head_by_def sc_cancel_def Let_def cancelIfThere_Idle timers_exist_def split: if_splits)
  next
    case Retry
    then have "sc_state s = INI" using inv due by (auto simp: sc_inv_def)
    then show ?thesis
      using inv due delay ex Retry unfolding timer_fires_def handleSelfMessage_def
      by (auto simp: sc_timer_defs sc_inv_def head_by_def split: if_splits)
  next
    case IniTimer
    then show ?thesis
      using inv due delay ex unfolding timer_fires_def handleSelfMessage_def
      by (cases "sc_state s") (auto simp: sc_inv_def head_by_def split: if_splits)
  next
    case NeighborsClear
    then show ?thesis
      using inv due delay ex unfolding timer_fires_def handleSelfMessage_def
      by (cases "sc_state s") (auto simp: sc_timer_defs sc_inv_def head_by_def split: if_splits)
  next
    case Prehead
    then have "sc_state s = PREHEAD" using inv due by (cases "sc_state s") (auto simp: sc_inv_def)
    then show ?thesis
      using inv due delay ex Prehead unfolding timer_fires_def handleSelfMessage_def
      by (auto simp: role_changes sc_inv_def head_by_def)
  qed
qed

section \<open>Messages\<close>

lemma quiet_message_ok:
  assumes inv: "sc_inv s" and "type \<noteq> CALL"
  shows "\<exists>s'. processClusterPacket type other index mac s = Inr s' \<and> sc_inv s' \<and> sc_state s' = sc_state s \<and> sc_now s' = sc_now s
    \<and> head_by s' = head_by s"
  using assms
  by (cases type; cases "sc_state s") (auto simp: processClusterPacket_def sc_cancel_def sc_inv_def head_by_def Let_def cancelIfThere_Idle)

lemma call_ok:
  assumes inv: "sc_inv s" and started: "\<not> isScheduled (sc_timers s StartTimer)"
  shows "\<exists>s'. processClusterPacket CALL other index mac s = Inr s' \<and> sc_inv s' \<and> (sc_state s = HEAD \<longrightarrow> sc_state s' = HEAD)"
proof -
  have ex: "timers_exist s" and st: "sc_timers s StartTimer = Idle"
    using sc_inv_exist [OF inv] started by (auto simp: timers_exist_def) (cases "sc_timers s StartTimer"; simp)
  have entry: "sc_inv (insert_entry e t) = sc_inv t" "sc_state (insert_entry e t) = sc_state t" for e t
    by (cases "sc_state t"; simp add: insert_entry_def sc_inv_def)+
  let ?s = "(sc_cancel IniTimer s)\<lparr>clusterHeads := insert index (clusterHeads s)\<rparr>"
  have ex': "timers_exist ?s"
    using ex by (simp add: sc_cancel_def timers_exist_def cancelIfThere_Idle)
  have "\<exists>s'. hear_call index ?s = Inr s' \<and> sc_inv s' \<and> (sc_state s = HEAD \<longrightarrow> sc_state s' = HEAD)"
    using inv st ex ex'
    by (cases "sc_state s") (auto simp: hear_call_def role_changes sc_cancel_def sc_inv_def cancelIfThere_Idle)
  then show ?thesis using entry by (auto simp: processClusterPacket_def Let_def sc_cancel_def)
qed

section \<open>Whole runs\<close>

lemma time_ok:
  assumes inv: "sc_inv s" and later: "sc_now s \<le> t" and before: "\<forall>x due. sc_timers s x = Scheduled due \<longrightarrow> t \<le> due"
  shows "sc_inv (s\<lparr>sc_now := t\<rparr>) \<and> (sc_state s \<noteq> HEAD \<longrightarrow> head_by (s\<lparr>sc_now := t\<rparr>) = head_by s)"
proof -
  have step: "due_in tm t (t + d)" if "due_in tm (sc_now s) (sc_now s + d)" "tm = sc_timers s x" for tm x d
    using that later before by (auto simp: due_in_def)
  have start: "t = 0" if "sc_state s = INI" "isScheduled (sc_timers s StartTimer)"
    using that inv later before by (force simp: sc_inv_def)
  show ?thesis
    using inv later start by (cases "sc_state s") (auto simp: sc_inv_def head_by_def intro: step)
qed

lemma quiet_step_ok:
  assumes step: "quiet_step s r" and inv: "sc_inv s"
  shows "\<exists>s'. r = Inr s' \<and> sc_inv s' \<and> (sc_state s' = HEAD \<or> (sc_state s \<noteq> HEAD \<and> head_by s' \<le> head_by s))"
  using step
proof cases
  case (hear type other index mac)
  then show ?thesis using quiet_message_ok [OF inv, of type other index mac] by auto
next
  case (auth known other t time)
  then show ?thesis using inv by (cases "sc_state s") (auto simp: processAuthPacket_def sendAuth_def sc_inv_def head_by_def)
next
  case (timer x delay)
  then show ?thesis using timer_fires_ok [OF inv, of x delay] by auto
next
  case (time t)
  then show ?thesis using time_ok [OF inv, of t] by auto
qed

lemma cluster_step_ok:
  assumes step: "cluster_step s r" and inv: "sc_inv s"
  shows "\<exists>s'. r = Inr s' \<and> sc_inv s' \<and> (sc_state s = HEAD \<longrightarrow> sc_state s' = HEAD)"
  using step
proof cases
  case quiet
  then show ?thesis using quiet_step_ok [OF _ inv, of r] by auto
next
  case (call other index mac)
  then show ?thesis using call_ok [OF inv, of other index mac] by auto
qed

inductive cluster_run :: "simple_cluster \<Rightarrow> simple_cluster \<Rightarrow> bool" where
  cluster_start: "cluster_run s s"
| cluster_more: "cluster_run s t \<Longrightarrow> cluster_step t (Inr u) \<Longrightarrow> cluster_run s u"

inductive quiet_run :: "simple_cluster \<Rightarrow> simple_cluster \<Rightarrow> bool" where
  quiet_start: "quiet_run s s"
| quiet_more: "quiet_run s t \<Longrightarrow> quiet_step t (Inr u) \<Longrightarrow> quiet_run s u"

lemma cluster_run_ok:
  "cluster_run s t \<Longrightarrow> sc_inv s \<Longrightarrow> sc_inv t \<and> (sc_state s = HEAD \<longrightarrow> sc_state t = HEAD)"
  by (induction rule: cluster_run.induct) (use cluster_step_ok in fastforce)+

lemma quiet_run_ok:
  "quiet_run s t \<Longrightarrow> sc_inv s \<Longrightarrow> sc_inv t \<and> (sc_state t = HEAD \<or> (sc_state s \<noteq> HEAD \<and> head_by t \<le> head_by s))"
  by (induction rule: quiet_run.induct) (use quiet_step_ok in \<open>fastforce dest: order_trans\<close>)+

section \<open>Properties\<close>

text \<open>
  A node of a cluster protocol whose start time is zero never schedules a message twice nor
  touches one that is gone, whatever messages arrive and in whatever order its timers expire, and
  a node that is head stays head.
\<close>
theorem cluster_head_stays:
  assumes "0 \<le> waiting" and "0 \<le> collecting"
    and "cluster_run (cluster_initialize nid index 0 waiting collecting retries) s"
    and "cluster_step s r"
  shows "\<exists>s'. r = Inr s' \<and> (sc_state s = HEAD \<longrightarrow> sc_state s' = HEAD)"
  using cluster_step_ok [OF assms(4)] cluster_run_ok [OF assms(3) cluster_initialize_inv [OF assms(1,2)]] by blast

definition silent_node :: simple_cluster where
  "silent_node = cluster_initialize (NID 1 2 3 4) 7 0 (seconds 3) (seconds 2) 0"

definition silent_head :: simple_cluster where
  "silent_head = silent_node\<lparr>sc_state := HEAD, sc_now := seconds 10, sc_timers := (\<lambda>_. Idle)(Hello := Scheduled (seconds 102)),
     sc_out := [ClusterMessage INIT (NID 1 2 3 4) 7, ClusterMessage CALL (NID 1 2 3 4) 7]\<rparr>"

lemma all_timers:
  "(\<forall>x. P x) \<longleftrightarrow> P Wait \<and> P StartTimer \<and> P Hello \<and> P Collect \<and> P Retry \<and> P IniTimer \<and> P NeighborsClear \<and> P Prehead"
  by (metis cluster_timer.exhaust)

lemma quiet_fires:
  "quiet_run s t \<Longrightarrow> sc_timers t x = Scheduled (sc_now t) \<Longrightarrow> 0 \<le> delay \<Longrightarrow> timer_fires x delay t = Inr u \<Longrightarrow> quiet_run s u"
  by (metis quiet_more quiet_step.timer)

lemma quiet_waits:
  "quiet_run s u \<Longrightarrow> sc_now u \<le> t \<Longrightarrow> \<forall>x due. sc_timers u x = Scheduled due \<longrightarrow> t \<le> due \<Longrightarrow> quiet_run s (u\<lparr>sc_now := t\<rparr>)"
  by (metis quiet_more quiet_step.time)

lemma silent_head_run: "quiet_run silent_node silent_head"
proof -
  let ?s1 = "silent_node\<lparr>sc_timers := (\<lambda>_. Idle)(IniTimer := Scheduled (seconds 1), Collect := Scheduled (seconds 2)),
    sc_out := [ClusterMessage INIT (NID 1 2 3 4) 7]\<rparr>"
  let ?s2 = "?s1\<lparr>sc_now := seconds 1, sc_timers := (\<lambda>_. Idle)(Collect := Scheduled (seconds 2))\<rparr>"
  let ?s3 = "silent_head\<lparr>sc_now := seconds 2\<rparr>"
  note defs = silent_node_def cluster_initialize_def timer_fires_def handleSelfMessage_def sc_timer_defs seconds_def
    becomeHead_def isMax_def silent_head_def Let_def
  have "quiet_run silent_node ?s1"
    by (rule quiet_fires [OF quiet_start, of _ StartTimer 0]) (auto simp: defs fun_eq_iff)
  then have "quiet_run silent_node (?s1\<lparr>sc_now := seconds 1\<rparr>)"
    by (rule quiet_waits) (auto simp: all_timers defs)
  then have "quiet_run silent_node ?s2"
    by (rule quiet_fires [of _ _ IniTimer 0]) (auto simp: defs fun_eq_iff)
  then have "quiet_run silent_node (?s2\<lparr>sc_now := seconds 2\<rparr>)"
    by (rule quiet_waits) (auto simp: all_timers defs)
  then have "quiet_run silent_node ?s3"
    by (rule quiet_fires [of _ _ Collect "seconds 100"]) (auto simp: defs fun_eq_iff)
  then have "quiet_run silent_node (?s3\<lparr>sc_now := seconds 10\<rparr>)"
    by (rule quiet_waits) (auto simp: all_timers defs)
  moreover have "?s3\<lparr>sc_now := seconds 10\<rparr> = silent_head" by (simp add: defs)
  ultimately show ?thesis by simp
qed

theorem cluster_head_stays_witness:
  "\<exists>s'. processClusterPacket CALL (NID 9 9 9 9) 3 1 silent_head = Inr s' \<and> sc_state s' = HEAD"
proof -
  have "cluster_run silent_node u" if "quiet_run silent_node u" for u
    using that by (induction rule: quiet_run.induct) (auto intro: cluster_run.intros cluster_step.intros)
  then have run: "cluster_run silent_node silent_head" using silent_head_run by blast
  have "cluster_step silent_head (processClusterPacket CALL (NID 9 9 9 9) 3 1 silent_head)"
    by (rule cluster_step.call) (simp add: silent_head_def)
  from cluster_head_stays [OF _ _ run [unfolded silent_node_def] this] show ?thesis
    by (simp add: seconds_def silent_head_def)
qed

text \<open>
  C24. A node that hears no head becomes one: once the collecting time and twice the waiting time
  have passed without a CALL, whatever its role was, it is the head of a cluster.
\<close>
theorem silence_makes_a_head:
  assumes "0 \<le> waiting" and "0 \<le> collecting"
    and "cluster_run (cluster_initialize nid index 0 waiting collecting retries) s"
    and "quiet_run s t" and "sc_now s + collectingTime s + 2 * sc_waitingTime s < sc_now t"
  shows "sc_state t = HEAD"
proof (rule ccontr)
  assume no: "sc_state t \<noteq> HEAD"
  have s: "sc_inv s" using cluster_run_ok [OF assms(3) cluster_initialize_inv [OF assms(1,2)]] by blast
  then have "sc_inv t \<and> sc_state s \<noteq> HEAD \<and> head_by t \<le> head_by s" using quiet_run_ok [OF assms(4)] no by blast
  then show False using head_by_bound [OF s] head_by_bound [of t] no assms(5) by linarith
qed

theorem silence_makes_a_head_witness: "sc_state silent_head = HEAD"
  by (rule silence_makes_a_head [OF _ _ cluster_start silent_head_run [unfolded silent_node_def]])
    (simp_all add: silent_head_def silent_node_def cluster_initialize_def seconds_def)

end
