(* ===== verification/Ordered_Map.thy ===== *)
theory Ordered_Map
  imports Inet_Prelude
begin

text \<open>
  A \<open>std::map\<close> whose order of iteration can be seen, as an association list in the order of its keys.
\<close>

fun map_put :: "('k \<Rightarrow> 'k \<Rightarrow> bool) \<Rightarrow> 'k \<Rightarrow> 'v \<Rightarrow> ('k \<times> 'v) list \<Rightarrow> ('k \<times> 'v) list" where
  "map_put lt k v [] = [(k, v)]"
| "map_put lt k v ((k', v') # xs) =
     (if k = k' then (k, v) # xs else if lt k k' then (k, v) # (k', v') # xs else (k', v') # map_put lt k v xs)"

definition map_erase :: "'k \<Rightarrow> ('k \<times> 'v) list \<Rightarrow> ('k \<times> 'v) list" where
  "map_erase k xs = filter (\<lambda>(k', v). k' \<noteq> k) xs"

lemma map_of_put [simp]: "map_of (map_put lt k v xs) = (map_of xs)(k \<mapsto> v)"
  by (induction xs) (auto simp: fun_eq_iff)

lemma map_of_erase [simp]: "map_of (map_erase k xs) = (map_of xs)(k := None)"
  by (induction xs) (auto simp: fun_eq_iff map_erase_def)

end
