(* ===== verification/Mac_Address.thy ===== *)
theory Mac_Address
  imports Inet_Prelude
begin

text \<open>\<open>linklayer/common/MacAddress.cc\<close>: link layer addresses, six octets in a 64-bit integer.\<close>

unbundle bit_operations_syntax

type_synonym mac_address = u64

definition BROADCAST_MAC :: mac_address where
  "BROADCAST_MAC = 0xFFFFFFFFFFFF"

definition STP_MULTICAST_ADDRESS :: mac_address where
  "STP_MULTICAST_ADDRESS = 0x0180C2000000"

definition mac_isBroadcast :: "mac_address \<Rightarrow> bool" where
  "mac_isBroadcast a \<longleftrightarrow> a = 0xFFFFFFFFFFFF"

text \<open>The least significant bit of the first octet.\<close>

definition mac_isMulticast :: "mac_address \<Rightarrow> bool" where
  "mac_isMulticast a \<longleftrightarrow> 0xFF AND drop_bit 40 a AND 1 \<noteq> 0"

definition mac_compareTo :: "mac_address \<Rightarrow> mac_address \<Rightarrow> int" where
  "mac_compareTo a b = (if a < b then -1 else if a = b then 0 else 1)"

lemma broadcast_is_multicast: "mac_isBroadcast a \<Longrightarrow> mac_isMulticast a"
  by (simp add: mac_isBroadcast_def mac_isMulticast_def)

lemma stp_address_is_multicast: "mac_isMulticast STP_MULTICAST_ADDRESS"
  by code_simp

end
