(* ===== verification/Ipv4_Address.thy ===== *)
theory Ipv4_Address
  imports Mac_Address
begin

text \<open>
  \<open>networklayer/contract/ipv4/Ipv4Address.cc\<close>: addresses and netmasks as 32-bit words, the
  classes of addresses, and what the bit operations on masks mean for prefixes.
\<close>

unbundle bit_operations_syntax

type_synonym ipv4_address = u32

definition UNSPECIFIED_ADDRESS :: ipv4_address where "UNSPECIFIED_ADDRESS = 0"
definition ALLONES_ADDRESS :: ipv4_address where "ALLONES_ADDRESS = 0xFFFFFFFF"

section \<open>Classes of addresses\<close>

definition isUnspecified :: "ipv4_address \<Rightarrow> bool" where "isUnspecified a \<longleftrightarrow> a = 0"

definition isLimitedBroadcastAddress :: "ipv4_address \<Rightarrow> bool" where
  "isLimitedBroadcastAddress a \<longleftrightarrow> a = 0xFFFFFFFF"

definition isMulticast :: "ipv4_address \<Rightarrow> bool" where
  "isMulticast a \<longleftrightarrow> a AND 0xF0000000 = 0xE0000000"

definition isUnicast :: "ipv4_address \<Rightarrow> bool" where
  "isUnicast a \<longleftrightarrow> \<not> isMulticast a \<and> \<not> isLimitedBroadcastAddress a"

definition isLinkLocalMulticast :: "ipv4_address \<Rightarrow> bool" where
  "isLinkLocalMulticast a \<longleftrightarrow> a AND 0xFFFFFF00 = 0xE0000000"

definition getDByte :: "nat \<Rightarrow> ipv4_address \<Rightarrow> u32" where
  "getDByte i a = drop_bit ((3 - i) * 8) a AND 255"

definition address_of_bytes :: "u32 \<Rightarrow> u32 \<Rightarrow> u32 \<Rightarrow> u32 \<Rightarrow> ipv4_address" where
  "address_of_bytes i0 i1 i2 i3 = push_bit 24 i0 OR push_bit 16 i1 OR push_bit 8 i2 OR i3"

definition getIPClass :: "ipv4_address \<Rightarrow> char" where
  "getIPClass a =
     (let buf = getDByte 0 a in
      if buf AND 0x80 = 0 then CHR ''A''
      else if buf AND 0xC0 = 0x80 then CHR ''B''
      else if buf AND 0xE0 = 0xC0 then CHR ''C''
      else if buf AND 0xF0 = 0xE0 then CHR ''D''
      else if buf AND 0xF8 = 0xF0 then CHR ''E'' else CHR ''?'')"

datatype address_category =
  UNSPECIFIED | THIS_NETWORK | LOOPBACK | MULTICAST | BROADCAST | IETF | TEST_NET | IPv6_TO_IPv4_RELAY
  | BENCHMARK | RESERVED | LINKLOCAL | PRIVATE_NETWORK | GLOBAL

definition getAddressCategory :: "ipv4_address \<Rightarrow> address_category" where
  "getAddressCategory a =
     (let addr24 = a AND 0xFFFFFF00 in
      if isUnspecified a then UNSPECIFIED
      else if a AND 0xFF000000 = 0 then THIS_NETWORK
      else if a AND 0xFF000000 = 0x7F000000 then LOOPBACK
      else if isMulticast a then MULTICAST
      else if a = 0xFFFFFFFF then BROADCAST
      else if addr24 = 0xC0000000 then IETF
      else if addr24 = 0xC0000200 \<or> addr24 = 0xC6336400 \<or> addr24 = 0xCB007100 then TEST_NET
      else if addr24 = 0xC0586300 then IPv6_TO_IPv4_RELAY
      else if a AND 0xFFFE0000 = 0xC6120000 then BENCHMARK
      else if a AND 0xF0000000 = 0xF0000000 then RESERVED
      else if a AND 0xFFFF0000 = 0xA9FE0000 then LINKLOCAL
      else if a AND 0xFF000000 = 0x0A000000 \<or> a AND 0xFFF00000 = 0xAC100000 \<or> a AND 0xFFFF0000 = 0xC0A80000
      then PRIVATE_NETWORK else GLOBAL)"

definition getNetwork :: "ipv4_address \<Rightarrow> ipv4_address" where
  "getNetwork a =
     (if getIPClass a = CHR ''A'' then address_of_bytes (getDByte 0 a) 0 0 0
      else if getIPClass a = CHR ''B'' then address_of_bytes (getDByte 0 a) (getDByte 1 a) 0 0
      else if getIPClass a = CHR ''C'' then address_of_bytes (getDByte 0 a) (getDByte 1 a) (getDByte 2 a) 0
      else 0)"

definition getNetworkMask :: "ipv4_address \<Rightarrow> ipv4_address" where
  "getNetworkMask a =
     (if getIPClass a = CHR ''A'' then address_of_bytes 255 0 0 0
      else if getIPClass a = CHR ''B'' then address_of_bytes 255 255 0 0
      else if getIPClass a = CHR ''C'' then address_of_bytes 255 255 255 0
      else 0)"

section \<open>Netmasks\<close>

definition make_netmask_bits :: "int \<Rightarrow> ipv4_address" where
  "make_netmask_bits len = (if len \<ge> 32 then 0xFFFFFFFF else NOT (drop_bit (nat len) 0xFFFFFFFF))"

definition makeNetmask :: "int \<Rightarrow> ipv4_address outcome" where
  "makeNetmask len =
     (if len < 0 \<or> len > 32 then Inl (RuntimeError ''Ipv4Address: wrong netmask length'')
      else Inr (make_netmask_bits len))"

definition getNetmaskLength :: "ipv4_address \<Rightarrow> int" where
  "getNetmaskLength a = (case find (bit a) [0..<32] of Some i \<Rightarrow> 32 - int i | None \<Rightarrow> 0)"

definition isValidNetmask :: "ipv4_address \<Rightarrow> bool" where
  "isValidNetmask a \<longleftrightarrow> a = make_netmask_bits (getNetmaskLength a)"

definition maskedAddrAreEqual :: "ipv4_address \<Rightarrow> ipv4_address \<Rightarrow> ipv4_address \<Rightarrow> bool" where
  "maskedAddrAreEqual a b netmask \<longleftrightarrow> (a XOR b) AND netmask = 0"

definition doAnd :: "ipv4_address \<Rightarrow> ipv4_address \<Rightarrow> ipv4_address" where "doAnd a b = a AND b"

definition makeBroadcastAddress :: "ipv4_address \<Rightarrow> ipv4_address \<Rightarrow> ipv4_address" where
  "makeBroadcastAddress a netmask = a OR NOT netmask"

definition isNetwork :: "ipv4_address \<Rightarrow> ipv4_address \<Rightarrow> bool" where
  "isNetwork a b \<longleftrightarrow> \<not> isUnspecified (getNetworkMask a) \<and> maskedAddrAreEqual a b (getNetworkMask a)"

definition prefixMatches :: "ipv4_address \<Rightarrow> ipv4_address \<Rightarrow> int \<Rightarrow> bool" where
  "prefixMatches a b len =
     (if len < 1 then True else if len > 31 then a = b
      else a AND make_netmask_bits len = b AND make_netmask_bits len)"

definition getNumMatchingPrefixBits :: "ipv4_address \<Rightarrow> ipv4_address \<Rightarrow> int" where
  "getNumMatchingPrefixBits a b =
     (case find (bit (a XOR b)) (rev [0..<32]) of Some i \<Rightarrow> 31 - int i | None \<Rightarrow> 32)"

definition getPrefix :: "ipv4_address \<Rightarrow> int \<Rightarrow> ipv4_address outcome" where
  "getPrefix a len = bindE (makeNetmask len) (\<lambda>m. Inr (doAnd a m))"

section \<open>Masks as prefixes\<close>

lemma all_ones: "(0xFFFFFFFF :: u32) = -1"
  by simp

text \<open>The netmask of a length.\<close>

definition netmask :: "nat \<Rightarrow> ipv4_address" where
  "netmask n = NOT (mask (32 - n))"

lemma bit_netmask: "bit (netmask n) i \<longleftrightarrow> 32 - n \<le> i \<and> i < 32"
  by (auto simp: netmask_def bit_simps)

lemma make_netmask_bits_eq: "n \<le> 32 \<Longrightarrow> make_netmask_bits (int n) = netmask n"
  by (rule bit_word_eqI) (auto simp: make_netmask_bits_def all_ones bit_netmask bit_simps)

lemma find_first:
  "i < n \<Longrightarrow> P i \<Longrightarrow> (\<And>j. j < i \<Longrightarrow> \<not> P j) \<Longrightarrow> find P [0..<n] = Some i"
  by (auto simp: find_Some_iff)

lemma netmask_length:
  assumes "n \<le> 32"
  shows "getNetmaskLength (netmask n) = int n"
proof (cases "n = 0")
  case True
  then have "find (bit (netmask n)) [0..<32] = None" by (auto simp: find_None_iff bit_netmask)
  then show ?thesis using True by (simp add: getNetmaskLength_def)
next
  case False
  then have "find (bit (netmask n)) [0..<32] = Some (32 - n)"
    using assms by (intro find_first) (auto simp: bit_netmask)
  then show ?thesis using assms by (simp add: getNetmaskLength_def)
qed

lemma masked_netmask:
  assumes "n \<le> 32"
  shows "maskedAddrAreEqual a b (netmask n) \<longleftrightarrow> drop_bit (32 - n) a = drop_bit (32 - n) b"
proof
  assume m: "maskedAddrAreEqual a b (netmask n)"
  have "bit a i = bit b i" if "32 - n \<le> i" "i < 32" for i
  proof -
    have "\<not> bit ((a XOR b) AND netmask n) i" using m by (simp add: maskedAddrAreEqual_def)
    then show ?thesis using that by (simp add: bit_simps bit_netmask)
  qed
  moreover have "\<not> bit w i" if "\<not> i < 32" for w :: u32 and i
    using that bit_imp_le_length [of w i] by auto
  ultimately have "bit a (32 - n + i) = bit b (32 - n + i)" for i
    by (cases "32 - n + i < 32") auto
  then show "drop_bit (32 - n) a = drop_bit (32 - n) b"
    by (intro bit_word_eqI) (simp add: bit_simps)
next
  assume d: "drop_bit (32 - n) a = drop_bit (32 - n) b"
  have "bit a i = bit b i" if "32 - n \<le> i" "i < 32" for i
  proof -
    have "bit (drop_bit (32 - n) a) (i - (32 - n)) = bit (drop_bit (32 - n) b) (i - (32 - n))" by (simp add: d)
    then show ?thesis using that by (simp add: bit_simps)
  qed
  then have "(a XOR b) AND netmask n = 0"
    by (intro bit_word_eqI) (auto simp: bit_simps bit_netmask)
  then show "maskedAddrAreEqual a b (netmask n)" by (simp add: maskedAddrAreEqual_def)
qed

lemma unat_netmask:
  assumes "n \<le> 32"
  shows "unat (netmask n) = 2 ^ 32 - 2 ^ (32 - n)"
proof -
  have eq: "netmask n = -1 - mask (32 - n)" by (simp add: netmask_def not_eq_complement)
  have "uint (mask (32 - n) :: u32) = mask (32 - n)" by (simp add: uint_mask_eq)
  then have "unat (mask (32 - n) :: u32) = 2 ^ (32 - n) - 1"
    by (simp only: unat_eq_nat_uint mask_eq_exp_minus_1 [where 'a = int]) (simp add: nat_diff_distrib nat_power_eq)
  moreover have "unat (-1 - mask (32 - n) :: u32) = unat (-1 :: u32) - unat (mask (32 - n) :: u32)"
    by (rule unat_sub) simp
  moreover have "unat (-1 :: u32) = 2 ^ 32 - 1" by (simp add: unsigned_minus_1_eq_mask mask_eq_exp_minus_1)
  ultimately show ?thesis by (simp add: eq)
qed

lemma netmask_less:
  assumes "m \<le> 32" "n \<le> 32"
  shows "netmask m < netmask n \<longleftrightarrow> m < n"
proof -
  have le: "(2 :: nat) ^ (32 - k) \<le> 2 ^ 32" for k by (rule power_increasing) simp_all
  have "netmask m < netmask n \<longleftrightarrow> unat (netmask m) < unat (netmask n)" by (rule word_less_nat_alt)
  also have "\<dots> \<longleftrightarrow> (2 :: nat) ^ (32 - n) < 2 ^ (32 - m)"
    unfolding unat_netmask [OF assms(1)] unat_netmask [OF assms(2)] using le [of m] le [of n] by linarith
  also have "\<dots> \<longleftrightarrow> 32 - n < 32 - m" by simp
  finally show ?thesis using assms by auto
qed

lemma netmask_inject: "m \<le> 32 \<Longrightarrow> n \<le> 32 \<Longrightarrow> netmask m = netmask n \<longleftrightarrow> m = n"
  by (metis netmask_length of_nat_eq_iff)

lemma netmask_length_range: "0 \<le> getNetmaskLength a" "getNetmaskLength a \<le> 32"
  by (auto simp: getNetmaskLength_def find_Some_iff split: option.split)

lemma valid_netmask_iff: "isValidNetmask a \<longleftrightarrow> (\<exists>n \<le> 32. a = netmask n)"
proof
  assume v: "isValidNetmask a"
  let ?n = "nat (getNetmaskLength a)"
  have n: "?n \<le> 32" "int ?n = getNetmaskLength a" using netmask_length_range [of a] by simp_all
  then have "a = netmask ?n" using v make_netmask_bits_eq [OF n(1)] by (simp add: isValidNetmask_def)
  then show "\<exists>n \<le> 32. a = netmask n" using n(1) by blast
next
  assume "\<exists>n \<le> 32. a = netmask n"
  then show "isValidNetmask a" by (auto simp: isValidNetmask_def netmask_length make_netmask_bits_eq)
qed

lemma netmask_0: "netmask 0 = 0"
  by (rule bit_word_eqI) (auto simp: bit_netmask)

end
