(* ===== verification/Ipv4_Routing_Table.thy ===== *)
theory Ipv4_Routing_Table
  imports Ipv4_Address
begin

text \<open>
  \<open>networklayer/ipv4/Ipv4RoutingTable.cc\<close> and the parts of \<open>Ipv4Route\<close> and \<open>InterfaceEntry\<close> it
  uses: unicast and multicast routes in the order of preference, the routing cache, the routes
  that come from the netmasks of the interfaces, and the addresses of a node.
\<close>

section \<open>Interfaces\<close>

text \<open>\<open>InterfaceEntry\<close> with its \<open>Ipv4InterfaceData\<close>, as far as routing and forwarding look at them.\<close>

record ipv4_interface_data =
  ip_address :: ipv4_address
  ip_netmask :: ipv4_address
  ip_metric :: int
  joinedMulticastGroups :: "ipv4_address list"
  multicastTtlThreshold :: int
  multicastListeners :: "ipv4_address list"

record interface_entry =
  if_id :: int
  if_isUp :: bool
  if_isLoopback :: bool
  if_isBroadcast :: bool
  if_isMulticast :: bool
  if_macAddress :: mac_address
  if_mtu :: int
  if_ipv4 :: "ipv4_interface_data option"

definition getProtocolData :: "interface_entry \<Rightarrow> ipv4_interface_data outcome" where
  "getProtocolData ie = (case if_ipv4 ie of Some d \<Rightarrow> Inr d | None \<Rightarrow> Inl (RuntimeError ''no Ipv4InterfaceData''))"

definition hasNetworkAddress :: "ipv4_address \<Rightarrow> interface_entry \<Rightarrow> bool" where
  "hasNetworkAddress a ie \<longleftrightarrow> (\<exists>d. if_ipv4 ie = Some d \<and> ip_address d = a)"

lemma hasNetworkAddress_code [code]:
  "hasNetworkAddress a ie = (case if_ipv4 ie of Some d \<Rightarrow> ip_address d = a | None \<Rightarrow> False)"
  by (auto simp: hasNetworkAddress_def split: option.split)

definition interface_broadcast :: "ipv4_interface_data \<Rightarrow> ipv4_address" where
  "interface_broadcast d = makeBroadcastAddress (ip_address d) (ip_netmask d)"

section \<open>Routes\<close>

datatype route_source =
  MANUAL | IFACENETMASK | ROUTER_ADVERTISEMENT | OWN_ADV_PREFIX | ICMP_REDIRECT | RIP | OSPF | BGP | ZEBRA
  | MANET | MANET2 | DYMO | AODV | EIGRP | LISP | BABEL | ODR | UNKNOWN | ISIS

datatype route_field =
  F_DESTINATION | F_PREFIX_LENGTH | F_NEXTHOP | F_IFACE | F_SOURCE | F_TYPE | F_ADMINDIST | F_METRIC | F_EXPIRYTIME

text \<open>
  A route is an object with an identity. \<open>r_expiry\<close> is \<open>None\<close> for an \<open>Ipv4Route\<close>, which is always
  valid, and the expiry time of a \<open>DsdvIpv4Route\<close>, where zero means never.
\<close>

record ipv4_route =
  r_id :: nat
  r_dest :: ipv4_address
  r_netmask :: ipv4_address
  r_gateway :: ipv4_address
  r_interface :: "int option"
  r_sourceType :: route_source
  r_adminDist :: u32
  r_metric :: int
  r_expiry :: "simtime option"

definition isValid :: "simtime \<Rightarrow> ipv4_route \<Rightarrow> bool" where
  "isValid t r \<longleftrightarrow> (case r_expiry r of None \<Rightarrow> True | Some e \<Rightarrow> e = 0 \<or> e > t)"

text \<open>The output interfaces of a multicast route: interface, leaf, enabled.\<close>

record ipv4_mroute =
  m_id :: nat
  m_origin :: ipv4_address
  m_originNetmask :: ipv4_address
  m_group :: ipv4_address
  m_inInterface :: "int option"
  m_outInterfaces :: "(int \<times> bool \<times> bool) list"
  m_metric :: int

definition mroute_matches :: "ipv4_address \<Rightarrow> ipv4_address \<Rightarrow> ipv4_mroute \<Rightarrow> bool" where
  "mroute_matches origin grp m \<longleftrightarrow>
     (isUnspecified (m_group m) \<or> m_group m = grp) \<and> maskedAddrAreEqual origin (m_origin m) (m_originNetmask m)"

definition addOutInterface :: "int \<times> bool \<times> bool \<Rightarrow> ipv4_mroute \<Rightarrow> ipv4_mroute" where
  "addOutInterface x m = m\<lparr>m_outInterfaces :=
     (if \<exists>y \<in> set (m_outInterfaces m). fst y = fst x
      then (let (a, b) = (takeWhile (\<lambda>y. fst y \<noteq> fst x) (m_outInterfaces m), dropWhile (\<lambda>y. fst y \<noteq> fst x) (m_outInterfaces m))
            in a @ x # tl b)
      else m_outInterfaces m @ [x])\<rparr>"

definition removeOutInterface :: "int \<Rightarrow> ipv4_mroute \<Rightarrow> bool \<times> ipv4_mroute" where
  "removeOutInterface i m =
     (\<exists>y \<in> set (m_outInterfaces m). fst y = i,
      m\<lparr>m_outInterfaces := takeWhile (\<lambda>y. fst y \<noteq> i) (m_outInterfaces m) @ tl (dropWhile (\<lambda>y. fst y \<noteq> i) (m_outInterfaces m))\<rparr>)"

section \<open>The table\<close>

record routing_table =
  routes :: "ipv4_route list"
  multicastRoutes :: "ipv4_mroute list"
  routingCache :: "ipv4_address \<rightharpoonup> nat option"
  localBroadcastAddresses :: "ipv4_address set"
  useAdminDist :: bool
  forwarding :: bool
  multicastForward :: bool
  routerId :: ipv4_address

definition invalidateCache :: "routing_table \<Rightarrow> routing_table" where
  "invalidateCache t = t\<lparr>routingCache := Map.empty, localBroadcastAddresses := {}\<rparr>"

definition routeLessThan :: "bool \<Rightarrow> ipv4_route \<Rightarrow> ipv4_route \<Rightarrow> bool" where
  "routeLessThan useAD a b =
     (if r_netmask a \<noteq> r_netmask b then r_netmask a > r_netmask b
      else if r_dest a \<noteq> r_dest b then r_dest a < r_dest b
      else if useAD \<and> r_adminDist a \<noteq> r_adminDist b then r_adminDist a < r_adminDist b
      else r_metric a < r_metric b)"

definition multicastRouteLessThan :: "ipv4_mroute \<Rightarrow> ipv4_mroute \<Rightarrow> bool" where
  "multicastRouteLessThan a b =
     (if m_originNetmask a \<noteq> m_originNetmask b then m_originNetmask a > m_originNetmask b
      else if m_origin a \<noteq> m_origin b then m_origin a < m_origin b
      else if m_group a \<noteq> m_group b then m_group a > m_group b
      else m_metric a < m_metric b)"

text \<open>\<open>std::upper_bound\<close>: binary search for the first element behind the new one.\<close>

function upper_bound_loop :: "('a \<Rightarrow> bool) \<Rightarrow> 'a list \<Rightarrow> nat \<Rightarrow> nat \<Rightarrow> nat" where
  "upper_bound_loop behind xs first len =
     (if len = 0 then first
      else
        let half = len div 2; middle = first + half in
        if behind (xs ! middle) then upper_bound_loop behind xs first half
        else upper_bound_loop behind xs (middle + 1) (len - half - 1))"
  by pat_completeness auto
termination by (relation "measure (\<lambda>(_, _, _, len). len)") auto

declare upper_bound_loop.simps [simp del]

definition upper_bound :: "('a \<Rightarrow> 'a \<Rightarrow> bool) \<Rightarrow> 'a \<Rightarrow> 'a list \<Rightarrow> nat" where
  "upper_bound lt v xs = upper_bound_loop (lt v) xs 0 (length xs)"

definition insert_at :: "nat \<Rightarrow> 'a \<Rightarrow> 'a list \<Rightarrow> 'a list" where
  "insert_at p x xs = take p xs @ x # drop p xs"

definition insert_sorted :: "('a \<Rightarrow> 'a \<Rightarrow> bool) \<Rightarrow> 'a \<Rightarrow> 'a list \<Rightarrow> 'a list" where
  "insert_sorted lt x xs = insert_at (upper_bound lt x xs) x xs"

section \<open>Looking routes up\<close>

definition route_by_id :: "nat \<Rightarrow> routing_table \<Rightarrow> ipv4_route option" where
  "route_by_id i t = find (\<lambda>r. r_id r = i) (routes t)"

definition route_matches :: "ipv4_address \<Rightarrow> ipv4_route \<Rightarrow> bool" where
  "route_matches a r \<longleftrightarrow> maskedAddrAreEqual a (r_dest r) (r_netmask r)"

definition search_route :: "simtime \<Rightarrow> ipv4_address \<Rightarrow> routing_table \<Rightarrow> ipv4_route option" where
  "search_route now a t = find (\<lambda>r. isValid now r \<and> route_matches a r) (routes t)"

definition search_and_cache :: "simtime \<Rightarrow> ipv4_address \<Rightarrow> routing_table \<Rightarrow> ipv4_route option \<times> routing_table" where
  "search_and_cache now a t =
     (let best = search_route now a t in (best, t\<lparr>routingCache := (routingCache t)(a \<mapsto> map_option r_id best)\<rparr>))"

text \<open>The cache holds pointers; one to a deleted route would be used after its end.\<close>

definition findBestMatchingRoute ::
  "simtime \<Rightarrow> ipv4_address \<Rightarrow> routing_table \<Rightarrow> (ipv4_route option \<times> routing_table) outcome" where
  "findBestMatchingRoute now a t =
     (case routingCache t a of
        Some None \<Rightarrow> Inr (None, t)
      | Some (Some i) \<Rightarrow>
          (case route_by_id i t of
             None \<Rightarrow> Inl (UndefinedBehaviour ''use of a deleted route'')
           | Some r \<Rightarrow> Inr (if isValid now r then (Some r, t) else search_and_cache now a t))
      | None \<Rightarrow> Inr (search_and_cache now a t))"

definition getInterfaceForDestAddr ::
  "simtime \<Rightarrow> ipv4_address \<Rightarrow> routing_table \<Rightarrow> (int option \<times> routing_table) outcome" where
  "getInterfaceForDestAddr now a t =
     bindE (findBestMatchingRoute now a t) (\<lambda>(e, t').
     Inr (case e of Some r \<Rightarrow> r_interface r | None \<Rightarrow> None, t'))"

definition getGatewayForDestAddr ::
  "simtime \<Rightarrow> ipv4_address \<Rightarrow> routing_table \<Rightarrow> (ipv4_address \<times> routing_table) outcome" where
  "getGatewayForDestAddr now a t =
     bindE (findBestMatchingRoute now a t) (\<lambda>(e, t').
     Inr (case e of Some r \<Rightarrow> r_gateway r | None \<Rightarrow> UNSPECIFIED_ADDRESS, t'))"

definition findBestMatchingMulticastRoute ::
  "ipv4_address \<Rightarrow> ipv4_address \<Rightarrow> routing_table \<Rightarrow> ipv4_mroute option" where
  "findBestMatchingMulticastRoute origin grp t = find (mroute_matches origin grp) (multicastRoutes t)"

text \<open>The last valid one of the default routes, which are at the end of the vector.\<close>

definition getDefaultRoute :: "simtime \<Rightarrow> routing_table \<Rightarrow> ipv4_route option" where
  "getDefaultRoute now t = find (isValid now) (takeWhile (\<lambda>r. isUnspecified (r_netmask r)) (rev (routes t)))"

section \<open>Adding and removing routes\<close>

definition internalRemoveRoute :: "nat \<Rightarrow> routing_table \<Rightarrow> bool \<times> routing_table" where
  "internalRemoveRoute i t =
     (if \<exists>r \<in> set (routes t). r_id r = i
      then (True, invalidateCache (t\<lparr>routes := takeWhile (\<lambda>r. r_id r \<noteq> i) (routes t) @ tl (dropWhile (\<lambda>r. r_id r \<noteq> i) (routes t))\<rparr>))
      else (False, t))"

definition removeRoute :: "nat \<Rightarrow> routing_table \<Rightarrow> bool \<times> routing_table" where
  "removeRoute = internalRemoveRoute"

definition deleteRoute :: "nat \<Rightarrow> routing_table \<Rightarrow> bool \<times> routing_table" where
  "deleteRoute = internalRemoveRoute"

definition insert_route :: "ipv4_route \<Rightarrow> routing_table \<Rightarrow> routing_table" where
  "insert_route e t = invalidateCache (t\<lparr>routes := insert_sorted (routeLessThan (useAdminDist t)) e (routes t)\<rparr>)"

definition internalAddRoute :: "simtime \<Rightarrow> ipv4_route \<Rightarrow> routing_table \<Rightarrow> routing_table outcome" where
  "internalAddRoute now e t =
     (if \<not> isValidNetmask (r_netmask e) then Inl (RuntimeError ''addRoute(): wrong netmask in route'')
      else if r_netmask e \<noteq> 0 \<and> r_dest e AND r_netmask e = 0
      then Inl (RuntimeError ''addRoute(): all bits of destination address is 0 inside non zero netmask'')
      else if r_dest e AND NOT (r_netmask e) \<noteq> 0
      then Inl (RuntimeError ''addRoute(): suspicious route: destination IP address has bits set outside netmask'')
      else if r_interface e = None then Inl (RuntimeError ''addRoute(): interface cannot be nullptr'')
      else
        let t1 = (if isUnspecified (r_netmask e)
                  then (case getDefaultRoute now t of None \<Rightarrow> t | Some old \<Rightarrow> snd (deleteRoute (r_id old) t))
                  else t) in
        Inr (insert_route e t1))"

text \<open>A setter of a route that is in the table: it changes the object and reports the change.\<close>

definition routeChanged :: "simtime \<Rightarrow> ipv4_route \<Rightarrow> route_field \<Rightarrow> routing_table \<Rightarrow> routing_table outcome" where
  "routeChanged now e fieldCode t =
     (if fieldCode \<in> {F_DESTINATION, F_PREFIX_LENGTH, F_METRIC} then
        let (found, t') = internalRemoveRoute (r_id e) t in
        bindE (assertE found) (\<lambda>_. internalAddRoute now e t')
      else Inr t)"

definition change_route ::
  "simtime \<Rightarrow> nat \<Rightarrow> (ipv4_route \<Rightarrow> ipv4_route) \<Rightarrow> route_field \<Rightarrow> routing_table \<Rightarrow> routing_table outcome" where
  "change_route now i f fieldCode t =
     (case route_by_id i t of
        None \<Rightarrow> Inl (UndefinedBehaviour ''not a route of this table'')
      | Some r \<Rightarrow>
          if f r = r then Inr t
          else routeChanged now (f r) fieldCode
                 (t\<lparr>routes := map (\<lambda>x. if r_id x = i then f r else x) (routes t)\<rparr>))"

definition setDestination :: "simtime \<Rightarrow> nat \<Rightarrow> ipv4_address \<Rightarrow> routing_table \<Rightarrow> routing_table outcome" where
  "setDestination now i a = change_route now i (\<lambda>r. r\<lparr>r_dest := a\<rparr>) F_DESTINATION"

definition setNetmask :: "simtime \<Rightarrow> nat \<Rightarrow> ipv4_address \<Rightarrow> routing_table \<Rightarrow> routing_table outcome" where
  "setNetmask now i a = change_route now i (\<lambda>r. r\<lparr>r_netmask := a\<rparr>) F_PREFIX_LENGTH"

definition setMetric :: "simtime \<Rightarrow> nat \<Rightarrow> int \<Rightarrow> routing_table \<Rightarrow> routing_table outcome" where
  "setMetric now i m = change_route now i (\<lambda>r. r\<lparr>r_metric := m\<rparr>) F_METRIC"

definition setGateway :: "simtime \<Rightarrow> nat \<Rightarrow> ipv4_address \<Rightarrow> routing_table \<Rightarrow> routing_table outcome" where
  "setGateway now i a = change_route now i (\<lambda>r. r\<lparr>r_gateway := a\<rparr>) F_NEXTHOP"

definition setInterface :: "simtime \<Rightarrow> nat \<Rightarrow> int option \<Rightarrow> routing_table \<Rightarrow> routing_table outcome" where
  "setInterface now i ie = change_route now i (\<lambda>r. r\<lparr>r_interface := ie\<rparr>) F_IFACE"

definition setSourceType :: "simtime \<Rightarrow> nat \<Rightarrow> route_source \<Rightarrow> routing_table \<Rightarrow> routing_table outcome" where
  "setSourceType now i s = change_route now i (\<lambda>r. r\<lparr>r_sourceType := s\<rparr>) F_SOURCE"

definition setAdminDist :: "simtime \<Rightarrow> nat \<Rightarrow> u32 \<Rightarrow> routing_table \<Rightarrow> routing_table outcome" where
  "setAdminDist now i d = change_route now i (\<lambda>r. r\<lparr>r_adminDist := d\<rparr>) F_ADMINDIST"

definition purge :: "simtime \<Rightarrow> routing_table \<Rightarrow> routing_table" where
  "purge now t =
     (if list_all (isValid now) (routes t) then t
      else invalidateCache (t\<lparr>routes := filter (isValid now) (routes t)\<rparr>))"

section \<open>Routes of interfaces\<close>

definition deleteInterfaceRoutes :: "int \<Rightarrow> routing_table \<Rightarrow> routing_table" where
  "deleteInterfaceRoutes i t =
     (let keep = filter (\<lambda>r. r_interface r \<noteq> Some i) (routes t);
          mkeep = filter (\<lambda>m. m_inInterface m \<noteq> Some i) (multicastRoutes t);
          mcut = map (\<lambda>m. snd (removeOutInterface i m)) mkeep;
          changed = (length keep < length (routes t) \<or> length mkeep < length (multicastRoutes t)
                     \<or> list_ex (\<lambda>m. fst (removeOutInterface i m)) mkeep);
          t' = t\<lparr>routes := keep, multicastRoutes := mcut\<rparr>
      in if changed then invalidateCache t' else t')"

text \<open>
  \<open>updateNetmaskRoutes\<close>: \<open>named\<close> tells whether an interface matches the parameter
  \<open>netmaskRoutes\<close>, \<open>fresh\<close> is the identity of the first new route.
\<close>

definition netmask_route :: "nat \<Rightarrow> interface_entry \<Rightarrow> ipv4_interface_data \<Rightarrow> ipv4_route" where
  "netmask_route i ie d =
     \<lparr>r_id = i, r_dest = doAnd (ip_address d) (ip_netmask d), r_netmask = ip_netmask d,
      r_gateway = UNSPECIFIED_ADDRESS, r_interface = Some (if_id ie), r_sourceType = IFACENETMASK,
      r_adminDist = 0, r_metric = ip_metric d, r_expiry = None\<rparr>"

fun add_netmask_routes :: "(interface_entry \<Rightarrow> bool) \<Rightarrow> nat \<Rightarrow> interface_entry list \<Rightarrow> routing_table \<Rightarrow> routing_table" where
  "add_netmask_routes named fresh [] t = t"
| "add_netmask_routes named fresh (ie # ies) t =
     (if if_isUp ie \<and> named ie then
        (case if_ipv4 ie of
           Some d \<Rightarrow>
             if ip_netmask d \<noteq> ALLONES_ADDRESS
             then add_netmask_routes named (fresh + 1) ies (insert_route (netmask_route fresh ie d) t)
             else add_netmask_routes named fresh ies t
         | None \<Rightarrow> add_netmask_routes named fresh ies t)
      else add_netmask_routes named fresh ies t)"

definition delete_netmask_routes :: "routing_table \<Rightarrow> routing_table" where
  "delete_netmask_routes t =
     (if list_ex (\<lambda>r. r_sourceType r = IFACENETMASK) (routes t)
      then invalidateCache (t\<lparr>routes := filter (\<lambda>r. r_sourceType r \<noteq> IFACENETMASK) (routes t)\<rparr>) else t)"

definition updateNetmaskRoutes ::
  "(interface_entry \<Rightarrow> bool) \<Rightarrow> nat \<Rightarrow> interface_entry list \<Rightarrow> routing_table \<Rightarrow> routing_table" where
  "updateNetmaskRoutes named fresh ies t = add_netmask_routes named fresh ies (delete_netmask_routes t)"

section \<open>Multicast routes\<close>

definition check_out_interfaces :: "(int \<Rightarrow> bool) \<Rightarrow> ipv4_mroute \<Rightarrow> unit outcome" where
  "check_out_interfaces capable m =
     (if list_ex (\<lambda>x. \<not> capable (fst x) \<or> m_inInterface m = Some (fst x)) (m_outInterfaces m)
      then Inl (RuntimeError ''addMulticastRoute(): output interface must be multicast capable and not the input interface'')
      else Inr ())"

text \<open>\<open>capable\<close> tells which interfaces are multicast capable.\<close>

definition internalAddMulticastRoute ::
  "(int \<Rightarrow> bool) \<Rightarrow> ipv4_mroute \<Rightarrow> routing_table \<Rightarrow> routing_table outcome" where
  "internalAddMulticastRoute capable m t =
     (if \<not> isValidNetmask (m_originNetmask m) then Inl (RuntimeError ''addMulticastRoute(): wrong netmask in multicast route'')
      else if m_origin m AND NOT (m_originNetmask m) \<noteq> 0
      then Inl (RuntimeError ''addMulticastRoute(): suspicious route: origin IP address has bits set outside netmask'')
      else if \<not> isUnspecified (m_group m) \<and> \<not> isMulticast (m_group m)
      then Inl (RuntimeError ''addMulticastRoute(): group address is not a multicast address'')
      else if (case m_inInterface m of Some i \<Rightarrow> \<not> capable i | None \<Rightarrow> False)
      then Inl (RuntimeError ''addMulticastRoute(): input interface must be multicast capable'')
      else
        bindE (check_out_interfaces capable m) (\<lambda>_.
        Inr (invalidateCache (t\<lparr>multicastRoutes := insert_sorted multicastRouteLessThan m (multicastRoutes t)\<rparr>))))"

definition internalRemoveMulticastRoute :: "nat \<Rightarrow> routing_table \<Rightarrow> bool \<times> routing_table" where
  "internalRemoveMulticastRoute i t =
     (if \<exists>m \<in> set (multicastRoutes t). m_id m = i
      then (True, invalidateCache (t\<lparr>multicastRoutes :=
              takeWhile (\<lambda>m. m_id m \<noteq> i) (multicastRoutes t) @ tl (dropWhile (\<lambda>m. m_id m \<noteq> i) (multicastRoutes t))\<rparr>))
      else (False, t))"

datatype mroute_field = F_ORIGIN | F_ORIGINMASK | F_MULTICASTGROUP | F_IN | F_OUT | FM_SOURCE | FM_METRIC

definition multicastRouteChanged ::
  "(int \<Rightarrow> bool) \<Rightarrow> ipv4_mroute \<Rightarrow> mroute_field \<Rightarrow> routing_table \<Rightarrow> routing_table outcome" where
  "multicastRouteChanged capable m fieldCode t =
     (if fieldCode \<in> {F_ORIGIN, F_ORIGINMASK, F_MULTICASTGROUP, FM_METRIC} then
        let (found, t') = internalRemoveMulticastRoute (m_id m) t in
        bindE (assertE found) (\<lambda>_. internalAddMulticastRoute capable m t')
      else Inr t)"

section \<open>Addresses of the node\<close>

definition getInterfaceByAddress :: "ipv4_address \<Rightarrow> interface_entry list \<Rightarrow> interface_entry option" where
  "getInterfaceByAddress a ies = (if isUnspecified a then None else find (hasNetworkAddress a) ies)"

definition isLocalAddress :: "ipv4_address \<Rightarrow> interface_entry list \<Rightarrow> bool" where
  "isLocalAddress a ies = list_ex (hasNetworkAddress a) ies"

fun collect_broadcast :: "interface_entry list \<Rightarrow> ipv4_address set \<Rightarrow> ipv4_address set outcome" where
  "collect_broadcast [] s = Inr s"
| "collect_broadcast (ie # ies) s =
     (if \<not> if_isBroadcast ie then collect_broadcast ies s
      else
        bindE (getProtocolData ie) (\<lambda>d.
        collect_broadcast ies (if isUnspecified (interface_broadcast d) then s else insert (interface_broadcast d) s)))"

definition isLocalBroadcastAddress ::
  "ipv4_address \<Rightarrow> interface_entry list \<Rightarrow> routing_table \<Rightarrow> (bool \<times> routing_table) outcome" where
  "isLocalBroadcastAddress a ies t =
     bindE (if localBroadcastAddresses t = {} then collect_broadcast ies {} else Inr (localBroadcastAddresses t)) (\<lambda>s.
     Inr (a \<in> s, t\<lparr>localBroadcastAddresses := s\<rparr>))"

fun findInterfaceByLocalBroadcastAddress ::
  "ipv4_address \<Rightarrow> interface_entry list \<Rightarrow> interface_entry option outcome" where
  "findInterfaceByLocalBroadcastAddress a [] = Inr None"
| "findInterfaceByLocalBroadcastAddress a (ie # ies) =
     (if \<not> if_isBroadcast ie then findInterfaceByLocalBroadcastAddress a ies
      else
        bindE (getProtocolData ie) (\<lambda>d.
        if interface_broadcast d = a then Inr (Some ie) else findInterfaceByLocalBroadcastAddress a ies))"

fun isLocalMulticastAddress :: "ipv4_address \<Rightarrow> interface_entry list \<Rightarrow> bool outcome" where
  "isLocalMulticastAddress a [] = Inr False"
| "isLocalMulticastAddress a (ie # ies) =
     bindE (getProtocolData ie) (\<lambda>d.
     if a \<in> set (joinedMulticastGroups d) then Inr True else isLocalMulticastAddress a ies)"

text \<open>
  \<open>configureRouterId\<close>: choose the highest address of an interface, or give a router id that no
  interface has to the loopback interface.
\<close>

definition highest_address :: "interface_entry list \<Rightarrow> ipv4_address \<Rightarrow> ipv4_address" where
  "highest_address ies a0 =
     foldl (\<lambda>a ie. if if_isLoopback ie then a
        else case if_ipv4 ie of Some d \<Rightarrow> if ip_address d > a then ip_address d else a | None \<Rightarrow> a) a0 ies"

definition set_loopback_address :: "ipv4_address \<Rightarrow> interface_entry list \<Rightarrow> interface_entry list outcome" where
  "set_loopback_address a ies =
     (case find if_isLoopback ies of
        None \<Rightarrow> Inl (RuntimeError ''no loopback interface'')
      | Some lo \<Rightarrow>
          bindE (getProtocolData lo) (\<lambda>d.
          Inr (takeWhile (\<lambda>ie. \<not> if_isLoopback ie) ies
               @ lo\<lparr>if_ipv4 := Some (d\<lparr>ip_address := a, ip_netmask := ALLONES_ADDRESS\<rparr>)\<rparr>
               # tl (dropWhile (\<lambda>ie. \<not> if_isLoopback ie) ies))))"

definition configureRouterId ::
  "bool \<Rightarrow> interface_entry list \<Rightarrow> routing_table \<Rightarrow> (interface_entry list \<times> routing_table) outcome" where
  "configureRouterId automatic ies t =
     (if isUnspecified (routerId t) then
        Inr (ies, if automatic then t\<lparr>routerId := highest_address ies (routerId t)\<rparr> else t)
      else if getInterfaceByAddress (routerId t) ies = None then
        bindE (set_loopback_address (routerId t) ies) (\<lambda>ies'. Inr (ies', t))
      else Inr (ies, t))"

section \<open>Signals and life cycle\<close>

text \<open>\<open>receiveSignal\<close> after initialisation; the flag of a change of state says whether the
  interface is up now.\<close>

datatype table_signal =
  InterfaceCreated | InterfaceDeleted int | InterfaceStateChanged int bool bool
  | InterfaceConfigChanged | InterfaceIpv4ConfigChanged

fun table_receiveSignal ::
  "(interface_entry \<Rightarrow> bool) \<Rightarrow> nat \<Rightarrow> interface_entry list \<Rightarrow> table_signal \<Rightarrow> routing_table \<Rightarrow> routing_table" where
  "table_receiveSignal named fresh ies InterfaceCreated t = invalidateCache (updateNetmaskRoutes named fresh ies t)"
| "table_receiveSignal named fresh ies (InterfaceDeleted i) t = invalidateCache (deleteInterfaceRoutes i t)"
| "table_receiveSignal named fresh ies (InterfaceStateChanged i state_or_carrier up) t =
     (let t0 = invalidateCache t in
      if state_or_carrier then
        let t1 = updateNetmaskRoutes named fresh ies t0 in
        invalidateCache (if \<not> up then deleteInterfaceRoutes i t1 else t1)
      else t0)"
| "table_receiveSignal named fresh ies InterfaceConfigChanged t = invalidateCache t"
| "table_receiveSignal named fresh ies InterfaceIpv4ConfigChanged t =
     invalidateCache (updateNetmaskRoutes named fresh ies t)"

definition remove_all_routes :: "routing_table \<Rightarrow> routing_table" where
  "remove_all_routes t = foldl (\<lambda>t' r. snd (removeRoute (r_id r) t')) t (routes t)"

definition new_table :: "bool \<Rightarrow> bool \<Rightarrow> bool \<Rightarrow> routing_table" where
  "new_table admin fwd mfwd =
     \<lparr>routes = [], multicastRoutes = [], routingCache = Map.empty, localBroadcastAddresses = {},
      useAdminDist = admin, forwarding = fwd, multicastForward = mfwd, routerId = UNSPECIFIED_ADDRESS\<rparr>"

end
