(* ===== verification/Arp.thy ===== *)
theory Arp
  imports Ordered_Map Ipv4_Routing_Table
begin

text \<open>
  Address resolution, \<open>networklayer/arp/ipv4/Arp.cc\<close>: the cache with its pending entries and their
  timers, requests and replies, proxy ARP, and the notifications that IPv4 listens to.
\<close>

section \<open>State\<close>

datatype arp_opcode = ARP_REQUEST | ARP_REPLY | ARP_RARP_REQUEST | ARP_RARP_REPLY

record arp_packet =
  ap_opcode :: arp_opcode
  ap_srcMac :: mac_address
  ap_destMac :: mac_address
  ap_srcIp :: ipv4_address
  ap_destIp :: ipv4_address

text \<open>A packet on its way out: the packet, the interface, and the source, if asked for, and
  destination of the frame.\<close>

record arp_output =
  ao_packet :: arp_packet
  ao_interface :: int
  ao_macSrc :: "mac_address option"
  ao_macDest :: mac_address

record arp_entry =
  ae_ie :: int
  ae_pending :: bool
  ae_mac :: mac_address
  ae_lastUpdate :: simtime
  ae_numRetries :: int
  ae_timer :: timer

record arp_config =
  retryTimeout :: simtime
  retryCount :: int
  cacheTimeout :: simtime
  proxyArp :: "interface_entry \<Rightarrow> bool"

record arp =
  arpCache :: "(ipv4_address \<times> arp_entry) list"
  numResolutions :: int
  numFailedResolutions :: int
  numRequestsSent :: int
  numRepliesSent :: int
  arp_out :: "arp_output list"

definition new_arp :: arp where
  "new_arp = \<lparr>arpCache = [], numResolutions = 0, numFailedResolutions = 0, numRequestsSent = 0,
              numRepliesSent = 0, arp_out = []\<rparr>"

text \<open>\<open>arpResolutionCompletedSignal\<close>: the address, its MAC address, and the interface.\<close>

type_synonym arp_notification = "ipv4_address \<times> mac_address \<times> int"

definition put_entry :: "ipv4_address \<Rightarrow> arp_entry \<Rightarrow> arp \<Rightarrow> arp" where
  "put_entry a e s = s\<lparr>arpCache := map_put (<) a e (arpCache s)\<rparr>"

section \<open>Requests\<close>

definition sendArpRequest :: "interface_entry \<Rightarrow> ipv4_address \<Rightarrow> arp \<Rightarrow> arp outcome" where
  "sendArpRequest ie a s =
     bindE (getProtocolData ie) (\<lambda>d.
     bindE (assertE (if_macAddress ie \<noteq> 0)) (\<lambda>_.
     bindE (assertE (\<not> isUnspecified (ip_address d))) (\<lambda>_.
     Inr (s\<lparr>arp_out := arp_out s @
              [\<lparr>ao_packet = \<lparr>ap_opcode = ARP_REQUEST, ap_srcMac = if_macAddress ie, ap_destMac = 0,
                            ap_srcIp = ip_address d, ap_destIp = a\<rparr>,
                ao_interface = if_id ie, ao_macSrc = None, ao_macDest = BROADCAST_MAC\<rparr>],
            numRequestsSent := numRequestsSent s + 1\<rparr>))))"

definition initiateArpResolution ::
  "arp_config \<Rightarrow> simtime \<Rightarrow> interface_entry \<Rightarrow> ipv4_address \<Rightarrow> arp \<Rightarrow> arp outcome" where
  "initiateArpResolution c now ie a s =
     bindE (sendArpRequest ie a s) (\<lambda>s1.
     bindE (schedule Idle (now + retryTimeout c)) (\<lambda>tm.
     Inr ((put_entry a \<lparr>ae_ie = if_id ie, ae_pending = True, ae_mac = 0, ae_lastUpdate = 0, ae_numRetries = 0,
                       ae_timer = tm\<rparr> s1)\<lparr>numResolutions := numResolutions s1 + 1\<rparr>)))"

definition resolveL3Address ::
  "arp_config \<Rightarrow> simtime \<Rightarrow> ipv4_address \<Rightarrow> interface_entry \<Rightarrow> arp \<Rightarrow> (mac_address \<times> arp) outcome" where
  "resolveL3Address c now a ie s =
     (let start = bindE (initiateArpResolution c now ie a s) (\<lambda>s'. Inr (0, s')) in
      case map_of (arpCache s) a of
        None \<Rightarrow> start
      | Some e \<Rightarrow>
          if ae_pending e then Inr (0, s)
          else if ae_lastUpdate e + cacheTimeout c \<ge> now then Inr (ae_mac e, s)
          else start)"

text \<open>
  \<open>requestTimedOut\<close> for the entry of an address: the timer message has been delivered. The first
  result tells whether the resolution has failed; \<open>ies\<close> are the interfaces of the node.
\<close>

definition requestTimedOut ::
  "arp_config \<Rightarrow> simtime \<Rightarrow> ipv4_address \<Rightarrow> interface_entry list \<Rightarrow> arp \<Rightarrow> (bool \<times> arp) outcome" where
  "requestTimedOut c now a ies s =
     (case map_of (arpCache s) a of
        None \<Rightarrow> Inl (UndefinedBehaviour ''timer of a deleted entry'')
      | Some e \<Rightarrow>
          let e1 = e\<lparr>ae_numRetries := ae_numRetries e + 1, ae_timer := Idle\<rparr> in
          if ae_numRetries e1 < retryCount c then
            (case find (\<lambda>ie. if_id ie = ae_ie e1) ies of
               None \<Rightarrow> Inl (UndefinedBehaviour ''use of a deleted interface'')
             | Some ie \<Rightarrow>
                 bindE (sendArpRequest ie a s) (\<lambda>s1.
                 bindE (schedule (ae_timer e1) (now + retryTimeout c)) (\<lambda>tm.
                 Inr (False, put_entry a (e1\<lparr>ae_timer := tm\<rparr>) s1))))
          else Inr (True, s\<lparr>arpCache := map_erase a (arpCache s), numFailedResolutions := numFailedResolutions s + 1\<rparr>))"

section \<open>Packets\<close>

definition addressRecognized ::
  "arp_config \<Rightarrow> simtime \<Rightarrow> ipv4_address \<Rightarrow> interface_entry \<Rightarrow> interface_entry list \<Rightarrow> routing_table
     \<Rightarrow> (bool \<times> routing_table) outcome" where
  "addressRecognized c now a ie ies rt =
     (if isLocalAddress a ies then Inr (True, rt)
      else if proxyArp c ie then
        bindE (getInterfaceForDestAddr now a rt) (\<lambda>(rtie, rt').
        Inr (rtie \<noteq> None \<and> rtie \<noteq> Some (if_id ie), rt'))
      else Inr (False, rt))"

definition updateArpCache ::
  "simtime \<Rightarrow> ipv4_address \<Rightarrow> arp_entry \<Rightarrow> mac_address \<Rightarrow> arp \<Rightarrow> arp_notification \<times> arp" where
  "updateArpCache now a e mac s =
     (let e1 = (if ae_pending e then e\<lparr>ae_pending := False, ae_timer := Deleted, ae_numRetries := 0\<rparr> else e);
          e2 = e1\<lparr>ae_mac := mac, ae_lastUpdate := now\<rparr>
      in ((a, mac, ae_ie e2), put_entry a e2 s))"

definition arp_reply :: "interface_entry \<Rightarrow> arp_packet \<Rightarrow> arp \<Rightarrow> arp outcome" where
  "arp_reply ie p s =
     (if if_macAddress ie = 0 then Inr s
      else
        bindE (getProtocolData ie) (\<lambda>_.
        Inr (s\<lparr>arp_out := arp_out s @
                 [\<lparr>ao_packet = \<lparr>ap_opcode = ARP_REPLY, ap_srcMac = if_macAddress ie, ap_destMac = ap_srcMac p,
                               ap_srcIp = ap_destIp p, ap_destIp = ap_srcIp p\<rparr>,
                   ao_interface = if_id ie, ao_macSrc = None, ao_macDest = ap_srcMac p\<rparr>],
               numRepliesSent := numRepliesSent s + 1\<rparr>)))"

definition processArpPacket ::
  "arp_config \<Rightarrow> simtime \<Rightarrow> interface_entry \<Rightarrow> arp_packet \<Rightarrow> interface_entry list \<Rightarrow> routing_table \<Rightarrow> arp
     \<Rightarrow> (arp_notification list \<times> routing_table \<times> arp) outcome" where
  "processArpPacket c now ie p ies rt s =
     (let src = ap_srcIp p; mac = ap_srcMac p in
      bindE (if mac = 0 then Inl (RuntimeError ''wrong ARP packet: source MAC address is empty'')
             else if isUnspecified src then Inl (RuntimeError ''wrong ARP packet: source IPv4 address is empty'')
             else Inr ()) (\<lambda>_.
      let (known, s1) = (case map_of (arpCache s) src of
                           Some e \<Rightarrow> (let (x, s') = updateArpCache now src e mac s in ([x], s'))
                         | None \<Rightarrow> ([], s))
      in
      bindE (addressRecognized c now (ap_destIp p) ie ies rt) (\<lambda>(recognized, rt').
      if \<not> recognized then Inr (known, rt', s1)
      else
        let (notes, s2) =
              (if known = [] then
                 (let (x, s') = updateArpCache now src
                    \<lparr>ae_ie = if_id ie, ae_pending = False, ae_mac = 0, ae_lastUpdate = 0, ae_numRetries = 0, ae_timer = Deleted\<rparr>
                    mac s1
                  in ([x], s'))
               else (known, s1))
        in
        bindE (case ap_opcode p of
                 ARP_REQUEST \<Rightarrow> arp_reply ie p s2
               | ARP_REPLY \<Rightarrow> Inr s2
               | ARP_RARP_REQUEST \<Rightarrow> Inl (RuntimeError ''RARP request received: RARP is not supported'')
               | ARP_RARP_REPLY \<Rightarrow> Inl (RuntimeError ''RARP reply received: RARP is not supported'')) (\<lambda>s3.
        Inr (notes, rt', s3)))))"

section \<open>The rest of the interface\<close>

definition getL3AddressFor :: "arp_config \<Rightarrow> simtime \<Rightarrow> mac_address \<Rightarrow> arp \<Rightarrow> ipv4_address" where
  "getL3AddressFor c now mac s =
     (if mac = 0 then UNSPECIFIED_ADDRESS
      else case find (\<lambda>(a, e). ae_mac e = mac \<and> ae_lastUpdate e + cacheTimeout c \<ge> now) (arpCache s) of
        None \<Rightarrow> UNSPECIFIED_ADDRESS
      | Some (a, e) \<Rightarrow> a)"

text \<open>\<open>std::map::insert\<close> leaves an entry that is already there.\<close>

definition sendArpGratuitous ::
  "interface_entry \<Rightarrow> mac_address \<Rightarrow> ipv4_address \<Rightarrow> arp_opcode \<Rightarrow> arp \<Rightarrow> arp outcome" where
  "sendArpGratuitous ie mac a op s =
     bindE (assertE (mac \<noteq> 0)) (\<lambda>_.
     bindE (assertE (\<not> isUnspecified a)) (\<lambda>_.
     let s1 = (if map_of (arpCache s) a = None
               then put_entry a \<lparr>ae_ie = if_id ie, ae_pending = False, ae_mac = 0, ae_lastUpdate = 0,
                                ae_numRetries = 0, ae_timer = Deleted\<rparr> s
               else s)
     in Inr (s1\<lparr>arp_out := arp_out s1 @
                 [\<lparr>ao_packet = \<lparr>ap_opcode = op, ap_srcMac = mac, ap_destMac = BROADCAST_MAC, ap_srcIp = a, ap_destIp = a\<rparr>,
                   ao_interface = if_id ie, ao_macSrc = Some mac, ao_macDest = BROADCAST_MAC\<rparr>]\<rparr>)))"

definition sendArpProbe :: "interface_entry \<Rightarrow> mac_address \<Rightarrow> ipv4_address \<Rightarrow> arp \<Rightarrow> arp outcome" where
  "sendArpProbe ie mac a s =
     bindE (assertE (mac \<noteq> 0)) (\<lambda>_.
     bindE (assertE (\<not> isUnspecified a)) (\<lambda>_.
     Inr (s\<lparr>arp_out := arp_out s @
              [\<lparr>ao_packet = \<lparr>ap_opcode = ARP_REQUEST, ap_srcMac = mac, ap_destMac = 0, ap_srcIp = UNSPECIFIED_ADDRESS,
                            ap_destIp = a\<rparr>,
                ao_interface = if_id ie, ao_macSrc = Some mac, ao_macDest = BROADCAST_MAC\<rparr>]\<rparr>)))"

definition arp_flush :: "arp \<Rightarrow> arp" where
  "arp_flush s = s\<lparr>arpCache := []\<rparr>"

end
