(* ===== verification/Ipv4_Datagram.thy ===== *)
theory Ipv4_Datagram
  imports Fragment_Reassembly Ordered_Map Ipv4_Address
begin

text \<open>
  IPv4 datagrams (\<open>networklayer/ipv4/Ipv4Header.msg\<close>), the loop of \<open>Ipv4::fragmentAndSend\<close> that cuts
  a datagram into fragments, and the reassembly buffers of \<open>networklayer/ipv4/Ipv4FragBuf.cc\<close>.
\<close>

section \<open>Headers and packets\<close>

datatype crc_mode = CRC_DISABLED | CRC_DECLARED_CORRECT | CRC_DECLARED_INCORRECT | CRC_COMPUTED | CRC_MODE_UNDEFINED

text \<open>The value that a \<open>short\<close> takes when an integer is stored in it.\<close>

definition to_short :: "int \<Rightarrow> int" where
  "to_short i = sint (word_of_int i :: 16 word)"

lemma to_short_small: "- 32768 \<le> i \<Longrightarrow> i < 32768 \<Longrightarrow> to_short i = i"
  by (simp add: to_short_def sint_sbintrunc' signed_take_bit_int_eq_self)

text \<open>
  The chunk of a header is as long as its field \<open>headerLength\<close> says; \<open>ih_isCorrect\<close> is the flag of the
  chunk. Options are kept as their lengths.
\<close>

record ipv4_header =
  ih_headerLength :: int
  ih_typeOfService :: int
  ih_totalLength :: int
  ih_identification :: u16
  ih_moreFragments :: bool
  ih_dontFragment :: bool
  ih_fragmentOffset :: u16
  ih_timeToLive :: int
  ih_protocol :: int
  ih_crc :: u16
  ih_crcMode :: crc_mode
  ih_isCorrect :: bool
  ih_src :: ipv4_address
  ih_dest :: ipv4_address

definition IPv4_MIN_HEADER_LENGTH :: int where
  "IPv4_MIN_HEADER_LENGTH = 20"

definition IPv4_MAX_HEADER_LENGTH :: int where
  "IPv4_MAX_HEADER_LENGTH = 60"

definition new_ipv4_header :: ipv4_header where
  "new_ipv4_header =
     \<lparr>ih_headerLength = IPv4_MIN_HEADER_LENGTH, ih_typeOfService = 0, ih_totalLength = 0, ih_identification = 0,
      ih_moreFragments = False, ih_dontFragment = False, ih_fragmentOffset = 0, ih_timeToLive = 0,
      ih_protocol = 0, ih_crc = 0, ih_crcMode = CRC_MODE_UNDEFINED, ih_isCorrect = True,
      ih_src = UNSPECIFIED_ADDRESS, ih_dest = UNSPECIFIED_ADDRESS\<rparr>"

definition setDscp :: "int \<Rightarrow> ipv4_header \<Rightarrow> ipv4_header" where
  "setDscp d h = h\<lparr>ih_typeOfService := to_short (push_bit 2 (d AND 0x3f) OR (ih_typeOfService h AND 3))\<rparr>"

definition setEcn :: "int \<Rightarrow> ipv4_header \<Rightarrow> ipv4_header" where
  "setEcn e h = h\<lparr>ih_typeOfService := to_short ((ih_typeOfService h AND 0xfc) OR (e AND 3))\<rparr>"

definition getDscp :: "ipv4_header \<Rightarrow> int" where
  "getDscp h = drop_bit 2 (ih_typeOfService h AND 0xfc)"

definition getEcn :: "ipv4_header \<Rightarrow> int" where
  "getEcn h = ih_typeOfService h AND 3"

text \<open>
  A packet with its header at the front, the bytes behind it, and the tags that this module reads.
\<close>

record 'a ipv4_packet =
  pk_header :: ipv4_header
  pk_data :: "'a list"
  pk_bitError :: bool
  tag_interfaceInd :: "int option"
  tag_interfaceReq :: "int option"
  tag_nextHop :: "ipv4_address option"
  tag_multicastLoop :: "bool option"
  tag_macAddressReq :: "mac_address option"

definition getDataLength :: "'a ipv4_packet \<Rightarrow> int" where
  "getDataLength p = ih_headerLength (pk_header p) + int (length (pk_data p))"

definition map_header :: "(ipv4_header \<Rightarrow> ipv4_header) \<Rightarrow> 'a ipv4_packet \<Rightarrow> 'a ipv4_packet" where
  "map_header f p = p\<lparr>pk_header := f (pk_header p)\<rparr>"

section \<open>Fragmentation\<close>

text \<open>
  The loop of \<open>fragmentAndSend\<close>: \<open>n\<close> is the length of a fragment without its header, positive and a
  multiple of eight, \<open>crc\<close> what is done to the check sum of each fragment. A fragment is a new
  packet with the tags of the old one.
\<close>

definition cut_fragment ::
  "(ipv4_header \<Rightarrow> ipv4_header) \<Rightarrow> 'a ipv4_packet \<Rightarrow> nat \<Rightarrow> nat \<Rightarrow> bool \<Rightarrow> 'a ipv4_packet" where
  "cut_fragment crc p offset len lastFragment =
     p\<lparr>pk_header := crc ((pk_header p)
          \<lparr>ih_moreFragments := (if \<not> lastFragment then True else ih_moreFragments (pk_header p)),
           ih_fragmentOffset := ih_fragmentOffset (pk_header p) + of_nat offset,
           ih_totalLength := ih_headerLength (pk_header p) + int len\<rparr>),
       pk_data := take len (drop offset (pk_data p)),
       pk_bitError := False\<rparr>"

function fragments_loop ::
  "(ipv4_header \<Rightarrow> ipv4_header) \<Rightarrow> nat \<Rightarrow> 'a ipv4_packet \<Rightarrow> nat \<Rightarrow> 'a ipv4_packet list" where
  "fragments_loop crc n p offset =
     (if offset < length (pk_data p) \<and> 0 < n then
        let lastFragment = offset + n \<ge> length (pk_data p);
            thisFragmentLength = (if lastFragment then length (pk_data p) - offset else n)
        in cut_fragment crc p offset thisFragmentLength lastFragment # fragments_loop crc n p (offset + thisFragmentLength)
      else [])"
  by pat_completeness auto
termination by (relation "measure (\<lambda>(crc, n, p, offset). length (pk_data p) - offset)") auto

declare fragments_loop.simps [simp del]

text \<open>The payload of a fragment under an MTU.\<close>

definition fragmentLength :: "int \<Rightarrow> ipv4_header \<Rightarrow> int" where
  "fragmentLength mtu h =
     (let room = mtu - ih_headerLength h in (if room \<ge> 0 then room div 8 else - (- room div 8)) * 8)"

section \<open>Reassembly\<close>

type_synonym ipv4_frag_key = "u16 \<times> ipv4_address \<times> ipv4_address"

fun key_less :: "ipv4_frag_key \<Rightarrow> ipv4_frag_key \<Rightarrow> bool" where
  "key_less (i, s, d) (i', s', d') = (if i \<noteq> i' then i < i' else if s \<noteq> s' then s < s' else d < d')"

record 'a ipv4_buffer =
  fb_buf :: "'a reassembly_buffer"
  fb_packet :: "'a ipv4_packet option"
  fb_lastupdate :: simtime

type_synonym 'a ipv4_frag_buf = "(ipv4_frag_key \<times> 'a ipv4_buffer) list"

definition frag_key :: "ipv4_header \<Rightarrow> ipv4_frag_key" where
  "frag_key h = (ih_identification h, ih_src h, ih_dest h)"

definition new_buffer :: "'a ipv4_buffer" where
  "new_buffer = \<lparr>fb_buf = reassembly_new, fb_packet = None, fb_lastupdate = 0\<rparr>"

definition whole_datagram :: "'a ipv4_packet \<Rightarrow> 'a list \<Rightarrow> 'a ipv4_packet" where
  "whole_datagram p d =
     p\<lparr>pk_header := (pk_header p)\<lparr>ih_totalLength := ih_headerLength (pk_header p) + int (length d),
                                 ih_fragmentOffset := 0, ih_moreFragments := False\<rparr>,
       pk_data := d\<rparr>"

definition ipv4_addFragment ::
  "'a ipv4_packet \<Rightarrow> simtime \<Rightarrow> 'a ipv4_frag_buf \<Rightarrow> ('a ipv4_packet option \<times> 'a ipv4_frag_buf) outcome" where
  "ipv4_addFragment p now bufs =
     (let h = pk_header p; key = frag_key h;
          cur = (case map_of bufs key of None \<Rightarrow> new_buffer | Some b \<Rightarrow> b);
          bytes = ih_totalLength h - ih_headerLength h
      in
      bindE (assertE (ih_totalLength h > ih_headerLength h)) (\<lambda>_.
      bindE (peekDataAt 0 bytes (pk_data p)) (\<lambda>d.
      bindE (reassembly_replace (uint (ih_fragmentOffset h)) d (fb_buf cur)) (\<lambda>buf1.
      let buf2 = (if \<not> ih_moreFragments h then buf1\<lparr>expectedLength := uint (ih_fragmentOffset h) + bytes\<rparr> else buf1);
          kept = (if ih_fragmentOffset h = 0 then p else case fb_packet cur of None \<Rightarrow> p | Some q \<Rightarrow> q)
      in if isComplete buf2
         then bindE (getReassembledData buf2) (\<lambda>payload.
              Inr (Some (whole_datagram kept payload), map_erase key bufs))
         else Inr (None, map_put key_less key \<lparr>fb_buf = buf2, fb_packet = Some kept, fb_lastupdate = now\<rparr> bufs)))))"

text \<open>The packets whose buffers are too old, for which an ICMP error is sent, and what stays.\<close>

definition ipv4_purgeStaleFragments :: "simtime \<Rightarrow> 'a ipv4_frag_buf \<Rightarrow> 'a ipv4_packet list \<times> 'a ipv4_frag_buf" where
  "ipv4_purgeStaleFragments lastupdate bufs =
     (let stale = filter (\<lambda>(k, b). fb_lastupdate b < lastupdate) bufs in
      (concat (map (\<lambda>(k, b). case fb_packet b of None \<Rightarrow> [] | Some p \<Rightarrow> [p]) stale),
       filter (\<lambda>(k, b). \<not> fb_lastupdate b < lastupdate) bufs))"

definition ipv4_frag_flush :: "'a ipv4_frag_buf \<Rightarrow> 'a ipv4_frag_buf" where
  "ipv4_frag_flush bufs = []"

end
