(* ===== verification/Ipv4_Output.thy ===== *)
theory Ipv4_Output
  imports Complex_Main Arp Ipv4_Datagram
begin

text \<open>
  The state of an IPv4 module (\<open>networklayer/ipv4/Ipv4.h\<close>) and its output side in \<open>Ipv4.cc\<close>: hooks,
  fragmentation, address resolution and the queues of packets that wait for it.
\<close>

section \<open>State\<close>

datatype hook_type = LOCALOUT | PREROUTING | POSTROUTING | LOCALIN | FORWARD

datatype hook_result = ACCEPT | DROP | QUEUE | STOLEN

datatype drop_reason =
  INCORRECTLY_RECEIVED | NO_INTERFACE_FOUND | FORWARDING_DISABLED | NO_ROUTE_FOUND | HOP_LIMIT_REACHED
  | ADDRESS_RESOLUTION_FAILED | OTHER_REASON

datatype icmp_error =
  ICMP_PARAMETER_PROBLEM | ICMP_TIME_EXCEEDED | ICMP_DESTINATION_UNREACHABLE | ICMP_DU_FRAGMENTATION_NEEDED
  | ICMP_DU_PROTOCOL_UNREACHABLE

text \<open>What the module sends and signals. An ICMP error names the input interface, or -1.\<close>

datatype 'a ipv4_effect =
    ToNic "'a ipv4_packet"
  | ToSocket int "'a ipv4_packet"
  | ToUpper int "'a ipv4_packet"
  | SocketClosed int
  | IcmpError "'a ipv4_packet" int icmp_error
  | PacketDropped drop_reason "'a ipv4_packet"
  | UpperDropped drop_reason "'a list"
  | NewMulticast | DataOnNonrpf | DataOnRpf | MdataRegister

text \<open>
  The configuration and the neighbours of the module: the check sum of a serialized header, the
  hooks, the parameters of address resolution, what the listeners of \<open>ipv4NewMulticastSignal\<close> do to the routing table, the numbers of known protocols,
  and the random number of \<open>dblrand\<close>.
\<close>

record 'a ipv4_config =
  node_crcMode :: crc_mode
  header_checksum :: "ipv4_header \<Rightarrow> u16"
  defaultTimeToLive :: int
  defaultMCTimeToLive :: int
  fragmentTimeoutTime :: simtime
  limitedBroadcast :: bool
  directBroadcast :: "interface_entry \<Rightarrow> bool"
  ipv4_hooks :: "(hook_type \<Rightarrow> 'a ipv4_packet \<Rightarrow> hook_result \<times> 'a ipv4_packet) list"
  arp_conf :: arp_config
  newMulticast :: "routing_table \<Rightarrow> routing_table"
  knownProtocol :: "int \<Rightarrow> bool"
  dblrand :: rat

record ipv4_socket =
  is_protocolId :: int
  is_localAddress :: ipv4_address
  is_remoteAddress :: ipv4_address

record 'a ipv4_node =
  n_rt :: routing_table
  n_ift :: "interface_entry list"
  n_arp :: arp
  curFragmentId :: u16
  fragbuf :: "'a ipv4_frag_buf"
  lastCheckTime :: simtime
  upperProtocols :: "int set"
  ipv4_sockets :: "(int \<times> ipv4_socket) list"
  pendingPackets :: "(ipv4_address \<times> 'a ipv4_packet list) list"
  numMulticast :: int
  numLocalDeliver :: int
  numDropped :: int
  numUnroutable :: int
  numForwarded :: int
  queuedDatagramsForHooks :: "('a ipv4_packet \<times> hook_type) list"
  n_out :: "'a ipv4_effect list"

definition emit :: "'a ipv4_effect \<Rightarrow> 'a ipv4_node \<Rightarrow> 'a ipv4_node" where
  "emit e n = n\<lparr>n_out := n_out n @ [e]\<rparr>"

definition new_ipv4_node :: "routing_table \<Rightarrow> interface_entry list \<Rightarrow> 'a ipv4_node" where
  "new_ipv4_node t ies =
     \<lparr>n_rt = t, n_ift = ies, n_arp = new_arp, curFragmentId = 0, fragbuf = [], lastCheckTime = 0, upperProtocols = {},
      ipv4_sockets = [], pendingPackets = [], numMulticast = 0, numLocalDeliver = 0, numDropped = 0,
      numUnroutable = 0, numForwarded = 0, queuedDatagramsForHooks = [], n_out = []\<rparr>"

section \<open>Interfaces and tags\<close>

definition getInterfaceById :: "int \<Rightarrow> 'a ipv4_node \<Rightarrow> interface_entry outcome" where
  "getInterfaceById i n = (case find (\<lambda>ie. if_id ie = i) (n_ift n) of
      None \<Rightarrow> Inl (RuntimeError ''getInterfaceById(): no interface with ID'') | Some ie \<Rightarrow> Inr ie)"

definition findFirstLoopbackInterface :: "interface_entry list \<Rightarrow> interface_entry option" where
  "findFirstLoopbackInterface = find if_isLoopback"

definition findFirstMulticastInterface :: "interface_entry list \<Rightarrow> interface_entry option" where
  "findFirstMulticastInterface = find (\<lambda>ie. if_isMulticast ie \<and> \<not> if_isLoopback ie)"

definition getTag :: "'t option \<Rightarrow> 't outcome" where
  "getTag t = (case t of None \<Rightarrow> Inl (RuntimeError ''Tag is absent'') | Some x \<Rightarrow> Inr x)"

definition getSourceInterface :: "'a ipv4_packet \<Rightarrow> 'a ipv4_node \<Rightarrow> interface_entry option outcome" where
  "getSourceInterface p n = (case tag_interfaceInd p of
      None \<Rightarrow> Inr None | Some i \<Rightarrow> bindE (getInterfaceById i n) (\<lambda>ie. Inr (Some ie)))"

definition getDestInterface :: "'a ipv4_packet \<Rightarrow> 'a ipv4_node \<Rightarrow> interface_entry option outcome" where
  "getDestInterface p n = (case tag_interfaceReq p of
      None \<Rightarrow> Inr None
    | Some i \<Rightarrow> if i = -1 then Inr None else bindE (getInterfaceById i n) (\<lambda>ie. Inr (Some ie)))"

definition getNextHop :: "'a ipv4_packet \<Rightarrow> ipv4_address" where
  "getNextHop p = (case tag_nextHop p of None \<Rightarrow> UNSPECIFIED_ADDRESS | Some a \<Rightarrow> a)"

section \<open>Hooks\<close>

fun run_hooks ::
  "(hook_type \<Rightarrow> 'a ipv4_packet \<Rightarrow> hook_result \<times> 'a ipv4_packet) list \<Rightarrow> hook_type \<Rightarrow> 'a ipv4_packet
     \<Rightarrow> hook_result \<times> 'a ipv4_packet" where
  "run_hooks [] ht p = (ACCEPT, p)"
| "run_hooks (h # hs) ht p = (case h ht p of (ACCEPT, p') \<Rightarrow> run_hooks hs ht p' | r \<Rightarrow> r)"

text \<open>Run the hooks of one kind and go on with \<open>k\<close> if all of them accept.\<close>

definition with_hooks ::
  "'a ipv4_config \<Rightarrow> hook_type \<Rightarrow> ('a ipv4_packet \<Rightarrow> 'a ipv4_node \<Rightarrow> 'a ipv4_node outcome)
     \<Rightarrow> 'a ipv4_packet \<Rightarrow> 'a ipv4_node \<Rightarrow> 'a ipv4_node outcome" where
  "with_hooks c ht k p n =
     (case run_hooks (ipv4_hooks c) ht p of
        (ACCEPT, p') \<Rightarrow> k p' n
      | (QUEUE, p') \<Rightarrow> Inr (n\<lparr>queuedDatagramsForHooks := queuedDatagramsForHooks n @ [(p', ht)]\<rparr>)
      | (_, p') \<Rightarrow> Inr n)"

section \<open>Output\<close>

definition makeMulticastAddress :: "ipv4_address \<Rightarrow> mac_address outcome" where
  "makeMulticastAddress a =
     bindE (assertE (isMulticast a)) (\<lambda>_.
     Inr (0x01005e000000 OR (ucast a AND 0x7fffff)))"

definition sendPacketToNIC :: "'a ipv4_packet \<Rightarrow> 'a ipv4_node \<Rightarrow> 'a ipv4_node outcome" where
  "sendPacketToNIC p n =
     bindE (getTag (tag_interfaceReq p)) (\<lambda>i.
     bindE (getInterfaceById i n) (\<lambda>_. Inr (emit (ToNic p) n)))"

text \<open>\<open>Arp\<close> is called directly and may send a request of its own.\<close>

definition resolveNextHopMacAddress ::
  "'a ipv4_config \<Rightarrow> simtime \<Rightarrow> ipv4_address \<Rightarrow> interface_entry \<Rightarrow> 'a ipv4_node \<Rightarrow> (mac_address \<times> 'a ipv4_node) outcome" where
  "resolveNextHopMacAddress c now nextHop ie n =
     bindE (if isLimitedBroadcastAddress nextHop then Inr True
            else bindE (getProtocolData ie) (\<lambda>d. Inr (nextHop = interface_broadcast d))) (\<lambda>broadcast.
     if broadcast then Inr (BROADCAST_MAC, n)
     else if isMulticast nextHop then bindE (makeMulticastAddress nextHop) (\<lambda>mac. Inr (mac, n))
     else
       bindE (resolveL3Address (arp_conf c) now nextHop ie (n_arp n)) (\<lambda>(mac, s).
       Inr (mac, n\<lparr>n_arp := s\<rparr>)))"

definition waiting_for :: "ipv4_address \<Rightarrow> 'a ipv4_node \<Rightarrow> 'a ipv4_packet list" where
  "waiting_for a n = (case map_of (pendingPackets n) a of None \<Rightarrow> [] | Some q \<Rightarrow> q)"

definition ipv4_sendDatagramToOutput ::
  "'a ipv4_config \<Rightarrow> simtime \<Rightarrow> 'a ipv4_packet \<Rightarrow> 'a ipv4_node \<Rightarrow> 'a ipv4_node outcome" where
  "ipv4_sendDatagramToOutput c now p n =
     bindE (getTag (tag_interfaceReq p)) (\<lambda>i.
     bindE (getInterfaceById i n) (\<lambda>ie.
     bindE (getTag (tag_nextHop p)) (\<lambda>nextHop.
     let p' = p\<lparr>tag_nextHop := None\<rparr> in
     if \<not> if_isBroadcast ie \<or> if_macAddress ie = 0 then sendPacketToNIC p' n
     else
       bindE (resolveNextHopMacAddress c now nextHop ie n) (\<lambda>(mac, n1).
       if mac = 0 then
         Inr (n1\<lparr>pendingPackets := map_put (<) nextHop (waiting_for nextHop n1 @ [p']) (pendingPackets n1)\<rparr>)
       else
         bindE (assertE (map_of (pendingPackets n1) nextHop = None)) (\<lambda>_.
         sendPacketToNIC (p'\<lparr>tag_macAddressReq := Some mac\<rparr>) n1)))))"

definition setComputedCrc :: "'a ipv4_config \<Rightarrow> ipv4_header \<Rightarrow> ipv4_header" where
  "setComputedCrc c h = h\<lparr>ih_crc := header_checksum c (h\<lparr>ih_crc := 0\<rparr>)\<rparr>"

definition finish_crc :: "'a ipv4_config \<Rightarrow> ipv4_header \<Rightarrow> ipv4_header" where
  "finish_crc c h = (if node_crcMode c = CRC_COMPUTED then setComputedCrc c h else h)"

definition fragmentAndSend :: "'a ipv4_config \<Rightarrow> simtime \<Rightarrow> 'a ipv4_packet \<Rightarrow> 'a ipv4_node \<Rightarrow> 'a ipv4_node outcome" where
  "fragmentAndSend c now p0 n =
     bindE (getTag (tag_interfaceReq p0)) (\<lambda>i.
     bindE (getInterfaceById i n) (\<lambda>ie.
     let p = (if isUnspecified (getNextHop p0) then p0\<lparr>tag_nextHop := Some (ih_dest (pk_header p0))\<rparr> else p0);
         h = pk_header p; mtu = if_mtu ie
     in
     if ih_timeToLive h \<le> 0 then
       Inr ((emit (IcmpError p (-1) ICMP_TIME_EXCEEDED) (emit (PacketDropped HOP_LIMIT_REACHED p) n))
             \<lparr>numDropped := numDropped n + 1\<rparr>)
     else if mtu = 0 \<or> getDataLength p \<le> mtu then ipv4_sendDatagramToOutput c now (map_header (finish_crc c) p) n
     else if ih_dontFragment h then
       Inr ((emit (IcmpError p (-1) ICMP_DU_FRAGMENTATION_NEEDED) (emit (PacketDropped OTHER_REASON p) n))
             \<lparr>numDropped := numDropped n + 1\<rparr>)
     else if fragmentLength mtu h \<le> 0 then
       Inl (RuntimeError ''Cannot fragment datagram: MTU too small for header size'')
     else foldE (ipv4_sendDatagramToOutput c now) (fragments_loop (finish_crc c) (nat (fragmentLength mtu h)) p 0) n))"

definition fragmentPostRouting :: "'a ipv4_config \<Rightarrow> simtime \<Rightarrow> 'a ipv4_packet \<Rightarrow> 'a ipv4_node \<Rightarrow> 'a ipv4_node outcome" where
  "fragmentPostRouting c now p n =
     bindE (getTag (tag_interfaceReq p)) (\<lambda>i.
     bindE (getInterfaceById i n) (\<lambda>ie.
     bindE (if isUnspecified (ih_src (pk_header p))
            then bindE (getProtocolData ie) (\<lambda>d. Inr (map_header (\<lambda>h. h\<lparr>ih_src := ip_address d\<rparr>) p))
            else Inr p) (\<lambda>p'.
     with_hooks c POSTROUTING (fragmentAndSend c now) p' n)))"

section \<open>Address resolution\<close>

fun send_waiting :: "int \<Rightarrow> mac_address \<Rightarrow> 'a ipv4_packet list \<Rightarrow> 'a ipv4_node \<Rightarrow> 'a ipv4_node outcome" where
  "send_waiting i mac [] n = Inr n"
| "send_waiting i mac (p # ps) n =
     bindE (sendPacketToNIC (p\<lparr>tag_interfaceReq := Some i, tag_macAddressReq := Some mac\<rparr>) n) (send_waiting i mac ps)"

definition arpResolutionCompleted ::
  "ipv4_address \<Rightarrow> int \<Rightarrow> mac_address \<Rightarrow> 'a ipv4_node \<Rightarrow> 'a ipv4_node outcome" where
  "arpResolutionCompleted a i mac n =
     (case map_of (pendingPackets n) a of
        None \<Rightarrow> Inr n
      | Some q \<Rightarrow>
          bindE (send_waiting i mac q n) (\<lambda>n'.
          Inr (n'\<lparr>pendingPackets := map_erase a (pendingPackets n')\<rparr>)))"

definition arpResolutionTimedOut :: "ipv4_address \<Rightarrow> 'a ipv4_node \<Rightarrow> 'a ipv4_node" where
  "arpResolutionTimedOut a n =
     (case map_of (pendingPackets n) a of
        None \<Rightarrow> n
      | Some q \<Rightarrow> n\<lparr>n_out := n_out n @ map (PacketDropped ADDRESS_RESOLUTION_FAILED) q,
                    pendingPackets := map_erase a (pendingPackets n)\<rparr>)"

end
