(* ===== verification/Ipv4_Node.thy ===== *)
theory Ipv4_Node
  imports Ipv4_Output
begin

text \<open>
  The input and routing side of \<open>networklayer/ipv4/Ipv4.cc\<close>: datagrams from the network and from the
  upper layers, forwarding, broadcast and multicast, local delivery, sockets and the life cycle.
\<close>

section \<open>Lookups through the node\<close>

definition lookup_route :: "simtime \<Rightarrow> ipv4_address \<Rightarrow> 'a ipv4_node \<Rightarrow> (ipv4_route option \<times> 'a ipv4_node) outcome" where
  "lookup_route now a n =
     bindE (findBestMatchingRoute now a (n_rt n)) (\<lambda>(r, t). Inr (r, n\<lparr>n_rt := t\<rparr>))"

text \<open>\<open>re->getInterface()->getInterfaceId()\<close>: a route without an interface is a null pointer.\<close>

definition route_interface :: "ipv4_route \<Rightarrow> int outcome" where
  "route_interface r = (case r_interface r of None \<Rightarrow> Inl (UndefinedBehaviour ''route without interface'') | Some i \<Rightarrow> Inr i)"

section \<open>Unicast\<close>

definition routeUnicastPacketFinish :: "'a ipv4_config \<Rightarrow> simtime \<Rightarrow> 'a ipv4_packet \<Rightarrow> 'a ipv4_node \<Rightarrow> 'a ipv4_node outcome" where
  "routeUnicastPacketFinish c now p n = fragmentPostRouting c now p (n\<lparr>numForwarded := numForwarded n + 1\<rparr>)"

definition send_routed ::
  "'a ipv4_config \<Rightarrow> simtime \<Rightarrow> interface_entry option \<Rightarrow> 'a ipv4_packet \<Rightarrow> 'a ipv4_node \<Rightarrow> 'a ipv4_node outcome" where
  "send_routed c now fromIE p n =
     (if fromIE \<noteq> None then with_hooks c FORWARD (routeUnicastPacketFinish c now) p n
      else routeUnicastPacketFinish c now p n)"

definition source_id :: "interface_entry option \<Rightarrow> int" where
  "source_id ie = (case ie of None \<Rightarrow> -1 | Some ie \<Rightarrow> if_id ie)"

definition routeUnicastPacket ::
  "'a ipv4_config \<Rightarrow> simtime \<Rightarrow> 'a ipv4_packet \<Rightarrow> 'a ipv4_node \<Rightarrow> 'a ipv4_node outcome" where
  "routeUnicastPacket c now p n =
     bindE (getSourceInterface p n) (\<lambda>fromIE.
     bindE (getDestInterface p n) (\<lambda>destIE.
     let dest = ih_dest (pk_header p) in
     case destIE of
       Some ie \<Rightarrow>
         if \<not> isUnspecified (getNextHop p) then send_routed c now fromIE p n
         else if if_isBroadcast ie then
           bindE (lookup_route now dest n) (\<lambda>(re, n').
           send_routed c now fromIE
             (case re of
                Some r \<Rightarrow> if r_interface r = Some (if_id ie) then p\<lparr>tag_nextHop := Some (r_gateway r)\<rparr> else p
              | None \<Rightarrow> p) n')
         else send_routed c now fromIE p n
     | None \<Rightarrow>
         bindE (lookup_route now dest n) (\<lambda>(re, n').
         case re of
           Some r \<Rightarrow>
             bindE (route_interface r) (\<lambda>i.
             send_routed c now fromIE (p\<lparr>tag_interfaceReq := Some i, tag_nextHop := Some (r_gateway r)\<rparr>) n')
         | None \<Rightarrow>
             Inr ((emit (IcmpError p (source_id fromIE) ICMP_DESTINATION_UNREACHABLE)
                     (emit (PacketDropped NO_ROUTE_FOUND p) n'))
                   \<lparr>numUnroutable := numUnroutable n' + 1\<rparr>))))"

definition prepareForForwarding :: "'a ipv4_packet \<Rightarrow> 'a ipv4_packet" where
  "prepareForForwarding = map_header (\<lambda>h. h\<lparr>ih_timeToLive := to_short (ih_timeToLive h - 1)\<rparr>)"

section \<open>Broadcast\<close>

fun broadcast_loop ::
  "'a ipv4_config \<Rightarrow> simtime \<Rightarrow> interface_entry list \<Rightarrow> 'a ipv4_packet \<Rightarrow> 'a ipv4_node \<Rightarrow> 'a ipv4_node outcome" where
  "broadcast_loop c now [] p n = Inr n"
| "broadcast_loop c now (ie # ies) p n =
     bindE (if isLimitedBroadcastAddress (ih_dest (pk_header p)) then Inr True
            else bindE (getProtocolData ie) (\<lambda>d.
                 Inr (ih_dest (pk_header p) = makeBroadcastAddress (ip_address d) (ip_netmask d)))) (\<lambda>matches.
     if \<not> matches then broadcast_loop c now ies p n
     else
       bindE (fragmentPostRouting c now (p\<lparr>tag_interfaceReq := Some (if_id ie), tag_nextHop := Some ALLONES_ADDRESS\<rparr>) n)
         (broadcast_loop c now ies p))"

definition routeLocalBroadcastPacket :: "'a ipv4_config \<Rightarrow> simtime \<Rightarrow> 'a ipv4_packet \<Rightarrow> 'a ipv4_node \<Rightarrow> 'a ipv4_node outcome" where
  "routeLocalBroadcastPacket c now p n =
     (case tag_interfaceReq p of
        Some i \<Rightarrow>
          bindE (getInterfaceById i n) (\<lambda>ie.
          fragmentPostRouting c now (p\<lparr>tag_interfaceReq := Some (if_id ie), tag_nextHop := Some ALLONES_ADDRESS\<rparr>) n)
      | None \<Rightarrow>
          if limitedBroadcast c then broadcast_loop c now (n_ift n) p n
          else Inr ((emit (PacketDropped NO_INTERFACE_FOUND p) n)\<lparr>numDropped := numDropped n + 1\<rparr>))"

section \<open>Multicast\<close>

definition hasMulticastListener :: "ipv4_address \<Rightarrow> ipv4_interface_data \<Rightarrow> bool" where
  "hasMulticastListener a d \<longleftrightarrow> a \<in> set (multicastListeners d)"

definition isMemberOfMulticastGroup :: "ipv4_address \<Rightarrow> ipv4_interface_data \<Rightarrow> bool" where
  "isMemberOfMulticastGroup a d \<longleftrightarrow> a \<in> set (joinedMulticastGroups d)"

fun forward_copies ::
  "'a ipv4_config \<Rightarrow> simtime \<Rightarrow> int \<Rightarrow> (int \<times> bool \<times> bool) list \<Rightarrow> 'a ipv4_packet \<Rightarrow> 'a ipv4_node \<Rightarrow> 'a ipv4_node outcome" where
  "forward_copies c now from_id [] p n = Inr n"
| "forward_copies c now from_id ((i, leaf, enabled) # outs) p n =
     (if i \<noteq> from_id \<and> enabled then
        bindE (getInterfaceById i n) (\<lambda>ie.
        bindE (getProtocolData ie) (\<lambda>d.
        if ih_timeToLive (pk_header p) \<le> multicastTtlThreshold d then forward_copies c now from_id outs p n
        else if leaf \<and> \<not> hasMulticastListener (ih_dest (pk_header p)) d then forward_copies c now from_id outs p n
        else
          bindE (fragmentPostRouting c now (p\<lparr>tag_interfaceReq := Some i, tag_nextHop := Some (ih_dest (pk_header p))\<rparr>) n)
            (forward_copies c now from_id outs p)))
      else forward_copies c now from_id outs p n)"

definition forward_on_route ::
  "'a ipv4_config \<Rightarrow> simtime \<Rightarrow> interface_entry \<Rightarrow> ipv4_mroute \<Rightarrow> 'a ipv4_packet \<Rightarrow> 'a ipv4_node \<Rightarrow> 'a ipv4_node outcome" where
  "forward_on_route c now fromIE m p n =
     (let forward = (\<lambda>n. bindE (forward_copies c now (if_id fromIE) (m_outInterfaces m) p
                           ((emit DataOnRpf n)\<lparr>numForwarded := numForwarded n + 1\<rparr>)) (\<lambda>n'. Inr (emit MdataRegister n')));
          drop = (\<lambda>n. (emit (PacketDropped OTHER_REASON p) n)\<lparr>numDropped := numDropped n + 1\<rparr>)
      in case m_inInterface m of
           Some i \<Rightarrow> if i \<noteq> if_id fromIE then Inr (drop (emit DataOnNonrpf n)) else forward n
         | None \<Rightarrow>
             bindE (getInterfaceForDestAddr now (ih_src (pk_header p)) (n_rt n)) (\<lambda>(ie, t).
             let n' = n\<lparr>n_rt := t\<rparr> in
             if ie \<noteq> Some (if_id fromIE) then Inr (drop n') else forward n'))"

definition forwardMulticastPacket ::
  "'a ipv4_config \<Rightarrow> simtime \<Rightarrow> 'a ipv4_packet \<Rightarrow> 'a ipv4_node \<Rightarrow> 'a ipv4_node outcome" where
  "forwardMulticastPacket c now p n =
     bindE (getTag (tag_interfaceInd p)) (\<lambda>i.
     bindE (getInterfaceById i n) (\<lambda>fromIE.
     let src = ih_src (pk_header p); dest = ih_dest (pk_header p) in
     bindE (assertE (isMulticast dest)) (\<lambda>_.
     bindE (assertE (\<not> isLinkLocalMulticast dest)) (\<lambda>_.
     let n1 = n\<lparr>numMulticast := numMulticast n + 1\<rparr> in
     case findBestMatchingMulticastRoute src dest (n_rt n1) of
       Some m \<Rightarrow> forward_on_route c now fromIE m p n1
     | None \<Rightarrow>
         let n2 = (emit NewMulticast n1)\<lparr>n_rt := newMulticast c (n_rt n1)\<rparr> in
         (case findBestMatchingMulticastRoute src dest (n_rt n2) of
            Some m \<Rightarrow> forward_on_route c now fromIE m p n2
          | None \<Rightarrow> Inr ((emit (PacketDropped NO_ROUTE_FOUND p) n2)\<lparr>numUnroutable := numUnroutable n2 + 1\<rparr>))))))"

text \<open>Here a route without an interface is a route without a choice.\<close>

definition determineOutgoingInterfaceForMulticastDatagram ::
  "simtime \<Rightarrow> ipv4_header \<Rightarrow> int option \<Rightarrow> 'a ipv4_node \<Rightarrow> (int option \<times> 'a ipv4_node) outcome" where
  "determineOutgoingInterfaceForMulticastDatagram now h multicastIFOption n =
     (case multicastIFOption of
        Some i \<Rightarrow> Inr (Some i, n)
      | None \<Rightarrow>
          bindE (lookup_route now (ih_dest h) n) (\<lambda>(re, n').
          case (case re of Some r \<Rightarrow> r_interface r | None \<Rightarrow> None) of
            Some i \<Rightarrow> Inr (Some i, n')
          | None \<Rightarrow>
              (case getInterfaceByAddress (ih_src h) (n_ift n') of
                 Some ie \<Rightarrow> Inr (Some (if_id ie), n')
               | None \<Rightarrow> Inr (map_option if_id (findFirstMulticastInterface (n_ift n')), n'))))"

section \<open>Delivery\<close>

fun deliver_to_sockets ::
  "int \<Rightarrow> ipv4_address \<Rightarrow> ipv4_address \<Rightarrow> 'a ipv4_packet \<Rightarrow> (int \<times> ipv4_socket) list \<Rightarrow> 'a ipv4_effect list" where
  "deliver_to_sockets protocol localAddress remoteAddress p [] = []"
| "deliver_to_sockets protocol localAddress remoteAddress p ((i, s) # ss) =
     (if is_protocolId s = protocol
         \<and> (isUnspecified (is_localAddress s) \<or> is_localAddress s = localAddress)
         \<and> (isUnspecified (is_remoteAddress s) \<or> is_remoteAddress s = remoteAddress)
      then [ToSocket i p] else [])
     @ deliver_to_sockets protocol localAddress remoteAddress p ss"

text \<open>
  The header stays in the packet record, as its fields go up in tags. \<open>decapsulate\<close> fails for a
  protocol number that nobody registered.
\<close>

definition reassembleAndDeliverFinish ::
  "'a ipv4_config \<Rightarrow> 'a ipv4_packet \<Rightarrow> 'a ipv4_node \<Rightarrow> 'a ipv4_node outcome" where
  "reassembleAndDeliverFinish c p n =
     (let protocol = ih_protocol (pk_header p) in
      if \<not> knownProtocol c protocol then Inl (RuntimeError ''Unknown protocol: number'')
      else
        let up = deliver_to_sockets protocol (ih_dest (pk_header p)) (ih_src (pk_header p)) p (ipv4_sockets n);
            n1 = n\<lparr>n_out := n_out n @ up\<rparr>
        in if protocol \<in> upperProtocols n1
           then Inr ((emit (ToUpper protocol p) n1)\<lparr>numLocalDeliver := numLocalDeliver n1 + 1\<rparr>)
           else if up \<noteq> [] then Inr n1
           else
             bindE (getSourceInterface p n1) (\<lambda>fromIE.
             Inr (emit (IcmpError p (source_id fromIE) ICMP_DU_PROTOCOL_UNREACHABLE) n1)))"

definition reassembleAndDeliver ::
  "'a ipv4_config \<Rightarrow> simtime \<Rightarrow> 'a ipv4_packet \<Rightarrow> 'a ipv4_node \<Rightarrow> 'a ipv4_node outcome" where
  "reassembleAndDeliver c now p n =
     (if ih_fragmentOffset (pk_header p) \<noteq> 0 \<or> ih_moreFragments (pk_header p) then
        let n1 = (if now \<ge> lastCheckTime n + seconds 10 then
                    let (stale, bufs) = ipv4_purgeStaleFragments (now - fragmentTimeoutTime c) (fragbuf n) in
                    n\<lparr>lastCheckTime := now, fragbuf := bufs,
                      n_out := n_out n @ map (\<lambda>q. IcmpError q (-1) ICMP_TIME_EXCEEDED) stale\<rparr>
                  else n)
        in
        bindE (ipv4_addFragment p now (fragbuf n1)) (\<lambda>(out, bufs).
        let n2 = n1\<lparr>fragbuf := bufs\<rparr> in
        case out of
          None \<Rightarrow> Inr n2
        | Some q \<Rightarrow>
            bindE (if ih_crcMode (pk_header q) = CRC_COMPUTED
                   then bindE (assertE (node_crcMode c = CRC_COMPUTED)) (\<lambda>_. Inr (map_header (setComputedCrc c) q))
                   else Inr q) (\<lambda>q'.
            with_hooks c LOCALIN (reassembleAndDeliverFinish c) q' n2))
      else with_hooks c LOCALIN (reassembleAndDeliverFinish c) p n)"

section \<open>From the upper layers\<close>

definition datagramLocalOut ::
  "'a ipv4_config \<Rightarrow> simtime \<Rightarrow> 'a ipv4_packet \<Rightarrow> 'a ipv4_node \<Rightarrow> 'a ipv4_node outcome" where
  "datagramLocalOut c now p n =
     bindE (getDestInterface p n) (\<lambda>destIE.
     let dest = ih_dest (pk_header p); multicastLoop = (tag_multicastLoop p = Some True) in
     if isMulticast dest then
       bindE (determineOutgoingInterfaceForMulticastDatagram now (pk_header p) (map_option if_id destIE) n) (\<lambda>(out, n1).
       let p1 = p\<lparr>tag_interfaceReq := Some (case out of None \<Rightarrow> -1 | Some i \<Rightarrow> i)\<rparr> in
       bindE (case out of None \<Rightarrow> Inr False | Some i \<Rightarrow> bindE (getInterfaceById i n1) (\<lambda>ie. Inr (if_isLoopback ie))) (\<lambda>loop.
       bindE (case findFirstLoopbackInterface (n_ift n1) of
                Some lo \<Rightarrow>
                  if multicastLoop \<and> \<not> loop
                  then fragmentPostRouting c now (p1\<lparr>tag_interfaceReq := Some (if_id lo), tag_nextHop := Some dest\<rparr>) n1
                  else Inr n1
              | None \<Rightarrow> Inr n1) (\<lambda>n2.
       case out of
         Some i \<Rightarrow> fragmentPostRouting c now (p1\<lparr>tag_nextHop := Some dest\<rparr>) (n2\<lparr>numMulticast := numMulticast n2 + 1\<rparr>)
       | None \<Rightarrow> Inr ((emit (PacketDropped NO_INTERFACE_FOUND p1) n2)\<lparr>numUnroutable := numUnroutable n2 + 1\<rparr>))))
     else if isLocalAddress dest (n_ift n) then
       (case destIE of
          Some ie \<Rightarrow> if if_isLoopback ie then routeUnicastPacket c now (p\<lparr>tag_nextHop := Some dest\<rparr>) n else Inr n
        | None \<Rightarrow> Inr n)
     else
       bindE (if isLimitedBroadcastAddress dest then Inr (True, n_rt n)
              else isLocalBroadcastAddress dest (n_ift n) (n_rt n)) (\<lambda>(broadcast, t).
       let n1 = n\<lparr>n_rt := t\<rparr> in
       if broadcast then routeLocalBroadcastPacket c now p n1
       else routeUnicastPacket c now (p\<lparr>tag_nextHop := Some (getNextHop p)\<rparr>) n1))"

text \<open>A packet of an upper layer with its tags, and the lengths of the options it asks for.\<close>

record 'a upper_packet =
  up_data :: "'a list"
  up_src :: ipv4_address
  up_nonLocalSrc :: bool
  up_dest :: ipv4_address
  up_protocol :: int
  up_hopLimit :: "int option"
  up_dontFragment :: "bool option"
  up_tos :: "int option"
  up_dscp :: "int option"
  up_ecn :: "int option"
  up_options :: "int list"
  up_interfaceInd :: "int option"
  up_interfaceReq :: "int option"
  up_nextHop :: "ipv4_address option"
  up_multicastLoop :: "bool option"

definition choose_ttl :: "'a ipv4_config \<Rightarrow> ipv4_address \<Rightarrow> int option \<Rightarrow> int outcome" where
  "choose_ttl c dest hopLimit =
     (let ttl = (case hopLimit of Some t \<Rightarrow> to_short t | None \<Rightarrow> -1) in
      if ttl \<noteq> -1 then bindE (assertE (ttl > 0)) (\<lambda>_. Inr ttl)
      else Inr (to_short (if isLinkLocalMulticast dest then 1
                          else if isMulticast dest then defaultMCTimeToLive c
                          else defaultTimeToLive c)))"

definition encapsulate :: "'a ipv4_config \<Rightarrow> 'a upper_packet \<Rightarrow> 'a ipv4_node \<Rightarrow> ('a ipv4_packet \<times> 'a ipv4_node) outcome" where
  "encapsulate c u n =
     bindE (if knownProtocol c (up_protocol u) then Inr () else Inl (RuntimeError ''Unknown protocol'')) (\<lambda>_.
     bindE (if \<not> isUnspecified (up_src u) \<and> \<not> up_nonLocalSrc u \<and> getInterfaceByAddress (up_src u) (n_ift n) = None
            then Inl (RuntimeError ''Wrong source address: no interface with such address'') else Inr ()) (\<lambda>_.
     bindE (if up_tos u \<noteq> None \<and> up_dscp u \<noteq> None then Inl (RuntimeError ''TosReq and DscpReq found together'')
            else if up_tos u \<noteq> None \<and> up_ecn u \<noteq> None then Inl (RuntimeError ''TosReq and EcnReq found together'')
            else Inr ()) (\<lambda>_.
     bindE (choose_ttl c (up_dest u) (up_hopLimit u)) (\<lambda>ttl.
     let len = IPv4_MIN_HEADER_LENGTH + sum_list (up_options u);
         h0 = new_ipv4_header\<lparr>ih_protocol := up_protocol u, ih_src := up_src u, ih_dest := up_dest u\<rparr>;
         h1 = (case up_tos u of Some x \<Rightarrow> h0\<lparr>ih_typeOfService := to_short x\<rparr> | None \<Rightarrow> h0);
         h2 = (case up_dscp u of Some x \<Rightarrow> setDscp x h1 | None \<Rightarrow> h1);
         h3 = (case up_ecn u of Some x \<Rightarrow> setEcn x h2 | None \<Rightarrow> h2)
     in
     bindE (assertE (len \<le> IPv4_MAX_HEADER_LENGTH)) (\<lambda>_.
     bindE (case node_crcMode c of
              CRC_DECLARED_CORRECT \<Rightarrow> Inr 0xC00D | CRC_DECLARED_INCORRECT \<Rightarrow> Inr 0xBAAD
            | CRC_COMPUTED \<Rightarrow> Inr 0 | _ \<Rightarrow> Inl (RuntimeError ''Unknown CRC mode'')) (\<lambda>crc.
     Inr (\<lparr>pk_header = h3\<lparr>ih_identification := curFragmentId n, ih_moreFragments := False,
                          ih_dontFragment := (up_dontFragment u = Some True), ih_fragmentOffset := 0,
                          ih_timeToLive := ttl, ih_headerLength := len,
                          ih_totalLength := len + int (length (up_data u)),
                          ih_crcMode := node_crcMode c, ih_crc := crc\<rparr>,
           pk_data = up_data u, pk_bitError = False, tag_interfaceInd = up_interfaceInd u,
           tag_interfaceReq = up_interfaceReq u, tag_nextHop = up_nextHop u,
           tag_multicastLoop = up_multicastLoop u, tag_macAddressReq = None\<rparr>,
          n\<lparr>curFragmentId := curFragmentId n + 1\<rparr>)))))))"

definition handlePacketFromHL ::
  "'a ipv4_config \<Rightarrow> simtime \<Rightarrow> 'a upper_packet \<Rightarrow> 'a ipv4_node \<Rightarrow> 'a ipv4_node outcome" where
  "handlePacketFromHL c now u n =
     (if n_ift n = [] then Inr ((emit (UpperDropped NO_INTERFACE_FOUND (up_data u)) n)\<lparr>numDropped := numDropped n + 1\<rparr>)
      else bindE (encapsulate c u n) (\<lambda>(p, n1). with_hooks c LOCALOUT (datagramLocalOut c now) p n1))"

section \<open>From the network\<close>

definition verifyCrc :: "'a ipv4_config \<Rightarrow> ipv4_header \<Rightarrow> bool outcome" where
  "verifyCrc c h =
     (case ih_crcMode h of
        CRC_DECLARED_CORRECT \<Rightarrow> Inr (ih_isCorrect h)
      | CRC_DECLARED_INCORRECT \<Rightarrow> Inr False
      | CRC_COMPUTED \<Rightarrow> Inr (ih_isCorrect h \<and> header_checksum c h = 0)
      | _ \<Rightarrow> Inl (RuntimeError ''Unknown CRC mode''))"

definition preroutingFinish ::
  "'a ipv4_config \<Rightarrow> simtime \<Rightarrow> 'a ipv4_packet \<Rightarrow> 'a ipv4_node \<Rightarrow> 'a ipv4_node outcome" where
  "preroutingFinish c now p n =
     bindE (getTag (tag_interfaceInd p)) (\<lambda>i.
     bindE (getInterfaceById i n) (\<lambda>fromIE.
     let h = pk_header p; dest = ih_dest h; nextHop = getNextHop p in
     if if_isLoopback fromIE then reassembleAndDeliver c now p n
     else if isMulticast dest then
       bindE (getProtocolData fromIE) (\<lambda>d.
       bindE (if isMemberOfMulticastGroup dest d \<or> (multicastForward (n_rt n) \<and> ih_protocol h = 2)
              then reassembleAndDeliver c now p n else Inr n) (\<lambda>n1.
       if \<not> multicastForward (n_rt n1) \<or> isLinkLocalMulticast dest \<or> ih_timeToLive h \<le> 1 then Inr n1
       else forwardMulticastPacket c now (prepareForForwarding p) n1))
     else
       bindE (if isLocalAddress dest (n_ift n) then Inr True
              else bindE (getProtocolData fromIE) (\<lambda>d. Inr (isUnspecified (ip_address d)))) (\<lambda>mine.
       if mine then reassembleAndDeliver c now p n
       else
         bindE (if isLimitedBroadcastAddress dest then Inr None
                else findInterfaceByLocalBroadcastAddress dest (n_ift n)) (\<lambda>broadcastIE.
         if isLimitedBroadcastAddress dest \<or> broadcastIE \<noteq> None then
           bindE (case broadcastIE of
                    Some ie \<Rightarrow>
                      if if_id ie \<noteq> if_id fromIE \<and> forwarding (n_rt n) \<and> directBroadcast c ie
                      then fragmentPostRouting c now ((prepareForForwarding p)
                             \<lparr>tag_interfaceReq := Some (if_id ie), tag_nextHop := Some ALLONES_ADDRESS\<rparr>) n
                      else Inr n
                  | None \<Rightarrow> Inr n) (reassembleAndDeliver c now p)
         else if \<not> forwarding (n_rt n) then
           Inr ((emit (PacketDropped FORWARDING_DISABLED p) n)\<lparr>numDropped := numDropped n + 1\<rparr>)
         else routeUnicastPacket c now (prepareForForwarding (p\<lparr>tag_nextHop := Some nextHop\<rparr>)) n))))"

text \<open>
  \<open>handleIncomingDatagram\<close>. The share of the header in a packet with a bit error is computed as
  \<open>headerLength / chunkLength\<close> of the header itself, which is one. A total length below the length
  of the header is taken as an empty payload.
\<close>

definition ipv4_handleIncomingDatagram ::
  "'a ipv4_config \<Rightarrow> simtime \<Rightarrow> 'a ipv4_packet \<Rightarrow> 'a ipv4_node \<Rightarrow> 'a ipv4_node outcome" where
  "ipv4_handleIncomingDatagram c now p n =
     bindE (getTag (tag_interfaceInd p)) (\<lambda>i.
     let h = pk_header p in
     bindE (verifyCrc c h) (\<lambda>ok.
     if \<not> ok then Inr (emit (PacketDropped INCORRECTLY_RECEIVED p) n)
     else if ih_totalLength h > getDataLength p then Inr (emit (IcmpError p i ICMP_PARAMETER_PROBLEM) n)
     else
       let p1 = (if ih_totalLength h < getDataLength p
                 then p\<lparr>pk_data := take (nat (ih_totalLength h - ih_headerLength h)) (pk_data p)\<rparr> else p);
           relativeHeaderLength = (of_int (ih_headerLength h) / of_int (ih_headerLength h) :: rat)
       in
       if pk_bitError p1 \<and> dblrand c \<le> relativeHeaderLength
       then Inr (emit (IcmpError p1 i ICMP_PARAMETER_PROBLEM) n)
       else with_hooks c PREROUTING (preroutingFinish c now) p1 n))"

section \<open>Sockets, hooks and the life cycle\<close>

datatype ipv4_request =
  SocketBind int int ipv4_address | SocketConnect int ipv4_address | SocketClose int | SocketDestroy int

fun handleRequest :: "ipv4_request \<Rightarrow> 'a ipv4_node \<Rightarrow> 'a ipv4_node outcome" where
  "handleRequest (SocketBind i protocol a) n =
     Inr (n\<lparr>ipv4_sockets := map_put (<) i \<lparr>is_protocolId = protocol, is_localAddress = a, is_remoteAddress = UNSPECIFIED_ADDRESS\<rparr>
            (ipv4_sockets n)\<rparr>)"
| "handleRequest (SocketConnect i a) n =
     (case map_of (ipv4_sockets n) i of
        None \<Rightarrow> Inl (RuntimeError ''Ipv4Socket: should use bind() before connect()'')
      | Some s \<Rightarrow> Inr (n\<lparr>ipv4_sockets := map_put (<) i (s\<lparr>is_remoteAddress := a\<rparr>) (ipv4_sockets n)\<rparr>))"
| "handleRequest (SocketClose i) n =
     Inr (if map_of (ipv4_sockets n) i = None then n
          else emit (SocketClosed i) (n\<lparr>ipv4_sockets := map_erase i (ipv4_sockets n)\<rparr>))"
| "handleRequest (SocketDestroy i) n = Inr (n\<lparr>ipv4_sockets := map_erase i (ipv4_sockets n)\<rparr>)"

text \<open>A queued datagram is named by its place in the list; a datagram that is not there is ignored.\<close>

definition drop_nth :: "nat \<Rightarrow> 'x list \<Rightarrow> 'x list" where
  "drop_nth k xs = take k xs @ drop (Suc k) xs"

definition dropQueuedDatagram :: "nat \<Rightarrow> 'a ipv4_node \<Rightarrow> 'a ipv4_node" where
  "dropQueuedDatagram k n = n\<lparr>queuedDatagramsForHooks := drop_nth k (queuedDatagramsForHooks n)\<rparr>"

definition reinjectQueuedDatagram ::
  "'a ipv4_config \<Rightarrow> simtime \<Rightarrow> nat \<Rightarrow> 'a ipv4_node \<Rightarrow> 'a ipv4_node outcome" where
  "reinjectQueuedDatagram c now k n =
     (if k < length (queuedDatagramsForHooks n) then
        let (p, ht) = queuedDatagramsForHooks n ! k in
        bindE (case ht of
                 LOCALOUT \<Rightarrow> datagramLocalOut c now p n
               | PREROUTING \<Rightarrow> preroutingFinish c now p n
               | POSTROUTING \<Rightarrow> fragmentAndSend c now p n
               | LOCALIN \<Rightarrow> reassembleAndDeliverFinish c p n
               | FORWARD \<Rightarrow> routeUnicastPacketFinish c now p n) (\<lambda>n'.
        Inr (dropQueuedDatagram k n'))
      else Inr n)"

definition handleRegisterProtocol :: "int \<Rightarrow> 'a ipv4_node \<Rightarrow> 'a ipv4_node" where
  "handleRegisterProtocol i n = n\<lparr>upperProtocols := insert i (upperProtocols n)\<rparr>"

definition ipv4_flush :: "'a ipv4_node \<Rightarrow> 'a ipv4_node" where
  "ipv4_flush n = n\<lparr>pendingPackets := [], queuedDatagramsForHooks := [], fragbuf := ipv4_frag_flush (fragbuf n)\<rparr>"

definition ipv4_stop :: "'a ipv4_node \<Rightarrow> 'a ipv4_node" where
  "ipv4_stop n = (ipv4_flush n)\<lparr>ipv4_sockets := []\<rparr>"

end
