(* ===== verification/Ipv4_Reassembly.thy ===== *)
theory Ipv4_Reassembly
  imports Ipv4_Datagram
begin

text \<open>
  Fragmentation against reassembly: what the fragments of a datagram are, also after further
  routers have cut them again, and what the reassembly buffer makes of them in any order.
\<close>

section \<open>The fragments of a datagram\<close>

text \<open>A piece of a message at a position, as a fragment with its key and header length.\<close>

definition fragment_at :: "ipv4_frag_key \<Rightarrow> int \<Rightarrow> 'a list \<Rightarrow> nat \<Rightarrow> 'a ipv4_packet \<Rightarrow> bool" where
  "fragment_at key hl msg k p \<longleftrightarrow>
     frag_key (pk_header p) = key \<and> ih_headerLength (pk_header p) = hl
     \<and> ih_fragmentOffset (pk_header p) = of_nat k
     \<and> ih_totalLength (pk_header p) = hl + int (length (pk_data p))
     \<and> pk_data p \<noteq> [] \<and> k + length (pk_data p) \<le> length msg
     \<and> pk_data p = take (length (pk_data p)) (drop k msg)
     \<and> (ih_moreFragments (pk_header p) \<longleftrightarrow> k + length (pk_data p) < length msg)"

definition keeps_fragment :: "(ipv4_header \<Rightarrow> ipv4_header) \<Rightarrow> bool" where
  "keeps_fragment f \<longleftrightarrow> (\<forall>h. frag_key (f h) = frag_key h \<and> ih_headerLength (f h) = ih_headerLength h
     \<and> ih_fragmentOffset (f h) = ih_fragmentOffset h \<and> ih_totalLength (f h) = ih_totalLength h
     \<and> ih_moreFragments (f h) = ih_moreFragments h)"

lemma cut_fragment_at:
  assumes "keeps_fragment crc" "fragment_at key hl msg k p" "0 < len" "offset + len \<le> length (pk_data p)"
    and "lastFragment \<longleftrightarrow> offset + len = length (pk_data p)"
  shows "fragment_at key hl msg (k + offset) (cut_fragment crc p offset len lastFragment)"
proof -
  have d: "pk_data p = take (length (pk_data p)) (drop k msg)" using assms(2) by (simp add: fragment_at_def)
  have "take len (drop offset (pk_data p)) = take len (drop (k + offset) msg)"
    using assms(4) by (subst d) (simp add: drop_take min_def ac_simps)
  moreover have "frag_key (h\<lparr>ih_moreFragments := a, ih_fragmentOffset := b, ih_totalLength := c\<rparr>) = frag_key h" for h a b c
    by (simp add: frag_key_def)
  ultimately show ?thesis
    using assms by (auto simp: fragment_at_def cut_fragment_def keeps_fragment_def min_def)
qed

lemma fragments_are_at:
  "\<lbrakk>keeps_fragment crc; fragment_at key hl msg k p; f \<in> set (fragments_loop crc n p offset)\<rbrakk>
    \<Longrightarrow> \<exists>k'. fragment_at key hl msg k' f"
proof (induction crc n p offset rule: fragments_loop.induct)
  case (1 crc n p offset)
  show ?case
  proof (cases "offset < length (pk_data p) \<and> 0 < n")
    case True
    define lst where "lst \<longleftrightarrow> offset + n \<ge> length (pk_data p)"
    define this where "this = (if lst then length (pk_data p) - offset else n)"
    have "fragment_at key hl msg (k + offset) (cut_fragment crc p offset this lst)"
      using True 1(2,3) by (intro cut_fragment_at) (auto simp: this_def lst_def)
    moreover have "fragments_loop crc n p offset = cut_fragment crc p offset this lst # fragments_loop crc n p (offset + this)"
      using True by (subst fragments_loop.simps) (simp add: this_def lst_def Let_def)
    moreover have "f \<in> set (fragments_loop crc n p (offset + this)) \<Longrightarrow> \<exists>k'. fragment_at key hl msg k' f"
      using 1(1) [OF True lst_def this_def] 1(2,3) by blast
    ultimately show ?thesis using 1(4) by auto
  next
    case False
    then show ?thesis using 1(4) by (simp add: fragments_loop.simps [of crc n p offset])
  qed
qed

text \<open>What a network may make of a datagram: fragments of fragments, with changed fields on the way.\<close>

inductive fragment_of :: "'a ipv4_packet \<Rightarrow> 'a ipv4_packet \<Rightarrow> bool" for p where
  whole: "fragment_of p p"
| cut: "fragment_of p f \<Longrightarrow> keeps_fragment crc \<Longrightarrow> g \<in> set (fragments_loop crc n f 0) \<Longrightarrow> fragment_of p g"
| hop: "fragment_of p f \<Longrightarrow> keeps_fragment h \<Longrightarrow> pk_header g = h (pk_header f) \<Longrightarrow> pk_data g = pk_data f
    \<Longrightarrow> fragment_of p g"

definition unfragmented :: "'a ipv4_packet \<Rightarrow> bool" where
  "unfragmented p \<longleftrightarrow> ih_fragmentOffset (pk_header p) = 0 \<and> \<not> ih_moreFragments (pk_header p)
     \<and> ih_totalLength (pk_header p) = getDataLength p \<and> pk_data p \<noteq> []"

lemma fragment_of_at:
  assumes "unfragmented p" "fragment_of p f"
  shows "\<exists>k. fragment_at (frag_key (pk_header p)) (ih_headerLength (pk_header p)) (pk_data p) k f"
  using assms(2)
proof induction
  case whole
  then show ?case using assms(1) by (intro exI [of _ 0]) (simp add: fragment_at_def unfragmented_def getDataLength_def)
next
  case (hop f h g)
  then show ?case by (simp add: fragment_at_def keeps_fragment_def)
qed (use fragments_are_at in blast)

section \<open>Reassembly in any order\<close>

definition frag_covers :: "'a ipv4_packet \<Rightarrow> int \<Rightarrow> bool" where
  "frag_covers p i \<longleftrightarrow> uint (ih_fragmentOffset (pk_header p)) \<le> i
     \<and> i < uint (ih_fragmentOffset (pk_header p)) + int (length (pk_data p))"

definition all_there :: "'a list \<Rightarrow> 'a ipv4_packet list \<Rightarrow> bool" where
  "all_there msg fs \<longleftrightarrow> (\<forall>i. 0 \<le> i \<and> i < int (length msg) \<longrightarrow> (\<exists>f \<in> set fs. frag_covers f i))"

definition gathering :: "ipv4_frag_key \<Rightarrow> int \<Rightarrow> 'a list \<Rightarrow> 'a ipv4_packet list \<Rightarrow> 'a ipv4_frag_buf \<Rightarrow> bool" where
  "gathering key hl msg fs bufs \<longleftrightarrow> (\<forall>f \<in> set fs. \<exists>k. fragment_at key hl msg k f)
     \<and> (case map_of bufs key of
          None \<Rightarrow> fs = []
        | Some c \<Rightarrow> gathered msg (\<lambda>i. \<exists>f \<in> set fs. frag_covers f i) (fb_buf c)
            \<and> (\<exists>q \<in> set fs. fb_packet c = Some q)
            \<and> expectedLength (fb_buf c) = (if \<exists>f \<in> set fs. \<not> ih_moreFragments (pk_header f) then int (length msg) else -1))"

lemma fragment_at_offset:
  "fragment_at key hl msg k p \<Longrightarrow> length msg < 2 ^ 16 \<Longrightarrow> uint (ih_fragmentOffset (pk_header p)) = int k"
proof -
  assume a: "fragment_at key hl msg k p" "length msg < 2 ^ 16"
  then have "k < length msg" by (cases "pk_data p") (auto simp: fragment_at_def)
  then have "unat (of_nat k :: u16) = k" using a(2) by (intro unat_of_nat_small) simp
  then show ?thesis using a(1) by (simp add: fragment_at_def uint_nat)
qed

lemma all_there_has_last:
  assumes "all_there msg fs" "msg \<noteq> []" "length msg < 2 ^ 16" "\<forall>f \<in> set fs. \<exists>k. fragment_at key hl msg k f"
  shows "\<exists>f \<in> set fs. \<not> ih_moreFragments (pk_header f)"
proof -
  obtain f where f: "f \<in> set fs" "frag_covers f (int (length msg) - 1)"
    using assms(1) [unfolded all_there_def, rule_format, of "int (length msg) - 1"] assms(2) by (cases msg) auto
  then obtain k where k: "fragment_at key hl msg k f" using assms(4) by blast
  then have "\<not> ih_moreFragments (pk_header f)"
    using f(2) fragment_at_offset [OF k assms(3)] by (auto simp: fragment_at_def frag_covers_def)
  then show ?thesis using f(1) by blast
qed

lemma ipv4_addFragment_step:
  assumes "gathering key hl msg fs bufs" "fragment_at key hl msg k p" "length msg < 2 ^ 16"
  shows "\<exists>out bufs'. ipv4_addFragment p now bufs = Inr (out, bufs')
    \<and> (if all_there msg (fs @ [p])
       then map_of bufs' key = None \<and> (\<exists>q \<in> set (fs @ [p]). out = Some (whole_datagram q msg))
       else out = None \<and> gathering key hl msg (fs @ [p]) bufs')"
proof -
  let ?h = "pk_header p" and ?d = "pk_data p"
  let ?last = "\<lambda>fs :: 'a ipv4_packet list. \<exists>f \<in> set fs. \<not> ih_moreFragments (pk_header f)"
  define cur where "cur = (case map_of bufs key of None \<Rightarrow> new_buffer | Some b \<Rightarrow> b)"
  have cur: "gathered msg (\<lambda>i. \<exists>f \<in> set fs. frag_covers f i) (fb_buf cur)"
      "expectedLength (fb_buf cur) = (if ?last fs then int (length msg) else -1)"
      "fb_packet cur = Some q \<Longrightarrow> q \<in> set fs" for q
    using assms(1) gathered_new [of msg]
    by (auto simp: gathering_def cur_def new_buffer_def reassembly_new_def split: option.splits)
  have h: "frag_key ?h = key" "uint (ih_fragmentOffset ?h) = int k" "ih_totalLength ?h - ih_headerLength ?h = int (length ?d)"
      "?d \<noteq> []" "k + length ?d \<le> length msg" "?d = take (length ?d) (drop k msg)"
      "ih_moreFragments ?h \<longleftrightarrow> k + length ?d < length msg"
    using assms(2) fragment_at_offset [OF assms(2,3)] by (auto simp: fragment_at_def)
  have tot: "ih_totalLength ?h > ih_headerLength ?h" using h(3,4) by (cases ?d) auto
  have data: "peekDataAt 0 (int (length ?d)) ?d = Inr ?d" using h(4) by (simp add: peekDataAt_def)
  obtain buf1 where buf1: "reassembly_replace (int k) ?d (fb_buf cur) = Inr buf1"
      "expectedLength buf1 = expectedLength (fb_buf cur)"
      "gathered msg (\<lambda>i. (\<exists>f \<in> set fs. frag_covers f i) \<or> int k \<le> i \<and> i < int k + int (length ?d)) buf1"
    using gathered_replace [OF cur(1) h(4), of "int k"] h(5,6) by auto
  define buf2 where "buf2 = (if \<not> ih_moreFragments ?h then buf1\<lparr>expectedLength := int k + int (length ?d)\<rparr> else buf1)"
  have set: "(\<lambda>i. \<exists>f \<in> set (fs @ [p]). frag_covers f i)
      = (\<lambda>i. (\<exists>f \<in> set fs. frag_covers f i) \<or> int k \<le> i \<and> i < int k + int (length ?d))"
    by (auto simp: fun_eq_iff frag_covers_def h(2))
  have g2: "gathered msg (\<lambda>i. \<exists>f \<in> set (fs @ [p]). frag_covers f i) buf2"
    unfolding set using buf1(3) by (simp add: buf2_def)
  have e2: "expectedLength buf2 = (if ?last (fs @ [p]) then int (length msg) else -1)"
    using buf1(2) cur(2) h(5,7) by (auto simp: buf2_def)
  have pieces: "\<forall>f \<in> set (fs @ [p]). \<exists>k. fragment_at key hl msg k f"
    using assms(1,2) by (auto simp: gathering_def)
  have ne: "msg \<noteq> []" using h(4,5) by auto
  have complete: "isComplete buf2 \<longleftrightarrow> all_there msg (fs @ [p])"
  proof (cases "?last (fs @ [p])")
    case True
    then show ?thesis using gathered_complete(1) [OF g2 ne] e2 by (simp only: all_there_def if_True)
  next
    case False
    then show ?thesis
      using incomplete_unless_expected [of buf2] e2 all_there_has_last [OF _ ne assms(3) pieces] by (simp only: if_False) blast
  qed
  define kept where "kept = (if ih_fragmentOffset ?h = 0 then p else case fb_packet cur of None \<Rightarrow> p | Some q \<Rightarrow> q)"
  have kept: "kept \<in> set (fs @ [p])" using cur(3) by (auto simp: kept_def split: option.split)
  have run: "ipv4_addFragment p now bufs =
      (if isComplete buf2 then bindE (getReassembledData buf2) (\<lambda>d. Inr (Some (whole_datagram kept d), map_erase key bufs))
       else Inr (None, map_put key_less key \<lparr>fb_buf = buf2, fb_packet = Some kept, fb_lastupdate = now\<rparr> bufs))"
    unfolding ipv4_addFragment_def Let_def h(1-3) cur_def [symmetric] data bindE_Inr buf1(1)
      buf2_def [symmetric] kept_def [symmetric] using tot by (simp add: assertE_def)
  show ?thesis
  proof (cases "all_there msg (fs @ [p])")
    case True
    have "getReassembledData buf2 = Inr msg"
      using gathered_complete(2) [OF g2 ne] e2 complete True all_there_has_last [OF True ne assms(3) pieces] by simp
    then show ?thesis using True kept complete by (auto simp: run)
  next
    case False
    then show ?thesis using complete kept g2 e2 pieces by (auto simp: run gathering_def)
  qed
qed

lemma all_there_mono: "all_there msg fs \<Longrightarrow> set fs \<subseteq> set fs' \<Longrightarrow> all_there msg fs'"
  unfolding all_there_def by blast

text \<open>A node that takes in fragments, each at its time, and hands on what is complete.\<close>

definition take_in ::
  "'a ipv4_packet \<times> simtime \<Rightarrow> 'a ipv4_packet list \<times> 'a ipv4_frag_buf \<Rightarrow> ('a ipv4_packet list \<times> 'a ipv4_frag_buf) outcome" where
  "take_in = (\<lambda>(p, now) (done, bufs).
     bindE (ipv4_addFragment p now bufs) (\<lambda>(out, bufs').
     Inr (done @ (case out of None \<Rightarrow> [] | Some d \<Rightarrow> [d]), bufs')))"

lemma take_in_incomplete:
  assumes "length msg < 2 ^ 16" "gathering key hl msg fs bufs"
    and "\<forall>x \<in> set xs. \<exists>k. fragment_at key hl msg k (fst x)" "\<not> all_there msg (fs @ map fst xs)"
  shows "\<exists>bufs'. foldE take_in xs (done, bufs) = Inr (done, bufs') \<and> gathering key hl msg (fs @ map fst xs) bufs'"
  using assms(2-4)
proof (induction xs arbitrary: fs bufs)
  case (Cons x xs)
  obtain p now where x: "x = (p, now)" by (cases x)
  obtain k where k: "fragment_at key hl msg k p" using Cons.prems(2) x by auto
  have "\<not> all_there msg (fs @ [p])"
    using Cons.prems(3) all_there_mono [of msg "fs @ [p]" "fs @ map fst (x # xs)"] x by auto
  then obtain bufs1 where b1: "ipv4_addFragment p now bufs = Inr (None, bufs1)" "gathering key hl msg (fs @ [p]) bufs1"
    using ipv4_addFragment_step [OF Cons.prems(1) k assms(1), of now] by auto
  obtain bufs' where "foldE take_in xs (done, bufs1) = Inr (done, bufs')"
      "gathering key hl msg ((fs @ [p]) @ map fst xs) bufs'"
    using Cons.IH [OF b1(2)] Cons.prems(2,3) x by auto
  then show ?case using b1(1) x by (intro exI [of _ bufs']) (simp add: take_in_def)
qed simp

lemma reassembly_run:
  fixes p q :: "'a ipv4_packet"
  assumes "unfragmented p" "length (pk_data p) < 2 ^ 16"
    and "\<forall>x \<in> set (xs @ [(q, now)]). fragment_of p (fst x)"
    and "\<not> all_there (pk_data p) (map fst xs)" "all_there (pk_data p) (map fst (xs @ [(q, now)]))"
    and "map_of bufs (frag_key (pk_header p)) = None"
  shows "\<exists>bufs1 bufs' d. foldE take_in xs ([], bufs) = Inr ([], bufs1)
    \<and> ipv4_addFragment q now bufs1 = Inr (Some (whole_datagram d (pk_data p)), bufs')
    \<and> map_of bufs' (frag_key (pk_header p)) = None \<and> d \<in> fst ` set (xs @ [(q, now)])"
proof -
  let ?key = "frag_key (pk_header p)" and ?hl = "ih_headerLength (pk_header p)" and ?msg = "pk_data p"
  have at: "\<forall>x \<in> set xs. \<exists>k. fragment_at ?key ?hl ?msg k (fst x)"
    using fragment_of_at [OF assms(1)] assms(3) by auto
  obtain k where k: "fragment_at ?key ?hl ?msg k q" using fragment_of_at [OF assms(1)] assms(3) by auto
  have "gathering ?key ?hl ?msg [] bufs" using assms(6) by (simp add: gathering_def)
  then obtain bufs1 where b1: "foldE take_in xs ([], bufs) = Inr ([], bufs1)" "gathering ?key ?hl ?msg (map fst xs) bufs1"
    using take_in_incomplete [OF assms(2) _ at, of "[]" bufs "[]"] assms(4) by auto
  obtain d bufs' where "ipv4_addFragment q now bufs1 = Inr (Some (whole_datagram d ?msg), bufs')"
      "map_of bufs' ?key = None" "d \<in> set (map fst xs @ [q])"
    using ipv4_addFragment_step [OF b1(2) k assms(2), of now] assms(5) by auto
  then show ?thesis using b1(1) by (intro exI [of _ bufs1] exI [of _ bufs'] exI [of _ d]) auto
qed

section \<open>The round trip\<close>

text \<open>
  Fragmentation and reassembly are inverse: a datagram that has been cut into fragments, and these
  into further ones by routers on the way, is handed on once by the reassembly buffer, with its
  payload, its key and the length of the whole, at the fragment that makes it complete, whatever
  the order and the repetitions in which the fragments arrive.
\<close>

theorem fragments_reassemble:
  fixes p q :: "'a ipv4_packet"
  assumes "unfragmented p" "length (pk_data p) < 2 ^ 16"
    and "\<forall>x \<in> set (xs @ [(q, now)]). fragment_of p (fst x)"
    and "\<not> all_there (pk_data p) (map fst xs)" "all_there (pk_data p) (map fst (xs @ [(q, now)]))"
    and "map_of bufs (frag_key (pk_header p)) = None"
  shows "\<exists>d bufs'. foldE take_in (xs @ [(q, now)]) ([], bufs) = Inr ([d], bufs')
    \<and> pk_data d = pk_data p \<and> frag_key (pk_header d) = frag_key (pk_header p) \<and> unfragmented d
    \<and> map_of bufs' (frag_key (pk_header p)) = None"
proof -
  obtain bufs1 bufs' d where d: "foldE take_in xs ([], bufs) = Inr ([], bufs1)"
      "ipv4_addFragment q now bufs1 = Inr (Some (whole_datagram d (pk_data p)), bufs')"
      "map_of bufs' (frag_key (pk_header p)) = None" "d \<in> fst ` set (xs @ [(q, now)])"
    using reassembly_run [OF assms] by blast
  obtain l where l: "fragment_at (frag_key (pk_header p)) (ih_headerLength (pk_header p)) (pk_data p) l d"
    using d(4) fragment_of_at [OF assms(1)] assms(3) by auto
  have "unfragmented (whole_datagram d (pk_data p))"
      "frag_key (pk_header (whole_datagram d (pk_data p))) = frag_key (pk_header p)"
    using assms(1) l by (simp_all add: unfragmented_def whole_datagram_def getDataLength_def fragment_at_def frag_key_def)
  then show ?thesis
    using d(1-3) by (intro exI [of _ "whole_datagram d (pk_data p)"] exI [of _ bufs'])
      (simp add: foldE_append take_in_def, simp add: whole_datagram_def)
qed

definition example_datagram :: "nat ipv4_packet" where
  "example_datagram =
     \<lparr>pk_header = new_ipv4_header\<lparr>ih_totalLength := 40, ih_identification := 7, ih_src := 1, ih_dest := 2,
                             ih_crcMode := CRC_DECLARED_CORRECT\<rparr>,
      pk_data = [0..<20], pk_bitError = False, tag_interfaceInd = Some 3, tag_interfaceReq = None,
      tag_nextHop = None, tag_multicastLoop = None, tag_macAddressReq = None\<rparr>"

definition example_fragment :: "nat \<Rightarrow> nat ipv4_packet" where
  "example_fragment i = fragments_loop (\<lambda>h. h) 8 example_datagram 0 ! i"

definition example_arrivals :: "(nat ipv4_packet \<times> simtime) list" where
  "example_arrivals = [(example_fragment 2, 10), (example_fragment 0, 20), (example_fragment 0, 30)]"

lemma example_payload: "pk_data example_datagram = [0..<20]" "length (pk_data example_datagram) < 2 ^ 16"
  by (simp_all add: example_datagram_def)

lemma example_unfragmented: "unfragmented example_datagram"
  by code_simp

lemma example_covers:
  "frag_covers (example_fragment 0) i \<longleftrightarrow> 0 \<le> i \<and> i < 8"
  "frag_covers (example_fragment 1) i \<longleftrightarrow> 8 \<le> i \<and> i < 16"
  "frag_covers (example_fragment 2) i \<longleftrightarrow> 16 \<le> i \<and> i < 20"
proof -
  have "(uint (ih_fragmentOffset (pk_header (example_fragment 0))), int (length (pk_data (example_fragment 0)))) = (0, 8)"
    "(uint (ih_fragmentOffset (pk_header (example_fragment 1))), int (length (pk_data (example_fragment 1)))) = (8, 8)"
    "(uint (ih_fragmentOffset (pk_header (example_fragment 2))), int (length (pk_data (example_fragment 2)))) = (16, 4)"
    by code_simp+
  then show "frag_covers (example_fragment 0) i \<longleftrightarrow> 0 \<le> i \<and> i < 8"
    "frag_covers (example_fragment 1) i \<longleftrightarrow> 8 \<le> i \<and> i < 16" "frag_covers (example_fragment 2) i \<longleftrightarrow> 16 \<le> i \<and> i < 20"
    by (simp_all only: frag_covers_def prod.inject) auto
qed

lemma example_missing: "\<not> all_there (pk_data example_datagram) (map fst example_arrivals)"
  by (auto simp: all_there_def example_covers example_payload example_arrivals_def intro!: exI [of _ 8])

lemma example_complete: "all_there (pk_data example_datagram) (map fst (example_arrivals @ [(example_fragment 1, 40)]))"
  by (auto simp: all_there_def example_covers [unfolded One_nat_def] example_payload example_arrivals_def)

lemma example_fragment_of: "i < 3 \<Longrightarrow> fragment_of example_datagram (example_fragment i)"
proof -
  assume i: "i < 3"
  have "length (fragments_loop (\<lambda>h. h) 8 example_datagram 0) = 3" by code_simp
  then show ?thesis
    unfolding example_fragment_def using i
    by (intro fragment_of.cut [OF fragment_of.whole, of "\<lambda>h. h" _ 8]) (simp_all add: keeps_fragment_def)
qed

lemma fragments_reassemble_witness:
  "\<exists>d bufs. foldE take_in (example_arrivals @ [(example_fragment 1, 40)]) ([], []) = Inr ([d], bufs) \<and> pk_data d = [0..<20]"
proof -
  have all: "\<forall>x \<in> set (example_arrivals @ [(example_fragment 1, 40)]). fragment_of example_datagram (fst x)"
    using example_fragment_of [of 0] example_fragment_of [of 1] example_fragment_of [of 2]
    by (simp add: example_arrivals_def)
  have "map_of [] (frag_key (pk_header example_datagram)) = None" by simp
  from fragments_reassemble [OF example_unfragmented example_payload(2) all example_missing example_complete this]
  show ?thesis using example_payload(1) by fastforce
qed

end
