(* ===== verification/Ipv4_Lookup.thy ===== *)
theory Ipv4_Lookup
  imports Ipv4_Routing_Table
begin

text \<open>
  The routing table as a whole: whatever happens to it, the vector stays in the order of
  preference, and the cached search for the first match is the longest prefix match.
\<close>

section \<open>Sorted insertion\<close>

text \<open>What \<open>std::upper_bound\<close> asks of a comparison: a strict weak order.\<close>

locale weak_order =
  fixes lt :: "'a \<Rightarrow> 'a \<Rightarrow> bool"
  assumes asym: "lt a b \<Longrightarrow> \<not> lt b a"
    and neg_trans: "\<not> lt b a \<Longrightarrow> \<not> lt c b \<Longrightarrow> \<not> lt c a"
begin

definition in_order :: "'a list \<Rightarrow> bool" where
  "in_order = sorted_wrt (\<lambda>a b. \<not> lt b a)"

lemma upper_bound_loop_splits:
  assumes "\<And>i j. i < j \<Longrightarrow> j < length xs \<Longrightarrow> behind (xs ! i) \<Longrightarrow> behind (xs ! j)"
    and "first + len \<le> length xs" and "\<And>i. i < first \<Longrightarrow> \<not> behind (xs ! i)"
    and "\<And>i. first + len \<le> i \<Longrightarrow> i < length xs \<Longrightarrow> behind (xs ! i)"
  shows "upper_bound_loop behind xs first len \<le> length xs
    \<and> (\<forall>i < upper_bound_loop behind xs first len. \<not> behind (xs ! i))
    \<and> (\<forall>i < length xs. upper_bound_loop behind xs first len \<le> i \<longrightarrow> behind (xs ! i))"
  using assms
proof (induction behind xs first len rule: upper_bound_loop.induct)
  case (1 behind xs first len)
  let ?half = "len div 2" and ?mid = "first + len div 2"
  have loop: "upper_bound_loop behind xs first len =
      (if len = 0 then first else if behind (xs ! ?mid) then upper_bound_loop behind xs first ?half
       else upper_bound_loop behind xs (?mid + 1) (len - ?half - 1))"
    by (subst upper_bound_loop.simps) (simp add: Let_def)
  show ?case
  proof (cases "len = 0")
    case True
    then show ?thesis using 1(4-) unfolding loop by auto
  next
    case False
    have mid: "?mid < length xs" using False 1(4) by auto
    show ?thesis
    proof (cases "behind (xs ! ?mid)")
      case True
      have behind: "behind (xs ! i)" if "?mid \<le> i" "i < length xs" for i
        using 1(3) [of ?mid i] True that by (cases "i = ?mid") auto
      have "first + ?half \<le> length xs" using 1(4) by auto
      from 1(1) [OF False refl refl True 1(3) this 1(5) behind] show ?thesis
        unfolding loop using False True by simp
    next
      case not_behind: False
      have ahead: "\<not> behind (xs ! i)" if "i < ?mid + 1" for i
        using 1(3) [of i ?mid] not_behind mid that by (cases "i = ?mid") auto
      have "?mid + 1 + (len - ?half - 1) \<le> length xs" using 1(4) False by auto
      moreover have "behind (xs ! i)" if "?mid + 1 + (len - ?half - 1) \<le> i" "i < length xs" for i
        using 1(6) [of i] that False by auto
      ultimately show ?thesis
        using 1(2) [OF False refl refl not_behind 1(3) _ ahead] unfolding loop using False not_behind by simp
    qed
  qed
qed

lemma insert_sorted_split:
  assumes "in_order xs"
  shows "\<exists>ys zs. xs = ys @ zs \<and> insert_sorted lt x xs = ys @ x # zs
    \<and> (\<forall>y \<in> set ys. \<not> lt x y) \<and> (\<forall>z \<in> set zs. lt x z)"
proof -
  let ?p = "upper_bound lt x xs"
  have mono: "lt x (xs ! j)" if "i < j" "j < length xs" "lt x (xs ! i)" for i j
  proof -
    have "\<not> lt (xs ! j) (xs ! i)" using assms that(1,2) sorted_wrt_nth_less unfolding in_order_def by blast
    then show ?thesis using neg_trans that(3) by blast
  qed
  have "0 + length xs \<le> length xs" "\<And>i. i < 0 \<Longrightarrow> \<not> lt x (xs ! i)"
      "\<And>i. 0 + length xs \<le> i \<Longrightarrow> i < length xs \<Longrightarrow> lt x (xs ! i)" by simp_all
  from upper_bound_loop_splits [of xs "lt x", OF mono this]
  have p: "?p \<le> length xs" "\<forall>i < ?p. \<not> lt x (xs ! i)" "\<forall>i < length xs. ?p \<le> i \<longrightarrow> lt x (xs ! i)"
    by (simp_all add: upper_bound_def)
  have "\<not> lt x y" if "y \<in> set (take ?p xs)" for y
    using that p(1,2) by (metis in_set_conv_nth length_take min.absorb2 nth_take)
  moreover have "lt x z" if z: "z \<in> set (drop ?p xs)" for z
  proof -
    obtain k where k: "k < length xs - ?p" "z = xs ! (?p + k)"
      using z by (auto simp: in_set_conv_nth)
    then have "?p + k < length xs" by simp
    then show ?thesis using k(2) p(3) le_add1 by blast
  qed
  ultimately show ?thesis
    by (intro exI [of _ "take ?p xs"] exI [of _ "drop ?p xs"]) (simp add: insert_sorted_def insert_at_def)
qed

lemma insert_sorted_in_order: "in_order xs \<Longrightarrow> in_order (insert_sorted lt x xs)"
  using insert_sorted_split [of xs x] asym by (auto simp: in_order_def sorted_wrt_append)

lemma set_insert_sorted: "in_order xs \<Longrightarrow> set (insert_sorted lt x xs) = insert x (set xs)"
  using insert_sorted_split [of xs x] by auto

lemma distinct_insert_sorted:
  "in_order xs \<Longrightarrow> distinct (map f (insert_sorted lt x xs)) \<longleftrightarrow> f x \<notin> f ` set xs \<and> distinct (map f xs)"
  using insert_sorted_split [of xs x] by auto

end

interpretation by_route: weak_order "routeLessThan ad" for ad
  by unfold_locales (auto simp: routeLessThan_def split: if_splits)

interpretation by_mroute: weak_order multicastRouteLessThan
  by unfold_locales (auto simp: multicastRouteLessThan_def split: if_splits)

section \<open>The reference\<close>

text \<open>
  The longest prefix match as a scan of all routes: a route prefix_covers an address when they agree in
  the leading bits, as many as the prefix has; a longer prefix is preferred, then the smaller
  administrative distance, if it is used, then the smaller metric.
\<close>

definition prefix_length :: "ipv4_route \<Rightarrow> nat" where
  "prefix_length r = nat (getNetmaskLength (r_netmask r))"

definition prefix_covers :: "ipv4_address \<Rightarrow> ipv4_route \<Rightarrow> bool" where
  "prefix_covers a r \<longleftrightarrow> drop_bit (32 - prefix_length r) a = drop_bit (32 - prefix_length r) (r_dest r)"

definition preferred :: "bool \<Rightarrow> ipv4_route \<Rightarrow> ipv4_route \<Rightarrow> bool" where
  "preferred ad r s \<longleftrightarrow> prefix_length r > prefix_length s
     \<or> prefix_length r = prefix_length s
       \<and> (if ad \<and> r_adminDist r \<noteq> r_adminDist s then r_adminDist r < r_adminDist s else r_metric r < r_metric s)"

definition better_route :: "bool \<Rightarrow> simtime \<Rightarrow> ipv4_address \<Rightarrow> ipv4_route option \<Rightarrow> ipv4_route \<Rightarrow> ipv4_route option" where
  "better_route ad now a best r =
     (if isValid now r \<and> prefix_covers a r \<and> (case best of None \<Rightarrow> True | Some s \<Rightarrow> preferred ad r s) then Some r else best)"

definition longest_prefix_match :: "bool \<Rightarrow> simtime \<Rightarrow> ipv4_address \<Rightarrow> ipv4_route list \<Rightarrow> ipv4_route option" where
  "longest_prefix_match ad now a rs = foldl (better_route ad now a) None rs"

section \<open>The first match is the longest\<close>

definition route_ok :: "ipv4_route \<Rightarrow> bool" where
  "route_ok r \<longleftrightarrow> isValidNetmask (r_netmask r) \<and> r_dest r AND NOT (r_netmask r) = 0"

lemma route_ok_netmask: "route_ok r \<Longrightarrow> prefix_length r \<le> 32 \<and> r_netmask r = netmask (prefix_length r)"
  by (auto simp: route_ok_def valid_netmask_iff prefix_length_def netmask_length)

lemma matches_covers: "route_ok r \<Longrightarrow> route_matches a r \<longleftrightarrow> prefix_covers a r"
  using route_ok_netmask [of r] masked_netmask [of "prefix_length r" a "r_dest r"]
  by (simp add: route_matches_def prefix_covers_def)

lemma covered_dest:
  assumes "route_ok r" "prefix_covers a r"
  shows "r_dest r = a AND r_netmask r"
proof (rule bit_word_eqI)
  fix i assume i: "i < LENGTH(32)"
  have n: "prefix_length r \<le> 32" "r_netmask r = netmask (prefix_length r)" using route_ok_netmask [OF assms(1)] by simp_all
  show "bit (r_dest r) i = bit (a AND r_netmask r) i"
  proof (cases "32 - prefix_length r \<le> i")
    case True
    have "bit (drop_bit (32 - prefix_length r) a) (i - (32 - prefix_length r))
        = bit (drop_bit (32 - prefix_length r) (r_dest r)) (i - (32 - prefix_length r))"
      using assms(2) by (simp add: prefix_covers_def)
    then show ?thesis using True i by (simp add: bit_simps n(2) bit_netmask)
  next
    case False
    have "\<not> bit (r_dest r AND NOT (r_netmask r)) i" using assms(1) by (simp add: route_ok_def)
    then show ?thesis using False i by (simp add: bit_simps n(2) bit_netmask)
  qed
qed

lemma earlier_not_worse:
  assumes "\<not> routeLessThan ad s r" "route_ok r" "route_ok s" "prefix_covers a r" "prefix_covers a s"
  shows "\<not> preferred ad s r"
proof -
  have n: "prefix_length r \<le> 32" "r_netmask r = netmask (prefix_length r)"
      "prefix_length s \<le> 32" "r_netmask s = netmask (prefix_length s)"
    using route_ok_netmask assms(2,3) by blast+
  have dest: "r_netmask r = r_netmask s \<Longrightarrow> r_dest r = r_dest s"
    using covered_dest [OF assms(2,4)] covered_dest [OF assms(3,5)] by simp
  show ?thesis
  proof (cases "prefix_length r = prefix_length s")
    case True
    then show ?thesis using assms(1) n dest by (auto simp: preferred_def routeLessThan_def split: if_splits)
  next
    case False
    then have "r_netmask r \<noteq> r_netmask s" using n netmask_inject by metis
    then have "\<not> r_netmask s > r_netmask r" using assms(1) by (auto simp: routeLessThan_def)
    then show ?thesis using n False netmask_less by (auto simp: preferred_def)
  qed
qed

lemma foldl_keeps_best:
  "(\<And>s. s \<in> set rs \<Longrightarrow> isValid now s \<Longrightarrow> prefix_covers a s \<Longrightarrow> \<not> preferred ad s r)
    \<Longrightarrow> foldl (better_route ad now a) (Some r) rs = Some r"
  by (induction rs) (auto simp: better_route_def)

lemma first_match_longest:
  assumes "sorted_wrt (\<lambda>a b. \<not> routeLessThan ad b a) rs" "\<forall>r \<in> set rs. route_ok r"
  shows "find (\<lambda>r. isValid now r \<and> route_matches a r) rs = longest_prefix_match ad now a rs"
  using assms
proof (induction rs)
  case (Cons r rs)
  show ?case
  proof (cases "isValid now r \<and> prefix_covers a r")
    case True
    have "\<not> preferred ad s r" if "s \<in> set rs" "prefix_covers a s" for s
      using earlier_not_worse [of ad s r a] Cons.prems True that by simp
    then have "foldl (better_route ad now a) (Some r) rs = Some r" by (intro foldl_keeps_best)
    then show ?thesis
      using True Cons.prems by (simp add: longest_prefix_match_def better_route_def matches_covers)
  next
    case False
    then have "better_route ad now a None r = None" "\<not> (isValid now r \<and> route_matches a r)"
      using Cons.prems by (auto simp: better_route_def matches_covers)
    then show ?thesis using Cons by (auto simp: longest_prefix_match_def)
  qed
qed (simp add: longest_prefix_match_def)

end
