(* ===== verification/Ipv4_Table_Laws.thy ===== *)
theory Ipv4_Table_Laws
  imports Ipv4_Lookup
begin

text \<open>
  The routing table as a transition system: every operation of \<open>Ipv4RoutingTable\<close> keeps the routes
  in the order of preference and the cache in step with them, so that the cached first match is
  the longest prefix match of the reference.
\<close>

section \<open>The invariant\<close>

definition routes_ok :: "bool \<Rightarrow> ipv4_route list \<Rightarrow> bool" where
  "routes_ok ad rs \<longleftrightarrow> distinct (map r_id rs) \<and> by_route.in_order ad rs \<and> (\<forall>r \<in> set rs. route_ok r)"

definition cache_ok :: "simtime \<Rightarrow> routing_table \<Rightarrow> bool" where
  "cache_ok now t \<longleftrightarrow> (\<forall>a e. routingCache t a = Some e \<longrightarrow>
     (case e of
        None \<Rightarrow> search_route now a t = None
      | Some i \<Rightarrow> \<exists>r. route_by_id i t = Some r \<and> (isValid now r \<longrightarrow> search_route now a t = Some r)))"

definition table_ok :: "simtime \<Rightarrow> routing_table \<Rightarrow> bool" where
  "table_ok now t \<longleftrightarrow> routes_ok (useAdminDist t) (routes t) \<and> cache_ok now t"

lemma routes_ok_filter: "routes_ok ad rs \<Longrightarrow> routes_ok ad (filter P rs)"
  by (auto simp: routes_ok_def by_route.in_order_def sorted_wrt_filter distinct_map_filter)

lemma drop_first:
  "distinct (map f xs) \<Longrightarrow> takeWhile (\<lambda>x. f x \<noteq> i) xs @ tl (dropWhile (\<lambda>x. f x \<noteq> i) xs) = filter (\<lambda>x. f x \<noteq> i) xs"
proof (induction xs)
  case (Cons x xs)
  then show ?case by (cases "f x = i") (auto intro!: filter_True [symmetric] simp: image_iff)
qed simp

lemma routes_ok_insert:
  "routes_ok ad rs \<Longrightarrow> route_ok e \<Longrightarrow> r_id e \<notin> r_id ` set rs
    \<Longrightarrow> routes_ok ad (insert_sorted (routeLessThan ad) e rs)"
  by (simp add: routes_ok_def by_route.insert_sorted_in_order by_route.set_insert_sorted
      by_route.distinct_insert_sorted)

lemma find_map_route:
  "(\<And>r. r \<in> set rs \<Longrightarrow> P (f r) = P r) \<Longrightarrow> find P (map f rs) = map_option f (find P rs)"
  by (induction rs) auto

lemma invalidated [simp]:
  "routes (invalidateCache t) = routes t" "useAdminDist (invalidateCache t) = useAdminDist t"
  "cache_ok now (invalidateCache t)"
  "table_ok now (invalidateCache t) \<longleftrightarrow> routes_ok (useAdminDist t) (routes t)"
  by (simp_all add: invalidateCache_def table_ok_def cache_ok_def)

lemma table_ok_new [simp]: "table_ok now (new_table ad fwd mfwd)"
  by (simp add: new_table_def table_ok_def routes_ok_def by_route.in_order_def cache_ok_def)

text \<open>Changes of what the lookup does not look at.\<close>

lemma table_ok_same:
  "\<lbrakk>table_ok now t; routes t' = routes t; useAdminDist t' = useAdminDist t;
    routingCache t' = routingCache t \<or> routingCache t' = Map.empty\<rbrakk> \<Longrightarrow> table_ok now t'"
proof -
  assume a: "table_ok now t" "routes t' = routes t" "useAdminDist t' = useAdminDist t"
    "routingCache t' = routingCache t \<or> routingCache t' = Map.empty"
  have "search_route now a t' = search_route now a t" "route_by_id i t' = route_by_id i t" for a i
    using a(2) by (simp_all add: search_route_def route_by_id_def)
  then have "cache_ok now t \<Longrightarrow> cache_ok now t'" using a(4) by (auto simp: cache_ok_def cong: option.case_cong)
  then show ?thesis using a by (simp add: table_ok_def)
qed

lemma table_okD: "table_ok now t \<Longrightarrow> routes_ok (useAdminDist t) (routes t)"
  by (simp add: table_ok_def)

section \<open>Every operation keeps it\<close>

lemma removed_ok:
  assumes "table_ok now t"
  shows "table_ok now (snd (internalRemoveRoute i t))"
    "fst (internalRemoveRoute i t) \<longleftrightarrow> i \<in> r_id ` set (routes t)"
    "routes (snd (internalRemoveRoute i t)) = filter (\<lambda>r. r_id r \<noteq> i) (routes t)"
    "useAdminDist (snd (internalRemoveRoute i t)) = useAdminDist t"
proof -
  have d: "distinct (map r_id (routes t))" "routes_ok (useAdminDist t) (routes t)"
    using assms by (simp_all add: table_ok_def routes_ok_def)
  show "table_ok now (snd (internalRemoveRoute i t))"
    "fst (internalRemoveRoute i t) \<longleftrightarrow> i \<in> r_id ` set (routes t)"
    "routes (snd (internalRemoveRoute i t)) = filter (\<lambda>r. r_id r \<noteq> i) (routes t)"
    "useAdminDist (snd (internalRemoveRoute i t)) = useAdminDist t"
    using assms d by (auto simp: internalRemoveRoute_def drop_first routes_ok_filter intro!: filter_True [symmetric])
qed

lemma insert_route_ok:
  "routes_ok (useAdminDist t) (routes t) \<Longrightarrow> route_ok e \<Longrightarrow> r_id e \<notin> r_id ` set (routes t) \<Longrightarrow> table_ok now (insert_route e t)"
  by (simp add: insert_route_def routes_ok_insert)

lemma added_ok:
  assumes "table_ok now t" "internalAddRoute now e t = Inr t'" "r_id e \<notin> r_id ` set (routes t)"
  shows "table_ok now t'"
proof -
  define t1 where "t1 = (if isUnspecified (r_netmask e)
                  then (case getDefaultRoute now t of None \<Rightarrow> t | Some old \<Rightarrow> snd (deleteRoute (r_id old) t))
                  else t)"
  have t1: "table_ok now t1" "set (routes t1) \<subseteq> set (routes t)"
    using assms(1) removed_ok [OF assms(1)] by (auto simp: t1_def deleteRoute_def split: option.splits)
  have "t' = insert_route e t1 \<and> route_ok e"
    using assms(2) by (auto simp: internalAddRoute_def t1_def route_ok_def Let_def split: if_splits)
  then show ?thesis using t1 assms(3) by (auto intro!: insert_route_ok dest: table_okD)
qed

lemma purge_ok: "table_ok now t \<Longrightarrow> table_ok now (purge now t)"
  by (auto simp: purge_def table_ok_def routes_ok_filter)

lemma filter_short: "\<not> length (filter P xs) < length xs \<Longrightarrow> filter P xs = xs"
  by (metis filter_id_conv length_filter_less)

lemma deleted_interface_ok: "table_ok now t \<Longrightarrow> table_ok now (deleteInterfaceRoutes i t)"
  unfolding deleteInterfaceRoutes_def Let_def
  by (auto simp: table_okD routes_ok_filter filter_short intro: table_ok_same [of now t])

lemma delete_netmask_ok:
  "table_ok now t \<Longrightarrow> table_ok now (delete_netmask_routes t) \<and> set (routes (delete_netmask_routes t)) \<subseteq> set (routes t)
     \<and> useAdminDist (delete_netmask_routes t) = useAdminDist t"
  by (auto simp: delete_netmask_routes_def routes_ok_filter table_ok_def)

lemma netmask_route_ok: "isValidNetmask (ip_netmask d) \<Longrightarrow> route_ok (netmask_route i ie d)"
  by (simp add: route_ok_def netmask_route_def doAnd_def and.assoc)

definition masks_valid :: "interface_entry list \<Rightarrow> bool" where
  "masks_valid ies \<longleftrightarrow> list_all (\<lambda>ie. case if_ipv4 ie of None \<Rightarrow> True | Some d \<Rightarrow> isValidNetmask (ip_netmask d)) ies"

lemma add_netmask_ok:
  "\<lbrakk>table_ok now t; masks_valid ies; \<forall>r \<in> set (routes t). r_id r < fresh\<rbrakk>
    \<Longrightarrow> table_ok now (add_netmask_routes named fresh ies t)"
proof (induction named fresh ies t rule: add_netmask_routes.induct)
  case (2 named fresh ie ies t)
  have ok: "routes_ok (useAdminDist t) (routes t)" using "2.prems"(1) by (simp add: table_ok_def)
  have fresh: "fresh \<notin> r_id ` set (routes t)" using "2.prems"(3) by auto
  have new: "table_ok now (insert_route (netmask_route fresh ie d) t)
      \<and> (\<forall>r \<in> set (routes (insert_route (netmask_route fresh ie d) t)). r_id r < fresh + 1)"
    if "if_ipv4 ie = Some d" for d
  proof
    show "table_ok now (insert_route (netmask_route fresh ie d) t)"
      using "2.prems"(2) fresh ok that
      by (intro insert_route_ok) (auto simp: masks_valid_def netmask_route_ok, auto simp: netmask_route_def)
    show "\<forall>r \<in> set (routes (insert_route (netmask_route fresh ie d) t)). r_id r < fresh + 1"
      using "2.prems"(3) ok
      by (auto simp: insert_route_def by_route.set_insert_sorted routes_ok_def netmask_route_def)
  qed
  have "masks_valid ies" using "2.prems"(2) by (simp add: masks_valid_def)
  then show ?case using 2 new by (auto split: option.split)
qed simp

lemma updateNetmaskRoutes_ok:
  "\<lbrakk>table_ok now t; masks_valid ies; \<forall>r \<in> set (routes t). r_id r < fresh\<rbrakk>
    \<Longrightarrow> table_ok now (updateNetmaskRoutes named fresh ies t)"
  unfolding updateNetmaskRoutes_def using delete_netmask_ok [of now t] by (intro add_netmask_ok) auto

lemma signal_ok:
  assumes "table_ok now t" "masks_valid ies" "\<forall>r \<in> set (routes t). r_id r < fresh"
  shows "table_ok now (table_receiveSignal named fresh ies s t)"
proof -
  have inv: "table_ok now t' \<Longrightarrow> table_ok now (invalidateCache t')" for t' by (simp add: table_ok_def)
  show ?thesis
    using assms by (cases s) (auto simp: Let_def simp del: invalidated(4) intro!: deleted_interface_ok updateNetmaskRoutes_ok inv)
qed

text \<open>A setter of a route that keeps the fields the order depends on, or reports them as changed.\<close>

definition keeps_order :: "bool \<Rightarrow> ipv4_route \<Rightarrow> ipv4_route \<Rightarrow> bool" where
  "keeps_order ad r s \<longleftrightarrow> r_netmask s = r_netmask r \<and> r_dest s = r_dest r \<and> r_metric s = r_metric r
     \<and> (ad \<longrightarrow> r_adminDist s = r_adminDist r) \<and> r_expiry s = r_expiry r"

lemma same_order:
  "keeps_order ad r r' \<Longrightarrow> keeps_order ad s s' \<Longrightarrow> routeLessThan ad r' s' = routeLessThan ad r s"
  "keeps_order ad r r' \<Longrightarrow> route_ok r' = route_ok r"
  "keeps_order ad r r' \<Longrightarrow> isValid now r' = isValid now r"
  "keeps_order ad r r' \<Longrightarrow> route_matches a r' = route_matches a r"
  by (auto simp: keeps_order_def routeLessThan_def route_ok_def isValid_def route_matches_def)

lemma keeps_order_refl [simp]: "keeps_order ad r r"
  by (simp add: keeps_order_def)

definition set_route :: "nat \<Rightarrow> (ipv4_route \<Rightarrow> ipv4_route) \<Rightarrow> ipv4_route \<Rightarrow> ipv4_route" where
  "set_route i f x = (if r_id x = i then f x else x)"

lemma replaced_ok:
  assumes "table_ok now t" "\<And>r. keeps_order (useAdminDist t) r (f r) \<and> r_id (f r) = r_id r"
  shows "table_ok now (t\<lparr>routes := map f (routes t)\<rparr>)"
proof -
  let ?t = "t\<lparr>routes := map f (routes t)\<rparr>"
  have look: "search_route now a ?t = map_option f (search_route now a t)"
      "route_by_id i ?t = map_option f (route_by_id i t)" for a i
    using assms(2) same_order(3,4) unfolding search_route_def route_by_id_def
    by (auto intro!: find_map_route) metis+
  have "cache_ok now ?t" unfolding cache_ok_def
  proof (intro allI impI)
    fix a e assume e: "routingCache ?t a = Some e"
    then have c: "case e of None \<Rightarrow> search_route now a t = None
        | Some i \<Rightarrow> \<exists>r. route_by_id i t = Some r \<and> (isValid now r \<longrightarrow> search_route now a t = Some r)"
      using assms(1) by (simp add: table_ok_def cache_ok_def)
    have v: "isValid now (f r) = isValid now r" for r using assms(2) same_order(3) by blast
    show "case e of None \<Rightarrow> search_route now a ?t = None
        | Some i \<Rightarrow> \<exists>r. route_by_id i ?t = Some r \<and> (isValid now r \<longrightarrow> search_route now a ?t = Some r)"
      using c by (cases e) (auto simp: look v)
  qed
  moreover have "r_id (f r) = r_id r" for r using assms(2) by simp
  moreover have "by_route.in_order (useAdminDist t) (map f (routes t)) = by_route.in_order (useAdminDist t) (routes t)"
  proof -
    have "routeLessThan (useAdminDist t) (f y) (f x) = routeLessThan (useAdminDist t) y x" for x y
      using assms(2) same_order(1) by blast
    then show ?thesis by (simp add: by_route.in_order_def sorted_wrt_map)
  qed
  moreover have "\<forall>r \<in> set (routes t). route_ok (f r) = route_ok r" using assms(2) same_order(2) by blast
  ultimately show ?thesis using assms(1) by (simp add: table_ok_def routes_ok_def o_def)
qed

lemma find_unique: "distinct (map f xs) \<Longrightarrow> x \<in> set xs \<Longrightarrow> find (\<lambda>y. f y = f x) xs = Some x"
  by (induction xs) (auto simp: image_iff)

lemma route_by_idD: "route_by_id i t = Some r \<Longrightarrow> r \<in> set (routes t) \<and> r_id r = i"
  by (auto simp: route_by_id_def find_Some_iff)

lemma routeChanged_key:
  assumes ok: "table_ok now t" and r: "route_by_id i t = Some r" and id: "r_id r' = i"
    and run: "routeChanged now r' c (t\<lparr>routes := map (\<lambda>x. if r_id x = i then r' else x) (routes t)\<rparr>) = Inr t'"
    and c: "c \<in> {F_DESTINATION, F_PREFIX_LENGTH, F_METRIC}"
  shows "table_ok now t'"
proof -
  define g where "g = set_route i (\<lambda>_. r')"
  define u where "u = t\<lparr>routes := map g (routes t)\<rparr>"
  have u: "t\<lparr>routes := map (\<lambda>x. if r_id x = i then r' else x) (routes t)\<rparr> = u"
    by (simp add: u_def g_def set_route_def)
  have "r_id (g x) = r_id x" for x using id by (simp add: g_def set_route_def)
  then have d: "distinct (map r_id (routes u))" using ok by (simp add: table_ok_def routes_ok_def u_def o_def)
  have f: "filter (\<lambda>x. r_id x \<noteq> i) (map g xs) = filter (\<lambda>x. r_id x \<noteq> i) xs" for xs
    using id by (induction xs) (auto simp: g_def set_route_def)
  have "g r \<in> set (routes u)" "r_id (g r) = i" using route_by_idD [OF r] id by (simp_all add: u_def g_def set_route_def)
  then have rm: "internalRemoveRoute i u = (True, invalidateCache (u\<lparr>routes := filter (\<lambda>x. r_id x \<noteq> i) (routes u)\<rparr>))"
    using drop_first [OF d, of i] by (auto simp: internalRemoveRoute_def)
  define t1 where "t1 = invalidateCache (u\<lparr>routes := filter (\<lambda>x. r_id x \<noteq> i) (routes u)\<rparr>)"
  have "table_ok now t1" "i \<notin> r_id ` set (routes t1)"
    using ok by (auto simp: t1_def u_def f table_okD routes_ok_filter)
  moreover have "internalAddRoute now r' t1 = Inr t'"
    using run c id by (auto simp: routeChanged_def u rm t1_def)
  ultimately show ?thesis using id added_ok by blast
qed

lemma change_route_ok:
  assumes ok: "table_ok now t" and run: "change_route now i f c t = Inr t'" and id: "\<And>r. r_id (f r) = r_id r"
    and c: "c \<in> {F_DESTINATION, F_PREFIX_LENGTH, F_METRIC} \<or> (\<forall>r. keeps_order (useAdminDist t) r (f r))"
  shows "table_ok now t'"
proof -
  obtain r where r: "route_by_id i t = Some r" using run by (auto simp: change_route_def split: option.splits)
  let ?t = "t\<lparr>routes := map (\<lambda>x. if r_id x = i then f r else x) (routes t)\<rparr>"
  consider "t' = t" | "routeChanged now (f r) c ?t = Inr t'"
    using run by (cases "f r = r") (simp_all only: change_route_def r option.case if_True if_False simp_thms sum.inject)
  then show ?thesis
  proof cases
    case 2
    show ?thesis
    proof (cases "c \<in> {F_DESTINATION, F_PREFIX_LENGTH, F_METRIC}")
      case True
      then show ?thesis using routeChanged_key [OF ok r _ 2] id route_by_idD [OF r] by simp
    next
      case False
      then have "t' = ?t" using 2 by (simp add: routeChanged_def)
      also have "map (\<lambda>x. if r_id x = i then f r else x) (routes t) = map (set_route i f) (routes t)"
      proof (intro map_cong refl)
        fix x assume "x \<in> set (routes t)"
        then have "r_id x = i \<Longrightarrow> x = r"
          using ok route_by_idD [OF r] by (auto simp: table_ok_def routes_ok_def distinct_map inj_on_def)
        then show "(if r_id x = i then f r else x) = set_route i f x" by (auto simp: set_route_def)
      qed
      finally have "t' = t\<lparr>routes := map (set_route i f) (routes t)\<rparr>" by simp
      then show ?thesis using replaced_ok [OF ok, of "set_route i f"] False c id by (simp add: set_route_def)
    qed
  qed (use ok in simp)
qed

section \<open>Lookups\<close>

lemma find_mono_in_time:
  assumes "now \<le> now'" "find (\<lambda>r. isValid now r \<and> P r) rs = e"
  shows "(case e of None \<Rightarrow> find (\<lambda>r. isValid now' r \<and> P r) rs = None
     | Some r \<Rightarrow> isValid now' r \<longrightarrow> find (\<lambda>r. isValid now' r \<and> P r) rs = Some r)"
proof -
  have v: "isValid now' r \<Longrightarrow> isValid now r" for r using assms(1) by (auto simp: isValid_def split: option.splits)
  then show ?thesis using assms(2) by (induction rs arbitrary: e) (auto split: option.splits if_splits)
qed

lemma time_passes_ok: "table_ok now t \<Longrightarrow> now \<le> now' \<Longrightarrow> table_ok now' t"
  unfolding table_ok_def cache_ok_def
proof (elim conjE, intro conjI allI impI)
  fix a e assume le: "now \<le> now'" and e: "routingCache t a = Some e"
    and ok: "\<forall>a e. routingCache t a = Some e \<longrightarrow> (case e of None \<Rightarrow> search_route now a t = None
      | Some i \<Rightarrow> \<exists>r. route_by_id i t = Some r \<and> (isValid now r \<longrightarrow> search_route now a t = Some r))"
  have v: "isValid now' r \<Longrightarrow> isValid now r" for r using le by (auto simp: isValid_def split: option.splits)
  have "case e of None \<Rightarrow> search_route now a t = None
      | Some i \<Rightarrow> \<exists>r. route_by_id i t = Some r \<and> (isValid now r \<longrightarrow> search_route now a t = Some r)"
    using ok e by blast
  then show "case e of None \<Rightarrow> search_route now' a t = None
      | Some i \<Rightarrow> \<exists>r. route_by_id i t = Some r \<and> (isValid now' r \<longrightarrow> search_route now' a t = Some r)"
    using find_mono_in_time [OF le refl, of "route_matches a" "routes t"] v
    by (auto simp: search_route_def split: option.splits) 
qed auto

lemma search_route_by_id:
  "table_ok now t \<Longrightarrow> search_route now a t = Some r \<Longrightarrow> route_by_id (r_id r) t = Some r"
  using find_unique [of r_id "routes t" r]
  by (auto simp: search_route_def find_Some_iff route_by_id_def table_ok_def routes_ok_def)

lemma search_and_cache_ok:
  assumes "table_ok now t"
  shows "table_ok now (snd (search_and_cache now a t))"
proof -
  let ?t = "snd (search_and_cache now a t)"
  have t: "routes ?t = routes t" "useAdminDist ?t = useAdminDist t"
      "routingCache ?t = (routingCache t)(a \<mapsto> map_option r_id (search_route now a t))"
    by (simp_all add: search_and_cache_def Let_def)
  have look: "search_route now b ?t = search_route now b t" "route_by_id i ?t = route_by_id i t" for b i
    by (simp_all add: search_route_def route_by_id_def t)
  have "cache_ok now ?t" unfolding cache_ok_def
  proof (intro allI impI)
    fix b e assume e: "routingCache ?t b = Some e"
    show "case e of None \<Rightarrow> search_route now b ?t = None
        | Some i \<Rightarrow> \<exists>r. route_by_id i ?t = Some r \<and> (isValid now r \<longrightarrow> search_route now b ?t = Some r)"
    proof (cases "b = a")
      case True
      then show ?thesis using e search_route_by_id [OF assms, of a]
        by (cases "search_route now a t") (auto simp: t look)
    next
      case False
      then have "routingCache t b = Some e" using e by (simp add: t)
      then show ?thesis using assms by (simp add: table_ok_def cache_ok_def look cong: option.case_cong)
    qed
  qed
  then show ?thesis using assms by (simp add: table_ok_def t)
qed

lemma lookup_is_search:
  assumes "table_ok now t"
  shows "\<exists>t'. findBestMatchingRoute now a t = Inr (search_route now a t, t')
    \<and> table_ok now t' \<and> routes t' = routes t \<and> useAdminDist t' = useAdminDist t"
proof -
  have s: "fst (search_and_cache now a t) = search_route now a t" "routes (snd (search_and_cache now a t)) = routes t"
      "useAdminDist (snd (search_and_cache now a t)) = useAdminDist t"
    by (simp_all add: search_and_cache_def Let_def)
  have found: "\<exists>t'. Inr (search_and_cache now a t) = Inr (search_route now a t, t')
    \<and> table_ok now t' \<and> routes t' = routes t \<and> useAdminDist t' = useAdminDist t"
    using search_and_cache_ok [OF assms, of a] s by (cases "search_and_cache now a t") auto
  show ?thesis
  proof (cases "routingCache t a")
    case None
    then show ?thesis using found by (simp add: findBestMatchingRoute_def)
  next
    case (Some e)
    then have e: "case e of None \<Rightarrow> search_route now a t = None
        | Some i \<Rightarrow> \<exists>r. route_by_id i t = Some r \<and> (isValid now r \<longrightarrow> search_route now a t = Some r)"
      using assms by (simp add: table_ok_def cache_ok_def)
    show ?thesis
    proof (cases e)
      case None
      then show ?thesis using Some e assms by (simp add: findBestMatchingRoute_def)
    next
      case e': (Some i)
      then obtain r where r: "route_by_id i t = Some r" "isValid now r \<longrightarrow> search_route now a t = Some r"
        using e by auto
      then show ?thesis
        using Some e' assms found by (cases "isValid now r") (simp_all add: findBestMatchingRoute_def)
    qed
  qed
qed

lemma search_is_longest:
  "table_ok now t \<Longrightarrow> search_route now a t = longest_prefix_match (useAdminDist t) now a (routes t)"
  by (simp add: search_route_def first_match_longest table_ok_def routes_ok_def by_route.in_order_def)

end
