(* ===== verification/Ipv4_Table_Runs.thy ===== *)
theory Ipv4_Table_Runs
  imports Ipv4_Table_Laws
begin

text \<open>
  The runs of a routing table: every operation of \<open>Ipv4RoutingTable\<close> that changes its state, time
  that passes, and the claim that in every reachable table the cached lookup is the longest prefix
  match.
\<close>

text \<open>
  New routes are new objects, so their identity is fresh; the netmasks of the interfaces are valid
  ones, which \<open>updateNetmaskRoutes\<close> does not check. The administrative distance of a route in the
  table is set only where the table does not use it (see \<open>set_admin_dist_breaks_the_order\<close>),
  and the expiry time of a route before it is added, as \<open>Dsdv\<close> does.
\<close>

inductive table_step :: "simtime \<times> routing_table \<Rightarrow> simtime \<times> routing_table \<Rightarrow> bool" where
  wait: "now \<le> now' \<Longrightarrow> table_step (now, t) (now', t)"
| add: "r_id e \<notin> r_id ` set (routes t) \<Longrightarrow> internalAddRoute now e t = Inr t' \<Longrightarrow> table_step (now, t) (now, t')"
| remove: "removeRoute i t = (b, t') \<Longrightarrow> table_step (now, t) (now, t')"
| remove_all: "table_step (now, t) (now, remove_all_routes t)"
| find: "findBestMatchingRoute now a t = Inr (e, t') \<Longrightarrow> table_step (now, t) (now, t')"
| destination: "setDestination now i a t = Inr t' \<Longrightarrow> table_step (now, t) (now, t')"
| netmask: "setNetmask now i a t = Inr t' \<Longrightarrow> table_step (now, t) (now, t')"
| metric: "setMetric now i m t = Inr t' \<Longrightarrow> table_step (now, t) (now, t')"
| gateway: "setGateway now i a t = Inr t' \<Longrightarrow> table_step (now, t) (now, t')"
| interface: "setInterface now i ie t = Inr t' \<Longrightarrow> table_step (now, t) (now, t')"
| source: "setSourceType now i src t = Inr t' \<Longrightarrow> table_step (now, t) (now, t')"
| distance: "\<not> useAdminDist t \<Longrightarrow> setAdminDist now i d t = Inr t' \<Longrightarrow> table_step (now, t) (now, t')"
| purge: "table_step (now, t) (now, purge now t)"
| signal: "masks_valid ies \<Longrightarrow> \<forall>r \<in> set (routes t). r_id r < fresh
    \<Longrightarrow> table_step (now, t) (now, table_receiveSignal named fresh ies s t)"
| add_multicast: "internalAddMulticastRoute capable m t = Inr t' \<Longrightarrow> table_step (now, t) (now, t')"
| remove_multicast: "internalRemoveMulticastRoute i t = (b, t') \<Longrightarrow> table_step (now, t) (now, t')"
| change_multicast: "multicastRouteChanged capable m c t = Inr t' \<Longrightarrow> table_step (now, t) (now, t')"
| broadcast: "isLocalBroadcastAddress a ies t = Inr (b, t') \<Longrightarrow> table_step (now, t) (now, t')"
| router_id: "configureRouterId automatic ies t = Inr (ies', t') \<Longrightarrow> table_step (now, t) (now, t')"

inductive_cases table_stepE: "table_step (now, t) (now', t')"

lemma foldl_keeps: "P a \<Longrightarrow> (\<And>a x. P a \<Longrightarrow> P (f a x)) \<Longrightarrow> P (foldl f a xs)"
  by (induction xs arbitrary: a) auto

lemmas setters = setDestination_def setNetmask_def setMetric_def setGateway_def setInterface_def
  setSourceType_def setAdminDist_def

lemma setters_ok:
  assumes "table_ok now t"
  shows "setDestination now i a t = Inr t' \<Longrightarrow> table_ok now t'"
    "setNetmask now i a t = Inr t' \<Longrightarrow> table_ok now t'"
    "setMetric now i m t = Inr t' \<Longrightarrow> table_ok now t'"
    "setGateway now i a t = Inr t' \<Longrightarrow> table_ok now t'"
    "setInterface now i ie t = Inr t' \<Longrightarrow> table_ok now t'"
    "setSourceType now i src t = Inr t' \<Longrightarrow> table_ok now t'"
    "\<not> useAdminDist t \<Longrightarrow> setAdminDist now i d t = Inr t' \<Longrightarrow> table_ok now t'"
  unfolding setters by (erule change_route_ok [OF assms]; simp add: keeps_order_def)+

lemma multicast_ok:
  assumes "table_ok now t"
  shows "internalAddMulticastRoute capable m t = Inr t' \<Longrightarrow> table_ok now t'"
    "table_ok now (snd (internalRemoveMulticastRoute i t))"
    "multicastRouteChanged capable m c t = Inr t' \<Longrightarrow> table_ok now t'"
proof -
  have add: "table_ok now t' \<Longrightarrow> internalAddMulticastRoute capable m t' = Inr t'' \<Longrightarrow> table_ok now t''" for t' t''
    by (auto simp: internalAddMulticastRoute_def bindE_def table_okD split: if_splits sum.splits)
  have remove: "table_ok now (snd (internalRemoveMulticastRoute i t))" for i
    using assms by (simp add: internalRemoveMulticastRoute_def table_okD)
  show "internalAddMulticastRoute capable m t = Inr t' \<Longrightarrow> table_ok now t'" using add assms by blast
  show "table_ok now (snd (internalRemoveMulticastRoute i t))" by (rule remove)
  show "multicastRouteChanged capable m c t = Inr t' \<Longrightarrow> table_ok now t'"
    using assms add remove [of "m_id m"]
    by (cases "internalRemoveMulticastRoute (m_id m) t") (auto simp: multicastRouteChanged_def bindE_def split: if_splits sum.splits)
qed

lemma table_step_ok: "table_step (now, t) (now', t') \<Longrightarrow> table_ok now t \<Longrightarrow> table_ok now' t'"
proof (erule table_stepE)
  fix a e assume ok: "table_ok now t" and n: "now' = now" and f: "findBestMatchingRoute now a t = Inr (e, t')"
  show "table_ok now' t'" using lookup_is_search [OF ok, of a] f n by auto
next
  fix a ies b assume ok: "table_ok now t" and n: "now' = now" and f: "isLocalBroadcastAddress a ies t = Inr (b, t')"
  have "\<exists>s. t' = t\<lparr>localBroadcastAddresses := s\<rparr>"
    using f by (auto simp: isLocalBroadcastAddress_def bindE_def split: sum.splits)
  then show "table_ok now' t'" using table_ok_same [OF ok] n by auto
next
  fix aut ies ies' assume ok: "table_ok now t" and n: "now' = now" and f: "configureRouterId aut ies t = Inr (ies', t')"
  have "\<exists>s. t' = t\<lparr>routerId := s\<rparr> \<or> t' = t"
    using f by (auto simp: configureRouterId_def bindE_def split: sum.splits if_splits)
  then show "table_ok now' t'" using table_ok_same [OF ok] ok n by auto
next
  assume ok: "table_ok now t" and n: "now' = now" "t' = remove_all_routes t"
  show "table_ok now' t'"
    unfolding n remove_all_routes_def removeRoute_def using ok removed_ok(1) by (rule foldl_keeps)
qed (metis time_passes_ok added_ok removed_ok(1) removeRoute_def setters_ok purge_ok signal_ok multicast_ok snd_conv)+

definition reachable_table :: "simtime \<times> routing_table \<Rightarrow> bool" where
  "reachable_table s \<longleftrightarrow> (\<exists>ad fwd mfwd. table_step\<^sup>*\<^sup>* (0, new_table ad fwd mfwd) s)"

lemma reachable_table_ok: "reachable_table (now, t) \<Longrightarrow> table_ok now t"
proof -
  have "table_step\<^sup>*\<^sup>* x y \<Longrightarrow> table_ok (fst x) (snd x) \<Longrightarrow> table_ok (fst y) (snd y)" for x y
    by (induction rule: rtranclp_induct) (auto intro: table_step_ok)
  then show "reachable_table (now, t) \<Longrightarrow> table_ok now t" by (force simp: reachable_table_def)
qed

section \<open>The reference is what it says\<close>

lemma preferred_weak_order:
  "\<not> preferred ad r r"
  "preferred ad x r \<Longrightarrow> \<not> preferred ad s r \<Longrightarrow> \<not> preferred ad s x"
  by (auto simp: preferred_def split: if_splits)

lemma foldl_better_best:
  assumes "\<And>s. s \<in> set ss \<Longrightarrow> isValid now s \<Longrightarrow> prefix_covers a s \<Longrightarrow> \<exists>r. best = Some r \<and> \<not> preferred ad s r"
    "\<And>r. best = Some r \<Longrightarrow> r \<in> set ss \<and> isValid now r \<and> prefix_covers a r"
  shows "case foldl (better_route ad now a) best rs of
      None \<Rightarrow> \<forall>s \<in> set (ss @ rs). \<not> (isValid now s \<and> prefix_covers a s)
    | Some r \<Rightarrow> r \<in> set (ss @ rs) \<and> isValid now r \<and> prefix_covers a r
        \<and> (\<forall>s \<in> set (ss @ rs). isValid now s \<and> prefix_covers a s \<longrightarrow> \<not> preferred ad s r)"
  using assms
proof (induction rs arbitrary: ss best)
  case Nil
  then show ?case by (cases best) auto
next
  case (Cons x rs)
  have "\<exists>r. better_route ad now a best x = Some r \<and> \<not> preferred ad s r"
    if s: "s \<in> set (ss @ [x])" "isValid now s" "prefix_covers a s" for s
  proof (cases "s = x")
    case True
    then show ?thesis using s preferred_weak_order(1) [of ad x] by (cases best) (simp_all add: better_route_def)
  next
    case False
    then obtain r where r: "best = Some r" "\<not> preferred ad s r" using s Cons.prems(1) by auto
    then show ?thesis using preferred_weak_order(2) [of ad x r s] by (simp add: better_route_def)
  qed
  moreover have "r \<in> set (ss @ [x]) \<and> isValid now r \<and> prefix_covers a r" if "better_route ad now a best x = Some r" for r
    using that Cons.prems(2) by (auto simp: better_route_def split: if_splits)
  ultimately show ?case using Cons.IH [of "ss @ [x]" "better_route ad now a best x"] by (simp cong: option.case_cong)
qed

lemma longest_prefix_match_best:
  "case longest_prefix_match ad now a rs of
      None \<Rightarrow> \<forall>s \<in> set rs. \<not> (isValid now s \<and> prefix_covers a s)
    | Some r \<Rightarrow> r \<in> set rs \<and> isValid now r \<and> prefix_covers a r
        \<and> (\<forall>s \<in> set rs. isValid now s \<and> prefix_covers a s \<longrightarrow> \<not> preferred ad s r)"
  using foldl_better_best [of "[]" now a None ad rs]
  by (simp add: longest_prefix_match_def cong: option.case_cong)

section \<open>The lookup\<close>

text \<open>
  C26. In every table that the operations can reach, whatever the cache holds and whichever routes
  have expired, the cached search for the first matching route of the ordered vector returns the
  longest prefix match of the reference, which scans all routes in any order and prefers the longer
  prefix, then the smaller administrative distance, where the table uses it, then the smaller
  metric. The lookup never follows the cache to a deleted route.
\<close>

theorem lookup_is_longest_prefix_match:
  assumes "reachable_table (now, t)"
  shows "\<exists>t'. findBestMatchingRoute now a t = Inr (longest_prefix_match (useAdminDist t) now a (routes t), t')
    \<and> routes t' = routes t"
  using lookup_is_search [OF reachable_table_ok [OF assms], of a] search_is_longest [OF reachable_table_ok [OF assms]]
  by auto

definition example_route :: "nat \<Rightarrow> ipv4_address \<Rightarrow> ipv4_address \<Rightarrow> u32 \<Rightarrow> ipv4_route" where
  "example_route i a m d =
     \<lparr>r_id = i, r_dest = a, r_netmask = m, r_gateway = 0, r_interface = Some 1, r_sourceType = MANUAL,
      r_adminDist = d, r_metric = 0, r_expiry = None\<rparr>"

definition example_table :: "bool \<Rightarrow> ipv4_route \<Rightarrow> ipv4_route \<Rightarrow> routing_table" where
  "example_table ad r s = projr (internalAddRoute 0 s (projr (internalAddRoute 0 r (new_table ad True True))))"

lemma example_table_reachable:
  assumes "\<not> isl (internalAddRoute 0 r (new_table ad True True))"
    "\<not> isl (internalAddRoute 0 s (projr (internalAddRoute 0 r (new_table ad True True))))"
    "r_id s \<notin> r_id ` set (routes (projr (internalAddRoute 0 r (new_table ad True True))))"
  shows "reachable_table (0, example_table ad r s)"
proof -
  have "table_step (0, new_table ad True True) (0, projr (internalAddRoute 0 r (new_table ad True True)))"
    using assms(1) by (intro table_step.add [of r]) (simp_all add: new_table_def)
  moreover have "table_step (0, projr (internalAddRoute 0 r (new_table ad True True))) (0, example_table ad r s)"
    using assms(2,3) by (intro table_step.add [of s]) (simp_all add: example_table_def)
  ultimately have "table_step\<^sup>*\<^sup>* (0, new_table ad True True) (0, example_table ad r s)"
    by (intro converse_rtranclp_into_rtranclp [OF _ r_into_rtranclp])
  then show ?thesis unfolding reachable_table_def by blast
qed

lemma lookup_is_longest_prefix_match_witness:
  "\<exists>t'. findBestMatchingRoute 0 0x0A010203
      (example_table False (example_route 1 0x0A000000 0xFF000000 0) (example_route 2 0x0A010000 0xFFFF0000 0))
    = Inr (Some (example_route 2 0x0A010000 0xFFFF0000 0), t')"
proof -
  let ?t = "example_table False (example_route 1 0x0A000000 0xFF000000 0) (example_route 2 0x0A010000 0xFFFF0000 0)"
  have "reachable_table (0, ?t)" by (rule example_table_reachable; code_simp)
  moreover have "longest_prefix_match (useAdminDist ?t) 0 0x0A010203 (routes ?t) = Some (example_route 2 0x0A010000 0xFFFF0000 0)"
    by code_simp
  ultimately show ?thesis using lookup_is_longest_prefix_match [of 0 ?t "0x0A010203"] by auto
qed

section \<open>Setting an administrative distance in place\<close>

text \<open>
  \<open>Ipv4Route::setAdminDist\<close> reports the change, but \<open>routeChanged\<close> sorts the route in again only
  for another destination, netmask or metric: a table that uses administrative distances keeps
  the route first after its distance has become the worse one.
\<close>

lemma set_admin_dist_breaks_the_order:
  "let r = example_route 1 0x0A000000 0xFF000000 1; s = example_route 2 0x0A000000 0xFF000000 2;
       t = projr (setAdminDist 0 1 3 (example_table True r s))
   in fst (projr (findBestMatchingRoute 0 0x0A010203 t)) = Some (r\<lparr>r_adminDist := 3\<rparr>)
     \<and> longest_prefix_match (useAdminDist t) 0 0x0A010203 (routes t) = Some s"
  by code_simp

end
