(* ===== verification/Ipv4_Forwarding.thy ===== *)
theory Ipv4_Forwarding
  imports Ipv4_Node Ipv4_Reassembly Ipv4_Table_Runs
begin

text \<open>
  What an IPv4 module does with a datagram: where a router sends it, what leaves through an
  interface with an MTU, and what becomes of datagrams to the node's own addresses.
\<close>

section \<open>Fragments under an MTU\<close>

lemma fragmentLength_fits: "0 < fragmentLength mtu h \<Longrightarrow> ih_headerLength h + fragmentLength mtu h \<le> mtu"
proof -
  let ?room = "mtu - ih_headerLength h"
  assume "0 < fragmentLength mtu h"
  have "\<not> 0 \<le> ?room \<Longrightarrow> 0 \<le> - ?room div 8" by (intro div_int_pos_iff [THEN iffD2]) simp
  then have room: "0 \<le> ?room"
    using \<open>0 < _\<close> by (cases "0 \<le> ?room") (auto simp: fragmentLength_def Let_def)
  have "?room div 8 * 8 \<le> ?room" by (simp add: minus_mod_eq_div_mult [symmetric])
  then show ?thesis using room by (simp add: fragmentLength_def)
qed

lemma fragmentLength_mult: "fragmentLength mtu h mod 8 = 0"
  by (simp add: fragmentLength_def Let_def)

lemma cut_fragment_simps [simp]:
  "pk_data (cut_fragment crc p offset len l) = take len (drop offset (pk_data p))"
  "tag_interfaceReq (cut_fragment crc p offset len l) = tag_interfaceReq p"
  "tag_nextHop (cut_fragment crc p offset len l) = tag_nextHop p"
  by (simp_all add: cut_fragment_def)

lemma fragments_loop_step:
  "fragments_loop crc n p offset =
     (if offset < length (pk_data p) \<and> 0 < n
      then (let l = offset + n \<ge> length (pk_data p); len = (if l then length (pk_data p) - offset else n)
            in cut_fragment crc p offset len l # fragments_loop crc n p (offset + len))
      else [])"
  by (subst fragments_loop.simps) (simp add: Let_def)

lemma fragments_loop_tags:
  "f \<in> set (fragments_loop crc n p offset) \<Longrightarrow> tag_interfaceReq f = tag_interfaceReq p \<and> tag_nextHop f = tag_nextHop p
     \<and> length (pk_data f) \<le> n"
proof (induction crc n p offset rule: fragments_loop.induct)
  case (1 crc n p offset)
  then show ?case using fragments_loop_step [of crc n p offset] by (auto simp: Let_def split: if_splits)
qed

lemma fragments_loop_concat:
  "0 < n \<Longrightarrow> concat (map pk_data (fragments_loop crc n p offset)) = drop offset (pk_data p)"
proof (induction crc n p offset rule: fragments_loop.induct)
  case (1 crc n p offset)
  show ?case
  proof (cases "offset < length (pk_data p)")
    case True
    let ?l = "offset + n \<ge> length (pk_data p)"
    let ?len = "if ?l then length (pk_data p) - offset else n"
    have "concat (map pk_data (fragments_loop crc n p (offset + ?len))) = drop (offset + ?len) (pk_data p)"
      using 1 True by simp
    then have "concat (map pk_data (fragments_loop crc n p offset))
        = take ?len (drop offset (pk_data p)) @ drop (offset + ?len) (pk_data p)"
      using True 1(2) by (simp add: fragments_loop_step [of crc n p offset] Let_def)
    also have "\<dots> = drop offset (pk_data p)"
      by (metis append_take_drop_id drop_drop add.commute)
    finally show ?thesis .
  qed (simp add: fragments_loop_step [of crc n p offset])
qed

section \<open>Sending without address resolution\<close>

lemma getInterfaceById_emit [simp]: "getInterfaceById i (emit e n) = getInterfaceById i n"
  by (simp add: getInterfaceById_def emit_def)

lemma n_out_emit [simp]: "n_out (emit e n) = n_out n @ [e]"
  by (simp add: emit_def)

lemma send_without_arp:
  assumes "getInterfaceById i n = Inr ie" "\<not> if_isBroadcast ie \<or> if_macAddress ie = 0"
    and "tag_interfaceReq p = Some i" "tag_nextHop p = Some a"
  shows "ipv4_sendDatagramToOutput c now p n = Inr (emit (ToNic (p\<lparr>tag_nextHop := None\<rparr>)) n)"
  using assms by (simp add: ipv4_sendDatagramToOutput_def getTag_def sendPacketToNIC_def Let_def)

lemma send_all_without_arp:
  assumes "getInterfaceById i n = Inr ie" "\<not> if_isBroadcast ie \<or> if_macAddress ie = 0"
    and "\<forall>f \<in> set fs. tag_interfaceReq f = Some i \<and> tag_nextHop f = Some a"
  shows "foldE (ipv4_sendDatagramToOutput c now) fs n = Inr (n\<lparr>n_out := n_out n @ map (\<lambda>f. ToNic (f\<lparr>tag_nextHop := None\<rparr>)) fs\<rparr>)"
  using assms
proof (induction fs arbitrary: n)
  case (Cons f fs)
  have "ipv4_sendDatagramToOutput c now f n = Inr (emit (ToNic (f\<lparr>tag_nextHop := None\<rparr>)) n)"
    using Cons.prems by (intro send_without_arp) auto
  then show ?case using Cons by (simp add: emit_def getInterfaceById_def)
qed simp

lemma finish_crc_keeps: "keeps_fragment (finish_crc c)"
  by (simp add: keeps_fragment_def finish_crc_def setComputedCrc_def frag_key_def)

lemma finish_crc_length [simp]: "ih_headerLength (finish_crc c h) = ih_headerLength h"
  by (simp add: finish_crc_def setComputedCrc_def)

lemma fragments_loop_header:
  "f \<in> set (fragments_loop (finish_crc c) n p offset) \<Longrightarrow> ih_headerLength (pk_header f) = ih_headerLength (pk_header p)"
proof (induction "finish_crc c" n p offset rule: fragments_loop.induct)
  case (1 n p offset)
  then show ?case using fragments_loop_step [of "finish_crc c" n p offset]
    by (auto simp: Let_def cut_fragment_def split: if_splits)
qed


section \<open>Forwarding\<close>

lemma no_hooks [simp]: "ipv4_hooks c = [] \<Longrightarrow> with_hooks c ht k p n = k p n"
  by (simp add: with_hooks_def)

text \<open>
  A datagram in transit: received without error on an interface \<open>i\<close> that has an address, for an
  address that is neither the node's own nor a group or broadcast address, at a node that forwards.
\<close>

definition in_transit :: "'a ipv4_config \<Rightarrow> int \<Rightarrow> interface_entry \<Rightarrow> 'a ipv4_packet \<Rightarrow> 'a ipv4_node \<Rightarrow> bool" where
  "in_transit c i inIf p n \<longleftrightarrow>
     (let h = pk_header p; dest = ih_dest h in
      getInterfaceById i n = Inr inIf \<and> \<not> if_isLoopback inIf
      \<and> tag_interfaceInd p = Some i \<and> tag_interfaceReq p = None \<and> \<not> pk_bitError p
      \<and> verifyCrc c h = Inr True \<and> ih_totalLength h = getDataLength p \<and> \<not> isUnspecified (ih_src h)
      \<and> \<not> isMulticast dest \<and> \<not> isLimitedBroadcastAddress dest \<and> \<not> isLocalAddress dest (n_ift n)
      \<and> findInterfaceByLocalBroadcastAddress dest (n_ift n) = Inr None
      \<and> (case if_ipv4 inIf of None \<Rightarrow> False | Some d \<Rightarrow> \<not> isUnspecified (ip_address d))
      \<and> forwarding (n_rt n))"

definition forwarded :: "ipv4_route \<Rightarrow> 'a ipv4_packet \<Rightarrow> 'a ipv4_packet" where
  "forwarded r p = p\<lparr>pk_header := (pk_header p)\<lparr>ih_timeToLive := to_short (ih_timeToLive (pk_header p) - 1)\<rparr>,
     tag_interfaceReq := r_interface r, tag_nextHop := Some (r_gateway r)\<rparr>"

lemma prepared_simps [simp]:
  "pk_header (prepareForForwarding p) = (pk_header p)\<lparr>ih_timeToLive := to_short (ih_timeToLive (pk_header p) - 1)\<rparr>"
  "pk_data (prepareForForwarding p) = pk_data p" "tag_interfaceInd (prepareForForwarding p) = tag_interfaceInd p"
  "tag_interfaceReq (prepareForForwarding p) = tag_interfaceReq p" "tag_nextHop (prepareForForwarding p) = tag_nextHop p"
  by (simp_all add: prepareForForwarding_def map_header_def)

lemma transit_is_routed:
  assumes "in_transit c i inIf p n" "ipv4_hooks c = []"
  shows "ipv4_handleIncomingDatagram c now p n = routeUnicastPacket c now (prepareForForwarding (p\<lparr>tag_nextHop := Some (getNextHop p)\<rparr>)) n"
  using assms unfolding in_transit_def Let_def
  by (auto simp: ipv4_handleIncomingDatagram_def preroutingFinish_def getTag_def getProtocolData_def Let_def split: option.splits)

text \<open>
  C27. A router sends a datagram in transit, with its hop count decremented, along the longest matching
  prefix: through the interface of that route and to its gateway, or, without a gateway, to the
  destination. A datagram without a matching route is answered by an ICMP error on the interface
  it came from. Nothing of the node but the counters and the routing cache changes.
\<close>

theorem forwards_along_longest_prefix:
  assumes "reachable_table (now, n_rt n)" "in_transit c i inIf p n" "ipv4_hooks c = []"
    and "\<forall>r \<in> set (routes (n_rt n)). r_interface r \<noteq> None"
  shows "\<exists>t. routes t = routes (n_rt n) \<and> ipv4_handleIncomingDatagram c now p n =
    (case longest_prefix_match (useAdminDist (n_rt n)) now (ih_dest (pk_header p)) (routes (n_rt n)) of
       Some r \<Rightarrow> fragmentAndSend c now (forwarded r p) (n\<lparr>n_rt := t, numForwarded := numForwarded n + 1\<rparr>)
     | None \<Rightarrow>
         (let q = prepareForForwarding (p\<lparr>tag_nextHop := Some (getNextHop p)\<rparr>) in
          Inr (n\<lparr>n_rt := t, numUnroutable := numUnroutable n + 1,
                 n_out := n_out n @ [PacketDropped NO_ROUTE_FOUND q, IcmpError q i ICMP_DESTINATION_UNREACHABLE]\<rparr>)))"
proof -
  let ?q = "prepareForForwarding (p\<lparr>tag_nextHop := Some (getNextHop p)\<rparr>)" and ?dest = "ih_dest (pk_header p)"
  let ?best = "longest_prefix_match (useAdminDist (n_rt n)) now ?dest (routes (n_rt n))"
  obtain t where t: "findBestMatchingRoute now ?dest (n_rt n) = Inr (?best, t)" "routes t = routes (n_rt n)"
    using lookup_is_search [OF reachable_table_ok [OF assms(1)], of ?dest]
      search_is_longest [OF reachable_table_ok [OF assms(1)]] by auto
  have look: "lookup_route now ?dest n = Inr (?best, n\<lparr>n_rt := t\<rparr>)" using t(1) by (simp add: lookup_route_def)
  have tr: "getInterfaceById i n = Inr inIf" "tag_interfaceInd p = Some i" "tag_interfaceReq p = None"
      "\<not> isUnspecified (ih_src (pk_header p))"
    using assms(2) by (simp_all add: in_transit_def Let_def)
  have i: "if_id inIf = i" using tr(1) by (auto simp: getInterfaceById_def find_Some_iff split: option.splits)
  have src: "getSourceInterface ?q n = Inr (Some inIf)" "getDestInterface ?q n = Inr None"
    using tr by (simp_all add: getSourceInterface_def getDestInterface_def)
  show ?thesis
  proof (cases ?best)
    case None
    then show ?thesis
      using t(2) look src i by (intro exI [of _ t])
        (simp add: transit_is_routed [OF assms(2,3)] routeUnicastPacket_def Let_def source_id_def emit_def)
  next
    case (Some r)
    then have "r \<in> set (routes (n_rt n))"
      using longest_prefix_match_best [where a = ?dest and now = now and rs = "routes (n_rt n)" and ad = "useAdminDist (n_rt n)"]
      by simp
    then obtain j where j: "r_interface r = Some j" using assms(4) by auto
    have fwd: "?q\<lparr>tag_interfaceReq := Some j, tag_nextHop := Some (r_gateway r)\<rparr> = forwarded r p"
      using j by (simp add: forwarded_def prepareForForwarding_def map_header_def)
    have post: "fragmentPostRouting c now (forwarded r p) m = fragmentAndSend c now (forwarded r p) m" for m
      using j tr(4) assms(3)
      by (auto simp: fragmentPostRouting_def fragmentAndSend_def getTag_def forwarded_def bindE_def split: sum.split)
    show ?thesis
      using t(2) look src Some j post assms(3) by (intro exI [of _ t])
        (simp add: transit_is_routed [OF assms(2,3)] routeUnicastPacket_def Let_def route_interface_def send_routed_def
          routeUnicastPacketFinish_def fwd)
  qed
qed

section \<open>Examples\<close>

definition example_config :: "nat ipv4_config" where
  "example_config =
     \<lparr>node_crcMode = CRC_DECLARED_CORRECT, header_checksum = (\<lambda>_. 0), defaultTimeToLive = 32, defaultMCTimeToLive = 32,
      fragmentTimeoutTime = seconds 60, limitedBroadcast = True, directBroadcast = (\<lambda>_. False), ipv4_hooks = [],
      arp_conf = \<lparr>retryTimeout = seconds 1, retryCount = 3, cacheTimeout = seconds 120, proxyArp = (\<lambda>_. False)\<rparr>,
      newMulticast = (\<lambda>t. t), knownProtocol = (\<lambda>_. True), dblrand = 1 / 2\<rparr>"

definition example_interface :: "int \<Rightarrow> ipv4_address \<Rightarrow> int \<Rightarrow> interface_entry" where
  "example_interface i a mtu =
     \<lparr>if_id = i, if_isUp = True, if_isLoopback = False, if_isBroadcast = False, if_isMulticast = False,
      if_macAddress = 0, if_mtu = mtu,
      if_ipv4 = Some \<lparr>ip_address = a, ip_netmask = 0xFFFFFFFF, ip_metric = 1, joinedMulticastGroups = [],
                     multicastTtlThreshold = 0, multicastListeners = []\<rparr>\<rparr>"

definition example_packet :: "nat ipv4_packet" where
  "example_packet = example_datagram
     \<lparr>pk_header := (pk_header example_datagram)
        \<lparr>ih_crcMode := CRC_DECLARED_CORRECT, ih_src := 0x0B000001, ih_dest := 0x0A010203, ih_timeToLive := 5\<rparr>,
      tag_interfaceInd := Some 2\<rparr>"

definition example_router :: "nat ipv4_node" where
  "example_router = new_ipv4_node
     (example_table False (example_route 1 0x0A000000 0xFF000000 0) (example_route 2 0x0A010000 0xFFFF0000 0))
     [example_interface 1 0x0A000001 28, example_interface 2 0x0B000002 0]"


lemma forwards_along_longest_prefix_witness:
  "\<exists>t. ipv4_handleIncomingDatagram example_config 0 example_packet example_router
    = fragmentAndSend example_config 0 (forwarded (example_route 2 0x0A010000 0xFFFF0000 0) example_packet)
        (example_router\<lparr>n_rt := t, numForwarded := 1\<rparr>)"
proof -
  let ?t = "example_table False (example_route 1 0x0A000000 0xFF000000 0) (example_route 2 0x0A010000 0xFFFF0000 0)"
  have rt: "n_rt example_router = ?t" "numForwarded example_router = 0"
    by (simp_all add: example_router_def new_ipv4_node_def)
  have "reachable_table (0, n_rt example_router)" unfolding rt by (rule example_table_reachable; code_simp)
  moreover have "in_transit example_config 2 (example_interface 2 0x0B000002 0) example_packet example_router"
    by code_simp
  moreover have "ipv4_hooks example_config = []" by (simp add: example_config_def)
  moreover have "\<forall>r \<in> set (routes (n_rt example_router)). r_interface r \<noteq> None" by code_simp
  moreover have "longest_prefix_match (useAdminDist (n_rt example_router)) 0 (ih_dest (pk_header example_packet))
      (routes (n_rt example_router)) = Some (example_route 2 0x0A010000 0xFFFF0000 0)" by code_simp
  ultimately show ?thesis
    using forwards_along_longest_prefix [of 0 example_router example_config 2 "example_interface 2 0x0B000002 0" example_packet] rt(2)
    by auto
qed

section \<open>Three oddities\<close>

text \<open>
  \<open>datagramLocalOut\<close> announces the local delivery of a datagram to one of the node's own addresses,
  sets its output interface to the loopback interface, and then deletes it.
\<close>

lemma local_datagrams_vanish:
  assumes "\<not> isMulticast (ih_dest (pk_header p))" "isLocalAddress (ih_dest (pk_header p)) (n_ift n)"
    and "getDestInterface p n = Inr ie" "\<And>x. ie = Some x \<Longrightarrow> \<not> if_isLoopback x"
  shows "datagramLocalOut c now p n = Inr n"
  using assms by (cases ie) (auto simp: datagramLocalOut_def Let_def)

text \<open>
  A bit error anywhere in a datagram is answered as an error of the header: the share of the header
  is computed against the length of the header.
\<close>

lemma every_bit_error_is_in_the_header:
  assumes "pk_bitError p" "dblrand c \<le> 1" "tag_interfaceInd p = Some i" "verifyCrc c (pk_header p) = Inr True"
    and "ih_totalLength (pk_header p) = getDataLength p" "ih_headerLength (pk_header p) \<noteq> 0"
  shows "ipv4_handleIncomingDatagram c now p n = Inr (emit (IcmpError p i ICMP_PARAMETER_PROBLEM) n)"
  using assms by (simp add: ipv4_handleIncomingDatagram_def getTag_def Let_def)

text \<open>A datagram for the node with a protocol number that no protocol has registered ends the simulation.\<close>

lemma unknown_protocol_fails:
  "\<not> knownProtocol c (ih_protocol (pk_header p)) \<Longrightarrow> \<exists>e. reassembleAndDeliverFinish c p n = Inl e"
  by (simp add: reassembleAndDeliverFinish_def Let_def)

end
