(* ===== verification/Ipv4_Host.thy ===== *)
theory Ipv4_Host
  imports Ipv4_Forwarding
begin

text \<open>
  The receiving host: the fragments of a datagram, as its interfaces receive them, become one
  datagram for the protocol above.
\<close>

text \<open>A fragment that arrives without error at a host that has its destination address.\<close>

definition arrives :: "'a ipv4_config \<Rightarrow> int \<Rightarrow> 'a ipv4_packet \<Rightarrow> 'a ipv4_node \<Rightarrow> bool" where
  "arrives c protocol f n \<longleftrightarrow>
     (let h = pk_header f in
      (\<exists>i ie. tag_interfaceInd f = Some i \<and> getInterfaceById i n = Inr ie)
      \<and> \<not> pk_bitError f \<and> ih_crcMode h = CRC_DECLARED_CORRECT \<and> ih_isCorrect h
      \<and> ih_totalLength h = getDataLength f \<and> (ih_fragmentOffset h \<noteq> 0 \<or> ih_moreFragments h)
      \<and> ih_protocol h = protocol \<and> \<not> isMulticast (ih_dest h) \<and> isLocalAddress (ih_dest h) (n_ift n))"

lemma arrives_other_buffers: "arrives c protocol f (n\<lparr>fragbuf := b\<rparr>) \<longleftrightarrow> arrives c protocol f n"
  by (simp add: arrives_def getInterfaceById_def)

lemma host_takes_fragment:
  assumes "arrives c protocol f n" "ipv4_hooks c = []" "now < lastCheckTime n + seconds 10"
    and "ipv4_addFragment f now (fragbuf n) = Inr (out, bufs)"
  shows "ipv4_handleIncomingDatagram c now f n =
    (case out of None \<Rightarrow> Inr (n\<lparr>fragbuf := bufs\<rparr>)
     | Some q \<Rightarrow>
        bindE (if ih_crcMode (pk_header q) = CRC_COMPUTED
               then bindE (assertE (node_crcMode c = CRC_COMPUTED)) (\<lambda>_. Inr (map_header (setComputedCrc c) q))
               else Inr q) (\<lambda>q'. reassembleAndDeliverFinish c q' (n\<lparr>fragbuf := bufs\<rparr>)))"
proof -
  have pre: "preroutingFinish c now f n = reassembleAndDeliver c now f n"
    using assms(1) by (auto simp: arrives_def Let_def preroutingFinish_def getTag_def)
  have "ipv4_handleIncomingDatagram c now f n = reassembleAndDeliver c now f n"
    using assms(1,2) pre by (auto simp: arrives_def Let_def ipv4_handleIncomingDatagram_def getTag_def verifyCrc_def)
  then show ?thesis
    using assms by (auto simp: arrives_def Let_def reassembleAndDeliver_def with_hooks_def split: option.split)
qed

lemma take_in_grows: "foldE take_in xs (done, b) = Inr (done', b') \<Longrightarrow> \<exists>more. done' = done @ more"
proof (induction xs arbitrary: "done" b)
  case (Cons x xs)
  then obtain done1 b1 where "take_in x (done, b) = Inr (done1, b1)" "foldE take_in xs (done1, b1) = Inr (done', b')"
    by (auto simp: bindE_def split: sum.splits)
  moreover have "\<exists>more. done1 = done @ more"
    using calculation(1) by (auto simp: take_in_def bindE_def split: sum.splits prod.splits)
  ultimately show ?case using Cons.IH by fastforce
qed simp

definition handle_arrival ::
  "'a ipv4_config \<Rightarrow> 'a ipv4_packet \<times> simtime \<Rightarrow> 'a ipv4_node \<Rightarrow> 'a ipv4_node outcome" where
  "handle_arrival c = (\<lambda>(f, now). ipv4_handleIncomingDatagram c now f)"

lemma host_gathers:
  assumes "foldE take_in xs ([], fragbuf n) = Inr ([], bufs)" "ipv4_hooks c = []"
    and "\<forall>x \<in> set xs. arrives c protocol (fst x) n \<and> snd x < lastCheckTime n + seconds 10"
  shows "foldE (handle_arrival c) xs n = Inr (n\<lparr>fragbuf := bufs\<rparr>)"
  using assms
proof (induction xs arbitrary: n)
  case (Cons x xs)
  obtain f now where x: "x = (f, now)" by (cases x)
  obtain d1 b1 where d1: "take_in x ([], fragbuf n) = Inr (d1, b1)" "foldE take_in xs (d1, b1) = Inr ([], bufs)"
    using Cons.prems(1) by (auto simp: bindE_def split: sum.splits)
  then have "d1 = []" using take_in_grows [of xs d1 b1 "[]" bufs] by auto
  then have add: "ipv4_addFragment f now (fragbuf n) = Inr (None, b1)"
    using d1(1) x by (auto simp: take_in_def bindE_def split: sum.splits prod.splits option.splits)
  have "handle_arrival c x n = Inr (n\<lparr>fragbuf := b1\<rparr>)"
    using host_takes_fragment [OF _ Cons.prems(2) _ add, of protocol] Cons.prems(3) x by (simp add: handle_arrival_def)
  moreover have "foldE (handle_arrival c) xs (n\<lparr>fragbuf := b1\<rparr>) = Inr (n\<lparr>fragbuf := b1, fragbuf := bufs\<rparr>)"
    using Cons.prems d1(2) \<open>d1 = []\<close> by (intro Cons.IH) (auto simp: arrives_other_buffers)
  ultimately show ?case by simp
qed simp


definition example_host :: "nat ipv4_node" where
  "example_host = (new_ipv4_node (new_table False False False) [example_interface 3 2 0])\<lparr>upperProtocols := {0}\<rparr>"

lemma example_arrives: "i < 3 \<Longrightarrow> arrives example_config 0 (example_fragment i) example_host"
proof -
  assume i: "i < 3"
  have ie: "getInterfaceById 3 example_host = Inr (example_interface 3 2 0)"
    by (simp add: getInterfaceById_def example_host_def new_ipv4_node_def example_interface_def)
  have "list_all (\<lambda>i. let f = example_fragment i; h = pk_header f in tag_interfaceInd f = Some 3 \<and> \<not> pk_bitError f
      \<and> ih_crcMode h = CRC_DECLARED_CORRECT \<and> ih_isCorrect h \<and> ih_totalLength h = getDataLength f
      \<and> (ih_fragmentOffset h \<noteq> 0 \<or> ih_moreFragments h)
      \<and> ih_protocol h = 0 \<and> \<not> isMulticast (ih_dest h) \<and> isLocalAddress (ih_dest h) (n_ift example_host)) [0, 1, 2]"
    by code_simp
  moreover have "i \<in> set [0, 1, 2]" using i by auto
  ultimately show ?thesis using ie unfolding arrives_def Let_def list_all_iff by blast
qed


end
