(* ===== verification/Ipv4_Arp_Runs.thy ===== *)
theory Ipv4_Arp_Runs
  imports Ipv4_Node
begin

text \<open>
  IPv4 and address resolution together: the datagrams that wait for an address in
  \<open>Ipv4::pendingPackets\<close> against the pending entries of \<open>Arp::arpCache\<close> and their timers.
\<close>

section \<open>Events of the two modules\<close>

text \<open>The notifications of \<open>Arp\<close> reach \<open>Ipv4\<close> at once, through \<open>receiveSignal\<close>.\<close>

definition notify :: "arp_notification list \<Rightarrow> 'a ipv4_node \<Rightarrow> 'a ipv4_node outcome" where
  "notify = foldE (\<lambda>(a, mac, i). arpResolutionCompleted a i mac)"

definition arp_packet_arrives ::
  "'a ipv4_config \<Rightarrow> simtime \<Rightarrow> interface_entry \<Rightarrow> arp_packet \<Rightarrow> 'a ipv4_node \<Rightarrow> 'a ipv4_node outcome" where
  "arp_packet_arrives c now ie p n =
     bindE (processArpPacket (arp_conf c) now ie p (n_ift n) (n_rt n) (n_arp n)) (\<lambda>(notes, rt, s).
     notify notes (n\<lparr>n_rt := rt, n_arp := s\<rparr>))"

definition arp_timer_expires ::
  "'a ipv4_config \<Rightarrow> simtime \<Rightarrow> ipv4_address \<Rightarrow> 'a ipv4_node \<Rightarrow> 'a ipv4_node outcome" where
  "arp_timer_expires c now a n =
     bindE (requestTimedOut (arp_conf c) now a (n_ift n) (n_arp n)) (\<lambda>(failed, s).
     let n1 = n\<lparr>n_arp := s\<rparr> in
     Inr (if failed then arpResolutionTimedOut a n1 else n1))"

definition node_stops :: "'a ipv4_node \<Rightarrow> 'a ipv4_node" where
  "node_stops n = (ipv4_stop n)\<lparr>n_arp := arp_flush (n_arp n)\<rparr>"

section \<open>The invariant\<close>

definition entry_ok :: "arp_config \<Rightarrow> simtime \<Rightarrow> arp_entry \<Rightarrow> bool" where
  "entry_ok c now e \<longleftrightarrow>
     (if ae_pending e
      then (\<exists>tm. ae_timer e = Scheduled tm \<and> now \<le> tm \<and> tm \<le> now + retryTimeout c)
           \<and> 0 \<le> ae_numRetries e \<and> (ae_numRetries e = 0 \<or> ae_numRetries e < retryCount c)
      else ae_mac e \<noteq> 0 \<and> ae_timer e = Deleted)"

definition waits_ok ::
  "arp_config \<Rightarrow> simtime \<Rightarrow> arp \<Rightarrow> (ipv4_address \<times> 'a ipv4_packet list) list \<Rightarrow> bool" where
  "waits_ok c now s pend \<longleftrightarrow> 0 \<le> retryTimeout c
     \<and> (\<forall>a e. map_of (arpCache s) a = Some e \<longrightarrow> entry_ok c now e)
     \<and> (\<forall>a q. map_of pend a = Some q \<longrightarrow> q \<noteq> [] \<and> (\<exists>e. map_of (arpCache s) a = Some e \<and> ae_pending e))"

abbreviation node_ok :: "'a ipv4_config \<Rightarrow> simtime \<Rightarrow> 'a ipv4_node \<Rightarrow> bool" where
  "node_ok c now n \<equiv> waits_ok (arp_conf c) now (n_arp n) (pendingPackets n)"

lemma emit_fields [simp]: "n_arp (emit e n) = n_arp n" "pendingPackets (emit e n) = pendingPackets n"
  by (simp_all add: emit_def)

section \<open>Address resolution keeps it\<close>

lemma waits_ok_put:
  "\<lbrakk>waits_ok c now s pend; entry_ok c now e; ae_pending e \<or> map_of pend a = None; arpCache s' = map_put (<) a e (arpCache s)\<rbrakk>
    \<Longrightarrow> waits_ok c now s' pend"
  by (auto simp: waits_ok_def)

lemma waits_ok_same: "waits_ok c now s pend \<Longrightarrow> arpCache s' = arpCache s \<Longrightarrow> waits_ok c now s' pend"
  by (simp add: waits_ok_def)

lemma initiate_ok:
  assumes "initiateArpResolution c now ie a s = Inr s'" "waits_ok c now s pend"
  shows "waits_ok c now s' pend \<and> (\<exists>e. map_of (arpCache s') a = Some e \<and> ae_pending e)"
proof -
  have "\<exists>e. arpCache s' = map_put (<) a e (arpCache s) \<and> ae_pending e \<and> entry_ok c now e"
    using assms by (auto simp: initiateArpResolution_def sendArpRequest_def put_entry_def outcome_simps entry_ok_def
        waits_ok_def)
  then show ?thesis using waits_ok_put [OF assms(2)] by auto
qed

lemma resolve_ok:
  assumes "resolveL3Address c now a ie s = Inr (mac, s')" "waits_ok c now s pend"
  shows "waits_ok c now s' pend"
    "mac = 0 \<Longrightarrow> \<exists>e. map_of (arpCache s') a = Some e \<and> ae_pending e"
    "mac \<noteq> 0 \<Longrightarrow> map_of pend a = None"
proof -
  have entry: "map_of (arpCache s) a = Some e \<Longrightarrow> entry_ok c now e" for e
    using assms(2) by (simp add: waits_ok_def)
  have new: "initiateArpResolution c now ie a s = Inr s'' \<Longrightarrow>
      waits_ok c now s'' pend \<and> (\<exists>e. map_of (arpCache s'') a = Some e \<and> ae_pending e)" for s''
    using initiate_ok assms(2) by blast
  show "waits_ok c now s' pend" "mac = 0 \<Longrightarrow> \<exists>e. map_of (arpCache s') a = Some e \<and> ae_pending e"
    using assms new entry
    by (auto simp: resolveL3Address_def Let_def outcome_simps entry_ok_def split: option.splits if_splits)
  show "map_of pend a = None" if mac: "mac \<noteq> 0"
  proof (cases "map_of pend a")
    case (Some q)
    then obtain e where "map_of (arpCache s) a = Some e" "ae_pending e" using assms(2) unfolding waits_ok_def by blast
    then show ?thesis using assms(1) mac by (simp add: resolveL3Address_def Let_def)
  qed
qed

lemma update_ok:
  assumes "updateArpCache now a e mac s = (x, s')" "waits_ok c now s pend" "mac \<noteq> 0" "ae_pending e \<or> ae_timer e = Deleted"
  shows "fst x = a" "waits_ok c now s' (map_erase a pend)"
proof -
  have s': "\<exists>e'. arpCache s' = map_put (<) a e' (arpCache s) \<and> entry_ok c now e'"
    using assms(1,3,4)
    by (intro exI [of _ "(if ae_pending e then e\<lparr>ae_pending := False, ae_timer := Deleted, ae_numRetries := 0\<rparr> else e)
      \<lparr>ae_mac := mac, ae_lastUpdate := now\<rparr>"]) (auto simp: updateArpCache_def Let_def put_entry_def entry_ok_def)
  show "fst x = a" using assms(1) by (auto simp: updateArpCache_def Let_def)
  show "waits_ok c now s' (map_erase a pend)"
    using s' assms(2) by (auto simp: waits_ok_def split: if_splits)
qed

section \<open>Every handler keeps it\<close>

lemma toNIC_ok: "sendPacketToNIC p n = Inr n' \<Longrightarrow> n_arp n' = n_arp n \<and> pendingPackets n' = pendingPackets n"
  by (auto simp: sendPacketToNIC_def outcome_simps)

lemma resolveNextHop_ok:
  assumes "resolveNextHopMacAddress c now a ie n = Inr (mac, n')" "node_ok c now n"
  shows "node_ok c now n' \<and> pendingPackets n' = pendingPackets n
    \<and> (mac = 0 \<longrightarrow> (\<exists>e. map_of (arpCache (n_arp n')) a = Some e \<and> ae_pending e))"
proof -
  have "n' = n \<and> mac \<noteq> 0 \<or> (\<exists>s'. resolveL3Address (arp_conf c) now a ie (n_arp n) = Inr (mac, s') \<and> n' = n\<lparr>n_arp := s'\<rparr>)"
    using assms(1) by (auto simp: resolveNextHopMacAddress_def outcome_simps BROADCAST_MAC_def makeMulticastAddress_def
        or_eq_0_iff split: if_splits)
  then show ?thesis using assms(2) resolve_ok by auto
qed

lemma sendDatagramToOutput_ok:
  assumes "ipv4_sendDatagramToOutput c now p n = Inr n'" "node_ok c now n"
  shows "node_ok c now n'"
proof -
  consider p' where "sendPacketToNIC p' n = Inr n'"
    | ie a p' n1 where "resolveNextHopMacAddress c now a ie n = Inr (0, n1)"
        "n' = n1\<lparr>pendingPackets := map_put (<) a (waiting_for a n1 @ [p']) (pendingPackets n1)\<rparr>"
    | ie a mac p' n1 where "resolveNextHopMacAddress c now a ie n = Inr (mac, n1)" "sendPacketToNIC p' n1 = Inr n'"
    using assms(1) by (auto simp: ipv4_sendDatagramToOutput_def Let_def outcome_simps split: if_splits)
  then show ?thesis
  proof cases
    case (1 p')
    then show ?thesis using toNIC_ok [of p' n n'] assms(2) by simp
  next
    case (2 ie a p' n1)
    then show ?thesis using resolveNextHop_ok [OF 2(1) assms(2)] by (auto simp: waits_ok_def)
  next
    case (3 ie a mac p' n1)
    then show ?thesis using toNIC_ok [of p' n1 n'] resolveNextHop_ok [OF 3(1) assms(2)] by auto
  qed
qed

lemma foldE_preserves:
  "\<lbrakk>\<And>x s s'. f x s = Inr s' \<Longrightarrow> P s \<Longrightarrow> P s'; foldE f xs s = Inr s'; P s\<rbrakk> \<Longrightarrow> P s'"
  by (induction xs arbitrary: s) (auto simp: outcome_simps)

lemma fragmentAndSend_ok:
  "fragmentAndSend c now p n = Inr n' \<Longrightarrow> node_ok c now n \<Longrightarrow> node_ok c now n'"
  using sendDatagramToOutput_ok [of c now] foldE_preserves [of "ipv4_sendDatagramToOutput c now" "node_ok c now"]
  by (auto simp: fragmentAndSend_def Let_def outcome_simps split: if_splits)

lemma with_hooks_ok:
  assumes "with_hooks c ht k p n = Inr n'" "node_ok c now n" "\<And>p n n'. k p n = Inr n' \<Longrightarrow> node_ok c now n \<Longrightarrow> node_ok c now n'"
  shows "node_ok c now n'"
  using assms by (auto simp: with_hooks_def split: prod.splits hook_result.splits)

lemma fragmentPostRouting_ok:
  "fragmentPostRouting c now p n = Inr n' \<Longrightarrow> node_ok c now n \<Longrightarrow> node_ok c now n'"
  using with_hooks_ok fragmentAndSend_ok by (fastforce simp: fragmentPostRouting_def outcome_simps)

lemma routeUnicastPacketFinish_ok:
  "routeUnicastPacketFinish c now p n = Inr n' \<Longrightarrow> node_ok c now n \<Longrightarrow> node_ok c now n'"
  unfolding routeUnicastPacketFinish_def by (drule fragmentPostRouting_ok) simp_all

lemma send_routed_ok: "send_routed c now fromIE p n = Inr n' \<Longrightarrow> node_ok c now n \<Longrightarrow> node_ok c now n'"
  using with_hooks_ok [of c FORWARD "routeUnicastPacketFinish c now"] routeUnicastPacketFinish_ok [of c now]
  by (auto simp: send_routed_def split: if_splits)

lemma lookup_route_ok:
  "lookup_route now a n = Inr (r, n') \<Longrightarrow> n_arp n' = n_arp n \<and> pendingPackets n' = pendingPackets n"
  by (auto simp: lookup_route_def outcome_simps)

lemma routeUnicastPacket_ok:
  assumes "routeUnicastPacket c now p n = Inr n'" "node_ok c now n"
  shows "node_ok c now n'"
proof -
  have looked: "lookup_route now a n = Inr (r, m) \<Longrightarrow> node_ok c now m" for a r m
    using lookup_route_ok [of now a n r m] assms(2) by simp
  obtain fromIE destIE where ends: "getSourceInterface p n = Inr fromIE" "getDestInterface p n = Inr destIE"
    using assms(1) by (auto simp: routeUnicastPacket_def outcome_simps)
  consider q where "send_routed c now fromIE q n = Inr n'"
    | a r q m where "lookup_route now a n = Inr (r, m)" "send_routed c now fromIE q m = Inr n'"
    | a r m e1 e2 k where "lookup_route now a n = Inr (r, m)" "n' = (emit e1 (emit e2 m))\<lparr>numUnroutable := k\<rparr>"
    using assms(1) by (auto simp: routeUnicastPacket_def ends Let_def outcome_simps split: option.splits if_splits)
  then show ?thesis
  proof cases
    case (1 q)
    then show ?thesis using send_routed_ok assms(2) by blast
  next
    case (2 a r q m)
    then show ?thesis using send_routed_ok looked by blast
  next
    case (3 a r m e1 e2 k)
    then show ?thesis using looked by fastforce
  qed
qed

lemma broadcast_loop_ok: "broadcast_loop c now ies p n = Inr n' \<Longrightarrow> node_ok c now n \<Longrightarrow> node_ok c now n'"
  using fragmentPostRouting_ok [of c now]
  by (induction ies arbitrary: n) (auto simp: outcome_simps split: if_splits)

lemma routeLocalBroadcastPacket_ok:
  "routeLocalBroadcastPacket c now p n = Inr n' \<Longrightarrow> node_ok c now n \<Longrightarrow> node_ok c now n'"
  using fragmentPostRouting_ok [of c now] broadcast_loop_ok [of c now]
  by (auto simp: routeLocalBroadcastPacket_def outcome_simps split: option.splits if_splits)

lemma forward_copies_ok: "forward_copies c now i outs p n = Inr n' \<Longrightarrow> node_ok c now n \<Longrightarrow> node_ok c now n'"
proof (induction outs arbitrary: n)
  case (Cons x outs)
  obtain j leaf enabled where x: "x = (j, leaf, enabled)" by (cases x)
  consider "forward_copies c now i outs p n = Inr n'"
    | q m where "fragmentPostRouting c now q n = Inr m" "forward_copies c now i outs p m = Inr n'"
    using Cons.prems(1) x by (auto simp: outcome_simps split: if_splits)
  then show ?case
  proof cases
    case (2 q m)
    then show ?thesis using Cons.IH [OF 2(2) fragmentPostRouting_ok [OF 2(1) Cons.prems(2)]] by simp
  qed (use Cons in blast)
qed simp

lemma forward_on_route_ok: "forward_on_route c now ie m p n = Inr n' \<Longrightarrow> node_ok c now n \<Longrightarrow> node_ok c now n'"
  by (auto simp: forward_on_route_def Let_def outcome_simps split: option.splits if_splits dest!: forward_copies_ok)

lemma forwardMulticastPacket_ok:
  "forwardMulticastPacket c now p n = Inr n' \<Longrightarrow> node_ok c now n \<Longrightarrow> node_ok c now n'"
  by (auto simp: forwardMulticastPacket_def Let_def outcome_simps split: option.splits dest!: forward_on_route_ok)

lemma reassembleAndDeliverFinish_ok:
  "reassembleAndDeliverFinish c p n = Inr n' \<Longrightarrow> node_ok c now n \<Longrightarrow> node_ok c now n'"
  by (auto simp: reassembleAndDeliverFinish_def Let_def outcome_simps split: if_splits)

lemma reassembleAndDeliver_ok:
  assumes "reassembleAndDeliver c now p n = Inr n'" "node_ok c now n"
  shows "node_ok c now n'"
proof -
  have fin: "with_hooks c LOCALIN (reassembleAndDeliverFinish c) q m = Inr n' \<Longrightarrow> node_ok c now m \<Longrightarrow> node_ok c now n'" for q m
    using with_hooks_ok [of c LOCALIN "reassembleAndDeliverFinish c"] reassembleAndDeliverFinish_ok by blast
  show ?thesis
  proof (cases "ih_fragmentOffset (pk_header p) \<noteq> 0 \<or> ih_moreFragments (pk_header p)")
    case True
    define n1 where "n1 = (if now \<ge> lastCheckTime n + seconds 10 then
                    let (stale, bufs) = ipv4_purgeStaleFragments (now - fragmentTimeoutTime c) (fragbuf n) in
                    n\<lparr>lastCheckTime := now, fragbuf := bufs,
                      n_out := n_out n @ map (\<lambda>q. IcmpError q (-1) ICMP_TIME_EXCEEDED) stale\<rparr>
                  else n)"
    have n1: "node_ok c now (n1\<lparr>fragbuf := b\<rparr>)" for b using assms(2) by (simp add: n1_def split: prod.split)
    obtain out b where "ipv4_addFragment p now (fragbuf n1) = Inr (out, b)"
      and run: "(case out of None \<Rightarrow> Inr (n1\<lparr>fragbuf := b\<rparr>)
        | Some q \<Rightarrow> bindE (if ih_crcMode (pk_header q) = CRC_COMPUTED
                   then bindE (assertE (node_crcMode c = CRC_COMPUTED)) (\<lambda>_. Inr (map_header (setComputedCrc c) q))
                   else Inr q) (\<lambda>q'.
            with_hooks c LOCALIN (reassembleAndDeliverFinish c) q' (n1\<lparr>fragbuf := b\<rparr>))) = Inr n'"
      using assms(1) True unfolding reassembleAndDeliver_def n1_def [symmetric] by (auto simp: outcome_simps Let_def)
    then show ?thesis using n1 [of b] fin by (cases out) (auto simp: outcome_simps split: if_splits)
  next
    case False
    then show ?thesis using assms fin by (simp add: reassembleAndDeliver_def)
  qed
qed

lemma datagramLocalOut_ok:
  assumes "datagramLocalOut c now p n = Inr n'" "node_ok c now n"
  shows "node_ok c now n'"
proof -
  have choice: "node_ok c now m" if "determineOutgoingInterfaceForMulticastDatagram now h i n = Inr (out, m)" for h i out m
    using that assms(2) by (auto simp: determineOutgoingInterfaceForMulticastDatagram_def outcome_simps
        split: option.splits dest!: lookup_route_ok)
  let ?dest = "ih_dest (pk_header p)"
  obtain destIE where d: "getDestInterface p n = Inr destIE" using assms(1) by (auto simp: datagramLocalOut_def outcome_simps)
  consider (multicast) "isMulticast ?dest" | (local) "\<not> isMulticast ?dest" "isLocalAddress ?dest (n_ift n)"
    | (other) "\<not> isMulticast ?dest" "\<not> isLocalAddress ?dest (n_ift n)" by blast
  then show ?thesis
  proof cases
    case multicast
    obtain out n1 where o: "determineOutgoingInterfaceForMulticastDatagram now (pk_header p) (map_option if_id destIE) n = Inr (out, n1)"
      using assms(1) multicast d by (auto simp: datagramLocalOut_def outcome_simps Let_def)
    obtain n2 q where n2: "n2 = n1 \<or> (\<exists>r. fragmentPostRouting c now r n1 = Inr n2)"
      and fin: "fragmentPostRouting c now q (n2\<lparr>numMulticast := numMulticast n2 + 1\<rparr>) = Inr n'
        \<or> n' = (emit (PacketDropped NO_INTERFACE_FOUND q) n2)\<lparr>numUnroutable := numUnroutable n2 + 1\<rparr>"
      using assms(1) multicast unfolding datagramLocalOut_def d o Let_def
      by (cases out; cases "findFirstLoopbackInterface (n_ift n1)") (auto simp: o outcome_simps split: if_splits)
    have "node_ok c now n2" using n2 choice [OF o] fragmentPostRouting_ok by blast
    then show ?thesis using fin fragmentPostRouting_ok [of c now q "n2\<lparr>numMulticast := numMulticast n2 + 1\<rparr>" n'] by auto
  next
    case local
    then have "n' = n \<or> (\<exists>q. routeUnicastPacket c now q n = Inr n')"
      using assms(1) d by (cases destIE) (auto simp: datagramLocalOut_def Let_def split: if_splits)
    then show ?thesis using assms(2) routeUnicastPacket_ok by blast
  next
    case other
    have "\<exists>m q. node_ok c now m \<and> (routeLocalBroadcastPacket c now p m = Inr n' \<or> routeUnicastPacket c now q m = Inr n')"
    proof (cases "isLimitedBroadcastAddress ?dest")
      case True
      then show ?thesis using assms other d by (intro exI [of _ n]) (auto simp: datagramLocalOut_def Let_def)
    next
      case False
      then show ?thesis using assms(1) other d assms(2)
        by (auto simp: datagramLocalOut_def Let_def outcome_simps split: if_splits
            intro!: exI [of _ "n\<lparr>n_rt := t\<rparr>" for t])
    qed
    then show ?thesis using routeLocalBroadcastPacket_ok routeUnicastPacket_ok by blast
  qed
qed

lemma preroutingFinish_ok:
  "preroutingFinish c now p n = Inr n' \<Longrightarrow> node_ok c now n \<Longrightarrow> node_ok c now n'"
  by (auto simp: preroutingFinish_def Let_def outcome_simps split: if_splits option.splits
      dest!: fragmentPostRouting_ok routeUnicastPacket_ok reassembleAndDeliver_ok forwardMulticastPacket_ok)

lemma handleIncomingDatagram_ok:
  "ipv4_handleIncomingDatagram c now p n = Inr n' \<Longrightarrow> node_ok c now n \<Longrightarrow> node_ok c now n'"
  using with_hooks_ok [of c PREROUTING "preroutingFinish c now"] preroutingFinish_ok [of c now]
  by (auto simp: ipv4_handleIncomingDatagram_def Let_def outcome_simps split: if_splits)

lemma encapsulate_ok: "encapsulate c u n = Inr (p, n') \<Longrightarrow> n_arp n' = n_arp n \<and> pendingPackets n' = pendingPackets n"
  by (auto simp: encapsulate_def Let_def outcome_simps)

lemma handlePacketFromHL_ok:
  "handlePacketFromHL c now u n = Inr n' \<Longrightarrow> node_ok c now n \<Longrightarrow> node_ok c now n'"
  using with_hooks_ok [of c LOCALOUT "datagramLocalOut c now"] datagramLocalOut_ok [of c now]
  by (auto simp: handlePacketFromHL_def outcome_simps split: if_splits dest!: encapsulate_ok)

lemma handleRequest_ok: "handleRequest r n = Inr n' \<Longrightarrow> node_ok c now n \<Longrightarrow> node_ok c now n'"
  by (cases r) (auto split: option.splits if_splits)

lemma reinject_ok: "reinjectQueuedDatagram c now k n = Inr n' \<Longrightarrow> node_ok c now n \<Longrightarrow> node_ok c now n'"
  by (auto simp: reinjectQueuedDatagram_def outcome_simps dropQueuedDatagram_def split: if_splits prod.splits hook_type.splits
      dest!: datagramLocalOut_ok preroutingFinish_ok fragmentAndSend_ok routeUnicastPacketFinish_ok
      intro: reassembleAndDeliverFinish_ok)

section \<open>Address resolution events keep it\<close>

lemma send_waiting_ok:
  "send_waiting i mac ps n = Inr n' \<Longrightarrow> n_arp n' = n_arp n \<and> pendingPackets n' = pendingPackets n"
  using toNIC_ok by (induction ps arbitrary: n) (fastforce simp: outcome_simps)+

lemma completed_ok:
  assumes "arpResolutionCompleted a i mac n = Inr n'"
  shows "n_arp n' = n_arp n" "map_of (pendingPackets n') = (map_of (pendingPackets n))(a := None)"
proof -
  show "n_arp n' = n_arp n" using assms send_waiting_ok
    by (fastforce simp: arpResolutionCompleted_def outcome_simps split: option.splits)
  show "map_of (pendingPackets n') = (map_of (pendingPackets n))(a := None)"
    using assms send_waiting_ok
    by (fastforce simp: arpResolutionCompleted_def outcome_simps split: option.splits)
qed

lemma processArpPacket_ok:
  assumes "processArpPacket c now ie p ies rt s = Inr (notes, rt', s')" "waits_ok c now s pend"
  shows "notes = [] \<and> waits_ok c now s' pend
    \<or> (\<exists>mac i. notes = [(ap_srcIp p, mac, i)] \<and> waits_ok c now s' (map_erase (ap_srcIp p) pend))"
proof -
  let ?src = "ap_srcIp p" and ?mac = "ap_srcMac p"
  define fresh where "fresh = \<lparr>ae_ie = if_id ie, ae_pending = False, ae_mac = 0, ae_lastUpdate = 0, ae_numRetries = 0, ae_timer = Deleted\<rparr>"
  have mac: "?mac \<noteq> 0" using assms(1) by (auto simp: processArpPacket_def Let_def outcome_simps split: if_splits)
  have upd: "\<exists>i. x = (?src, ?mac, i) \<and> waits_ok c now s1 (map_erase ?src pend)"
    if "updateArpCache now ?src e ?mac s = (x, s1)" "map_of (arpCache s) ?src = Some e \<or> e = fresh" for e x s1
  proof -
    have "ae_pending e \<or> ae_timer e = Deleted"
      using that(2) assms(2) unfolding waits_ok_def entry_ok_def fresh_def by (metis arp_entry.select_convs(6))
    then show ?thesis using update_ok [OF that(1) assms(2) mac] that(1) by (auto simp: updateArpCache_def Let_def)
  qed
  have reply: "arp_reply ie p t = Inr t' \<Longrightarrow> arpCache t' = arpCache t" for t t'
    by (auto simp: arp_reply_def outcome_simps split: if_splits)
  show ?thesis
  proof (cases "map_of (arpCache s) ?src")
    case (Some e)
    obtain x s1 where x: "updateArpCache now ?src e ?mac s = (x, s1)" by fastforce
    have "notes = [x] \<and> arpCache s' = arpCache s1"
      using assms(1) Some x reply by (auto simp: processArpPacket_def Let_def outcome_simps split: if_splits arp_opcode.splits)
    then show ?thesis using upd [OF x] Some waits_ok_same by blast
  next
    case None
    obtain x s1 where x: "updateArpCache now ?src fresh ?mac s = (x, s1)" by fastforce
    have "notes = [] \<and> s' = s \<or> notes = [x] \<and> arpCache s' = arpCache s1"
      using assms(1) None x reply
      by (auto simp: processArpPacket_def Let_def outcome_simps fresh_def split: if_splits arp_opcode.splits)
    then show ?thesis using upd [OF x] assms(2) waits_ok_same by blast
  qed
qed

lemma arp_packet_arrives_ok:
  assumes "arp_packet_arrives c now ie p n = Inr n'" "node_ok c now n"
  shows "node_ok c now n'"
proof -
  obtain told rt s where r: "processArpPacket (arp_conf c) now ie p (n_ift n) (n_rt n) (n_arp n) = Inr (told, rt, s)"
    and k: "notify told (n\<lparr>n_rt := rt, n_arp := s\<rparr>) = Inr n'"
    using assms(1) by (auto simp: arp_packet_arrives_def outcome_simps)
  from processArpPacket_ok [OF r assms(2)] show ?thesis
  proof (elim disjE exE conjE)
    assume "told = []" "waits_ok (arp_conf c) now s (pendingPackets n)"
    then show ?thesis using k by (auto simp: notify_def)
  next
    fix mac i assume x: "told = [(ap_srcIp p, mac, i)]" "waits_ok (arp_conf c) now s (map_erase (ap_srcIp p) (pendingPackets n))"
    then have d: "arpResolutionCompleted (ap_srcIp p) i mac (n\<lparr>n_rt := rt, n_arp := s\<rparr>) = Inr n'"
      using k by (simp add: notify_def outcome_simps)
    show ?thesis using x(2) completed_ok [OF d] by (simp add: waits_ok_def)
  qed
qed

lemma requestTimedOut_ok:
  assumes "requestTimedOut c now a ies s = Inr (failed, s')" "waits_ok c now s pend"
    and "map_of (arpCache s) a = Some e" "ae_timer e = Scheduled now"
  shows "waits_ok c now s' (if failed then map_erase a pend else pend)"
proof -
  have e: "entry_ok c now e" "0 \<le> retryTimeout c" using assms(2,3) by (simp_all add: waits_ok_def)
  then have pend: "ae_pending e" "0 \<le> ae_numRetries e" using assms(4) by (auto simp: entry_ok_def split: if_splits)
  show ?thesis
  proof (cases failed)
    case True
    then have "arpCache s' = map_erase a (arpCache s)"
      using assms(1,3) by (auto simp: requestTimedOut_def Let_def outcome_simps split: if_splits option.splits)
    then show ?thesis using assms(2) True by (auto simp: waits_ok_def split: if_splits)
  next
    case False
    then have "\<exists>e'. arpCache s' = map_put (<) a e' (arpCache s) \<and> ae_pending e' \<and> entry_ok c now e'"
      using assms(1,3) pend e(2)
      by (intro exI [of _ "e\<lparr>ae_numRetries := ae_numRetries e + 1, ae_timer := Scheduled (now + retryTimeout c)\<rparr>"])
        (auto simp: requestTimedOut_def sendArpRequest_def put_entry_def entry_ok_def Let_def outcome_simps
          split: if_splits option.splits)
    then show ?thesis using waits_ok_put [OF assms(2)] False by auto
  qed
qed

lemma arp_timer_expires_ok:
  assumes "arp_timer_expires c now a n = Inr n'" "node_ok c now n"
    and "map_of (arpCache (n_arp n)) a = Some e" "ae_timer e = Scheduled now"
  shows "node_ok c now n'"
proof -
  obtain failed s where r: "requestTimedOut (arp_conf c) now a (n_ift n) (n_arp n) = Inr (failed, s)"
    and n': "n' = (if failed then arpResolutionTimedOut a (n\<lparr>n_arp := s\<rparr>) else n\<lparr>n_arp := s\<rparr>)"
    using assms(1) by (auto simp: arp_timer_expires_def Let_def outcome_simps)
  have ok: "waits_ok (arp_conf c) now s (if failed then map_erase a (pendingPackets n) else pendingPackets n)"
    by (rule requestTimedOut_ok [OF r assms(2-4)])
  show ?thesis
  proof (cases "failed \<and> map_of (pendingPackets n) a = None")
    case True
    then have "map_of (pendingPackets n) = (map_of (pendingPackets n))(a := None)" by auto
    then show ?thesis using ok True n' by (simp add: arpResolutionTimedOut_def waits_ok_def)
  next
    case False
    then show ?thesis using ok n' by (auto simp: arpResolutionTimedOut_def)
  qed
qed

section \<open>Runs\<close>

text \<open>
  Time passes up to the next timer of an entry; hooks, listeners and the other parameters of the
  module may differ from event to event, interfaces and routes may change between events.
\<close>

inductive node_step :: "arp_config \<Rightarrow> simtime \<times> 'a ipv4_node \<Rightarrow> simtime \<times> 'a ipv4_node \<Rightarrow> bool" for ac where
  pass: "now \<le> now' \<Longrightarrow> \<forall>a e tm. map_of (arpCache (n_arp n)) a = Some e \<and> ae_timer e = Scheduled tm \<longrightarrow> now' \<le> tm
    \<Longrightarrow> node_step ac (now, n) (now', n)"
| datagram: "arp_conf c = ac \<Longrightarrow> ipv4_handleIncomingDatagram c now p n = Inr n' \<Longrightarrow> node_step ac (now, n) (now, n')"
| upper: "arp_conf c = ac \<Longrightarrow> handlePacketFromHL c now u n = Inr n' \<Longrightarrow> node_step ac (now, n) (now, n')"
| arp: "arp_conf c = ac \<Longrightarrow> arp_packet_arrives c now ie q n = Inr n' \<Longrightarrow> node_step ac (now, n) (now, n')"
| timer: "arp_conf c = ac \<Longrightarrow> map_of (arpCache (n_arp n)) a = Some e \<Longrightarrow> ae_timer e = Scheduled now
    \<Longrightarrow> arp_timer_expires c now a n = Inr n' \<Longrightarrow> node_step ac (now, n) (now, n')"
| request: "handleRequest r n = Inr n' \<Longrightarrow> node_step ac (now, n) (now, n')"
| reinject: "arp_conf c = ac \<Longrightarrow> reinjectQueuedDatagram c now k n = Inr n' \<Longrightarrow> node_step ac (now, n) (now, n')"
| drop: "node_step ac (now, n) (now, dropQueuedDatagram k n)"
| register: "node_step ac (now, n) (now, handleRegisterProtocol i n)"
| tables: "node_step ac (now, n) (now, n\<lparr>n_rt := t, n_ift := ies\<rparr>)"
| stop: "node_step ac (now, n) (now, node_stops n)"

inductive_cases node_stepE: "node_step ac (now, n) (now', n')"

lemma pass_ok:
  assumes "waits_ok ac now s pend" "now \<le> now'"
    and "\<forall>a e tm. map_of (arpCache s) a = Some e \<and> ae_timer e = Scheduled tm \<longrightarrow> now' \<le> tm"
  shows "waits_ok ac now' s pend"
proof -
  have "entry_ok ac now' e" if e: "map_of (arpCache s) a = Some e" for a e
  proof -
    have ok: "entry_ok ac now e" using assms(1) e by (simp add: waits_ok_def)
    have "ae_timer e = Scheduled tm \<Longrightarrow> now' \<le> tm" for tm using assms(3) e by blast
    then show ?thesis using ok assms(2) by (auto simp: entry_ok_def split: if_splits)
  qed
  then show ?thesis using assms(1) by (simp add: waits_ok_def)
qed

lemma stopped_ok: "0 \<le> retryTimeout ac \<Longrightarrow> waits_ok ac now (n_arp (node_stops n)) (pendingPackets (node_stops n))"
  by (simp add: node_stops_def ipv4_stop_def ipv4_flush_def arp_flush_def waits_ok_def)

lemma node_step_ok:
  assumes "node_step ac (now, n) (now', n')" "waits_ok ac now (n_arp n) (pendingPackets n)"
  shows "waits_ok ac now' (n_arp n') (pendingPackets n')"
  using assms(1)
proof (rule node_stepE)
  fix r assume "now' = now" "handleRequest r n = Inr n'"
  then show ?thesis using assms(2) by (cases r) (auto split: option.splits if_splits)
next
  assume "now' = now" "n' = node_stops n"
  then show ?thesis using assms(2) stopped_ok by (metis waits_ok_def)
next
  fix c p assume "now' = now" "arp_conf c = ac" "ipv4_handleIncomingDatagram c now p n = Inr n'"
  then show ?thesis using handleIncomingDatagram_ok assms(2) by blast
next
  fix c u assume "now' = now" "arp_conf c = ac" "handlePacketFromHL c now u n = Inr n'"
  then show ?thesis using handlePacketFromHL_ok assms(2) by blast
next
  fix c :: "'a ipv4_config" and ie q assume "now' = now" "arp_conf c = ac" "arp_packet_arrives c now ie q n = Inr n'"
  then show ?thesis using arp_packet_arrives_ok assms(2) by blast
next
  fix c :: "'a ipv4_config" and a e
  assume "now' = now" "arp_conf c = ac" "map_of (arpCache (n_arp n)) a = Some e" "ae_timer e = Scheduled now"
    "arp_timer_expires c now a n = Inr n'"
  then show ?thesis using arp_timer_expires_ok assms(2) by blast
next
  fix c k assume "now' = now" "arp_conf c = ac" "reinjectQueuedDatagram c now k n = Inr n'"
  then show ?thesis using reinject_ok assms(2) by blast
qed (use assms(2) pass_ok in \<open>auto simp: dropQueuedDatagram_def handleRegisterProtocol_def\<close>)

definition reachable_node :: "arp_config \<Rightarrow> simtime \<times> 'a ipv4_node \<Rightarrow> bool" where
  "reachable_node ac s \<longleftrightarrow> 0 \<le> retryTimeout ac \<and> (\<exists>t ies. (node_step ac)\<^sup>*\<^sup>* (0, new_ipv4_node t ies) s)"

lemma reachable_node_ok:
  assumes "reachable_node ac (now, n)"
  shows "waits_ok ac now (n_arp n) (pendingPackets n)"
proof -
  have "(node_step ac)\<^sup>*\<^sup>* x y \<Longrightarrow> waits_ok ac (fst x) (n_arp (snd x)) (pendingPackets (snd x))
      \<Longrightarrow> waits_ok ac (fst y) (n_arp (snd y)) (pendingPackets (snd y))" for x y :: "simtime \<times> 'a ipv4_node"
    by (induction rule: rtranclp_induct) (auto intro: node_step_ok)
  then show ?thesis
    using assms by (fastforce simp: reachable_node_def new_ipv4_node_def new_arp_def waits_ok_def)
qed

end
