(* ===== verification/Ipv4_Waiting.thy ===== *)
theory Ipv4_Waiting
  imports Ipv4_Arp_Runs Ipv4_Forwarding
begin

text \<open>
  What becomes of the datagrams that wait for an address: in every run each queue has a request
  under way, nothing overtakes it, and it is sent in order or given up after the last retry.
\<close>

section \<open>A request under way\<close>

text \<open>
  C30. Whatever datagrams arrive, are sent or queued by hooks, whatever ARP packets arrive and timers
  expire: the queue of an address is never empty, and the address has a pending entry whose timer
  expires at most one retry timeout from now and that has retries left, so \<open>sendDatagramToOutput\<close>
  never finds a resolved address with packets still waiting (its assertion holds).
\<close>

theorem waiting_datagrams_have_a_request:
  assumes "reachable_node ac (now, n)"
  shows "(\<forall>a q. map_of (pendingPackets n) a = Some q \<longrightarrow> q \<noteq> [] \<and>
      (\<exists>e tm. map_of (arpCache (n_arp n)) a = Some e \<and> ae_pending e \<and> ae_timer e = Scheduled tm
         \<and> now \<le> tm \<and> tm \<le> now + retryTimeout ac \<and> (ae_numRetries e = 0 \<or> ae_numRetries e < retryCount ac)))
    \<and> (\<forall>a ie mac s. resolveL3Address ac now a ie (n_arp n) = Inr (mac, s) \<and> mac \<noteq> 0
      \<longrightarrow> map_of (pendingPackets n) a = None)"
proof (rule conjI)
  note ok = reachable_node_ok [OF assms]
  then show "\<forall>a q. map_of (pendingPackets n) a = Some q \<longrightarrow> q \<noteq> [] \<and>
      (\<exists>e tm. map_of (arpCache (n_arp n)) a = Some e \<and> ae_pending e \<and> ae_timer e = Scheduled tm
         \<and> now \<le> tm \<and> tm \<le> now + retryTimeout ac \<and> (ae_numRetries e = 0 \<or> ae_numRetries e < retryCount ac))"
    unfolding waits_ok_def entry_ok_def by fastforce
  show "\<forall>a ie mac s. resolveL3Address ac now a ie (n_arp n) = Inr (mac, s) \<and> mac \<noteq> 0
      \<longrightarrow> map_of (pendingPackets n) a = None"
    using resolve_ok(3) [OF _ ok] by blast
qed

definition lan_router :: "nat ipv4_node" where
  "lan_router = new_ipv4_node
     (example_table False (example_route 1 0x0A000000 0xFF000000 0) (example_route 2 0x0A010000 0xFFFF0000 0))
     (map (\<lambda>ie. ie\<lparr>if_isBroadcast := True, if_macAddress := 7\<rparr>)
       [example_interface 1 0x0A000001 0, example_interface 2 0x0B000002 0])"

definition queued_at_router :: "nat ipv4_node" where
  "queued_at_router = (case ipv4_handleIncomingDatagram example_config 0 example_packet lan_router of Inr n \<Rightarrow> n)"

lemma queued_at_router_run:
  "ipv4_handleIncomingDatagram example_config 0 example_packet lan_router = Inr queued_at_router"
  "map_of (pendingPackets queued_at_router) (ih_dest (pk_header example_packet)) \<noteq> None"
proof -
  have "case ipv4_handleIncomingDatagram example_config 0 example_packet lan_router of Inl e \<Rightarrow> False
      | Inr n \<Rightarrow> map_of (pendingPackets n) (ih_dest (pk_header example_packet)) \<noteq> None" by code_simp
  then show "ipv4_handleIncomingDatagram example_config 0 example_packet lan_router = Inr queued_at_router"
    "map_of (pendingPackets queued_at_router) (ih_dest (pk_header example_packet)) \<noteq> None"
    by (auto simp: queued_at_router_def split: sum.splits)
qed

lemma queued_at_router_reachable: "reachable_node (arp_conf example_config) (0, queued_at_router)"
proof -
  have "node_step (arp_conf example_config) (0, lan_router) (0, queued_at_router)"
    by (rule node_step.datagram [OF refl queued_at_router_run(1)])
  then show ?thesis unfolding reachable_node_def lan_router_def by (auto simp: example_config_def seconds_def)
qed

lemma waiting_datagrams_have_a_request_witness:
  "\<exists>q e. map_of (pendingPackets queued_at_router) (ih_dest (pk_header example_packet)) = Some q \<and> q \<noteq> []
    \<and> map_of (arpCache (n_arp queued_at_router)) (ih_dest (pk_header example_packet)) = Some e \<and> ae_pending e"
  using waiting_datagrams_have_a_request [OF queued_at_router_reachable] queued_at_router_run(2) by blast

section \<open>Giving up\<close>

text \<open>The timer of an address expires \<open>k\<close> times, each time at the time it was set to.\<close>

fun expirations ::
  "nat \<Rightarrow> 'a ipv4_config \<Rightarrow> ipv4_address \<Rightarrow> simtime \<times> 'a ipv4_node \<Rightarrow> (simtime \<times> 'a ipv4_node) outcome" where
  "expirations 0 c a (now, n) = Inr (now, n)"
| "expirations (Suc k) c a (now, n) =
     (case map_of (arpCache (n_arp n)) a of
        Some e \<Rightarrow> (case ae_timer e of
          Scheduled tm \<Rightarrow> bindE (arp_timer_expires c tm a n) (\<lambda>n'. expirations k c a (tm, n'))
        | _ \<Rightarrow> Inl AssertionFailed)
      | None \<Rightarrow> Inl AssertionFailed)"

definition can_request :: "int \<Rightarrow> interface_entry list \<Rightarrow> bool" where
  "can_request i ies \<longleftrightarrow> (case find (\<lambda>ie. if_id ie = i) ies of
     None \<Rightarrow> False
   | Some ie \<Rightarrow> if_macAddress ie \<noteq> 0 \<and> (case if_ipv4 ie of None \<Rightarrow> False | Some d \<Rightarrow> \<not> isUnspecified (ip_address d)))"

lemma request_again:
  assumes "map_of (arpCache (n_arp n)) a = Some e" "ae_numRetries e + 1 < retryCount (arp_conf c)"
    and "can_request (ae_ie e) (n_ift n)"
  shows "\<exists>s. arp_timer_expires c tm a n = Inr (n\<lparr>n_arp := s\<rparr>)
    \<and> arpCache s = map_put (<) a (e\<lparr>ae_numRetries := ae_numRetries e + 1,
        ae_timer := Scheduled (tm + retryTimeout (arp_conf c))\<rparr>) (arpCache (n_arp n))
    \<and> numRequestsSent s = numRequestsSent (n_arp n) + 1"
proof -
  obtain ie d where ie: "find (\<lambda>ie. if_id ie = ae_ie e) (n_ift n) = Some ie" "if_macAddress ie \<noteq> 0"
    "if_ipv4 ie = Some d" "\<not> isUnspecified (ip_address d)"
    using assms(3) by (auto simp: can_request_def split: option.splits)
  define s where "s = (put_entry a (e\<lparr>ae_numRetries := ae_numRetries e + 1, ae_timer := Scheduled (tm + retryTimeout (arp_conf c))\<rparr>)
    (projr (sendArpRequest ie a (n_arp n))))"
  have "arp_timer_expires c tm a n = Inr (n\<lparr>n_arp := s\<rparr>)"
    "arpCache s = map_put (<) a (e\<lparr>ae_numRetries := ae_numRetries e + 1,
        ae_timer := Scheduled (tm + retryTimeout (arp_conf c))\<rparr>) (arpCache (n_arp n))"
    "numRequestsSent s = numRequestsSent (n_arp n) + 1"
    using ie assms(1,2)
    by (simp_all add: s_def arp_timer_expires_def requestTimedOut_def sendArpRequest_def getProtocolData_def put_entry_def Let_def)
  then show ?thesis by blast
qed

lemma last_request:
  assumes "map_of (arpCache (n_arp n)) a = Some e" "\<not> ae_numRetries e + 1 < retryCount (arp_conf c)"
  shows "\<exists>s. arp_timer_expires c tm a n = Inr (arpResolutionTimedOut a (n\<lparr>n_arp := s\<rparr>))
    \<and> map_of (arpCache s) a = None \<and> numRequestsSent s = numRequestsSent (n_arp n)"
  using assms
  by (intro exI [of _ "(n_arp n)\<lparr>arpCache := map_erase a (arpCache (n_arp n)),
      numFailedResolutions := numFailedResolutions (n_arp n) + 1\<rparr>"]) (simp add: arp_timer_expires_def requestTimedOut_def Let_def)

lemma timed_out_drops:
  "n_out (arpResolutionTimedOut a n) = n_out n @ map (PacketDropped ADDRESS_RESOLUTION_FAILED) (waiting_for a n)"
  "map_of (pendingPackets (arpResolutionTimedOut a n)) a = None"
  "n_arp (arpResolutionTimedOut a n) = n_arp n"
  by (auto simp: arpResolutionTimedOut_def waiting_for_def split: option.splits)

text \<open>
  C31. When no answer comes, the request of an address is repeated until \<open>retryCount\<close> requests have been
  sent, one \<open>retryTimeout\<close> apart; then every datagram that waits for the address is dropped, in the
  order of arrival and with the reason \<open>ADDRESS_RESOLUTION_FAILED\<close>, and the entry is gone.
\<close>

theorem unanswered_requests_give_up:
  assumes "map_of (arpCache (n_arp n)) a = Some e" "ae_timer e = Scheduled tm"
    and "ae_numRetries e + 1 + int k = max 1 (retryCount (arp_conf c))" "0 \<le> ae_numRetries e"
    and "can_request (ae_ie e) (n_ift n)"
  shows "\<exists>n'. expirations (Suc k) c a (now, n) = Inr (tm + int k * retryTimeout (arp_conf c), n')
    \<and> n_out n' = n_out n @ map (PacketDropped ADDRESS_RESOLUTION_FAILED) (waiting_for a n)
    \<and> map_of (pendingPackets n') a = None \<and> map_of (arpCache (n_arp n')) a = None
    \<and> numRequestsSent (n_arp n') = numRequestsSent (n_arp n) + int k"
  using assms
proof (induction k arbitrary: n e tm now)
  case 0
  then have "\<not> ae_numRetries e + 1 < retryCount (arp_conf c)" by simp
  then obtain s where "arp_timer_expires c tm a n = Inr (arpResolutionTimedOut a (n\<lparr>n_arp := s\<rparr>))"
    "map_of (arpCache s) a = None" "numRequestsSent s = numRequestsSent (n_arp n)"
    using last_request [OF "0.prems"(1)] by blast
  then show ?case using 0 by (simp add: timed_out_drops waiting_for_def)
next
  case (Suc k)
  have more: "ae_numRetries e + 1 < retryCount (arp_conf c)" using Suc.prems(3,4) by (simp add: max_def split: if_splits)
  let ?e = "e\<lparr>ae_numRetries := ae_numRetries e + 1, ae_timer := Scheduled (tm + retryTimeout (arp_conf c))\<rparr>"
  obtain s where s: "arp_timer_expires c tm a n = Inr (n\<lparr>n_arp := s\<rparr>)"
    "arpCache s = map_put (<) a ?e (arpCache (n_arp n))" "numRequestsSent s = numRequestsSent (n_arp n) + 1"
    using request_again [OF Suc.prems(1) more Suc.prems(5)] by blast
  have "\<exists>n'. expirations (Suc k) c a (tm, n\<lparr>n_arp := s\<rparr>)
      = Inr (tm + retryTimeout (arp_conf c) + int k * retryTimeout (arp_conf c), n')
    \<and> n_out n' = n_out (n\<lparr>n_arp := s\<rparr>) @ map (PacketDropped ADDRESS_RESOLUTION_FAILED) (waiting_for a (n\<lparr>n_arp := s\<rparr>))
    \<and> map_of (pendingPackets n') a = None \<and> map_of (arpCache (n_arp n')) a = None
    \<and> numRequestsSent (n_arp n') = numRequestsSent (n_arp (n\<lparr>n_arp := s\<rparr>)) + int k"
    using Suc.prems s(2) by (intro Suc.IH [of _ ?e]) auto
  moreover have "expirations (Suc (Suc k)) c a (now, n) = expirations (Suc k) c a (tm, n\<lparr>n_arp := s\<rparr>)"
    using Suc.prems(1,2) s(1) by (simp del: expirations.simps(2) add: expirations.simps(2) [of "Suc k"])
  ultimately show ?case using s(3) by (auto simp: algebra_simps waiting_for_def)
qed

definition request_at_router :: arp_entry where
  "request_at_router =
     \<lparr>ae_ie = 1, ae_pending = True, ae_mac = 0, ae_lastUpdate = 0, ae_numRetries = 0, ae_timer = Scheduled (seconds 1)\<rparr>"

lemma queued_at_router_entry:
  "map_of (arpCache (n_arp queued_at_router)) 0x0A010203 = Some request_at_router"
  "can_request 1 (n_ift queued_at_router)" "length (waiting_for 0x0A010203 queued_at_router) = 1"
proof -
  have "case ipv4_handleIncomingDatagram example_config 0 example_packet lan_router of Inl e \<Rightarrow> False
      | Inr n \<Rightarrow> map_of (arpCache (n_arp n)) 0x0A010203 = Some request_at_router \<and> can_request 1 (n_ift n)
          \<and> length (waiting_for 0x0A010203 n) = 1" by code_simp
  then show "map_of (arpCache (n_arp queued_at_router)) 0x0A010203 = Some request_at_router"
    "can_request 1 (n_ift queued_at_router)" "length (waiting_for 0x0A010203 queued_at_router) = 1"
    by (auto simp: queued_at_router_def split: sum.splits)
qed

lemma unanswered_requests_give_up_witness:
  "\<exists>n'. expirations 3 example_config 0x0A010203 (0, queued_at_router) = Inr (seconds 3, n')
    \<and> n_out n' = n_out queued_at_router
        @ map (PacketDropped ADDRESS_RESOLUTION_FAILED) (waiting_for 0x0A010203 queued_at_router)
    \<and> map_of (pendingPackets n') 0x0A010203 = None \<and> length (waiting_for 0x0A010203 queued_at_router) = 1"
proof -
  have "ae_timer request_at_router = Scheduled (seconds 1)" "0 \<le> ae_numRetries request_at_router"
    "ae_numRetries request_at_router + 1 + int 2 = max 1 (retryCount (arp_conf example_config))"
    "can_request (ae_ie request_at_router) (n_ift queued_at_router)"
    using queued_at_router_entry(2) by (simp_all add: request_at_router_def example_config_def)
  from unanswered_requests_give_up [OF queued_at_router_entry(1) this(1,3,2,4), of 0] queued_at_router_entry(3)
  have "\<exists>n'. expirations (Suc 2) example_config 0x0A010203 (0, queued_at_router)
      = Inr (seconds 1 + int 2 * retryTimeout (arp_conf example_config), n')
    \<and> n_out n' = n_out queued_at_router
        @ map (PacketDropped ADDRESS_RESOLUTION_FAILED) (waiting_for 0x0A010203 queued_at_router)
    \<and> map_of (pendingPackets n') 0x0A010203 = None \<and> length (waiting_for 0x0A010203 queued_at_router) = 1" by blast
  moreover have "seconds 1 + int 2 * retryTimeout (arp_conf example_config) = seconds 3"
    by (simp add: example_config_def seconds_def)
  ultimately show ?thesis unfolding numeral_3_eq_3 by (simp only: numeral_2_eq_2)
qed

end
