(* ===== verification/Switch_Port.thy ===== *)
theory Switch_Port
  imports Mac_Address
begin

text \<open>
  The ports of an Ethernet switch: the interface table entries a switch uses, with the spanning tree
  data of \<open>linklayer/configurator/Ieee8021dInterfaceData.h\<close>, and the frames that pass it.
\<close>

section \<open>Ports\<close>

datatype port_role = ALTERNATE | NOTASSIGNED | DISABLED | DESIGNATED | BACKUP | ROOT

datatype port_state = DISCARDING | LEARNING | FORWARDING

record port_info =
  pi_priority :: u32
  pi_linkCost :: u32
  pi_edge :: bool
  pi_state :: port_state
  pi_role :: port_role
  pi_rootPriority :: u32
  pi_rootAddress :: mac_address
  pi_rootPathCost :: u32
  pi_bridgePriority :: u32
  pi_bridgeAddress :: mac_address
  pi_portPriority :: u32
  pi_portNum :: u32
  pi_age :: simtime
  pi_maxAge :: simtime
  pi_fdWhile :: simtime
  pi_fwdDelay :: simtime
  pi_helloTime :: simtime
  pi_lostBPDU :: u32

definition new_port_info :: port_info where
  "new_port_info =
     \<lparr>pi_priority = 0, pi_linkCost = 1, pi_edge = False, pi_state = FORWARDING, pi_role = NOTASSIGNED,
      pi_rootPriority = 0, pi_rootAddress = 0, pi_rootPathCost = 0, pi_bridgePriority = 0, pi_bridgeAddress = 0,
      pi_portPriority = 0, pi_portNum = -1, pi_age = 0, pi_maxAge = 0, pi_fdWhile = 0, pi_fwdDelay = 0,
      pi_helloTime = 0, pi_lostBPDU = 0\<rparr>"

definition port_isLearning :: "port_info \<Rightarrow> bool" where
  "port_isLearning p \<longleftrightarrow> pi_state p = LEARNING \<or> pi_state p = FORWARDING"

definition port_isForwarding :: "port_info \<Rightarrow> bool" where
  "port_isForwarding p \<longleftrightarrow> pi_state p = FORWARDING"

record switch_port =
  sp_id :: int
  sp_isLoopback :: bool
  sp_isBroadcast :: bool
  sp_macAddress :: mac_address
  sp_data :: "port_info option"

definition port_by_id :: "int \<Rightarrow> switch_port list \<Rightarrow> switch_port outcome" where
  "port_by_id i ps =
     (case find (\<lambda>p. sp_id p = i) ps of
        None \<Rightarrow> Inl (RuntimeError ''getInterfaceById(): no interface with this ID'')
      | Some p \<Rightarrow> Inr p)"

text \<open>\<open>StpBase::getPortInterfaceData\<close> and that of the relay.\<close>

definition getPortInterfaceData :: "int \<Rightarrow> switch_port list \<Rightarrow> port_info outcome" where
  "getPortInterfaceData i ps =
     bindE (port_by_id i ps) (\<lambda>p.
     case sp_data p of
       None \<Rightarrow> Inl (RuntimeError ''Ieee8021dInterfaceData not found'')
     | Some d \<Rightarrow> Inr d)"

definition change_port :: "int \<Rightarrow> (port_info \<Rightarrow> port_info) \<Rightarrow> switch_port list \<Rightarrow> switch_port list" where
  "change_port i f = map (\<lambda>p. if sp_id p = i then p\<lparr>sp_data := map_option f (sp_data p)\<rparr> else p)"

definition chooseInterface :: "switch_port list \<Rightarrow> switch_port option" where
  "chooseInterface ps = find (\<lambda>p. \<not> sp_isLoopback p) ps"

section \<open>Frames\<close>

text \<open>
  An Ethernet frame: the header, the LLC header that follows it if there is one (SSAP, DSAP and control),
  the rest, and the tags of the packet.
\<close>

record 'a eth_frame =
  fr_dest :: mac_address
  fr_src :: mac_address
  fr_typeOrLength :: int
  fr_llc :: "(int \<times> int \<times> int) option"
  fr_payload :: 'a
  fr_interfaceInd :: "int option"
  fr_interfaceReq :: "int option"
  fr_protocol :: "int option"
  fr_dispatchReq :: "int option"

text \<open>\<open>removeTag\<close>, \<open>clearTags\<close> and \<open>addTag\<close> before a frame is sent on: only the protocol stays.\<close>

definition cleared_frame :: "'a eth_frame \<Rightarrow> 'a eth_frame outcome" where
  "cleared_frame f =
     (if fr_protocol f = None then Inl (RuntimeError ''Tag not found'')
      else Inr (f\<lparr>fr_interfaceInd := None, fr_interfaceReq := None, fr_dispatchReq := None\<rparr>))"

definition frame_to :: "int \<Rightarrow> 'a eth_frame \<Rightarrow> 'a eth_frame" where
  "frame_to i f = f\<lparr>fr_interfaceReq := Some i\<rparr>"

text \<open>What the network sees of a frame.\<close>

definition same_frame :: "'a eth_frame \<Rightarrow> 'a eth_frame \<Rightarrow> bool" where
  "same_frame f g \<longleftrightarrow> fr_dest f = fr_dest g \<and> fr_src f = fr_src g \<and> fr_typeOrLength f = fr_typeOrLength g
     \<and> fr_llc f = fr_llc g \<and> fr_payload f = fr_payload g \<and> fr_protocol f = fr_protocol g"

lemma cleared_same: "cleared_frame f = Inr g \<Longrightarrow> same_frame (frame_to i g) f"
  by (auto simp: cleared_frame_def same_frame_def frame_to_def split: if_splits)

section \<open>Address tables\<close>

text \<open>
  What a switch relies on in \<open>IMacAddressTable\<close>: \<open>knows t a i tm\<close> says that the table has the address on
  interface \<open>i\<close>, seen at \<open>tm\<close>. Look-ups and the learning of other addresses may throw away what is older
  than the aging time, but nothing else.
\<close>

locale address_table =
  fixes learn :: "simtime \<Rightarrow> int \<Rightarrow> mac_address \<Rightarrow> 't \<Rightarrow> 't"
    and look :: "simtime \<Rightarrow> mac_address \<Rightarrow> 't \<Rightarrow> int \<times> 't"
    and knows :: "'t \<Rightarrow> mac_address \<Rightarrow> int \<Rightarrow> simtime \<Rightarrow> bool"
    and max_age :: "'t \<Rightarrow> simtime"
  assumes learn_knows: "\<not> mac_isMulticast a \<Longrightarrow> knows (learn now i a t) a i now"
    and learn_keeps: "knows t b j tm \<Longrightarrow> now < tm + max_age t \<Longrightarrow> a \<noteq> b \<Longrightarrow> knows (learn now i a t) b j tm"
    and look_keeps: "knows t b j tm \<Longrightarrow> now < tm + max_age t \<Longrightarrow> knows (snd (look now a t)) b j tm"
    and look_knows: "knows t a i tm \<Longrightarrow> now < tm + max_age t \<Longrightarrow> fst (look now a t) = i"
    and learn_age: "max_age (learn now i a t) = max_age t"
    and look_age: "max_age (snd (look now a t)) = max_age t"
begin

text \<open>Frames that pass: time, interface, source, and the destination if it is looked up.\<close>

fun passed :: "(simtime \<times> int \<times> mac_address \<times> mac_address option) list \<Rightarrow> 't \<Rightarrow> 't" where
  "passed [] t = t"
| "passed ((now, i, a, d) # fs) t =
     (let t1 = learn now i a t in passed fs (case d of None \<Rightarrow> t1 | Some b \<Rightarrow> snd (look now b t1)))"

lemma passed_age: "max_age (passed fs t) = max_age t"
  by (induction fs t rule: passed.induct) (simp_all add: Let_def learn_age look_age split: option.split)

lemma passed_keeps:
  assumes "knows t a i tm'" "tm \<le> tm'" "\<not> mac_isMulticast a"
    and "\<And>now j b d. (now, j, b, d) \<in> set fs \<Longrightarrow> tm \<le> now \<and> now < tm + max_age t \<and> (b = a \<longrightarrow> j = i)"
  shows "\<exists>tm''. tm \<le> tm'' \<and> knows (passed fs t) a i tm''"
  using assms(1,2,4)
proof (induction fs arbitrary: t tm')
  case (Cons x fs)
  obtain now j b d where x: "x = (now, j, b, d)" by (cases x)
  have now: "tm \<le> now" "now < tm + max_age t" "b = a \<Longrightarrow> j = i" using Cons.prems(3) x by auto
  let ?t1 = "learn now j b t"
  obtain tm1 where t1: "knows ?t1 a i tm1" "tm \<le> tm1"
    using Cons.prems(1,2) now learn_knows [OF assms(3), of now i t] learn_keeps [OF Cons.prems(1), of now b j] by (cases "b = a") auto
  let ?t2 = "case d of None \<Rightarrow> ?t1 | Some c \<Rightarrow> snd (look now c ?t1)"
  have k: "knows ?t2 a i tm1" using t1 now look_keeps [OF t1(1)] by (auto simp: learn_age split: option.split)
  have age: "max_age ?t2 = max_age t" by (simp add: learn_age look_age split: option.split)
  have "\<exists>tm''. tm \<le> tm'' \<and> knows (passed fs ?t2) a i tm''"
  proof (rule Cons.IH [OF k t1(2)])
    fix now' j' b' d' assume "(now', j', b', d') \<in> set fs"
    then show "tm \<le> now' \<and> now' < tm + max_age ?t2 \<and> (b' = a \<longrightarrow> j' = i)"
      unfolding age using Cons.prems(3) [of now' j' b' d'] x by simp
  qed
  then show ?case using x by (simp add: Let_def)
qed auto

text \<open>An address is found where it was seen.\<close>

lemma found_where_seen:
  assumes "\<not> mac_isMulticast a" "tm \<le> now" "now < tm + max_age t"
    and "\<And>now' j b d. (now', j, b, d) \<in> set fs \<Longrightarrow> tm \<le> now' \<and> now' < tm + max_age t \<and> (b = a \<longrightarrow> j = i)"
  shows "fst (look now a (passed ((tm, i, a, d) # fs) t)) = i"
proof -
  let ?t = "case d of None \<Rightarrow> learn tm i a t | Some b \<Rightarrow> snd (look tm b (learn tm i a t))"
  have age: "max_age ?t = max_age t" by (simp add: learn_age look_age split: option.split)
  have "knows ?t a i tm" using learn_knows [OF assms(1)] look_keeps assms(2,3) by (auto simp: learn_age split: option.split)
  from passed_keeps [OF this order_refl assms(1)] obtain tm' where "tm \<le> tm'" "knows (passed fs ?t) a i tm'"
    using assms(4) age by metis
  then show ?thesis using look_knows [of "passed fs ?t" a i tm' now] assms(3) age by (simp add: passed_age Let_def)
qed

end

end
