(* ===== verification/Mac_Table.thy ===== *)
theory Mac_Table
  imports Switch_Port
begin

text \<open>
  The address table of an Ethernet switch, \<open>linklayer/ethernet/switch/MacAddressTable.cc\<close>: which
  address was last seen on which interface, per VLAN, with aging. The order of the entries cannot
  be seen, so the two levels of \<open>std::map\<close> are maps. The pointer \<open>addressTable\<close> always points to
  the table of VLAN 0: it is set when that table is created and cleared with all tables.
\<close>

record address_entry =
  en_interfaceId :: int
  en_insertionTime :: simtime

record mac_table =
  agingTime :: simtime
  lastPurge :: simtime
  vlanAddressTable :: "u32 \<rightharpoonup> mac_address \<rightharpoonup> address_entry"

definition new_mac_table :: "simtime \<Rightarrow> mac_table" where
  "new_mac_table aging = \<lparr>agingTime = aging, lastPurge = 0, vlanAddressTable = Map.empty\<rparr>"

definition getTableForVid :: "u32 \<Rightarrow> mac_table \<Rightarrow> (mac_address \<rightharpoonup> address_entry) option" where
  "getTableForVid vid t = vlanAddressTable t vid"

definition aged :: "simtime \<Rightarrow> mac_table \<Rightarrow> address_entry \<Rightarrow> bool" where
  "aged now t e \<longleftrightarrow> en_insertionTime e + agingTime t \<le> now"

definition set_vlan :: "u32 \<Rightarrow> (mac_address \<rightharpoonup> address_entry) \<Rightarrow> mac_table \<Rightarrow> mac_table" where
  "set_vlan vid m t = t\<lparr>vlanAddressTable := (vlanAddressTable t)(vid \<mapsto> m)\<rparr>"

definition getInterfaceIdForAddress :: "simtime \<Rightarrow> mac_address \<Rightarrow> u32 \<Rightarrow> mac_table \<Rightarrow> int \<times> mac_table" where
  "getInterfaceIdForAddress now a vid t =
     (case getTableForVid vid t of
        None \<Rightarrow> (-1, t)
      | Some m \<Rightarrow>
          (case m a of
             None \<Rightarrow> (-1, t)
           | Some e \<Rightarrow> if aged now t e then (-1, set_vlan vid (m(a := None)) t) else (en_interfaceId e, t)))"

text \<open>The loop that erases entries while it walks a table.\<close>

definition erase_entries :: "(address_entry \<Rightarrow> bool) \<Rightarrow> (mac_address \<rightharpoonup> address_entry) \<Rightarrow> mac_address \<rightharpoonup> address_entry" where
  "erase_entries P m = (\<lambda>a. case m a of Some e \<Rightarrow> if P e then None else Some e | None \<Rightarrow> None)"

definition removeAgedEntriesFromVlan :: "simtime \<Rightarrow> u32 \<Rightarrow> mac_table \<Rightarrow> mac_table" where
  "removeAgedEntriesFromVlan now vid t =
     (case getTableForVid vid t of None \<Rightarrow> t | Some m \<Rightarrow> set_vlan vid (erase_entries (aged now t) m) t)"

definition removeAgedEntriesFromAllVlans :: "simtime \<Rightarrow> mac_table \<Rightarrow> mac_table" where
  "removeAgedEntriesFromAllVlans now t =
     t\<lparr>vlanAddressTable := (\<lambda>vid. map_option (erase_entries (aged now t)) (vlanAddressTable t vid))\<rparr>"

definition removeAgedEntriesIfNeeded :: "simtime \<Rightarrow> mac_table \<Rightarrow> mac_table" where
  "removeAgedEntriesIfNeeded now t =
     (if now \<ge> lastPurge t + seconds 1 then removeAgedEntriesFromAllVlans now t else t)\<lparr>lastPurge := now\<rparr>"

definition updateTableWithAddress :: "simtime \<Rightarrow> int \<Rightarrow> mac_address \<Rightarrow> u32 \<Rightarrow> mac_table \<Rightarrow> bool \<times> mac_table" where
  "updateTableWithAddress now i a vid t =
     (if mac_isMulticast a then (False, t)
      else
        let t1 = (case getTableForVid vid t of None \<Rightarrow> set_vlan vid Map.empty t | Some m \<Rightarrow> t);
            put = (\<lambda>t. set_vlan vid ((the (getTableForVid vid t))(a \<mapsto> \<lparr>en_interfaceId = i, en_insertionTime = now\<rparr>)) t)
        in
        if the (getTableForVid vid t1) a = None then (False, put (removeAgedEntriesIfNeeded now t1))
        else (True, put t1))"

definition mt_flush :: "int \<Rightarrow> mac_table \<Rightarrow> mac_table" where
  "mt_flush i t =
     t\<lparr>vlanAddressTable := (\<lambda>vid. map_option (erase_entries (\<lambda>e. en_interfaceId e = i)) (vlanAddressTable t vid))\<rparr>"

definition copyTable :: "int \<Rightarrow> int \<Rightarrow> mac_table \<Rightarrow> mac_table" where
  "copyTable i j t =
     t\<lparr>vlanAddressTable := (\<lambda>vid. map_option (\<lambda>m a. map_option (\<lambda>e. if en_interfaceId e = i then e\<lparr>en_interfaceId := j\<rparr> else e) (m a))
        (vlanAddressTable t vid))\<rparr>"

text \<open>\<open>initializeTable\<close> with the lines of the file of the table, already parsed; the file is not part of the program.\<close>

definition add_static_entry :: "u32 \<times> mac_address \<times> int \<Rightarrow> mac_table \<Rightarrow> mac_table" where
  "add_static_entry x t =
     (case x of (vid, a, i) \<Rightarrow>
        set_vlan vid ((case getTableForVid vid t of None \<Rightarrow> Map.empty | Some m \<Rightarrow> m)
                        (a \<mapsto> \<lparr>en_interfaceId = i, en_insertionTime = 0\<rparr>)) t)"

definition clearTable :: "mac_table \<Rightarrow> mac_table" where
  "clearTable t = t\<lparr>vlanAddressTable := Map.empty\<rparr>"

definition initializeTable :: "(u32 \<times> mac_address \<times> int) list \<Rightarrow> mac_table \<Rightarrow> mac_table" where
  "initializeTable lines t = fold add_static_entry lines (clearTable t)"

definition setAgingTime :: "simtime \<Rightarrow> mac_table \<Rightarrow> mac_table" where
  "setAgingTime d t = t\<lparr>agingTime := d\<rparr>"

definition resetDefaultAging :: "simtime \<Rightarrow> mac_table \<Rightarrow> mac_table" where
  "resetDefaultAging par t = setAgingTime par t"

section \<open>What the table stands for\<close>

text \<open>
  The specification remembers, for every address, the interface and the time of its last
  sighting, and never forgets one; aging is only a matter of looking.
\<close>

datatype table_event =
    Learn int mac_address u32
  | Lookup mac_address u32
  | FlushPort int
  | CopyPort int int
  | PurgeAll
  | PurgeVlan u32

fun table_event_step :: "simtime \<Rightarrow> table_event \<Rightarrow> mac_table \<Rightarrow> mac_table" where
  "table_event_step now (Learn i a vid) t = snd (updateTableWithAddress now i a vid t)"
| "table_event_step now (Lookup a vid) t = snd (getInterfaceIdForAddress now a vid t)"
| "table_event_step now (FlushPort i) t = mt_flush i t"
| "table_event_step now (CopyPort i j) t = copyTable i j t"
| "table_event_step now PurgeAll t = removeAgedEntriesFromAllVlans now t"
| "table_event_step now (PurgeVlan vid) t = removeAgedEntriesFromVlan now vid t"

type_synonym sightings = "u32 \<Rightarrow> mac_address \<Rightarrow> (int \<times> simtime) option"

fun sighting_step :: "simtime \<Rightarrow> table_event \<Rightarrow> sightings \<Rightarrow> sightings" where
  "sighting_step now (Learn i a vid) s = (if mac_isMulticast a then s else s(vid := (s vid)(a \<mapsto> (i, now))))"
| "sighting_step now (FlushPort i) s =
     (\<lambda>vid a. case s vid a of None \<Rightarrow> None | Some (j, tm) \<Rightarrow> if j = i then None else Some (j, tm))"
| "sighting_step now (CopyPort i j) s = (\<lambda>vid a. map_option (\<lambda>(k, tm). (if k = i then j else k, tm)) (s vid a))"
| "sighting_step now (Lookup a vid) s = s"
| "sighting_step now PurgeAll s = s"
| "sighting_step now (PurgeVlan vid) s = s"

definition last_seen :: "simtime \<Rightarrow> simtime \<Rightarrow> u32 \<Rightarrow> mac_address \<Rightarrow> sightings \<Rightarrow> int" where
  "last_seen aging now vid a s =
     (case s vid a of Some (i, tm) \<Rightarrow> if now < tm + aging then i else -1 | None \<Rightarrow> -1)"

fun table_run :: "(simtime \<times> table_event) list \<Rightarrow> mac_table \<Rightarrow> mac_table" where
  "table_run [] t = t"
| "table_run ((now, ev) # evs) t = table_run evs (table_event_step now ev t)"

fun sighting_run :: "(simtime \<times> table_event) list \<Rightarrow> sightings \<Rightarrow> sightings" where
  "sighting_run [] s = s"
| "sighting_run ((now, ev) # evs) s = sighting_run evs (sighting_step now ev s)"

definition entry_of :: "mac_table \<Rightarrow> u32 \<Rightarrow> mac_address \<Rightarrow> address_entry option" where
  "entry_of t vid a = (case vlanAddressTable t vid of None \<Rightarrow> None | Some m \<Rightarrow> m a)"

definition represents :: "simtime \<Rightarrow> mac_table \<Rightarrow> sightings \<Rightarrow> bool" where
  "represents now t s \<longleftrightarrow>
     (\<forall>vid a e. entry_of t vid a = Some e \<longrightarrow> s vid a = Some (en_interfaceId e, en_insertionTime e))
   \<and> (\<forall>vid a i tm. s vid a = Some (i, tm) \<longrightarrow> now < tm + agingTime t
        \<longrightarrow> entry_of t vid a = Some \<lparr>en_interfaceId = i, en_insertionTime = tm\<rparr>)"

lemma represents_later: "represents now t s \<Longrightarrow> now \<le> now' \<Longrightarrow> represents now' t s"
  by (force simp: represents_def)

lemma entry_of_set_vlan [simp]: "entry_of (set_vlan vid m t) vid' a = (if vid' = vid then m a else entry_of t vid' a)"
  by (simp add: entry_of_def set_vlan_def)

lemma entry_of_erased [simp]:
  "entry_of (t\<lparr>vlanAddressTable := (\<lambda>vid. map_option (erase_entries P) (vlanAddressTable t vid))\<rparr>) vid a
    = (case entry_of t vid a of None \<Rightarrow> None | Some e \<Rightarrow> if P e then None else Some e)"
  by (simp add: entry_of_def erase_entries_def split: option.split)

lemma entry_of_purged:
  "entry_of (removeAgedEntriesIfNeeded now t) vid a = entry_of t vid a
    \<or> entry_of (removeAgedEntriesIfNeeded now t) vid a = None \<and> (\<exists>e. entry_of t vid a = Some e \<and> aged now t e)"
  "agingTime (removeAgedEntriesIfNeeded now t) = agingTime t"
proof -
  have "entry_of (t\<lparr>lastPurge := now\<rparr>) vid a = entry_of t vid a" for t
    by (simp add: entry_of_def)
  then show "entry_of (removeAgedEntriesIfNeeded now t) vid a = entry_of t vid a
    \<or> entry_of (removeAgedEntriesIfNeeded now t) vid a = None \<and> (\<exists>e. entry_of t vid a = Some e \<and> aged now t e)"
    by (cases "entry_of t vid a") (auto simp: removeAgedEntriesIfNeeded_def removeAgedEntriesFromAllVlans_def)
  show "agingTime (removeAgedEntriesIfNeeded now t) = agingTime t"
    by (simp add: removeAgedEntriesIfNeeded_def removeAgedEntriesFromAllVlans_def)
qed

lemma updated_entry:
  "mac_isMulticast a \<Longrightarrow> updateTableWithAddress now i a vid t = (False, t)"
  "\<not> mac_isMulticast a \<Longrightarrow> entry_of (snd (updateTableWithAddress now i a vid t)) vid a
      = Some \<lparr>en_interfaceId = i, en_insertionTime = now\<rparr>"
  "(vid', b) \<noteq> (vid, a) \<Longrightarrow> entry_of (snd (updateTableWithAddress now i a vid t)) vid' b = entry_of t vid' b
      \<or> entry_of (snd (updateTableWithAddress now i a vid t)) vid' b = None
        \<and> (\<exists>e. entry_of t vid' b = Some e \<and> aged now t e)"
  "agingTime (snd (updateTableWithAddress now i a vid t)) = agingTime t"
proof -
  define t1 where "t1 = (case getTableForVid vid t of None \<Rightarrow> set_vlan vid Map.empty t | Some m \<Rightarrow> t)"
  have t1: "entry_of t1 vid' b = entry_of t vid' b" "agingTime t1 = agingTime t" "getTableForVid vid t1 \<noteq> None" for vid' b
    by (auto simp: t1_def getTableForVid_def entry_of_def set_vlan_def split: option.split)
  have put: "getTableForVid vid u \<noteq> None \<Longrightarrow>
      entry_of (set_vlan vid ((the (getTableForVid vid u))(a \<mapsto> x)) u) vid' b
        = (if (vid', b) = (vid, a) then Some x else entry_of u vid' b)" for u x vid' b
    by (auto simp: getTableForVid_def entry_of_def set_vlan_def)
  have kept: "getTableForVid vid (removeAgedEntriesIfNeeded now t1) \<noteq> None"
    using t1(3) by (auto simp: removeAgedEntriesIfNeeded_def removeAgedEntriesFromAllVlans_def getTableForVid_def)
  have purged: "entry_of (removeAgedEntriesIfNeeded now t1) vid' b = entry_of t vid' b
      \<or> entry_of (removeAgedEntriesIfNeeded now t1) vid' b = None \<and> (\<exists>e. entry_of t vid' b = Some e \<and> aged now t e)" for vid' b
    using entry_of_purged(1) [of now t1 vid' b] t1(1,2) by (simp add: aged_def)
  show "mac_isMulticast a \<Longrightarrow> updateTableWithAddress now i a vid t = (False, t)"
    by (simp add: updateTableWithAddress_def)
  show "\<not> mac_isMulticast a \<Longrightarrow> entry_of (snd (updateTableWithAddress now i a vid t)) vid a
      = Some \<lparr>en_interfaceId = i, en_insertionTime = now\<rparr>"
    unfolding updateTableWithAddress_def Let_def t1_def [symmetric]
    by (simp del: entry_of_set_vlan add: put [OF kept] put [OF t1(3)])
  show "(vid', b) \<noteq> (vid, a) \<Longrightarrow> entry_of (snd (updateTableWithAddress now i a vid t)) vid' b = entry_of t vid' b
      \<or> entry_of (snd (updateTableWithAddress now i a vid t)) vid' b = None
        \<and> (\<exists>e. entry_of t vid' b = Some e \<and> aged now t e)"
    unfolding updateTableWithAddress_def Let_def t1_def [symmetric] using purged [of vid' b]
    by (auto simp del: entry_of_set_vlan simp add: put [OF kept] put [OF t1(3)] t1(1))
  show "agingTime (snd (updateTableWithAddress now i a vid t)) = agingTime t"
    unfolding updateTableWithAddress_def Let_def t1_def [symmetric] using t1(2) by (simp add: set_vlan_def entry_of_purged(2))
qed

lemma looked_up:
  "fst (getInterfaceIdForAddress now a vid t)
    = (case entry_of t vid a of None \<Rightarrow> -1 | Some e \<Rightarrow> if aged now t e then -1 else en_interfaceId e)"
  "entry_of (snd (getInterfaceIdForAddress now a vid t)) vid' b = entry_of t vid' b
    \<or> entry_of (snd (getInterfaceIdForAddress now a vid t)) vid' b = None \<and> (\<exists>e. entry_of t vid' b = Some e \<and> aged now t e)"
  "agingTime (snd (getInterfaceIdForAddress now a vid t)) = agingTime t"
  by (auto simp: getInterfaceIdForAddress_def getTableForVid_def entry_of_def set_vlan_def split: option.split)

lemma represents_weaken:
  assumes "represents now t s" "agingTime t' = agingTime t"
    and "\<And>vid a. entry_of t' vid a = entry_of t vid a
      \<or> entry_of t' vid a = None \<and> (\<exists>e. entry_of t vid a = Some e \<and> aged now t e)"
  shows "represents now t' s"
  unfolding represents_def
proof (intro conjI allI impI)
  fix vid a e assume "entry_of t' vid a = Some e"
  then show "s vid a = Some (en_interfaceId e, en_insertionTime e)"
    using assms(1) assms(3) [of vid a] unfolding represents_def by (metis option.distinct(1))
next
  fix vid a i tm assume s: "s vid a = Some (i, tm)" "now < tm + agingTime t'"
  then have "entry_of t vid a = Some \<lparr>en_interfaceId = i, en_insertionTime = tm\<rparr>"
    using assms(1,2) by (simp add: represents_def)
  then show "entry_of t' vid a = Some \<lparr>en_interfaceId = i, en_insertionTime = tm\<rparr>"
    using assms(2) assms(3) [of vid a] s(2) by (auto simp: aged_def)
qed

lemma represents_learn:
  assumes "represents now t s"
  shows "represents now (snd (updateTableWithAddress now i a vid t)) (sighting_step now (Learn i a vid) s)"
proof (cases "mac_isMulticast a")
  case False
  let ?t = "snd (updateTableWithAddress now i a vid t)" and ?s = "sighting_step now (Learn i a vid) s"
  have new: "?s vid a = Some (i, now)" "entry_of ?t vid a = Some \<lparr>en_interfaceId = i, en_insertionTime = now\<rparr>"
    using False updated_entry(2) by simp_all
  have old: "?s vid' b = s vid' b" if "(vid', b) \<noteq> (vid, a)" for vid' b using that False by auto
  show ?thesis unfolding represents_def
  proof (intro conjI allI impI)
    fix vid' b e assume e: "entry_of ?t vid' b = Some e"
    show "?s vid' b = Some (en_interfaceId e, en_insertionTime e)"
    proof (cases "(vid', b) = (vid, a)")
      case False
      then have "entry_of t vid' b = Some e" using updated_entry(3) [OF False, of now i t] e by force
      then show ?thesis using old [OF False] assms by (simp add: represents_def)
    qed (use e new in auto)
  next
    fix vid' b j tm assume s: "?s vid' b = Some (j, tm)" "now < tm + agingTime ?t"
    show "entry_of ?t vid' b = Some \<lparr>en_interfaceId = j, en_insertionTime = tm\<rparr>"
    proof (cases "(vid', b) = (vid, a)")
      case False
      then have "entry_of t vid' b = Some \<lparr>en_interfaceId = j, en_insertionTime = tm\<rparr>"
        using s old [OF False] assms updated_entry(4) by (simp add: represents_def)
      then show ?thesis using updated_entry(3) [OF False, of now i t] s(2) updated_entry(4) [of now i a vid t] by (auto simp: aged_def)
    qed (use s new in auto)
  qed
qed (use assms updated_entry(1) in simp)

lemma represents_step:
  assumes "represents now t s"
  shows "represents now (table_event_step now ev t) (sighting_step now ev s)"
    "agingTime (table_event_step now ev t) = agingTime t"
proof -
  show "represents now (table_event_step now ev t) (sighting_step now ev s)"
  proof (cases ev)
    case (Learn i a vid)
    then show ?thesis using represents_learn [OF assms] by simp
  next
    case (Lookup a vid)
    then show ?thesis using represents_weaken [OF assms looked_up(3) looked_up(2)] by simp
  next
    case (FlushPort i)
    then show ?thesis using assms unfolding represents_def
      by (fastforce simp: mt_flush_def split: option.splits if_splits)
  next
    case (CopyPort i j)
    have copied: "entry_of (copyTable i j t) vid a
        = map_option (\<lambda>e. if en_interfaceId e = i then e\<lparr>en_interfaceId := j\<rparr> else e) (entry_of t vid a)" for vid a
      by (simp add: copyTable_def entry_of_def split: option.split)
    have aging: "agingTime (copyTable i j t) = agingTime t" by (simp add: copyTable_def)
    have entry: "entry_of t vid a = Some e \<Longrightarrow> s vid a = Some (en_interfaceId e, en_insertionTime e)" for vid a e
      using assms by (simp add: represents_def)
    have fresh: "s vid a = Some (k, tm) \<Longrightarrow> now < tm + agingTime t
        \<Longrightarrow> entry_of t vid a = Some \<lparr>en_interfaceId = k, en_insertionTime = tm\<rparr>" for vid a k tm
      using assms by (simp add: represents_def)
    show ?thesis unfolding represents_def CopyPort table_event_step.simps sighting_step.simps aging
    proof (intro conjI allI impI)
      fix vid a e assume "entry_of (copyTable i j t) vid a = Some e"
      then obtain e0 where "entry_of t vid a = Some e0" "e = (if en_interfaceId e0 = i then e0\<lparr>en_interfaceId := j\<rparr> else e0)"
        by (auto simp: copied)
      then show "map_option (\<lambda>(k, tm). (if k = i then j else k, tm)) (s vid a) = Some (en_interfaceId e, en_insertionTime e)"
        using entry by simp
    next
      fix vid a k tm
      assume k: "map_option (\<lambda>(k, tm). (if k = i then j else k, tm)) (s vid a) = Some (k, tm)" "now < tm + agingTime t"
      then obtain k0 where "s vid a = Some (k0, tm)" "k = (if k0 = i then j else k0)" by auto
      then show "entry_of (copyTable i j t) vid a = Some \<lparr>en_interfaceId = k, en_insertionTime = tm\<rparr>"
        using fresh k(2) by (simp add: copied)
    qed
  next
    case PurgeAll
    have e: "entry_of (removeAgedEntriesFromAllVlans now t) vid a = entry_of t vid a
        \<or> entry_of (removeAgedEntriesFromAllVlans now t) vid a = None \<and> (\<exists>e. entry_of t vid a = Some e \<and> aged now t e)" for vid a
      by (cases "entry_of t vid a") (simp_all add: removeAgedEntriesFromAllVlans_def)
    have g: "agingTime (removeAgedEntriesFromAllVlans now t) = agingTime t"
      by (simp add: removeAgedEntriesFromAllVlans_def)
    show ?thesis using represents_weaken [OF assms g e] PurgeAll by simp
  next
    case (PurgeVlan vid)
    have e: "entry_of (removeAgedEntriesFromVlan now vid t) vid' a = entry_of t vid' a
        \<or> entry_of (removeAgedEntriesFromVlan now vid t) vid' a = None \<and> (\<exists>e. entry_of t vid' a = Some e \<and> aged now t e)" for vid' a
      by (auto simp: removeAgedEntriesFromVlan_def getTableForVid_def erase_entries_def entry_of_def set_vlan_def split: option.split)
    have g: "agingTime (removeAgedEntriesFromVlan now vid t) = agingTime t"
      by (simp add: removeAgedEntriesFromVlan_def set_vlan_def split: option.split)
    show ?thesis using represents_weaken [OF assms g e] PurgeVlan by simp
  qed
  show "agingTime (table_event_step now ev t) = agingTime t"
    by (cases ev) (simp_all add: updated_entry(4) looked_up(3) mt_flush_def copyTable_def removeAgedEntriesFromAllVlans_def
      removeAgedEntriesFromVlan_def set_vlan_def split: option.split)
qed

lemma represents_run:
  assumes "represents now0 t s" "sorted (now0 # map fst evs @ [now])"
  shows "represents now (table_run evs t) (sighting_run evs s) \<and> agingTime (table_run evs t) = agingTime t"
  using assms
proof (induction evs arbitrary: now0 t s)
  case Nil
  then show ?case using represents_later by auto
next
  case (Cons x evs)
  obtain tm ev where x: "x = (tm, ev)" by (cases x)
  have "represents tm t s" using Cons.prems x represents_later by auto
  then show ?case using represents_step [of tm t s ev] Cons.IH [of tm "table_event_step tm ev t" "sighting_step tm ev s"] Cons.prems(2) x
    by simp
qed



section \<open>The interface that switches use\<close>

definition at_interface :: "mac_table \<Rightarrow> mac_address \<Rightarrow> int \<Rightarrow> simtime \<Rightarrow> bool" where
  "at_interface t a i tm \<longleftrightarrow> entry_of t 0 a = Some \<lparr>en_interfaceId = i, en_insertionTime = tm\<rparr>"

interpretation mac_table: address_table
  "\<lambda>now i a t. snd (updateTableWithAddress now i a 0 t)" "\<lambda>now a t. getInterfaceIdForAddress now a 0 t" at_interface agingTime
proof
  fix now i a t b j tm
  assume "at_interface t b j tm" "now < tm + agingTime t" "a \<noteq> b"
  then show "at_interface (snd (updateTableWithAddress now i a 0 t)) b j tm"
    using updated_entry(3) [of 0 b 0 a now i t] by (auto simp: at_interface_def aged_def)
next
  fix now a t b j tm
  assume "at_interface t b j tm" "now < tm + agingTime t"
  then show "at_interface (snd (getInterfaceIdForAddress now a 0 t)) b j tm"
    using looked_up(2) [of now a 0 t 0 b] by (auto simp: at_interface_def aged_def)
qed (simp_all add: at_interface_def updated_entry looked_up(1,3) aged_def)

end
