(* ===== verification/Mac_Relay.thy ===== *)
theory Mac_Relay
  imports Mac_Table
begin

text \<open>
  The relay unit of a switch without spanning tree, \<open>linklayer/ethernet/switch/MacRelayUnit.cc\<close>.
\<close>

record 'a mac_relay =
  mr_ports :: "switch_port list"
  mr_table :: mac_table
  numProcessedFrames :: int
  numDiscardedFrames :: int
  mr_out :: "'a eth_frame list"

definition relay_broadcast :: "'a eth_frame \<Rightarrow> int \<Rightarrow> 'a mac_relay \<Rightarrow> 'a mac_relay outcome" where
  "relay_broadcast f arrival r =
     bindE (cleared_frame f) (\<lambda>g.
     Inr (r\<lparr>mr_out := mr_out r @
       map (\<lambda>p. frame_to (sp_id p) g) (filter (\<lambda>p. \<not> (sp_isLoopback p \<or> \<not> sp_isBroadcast p) \<and> arrival \<noteq> sp_id p) (mr_ports r))\<rparr>))"

definition relay_learn :: "simtime \<Rightarrow> mac_address \<Rightarrow> int \<Rightarrow> 'a mac_relay \<Rightarrow> 'a mac_relay" where
  "relay_learn now a i r = r\<lparr>mr_table := snd (updateTableWithAddress now i a 0 (mr_table r))\<rparr>"

definition relay_handleAndDispatchFrame :: "simtime \<Rightarrow> 'a eth_frame \<Rightarrow> 'a mac_relay \<Rightarrow> 'a mac_relay outcome" where
  "relay_handleAndDispatchFrame now f r =
     (case fr_interfaceInd f of
        None \<Rightarrow> Inl (RuntimeError ''Tag not found'')
      | Some arrival \<Rightarrow>
          let r1 = relay_learn now (fr_src f) arrival (r\<lparr>numProcessedFrames := numProcessedFrames r + 1\<rparr>) in
          if mac_isBroadcast (fr_dest f) then relay_broadcast f arrival r1
          else
            let (out, t) = getInterfaceIdForAddress now (fr_dest f) 0 (mr_table r1); r2 = r1\<lparr>mr_table := t\<rparr> in
            if arrival = out then Inr (r2\<lparr>numDiscardedFrames := numDiscardedFrames r2 + 1\<rparr>)
            else if out \<ge> 0 then
              bindE (cleared_frame f) (\<lambda>g. Inr (r2\<lparr>mr_out := mr_out r2 @ [frame_to out g]\<rparr>))
            else relay_broadcast f arrival r2)"

fun relay_run :: "(simtime \<times> 'a eth_frame) list \<Rightarrow> 'a mac_relay \<Rightarrow> 'a mac_relay outcome" where
  "relay_run [] r = Inr r"
| "relay_run ((now, f) # fs) r = bindE (relay_handleAndDispatchFrame now f r) (relay_run fs)"

section \<open>Frames find their way back\<close>

text \<open>What a frame means for the address table.\<close>

definition table_effect :: "simtime \<times> 'a eth_frame \<Rightarrow> simtime \<times> int \<times> mac_address \<times> mac_address option" where
  "table_effect x = (case x of (now, f) \<Rightarrow>
     (now, the (fr_interfaceInd f), fr_src f, if mac_isBroadcast (fr_dest f) then None else Some (fr_dest f)))"

lemma broadcast_table [simp]:
  "relay_broadcast f i r = Inr r' \<Longrightarrow> mr_table r' = mr_table r \<and> mr_ports r' = mr_ports r"
  by (auto simp: relay_broadcast_def outcome_simps)

lemma relay_frame_table:
  assumes "relay_handleAndDispatchFrame now f r = Inr r'"
  shows "mr_table r' = mac_table.passed [table_effect (now, f)] (mr_table r)" "mr_ports r' = mr_ports r"
proof -
  obtain i where i: "fr_interfaceInd f = Some i"
    using assms by (cases "fr_interfaceInd f") (auto simp: relay_handleAndDispatchFrame_def)
  obtain out t where look: "getInterfaceIdForAddress now (fr_dest f) 0 (snd (updateTableWithAddress now i (fr_src f) 0 (mr_table r))) = (out, t)"
    by fastforce
  have "mr_table r' = mac_table.passed [table_effect (now, f)] (mr_table r) \<and> mr_ports r' = mr_ports r"
    using assms look
    by (auto simp: relay_handleAndDispatchFrame_def i relay_learn_def table_effect_def Let_def outcome_simps
        split: if_splits dest!: broadcast_table)
  then show "mr_table r' = mac_table.passed [table_effect (now, f)] (mr_table r)" "mr_ports r' = mr_ports r" by auto
qed

lemma relay_run_table:
  "relay_run fs r = Inr r' \<Longrightarrow> mr_table r' = mac_table.passed (map table_effect fs) (mr_table r)"
proof (induction fs arbitrary: r)
  case (Cons x fs)
  obtain now f where x: "x = (now, f)" by (cases x)
  then obtain r1 where r1: "relay_handleAndDispatchFrame now f r = Inr r1" "relay_run fs r1 = Inr r'"
    using Cons.prems by (auto simp: outcome_simps)
  obtain i a d where e: "table_effect (now, f) = (now, i, a, d)" by (auto simp: table_effect_def)
  show ?case using Cons.IH [OF r1(2)] relay_frame_table(1) [OF r1(1)] x e by (simp add: Let_def)
qed simp

text \<open>
  C36. A station whose frame entered the switch on an interface is found there as long as its entry is
  not older than the aging time, whatever other frames pass the switch, provided that no frame with
  its address comes in elsewhere: a frame to it leaves on that interface alone and is otherwise
  unchanged, or is discarded when it came in there.
\<close>

theorem reply_goes_back:
  assumes "relay_run ((tm, h) # fs) r = Inr r1" "fr_interfaceInd h = Some i" "fr_src h = a" "0 \<le> i"
    and "\<not> mac_isMulticast a" "tm \<le> now" "now < tm + agingTime (mr_table r)"
    and "\<forall>(now', g) \<in> set fs. tm \<le> now' \<and> now' < tm + agingTime (mr_table r) \<and> (fr_src g = a \<longrightarrow> fr_interfaceInd g = Some i)"
    and "relay_handleAndDispatchFrame now f r1 = Inr r2" "fr_interfaceInd f = Some j" "fr_dest f = a"
    and "fr_src f = a \<longrightarrow> j = i"
  shows "\<exists>g. mr_out r2 = mr_out r1 @ (if j = i then [] else [frame_to i g]) \<and> same_frame (frame_to i g) f"
proof -
  have run: "mr_table r1 = mac_table.passed (map table_effect ((tm, h) # fs)) (mr_table r)"
    by (rule relay_run_table [OF assms(1)])
  define es where "es = map table_effect fs @ [(now, j, fr_src f, None)]"
  have seen: "table_effect (tm, h) = (tm, i, a, snd (snd (snd (table_effect (tm, h)))))"
    using assms(2,3) by (simp add: table_effect_def)
  have split: "mac_table.passed (xs @ ys) t = mac_table.passed ys (mac_table.passed xs t)" for xs ys t
    by (induction xs t rule: mac_table.passed.induct) (simp_all add: Let_def)
  have appended: "table_effect (tm, h) # es = map table_effect ((tm, h) # fs) @ [(now, j, fr_src f, None)]"
    by (simp add: es_def)
  have "fst (getInterfaceIdForAddress now a 0 (mac_table.passed (table_effect (tm, h) # es) (mr_table r))) = i"
  proof (subst seen, rule mac_table.found_where_seen)
    fix now' k b d assume e: "(now', k, b, d) \<in> set es"
    then consider "now' = now" "k = j" "b = fr_src f"
      | g where "(now', g) \<in> set fs" "k = the (fr_interfaceInd g)" "b = fr_src g"
      by (auto simp: es_def table_effect_def)
    then show "tm \<le> now' \<and> now' < tm + agingTime (mr_table r) \<and> (b = a \<longrightarrow> k = i)"
      using assms(6,7,8,12) by cases fastforce+
  qed (use assms in simp_all)
  then have "fst (getInterfaceIdForAddress now a 0 (snd (updateTableWithAddress now j (fr_src f) 0 (mr_table r1)))) = i"
    unfolding run by (simp only: appended split) (simp only: mac_table.passed.simps Let_def option.case)
  then obtain t where look: "getInterfaceIdForAddress now a 0 (snd (updateTableWithAddress now j (fr_src f) 0 (mr_table r1))) = (i, t)"
    by (metis prod.collapse)
  have dest: "\<not> mac_isBroadcast (fr_dest f)" using assms(5,11) broadcast_is_multicast by blast
  show ?thesis
  proof (cases "j = i")
    case True
    then have "mr_out r2 = mr_out r1" using assms(9,10,11) look dest
      by (auto simp: relay_handleAndDispatchFrame_def relay_learn_def Let_def)
    then show ?thesis using True by (intro exI [of _ f]) (simp add: same_frame_def frame_to_def)
  next
    case False
    then obtain g where "cleared_frame f = Inr g" "mr_out r2 = mr_out r1 @ [frame_to i g]"
      using assms(4,9,10,11) look dest by (auto simp: relay_handleAndDispatchFrame_def relay_learn_def Let_def outcome_simps)
    then show ?thesis using False cleared_same by auto
  qed
qed

definition example_switch :: "nat mac_relay" where
  "example_switch =
     \<lparr>mr_ports = map (\<lambda>i. \<lparr>sp_id = i, sp_isLoopback = False, sp_isBroadcast = True, sp_macAddress = 0, sp_data = None\<rparr>) [101, 102, 103],
      mr_table = new_mac_table (seconds 120), numProcessedFrames = 0, numDiscardedFrames = 0, mr_out = []\<rparr>"

definition example_frame :: "mac_address \<Rightarrow> mac_address \<Rightarrow> int \<Rightarrow> nat eth_frame" where
  "example_frame dest src i =
     \<lparr>fr_dest = dest, fr_src = src, fr_typeOrLength = 2048, fr_llc = None, fr_payload = 7, fr_interfaceInd = Some i,
      fr_interfaceReq = None, fr_protocol = Some 1, fr_dispatchReq = None\<rparr>"

lemma reply_goes_back_witness:
  "\<exists>r1 r2 g. relay_run [(seconds 1, example_frame 2 4 101), (seconds 2, example_frame 6 8 103)] example_switch = Inr r1
    \<and> relay_handleAndDispatchFrame (seconds 3) (example_frame 4 2 102) r1 = Inr r2
    \<and> mr_out r2 = mr_out r1 @ [frame_to 101 g] \<and> same_frame (frame_to 101 g) (example_frame 4 2 102)"
proof -
  have "case relay_run [(seconds 1, example_frame 2 4 101), (seconds 2, example_frame 6 8 103)] example_switch of Inl e \<Rightarrow> False
      | Inr r1 \<Rightarrow> (case relay_handleAndDispatchFrame (seconds 3) (example_frame 4 2 102) r1 of Inl e \<Rightarrow> False | Inr r2 \<Rightarrow> True)"
    by code_simp
  then obtain r1 r2 where r: "relay_run [(seconds 1, example_frame 2 4 101), (seconds 2, example_frame 6 8 103)] example_switch = Inr r1"
    "relay_handleAndDispatchFrame (seconds 3) (example_frame 4 2 102) r1 = Inr r2"
    by (auto split: sum.splits)
  have ne: "(4::mac_address) \<noteq> 2" "(2::mac_address) \<noteq> 4" "(8::mac_address) \<noteq> 4" by code_simp+
  have "\<exists>g. mr_out r2 = mr_out r1 @ (if (102::int) = 101 then [] else [frame_to 101 g])
      \<and> same_frame (frame_to 101 g) (example_frame 4 2 102)"
    by (rule reply_goes_back [where a = 4, OF r(1) _ _ _ _ _ _ _ r(2)])
      (simp_all add: ne example_frame_def example_switch_def new_mac_table_def mac_isMulticast_def seconds_def)
  then show ?thesis using r by auto
qed

end
