(* ===== verification/Bridge_Relay.thy ===== *)
theory Bridge_Relay
  imports Mac_Table
begin

text \<open>
  The relay of an IEEE 802.1D bridge, \<open>linklayer/ieee8021d/relay/Ieee8021dRelay.cc\<close>: it learns and
  forwards as the states of the ports, which the spanning tree protocol sets, allow.
\<close>

section \<open>State\<close>

datatype 'a bridge_output = ToNetwork "'a eth_frame" | ToUpper "'a eth_frame"

record 'a bridge_relay =
  br_ports :: "switch_port list"
  br_table :: mac_table
  br_bridgeAddress :: mac_address
  isStpAware :: bool
  registeredMacAddresses :: "(mac_address \<times> mac_address) list"
  numReceivedNetworkFrames :: int
  numDroppedFrames :: int
  numDispatchedNonBPDUFrames :: int
  br_out :: "'a bridge_output list"

text \<open>
  The ranges of addresses are a \<open>std::set\<close> whose order puts one range before another when it ends before
  the other begins; \<open>insert\<close> ignores a range that is not before or after all ranges of the set.
\<close>

definition range_before :: "mac_address \<times> mac_address \<Rightarrow> mac_address \<times> mac_address \<Rightarrow> bool" where
  "range_before r s \<longleftrightarrow> fst r < fst s \<and> snd r < fst s"

definition same_range :: "mac_address \<times> mac_address \<Rightarrow> mac_address \<times> mac_address \<Rightarrow> bool" where
  "same_range r s \<longleftrightarrow> \<not> range_before r s \<and> \<not> range_before s r"

definition registerAddresses :: "mac_address \<Rightarrow> mac_address \<Rightarrow> 'a bridge_relay \<Rightarrow> 'a bridge_relay" where
  "registerAddresses a b r =
     (if list_ex (same_range (a, b)) (registeredMacAddresses r) then r
      else r\<lparr>registeredMacAddresses := (a, b) # registeredMacAddresses r\<rparr>)"

definition registerAddress :: "mac_address \<Rightarrow> 'a bridge_relay \<Rightarrow> 'a bridge_relay" where
  "registerAddress a = registerAddresses a a"

definition in_range :: "(mac_address \<times> mac_address) list \<Rightarrow> mac_address \<Rightarrow> bool" where
  "in_range rs a = list_ex (same_range (a, a)) rs"

definition bridge_initialize :: "bool \<Rightarrow> switch_port list \<Rightarrow> mac_table \<Rightarrow> 'a bridge_relay" where
  "bridge_initialize hasStp ps t =
     (let r = \<lparr>br_ports = ps, br_table = t, br_bridgeAddress = 0, isStpAware = hasStp, registeredMacAddresses = [],
               numReceivedNetworkFrames = 0, numDroppedFrames = 0, numDispatchedNonBPDUFrames = 0, br_out = []\<rparr>
      in if hasStp then registerAddress STP_MULTICAST_ADDRESS r else r)"

definition bridge_start :: "'a bridge_relay \<Rightarrow> 'a bridge_relay outcome" where
  "bridge_start r =
     (case chooseInterface (br_ports r) of
        None \<Rightarrow> Inl (RuntimeError ''No non-loopback interface found!'')
      | Some p \<Rightarrow> Inr (registerAddress (sp_macAddress p) (r\<lparr>br_bridgeAddress := sp_macAddress p\<rparr>)))"

section \<open>Operations\<close>

definition isForwardingInterface :: "switch_port \<Rightarrow> 'a bridge_relay \<Rightarrow> bool outcome" where
  "isForwardingInterface p r =
     (if isStpAware r then
        (case sp_data p of
           None \<Rightarrow> Inl (RuntimeError ''Ieee8021dInterfaceData not found'')
         | Some d \<Rightarrow> Inr (port_isForwarding d))
      else Inr True)"

definition dispatch :: "'a eth_frame \<Rightarrow> switch_port \<Rightarrow> 'a bridge_relay \<Rightarrow> 'a bridge_relay outcome" where
  "dispatch f p r =
     bindE (cleared_frame f) (\<lambda>g.
     Inr (r\<lparr>numDispatchedNonBPDUFrames := numDispatchedNonBPDUFrames r + 1,
            br_out := br_out r @ [ToNetwork (frame_to (sp_id p) g)]\<rparr>))"

definition dispatch_copy :: "'a eth_frame \<Rightarrow> int \<Rightarrow> switch_port \<Rightarrow> 'a bridge_relay \<Rightarrow> 'a bridge_relay outcome" where
  "dispatch_copy f arrival p r =
     (if sp_isLoopback p \<or> \<not> sp_isBroadcast p \<or> sp_id p = arrival then Inr r
      else bindE (isForwardingInterface p r) (\<lambda>forwarding. if forwarding then dispatch f p r else Inr r))"

definition bridge_broadcast :: "'a eth_frame \<Rightarrow> int \<Rightarrow> 'a bridge_relay \<Rightarrow> 'a bridge_relay outcome" where
  "bridge_broadcast f arrival r = bindE (cleared_frame f) (\<lambda>g. foldE (dispatch_copy g arrival) (br_ports r) r)"

definition isBpdu :: "'a eth_frame \<Rightarrow> bool outcome" where
  "isBpdu f =
     (if 0 < fr_typeOrLength f \<and> fr_typeOrLength f < 0x600 then
        (case fr_llc f of
           None \<Rightarrow> Inl (RuntimeError ''no LLC header'')
         | Some (ssap, dsap, control) \<Rightarrow> Inr (ssap = 0x42 \<and> dsap = 0x42 \<and> control = 3))
      else Inr False)"

definition bridge_learn :: "simtime \<Rightarrow> mac_address \<Rightarrow> int \<Rightarrow> 'a bridge_relay \<Rightarrow> 'a bridge_relay outcome" where
  "bridge_learn now a i r =
     bindE (if isStpAware r then bindE (getPortInterfaceData i (br_ports r)) (\<lambda>d. Inr (port_isLearning d)) else Inr True)
     (\<lambda>learning. Inr (if learning then r\<lparr>br_table := snd (updateTableWithAddress now i a 0 (br_table r))\<rparr> else r))"

definition bridge_sendUp :: "'a eth_frame \<Rightarrow> 'a bridge_relay \<Rightarrow> 'a bridge_relay" where
  "bridge_sendUp f r = r\<lparr>br_out := br_out r @ [ToUpper f]\<rparr>"

definition drop_frame :: "'a bridge_relay \<Rightarrow> 'a bridge_relay" where
  "drop_frame r = r\<lparr>numDroppedFrames := numDroppedFrames r + 1\<rparr>"

text \<open>The last branch of \<open>handleAndDispatchFrame\<close>: a unicast or multicast destination that is not the bridge.\<close>

definition forward_frame :: "simtime \<Rightarrow> 'a eth_frame \<Rightarrow> int \<Rightarrow> 'a bridge_relay \<Rightarrow> 'a bridge_relay outcome" where
  "forward_frame now f arrival r =
     (let (out, t) = getInterfaceIdForAddress now (fr_dest f) 0 (br_table r); r1 = r\<lparr>br_table := t\<rparr> in
      if out = -1 then bridge_broadcast f arrival r1
      else
        bindE (port_by_id out (br_ports r1)) (\<lambda>q.
        if out \<noteq> arrival then
          bindE (isForwardingInterface q r1) (\<lambda>forwarding. if forwarding then dispatch f q r1 else Inr (drop_frame r1))
        else Inr (drop_frame r1)))"

definition bridge_handleAndDispatchFrame :: "simtime \<Rightarrow> 'a eth_frame \<Rightarrow> 'a bridge_relay \<Rightarrow> 'a bridge_relay outcome" where
  "bridge_handleAndDispatchFrame now f r =
     (case fr_interfaceInd f of
        None \<Rightarrow> Inl (RuntimeError ''Tag not found'')
      | Some arrival \<Rightarrow>
          bindE (port_by_id arrival (br_ports r)) (\<lambda>p.
          if isStpAware r \<and> sp_data p = None then Inl (RuntimeError ''Ieee8021dInterfaceData not found'')
          else
            bindE (bridge_learn now (fr_src f) arrival r) (\<lambda>r1.
            bindE (if isStpAware r1 \<and> (fr_dest f = STP_MULTICAST_ADDRESS \<or> fr_dest f = br_bridgeAddress r1)
                      \<and> pi_role (the (sp_data p)) \<noteq> DISABLED
                   then isBpdu f else Inr False) (\<lambda>bpdu.
            if bpdu then Inr (bridge_sendUp f r1)
            else if isStpAware r1 \<and> \<not> port_isForwarding (the (sp_data p)) then Inr (drop_frame r1)
            else if in_range (registeredMacAddresses r1) (fr_dest f) then Inr (bridge_sendUp f r1)
            else if mac_isBroadcast (fr_dest f) then bridge_broadcast f arrival r1
            else forward_frame now f arrival r1))))"

definition bridge_handleLowerPacket :: "simtime \<Rightarrow> 'a eth_frame \<Rightarrow> 'a bridge_relay \<Rightarrow> 'a bridge_relay outcome" where
  "bridge_handleLowerPacket now f r =
     bridge_handleAndDispatchFrame now (f\<lparr>fr_dispatchReq := None\<rparr>)
       (r\<lparr>numReceivedNetworkFrames := numReceivedNetworkFrames r + 1\<rparr>)"

text \<open>
  \<open>handleUpperPacket\<close>. When the table knows the interface of the destination, the code asks for the
  interface that the sender did not give, -1, instead of the one it has found.
\<close>

definition bridge_handleUpperPacket :: "simtime \<Rightarrow> 'a eth_frame \<Rightarrow> 'a bridge_relay \<Rightarrow> 'a bridge_relay outcome" where
  "bridge_handleUpperPacket now f r =
     (let interfaceId = (case fr_interfaceReq f of None \<Rightarrow> -1 | Some i \<Rightarrow> i) in
      if interfaceId \<noteq> -1 then bindE (port_by_id interfaceId (br_ports r)) (\<lambda>p. dispatch f p r)
      else if mac_isBroadcast (fr_dest f) then bridge_broadcast f (-1) r
      else
        let (out, t) = getInterfaceIdForAddress now (fr_dest f) 0 (br_table r); r1 = r\<lparr>br_table := t\<rparr> in
        if out = -1 then bridge_broadcast f (-1) r1
        else bindE (port_by_id interfaceId (br_ports r1)) (\<lambda>p. dispatch f p r1))"

section \<open>What is relayed\<close>

definition open_port :: "'a bridge_relay \<Rightarrow> switch_port \<Rightarrow> bool" where
  "open_port r p \<longleftrightarrow> isStpAware r \<longrightarrow> (case sp_data p of None \<Rightarrow> False | Some d \<Rightarrow> port_isForwarding d)"

text \<open>The ports that flooding reaches.\<close>

definition flooded_ports :: "int \<Rightarrow> 'a bridge_relay \<Rightarrow> switch_port list" where
  "flooded_ports arrival r =
     filter (\<lambda>p. \<not> sp_isLoopback p \<and> sp_isBroadcast p \<and> sp_id p \<noteq> arrival \<and> open_port r p) (br_ports r)"

text \<open>A state that differs only in counters, the address table and copies that have been sent to some ports.\<close>

definition relays_to :: "switch_port list \<Rightarrow> 'a eth_frame \<Rightarrow> 'a bridge_relay \<Rightarrow> 'a bridge_relay \<Rightarrow> bool" where
  "relays_to ps f r r' \<longleftrightarrow> (\<exists>gs. br_out r' = br_out r @ map ToNetwork gs
     \<and> map fr_interfaceReq gs = map (Some \<circ> sp_id) ps \<and> (\<forall>g \<in> set gs. same_frame g f))"

lemma relays_to_none [simp]: "br_out r' = br_out r \<Longrightarrow> relays_to [] f r r'"
  by (auto simp: relays_to_def)

lemma relays_to_trans: "\<lbrakk>relays_to ps f r r1; relays_to qs f r1 r2\<rbrakk> \<Longrightarrow> relays_to (ps @ qs) f r r2"
  unfolding relays_to_def by (elim exE conjE) (rule_tac x = "gs @ gsa" in exI, auto)

lemma dispatch_relays:
  assumes "dispatch f p r = Inr r'"
  shows "relays_to [p] f r r'" "br_table r' = br_table r" "br_ports r' = br_ports r" "isStpAware r' = isStpAware r"
proof -
  obtain g where g: "cleared_frame f = Inr g" "br_out r' = br_out r @ [ToNetwork (frame_to (sp_id p) g)]"
    using assms by (auto simp: dispatch_def outcome_simps)
  then show "relays_to [p] f r r'" using cleared_same unfolding relays_to_def
    by (intro exI [of _ "[frame_to (sp_id p) g]"]) (auto simp: frame_to_def)
  show "br_table r' = br_table r" "br_ports r' = br_ports r" "isStpAware r' = isStpAware r"
    using assms by (auto simp: dispatch_def outcome_simps)
qed

lemma relays_same_frame: "relays_to ps g r r' \<Longrightarrow> same_frame g f \<Longrightarrow> relays_to ps f r r'"
  by (fastforce simp: relays_to_def same_frame_def)

lemma isForwardingInterface_open: "isForwardingInterface p r = Inr b \<Longrightarrow> b = open_port r p"
  by (auto simp: isForwardingInterface_def open_port_def split: if_splits option.splits)

lemma copies_relay:
  assumes "foldE (dispatch_copy f arrival) ps r = Inr r'"
  shows "relays_to (filter (\<lambda>p. \<not> sp_isLoopback p \<and> sp_isBroadcast p \<and> sp_id p \<noteq> arrival \<and> open_port r p) ps) f r r'
    \<and> br_table r' = br_table r"
  using assms
proof (induction ps arbitrary: r)
  case (Cons p ps)
  then obtain r1 where r1: "dispatch_copy f arrival p r = Inr r1" "foldE (dispatch_copy f arrival) ps r1 = Inr r'"
    by (auto simp: outcome_simps)
  let ?go = "\<not> sp_isLoopback p \<and> sp_isBroadcast p \<and> sp_id p \<noteq> arrival \<and> open_port r p"
  have "(if ?go then dispatch f p r = Inr r1 else r1 = r)"
    using r1(1) isForwardingInterface_open [of p r]
    by (auto simp: dispatch_copy_def outcome_simps split: if_splits)
  then have "relays_to (if ?go then [p] else []) f r r1 \<and> br_table r1 = br_table r \<and> open_port r1 = open_port r"
    using dispatch_relays [of f p r r1] by (auto simp: open_port_def fun_eq_iff split: if_splits)
  then show ?case using Cons.IH [OF r1(2)] relays_to_trans [of _ f r r1 _ r'] by fastforce
qed simp

lemma broadcast_relays:
  assumes "bridge_broadcast f arrival r = Inr r'"
  shows "relays_to (flooded_ports arrival r) f r r' \<and> br_table r' = br_table r"
proof -
  obtain g where g: "cleared_frame f = Inr g" "foldE (dispatch_copy g arrival) (br_ports r) r = Inr r'"
    using assms by (auto simp: bridge_broadcast_def outcome_simps)
  have "same_frame g f" using g(1) by (auto simp: cleared_frame_def same_frame_def split: if_splits)
  then show ?thesis using copies_relay [OF g(2)] relays_same_frame by (auto simp: flooded_ports_def)
qed

lemma relays_to_start: "relays_to ps f r1 r' \<Longrightarrow> br_out r1 = br_out r \<Longrightarrow> relays_to ps f r r'"
  by (simp add: relays_to_def)

lemma forward_relays:
  assumes "forward_frame now f arrival r = Inr r'"
  shows "(relays_to (flooded_ports arrival r) f r r'
      \<or> (\<exists>q \<in> set (br_ports r). sp_id q \<noteq> arrival \<and> open_port r q \<and> relays_to [q] f r r') \<or> relays_to [] f r r')
    \<and> br_table r' = snd (getInterfaceIdForAddress now (fr_dest f) 0 (br_table r))"
proof -
  obtain out t where look: "getInterfaceIdForAddress now (fr_dest f) 0 (br_table r) = (out, t)" by fastforce
  define r1 where "r1 = r\<lparr>br_table := t\<rparr>"
  have opened: "open_port r1 = open_port r" "br_out r1 = br_out r" "br_table r1 = t" "flooded_ports arrival r1 = flooded_ports arrival r"
    by (simp_all add: r1_def open_port_def fun_eq_iff flooded_ports_def)
  have run: "(if out = -1 then bridge_broadcast f arrival r1
      else bindE (port_by_id out (br_ports r1)) (\<lambda>q.
        if out \<noteq> arrival then
          bindE (isForwardingInterface q r1) (\<lambda>forwarding. if forwarding then dispatch f q r1 else Inr (drop_frame r1))
        else Inr (drop_frame r1))) = Inr r'"
    using assms unfolding forward_frame_def Let_def look prod.case r1_def .
  consider "bridge_broadcast f arrival r1 = Inr r'"
    | q where "port_by_id out (br_ports r1) = Inr q" "out \<noteq> arrival" "open_port r1 q" "dispatch f q r1 = Inr r'"
    | "r' = drop_frame r1"
    using run by (auto simp: outcome_simps dest: isForwardingInterface_open split: if_splits)
  then show ?thesis
  proof cases
    case 1
    then show ?thesis using broadcast_relays [OF 1] opened look relays_to_start by fastforce
  next
    case (2 q)
    have q: "q \<in> set (br_ports r)" "sp_id q = out"
      using 2(1) by (auto simp: r1_def port_by_id_def find_Some_iff split: option.splits)
    then show ?thesis using dispatch_relays(1,2) [OF 2(4)] 2(2,3) opened look relays_to_start by fastforce
  next
    case 3
    then show ?thesis using opened look by (simp add: drop_frame_def)
  qed
qed

text \<open>The table after a frame: the source is learned if the port may, and one entry may be found to be too old.\<close>

lemma learn_table:
  assumes "bridge_learn now a i r = Inr r1" "isStpAware r" "getPortInterfaceData i (br_ports r) = Inr d"
  shows "r1 = (if port_isLearning d then r\<lparr>br_table := snd (updateTableWithAddress now i a 0 (br_table r))\<rparr> else r)"
  using assms by (simp add: bridge_learn_def)

lemma lookup_forgets_only:
  "entry_of (snd (getInterfaceIdForAddress now b 0 t)) vid a = Some e \<Longrightarrow> entry_of t vid a = Some e"
  using looked_up(2) [of now b 0 t vid a] by auto

lemma frame_cases:
  assumes "bridge_handleAndDispatchFrame now f r = Inr r'" "isStpAware r" "fr_interfaceInd f = Some i"
    and "getPortInterfaceData i (br_ports r) = Inr d"
  shows "\<exists>r1. bridge_learn now (fr_src f) i r = Inr r1 \<and>
     (r' = bridge_sendUp f r1 \<or> pi_state d \<noteq> FORWARDING \<and> r' = drop_frame r1
      \<or> pi_state d = FORWARDING \<and> mac_isBroadcast (fr_dest f) \<and> bridge_broadcast f i r1 = Inr r'
      \<or> pi_state d = FORWARDING \<and> \<not> mac_isBroadcast (fr_dest f) \<and> forward_frame now f i r1 = Inr r')"
proof -
  obtain p where p: "port_by_id i (br_ports r) = Inr p" "sp_data p = Some d"
    using assms(4) by (auto simp: getPortInterfaceData_def outcome_simps split: option.splits)
  define r1 where "r1 = (if port_isLearning d then r\<lparr>br_table := snd (updateTableWithAddress now i (fr_src f) 0 (br_table r))\<rparr> else r)"
  have r1: "bridge_learn now (fr_src f) i r = Inr r1" "isStpAware r1"
    using assms(2,4) by (simp_all add: bridge_learn_def r1_def)
  obtain bpdu where "(if bpdu then Inr (bridge_sendUp f r1)
            else if \<not> port_isForwarding d then Inr (drop_frame r1)
            else if in_range (registeredMacAddresses r1) (fr_dest f) then Inr (bridge_sendUp f r1)
            else if mac_isBroadcast (fr_dest f) then bridge_broadcast f i r1
            else forward_frame now f i r1) = Inr r'"
    using assms(1) unfolding bridge_handleAndDispatchFrame_def assms(3) option.case p(1) bindE_Inr r1(1) p(2)
    by (simp add: bindE_eq_Inr_iff r1(2) cong: if_cong) blast
  then show ?thesis using r1(1) by (auto simp: port_isForwarding_def split: if_splits)
qed

text \<open>
  C34. A bridge with a spanning tree sends a frame from the network only to ports other than the one it
  came in on, only to ports in the state FORWARDING, at most one copy to each, and only when that
  port itself is forwarding; a broadcast goes to all such ports. From a port that is neither
  learning nor forwarding no address is learned.
\<close>

theorem only_forwarding_ports:
  assumes "bridge_handleLowerPacket now f r = Inr r'" "isStpAware r" "fr_interfaceInd f = Some i"
    and "getPortInterfaceData i (br_ports r) = Inr d" "distinct (map sp_id (br_ports r))"
  shows "(\<exists>gs up. br_out r' = br_out r @ map ToNetwork gs @ map ToUpper up
      \<and> (\<forall>g \<in> set gs. same_frame g f \<and> (\<exists>q \<in> set (br_ports r). fr_interfaceReq g = Some (sp_id q) \<and> sp_id q \<noteq> i
            \<and> (\<exists>x. sp_data q = Some x \<and> pi_state x = FORWARDING)))
      \<and> distinct (map fr_interfaceReq gs)
      \<and> (gs \<noteq> [] \<longrightarrow> pi_state d = FORWARDING)
      \<and> (mac_isBroadcast (fr_dest f) \<and> up = [] \<and> pi_state d = FORWARDING
          \<longrightarrow> map fr_interfaceReq gs = map (Some \<circ> sp_id) (flooded_ports i r)))
    \<and> (\<forall>a e. pi_state d = DISCARDING \<and> entry_of (br_table r') 0 a = Some e \<longrightarrow> entry_of (br_table r) 0 a = Some e)"
proof -
  define f0 where "f0 = f\<lparr>fr_dispatchReq := None\<rparr>"
  define r0 where "r0 = r\<lparr>numReceivedNetworkFrames := numReceivedNetworkFrames r + 1\<rparr>"
  have f0: "fr_interfaceInd f0 = Some i" "fr_dest f0 = fr_dest f" "fr_src f0 = fr_src f" "same_frame f0 f"
    using assms(3) by (simp_all add: f0_def same_frame_def)
  have r0: "isStpAware r0" "getPortInterfaceData i (br_ports r0) = Inr d" "br_out r0 = br_out r" "br_ports r0 = br_ports r"
    "br_table r0 = br_table r" "flooded_ports i r0 = flooded_ports i r"
    using assms(2,4) by (simp_all add: r0_def flooded_ports_def open_port_def)
  have run: "bridge_handleAndDispatchFrame now f0 r0 = Inr r'"
    using assms(1) by (simp add: bridge_handleLowerPacket_def f0_def r0_def)
  obtain r1 where r1: "bridge_learn now (fr_src f0) i r0 = Inr r1"
    and rest: "r' = bridge_sendUp f0 r1 \<or> pi_state d \<noteq> FORWARDING \<and> r' = drop_frame r1
      \<or> pi_state d = FORWARDING \<and> mac_isBroadcast (fr_dest f0) \<and> bridge_broadcast f0 i r1 = Inr r'
      \<or> pi_state d = FORWARDING \<and> \<not> mac_isBroadcast (fr_dest f0) \<and> forward_frame now f0 i r1 = Inr r'"
    using frame_cases [OF run r0(1) f0(1) r0(2)] by blast
  note learned = learn_table [OF r1 r0(1,2)]
  have r1': "br_out r1 = br_out r" "br_ports r1 = br_ports r" "flooded_ports i r1 = flooded_ports i r" "open_port r1 = open_port r0"
    using learned r0 by (auto simp: flooded_ports_def open_port_def fun_eq_iff)
  have opened: "open_port r0 q \<Longrightarrow> \<exists>x. sp_data q = Some x \<and> pi_state x = FORWARDING" for q
    using r0(1) by (auto simp: open_port_def port_isForwarding_def split: option.splits)
  have sent: "\<exists>gs up. br_out r' = br_out r @ map ToNetwork gs @ map ToUpper up
      \<and> (\<forall>g \<in> set gs. same_frame g f \<and> (\<exists>q \<in> set (br_ports r). fr_interfaceReq g = Some (sp_id q) \<and> sp_id q \<noteq> i
            \<and> (\<exists>x. sp_data q = Some x \<and> pi_state x = FORWARDING)))
      \<and> distinct (map fr_interfaceReq gs) \<and> (gs \<noteq> [] \<longrightarrow> pi_state d = FORWARDING)
      \<and> (mac_isBroadcast (fr_dest f) \<and> up = [] \<and> pi_state d = FORWARDING
          \<longrightarrow> map fr_interfaceReq gs = map (Some \<circ> sp_id) (flooded_ports i r))"
    if ps: "relays_to ps f0 r1 r'" "\<forall>q \<in> set ps. q \<in> set (br_ports r) \<and> sp_id q \<noteq> i \<and> open_port r0 q" "distinct (map sp_id ps)"
      and d: "pi_state d = FORWARDING" "mac_isBroadcast (fr_dest f) \<longrightarrow> ps = flooded_ports i r" for ps
  proof -
    obtain gs where gs: "br_out r' = br_out r @ map ToNetwork gs" "map fr_interfaceReq gs = map (Some \<circ> sp_id) ps"
      "\<forall>g \<in> set gs. same_frame g f0" using ps(1) r1'(1) by (auto simp: relays_to_def)
    have "\<exists>q \<in> set ps. fr_interfaceReq g = Some (sp_id q)" if "g \<in> set gs" for g
      using arg_cong [OF gs(2), of set] that by auto
    moreover have "distinct (map fr_interfaceReq gs)" unfolding gs(2) using ps(3) by (simp add: distinct_map inj_on_def)
    ultimately show ?thesis using gs ps(2) d f0(4) opened
      by (intro exI [of _ gs] exI [of _ "[]"]) (fastforce simp: same_frame_def)
  qed
  have flooded: "\<forall>q \<in> set (flooded_ports i r). q \<in> set (br_ports r) \<and> sp_id q \<noteq> i \<and> open_port r0 q"
    "distinct (map sp_id (flooded_ports i r))"
    using assms(5) by (auto simp: flooded_ports_def open_port_def r0_def distinct_map inj_on_def)
  have table: "entry_of (br_table r1) 0 a = Some e \<Longrightarrow> entry_of (br_table r) 0 a = Some e" if "pi_state d = DISCARDING" for a e
    using that learned r0 by (simp add: port_isLearning_def)
  from rest consider "r' = bridge_sendUp f0 r1" | "pi_state d \<noteq> FORWARDING" "r' = drop_frame r1"
    | "pi_state d = FORWARDING" "mac_isBroadcast (fr_dest f0)" "bridge_broadcast f0 i r1 = Inr r'"
    | "pi_state d = FORWARDING" "\<not> mac_isBroadcast (fr_dest f0)" "forward_frame now f0 i r1 = Inr r'" by blast
  then show ?thesis
  proof cases
    case 1
    then show ?thesis using r1' table
      by (intro conjI exI [of _ "[]"] exI [of _ "[f0]"]) (simp_all add: bridge_sendUp_def)
  next
    case 2
    then show ?thesis using r1' table by (intro conjI exI [of _ "[]"]) (simp_all add: drop_frame_def)
  next
    case 3
    then show ?thesis using sent [of "flooded_ports i r"] flooded broadcast_relays [OF 3(3)] r1'(3) by simp
  next
    case 4
    note f = forward_relays [OF 4(3)]
    from f have "relays_to (flooded_ports i r) f0 r1 r' \<or> relays_to [] f0 r1 r'
        \<or> (\<exists>q \<in> set (br_ports r). sp_id q \<noteq> i \<and> open_port r0 q \<and> relays_to [q] f0 r1 r')"
      using r1' by auto
    then show ?thesis
    proof (elim disjE bexE)
      assume "relays_to (flooded_ports i r) f0 r1 r'"
      then show ?thesis using sent [of "flooded_ports i r"] flooded 4(1) by simp
    next
      assume "relays_to [] f0 r1 r'"
      then show ?thesis using sent [of "[]"] 4(1,2) f0(2) by simp
    next
      fix q assume "q \<in> set (br_ports r)" "sp_id q \<noteq> i \<and> open_port r0 q \<and> relays_to [q] f0 r1 r'"
      then show ?thesis using sent [of "[q]"] 4(1,2) f0(2) by simp
    qed
  qed
qed

definition example_bridge :: "nat bridge_relay" where
  "example_bridge =
     bridge_initialize True
       (map (\<lambda>(i, s). \<lparr>sp_id = i, sp_isLoopback = False, sp_isBroadcast = True, sp_macAddress = 16,
                      sp_data = Some (new_port_info\<lparr>pi_state := s\<rparr>)\<rparr>)
         [(101, FORWARDING), (102, DISCARDING), (103, FORWARDING), (104, LEARNING)])
       (new_mac_table (seconds 120))"

definition example_broadcast :: "nat eth_frame" where
  "example_broadcast =
     \<lparr>fr_dest = BROADCAST_MAC, fr_src = 4, fr_typeOrLength = 2048, fr_llc = None, fr_payload = 7,
      fr_interfaceInd = Some 101, fr_interfaceReq = None, fr_protocol = Some 1, fr_dispatchReq = None\<rparr>"

lemma only_forwarding_ports_witness:
  "\<exists>r' gs up. bridge_handleLowerPacket 0 example_broadcast example_bridge = Inr r'
    \<and> br_out r' = br_out example_bridge @ map ToNetwork gs @ map ToUpper up \<and> (up = [] \<longrightarrow> map fr_interfaceReq gs = [Some 103])"
proof -
  obtain r' where r': "bridge_handleLowerPacket 0 example_broadcast example_bridge = Inr r'"
  proof (cases "bridge_handleLowerPacket 0 example_broadcast example_bridge")
    case (Inl e)
    have "case bridge_handleLowerPacket 0 example_broadcast example_bridge of Inl e \<Rightarrow> False | Inr r \<Rightarrow> True" by code_simp
    then show thesis using Inl by simp
  qed
  have e: "isStpAware example_bridge" "fr_interfaceInd example_broadcast = Some 101" "mac_isBroadcast (fr_dest example_broadcast)"
    "getPortInterfaceData 101 (br_ports example_bridge) = Inr (new_port_info\<lparr>pi_state := FORWARDING\<rparr>)"
    "distinct (map sp_id (br_ports example_bridge))" "map sp_id (flooded_ports 101 example_bridge) = [103]"
    by code_simp+
  have f: "map (Some \<circ> sp_id) (flooded_ports 101 example_bridge) = [Some 103]"
    using arg_cong [OF e(6), of "map Some"] by simp
  have d: "pi_state (new_port_info\<lparr>pi_state := FORWARDING\<rparr>) = FORWARDING" by simp
  show ?thesis using only_forwarding_ports [OF r' e(1,2,4,5), THEN conjunct1] r' e(3) d unfolding f by (metis (no_types, lifting))
qed

text \<open>
  A frame from the layers above to an address that the bridge knows ends the simulation, when the
  sender did not choose the interface and the interface table has none with the number -1.
\<close>

lemma known_destination_from_above_fails:
  assumes "fr_interfaceReq f = None" "\<not> mac_isBroadcast (fr_dest f)"
    and "fst (getInterfaceIdForAddress now (fr_dest f) 0 (br_table r)) \<noteq> -1" "\<forall>p \<in> set (br_ports r). sp_id p \<noteq> -1"
  shows "\<exists>e. bridge_handleUpperPacket now f r = Inl e"
proof -
  obtain out t where look: "getInterfaceIdForAddress now (fr_dest f) 0 (br_table r) = (out, t)" by fastforce
  have "find (\<lambda>p. sp_id p = - 1) (br_ports r) = None" using assms(4) by (simp add: find_None_iff)
  then show ?thesis using assms(1,2,3) look
    by (simp add: bridge_handleUpperPacket_def Let_def port_by_id_def)
qed

end
