(* ===== verification/Stp.thy ===== *)
theory Stp
  imports Mac_Table
begin

text \<open>
  The spanning tree protocol of a bridge, \<open>linklayer/ieee8021d/stp/Stp.cc\<close> with its base class
  \<open>StpBase\<close>. The state of the ports is kept in the interface table, which the relay reads; the aging
  time of the address table is changed while the topology changes. \<open>Stp\<close> declares a field
  \<open>helloTime\<close> that hides the parameter of the same name in \<open>StpBase\<close>: \<open>par_helloTime\<close> here.
\<close>

section \<open>State\<close>

record bpdu_cfg =
  bc_tcaFlag :: bool
  bc_tcFlag :: bool
  bc_rootPriority :: u16
  bc_rootAddress :: mac_address
  bc_rootPathCost :: u32
  bc_bridgePriority :: u16
  bc_bridgeAddress :: mac_address
  bc_portPriority :: u32
  bc_portNum :: u32
  bc_messageAge :: simtime
  bc_maxAge :: simtime
  bc_helloTime :: simtime
  bc_forwardDelay :: simtime

datatype bpdu = Cfg bpdu_cfg | Tcn

text \<open>A BPDU with the interface and the addresses in its tags.\<close>

record stp_packet =
  bp_interface :: int
  bp_src :: mac_address
  bp_dest :: mac_address
  bp_bpdu :: bpdu

record stp =
  st_ports :: "switch_port list"
  st_table :: mac_table
  par_agingTime :: simtime
  bridgePriority :: u32
  bridgeAddress :: mac_address
  st_maxAge :: simtime
  par_helloTime :: simtime
  forwardDelay :: simtime
  isRoot :: bool
  rootInterfaceId :: int
  desPorts :: "int list"
  rootPathCost :: u32
  rootPriority :: u32
  rootAddress :: mac_address
  currentMaxAge :: simtime
  currentFwdDelay :: simtime
  currentHelloTime :: simtime
  st_helloTime :: simtime
  currentBridgePriority :: u32
  topologyChangeNotification :: bool
  topologyChangeRecvd :: bool
  tick :: timer
  st_out :: "stp_packet list"

definition port_ids :: "stp \<Rightarrow> int list" where
  "port_ids s = map sp_id (st_ports s)"

definition get_port :: "int \<Rightarrow> stp \<Rightarrow> port_info outcome" where
  "get_port i s = getPortInterfaceData i (st_ports s)"

definition set_port :: "int \<Rightarrow> (port_info \<Rightarrow> port_info) \<Rightarrow> stp \<Rightarrow> stp" where
  "set_port i f s = s\<lparr>st_ports := change_port i f (st_ports s)\<rparr>"

section \<open>Comparisons\<close>

text \<open>1 when the first is superior, -1 when the second is, 0 when they are the same.\<close>

definition compareBridgeIDs :: "u32 \<Rightarrow> mac_address \<Rightarrow> u32 \<Rightarrow> mac_address \<Rightarrow> int" where
  "compareBridgeIDs aPriority aAddress bPriority bAddress =
     (if aPriority < bPriority then 1 else if aPriority > bPriority then -1
      else if mac_compareTo aAddress bAddress = -1 then 1
      else if mac_compareTo aAddress bAddress = 1 then -1 else 0)"

definition comparePortIDs :: "u32 \<Rightarrow> u32 \<Rightarrow> u32 \<Rightarrow> u32 \<Rightarrow> int" where
  "comparePortIDs aPriority aNum bPriority bNum =
     (if aPriority < bPriority then 1 else if aPriority > bPriority then -1
      else if aNum < bNum then 1 else if aNum > bNum then -1 else 0)"

definition comparePorts :: "port_info \<Rightarrow> port_info \<Rightarrow> int" where
  "comparePorts a b =
     (let result = compareBridgeIDs (pi_rootPriority a) (pi_rootAddress a) (pi_rootPriority b) (pi_rootAddress b) in
      if result \<noteq> 0 then result
      else if pi_rootPathCost a < pi_rootPathCost b then 1
      else if pi_rootPathCost a > pi_rootPathCost b then -1
      else
        let result = compareBridgeIDs (pi_bridgePriority a) (pi_bridgeAddress a) (pi_bridgePriority b) (pi_bridgeAddress b) in
        if result \<noteq> 0 then result
        else
          let result = comparePortIDs (pi_portPriority a) (pi_portNum a) (pi_portPriority b) (pi_portNum b) in
          if result \<noteq> 0 then result else 0)"

section \<open>Sending\<close>

definition generateBPDU :: "int \<Rightarrow> mac_address \<Rightarrow> bool \<Rightarrow> bool \<Rightarrow> stp \<Rightarrow> stp outcome" where
  "generateBPDU i dest tcFlag tcaFlag s =
     bindE (get_port i s) (\<lambda>port.
     let tc = topologyChangeNotification s \<and> (isRoot s \<or> tcFlag);
         tca = topologyChangeNotification s \<and> \<not> (isRoot s \<or> tcFlag) \<and> tcaFlag
     in
     Inr (s\<lparr>st_out := st_out s @
       [\<lparr>bp_interface = i, bp_src = bridgeAddress s, bp_dest = dest,
         bp_bpdu = Cfg \<lparr>bc_tcaFlag = tca, bc_tcFlag = tc, bc_rootPriority = ucast (rootPriority s),
           bc_rootAddress = rootAddress s, bc_rootPathCost = rootPathCost s, bc_bridgePriority = ucast (bridgePriority s),
           bc_bridgeAddress = bridgeAddress s, bc_portPriority = pi_priority port, bc_portNum = of_int i,
           bc_messageAge = 0, bc_maxAge = currentMaxAge s, bc_helloTime = currentHelloTime s,
           bc_forwardDelay = currentFwdDelay s\<rparr>\<rparr>]\<rparr>))"

text \<open>The default arguments of the header.\<close>

definition generateBPDU' :: "int \<Rightarrow> stp \<Rightarrow> stp outcome" where
  "generateBPDU' i = generateBPDU i STP_MULTICAST_ADDRESS False False"

definition generateHelloBPDUs :: "stp \<Rightarrow> stp outcome" where
  "generateHelloBPDUs s = foldE generateBPDU' (port_ids s) s"

definition generateTCN :: "stp \<Rightarrow> stp outcome" where
  "generateTCN s =
     (if topologyChangeNotification s \<or> \<not> topologyChangeRecvd s then
        bindE (get_port (rootInterfaceId s) s) (\<lambda>port.
        if pi_role port = ROOT then
          Inr (s\<lparr>topologyChangeNotification := False,
                 st_out := st_out s @ [\<lparr>bp_interface = rootInterfaceId s, bp_src = bridgeAddress s,
                                        bp_dest = STP_MULTICAST_ADDRESS, bp_bpdu = Tcn\<rparr>]\<rparr>)
        else Inr s)
      else Inr s)"

section \<open>Port information\<close>

definition initInterfacedata :: "int \<Rightarrow> stp \<Rightarrow> stp outcome" where
  "initInterfacedata i s =
     bindE (get_port i s) (\<lambda>_.
     Inr (set_port i (\<lambda>p. p\<lparr>pi_role := NOTASSIGNED, pi_state := DISCARDING, pi_rootPriority := bridgePriority s,
       pi_rootAddress := bridgeAddress s, pi_rootPathCost := 0, pi_age := 0, pi_bridgePriority := bridgePriority s,
       pi_bridgeAddress := bridgeAddress s, pi_portPriority := -1, pi_portNum := -1, pi_lostBPDU := 0\<rparr>) s))"

definition initPortTable :: "stp \<Rightarrow> stp outcome" where
  "initPortTable s = foldE initInterfacedata (port_ids s) s"

definition bpdu_vector :: "bpdu_cfg \<Rightarrow> port_info \<Rightarrow> port_info \<Rightarrow> port_info" where
  "bpdu_vector b port x =
     x\<lparr>pi_rootPriority := ucast (bc_rootPriority b), pi_rootAddress := bc_rootAddress b,
       pi_rootPathCost := bc_rootPathCost b + pi_linkCost port, pi_bridgePriority := ucast (bc_bridgePriority b),
       pi_bridgeAddress := bc_bridgeAddress b, pi_portPriority := bc_portPriority b, pi_portNum := bc_portNum b\<rparr>"

definition setSuperiorBPDU :: "int \<Rightarrow> bpdu_cfg \<Rightarrow> stp \<Rightarrow> stp outcome" where
  "setSuperiorBPDU i b s =
     (if bc_messageAge b \<ge> bc_maxAge b then Inr s
      else
        bindE (get_port i s) (\<lambda>_.
        Inr (set_port i (\<lambda>p. (bpdu_vector b p p)\<lparr>pi_maxAge := bc_maxAge b, pi_fwdDelay := bc_forwardDelay b,
          pi_helloTime := bc_helloTime b, pi_age := 0\<rparr>) s)))"

definition isSuperiorBPDU :: "int \<Rightarrow> bpdu_cfg \<Rightarrow> stp \<Rightarrow> (bool \<times> stp) outcome" where
  "isSuperiorBPDU i b s =
     bindE (get_port i s) (\<lambda>port.
     let result = comparePorts port (bpdu_vector b port new_port_info) in
     if result > 0 then Inr (False, s)
     else
       bindE (setSuperiorBPDU i b
         (if result < 0 then set_port i (\<lambda>p. p\<lparr>pi_fdWhile := 0, pi_state := DISCARDING\<rparr>) s else s)) (\<lambda>s'.
       Inr (True, s')))"

section \<open>Roles\<close>

text \<open>\<open>getInterface(i)->getProtocolData\<close> for all ports.\<close>

definition all_ports :: "stp \<Rightarrow> (int \<times> port_info) list outcome" where
  "all_ports s = foldE (\<lambda>i xs. bindE (get_port i s) (\<lambda>p. Inr (xs @ [(i, p)]))) (port_ids s) []"

definition checkRootEligibility :: "stp \<Rightarrow> bool outcome" where
  "checkRootEligibility s =
     bindE (all_ports s) (\<lambda>ps.
     Inr (list_all (\<lambda>(i, p). \<not> compareBridgeIDs (pi_rootPriority p) (pi_rootAddress p) (bridgePriority s) (bridgeAddress s) > 0) ps))"

fun best_port :: "(int \<times> port_info) list \<Rightarrow> int \<times> port_info \<Rightarrow> int \<times> port_info" where
  "best_port [] best = best"
| "best_port ((i, p) # ps) best =
     (let result = comparePorts p (snd best) in
      best_port ps
        (if result > 0 then (i, p)
         else if result < 0 then best
         else if pi_priority p < pi_priority (snd best) then (i, p)
         else best))"

definition selectRootPort :: "stp \<Rightarrow> stp outcome" where
  "selectRootPort s =
     bindE (all_ports s) (\<lambda>ps.
     if ps = [] then Inl (RuntimeError ''getInterface(): interface index 0 out of range'')
     else
       let (x, best) = best_port ps (hd ps);
           s1 = fold (\<lambda>i. set_port i (\<lambda>p. p\<lparr>pi_role := NOTASSIGNED\<rparr>)) (port_ids s) (s\<lparr>desPorts := []\<rparr>);
           s2 = s1\<lparr>topologyChangeNotification := topologyChangeNotification s \<or> rootInterfaceId s \<noteq> x, rootInterfaceId := x\<rparr>
       in
       Inr ((set_port x (\<lambda>p. p\<lparr>pi_role := ROOT\<rparr>) s2)\<lparr>rootPathCost := pi_rootPathCost best, rootAddress := pi_rootAddress best,
         rootPriority := pi_rootPriority best, currentMaxAge := pi_maxAge best, currentFwdDelay := pi_fwdDelay best,
         currentHelloTime := pi_helloTime best\<rparr>))"

text \<open>The vector the bridge would send on a port, with the cost of the link added as in a received one.\<close>

definition bridgeGlobal :: "int \<Rightarrow> port_info \<Rightarrow> stp \<Rightarrow> port_info" where
  "bridgeGlobal i p s =
     new_port_info\<lparr>pi_bridgePriority := bridgePriority s, pi_bridgeAddress := bridgeAddress s, pi_rootAddress := rootAddress s,
       pi_rootPriority := rootPriority s, pi_portPriority := pi_priority p, pi_portNum := of_int i,
       pi_rootPathCost := rootPathCost s + pi_linkCost p\<rparr>"

definition select_designated :: "int \<Rightarrow> stp \<Rightarrow> stp outcome" where
  "select_designated i s =
     bindE (get_port i s) (\<lambda>p.
     if pi_role p = ROOT \<or> pi_role p = DISABLED then Inr s
     else
       let result = comparePorts (bridgeGlobal i p s) p in
       if result > 0 then Inr (set_port i (\<lambda>p. p\<lparr>pi_role := DESIGNATED\<rparr>) (s\<lparr>desPorts := desPorts s @ [i]\<rparr>))
       else if result < 0 then Inr (set_port i (\<lambda>p. p\<lparr>pi_role := ALTERNATE\<rparr>) s)
       else Inr s)"

definition selectDesignatedPorts :: "stp \<Rightarrow> stp outcome" where
  "selectDesignatedPorts s = foldE select_designated (port_ids s) (s\<lparr>desPorts := []\<rparr>)"

definition set_designated :: "int \<Rightarrow> stp \<Rightarrow> stp outcome" where
  "set_designated i s =
     bindE (get_port i s) (\<lambda>p.
     if pi_role p = DISABLED then Inr s
     else Inr ((set_port i (\<lambda>p. p\<lparr>pi_role := DESIGNATED\<rparr>) s)\<lparr>desPorts := desPorts s @ [i]\<rparr>))"

definition setAllDesignated :: "stp \<Rightarrow> stp outcome" where
  "setAllDesignated s = foldE set_designated (port_ids s) (s\<lparr>desPorts := []\<rparr>)"

definition tryRoot :: "stp \<Rightarrow> stp outcome" where
  "tryRoot s =
     bindE (checkRootEligibility s) (\<lambda>eligible.
     if eligible then
       bindE (setAllDesignated (s\<lparr>isRoot := True\<rparr>)) (\<lambda>s1.
       Inr (s1\<lparr>rootPriority := bridgePriority s1, rootAddress := bridgeAddress s1, rootPathCost := 0,
               currentHelloTime := st_helloTime s1, currentMaxAge := st_maxAge s1, currentFwdDelay := forwardDelay s1\<rparr>))
     else bindE (selectRootPort (s\<lparr>isRoot := False\<rparr>)) selectDesignatedPorts)"

definition lostRoot :: "stp \<Rightarrow> stp outcome" where
  "lostRoot s = tryRoot (s\<lparr>topologyChangeNotification := True\<rparr>)"

definition lostAlternate :: "stp \<Rightarrow> stp outcome" where
  "lostAlternate s = bindE (selectDesignatedPorts s) (\<lambda>s'. Inr (s'\<lparr>topologyChangeNotification := True\<rparr>))"

definition stp_reset :: "stp \<Rightarrow> stp outcome" where
  "stp_reset s =
     setAllDesignated (s\<lparr>isRoot := True, rootPriority := bridgePriority s, rootAddress := bridgeAddress s, rootPathCost := 0,
       currentHelloTime := st_helloTime s, currentMaxAge := st_maxAge s, currentFwdDelay := forwardDelay s\<rparr>)"

section \<open>Messages\<close>

definition handleBPDU :: "int \<Rightarrow> bpdu_cfg \<Rightarrow> stp \<Rightarrow> stp outcome" where
  "handleBPDU i b s =
     bindE (get_port i s) (\<lambda>_.
     let s1 = (if bc_tcaFlag b then s\<lparr>topologyChangeRecvd := True, topologyChangeNotification := False\<rparr> else s) in
     bindE (isSuperiorBPDU i b s1) (\<lambda>(superior, s2).
     bindE (get_port i s2) (\<lambda>port.
     bindE (if \<not> superior then (if pi_role port = DESIGNATED then generateBPDU' i s2 else Inr s2)
            else if pi_role port = ROOT then
              (if bc_tcFlag b then
                 foldE (\<lambda>j. generateBPDU j STP_MULTICAST_ADDRESS True False) (desPorts s2)
                   (s2\<lparr>st_table := setAgingTime (currentFwdDelay s2) (st_table s2)\<rparr>)
               else
                 foldE generateBPDU' (desPorts s2) (s2\<lparr>st_table := resetDefaultAging (par_agingTime s2) (st_table s2)\<rparr>))
            else Inr s2) tryRoot)))"

definition handleTCN :: "int \<Rightarrow> mac_address \<Rightarrow> mac_address \<Rightarrow> stp \<Rightarrow> stp outcome" where
  "handleTCN i src dest s =
     bindE (generateBPDU i src False True (s\<lparr>topologyChangeNotification := True\<rparr>)) (\<lambda>s1.
     Inr (if isRoot s1 then s1
          else s1\<lparr>st_out := st_out s1 @ [\<lparr>bp_interface = rootInterfaceId s1, bp_src = bridgeAddress s1, bp_dest = dest, bp_bpdu = Tcn\<rparr>]\<rparr>))"

section \<open>Timers\<close>

definition tickInterval :: simtime where "tickInterval = seconds 1"

definition tick_port :: "int \<Rightarrow> stp \<Rightarrow> stp outcome" where
  "tick_port i s =
     bindE (get_port i s) (\<lambda>port.
     if pi_role port = DISABLED then Inr s
     else
       let age = (\<lambda>p. if pi_role port \<noteq> DESIGNATED then p\<lparr>pi_age := pi_age p + tickInterval\<rparr> else p);
           fd = (\<lambda>p. if pi_role port = ROOT \<or> pi_role port = DESIGNATED then p\<lparr>pi_fdWhile := pi_fdWhile p + tickInterval\<rparr> else p)
       in Inr (set_port i (fd \<circ> age) s))"

definition check_age :: "int \<Rightarrow> stp \<Rightarrow> stp outcome" where
  "check_age i s =
     bindE (get_port i s) (\<lambda>port.
     if pi_age port \<ge> currentMaxAge s then
       if pi_role port = ROOT then bindE (initInterfacedata i s) lostRoot
       else bindE (initInterfacedata i s) lostAlternate
     else Inr s)"

definition forward_while :: "simtime \<Rightarrow> port_info \<Rightarrow> port_info" where
  "forward_while delay p =
     (if pi_role p = ROOT \<or> pi_role p = DESIGNATED then
        (if pi_fdWhile p \<ge> delay then
           (case pi_state p of
              DISCARDING \<Rightarrow> p\<lparr>pi_state := LEARNING, pi_fdWhile := 0\<rparr>
            | LEARNING \<Rightarrow> p\<lparr>pi_state := FORWARDING, pi_fdWhile := 0\<rparr>
            | FORWARDING \<Rightarrow> p\<lparr>pi_fdWhile := 0\<rparr>)
         else p)
      else p\<lparr>pi_fdWhile := 0, pi_state := DISCARDING\<rparr>)"

definition check_forward :: "int \<Rightarrow> stp \<Rightarrow> stp outcome" where
  "check_forward i s = bindE (get_port i s) (\<lambda>_. Inr (set_port i (forward_while (currentFwdDelay s)) s))"

definition check_hello :: "stp \<Rightarrow> stp outcome" where
  "check_hello s =
     (if st_helloTime s \<ge> currentHelloTime s then
        bindE (if isRoot s then generateHelloBPDUs s else Inr s) (\<lambda>s'. Inr (s'\<lparr>st_helloTime := 0\<rparr>))
      else Inr s)"

definition checkTimers :: "stp \<Rightarrow> stp outcome" where
  "checkTimers s =
     bindE (check_hello s) (\<lambda>s1.
     bindE (foldE check_age (port_ids s1) s1) (\<lambda>s2.
     foldE check_forward (port_ids s2) s2))"

definition checkParametersChange :: "stp \<Rightarrow> stp outcome" where
  "checkParametersChange s =
     (let s1 = (if isRoot s then
                  s\<lparr>currentHelloTime := st_helloTime s, currentMaxAge := st_maxAge s, currentFwdDelay := forwardDelay s\<rparr>
                else s)
      in if currentBridgePriority s1 \<noteq> bridgePriority s1
         then stp_reset (s1\<lparr>currentBridgePriority := bridgePriority s1\<rparr>)
         else Inr s1)"

definition handleTick :: "stp \<Rightarrow> stp outcome" where
  "handleTick s =
     bindE (foldE tick_port (port_ids s) (s\<lparr>st_helloTime := if isRoot s then st_helloTime s + seconds 1 else 0\<rparr>)) (\<lambda>s1.
     bindE (checkTimers s1) (\<lambda>s2.
     bindE (checkParametersChange s2) generateTCN))"

definition tick_expires :: "simtime \<Rightarrow> stp \<Rightarrow> stp outcome" where
  "tick_expires now s =
     bindE (handleTick (s\<lparr>tick := Idle\<rparr>)) (\<lambda>s1.
     bindE (schedule (tick s1) (now + seconds 1)) (\<lambda>t. Inr (s1\<lparr>tick := t\<rparr>)))"

definition stp_start :: "simtime \<Rightarrow> stp \<Rightarrow> stp outcome" where
  "stp_start now s =
     (case chooseInterface (st_ports s) of
        None \<Rightarrow> Inl (RuntimeError ''No non-loopback interface found!'')
      | Some p \<Rightarrow>
          bindE (initPortTable (s\<lparr>bridgeAddress := sp_macAddress p\<rparr>)) (\<lambda>s1.
          bindE (setAllDesignated (s1\<lparr>currentBridgePriority := bridgePriority s1, isRoot := True,
              topologyChangeNotification := True, topologyChangeRecvd := True, rootPriority := bridgePriority s1,
              rootAddress := bridgeAddress s1, rootPathCost := 0, rootInterfaceId := hd (port_ids s1),
              currentHelloTime := st_helloTime s1, currentMaxAge := st_maxAge s1, currentFwdDelay := forwardDelay s1,
              st_helloTime := 0\<rparr>)) (\<lambda>s2.
          bindE (schedule (tick s2) (now + tickInterval)) (\<lambda>t. Inr (s2\<lparr>tick := t\<rparr>)))))"

definition stp_stop :: "stp \<Rightarrow> stp" where
  "stp_stop s = s\<lparr>isRoot := False, topologyChangeNotification := True, tick := cancelIfThere (tick s)\<rparr>"

definition getRootInterfaceId :: "stp \<Rightarrow> int outcome" where
  "getRootInterfaceId s =
     bindE (all_ports s) (\<lambda>ps. Inr (case find (\<lambda>(i, p). pi_role p = ROOT) ps of None \<Rightarrow> -1 | Some (i, p) \<Rightarrow> i))"

definition new_stp :: "u32 \<Rightarrow> simtime \<Rightarrow> simtime \<Rightarrow> simtime \<Rightarrow> simtime \<Rightarrow> switch_port list \<Rightarrow> stp" where
  "new_stp priority maxAge hello delay aging ports =
     \<lparr>st_ports = ports, st_table = new_mac_table aging, par_agingTime = aging, bridgePriority = priority, bridgeAddress = 0,
      st_maxAge = maxAge, par_helloTime = hello, forwardDelay = delay, isRoot = False, rootInterfaceId = 0, desPorts = [],
      rootPathCost = 0, rootPriority = 0, rootAddress = 0, currentMaxAge = 0, currentFwdDelay = 0, currentHelloTime = 0,
      st_helloTime = 0, currentBridgePriority = 0, topologyChangeNotification = False, topologyChangeRecvd = False,
      tick = Idle, st_out = []\<rparr>"

end
