(* ===== verification/Stp_Laws.thy ===== *)
theory Stp_Laws
  imports Stp "HOL-Library.Product_Lexorder"
begin

text \<open>
  What the spanning tree protocol computes at a bridge: the comparisons are a lexicographic order, and
  the election picks the least vector and gives every port its role.
\<close>

section \<open>The order of the vectors\<close>

definition root_id :: "port_info \<Rightarrow> u32 \<times> mac_address" where
  "root_id p = (pi_rootPriority p, pi_rootAddress p)"

definition port_vector :: "port_info \<Rightarrow> (u32 \<times> mac_address) \<times> u32 \<times> (u32 \<times> mac_address) \<times> u32 \<times> u32" where
  "port_vector p = (root_id p, pi_rootPathCost p, (pi_bridgePriority p, pi_bridgeAddress p), pi_portPriority p, pi_portNum p)"

definition three_way :: "'a::linorder \<Rightarrow> 'a \<Rightarrow> int" where
  "three_way x y = (if x < y then 1 else if y < x then -1 else 0)"

lemma three_way_order:
  "three_way x y > 0 \<longleftrightarrow> x < y" "three_way x y < 0 \<longleftrightarrow> y < x" "three_way x y = 0 \<longleftrightarrow> x = y"
  by (auto simp: three_way_def)

lemma three_way_pair: "(if three_way x y \<noteq> 0 then three_way x y else three_way u v) = three_way (x, u) (y, v)"
  by (auto simp: three_way_def)

lemma compareBridgeIDs_three_way: "compareBridgeIDs p a q b = three_way (p, a) (q, b)"
  by (auto simp: compareBridgeIDs_def mac_compareTo_def three_way_def)

lemma comparePortIDs_three_way: "comparePortIDs p n q m = three_way (p, n) (q, m)"
  by (auto simp: comparePortIDs_def three_way_def)

lemma comparePorts_three_way: "comparePorts a b = three_way (port_vector a) (port_vector b)"
proof -
  have cost: "(if c < d then 1 else if d < c then -1 else r) = (if three_way c d \<noteq> 0 then three_way c d else r)"
    for c d :: u32 and r :: int by (simp add: three_way_def)
  have same: "(if three_way x y \<noteq> 0 then three_way x y else 0) = three_way x y" for x y :: "u32 \<times> u32" by simp
  show ?thesis
    unfolding comparePorts_def Let_def compareBridgeIDs_three_way comparePortIDs_three_way cost same three_way_pair
      port_vector_def root_id_def ..
qed

lemmas comparePorts_order = three_way_order [of "port_vector a" "port_vector b" for a b, folded comparePorts_three_way]
lemma compareBridgeIDs_order:
  "compareBridgeIDs p a q b > 0 \<longleftrightarrow> (p, a) < (q, b)" "compareBridgeIDs p a q b < 0 \<longleftrightarrow> (q, b) < (p, a)"
  "compareBridgeIDs p a q b = 0 \<longleftrightarrow> (p, a) = (q, b)"
  by (simp_all only: compareBridgeIDs_three_way three_way_order)

section \<open>Ports by number\<close>

definition info :: "stp \<Rightarrow> int \<Rightarrow> port_info option" where
  "info s i = Option.bind (find (\<lambda>p. sp_id p = i) (st_ports s)) sp_data"

definition ports_there :: "stp \<Rightarrow> bool" where
  "ports_there s \<longleftrightarrow> distinct (port_ids s) \<and> port_ids s \<noteq> [] \<and> (\<forall>i \<in> set (port_ids s). info s i \<noteq> None)"

text \<open>Everything but the ports, the list of designated ports and the output.\<close>

definition core :: "stp \<Rightarrow> stp" where
  "core s = s\<lparr>st_ports := [], desPorts := [], st_out := []\<rparr>"

lemma core_fields:
  assumes "core s' = core s"
  shows "st_table s' = st_table s" "par_agingTime s' = par_agingTime s" "bridgePriority s' = bridgePriority s"
    "bridgeAddress s' = bridgeAddress s" "st_maxAge s' = st_maxAge s" "forwardDelay s' = forwardDelay s"
    "isRoot s' = isRoot s" "rootInterfaceId s' = rootInterfaceId s" "rootPathCost s' = rootPathCost s"
    "rootPriority s' = rootPriority s" "rootAddress s' = rootAddress s" "currentMaxAge s' = currentMaxAge s"
    "currentFwdDelay s' = currentFwdDelay s" "currentHelloTime s' = currentHelloTime s" "st_helloTime s' = st_helloTime s"
    "currentBridgePriority s' = currentBridgePriority s" "topologyChangeNotification s' = topologyChangeNotification s"
    "topologyChangeRecvd s' = topologyChangeRecvd s" "tick s' = tick s"
  using assms by (cases s; cases s'; simp add: core_def)+

lemma get_port_eq: "get_port i s = Inr p \<longleftrightarrow> info s i = Some p"
  by (auto simp: get_port_def getPortInterfaceData_def port_by_id_def info_def outcome_simps split: option.splits)

lemma get_port_info: "info s i = Some p \<Longrightarrow> get_port i s = Inr p"
  by (simp add: get_port_eq)

lemma info_outside: "i \<notin> set (port_ids s) \<Longrightarrow> info s i = None"
proof -
  assume "i \<notin> set (port_ids s)"
  then have "find (\<lambda>p. sp_id p = i) (st_ports s) = None" by (auto simp: port_ids_def find_None_iff)
  then show ?thesis by (simp add: info_def)
qed

lemma ids_set_port [simp]: "port_ids (set_port i f s) = port_ids s"
  by (simp add: port_ids_def set_port_def change_port_def comp_def if_distrib cong: if_cong)

lemma core_set_port [simp]: "core (set_port i f s) = core s" "desPorts (set_port i f s) = desPorts s" "st_out (set_port i f s) = st_out s"
  by (simp_all add: core_def set_port_def)

lemma info_set_port [simp]: "info (set_port i f s) j = (if j = i then map_option f (info s j) else info s j)"
proof -
  have "find (\<lambda>p. sp_id p = j) (change_port i f ps)
      = map_option (\<lambda>p. if sp_id p = i then p\<lparr>sp_data := map_option f (sp_data p)\<rparr> else p) (find (\<lambda>p. sp_id p = j) ps)" for ps
    by (induction ps) (auto simp: change_port_def)
  moreover have "find (\<lambda>p. sp_id p = j) ps = Some p \<Longrightarrow> sp_id p = j" for ps p
    by (induction ps) (auto split: if_splits)
  ultimately show ?thesis by (cases "find (\<lambda>p. sp_id p = j) (st_ports s)") (auto simp: info_def set_port_def)
qed

lemma info_other_fields [simp]:
  "info (s\<lparr>desPorts := d\<rparr>) = info s" "info (s\<lparr>isRoot := b\<rparr>) = info s" "info (s\<lparr>st_out := out\<rparr>) = info s"
  "port_ids (s\<lparr>desPorts := d\<rparr>) = port_ids s" "port_ids (s\<lparr>isRoot := b\<rparr>) = port_ids s" "port_ids (s\<lparr>st_out := out\<rparr>) = port_ids s"
  by (simp_all add: info_def port_ids_def fun_eq_iff)

section \<open>Loops over the ports\<close>

text \<open>
  An operation that changes only the data of its own port and may append the port to \<open>desPorts\<close>, as a
  function of the port's data; \<open>k\<close> is the state it looks at besides.
\<close>

definition port_op :: "stp \<Rightarrow> (int \<Rightarrow> stp \<Rightarrow> stp outcome) \<Rightarrow> (int \<Rightarrow> port_info \<Rightarrow> port_info) \<Rightarrow> (int \<Rightarrow> port_info \<Rightarrow> bool) \<Rightarrow> bool" where
  "port_op k f u d \<longleftrightarrow> (\<forall>i s p. core s = core k \<longrightarrow> info s i = Some p \<longrightarrow>
     (\<exists>s'. f i s = Inr s' \<and> core s' = core k \<and> port_ids s' = port_ids s \<and> info s' = (info s)(i \<mapsto> u i p) \<and> st_out s' = st_out s
        \<and> desPorts s' = desPorts s @ (if d i p then [i] else [])))"

lemma port_loop:
  assumes "port_op k f u d" "distinct is" "core s = core k" "\<forall>i \<in> set is. info s i \<noteq> None"
  shows "\<exists>s'. foldE f is s = Inr s' \<and> core s' = core k \<and> port_ids s' = port_ids s \<and> st_out s' = st_out s
    \<and> (\<forall>j. info s' j = (if j \<in> set is then map_option (u j) (info s j) else info s j))
    \<and> desPorts s' = desPorts s @ filter (\<lambda>i. d i (the (info s i))) is"
  using assms(2-4)
proof (induction "is" arbitrary: s)
  case (Cons i "is")
  obtain p where p: "info s i = Some p" using Cons.prems(3) by auto
  then obtain s1 where s1: "f i s = Inr s1" "core s1 = core k" "port_ids s1 = port_ids s" "info s1 = (info s)(i \<mapsto> u i p)"
    "st_out s1 = st_out s" "desPorts s1 = desPorts s @ (if d i p then [i] else [])"
    using assms(1) Cons.prems(2) unfolding port_op_def by blast
  have "\<forall>j \<in> set is. info s1 j = info s j" using s1(4) Cons.prems(1) by auto
  then obtain s' where s': "foldE f is s1 = Inr s'" "core s' = core k" "port_ids s' = port_ids s1" "st_out s' = st_out s1"
    "\<And>j. info s' j = (if j \<in> set is then map_option (u j) (info s1 j) else info s1 j)"
    "desPorts s' = desPorts s1 @ filter (\<lambda>i. d i (the (info s1 i))) is"
    using Cons.IH [of s1] Cons.prems s1(2) by auto
  have "filter (\<lambda>i. d i (the (info s1 i))) is = filter (\<lambda>i. d i (the (info s i))) is"
    by (rule filter_cong) (use s1(4) Cons.prems(1) in auto)
  then show ?case using s' s1 p Cons.prems(1) by (intro exI [of _ s']) auto
qed simp

definition designated :: "stp \<Rightarrow> int \<Rightarrow> port_info \<Rightarrow> bool" where
  "designated s i p \<longleftrightarrow> pi_role p \<noteq> ROOT \<and> pi_role p \<noteq> DISABLED \<and> port_vector (bridgeGlobal i p s) < port_vector p"

definition alternate :: "stp \<Rightarrow> int \<Rightarrow> port_info \<Rightarrow> bool" where
  "alternate s i p \<longleftrightarrow> pi_role p \<noteq> ROOT \<and> pi_role p \<noteq> DISABLED \<and> port_vector p < port_vector (bridgeGlobal i p s)"

definition with_role :: "stp \<Rightarrow> int \<Rightarrow> port_info \<Rightarrow> port_info" where
  "with_role s i p = (if designated s i p then p\<lparr>pi_role := DESIGNATED\<rparr> else if alternate s i p then p\<lparr>pi_role := ALTERNATE\<rparr> else p)"

lemma bridgeGlobal_core: "core s = core k \<Longrightarrow> bridgeGlobal i p s = bridgeGlobal i p k"
  by (simp add: bridgeGlobal_def core_fields [of s k])

lemma core_desPorts [simp]: "core (s\<lparr>desPorts := d\<rparr>) = core s" "st_out (s\<lparr>desPorts := d\<rparr>) = st_out s"
  by (simp_all add: core_def)

lemma select_designated_op: "port_op k select_designated (with_role k) (designated k)"
  unfolding port_op_def
proof (intro allI impI)
  fix i s p assume s: "core s = core k" "info s i = Some p"
  let ?c = "comparePorts (bridgeGlobal i p k) p" and ?fixed = "pi_role p = ROOT \<or> pi_role p = DISABLED"
  have f: "(info s)(i \<mapsto> g p) = info (set_port i g s)" for g using s(2) by (auto simp: fun_eq_iff)
  have run: "select_designated i s = (if ?fixed then Inr s
      else if ?c > 0 then Inr (set_port i (\<lambda>p. p\<lparr>pi_role := DESIGNATED\<rparr>) (s\<lparr>desPorts := desPorts s @ [i]\<rparr>))
      else if ?c < 0 then Inr (set_port i (\<lambda>p. p\<lparr>pi_role := ALTERNATE\<rparr>) s) else Inr s)"
    by (simp only: select_designated_def get_port_info [OF s(2)] bindE_Inr bridgeGlobal_core [OF s(1)] Let_def)
  have roles: "designated k i p \<longleftrightarrow> \<not> ?fixed \<and> ?c > 0" "alternate k i p \<longleftrightarrow> \<not> ?fixed \<and> ?c < 0"
    by (auto simp: designated_def alternate_def comparePorts_order)
  consider "?fixed \<or> ?c = 0" | "\<not> ?fixed" "?c > 0" | "\<not> ?fixed" "?c < 0" by linarith
  then show "\<exists>s'. select_designated i s = Inr s' \<and> core s' = core k \<and> port_ids s' = port_ids s \<and> info s' = (info s)(i \<mapsto> with_role k i p)
      \<and> st_out s' = st_out s \<and> desPorts s' = desPorts s @ (if designated k i p then [i] else [])"
  proof cases
    case 1
    then show ?thesis using s by (intro exI [of _ s]) (auto simp: run roles with_role_def fun_eq_iff)
  next
    case 2
    then show ?thesis using s
      by (intro exI [of _ "set_port i (\<lambda>p. p\<lparr>pi_role := DESIGNATED\<rparr>) (s\<lparr>desPorts := desPorts s @ [i]\<rparr>)"])
        (simp add: run roles with_role_def fun_eq_iff)
  next
    case 3
    then show ?thesis using s
      by (intro exI [of _ "set_port i (\<lambda>p. p\<lparr>pi_role := ALTERNATE\<rparr>) s"]) (simp add: run roles with_role_def fun_eq_iff)
  qed
qed

lemma set_designated_op:
  "port_op k set_designated (\<lambda>i p. if pi_role p = DISABLED then p else p\<lparr>pi_role := DESIGNATED\<rparr>) (\<lambda>i p. pi_role p \<noteq> DISABLED)"
  unfolding port_op_def
proof (intro allI impI)
  fix i s p assume s: "core s = core k" "info s i = Some p"
  define s' where "s' = (if pi_role p = DISABLED then s
    else (set_port i (\<lambda>p. p\<lparr>pi_role := DESIGNATED\<rparr>) s)\<lparr>desPorts := desPorts s @ [i]\<rparr>)"
  have "set_designated i s = Inr s'" by (simp add: set_designated_def get_port_info [OF s(2)] s'_def)
  moreover have "core s' = core k" "port_ids s' = port_ids s" "st_out s' = st_out s"
    "info s' = (info s)(i \<mapsto> if pi_role p = DISABLED then p else p\<lparr>pi_role := DESIGNATED\<rparr>)"
    "desPorts s' = desPorts s @ (if pi_role p \<noteq> DISABLED then [i] else [])"
    using s by (auto simp: s'_def fun_eq_iff)
  ultimately show "\<exists>s'. set_designated i s = Inr s' \<and> core s' = core k \<and> port_ids s' = port_ids s
      \<and> info s' = (info s)(i \<mapsto> if pi_role p = DISABLED then p else p\<lparr>pi_role := DESIGNATED\<rparr>)
      \<and> st_out s' = st_out s \<and> desPorts s' = desPorts s @ (if pi_role p \<noteq> DISABLED then [i] else [])" by blast
qed

section \<open>The election\<close>

lemma all_ports_there:
  assumes "\<forall>i \<in> set (port_ids s). info s i \<noteq> None"
  shows "all_ports s = Inr (map (\<lambda>i. (i, the (info s i))) (port_ids s))"
proof -
  have "foldE (\<lambda>i xs. bindE (get_port i s) (\<lambda>p. Inr (xs @ [(i, p)]))) is xs = Inr (xs @ map (\<lambda>i. (i, the (info s i))) is)"
    if "\<forall>i \<in> set is. info s i \<noteq> None" for "is" xs
    using that by (induction "is" arbitrary: xs) (auto simp: get_port_info)
  then show ?thesis using assms by (simp add: all_ports_def)
qed

lemma best_port_least:
  "best_port ps b \<in> insert b (set ps) \<and> (\<forall>x \<in> insert b (set ps). port_vector (snd (best_port ps b)) \<le> port_vector (snd x))"
proof (induction ps b rule: best_port.induct)
  case (2 i p ps best)
  let ?c = "comparePorts p (snd best)"
  let ?b = "if ?c > 0 then (i, p) else if ?c < 0 then best else if pi_priority p < pi_priority (snd best) then (i, p) else best"
  have b: "port_vector (snd ?b) \<le> port_vector p" "port_vector (snd ?b) \<le> port_vector (snd best)" "?b \<in> {(i, p), best}"
    using comparePorts_order [of p "snd best"] by auto
  define r where "r = best_port ps ?b"
  have r: "r \<in> insert ?b (set ps)" "\<forall>x \<in> insert ?b (set ps). port_vector (snd r) \<le> port_vector (snd x)"
    using "2.IH" [OF refl] unfolding r_def by blast+
  have "port_vector (snd r) \<le> port_vector (snd ?b)" using r(2) by blast
  then have "port_vector (snd r) \<le> port_vector (snd x)" if "x \<in> insert best (set ((i, p) # ps))" for x
    using that b(1,2) r(2) by (auto intro: order_trans)
  moreover have "r \<in> insert best (set ((i, p) # ps))" using r(1) b(3) by auto
  ultimately show ?case unfolding best_port.simps Let_def r_def by blast
qed simp

lemma fold_set_port:
  assumes "distinct is"
  shows "info (fold (\<lambda>i. set_port i f) is s) j = (if j \<in> set is then map_option f (info s j) else info s j)"
    "core (fold (\<lambda>i. set_port i f) is s) = core s" "port_ids (fold (\<lambda>i. set_port i f) is s) = port_ids s"
    "st_out (fold (\<lambda>i. set_port i f) is s) = st_out s"
  using assms by (induction "is" arbitrary: s) auto

definition own_id :: "stp \<Rightarrow> u32 \<times> mac_address" where
  "own_id s = (bridgePriority s, bridgeAddress s)"

definition knows_root :: "stp \<Rightarrow> u32 \<times> mac_address" where
  "knows_root s = (rootPriority s, rootAddress s)"

lemma compareBridgeIDs_le: "compareBridgeIDs p a q b \<le> 0 \<longleftrightarrow> (q, b) \<le> (p, a)"
  by (simp only: linorder_not_less [symmetric] compareBridgeIDs_order(1))

lemma eligible_iff:
  assumes "\<forall>i \<in> set (port_ids s). info s i \<noteq> None"
  shows "checkRootEligibility s = Inr (\<forall>i \<in> set (port_ids s). own_id s \<le> root_id (the (info s i)))"
  unfolding checkRootEligibility_def all_ports_there [OF assms] own_id_def root_id_def
  by (simp only: bindE_Inr compareBridgeIDs_le list_all_iff set_map ball_simps case_prod_conv not_less)

definition elects_itself :: "stp \<Rightarrow> stp \<Rightarrow> bool" where
  "elects_itself s s' \<longleftrightarrow> isRoot s' \<and> knows_root s' = own_id s \<and> rootPathCost s' = 0
     \<and> (\<forall>i. info s' i = map_option (\<lambda>p. if pi_role p = DISABLED then p else p\<lparr>pi_role := DESIGNATED\<rparr>) (info s i))"

definition elects_port :: "int \<Rightarrow> port_info \<Rightarrow> stp \<Rightarrow> stp \<Rightarrow> bool" where
  "elects_port x best s s' \<longleftrightarrow> \<not> isRoot s' \<and> rootInterfaceId s' = x \<and> knows_root s' = root_id best
     \<and> rootPathCost s' = pi_rootPathCost best
     \<and> (\<forall>i p. info s i = Some p \<longrightarrow> (\<exists>r. info s' i = Some (p\<lparr>pi_role := r\<rparr>) \<and> (r = ROOT \<longleftrightarrow> i = x)
          \<and> (i \<noteq> x \<longrightarrow> (r = DESIGNATED \<longleftrightarrow> port_vector (bridgeGlobal i p s') < port_vector p)
                     \<and> (r = ALTERNATE \<longleftrightarrow> port_vector p < port_vector (bridgeGlobal i p s')))))"

text \<open>What an election leaves alone.\<close>

definition same_bridge :: "stp \<Rightarrow> stp \<Rightarrow> bool" where
  "same_bridge s s' \<longleftrightarrow> port_ids s' = port_ids s \<and> bridgePriority s' = bridgePriority s \<and> bridgeAddress s' = bridgeAddress s
     \<and> st_maxAge s' = st_maxAge s \<and> forwardDelay s' = forwardDelay s \<and> currentBridgePriority s' = currentBridgePriority s
     \<and> topologyChangeRecvd s' = topologyChangeRecvd s"

lemma same_bridge_refl [simp]: "same_bridge s s"
  by (simp add: same_bridge_def)

lemma same_bridge_trans: "same_bridge s t \<Longrightarrow> same_bridge t u \<Longrightarrow> same_bridge s u"
  by (simp add: same_bridge_def)

definition role_list :: "stp \<Rightarrow> bool" where
  "role_list s \<longleftrightarrow> desPorts s = filter (\<lambda>i. pi_role (the (info s i)) = DESIGNATED) (port_ids s)"

lemma setAllDesignated_run:
  assumes "ports_there s"
  shows "\<exists>s'. setAllDesignated s = Inr s' \<and> core s' = core s \<and> port_ids s' = port_ids s \<and> st_out s' = st_out s
    \<and> (\<forall>i. info s' i = map_option (\<lambda>p. if pi_role p = DISABLED then p else p\<lparr>pi_role := DESIGNATED\<rparr>) (info s i))
    \<and> role_list s'"
proof -
  let ?u = "\<lambda>p::port_info. if pi_role p = DISABLED then p else p\<lparr>pi_role := DESIGNATED\<rparr>"
  have there: "distinct (port_ids s)" "\<forall>i \<in> set (port_ids s). info (s\<lparr>desPorts := []\<rparr>) i \<noteq> None"
    "core (s\<lparr>desPorts := []\<rparr>) = core s"
    using assms by (auto simp: ports_there_def)
  obtain s' where s': "setAllDesignated s = Inr s'" "core s' = core s" "port_ids s' = port_ids s" "st_out s' = st_out s"
    "\<And>j. info s' j = (if j \<in> set (port_ids s) then map_option ?u (info s j) else info s j)"
    "desPorts s' = filter (\<lambda>i. pi_role (the (info s i)) \<noteq> DISABLED) (port_ids s)"
    using port_loop [OF set_designated_op there(1,3,2)] unfolding setAllDesignated_def by auto
  have out: "info s j = None" if "j \<notin> set (port_ids s)" for j
    using that by (rule info_outside)
  have all: "info s' j = map_option ?u (info s j)" for j using s'(5) out by simp
  have "role_list s'" unfolding role_list_def s'(3,6)
    by (rule filter_cong) (use assms all in \<open>auto simp: ports_there_def\<close>)
  then show ?thesis using s'(1-4) all by blast
qed

lemma selectDesignatedPorts_run:
  assumes "ports_there s"
  shows "\<exists>s'. selectDesignatedPorts s = Inr s' \<and> core s' = core s \<and> port_ids s' = port_ids s \<and> st_out s' = st_out s
    \<and> (\<forall>i. info s' i = map_option (with_role s i) (info s i))
    \<and> desPorts s' = filter (\<lambda>i. designated s i (the (info s i))) (port_ids s)"
proof -
  have there: "distinct (port_ids s)" "\<forall>i \<in> set (port_ids s). info (s\<lparr>desPorts := []\<rparr>) i \<noteq> None"
    "core (s\<lparr>desPorts := []\<rparr>) = core s"
    using assms by (auto simp: ports_there_def)
  have out: "info s j = None" if "j \<notin> set (port_ids s)" for j
    using that by (rule info_outside)
  show ?thesis using port_loop [OF select_designated_op there(1,3,2)] out
    unfolding selectDesignatedPorts_def by fastforce
qed

lemma core_update:
  "core s' = core s \<Longrightarrow> core (s'\<lparr>topologyChangeNotification := b\<rparr>) = core (s\<lparr>topologyChangeNotification := b\<rparr>)"
  by (cases s; cases s'; simp add: core_def)

lemma ports_there_cong: "port_ids s' = port_ids s \<Longrightarrow> (\<And>i. info s' i = None \<longleftrightarrow> info s i = None) \<Longrightarrow> ports_there s' = ports_there s"
  by (simp add: ports_there_def)

lemma same_bridge_core: "core s' = core s \<Longrightarrow> port_ids s' = port_ids s \<Longrightarrow> same_bridge s s'"
  by (simp add: same_bridge_def core_fields [of s' s])

lemma tryRoot_itself:
  assumes "ports_there s" "\<forall>i \<in> set (port_ids s). own_id s \<le> root_id (the (info s i))"
  shows "\<exists>s'. tryRoot s = Inr s' \<and> elects_itself s s' \<and> same_bridge s s' \<and> st_out s' = st_out s \<and> role_list s'
    \<and> currentMaxAge s' = st_maxAge s \<and> currentFwdDelay s' = forwardDelay s
    \<and> topologyChangeNotification s' = topologyChangeNotification s \<and> rootInterfaceId s' = rootInterfaceId s"
proof -
  have e: "checkRootEligibility s = Inr True" using eligible_iff [of s] assms by (simp add: ports_there_def)
  have "ports_there (s\<lparr>isRoot := True\<rparr>)" using assms(1) by (simp add: ports_there_def)
  from setAllDesignated_run [OF this] obtain s1 where s1: "setAllDesignated (s\<lparr>isRoot := True\<rparr>) = Inr s1"
    "core s1 = core (s\<lparr>isRoot := True\<rparr>)" "port_ids s1 = port_ids s" "st_out s1 = st_out s" "role_list s1"
    "\<And>i. info s1 i = map_option (\<lambda>p. if pi_role p = DISABLED then p else p\<lparr>pi_role := DESIGNATED\<rparr>) (info s i)"
    by auto
  note f = core_fields [OF s1(2)]
  define s' where "s' = s1\<lparr>rootPriority := bridgePriority s1, rootAddress := bridgeAddress s1, rootPathCost := 0,
    currentHelloTime := st_helloTime s1, currentMaxAge := st_maxAge s1, currentFwdDelay := forwardDelay s1\<rparr>"
  have i: "info s' = info s1" "port_ids s' = port_ids s1" "desPorts s' = desPorts s1"
    by (simp_all add: s'_def info_def port_ids_def fun_eq_iff)
  have "tryRoot s = Inr s'" by (simp add: tryRoot_def e s1(1) s'_def)
  moreover have "elects_itself s s'" using f s1(6) unfolding elects_itself_def i by (simp add: s'_def knows_root_def own_id_def)
  moreover have "same_bridge s s'" using f s1(3) by (simp add: same_bridge_def i(2)) (simp add: s'_def)
  moreover have "role_list s'" using s1(5) by (simp add: role_list_def i)
  ultimately show ?thesis using f s1(4) by (intro exI [of _ s']) (simp add: s'_def)
qed

lemma role_irrelevant [simp]:
  "port_vector (p\<lparr>pi_role := r\<rparr>) = port_vector p" "root_id (p\<lparr>pi_role := r\<rparr>) = root_id p"
  "bridgeGlobal i (p\<lparr>pi_role := r\<rparr>) s = bridgeGlobal i p s"
  by (simp_all add: port_vector_def root_id_def bridgeGlobal_def)

lemma selectRootPort_run:
  assumes "ports_there s"
  shows "\<exists>s' x best. selectRootPort s = Inr s' \<and> info s x = Some best \<and> x \<in> set (port_ids s)
    \<and> (\<forall>i p. info s i = Some p \<longrightarrow> port_vector best \<le> port_vector p)
    \<and> (\<forall>i. info s' i = map_option (\<lambda>p. p\<lparr>pi_role := if i = x then ROOT else NOTASSIGNED\<rparr>) (info s i))
    \<and> same_bridge s s' \<and> st_out s' = st_out s \<and> isRoot s' = isRoot s \<and> rootInterfaceId s' = x
    \<and> knows_root s' = root_id best \<and> rootPathCost s' = pi_rootPathCost best
    \<and> currentMaxAge s' = pi_maxAge best \<and> currentFwdDelay s' = pi_fwdDelay best"
proof -
  have there: "distinct (port_ids s)" "port_ids s \<noteq> []" "\<forall>i \<in> set (port_ids s). info s i \<noteq> None"
    using assms by (auto simp: ports_there_def)
  let ?ps = "map (\<lambda>i. (i, the (info s i))) (port_ids s)"
  obtain x best where xb: "best_port ?ps (hd ?ps) = (x, best)" by fastforce
  have hd: "hd ?ps \<in> set ?ps" by (rule hd_in_set) (use there(2) in simp)
  have least: "(x, best) \<in> set ?ps" "\<forall>y \<in> set ?ps. port_vector best \<le> port_vector (snd y)"
    using best_port_least [of ?ps "hd ?ps"] hd by (auto simp: xb insert_absorb)
  have x: "x \<in> set (port_ids s)" "info s x = Some best" using least(1) there(3) by auto
  have least': "port_vector best \<le> port_vector p" if "info s i = Some p" for i p
  proof -
    have "i \<in> set (port_ids s)" using that info_outside by fastforce
    then have "(i, p) \<in> set ?ps" using that by force
    then show ?thesis using least(2) by fastforce
  qed
  define s1 where "s1 = fold (\<lambda>i. set_port i (\<lambda>p. p\<lparr>pi_role := NOTASSIGNED\<rparr>)) (port_ids s) (s\<lparr>desPorts := []\<rparr>)"
  note s1 = fold_set_port [OF there(1), of "\<lambda>p. p\<lparr>pi_role := NOTASSIGNED\<rparr>" "s\<lparr>desPorts := []\<rparr>", folded s1_def]
  note f = core_fields [OF s1(2) [simplified]]
  define s' where "s' = (set_port x (\<lambda>p. p\<lparr>pi_role := ROOT\<rparr>)
      (s1\<lparr>topologyChangeNotification := topologyChangeNotification s \<or> rootInterfaceId s \<noteq> x, rootInterfaceId := x\<rparr>))
    \<lparr>rootPathCost := pi_rootPathCost best, rootAddress := pi_rootAddress best,
     rootPriority := pi_rootPriority best, currentMaxAge := pi_maxAge best, currentFwdDelay := pi_fwdDelay best,
     currentHelloTime := pi_helloTime best\<rparr>"
  have run: "selectRootPort s = Inr s'" using there(2) by (simp add: selectRootPort_def all_ports_there [OF there(3)] xb s'_def s1_def)
  have i: "info s' = info (set_port x (\<lambda>p. p\<lparr>pi_role := ROOT\<rparr>) s1)" "port_ids s' = port_ids s1"
    by (simp_all add: s'_def set_port_def info_def port_ids_def fun_eq_iff change_port_def comp_def if_distrib cong: if_cong)
  have "info s' j = map_option (\<lambda>p. p\<lparr>pi_role := if j = x then ROOT else NOTASSIGNED\<rparr>) (info s j)" for j
    using info_outside [of j s] by (cases "info s j") (auto simp: i(1) s1(1))
  moreover have "same_bridge s s'" using f s1(3) by (simp add: same_bridge_def i(2)) (simp add: s'_def set_port_def)
  moreover have "isRoot s' = isRoot s" "st_out s' = st_out s" using f(7) s1(4) by (simp_all add: s'_def set_port_def)
  ultimately show ?thesis using run x least'
    by (intro exI [of _ s'] exI [of _ x] exI [of _ best])
      (simp add: s'_def set_port_def knows_root_def root_id_def)
qed

lemma tryRoot_port:
  assumes "ports_there s" "i \<in> set (port_ids s)" "\<not> own_id s \<le> root_id (the (info s i))"
  shows "\<exists>s' x best. tryRoot s = Inr s' \<and> elects_port x best s s' \<and> info s x = Some best
    \<and> (\<forall>i p. info s i = Some p \<longrightarrow> port_vector best \<le> port_vector p) \<and> root_id best < own_id s
    \<and> same_bridge s s' \<and> st_out s' = st_out s \<and> role_list s'
    \<and> currentMaxAge s' = pi_maxAge best \<and> currentFwdDelay s' = pi_fwdDelay best"
proof -
  have e: "checkRootEligibility s = Inr False" using eligible_iff [of s] assms by (auto simp: ports_there_def)
  have "ports_there (s\<lparr>isRoot := False\<rparr>)" using assms(1) by (simp add: ports_there_def)
  from selectRootPort_run [OF this] obtain t x best where t: "selectRootPort (s\<lparr>isRoot := False\<rparr>) = Inr t"
    "info s x = Some best" "x \<in> set (port_ids s)" "\<And>i p. info s i = Some p \<Longrightarrow> port_vector best \<le> port_vector p"
    "\<And>i. info t i = map_option (\<lambda>p. p\<lparr>pi_role := if i = x then ROOT else NOTASSIGNED\<rparr>) (info s i)"
    "same_bridge (s\<lparr>isRoot := False\<rparr>) t" "st_out t = st_out s" "\<not> isRoot t" "rootInterfaceId t = x"
    "knows_root t = root_id best" "rootPathCost t = pi_rootPathCost best"
    "currentMaxAge t = pi_maxAge best" "currentFwdDelay t = pi_fwdDelay best"
    by auto
  have ids: "port_ids t = port_ids s" "same_bridge s t" using t(6) by (simp_all add: same_bridge_def)
  have "ports_there t" using assms(1) ports_there_cong [of t s] ids(1) t(5) by simp
  from selectDesignatedPorts_run [OF this] obtain s' where s': "selectDesignatedPorts t = Inr s'" "core s' = core t"
    "port_ids s' = port_ids t" "st_out s' = st_out t" "\<And>i. info s' i = map_option (with_role t i) (info t i)"
    "desPorts s' = filter (\<lambda>i. designated t i (the (info t i))) (port_ids t)" by auto
  note f = core_fields [OF s'(2)]
  have global: "bridgeGlobal j p t = bridgeGlobal j p s'" for j p by (rule bridgeGlobal_core [OF s'(2) [symmetric]])
  have port: "info s' j = Some (with_role t j (p\<lparr>pi_role := if j = x then ROOT else NOTASSIGNED\<rparr>))" if "info s j = Some p" for j p
    using that s'(5) t(5) by simp
  have roles: "\<exists>r. info s' j = Some (p\<lparr>pi_role := r\<rparr>) \<and> (r = ROOT \<longleftrightarrow> j = x)
          \<and> (j \<noteq> x \<longrightarrow> (r = DESIGNATED \<longleftrightarrow> port_vector (bridgeGlobal j p s') < port_vector p)
                     \<and> (r = ALTERNATE \<longleftrightarrow> port_vector p < port_vector (bridgeGlobal j p s')))" if p: "info s j = Some p" for j p
  proof (cases "j = x")
    case True
    then show ?thesis using port [OF p] by (intro exI [of _ ROOT]) (simp add: with_role_def designated_def alternate_def)
  next
    case False
    let ?r = "if port_vector (bridgeGlobal j p s') < port_vector p then DESIGNATED
      else if port_vector p < port_vector (bridgeGlobal j p s') then ALTERNATE else NOTASSIGNED"
    have "with_role t j (p\<lparr>pi_role := NOTASSIGNED\<rparr>) = p\<lparr>pi_role := ?r\<rparr>"
      by (simp add: with_role_def designated_def alternate_def global)
    moreover have "?r \<noteq> ROOT" "?r = DESIGNATED \<longleftrightarrow> port_vector (bridgeGlobal j p s') < port_vector p"
      "?r = ALTERNATE \<longleftrightarrow> port_vector p < port_vector (bridgeGlobal j p s')" by (auto dest: less_asym)
    ultimately show ?thesis using port [OF p] False by (intro exI [of _ ?r]) (simp only: if_False, simp)
  qed
  have "tryRoot s = Inr s'" using e t(1) s'(1) by (simp add: tryRoot_def)
  moreover have "elects_port x best s s'"
    using f t(8-11) roles by (simp add: elects_port_def knows_root_def)
  moreover have "root_id best < own_id s"
  proof -
    have "root_id best \<le> root_id (the (info s i))"
    proof -
      obtain p where p: "info s i = Some p" using assms(1,2) by (auto simp: ports_there_def)
      have "port_vector best \<le> port_vector p" using t(4) p by blast
      then have "root_id best \<le> root_id p" unfolding port_vector_def less_eq_prod_simp by auto
      then show ?thesis using p by simp
    qed
    then show ?thesis using assms(3) by (meson le_less_trans not_le)
  qed
  moreover have "same_bridge s s'" using ids(2) same_bridge_core [OF s'(2,3)] same_bridge_trans by blast
  moreover have "role_list s'" unfolding role_list_def s'(3,6) ids(1)
  proof (rule filter_cong [OF refl])
    fix j assume "j \<in> set (port_ids s)"
    then obtain p where "info s j = Some p" using assms(1) by (auto simp: ports_there_def)
    then show "designated t j (the (info t j)) = (pi_role (the (info s' j)) = DESIGNATED)"
      using s'(5) t(5) by (simp add: with_role_def designated_def alternate_def)
  qed
  ultimately show ?thesis using t(2,4) s'(4) t(7,12,13) f by (intro exI [of _ s'] exI [of _ x] exI [of _ best]) auto
qed

text \<open>
  C33. An election makes the bridge the root exactly when no port has heard of a root with a lower
  identifier. Then all ports become designated. Otherwise the port with the least of all vectors
  becomes the only root port, root and cost are taken from it, and every other port is designated
  if the vector the bridge would send there is better than the port's, and alternate if it is worse.
  The information of the ports is not changed.
\<close>

theorem election_picks_the_best:
  assumes "ports_there s"
  shows "\<exists>s'. tryRoot s = Inr s' \<and> (isRoot s' \<longleftrightarrow> (\<forall>i p. info s i = Some p \<longrightarrow> own_id s \<le> root_id p))
    \<and> (isRoot s' \<longrightarrow> elects_itself s s')
    \<and> (\<not> isRoot s' \<longrightarrow> (\<exists>x best. info s x = Some best \<and> (\<forall>i p. info s i = Some p \<longrightarrow> port_vector best \<le> port_vector p)
          \<and> root_id best < own_id s \<and> elects_port x best s s'))
    \<and> desPorts s' = filter (\<lambda>i. pi_role (the (info s' i)) = DESIGNATED) (port_ids s')"
proof -
  have port: "info s i = Some p \<Longrightarrow> i \<in> set (port_ids s)" for i p using info_outside by fastforce
  have there: "i \<in> set (port_ids s) \<Longrightarrow> \<exists>p. info s i = Some p" for i using assms by (auto simp: ports_there_def)
  show ?thesis
  proof (cases "\<forall>i \<in> set (port_ids s). own_id s \<le> root_id (the (info s i))")
    case True
    obtain s' where s': "tryRoot s = Inr s'" "elects_itself s s'" "role_list s'" using tryRoot_itself [OF assms True] by blast
    have "own_id s \<le> root_id p" if "info s i = Some p" for i p using True port [OF that] that by force
    then show ?thesis using s' unfolding elects_itself_def role_list_def by blast
  next
    case False
    then obtain i where i: "i \<in> set (port_ids s)" "\<not> own_id s \<le> root_id (the (info s i))" by blast
    obtain s' x best where s': "tryRoot s = Inr s'" "elects_port x best s s'" "info s x = Some best" "role_list s'"
      "\<forall>i p. info s i = Some p \<longrightarrow> port_vector best \<le> port_vector p" "root_id best < own_id s"
      using tryRoot_port [OF assms i] by blast
    obtain p where "info s i = Some p" using there [OF i(1)] by blast
    then have "\<not> (\<forall>i p. info s i = Some p \<longrightarrow> own_id s \<le> root_id p)" using i(2) by auto
    moreover have "\<not> isRoot s'" using s'(2) by (simp add: elects_port_def)
    ultimately show ?thesis using s' unfolding role_list_def by blast
  qed
qed

definition example_bridge_ports :: "switch_port list" where
  "example_bridge_ports =
     map (\<lambda>i. \<lparr>sp_id = i, sp_isLoopback = False, sp_isBroadcast = True, sp_macAddress = 5, sp_data = Some new_port_info\<rparr>) [101, 102, 103]"

definition started_bridge :: stp where
  "started_bridge = projr (stp_start 0 (new_stp 32768 (seconds 20) (seconds 2) (seconds 15) (seconds 120) example_bridge_ports))"

lemma election_picks_the_best_witness:
  "\<exists>s' x best. tryRoot (set_port 102 (\<lambda>p. p\<lparr>pi_rootAddress := 3, pi_rootPathCost := 4\<rparr>) started_bridge) = Inr s'
    \<and> \<not> isRoot s' \<and> knows_root s' = root_id best \<and> rootInterfaceId s' = x
    \<and> info (set_port 102 (\<lambda>p. p\<lparr>pi_rootAddress := 3, pi_rootPathCost := 4\<rparr>) started_bridge) x = Some best"
proof -
  let ?s = "set_port 102 (\<lambda>p. p\<lparr>pi_rootAddress := 3, pi_rootPathCost := 4\<rparr>) started_bridge"
  have there: "ports_there ?s" by code_simp
  have "case info ?s 102 of None \<Rightarrow> False | Some p \<Rightarrow> \<not> own_id ?s \<le> root_id p" by code_simp
  then obtain p where "info ?s 102 = Some p" "\<not> own_id ?s \<le> root_id p" by (auto split: option.splits)
  then show ?thesis using election_picks_the_best [OF there] unfolding elects_port_def by metis
qed

end
