(* ===== verification/Stp_Network.thy ===== *)
theory Stp_Network
  imports Stp_Laws
begin

text \<open>
  A network of bridges that exchange BPDUs, in any order, with losses and repetitions: no bridge ever
  believes in a root that is not there, and the bridge with the lowest identifier is always the root.
\<close>

section \<open>What every operation keeps\<close>

type_synonym bridge_id = "u32 \<times> mac_address"

definition bpdu_root :: "bpdu_cfg \<Rightarrow> bridge_id" where
  "bpdu_root b = (ucast (bc_rootPriority b), bc_rootAddress b)"

text \<open>Priorities fit into the 16 bits that a BPDU has for them.\<close>

definition ids_fit :: "bridge_id set \<Rightarrow> bool" where
  "ids_fit I \<longleftrightarrow> (\<forall>x \<in> I. fst x < 0x10000)"

definition bridge_base :: "bridge_id set \<Rightarrow> stp \<Rightarrow> bool" where
  "bridge_base I s \<longleftrightarrow> ports_there s \<and> rootInterfaceId s \<in> set (port_ids s) \<and> set (desPorts s) \<subseteq> set (port_ids s)
     \<and> own_id s \<in> I \<and> knows_root s \<in> I \<and> knows_root s \<le> own_id s \<and> 0 < st_maxAge s
     \<and> (\<forall>i p. info s i = Some p \<longrightarrow> root_id p \<in> I)
     \<and> (\<forall>q \<in> set (st_out s). \<forall>b. bp_bpdu q = Cfg b \<longrightarrow> bpdu_root b \<in> I)"

definition lowest_ok :: "stp \<Rightarrow> bool" where
  "lowest_ok s \<longleftrightarrow> isRoot s \<and> 0 < currentMaxAge s \<and> (\<forall>i p. info s i = Some p \<longrightarrow> pi_role p = DESIGNATED \<and> pi_age p = 0)"

definition bridge_ok :: "bridge_id set \<Rightarrow> stp \<Rightarrow> bool" where
  "bridge_ok I s \<longleftrightarrow> bridge_base I s \<and> ((\<forall>x \<in> I. own_id s \<le> x) \<longrightarrow> lowest_ok s)"

definition keeps_ok :: "bridge_id set \<Rightarrow> (stp \<Rightarrow> stp outcome) \<Rightarrow> bool" where
  "keeps_ok I f \<longleftrightarrow> (\<forall>s. bridge_ok I s \<longrightarrow> (\<exists>s'. f s = Inr s' \<and> bridge_ok I s' \<and> port_ids s' = port_ids s \<and> own_id s' = own_id s))"

lemma keeps_ok_D: "keeps_ok I f \<Longrightarrow> bridge_ok I s \<Longrightarrow> \<exists>s'. f s = Inr s' \<and> bridge_ok I s' \<and> port_ids s' = port_ids s \<and> own_id s' = own_id s"
  by (simp add: keeps_ok_def)

lemma keeps_ok_bind: "keeps_ok I f \<Longrightarrow> keeps_ok I g \<Longrightarrow> keeps_ok I (\<lambda>s. bindE (f s) g)"
  by (fastforce simp: keeps_ok_def)

lemma port_there: "ports_there s \<Longrightarrow> i \<in> set (port_ids s) \<Longrightarrow> \<exists>p. info s i = Some p"
  by (auto simp: ports_there_def)

lemma info_port: "info s i = Some p \<Longrightarrow> i \<in> set (port_ids s)"
  using info_outside by fastforce

lemma ucast_fits: "p < 0x10000 \<Longrightarrow> ucast (ucast p :: u16) = (p :: u32)"
proof -
  assume "p < 0x10000"
  then have "unat p < 2 ^ 16" by (simp add: word_less_nat_alt)
  then show ?thesis by (simp add: word_unat_eq_iff unsigned_ucast_eq unsigned_take_bit_eq take_bit_nat_eq_self)
qed

text \<open>A change of state that matters to none of the above.\<close>

definition ok_fields where
  "ok_fields s = (bridgePriority s, bridgeAddress s, rootPriority s, rootAddress s, st_maxAge s, rootInterfaceId s, isRoot s,
     currentMaxAge s, port_ids s)"

lemma bridge_ok_cong:
  assumes "bridge_ok I s" "ok_fields s' = ok_fields s" "info s' = info s" "set (desPorts s') \<subseteq> set (port_ids s)"
    and "\<forall>q \<in> set (st_out s'). q \<in> set (st_out s) \<or> (\<forall>b. bp_bpdu q = Cfg b \<longrightarrow> bpdu_root b \<in> I)"
  shows "bridge_ok I s'" "own_id s' = own_id s" "port_ids s' = port_ids s"
proof -
  have f: "own_id s' = own_id s" "knows_root s' = knows_root s" "st_maxAge s' = st_maxAge s" "rootInterfaceId s' = rootInterfaceId s"
    "isRoot s' = isRoot s" "currentMaxAge s' = currentMaxAge s" "port_ids s' = port_ids s"
    using assms(2) by (auto simp: ok_fields_def own_id_def knows_root_def)
  have "bp_bpdu q = Cfg b \<Longrightarrow> q \<in> set (st_out s') \<Longrightarrow> bpdu_root b \<in> I" for q b
    using assms(1,5) unfolding bridge_ok_def bridge_base_def by blast
  then have "bridge_base I s'" using assms(1,3,4) unfolding bridge_ok_def bridge_base_def ports_there_def f by auto
  then show "bridge_ok I s'" "own_id s' = own_id s" "port_ids s' = port_ids s"
    using assms(1,3) f unfolding bridge_ok_def lowest_ok_def by auto
qed

lemma generateBPDU_ok:
  assumes "bridge_ok I s" "ids_fit I" "i \<in> set (port_ids s)"
  shows "\<exists>s'. generateBPDU i dest tc tca s = Inr s' \<and> bridge_ok I s' \<and> port_ids s' = port_ids s \<and> own_id s' = own_id s
    \<and> ok_fields s' = ok_fields s \<and> info s' = info s \<and> desPorts s' = desPorts s"
proof -
  obtain p where p: "info s i = Some p" using assms(1,3) port_there unfolding bridge_ok_def bridge_base_def by blast
  have "rootPriority s < 0x10000" using assms(1,2) unfolding bridge_ok_def bridge_base_def ids_fit_def knows_root_def by fastforce
  then have root: "(ucast (ucast (rootPriority s) :: u16), rootAddress s) \<in> I"
    using assms(1) by (simp add: ucast_fits bridge_ok_def bridge_base_def knows_root_def)
  obtain q b where q: "generateBPDU i dest tc tca s = Inr (s\<lparr>st_out := st_out s @ [q]\<rparr>)" "bp_bpdu q = Cfg b"
    "bpdu_root b = (ucast (ucast (rootPriority s) :: u16), rootAddress s)"
    by (simp add: generateBPDU_def get_port_info [OF p] bpdu_root_def Let_def)
  let ?s = "s\<lparr>st_out := st_out s @ [q]\<rparr>"
  have fields: "ok_fields ?s = ok_fields s" "info ?s = info s" "desPorts ?s = desPorts s" by (simp_all add: ok_fields_def)
  have des: "set (desPorts ?s) \<subseteq> set (port_ids s)" using assms(1) by (simp add: bridge_ok_def bridge_base_def)
  have out: "\<forall>q' \<in> set (st_out ?s). q' \<in> set (st_out s) \<or> (\<forall>b. bp_bpdu q' = Cfg b \<longrightarrow> bpdu_root b \<in> I)"
    using q(2,3) root by auto
  from bridge_ok_cong [OF assms(1) fields(1,2) des out] show ?thesis using q(1) fields by blast
qed

lemma generate_all_ok:
  assumes "bridge_ok I s" "ids_fit I" "set is \<subseteq> set (port_ids s)"
    and g: "\<And>i s. bridge_ok I s \<Longrightarrow> i \<in> set (port_ids s) \<Longrightarrow>
      \<exists>s'. g i s = Inr s' \<and> bridge_ok I s' \<and> ok_fields s' = ok_fields s \<and> info s' = info s \<and> desPorts s' = desPorts s"
  shows "\<exists>s'. foldE g is s = Inr s' \<and> bridge_ok I s' \<and> ok_fields s' = ok_fields s \<and> info s' = info s \<and> desPorts s' = desPorts s"
  using assms(1,3)
proof (induction "is" arbitrary: s)
  case (Cons i "is")
  obtain s1 where s1: "g i s = Inr s1" "bridge_ok I s1" "ok_fields s1 = ok_fields s" "info s1 = info s" "desPorts s1 = desPorts s"
    using g [OF Cons.prems(1)] Cons.prems(2) by auto
  have "set is \<subseteq> set (port_ids s1)" using s1(3) Cons.prems(2) by (simp add: ok_fields_def)
  from Cons.IH [OF s1(2) this] show ?case using s1 by auto
qed simp

lemma ok_fields_ids: "ok_fields s' = ok_fields s \<Longrightarrow> port_ids s' = port_ids s \<and> own_id s' = own_id s"
  by (simp add: ok_fields_def own_id_def)

lemma generate_on_ports_ok:
  assumes "bridge_ok I s" "ids_fit I" "set is \<subseteq> set (port_ids s)"
  shows "\<exists>s'. foldE (\<lambda>j. generateBPDU j dest tc tca) is s = Inr s' \<and> bridge_ok I s' \<and> port_ids s' = port_ids s \<and> own_id s' = own_id s"
proof -
  have step: "\<exists>s'. generateBPDU i dest tc tca s = Inr s' \<and> bridge_ok I s' \<and> ok_fields s' = ok_fields s \<and> info s' = info s \<and> desPorts s' = desPorts s"
    if "bridge_ok I s" "i \<in> set (port_ids s)" for i s
    using generateBPDU_ok [OF that(1) assms(2) that(2), of dest tc tca] by blast
  obtain s' where "foldE (\<lambda>j. generateBPDU j dest tc tca) is s = Inr s'" "bridge_ok I s'" "ok_fields s' = ok_fields s"
    using generate_all_ok [where g = "\<lambda>j. generateBPDU j dest tc tca", OF assms step] by blast
  then show ?thesis using ok_fields_ids by blast
qed

lemma generateHelloBPDUs_ok:
  assumes "bridge_ok I s" "ids_fit I"
  shows "\<exists>s'. generateHelloBPDUs s = Inr s' \<and> bridge_ok I s' \<and> ok_fields s' = ok_fields s \<and> info s' = info s"
  unfolding generateHelloBPDUs_def
  using generate_all_ok [OF assms order_refl, of generateBPDU'] generateBPDU_ok [OF _ assms(2)] unfolding generateBPDU'_def by metis

lemma generateTCN_ok: "keeps_ok I generateTCN"
  unfolding keeps_ok_def
proof (intro allI impI)
  fix s assume ok: "bridge_ok I s"
  obtain p where p: "info s (rootInterfaceId s) = Some p" using ok port_there unfolding bridge_ok_def bridge_base_def by blast
  define n where "n = s\<lparr>topologyChangeNotification := False,
    st_out := st_out s @ [\<lparr>bp_interface = rootInterfaceId s, bp_src = bridgeAddress s, bp_dest = STP_MULTICAST_ADDRESS, bp_bpdu = Tcn\<rparr>]\<rparr>"
  have "generateTCN s = Inr s \<or> generateTCN s = Inr n"
    by (cases "topologyChangeNotification s \<or> \<not> topologyChangeRecvd s"; cases "pi_role p = ROOT")
      (simp_all add: generateTCN_def get_port_info [OF p] n_def)
  moreover have "bridge_ok I n" "own_id n = own_id s" "port_ids n = port_ids s"
  proof -
    have "ok_fields n = ok_fields s" "info n = info s" "set (desPorts n) \<subseteq> set (port_ids s)"
      "\<forall>q \<in> set (st_out n). q \<in> set (st_out s) \<or> (\<forall>b. bp_bpdu q = Cfg b \<longrightarrow> bpdu_root b \<in> I)"
      using ok by (auto simp: n_def ok_fields_def port_ids_def info_def fun_eq_iff bridge_ok_def bridge_base_def)
    from bridge_ok_cong [OF ok this] show "bridge_ok I n" "own_id n = own_id s" "port_ids n = port_ids s" by blast+
  qed
  ultimately show "\<exists>s'. generateTCN s = Inr s' \<and> bridge_ok I s' \<and> port_ids s' = port_ids s \<and> own_id s' = own_id s"
    using ok by blast
qed

lemma elects_itself_ports:
  "elects_itself s s' \<Longrightarrow> info s' i = Some p \<Longrightarrow> \<exists>q. info s i = Some q \<and> (p = q \<and> pi_role q = DISABLED \<or> p = q\<lparr>pi_role := DESIGNATED\<rparr>)"
  unfolding elects_itself_def by (cases "info s i") (auto split: if_splits)

lemma elects_itself_keys: "elects_itself s s' \<Longrightarrow> info s' i = None \<longleftrightarrow> info s i = None"
  by (simp add: elects_itself_def)

lemma elects_port_ports:
  assumes "elects_port x best s s'" "info s' i = Some p" "port_ids s' = port_ids s" "ports_there s"
  shows "\<exists>q r. info s i = Some q \<and> p = q\<lparr>pi_role := r\<rparr>"
proof -
  obtain q where q: "info s i = Some q" using info_port [OF assms(2)] assms(3,4) port_there by metis
  then obtain r where "info s' i = Some (q\<lparr>pi_role := r\<rparr>)" using assms(1) unfolding elects_port_def by blast
  then show ?thesis using q assms(2) by auto
qed

lemma tryRoot_ok:
  assumes "bridge_base I s"
    and "(\<forall>x \<in> I. own_id s \<le> x) \<longrightarrow> (\<forall>i p. info s i = Some p \<longrightarrow> pi_role p \<noteq> DISABLED \<and> pi_age p = 0)"
  shows "\<exists>s'. tryRoot s = Inr s' \<and> bridge_ok I s' \<and> port_ids s' = port_ids s \<and> own_id s' = own_id s"
proof (cases "\<forall>i \<in> set (port_ids s). own_id s \<le> root_id (the (info s i))")
  case True
  have base: "ports_there s" "rootInterfaceId s \<in> set (port_ids s)" "own_id s \<in> I" "0 < st_maxAge s"
    "\<And>i p. info s i = Some p \<Longrightarrow> root_id p \<in> I"
    "\<forall>q \<in> set (st_out s). \<forall>b. bp_bpdu q = Cfg b \<longrightarrow> bpdu_root b \<in> I"
    using assms(1) unfolding bridge_base_def by blast+
  obtain s' where s': "tryRoot s = Inr s'" "elects_itself s s'" "same_bridge s s'" "st_out s' = st_out s" "role_list s'"
    "currentMaxAge s' = st_maxAge s" "rootInterfaceId s' = rootInterfaceId s"
    using tryRoot_itself [OF base(1) True] by blast
  have ids: "port_ids s' = port_ids s" "own_id s' = own_id s" "st_maxAge s' = st_maxAge s"
    using s'(3) by (simp_all add: same_bridge_def own_id_def)
  have root: "knows_root s' = own_id s" "isRoot s'" using s'(2) by (simp_all add: elects_itself_def)
  have "ports_there s'" using ports_there_cong [OF ids(1)] elects_itself_keys [OF s'(2)] base(1) by blast
  moreover have "root_id p \<in> I" if "info s' i = Some p" for i p
    using elects_itself_ports [OF s'(2) that] base(5) by auto
  moreover have "set (desPorts s') \<subseteq> set (port_ids s')" using s'(5) by (auto simp: role_list_def)
  ultimately have "bridge_base I s'" using base ids root s'(4,7) unfolding bridge_base_def by simp
  moreover have "lowest_ok s'" if l: "\<forall>x \<in> I. own_id s \<le> x"
    unfolding lowest_ok_def
  proof (intro conjI allI impI)
    fix i p assume "info s' i = Some p"
    from elects_itself_ports [OF s'(2) this] show "pi_role p = DESIGNATED" "pi_age p = 0"
      using assms(2) l by auto
  qed (use root base(4) s'(6) in auto)
  ultimately show ?thesis using s'(1) ids by (auto simp: bridge_ok_def)
next
  case False
  then obtain i where i: "i \<in> set (port_ids s)" "\<not> own_id s \<le> root_id (the (info s i))" by blast
  have base: "ports_there s" "own_id s \<in> I" "0 < st_maxAge s" "\<And>i p. info s i = Some p \<Longrightarrow> root_id p \<in> I"
    "\<forall>q \<in> set (st_out s). \<forall>b. bp_bpdu q = Cfg b \<longrightarrow> bpdu_root b \<in> I"
    using assms(1) unfolding bridge_base_def by blast+
  obtain s' x best where s': "tryRoot s = Inr s'" "elects_port x best s s'" "info s x = Some best" "root_id best < own_id s"
    "same_bridge s s'" "st_out s' = st_out s" "role_list s'"
    using tryRoot_port [OF base(1) i] by blast
  have ids: "port_ids s' = port_ids s" "own_id s' = own_id s" "st_maxAge s' = st_maxAge s"
    using s'(5) by (simp_all add: same_bridge_def own_id_def)
  have root: "knows_root s' = root_id best" "rootInterfaceId s' = x" "x \<in> set (port_ids s)"
    using s'(2) info_port [OF s'(3)] by (simp_all add: elects_port_def)
  have port: "\<exists>q r. info s j = Some q \<and> p = q\<lparr>pi_role := r\<rparr>" if "info s' j = Some p" for j p
    by (rule elects_port_ports [OF s'(2) that ids(1) base(1)])
  have "info s' j = None \<longleftrightarrow> info s j = None" for j
    using port [of j] s'(2) unfolding elects_port_def by (metis not_None_eq)
  then have "ports_there s'" using ports_there_cong [OF ids(1)] base(1) by blast
  moreover have "root_id p \<in> I" if "info s' j = Some p" for j p using port [OF that] base(4) by auto
  moreover have "set (desPorts s') \<subseteq> set (port_ids s')" using s'(7) by (auto simp: role_list_def)
  ultimately have "bridge_base I s'" using base ids root s'(4,6) base(4) [OF s'(3)] unfolding bridge_base_def by simp
  moreover have "\<not> (\<forall>x \<in> I. own_id s \<le> x)" using base(4) [OF s'(3)] s'(4) by (meson not_le)
  ultimately show ?thesis using s'(1) ids by (auto simp: bridge_ok_def)
qed

section \<open>BPDUs\<close>

lemma set_port_fields [simp]:
  "rootInterfaceId (set_port i f s) = rootInterfaceId s" "own_id (set_port i f s) = own_id s" "knows_root (set_port i f s) = knows_root s"
  "st_maxAge (set_port i f s) = st_maxAge s" "isRoot (set_port i f s) = isRoot s" "currentMaxAge (set_port i f s) = currentMaxAge s"
  by (simp_all add: set_port_def own_id_def knows_root_def)

lemma set_port_base:
  assumes "bridge_base I s" "\<And>p. info s i = Some p \<Longrightarrow> root_id (f p) \<in> I"
  shows "bridge_base I (set_port i f s)"
proof -
  have "ports_there (set_port i f s)" using ports_there_cong [of "set_port i f s" s] assms(1) by (simp add: bridge_base_def)
  moreover have "root_id q \<in> I" if "info (set_port i f s) j = Some q" for j q
    using that assms by (auto simp: bridge_base_def split: if_splits)
  ultimately show ?thesis using assms(1) unfolding bridge_base_def by simp
qed

lemma set_port_ok:
  assumes "bridge_ok I s"
    and "\<And>p. info s i = Some p \<Longrightarrow> root_id (f p) \<in> I \<and> pi_role (f p) = pi_role p \<and> (pi_role p = DESIGNATED \<and> pi_age p = 0 \<longrightarrow> pi_age (f p) = 0)"
  shows "bridge_ok I (set_port i f s)"
proof -
  have "bridge_base I (set_port i f s)" using set_port_base assms unfolding bridge_ok_def by blast
  moreover have "lowest_ok s \<Longrightarrow> lowest_ok (set_port i f s)"
    using assms(2) by (auto simp: lowest_ok_def split: if_splits)
  ultimately show ?thesis using assms(1) by (simp add: bridge_ok_def)
qed

lemma bridge_des: "bridge_ok I s \<Longrightarrow> set (desPorts s) \<subseteq> set (port_ids s)"
  by (simp add: bridge_ok_def bridge_base_def)

lemma table_ok:
  assumes "bridge_ok I s"
  shows "bridge_ok I (s\<lparr>st_table := t\<rparr>)" "bridge_ok I (s\<lparr>topologyChangeRecvd := r, topologyChangeNotification := c\<rparr>)"
    "bridge_ok I (s\<lparr>topologyChangeNotification := c\<rparr>)" "bridge_ok I (s\<lparr>st_helloTime := h\<rparr>)"
    "bridge_ok I (s\<lparr>st_out := st_out s @ [\<lparr>bp_interface = i, bp_src = a, bp_dest = d, bp_bpdu = Tcn\<rparr>]\<rparr>)"
proof -
  note ok = bridge_ok_cong(1) [OF assms] and eqs = ok_fields_def port_ids_def info_def fun_eq_iff
  note des = bridge_des [OF assms, unfolded port_ids_def]
  show "bridge_ok I (s\<lparr>st_table := t\<rparr>)" by (rule ok) (use des in \<open>simp_all add: eqs\<close>)
  show "bridge_ok I (s\<lparr>topologyChangeRecvd := r, topologyChangeNotification := c\<rparr>)" by (rule ok) (use des in \<open>simp_all add: eqs\<close>)
  show "bridge_ok I (s\<lparr>topologyChangeNotification := c\<rparr>)" by (rule ok) (use des in \<open>simp_all add: eqs\<close>)
  show "bridge_ok I (s\<lparr>st_helloTime := h\<rparr>)" by (rule ok) (use des in \<open>simp_all add: eqs\<close>)
  show "bridge_ok I (s\<lparr>st_out := st_out s @ [\<lparr>bp_interface = i, bp_src = a, bp_dest = d, bp_bpdu = Tcn\<rparr>]\<rparr>)"
    by (rule ok) (use des in \<open>simp_all add: eqs\<close>)
qed

lemma setSuperiorBPDU_ok:
  assumes "bridge_ok I s" "bpdu_root b \<in> I" "i \<in> set (port_ids s)"
  shows "\<exists>s'. setSuperiorBPDU i b s = Inr s' \<and> bridge_ok I s' \<and> port_ids s' = port_ids s \<and> own_id s' = own_id s \<and> desPorts s' = desPorts s"
proof -
  obtain p where p: "info s i = Some p" using assms(1,3) port_there unfolding bridge_ok_def bridge_base_def by blast
  let ?f = "\<lambda>p. (bpdu_vector b p p)\<lparr>pi_maxAge := bc_maxAge b, pi_fwdDelay := bc_forwardDelay b, pi_helloTime := bc_helloTime b, pi_age := 0\<rparr>"
  have "bridge_ok I (set_port i ?f s)"
    using assms(2) by (intro set_port_ok [OF assms(1)]) (simp add: bpdu_vector_def root_id_def bpdu_root_def)
  then show ?thesis using assms(1) by (simp add: setSuperiorBPDU_def get_port_info [OF p])
qed

lemma isSuperiorBPDU_ok:
  assumes "bridge_ok I s" "bpdu_root b \<in> I" "i \<in> set (port_ids s)"
  shows "\<exists>x s'. isSuperiorBPDU i b s = Inr (x, s') \<and> bridge_ok I s' \<and> port_ids s' = port_ids s \<and> own_id s' = own_id s \<and> desPorts s' = desPorts s"
proof -
  obtain p where p: "info s i = Some p" using assms(1,3) port_there unfolding bridge_ok_def bridge_base_def by blast
  let ?c = "comparePorts p (bpdu_vector b p new_port_info)"
  define s1 where "s1 = (if ?c < 0 then set_port i (\<lambda>p. p\<lparr>pi_fdWhile := 0, pi_state := DISCARDING\<rparr>) s else s)"
  have "root_id p \<in> I" using assms(1) p by (auto simp: bridge_ok_def bridge_base_def)
  then have s1: "bridge_ok I s1" "port_ids s1 = port_ids s" "own_id s1 = own_id s" "desPorts s1 = desPorts s"
    using assms(1) p by (auto simp: s1_def root_id_def intro!: set_port_ok)
  have "i \<in> set (port_ids s1)" using assms(3) s1(2) by simp
  from setSuperiorBPDU_ok [OF s1(1) assms(2) this] obtain s' where s': "setSuperiorBPDU i b s1 = Inr s'" "bridge_ok I s'"
    "port_ids s' = port_ids s" "own_id s' = own_id s" "desPorts s' = desPorts s" using s1(2-4) by auto
  have "isSuperiorBPDU i b s = (if ?c > 0 then Inr (False, s) else Inr (True, s'))"
    by (simp only: isSuperiorBPDU_def get_port_info [OF p] bindE_Inr Let_def s1_def [symmetric] s'(1))
  then show ?thesis using s'(2-5) assms(1) by (cases "?c > 0") auto
qed

lemma handleBPDU_ok:
  assumes "bridge_ok I s" "ids_fit I" "bpdu_root b \<in> I" "i \<in> set (port_ids s)"
  shows "\<exists>s'. handleBPDU i b s = Inr s' \<and> bridge_ok I s' \<and> port_ids s' = port_ids s \<and> own_id s' = own_id s"
proof -
  obtain p where p: "info s i = Some p" using assms(1,4) port_there unfolding bridge_ok_def bridge_base_def by blast
  define s1 where "s1 = (if bc_tcaFlag b then s\<lparr>topologyChangeRecvd := True, topologyChangeNotification := False\<rparr> else s)"
  have s1: "bridge_ok I s1" "port_ids s1 = port_ids s" "own_id s1 = own_id s"
    using assms(1) table_ok(2) by (auto simp: s1_def port_ids_def own_id_def)
  obtain x s2 where s2: "isSuperiorBPDU i b s1 = Inr (x, s2)" "bridge_ok I s2" "port_ids s2 = port_ids s" "own_id s2 = own_id s"
    using isSuperiorBPDU_ok [OF s1(1) assms(3)] assms(4) s1 by metis
  obtain q where q: "info s2 i = Some q" using s2(2,3) assms(4) port_there unfolding bridge_ok_def bridge_base_def by metis
  define r where "r = (if \<not> x then (if pi_role q = DESIGNATED then generateBPDU' i s2 else Inr s2)
            else if pi_role q = ROOT then
              (if bc_tcFlag b then
                 foldE (\<lambda>j. generateBPDU j STP_MULTICAST_ADDRESS True False) (desPorts s2)
                   (s2\<lparr>st_table := setAgingTime (currentFwdDelay s2) (st_table s2)\<rparr>)
               else
                 foldE generateBPDU' (desPorts s2) (s2\<lparr>st_table := resetDefaultAging (par_agingTime s2) (st_table s2)\<rparr>))
            else Inr s2)"
  have des: "set (desPorts s2) \<subseteq> set (port_ids (s2\<lparr>st_table := t\<rparr>))" for t
    using s2(2) by (simp add: bridge_ok_def bridge_base_def port_ids_def)
  have table: "own_id (s2\<lparr>st_table := t\<rparr>) = own_id s2" "port_ids (s2\<lparr>st_table := t\<rparr>) = port_ids s2" for t
    by (simp_all add: own_id_def port_ids_def)
  have all: "\<exists>s3. foldE (\<lambda>j. generateBPDU j STP_MULTICAST_ADDRESS tc False) (desPorts s2) (s2\<lparr>st_table := t\<rparr>) = Inr s3
      \<and> bridge_ok I s3 \<and> port_ids s3 = port_ids s \<and> own_id s3 = own_id s" for tc t
    using generate_on_ports_ok [OF table_ok(1) [OF s2(2)] assms(2) des] table s2(3,4) by simp
  have one: "\<exists>s3. generateBPDU' i s2 = Inr s3 \<and> bridge_ok I s3 \<and> port_ids s3 = port_ids s \<and> own_id s3 = own_id s"
    using generateBPDU_ok [OF s2(2) assms(2)] assms(4) s2(3,4) unfolding generateBPDU'_def by metis
  have "\<exists>s3. r = Inr s3 \<and> bridge_ok I s3 \<and> port_ids s3 = port_ids s \<and> own_id s3 = own_id s"
    using all [of True] all [of False, folded generateBPDU'_def] one s2(2-4) unfolding r_def by simp
  then obtain s3 where s3: "r = Inr s3" "bridge_ok I s3" "port_ids s3 = port_ids s" "own_id s3 = own_id s" by blast
  have run: "handleBPDU i b s = tryRoot s3"
    unfolding handleBPDU_def get_port_info [OF p] bindE_Inr Let_def s1_def [symmetric] s2(1) prod.case get_port_info [OF q] r_def [symmetric] s3(1) ..
  have "(\<forall>x \<in> I. own_id s3 \<le> x) \<longrightarrow> (\<forall>i p. info s3 i = Some p \<longrightarrow> pi_role p \<noteq> DISABLED \<and> pi_age p = 0)"
    using s3(2) unfolding bridge_ok_def lowest_ok_def by fastforce
  from tryRoot_ok [OF _ this] s3 run show ?thesis unfolding bridge_ok_def by auto
qed

lemma handleTCN_ok:
  assumes "bridge_ok I s" "ids_fit I" "i \<in> set (port_ids s)"
  shows "\<exists>s'. handleTCN i src dest s = Inr s' \<and> bridge_ok I s' \<and> port_ids s' = port_ids s \<and> own_id s' = own_id s"
proof -
  let ?s = "s\<lparr>topologyChangeNotification := True\<rparr>"
  have s: "bridge_ok I ?s" "i \<in> set (port_ids ?s)" "port_ids ?s = port_ids s" "own_id ?s = own_id s"
    using table_ok(3) [OF assms(1)] assms(3) by (simp_all add: port_ids_def own_id_def)
  obtain s1 where s1: "generateBPDU i src False True ?s = Inr s1" "bridge_ok I s1" "port_ids s1 = port_ids s" "own_id s1 = own_id s"
    using generateBPDU_ok [OF s(1) assms(2) s(2)] s(3,4) by metis
  show ?thesis using s1 table_ok(5) [OF s1(2)] unfolding handleTCN_def s1(1) bindE_Inr
    by (auto simp: port_ids_def own_id_def)
qed


section \<open>Ticks\<close>

lemma ports_keep_ok:
  assumes f: "\<And>i s. bridge_ok I s \<Longrightarrow> i \<in> set (port_ids s) \<Longrightarrow> \<exists>s'. f i s = Inr s' \<and> bridge_ok I s' \<and> port_ids s' = port_ids s \<and> own_id s' = own_id s"
  shows "keeps_ok I (\<lambda>s. foldE f (port_ids s) s)"
proof -
  have "\<exists>s'. foldE f is s = Inr s' \<and> bridge_ok I s' \<and> port_ids s' = port_ids s \<and> own_id s' = own_id s"
    if "bridge_ok I s" "set is \<subseteq> set (port_ids s)" for "is" s
    using that
  proof (induction "is" arbitrary: s)
    case (Cons i "is")
    obtain s1 where s1: "f i s = Inr s1" "bridge_ok I s1" "port_ids s1 = port_ids s" "own_id s1 = own_id s"
      using f [OF Cons.prems(1), of i] Cons.prems(2) by auto
    from Cons.IH [OF s1(2)] Cons.prems(2) s1 show ?case by auto
  qed simp
  then show ?thesis by (simp add: keeps_ok_def)
qed

lemma tick_port_ok:
  assumes "bridge_ok I s" "i \<in> set (port_ids s)"
  shows "\<exists>s'. tick_port i s = Inr s' \<and> bridge_ok I s' \<and> port_ids s' = port_ids s \<and> own_id s' = own_id s"
proof -
  obtain p where p: "info s i = Some p" using assms port_there unfolding bridge_ok_def bridge_base_def by blast
  define g :: "port_info \<Rightarrow> port_info" where "g = (\<lambda>q. if pi_role p = ROOT \<or> pi_role p = DESIGNATED then q\<lparr>pi_fdWhile := pi_fdWhile q + tickInterval\<rparr> else q)
    \<circ> (\<lambda>q. if pi_role p \<noteq> DESIGNATED then q\<lparr>pi_age := pi_age q + tickInterval\<rparr> else q)"
  have "tick_port i s = (if pi_role p = DISABLED then Inr s else Inr (set_port i g s))"
    by (simp add: tick_port_def get_port_info [OF p] g_def)
  moreover have "root_id (g p) = root_id p" "pi_role (g p) = pi_role p" "pi_role p = DESIGNATED \<Longrightarrow> pi_age (g p) = pi_age p"
    by (auto simp: g_def root_id_def)
  moreover have "root_id p \<in> I" using assms(1) p by (auto simp: bridge_ok_def bridge_base_def)
  ultimately show ?thesis using assms(1) p set_port_ok [OF assms(1), of i g] by auto
qed

lemma check_forward_ok:
  assumes "bridge_ok I s" "i \<in> set (port_ids s)"
  shows "\<exists>s'. check_forward i s = Inr s' \<and> bridge_ok I s' \<and> port_ids s' = port_ids s \<and> own_id s' = own_id s"
proof -
  obtain p where p: "info s i = Some p" using assms port_there unfolding bridge_ok_def bridge_base_def by blast
  have "root_id p \<in> I" using assms(1) p by (auto simp: bridge_ok_def bridge_base_def)
  moreover have "root_id (forward_while d p) = root_id p" "pi_role (forward_while d p) = pi_role p" "pi_age (forward_while d p) = pi_age p" for d
    by (auto simp: forward_while_def root_id_def split: port_state.split)
  ultimately show ?thesis using p set_port_ok [OF assms(1), of i "forward_while (currentFwdDelay s)"]
    by (simp add: check_forward_def get_port_info [OF p])
qed

lemma with_role_info: "\<exists>r. with_role k i p = p\<lparr>pi_role := r\<rparr>"
  by (auto simp: with_role_def intro: exI [of _ "pi_role p"])

lemma not_lowest_ok: "\<not> (\<forall>x \<in> I. own_id s \<le> x) \<Longrightarrow> bridge_ok I s \<longleftrightarrow> bridge_base I s"
  unfolding bridge_ok_def by blast

lemma lostRoot_ok:
  assumes "bridge_ok I s" "\<not> (\<forall>x \<in> I. own_id s \<le> x)"
  shows "\<exists>s'. lostRoot s = Inr s' \<and> bridge_ok I s' \<and> port_ids s' = port_ids s \<and> own_id s' = own_id s"
proof -
  let ?s = "s\<lparr>topologyChangeNotification := True\<rparr>"
  have s: "port_ids ?s = port_ids s" "own_id ?s = own_id s" by (simp_all add: port_ids_def own_id_def)
  then have "bridge_base I ?s" using table_ok(3) [OF assms(1), of True] by (simp add: bridge_ok_def)
  from tryRoot_ok [OF this] assms(2) s show ?thesis by (simp add: lostRoot_def)
qed

lemma lostAlternate_ok:
  assumes "bridge_ok I s" "\<not> (\<forall>x \<in> I. own_id s \<le> x)"
  shows "\<exists>s'. lostAlternate s = Inr s' \<and> bridge_ok I s' \<and> port_ids s' = port_ids s \<and> own_id s' = own_id s"
proof -
  have base: "bridge_base I s" "ports_there s" using assms(1) by (simp_all add: bridge_ok_def bridge_base_def)
  obtain t where t: "selectDesignatedPorts s = Inr t" "core t = core s" "port_ids t = port_ids s" "st_out t = st_out s"
    "\<And>i. info t i = map_option (with_role s i) (info s i)"
    "desPorts t = filter (\<lambda>i. designated s i (the (info s i))) (port_ids s)"
    using selectDesignatedPorts_run [OF base(2)] by blast
  note f = core_fields [OF t(2)]
  have ids: "own_id t = own_id s" "knows_root t = knows_root s" using f by (simp_all add: own_id_def knows_root_def)
  have "root_id p \<in> I" if "info t i = Some p" for i p
    using that t(5) base(1) with_role_info [of s i] by (auto simp: bridge_base_def) (metis role_irrelevant(2))
  moreover have "ports_there t" using ports_there_cong [OF t(3)] t(5) base(2) by simp
  moreover have "set (desPorts t) \<subseteq> set (port_ids t)" by (auto simp: t(3,6))
  ultimately have "bridge_base I t" using base(1) f ids t(3,4) by (simp add: bridge_base_def)
  then have "bridge_ok I t" using not_lowest_ok assms(2) ids(1) by simp
  from table_ok(3) [OF this, of True] show ?thesis
    using t(3) ids by (auto simp: lostAlternate_def t(1) port_ids_def own_id_def)
qed


lemma check_age_ok:
  assumes "bridge_ok I s" "i \<in> set (port_ids s)"
  shows "\<exists>s'. check_age i s = Inr s' \<and> bridge_ok I s' \<and> port_ids s' = port_ids s \<and> own_id s' = own_id s"
proof -
  obtain p where p: "info s i = Some p" using assms port_there unfolding bridge_ok_def bridge_base_def by blast
  show ?thesis
  proof (cases "pi_age p \<ge> currentMaxAge s")
    case True
    have low: "\<not> (\<forall>x \<in> I. own_id s \<le> x)"
    proof
      assume "\<forall>x \<in> I. own_id s \<le> x"
      then have "0 < currentMaxAge s" "pi_age p = 0" using assms(1) p unfolding bridge_ok_def lowest_ok_def by auto
      then show False using True by simp
    qed
    let ?f = "\<lambda>p. p\<lparr>pi_role := NOTASSIGNED, pi_state := DISCARDING, pi_rootPriority := bridgePriority s,
       pi_rootAddress := bridgeAddress s, pi_rootPathCost := 0, pi_age := 0, pi_bridgePriority := bridgePriority s,
       pi_bridgeAddress := bridgeAddress s, pi_portPriority := -1, pi_portNum := -1, pi_lostBPDU := 0\<rparr>"
    have "bridge_base I s" "own_id s \<in> I" using assms(1) by (simp_all add: bridge_ok_def bridge_base_def)
    then have "bridge_base I (set_port i ?f s)" by (intro set_port_base) (simp_all add: root_id_def own_id_def)
    then have "bridge_ok I (set_port i ?f s)" using not_lowest_ok [of I "set_port i ?f s"] low by simp
    from lostRoot_ok [OF this] lostAlternate_ok [OF this] low True show ?thesis
      by (simp add: check_age_def get_port_info [OF p] initInterfacedata_def)
  qed (simp add: check_age_def get_port_info [OF p] assms(1))
qed

lemma check_hello_ok:
  assumes "ids_fit I"
  shows "keeps_ok I check_hello"
  unfolding keeps_ok_def
proof (intro allI impI)
  fix s assume ok: "bridge_ok I s"
  have same: "own_id (t\<lparr>st_helloTime := h\<rparr>) = own_id t" "port_ids (t\<lparr>st_helloTime := h\<rparr>) = port_ids t" for t h
    by (simp_all add: own_id_def port_ids_def)
  obtain t where t: "generateHelloBPDUs s = Inr t" "bridge_ok I t" "port_ids t = port_ids s" "own_id t = own_id s"
    using generateHelloBPDUs_ok [OF ok assms] ok_fields_ids by blast
  show "\<exists>s'. check_hello s = Inr s' \<and> bridge_ok I s' \<and> port_ids s' = port_ids s \<and> own_id s' = own_id s"
    using t same ok table_ok(4) [OF ok, of 0] table_ok(4) [OF t(2), of 0] by (simp add: check_hello_def)
qed

lemma stp_reset_ok:
  assumes "bridge_base I s" and "(\<forall>x \<in> I. own_id s \<le> x) \<Longrightarrow> lowest_ok s"
  shows "\<exists>s'. stp_reset s = Inr s' \<and> bridge_ok I s' \<and> port_ids s' = port_ids s \<and> own_id s' = own_id s"
proof -
  define k where "k = s\<lparr>isRoot := True, rootPriority := bridgePriority s, rootAddress := bridgeAddress s, rootPathCost := 0,
       currentHelloTime := st_helloTime s, currentMaxAge := st_maxAge s, currentFwdDelay := forwardDelay s\<rparr>"
  have k: "port_ids k = port_ids s" "info k = info s" "own_id k = own_id s" "knows_root k = own_id s" "isRoot k" "st_maxAge k = st_maxAge s"
    "currentMaxAge k = st_maxAge s" "rootInterfaceId k = rootInterfaceId s" "st_out k = st_out s"
    by (simp_all add: k_def port_ids_def info_def fun_eq_iff own_id_def knows_root_def)
  have "ports_there k" using assms(1) ports_there_cong [of k s] k by (simp add: bridge_base_def)
  from setAllDesignated_run [OF this] obtain t where t: "setAllDesignated k = Inr t" "core t = core k" "port_ids t = port_ids k"
    "st_out t = st_out k" "role_list t"
    "\<And>i. info t i = map_option (\<lambda>p. if pi_role p = DISABLED then p else p\<lparr>pi_role := DESIGNATED\<rparr>) (info k i)" by blast
  note f = core_fields [OF t(2)]
  have ids: "own_id t = own_id s" "knows_root t = own_id s" using f k by (simp_all add: own_id_def knows_root_def)
  have "ports_there t" using assms(1) ports_there_cong [of t s] k t(3,6) by (simp add: bridge_base_def)
  moreover have "root_id p \<in> I" if "info t i = Some p" for i p
    using that t(6) k(2) assms(1) by (auto simp: bridge_base_def split: if_splits)
  moreover have "set (desPorts t) \<subseteq> set (port_ids t)" using t(5) by (auto simp: role_list_def)
  ultimately have "bridge_base I t" using assms(1) f ids k t(3,4) by (simp add: bridge_base_def)
  moreover have "lowest_ok t" if l: "\<forall>x \<in> I. own_id s \<le> x"
  proof -
    have "0 < st_maxAge s" using assms(1) by (simp add: bridge_base_def)
    then show ?thesis using assms(2) [OF l] f k t(6) by (auto simp: lowest_ok_def)
  qed
  ultimately show ?thesis using t(1,3) k(1) ids by (simp add: stp_reset_def k_def [symmetric] bridge_ok_def)
qed


lemma checkParametersChange_ok: "keeps_ok I checkParametersChange"
  unfolding keeps_ok_def
proof (intro allI impI)
  fix s assume ok: "bridge_ok I s"
  have max: "0 < st_maxAge s" using ok by (simp add: bridge_ok_def bridge_base_def)
  define s1 where "s1 = (if isRoot s then
      s\<lparr>currentHelloTime := st_helloTime s, currentMaxAge := st_maxAge s, currentFwdDelay := forwardDelay s\<rparr> else s)"
  define s2 where "s2 = s1\<lparr>currentBridgePriority := bridgePriority s1\<rparr>"
  have f: "port_ids t = port_ids s" "info t = info s" "own_id t = own_id s" "knows_root t = knows_root s" "isRoot t = isRoot s"
    "st_maxAge t = st_maxAge s" "rootInterfaceId t = rootInterfaceId s" "st_out t = st_out s" "desPorts t = desPorts s"
    "0 < currentMaxAge s \<Longrightarrow> 0 < currentMaxAge t" if "t = s1 \<or> t = s2" for t
    using that max by (cases "isRoot s"; auto simp: s1_def s2_def port_ids_def info_def fun_eq_iff own_id_def knows_root_def)+
  have base: "bridge_base I t" if "t = s1 \<or> t = s2" for t
    using ok f [OF that] ports_there_cong [of t s] by (simp add: bridge_ok_def bridge_base_def)
  have low: "lowest_ok t" if "t = s1 \<or> t = s2" "\<forall>x \<in> I. own_id s \<le> x" for t
    using ok f [OF that(1)] that(2) by (simp add: bridge_ok_def lowest_ok_def)
  have ok1: "bridge_ok I s1" using base low f(3) [of s1] by (simp add: bridge_ok_def)
  obtain t where "stp_reset s2 = Inr t" "bridge_ok I t" "port_ids t = port_ids s" "own_id t = own_id s"
    using stp_reset_ok [OF base [of s2]] low [of s2] f(1,3) [of s2] by auto
  moreover have "checkParametersChange s = (if currentBridgePriority s1 \<noteq> bridgePriority s1 then stp_reset s2 else Inr s1)"
    by (simp only: checkParametersChange_def Let_def s1_def [symmetric] s2_def [symmetric])
  ultimately show "\<exists>s'. checkParametersChange s = Inr s' \<and> bridge_ok I s' \<and> port_ids s' = port_ids s \<and> own_id s' = own_id s"
    using ok1 f(1,3) [of s1] by simp
qed

lemma handleTick_ok:
  assumes "ids_fit I"
  shows "keeps_ok I handleTick"
proof -
  have timers: "keeps_ok I checkTimers"
    unfolding checkTimers_def
    by (intro keeps_ok_bind check_hello_ok [OF assms] ports_keep_ok check_age_ok check_forward_ok)
  have hello: "keeps_ok I (\<lambda>s. foldE tick_port (port_ids s) (s\<lparr>st_helloTime := if isRoot s then st_helloTime s + seconds 1 else 0\<rparr>))"
    unfolding keeps_ok_def
  proof (intro allI impI)
    fix s assume "bridge_ok I s"
    then have "bridge_ok I (s\<lparr>st_helloTime := h\<rparr>)" for h by (rule table_ok(4))
    moreover have "keeps_ok I (\<lambda>s. foldE tick_port (port_ids s) s)" by (rule ports_keep_ok [OF tick_port_ok])
    moreover have "port_ids (s\<lparr>st_helloTime := h\<rparr>) = port_ids s" "own_id (s\<lparr>st_helloTime := h\<rparr>) = own_id s" for h
      by (simp_all add: port_ids_def own_id_def)
    ultimately show "\<exists>s'. foldE tick_port (port_ids s) (s\<lparr>st_helloTime := if isRoot s then st_helloTime s + seconds 1 else 0\<rparr>) = Inr s'
        \<and> bridge_ok I s' \<and> port_ids s' = port_ids s \<and> own_id s' = own_id s" unfolding keeps_ok_def by metis
  qed
  show ?thesis unfolding handleTick_def
    by (intro keeps_ok_bind hello timers checkParametersChange_ok generateTCN_ok)
qed

section \<open>Starting\<close>

lemma initPortTable_run:
  assumes "ports_there s"
  shows "\<exists>t. initPortTable s = Inr t \<and> core t = core s \<and> port_ids t = port_ids s \<and> st_out t = st_out s
    \<and> ports_there t \<and> (\<forall>i p. info t i = Some p \<longrightarrow> root_id p = own_id s \<and> pi_role p = NOTASSIGNED \<and> pi_age p = 0)"
proof -
  define u where "u = (\<lambda>(i::int) (p::port_info). p\<lparr>pi_role := NOTASSIGNED, pi_state := DISCARDING, pi_rootPriority := bridgePriority s,
       pi_rootAddress := bridgeAddress s, pi_rootPathCost := 0, pi_age := 0, pi_bridgePriority := bridgePriority s,
       pi_bridgeAddress := bridgeAddress s, pi_portPriority := -1, pi_portNum := -1, pi_lostBPDU := 0\<rparr>)"
  have "port_op s initInterfacedata u (\<lambda>i p. False)"
    unfolding port_op_def
  proof (intro allI impI)
    fix i t p assume t: "core t = core s" "info t i = Some p"
    have "initInterfacedata i t = Inr (set_port i (u i) t)"
      by (simp add: initInterfacedata_def get_port_info [OF t(2)] u_def core_fields [OF t(1)])
    then show "\<exists>s'. initInterfacedata i t = Inr s' \<and> core s' = core s \<and> port_ids s' = port_ids t \<and> info s' = (info t)(i \<mapsto> u i p)
        \<and> st_out s' = st_out t \<and> desPorts s' = desPorts t @ (if False then [i] else [])"
      using t by (auto simp: fun_eq_iff)
  qed
  from port_loop [OF this, of "port_ids s" s] assms obtain t where t: "initPortTable s = Inr t" "core t = core s"
    "port_ids t = port_ids s" "st_out t = st_out s"
    "\<And>j. info t j = (if j \<in> set (port_ids s) then map_option (u j) (info s j) else info s j)"
    by (auto simp: initPortTable_def ports_there_def)
  have all: "info t j = map_option (u j) (info s j)" for j using t(5) info_outside [of j s] by simp
  then have "ports_there t" using ports_there_cong [OF t(3)] assms by simp
  moreover have "\<forall>i p. info t i = Some p \<longrightarrow> root_id p = own_id s \<and> pi_role p = NOTASSIGNED \<and> pi_age p = 0"
    by (auto simp: all u_def root_id_def own_id_def)
  ultimately show ?thesis using t(1-4) by blast
qed

lemma stp_start_ok:
  assumes "stp_start now s = Inr s'" "ports_there s" "0 < st_maxAge s" "st_out s = []" "own_id s' \<in> I"
  shows "bridge_ok I s'" "bridgePriority s' = bridgePriority s"
proof -
  obtain c where c: "chooseInterface (st_ports s) = Some c" using assms(1) by (auto simp: stp_start_def split: option.splits)
  let ?s = "s\<lparr>bridgeAddress := sp_macAddress c\<rparr>"
  have same: "port_ids ?s = port_ids s" "info ?s = info s" by (simp_all add: port_ids_def info_def fun_eq_iff)
  then have "ports_there ?s" using assms(2) ports_there_cong [of ?s s] by simp
  from initPortTable_run [OF this] obtain t where t: "initPortTable ?s = Inr t" "core t = core ?s" "port_ids t = port_ids s"
    "st_out t = st_out ?s" "ports_there t" "\<And>i p. info t i = Some p \<Longrightarrow> root_id p = own_id ?s \<and> pi_role p = NOTASSIGNED \<and> pi_age p = 0"
    using same(1) by metis
  define k where "k = t\<lparr>currentBridgePriority := bridgePriority t, isRoot := True,
              topologyChangeNotification := True, topologyChangeRecvd := True, rootPriority := bridgePriority t,
              rootAddress := bridgeAddress t, rootPathCost := 0, rootInterfaceId := hd (port_ids t),
              currentHelloTime := st_helloTime t, currentMaxAge := st_maxAge t, currentFwdDelay := forwardDelay t,
              st_helloTime := 0\<rparr>"
  note f = core_fields [OF t(2)]
  have k: "port_ids k = port_ids s" "info k = info t" "own_id k = own_id ?s" "knows_root k = own_id ?s" "isRoot k" "st_maxAge k = st_maxAge s"
    "currentMaxAge k = st_maxAge s" "rootInterfaceId k = hd (port_ids s)" "st_out k = []"
    using f t(3,4) assms(4) by (simp_all add: k_def port_ids_def info_def fun_eq_iff own_id_def knows_root_def)
  have "ports_there k" using t(3,5) ports_there_cong [of k t] k(1,2) by simp
  from setAllDesignated_run [OF this] obtain v where v: "setAllDesignated k = Inr v" "core v = core k" "port_ids v = port_ids k"
    "st_out v = st_out k" "role_list v"
    "\<And>i. info v i = map_option (\<lambda>p. if pi_role p = DISABLED then p else p\<lparr>pi_role := DESIGNATED\<rparr>) (info k i)" by blast
  note g = core_fields [OF v(2)]
  have "stp_start now s = bindE (schedule (tick v) (now + tickInterval)) (\<lambda>tm. Inr (v\<lparr>tick := tm\<rparr>))"
    by (simp add: stp_start_def c t(1) k_def [symmetric] v(1))
  then obtain tm where s': "s' = v\<lparr>tick := tm\<rparr>" using assms(1) by (auto simp: bindE_def split: sum.splits)
  have e: "port_ids s' = port_ids s" "info s' = info v" "own_id s' = own_id ?s" "knows_root s' = own_id ?s" "isRoot s'"
    "st_maxAge s' = st_maxAge s" "currentMaxAge s' = st_maxAge s" "rootInterfaceId s' = hd (port_ids s)" "st_out s' = []"
    "desPorts s' = desPorts v"
    using g k v(3,4) by (simp_all add: s' port_ids_def info_def fun_eq_iff own_id_def knows_root_def)
  have "ports_there s'" using t(3,5) ports_there_cong [of s' t] e(1,2) v(6) k(2) by simp
  moreover have ports: "root_id p = own_id ?s \<and> pi_role p = DESIGNATED \<and> pi_age p = 0" if i: "info s' i = Some p" for i p
  proof -
    obtain q where q: "info t i = Some q" "p = (if pi_role q = DISABLED then q else q\<lparr>pi_role := DESIGNATED\<rparr>)"
      using i unfolding e(2) v(6) k(2) map_option_eq_Some by metis
    show ?thesis using t(6) [OF q(1)] q(2) by auto
  qed
  moreover have "set (desPorts s') \<subseteq> set (port_ids s')" using v(3,5) k(1) e(1,10) by (auto simp: role_list_def)
  moreover have "hd (port_ids s) \<in> set (port_ids s)" using assms(2) by (simp add: ports_there_def)
  ultimately show "bridge_ok I s'" using e assms(3,5) unfolding bridge_ok_def bridge_base_def lowest_ok_def by simp
  show "bridgePriority s' = bridgePriority s" using e(3) by (simp add: own_id_def)
qed


section \<open>The network\<close>

text \<open>
  Bridges named by \<open>'b\<close> after some of their events. Whatever was ever sent may arrive at any port of any
  bridge, at any time and any number of times, or not at all: this covers every cabling, delay and loss.
\<close>

inductive stp_runs :: "('b \<Rightarrow> stp) \<Rightarrow> ('b \<Rightarrow> stp) \<Rightarrow> bool" for n0 where
  nothing_yet: "stp_runs n0 n0"
| bpdu_arrives: "stp_runs n0 n \<Longrightarrow> q \<in> set (st_out (n a)) \<Longrightarrow> bp_bpdu q = Cfg c \<Longrightarrow> i \<in> set (port_ids (n b)) \<Longrightarrow>
    handleBPDU i c (n b) = Inr s \<Longrightarrow> stp_runs n0 (n(b := s))"
| tcn_arrives: "stp_runs n0 n \<Longrightarrow> q \<in> set (st_out (n a)) \<Longrightarrow> bp_bpdu q = Tcn \<Longrightarrow> i \<in> set (port_ids (n b)) \<Longrightarrow>
    handleTCN i (bp_src q) (bp_dest q) (n b) = Inr s \<Longrightarrow> stp_runs n0 (n(b := s))"
| ticks: "stp_runs n0 n \<Longrightarrow> handleTick (n b) = Inr s \<Longrightarrow> stp_runs n0 (n(b := s))"

text \<open>The bridges of a network as they come out of their start.\<close>

definition all_started :: "('b \<Rightarrow> stp) \<Rightarrow> bool" where
  "all_started n0 \<longleftrightarrow> (\<forall>b. \<exists>now priority maxAge hello delay aging ports.
     stp_start now (new_stp priority maxAge hello delay aging ports) = Inr (n0 b)
     \<and> priority < 0x10000 \<and> 0 < maxAge \<and> distinct (map sp_id ports) \<and> list_all (\<lambda>p. sp_data p \<noteq> None) ports)"

definition network_ok :: "bridge_id set \<Rightarrow> ('b \<Rightarrow> stp) \<Rightarrow> ('b \<Rightarrow> stp) \<Rightarrow> bool" where
  "network_ok I n0 n \<longleftrightarrow> (\<forall>b. bridge_ok I (n b) \<and> own_id (n b) = own_id (n0 b))"

lemma sent_root: "bridge_ok I s \<Longrightarrow> q \<in> set (st_out s) \<Longrightarrow> bp_bpdu q = Cfg c \<Longrightarrow> bpdu_root c \<in> I"
  by (auto simp: bridge_ok_def bridge_base_def)

lemma network_ok_step:
  assumes "network_ok I n0 n" "bridge_ok I s" "own_id s = own_id (n b)"
  shows "network_ok I n0 (n(b := s))"
  using assms by (simp add: network_ok_def)

lemma runs_keep_ok:
  assumes "stp_runs n0 n" "network_ok I n0 n0" "ids_fit I"
  shows "network_ok I n0 n"
  using assms(1)
proof (induction rule: stp_runs.induct)
  case (bpdu_arrives n q a c i b s)
  have ok: "bridge_ok I (n b)" "bpdu_root c \<in> I"
    using bpdu_arrives.IH sent_root [OF _ bpdu_arrives.hyps(2,3)] by (auto simp: network_ok_def)
  then show ?case using handleBPDU_ok [OF ok(1) assms(3) ok(2)] bpdu_arrives.hyps(4,5) network_ok_step [OF bpdu_arrives.IH] by fastforce
next
  case (tcn_arrives n q a i b s)
  have "bridge_ok I (n b)" using tcn_arrives.IH by (auto simp: network_ok_def)
  from handleTCN_ok [OF this assms(3) tcn_arrives.hyps(4)] tcn_arrives.hyps(5)
  have "bridge_ok I s \<and> own_id s = own_id (n b)" by (metis sum.inject(2))
  then show ?case using network_ok_step [OF tcn_arrives.IH] by blast
next
  case (ticks n b s)
  have "bridge_ok I (n b)" using ticks.IH by (auto simp: network_ok_def)
  then show ?case using keeps_ok_D [OF handleTick_ok [OF assms(3)]] ticks.hyps(2) network_ok_step [OF ticks.IH] by fastforce
qed (rule assms(2))

lemma fresh_ports:
  assumes "distinct (map sp_id ports)" "list_all (\<lambda>p. sp_data p \<noteq> None) ports" "ports \<noteq> []"
  shows "ports_there (new_stp priority maxAge hello delay aging ports)"
proof -
  have "find (\<lambda>p. sp_id p = i) ports \<noteq> None" if "i \<in> sp_id ` set ports" for i using that by (auto simp: find_None_iff)
  moreover have "p \<in> set ports" if "find (\<lambda>p. sp_id p = i) ports = Some p" for i p
    using that by (auto simp: find_Some_iff)
  ultimately show ?thesis using assms by (fastforce simp: ports_there_def port_ids_def info_def new_stp_def list_all_iff)
qed

lemma started_ok:
  assumes "all_started n0"
  shows "network_ok (range (\<lambda>b. own_id (n0 b))) n0 n0" "ids_fit (range (\<lambda>b. own_id (n0 b)))"
proof -
  have "bridge_ok (range (\<lambda>b. own_id (n0 b))) (n0 b) \<and> bridgePriority (n0 b) < 0x10000" for b
  proof -
    obtain now priority maxAge hello delay aging ports where
      s: "stp_start now (new_stp priority maxAge hello delay aging ports) = Inr (n0 b)" "priority < 0x10000" "0 < maxAge"
        "distinct (map sp_id ports)" "list_all (\<lambda>p. sp_data p \<noteq> None) ports"
      using assms unfolding all_started_def by blast
    have "ports \<noteq> []" using s(1) by (auto simp: stp_start_def chooseInterface_def new_stp_def)
    from fresh_ports [OF s(4,5) this] have "ports_there (new_stp priority maxAge hello delay aging ports)" .
    from stp_start_ok [OF s(1) this, of "range (\<lambda>b. own_id (n0 b))"] s(2,3) show ?thesis by (simp add: new_stp_def)
  qed
  then show "network_ok (range (\<lambda>b. own_id (n0 b))) n0 n0" "ids_fit (range (\<lambda>b. own_id (n0 b)))"
    by (auto simp: network_ok_def ids_fit_def own_id_def)
qed



definition example_stp_bridge :: "mac_address \<Rightarrow> stp" where
  "example_stp_bridge a = projr (stp_start 0 (new_stp 32768 (seconds 20) (seconds 2) (seconds 15) (seconds 120)
     (map (\<lambda>p. p\<lparr>sp_macAddress := a\<rparr>) example_bridge_ports)))"

text \<open>Bridge \<open>True\<close> has the lower address; its first tick sends a BPDU that the other one gets.\<close>

definition example_bridges :: "bool \<Rightarrow> stp" where
  "example_bridges b = (if b then example_stp_bridge 3 else example_stp_bridge 5)"

definition after_tick :: stp where "after_tick = projr (handleTick (example_stp_bridge 3))"

definition sent_bpdu :: bpdu_cfg where
  "sent_bpdu = (case bp_bpdu (hd (st_out after_tick)) of Cfg c \<Rightarrow> c)"

definition after_bpdu :: stp where "after_bpdu = projr (handleBPDU 102 sent_bpdu (example_stp_bridge 5))"

lemma example_bridges_started: "all_started example_bridges"
proof -
  have started: "\<not> isl (stp_start 0 (new_stp 32768 (seconds 20) (seconds 2) (seconds 15) (seconds 120)
      (map (\<lambda>p. p\<lparr>sp_macAddress := a\<rparr>) example_bridge_ports)))" if "a = 3 \<or> a = 5" for a
    using that by (elim disjE) (simp_all only:, code_simp+)
  have ports: "distinct (map sp_id (map (\<lambda>p. p\<lparr>sp_macAddress := a\<rparr>) example_bridge_ports))"
    "list_all (\<lambda>p. sp_data p \<noteq> None) (map (\<lambda>p. p\<lparr>sp_macAddress := a\<rparr>) example_bridge_ports)" for a
    by (simp_all add: example_bridge_ports_def)
  show ?thesis
    unfolding all_started_def
  proof
    fix b
    obtain a where a: "example_bridges b = example_stp_bridge a" "a = 3 \<or> a = 5" by (cases b) (simp_all add: example_bridges_def)
    have "stp_start 0 (new_stp 32768 (seconds 20) (seconds 2) (seconds 15) (seconds 120)
      (map (\<lambda>p. p\<lparr>sp_macAddress := a\<rparr>) example_bridge_ports)) = Inr (example_bridges b)"
      using started [OF a(2)] by (simp add: a(1) example_stp_bridge_def sum.collapse)
    then show "\<exists>now priority maxAge hello delay aging ports.
     stp_start now (new_stp priority maxAge hello delay aging ports) = Inr (example_bridges b)
     \<and> priority < 0x10000 \<and> 0 < maxAge \<and> distinct (map sp_id ports) \<and> list_all (\<lambda>p. sp_data p \<noteq> None) ports"
      using ports [of a] by (intro exI conjI) (assumption, simp_all add: seconds_def)
  qed
qed

lemma example_bridges_lowest: "\<forall>b. own_id (example_bridges True) \<le> own_id (example_bridges b)"
  by (rule allI, case_tac b) (simp_all only: example_bridges_def if_True if_False order_refl, code_simp)

lemma example_bridges_run: "stp_runs example_bridges (example_bridges(True := after_tick, False := after_bpdu))"
proof -
  have tick: "handleTick (example_bridges True) = Inr after_tick"
  proof -
    have "\<not> isl (handleTick (example_stp_bridge 3))" by code_simp
    then show ?thesis by (simp add: example_bridges_def after_tick_def sum.collapse)
  qed
  have out: "st_out after_tick \<noteq> []" "case bp_bpdu (hd (st_out after_tick)) of Cfg c \<Rightarrow> True | Tcn \<Rightarrow> False" by code_simp+
  have bpdu: "handleBPDU 102 sent_bpdu (example_bridges False) = Inr after_bpdu"
  proof -
    have "\<not> isl (handleBPDU 102 sent_bpdu (example_stp_bridge 5))" by code_simp
    then show ?thesis by (simp add: example_bridges_def after_bpdu_def sum.collapse)
  qed
  have port: "102 \<in> set (port_ids (example_bridges False))" by code_simp
  have "bp_bpdu (hd (st_out after_tick)) = Cfg sent_bpdu" using out(2) by (simp add: sent_bpdu_def split: bpdu.splits)
  moreover have "stp_runs example_bridges (example_bridges(True := after_tick))"
    by (rule ticks [OF nothing_yet, where b = True]) (rule tick)
  ultimately show ?thesis
    using bpdu_arrives [of example_bridges "example_bridges(True := after_tick)" "hd (st_out after_tick)" True sent_bpdu 102 False]
      out(1) bpdu port by simp
qed


end
