(* ===== verification/L3_Address.thy ===== *)
theory L3_Address
  imports Ipv4_Address
begin

text \<open>
  \<open>networklayer/common/L3Address.cc\<close>: network addresses of several kinds in 128 bits. The upper half of
  an address that is not an IPv6 address begins with a reserved IPv6 prefix and ends with its type.
\<close>

record l3addr =
  l3_hi :: u64
  l3_lo :: u64

datatype l3_type = NONE | IPv4 | IPv6 | CLNS | MAC | MODULEPATH | MODULEID | NoType

definition l3_types :: "l3_type list" where
  "l3_types = [NONE, IPv4, IPv6, CLNS, MAC, MODULEPATH, MODULEID]"

fun l3_number :: "l3_type \<Rightarrow> u64" where
  "l3_number NONE = 0"
| "l3_number IPv4 = 1"
| "l3_number IPv6 = 2"
| "l3_number CLNS = 3"
| "l3_number MAC = 4"
| "l3_number MODULEPATH = 5"
| "l3_number MODULEID = 6"
| "l3_number NoType = 7"

definition l3_getType :: "l3addr \<Rightarrow> l3_type" where
  "l3_getType a =
     (if drop_bit 48 (l3_hi a) = 0x8000 then
        (case find (\<lambda>t. l3_number t = l3_hi a AND 0xFF) l3_types of None \<Rightarrow> NoType | Some t \<Rightarrow> t)
      else IPv6)"

definition l3_set :: "l3_type \<Rightarrow> u64 \<Rightarrow> l3addr" where
  "l3_set t lo = \<lparr>l3_hi = push_bit 48 0x8000 + l3_number t, l3_lo = lo\<rparr>"

definition l3_none :: l3addr where "l3_none = l3_set NONE 0"

definition l3_ipv4 :: "ipv4_address \<Rightarrow> l3addr" where "l3_ipv4 a = l3_set IPv4 (ucast a)"

text \<open>An address of type \<open>NONE\<close> converts to the address of value 0.\<close>

definition l3_toIpv4 :: "l3addr \<Rightarrow> ipv4_address" where
  "l3_toIpv4 a = (if l3_getType a = NONE then 0 else ucast (l3_lo a))"

definition l3_toMac :: "l3addr \<Rightarrow> mac_address" where
  "l3_toMac a = (if l3_getType a = NONE then 0 else l3_lo a)"

text \<open>\<open>ModuleIdAddress\<close> and \<open>ModulePathAddress\<close>: an \<open>int\<close>.\<close>

definition l3_toId :: "l3addr \<Rightarrow> int" where
  "l3_toId a = (if l3_getType a = NONE then 0 else sint (ucast (l3_lo a) :: u32))"

text \<open>The scope of an IPv6 address, as far as multicast addresses need it.\<close>

definition ipv6_isMulticast :: "l3addr \<Rightarrow> bool" where
  "ipv6_isMulticast a =
     (let d0 = (ucast (drop_bit 32 (l3_hi a)) :: u32) in
      if d0 AND 0xFFC00000 = 0xFE800000 then False
      else if d0 AND 0xFFC00000 = 0xFEC00000 then False
      else d0 AND 0xFF000000 = 0xFF000000)"

abbreviation unknown_type :: "'a outcome" where
  "unknown_type \<equiv> Inl (RuntimeError ''Unknown type'')"

abbreviation no_value :: "'a outcome" where
  "no_value \<equiv> Inl (RuntimeError ''Address contains no value'')"

definition l3_isUnspecified :: "l3addr \<Rightarrow> bool outcome" where
  "l3_isUnspecified a =
     (case l3_getType a of
        NONE \<Rightarrow> Inr True
      | IPv4 \<Rightarrow> Inr (isUnspecified (l3_toIpv4 a))
      | IPv6 \<Rightarrow> Inr (l3_hi a = 0 \<and> l3_lo a = 0)
      | MAC \<Rightarrow> Inr (l3_toMac a = 0)
      | MODULEID \<Rightarrow> Inr (l3_toId a = 0)
      | MODULEPATH \<Rightarrow> Inr (l3_toId a = 0)
      | _ \<Rightarrow> unknown_type)"

definition l3_isMulticast :: "l3addr \<Rightarrow> bool outcome" where
  "l3_isMulticast a =
     (case l3_getType a of
        NONE \<Rightarrow> no_value
      | IPv4 \<Rightarrow> Inr (isMulticast (l3_toIpv4 a))
      | IPv6 \<Rightarrow> Inr (ipv6_isMulticast a)
      | MAC \<Rightarrow> Inr (mac_isMulticast (l3_toMac a))
      | MODULEID \<Rightarrow> Inr (l3_toId a < -1)
      | MODULEPATH \<Rightarrow> Inr (l3_toId a < -1)
      | _ \<Rightarrow> unknown_type)"

definition l3_isBroadcast :: "l3addr \<Rightarrow> bool outcome" where
  "l3_isBroadcast a =
     (case l3_getType a of
        NONE \<Rightarrow> no_value
      | IPv4 \<Rightarrow> Inr (isLimitedBroadcastAddress (l3_toIpv4 a))
      | IPv6 \<Rightarrow> Inr False
      | MAC \<Rightarrow> Inr (mac_isBroadcast (l3_toMac a))
      | MODULEID \<Rightarrow> Inr (l3_toId a = -1)
      | MODULEPATH \<Rightarrow> Inr (l3_toId a = -1)
      | _ \<Rightarrow> unknown_type)"

definition l3_less :: "l3addr \<Rightarrow> l3addr \<Rightarrow> bool outcome" where
  "l3_less a b =
     (if l3_getType a \<noteq> l3_getType b then Inr (l3_number (l3_getType a) < l3_number (l3_getType b))
      else
        (case l3_getType a of
           NONE \<Rightarrow> no_value
         | IPv4 \<Rightarrow> Inr (l3_toIpv4 a < l3_toIpv4 b)
         | IPv6 \<Rightarrow> Inr (l3_hi a < l3_hi b \<or> l3_hi a = l3_hi b \<and> l3_lo a < l3_lo b)
         | MAC \<Rightarrow> Inr (l3_toMac a < l3_toMac b)
         | MODULEID \<Rightarrow> Inr (l3_toId a < l3_toId b)
         | MODULEPATH \<Rightarrow> Inr (l3_toId a < l3_toId b)
         | _ \<Rightarrow> unknown_type))"

definition l3_eq :: "l3addr \<Rightarrow> l3addr \<Rightarrow> bool outcome" where
  "l3_eq a b =
     (if l3_getType a \<noteq> l3_getType b then Inr False
      else
        (case l3_getType a of
           NONE \<Rightarrow> Inr True
         | IPv4 \<Rightarrow> Inr (l3_toIpv4 a = l3_toIpv4 b)
         | IPv6 \<Rightarrow> Inr (l3_hi a = l3_hi b \<and> l3_lo a = l3_lo b)
         | MAC \<Rightarrow> Inr (l3_toMac a = l3_toMac b)
         | MODULEID \<Rightarrow> Inr (l3_toId a = l3_toId b)
         | MODULEPATH \<Rightarrow> Inr (l3_toId a = l3_toId b)
         | _ \<Rightarrow> unknown_type))"

section \<open>Addresses in normal form\<close>

text \<open>The empty address, IPv4 and IPv6 addresses, which the code builds in one way only.\<close>

definition l3_plain :: "l3addr \<Rightarrow> bool" where
  "l3_plain a \<longleftrightarrow> a = l3_none \<or> (\<exists>x. a = l3_ipv4 x) \<or> l3_getType a = IPv6"

lemma l3_getType_set: "t \<noteq> IPv6 \<Longrightarrow> l3_getType (l3_set t lo) = t"
  by (cases t; simp add: l3_getType_def l3_set_def l3_types_def) 

lemma l3_getType_none [simp]: "l3_getType l3_none = NONE"
  by (simp add: l3_none_def l3_getType_set)

lemma l3_getType_ipv4 [simp]: "l3_getType (l3_ipv4 a) = IPv4"
  by (simp add: l3_ipv4_def l3_getType_set)

lemma l3_toIpv4_ipv4 [simp]: "l3_toIpv4 (l3_ipv4 a) = a"
proof -
  have "ucast (ucast a :: u64) = a"
    by (rule bit_word_eqI) (auto simp: bit_simps dest: bit_imp_le_length)
  then show ?thesis by (simp add: l3_toIpv4_def) (simp add: l3_ipv4_def l3_set_def)
qed

lemma l3_ipv4_inject [simp]: "l3_ipv4 a = l3_ipv4 b \<longleftrightarrow> a = b"
  by (metis l3_toIpv4_ipv4)

lemma l3_none_not_ipv4 [simp]: "l3_none \<noteq> l3_ipv4 a" "l3_ipv4 a \<noteq> l3_none"
  by (metis l3_getType_ipv4 l3_getType_none l3_type.distinct(1))+

lemma l3_plain_ipv4 [simp]: "l3_plain (l3_ipv4 a)" "l3_plain l3_none"
  by (auto simp: l3_plain_def)

lemma l3_eq_plain: "l3_plain a \<Longrightarrow> l3_plain b \<Longrightarrow> l3_eq a b = Inr (a = b)"
  unfolding l3_plain_def by (elim disjE exE) (auto simp: l3_eq_def)

definition l3_any :: "l3addr \<Rightarrow> bool" where
  "l3_any a \<longleftrightarrow> l3_isUnspecified a = Inr True"

lemma l3_isUnspecified_plain: "l3_plain a \<Longrightarrow> l3_isUnspecified a = Inr (l3_any a)"
  unfolding l3_plain_def by (elim disjE exE) (auto simp: l3_isUnspecified_def l3_any_def)

lemma l3_any_simps [simp]: "l3_any l3_none" "l3_any (l3_ipv4 a) \<longleftrightarrow> a = 0"
  by (auto simp: l3_any_def l3_isUnspecified_def isUnspecified_def)

lemma l3_kind_ipv4 [simp]:
  "l3_isMulticast (l3_ipv4 a) = Inr (isMulticast a)" "l3_isBroadcast (l3_ipv4 a) = Inr (isLimitedBroadcastAddress a)"
  by (simp_all add: l3_isMulticast_def l3_isBroadcast_def)

end
