(* ===== verification/Udp_Socket.thy ===== *)
theory Udp_Socket
  imports L3_Address Ipv4_Datagram Port_Search
begin

text \<open>
  The sockets of \<open>transportlayer/udp/Udp.cc\<close>: their tables, ports, options and multicast memberships. A
  socket descriptor is found by its id and by its port; the pointers of the code are the ids, since a
  descriptor lives as long as its entry in \<open>socketsByIdMap\<close>.
\<close>

section \<open>State\<close>

datatype filter_mode = INCLUDE_SOURCES | EXCLUDE_SOURCES

record mcast_membership =
  mm_multicastAddress :: l3addr
  mm_interfaceId :: int
  mm_filterMode :: filter_mode
  mm_sourceList :: "l3addr list"

record sock_desc =
  sd_sockId :: int
  sd_isBound :: bool
  sd_onlyLocalPortIsSet :: bool
  sd_reuseAddr :: bool
  sd_localAddr :: l3addr
  sd_remoteAddr :: l3addr
  sd_localPort :: int
  sd_remotePort :: int
  sd_isBroadcast :: bool
  sd_multicastOutputInterfaceId :: int
  sd_multicastLoop :: bool
  sd_ttl :: int
  sd_dscp :: int
  sd_tos :: int
  sd_memberships :: "mcast_membership list"

definition new_sock_desc :: "int \<Rightarrow> sock_desc" where
  "new_sock_desc i =
     \<lparr>sd_sockId = i, sd_isBound = False, sd_onlyLocalPortIsSet = False, sd_reuseAddr = False,
      sd_localAddr = l3_none, sd_remoteAddr = l3_none, sd_localPort = -1, sd_remotePort = -1, sd_isBroadcast = False,
      sd_multicastOutputInterfaceId = -1, sd_multicastLoop = True, sd_ttl = -1, sd_dscp = -1, sd_tos = -1, sd_memberships = []\<rparr>"

text \<open>What the module asks of an interface: to join a group, or to change the filter of its sources.\<close>

datatype interface_request =
  JoinGroup int l3addr
| ChangeMembership int l3addr filter_mode "l3addr list" filter_mode "l3addr list"

text \<open>The state of the sockets, which the module extends. An interface is its id and whether it does multicast.\<close>

record udp_sockets =
  socketsByIdMap :: "int \<rightharpoonup> sock_desc"
  socketsByPortMap :: "int \<rightharpoonup> int list"
  us_lastEphemeralPort :: u16
  us_interfaces :: "(int \<times> bool) list"
  us_requests :: "interface_request list"

type_synonym 'z sockets = "'z udp_sockets_scheme"

definition sock :: "'z sockets \<Rightarrow> int \<Rightarrow> sock_desc outcome" where
  "sock u i = (case socketsByIdMap u i of None \<Rightarrow> Inl (UndefinedBehaviour ''deleted socket'') | Some sd \<Rightarrow> Inr sd)"

definition put_sock :: "sock_desc \<Rightarrow> 'z sockets \<Rightarrow> 'z sockets" where
  "put_sock sd u = u\<lparr>socketsByIdMap := (socketsByIdMap u)(sd_sockId sd \<mapsto> sd)\<rparr>"

text \<open>\<open>socketsByPortMap[port]\<close>, which makes an empty list when there is none.\<close>

definition port_list :: "'z sockets \<Rightarrow> int \<Rightarrow> int list" where
  "port_list u p = (case socketsByPortMap u p of None \<Rightarrow> [] | Some is \<Rightarrow> is)"

definition set_port_list :: "int \<Rightarrow> int list \<Rightarrow> 'z sockets \<Rightarrow> 'z sockets" where
  "set_port_list p is u = u\<lparr>socketsByPortMap := (socketsByPortMap u)(p \<mapsto> is)\<rparr>"

definition request :: "interface_request \<Rightarrow> 'z sockets \<Rightarrow> 'z sockets" where
  "request r u = u\<lparr>us_requests := us_requests u @ [r]\<rparr>"

text \<open>Conjunction and disjunction of conditions that may fail, evaluated from the left.\<close>

definition andE :: "bool outcome \<Rightarrow> bool outcome \<Rightarrow> bool outcome" where
  "andE a b = bindE a (\<lambda>x. if x then b else Inr False)"

definition orE :: "bool outcome \<Rightarrow> bool outcome \<Rightarrow> bool outcome" where
  "orE a b = bindE a (\<lambda>x. if x then Inr True else b)"

lemma andE_Inr [simp]: "andE (Inr x) (Inr y) = Inr (x \<and> y)"
  by (simp add: andE_def)

lemma orE_Inr [simp]: "orE (Inr x) (Inr y) = Inr (x \<or> y)"
  by (simp add: orE_def)

fun findE :: "('x \<Rightarrow> bool outcome) \<Rightarrow> 'x list \<Rightarrow> 'x option outcome" where
  "findE P [] = Inr None"
| "findE P (x # xs) = bindE (P x) (\<lambda>yes. if yes then Inr (Some x) else findE P xs)"

section \<open>Multicast memberships\<close>

definition lessMembership :: "mcast_membership \<Rightarrow> mcast_membership \<Rightarrow> bool outcome" where
  "lessMembership x y =
     bindE (l3_eq (mm_multicastAddress x) (mm_multicastAddress y)) (\<lambda>eq.
     if \<not> eq then l3_less (mm_multicastAddress x) (mm_multicastAddress y)
     else if mm_interfaceId x = -1 \<or> mm_interfaceId x \<ge> mm_interfaceId y then Inr False
     else Inr True)"

text \<open>\<open>std::lower_bound\<close>: binary search for the first element that is not before the given one.\<close>

function lower_bound_loop :: "('a \<Rightarrow> bool outcome) \<Rightarrow> 'a list \<Rightarrow> nat \<Rightarrow> nat \<Rightarrow> nat outcome" where
  "lower_bound_loop before xs first len =
     (if len = 0 then Inr first
      else
        let half = len div 2; middle = first + half in
        bindE (before (xs ! middle)) (\<lambda>b.
        if b then lower_bound_loop before xs (middle + 1) (len - half - 1)
        else lower_bound_loop before xs first half))"
  by pat_completeness auto
termination by (relation "measure (\<lambda>(before, xs, first, len). len)") auto

declare lower_bound_loop.simps [simp del]

definition lower_bound :: "mcast_membership \<Rightarrow> mcast_membership list \<Rightarrow> nat outcome" where
  "lower_bound m ms = lower_bound_loop (\<lambda>x. lessMembership x m) ms 0 (length ms)"

definition membership_key :: "l3addr \<Rightarrow> int \<Rightarrow> mcast_membership" where
  "membership_key a i = \<lparr>mm_multicastAddress = a, mm_interfaceId = i, mm_filterMode = INCLUDE_SOURCES, mm_sourceList = []\<rparr>"

definition findFirstMulticastMembership :: "l3addr \<Rightarrow> sock_desc \<Rightarrow> nat option outcome" where
  "findFirstMulticastMembership a sd =
     bindE (lower_bound (membership_key a 0) (sd_memberships sd)) (\<lambda>n.
     if n < length (sd_memberships sd) then
       bindE (l3_eq (mm_multicastAddress (sd_memberships sd ! n)) a) (\<lambda>eq. Inr (if eq then Some n else None))
     else Inr None)"

definition findMulticastMembership :: "l3addr \<Rightarrow> int \<Rightarrow> sock_desc \<Rightarrow> nat option outcome" where
  "findMulticastMembership a i sd =
     bindE (lower_bound (membership_key a i) (sd_memberships sd)) (\<lambda>n.
     if n < length (sd_memberships sd) then
       bindE (l3_eq (mm_multicastAddress (sd_memberships sd ! n)) a) (\<lambda>eq.
       Inr (if eq \<and> mm_interfaceId (sd_memberships sd ! n) = i then Some n else None))
     else Inr None)"

text \<open>The socket with the new membership, and the place of the membership.\<close>

definition addMulticastMembership :: "mcast_membership \<Rightarrow> sock_desc \<Rightarrow> (nat \<times> sock_desc) outcome" where
  "addMulticastMembership m sd =
     bindE (lower_bound m (sd_memberships sd)) (\<lambda>n.
     Inr (n, sd\<lparr>sd_memberships := take n (sd_memberships sd) @ m # drop n (sd_memberships sd)\<rparr>))"

definition deleteMulticastMembership :: "nat \<Rightarrow> sock_desc \<Rightarrow> sock_desc" where
  "deleteMulticastMembership n sd = sd\<lparr>sd_memberships := take n (sd_memberships sd) @ drop (Suc n) (sd_memberships sd)\<rparr>"

definition has_source :: "l3addr list \<Rightarrow> l3addr \<Rightarrow> bool outcome" where
  "has_source xs a = bindE (findE (\<lambda>x. l3_eq x a) xs) (\<lambda>r. Inr (r \<noteq> None))"

definition isSourceAllowed :: "l3addr \<Rightarrow> mcast_membership \<Rightarrow> bool outcome" where
  "isSourceAllowed a m =
     bindE (has_source (mm_sourceList m) a) (\<lambda>found.
     Inr (mm_filterMode m = INCLUDE_SOURCES \<and> found \<or> mm_filterMode m = EXCLUDE_SOURCES \<and> \<not> found))"


section \<open>Creating, binding and connecting\<close>

definition findFirstSocketByLocalAddress :: "l3addr \<Rightarrow> u16 \<Rightarrow> 'z sockets \<Rightarrow> int option outcome" where
  "findFirstSocketByLocalAddress a p u =
     (case socketsByPortMap u (uint p) of
        None \<Rightarrow> Inr None
      | Some is \<Rightarrow> findE (\<lambda>i. bindE (sock u i) (\<lambda>sd. orE (l3_isUnspecified (sd_localAddr sd)) (l3_eq (sd_localAddr sd) a))) is)"

definition udp_getEphemeralPort :: "'z sockets \<Rightarrow> (u16 \<times> 'z sockets) outcome" where
  "udp_getEphemeralPort u =
     (case search_port port_rounds (\<lambda>p. socketsByPortMap u (uint p) \<noteq> None) (us_lastEphemeralPort u) (next_port (us_lastEphemeralPort u)) of
        None \<Rightarrow> Inl RoundsExhausted
      | Some r \<Rightarrow> bindE r (\<lambda>p. Inr (p, u\<lparr>us_lastEphemeralPort := p\<rparr>)))"

definition createSocket :: "int \<Rightarrow> l3addr \<Rightarrow> int \<Rightarrow> 'z sockets \<Rightarrow> 'z sockets outcome" where
  "createSocket i a p u =
     bindE (if p = -1 then bindE (udp_getEphemeralPort u) (\<lambda>(q, u'). Inr (uint q, u')) else Inr (p, u)) (\<lambda>(port, u1).
     bindE (l3_isUnspecified a) (\<lambda>any.
     Inr (set_port_list port (port_list u1 port @ [i])
           (put_sock ((new_sock_desc i)\<lparr>sd_localAddr := a, sd_localPort := port, sd_onlyLocalPortIsSet := any\<rparr>) u1))))"

definition bind_socket :: "int \<Rightarrow> l3addr \<Rightarrow> int \<Rightarrow> 'z sockets \<Rightarrow> 'z sockets outcome" where
  "bind_socket i a p u =
     (if i = -1 then Inl (RuntimeError ''sockId in BIND message not filled in'')
      else if p < -1 \<or> p > 65535 then Inl (RuntimeError ''bind: invalid local port number'')
      else
        bindE (findFirstSocketByLocalAddress a (word_of_int p) u) (\<lambda>existing.
        bindE (case existing of None \<Rightarrow> Inr False | Some j \<Rightarrow> bindE (sock u j) (\<lambda>sj. Inr (\<not> sd_reuseAddr sj))) (\<lambda>not_reused.
        case socketsByIdMap u i of
          Some sd \<Rightarrow>
            if existing \<noteq> None \<and> (\<not> sd_reuseAddr sd \<or> not_reused) then Inl (RuntimeError ''bind: local address/port already taken'')
            else if sd_isBound sd then Inl (RuntimeError ''bind: socket is already bound'')
            else
              let sd1 = sd\<lparr>sd_isBound := True, sd_localAddr := a\<rparr> in
              if p \<noteq> -1 \<and> sd_localPort sd \<noteq> p then
                let u1 = set_port_list (sd_localPort sd) (filter (\<lambda>j. j \<noteq> i) (port_list u (sd_localPort sd))) (put_sock (sd1\<lparr>sd_localPort := p\<rparr>) u)
                in Inr (set_port_list p (port_list u1 p @ [i]) u1)
              else Inr (put_sock sd1 u)
        | None \<Rightarrow>
            if existing \<noteq> None then Inl (RuntimeError ''bind: local address/port already taken'')
            else
              bindE (createSocket i a p u) (\<lambda>u1.
              bindE (sock u1 i) (\<lambda>sd. Inr (put_sock (sd\<lparr>sd_isBound := True\<rparr>) u1))))))"

definition getOrCreateSocket :: "int \<Rightarrow> 'z sockets \<Rightarrow> (sock_desc \<times> 'z sockets) outcome" where
  "getOrCreateSocket i u =
     (if i = -1 then Inl (RuntimeError ''sockId in Udp command not filled in'')
      else
        (case socketsByIdMap u i of
           Some sd \<Rightarrow> Inr (sd, u)
         | None \<Rightarrow> bindE (createSocket i l3_none (-1) u) (\<lambda>u1. bindE (sock u1 i) (\<lambda>sd. Inr (sd, u1)))))"

definition connect_socket :: "int \<Rightarrow> l3addr \<Rightarrow> int \<Rightarrow> 'z sockets \<Rightarrow> 'z sockets outcome" where
  "connect_socket i a p u =
     bindE (l3_isUnspecified a) (\<lambda>any.
     if any then Inl (RuntimeError ''connect: unspecified remote address'')
     else if p \<le> 0 \<or> p > 65535 then Inl (RuntimeError ''connect: invalid remote port number'')
     else
       bindE (getOrCreateSocket i u) (\<lambda>(sd, u1).
       Inr (put_sock (sd\<lparr>sd_remoteAddr := a, sd_remotePort := p, sd_onlyLocalPortIsSet := False\<rparr>) u1)))"

definition destroySocket :: "int \<Rightarrow> 'z sockets \<Rightarrow> 'z sockets" where
  "destroySocket i u =
     (case socketsByIdMap u i of
        None \<Rightarrow> u
      | Some sd \<Rightarrow>
          let u1 = u\<lparr>socketsByIdMap := (socketsByIdMap u)(i := None)\<rparr>; is = remove1 i (port_list u1 (sd_localPort sd)) in
          u1\<lparr>socketsByPortMap := (socketsByPortMap u1)(sd_localPort sd := if is = [] then None else Some is)\<rparr>)"

definition clearAllSockets :: "'z sockets \<Rightarrow> 'z sockets" where
  "clearAllSockets u = u\<lparr>socketsByIdMap := Map.empty, socketsByPortMap := Map.empty\<rparr>"

section \<open>Finding sockets for a packet\<close>

definition remote_matches :: "l3addr \<Rightarrow> u16 \<Rightarrow> sock_desc \<Rightarrow> bool outcome" where
  "remote_matches a p sd =
     andE (Inr (sd_remotePort sd = -1 \<or> sd_remotePort sd = uint p))
          (orE (l3_isUnspecified (sd_remoteAddr sd)) (l3_eq (sd_remoteAddr sd) a))"

definition unicast_matches :: "l3addr \<Rightarrow> l3addr \<Rightarrow> u16 \<Rightarrow> sock_desc \<Rightarrow> bool outcome" where
  "unicast_matches local remote remotePort sd =
     orE (Inr (sd_onlyLocalPortIsSet sd))
       (andE (Inr (sd_remotePort sd = -1 \<or> sd_remotePort sd = uint remotePort))
         (andE (orE (l3_isUnspecified (sd_localAddr sd)) (l3_eq (sd_localAddr sd) local))
               (orE (l3_isUnspecified (sd_remoteAddr sd)) (l3_eq (sd_remoteAddr sd) remote))))"

text \<open>The loop over the list from its end; \<open>any\<close> is the last socket seen that is bound to any address.\<close>

fun find_from_end :: "l3addr \<Rightarrow> l3addr \<Rightarrow> u16 \<Rightarrow> 'z sockets \<Rightarrow> int list \<Rightarrow> int option \<Rightarrow> int option outcome" where
  "find_from_end local remote remotePort u [] any = Inr any"
| "find_from_end local remote remotePort u (i # is) any =
     bindE (sock u i) (\<lambda>sd.
     bindE (unicast_matches local remote remotePort sd) (\<lambda>yes.
     if yes then
       bindE (l3_isUnspecified (sd_localAddr sd)) (\<lambda>unspecified.
       if unspecified then find_from_end local remote remotePort u is (Some i) else Inr (Some i))
     else find_from_end local remote remotePort u is any))"

definition findSocketForUnicastPacket :: "l3addr \<Rightarrow> u16 \<Rightarrow> l3addr \<Rightarrow> u16 \<Rightarrow> 'z sockets \<Rightarrow> int option outcome" where
  "findSocketForUnicastPacket local localPort remote remotePort u =
     (case socketsByPortMap u (uint localPort) of
        None \<Rightarrow> Inr None
      | Some is \<Rightarrow> find_from_end local remote remotePort u (rev is) None)"

definition mcast_matches :: "l3addr \<Rightarrow> l3addr \<Rightarrow> u16 \<Rightarrow> bool \<Rightarrow> bool \<Rightarrow> sock_desc \<Rightarrow> bool outcome" where
  "mcast_matches local remote remotePort mcast bcast sd =
     (if bcast then (if sd_isBroadcast sd then remote_matches remote remotePort sd else Inr False)
      else if mcast then
        bindE (findFirstMulticastMembership local sd) (\<lambda>m.
        case m of
          None \<Rightarrow> Inr False
        | Some n \<Rightarrow> andE (remote_matches remote remotePort sd) (isSourceAllowed remote (sd_memberships sd ! n)))
      else Inr False)"

definition findSocketsForMcastBcastPacket ::
  "l3addr \<Rightarrow> u16 \<Rightarrow> l3addr \<Rightarrow> u16 \<Rightarrow> bool \<Rightarrow> bool \<Rightarrow> 'z sockets \<Rightarrow> int list outcome" where
  "findSocketsForMcastBcastPacket local localPort remote remotePort mcast bcast u =
     bindE (assertE (mcast \<or> bcast)) (\<lambda>_.
     case socketsByPortMap u (uint localPort) of
       None \<Rightarrow> Inr []
     | Some is \<Rightarrow>
         foldE (\<lambda>i found. bindE (sock u i) (\<lambda>sd.
           bindE (mcast_matches local remote remotePort mcast bcast sd) (\<lambda>yes.
           Inr (if yes then found @ [i] else found)))) is [])"


section \<open>Options\<close>

definition interface_by_id :: "int \<Rightarrow> 'z sockets \<Rightarrow> (int \<times> bool) outcome" where
  "interface_by_id i u =
     (case find (\<lambda>ie. fst ie = i) (us_interfaces u) of
        None \<Rightarrow> Inl (RuntimeError ''getInterfaceById(): no interface with this ID'')
      | Some ie \<Rightarrow> Inr ie)"

definition addMulticastAddressToInterface :: "l3addr \<Rightarrow> int \<times> bool \<Rightarrow> 'z sockets \<Rightarrow> 'z sockets outcome" where
  "addMulticastAddressToInterface a ie u =
     bindE (assertE (snd ie)) (\<lambda>_.
     bindE (l3_isMulticast a) (\<lambda>mcast.
     bindE (assertE mcast) (\<lambda>_.
     Inr (request (JoinGroup (fst ie) a) u))))"

definition join_group :: "int \<Rightarrow> l3addr \<times> int \<Rightarrow> 'z sockets \<Rightarrow> 'z sockets outcome" where
  "join_group i = (\<lambda>(a, ifid) u.
     bindE (l3_isMulticast a) (\<lambda>mcast.
     bindE (assertE mcast) (\<lambda>_.
     bindE (sock u i) (\<lambda>sd.
     bindE (findMulticastMembership a ifid sd) (\<lambda>there.
     if there \<noteq> None then Inl (RuntimeError ''UPD::joinMulticastGroups(): group is already joined'')
     else
       bindE (addMulticastMembership ((membership_key a ifid)\<lparr>mm_filterMode := EXCLUDE_SOURCES\<rparr>) sd) (\<lambda>(n, sd').
       let u1 = put_sock sd' u in
       if ifid \<noteq> -1 then
         bindE (interface_by_id ifid u1) (\<lambda>ie. bindE (assertE (snd ie)) (\<lambda>_. addMulticastAddressToInterface a ie u1))
       else foldE (addMulticastAddressToInterface a) (filter snd (us_interfaces u1)) u1))))))"

definition joinMulticastGroups :: "int \<Rightarrow> l3addr list \<Rightarrow> int list \<Rightarrow> 'z sockets \<Rightarrow> 'z sockets outcome" where
  "joinMulticastGroups i addresses ifids u =
     foldE (join_group i) (zip addresses (map (\<lambda>k. if k < length ifids then ifids ! k else -1) [0..<length addresses])) u"

text \<open>The memberships of the group from a place of the table on, which are next to each other, and the rest.\<close>

fun span_group :: "l3addr \<Rightarrow> mcast_membership list \<Rightarrow> (mcast_membership list \<times> mcast_membership list) outcome" where
  "span_group a [] = Inr ([], [])"
| "span_group a (m # ms) =
     bindE (l3_eq (mm_multicastAddress m) a) (\<lambda>eq.
     if eq then bindE (span_group a ms) (\<lambda>(gone, rest). Inr (m # gone, rest)) else Inr ([], m # ms))"

definition leave_on_interfaces :: "mcast_membership \<Rightarrow> 'z sockets \<Rightarrow> 'z sockets outcome" where
  "leave_on_interfaces m u =
     (let leave = (\<lambda>ie. request (ChangeMembership (fst ie) (mm_multicastAddress m) (mm_filterMode m) (mm_sourceList m) INCLUDE_SOURCES []))
      in if mm_interfaceId m \<noteq> -1 then bindE (interface_by_id (mm_interfaceId m) u) (\<lambda>ie. Inr (leave ie u))
         else Inr (fold leave (filter snd (us_interfaces u)) u))"

definition leave_group :: "int \<Rightarrow> l3addr \<Rightarrow> 'z sockets \<Rightarrow> 'z sockets outcome" where
  "leave_group i a u =
     bindE (sock u i) (\<lambda>sd.
     bindE (findFirstMulticastMembership a sd) (\<lambda>first.
     case first of
       None \<Rightarrow> Inr u
     | Some n \<Rightarrow>
         bindE (span_group a (drop n (sd_memberships sd))) (\<lambda>(gone, rest).
         foldE leave_on_interfaces gone (put_sock (sd\<lparr>sd_memberships := take n (sd_memberships sd) @ rest\<rparr>) u))))"

definition leaveMulticastGroups :: "int \<Rightarrow> l3addr list \<Rightarrow> 'z sockets \<Rightarrow> 'z sockets outcome" where
  "leaveMulticastGroups i addresses u = foldE (leave_group i) addresses u"

text \<open>
  The membership of a socket in a group on an interface, if it has one: what the operations on
  the sources of a group begin with.
\<close>

definition with_membership ::
  "int \<Rightarrow> int \<times> bool \<Rightarrow> l3addr \<Rightarrow> 'z sockets \<Rightarrow> (sock_desc \<Rightarrow> nat option \<Rightarrow> 'z sockets outcome) \<Rightarrow> 'z sockets outcome" where
  "with_membership i ie a u k =
     bindE (assertE (snd ie)) (\<lambda>_.
     bindE (l3_isMulticast a) (\<lambda>mcast.
     bindE (assertE mcast) (\<lambda>_.
     bindE (sock u i) (\<lambda>sd.
     bindE (findMulticastMembership a (fst ie) sd) (k sd)))))"

text \<open>The loops over the source list: the new list and whether anything was changed.\<close>

definition push_known :: "l3addr \<Rightarrow> l3addr list \<times> bool \<Rightarrow> (l3addr list \<times> bool) outcome" where
  "push_known a = (\<lambda>(sources, changed).
     bindE (has_source sources a) (\<lambda>found. Inr (if found then (sources @ [a], True) else (sources, changed))))"

fun erase_first :: "l3addr \<Rightarrow> l3addr list \<Rightarrow> (l3addr list \<times> bool) outcome" where
  "erase_first a [] = Inr ([], False)"
| "erase_first a (x # xs) =
     bindE (l3_eq x a) (\<lambda>eq. if eq then Inr (xs, True) else bindE (erase_first a xs) (\<lambda>(ys, c). Inr (x # ys, c)))"

definition erase_known :: "l3addr \<Rightarrow> l3addr list \<times> bool \<Rightarrow> (l3addr list \<times> bool) outcome" where
  "erase_known a = (\<lambda>(sources, changed). bindE (erase_first a sources) (\<lambda>(rest, found). Inr (rest, changed \<or> found)))"

definition change_sources ::
  "nat \<Rightarrow> (mcast_membership \<Rightarrow> mcast_membership) \<Rightarrow> sock_desc \<Rightarrow> sock_desc" where
  "change_sources n f sd = sd\<lparr>sd_memberships := (sd_memberships sd)[n := f (sd_memberships sd ! n)]\<rparr>"

definition blockMulticastSources :: "int \<Rightarrow> int \<times> bool \<Rightarrow> l3addr \<Rightarrow> l3addr list \<Rightarrow> 'z sockets \<Rightarrow> 'z sockets outcome" where
  "blockMulticastSources i ie a sources u =
     with_membership i ie a u (\<lambda>sd there. case there of
       None \<Rightarrow> Inl (RuntimeError ''Udp::blockMulticastSources(): not a member of group on interface'')
     | Some n \<Rightarrow>
         let old = mm_sourceList (sd_memberships sd ! n) in
         if mm_filterMode (sd_memberships sd ! n) \<noteq> EXCLUDE_SOURCES
         then Inl (RuntimeError ''Udp::blockMulticastSources(): socket was not joined to all sources of group on interface'')
         else
           bindE (foldE push_known sources (old, False)) (\<lambda>(new, changed).
           let u1 = put_sock (change_sources n (\<lambda>m. m\<lparr>mm_sourceList := new\<rparr>) sd) u in
           Inr (if changed then request (ChangeMembership (fst ie) a EXCLUDE_SOURCES old EXCLUDE_SOURCES new) u1 else u1)))"

definition unblockMulticastSources :: "int \<Rightarrow> int \<times> bool \<Rightarrow> l3addr \<Rightarrow> l3addr list \<Rightarrow> 'z sockets \<Rightarrow> 'z sockets outcome" where
  "unblockMulticastSources i ie a sources u =
     with_membership i ie a u (\<lambda>sd there. case there of
       None \<Rightarrow> Inl (RuntimeError ''Udp::unblockMulticastSources(): not a member of group in interface'')
     | Some n \<Rightarrow>
         let old = mm_sourceList (sd_memberships sd ! n) in
         if mm_filterMode (sd_memberships sd ! n) \<noteq> EXCLUDE_SOURCES
         then Inl (RuntimeError ''Udp::unblockMulticastSources(): socket was not joined to all sources of group on interface'')
         else
           bindE (foldE erase_known sources (old, False)) (\<lambda>(new, changed).
           let u1 = put_sock (change_sources n (\<lambda>m. m\<lparr>mm_sourceList := new\<rparr>) sd) u in
           Inr (if changed then request (ChangeMembership (fst ie) a EXCLUDE_SOURCES old EXCLUDE_SOURCES new) u1 else u1)))"

definition leaveMulticastSources :: "int \<Rightarrow> int \<times> bool \<Rightarrow> l3addr \<Rightarrow> l3addr list \<Rightarrow> 'z sockets \<Rightarrow> 'z sockets outcome" where
  "leaveMulticastSources i ie a sources u =
     with_membership i ie a u (\<lambda>sd there. case there of
       None \<Rightarrow> Inl (RuntimeError ''Udp::leaveMulticastSources(): not a member of group in interface'')
     | Some n \<Rightarrow>
         let old = mm_sourceList (sd_memberships sd ! n) in
         if mm_filterMode (sd_memberships sd ! n) = EXCLUDE_SOURCES
         then Inl (RuntimeError ''Udp::leaveMulticastSources(): socket was joined to all sources of group on interface'')
         else
           bindE (foldE erase_known sources (old, False)) (\<lambda>(new, changed).
           let sd1 = change_sources n (\<lambda>m. m\<lparr>mm_sourceList := new\<rparr>) sd;
               u1 = put_sock (if new = [] then deleteMulticastMembership n sd1 else sd1) u in
           Inr (if changed then request (ChangeMembership (fst ie) a EXCLUDE_SOURCES old EXCLUDE_SOURCES new) u1 else u1)))"

text \<open>The membership, and a new one that allows no source when there is none yet.\<close>

definition joined_membership :: "l3addr \<Rightarrow> int \<Rightarrow> sock_desc \<Rightarrow> nat option \<Rightarrow> (nat \<times> sock_desc) outcome" where
  "joined_membership a ifid sd there =
     (case there of Some n \<Rightarrow> Inr (n, sd) | None \<Rightarrow> addMulticastMembership (membership_key a ifid) sd)"

definition joinMulticastSources :: "int \<Rightarrow> int \<times> bool \<Rightarrow> l3addr \<Rightarrow> l3addr list \<Rightarrow> 'z sockets \<Rightarrow> 'z sockets outcome" where
  "joinMulticastSources i ie a sources u =
     with_membership i ie a u (\<lambda>sd0 there.
     bindE (joined_membership a (fst ie) sd0 there) (\<lambda>(n, sd).
     let old = mm_sourceList (sd_memberships sd ! n) in
     if mm_filterMode (sd_memberships sd ! n) = EXCLUDE_SOURCES
     then Inl (RuntimeError ''Udp::joinMulticastSources(): socket was joined to all sources of group on interface'')
     else
       bindE (foldE push_known sources (old, False)) (\<lambda>(new, changed).
       let u1 = put_sock (change_sources n (\<lambda>m. m\<lparr>mm_sourceList := new\<rparr>) sd) u in
       Inr (if changed then request (ChangeMembership (fst ie) a INCLUDE_SOURCES old INCLUDE_SOURCES new) u1 else u1))))"

fun same_sources :: "l3addr list \<Rightarrow> l3addr list \<Rightarrow> bool outcome" where
  "same_sources (x # xs) (y # ys) = andE (l3_eq x y) (same_sources xs ys)"
| "same_sources [] [] = Inr True"
| "same_sources _ _ = Inr False"

definition setMulticastSourceFilter ::
  "int \<Rightarrow> int \<times> bool \<Rightarrow> l3addr \<Rightarrow> filter_mode \<Rightarrow> l3addr list \<Rightarrow> 'z sockets \<Rightarrow> 'z sockets outcome" where
  "setMulticastSourceFilter i ie a mode sources u =
     with_membership i ie a u (\<lambda>sd0 there.
     bindE (joined_membership a (fst ie) sd0 there) (\<lambda>(n, sd).
     let m = sd_memberships sd ! n in
     bindE (orE (Inr (mm_filterMode m \<noteq> mode \<or> length (mm_sourceList m) \<noteq> length sources))
             (bindE (same_sources sources (mm_sourceList m)) (\<lambda>same. Inr (\<not> same)))) (\<lambda>changed.
     Inr (if changed then
            request (ChangeMembership (fst ie) a (mm_filterMode m) (mm_sourceList m) mode sources)
              (put_sock (change_sources n (\<lambda>m. m\<lparr>mm_filterMode := mode, mm_sourceList := sources\<rparr>) sd) u)
          else put_sock sd u))))"

end
