(* ===== verification/Udp.thy ===== *)
theory Udp
  imports Udp_Socket
begin

text \<open>
  \<open>transportlayer/udp/Udp.cc\<close>: datagrams of the applications go to the network layer with a header
  and a check sum; datagrams and ICMP errors of the network go to the sockets they match. The network
  header that an error message quotes is a value of type \<open>'n\<close>; \<open>checksum\<close> is the Internet check sum
  of the serialized pseudo header, header and data.
\<close>

section \<open>State and packets\<close>

datatype net_protocol = Net_ipv4 | Net_ipv6 | Net_nextHopForwarding | Net_other int

record udp_header =
  uh_srcPort :: u16
  uh_destPort :: u16
  uh_totalLength :: int
  uh_crc :: u16
  uh_crcMode :: crc_mode
  uh_isCorrect :: bool

definition UDP_HEADER_LENGTH :: int where "UDP_HEADER_LENGTH = 8"
definition UDP_MAX_MESSAGE_SIZE :: int where "UDP_MAX_MESSAGE_SIZE = 65535"

text \<open>A packet of an application with the requests in its tags.\<close>

record 'a udp_request =
  ur_kind :: int
  ur_socketId :: int
  ur_src :: l3addr
  ur_dest :: l3addr
  ur_ports :: "(int \<times> int) option"
  ur_interface :: "int option"
  ur_multicastLoop :: "bool option"
  ur_hopLimit :: "int option"
  ur_dscp :: "int option"
  ur_tos :: "int option"
  ur_data :: "'a list"

text \<open>What goes to the network layer.\<close>

record 'a udp_datagram =
  dg_src :: l3addr
  dg_dest :: l3addr
  dg_protocol :: net_protocol
  dg_interface :: "int option"
  dg_multicastLoop :: "bool option"
  dg_hopLimit :: "int option"
  dg_dscp :: "int option"
  dg_tos :: "int option"
  dg_header :: udp_header
  dg_data :: "'a list"

text \<open>What comes from the network layer.\<close>

record ('a, 'n) udp_arrival =
  ua_src :: l3addr
  ua_dest :: l3addr
  ua_protocol :: net_protocol
  ua_networkHeader :: 'n
  ua_interface :: int
  ua_header :: udp_header
  ua_data :: "'a list"
  ua_dataCorrect :: bool

text \<open>
  An ICMP error: the addresses of the quoted network header, whether a quoted UDP header is there to
  be read (\<open>getDontFragment() || getFragmentOffset() == 0\<close> for IPv4, no fragment header or an offset of
  0 for IPv6), and its ports.
\<close>

record udp_icmp_error =
  ue_crcOk :: bool
  ue_src :: l3addr
  ue_dest :: l3addr
  ue_dontFragment :: bool
  ue_fragmentOffset :: "int option"
  ue_srcPort :: u16
  ue_destPort :: u16

datatype ('a, 'n) udp_output =
  ToNetwork "'a udp_datagram"
| ToSocket int udp_header "('a, 'n) udp_arrival" u16 u16
| SocketClosed int
| SocketError int l3addr l3addr int u16
| PortUnreachable net_protocol "('a, 'n) udp_arrival"

record ('a, 'n) udp = udp_sockets +
  ud_crcMode :: crc_mode
  numSent :: int
  numPassedUp :: int
  numDroppedWrongPort :: int
  numDroppedBadChecksum :: int
  ud_out :: "('a, 'n) udp_output list"

definition new_udp :: "crc_mode \<Rightarrow> (int \<times> bool) list \<Rightarrow> ('a, 'n) udp" where
  "new_udp mode ifs =
     \<lparr>socketsByIdMap = Map.empty, socketsByPortMap = Map.empty, us_lastEphemeralPort = PORTRANGE_START, us_interfaces = ifs,
      us_requests = [], ud_crcMode = mode, numSent = 0, numPassedUp = 0, numDroppedWrongPort = 0, numDroppedBadChecksum = 0,
      ud_out = []\<rparr>"

definition udp_emit :: "('a, 'n) udp_output \<Rightarrow> ('a, 'n) udp \<Rightarrow> ('a, 'n) udp" where
  "udp_emit x u = u\<lparr>ud_out := ud_out u @ [x]\<rparr>"

type_synonym 'a udp_checksum = "net_protocol \<Rightarrow> l3addr \<Rightarrow> l3addr \<Rightarrow> udp_header \<Rightarrow> 'a list \<Rightarrow> u16"

section \<open>Check sums\<close>

definition computeCrc :: "'a udp_checksum \<Rightarrow> net_protocol \<Rightarrow> l3addr \<Rightarrow> l3addr \<Rightarrow> udp_header \<Rightarrow> 'a list \<Rightarrow> u16 outcome" where
  "computeCrc checksum proto src dest h data =
     (if proto \<noteq> Net_ipv4 \<and> proto \<noteq> Net_ipv6 then Inl (RuntimeError ''Unknown network protocol'')
      else let crc = checksum proto src dest h data in Inr (if crc = 0 then 0xFFFF else crc))"

definition insertCrc :: "'a udp_checksum \<Rightarrow> net_protocol \<Rightarrow> l3addr \<Rightarrow> l3addr \<Rightarrow> udp_header \<Rightarrow> 'a list \<Rightarrow> udp_header outcome" where
  "insertCrc checksum proto src dest h data =
     (case uh_crcMode h of
        CRC_DISABLED \<Rightarrow> Inr (h\<lparr>uh_crc := 0\<rparr>)
      | CRC_DECLARED_CORRECT \<Rightarrow> Inr (h\<lparr>uh_crc := 0xC00D\<rparr>)
      | CRC_DECLARED_INCORRECT \<Rightarrow> Inr (h\<lparr>uh_crc := 0xBAAD\<rparr>)
      | CRC_COMPUTED \<Rightarrow>
          bindE (computeCrc checksum proto src dest (h\<lparr>uh_crc := 0, uh_crcMode := CRC_DISABLED\<rparr>) data) (\<lambda>crc.
          Inr (h\<lparr>uh_crc := crc, uh_crcMode := CRC_COMPUTED\<rparr>))
      | CRC_MODE_UNDEFINED \<Rightarrow> Inl (RuntimeError ''Unknown CRC mode''))"

text \<open>\<open>data\<close> is what follows the header in the packet, padding of lower layers included.\<close>

definition udp_verifyCrc :: "'a udp_checksum \<Rightarrow> ('a, 'n) udp_arrival \<Rightarrow> bool outcome" where
  "udp_verifyCrc checksum a =
     (let h = ua_header a; data = take (nat (uh_totalLength h - UDP_HEADER_LENGTH)) (ua_data a) in
      case uh_crcMode h of
        CRC_DISABLED \<Rightarrow> Inr (uh_crc h = 0)
      | CRC_DECLARED_CORRECT \<Rightarrow> Inr (uh_isCorrect h \<and> ua_dataCorrect a)
      | CRC_DECLARED_INCORRECT \<Rightarrow> Inr False
      | CRC_COMPUTED \<Rightarrow>
          if uh_crc h = 0 then Inr True
          else bindE (computeCrc checksum (ua_protocol a) (ua_src a) (ua_dest a) h data) (\<lambda>crc.
               Inr (crc = 0xFFFF \<and> uh_isCorrect h \<and> ua_dataCorrect a))
      | CRC_MODE_UNDEFINED \<Rightarrow> Inl (RuntimeError ''Unknown CRC mode''))"

text \<open>\<open>CrcInsertion::datagramPostRoutingHook\<close> for a datagram of this node, whose addresses are final now.\<close>

definition crc_insertion_hook :: "'a udp_checksum \<Rightarrow> 'a udp_datagram \<Rightarrow> 'a udp_datagram outcome" where
  "crc_insertion_hook checksum d =
     bindE (assertE (uh_crcMode (dg_header d) = CRC_COMPUTED)) (\<lambda>_.
     bindE (insertCrc checksum (dg_protocol d) (dg_src d) (dg_dest d) (dg_header d) (dg_data d)) (\<lambda>h.
     Inr (d\<lparr>dg_header := h\<rparr>)))"

section \<open>Sending\<close>

definition network_protocol :: "l3addr \<Rightarrow> net_protocol" where
  "network_protocol a = (case l3_getType a of IPv4 \<Rightarrow> Net_ipv4 | IPv6 \<Rightarrow> Net_ipv6 | _ \<Rightarrow> Net_nextHopForwarding)"

text \<open>The interface a multicast datagram goes out on when the application has not asked for one.\<close>

definition multicast_interface :: "l3addr \<Rightarrow> sock_desc \<Rightarrow> int option outcome" where
  "multicast_interface dest sd =
     bindE (findFirstMulticastMembership dest sd) (\<lambda>m.
     let ifid = (case m of
                   Some n \<Rightarrow> if mm_interfaceId (sd_memberships sd ! n) \<noteq> -1 then mm_interfaceId (sd_memberships sd ! n)
                             else sd_multicastOutputInterfaceId sd
                 | None \<Rightarrow> sd_multicastOutputInterfaceId sd)
     in Inr (if ifid \<noteq> -1 then Some ifid else None))"

definition or_else :: "'x option \<Rightarrow> 'x option \<Rightarrow> 'x option" where
  "or_else a b = (case a of None \<Rightarrow> b | Some x \<Rightarrow> Some x)"

text \<open>The addresses and ports of a request, filled in from the socket.\<close>

definition fill_address :: "l3addr \<Rightarrow> l3addr \<Rightarrow> l3addr outcome" where
  "fill_address a other = bindE (l3_isUnspecified a) (\<lambda>any. Inr (if any then other else a))"

definition udp_send :: "'a udp_checksum \<Rightarrow> 'a udp_request \<Rightarrow> ('a, 'n) udp \<Rightarrow> ('a, 'n) udp outcome" where
  "udp_send checksum r u =
     (if ur_kind r \<noteq> 0 then Inl (RuntimeError ''Unknown packet command code (message kind) received from app'')
      else
        bindE (getOrCreateSocket (ur_socketId r) u) (\<lambda>(sd, u1).
        bindE (fill_address (ur_src r) (sd_localAddr sd)) (\<lambda>src.
        bindE (fill_address (ur_dest r) (sd_remoteAddr sd)) (\<lambda>dest.
        let (reqSrc, reqDest) = (case ur_ports r of None \<Rightarrow> (-1, -1) | Some ps \<Rightarrow> ps);
            srcPort = (if reqSrc = -1 then sd_localPort sd else reqSrc);
            destPort = (if reqDest = -1 then sd_remotePort sd else reqDest)
        in
        bindE (assertE (ur_interface r \<noteq> Some (-1))) (\<lambda>_.
        bindE (if ur_interface r = None
               then bindE (l3_isMulticast dest) (\<lambda>mcast. if mcast then multicast_interface dest sd else Inr None)
               else Inr (ur_interface r)) (\<lambda>ifid.
        bindE (l3_isUnspecified dest) (\<lambda>any.
        if any then Inl (RuntimeError ''send: unspecified destination address'')
        else if destPort \<le> 0 \<or> destPort > 65535 then Inl (RuntimeError ''send: invalid remote port number'')
        else
          let dscp = or_else (ur_dscp r) (if sd_dscp sd \<noteq> -1 then Some (sd_dscp sd) else None);
              sets_tos = (sd_tos sd \<noteq> -1 \<and> ur_tos r = None);
              totalLength = UDP_HEADER_LENGTH + int (length (ur_data r));
              proto = network_protocol dest;
              h = \<lparr>uh_srcPort = word_of_int srcPort, uh_destPort = word_of_int destPort, uh_totalLength = totalLength,
                   uh_crc = 0, uh_crcMode = ud_crcMode u1, uh_isCorrect = True\<rparr>
          in
          if sets_tos \<and> dscp \<noteq> None then Inl (RuntimeError ''setting error: TOS and DSCP found together'')
          else if totalLength > UDP_MAX_MESSAGE_SIZE then Inl (RuntimeError ''send: total UDP message size exceeds 65535'')
          else
            bindE (if ud_crcMode u1 = CRC_COMPUTED then Inr h else insertCrc checksum proto src dest h (ur_data r)) (\<lambda>h1.
            Inr ((udp_emit (ToNetwork
              \<lparr>dg_src = src, dg_dest = dest, dg_protocol = proto, dg_interface = ifid,
               dg_multicastLoop = or_else (ur_multicastLoop r) (Some (sd_multicastLoop sd)),
               dg_hopLimit = or_else (ur_hopLimit r) (if sd_ttl sd \<noteq> -1 then Some (sd_ttl sd) else None),
               dg_dscp = dscp, dg_tos = or_else (ur_tos r) (if sd_tos sd \<noteq> -1 then Some (sd_tos sd) else None),
               dg_header = h1, dg_data = ur_data r\<rparr>) u1)\<lparr>numSent := numSent u1 + 1\<rparr>)))))))))"

section \<open>Receiving\<close>

definition sendUp :: "udp_header \<Rightarrow> ('a, 'n) udp_arrival \<Rightarrow> u16 \<Rightarrow> u16 \<Rightarrow> int \<Rightarrow> ('a, 'n) udp \<Rightarrow> ('a, 'n) udp outcome" where
  "sendUp h a srcPort destPort i u =
     bindE (sock u i) (\<lambda>sd.
     Inr ((udp_emit (ToSocket (sd_sockId sd) h a srcPort destPort) u)\<lparr>numPassedUp := numPassedUp u + 1\<rparr>))"

definition processUndeliverablePacket :: "('a, 'n) udp_arrival \<Rightarrow> ('a, 'n) udp \<Rightarrow> ('a, 'n) udp outcome" where
  "processUndeliverablePacket a u =
     (let u1 = u\<lparr>numDroppedWrongPort := numDroppedWrongPort u + 1\<rparr> in
      case ua_protocol a of
        Net_ipv4 \<Rightarrow> Inr (udp_emit (PortUnreachable Net_ipv4 a) u1)
      | Net_ipv6 \<Rightarrow> Inr (udp_emit (PortUnreachable Net_ipv6 a) u1)
      | Net_nextHopForwarding \<Rightarrow> Inr u1
      | Net_other p \<Rightarrow> Inl (RuntimeError ''arrived from lower layer with unrecognized NetworkProtocolInd''))"

definition hasIncorrectLength :: "('a, 'n) udp_arrival \<Rightarrow> bool" where
  "hasIncorrectLength a \<longleftrightarrow> uh_totalLength (ua_header a) < UDP_HEADER_LENGTH
     \<or> uh_totalLength (ua_header a) > UDP_HEADER_LENGTH + int (length (ua_data a))"

text \<open>The packet without the padding of lower layers: the test compares the length with header to the data without.\<close>

definition remove_padding :: "('a, 'n) udp_arrival \<Rightarrow> ('a, 'n) udp_arrival" where
  "remove_padding a =
     (if uh_totalLength (ua_header a) < int (length (ua_data a))
      then a\<lparr>ua_data := take (nat (uh_totalLength (ua_header a) - UDP_HEADER_LENGTH)) (ua_data a)\<rparr> else a)"

definition processUDPPacket :: "'a udp_checksum \<Rightarrow> ('a, 'n) udp_arrival \<Rightarrow> ('a, 'n) udp \<Rightarrow> ('a, 'n) udp outcome" where
  "processUDPPacket checksum a0 u =
     (let h = ua_header a0; srcPort = uh_srcPort h; destPort = uh_destPort h in
      bindE (orE (Inr (hasIncorrectLength a0)) (bindE (udp_verifyCrc checksum a0) (\<lambda>ok. Inr (\<not> ok)))) (\<lambda>bad.
      if bad then Inr (u\<lparr>numDroppedBadChecksum := numDroppedBadChecksum u + 1\<rparr>)
      else
        let a = remove_padding a0 in
        bindE (l3_isMulticast (ua_dest a)) (\<lambda>mcast.
        bindE (l3_isBroadcast (ua_dest a)) (\<lambda>bcast.
        if \<not> mcast \<and> \<not> bcast then
          bindE (findSocketForUnicastPacket (ua_dest a) destPort (ua_src a) srcPort u) (\<lambda>found.
          case found of None \<Rightarrow> processUndeliverablePacket a u | Some i \<Rightarrow> sendUp h a srcPort destPort i u)
        else
          bindE (findSocketsForMcastBcastPacket (ua_dest a) destPort (ua_src a) srcPort mcast bcast u) (\<lambda>found.
          if found = [] then processUndeliverablePacket a u
          else foldE (sendUp h a srcPort destPort) found u)))))"

definition sendUpErrorIndication :: "int \<Rightarrow> l3addr \<Rightarrow> l3addr \<Rightarrow> u16 \<Rightarrow> ('a, 'n) udp \<Rightarrow> ('a, 'n) udp outcome" where
  "sendUpErrorIndication i local remote remotePort u =
     bindE (sock u i) (\<lambda>sd. Inr (udp_emit (SocketError (sd_sockId sd) local remote (sd_localPort sd) remotePort) u))"

definition processICMPError :: "bool \<Rightarrow> udp_icmp_error \<Rightarrow> ('a, 'n) udp \<Rightarrow> ('a, 'n) udp outcome" where
  "processICMPError udpHeaderAvailable e u =
     (if \<not> ue_crcOk e then Inr u
      else if udpHeaderAvailable then
        bindE (findSocketForUnicastPacket (ue_src e) (ue_srcPort e) (ue_dest e) (ue_destPort e) u) (\<lambda>found.
        case found of
          None \<Rightarrow> Inr u
        | Some i \<Rightarrow> sendUpErrorIndication i (ue_src e) (ue_dest e) (ue_destPort e) u)
      else Inr u)"

definition processICMPv4Error :: "udp_icmp_error \<Rightarrow> ('a, 'n) udp \<Rightarrow> ('a, 'n) udp outcome" where
  "processICMPv4Error e = processICMPError (ue_dontFragment e \<or> ue_fragmentOffset e = Some 0) e"

definition processICMPv6Error :: "udp_icmp_error \<Rightarrow> ('a, 'n) udp \<Rightarrow> ('a, 'n) udp outcome" where
  "processICMPv6Error e = processICMPError (ue_fragmentOffset e = None \<or> ue_fragmentOffset e = Some 0) e"

datatype ('a, 'n) lower_packet = Udp_packet "('a, 'n) udp_arrival" | Icmpv4_error udp_icmp_error | Icmpv6_error udp_icmp_error | Other_packet

definition udp_handleLowerPacket :: "'a udp_checksum \<Rightarrow> ('a, 'n) lower_packet \<Rightarrow> ('a, 'n) udp \<Rightarrow> ('a, 'n) udp outcome" where
  "udp_handleLowerPacket checksum p u =
     (case p of
        Udp_packet a \<Rightarrow> processUDPPacket checksum a u
      | Icmpv4_error e \<Rightarrow> processICMPv4Error e u
      | Icmpv6_error e \<Rightarrow> processICMPv6Error e u
      | Other_packet \<Rightarrow> Inl (RuntimeError ''Unknown protocol''))"

section \<open>Commands\<close>

datatype udp_option =
  Set_ttl int
| Set_dscp int
| Set_tos int
| Set_broadcast bool
| Set_multicast_interface int
| Set_multicast_loop bool
| Set_reuse_address bool
| Join_groups "l3addr list" "int list"
| Leave_groups "l3addr list"
| Block_sources int l3addr "l3addr list"
| Unblock_sources int l3addr "l3addr list"
| Leave_sources int l3addr "l3addr list"
| Join_sources int l3addr "l3addr list"
| Set_source_filter int l3addr filter_mode "l3addr list"

datatype udp_command = Bind l3addr int | Connect l3addr int | SetOption udp_option | Close | Destroy

definition set_option :: "udp_option \<Rightarrow> sock_desc \<Rightarrow> 'z sockets \<Rightarrow> 'z sockets outcome" where
  "set_option opt sd u =
     (let i = sd_sockId sd in
      case opt of
        Set_ttl x \<Rightarrow> Inr (put_sock (sd\<lparr>sd_ttl := x\<rparr>) u)
      | Set_dscp x \<Rightarrow> Inr (put_sock (sd\<lparr>sd_dscp := x\<rparr>) u)
      | Set_tos x \<Rightarrow> Inr (put_sock (sd\<lparr>sd_tos := x\<rparr>) u)
      | Set_broadcast b \<Rightarrow> Inr (put_sock (sd\<lparr>sd_isBroadcast := b\<rparr>) u)
      | Set_multicast_interface x \<Rightarrow> Inr (put_sock (sd\<lparr>sd_multicastOutputInterfaceId := x\<rparr>) u)
      | Set_multicast_loop b \<Rightarrow> Inr (put_sock (sd\<lparr>sd_multicastLoop := b\<rparr>) u)
      | Set_reuse_address b \<Rightarrow> Inr (put_sock (sd\<lparr>sd_reuseAddr := b\<rparr>) u)
      | Join_groups as ifids \<Rightarrow> joinMulticastGroups i as ifids u
      | Leave_groups as \<Rightarrow> leaveMulticastGroups i as u
      | Block_sources ifid a sources \<Rightarrow> bindE (interface_by_id ifid u) (\<lambda>ie. blockMulticastSources i ie a sources u)
      | Unblock_sources ifid a sources \<Rightarrow> bindE (interface_by_id ifid u) (\<lambda>ie. unblockMulticastSources i ie a sources u)
      | Leave_sources ifid a sources \<Rightarrow> bindE (interface_by_id ifid u) (\<lambda>ie. leaveMulticastSources i ie a sources u)
      | Join_sources ifid a sources \<Rightarrow> bindE (interface_by_id ifid u) (\<lambda>ie. joinMulticastSources i ie a sources u)
      | Set_source_filter ifid a mode sources \<Rightarrow>
          bindE (interface_by_id ifid u) (\<lambda>ie. setMulticastSourceFilter i ie a mode sources u))"

definition udp_handleUpperCommand :: "int \<Rightarrow> udp_command \<Rightarrow> ('a, 'n) udp \<Rightarrow> ('a, 'n) udp outcome" where
  "udp_handleUpperCommand i c u =
     (case c of
        Bind a p \<Rightarrow> bind_socket i a p u
      | Connect a p \<Rightarrow> connect_socket i a p u
      | SetOption opt \<Rightarrow> bindE (getOrCreateSocket i u) (\<lambda>(sd, u1). set_option opt sd u1)
      | Close \<Rightarrow> Inr (udp_emit (SocketClosed i) (destroySocket i u))
      | Destroy \<Rightarrow> Inr (destroySocket i u))"

text \<open>\<open>handleStopOperation\<close> and \<open>handleCrashOperation\<close>.\<close>

definition udp_stop :: "('a, 'n) udp \<Rightarrow> ('a, 'n) udp" where
  "udp_stop u = clearAllSockets u"

datatype ('a, 'n) udp_event = Command int udp_command | Send "'a udp_request" | Lower "('a, 'n) lower_packet" | Stop

fun udp_step :: "'a udp_checksum \<Rightarrow> ('a, 'n) udp_event \<Rightarrow> ('a, 'n) udp \<Rightarrow> ('a, 'n) udp outcome" where
  "udp_step checksum (Command i c) u = udp_handleUpperCommand i c u"
| "udp_step checksum (Send r) u = udp_send checksum r u"
| "udp_step checksum (Lower p) u = udp_handleLowerPacket checksum p u"
| "udp_step checksum Stop u = Inr (udp_stop u)"

end
