(* ===== verification/Udp_Laws.thy ===== *)
theory Udp_Laws
  imports Udp
begin

text \<open>
  The tables of the UDP module stay consistent in every run, and a handler fails only with an error
  that the code raises itself: it never follows a pointer to a deleted socket.
\<close>

section \<open>Operations that fail only in an orderly way\<close>

definition raised :: "inet_error \<Rightarrow> bool" where
  "raised e \<longleftrightarrow> (case e of AssertionFailed \<Rightarrow> True | RuntimeError _ \<Rightarrow> True | _ \<Rightarrow> False)"

definition safe :: "'a outcome \<Rightarrow> ('a \<Rightarrow> bool) \<Rightarrow> bool" where
  "safe m P \<longleftrightarrow> (case m of Inl e \<Rightarrow> raised e | Inr a \<Rightarrow> P a)"

lemma safe_simps [simp]: "safe (Inr a) P \<longleftrightarrow> P a" "safe (Inl AssertionFailed) P" "safe (Inl (RuntimeError e)) P"
  by (simp_all add: safe_def raised_def)

lemma safe_bindE: "safe m P \<Longrightarrow> (\<And>a. P a \<Longrightarrow> safe (f a) Q) \<Longrightarrow> safe (bindE m f) Q"
  by (cases m) (auto simp: safe_def)

lemma safe_mono: "safe m P \<Longrightarrow> (\<And>a. P a \<Longrightarrow> Q a) \<Longrightarrow> safe m Q"
  by (cases m) (auto simp: safe_def)

lemma safe_bind_any: "safe m (\<lambda>_. True) \<Longrightarrow> (\<And>a. m = Inr a \<Longrightarrow> safe (f a) Q) \<Longrightarrow> safe (bindE m f) Q"
  by (cases m) (auto simp: safe_def)

lemma safe_assertE: "safe (assertE b) (\<lambda>_. True)"
  by (cases b) simp_all

lemma safe_foldE:
  assumes "P s" "\<And>x s. x \<in> set xs \<Longrightarrow> P s \<Longrightarrow> safe (f x s) P"
  shows "safe (foldE f xs s) P"
  using assms
proof (induction xs arbitrary: s)
  case (Cons x xs)
  show ?case unfolding foldE.simps
    by (rule safe_bindE [of _ P]) (use Cons in auto)
qed simp

lemma safe_andE: "safe a (\<lambda>_. True) \<Longrightarrow> safe b (\<lambda>_. True) \<Longrightarrow> safe (andE a b) (\<lambda>_. True)"
  unfolding andE_def by (rule safe_bind_any) simp_all

lemma safe_orE: "safe a (\<lambda>_. True) \<Longrightarrow> safe b (\<lambda>_. True) \<Longrightarrow> safe (orE a b) (\<lambda>_. True)"
  unfolding orE_def by (rule safe_bind_any) simp_all

lemma safe_l3 [simp]:
  "safe (l3_isUnspecified a) (\<lambda>_. True)" "safe (l3_isMulticast a) (\<lambda>_. True)" "safe (l3_isBroadcast a) (\<lambda>_. True)"
  "safe (l3_less a b) (\<lambda>_. True)" "safe (l3_eq a b) (\<lambda>_. True)"
  by (simp_all add: l3_isUnspecified_def l3_isMulticast_def l3_isBroadcast_def l3_less_def l3_eq_def split: l3_type.split)

lemma safe_findE: "(\<And>x. x \<in> set xs \<Longrightarrow> safe (P x) (\<lambda>_. True)) \<Longrightarrow> safe (findE P xs) (\<lambda>r. case r of None \<Rightarrow> True | Some x \<Rightarrow> x \<in> set xs)"
proof (induction xs)
  case (Cons x xs)
  have "safe (findE P xs) (\<lambda>r. case r of None \<Rightarrow> True | Some y \<Rightarrow> y \<in> set (x # xs))"
    by (rule safe_mono [OF Cons.IH]) (use Cons.prems in \<open>auto split: option.splits\<close>)
  then show ?case unfolding findE.simps
    by (intro safe_bind_any) (use Cons.prems in auto)
qed simp

lemma safe_has_source: "safe (has_source xs a) (\<lambda>_. True)"
  unfolding has_source_def by (rule safe_bindE [OF safe_findE]) simp_all

lemma safe_isSourceAllowed: "safe (isSourceAllowed a m) (\<lambda>_. True)"
  unfolding isSourceAllowed_def by (rule safe_bindE [OF safe_has_source]) simp

section \<open>Memberships\<close>

lemma safe_lessMembership: "safe (lessMembership x y) (\<lambda>_. True)"
  unfolding lessMembership_def by (rule safe_bind_any) auto

lemma safe_lower_bound_loop: "(\<And>x. safe (before x) (\<lambda>_. True)) \<Longrightarrow> safe (lower_bound_loop before xs first len) (\<lambda>n. n \<le> first + len)"
proof (induction before xs first len rule: lower_bound_loop.induct)
  case (1 before xs first len)
  show ?case
  proof (cases "len = 0")
    case False
    let ?h = "len div 2" and ?m = "first + len div 2"
    have up: "safe (lower_bound_loop before xs (?m + 1) (len - ?h - 1)) (\<lambda>n. n \<le> first + len)"
      by (rule safe_mono [OF "1.IH"(1) [OF False refl refl, of True]]) (use False "1.prems" in auto)
    have down: "safe (lower_bound_loop before xs first ?h) (\<lambda>n. n \<le> first + len)"
      by (rule safe_mono [OF "1.IH"(2) [OF False refl refl, of False]]) (use "1.prems" in auto)
    have "lower_bound_loop before xs first len
        = bindE (before (xs ! ?m)) (\<lambda>b. if b then lower_bound_loop before xs (?m + 1) (len - ?h - 1) else lower_bound_loop before xs first ?h)"
      using False by (simp add: lower_bound_loop.simps [of before xs first len] Let_def)
    then show ?thesis using up down "1.prems" by (auto intro!: safe_bind_any)
  qed (simp add: lower_bound_loop.simps)
qed

lemma safe_lower_bound: "safe (lower_bound m ms) (\<lambda>n. n \<le> length ms)"
  unfolding lower_bound_def using safe_lower_bound_loop [where before = "\<lambda>x. lessMembership x m" and xs = ms and first = 0 and len = "length ms", OF safe_lessMembership] by simp

definition place_in :: "sock_desc \<Rightarrow> nat option \<Rightarrow> bool" where
  "place_in sd n \<longleftrightarrow> (case n of None \<Rightarrow> True | Some k \<Rightarrow> k < length (sd_memberships sd))"

lemma safe_findMembership:
  "safe (findFirstMulticastMembership a sd) (place_in sd)" "safe (findMulticastMembership a i sd) (place_in sd)"
  unfolding findFirstMulticastMembership_def findMulticastMembership_def
  by (rule safe_bindE [OF safe_lower_bound], auto intro!: safe_bindE [OF safe_l3(5)] simp: place_in_def)+

definition same_socket :: "sock_desc \<Rightarrow> sock_desc \<Rightarrow> bool" where
  "same_socket sd sd' \<longleftrightarrow> sd_sockId sd' = sd_sockId sd \<and> sd_localPort sd' = sd_localPort sd"

lemma same_socket_simps [simp]:
  "same_socket sd sd" "same_socket sd (sd\<lparr>sd_memberships := ms\<rparr>)" "same_socket sd (change_sources n f sd)"
  "same_socket sd (deleteMulticastMembership n (change_sources n f sd))"
  "same_socket sd (sd\<lparr>sd_remoteAddr := a, sd_remotePort := p, sd_onlyLocalPortIsSet := b\<rparr>)"
  "same_socket sd (sd\<lparr>sd_ttl := x\<rparr>)" "same_socket sd (sd\<lparr>sd_dscp := x\<rparr>)" "same_socket sd (sd\<lparr>sd_tos := x\<rparr>)"
  "same_socket sd (sd\<lparr>sd_isBroadcast := b\<rparr>)" "same_socket sd (sd\<lparr>sd_multicastOutputInterfaceId := x\<rparr>)"
  "same_socket sd (sd\<lparr>sd_multicastLoop := b\<rparr>)" "same_socket sd (sd\<lparr>sd_reuseAddr := b\<rparr>)"
  by (simp_all add: same_socket_def change_sources_def deleteMulticastMembership_def)

lemma same_socket_trans: "same_socket a b \<Longrightarrow> same_socket b c \<Longrightarrow> same_socket a c"
  by (simp add: same_socket_def)

lemma safe_addMembership: "safe (addMulticastMembership m sd) (\<lambda>(n, sd'). same_socket sd sd')"
  unfolding addMulticastMembership_def by (rule safe_bindE [OF safe_lower_bound]) simp

lemma safe_joined_membership: "safe (joined_membership a i sd there) (\<lambda>(n, sd'). same_socket sd sd')"
  by (cases there) (simp_all add: joined_membership_def safe_addMembership)

section \<open>Consistent tables\<close>

definition sockets_ok :: "'z sockets \<Rightarrow> bool" where
  "sockets_ok u \<longleftrightarrow>
     (\<forall>i sd. socketsByIdMap u i = Some sd \<longrightarrow> sd_sockId sd = i \<and> i \<noteq> -1 \<and> 0 \<le> sd_localPort sd \<and> sd_localPort sd \<le> 65535
        \<and> i \<in> set (port_list u (sd_localPort sd)))
     \<and> (\<forall>p. distinct (port_list u p) \<and> (\<forall>i \<in> set (port_list u p). \<exists>sd. socketsByIdMap u i = Some sd \<and> sd_localPort sd = p))
     \<and> 1024 \<le> unat (us_lastEphemeralPort u) \<and> unat (us_lastEphemeralPort u) < 5000"

lemma sockets_okD:
  "sockets_ok u \<Longrightarrow> socketsByIdMap u i = Some sd \<Longrightarrow> sd_sockId sd = i \<and> i \<noteq> -1 \<and> 0 \<le> sd_localPort sd \<and> sd_localPort sd \<le> 65535
     \<and> i \<in> set (port_list u (sd_localPort sd))"
  "sockets_ok u \<Longrightarrow> distinct (port_list u p)"
  "sockets_ok u \<Longrightarrow> i \<in> set (port_list u p) \<Longrightarrow> \<exists>sd. socketsByIdMap u i = Some sd \<and> sd_localPort sd = p"
  "sockets_ok u \<Longrightarrow> 1024 \<le> unat (us_lastEphemeralPort u) \<and> unat (us_lastEphemeralPort u) < 5000"
  unfolding sockets_ok_def by blast+

lemma listed_at_port: "sockets_ok u \<Longrightarrow> socketsByIdMap u i = Some sd \<Longrightarrow> i \<in> set (port_list u p) \<longleftrightarrow> p = sd_localPort sd"
  using sockets_okD(1) [of u i sd] sockets_okD(3) [of u i p] by auto

definition has_socket :: "int \<Rightarrow> 'z sockets \<Rightarrow> bool" where
  "has_socket i u \<longleftrightarrow> sockets_ok u \<and> socketsByIdMap u i \<noteq> None"

lemma has_socketD: "has_socket i u \<Longrightarrow> sockets_ok u"
  by (simp add: has_socket_def)

lemma sockets_ok_cong:
  "socketsByIdMap u' = socketsByIdMap u \<Longrightarrow> socketsByPortMap u' = socketsByPortMap u \<Longrightarrow> us_lastEphemeralPort u' = us_lastEphemeralPort u
   \<Longrightarrow> sockets_ok u' = sockets_ok u"
  by (simp add: sockets_ok_def port_list_def)

lemma sockets_ok_request [simp]: "sockets_ok (request r u) = sockets_ok u" "has_socket i (request r u) = has_socket i u"
  using sockets_ok_cong [of "request r u" u] by (simp_all add: request_def has_socket_def)

lemma sock_known: "has_socket i u \<Longrightarrow> \<exists>sd. sock u i = Inr sd \<and> socketsByIdMap u i = Some sd \<and> sd_sockId sd = i"
  by (auto simp: has_socket_def sock_def sockets_ok_def)

lemma listed_known: "sockets_ok u \<Longrightarrow> i \<in> set (port_list u p) \<Longrightarrow> has_socket i u"
  unfolding sockets_ok_def has_socket_def by blast

lemma put_sock_ok:
  assumes "sockets_ok u" "socketsByIdMap u i = Some sd" "same_socket sd sd'"
  shows "has_socket i (put_sock sd' u)"
proof -
  have i: "sd_sockId sd' = i" "sd_localPort sd' = sd_localPort sd" using assms by (auto simp: sockets_ok_def same_socket_def)
  have p: "port_list (put_sock sd' u) q = port_list u q" for q by (simp add: port_list_def put_sock_def)
  have "sockets_ok (put_sock sd' u)" unfolding sockets_ok_def p
  proof (intro conjI allI impI ballI)
    fix j s assume "socketsByIdMap (put_sock sd' u) j = Some s"
    then have s: "if j = i then s = sd' else socketsByIdMap u j = Some s" by (auto simp: put_sock_def i(1) split: if_splits)
    then show "sd_sockId s = j" "j \<noteq> -1" "0 \<le> sd_localPort s" "sd_localPort s \<le> 65535" "j \<in> set (port_list u (sd_localPort s))"
      using assms i by (auto simp: sockets_ok_def split: if_splits)
  next
    fix q j assume "j \<in> set (port_list u q)"
    then show "\<exists>s. socketsByIdMap (put_sock sd' u) j = Some s \<and> sd_localPort s = q"
      using assms(1,2) i by (fastforce simp: sockets_ok_def put_sock_def)
  qed (use assms(1) in \<open>auto simp: sockets_ok_def put_sock_def\<close>)
  then show ?thesis by (simp add: has_socket_def put_sock_def i(1))
qed

lemma put_sock_known: "has_socket i u \<Longrightarrow> sock u i = Inr sd \<Longrightarrow> same_socket sd sd' \<Longrightarrow> has_socket i (put_sock sd' u)"
  by (rule put_sock_ok [of u i sd sd']) (auto simp: has_socket_def sock_def split: option.splits)


section \<open>Creating and binding\<close>

lemma port_list_set [simp]: "port_list (set_port_list p is u) q = (if q = p then is else port_list u q)"
  "socketsByIdMap (set_port_list p is u) = socketsByIdMap u" "us_lastEphemeralPort (set_port_list p is u) = us_lastEphemeralPort u"
  by (simp_all add: port_list_def set_port_list_def)

lemma port_list_put [simp]: "port_list (put_sock sd u) q = port_list u q"
  "socketsByIdMap (put_sock sd u) = (socketsByIdMap u)(sd_sockId sd \<mapsto> sd)" "us_lastEphemeralPort (put_sock sd u) = us_lastEphemeralPort u"
  by (simp_all add: port_list_def put_sock_def)

lemma safe_getEphemeralPort:
  assumes "sockets_ok u"
  shows "safe (udp_getEphemeralPort u) (\<lambda>(p, u'). \<exists>q. p = q \<and> u' = u\<lparr>us_lastEphemeralPort := q\<rparr> \<and> sockets_ok u' \<and> port_list u' (uint p) = [])"
proof -
  let ?taken = "\<lambda>p. socketsByPortMap u (uint p) \<noteq> None"
  let ?search = "search_port port_rounds ?taken (us_lastEphemeralPort u) (next_port (us_lastEphemeralPort u))"
  have range: "1024 \<le> unat (us_lastEphemeralPort u)" "unat (us_lastEphemeralPort u) < 5000" using assms by (auto simp: sockets_ok_def)
  have error: "e = RuntimeError ''Ephemeral port range exhausted, all ports occupied''" if "search_port n taken s p = Some (Inl e)" for n taken s p e
    using that by (induction n taken s p rule: search_port.induct) (auto split: if_splits)
  from search_port_total [OF range, of ?taken] consider
      p where "?search = Some (Inr p)" "\<not> ?taken p" "1024 \<le> unat p" "unat p < 5000" | e where "?search = Some (Inl e)" by blast
  then show ?thesis
  proof cases
    case (1 p)
    have "sockets_ok (u\<lparr>us_lastEphemeralPort := p\<rparr>)" using assms 1(3,4) by (simp add: sockets_ok_def port_list_def)
    moreover have "port_list (u\<lparr>us_lastEphemeralPort := p\<rparr>) (uint p) = []" using 1(2) by (simp add: port_list_def)
    ultimately show ?thesis using 1(1) by (simp add: udp_getEphemeralPort_def)
  next
    case (2 e)
    show ?thesis using 2 error [OF 2] by (simp add: udp_getEphemeralPort_def)
  qed
qed

lemma new_socket_ok:
  assumes "sockets_ok u" "socketsByIdMap u i = None" "i \<noteq> -1" "0 \<le> p" "p \<le> 65535" "sd_sockId sd = i" "sd_localPort sd = p"
  shows "has_socket i (set_port_list p (port_list u p @ [i]) (put_sock sd u))"
proof -
  let ?u = "set_port_list p (port_list u p @ [i]) (put_sock sd u)"
  have fresh: "i \<notin> set (port_list u q)" for q using assms(1,2) by (fastforce simp: sockets_ok_def)
  have "sockets_ok ?u" unfolding sockets_ok_def
  proof (intro conjI allI impI ballI)
    fix j s assume "socketsByIdMap ?u j = Some s"
    then have j: "if j = i then s = sd else socketsByIdMap u j = Some s" using assms(6) by (auto split: if_splits)
    then show "sd_sockId s = j" "j \<noteq> -1" "0 \<le> sd_localPort s" "sd_localPort s \<le> 65535"
      using assms sockets_okD(1) [OF assms(1)] by (auto split: if_splits)
    show "j \<in> set (port_list ?u (sd_localPort s))"
      using j assms(7) sockets_okD(1) [OF assms(1), of j s] by (auto split: if_splits)
  next
    fix q show "distinct (port_list ?u q)" using sockets_okD(2) [OF assms(1)] fresh by simp
    fix j assume "j \<in> set (port_list ?u q)"
    then have "j = i \<and> q = p \<or> j \<noteq> i \<and> j \<in> set (port_list u q)" using fresh [of q] by (auto split: if_splits)
    then show "\<exists>s. socketsByIdMap ?u j = Some s \<and> sd_localPort s = q"
      using sockets_okD(3) [OF assms(1), of j q] assms(6,7) by auto
  qed (use assms(1) in \<open>auto simp: sockets_ok_def\<close>)
  then show ?thesis by (simp add: has_socket_def assms(6))
qed

lemma safe_createSocket:
  fixes u :: "'z sockets"
  assumes "sockets_ok u" "socketsByIdMap u i = None" "i \<noteq> -1" "-1 \<le> p" "p \<le> 65535"
  shows "safe (createSocket i a p u) (has_socket i)"
  unfolding createSocket_def
proof (rule safe_bindE [of _ "\<lambda>(port, u1). sockets_ok u1 \<and> socketsByIdMap u1 i = None \<and> 0 \<le> port \<and> port \<le> 65535"])
  show "safe (if p = -1 then bindE (udp_getEphemeralPort u) (\<lambda>(q, u'). Inr (uint q, u')) else Inr (p, u))
     (\<lambda>(port, u1). sockets_ok u1 \<and> socketsByIdMap u1 i = None \<and> 0 \<le> port \<and> port \<le> 65535)"
  proof (cases "p = -1")
    case True
    have "uint (q :: u16) \<le> 65535" for q using uint_lt2p [of q] by simp
    then show ?thesis using True assms(2) by (auto intro!: safe_bindE [OF safe_getEphemeralPort [OF assms(1)]])
  qed (use assms in simp)
next
  fix x :: "int \<times> 'z sockets" assume "case x of (port, u1) \<Rightarrow> sockets_ok u1 \<and> socketsByIdMap u1 i = None \<and> 0 \<le> port \<and> port \<le> 65535"
  then obtain port u1 where x: "x = (port, u1)" "sockets_ok u1" "socketsByIdMap u1 i = None" "0 \<le> port" "port \<le> 65535" by (cases x) auto
  have "has_socket i (set_port_list port (port_list u1 port @ [i])
           (put_sock ((new_sock_desc i)\<lparr>sd_localAddr := a, sd_localPort := port, sd_onlyLocalPortIsSet := any\<rparr>) u1))" for any
    by (rule new_socket_ok [OF x(2,3) assms(3) x(4,5)]) (simp_all add: new_sock_desc_def)
  then show "safe (case x of (port, u1) \<Rightarrow> bindE (l3_isUnspecified a) (\<lambda>any. Inr (set_port_list port (port_list u1 port @ [i])
           (put_sock ((new_sock_desc i)\<lparr>sd_localAddr := a, sd_localPort := port, sd_onlyLocalPortIsSet := any\<rparr>) u1)))) (has_socket i)"
    by (auto simp: x(1) intro!: safe_bindE [OF safe_l3(1)])
qed

lemma safe_getOrCreateSocket:
  assumes "sockets_ok u"
  shows "safe (getOrCreateSocket i u) (\<lambda>(sd, u1). has_socket i u1 \<and> sock u1 i = Inr sd \<and> sd_sockId sd = i)"
proof (cases "i = -1 \<or> socketsByIdMap u i \<noteq> None")
  case True
  then show ?thesis using assms by (auto simp: getOrCreateSocket_def has_socket_def sock_def sockets_ok_def)
next
  case False
  have "safe (createSocket i l3_none (-1) u) (has_socket i)" by (rule safe_createSocket) (use assms False in auto)
  then have "safe (bindE (createSocket i l3_none (-1) u) (\<lambda>u1. bindE (sock u1 i) (\<lambda>sd. Inr (sd, u1))))
      (\<lambda>(sd, u1). has_socket i u1 \<and> sock u1 i = Inr sd \<and> sd_sockId sd = i)"
    by (rule safe_bindE) (use sock_known in fastforce)
  then show ?thesis using False by (simp add: getOrCreateSocket_def)
qed

lemma safe_connect:
  assumes "sockets_ok u"
  shows "safe (connect_socket i a p u) sockets_ok"
proof -
  have "sockets_ok (put_sock (sd\<lparr>sd_remoteAddr := a, sd_remotePort := p, sd_onlyLocalPortIsSet := False\<rparr>) u1)"
    if "has_socket i u1" "sock u1 i = Inr sd" for sd u1
    using has_socketD [OF put_sock_known [OF that]] by simp
  then have "safe (bindE (getOrCreateSocket i u) (\<lambda>(sd, u1).
       Inr (put_sock (sd\<lparr>sd_remoteAddr := a, sd_remotePort := p, sd_onlyLocalPortIsSet := False\<rparr>) u1))) sockets_ok"
    by (auto intro!: safe_bindE [OF safe_getOrCreateSocket [OF assms]])
  then show ?thesis unfolding connect_socket_def by (auto intro!: safe_bind_any [OF safe_l3(1)])
qed

lemma sockets_ok_destroy:
  assumes "sockets_ok u"
  shows "sockets_ok (destroySocket i u)"
proof (cases "socketsByIdMap u i")
  case (Some sd)
  let ?u = "destroySocket i u"
  have lists: "port_list ?u q = (if q = sd_localPort sd then remove1 i (port_list u q) else port_list u q)" for q
    using Some by (auto simp: destroySocket_def port_list_def Let_def split: option.splits)
  have ids: "socketsByIdMap ?u = (socketsByIdMap u)(i := None)" "us_lastEphemeralPort ?u = us_lastEphemeralPort u"
    using Some by (simp_all add: destroySocket_def Let_def)
  have mem: "j \<in> set (port_list ?u q) \<longleftrightarrow> j \<noteq> i \<and> j \<in> set (port_list u q)" for j q
    using sockets_okD(2) [OF assms, of q] listed_at_port [OF assms Some, of q] by (cases "q = sd_localPort sd") (auto simp: lists)
  have "distinct (port_list ?u q)" for q using sockets_okD(2) [OF assms, of q] by (auto simp: lists intro: distinct_remove1)
  moreover have "sd_sockId s = j \<and> j \<noteq> -1 \<and> 0 \<le> sd_localPort s \<and> sd_localPort s \<le> 65535 \<and> j \<in> set (port_list ?u (sd_localPort s))"
    if "socketsByIdMap ?u j = Some s" for j s
    unfolding mem using that sockets_okD(1) [OF assms, of j s] by (auto simp: ids split: if_splits)
  moreover have "\<exists>s. socketsByIdMap ?u j = Some s \<and> sd_localPort s = q" if "j \<in> set (port_list ?u q)" for j q
    using that sockets_okD(3) [OF assms, of j q] unfolding mem by (auto simp: ids)
  ultimately show ?thesis unfolding sockets_ok_def using sockets_okD(4) [OF assms] ids(2) by auto
qed (use assms in \<open>simp add: destroySocket_def\<close>)

lemma sockets_ok_clear: "sockets_ok u \<Longrightarrow> sockets_ok (clearAllSockets u)"
  by (simp add: sockets_ok_def clearAllSockets_def port_list_def)


lemma safe_findFirstSocket:
  assumes "sockets_ok u"
  shows "safe (findFirstSocketByLocalAddress a p u) (\<lambda>r. case r of None \<Rightarrow> True | Some i \<Rightarrow> has_socket i u)"
proof (cases "socketsByPortMap u (uint p)")
  case (Some js)
  have known: "has_socket i u" if "i \<in> set js" for i
    using listed_known [OF assms, of i "uint p"] that Some by (simp add: port_list_def)
  have "safe (bindE (sock u i) (\<lambda>sd. orE (l3_isUnspecified (sd_localAddr sd)) (l3_eq (sd_localAddr sd) a))) (\<lambda>_. True)" if "i \<in> set js" for i
    using sock_known [OF known [OF that]] by (auto intro!: safe_orE)
  then have "safe (findE (\<lambda>i. bindE (sock u i) (\<lambda>sd. orE (l3_isUnspecified (sd_localAddr sd)) (l3_eq (sd_localAddr sd) a))) js)
      (\<lambda>r. case r of None \<Rightarrow> True | Some i \<Rightarrow> i \<in> set js)" by (rule safe_findE)
  then have "safe (findE (\<lambda>i. bindE (sock u i) (\<lambda>sd. orE (l3_isUnspecified (sd_localAddr sd)) (l3_eq (sd_localAddr sd) a))) js)
      (\<lambda>r. case r of None \<Rightarrow> True | Some i \<Rightarrow> has_socket i u)" by (rule safe_mono) (simp add: known split: option.splits)
  then show ?thesis by (simp add: findFirstSocketByLocalAddress_def Some)
qed (simp add: findFirstSocketByLocalAddress_def)

lemma moved_socket_ok:
  assumes ok: "sockets_ok u" and sd: "socketsByIdMap u i = Some sd" and sd': "sd_sockId sd' = i" "sd_localPort sd' = p"
    and p: "sd_localPort sd \<noteq> p" "0 \<le> p" "p \<le> 65535"
  defines "u1 \<equiv> set_port_list (sd_localPort sd) (filter (\<lambda>j. j \<noteq> i) (port_list u (sd_localPort sd))) (put_sock sd' u)"
  shows "sockets_ok (set_port_list p (port_list u1 p @ [i]) u1)"
proof -
  let ?u = "set_port_list p (port_list u1 p @ [i]) u1"
  have ids: "socketsByIdMap ?u = (socketsByIdMap u)(i \<mapsto> sd')" "us_lastEphemeralPort ?u = us_lastEphemeralPort u"
    by (simp_all add: u1_def sd'(1))
  have lists: "port_list ?u q = (if q = p then port_list u p @ [i] else if q = sd_localPort sd then filter (\<lambda>j. j \<noteq> i) (port_list u q) else port_list u q)" for q
    using p(1) by (auto simp: u1_def)
  have at: "i \<in> set (port_list u q) \<longleftrightarrow> q = sd_localPort sd" for q by (rule listed_at_port [OF ok sd])
  have mem: "j \<in> set (port_list ?u q) \<longleftrightarrow> (if j = i then q = p else j \<in> set (port_list u q))" for j q
    using at [of q] p(1) unfolding lists by auto
  have "distinct (port_list ?u q)" for q
    using sockets_okD(2) [OF ok, of q] at [of q] p(1) unfolding lists by auto
  moreover have "sd_sockId s = j \<and> j \<noteq> -1 \<and> 0 \<le> sd_localPort s \<and> sd_localPort s \<le> 65535 \<and> j \<in> set (port_list ?u (sd_localPort s))"
    if "socketsByIdMap ?u j = Some s" for j s
    unfolding mem using that sockets_okD(1) [OF ok sd] sockets_okD(1) [OF ok, of j s] sd' p unfolding ids by (auto split: if_splits)
  moreover have "\<exists>s. socketsByIdMap ?u j = Some s \<and> sd_localPort s = q" if "j \<in> set (port_list ?u q)" for j q
    using that sockets_okD(3) [OF ok, of j q] sd'(2) unfolding mem ids by (auto split: if_splits)
  ultimately show ?thesis unfolding sockets_ok_def using sockets_okD(4) [OF ok] ids(2) by auto
qed

lemma safe_bind_socket:
  assumes ok: "sockets_ok u"
  shows "safe (bind_socket i a p u) sockets_ok"
proof (cases "i = -1 \<or> p < -1 \<or> p > 65535")
  case False
  have reuse: "safe (case existing of None \<Rightarrow> Inr False | Some j \<Rightarrow> bindE (sock u j) (\<lambda>sj. Inr (\<not> sd_reuseAddr sj))) (\<lambda>_. True)"
    if "case existing of None \<Rightarrow> True | Some i \<Rightarrow> has_socket i u" for existing
    using that by (cases existing) (auto dest!: sock_known)
  have bound: "safe (if sd_isBound sd then Inl (RuntimeError ''bind: socket is already bound'')
            else let sd1 = sd\<lparr>sd_isBound := True, sd_localAddr := a\<rparr> in
              if p \<noteq> -1 \<and> sd_localPort sd \<noteq> p then
                let u1 = set_port_list (sd_localPort sd) (filter (\<lambda>j. j \<noteq> i) (port_list u (sd_localPort sd))) (put_sock (sd1\<lparr>sd_localPort := p\<rparr>) u)
                in Inr (set_port_list p (port_list u1 p @ [i]) u1)
              else Inr (put_sock sd1 u)) sockets_ok" if sd: "socketsByIdMap u i = Some sd" for sd
  proof -
    have id: "sd_sockId sd = i" using sockets_okD(1) [OF ok sd] by simp
    have "sockets_ok (put_sock (sd\<lparr>sd_isBound := True, sd_localAddr := a\<rparr>) u)"
      by (rule has_socketD [OF put_sock_ok [OF ok sd]]) (simp add: same_socket_def)
    moreover have "p \<noteq> -1 \<Longrightarrow> sd_localPort sd \<noteq> p \<Longrightarrow> sockets_ok
       (set_port_list p (port_list (set_port_list (sd_localPort sd) (filter (\<lambda>j. j \<noteq> i) (port_list u (sd_localPort sd)))
          (put_sock (sd\<lparr>sd_isBound := True, sd_localAddr := a, sd_localPort := p\<rparr>) u)) p @ [i])
        (set_port_list (sd_localPort sd) (filter (\<lambda>j. j \<noteq> i) (port_list u (sd_localPort sd)))
          (put_sock (sd\<lparr>sd_isBound := True, sd_localAddr := a, sd_localPort := p\<rparr>) u)))"
      by (rule moved_socket_ok [OF ok sd]) (use False id in auto)
    ultimately show ?thesis by (simp add: Let_def)
  qed
  have made: "safe (bindE (createSocket i a p u) (\<lambda>u1. bindE (sock u1 i) (\<lambda>sd. Inr (put_sock (sd\<lparr>sd_isBound := True\<rparr>) u1)))) sockets_ok"
    if "socketsByIdMap u i = None"
  proof (rule safe_bindE [OF safe_createSocket [OF ok that]])
    fix u1 assume "has_socket i u1"
    moreover from sock_known [OF this] obtain sd where "sock u1 i = Inr sd" by blast
    ultimately show "safe (bindE (sock u1 i) (\<lambda>sd. Inr (put_sock (sd\<lparr>sd_isBound := True\<rparr>) u1))) sockets_ok"
      using has_socketD [OF put_sock_known, of i u1 sd "sd\<lparr>sd_isBound := True\<rparr>"] by (simp add: same_socket_def)
  qed (use False in auto)
  have valid: "(i = -1) = False" "(p < -1 \<or> p > 65535) = False" using False by auto
  show ?thesis unfolding bind_socket_def valid if_False
    by (rule safe_bindE [OF safe_findFirstSocket [OF ok]], rule safe_bindE [OF reuse], assumption)
      (use bound made in \<open>auto split: option.split\<close>)
qed (auto simp: bind_socket_def)


section \<open>Options\<close>

lemma safe_interface_by_id: "safe (interface_by_id i u) (\<lambda>_. True)"
  by (simp add: interface_by_id_def split: option.split)

lemma safe_addToInterface: "has_socket i u \<Longrightarrow> safe (addMulticastAddressToInterface a ie u) (has_socket i)"
  unfolding addMulticastAddressToInterface_def
  by (auto intro!: safe_bind_any [OF safe_assertE] safe_bind_any [OF safe_l3(2)])

lemma safe_join_group:
  assumes "has_socket i u"
  shows "safe (join_group i x u) (has_socket i)"
proof -
  obtain a ifid where x: "x = (a, ifid)" by (cases x)
  obtain sd where sd: "sock u i = Inr sd" using sock_known [OF assms] by blast
  have added: "safe (let u1 = put_sock sd' u in
       if ifid \<noteq> -1 then
         bindE (interface_by_id ifid u1) (\<lambda>ie. bindE (assertE (snd ie)) (\<lambda>_. addMulticastAddressToInterface a ie u1))
       else foldE (addMulticastAddressToInterface a) (filter snd (us_interfaces u1)) u1) (has_socket i)" if "same_socket sd sd'" for sd'
    using put_sock_known [OF assms sd that]
    by (auto simp: Let_def intro!: safe_bind_any [OF safe_interface_by_id] safe_bind_any [OF safe_assertE] safe_addToInterface safe_foldE)
  have "safe (bindE (addMulticastMembership m sd) (\<lambda>(n, sd'). let u1 = put_sock sd' u in
       if ifid \<noteq> -1 then
         bindE (interface_by_id ifid u1) (\<lambda>ie. bindE (assertE (snd ie)) (\<lambda>_. addMulticastAddressToInterface a ie u1))
       else foldE (addMulticastAddressToInterface a) (filter snd (us_interfaces u1)) u1)) (has_socket i)" for m
    by (rule safe_bindE [OF safe_addMembership]) (use added in auto)
  then show ?thesis unfolding x join_group_def prod.case sd bindE_Inr
    by (auto intro!: safe_bind_any [OF safe_l3(2)] safe_bind_any [OF safe_assertE] safe_bindE [OF safe_findMembership(2)])
qed

lemma safe_joinMulticastGroups: "has_socket i u \<Longrightarrow> safe (joinMulticastGroups i as ifids u) (has_socket i)"
  unfolding joinMulticastGroups_def by (rule safe_foldE) (auto intro: safe_join_group)

lemma safe_span_group: "safe (span_group a ms) (\<lambda>_. True)"
proof (induction ms)
  case (Cons m ms)
  then show ?case by (auto intro!: safe_bind_any [OF safe_l3(5)] safe_bindE [OF Cons])
qed simp

lemma has_socket_requests: "has_socket i u \<Longrightarrow> has_socket i (fold (\<lambda>x. request (f x)) xs u)"
  by (induction xs arbitrary: u) simp_all

lemma safe_leave_on_interfaces: "has_socket i u \<Longrightarrow> safe (leave_on_interfaces m u) (has_socket i)"
  by (auto simp: leave_on_interfaces_def Let_def intro!: safe_bind_any [OF safe_interface_by_id] has_socket_requests)

lemma safe_leave_group:
  assumes "has_socket i u"
  shows "safe (leave_group i a u) (has_socket i)"
proof -
  obtain sd where sd: "sock u i = Inr sd" using sock_known [OF assms] by blast
  have "safe (foldE leave_on_interfaces gone (put_sock (sd\<lparr>sd_memberships := ms\<rparr>) u)) (has_socket i)" for gone ms
    by (rule safe_foldE) (use put_sock_known [OF assms sd, of "sd\<lparr>sd_memberships := ms\<rparr>"] in \<open>simp_all add: safe_leave_on_interfaces\<close>)
  then show ?thesis unfolding leave_group_def sd bindE_Inr
    by (auto intro!: safe_bindE [OF safe_findMembership(1)] safe_bind_any [OF safe_span_group] simp: assms split: option.split)
qed

lemma safe_leaveMulticastGroups: "has_socket i u \<Longrightarrow> safe (leaveMulticastGroups i as u) (has_socket i)"
  unfolding leaveMulticastGroups_def by (rule safe_foldE) (auto intro: safe_leave_group)

lemma safe_with_membership:
  assumes "has_socket i u" "\<And>sd there. sock u i = Inr sd \<Longrightarrow> safe (k sd there) (has_socket i)"
  shows "safe (with_membership i ie a u k) (has_socket i)"
proof -
  obtain sd where sd: "sock u i = Inr sd" using sock_known [OF assms(1)] by blast
  show ?thesis unfolding with_membership_def sd bindE_Inr
    by (auto intro!: safe_bind_any [OF safe_l3(2)] safe_bind_any [OF safe_assertE] safe_bindE [OF safe_findMembership(2)] assms(2) [OF sd])
qed

lemma safe_push_known: "safe (foldE push_known sources s) (\<lambda>_. True)"
  by (rule safe_foldE) (auto simp: push_known_def intro!: safe_bind_any [OF safe_has_source] split: prod.split)

lemma safe_erase_first: "safe (erase_first a xs) (\<lambda>_. True)"
proof (induction xs)
  case (Cons x xs)
  then show ?case by (auto intro!: safe_bind_any [OF safe_l3(5)] safe_bindE [OF Cons])
qed simp

lemma safe_erase_known: "safe (foldE erase_known sources s) (\<lambda>_. True)"
  by (rule safe_foldE) (auto simp: erase_known_def intro!: safe_bind_any [OF safe_erase_first] split: prod.split)

lemma safe_same_sources: "safe (same_sources xs ys) (\<lambda>_. True)"
  by (induction xs ys rule: same_sources.induct) (auto intro!: safe_andE)

lemmas safe_source_loops = safe_bind_any [OF safe_push_known] safe_bind_any [OF safe_erase_known]

lemma put_changed:
  assumes "has_socket i u" "sock u i = Inr sd" "same_socket sd sd'"
  shows "has_socket i (put_sock (change_sources n f sd') u)" "has_socket i (put_sock (deleteMulticastMembership n (change_sources n f sd')) u)"
    "has_socket i (put_sock sd' u)"
  using put_sock_known [OF assms(1,2)] same_socket_trans [OF assms(3)] assms(3) by simp_all

lemma safe_sources:
  assumes "has_socket i u"
  shows "safe (blockMulticastSources i ie a sources u) (has_socket i)" "safe (unblockMulticastSources i ie a sources u) (has_socket i)"
    "safe (leaveMulticastSources i ie a sources u) (has_socket i)" "safe (joinMulticastSources i ie a sources u) (has_socket i)"
    "safe (setMulticastSourceFilter i ie a mode sources u) (has_socket i)"
proof -
  note put = put_changed [OF assms]
  show "safe (blockMulticastSources i ie a sources u) (has_socket i)" "safe (unblockMulticastSources i ie a sources u) (has_socket i)"
    "safe (leaveMulticastSources i ie a sources u) (has_socket i)"
    unfolding blockMulticastSources_def unblockMulticastSources_def leaveMulticastSources_def
    by (auto intro!: safe_with_membership [OF assms] safe_source_loops simp: Let_def put split: option.split)
  have joined: "safe (bindE (joined_membership a ifid sd there) k) (has_socket i)"
    if "sock u i = Inr sd" "\<And>n sd'. same_socket sd sd' \<Longrightarrow> safe (k (n, sd')) (has_socket i)" for ifid sd there k
    by (rule safe_bindE [OF safe_joined_membership]) (use that in auto)
  show "safe (joinMulticastSources i ie a sources u) (has_socket i)"
    unfolding joinMulticastSources_def
    by (auto intro!: safe_with_membership [OF assms] joined safe_source_loops simp: Let_def put)
  have same: "safe (bindE (same_sources xs ys) (\<lambda>same. Inr (\<not> same))) (\<lambda>_. True)" for xs ys
    by (auto intro!: safe_bind_any [OF safe_same_sources])
  show "safe (setMulticastSourceFilter i ie a mode sources u) (has_socket i)"
    unfolding setMulticastSourceFilter_def
    by (auto intro!: safe_with_membership [OF assms] joined safe_bind_any [OF safe_orE [OF _ same]] simp: Let_def put)
qed

lemma safe_set_option:
  assumes "has_socket i u" "sock u i = Inr sd" "sd_sockId sd = i"
  shows "safe (set_option opt sd u) (has_socket i)"
  using put_sock_known [OF assms(1,2)] safe_joinMulticastGroups [OF assms(1)] safe_leaveMulticastGroups [OF assms(1)] safe_sources [OF assms(1)]
  by (cases opt) (auto simp: set_option_def assms(3) Let_def intro!: safe_bind_any [OF safe_interface_by_id])


section \<open>Packets\<close>

lemma sockets_ok_counters [simp]:
  "sockets_ok (udp_emit x u) = sockets_ok u" "sockets_ok (u\<lparr>numSent := n\<rparr>) = sockets_ok u" "sockets_ok (u\<lparr>numPassedUp := n\<rparr>) = sockets_ok u"
  "sockets_ok (u\<lparr>numDroppedWrongPort := n\<rparr>) = sockets_ok u" "sockets_ok (u\<lparr>numDroppedBadChecksum := n\<rparr>) = sockets_ok u"
  "has_socket i (udp_emit x u) = has_socket i u" "has_socket i (u\<lparr>numPassedUp := n\<rparr>) = has_socket i u"
  by (simp_all add: udp_emit_def sockets_ok_def port_list_def has_socket_def)

lemma safe_if: "(c \<Longrightarrow> safe a P) \<Longrightarrow> (\<not> c \<Longrightarrow> safe b P) \<Longrightarrow> safe (if c then a else b) P"
  by simp

lemma safe_pair: "(\<And>a b. x = (a, b) \<Longrightarrow> safe (f a b) P) \<Longrightarrow> safe (case x of (a, b) \<Rightarrow> f a b) P"
  by (cases x) simp

lemma safe_fill_address: "safe (fill_address a b) (\<lambda>_. True)"
  unfolding fill_address_def by (auto intro!: safe_bind_any)

lemma safe_computeCrc: "safe (computeCrc cs proto src dest h data) (\<lambda>_. True)"
  by (simp add: computeCrc_def Let_def)

lemma safe_insertCrc: "safe (insertCrc cs proto src dest h data) (\<lambda>_. True)"
  by (auto simp: insertCrc_def intro!: safe_bind_any [OF safe_computeCrc] split: crc_mode.split)

lemma safe_verifyCrc: "safe (udp_verifyCrc cs a) (\<lambda>_. True)"
  by (auto simp: udp_verifyCrc_def Let_def intro!: safe_bind_any [OF safe_computeCrc] split: crc_mode.split)

lemma safe_multicast_interface: "safe (multicast_interface a sd) (\<lambda>_. True)"
  unfolding multicast_interface_def by (rule safe_bindE [OF safe_findMembership(1)]) (simp add: Let_def)

lemma safe_send:
  assumes "sockets_ok u"
  shows "safe (udp_send cs r u) sockets_ok"
proof -
  have ifid: "safe (if b then bindE (l3_isMulticast dest) (\<lambda>mcast. if mcast then multicast_interface dest sd else Inr None)
               else Inr i) (\<lambda>_. True)" for b dest sd i
    using safe_multicast_interface by (auto intro!: safe_bind_any)
  have crc: "safe (if b then Inr h else insertCrc cs proto src dest h data) (\<lambda>_. True)" for b h proto src dest data
    by (auto intro: safe_insertCrc)
  show ?thesis
    unfolding udp_send_def
    by (rule safe_if, simp, rule safe_bindE [OF safe_getOrCreateSocket [OF assms]], unfold Let_def,
        intro safe_if safe_pair safe_bind_any [OF safe_fill_address] safe_bind_any [OF safe_assertE]
        safe_bind_any [OF ifid] safe_bind_any [OF crc] safe_bind_any [OF safe_l3(1)])
      (simp_all add: has_socket_def)
qed

lemma safe_sendUp: "has_socket i u \<Longrightarrow> safe (sendUp h a sp dp i u) (\<lambda>u'. sockets_ok u' \<and> socketsByIdMap u' = socketsByIdMap u)"
  using sock_known [of i u] has_socketD [of i u]
  by (auto simp: sendUp_def) (simp add: udp_emit_def)

lemma safe_undeliverable: "sockets_ok u \<Longrightarrow> safe (processUndeliverablePacket a u) sockets_ok"
  by (simp add: processUndeliverablePacket_def Let_def split: net_protocol.split)

lemma safe_unicast_matches: "safe (unicast_matches local remote p sd) (\<lambda>_. True)"
  unfolding unicast_matches_def by (intro safe_orE safe_andE) simp_all

lemma safe_find_from_end:
  assumes "\<forall>i \<in> set is. has_socket i u" "\<forall>i. any = Some i \<longrightarrow> has_socket i u"
  shows "safe (find_from_end local remote p u is any) (\<lambda>r. \<forall>i. r = Some i \<longrightarrow> has_socket i u)"
  using assms
proof (induction "is" arbitrary: any)
  case (Cons i js)
  obtain sd where sd: "sock u i = Inr sd" using sock_known [of i u] Cons.prems(1) by auto
  show ?case unfolding find_from_end.simps sd bindE_Inr
    by (rule safe_bind_any [OF safe_unicast_matches]) (use Cons in \<open>auto intro!: safe_bind_any\<close>)
qed simp

lemma safe_findSocket:
  assumes "sockets_ok u"
  shows "safe (findSocketForUnicastPacket local lp remote rp u) (\<lambda>r. \<forall>i. r = Some i \<longrightarrow> has_socket i u)"
proof (cases "socketsByPortMap u (uint lp)")
  case (Some js)
  have "\<forall>i \<in> set (rev js). has_socket i u" using listed_known [OF assms, of _ "uint lp"] Some by (simp add: port_list_def)
  from safe_find_from_end [OF this, of None] show ?thesis by (simp add: findSocketForUnicastPacket_def Some)
qed (simp add: findSocketForUnicastPacket_def)

lemma safe_mcast_matches: "safe (mcast_matches local remote p m b sd) (\<lambda>_. True)"
  unfolding mcast_matches_def remote_matches_def
  by (auto intro!: safe_bindE [OF safe_findMembership(1)] safe_andE safe_orE safe_isSourceAllowed split: option.split)

lemma safe_findSockets:
  assumes "sockets_ok u"
  shows "safe (findSocketsForMcastBcastPacket local lp remote rp m b u) (\<lambda>r. \<forall>i \<in> set r. has_socket i u)"
proof (cases "socketsByPortMap u (uint lp)")
  case (Some js)
  have known: "\<And>i. i \<in> set js \<Longrightarrow> has_socket i u" using listed_known [OF assms, of _ "uint lp"] Some by (simp add: port_list_def)
  have step: "safe (bindE (sock u i) (\<lambda>sd. bindE (mcast_matches local remote rp m b sd) (\<lambda>yes.
       Inr (if yes then found @ [i] else found)))) (\<lambda>r. \<forall>j \<in> set r. has_socket j u)"
    if i: "i \<in> set js" and found: "\<forall>j \<in> set found. has_socket j u" for i found
  proof -
    obtain sd where sd: "sock u i = Inr sd" using sock_known [OF known [OF i]] by blast
    show ?thesis unfolding sd bindE_Inr
      by (rule safe_bind_any [OF safe_mcast_matches]) (use known [OF i] found in auto)
  qed
  have "safe (foldE (\<lambda>i found. bindE (sock u i) (\<lambda>sd. bindE (mcast_matches local remote rp m b sd) (\<lambda>yes.
       Inr (if yes then found @ [i] else found)))) js []) (\<lambda>r. \<forall>j \<in> set r. has_socket j u)"
    by (rule safe_foldE) (use step in auto)
  then show ?thesis unfolding findSocketsForMcastBcastPacket_def Some by (auto intro!: safe_bind_any [OF safe_assertE])
qed (auto simp: findSocketsForMcastBcastPacket_def intro!: safe_bind_any [OF safe_assertE])

lemma safe_processUDPPacket:
  fixes u :: "('a, 'n) udp"
  assumes "sockets_ok u"
  shows "safe (processUDPPacket cs a u) sockets_ok"
proof -
  have bad: "safe (orE (Inr b) (bindE (udp_verifyCrc cs a) (\<lambda>ok. Inr (\<not> ok)))) (\<lambda>_. True)" for b
    by (intro safe_orE safe_bind_any [OF safe_verifyCrc]) simp_all
  have one: "safe (sendUp h x sp dp i u) sockets_ok" if "has_socket i u" for h x sp dp i
    by (rule safe_mono [OF safe_sendUp [OF that]]) simp
  have all: "safe (foldE (sendUp h x sp dp) found u) sockets_ok" if found: "\<forall>i \<in> set found. has_socket i u" for h x sp dp found
  proof -
    have "safe (foldE (sendUp h x sp dp) found u) (\<lambda>u'. sockets_ok u' \<and> socketsByIdMap u' = socketsByIdMap u)"
    proof (rule safe_foldE)
      fix i and s :: "('a, 'n) udp" assume i: "i \<in> set found" and s: "sockets_ok s \<and> socketsByIdMap s = socketsByIdMap u"
      have "has_socket i s" using found i s by (simp add: has_socket_def)
      from safe_mono [OF safe_sendUp [OF this]] s show "safe (sendUp h x sp dp i s) (\<lambda>u'. sockets_ok u' \<and> socketsByIdMap u' = socketsByIdMap u)"
        by fastforce
    qed (use assms in simp)
    then show ?thesis by (rule safe_mono) simp
  qed
  show ?thesis unfolding processUDPPacket_def Let_def
    by (auto intro!: safe_bind_any [OF bad] safe_bind_any [OF safe_l3(2)] safe_bind_any [OF safe_l3(3)] safe_bindE [OF safe_findSocket [OF assms]]
        safe_bindE [OF safe_findSockets [OF assms]] one all safe_undeliverable simp: assms split: option.split)
qed

lemma safe_icmp: "sockets_ok u \<Longrightarrow> safe (processICMPError b e u) sockets_ok"
  unfolding processICMPError_def sendUpErrorIndication_def
  by (auto intro!: safe_bindE [OF safe_findSocket] dest!: sock_known split: option.split)

lemma safe_step:
  assumes "sockets_ok u"
  shows "safe (udp_step cs ev u) sockets_ok"
proof (cases ev)
  case (Command i c)
  have "safe (bindE (getOrCreateSocket i u) (\<lambda>(sd, u1). set_option opt sd u1)) sockets_ok" for opt
    by (rule safe_bindE [OF safe_getOrCreateSocket [OF assms]])
      (auto intro!: safe_mono [OF safe_set_option] has_socketD)
  then show ?thesis using safe_bind_socket [OF assms] safe_connect [OF assms] sockets_ok_destroy [OF assms]
    by (cases c) (simp_all add: Command udp_handleUpperCommand_def)
next
  case (Lower p)
  then show ?thesis using safe_processUDPPacket [OF assms] safe_icmp [OF assms]
    by (cases p) (simp_all add: udp_handleLowerPacket_def processICMPv4Error_def processICMPv6Error_def)
qed (use safe_send [OF assms] sockets_ok_clear [OF assms] in \<open>simp_all add: udp_stop_def\<close>)

fun udp_run :: "'a udp_checksum \<Rightarrow> ('a, 'n) udp_event list \<Rightarrow> ('a, 'n) udp \<Rightarrow> ('a, 'n) udp outcome" where
  "udp_run cs evs u = foldE (udp_step cs) evs u"

lemma new_udp_ok: "sockets_ok (new_udp mode ifs)"
  by (simp add: sockets_ok_def port_list_def new_udp_def PORTRANGE_START_def)

lemma safe_run: "safe (udp_run cs evs (new_udp mode ifs)) sockets_ok"
  by (auto intro!: safe_foldE new_udp_ok safe_step)

lemma run_sockets_ok: "udp_run cs evs (new_udp mode ifs) = Inr u \<Longrightarrow> sockets_ok u"
  using safe_run [of cs evs mode ifs] by (simp add: safe_def)

text \<open>
  C37. Whatever commands, datagrams, ICMP errors and stops a UDP module handles, its two tables agree:
  a socket is known by its id and listed exactly once, under its own port. A run fails only with an
  error that the code raises for a wrong command or packet; no event follows a pointer to a socket
  that is gone, and the search for a port ends.
\<close>

theorem udp_tables_agree:
  shows "(\<forall>u. udp_run cs evs (new_udp mode ifs) = Inr u \<longrightarrow>
      (\<forall>i sd. socketsByIdMap u i = Some sd \<longrightarrow> sd_sockId sd = i \<and> 0 \<le> sd_localPort sd \<and> sd_localPort sd \<le> 65535)
      \<and> (\<forall>i p. i \<in> set (port_list u p) \<longleftrightarrow> (\<exists>sd. socketsByIdMap u i = Some sd \<and> sd_localPort sd = p))
      \<and> (\<forall>p. distinct (port_list u p)))
    \<and> (\<forall>e. udp_run cs evs (new_udp mode ifs) = Inl e \<longrightarrow> e = AssertionFailed \<or> (\<exists>msg. e = RuntimeError msg))"
proof -
  have run: "safe (udp_run cs evs (new_udp mode ifs)) sockets_ok" by (rule safe_run)
  have error: "e = AssertionFailed \<or> (\<exists>msg. e = RuntimeError msg)" if "raised e" for e
    using that by (auto simp: raised_def split: inet_error.splits)
  show ?thesis
  proof (cases "udp_run cs evs (new_udp mode ifs)")
    case (Inl e)
    then show ?thesis using run error [of e] by (simp add: safe_def)
  next
    case (Inr u)
    have ok: "sockets_ok u" using run Inr by (simp add: safe_def)
    then show ?thesis using sockets_okD(1,2,3) [OF ok] unfolding Inr by blast
  qed
qed

end
