(* ===== verification/Udp_Delivery.thy ===== *)
theory Udp_Delivery
  imports Udp_Laws
begin

text \<open>
  Which sockets of a UDP module get a datagram, what arrives of a datagram that another module has sent, and
  what the filters of multicast sources do.
\<close>

section \<open>The socket of a unicast datagram\<close>

text \<open>Addresses are the empty address, IPv4 or IPv6 addresses, which the code compares by value.\<close>

definition plain_sockets :: "'z sockets \<Rightarrow> bool" where
  "plain_sockets u \<longleftrightarrow> (\<forall>i sd. socketsByIdMap u i = Some sd \<longrightarrow> l3_plain (sd_localAddr sd) \<and> l3_plain (sd_remoteAddr sd))"

definition accepts_remote :: "l3addr \<Rightarrow> u16 \<Rightarrow> sock_desc \<Rightarrow> bool" where
  "accepts_remote remote rp sd \<longleftrightarrow>
     (sd_remotePort sd = -1 \<or> sd_remotePort sd = uint rp) \<and> (l3_any (sd_remoteAddr sd) \<or> sd_remoteAddr sd = remote)"

definition accepts :: "l3addr \<Rightarrow> l3addr \<Rightarrow> u16 \<Rightarrow> sock_desc \<Rightarrow> bool" where
  "accepts local remote rp sd \<longleftrightarrow>
     sd_onlyLocalPortIsSet sd \<or> (l3_any (sd_localAddr sd) \<or> sd_localAddr sd = local) \<and> accepts_remote remote rp sd"

definition on_socket :: "'z sockets \<Rightarrow> (sock_desc \<Rightarrow> bool) \<Rightarrow> int \<Rightarrow> bool" where
  "on_socket u P i \<longleftrightarrow> (case socketsByIdMap u i of None \<Rightarrow> False | Some sd \<Rightarrow> P sd)"

abbreviation has_own_address :: "sock_desc \<Rightarrow> bool" where
  "has_own_address sd \<equiv> \<not> l3_any (sd_localAddr sd)"

text \<open>The last socket with an address of its own, and the first without one when there is no such socket.\<close>

definition best_socket :: "l3addr \<Rightarrow> u16 \<Rightarrow> l3addr \<Rightarrow> u16 \<Rightarrow> 'z sockets \<Rightarrow> int option" where
  "best_socket local lp remote rp u =
     (let fits = filter (on_socket u (accepts local remote rp)) (port_list u (uint lp));
          own = filter (on_socket u has_own_address) fits
      in if own \<noteq> [] then Some (last own) else if fits \<noteq> [] then Some (hd fits) else None)"

lemma remote_matches_plain:
  "l3_plain remote \<Longrightarrow> l3_plain (sd_remoteAddr sd) \<Longrightarrow> remote_matches remote rp sd = Inr (accepts_remote remote rp sd)"
  by (simp add: remote_matches_def accepts_remote_def l3_isUnspecified_plain l3_eq_plain)

lemma unicast_matches_plain:
  assumes "l3_plain local" "l3_plain remote" "l3_plain (sd_localAddr sd)" "l3_plain (sd_remoteAddr sd)"
  shows "unicast_matches local remote rp sd = Inr (accepts local remote rp sd)"
  using assms by (auto simp: unicast_matches_def accepts_def accepts_remote_def l3_isUnspecified_plain l3_eq_plain)

lemma find_from_end_spec:
  fixes u :: "'z sockets" and js :: "int list" and rp :: u16
  assumes "plain_sockets u" "l3_plain local" "l3_plain remote" "\<And>i. i \<in> set js \<Longrightarrow> socketsByIdMap u i \<noteq> None"
  defines "fits \<equiv> filter (on_socket u (accepts local remote rp)) js"
  shows "find_from_end local remote rp u js any =
    Inr (case filter (on_socket u has_own_address) fits of i # _ \<Rightarrow> Some i | [] \<Rightarrow> if fits \<noteq> [] then Some (last fits) else any)"
  using assms(4) unfolding fits_def
proof (induction js arbitrary: any)
  case (Cons i js)
  then obtain sd where sd: "socketsByIdMap u i = Some sd" by auto
  then have plain: "l3_plain (sd_localAddr sd)" "l3_plain (sd_remoteAddr sd)" using assms(1) by (auto simp: plain_sockets_def)
  have "find_from_end local remote rp u (i # js) any =
      (if accepts local remote rp sd then
         if l3_any (sd_localAddr sd) then find_from_end local remote rp u js (Some i) else Inr (Some i)
       else find_from_end local remote rp u js any)"
    using sd by (simp add: sock_def unicast_matches_plain [OF assms(2,3) plain] l3_isUnspecified_plain [OF plain(1)])
  then show ?case using Cons sd by (simp add: on_socket_def split: list.split)
qed simp

lemma findSocketForUnicastPacket_spec:
  assumes "sockets_ok u" "plain_sockets u" "l3_plain local" "l3_plain remote"
  shows "findSocketForUnicastPacket local lp remote rp u = Inr (best_socket local lp remote rp u)"
proof (cases "socketsByPortMap u (uint lp)")
  case (Some js)
  then have js: "port_list u (uint lp) = js" by (simp add: port_list_def)
  have known: "socketsByIdMap u i \<noteq> None" if "i \<in> set (rev js)" for i
    using sockets_okD(3) [OF assms(1), of i "uint lp"] that js by auto
  have "(case rev xs of i # _ \<Rightarrow> Some i | [] \<Rightarrow> if rev ys \<noteq> [] then Some (last (rev ys)) else None)
      = (if xs \<noteq> [] then Some (last xs) else if ys \<noteq> [] then Some (hd ys) else None)" for xs ys :: "int list"
    by (cases xs rule: rev_cases; cases ys) simp_all
  then show ?thesis
    by (simp only: findSocketForUnicastPacket_def Some option.case find_from_end_spec [OF assms(2-4) known]
      best_socket_def js Let_def rev_filter [symmetric])
qed (simp add: findSocketForUnicastPacket_def best_socket_def port_list_def)


section \<open>Delivery\<close>

lemma sendUp_known:
  "socketsByIdMap u i = Some sd \<Longrightarrow> sd_sockId sd = i \<Longrightarrow>
   sendUp h a sp dp i u = Inr ((udp_emit (ToSocket i h a sp dp) u)\<lparr>numPassedUp := numPassedUp u + 1\<rparr>)"
  by (simp add: sendUp_def sock_def)

lemma best_socket_known:
  assumes "sockets_ok u" "best_socket local lp remote rp u = Some i"
  shows "\<exists>sd. socketsByIdMap u i = Some sd \<and> sd_sockId sd = i \<and> sd_localPort sd = uint lp"
proof -
  let ?fits = "filter (on_socket u (accepts local remote rp)) (port_list u (uint lp))"
  let ?own = "filter (on_socket u has_own_address) ?fits"
  have i: "?own \<noteq> [] \<and> i = last ?own \<or> ?fits \<noteq> [] \<and> i = hd ?fits"
    using assms(2) unfolding best_socket_def Let_def by (simp only: split: if_splits) auto
  then have "i \<in> set ?fits" using last_in_set [of ?own] hd_in_set [of ?fits] by auto
  then show ?thesis using sockets_okD(3) [OF assms(1), of i "uint lp"] sockets_okD(1) [OF assms(1)] by fastforce
qed

definition intact :: "'a udp_checksum \<Rightarrow> ('a, 'n) udp_arrival \<Rightarrow> bool" where
  "intact cs a \<longleftrightarrow> \<not> hasIncorrectLength a \<and> udp_verifyCrc cs a = Inr True"

lemma process_intact:
  assumes "sockets_ok u" "plain_sockets u" "intact cs a"
    and dest: "ua_dest a = l3_ipv4 d" "\<not> isMulticast d" "\<not> isLimitedBroadcastAddress d" and src: "l3_plain (ua_src a)"
  defines "sp \<equiv> uh_srcPort (ua_header a)" and "dp \<equiv> uh_destPort (ua_header a)"
  shows "processUDPPacket cs a u =
    (case best_socket (l3_ipv4 d) dp (ua_src a) sp u of
       Some i \<Rightarrow> Inr ((udp_emit (ToSocket i (ua_header a) (remove_padding a) sp dp) u)\<lparr>numPassedUp := numPassedUp u + 1\<rparr>)
     | None \<Rightarrow> processUndeliverablePacket (remove_padding a) u)"
proof -
  have same: "ua_dest (remove_padding a) = l3_ipv4 d" "ua_src (remove_padding a) = ua_src a"
    using dest(1) by (simp_all add: remove_padding_def)
  have ok: "orE (Inr (hasIncorrectLength a)) (bindE (udp_verifyCrc cs a) (\<lambda>ok. Inr (\<not> ok))) = Inr False"
    using assms(3) by (simp add: intact_def)
  have found: "findSocketForUnicastPacket (l3_ipv4 d) dp (ua_src a) sp u = Inr (best_socket (l3_ipv4 d) dp (ua_src a) sp u)"
    by (rule findSocketForUnicastPacket_spec [OF assms(1,2)]) (simp_all add: src)
  have "processUDPPacket cs a u = (case best_socket (l3_ipv4 d) dp (ua_src a) sp u of
       None \<Rightarrow> processUndeliverablePacket (remove_padding a) u | Some i \<Rightarrow> sendUp (ua_header a) (remove_padding a) sp dp i u)"
    unfolding processUDPPacket_def Let_def ok sp_def dp_def using found
    by (simp add: same dest(2,3) sp_def dp_def)
  then show ?thesis using best_socket_known [OF assms(1)] sendUp_known by (fastforce split: option.split)
qed



definition sample_events :: "(nat, unit) udp_event list" where
  "sample_events = [Command 7 (Bind (l3_ipv4 5) 80), Command 8 (Bind (l3_ipv4 0) 80)]"

definition sample_socket :: "int \<Rightarrow> ipv4_address \<Rightarrow> bool \<Rightarrow> sock_desc" where
  "sample_socket i a any =
     (new_sock_desc i)\<lparr>sd_isBound := True, sd_localAddr := l3_ipv4 a, sd_localPort := 80, sd_onlyLocalPortIsSet := any\<rparr>"

definition sample_udp :: "crc_mode \<Rightarrow> (nat, unit) udp" where
  "sample_udp mode =
     (new_udp mode [(1, True)])\<lparr>socketsByIdMap := [7 \<mapsto> sample_socket 7 5 False, 8 \<mapsto> sample_socket 8 0 True],
       socketsByPortMap := [80 \<mapsto> [7, 8]]\<rparr>"

definition sample_arrival :: "nat list \<Rightarrow> (nat, unit) udp_arrival" where
  "sample_arrival data =
     \<lparr>ua_src = l3_ipv4 9, ua_dest = l3_ipv4 5, ua_protocol = Net_ipv4, ua_networkHeader = (), ua_interface = 1,
      ua_header = \<lparr>uh_srcPort = 1024, uh_destPort = 80, uh_totalLength = 10, uh_crc = 0xC00D,
                   uh_crcMode = CRC_DECLARED_CORRECT, uh_isCorrect = True\<rparr>,
      ua_data = data, ua_dataCorrect = True\<rparr>"

lemma l3_isUnspecified_ipv4 [simp]: "l3_isUnspecified (l3_ipv4 a) = Inr (a = 0)"
  using l3_isUnspecified_plain [of "l3_ipv4 a"] by simp

lemma l3_eq_ipv4 [simp]: "l3_eq (l3_ipv4 a) (l3_ipv4 b) = Inr (a = b)"
  by (simp add: l3_eq_plain)

lemma sample_run: "udp_run cs sample_events (new_udp mode [(1, True)]) = Inr (sample_udp mode)"
  by (simp add: sample_events_def udp_handleUpperCommand_def bind_socket_def findFirstSocketByLocalAddress_def createSocket_def
      new_udp_def sample_udp_def sample_socket_def new_sock_desc_def sock_def put_sock_def set_port_list_def port_list_def
      assertE_def fun_eq_iff)

lemma sample_plain: "plain_sockets (sample_udp mode)"
  by (simp add: plain_sockets_def sample_udp_def sample_socket_def new_sock_desc_def)

lemma sample_best: "best_socket (l3_ipv4 5) 80 (l3_ipv4 9) 1024 (sample_udp mode) = Some 7"
  by (simp add: best_socket_def port_list_def sample_udp_def on_socket_def accepts_def accepts_remote_def sample_socket_def new_sock_desc_def)

theorem udp_tables_agree_witness: "(8::int) \<in> set (port_list (sample_udp CRC_DISABLED) 80)"
proof -
  have "\<forall>i p. i \<in> set (port_list (sample_udp CRC_DISABLED) p)
      \<longleftrightarrow> (\<exists>sd. socketsByIdMap (sample_udp CRC_DISABLED) i = Some sd \<and> sd_localPort sd = p)"
    using udp_tables_agree [of "\<lambda>_ _ _ _ _. 0" sample_events CRC_DISABLED "[(1, True)]"]
    unfolding sample_run by blast
  then show ?thesis by (simp add: sample_udp_def sample_socket_def)
qed



section \<open>From one module to another\<close>

text \<open>What the code relies on of the check sum: with the sum in the header it comes out as zero.\<close>

definition checksum_verifies :: "'a udp_checksum \<Rightarrow> bool" where
  "checksum_verifies cs \<longleftrightarrow>
     (\<forall>p src dest h data. let c = cs p src dest (h\<lparr>uh_crc := 0, uh_crcMode := CRC_DISABLED\<rparr>) data in
        cs p src dest (h\<lparr>uh_crc := (if c = 0 then 0xFFFF else c), uh_crcMode := CRC_COMPUTED\<rparr>) data = 0)"

text \<open>What leaves the node: a check sum that is computed is put in by the hook behind the network layer.\<close>

definition leaves_node :: "'a udp_checksum \<Rightarrow> 'a udp_datagram \<Rightarrow> 'a udp_datagram outcome" where
  "leaves_node cs d = (if uh_crcMode (dg_header d) = CRC_COMPUTED then crc_insertion_hook cs d else Inr d)"

text \<open>The datagram as it arrives, with octets that lower layers have added behind it.\<close>

definition arrives_as :: "'a udp_datagram \<Rightarrow> 'a list \<Rightarrow> ('a, 'n) udp_arrival \<Rightarrow> bool" where
  "arrives_as d padding a \<longleftrightarrow>
     ua_src a = dg_src d \<and> ua_dest a = dg_dest d \<and> ua_protocol a = dg_protocol d \<and> ua_header a = dg_header d
     \<and> ua_data a = dg_data d @ padding \<and> ua_dataCorrect a"

lemma bindE_eq_Inr: "bindE m f = Inr b \<longleftrightarrow> (\<exists>a. m = Inr a \<and> f a = Inr b)"
  by (cases m) auto

lemma insertCrc_header:
  assumes "insertCrc cs p src dest h data = Inr h'"
  shows "uh_srcPort h' = uh_srcPort h" "uh_destPort h' = uh_destPort h" "uh_totalLength h' = uh_totalLength h"
    "uh_crcMode h' = uh_crcMode h" "uh_isCorrect h' = uh_isCorrect h"
  using assms by (auto simp: insertCrc_def bindE_eq_Inr split: crc_mode.splits)

lemma if_Inl_eq_Inr: "(if c then Inl e else m) = Inr b \<longleftrightarrow> \<not> c \<and> m = Inr b"
  by simp

text \<open>What a successful \<open>udp_send\<close> does.\<close>

lemma udp_send_elim:
  assumes "udp_send cs r u = Inr u'"
  obtains sd u1 h h1 d where
    "getOrCreateSocket (ur_socketId r) u = Inr (sd, u1)" "u' = (udp_emit (ToNetwork d) u1)\<lparr>numSent := numSent u1 + 1\<rparr>"
    "dg_protocol d = network_protocol (dg_dest d)" "dg_data d = ur_data r" "dg_header d = h1"
    "if uh_crcMode h = CRC_COMPUTED then h1 = h else insertCrc cs (dg_protocol d) (dg_src d) (dg_dest d) h (ur_data r) = Inr h1"
    "uh_totalLength h = 8 + int (length (ur_data r))" "uh_isCorrect h"
    "uh_srcPort h = word_of_int (case ur_ports r of None \<Rightarrow> sd_localPort sd | Some (p, q) \<Rightarrow> if p = -1 then sd_localPort sd else p)"
    "uint (uh_destPort h) = (case ur_ports r of None \<Rightarrow> sd_remotePort sd | Some (p, q) \<Rightarrow> if q = -1 then sd_remotePort sd else q)"
proof -
  note s = assms [unfolded udp_send_def Let_def case_prod_beta' bindE_eq_Inr if_Inl_eq_Inr UDP_HEADER_LENGTH_def sum.inject]
  let ?ps = "case ur_ports r of None \<Rightarrow> (-1, -1) | Some ps \<Rightarrow> ps"
  let ?sp = "\<lambda>sd. if fst ?ps = -1 then sd_localPort sd else fst ?ps"
  let ?dp = "\<lambda>sd. if snd ?ps = -1 then sd_remotePort sd else snd ?ps"
  let ?h = "\<lambda>sd u1. \<lparr>uh_srcPort = word_of_int (?sp sd), uh_destPort = word_of_int (?dp sd),
      uh_totalLength = 8 + int (length (ur_data r)), uh_crc = 0, uh_crcMode = ud_crcMode (u1 :: ('a, 'b) udp), uh_isCorrect = True\<rparr>"
  from s obtain x src dest ifid h1 where x: "getOrCreateSocket (ur_socketId r) u = Inr x"
    and dp: "\<not> (?dp (fst x) \<le> 0 \<or> 65535 < ?dp (fst x))"
    and h1: "(if ud_crcMode (snd x) = CRC_COMPUTED then Inr (?h (fst x) (snd x))
      else insertCrc cs (network_protocol dest) src dest (?h (fst x) (snd x)) (ur_data r)) = Inr h1"
    and u': "(udp_emit (ToNetwork
               \<lparr>dg_src = src, dg_dest = dest, dg_protocol = network_protocol dest, dg_interface = ifid,
                dg_multicastLoop = or_else (ur_multicastLoop r) (Some (sd_multicastLoop (fst x))),
                dg_hopLimit = or_else (ur_hopLimit r) (if sd_ttl (fst x) \<noteq> -1 then Some (sd_ttl (fst x)) else None),
                dg_dscp = or_else (ur_dscp r) (if sd_dscp (fst x) \<noteq> -1 then Some (sd_dscp (fst x)) else None),
                dg_tos = or_else (ur_tos r) (if sd_tos (fst x) \<noteq> -1 then Some (sd_tos (fst x)) else None),
                dg_header = h1, dg_data = ur_data r\<rparr>) (snd x))\<lparr>numSent := numSent (snd x) + 1\<rparr> = u'"
    by (elim conjE exE) (rule that, assumption+)
  have x': "getOrCreateSocket (ur_socketId r) u = Inr (fst x, snd x)" using x by simp
  have port: "uint (word_of_int (?dp (fst x)) :: u16) = ?dp (fst x)"
    using dp by (simp add: uint_word_of_int_eq take_bit_int_eq_self del: if_split)
  show ?thesis
    by (rule that [OF x' u' [symmetric], where h = "?h (fst x) (snd x)"])
      (use port h1 in \<open>auto split: option.split if_splits\<close>)
qed


text \<open>A datagram that has left its node: the lengths agree, and the check sum passes at the receiver.\<close>

definition well_sent :: "'a udp_checksum \<Rightarrow> 'a udp_datagram \<Rightarrow> bool" where
  "well_sent cs d \<longleftrightarrow>
     (\<exists>h. insertCrc cs (dg_protocol d) (dg_src d) (dg_dest d) h (dg_data d) = Inr (dg_header d))
     \<and> uh_totalLength (dg_header d) = 8 + int (length (dg_data d)) \<and> uh_isCorrect (dg_header d)"

lemma sent_datagram:
  assumes "udp_send cs r u = Inr u'" "last (ud_out u') = ToNetwork d" "leaves_node cs d = Inr d'"
  shows "well_sent cs d'" "dg_data d' = ur_data r" "dg_protocol d' = network_protocol (dg_dest d)"
    "dg_src d' = dg_src d" "dg_dest d' = dg_dest d"
    "uh_srcPort (dg_header d') = uh_srcPort (dg_header d)" "uh_destPort (dg_header d') = uh_destPort (dg_header d)"
proof -
  from assms(1) obtain sd u1 h h1 d0 where
    u': "u' = (udp_emit (ToNetwork d0) u1)\<lparr>numSent := numSent u1 + 1\<rparr>"
    and d0: "dg_protocol d0 = network_protocol (dg_dest d0)" "dg_data d0 = ur_data r" "dg_header d0 = h1"
    and h: "if uh_crcMode h = CRC_COMPUTED then h1 = h else insertCrc cs (dg_protocol d0) (dg_src d0) (dg_dest d0) h (ur_data r) = Inr h1"
      "uh_totalLength h = 8 + int (length (ur_data r))" "uh_isCorrect h"
    by (rule udp_send_elim)
  have d: "d0 = d" using assms(2) by (simp add: u' udp_emit_def)
  consider "uh_crcMode h \<noteq> CRC_COMPUTED" "d' = d" "insertCrc cs (dg_protocol d) (dg_src d) (dg_dest d) h (ur_data r) = Inr (dg_header d)"
    | h2 where "dg_header d = h" "insertCrc cs (dg_protocol d) (dg_src d) (dg_dest d) h (ur_data r) = Inr h2" "d' = d\<lparr>dg_header := h2\<rparr>"
  proof (cases "uh_crcMode h = CRC_COMPUTED")
    case True
    then have "dg_header d = h" using h(1) d0(3) by (simp add: d)
    then show ?thesis using that(2) True assms(3) d0(2)
      by (auto simp: leaves_node_def crc_insertion_hook_def bindE_eq_Inr d)
  next
    case False
    then have "insertCrc cs (dg_protocol d) (dg_src d) (dg_dest d) h (ur_data r) = Inr (dg_header d)" using h(1) d0(3) by (simp add: d)
    moreover from this have "uh_crcMode (dg_header d) \<noteq> CRC_COMPUTED" using False insertCrc_header(4) by metis
    ultimately show ?thesis using that(1) False assms(3) by (simp add: leaves_node_def)
  qed
  then have all: "well_sent cs d' \<and> dg_data d' = ur_data r \<and> dg_protocol d' = network_protocol (dg_dest d) \<and> dg_src d' = dg_src d
    \<and> dg_dest d' = dg_dest d \<and> uh_srcPort (dg_header d') = uh_srcPort (dg_header d) \<and> uh_destPort (dg_header d') = uh_destPort (dg_header d)"
  proof cases
    case 1
    then show ?thesis using insertCrc_header [OF 1(3)] h d0 by (auto simp: well_sent_def d)
  next
    case (2 h2)
    then show ?thesis using insertCrc_header [OF 2(2)] h d0 by (auto simp: well_sent_def d)
  qed
  then show "well_sent cs d'" "dg_data d' = ur_data r" "dg_protocol d' = network_protocol (dg_dest d)"
    "dg_src d' = dg_src d" "dg_dest d' = dg_dest d"
    "uh_srcPort (dg_header d') = uh_srcPort (dg_header d)" "uh_destPort (dg_header d') = uh_destPort (dg_header d)"
    by auto
qed

lemma well_sent_intact:
  assumes "well_sent cs d" "arrives_as d padding a" "checksum_verifies cs" "uh_crcMode (dg_header d) \<noteq> CRC_DECLARED_INCORRECT"
  shows "intact cs a"
proof -
  let ?h = "dg_header d"
  from assms(1) obtain h where h: "insertCrc cs (dg_protocol d) (dg_src d) (dg_dest d) h (dg_data d) = Inr ?h"
    and len: "uh_totalLength ?h = 8 + int (length (dg_data d))" "uh_isCorrect ?h" by (auto simp: well_sent_def)
  have a: "ua_header a = ?h" "ua_data a = dg_data d @ padding" "ua_dataCorrect a" "ua_protocol a = dg_protocol d"
    "ua_src a = dg_src d" "ua_dest a = dg_dest d" using assms(2) by (auto simp: arrives_as_def)
  have data: "take (nat (uh_totalLength ?h - UDP_HEADER_LENGTH)) (ua_data a) = dg_data d"
    by (simp add: len a UDP_HEADER_LENGTH_def)
  have mode: "uh_crcMode ?h = uh_crcMode h" by (rule insertCrc_header(4) [OF h])
  have none: "uh_crc ?h = 0" if "uh_crcMode h = CRC_DISABLED"
    using h that by (auto simp: insertCrc_def dest: arg_cong [of _ _ uh_crc])
  have "udp_verifyCrc cs a = Inr True"
  proof (cases "uh_crcMode h")
    case CRC_COMPUTED
    let ?c = "cs (dg_protocol d) (dg_src d) (dg_dest d) (h\<lparr>uh_crc := 0, uh_crcMode := CRC_DISABLED\<rparr>) (dg_data d)"
    have p: "dg_protocol d = Net_ipv4 \<or> dg_protocol d = Net_ipv6" and hd: "?h = h\<lparr>uh_crc := (if ?c = 0 then 0xFFFF else ?c), uh_crcMode := CRC_COMPUTED\<rparr>"
      using h CRC_COMPUTED by (auto simp: insertCrc_def computeCrc_def Let_def split: if_splits)
    have "cs (dg_protocol d) (dg_src d) (dg_dest d) ?h (dg_data d) = 0"
      using assms(3) unfolding checksum_verifies_def hd Let_def by blast
    moreover have "uh_crcMode ?h = CRC_COMPUTED" by (simp add: hd)
    moreover have "uh_crc ?h \<noteq> 0" by (simp add: hd)
    ultimately show ?thesis using p a len by (auto simp: udp_verifyCrc_def UDP_HEADER_LENGTH_def computeCrc_def Let_def)
  qed (use h assms(4) a(1,3) len(2) mode none in \<open>auto simp: udp_verifyCrc_def insertCrc_def Let_def\<close>)
  then show ?thesis by (simp add: intact_def hasIncorrectLength_def a len UDP_HEADER_LENGTH_def)
qed

lemma well_sent_padding:
  assumes "well_sent cs d" "arrives_as d padding a"
  shows "ua_data (remove_padding a) = dg_data d @ (if length padding \<le> 8 then padding else [])"
  using assms by (auto simp: well_sent_def arrives_as_def remove_padding_def UDP_HEADER_LENGTH_def)

lemma sent_port:
  assumes "sockets_ok u" "udp_send cs r u = Inr u'" "last (ud_out u') = ToNetwork d" "ur_ports r = None" "leaves_node cs d = Inr d'"
  shows "\<exists>sd. socketsByIdMap u' (ur_socketId r) = Some sd \<and> uint (uh_srcPort (dg_header d')) = sd_localPort sd
      \<and> uint (uh_destPort (dg_header d')) = sd_remotePort sd"
proof -
  from assms(2) obtain sd u1 h h1 d0 where
    u1: "getOrCreateSocket (ur_socketId r) u = Inr (sd, u1)" and u': "u' = (udp_emit (ToNetwork d0) u1)\<lparr>numSent := numSent u1 + 1\<rparr>"
    and h: "dg_header d0 = h1"
      "if uh_crcMode h = CRC_COMPUTED then h1 = h else insertCrc cs (dg_protocol d0) (dg_src d0) (dg_dest d0) h (ur_data r) = Inr h1"
      "uh_srcPort h = word_of_int (case ur_ports r of None \<Rightarrow> sd_localPort sd | Some (p, q) \<Rightarrow> if p = -1 then sd_localPort sd else p)"
      "uint (uh_destPort h) = (case ur_ports r of None \<Rightarrow> sd_remotePort sd | Some (p, q) \<Rightarrow> if q = -1 then sd_remotePort sd else q)"
    by (rule udp_send_elim)
  have "d0 = d" using assms(3) by (simp add: u' udp_emit_def)
  moreover have "uh_srcPort h1 = uh_srcPort h" "uh_destPort h1 = uh_destPort h"
    using h(2) insertCrc_header(1,2) [of cs _ _ _ h _ h1] by (auto split: if_splits)
  ultimately have ports: "uh_srcPort (dg_header d') = uh_srcPort h" "uh_destPort (dg_header d') = uh_destPort h"
    using h(1) sent_datagram(6,7) [OF assms(2,3,5)] by simp_all
  have ok: "has_socket (ur_socketId r) u1" and sd: "sock u1 (ur_socketId r) = Inr sd"
    using safe_getOrCreateSocket [OF assms(1), of "ur_socketId r"] unfolding u1 by simp_all
  then have s: "socketsByIdMap u1 (ur_socketId r) = Some sd" by (auto simp: sock_def split: option.splits)
  then have "0 \<le> sd_localPort sd" "sd_localPort sd \<le> 65535" using sockets_okD(1) [OF has_socketD [OF ok] s] by auto
  then have "uint (word_of_int (sd_localPort sd) :: u16) = sd_localPort sd"
    by (simp add: uint_word_of_int_eq take_bit_int_eq_self)
  then show ?thesis using s h(3,4) by (simp add: ports u' udp_emit_def assms(4))
qed



section \<open>Broadcasts\<close>

lemma foldE_filter:
  assumes "\<And>x. x \<in> set xs \<Longrightarrow> f x = Inr (P x)"
  shows "foldE (\<lambda>x found. bindE (f x) (\<lambda>yes. Inr (if yes then found @ [x] else found))) xs acc = Inr (acc @ filter P xs)"
  using assms by (induction xs arbitrary: acc) simp_all

lemma foldE_sendUp:
  assumes "sockets_ok u" "set is \<subseteq> dom (socketsByIdMap u)"
  shows "foldE (sendUp h a sp dp) is u =
    Inr (u\<lparr>ud_out := ud_out u @ map (\<lambda>i. ToSocket i h a sp dp) is, numPassedUp := numPassedUp u + int (length is)\<rparr>)"
  using assms
proof (induction "is" arbitrary: u)
  case (Cons i js)
  obtain sd where sd: "socketsByIdMap u i = Some sd" using Cons.prems(2) by auto
  let ?u = "(udp_emit (ToSocket i h a sp dp) u)\<lparr>numPassedUp := numPassedUp u + 1\<rparr>"
  have "sockets_ok ?u = sockets_ok u" by (rule sockets_ok_cong) (simp_all add: udp_emit_def)
  then have "sockets_ok ?u" "set js \<subseteq> dom (socketsByIdMap ?u)" using Cons.prems by (simp_all add: udp_emit_def)
  then show ?case using Cons.IH [of ?u] sendUp_known [OF sd] sockets_okD(1) [OF Cons.prems(1) sd]
    by (simp add: udp_emit_def add.commute add.left_commute)
qed simp

text \<open>
  A broadcast that is intact goes, once each and in the order of their creation, to all sockets of its port
  that have asked for broadcasts and accept its sender.
\<close>

theorem broadcast_reaches_willing_sockets:
  assumes "udp_run cs evs (new_udp mode ifs) = Inr u" "plain_sockets u" "intact cs a"
    and "ua_dest a = l3_ipv4 d" "\<not> isMulticast d" "isLimitedBroadcastAddress d" "ua_src a = l3_ipv4 s"
  defines "h \<equiv> ua_header a"
  defines "willing \<equiv> filter (on_socket u (\<lambda>sd. sd_isBroadcast sd \<and> accepts_remote (l3_ipv4 s) (uh_srcPort h) sd))
      (port_list u (uint (uh_destPort h)))"
  shows "processUDPPacket cs a u =
    (if willing = [] then processUndeliverablePacket (remove_padding a) u
     else Inr (u\<lparr>ud_out := ud_out u @ map (\<lambda>i. ToSocket i h (remove_padding a) (uh_srcPort h) (uh_destPort h)) willing,
                  numPassedUp := numPassedUp u + int (length willing)\<rparr>))"
proof -
  let ?sp = "uh_srcPort h" and ?dp = "uh_destPort h"
  let ?P = "on_socket u (\<lambda>sd. sd_isBroadcast sd \<and> accepts_remote (l3_ipv4 s) ?sp sd)"
  let ?f = "\<lambda>i. bindE (sock u i) (mcast_matches (l3_ipv4 d) (l3_ipv4 s) ?sp False True)"
  note ok = run_sockets_ok [OF assms(1)]
  have same: "ua_dest (remove_padding a) = l3_ipv4 d" "ua_src (remove_padding a) = l3_ipv4 s"
    using assms(4,7) by (simp_all add: remove_padding_def)
  have f: "?f i = Inr (?P i)" if il: "i \<in> set (port_list u (uint ?dp))" for i
  proof -
    obtain sd where sd: "socketsByIdMap u i = Some sd" using sockets_okD(3) [OF ok il] by auto
    then have "l3_plain (sd_remoteAddr sd)" using assms(2) by (simp add: plain_sockets_def)
    then show ?thesis using sd remote_matches_plain [of "l3_ipv4 s" sd ?sp] by (simp add: sock_def on_socket_def mcast_matches_def)
  qed
  have assoc: "bindE (sock u i) (\<lambda>sd. bindE (mcast_matches l r p m b sd) g) = bindE (bindE (sock u i) (mcast_matches l r p m b)) g" for i l r p m b g
    by (cases "sock u i") simp_all
  have found: "findSocketsForMcastBcastPacket (l3_ipv4 d) ?dp (l3_ipv4 s) ?sp False True u = Inr willing"
  proof (cases "socketsByPortMap u (uint ?dp)")
    case (Some js)
    then have js: "port_list u (uint ?dp) = js" by (simp add: port_list_def)
    show ?thesis using foldE_filter [of js ?f ?P "[]"] f unfolding js
      by (simp add: findSocketsForMcastBcastPacket_def assertE_def Some assoc willing_def js)
  qed (simp add: findSocketsForMcastBcastPacket_def assertE_def willing_def port_list_def)
  have sent: "foldE (sendUp h (remove_padding a) ?sp ?dp) willing u =
    Inr (u\<lparr>ud_out := ud_out u @ map (\<lambda>i. ToSocket i h (remove_padding a) ?sp ?dp) willing, numPassedUp := numPassedUp u + int (length willing)\<rparr>)"
    by (rule foldE_sendUp [OF ok]) (auto simp: willing_def on_socket_def split: option.splits)
  have good: "orE (Inr (hasIncorrectLength a)) (bindE (udp_verifyCrc cs a) (\<lambda>ok. Inr (\<not> ok))) = Inr False"
    using assms(3) by (simp add: intact_def)
  show ?thesis unfolding processUDPPacket_def Let_def good h_def [symmetric] using found sent
    by (simp add: same assms(5,6))
qed


section \<open>Multicast sources\<close>

lemma l3_eq_same: "l3_eq x a = Inr True \<Longrightarrow> l3_eq x s = l3_eq a s"
  by (auto simp: l3_eq_def split: if_splits l3_type.splits)

lemma has_source_append:
  assumes "has_source xs a = Inr True"
  shows "has_source (xs @ [a]) s = has_source xs s"
proof -
  have "findE (\<lambda>x. l3_eq x s) (xs @ [a]) = findE (\<lambda>x. l3_eq x s) xs" if "has_source xs a = Inr True"
    using that
  proof (induction xs)
    case (Cons x xs)
    show ?case
    proof (cases "l3_eq x a = Inr True")
      case True
      have skip: "findE (\<lambda>x. l3_eq x s) (ys @ [a]) = findE (\<lambda>x. l3_eq x s) ys" if "l3_eq a s = Inr False" for ys
        by (induction ys) (simp_all add: that bindE_def split: sum.split)
      show ?thesis using l3_eq_same [OF True, of s] skip
        by (cases "l3_eq a s") (auto split: if_splits)
    next
      case False
      then have "has_source xs a = Inr True" using Cons.prems
        by (auto simp: has_source_def bindE_eq_Inr split: if_splits)
      then show ?thesis by (simp only: append_Cons findE.simps Cons.IH)
    qed
  qed (simp add: has_source_def)
  then show ?thesis using assms by (simp add: has_source_def)
qed

lemma push_known_same:
  assumes "foldE push_known sources (xs, c) = Inr (ys, c')"
  shows "has_source ys s = has_source xs s"
  using assms
proof (induction sources arbitrary: xs c)
  case (Cons a as)
  then show ?case by (auto simp: push_known_def bindE_eq_Inr has_source_append split: if_splits)
qed simp

lemma push_known_nil: "foldE push_known sources ([], c) = Inr ([], c)"
  by (induction sources) (simp_all add: push_known_def has_source_def)

lemma with_membership_elim:
  assumes "with_membership i ie a u k = Inr u'"
  obtains sd there where "socketsByIdMap u i = Some sd" "findMulticastMembership a (fst ie) sd = Inr there" "k sd there = Inr u'"
  using assms by (auto simp: with_membership_def bindE_eq_Inr sock_def split: option.splits)

lemma change_sources_same: "f (sd_memberships sd ! n) = sd_memberships sd ! n \<Longrightarrow> change_sources n f sd = sd"
  by (simp add: change_sources_def)

lemma change_sources_allowed:
  assumes "has_source new s = has_source (mm_sourceList (sd_memberships sd ! n)) s"
  shows "map (isSourceAllowed s) (sd_memberships (change_sources n (\<lambda>m. m\<lparr>mm_sourceList := new\<rparr>) sd))
     = map (isSourceAllowed s) (sd_memberships sd)"
  using assms by (cases "n < length (sd_memberships sd)")
    (auto intro!: nth_equalityI simp: change_sources_def isSourceAllowed_def nth_list_update)

lemma block_changes_nothing:
  assumes "sockets_ok u" "blockMulticastSources i ie g sources u = Inr u'" "socketsByIdMap u j = Some sd"
  shows "\<exists>sd'. socketsByIdMap u' j = Some sd' \<and> map (isSourceAllowed s) (sd_memberships sd') = map (isSourceAllowed s) (sd_memberships sd)"
proof -
  from assms(2) obtain si there where si: "socketsByIdMap u i = Some si"
    and k: "(case there of None \<Rightarrow> Inl (RuntimeError ''Udp::blockMulticastSources(): not a member of group on interface'')
     | Some n \<Rightarrow>
         let old = mm_sourceList (sd_memberships si ! n) in
         if mm_filterMode (sd_memberships si ! n) \<noteq> EXCLUDE_SOURCES
         then Inl (RuntimeError ''Udp::blockMulticastSources(): socket was not joined to all sources of group on interface'')
         else
           bindE (foldE push_known sources (old, False)) (\<lambda>(new, changed).
           let u1 = put_sock (change_sources n (\<lambda>m. m\<lparr>mm_sourceList := new\<rparr>) si) u in
           Inr (if changed then request (ChangeMembership (fst ie) g EXCLUDE_SOURCES old EXCLUDE_SOURCES new) u1 else u1))) = Inr u'"
    unfolding blockMulticastSources_def by (rule with_membership_elim)
  from k obtain n new changed where n: "foldE push_known sources (mm_sourceList (sd_memberships si ! n), False) = Inr (new, changed)"
    and u': "socketsByIdMap u' = socketsByIdMap (put_sock (change_sources n (\<lambda>m. m\<lparr>mm_sourceList := new\<rparr>) si) u)"
    by (cases there) (auto simp: Let_def bindE_eq_Inr request_def split: if_splits)
  have i: "sd_sockId (change_sources n (\<lambda>m. m\<lparr>mm_sourceList := new\<rparr>) si) = i"
    using sockets_okD(1) [OF assms(1) si] by (simp add: change_sources_def)
  show ?thesis using change_sources_allowed [OF push_known_same [OF n]] assms(3) si
    by (auto simp: u' i)
qed

lemma join_allows_nothing:
  assumes "sockets_ok u" "joinMulticastSources i ie g sources u = Inr u'" "socketsByIdMap u i = Some sd"
    and new: "findMulticastMembership g (fst ie) sd = Inr None"
  shows "\<exists>sd' n. socketsByIdMap u' i = Some sd' \<and> us_requests u' = us_requests u
    \<and> sd_memberships sd' = take n (sd_memberships sd) @ membership_key g (fst ie) # drop n (sd_memberships sd)"
proof -
  from assms(2) obtain si there where si: "socketsByIdMap u i = Some si" "findMulticastMembership g (fst ie) si = Inr there"
    and k: "(bindE (joined_membership g (fst ie) si there) (\<lambda>(n, sd).
     let old = mm_sourceList (sd_memberships sd ! n) in
     if mm_filterMode (sd_memberships sd ! n) = EXCLUDE_SOURCES
     then Inl (RuntimeError ''Udp::joinMulticastSources(): socket was joined to all sources of group on interface'')
     else
       bindE (foldE push_known sources (old, False)) (\<lambda>(new, changed).
       let u1 = put_sock (change_sources n (\<lambda>m. m\<lparr>mm_sourceList := new\<rparr>) sd) u in
       Inr (if changed then request (ChangeMembership (fst ie) g INCLUDE_SOURCES old INCLUDE_SOURCES new) u1 else u1)))) = Inr u'"
    unfolding joinMulticastSources_def by (rule with_membership_elim)
  have there: "si = sd" "there = None" using si assms(3) new by auto
  let ?ms = "\<lambda>n. take n (sd_memberships sd) @ membership_key g (fst ie) # drop n (sd_memberships sd)"
  from k obtain n where n: "lower_bound (membership_key g (fst ie)) (sd_memberships sd) = Inr n"
    unfolding there by (auto simp: joined_membership_def addMulticastMembership_def bindE_eq_Inr)
  have "n \<le> length (sd_memberships sd)" using safe_lower_bound [of "membership_key g (fst ie)" "sd_memberships sd"] n by simp
  then have nth: "?ms n ! n = membership_key g (fst ie)" by (simp add: nth_append)
  have "u' = put_sock (change_sources n (\<lambda>m. m\<lparr>mm_sourceList := []\<rparr>) (sd\<lparr>sd_memberships := ?ms n\<rparr>)) u"
    using k unfolding there
    by (simp add: joined_membership_def addMulticastMembership_def n nth push_known_nil) (simp add: membership_key_def push_known_nil)
  moreover have "change_sources n (\<lambda>m. m\<lparr>mm_sourceList := []\<rparr>) (sd\<lparr>sd_memberships := ?ms n\<rparr>) = sd\<lparr>sd_memberships := ?ms n\<rparr>"
  proof -
    have "(?ms n ! n)\<lparr>mm_sourceList := []\<rparr> = ?ms n ! n" unfolding nth by (simp add: membership_key_def)
    then show ?thesis by (simp add: change_sources_same)
  qed
  ultimately show ?thesis using sockets_okD(1) [OF assms(1,3)] by (auto simp: put_sock_def)
qed


text \<open>
  C40. The two operations that should add sources never add one. What a socket lets through of any group stays the
  same when it asks to block sources, and a group that it joins for some sources lets none of them through: the
  membership has an empty list, and the interface is not told of it.
\<close>

theorem source_filters_never_grow:
  fixes u :: "('a, 'n) udp"
  assumes "udp_run cs evs (new_udp mode ifs) = Inr u"
  shows "(\<forall>u' j sd s. blockMulticastSources i ie g sources u = Inr u' \<longrightarrow> socketsByIdMap u j = Some sd \<longrightarrow>
      (\<exists>sd'. socketsByIdMap u' j = Some sd' \<and> map (isSourceAllowed s) (sd_memberships sd') = map (isSourceAllowed s) (sd_memberships sd)))
    \<and> (\<forall>u' sd. joinMulticastSources i ie g sources u = Inr u' \<longrightarrow> socketsByIdMap u i = Some sd \<longrightarrow>
        findMulticastMembership g (fst ie) sd = Inr None \<longrightarrow>
      (\<exists>sd' n m. socketsByIdMap u' i = Some sd' \<and> us_requests u' = us_requests u
        \<and> sd_memberships sd' = take n (sd_memberships sd) @ m # drop n (sd_memberships sd)
        \<and> mm_multicastAddress m = g \<and> (\<forall>s. isSourceAllowed s m = Inr False)))"
proof -
  note ok = run_sockets_ok [OF assms]
  have none: "mm_multicastAddress (membership_key g j) = g \<and> (\<forall>s. isSourceAllowed s (membership_key g j) = Inr False)" for j
    by (simp add: membership_key_def isSourceAllowed_def has_source_def)
  have "\<exists>sd' n m. socketsByIdMap u' i = Some sd' \<and> us_requests u' = us_requests u
      \<and> sd_memberships sd' = take n (sd_memberships sd) @ m # drop n (sd_memberships sd)
      \<and> mm_multicastAddress m = g \<and> (\<forall>s. isSourceAllowed s m = Inr False)"
    if join: "joinMulticastSources i ie g sources u = Inr u'" "socketsByIdMap u i = Some sd" "findMulticastMembership g (fst ie) sd = Inr None" for u' sd
    using join_allows_nothing [OF ok join] none by metis
  then show ?thesis using block_changes_nothing [OF ok, of i ie g sources] by simp
qed

section \<open>The properties on examples\<close>

definition sample_checksum :: "nat udp_checksum" where
  "sample_checksum = (\<lambda>p s d h data. 0x1234 - uh_crc h)"

lemma sample_checksum_verifies: "checksum_verifies sample_checksum"
  by (simp add: checksum_verifies_def sample_checksum_def)

definition sample_sender :: "(nat, unit) udp" where
  "sample_sender =
     (new_udp CRC_COMPUTED [])\<lparr>socketsByIdMap := [3 \<mapsto> (sample_socket 3 9 False)\<lparr>sd_localPort := 1024, sd_remoteAddr := l3_ipv4 5, sd_remotePort := 80\<rparr>],
       socketsByPortMap := [1024 \<mapsto> [3]]\<rparr>"

definition sample_request :: "nat udp_request" where
  "sample_request =
     \<lparr>ur_kind = 0, ur_socketId = 3, ur_src = l3_none, ur_dest = l3_none, ur_ports = None, ur_interface = None, ur_multicastLoop = None,
      ur_hopLimit = None, ur_dscp = None, ur_tos = None, ur_data = [3, 4]\<rparr>"

definition sample_datagram :: "u16 \<Rightarrow> nat udp_datagram" where
  "sample_datagram crc =
     \<lparr>dg_src = l3_ipv4 9, dg_dest = l3_ipv4 5, dg_protocol = Net_ipv4, dg_interface = None, dg_multicastLoop = Some True,
      dg_hopLimit = None, dg_dscp = None, dg_tos = None,
      dg_header = \<lparr>uh_srcPort = 1024, uh_destPort = 80, uh_totalLength = 10, uh_crc = crc, uh_crcMode = CRC_COMPUTED, uh_isCorrect = True\<rparr>,
      dg_data = [3, 4]\<rparr>"

definition sample_sent :: "(nat, unit) udp" where
  "sample_sent = sample_sender\<lparr>ud_out := [ToNetwork (sample_datagram 0)], numSent := 1\<rparr>"

lemma l3_isUnspecified_none [simp]: "l3_isUnspecified l3_none = Inr True"
  by (simp add: l3_isUnspecified_def)

lemma sample_sender_run:
  "udp_run sample_checksum [Command 3 (Bind (l3_ipv4 9) 1024), Command 3 (Connect (l3_ipv4 5) 80)] (new_udp CRC_COMPUTED []) = Inr sample_sender"
  by (simp add: udp_handleUpperCommand_def bind_socket_def findFirstSocketByLocalAddress_def createSocket_def connect_socket_def getOrCreateSocket_def
      new_udp_def sample_sender_def sample_socket_def new_sock_desc_def sock_def put_sock_def set_port_list_def port_list_def
      fun_eq_iff)

lemma sample_send: "udp_send sample_checksum sample_request sample_sender = Inr sample_sent"
  by (simp add: udp_send_def sample_request_def getOrCreateSocket_def sample_sender_def sample_socket_def new_sock_desc_def new_udp_def
      fill_address_def assertE_def isMulticast_def sample_sent_def sample_datagram_def UDP_HEADER_LENGTH_def UDP_MAX_MESSAGE_SIZE_def
      network_protocol_def or_else_def udp_emit_def)

lemma sample_leaves: "leaves_node sample_checksum (sample_datagram 0) = Inr (sample_datagram 0x1234)"
  by (simp add: leaves_node_def crc_insertion_hook_def assertE_def insertCrc_def computeCrc_def sample_datagram_def sample_checksum_def)


definition sample_broadcast :: "(nat, unit) udp" where
  "sample_broadcast =
     (sample_udp CRC_DISABLED)\<lparr>socketsByIdMap := [7 \<mapsto> sample_socket 7 5 False, 8 \<mapsto> (sample_socket 8 0 True)\<lparr>sd_isBroadcast := True\<rparr>]\<rparr>"

lemma sample_broadcast_run:
  "udp_run (\<lambda>_ _ _ _ _. 0) (sample_events @ [Command 8 (SetOption (Set_broadcast True))]) (new_udp CRC_DISABLED [(1, True)]) = Inr sample_broadcast"
  by (simp add: sample_events_def udp_handleUpperCommand_def bind_socket_def findFirstSocketByLocalAddress_def createSocket_def
      getOrCreateSocket_def set_option_def sample_broadcast_def
      new_udp_def sample_udp_def sample_socket_def new_sock_desc_def sock_def put_sock_def set_port_list_def port_list_def
      assertE_def fun_eq_iff)

theorem broadcast_reaches_willing_sockets_witness:
  "\<exists>h a'. processUDPPacket (\<lambda>_ _ _ _ _. 0) ((sample_arrival [3, 4])\<lparr>ua_dest := l3_ipv4 0xFFFFFFFF\<rparr>) sample_broadcast
    = Inr (sample_broadcast\<lparr>ud_out := [ToSocket 8 h a' 1024 80], numPassedUp := 1\<rparr>)"
proof -
  let ?a = "(sample_arrival [3, 4])\<lparr>ua_dest := l3_ipv4 0xFFFFFFFF\<rparr>"
  have intact: "intact (\<lambda>_ _ _ _ _. 0) ?a"
    by (simp add: intact_def hasIncorrectLength_def udp_verifyCrc_def sample_arrival_def UDP_HEADER_LENGTH_def Let_def)
  have plain: "plain_sockets sample_broadcast"
    by (simp add: plain_sockets_def sample_broadcast_def sample_socket_def new_sock_desc_def)
  have dest: "ua_dest ?a = l3_ipv4 0xFFFFFFFF" "\<not> isMulticast 0xFFFFFFFF" "isLimitedBroadcastAddress 0xFFFFFFFF" "ua_src ?a = l3_ipv4 9"
    by (simp_all add: sample_arrival_def isMulticast_def isLimitedBroadcastAddress_def)
  have "filter (on_socket sample_broadcast (\<lambda>sd. sd_isBroadcast sd \<and> accepts_remote (l3_ipv4 9) (uh_srcPort (ua_header ?a)) sd))
      (port_list sample_broadcast (uint (uh_destPort (ua_header ?a)))) = [8]"
    "ud_out sample_broadcast = []" "numPassedUp sample_broadcast = 0" "uh_srcPort (ua_header ?a) = 1024" "uh_destPort (ua_header ?a) = 80"
    by (simp_all add: sample_arrival_def sample_broadcast_def sample_udp_def new_udp_def port_list_def on_socket_def sample_socket_def
      new_sock_desc_def accepts_remote_def)
  then show ?thesis using broadcast_reaches_willing_sockets [OF sample_broadcast_run plain intact dest] by auto
qed

theorem source_filters_never_grow_witness:
  "case joinMulticastSources 7 (1, True) (l3_ipv4 0xE0000005) [l3_ipv4 9] (sample_udp CRC_DISABLED) of
     Inl _ \<Rightarrow> False | Inr u' \<Rightarrow> us_requests u' = []"
proof -
  let ?u = "sample_udp CRC_DISABLED" and ?sd = "sample_socket 7 5 False"
  have find: "findMulticastMembership (l3_ipv4 0xE0000005) 1 ?sd = Inr None"
    by (simp add: findMulticastMembership_def sample_socket_def new_sock_desc_def lower_bound_def lower_bound_loop.simps)
  have sd: "socketsByIdMap ?u 7 = Some ?sd" "us_requests ?u = []" by (simp_all add: sample_udp_def new_udp_def)
  have "\<exists>u'. joinMulticastSources 7 (1, True) (l3_ipv4 0xE0000005) [l3_ipv4 9] ?u = Inr u'"
    using find sd by (simp add: joinMulticastSources_def with_membership_def assertE_def isMulticast_def sock_def joined_membership_def
      addMulticastMembership_def lower_bound_def lower_bound_loop.simps membership_key_def push_known_def has_source_def
      sample_socket_def new_sock_desc_def)
  then show ?thesis
    using source_filters_never_grow [OF sample_run [where mode = CRC_DISABLED], where i = 7 and ie = "(1, True)" and g = "l3_ipv4 0xE0000005"
      and sources = "[l3_ipv4 9]"] find sd by fastforce
qed

end
