(* ===== verification/Spec2Isabelle.thy ===== *)
theory Spec2Isabelle
  imports Tcp_Demux Dumb_Tcp Tcp_Fsm_Laws Tcp_Delivery Tcp_Guarded_Runs Color_Node Pccp_App Pccp_Indicator Simple_Cluster
    Ipv4_Host Ipv4_Waiting Mac_Relay Bridge_Relay Stp_Network Udp_Delivery
begin

text \<open>
  A model of the protocol cores of a modified INET framework (C++ modules of the OMNeT++
  simulator). All paths are below \<open>src/inet4/src/inet\<close>.

  \<^bold>\<open>The parts of the program.\<close> INET simulates network nodes: applications talk through
  sockets to transport protocols, these to network layers, these to link layers; every module
  is a state machine that handles packets, commands and its own timer messages one at a time.
  The modification adds an information-centric network layer (COLOR: content is requested by
  name, cached on the way and forwarded by heads of clusters), the PCCP congestion control on
  top of it, and a clustering protocol. Modelled are TCP, UDP, IPv4, the buffers they share, Ethernet
  switches with their spanning tree, and the information-centric stack. \<open>PROJECT.json\<close> lists every part.

  \<^bold>\<open>How the code is translated.\<close> A module is a record of its fields, an operation a function
  on the record. \<open>ASSERT\<close>, \<open>cRuntimeError\<close> and undefined behaviour of C++ (an end iterator
  dereferenced, a deleted message used) are values of the type \<open>'a outcome\<close>
  (\<open>Inet_Prelude\<close>), so that no branch of the code is lost. The calls out of a module are
  collected in an output list of its record. A timer message is \<open>Idle\<close>, \<open>Scheduled t\<close> or
  \<open>Deleted\<close>; \<open>schedule\<close> and \<open>cancelIfThere\<close> are \<open>scheduleAt\<close> and \<open>cancelEvent\<close>. Integers
  of the code that can wrap around are words of their width, times are integers in
  picoseconds, \<open>double\<close>s are exact rationals where they are modelled. \<open>std::map\<close>s are
  association lists where their order or the copies in them matter, else maps.

  \<^bold>\<open>Sequence numbers and buffers.\<close> \<open>Serial_Number\<close> states as a locale what a wrap-around
  comparison guarantees inside half of the number space; \<open>Tcp_Seq\<close>
  (\<open>transportlayer/tcp_common/TcpHeader.h\<close>) interprets it for 32 bits. \<open>Region_Buffer\<close> models
  \<open>common/packet/ChunkBuffer.cc\<close>, \<open>ReorderBuffer\<close> and \<open>ReassemblyBuffer\<close>; its lemmas
  refine a buffer to the partial function from offsets to octets, and \<open>Fragment_Reassembly\<close>
  adds what the fragment buffers of the network layers share.

  \<^bold>\<open>TCP\<close> (\<open>transportlayer/tcp\<close>). \<open>Tcp_Send_Queue\<close>, \<open>Tcp_Receive_Queue\<close> and
  \<open>Tcp_Sack_Queue\<close> are the three queues, each refined to a function of octets. \<open>Tcp_State\<close>
  is the connection with its state variables and the header; \<open>Tcp_Output\<close> is
  \<open>TcpConnectionUtil.cc\<close> (windows, options, sending), \<open>Tcp_Sack_Util\<close> the loss recovery of
  RFC 3517, \<open>Tcp_Fsm\<close> the state machine of \<open>TcpConnectionBase.cc\<close>, \<open>Tcp_Segment\<close> the
  handling of segments and timers (\<open>TcpConnectionRcvSegment.cc\<close>), \<open>Tcp_Commands\<close> that of
  application commands (\<open>TcpConnectionEventProc.cc\<close>), \<open>Tcp_Demux\<close> the module \<open>Tcp.cc\<close>
  with its connection tables and ephemeral ports. A congestion control is a record of
  handlers: \<open>Dumb_Tcp\<close> is the one of \<open>flavours/DumbTcp.cc\<close>, \<open>Tcp_Base_Alg\<close> the base
  \<open>TcpBaseAlg\<close> with its four timers, and \<open>Tcp_Flavours\<close> Tahoe, Reno, NewReno and none. What
  a connection needs of its algorithm is stated as locales: \<open>quiet_algorithm\<close>, whose callbacks
  leave the sending state alone, and \<open>guard_algorithm\<close>, whose timers watch what is
  unacknowledged; \<open>Tcp_Guard_Laws\<close> discharges the second for three flavours, and
  \<open>Tcp_Guarded_Runs\<close> proves from it that no run of a connection forgets its retransmission
  timer. \<open>Tcp_Window_Laws\<close> shows
  what the receive window promises and admits, \<open>Tcp_Fsm_Laws\<close> the life cycle against
  RFC 793, \<open>Tcp_Transmit_Laws\<close> what \<open>sendData\<close> puts on the wire, and \<open>Tcp_Delivery\<close> joins
  both ends: the segments of a sender, reordered and repeated, give its stream again.

  \<^bold>\<open>UDP\<close> (\<open>transportlayer/udp/Udp.cc\<close>). \<open>L3_Address\<close> are addresses of any network layer
  (\<open>networklayer/common/L3Address.cc\<close>), \<open>Port_Search\<close> the search for a free port, which TCP uses
  too. \<open>Udp_Socket\<close> has the tables of sockets, ports and multicast memberships with the operations
  on them, \<open>Udp\<close> the datagrams, check sums, ICMP errors and commands up to the step function
  \<open>udp_step\<close>. \<open>Udp_Laws\<close> shows that every step keeps the tables consistent and fails only with an
  error that the code raises; \<open>Udp_Delivery\<close> says which sockets get a datagram, what arrives at the
  other end, and that the filters of multicast sources never grow. A pointer to a socket is its id;
  the sum over the serialized octets is a parameter, of which the law that a sum verifies is assumed.

  \<^bold>\<open>IPv4\<close> (\<open>networklayer/ipv4\<close>). \<open>Ipv4_Address\<close> are addresses and netmasks
  (\<open>contract/ipv4/Ipv4Address.cc\<close>), \<open>Ipv4_Routing_Table\<close> the table of \<open>Ipv4RoutingTable.cc\<close> with its
  cache, the routes of interfaces and the multicast routes. \<open>Ipv4_Lookup\<close> proves the binary search
  that inserts a route, as a locale of weak orders interpreted for both kinds of routes, and
  states the longest prefix match as a scan of all routes; \<open>Ipv4_Table_Laws\<close> and
  \<open>Ipv4_Table_Runs\<close> show that every operation keeps order and cache, so that the cached lookup is
  that match in every reachable table. \<open>Ipv4_Datagram\<close> has the header, the fragmenting loop and
  \<open>Ipv4FragBuf.cc\<close>, \<open>Ipv4_Reassembly\<close> what fragments of fragments become in any order.
  \<open>Ipv4_Output\<close> and \<open>Ipv4_Node\<close> are the module \<open>Ipv4.cc\<close>: hooks, fragmentation, address
  resolution, routing, multicast, delivery and sockets; \<open>Ipv4_Forwarding\<close> joins it with the
  routing table and \<open>Ipv4_Host\<close> with the reassembly. Addresses are words of 32 bits, offsets and
  identifications of 16; a header is a record whose chunk is as long as its length field. Hooks
  and the check sum of a serialized header are parameters. \<open>Arp\<close> is address resolution
  (\<open>networklayer/arp/ipv4/Arp.cc\<close>), which IPv4 calls; \<open>Ipv4_Arp_Runs\<close> takes both modules through
  any sequence of events, and \<open>Ipv4_Waiting\<close> shows that the datagrams that wait for an address
  have a request under way and are sent or given up in order. \<open>Ordered_Map\<close> is \<open>std::map\<close>.

  \<^bold>\<open>Switches and bridges\<close> (\<open>linklayer/ethernet/switch\<close>, \<open>linklayer/ieee8021d\<close>). \<open>Mac_Address\<close> are
  link layer addresses, \<open>Switch_Port\<close> the ports with their spanning tree data, the frames, and a
  locale of what a switch relies on in an address table; \<open>Mac_Table\<close> is \<open>MacAddressTable.cc\<close>, refined
  to the places where addresses were seen last, and interprets the locale; \<open>Mac_Relay\<close> is the relay
  of a switch without spanning tree, \<open>Bridge_Relay\<close> that of an IEEE 802.1D bridge. \<open>Stp\<close> is the
  spanning tree protocol of \<open>Stp.cc\<close> and \<open>StpBase.cc\<close>, \<open>Stp_Laws\<close> shows that its comparisons are a
  lexicographic order and its election finds the least vector, and \<open>Stp_Network\<close> lets any number of
  bridges run under any delays, losses and repetitions of BPDUs. The lines of a file of static
  addresses are a parameter.

  \<^bold>\<open>The information-centric layer\<close> (\<open>networklayer/icn\<close>). \<open>Icn_Ids\<close> are the identifiers and
  their order; \<open>Color_Pit\<close>, \<open>Color_Routes\<close>, \<open>Delay_Queue\<close> and \<open>Color_Store\<close> are the pending
  table, the routing table, the queue of delayed packets and the content store with the
  fragment buffer; \<open>Color_Node\<close> (\<open>color/color.cc\<close>) composes them to the node, whose events
  are the step function \<open>color_step\<close>. \<open>Simple_Cluster\<close> is the protocol that gives the nodes
  their roles; a step relation is its environment.

  \<^bold>\<open>PCCP\<close> (\<open>applications/pccpapp\<close>, \<open>queueing/filter/PccpIndicator.cc\<close>). \<open>Pccp_Send_Queue\<close> is
  the request queue, \<open>Pccp_Alg\<close> the window and the retransmission, where one locale of request
  sources, interpreted with the queue of new and of repeated requests, carries the proof of
  both sending loops; \<open>Pccp_App\<close> is the application with its runs, \<open>Pccp_Indicator\<close> the
  filter that measures the congestion.

  \<^bold>\<open>Loops and fuel.\<close> Loops over lists are structural recursions. A loop without an obvious
  end takes a bound on its rounds that is a quantity every round decreases: the sending loops
  run at most once per octet that may be sent (a round that sends nothing is an error), the
  extraction at most once per octet in the receive queue; the search for an ephemeral port
  is proved to end within one round of the range, where running out would be \<open>None\<close>. The
  loop of the SACK loss recovery takes its bound as an argument and returns \<open>None\<close> when it is
  not done; Reno gives it as many rounds as the congestion window has octets, and the error
  \<open>RoundsExhausted\<close> stands for a loop that needs more. The loops of PCCP count the effective window down as the code does.

  \<^bold>\<open>Not modelled.\<close> Statistics, printing, signals, the display and the lifecycle operations are
  left out everywhere. The physical layer, mobility and visualisation compute in floating
  point; bindings to other stacks and the emulation call code outside the repository; packet
  serializers work on raw memory. The remaining protocols (SCTP, ICMP, IGMP, IPv6, RSTP, the
  other link layers and the routing protocols) are not modelled.
\<close>

end
